(* ===== verification/Prelude.thy ===== *)
theory Prelude
  imports Main "HOL-Library.Word" "HOL-Library.Multiset"
begin

text \<open>
  Shared ground of the development: the machine integers of the code, its error values, the
  dynamic arrays it grows with \<open>realloc\<close>, the two binary-search loops it repeats in several
  files, \<open>qsort\<close>, and byte spans of a medium.

  Unsigned integers are natural numbers; every operation of the code that can leave its width is
  written with the wrap-around (\<open>u64_add\<close>, \<open>u64_sub\<close>, \<open>u64_mul\<close>, \<open>u32_cast\<close>). \<open>size_t\<close> is 64 bits
  wide. Bit-level code (CRC-32, PSN inversion, byte order) is written on \<open>'w word\<close> values.
\<close>

section \<open>Named collections\<close>

named_theorems code_defs \<open>unfolding equations of small code definitions\<close>
named_theorems span_simps \<open>equations on byte spans\<close>
named_theorems view_laws \<open>what the operations of a sector source keep\<close>

section \<open>Machine integers\<close>

type_synonym byte = "8 word"
type_synonym u32 = nat
type_synonym u64 = nat

abbreviation (input) two64 :: nat where "two64 \<equiv> 18446744073709551616"
abbreviation (input) two32 :: nat where "two32 \<equiv> 4294967296"

definition UINT64_MAX :: u64 where "UINT64_MAX = 18446744073709551615"
definition UINT32_MAX :: u32 where "UINT32_MAX = 4294967295"
definition SIZE_MAX :: u64 where "SIZE_MAX = 18446744073709551615"

definition u64_add :: "u64 \<Rightarrow> u64 \<Rightarrow> u64" where
  "u64_add a b = (a + b) mod two64"

definition u64_sub :: "u64 \<Rightarrow> u64 \<Rightarrow> u64" where
  "u64_sub a b = (a + (two64 - b)) mod two64"

definition u64_mul :: "u64 \<Rightarrow> u64 \<Rightarrow> u64" where
  "u64_mul a b = (a * b) mod two64"

definition u32_cast :: "u64 \<Rightarrow> u32" where
  "u32_cast a = a mod two32"

lemma u64_add_id [simp]: "a + b < two64 \<Longrightarrow> u64_add a b = a + b"
  by (simp add: u64_add_def)

lemma u64_add_less [simp]: "u64_add a b < two64"
  by (simp add: u64_add_def)

lemma u64_sub_id [simp]: "b \<le> a \<Longrightarrow> a < two64 \<Longrightarrow> u64_sub a b = a - b"
  by (simp add: u64_sub_def mod_if)

lemma u64_sub_less [simp]: "u64_sub a b < two64"
  by (simp add: u64_sub_def)

lemma u64_mul_id [simp]: "a * b < two64 \<Longrightarrow> u64_mul a b = a * b"
  by (simp add: u64_mul_def)

lemma u64_mul_less [simp]: "u64_mul a b < two64"
  by (simp add: u64_mul_def)

lemma u32_cast_id [simp]: "a < two32 \<Longrightarrow> u32_cast a = a"
  by (simp add: u32_cast_def)

section \<open>Errors (src/core/error.c)\<close>

datatype error_code =
    ERROR_NONE | ERROR_INVALID_ARGUMENT | ERROR_OUT_OF_BOUNDS | ERROR_INVALID_SOURCE
  | ERROR_INVALID_VOLUME | ERROR_NOT_FOUND | ERROR_PROTOCOL | ERROR_TRANSPORT
  | ERROR_IO | ERROR_UNSUPPORTED | ERROR_CANCELLED | ERROR_INTERNAL

record gdox_error =
  code :: error_code
  message :: string

definition GDOX_ERROR_MESSAGE_CAPACITY :: nat where "GDOX_ERROR_MESSAGE_CAPACITY = 384"

definition gdox_error_clear :: "gdox_error option \<Rightarrow> gdox_error option" where
  "gdox_error_clear error =
     (case error of None \<Rightarrow> None | Some e \<Rightarrow> Some (e\<lparr>code := ERROR_NONE, message := []\<rparr>))"

definition gdox_error_set :: "gdox_error option \<Rightarrow> error_code \<Rightarrow> string option \<Rightarrow> gdox_error option" where
  "gdox_error_set error c text =
     (case error of None \<Rightarrow> None
      | Some e \<Rightarrow>
          (case text of None \<Rightarrow> Some (e\<lparr>code := c, message := []\<rparr>)
           | Some t \<Rightarrow> Some (e\<lparr>code := c, message := take (GDOX_ERROR_MESSAGE_CAPACITY - 1) t\<rparr>)))"

definition gdox_error_is_set :: "gdox_error option \<Rightarrow> bool" where
  "gdox_error_is_set error = (case error of None \<Rightarrow> False | Some e \<Rightarrow> code e \<noteq> ERROR_NONE)"

text \<open>
  An operation of the code returns \<open>bool\<close> and fills \<open>gdox_error\<close> exactly when it returns false; the
  model returns the filled error on the left or the outputs on the right. \<open>err c m\<close> is the
  value \<open>gdox_error_set\<close> leaves in a caller's error object.
\<close>

type_synonym 'a res = "gdox_error + 'a"

definition err :: "error_code \<Rightarrow> string \<Rightarrow> gdox_error" where
  "err c m = \<lparr>code = c, message = m\<rparr>"

abbreviation fail :: "error_code \<Rightarrow> string \<Rightarrow> 'a res" where
  "fail c m \<equiv> Inl (err c m)"

lemma code_err [simp]: "code (err c m) = c"
  by (simp add: err_def)

lemma err_eq_iff [simp]: "err c m = err c' m' \<longleftrightarrow> c = c' \<and> m = m'"
  by (simp add: err_def)

lemma gdox_error_set_err:
  "length m < GDOX_ERROR_MESSAGE_CAPACITY \<Longrightarrow> gdox_error_set (Some e) c (Some m) = Some (err c m\<lparr>code := c\<rparr>)"
  by (cases e) (simp add: gdox_error_set_def err_def GDOX_ERROR_MESSAGE_CAPACITY_def)

section \<open>Byte spans\<close>

text \<open>\<open>span f a n\<close>: the \<open>n\<close> bytes of the medium \<open>f\<close> from byte address \<open>a\<close>.\<close>

definition span :: "(nat \<Rightarrow> 'a) \<Rightarrow> nat \<Rightarrow> nat \<Rightarrow> 'a list" where
  "span f a n = map f [a..<a + n]"

lemma length_span [simp, span_simps]: "length (span f a n) = n"
  by (simp add: span_def)

lemma nth_span [simp, span_simps]: "i < n \<Longrightarrow> span f a n ! i = f (a + i)"
  by (simp add: span_def)

lemma span_0 [simp, span_simps]: "span f a 0 = []"
  by (simp add: span_def)

lemma span_add: "span f a (m + n) = span f a m @ span f (a + m) n"
  by (rule nth_equalityI) (auto simp: nth_append)

lemma take_span [span_simps]: "take k (span f a n) = span f a (min k n)"
  by (rule nth_equalityI) auto

lemma drop_span [span_simps]: "drop k (span f a n) = span f (a + k) (n - k)"
  by (rule nth_equalityI) (auto simp: add.assoc)

lemma span_cong: "(\<And>i. a \<le> i \<Longrightarrow> i < a + n \<Longrightarrow> f i = g i) \<Longrightarrow> span f a n = span g a n"
  by (auto simp: span_def)

lemma span_shift: "span (\<lambda>i. f (c + i)) a n = span f (c + a) n"
  by (rule nth_equalityI) (auto simp: add.assoc)

lemma span_eqI:
  "length xs = n \<Longrightarrow> (\<And>i. i < n \<Longrightarrow> xs ! i = f (a + i)) \<Longrightarrow> xs = span f a n"
  by (rule nth_equalityI) auto

text \<open>The bytes of a list placed at address 0 (the contents of a file).\<close>

definition bytes_at :: "byte list \<Rightarrow> nat \<Rightarrow> byte" where
  "bytes_at bs i = (if i < length bs then bs ! i else 0)"

lemma span_bytes_at: "a + n \<le> length bs \<Longrightarrow> span (bytes_at bs) a n = take n (drop a bs)"
  by (rule nth_equalityI) (auto simp: bytes_at_def)

text \<open>\<open>memcmp\<close> of a window of a buffer with a constant, when the window lies inside.\<close>

definition window_eq :: "byte list \<Rightarrow> nat \<Rightarrow> byte list \<Rightarrow> bool" where
  "window_eq bs i pat = (take (length pat) (drop i bs) = pat)"

lemma window_eq_nth:
  "i + length pat \<le> length bs \<Longrightarrow>
   window_eq bs i pat \<longleftrightarrow> (\<forall>k<length pat. bs ! (i + k) = pat ! k)"
  by (auto simp: window_eq_def list_eq_iff_nth_eq)

lemma find_mem: "find P xs = Some x \<Longrightarrow> x \<in> set xs \<and> P x"
  by (induction xs) (auto split: if_splits)

section \<open>Binary search\<close>

text \<open>
  The loop \<open>while (low < high) { middle = low + (high - low) / 2; if (p(middle)) low = middle + 1;
  else high = middle; }\<close>, used by the directory cache, the read-ahead source and the XBE patch source.
\<close>

function bsearch :: "(nat \<Rightarrow> bool) \<Rightarrow> nat \<Rightarrow> nat \<Rightarrow> nat" where
  "bsearch p low high =
     (if low < high
      then (let middle = low + (high - low) div 2
            in if p middle then bsearch p (middle + 1) high else bsearch p low middle)
      else low)"
  by pat_completeness auto
termination
  by (relation "measure (\<lambda>(p, low, high). high - low)") auto

declare bsearch.simps [simp del]

text \<open>
  The counting form \<open>while (remaining != 0) { step = remaining / 2; middle = first + step; ... }\<close> of
  \<open>lower_bound_patch\<close> and \<open>find_segment\<close>.
\<close>

function lower_bound :: "(nat \<Rightarrow> bool) \<Rightarrow> nat \<Rightarrow> nat \<Rightarrow> nat" where
  "lower_bound p first remaining =
     (if remaining \<noteq> 0
      then (let step = remaining div 2; middle = first + step
            in if p middle then lower_bound p (middle + 1) (remaining - (step + 1))
               else lower_bound p first step)
      else first)"
  by pat_completeness auto
termination
  by (relation "measure (\<lambda>(p, first, remaining). remaining)") auto

declare lower_bound.simps [simp del]

definition antitone_on :: "nat \<Rightarrow> nat \<Rightarrow> (nat \<Rightarrow> bool) \<Rightarrow> bool" where
  "antitone_on low high p = (\<forall>i j. low \<le> i \<and> i \<le> j \<and> j < high \<and> p j \<longrightarrow> p i)"

lemma antitone_onD: "antitone_on low high p \<Longrightarrow> low \<le> i \<Longrightarrow> i \<le> j \<Longrightarrow> j < high \<Longrightarrow> p j \<Longrightarrow> p i"
  by (auto simp: antitone_on_def)

lemma antitone_on_mono: "antitone_on low high p \<Longrightarrow> low \<le> low' \<Longrightarrow> high' \<le> high \<Longrightarrow> antitone_on low' high' p"
  unfolding antitone_on_def by (meson le_trans less_le_trans)

lemma bsearch_bounds: "low \<le> high \<Longrightarrow> low \<le> bsearch p low high \<and> bsearch p low high \<le> high"
proof (induction p low high rule: bsearch.induct)
  case (1 p low high)
  show ?case
  proof (cases "low < high")
    case False
    then show ?thesis using "1.prems" by (simp add: bsearch.simps)
  next
    case True
    have "bsearch p low high =
        (if p (low + (high - low) div 2) then bsearch p (low + (high - low) div 2 + 1) high
         else bsearch p low (low + (high - low) div 2))"
      using True by (subst bsearch.simps) (simp add: Let_def)
    moreover have "low + (high - low) div 2 < high" using True by linarith
    ultimately show ?thesis
      using "1.IH"[OF True refl] by (cases "p (low + (high - low) div 2)") fastforce+
  qed
qed

lemma bsearch_stops: "bsearch p low high < high \<Longrightarrow> \<not> p (bsearch p low high)"
proof (induction p low high rule: bsearch.induct)
  case (1 p low high)
  define m where "m = low + (high - low) div 2"
  show ?case
  proof (cases "low < high")
    case True
    then have m: "low \<le> m" "m < high" by (auto simp: m_def)
    have eq: "bsearch p low high = (if p m then bsearch p (m + 1) high else bsearch p low m)"
      using True by (subst bsearch.simps) (simp add: m_def Let_def)
    show ?thesis
    proof (cases "p m")
      case True
      then show ?thesis using "1.IH"(1)[OF \<open>low < high\<close> m_def] "1.prems" eq by simp
    next
      case False
      then show ?thesis
        using "1.IH"(2)[OF \<open>low < high\<close> m_def] eq bsearch_bounds[of low m p] m
        by (cases "bsearch p low m = m") auto
    qed
  qed (use "1.prems" in \<open>simp add: bsearch.simps\<close>)
qed

lemma bsearch_split:
  assumes "low \<le> high" and "antitone_on low high p"
  shows "(\<forall>i. low \<le> i \<and> i < bsearch p low high \<longrightarrow> p i)
       \<and> (\<forall>i. bsearch p low high \<le> i \<and> i < high \<longrightarrow> \<not> p i)"
  using assms
proof (induction p low high rule: bsearch.induct)
  case (1 p low high)
  define m where "m = low + (high - low) div 2"
  show ?case
  proof (cases "low < high")
    case False
    then show ?thesis by (auto simp: bsearch.simps)
  next
    case True
    then have m: "low \<le> m" "m < high" by (auto simp: m_def)
    show ?thesis
    proof (cases "p m")
      case pm: True
      have eq: "bsearch p low high = bsearch p (m + 1) high"
        using True pm by (subst bsearch.simps) (simp add: m_def Let_def)
      have "antitone_on (m + 1) high p"
        using "1.prems"(2) m by (auto elim: antitone_on_mono)
      then have IH: "(\<forall>i. m + 1 \<le> i \<and> i < bsearch p (m + 1) high \<longrightarrow> p i)
          \<and> (\<forall>i. bsearch p (m + 1) high \<le> i \<and> i < high \<longrightarrow> \<not> p i)"
        using "1.IH"(1)[OF True m_def pm] m by simp
      have "p i" if "low \<le> i" "i \<le> m" for i
        using antitone_onD[OF "1.prems"(2) that] m pm by simp
      with IH eq show ?thesis by (metis Suc_eq_plus1 not_less_eq_eq)
    next
      case pm: False
      have eq: "bsearch p low high = bsearch p low m"
        using True pm by (subst bsearch.simps) (simp add: m_def Let_def)
      have "antitone_on low m p"
        using "1.prems"(2) m by (auto elim: antitone_on_mono)
      then have IH: "(\<forall>i. low \<le> i \<and> i < bsearch p low m \<longrightarrow> p i)
          \<and> (\<forall>i. bsearch p low m \<le> i \<and> i < m \<longrightarrow> \<not> p i)"
        using "1.IH"(2)[OF True m_def pm] m by simp
      have "\<not> p i" if "m \<le> i" "i < high" for i
        using antitone_onD[OF "1.prems"(2) m(1) that] pm by auto
      with IH eq show ?thesis by (metis not_le_imp_less)
    qed
  qed
qed

lemma lower_bound_bsearch: "lower_bound p first n = bsearch p first (first + n)"
proof (induction p first n rule: lower_bound.induct)
  case (1 p first n)
  show ?case
  proof (cases "n = 0")
    case True
    then show ?thesis by (simp add: lower_bound.simps bsearch.simps)
  next
    case False
    have "first + n div 2 + 1 + (n - (n div 2 + 1)) = first + n"
      using False by linarith
    with "1.IH"[OF False refl refl] False show ?thesis
      by (subst lower_bound.simps, subst bsearch.simps) (auto simp: Let_def)
  qed
qed

section \<open>Numbers in messages\<close>

text \<open>\<open>%llu\<close> of \<open>printf\<close>.\<close>

fun decimal :: "nat \<Rightarrow> string" where
  "decimal n = (if n < 10 then [char_of (48 + n)] else decimal (n div 10) @ [char_of (48 + n mod 10)])"

declare decimal.simps [simp del]

end
