(* ===== verification/Containers.thy ===== *)
theory Containers
  imports Prelude
begin

text \<open>
  The container idioms the C files repeat: arrays grown with \<open>realloc\<close>, \<open>qsort\<close> with a
  comparison function, and sorted extent arrays that carry the running maximum of their ends
  (\<open>prefix_max_end\<close>) so that overlapping extents can be searched by bisection. Two interfaces are
  stated as locales: \<open>comparator\<close> (what \<open>qsort\<close> needs of its callback) and \<open>extent_index\<close>
  (what a lookup needs of the extent record); each file that owns such an array interprets them.
\<close>

section \<open>Growable arrays\<close>

text \<open>
  \<open>items\<close>, \<open>count\<close> and \<open>capacity\<close> of the code; \<open>count\<close> is the length of the list. \<open>mem n\<close> tells
  whether an allocation of \<open>n\<close> bytes succeeds.
\<close>

record 'a vec =
  vec_items :: "'a list"
  vec_capacity :: nat

definition vec_empty :: "'a vec" where
  "vec_empty = \<lparr>vec_items = [], vec_capacity = 0\<rparr>"

definition grown_capacity :: "nat \<Rightarrow> nat \<Rightarrow> nat \<Rightarrow> nat" where
  "grown_capacity initial limit capacity =
     (let c = (if capacity = 0 then initial else capacity * 2)
      in if c > limit then limit else c)"

definition vec_push ::
  "(nat \<Rightarrow> bool) \<Rightarrow> nat \<Rightarrow> nat \<Rightarrow> nat \<Rightarrow> gdox_error \<Rightarrow> gdox_error \<Rightarrow> 'a vec \<Rightarrow> 'a \<Rightarrow> 'a vec res" where
  "vec_push mem elem initial limit full nomem v x =
     (if length (vec_items v) \<ge> limit then Inl full
      else if length (vec_items v) = vec_capacity v
      then (let capacity = grown_capacity initial limit (vec_capacity v)
            in if \<not> mem (capacity * elem) then Inl nomem
               else Inr \<lparr>vec_items = vec_items v @ [x], vec_capacity = capacity\<rparr>)
      else Inr (v\<lparr>vec_items := vec_items v @ [x]\<rparr>))"

text \<open>The variant that only compares the grown capacity with the count (\<open>offset_vector_push\<close>).\<close>

definition vec_push_late ::
  "(nat \<Rightarrow> bool) \<Rightarrow> nat \<Rightarrow> nat \<Rightarrow> nat \<Rightarrow> gdox_error \<Rightarrow> gdox_error \<Rightarrow> 'a vec \<Rightarrow> 'a \<Rightarrow> 'a vec res" where
  "vec_push_late mem elem initial limit full nomem v x =
     (if length (vec_items v) = vec_capacity v
      then (let capacity = grown_capacity initial limit (vec_capacity v)
            in if length (vec_items v) = capacity then Inl full
               else if \<not> mem (capacity * elem) then Inl nomem
               else Inr \<lparr>vec_items = vec_items v @ [x], vec_capacity = capacity\<rparr>)
      else Inr (v\<lparr>vec_items := vec_items v @ [x]\<rparr>))"

text \<open>The stored elements fit the allocation, and the allocation fits the limit.\<close>

definition vec_ok :: "nat \<Rightarrow> 'a vec \<Rightarrow> bool" where
  "vec_ok limit v \<longleftrightarrow> length (vec_items v) \<le> vec_capacity v \<and> vec_capacity v \<le> limit"

lemma vec_empty_items [simp]: "vec_items vec_empty = []"
  by (simp add: vec_empty_def)

lemma vec_empty_ok [simp]: "vec_ok limit vec_empty"
  by (simp add: vec_ok_def vec_empty_def)

lemma vec_push_items:
  "vec_push mem elem initial limit full nomem v x = Inr v' \<Longrightarrow> vec_items v' = vec_items v @ [x]"
  by (auto simp: vec_push_def Let_def split: if_splits)

lemma vec_push_late_items:
  "vec_push_late mem elem initial limit full nomem v x = Inr v' \<Longrightarrow> vec_items v' = vec_items v @ [x]"
  by (auto simp: vec_push_late_def Let_def split: if_splits)

text \<open>The element is written inside the allocation: the new count is within the new capacity.\<close>

lemma vec_push_ok:
  assumes "vec_ok limit v" and "0 < initial"
    and "vec_push mem elem initial limit full nomem v x = Inr v'"
  shows "vec_ok limit v'"
  using assms
  by (auto simp: vec_push_def vec_ok_def grown_capacity_def Let_def split: if_splits)

lemma vec_push_late_ok:
  assumes "vec_ok limit v" and "0 < initial"
    and "vec_push_late mem elem initial limit full nomem v x = Inr v'"
  shows "vec_ok limit v'"
  using assms
  by (auto simp: vec_push_late_def vec_ok_def grown_capacity_def Let_def split: if_splits)

lemma vec_push_limit:
  "vec_push mem elem initial limit full nomem v x = Inr v' \<Longrightarrow> length (vec_items v') \<le> limit"
  by (auto simp: vec_push_def Let_def split: if_splits)

lemma vec_push_Inl:
  "vec_push mem elem initial limit full nomem v x = Inl e \<Longrightarrow> e = full \<or> e = nomem"
  by (auto simp: vec_push_def Let_def split: if_splits)

lemma vec_push_succeeds:
  "length (vec_items v) < limit \<Longrightarrow> (\<And>n. mem n) \<Longrightarrow>
   \<exists>v'. vec_push mem elem initial limit full nomem v x = Inr v'"
  by (auto simp: vec_push_def Let_def)

section \<open>qsort\<close>

text \<open>
  \<open>qsort\<close> is modelled as a stable sort by the code's comparison callback. Where the callback returns
  0 for elements that differ, the C library may order them either way; the model fixes the
  stable order.
\<close>

fun insert_by :: "('a \<Rightarrow> 'a \<Rightarrow> int) \<Rightarrow> 'a \<Rightarrow> 'a list \<Rightarrow> 'a list" where
  "insert_by cmp x [] = [x]"
| "insert_by cmp x (y # ys) = (if cmp x y \<le> 0 then x # y # ys else y # insert_by cmp x ys)"

fun qsort :: "('a \<Rightarrow> 'a \<Rightarrow> int) \<Rightarrow> 'a list \<Rightarrow> 'a list" where
  "qsort cmp [] = []"
| "qsort cmp (x # xs) = insert_by cmp x (qsort cmp xs)"

lemma mset_insert_by: "mset (insert_by cmp x xs) = add_mset x (mset xs)"
  by (induction xs) auto

lemma mset_qsort [simp]: "mset (qsort cmp xs) = mset xs"
  by (induction xs) (auto simp: mset_insert_by)

lemma set_qsort [simp]: "set (qsort cmp xs) = set xs"
  by (rule mset_eq_setD) simp

lemma length_qsort [simp]: "length (qsort cmp xs) = length xs"
  by (rule mset_eq_length) simp

locale comparator =
  fixes cmp :: "'a \<Rightarrow> 'a \<Rightarrow> int"
  assumes total: "cmp a b \<le> 0 \<or> cmp b a \<le> 0"
    and trans: "cmp a b \<le> 0 \<Longrightarrow> cmp b c \<le> 0 \<Longrightarrow> cmp a c \<le> 0"
begin

lemma sorted_insert_by:
  "sorted_wrt (\<lambda>a b. cmp a b \<le> 0) xs \<Longrightarrow> sorted_wrt (\<lambda>a b. cmp a b \<le> 0) (insert_by cmp x xs)"
proof (induction xs)
  case Nil
  then show ?case by simp
next
  case (Cons y ys)
  have "set (insert_by cmp x ys) = insert x (set ys)"
    using arg_cong[OF mset_insert_by[of cmp x ys], of set_mset] by simp
  with Cons show ?case
    using total[of x y] by (auto intro: trans)
qed

lemma sorted_qsort: "sorted_wrt (\<lambda>a b. cmp a b \<le> 0) (qsort cmp xs)"
  by (induction xs) (auto intro: sorted_insert_by)

lemma qsort_nth_mono: "i \<le> j \<Longrightarrow> j < length xs \<Longrightarrow> cmp (qsort cmp xs ! i) (qsort cmp xs ! j) \<le> 0"
  using sorted_wrt_nth_less[OF sorted_qsort, of i j xs] total[of "qsort cmp xs ! j" "qsort cmp xs ! j"]
  by (cases "i = j") auto

end

section \<open>Extents with a running maximum of their ends\<close>

text \<open>
  The loop that fills \<open>prefix_max_end\<close>: \<open>if (end > prefix_max_end) prefix_max_end = end;
  extents[index].prefix_max_end = prefix_max_end;\<close>.
\<close>

fun index_prefix :: "('e \<Rightarrow> nat) \<Rightarrow> (nat \<Rightarrow> 'e \<Rightarrow> 'e) \<Rightarrow> nat \<Rightarrow> 'e list \<Rightarrow> 'e list" where
  "index_prefix stop upd m [] = []"
| "index_prefix stop upd m (x # xs) =
     (let m' = (if stop x > m then stop x else m)
      in upd m' x # index_prefix stop upd m' xs)"

lemma map_index_prefix:
  "(\<And>m x. g (upd m x) = g x) \<Longrightarrow> map g (index_prefix stop upd m xs) = map g xs"
  by (induction xs arbitrary: m) (auto simp: Let_def)

text \<open>Every entry's mark bounds the ends up to it and is the end of one of them (or 0).\<close>

definition prefix_marked :: "('e \<Rightarrow> nat) \<Rightarrow> ('e \<Rightarrow> nat) \<Rightarrow> 'e list \<Rightarrow> bool" where
  "prefix_marked stop mark xs \<longleftrightarrow>
     (\<forall>i<length xs. (\<forall>j\<le>i. stop (xs ! j) \<le> mark (xs ! i))
        \<and> (mark (xs ! i) = 0 \<or> (\<exists>j\<le>i. mark (xs ! i) = stop (xs ! j))))"

definition indexed :: "('e \<Rightarrow> nat) \<Rightarrow> ('e \<Rightarrow> nat) \<Rightarrow> ('e \<Rightarrow> nat) \<Rightarrow> 'e list \<Rightarrow> bool" where
  "indexed start stop mark xs \<longleftrightarrow> sorted (map start xs) \<and> prefix_marked stop mark xs"

text \<open>
  The two bisections of \<open>first_containing_extent\<close> and \<open>find_containing_extent\<close>: the first entry
  that covers the sectors from \<open>lba\<close> up to \<open>request_end\<close>.
\<close>

definition containing ::
  "('e \<Rightarrow> nat) \<Rightarrow> ('e \<Rightarrow> nat) \<Rightarrow> ('e \<Rightarrow> nat) \<Rightarrow> 'e list \<Rightarrow> nat \<Rightarrow> nat \<Rightarrow> nat option" where
  "containing start stop mark xs lba request_end =
     (let low = bsearch (\<lambda>i. start (xs ! i) \<le> lba) 0 (length xs)
      in if low = 0 then None
         else if mark (xs ! (low - 1)) < request_end then None
         else (let first = bsearch (\<lambda>i. mark (xs ! i) < request_end) 0 (low - 1 + 1)
               in if stop (xs ! first) \<ge> request_end then Some first else None))"

locale extent_index =
  fixes start stop mark :: "'e \<Rightarrow> nat" and upd :: "nat \<Rightarrow> 'e \<Rightarrow> 'e"
  assumes mark_upd [simp]: "mark (upd m x) = m"
    and start_upd [simp]: "start (upd m x) = start x"
    and stop_upd [simp]: "stop (upd m x) = stop x"
begin

lemma length_index_prefix [simp]: "length (index_prefix stop upd m xs) = length xs"
  by (induction xs arbitrary: m) (auto simp: Let_def)

lemma index_prefix_starts [simp]: "map start (index_prefix stop upd m xs) = map start xs"
  by (induction xs arbitrary: m) (auto simp: Let_def)

lemma index_prefix_stops [simp]: "map stop (index_prefix stop upd m xs) = map stop xs"
  by (induction xs arbitrary: m) (auto simp: Let_def)

lemma index_prefix_nth:
  "i < length xs \<Longrightarrow> \<exists>k. index_prefix stop upd m xs ! i = upd k (xs ! i)"
proof (induction xs arbitrary: m i)
  case (Cons x xs)
  then show ?case by (cases i) (auto simp: Let_def)
qed simp

lemma index_prefix_marks:
  "i < length xs \<Longrightarrow>
   mark (index_prefix stop upd m xs ! i) = max m (Max (stop ` set (take (Suc i) xs)))"
proof (induction xs arbitrary: m i)
  case (Cons x xs)
  define m' where "m' = (if stop x > m then stop x else m)"
  show ?case
  proof (cases i)
    case 0
    then show ?thesis by (simp add: Let_def max_def)
  next
    case (Suc k)
    then have k: "k < length xs" using Cons.prems by simp
    have ne: "stop ` set (take (Suc k) xs) \<noteq> {}" using k by (cases xs) auto
    have "index_prefix stop upd m (x # xs) ! i = index_prefix stop upd m' xs ! k"
      using Suc by (simp add: Let_def m'_def)
    then have "mark (index_prefix stop upd m (x # xs) ! i) = max m' (Max (stop ` set (take (Suc k) xs)))"
      using Cons.IH[OF k] by simp
    also have "\<dots> = max m (Max (insert (stop x) (stop ` set (take (Suc k) xs))))"
      using ne by (simp add: m'_def Max_insert max_def)
    finally show ?thesis using Suc by simp
  qed
qed simp

lemma prefix_marked_index: "prefix_marked stop mark (index_prefix stop upd 0 xs)"
  unfolding prefix_marked_def
proof (intro allI impI conjI)
  fix i j
  assume i: "i < length (index_prefix stop upd 0 xs)" and "j \<le> i"
  then have "stop (xs ! j) \<in> stop ` set (take (Suc i) xs)"
    by (auto simp: in_set_conv_nth intro!: image_eqI[where x = "xs ! j"] exI[where x = j])
  moreover have "stop (index_prefix stop upd 0 xs ! j) = stop (xs ! j)"
    using index_prefix_nth[of j xs 0] i \<open>j \<le> i\<close> by auto
  ultimately show "stop (index_prefix stop upd 0 xs ! j) \<le> mark (index_prefix stop upd 0 xs ! i)"
    using i by (simp add: index_prefix_marks)
next
  fix i assume i: "i < length (index_prefix stop upd 0 xs)"
  let ?S = "stop ` set (take (Suc i) xs)"
  have "?S \<noteq> {}" using i by (cases xs) auto
  then have "Max ?S \<in> ?S" by (intro Max_in) auto
  then obtain j where j: "j \<le> i" "Max ?S = stop (xs ! j)" "j < length xs"
    using i by (auto simp: in_set_conv_nth less_Suc_eq_le)
  moreover have "stop (index_prefix stop upd 0 xs ! j) = stop (xs ! j)"
    using index_prefix_nth[of j xs 0] j by auto
  ultimately show "mark (index_prefix stop upd 0 xs ! i) = 0
      \<or> (\<exists>j\<le>i. mark (index_prefix stop upd 0 xs ! i) = stop (index_prefix stop upd 0 xs ! j))"
    using i by (auto simp: index_prefix_marks)
qed

lemma indexed_index_prefix:
  "sorted (map start xs) \<Longrightarrow> indexed start stop mark (index_prefix stop upd 0 xs)"
  by (simp add: indexed_def prefix_marked_index)

lemma mark_mono:
  assumes "prefix_marked stop mark xs" and "i \<le> j" and "j < length xs"
  shows "mark (xs ! i) \<le> mark (xs ! j)"
proof -
  have "mark (xs ! i) = 0 \<or> (\<exists>k\<le>i. mark (xs ! i) = stop (xs ! k))"
    using assms by (auto simp: prefix_marked_def)
  then show ?thesis
  proof
    assume "\<exists>k\<le>i. mark (xs ! i) = stop (xs ! k)"
    then obtain k where "k \<le> i" "mark (xs ! i) = stop (xs ! k)" by blast
    moreover have "\<forall>k\<le>j. stop (xs ! k) \<le> mark (xs ! j)"
      using assms by (auto simp: prefix_marked_def)
    ultimately show ?thesis using assms(2) by auto
  qed simp
qed

lemma starts_antitone: "sorted (map start xs) \<Longrightarrow> antitone_on 0 (length xs) (\<lambda>i. start (xs ! i) \<le> lba)"
  by (fastforce simp: antitone_on_def sorted_iff_nth_mono intro: le_trans)

lemma marks_antitone:
  "prefix_marked stop mark xs \<Longrightarrow> n \<le> length xs \<Longrightarrow> antitone_on 0 n (\<lambda>i. mark (xs ! i) < e)"
  unfolding antitone_on_def by (meson le_less_trans less_le_trans mark_mono)

lemma containing_Some:
  assumes ix: "indexed start stop mark xs" and c: "containing start stop mark xs lba e = Some i"
    and e: "0 < e"
  shows "i < length xs \<and> start (xs ! i) \<le> lba \<and> e \<le> stop (xs ! i)"
proof -
  define low where "low = bsearch (\<lambda>i. start (xs ! i) \<le> lba) 0 (length xs)"
  from c have low: "low \<noteq> 0" and m: "e \<le> mark (xs ! (low - 1))" and st: "e \<le> stop (xs ! i)"
    and i: "i = bsearch (\<lambda>i. mark (xs ! i) < e) 0 (low - 1 + 1)"
    by (auto simp: containing_def low_def Let_def split: if_splits)
  have low_le: "low \<le> length xs"
    unfolding low_def using bsearch_bounds[OF le0] by blast
  have anti: "antitone_on 0 low (\<lambda>i. mark (xs ! i) < e)"
    using ix low_le by (auto simp: indexed_def intro: marks_antitone)
  have i_le: "i \<le> low"
    using bsearch_bounds[OF le0, of "\<lambda>i. mark (xs ! i) < e" low] low i by simp
  have "i \<noteq> low"
  proof
    assume il: "i = low"
    have "\<forall>k. 0 \<le> k \<and> k < bsearch (\<lambda>i. mark (xs ! i) < e) 0 low \<longrightarrow> mark (xs ! k) < e"
      using bsearch_split[OF _ anti] by blast
    moreover have "bsearch (\<lambda>i. mark (xs ! i) < e) 0 low = low"
      using il i low by (metis Suc_eq_plus1 Suc_pred' gr0I)
    ultimately have "mark (xs ! (low - 1)) < e" using low by (metis diff_less gr0I le0 zero_less_one)
    with m show False by simp
  qed
  with i_le have "i < low" by simp
  moreover have "\<forall>k<low. start (xs ! k) \<le> lba"
    using bsearch_split[OF le0 starts_antitone, of xs lba] ix unfolding indexed_def low_def by blast
  ultimately show ?thesis using low_le st by simp
qed

lemma containing_None:
  assumes ix: "indexed start stop mark xs" and c: "containing start stop mark xs lba e = None"
    and i: "i < length xs" "start (xs ! i) \<le> lba" and e: "0 < e"
  shows "stop (xs ! i) < e"
proof (rule ccontr)
  assume "\<not> stop (xs ! i) < e"
  then have st: "e \<le> stop (xs ! i)" by simp
  define low where "low = bsearch (\<lambda>i. start (xs ! i) \<le> lba) 0 (length xs)"
  have srt: "sorted (map start xs)" using ix by (simp add: indexed_def)
  have split: "\<forall>k. low \<le> k \<and> k < length xs \<longrightarrow> \<not> start (xs ! k) \<le> lba"
    using bsearch_split[OF le0 starts_antitone[OF srt], of lba] unfolding low_def by blast
  have low_le: "low \<le> length xs"
    unfolding low_def using bsearch_bounds[OF le0] by blast
  have il: "i < low" using split i by (meson not_le_imp_less)
  have pm: "prefix_marked stop mark xs" using ix by (simp add: indexed_def)
  have "e \<le> mark (xs ! (low - 1))"
  proof -
    have "low - 1 < length xs" and "i \<le> low - 1" using il low_le by auto
    then have "stop (xs ! i) \<le> mark (xs ! (low - 1))"
      using pm by (auto simp: prefix_marked_def)
    with st show ?thesis by simp
  qed
  moreover define f where "f = bsearch (\<lambda>i. mark (xs ! i) < e) 0 low"
  ultimately have not: "\<not> e \<le> stop (xs ! f)"
    using c il by (auto simp: containing_def low_def Let_def f_def split: if_splits)
  have anti: "antitone_on 0 low (\<lambda>i. mark (xs ! i) < e)"
    using pm low_le by (rule marks_antitone)
  have sp: "(\<forall>k<f. mark (xs ! k) < e) \<and> (\<forall>k. f \<le> k \<and> k < low \<longrightarrow> \<not> mark (xs ! k) < e)"
    using bsearch_split[OF le0 anti] unfolding f_def by blast
  have "f < low"
  proof (rule ccontr)
    assume "\<not> f < low"
    with sp have "mark (xs ! (low - 1)) < e" using il by simp
    with \<open>e \<le> mark (xs ! (low - 1))\<close> show False by simp
  qed
  then have mf: "e \<le> mark (xs ! f)" using sp by auto
  have fl: "f < length xs" using \<open>f < low\<close> low_le by simp
  then obtain j where j: "j \<le> f" "mark (xs ! f) = stop (xs ! j)"
    using pm mf e by (auto simp: prefix_marked_def)
  have "stop (xs ! j) \<le> mark (xs ! j)"
    using pm j fl by (auto simp: prefix_marked_def)
  then have "\<not> j < f" using sp mf j by fastforce
  with j not mf show False by (metis le_neq_implies_less)
qed

end

end
