(* ===== verification/Source.thy ===== *)
theory Source
  imports Containers
begin

text \<open>
  The sector-source interface of src/include/gdox/source.h and src/src/core/source.c: the operation
  table every source implements, the checked entry points callers use, and the contracts a source
  keeps. A \<open>gdox_sector_source\<close> is an optional context (\<open>None\<close> is the empty handle with NULL
  context and operations) together with the operation table of its kind; the table is a record of
  functions, so an adapter is a table built from the table of the source it wraps.

  Reads deliver the bytes the C call leaves in its output buffer. Queries that take a
  \<open>const void *\<close> context may still change it (the read-ahead source casts the qualifier away), so
  they return the context too.
\<close>

abbreviation GDOX_LOGICAL_SECTOR_BYTES :: nat where "GDOX_LOGICAL_SECTOR_BYTES \<equiv> 2048"

section \<open>Data of the interface\<close>

text \<open>\<open>OUT_OF_RANGE\<close> stands for an integer outside the C enumeration, which an adapter could store.\<close>

datatype media_readiness =
    MEDIA_READINESS_UNKNOWN | MEDIA_READINESS_ABSENT | MEDIA_READINESS_PRESENT
  | MEDIA_READINESS_OUT_OF_RANGE

datatype media_event =
    MEDIA_EVENT_NONE | MEDIA_EVENT_EJECT_REQUEST | MEDIA_EVENT_NEW_MEDIA
  | MEDIA_EVENT_REMOVAL | MEDIA_EVENT_CHANGED | MEDIA_EVENT_OUT_OF_RANGE

record media_observation =
  readiness :: media_readiness
  generation :: u64
  event :: media_event

datatype removable_session_status =
    SESSION_PRESENT | SESSION_UNAVAILABLE | SESSION_EJECT_REQUESTED | SESSION_CHANGED

record physical_read_stats =
  stat_commands :: u64
  stat_sectors :: u64
  stat_bytes :: u64
  stat_last_lba :: u64

record disc_evidence =
  pfi_present :: bool
  dmi_present :: bool
  security_sector_present :: bool
  pfi :: "byte list"
  dmi :: "byte list"
  security_sector :: "byte list"
  evidence_note :: string

definition gdox_disc_evidence_clear :: disc_evidence where
  "gdox_disc_evidence_clear =
     \<lparr>pfi_present = False, dmi_present = False, security_sector_present = False,
      pfi = replicate 2048 0, dmi = replicate 2048 0, security_sector = replicate 2048 0, evidence_note = []\<rparr>"

definition no_read_stats :: physical_read_stats where
  "no_read_stats = \<lparr>stat_commands = 0, stat_sectors = 0, stat_bytes = 0, stat_last_lba = 0\<rparr>"

text \<open>
  The operation table, in the order of the C structure. \<open>op_close\<close> consumes the context; its second
  result records whether a source beneath was still open when the memory that owned it was freed.
\<close>

record 's source_ops =
  op_sector_count :: "'s \<Rightarrow> u64"
  op_read :: "'s \<Rightarrow> u64 \<Rightarrow> u32 \<Rightarrow> nat \<Rightarrow> byte list res \<times> 's"
  op_media_present :: "('s \<Rightarrow> bool \<times> 's) option"
  op_close :: "'s \<Rightarrow> unit res \<times> bool"
  op_evidence :: "('s \<Rightarrow> bool \<times> disc_evidence) option"
  op_physical_read_stats :: "('s \<Rightarrow> bool \<times> physical_read_stats) option"
  op_abort :: "('s \<Rightarrow> 's) option"
  op_prepare_close :: "('s \<Rightarrow> unit res \<times> 's) option"
  op_observe_media :: "('s \<Rightarrow> media_observation \<times> 's) option"

type_synonym 's sector_source = "'s option"

definition gdox_source_is_valid :: "'s sector_source \<Rightarrow> bool" where
  "gdox_source_is_valid source = (source \<noteq> None)"

lemma gdox_source_is_valid_simps [simp]:
  "gdox_source_is_valid (Some s)" "\<not> gdox_source_is_valid None"
  by (simp_all add: gdox_source_is_valid_def)

section \<open>Checked entry points\<close>

definition gdox_removable_session_classify ::
  "media_observation option \<Rightarrow> bool \<Rightarrow> u64 \<Rightarrow> removable_session_status" where
  "gdox_removable_session_classify observation generation_known expected_generation =
     (case observation of
        None \<Rightarrow> SESSION_UNAVAILABLE
      | Some ob \<Rightarrow>
          if (generation_known \<and> generation ob \<noteq> expected_generation)
             \<or> event ob = MEDIA_EVENT_NEW_MEDIA
             \<or> event ob = MEDIA_EVENT_REMOVAL
             \<or> event ob = MEDIA_EVENT_CHANGED
          then SESSION_CHANGED
          else if event ob = MEDIA_EVENT_EJECT_REQUEST then SESSION_EJECT_REQUESTED
          else if readiness ob = MEDIA_READINESS_PRESENT then SESSION_PRESENT
          else SESSION_UNAVAILABLE)"

definition gdox_source_sector_count :: "'s source_ops \<Rightarrow> 's sector_source \<Rightarrow> u64" where
  "gdox_source_sector_count ops source =
     (case source of None \<Rightarrow> 0 | Some s \<Rightarrow> op_sector_count ops s)"

definition gdox_source_validate_read :: "u64 \<Rightarrow> u64 \<Rightarrow> u32 \<Rightarrow> nat \<Rightarrow> unit res" where
  "gdox_source_validate_read sectors lba blocks output_bytes =
     (let expected = blocks * GDOX_LOGICAL_SECTOR_BYTES
      in if blocks = 0
         then fail ERROR_INVALID_ARGUMENT ''sector read must contain at least one block''
         else if expected > SIZE_MAX \<or> output_bytes \<noteq> expected
         then fail ERROR_PROTOCOL ''sector read buffer has the wrong size''
         else if lba > sectors \<or> blocks > u64_sub sectors lba
         then fail ERROR_OUT_OF_BOUNDS ''sector read is outside the source''
         else Inr ())"

definition gdox_source_read ::
  "'s source_ops \<Rightarrow> 's sector_source \<Rightarrow> u64 \<Rightarrow> u32 \<Rightarrow> nat \<Rightarrow> byte list res \<times> 's sector_source" where
  "gdox_source_read ops source lba blocks output_bytes =
     (case source of
        None \<Rightarrow> (fail ERROR_INVALID_ARGUMENT ''valid source and output are required'', None)
      | Some s \<Rightarrow>
          (case gdox_source_validate_read (op_sector_count ops s) lba blocks output_bytes of
             Inl e \<Rightarrow> (Inl e, Some s)
           | Inr _ \<Rightarrow>
               (case op_read ops s lba blocks output_bytes of (r, s') \<Rightarrow> (r, Some s'))))"

definition clamp_observation :: "media_observation \<Rightarrow> media_observation" where
  "clamp_observation ob =
     ob\<lparr>readiness := (if readiness ob = MEDIA_READINESS_OUT_OF_RANGE
                      then MEDIA_READINESS_UNKNOWN else readiness ob),
        event := (if event ob = MEDIA_EVENT_OUT_OF_RANGE then MEDIA_EVENT_NONE else event ob)\<rparr>"

definition gdox_source_observe_media ::
  "'s source_ops \<Rightarrow> 's sector_source \<Rightarrow> bool \<times> media_observation \<times> 's sector_source" where
  "gdox_source_observe_media ops source =
     (let initial = \<lparr>readiness = MEDIA_READINESS_UNKNOWN, generation = 0, event = MEDIA_EVENT_NONE\<rparr>
      in case source of
           None \<Rightarrow> (False, initial, None)
         | Some s \<Rightarrow>
             (case op_observe_media ops of
                Some f \<Rightarrow> (case f s of (ob, s') \<Rightarrow> (True, clamp_observation ob, Some s'))
              | None \<Rightarrow>
                  (case op_media_present ops of
                     None \<Rightarrow> (True, initial\<lparr>readiness := MEDIA_READINESS_PRESENT\<rparr>, Some s)
                   | Some f \<Rightarrow>
                       (case f s of (present, s') \<Rightarrow>
                          (True,
                           initial\<lparr>readiness := (if present then MEDIA_READINESS_PRESENT
                                                 else MEDIA_READINESS_ABSENT)\<rparr>,
                           Some s')))))"

definition gdox_source_media_present ::
  "'s source_ops \<Rightarrow> 's sector_source \<Rightarrow> bool \<times> 's sector_source" where
  "gdox_source_media_present ops source =
     (case gdox_source_observe_media ops source of
        (ok, ob, source') \<Rightarrow> (ok \<and> readiness ob = MEDIA_READINESS_PRESENT, source'))"

definition gdox_source_evidence :: "'s source_ops \<Rightarrow> 's sector_source \<Rightarrow> bool \<times> disc_evidence" where
  "gdox_source_evidence ops source =
     (case source of
        None \<Rightarrow> (False, gdox_disc_evidence_clear)
      | Some s \<Rightarrow>
          (case op_evidence ops of
             None \<Rightarrow> (False, gdox_disc_evidence_clear)
           | Some f \<Rightarrow> f s))"

definition gdox_source_physical_read_stats ::
  "'s source_ops \<Rightarrow> 's sector_source \<Rightarrow> bool \<times> physical_read_stats" where
  "gdox_source_physical_read_stats ops source =
     (case source of
        None \<Rightarrow> (False, no_read_stats)
      | Some s \<Rightarrow>
          (case op_physical_read_stats ops of
             None \<Rightarrow> (False, no_read_stats)
           | Some f \<Rightarrow> f s))"

definition gdox_source_abort :: "'s source_ops \<Rightarrow> 's sector_source \<Rightarrow> 's sector_source" where
  "gdox_source_abort ops source =
     (case source of
        None \<Rightarrow> None
      | Some s \<Rightarrow> (case op_abort ops of None \<Rightarrow> Some s | Some f \<Rightarrow> Some (f s)))"

definition gdox_source_prepare_close ::
  "'s source_ops \<Rightarrow> 's sector_source \<Rightarrow> unit res \<times> 's sector_source" where
  "gdox_source_prepare_close ops source =
     (case source of
        None \<Rightarrow> (fail ERROR_INVALID_ARGUMENT ''source is not open'', None)
      | Some s \<Rightarrow>
          (case op_prepare_close ops of
             None \<Rightarrow> (Inr (), Some s)
           | Some f \<Rightarrow> (case f s of (r, s') \<Rightarrow> (r, Some s'))))"

text \<open>Result, whether an open source was lost, and the handle the caller keeps.\<close>

definition gdox_source_close ::
  "'s source_ops \<Rightarrow> 's sector_source \<Rightarrow> unit res \<times> bool \<times> 's sector_source" where
  "gdox_source_close ops source =
     (case source of
        None \<Rightarrow> (fail ERROR_INVALID_ARGUMENT ''source is not open'', False, None)
      | Some s \<Rightarrow>
          (case gdox_source_prepare_close ops source of
             (Inl e, source') \<Rightarrow> (Inl e, False, source')
           | (Inr _, source') \<Rightarrow>
               (case source' of
                  None \<Rightarrow> (Inr (), False, None)
                | Some s' \<Rightarrow>
                    (case op_close ops s' of (r, lost) \<Rightarrow> (r, lost, None)))))"

definition gdox_source_destroy :: "'s source_ops \<Rightarrow> 's sector_source \<Rightarrow> bool \<times> 's sector_source" where
  "gdox_source_destroy ops source =
     (if gdox_source_is_valid source
      then (case gdox_source_close ops source of (_, lost, source') \<Rightarrow> (lost, source'))
      else (False, source))"

section \<open>Facts about the entry points\<close>

lemma validate_read_ok_iff:
  "sectors < two64 \<Longrightarrow>
   gdox_source_validate_read sectors lba blocks n = Inr () \<longleftrightarrow>
   0 < blocks \<and> n = blocks * GDOX_LOGICAL_SECTOR_BYTES \<and> n \<le> SIZE_MAX \<and> lba + blocks \<le> sectors"
  by (auto simp: gdox_source_validate_read_def Let_def)

lemma clamp_observation_in_range:
  "readiness (clamp_observation ob) \<noteq> MEDIA_READINESS_OUT_OF_RANGE"
  "event (clamp_observation ob) \<noteq> MEDIA_EVENT_OUT_OF_RANGE"
  by (auto simp: clamp_observation_def)

lemma gdox_source_read_None [simp]:
  "gdox_source_read ops None lba blocks n =
     (fail ERROR_INVALID_ARGUMENT ''valid source and output are required'', None)"
  by (simp add: gdox_source_read_def)

lemma gdox_source_sector_count_Some [simp]:
  "gdox_source_sector_count ops (Some s) = op_sector_count ops s"
  by (simp add: gdox_source_sector_count_def)

lemma gdox_source_read_outside:
  "op_sector_count ops s < two64 \<Longrightarrow> 0 < blocks \<Longrightarrow> blocks < two32 \<Longrightarrow>
   \<not> lba + blocks \<le> op_sector_count ops s \<Longrightarrow>
   gdox_source_read ops (Some s) lba blocks (blocks * GDOX_LOGICAL_SECTOR_BYTES) =
     (fail ERROR_OUT_OF_BOUNDS ''sector read is outside the source'', Some s)"
  by (auto simp: gdox_source_read_def gdox_source_validate_read_def Let_def SIZE_MAX_def)

section \<open>The contracts of a sector source\<close>

text \<open>
  \<open>contents s\<close> is the bytes a source shows. An operation that keeps the view keeps the
  source's invariant, its contents and its size; a read that succeeds delivers exactly the requested
  span of the contents.
\<close>

definition view_kept ::
  "'s source_ops \<Rightarrow> ('s \<Rightarrow> bool) \<Rightarrow> ('s \<Rightarrow> nat \<Rightarrow> byte) \<Rightarrow> 's \<Rightarrow> 's \<Rightarrow> bool" where
  "view_kept ops valid contents s s' \<longleftrightarrow>
     valid s' \<and> contents s' = contents s \<and> op_sector_count ops s' = op_sector_count ops s"

lemma view_kept_refl: "valid s \<Longrightarrow> view_kept ops valid contents s s"
  by (simp add: view_kept_def)

lemma view_kept_trans:
  "view_kept ops valid contents s t \<Longrightarrow> view_kept ops valid contents t u \<Longrightarrow> view_kept ops valid contents s u"
  by (simp add: view_kept_def)

locale sector_source =
  fixes ops :: "'s source_ops" and valid :: "'s \<Rightarrow> bool" and contents :: "'s \<Rightarrow> nat \<Rightarrow> byte"
  assumes count_less: "valid s \<Longrightarrow> op_sector_count ops s < two64"
    and read_view:
      "valid s \<Longrightarrow> gdox_source_validate_read (op_sector_count ops s) lba blocks n = Inr () \<Longrightarrow>
       op_read ops s lba blocks n = (r, s') \<Longrightarrow>
       view_kept ops valid contents s s'
       \<and> (\<forall>bs. r = Inr bs \<longrightarrow>
            bs = span (contents s) (lba * GDOX_LOGICAL_SECTOR_BYTES) (blocks * GDOX_LOGICAL_SECTOR_BYTES))"
    and media_view:
      "valid s \<Longrightarrow> op_media_present ops = Some f \<Longrightarrow> f s = (b, s') \<Longrightarrow> view_kept ops valid contents s s'"
    and abort_view:
      "valid s \<Longrightarrow> op_abort ops = Some g \<Longrightarrow> view_kept ops valid contents s (g s)"
    and prepare_view:
      "valid s \<Longrightarrow> op_prepare_close ops = Some h \<Longrightarrow> h s = (q, s') \<Longrightarrow> view_kept ops valid contents s s'"
    and observe_view:
      "valid s \<Longrightarrow> op_observe_media ops = Some k \<Longrightarrow> k s = (ob, s') \<Longrightarrow> view_kept ops valid contents s s'"
begin

lemma source_read_view:
  assumes "valid s" and "gdox_source_read ops (Some s) lba blocks n = (r, h)"
  shows "\<exists>s'. h = Some s' \<and> view_kept ops valid contents s s'
    \<and> (\<forall>bs. r = Inr bs \<longrightarrow>
         bs = span (contents s) (lba * GDOX_LOGICAL_SECTOR_BYTES) (blocks * GDOX_LOGICAL_SECTOR_BYTES)
         \<and> 0 < blocks \<and> n = blocks * GDOX_LOGICAL_SECTOR_BYTES
         \<and> lba + blocks \<le> op_sector_count ops s)"
proof (cases "gdox_source_validate_read (op_sector_count ops s) lba blocks n")
  case (Inl e)
  with assms show ?thesis by (auto simp: gdox_source_read_def view_kept_refl)
next
  case (Inr u)
  then have v: "gdox_source_validate_read (op_sector_count ops s) lba blocks n = Inr ()" by simp
  obtain r' s' where rd: "op_read ops s lba blocks n = (r', s')" by fastforce
  have "r = r'" "h = Some s'"
    using assms(2) v rd by (auto simp: gdox_source_read_def)
  moreover have "0 < blocks \<and> n = blocks * GDOX_LOGICAL_SECTOR_BYTES \<and> lba + blocks \<le> op_sector_count ops s"
    using v validate_read_ok_iff[OF count_less[OF assms(1)]] by blast
  ultimately show ?thesis
    using read_view[OF assms(1) v rd] by blast
qed

lemma source_observe_view:
  assumes "valid s" and "gdox_source_observe_media ops (Some s) = (b, ob, h)"
  shows "\<exists>s'. h = Some s' \<and> view_kept ops valid contents s s' \<and> b"
  using assms
  by (auto simp: gdox_source_observe_media_def Let_def view_kept_refl
      split: option.splits prod.splits intro: observe_view media_view)

lemma source_media_view:
  assumes "valid s" and "gdox_source_media_present ops (Some s) = (b, h)"
  shows "\<exists>s'. h = Some s' \<and> view_kept ops valid contents s s'"
  using assms source_observe_view[of s]
  by (auto simp: gdox_source_media_present_def split: prod.splits)

lemma source_abort_view:
  assumes "valid s"
  shows "\<exists>s'. gdox_source_abort ops (Some s) = Some s' \<and> view_kept ops valid contents s s'"
  using assms
  by (auto simp: gdox_source_abort_def view_kept_refl split: option.splits intro: abort_view)

lemma source_prepare_view:
  assumes "valid s" and "gdox_source_prepare_close ops (Some s) = (r, h)"
  shows "\<exists>s'. h = Some s' \<and> view_kept ops valid contents s s'"
  using assms
  by (auto simp: gdox_source_prepare_close_def view_kept_refl
      split: option.splits prod.splits intro: prepare_view)

lemmas source_views = source_read_view source_observe_view source_media_view
  source_abort_view source_prepare_view

end

text \<open>
  A source is reliable in the states \<open>ready\<close>: every request that passes validation is answered with
  data and leaves the source ready.
\<close>

text \<open>A sequence of reads of one handle, each after the other, and the answers that show the bytes \<open>f\<close>.\<close>

fun source_reads ::
  "'s source_ops \<Rightarrow> (u64 \<times> u32) list \<Rightarrow> 's sector_source \<Rightarrow> byte list res list \<times> 's sector_source" where
  "source_reads ops [] h = ([], h)"
| "source_reads ops ((lba, blocks) # requests) h =
     (case gdox_source_read ops h lba blocks (blocks * GDOX_LOGICAL_SECTOR_BYTES) of
        (r, h) \<Rightarrow> (case source_reads ops requests h of (rs, h) \<Rightarrow> (r # rs, h)))"

definition requests_inside :: "u64 \<Rightarrow> (u64 \<times> u32) list \<Rightarrow> bool" where
  "requests_inside sectors requests =
     list_all (\<lambda>(lba, blocks). 0 < blocks \<and> blocks < two32 \<and> lba + blocks \<le> sectors) requests"

definition span_answers :: "(nat \<Rightarrow> byte) \<Rightarrow> (u64 \<times> u32) list \<Rightarrow> byte list res list" where
  "span_answers f requests =
     map (\<lambda>(lba, blocks). Inr (span f (lba * GDOX_LOGICAL_SECTOR_BYTES) (blocks * GDOX_LOGICAL_SECTOR_BYTES))) requests"

locale reliable_source = sector_source +
  fixes ready :: "'s \<Rightarrow> bool"
  assumes ready_read:
    "valid s \<Longrightarrow> ready s \<Longrightarrow> gdox_source_validate_read (op_sector_count ops s) lba blocks n = Inr () \<Longrightarrow>
     \<exists>bs s'. op_read ops s lba blocks n = (Inr bs, s') \<and> ready s'"
begin

lemma source_read_ready_max:
  assumes "valid s" "ready s" "0 < blocks" "lba + blocks \<le> op_sector_count ops s"
    "blocks * GDOX_LOGICAL_SECTOR_BYTES \<le> SIZE_MAX"
  shows "\<exists>s'. gdox_source_read ops (Some s) lba blocks (blocks * GDOX_LOGICAL_SECTOR_BYTES) =
      (Inr (span (contents s) (lba * GDOX_LOGICAL_SECTOR_BYTES) (blocks * GDOX_LOGICAL_SECTOR_BYTES)), Some s')
     \<and> view_kept ops valid contents s s' \<and> ready s'"
proof -
  let ?n = "blocks * GDOX_LOGICAL_SECTOR_BYTES"
  have v: "gdox_source_validate_read (op_sector_count ops s) lba blocks ?n = Inr ()"
    using assms validate_read_ok_iff[OF count_less[OF assms(1)]] by simp
  obtain bs s' where rd: "op_read ops s lba blocks ?n = (Inr bs, s')" and "ready s'"
    using ready_read[OF assms(1,2) v] by blast
  then show ?thesis
    using read_view[OF assms(1) v rd] v by (auto simp: gdox_source_read_def)
qed

lemma source_read_ready:
  assumes "valid s" "ready s" "0 < blocks" "lba + blocks \<le> op_sector_count ops s" "blocks < two32"
  shows "\<exists>s'. gdox_source_read ops (Some s) lba blocks (blocks * GDOX_LOGICAL_SECTOR_BYTES) =
      (Inr (span (contents s) (lba * GDOX_LOGICAL_SECTOR_BYTES) (blocks * GDOX_LOGICAL_SECTOR_BYTES)), Some s')
     \<and> view_kept ops valid contents s s' \<and> ready s'"
  using assms by (intro source_read_ready_max) (simp_all add: SIZE_MAX_def)

lemma source_reads_ready:
  assumes "valid s" "ready s" "requests_inside (op_sector_count ops s) requests"
  shows "\<exists>s'. source_reads ops requests (Some s) = (span_answers (contents s) requests, Some s')
     \<and> view_kept ops valid contents s s' \<and> ready s'"
  using assms
proof (induction requests arbitrary: s)
  case Nil
  then show ?case by (simp add: span_answers_def view_kept_refl)
next
  case (Cons q requests)
  obtain lba blocks where q: "q = (lba, blocks)" by fastforce
  obtain s1 where rd: "gdox_source_read ops (Some s) lba blocks (blocks * GDOX_LOGICAL_SECTOR_BYTES) =
      (Inr (span (contents s) (lba * GDOX_LOGICAL_SECTOR_BYTES) (blocks * GDOX_LOGICAL_SECTOR_BYTES)), Some s1)"
    and s1: "view_kept ops valid contents s s1" "ready s1"
    using source_read_ready[of s blocks lba] Cons.prems by (auto simp: q requests_inside_def)
  have "valid s1" "requests_inside (op_sector_count ops s1) requests" "contents s1 = contents s"
    using s1(1) Cons.prems(3) by (simp_all add: view_kept_def requests_inside_def)
  then obtain s' where "source_reads ops requests (Some s1) = (span_answers (contents s) requests, Some s')"
    "view_kept ops valid contents s1 s'" "ready s'"
    using Cons.IH[of s1] s1(2) by auto
  then show ?case
    using rd view_kept_trans[OF s1(1)] by (auto simp: q span_answers_def)
qed

end

text \<open>
  The shutdown contract of \<open>prepare_close\<close>: it is idempotent once it has succeeded, and closing a
  prepared source loses nothing.
\<close>

definition prepare_step :: "'s source_ops \<Rightarrow> 's \<Rightarrow> unit res \<times> 's" where
  "prepare_step ops s = (case op_prepare_close ops of None \<Rightarrow> (Inr (), s) | Some f \<Rightarrow> f s)"

lemma gdox_source_prepare_close_Some:
  "gdox_source_prepare_close ops (Some s) = (case prepare_step ops s of (r, s') \<Rightarrow> (r, Some s'))"
  by (simp add: gdox_source_prepare_close_def prepare_step_def split: option.splits)

locale closable_source =
  fixes ops :: "'s source_ops" and prepared :: "'s \<Rightarrow> bool"
  assumes prepare_ok: "prepare_step ops s = (Inr (), s') \<Longrightarrow> prepared s'"
    and prepare_again: "prepared s \<Longrightarrow> \<exists>s'. prepare_step ops s = (Inr (), s') \<and> prepared s'"
    and close_clean: "prepared s \<Longrightarrow> op_close ops s = (r, lost) \<Longrightarrow> \<not> lost"
begin

lemma source_close_keeps:
  "gdox_source_close ops source = (r, lost, source') \<Longrightarrow> \<not> lost"
  by (auto simp: gdox_source_close_def gdox_source_prepare_close_Some
      split: option.splits prod.splits sum.splits dest: prepare_ok close_clean)

lemma source_close_prepared:
  assumes "prepared s" and "gdox_source_close ops (Some s) = (r, lost, source')"
  shows "source' = None \<and> \<not> lost"
proof -
  obtain s' where p: "prepare_step ops s = (Inr (), s')" "prepared s'"
    using prepare_again[OF assms(1)] by blast
  obtain r' lost' where c: "op_close ops s' = (r', lost')" by fastforce
  have "gdox_source_close ops (Some s) = (r', lost', None)"
    using p c by (simp add: gdox_source_close_def gdox_source_prepare_close_Some)
  with assms(2) close_clean[OF p(2) c] show ?thesis by simp
qed

lemma source_close_frees:
  "gdox_source_close ops (Some s) = (Inr u, lost, source') \<Longrightarrow> source' = None"
  by (auto simp: gdox_source_close_def split: option.splits prod.splits sum.splits)

end

end
