(* ===== verification/Adapter.thy ===== *)
theory Adapter
  imports Source
begin

text \<open>
  What the source adapters share. Every adapter (partition, byte patches, directory cache, default
  XBE cache, read-ahead, XBE patch, compact image) keeps the wrapped source in its context and hands
  media queries, evidence, statistics, abort and shutdown on to it. The forwarders below are those
  functions over the context's accessors (\<open>get\<close>, \<open>put\<close>) for the wrapped handle; the lemmas carry
  the contracts of the wrapped source over to the adapter's table.
\<close>

section \<open>Forwarded operations\<close>

definition forward_sector_count :: "('c \<Rightarrow> 's sector_source) \<Rightarrow> 's source_ops \<Rightarrow> 'c \<Rightarrow> u64" where
  "forward_sector_count get ops c = gdox_source_sector_count ops (get c)"

definition forward_media_present ::
  "('c \<Rightarrow> 's sector_source) \<Rightarrow> ('s sector_source \<Rightarrow> 'c \<Rightarrow> 'c) \<Rightarrow> 's source_ops \<Rightarrow> 'c \<Rightarrow> bool \<times> 'c" where
  "forward_media_present get put ops c =
     (case gdox_source_media_present ops (get c) of (b, h) \<Rightarrow> (b, put h c))"

definition forward_observe_media ::
  "('c \<Rightarrow> 's sector_source) \<Rightarrow> ('s sector_source \<Rightarrow> 'c \<Rightarrow> 'c) \<Rightarrow> 's source_ops \<Rightarrow> 'c
     \<Rightarrow> media_observation \<times> 'c" where
  "forward_observe_media get put ops c =
     (case gdox_source_observe_media ops (get c) of (_, ob, h) \<Rightarrow> (ob, put h c))"

definition forward_evidence :: "('c \<Rightarrow> 's sector_source) \<Rightarrow> 's source_ops \<Rightarrow> 'c \<Rightarrow> bool \<times> disc_evidence" where
  "forward_evidence get ops c = gdox_source_evidence ops (get c)"

definition forward_physical_read_stats ::
  "('c \<Rightarrow> 's sector_source) \<Rightarrow> 's source_ops \<Rightarrow> 'c \<Rightarrow> bool \<times> physical_read_stats" where
  "forward_physical_read_stats get ops c = gdox_source_physical_read_stats ops (get c)"

definition forward_abort ::
  "('c \<Rightarrow> 's sector_source) \<Rightarrow> ('s sector_source \<Rightarrow> 'c \<Rightarrow> 'c) \<Rightarrow> 's source_ops \<Rightarrow> 'c \<Rightarrow> 'c" where
  "forward_abort get put ops c = put (gdox_source_abort ops (get c)) c"

definition forward_prepare_close ::
  "('c \<Rightarrow> 's sector_source) \<Rightarrow> ('s sector_source \<Rightarrow> 'c \<Rightarrow> 'c) \<Rightarrow> 's source_ops \<Rightarrow> 'c \<Rightarrow> unit res \<times> 'c" where
  "forward_prepare_close get put ops c =
     (case gdox_source_prepare_close ops (get c) of (r, h) \<Rightarrow> (r, put h c))"

text \<open>
  The close functions call \<open>gdox_source_close\<close> on the wrapped handle and free the context whatever
  the outcome: a handle that is still open afterwards is lost.
\<close>

definition forward_close :: "('c \<Rightarrow> 's sector_source) \<Rightarrow> 's source_ops \<Rightarrow> 'c \<Rightarrow> unit res \<times> bool" where
  "forward_close get ops c =
     (case gdox_source_close ops (get c) of (r, lost, h) \<Rightarrow> (r, lost \<or> gdox_source_is_valid h))"

section \<open>Contracts carried over\<close>

context sector_source
begin

lemma forward_media_view:
  assumes "get c = Some s" "valid s" "forward_media_present get put ops c = (b, c')"
  shows "\<exists>s'. c' = put (Some s') c \<and> view_kept ops valid contents s s'"
  using assms source_media_view[of s]
  by (auto simp: forward_media_present_def split: prod.splits)

lemma forward_observe_view:
  assumes "get c = Some s" "valid s" "forward_observe_media get put ops c = (ob, c')"
  shows "\<exists>s'. c' = put (Some s') c \<and> view_kept ops valid contents s s'"
  using assms source_observe_view[of s]
  by (auto simp: forward_observe_media_def split: prod.splits)

lemma forward_abort_view:
  assumes "get c = Some s" "valid s"
  shows "\<exists>s'. forward_abort get put ops c = put (Some s') c \<and> view_kept ops valid contents s s'"
  using assms source_abort_view[of s]
  by (auto simp: forward_abort_def)

lemma forward_prepare_view:
  assumes "get c = Some s" "valid s" "forward_prepare_close get put ops c = (r, c')"
  shows "\<exists>s'. c' = put (Some s') c \<and> view_kept ops valid contents s s'"
  using assms source_prepare_view[of s]
  by (auto simp: forward_prepare_close_def split: prod.splits)

text \<open>
  An adapter that forwards everything but its reads is a sector source when its own view survives
  the replacement of the wrapped state by one with the same view, and its reads obey the contract.
\<close>

lemma adapter_sector_source:
  fixes aops :: "'c source_ops" and get put avalid acontents
  assumes media: "op_media_present aops = Some (forward_media_present get put ops)"
    and observe: "op_observe_media aops = Some (forward_observe_media get put ops)"
    and abort: "\<And>c g. op_abort aops = Some g \<Longrightarrow> avalid c \<Longrightarrow> view_kept aops avalid acontents c (g c)"
    and prepare: "\<And>c h q c'. op_prepare_close aops = Some h \<Longrightarrow> avalid c \<Longrightarrow> h c = (q, c') \<Longrightarrow>
       view_kept aops avalid acontents c c'"
    and inner: "\<And>c. avalid c \<Longrightarrow> \<exists>s. get c = Some s \<and> valid s"
    and put: "\<And>c s s'. avalid c \<Longrightarrow> get c = Some s \<Longrightarrow> view_kept ops valid contents s s' \<Longrightarrow>
       view_kept aops avalid acontents c (put (Some s') c)"
    and count: "\<And>c. avalid c \<Longrightarrow> op_sector_count aops c < two64"
    and read: "\<And>c lba blocks n r c'. avalid c \<Longrightarrow>
       gdox_source_validate_read (op_sector_count aops c) lba blocks n = Inr () \<Longrightarrow>
       op_read aops c lba blocks n = (r, c') \<Longrightarrow>
       view_kept aops avalid acontents c c'
       \<and> (\<forall>bs. r = Inr bs \<longrightarrow>
            bs = span (acontents c) (lba * GDOX_LOGICAL_SECTOR_BYTES) (blocks * GDOX_LOGICAL_SECTOR_BYTES))"
  shows "sector_source aops avalid acontents"
proof
  fix c b c' f
  assume c: "avalid c" and "op_media_present aops = Some f" and f: "f c = (b, c')"
  then have f: "forward_media_present get put ops c = (b, c')" using media by simp
  obtain s where s: "get c = Some s" "valid s" using inner[OF c] by blast
  from forward_media_view[where get = get and put = put, OF s f] put[OF c s(1)]
  show "view_kept aops avalid acontents c c'" by blast
next
  fix c ob c' k
  assume c: "avalid c" and "op_observe_media aops = Some k" and k: "k c = (ob, c')"
  then have k: "forward_observe_media get put ops c = (ob, c')" using observe by simp
  obtain s where s: "get c = Some s" "valid s" using inner[OF c] by blast
  from forward_observe_view[where get = get and put = put, OF s k] put[OF c s(1)]
  show "view_kept aops avalid acontents c c'" by blast
qed (use count read abort prepare in \<open>blast+\<close>)

end

context closable_source
begin

lemma forward_close_clean:
  "get c = Some s \<Longrightarrow> prepared s \<Longrightarrow> forward_close get ops c = (r, lost) \<Longrightarrow> \<not> lost"
  by (auto simp: forward_close_def split: prod.splits dest: source_close_prepared)

text \<open>
  An adapter that closes with \<open>forward_close\<close> keeps the shutdown contract when its preparation
  succeeds exactly with the wrapped source's preparation.
\<close>

lemma adapter_closable:
  fixes aops :: "'c source_ops" and get
  assumes prep: "\<And>c s. get c = Some s \<Longrightarrow>
        prepare_step aops c = (case prepare_step ops s of (r, s') \<Rightarrow> (r, put r (Some s') c))"
    and prep_None: "\<And>c r c'. get c = None \<Longrightarrow> prepare_step aops c = (r, c') \<Longrightarrow> r \<noteq> Inr ()"
    and get_put: "\<And>r h c. get (put r h c) = h"
    and close: "op_close aops = forward_close get ops"
  shows "closable_source aops (\<lambda>c. \<exists>s. get c = Some s \<and> prepared s)"
proof
  fix c c' assume "prepare_step aops c = (Inr (), c')"
  then show "\<exists>s. get c' = Some s \<and> prepared s"
    using prep[of c] prep_None[of c] get_put
    by (cases "get c") (auto split: prod.splits dest: prepare_ok)
next
  fix c assume "\<exists>s. get c = Some s \<and> prepared s"
  then obtain s where s: "get c = Some s" "prepared s" by blast
  obtain s' where "prepare_step ops s = (Inr (), s')" "prepared s'"
    using prepare_again[OF s(2)] by blast
  then show "\<exists>c'. prepare_step aops c = (Inr (), c') \<and> (\<exists>s. get c' = Some s \<and> prepared s)"
    using prep[OF s(1)] get_put by auto
next
  fix c r lost assume "\<exists>s. get c = Some s \<and> prepared s" "op_close aops c = (r, lost)"
  then show "\<not> lost" using close forward_close_clean by metis
qed

end

lemma prepare_step_forward:
  "op_prepare_close aops = Some (forward_prepare_close get put ops) \<Longrightarrow> get c = Some s \<Longrightarrow>
   prepare_step aops c = (case prepare_step ops s of (r, s') \<Rightarrow> (r, put (Some s') c))"
  by (simp add: prepare_step_def forward_prepare_close_def gdox_source_prepare_close_def
      split: option.splits prod.splits)

lemma prepare_step_forward_None:
  "op_prepare_close aops = Some (forward_prepare_close get put ops) \<Longrightarrow> get c = None \<Longrightarrow>
   prepare_step aops c = (r, c') \<Longrightarrow> r \<noteq> Inr ()"
  by (auto simp: prepare_step_def forward_prepare_close_def gdox_source_prepare_close_def)

end
