(* ===== verification/FileSource.thy ===== *)
theory FileSource
  imports Source
begin

text \<open>
  The image-file source of src/src/platform/file_source_posix.c: opening a regular file whose size is a
  whole number of sectors, and the \<open>pread\<close> loop that retries on \<open>EINTR\<close> and continues after short
  reads. The kernel is the parameter: \<open>fc_data\<close> is what the descriptor's file holds, and
  \<open>fc_script\<close> its answers to the coming \<open>pread\<close> calls (an interruption, an error, or at most so many
  bytes); after the script every call returns all it can. A script is finite, so a signal does not
  interrupt for ever.
\<close>

datatype pread_answer = PREAD_EINTR | PREAD_ERROR string | PREAD_BYTES nat

record file_context =
  fc_data :: "byte list"
  fc_sectors :: u64
  fc_script :: "pread_answer list"
  fc_close_error :: "string option"

definition INT64_MAX :: nat where "INT64_MAX = 9223372036854775807"
definition SSIZE_MAX :: nat where "SSIZE_MAX = 9223372036854775807"

definition next_answer :: "pread_answer list \<Rightarrow> pread_answer \<times> pread_answer list" where
  "next_answer script = (case script of [] \<Rightarrow> (PREAD_BYTES SSIZE_MAX, []) | a # rest \<Rightarrow> (a, rest))"

text \<open>Bytes a \<open>pread\<close> of \<open>request\<close> bytes returns: 0 only at the end of the file.\<close>

definition pread_count :: "byte list \<Rightarrow> nat \<Rightarrow> nat \<Rightarrow> nat \<Rightarrow> nat" where
  "pread_count data offset request limit = min (min request (length data - offset)) (max 1 limit)"

lemma next_answer_length:
  "(a, rest) = next_answer script \<Longrightarrow> length rest \<le> length script"
  "(PREAD_EINTR, rest) = next_answer script \<Longrightarrow> length rest < length script"
  by (auto simp: next_answer_def split: list.splits)

lemma pread_count_le: "pread_count data offset request limit \<le> request"
  by (simp add: pread_count_def)

definition file_sector_count :: "file_context \<Rightarrow> u64" where
  "file_sector_count fc = fc_sectors fc"

definition io_message :: "string \<Rightarrow> string \<Rightarrow> string" where
  "io_message prefix text = take (GDOX_ERROR_MESSAGE_CAPACITY - 1) (prefix @ text)"

text \<open>The loop of \<open>file_read\<close>; \<open>done\<close> is the part of the output buffer already filled.\<close>

function file_read_loop ::
  "byte list \<Rightarrow> pread_answer list \<Rightarrow> u64 \<Rightarrow> nat \<Rightarrow> byte list \<Rightarrow> byte list res \<times> pread_answer list" where
  "file_read_loop data script offset remaining filled =
     (if remaining = 0 then (Inr filled, script)
      else (let request = min remaining SSIZE_MAX
            in if offset > INT64_MAX
               then (fail ERROR_OUT_OF_BOUNDS ''file offset exceeds POSIX range'', script)
               else (case next_answer script of
                       (PREAD_EINTR, script') \<Rightarrow> file_read_loop data script' offset remaining filled
                     | (PREAD_ERROR text, script') \<Rightarrow>
                         (fail ERROR_IO (io_message ''file read failed: '' text), script')
                     | (PREAD_BYTES limit, script') \<Rightarrow>
                         (let received = pread_count data offset request limit
                          in if received = 0
                             then (fail ERROR_IO ''file ended during a sector read'', script')
                             else file_read_loop data script' (u64_add offset received)
                                    (remaining - received)
                                    (filled @ take received (drop offset data))))))"
  by pat_completeness auto
termination
proof (relation "measure (\<lambda>(data, script, offset, remaining, filled). length script + remaining)", goal_cases)
  case 1
  show ?case by simp
next
  case (2 data script offset remaining filled request a rest)
  then show ?case using next_answer_length(2)[of rest script] by simp
next
  case (3 data script offset remaining filled request a rest limit received)
  then have "received \<le> remaining" "received \<noteq> 0" "length rest \<le> length script"
    using pread_count_le[of data offset request limit] next_answer_length(1)[of a rest script]
    by auto
  with 3 show ?case by simp
qed

declare file_read_loop.simps [simp del]

definition file_read :: "file_context \<Rightarrow> u64 \<Rightarrow> u32 \<Rightarrow> nat \<Rightarrow> byte list res \<times> file_context" where
  "file_read fc lba blocks output_bytes =
     (case file_read_loop (fc_data fc) (fc_script fc) (u64_mul lba GDOX_LOGICAL_SECTOR_BYTES)
             output_bytes [] of
        (r, script') \<Rightarrow> (r, fc\<lparr>fc_script := script'\<rparr>))"

definition file_media_present :: "file_context \<Rightarrow> bool \<times> file_context" where
  "file_media_present fc = (True, fc)"

definition file_observe_media :: "file_context \<Rightarrow> media_observation \<times> file_context" where
  "file_observe_media fc =
     (\<lparr>readiness = MEDIA_READINESS_PRESENT, generation = 0, event = MEDIA_EVENT_NONE\<rparr>, fc)"

definition file_close :: "file_context \<Rightarrow> unit res \<times> bool" where
  "file_close fc =
     (case fc_close_error fc of
        None \<Rightarrow> (Inr (), False)
      | Some text \<Rightarrow> (fail ERROR_IO (io_message ''file close failed: '' text), False))"

definition file_ops :: "file_context source_ops" where
  "file_ops =
     \<lparr>op_sector_count = file_sector_count, op_read = file_read,
      op_media_present = Some file_media_present, op_close = file_close,
      op_evidence = None, op_physical_read_stats = None, op_abort = None,
      op_prepare_close = None, op_observe_media = Some file_observe_media\<rparr>"

lemma file_ops_simps [simp]:
  "op_sector_count file_ops = file_sector_count" "op_read file_ops = file_read"
  "op_media_present file_ops = Some file_media_present" "op_close file_ops = file_close"
  "op_evidence file_ops = None" "op_physical_read_stats file_ops = None"
  "op_abort file_ops = None" "op_prepare_close file_ops = None"
  "op_observe_media file_ops = Some file_observe_media"
  by (simp_all add: file_ops_def)

text \<open>
  What \<open>open\<close> and \<open>fstat\<close> report for a path: an error, or a descriptor with the outcome of
  \<open>fstat\<close>, whether the file is regular, its size, and the file behind it.
\<close>

datatype open_outcome =
    OPEN_ERROR string
  | OPEN_DESCRIPTOR (fstat_error: "string option") (is_regular: bool) (st_size: int)
      (file_data: "byte list") (file_script: "pread_answer list") (close_error: "string option")

definition gdox_source_open_file ::
  "bool \<Rightarrow> (string \<Rightarrow> open_outcome) \<Rightarrow> string option \<Rightarrow> file_context sector_source res" where
  "gdox_source_open_file mem filesystem path =
     (case path of
        None \<Rightarrow> fail ERROR_INVALID_ARGUMENT ''file path and output are required''
      | Some name \<Rightarrow>
          if name = [] then fail ERROR_INVALID_ARGUMENT ''file path and output are required''
          else (case filesystem name of
                  OPEN_ERROR text \<Rightarrow> fail ERROR_IO (io_message ''could not open image: '' text)
                | OPEN_DESCRIPTOR stat_error regular file_size data script close_err \<Rightarrow>
                    (case stat_error of
                       Some text \<Rightarrow> fail ERROR_IO (io_message ''could not inspect image: '' text)
                     | None \<Rightarrow>
                         if \<not> regular \<or> file_size < 0
                         then fail ERROR_INVALID_SOURCE ''image path is not a regular file''
                         else if nat file_size mod GDOX_LOGICAL_SECTOR_BYTES \<noteq> 0
                         then fail ERROR_INVALID_SOURCE ''image size is not a multiple of 2048 bytes''
                         else if \<not> mem
                         then fail ERROR_INTERNAL ''could not allocate file source''
                         else Inr (Some \<lparr>fc_data = data,
                                fc_sectors = nat file_size div GDOX_LOGICAL_SECTOR_BYTES,
                                fc_script = script, fc_close_error = close_err\<rparr>))))"

section \<open>The file source keeps the source contracts\<close>

text \<open>A size that fits \<open>off_t\<close>.\<close>

definition file_valid :: "file_context \<Rightarrow> bool" where
  "file_valid fc \<longleftrightarrow> fc_sectors fc * GDOX_LOGICAL_SECTOR_BYTES \<le> INT64_MAX"

definition file_contents :: "file_context \<Rightarrow> nat \<Rightarrow> byte" where
  "file_contents fc = bytes_at (fc_data fc)"

text \<open>The kernel has no error in store and the file was not truncated since it was opened.\<close>

definition file_ready :: "file_context \<Rightarrow> bool" where
  "file_ready fc \<longleftrightarrow>
     (\<forall>text. PREAD_ERROR text \<notin> set (fc_script fc))
     \<and> fc_sectors fc * GDOX_LOGICAL_SECTOR_BYTES \<le> length (fc_data fc)"

lemma pread_count_take:
  "take (pread_count data offset request limit) (drop offset data) =
   span (bytes_at data) offset (pread_count data offset request limit)"
proof (cases "offset \<le> length data")
  case True
  then have "offset + pread_count data offset request limit \<le> length data"
    by (auto simp: pread_count_def)
  then show ?thesis by (simp add: span_bytes_at)
qed (simp add: pread_count_def)

lemma file_read_loop_span:
  "file_read_loop data script offset remaining filled = (Inr bs, script') \<Longrightarrow>
   offset + remaining \<le> INT64_MAX \<Longrightarrow>
   bs = filled @ span (bytes_at data) offset remaining"
proof (induction data script offset remaining filled arbitrary: bs script' rule: file_read_loop.induct)
  case (1 data script offset remaining filled)
  show ?case
  proof (cases "remaining = 0")
    case True
    with "1.prems"(1) show ?thesis by (simp add: file_read_loop.simps)
  next
    case nz: False
    have off: "\<not> offset > INT64_MAX" using "1.prems"(2) by simp
    obtain a rest where ans: "next_answer script = (a, rest)" by fastforce
    note unfolded = "1.prems"(1)[unfolded file_read_loop.simps[of data script]]
    note IH = "1.IH"[OF nz refl off ans[symmetric]]
    show ?thesis
    proof (cases a)
      case PREAD_EINTR
      then show ?thesis
        using IH(1)[OF PREAD_EINTR, of bs script'] unfolded nz off ans "1.prems"(2) by simp
    next
      case (PREAD_ERROR msg)
      then show ?thesis using unfolded nz off ans by simp
    next
      case (PREAD_BYTES limit)
      define k where "k = pread_count data offset (min remaining SSIZE_MAX) limit"
      have k_le: "k \<le> remaining" by (simp add: k_def pread_count_def)
      have k0: "k \<noteq> 0"
        using unfolded nz off ans PREAD_BYTES by (auto simp: k_def Let_def split: if_splits)
      have add: "u64_add offset k = offset + k"
        using "1.prems"(2) k_le by (simp add: INT64_MAX_def)
      have rec: "file_read_loop data rest (u64_add offset k) (remaining - k)
          (filled @ take k (drop offset data)) = (Inr bs, script')"
        using unfolded nz off ans PREAD_BYTES k0 by (simp add: k_def Let_def)
      have "bs = (filled @ take k (drop offset data)) @ span (bytes_at data) (offset + k) (remaining - k)"
        using IH(2)[OF PREAD_BYTES refl, folded k_def, OF k0 rec] add "1.prems"(2) k_le by simp
      also have "take k (drop offset data) = span (bytes_at data) offset k"
        unfolding k_def by (rule pread_count_take)
      finally show ?thesis
        using span_add[of "bytes_at data" offset k "remaining - k"] k_le by simp
    qed
  qed
qed

lemma next_answer_set: "next_answer script = (a, rest) \<Longrightarrow> set rest \<subseteq> set script"
  by (auto simp: next_answer_def split: list.splits)

lemma next_answer_in: "next_answer script = (PREAD_ERROR text, rest) \<Longrightarrow> PREAD_ERROR text \<in> set script"
  by (auto simp: next_answer_def split: list.splits)

lemma file_read_loop_returns:
  "\<forall>text. PREAD_ERROR text \<notin> set script \<Longrightarrow> offset + remaining \<le> length data \<Longrightarrow>
   offset + remaining \<le> INT64_MAX \<Longrightarrow>
   \<exists>bs script'. file_read_loop data script offset remaining filled = (Inr bs, script')
     \<and> set script' \<subseteq> set script"
proof (induction data script offset remaining filled rule: file_read_loop.induct)
  case (1 data script offset remaining filled)
  show ?case
  proof (cases "remaining = 0")
    case True
    then show ?thesis by (simp add: file_read_loop.simps)
  next
    case nz: False
    have off: "\<not> offset > INT64_MAX" using "1.prems"(3) by simp
    obtain a rest where ans: "next_answer script = (a, rest)" by fastforce
    note IH = "1.IH"[OF nz refl off ans[symmetric]]
    have sub: "set rest \<subseteq> set script" using next_answer_set[OF ans] .
    then have noerr: "\<forall>text. PREAD_ERROR text \<notin> set rest" using "1.prems"(1) by blast
    show ?thesis
    proof (cases a)
      case PREAD_EINTR
      then show ?thesis
        using IH(1)[OF PREAD_EINTR noerr "1.prems"(2,3)] nz off ans sub
        by (subst file_read_loop.simps) auto
    next
      case (PREAD_ERROR msg)
      then show ?thesis using next_answer_in ans "1.prems"(1) by blast
    next
      case (PREAD_BYTES limit)
      define k where "k = pread_count data offset (min remaining SSIZE_MAX) limit"
      have k0: "k \<noteq> 0" and k_le: "k \<le> remaining"
        using nz "1.prems"(2) by (auto simp: k_def pread_count_def SSIZE_MAX_def)
      have add: "u64_add offset k = offset + k"
        using "1.prems"(3) k_le by (simp add: INT64_MAX_def)
      have "\<exists>bs script'. file_read_loop data rest (u64_add offset k) (remaining - k)
          (filled @ take k (drop offset data)) = (Inr bs, script') \<and> set script' \<subseteq> set rest"
        using IH(2)[OF PREAD_BYTES refl, folded k_def, OF k0 noerr] add "1.prems"(2,3) k_le by simp
      then show ?thesis
        using nz off ans PREAD_BYTES k0 sub
        by (subst file_read_loop.simps) (auto simp: k_def Let_def)
    qed
  qed
qed

lemma file_read_state: "file_read fc lba blocks n = (r, fc') \<Longrightarrow> \<exists>script. fc' = fc\<lparr>fc_script := script\<rparr>"
  by (auto simp: file_read_def split: prod.splits)

lemma file_view_script:
  "file_valid fc \<Longrightarrow> view_kept file_ops file_valid file_contents fc (fc\<lparr>fc_script := script\<rparr>)"
  by (simp add: view_kept_def file_valid_def file_contents_def file_sector_count_def)

lemma file_request_bounds:
  assumes "file_valid fc"
    and "gdox_source_validate_read (op_sector_count file_ops fc) lba blocks n = Inr ()"
  shows "n = blocks * GDOX_LOGICAL_SECTOR_BYTES"
    and "u64_mul lba GDOX_LOGICAL_SECTOR_BYTES = lba * GDOX_LOGICAL_SECTOR_BYTES"
    and "lba * GDOX_LOGICAL_SECTOR_BYTES + n \<le> fc_sectors fc * GDOX_LOGICAL_SECTOR_BYTES"
proof -
  have c: "fc_sectors fc < two64"
    using assms(1) by (simp add: file_valid_def INT64_MAX_def)
  then have v: "n = blocks * GDOX_LOGICAL_SECTOR_BYTES" "lba + blocks \<le> fc_sectors fc"
    using assms(2) validate_read_ok_iff[OF c] by (simp_all add: file_sector_count_def)
  then show "n = blocks * GDOX_LOGICAL_SECTOR_BYTES" by simp
  show b: "lba * GDOX_LOGICAL_SECTOR_BYTES + n \<le> fc_sectors fc * GDOX_LOGICAL_SECTOR_BYTES"
    using v by simp
  then show "u64_mul lba GDOX_LOGICAL_SECTOR_BYTES = lba * GDOX_LOGICAL_SECTOR_BYTES"
    using assms(1) by (simp add: file_valid_def INT64_MAX_def)
qed

interpretation file_source: reliable_source file_ops file_valid file_contents file_ready
proof
  fix fc assume "file_valid fc"
  then show "op_sector_count file_ops fc < two64"
    by (simp add: file_sector_count_def file_valid_def INT64_MAX_def)
next
  fix fc lba blocks n r fc'
  assume v: "file_valid fc"
    and rq: "gdox_source_validate_read (op_sector_count file_ops fc) lba blocks n = Inr ()"
    and rd: "op_read file_ops fc lba blocks n = (r, fc')"
  note b = file_request_bounds[OF v rq]
  have "bs = span (file_contents fc) (lba * GDOX_LOGICAL_SECTOR_BYTES) (blocks * GDOX_LOGICAL_SECTOR_BYTES)"
    if "r = Inr bs" for bs
    using file_read_loop_span[of "fc_data fc" "fc_script fc" "lba * GDOX_LOGICAL_SECTOR_BYTES" n "[]"]
      rd that b v
    by (auto simp: file_read_def file_contents_def file_valid_def split: prod.splits)
  moreover have "view_kept file_ops file_valid file_contents fc fc'"
    using file_read_state[of fc lba blocks n r fc'] rd file_view_script[OF v] by auto
  ultimately show "view_kept file_ops file_valid file_contents fc fc'
      \<and> (\<forall>bs. r = Inr bs \<longrightarrow>
           bs = span (file_contents fc) (lba * GDOX_LOGICAL_SECTOR_BYTES)
                  (blocks * GDOX_LOGICAL_SECTOR_BYTES))" by blast
next
  fix fc lba blocks n
  assume v: "file_valid fc" and rdy: "file_ready fc"
    and rq: "gdox_source_validate_read (op_sector_count file_ops fc) lba blocks n = Inr ()"
  note b = file_request_bounds[OF v rq]
  obtain bs script' where l: "file_read_loop (fc_data fc) (fc_script fc)
      (lba * GDOX_LOGICAL_SECTOR_BYTES) n [] = (Inr bs, script')" "set script' \<subseteq> set (fc_script fc)"
    using file_read_loop_returns[of "fc_script fc" "lba * GDOX_LOGICAL_SECTOR_BYTES" n "fc_data fc" "[]"]
      rdy v b by (auto simp: file_ready_def file_valid_def)
  then have "file_ready (fc\<lparr>fc_script := script'\<rparr>)" using rdy by (auto simp: file_ready_def)
  with l b show "\<exists>bs s'. op_read file_ops fc lba blocks n = (Inr bs, s') \<and> file_ready s'"
    by (auto simp: file_read_def)
qed (auto simp: file_media_present_def file_observe_media_def view_kept_refl)

interpretation file_closable: closable_source file_ops "\<lambda>_. True"
  by unfold_locales (auto simp: prepare_step_def file_close_def split: option.splits)

lemma gdox_source_open_file_valid:
  assumes "gdox_source_open_file mem filesystem (Some path) = Inr source"
    and "filesystem path = OPEN_DESCRIPTOR se reg file_size data script ce" and "file_size \<le> int INT64_MAX"
  shows "\<exists>fc. source = Some fc \<and> file_valid fc \<and> fc_data fc = data
     \<and> fc_sectors fc * GDOX_LOGICAL_SECTOR_BYTES = nat file_size"
  using assms
  by (auto simp: gdox_source_open_file_def file_valid_def split: if_splits option.splits)

section \<open>Properties\<close>

definition sample_file :: file_context where
  "sample_file =
     \<lparr>fc_data = replicate 8192 7, fc_sectors = 4,
      fc_script = [PREAD_EINTR, PREAD_BYTES 100, PREAD_EINTR, PREAD_BYTES 1], fc_close_error = None\<rparr>"

lemma sample_file_simps [simp]:
  "file_valid sample_file" "file_ready sample_file" "file_sector_count sample_file = 4"
  by (simp_all add: sample_file_def file_valid_def file_ready_def INT64_MAX_def file_sector_count_def)

text \<open>
  C14: However the kernel interrupts or shortens its \<open>pread\<close> answers, a read of an open, untruncated image
  that lies inside it returns, and returns exactly the requested bytes of the file.
\<close>
theorem file_read_delivers:
  assumes "file_valid fc" and "file_ready fc"
    and "0 < blocks" and "blocks < two32" and "lba + blocks \<le> fc_sectors fc"
  shows "\<exists>fc'. gdox_source_read file_ops (Some fc) lba blocks (blocks * GDOX_LOGICAL_SECTOR_BYTES) =
      (Inr (take (blocks * GDOX_LOGICAL_SECTOR_BYTES)
              (drop (lba * GDOX_LOGICAL_SECTOR_BYTES) (fc_data fc))), Some fc')
    \<and> fc_data fc' = fc_data fc \<and> fc_sectors fc' = fc_sectors fc"
proof -
  have "lba * GDOX_LOGICAL_SECTOR_BYTES + blocks * GDOX_LOGICAL_SECTOR_BYTES \<le> length (fc_data fc)"
    using assms(2,5) by (simp add: file_ready_def)
  moreover obtain fc' where rd: "gdox_source_read file_ops (Some fc) lba blocks
      (blocks * GDOX_LOGICAL_SECTOR_BYTES) = (Inr (span (file_contents fc)
        (lba * GDOX_LOGICAL_SECTOR_BYTES) (blocks * GDOX_LOGICAL_SECTOR_BYTES)), Some fc')"
    using file_source.source_read_ready[OF assms(1,2,3)] assms(4,5)
    by (auto simp: file_sector_count_def)
  moreover have "\<exists>script. fc' = fc\<lparr>fc_script := script\<rparr>"
    using rd by (auto simp: gdox_source_read_def split: sum.splits prod.splits dest: file_read_state)
  ultimately show ?thesis by (auto simp: file_contents_def span_bytes_at)
qed

theorem file_read_delivers_witness:
  "\<exists>fc'. gdox_source_read file_ops (Some sample_file) 1 2 (2 * GDOX_LOGICAL_SECTOR_BYTES) =
      (Inr (take (2 * GDOX_LOGICAL_SECTOR_BYTES)
              (drop (1 * GDOX_LOGICAL_SECTOR_BYTES) (fc_data sample_file))), Some fc')
    \<and> fc_data fc' = fc_data sample_file \<and> fc_sectors fc' = fc_sectors sample_file"
  by (rule file_read_delivers) (simp_all, simp add: sample_file_def)

end
