(* ===== verification/PartitionSource.thy ===== *)
theory PartitionSource
  imports Adapter FileSource
begin

text \<open>
  The partition source of src/src/core/source.c: a window of a source that starts at \<open>base_lba\<close>, used to
  expose the game partition of a disc. The section ends with the contracts: a partition of any source
  that keeps them keeps them itself, over the shifted contents.
\<close>

record 's partition_context =
  pc_inner :: "'s sector_source"
  pc_base_lba :: u64
  pc_sectors :: u64

abbreviation put_partition :: "'s sector_source \<Rightarrow> 's partition_context \<Rightarrow> 's partition_context" where
  "put_partition h c \<equiv> c\<lparr>pc_inner := h\<rparr>"

definition partition_sector_count :: "'s partition_context \<Rightarrow> u64" where
  "partition_sector_count c = pc_sectors c"

definition partition_read ::
  "'s source_ops \<Rightarrow> 's partition_context \<Rightarrow> u64 \<Rightarrow> u32 \<Rightarrow> nat \<Rightarrow> byte list res \<times> 's partition_context" where
  "partition_read ops c lba blocks output_bytes =
     (case gdox_source_validate_read (pc_sectors c) lba blocks output_bytes of
        Inl e \<Rightarrow> (Inl e, c)
      | Inr _ \<Rightarrow>
          (case gdox_source_read ops (pc_inner c) (u64_add (pc_base_lba c) lba) blocks output_bytes of
             (r, h) \<Rightarrow> (r, put_partition h c)))"

definition partition_media_present :: "'s source_ops \<Rightarrow> 's partition_context \<Rightarrow> bool \<times> 's partition_context" where
  "partition_media_present ops = forward_media_present pc_inner put_partition ops"

definition partition_observe_media ::
  "'s source_ops \<Rightarrow> 's partition_context \<Rightarrow> media_observation \<times> 's partition_context" where
  "partition_observe_media ops = forward_observe_media pc_inner put_partition ops"

definition partition_evidence :: "'s source_ops \<Rightarrow> 's partition_context \<Rightarrow> bool \<times> disc_evidence" where
  "partition_evidence ops = forward_evidence pc_inner ops"

definition partition_physical_read_stats ::
  "'s source_ops \<Rightarrow> 's partition_context \<Rightarrow> bool \<times> physical_read_stats" where
  "partition_physical_read_stats ops = forward_physical_read_stats pc_inner ops"

definition partition_close :: "'s source_ops \<Rightarrow> 's partition_context \<Rightarrow> unit res \<times> bool" where
  "partition_close ops = forward_close pc_inner ops"

definition partition_prepare_close :: "'s source_ops \<Rightarrow> 's partition_context \<Rightarrow> unit res \<times> 's partition_context" where
  "partition_prepare_close ops = forward_prepare_close pc_inner put_partition ops"

definition partition_abort :: "'s source_ops \<Rightarrow> 's partition_context \<Rightarrow> 's partition_context" where
  "partition_abort ops = forward_abort pc_inner put_partition ops"

definition partition_ops :: "'s source_ops \<Rightarrow> 's partition_context source_ops" where
  "partition_ops ops =
     \<lparr>op_sector_count = partition_sector_count, op_read = partition_read ops,
      op_media_present = Some (partition_media_present ops), op_close = partition_close ops,
      op_evidence = Some (partition_evidence ops),
      op_physical_read_stats = Some (partition_physical_read_stats ops),
      op_abort = Some (partition_abort ops),
      op_prepare_close = Some (partition_prepare_close ops),
      op_observe_media = Some (partition_observe_media ops)\<rparr>"

lemma partition_ops_simps [simp]:
  "op_sector_count (partition_ops ops) = partition_sector_count"
  "op_read (partition_ops ops) = partition_read ops"
  "op_media_present (partition_ops ops) = Some (partition_media_present ops)"
  "op_close (partition_ops ops) = partition_close ops"
  "op_evidence (partition_ops ops) = Some (partition_evidence ops)"
  "op_physical_read_stats (partition_ops ops) = Some (partition_physical_read_stats ops)"
  "op_abort (partition_ops ops) = Some (partition_abort ops)"
  "op_prepare_close (partition_ops ops) = Some (partition_prepare_close ops)"
  "op_observe_media (partition_ops ops) = Some (partition_observe_media ops)"
  by (simp_all add: partition_ops_def)

text \<open>Result, the caller's inner handle, and the caller's output handle afterwards.\<close>

definition gdox_source_make_partition ::
  "bool \<Rightarrow> 's source_ops \<Rightarrow> 's sector_source \<Rightarrow> u64 \<Rightarrow> 's partition_context sector_source
     \<Rightarrow> unit res \<times> 's sector_source \<times> 's partition_context sector_source" where
  "gdox_source_make_partition mem ops inner base_lba output =
     (if \<not> gdox_source_is_valid inner \<or> gdox_source_is_valid output
      then (fail ERROR_INVALID_ARGUMENT
              ''partition source requires a valid input and empty, distinct output'', inner, output)
      else (let sectors = gdox_source_sector_count ops inner
            in if base_lba \<ge> sectors
               then (fail ERROR_OUT_OF_BOUNDS ''partition begins outside the source'', inner, output)
               else if \<not> mem
               then (fail ERROR_INTERNAL ''could not allocate partition source'', inner, output)
               else (Inr (), None,
                     Some \<lparr>pc_inner = inner, pc_base_lba = base_lba,
                           pc_sectors = u64_sub sectors base_lba\<rparr>)))"

section \<open>Contracts\<close>

definition partition_valid :: "'s source_ops \<Rightarrow> ('s \<Rightarrow> bool) \<Rightarrow> 's partition_context \<Rightarrow> bool" where
  "partition_valid ops valid c \<longleftrightarrow>
     (case pc_inner c of None \<Rightarrow> False
      | Some s \<Rightarrow> valid s \<and> pc_base_lba c + pc_sectors c \<le> op_sector_count ops s)"

definition partition_contents :: "('s \<Rightarrow> nat \<Rightarrow> byte) \<Rightarrow> 's partition_context \<Rightarrow> nat \<Rightarrow> byte" where
  "partition_contents contents c a =
     (case pc_inner c of None \<Rightarrow> 0
      | Some s \<Rightarrow> contents s (pc_base_lba c * GDOX_LOGICAL_SECTOR_BYTES + a))"

definition partition_ready :: "('s \<Rightarrow> bool) \<Rightarrow> 's partition_context \<Rightarrow> bool" where
  "partition_ready ready c \<longleftrightarrow> (case pc_inner c of None \<Rightarrow> False | Some s \<Rightarrow> ready s)"

lemma partition_put_view:
  "partition_valid ops valid c \<Longrightarrow> pc_inner c = Some s \<Longrightarrow> view_kept ops valid contents s s' \<Longrightarrow>
   view_kept (partition_ops ops) (partition_valid ops valid) (partition_contents contents) c
     (put_partition (Some s') c)"
  by (auto simp: view_kept_def partition_valid_def partition_contents_def partition_sector_count_def
      fun_eq_iff)

context sector_source
begin

lemma partition_read_view:
  assumes "partition_valid ops valid c" and "partition_read ops c lba blocks n = (r, c')"
  shows "view_kept (partition_ops ops) (partition_valid ops valid) (partition_contents contents) c c'
    \<and> (\<forall>bs. r = Inr bs \<longrightarrow>
         bs = span (partition_contents contents c) (lba * GDOX_LOGICAL_SECTOR_BYTES)
                (blocks * GDOX_LOGICAL_SECTOR_BYTES))"
proof -
  obtain s where s: "pc_inner c = Some s" "valid s" "pc_base_lba c + pc_sectors c \<le> op_sector_count ops s"
    using assms(1) by (auto simp: partition_valid_def split: option.splits)
  have cnt: "pc_sectors c < two64" "pc_base_lba c + pc_sectors c < two64"
    using s(3) count_less[OF s(2)] by auto
  show ?thesis
  proof (cases "gdox_source_validate_read (pc_sectors c) lba blocks n")
    case (Inl e)
    then show ?thesis using assms by (auto simp: partition_read_def view_kept_refl)
  next
    case (Inr u)
    then have "lba + blocks \<le> pc_sectors c"
      using validate_read_ok_iff[OF cnt(1)] by auto
    then have add: "u64_add (pc_base_lba c) lba = pc_base_lba c + lba" using cnt(2) by simp
    obtain h where rd: "gdox_source_read ops (Some s) (pc_base_lba c + lba) blocks n = (r, h)"
      and c': "c' = put_partition h c"
      using assms(2) Inr s(1) add by (auto simp: partition_read_def split: prod.splits)
    obtain s' where h: "h = Some s'" and vk: "view_kept ops valid contents s s'"
      and bs: "\<forall>bs. r = Inr bs \<longrightarrow>
        bs = span (contents s) ((pc_base_lba c + lba) * GDOX_LOGICAL_SECTOR_BYTES)
               (blocks * GDOX_LOGICAL_SECTOR_BYTES)"
      using source_read_view[OF s(2) rd] by blast
    have "span (contents s) ((pc_base_lba c + lba) * GDOX_LOGICAL_SECTOR_BYTES) k =
        span (partition_contents contents c) (lba * GDOX_LOGICAL_SECTOR_BYTES) k" for k
      using s(1) by (intro span_eqI) (auto simp: partition_contents_def algebra_simps)
    then show ?thesis
      using bs partition_put_view[OF assms(1) s(1) vk] c' h by auto
  qed
qed

lemma partition_sector_source:
  "sector_source (partition_ops ops) (partition_valid ops valid) (partition_contents contents)"
proof (rule adapter_sector_source[where get = pc_inner and put = put_partition])
  fix c g assume "op_abort (partition_ops ops) = Some g" "partition_valid ops valid c"
  then show "view_kept (partition_ops ops) (partition_valid ops valid) (partition_contents contents) c (g c)"
    using forward_abort_view[of pc_inner c _ put_partition] partition_put_view[of ops valid c]
    by (fastforce simp: partition_abort_def partition_valid_def split: option.splits)
next
  fix c h q c' assume "op_prepare_close (partition_ops ops) = Some h" "partition_valid ops valid c" "h c = (q, c')"
  then show "view_kept (partition_ops ops) (partition_valid ops valid) (partition_contents contents) c c'"
    using forward_prepare_view[of pc_inner c _ put_partition] partition_put_view[of ops valid c]
    by (fastforce simp: partition_prepare_close_def partition_valid_def split: option.splits)
next
  fix c assume "partition_valid ops valid c"
  then show "op_sector_count (partition_ops ops) c < two64"
    using count_less by (fastforce simp: partition_valid_def partition_sector_count_def split: option.splits)
next
  fix c assume "partition_valid ops valid c"
  then show "\<exists>s. pc_inner c = Some s \<and> valid s"
    by (auto simp: partition_valid_def split: option.splits)
qed (simp_all add: partition_media_present_def partition_observe_media_def partition_put_view
      partition_read_view)

lemma make_partition_valid:
  assumes "gdox_source_make_partition mem ops (Some s) base output = (Inr (), inner', output')" and "valid s"
  shows "inner' = None \<and> (\<exists>c. output' = Some c \<and> partition_valid ops valid c
     \<and> pc_sectors c = op_sector_count ops s - base \<and> pc_base_lba c = base \<and> base < op_sector_count ops s
     \<and> partition_contents contents c = (\<lambda>a. contents s (base * GDOX_LOGICAL_SECTOR_BYTES + a)))"
  using assms count_less[OF assms(2)]
  by (auto simp: gdox_source_make_partition_def partition_valid_def partition_contents_def Let_def
      fun_eq_iff split: if_splits)

end

context reliable_source
begin

lemma partition_reliable_source:
  "reliable_source (partition_ops ops) (partition_valid ops valid) (partition_contents contents)
     (partition_ready ready)"
proof (rule reliable_source.intro[OF partition_sector_source], standard)
  fix c lba blocks n
  assume v: "partition_valid ops valid c" and rdy: "partition_ready ready c"
    and rq: "gdox_source_validate_read (op_sector_count (partition_ops ops) c) lba blocks n = Inr ()"
  obtain s where s: "pc_inner c = Some s" "valid s" "pc_base_lba c + pc_sectors c \<le> op_sector_count ops s" "ready s"
    using v rdy by (auto simp: partition_valid_def partition_ready_def split: option.splits)
  have cnt: "op_sector_count ops s < two64" "pc_sectors c < two64" using s(3) count_less[OF s(2)] by auto
  have b: "0 < blocks" "n = blocks * GDOX_LOGICAL_SECTOR_BYTES" "n \<le> SIZE_MAX" "lba + blocks \<le> pc_sectors c"
    using rq validate_read_ok_iff[OF cnt(2)] by (auto simp: partition_sector_count_def)
  have "gdox_source_validate_read (op_sector_count ops s) (pc_base_lba c + lba) blocks n = Inr ()"
    using b s(3) validate_read_ok_iff[OF cnt(1)] by simp
  moreover from ready_read[OF s(2,4) this] obtain bs s'
    where "op_read ops s (pc_base_lba c + lba) blocks n = (Inr bs, s')" "ready s'" by blast
  ultimately show "\<exists>bs c'. op_read (partition_ops ops) c lba blocks n = (Inr bs, c') \<and> partition_ready ready c'"
    using rq s cnt b
    by (auto simp: partition_read_def gdox_source_read_def partition_ready_def partition_sector_count_def)
qed

end

context closable_source
begin

lemma partition_closable_source:
  "closable_source (partition_ops ops) (\<lambda>c. \<exists>s. pc_inner c = Some s \<and> prepared s)"
  by (rule adapter_closable[where put = "\<lambda>_. put_partition"])
    (auto simp: partition_prepare_close_def partition_close_def
      intro: prepare_step_forward dest: prepare_step_forward_None[rotated 2])

end

interpretation file_partition: reliable_source "partition_ops file_ops" "partition_valid file_ops file_valid"
  "partition_contents file_contents" "partition_ready file_ready"
  by (rule file_source.partition_reliable_source)

interpretation file_partition_closable: closable_source "partition_ops file_ops" "\<lambda>c. \<exists>s. pc_inner c = Some s \<and> True"
  by (rule file_closable.partition_closable_source)

section \<open>Properties\<close>

text \<open>
  C15: Opening a partition at \<open>base_lba\<close> moves the source into it; the partition has the sectors that
  remain, a read inside it delivers the bytes of the whole medium shifted by the base, and a read
  that leaves it is refused without touching the medium.
\<close>
theorem partition_shows_window:
  assumes "reliable_source ops valid contents ready" and "valid s" and "ready s"
    and "gdox_source_make_partition mem ops (Some s) base None = (Inr (), inner', out)"
    and "0 < blocks" and "blocks < two32"
  shows "inner' = None
    \<and> gdox_source_sector_count (partition_ops ops) out = op_sector_count ops s - base
    \<and> (if lba + blocks \<le> op_sector_count ops s - base
       then \<exists>out'. gdox_source_read (partition_ops ops) out lba blocks (blocks * GDOX_LOGICAL_SECTOR_BYTES) =
         (Inr (span (contents s) ((base + lba) * GDOX_LOGICAL_SECTOR_BYTES)
                 (blocks * GDOX_LOGICAL_SECTOR_BYTES)), out')
       else gdox_source_read (partition_ops ops) out lba blocks (blocks * GDOX_LOGICAL_SECTOR_BYTES) =
         (fail ERROR_OUT_OF_BOUNDS ''sector read is outside the source'', out))"
proof -
  note src = reliable_source.axioms(1)[OF assms(1)]
  obtain c where c: "inner' = None" "out = Some c" "partition_valid ops valid c"
      "pc_sectors c = op_sector_count ops s - base" "base < op_sector_count ops s"
      "partition_contents contents c = (\<lambda>a. contents s (base * GDOX_LOGICAL_SECTOR_BYTES + a))"
    using sector_source.make_partition_valid[OF src assms(4,2)] by blast
  have rdy: "partition_ready ready c"
    using assms(3,4) c(2) by (auto simp: gdox_source_make_partition_def partition_ready_def Let_def split: if_splits)
  have cnt: "op_sector_count (partition_ops ops) c = op_sector_count ops s - base"
    using c(4) by (simp add: partition_sector_count_def)
  have sp: "span (partition_contents contents c) (lba * GDOX_LOGICAL_SECTOR_BYTES) k =
      span (contents s) ((base + lba) * GDOX_LOGICAL_SECTOR_BYTES) k" for k
    using c(6) by (simp add: span_shift add_mult_distrib)
  show ?thesis
    using reliable_source.source_read_ready[where lba = lba, OF reliable_source.partition_reliable_source[OF assms(1)] c(3) rdy assms(5)]
      gdox_source_read_outside[of "partition_ops ops" c blocks lba]
      sector_source.count_less[OF src assms(2)] assms(5,6) c(1,2) cnt sp
    by auto
qed

theorem partition_shows_window_witness:
  "gdox_source_make_partition True file_ops (Some sample_file) 1 None =
     (Inr (), None, Some \<lparr>pc_inner = Some sample_file, pc_base_lba = 1, pc_sectors = 3\<rparr>)
   \<and> gdox_source_sector_count (partition_ops file_ops)
       (Some \<lparr>pc_inner = Some sample_file, pc_base_lba = 1, pc_sectors = 3\<rparr>) = 3"
proof -
  have m: "gdox_source_make_partition True file_ops (Some sample_file) 1 None =
     (Inr (), None, Some \<lparr>pc_inner = Some sample_file, pc_base_lba = 1, pc_sectors = 3\<rparr>)"
    by (simp add: gdox_source_make_partition_def Let_def)
  show ?thesis
    using m partition_shows_window[OF file_source.reliable_source_axioms _ _ m, of 1 0] by simp
qed

end
