(* ===== verification/PatchedSource.thy ===== *)
theory PatchedSource
  imports Adapter FileSource
begin

text \<open>
  The byte-patched source of src/src/core/source.c: a list of single-byte patches is sorted by offset
  and declaration, reduced to the last declaration of each offset, and applied to every read. The
  specification is \<open>patch_view\<close>: the declared patches written one after the other, so the last
  declaration of an offset wins. A patched source shows exactly that view of its inner source, and
  its loop changes no byte behind the caller's buffer.
\<close>

record byte_patch =
  bp_offset :: u64
  bp_value :: byte

record indexed_patch =
  ip_patch :: byte_patch
  declaration_index :: nat

record 's patch_context =
  pt_inner :: "'s sector_source"
  pt_patches :: "byte_patch list"

abbreviation put_patched :: "'s sector_source \<Rightarrow> 's patch_context \<Rightarrow> 's patch_context" where
  "put_patched h c \<equiv> c\<lparr>pt_inner := h\<rparr>"

definition compare_indexed_patches :: "indexed_patch \<Rightarrow> indexed_patch \<Rightarrow> int" where
  "compare_indexed_patches left right =
     (if bp_offset (ip_patch left) < bp_offset (ip_patch right) then -1
      else if bp_offset (ip_patch left) > bp_offset (ip_patch right) then 1
      else if declaration_index left < declaration_index right then -1
      else if declaration_index left > declaration_index right then 1
      else 0)"

interpretation indexed_patches: comparator compare_indexed_patches
  by unfold_locales (auto simp: compare_indexed_patches_def split: if_splits)

definition patch_sector_count :: "'s source_ops \<Rightarrow> 's patch_context \<Rightarrow> u64" where
  "patch_sector_count ops = forward_sector_count pt_inner ops"

definition lower_bound_patch :: "byte_patch list \<Rightarrow> u64 \<Rightarrow> nat" where
  "lower_bound_patch patches offset =
     lower_bound (\<lambda>middle. bp_offset (patches ! middle) < offset) 0 (length patches)"

text \<open>
  The loop \<open>while (index < patch_count && patches[index].offset < end)\<close>, over the patches from
  \<open>index\<close> on. The list may be longer than the buffer (\<open>beyond\<close>, below): then it
  stands for the memory from the buffer's first byte on, and a write past the buffer would change it.
\<close>

fun write_patches :: "u64 \<Rightarrow> u64 \<Rightarrow> byte_patch list \<Rightarrow> byte list \<Rightarrow> byte list" where
  "write_patches start stop [] output = output"
| "write_patches start stop (p # ps) output =
     (if bp_offset p < stop
      then write_patches start stop ps (output[u64_sub (bp_offset p) start := bp_value p])
      else output)"

definition patch_read ::
  "'s source_ops \<Rightarrow> 's patch_context \<Rightarrow> u64 \<Rightarrow> u32 \<Rightarrow> nat \<Rightarrow> byte list res \<times> 's patch_context" where
  "patch_read ops c lba blocks output_bytes =
     (let start = u64_mul lba GDOX_LOGICAL_SECTOR_BYTES;
          stop = u64_add start output_bytes
      in case gdox_source_read ops (pt_inner c) lba blocks output_bytes of
           (Inl e, h) \<Rightarrow> (Inl e, put_patched h c)
         | (Inr output, h) \<Rightarrow>
             (Inr (write_patches start stop
                     (drop (lower_bound_patch (pt_patches c) start) (pt_patches c)) output),
              put_patched h c))"

definition patch_media_present :: "'s source_ops \<Rightarrow> 's patch_context \<Rightarrow> bool \<times> 's patch_context" where
  "patch_media_present ops = forward_media_present pt_inner put_patched ops"

definition patch_observe_media :: "'s source_ops \<Rightarrow> 's patch_context \<Rightarrow> media_observation \<times> 's patch_context" where
  "patch_observe_media ops = forward_observe_media pt_inner put_patched ops"

definition patch_evidence :: "'s source_ops \<Rightarrow> 's patch_context \<Rightarrow> bool \<times> disc_evidence" where
  "patch_evidence ops = forward_evidence pt_inner ops"

definition patch_physical_read_stats ::
  "'s source_ops \<Rightarrow> 's patch_context \<Rightarrow> bool \<times> physical_read_stats" where
  "patch_physical_read_stats ops = forward_physical_read_stats pt_inner ops"

definition patch_close :: "'s source_ops \<Rightarrow> 's patch_context \<Rightarrow> unit res \<times> bool" where
  "patch_close ops = forward_close pt_inner ops"

definition patch_prepare_close :: "'s source_ops \<Rightarrow> 's patch_context \<Rightarrow> unit res \<times> 's patch_context" where
  "patch_prepare_close ops = forward_prepare_close pt_inner put_patched ops"

definition patch_abort :: "'s source_ops \<Rightarrow> 's patch_context \<Rightarrow> 's patch_context" where
  "patch_abort ops = forward_abort pt_inner put_patched ops"

definition patch_ops :: "'s source_ops \<Rightarrow> 's patch_context source_ops" where
  "patch_ops ops =
     \<lparr>op_sector_count = patch_sector_count ops, op_read = patch_read ops,
      op_media_present = Some (patch_media_present ops), op_close = patch_close ops,
      op_evidence = Some (patch_evidence ops),
      op_physical_read_stats = Some (patch_physical_read_stats ops),
      op_abort = Some (patch_abort ops),
      op_prepare_close = Some (patch_prepare_close ops),
      op_observe_media = Some (patch_observe_media ops)\<rparr>"

lemma patch_ops_simps [simp]:
  "op_sector_count (patch_ops ops) = patch_sector_count ops"
  "op_read (patch_ops ops) = patch_read ops"
  "op_media_present (patch_ops ops) = Some (patch_media_present ops)"
  "op_close (patch_ops ops) = patch_close ops"
  "op_evidence (patch_ops ops) = Some (patch_evidence ops)"
  "op_physical_read_stats (patch_ops ops) = Some (patch_physical_read_stats ops)"
  "op_abort (patch_ops ops) = Some (patch_abort ops)"
  "op_prepare_close (patch_ops ops) = Some (patch_prepare_close ops)"
  "op_observe_media (patch_ops ops) = Some (patch_observe_media ops)"
  by (simp_all add: patch_ops_def)

text \<open>The two loops of \<open>gdox_source_make_patched\<close>: indexing with the bounds check, then dropping every
  entry whose successor has the same offset.\<close>

fun index_patches :: "u64 \<Rightarrow> nat \<Rightarrow> byte_patch list \<Rightarrow> indexed_patch list res" where
  "index_patches source_bytes index [] = Inr []"
| "index_patches source_bytes index (p # ps) =
     (if bp_offset p \<ge> source_bytes
      then fail ERROR_OUT_OF_BOUNDS ''patch is outside the source''
      else (case index_patches source_bytes (index + 1) ps of
              Inl e \<Rightarrow> Inl e
            | Inr rest \<Rightarrow> Inr (\<lparr>ip_patch = p, declaration_index = index\<rparr> # rest)))"

fun unique_patches :: "indexed_patch list \<Rightarrow> indexed_patch list" where
  "unique_patches (x # y # rest) =
     (if bp_offset (ip_patch x) = bp_offset (ip_patch y) then unique_patches (y # rest)
      else x # unique_patches (y # rest))"
| "unique_patches xs = xs"

definition INDEXED_PATCH_BYTES :: nat where "INDEXED_PATCH_BYTES = 24"
definition BYTE_PATCH_BYTES :: nat where "BYTE_PATCH_BYTES = 16"
definition PATCH_CONTEXT_BYTES :: nat where "PATCH_CONTEXT_BYTES = 32"

text \<open>
  With no patches the source itself is moved, so the output is the plain source or a patched one.
  \<open>patches = None\<close> is the NULL array.
\<close>

datatype 's patched_output = Unpatched "'s sector_source" | Patched "'s patch_context sector_source"

definition gdox_source_make_patched ::
  "(nat \<Rightarrow> bool) \<Rightarrow> 's source_ops \<Rightarrow> 's sector_source \<Rightarrow> byte_patch list option \<Rightarrow> nat
     \<Rightarrow> unit res \<times> 's sector_source \<times> 's patched_output" where
  "gdox_source_make_patched mem ops inner patches patch_count =
     (if \<not> gdox_source_is_valid inner \<or> (patch_count \<noteq> 0 \<and> patches = None)
      then (fail ERROR_INVALID_ARGUMENT
              ''patched source requires a valid input, empty distinct output, and a patch array'',
            inner, Patched None)
      else if patch_count = 0 then (Inr (), None, Unpatched inner)
      else if patch_count > SIZE_MAX div INDEXED_PATCH_BYTES
      then (fail ERROR_INVALID_ARGUMENT ''patch array is too large'', inner, Patched None)
      else if gdox_source_sector_count ops inner > UINT64_MAX div GDOX_LOGICAL_SECTOR_BYTES
      then (fail ERROR_INVALID_SOURCE ''source byte length overflows'', inner, Patched None)
      else (let source_bytes = u64_mul (gdox_source_sector_count ops inner) GDOX_LOGICAL_SECTOR_BYTES
            in if \<not> mem (patch_count * INDEXED_PATCH_BYTES)
               then (fail ERROR_INTERNAL ''could not allocate patch index'', inner, Patched None)
               else (case index_patches source_bytes 0 (take patch_count (the patches)) of
                       Inl e \<Rightarrow> (Inl e, inner, Patched None)
                     | Inr entries \<Rightarrow>
                         (let unique = unique_patches (qsort compare_indexed_patches entries)
                          in if \<not> mem PATCH_CONTEXT_BYTES
                             then (fail ERROR_INTERNAL ''could not allocate patched source'',
                                   inner, Patched None)
                             else if \<not> mem (length unique * BYTE_PATCH_BYTES)
                             then (fail ERROR_INTERNAL ''could not allocate patches'',
                                   inner, Patched None)
                             else (Inr (), None,
                                   Patched (Some \<lparr>pt_inner = inner,
                                                  pt_patches = map ip_patch unique\<rparr>))))))"

section \<open>The view of a patch list\<close>

definition patch_view :: "byte_patch list \<Rightarrow> (nat \<Rightarrow> byte) \<Rightarrow> nat \<Rightarrow> byte" where
  "patch_view ps f = foldl (\<lambda>f p. f(bp_offset p := bp_value p)) f ps"

lemma patch_view_Nil [simp]: "patch_view [] f = f"
  by (simp add: patch_view_def)

lemma patch_view_Cons [simp]: "patch_view (p # ps) f = patch_view ps (f(bp_offset p := bp_value p))"
  by (simp add: patch_view_def)

lemma patch_view_append: "patch_view (ps @ qs) f = patch_view qs (patch_view ps f)"
  by (simp add: patch_view_def)

lemma patch_view_at:
  "patch_view ps f a =
     (case filter (\<lambda>p. bp_offset p = a) ps of [] \<Rightarrow> f a | x # xs \<Rightarrow> bp_value (last (x # xs)))"
proof (induction ps arbitrary: f)
  case (Cons p ps)
  then show ?case by (auto split: list.splits)
qed simp

lemma patch_view_cong_filter:
  "(\<And>a. filter (\<lambda>p. bp_offset p = a) ps = filter (\<lambda>p. bp_offset p = a) qs) \<Longrightarrow>
   patch_view ps f = patch_view qs f"
  by (rule ext) (simp add: patch_view_at)

lemma patch_view_outside: "a \<notin> bp_offset ` set ps \<Longrightarrow> patch_view ps f a = f a"
proof -
  assume "a \<notin> bp_offset ` set ps"
  then have "filter (\<lambda>p. bp_offset p = a) ps = []" by (auto simp: filter_empty_conv)
  then show ?thesis by (simp add: patch_view_at)
qed

section \<open>Sorting and reducing keeps the view\<close>

lemma index_patches_Inr:
  "index_patches n k ps = Inr xs \<Longrightarrow>
   map ip_patch xs = ps \<and> sorted_wrt (\<lambda>x y. declaration_index x < declaration_index y) xs
   \<and> (\<forall>x \<in> set xs. k \<le> declaration_index x) \<and> (\<forall>p \<in> set ps. bp_offset p < n)"
proof (induction n k ps arbitrary: xs rule: index_patches.induct)
  case (2 n k p ps)
  then show ?case
    by (fastforce split: if_splits sum.splits)
qed simp

lemma offset_filter_sorted:
  assumes "sorted_wrt (\<lambda>a b. compare_indexed_patches a b \<le> 0) xs" and "distinct (map declaration_index xs)"
  shows "sorted_wrt (\<lambda>x y. declaration_index x < declaration_index y)
           (filter (\<lambda>x. bp_offset (ip_patch x) = a) xs)"
  using assms
proof (induction xs)
  case (Cons x xs)
  have "declaration_index x < declaration_index y"
    if "bp_offset (ip_patch x) = a" "y \<in> set xs" "bp_offset (ip_patch y) = a" for y
  proof -
    have "compare_indexed_patches x y \<le> 0" using Cons.prems(1) that(2) by simp
    then have "declaration_index x \<le> declaration_index y"
      using that by (simp add: compare_indexed_patches_def split: if_splits)
    moreover have "declaration_index x \<noteq> declaration_index y" using Cons.prems(2) that(2) by force
    ultimately show ?thesis by simp
  qed
  with Cons show ?case by auto
qed simp

lemma strict_sorted_distinct:
  "sorted_wrt (\<lambda>x y. declaration_index x < declaration_index y) xs \<Longrightarrow> distinct (map declaration_index xs)"
  by (induction xs) force+

lemma strict_sorted_eq:
  assumes "sorted_wrt (\<lambda>x y. declaration_index x < declaration_index y) xs"
    and "sorted_wrt (\<lambda>x y. declaration_index x < declaration_index y) ys" and "mset xs = mset ys"
  shows "xs = ys"
  using assms
proof (induction xs arbitrary: ys)
  case (Cons x xs)
  then obtain y ys' where ys: "ys = y # ys'" by (cases ys) auto
  have "x = y"
  proof (rule ccontr)
    assume ne: "x \<noteq> y"
    have "x \<in> set ys" "y \<in> set (x # xs)"
      using Cons.prems(3) ys by (metis list.set_intros(1) mset_eq_setD, metis list.set_intros(1) mset_eq_setD)
    then have "x \<in> set ys'" "y \<in> set xs" using ne ys by auto
    then have "declaration_index y < declaration_index x" "declaration_index x < declaration_index y"
      using Cons.prems(1,2) ys by auto
    then show False by simp
  qed
  then show ?case using Cons ys by simp
qed simp

lemma qsort_patches_filter:
  assumes "sorted_wrt (\<lambda>x y. declaration_index x < declaration_index y) xs"
  shows "filter (\<lambda>x. bp_offset (ip_patch x) = a) (qsort compare_indexed_patches xs)
       = filter (\<lambda>x. bp_offset (ip_patch x) = a) xs"
proof (rule strict_sorted_eq)
  have "distinct (map declaration_index (qsort compare_indexed_patches xs))"
    using strict_sorted_distinct[OF assms] by (metis mset_eq_imp_distinct_iff mset_map mset_qsort)
  then show "sorted_wrt (\<lambda>x y. declaration_index x < declaration_index y)
      (filter (\<lambda>x. bp_offset (ip_patch x) = a) (qsort compare_indexed_patches xs))"
    by (intro offset_filter_sorted indexed_patches.sorted_qsort)
  show "sorted_wrt (\<lambda>x y. declaration_index x < declaration_index y)
      (filter (\<lambda>x. bp_offset (ip_patch x) = a) xs)"
    using assms by (rule sorted_wrt_filter)
qed (simp add: mset_filter)

lemma filter_map_patch:
  "filter (\<lambda>p. bp_offset p = a) (map ip_patch xs) = map ip_patch (filter (\<lambda>x. bp_offset (ip_patch x) = a) xs)"
  by (induction xs) auto

lemma qsort_patches_view:
  "sorted_wrt (\<lambda>x y. declaration_index x < declaration_index y) xs \<Longrightarrow>
   patch_view (map ip_patch (qsort compare_indexed_patches xs)) f = patch_view (map ip_patch xs) f"
  by (rule patch_view_cong_filter) (simp add: filter_map_patch qsort_patches_filter)

lemma unique_patches_view: "patch_view (map ip_patch (unique_patches xs)) f = patch_view (map ip_patch xs) f"
  by (induction xs arbitrary: f rule: unique_patches.induct) auto

lemma set_unique_patches: "set (unique_patches xs) \<subseteq> set xs"
  by (induction xs rule: unique_patches.induct) auto

lemma unique_patches_sorted:
  "sorted_wrt (\<lambda>a b. compare_indexed_patches a b \<le> 0) xs \<Longrightarrow>
   sorted_wrt (\<lambda>p q. bp_offset p < bp_offset q) (map ip_patch (unique_patches xs))"
proof (induction xs rule: unique_patches.induct)
  case (1 x y rest)
  have le: "bp_offset (ip_patch u) \<le> bp_offset (ip_patch v)" if "compare_indexed_patches u v \<le> 0" for u v
    using that by (simp add: compare_indexed_patches_def split: if_splits)
  show ?case
  proof (cases "bp_offset (ip_patch x) = bp_offset (ip_patch y)")
    case True
    then show ?thesis using 1 by simp
  next
    case False
    have xy: "bp_offset (ip_patch x) < bp_offset (ip_patch y)"
      using le[of x y] "1.prems" False by simp
    have "bp_offset (ip_patch x) < bp_offset (ip_patch z)" if "z \<in> set (unique_patches (y # rest))" for z
    proof -
      have "z \<in> set (y # rest)" using that set_unique_patches by blast
      then have "bp_offset (ip_patch y) \<le> bp_offset (ip_patch z)" using le[of y z] "1.prems" by auto
      with xy show ?thesis by simp
    qed
    with False 1 show ?thesis by simp
  qed
qed auto

section \<open>Reading through the patches\<close>

definition patches_sorted :: "byte_patch list \<Rightarrow> bool" where
  "patches_sorted ps \<longleftrightarrow> sorted (map bp_offset ps)"

lemma lower_bound_patch_split:
  assumes "patches_sorted ps"
  shows "lower_bound_patch ps start \<le> length ps"
    and "p \<in> set (take (lower_bound_patch ps start) ps) \<Longrightarrow> bp_offset p < start"
    and "p \<in> set (drop (lower_bound_patch ps start) ps) \<Longrightarrow> start \<le> bp_offset p"
proof -
  let ?k = "bsearch (\<lambda>i. bp_offset (ps ! i) < start) 0 (length ps)"
  have eq: "lower_bound_patch ps start = ?k"
    by (simp add: lower_bound_patch_def lower_bound_bsearch)
  have anti: "antitone_on 0 (length ps) (\<lambda>i. bp_offset (ps ! i) < start)"
    using assms unfolding patches_sorted_def antitone_on_def sorted_iff_nth_mono
    by (auto intro: le_less_trans)
  show k: "lower_bound_patch ps start \<le> length ps"
    using bsearch_bounds[OF le0, of _ "length ps"] unfolding eq by blast
  show "bp_offset p < start" if pin: "p \<in> set (take (lower_bound_patch ps start) ps)"
  proof -
    obtain i where "i < ?k" "p = ps ! i"
      using pin k unfolding eq by (auto simp: in_set_conv_nth)
    moreover have "\<forall>i. 0 \<le> i \<and> i < ?k \<longrightarrow> bp_offset (ps ! i) < start"
      using bsearch_split[OF le0 anti] by blast
    ultimately show ?thesis by simp
  qed
  show "start \<le> bp_offset p" if pin: "p \<in> set (drop (lower_bound_patch ps start) ps)"
  proof -
    obtain i where "i < length ps - ?k" "p = ps ! (?k + i)"
      using pin k unfolding eq by (auto simp: in_set_conv_nth)
    moreover have "\<forall>i. ?k \<le> i \<and> i < length ps \<longrightarrow> \<not> bp_offset (ps ! i) < start"
      using bsearch_split[OF le0 anti] by blast
    ultimately show ?thesis by (auto simp: not_less)
  qed
qed

lemma write_patches_span:
  assumes "sorted (map bp_offset ps)" and "\<forall>p\<in>set ps. start \<le> bp_offset p" and "start + n < two64"
  shows "write_patches start (start + n) ps (span f start n) = span (patch_view ps f) start n"
  using assms
proof (induction ps arbitrary: f)
  case (Cons p ps)
  show ?case
  proof (cases "bp_offset p < start + n")
    case True
    have "(span f start n)[bp_offset p - start := bp_value p] = span (f(bp_offset p := bp_value p)) start n"
      using True Cons.prems(2) by (intro nth_equalityI) (auto simp: nth_list_update)
    then show ?thesis using True Cons by simp
  next
    case False
    have "a \<notin> bp_offset ` set (p # ps)" if "a < start + n" for a
      using Cons.prems(1) False that by force
    then have "span f start n = span (patch_view (p # ps) f) start n"
      by (intro span_cong) (metis patch_view_outside)
    then show ?thesis using False by simp
  qed
qed simp

text \<open>The loop leaves alone what lies behind the buffer, when its indices stay below the length.\<close>

lemma write_patches_append:
  assumes "\<forall>p\<in>set ps. bp_offset p < stop \<longrightarrow> u64_sub (bp_offset p) start < length buffer"
  shows "write_patches start stop ps (buffer @ beyond) = write_patches start stop ps buffer @ beyond"
  using assms by (induction ps arbitrary: buffer) (auto simp: list_update_append1)

lemma patched_span:
  assumes "patches_sorted ps" and "start + n < two64"
  shows "write_patches start (start + n) (drop (lower_bound_patch ps start) ps) (span f start n)
       = span (patch_view ps f) start n"
proof -
  let ?k = "lower_bound_patch ps start"
  have "sorted (map bp_offset (drop ?k ps))"
    using assms(1) by (simp add: patches_sorted_def drop_map[symmetric] sorted_wrt_drop)
  then have "write_patches start (start + n) (drop ?k ps) (span f start n) = span (patch_view (drop ?k ps) f) start n"
    using lower_bound_patch_split(3)[OF assms(1)] assms(2) by (intro write_patches_span) auto
  also have "\<dots> = span (patch_view (drop ?k ps) (patch_view (take ?k ps) f)) start n"
  proof (rule span_cong)
    fix a assume "start \<le> a" "a < start + n"
    then have "a \<notin> bp_offset ` set (take ?k ps)"
      using lower_bound_patch_split(2)[OF assms(1)] by force
    then have "patch_view (take ?k ps) f a = f a" by (rule patch_view_outside)
    then show "patch_view (drop ?k ps) f a = patch_view (drop ?k ps) (patch_view (take ?k ps) f) a"
      by (simp add: patch_view_at split: list.splits)
  qed
  also have "\<dots> = span (patch_view ps f) start n"
    by (simp add: patch_view_append[symmetric])
  finally show ?thesis .
qed

text \<open>\<open>memory\<close> is what the buffer pointer reaches: the buffer and what lies behind it.\<close>

lemma patched_memory:
  assumes "patches_sorted ps" and "start + length buffer < two64"
  shows "write_patches start (start + length buffer) (drop (lower_bound_patch ps start) ps) (buffer @ beyond)
       = span (patch_view ps (\<lambda>a. buffer ! (a - start))) start (length buffer) @ beyond"
proof -
  let ?ps = "drop (lower_bound_patch ps start) ps"
  have "u64_sub (bp_offset p) start < length buffer"
    if "p \<in> set ?ps" "bp_offset p < start + length buffer" for p
    using lower_bound_patch_split(3)[OF assms(1) that(1)] that(2) assms(2) by simp
  then have "write_patches start (start + length buffer) ?ps (buffer @ beyond)
      = write_patches start (start + length buffer) ?ps buffer @ beyond"
    by (intro write_patches_append) blast
  moreover have "buffer = span (\<lambda>a. buffer ! (a - start)) start (length buffer)"
    by (intro nth_equalityI) simp_all
  ultimately show ?thesis using patched_span[OF assms, of "\<lambda>a. buffer ! (a - start)"] by simp
qed

text \<open>The list a patched source is made with: sorted, and with the view of the declarations.\<close>

lemma make_patched_list:
  assumes "gdox_source_make_patched mem ops inner (Some ps) (length ps) = (Inr (), inner', Patched out)"
  shows "\<exists>qs. out = Some \<lparr>pt_inner = inner, pt_patches = qs\<rparr> \<and> patches_sorted qs \<and> patch_view qs = patch_view ps
     \<and> gdox_source_sector_count ops inner \<le> UINT64_MAX div GDOX_LOGICAL_SECTOR_BYTES \<and> inner' = None"
proof -
  obtain xs where xs: "index_patches (u64_mul (gdox_source_sector_count ops inner) GDOX_LOGICAL_SECTOR_BYTES) 0 ps = Inr xs"
    and made: "out = Some \<lparr>pt_inner = inner,
       pt_patches = map ip_patch (unique_patches (qsort compare_indexed_patches xs))\<rparr>"
    and rest: "gdox_source_sector_count ops inner \<le> UINT64_MAX div GDOX_LOGICAL_SECTOR_BYTES" "inner' = None"
    using assms by (auto simp: gdox_source_make_patched_def Let_def split: if_splits sum.splits)
  let ?qs = "map ip_patch (unique_patches (qsort compare_indexed_patches xs))"
  have "sorted_wrt (\<lambda>p q. bp_offset p < bp_offset q) ?qs"
    by (rule unique_patches_sorted[OF indexed_patches.sorted_qsort])
  then have "patches_sorted ?qs"
    unfolding patches_sorted_def sorted_map by (rule sorted_wrt_mono_rel[rotated]) simp
  moreover have "patch_view ?qs = patch_view ps"
    using index_patches_Inr[OF xs] by (intro ext) (simp add: unique_patches_view qsort_patches_view)
  ultimately show ?thesis using made rest by blast
qed

section \<open>Contracts\<close>

definition patched_valid :: "'s source_ops \<Rightarrow> ('s \<Rightarrow> bool) \<Rightarrow> 's patch_context \<Rightarrow> bool" where
  "patched_valid ops valid c \<longleftrightarrow>
     (case pt_inner c of None \<Rightarrow> False
      | Some s \<Rightarrow> valid s \<and> op_sector_count ops s \<le> UINT64_MAX div GDOX_LOGICAL_SECTOR_BYTES)
     \<and> patches_sorted (pt_patches c)"

definition patched_contents :: "('s \<Rightarrow> nat \<Rightarrow> byte) \<Rightarrow> 's patch_context \<Rightarrow> nat \<Rightarrow> byte" where
  "patched_contents contents c =
     (case pt_inner c of None \<Rightarrow> (\<lambda>_. 0) | Some s \<Rightarrow> patch_view (pt_patches c) (contents s))"

definition patched_ready :: "('s \<Rightarrow> bool) \<Rightarrow> 's patch_context \<Rightarrow> bool" where
  "patched_ready ready c \<longleftrightarrow> (case pt_inner c of None \<Rightarrow> False | Some s \<Rightarrow> ready s)"

lemma patched_put_view:
  "patched_valid ops valid c \<Longrightarrow> pt_inner c = Some s \<Longrightarrow> view_kept ops valid contents s s' \<Longrightarrow>
   view_kept (patch_ops ops) (patched_valid ops valid) (patched_contents contents) c (put_patched (Some s') c)"
  by (auto simp: view_kept_def patched_valid_def patched_contents_def patch_sector_count_def
      forward_sector_count_def)

context sector_source
begin

lemma patch_read_view:
  assumes "patched_valid ops valid c" and "patch_read ops c lba blocks n = (r, c')"
  shows "view_kept (patch_ops ops) (patched_valid ops valid) (patched_contents contents) c c'
    \<and> (\<forall>bs. r = Inr bs \<longrightarrow>
         bs = span (patched_contents contents c) (lba * GDOX_LOGICAL_SECTOR_BYTES)
                (blocks * GDOX_LOGICAL_SECTOR_BYTES))"
proof -
  obtain s where s: "pt_inner c = Some s" "valid s"
      "op_sector_count ops s \<le> UINT64_MAX div GDOX_LOGICAL_SECTOR_BYTES" "patches_sorted (pt_patches c)"
    using assms(1) by (auto simp: patched_valid_def split: option.splits)
  obtain q h where rd: "gdox_source_read ops (Some s) lba blocks n = (q, h)" by fastforce
  obtain s' where h: "h = Some s'" and vk: "view_kept ops valid contents s s'"
    and ok: "\<And>bs. q = Inr bs \<Longrightarrow>
        bs = span (contents s) (lba * GDOX_LOGICAL_SECTOR_BYTES) (blocks * GDOX_LOGICAL_SECTOR_BYTES)
        \<and> n = blocks * GDOX_LOGICAL_SECTOR_BYTES \<and> lba + blocks \<le> op_sector_count ops s"
    using source_read_view[OF s(2) rd] by blast
  have c': "c' = put_patched (Some s') c"
    using assms(2) rd s(1) h by (auto simp: patch_read_def Let_def split: sum.splits)
  have "bs = span (patched_contents contents c) (lba * GDOX_LOGICAL_SECTOR_BYTES)
          (blocks * GDOX_LOGICAL_SECTOR_BYTES)" if r: "r = Inr bs" for bs
  proof -
    obtain out where q: "q = Inr out"
      using assms(2) rd s(1) r by (cases q) (auto simp: patch_read_def Let_def)
    note o = ok[OF q]
    have m: "u64_mul lba GDOX_LOGICAL_SECTOR_BYTES = lba * GDOX_LOGICAL_SECTOR_BYTES"
      and a: "lba * GDOX_LOGICAL_SECTOR_BYTES + n < two64"
      using o s(3) by (simp_all add: UINT64_MAX_def)
    show ?thesis
      using assms(2) rd s(1) r q o m a patched_span[OF s(4) a, of "contents s"]
      by (simp add: patch_read_def Let_def patched_contents_def)
  qed
  then show ?thesis using patched_put_view[OF assms(1) s(1) vk] c' by auto
qed

lemma patched_sector_source:
  "sector_source (patch_ops ops) (patched_valid ops valid) (patched_contents contents)"
proof (rule adapter_sector_source[where get = pt_inner and put = put_patched])
  fix c g assume "op_abort (patch_ops ops) = Some g" "patched_valid ops valid c"
  then show "view_kept (patch_ops ops) (patched_valid ops valid) (patched_contents contents) c (g c)"
    using forward_abort_view[of pt_inner c _ put_patched] patched_put_view[of ops valid c]
    by (fastforce simp: patch_abort_def patched_valid_def split: option.splits)
next
  fix c h q c' assume "op_prepare_close (patch_ops ops) = Some h" "patched_valid ops valid c" "h c = (q, c')"
  then show "view_kept (patch_ops ops) (patched_valid ops valid) (patched_contents contents) c c'"
    using forward_prepare_view[of pt_inner c _ put_patched] patched_put_view[of ops valid c]
    by (fastforce simp: patch_prepare_close_def patched_valid_def split: option.splits)
next
  fix c assume "patched_valid ops valid c"
  then show "op_sector_count (patch_ops ops) c < two64"
    using count_less
    by (fastforce simp: patched_valid_def patch_sector_count_def forward_sector_count_def split: option.splits)
next
  fix c assume "patched_valid ops valid c"
  then show "\<exists>s. pt_inner c = Some s \<and> valid s"
    by (auto simp: patched_valid_def split: option.splits)
qed (simp_all add: patch_media_present_def patch_observe_media_def patched_put_view patch_read_view)

lemma make_patched_view:
  assumes "gdox_source_make_patched mem ops (Some s) (Some ps) (length ps) = (Inr (), inner', output)"
    and "valid s" and "ps \<noteq> []"
  shows "inner' = None \<and> (\<exists>c. output = Patched (Some c) \<and> patched_valid ops valid c
     \<and> patched_contents contents c = patch_view ps (contents s)
     \<and> patch_sector_count ops c = op_sector_count ops s)"
proof -
  obtain out where "output = Patched out"
    using assms(1,3) by (auto simp: gdox_source_make_patched_def Let_def split: if_splits sum.splits)
  with make_patched_list[of mem ops "Some s" ps inner' out] assms(1) obtain qs where
    "output = Patched (Some \<lparr>pt_inner = Some s, pt_patches = qs\<rparr>)" "patches_sorted qs" "patch_view qs = patch_view ps"
    "gdox_source_sector_count ops (Some s) \<le> UINT64_MAX div GDOX_LOGICAL_SECTOR_BYTES" "inner' = None"
    by auto
  then show ?thesis
    using assms(2)
    by (simp add: patched_valid_def patched_contents_def patch_sector_count_def forward_sector_count_def
        gdox_source_sector_count_def)
qed

end

context reliable_source
begin

lemma patched_reliable_source:
  "reliable_source (patch_ops ops) (patched_valid ops valid) (patched_contents contents) (patched_ready ready)"
proof (rule reliable_source.intro[OF patched_sector_source], standard)
  fix c lba blocks n
  assume v: "patched_valid ops valid c" and rdy: "patched_ready ready c"
    and rq: "gdox_source_validate_read (op_sector_count (patch_ops ops) c) lba blocks n = Inr ()"
  obtain s where s: "pt_inner c = Some s" "valid s" "ready s"
    using v rdy by (auto simp: patched_valid_def patched_ready_def split: option.splits)
  have rq': "gdox_source_validate_read (op_sector_count ops s) lba blocks n = Inr ()"
    using rq s(1) by (simp add: patch_sector_count_def forward_sector_count_def)
  from ready_read[OF s(2,3) this] obtain bs s'
    where "op_read ops s lba blocks n = (Inr bs, s')" "ready s'" by blast
  then show "\<exists>bs c'. op_read (patch_ops ops) c lba blocks n = (Inr bs, c') \<and> patched_ready ready c'"
    using rq' s(1) by (auto simp: patch_read_def gdox_source_read_def patched_ready_def Let_def)
qed

end

context closable_source
begin

lemma patched_closable_source:
  "closable_source (patch_ops ops) (\<lambda>c. \<exists>s. pt_inner c = Some s \<and> prepared s)"
  by (rule adapter_closable[where put = "\<lambda>_. put_patched"])
    (auto simp: patch_prepare_close_def patch_close_def
      intro: prepare_step_forward dest: prepare_step_forward_None[rotated 2])

end

interpretation file_patched: reliable_source "patch_ops file_ops" "patched_valid file_ops file_valid"
  "patched_contents file_contents" "patched_ready file_ready"
  by (rule file_source.patched_reliable_source)

section \<open>Properties\<close>

text \<open>
  C16: A source patched with a list of declared byte patches shows the bytes of its inner source with
  the patches written over them in declaration order (so the last patch of an offset wins), on every
  read of any sequence, whatever the order and repetition of the declarations.
\<close>
theorem patched_shows_patch_view:
  assumes "reliable_source ops valid contents ready" and "valid s" and "ready s"
    and "gdox_source_make_patched mem ops (Some s) (Some ps) (length ps) = (Inr (), inner', Patched out)"
    and "ps \<noteq> []" and "requests_inside (op_sector_count ops s) requests"
  shows "inner' = None \<and> fst (source_reads (patch_ops ops) requests out) = span_answers (patch_view ps (contents s)) requests"
proof -
  obtain c where c: "inner' = None" "out = Some c" "patched_valid ops valid c"
      "patched_contents contents c = patch_view ps (contents s)"
      "patch_sector_count ops c = op_sector_count ops s"
    using sector_source.make_patched_view[OF reliable_source.axioms(1)[OF assms(1)] assms(4,2,5)] by blast
  have rdy: "patched_ready ready c"
    using assms(3,4,5) c(2)
    by (auto simp: gdox_source_make_patched_def patched_ready_def Let_def split: if_splits sum.splits)
  show ?thesis
    using reliable_source.source_reads_ready[where requests = requests,
        OF reliable_source.patched_reliable_source[OF assms(1)] c(3) rdy] assms(6) c
    by auto
qed

theorem patched_shows_patch_view_witness:
  "fst (source_reads (patch_ops file_ops) [(1, 1), (0, 2)]
       (Some \<lparr>pt_inner = Some sample_file,
              pt_patches = [\<lparr>bp_offset = 3, bp_value = 9\<rparr>, \<lparr>bp_offset = 2050, bp_value = 2\<rparr>]\<rparr>)) =
     span_answers (patch_view [\<lparr>bp_offset = 2050, bp_value = 1\<rparr>, \<lparr>bp_offset = 3, bp_value = 9\<rparr>,
            \<lparr>bp_offset = 2050, bp_value = 2\<rparr>] (file_contents sample_file)) [(1, 1), (0, 2)]"
proof -
  let ?ps = "[\<lparr>bp_offset = 2050, bp_value = 1\<rparr>, \<lparr>bp_offset = 3, bp_value = 9\<rparr>,
    \<lparr>bp_offset = 2050, bp_value = 2\<rparr>]"
  have m: "gdox_source_make_patched (\<lambda>_. True) file_ops (Some sample_file) (Some ?ps) (length ?ps) =
     (Inr (), None, Patched (Some \<lparr>pt_inner = Some sample_file,
        pt_patches = [\<lparr>bp_offset = 3, bp_value = 9\<rparr>, \<lparr>bp_offset = 2050, bp_value = 2\<rparr>]\<rparr>))"
    by (simp add: gdox_source_make_patched_def Let_def SIZE_MAX_def UINT64_MAX_def INDEXED_PATCH_BYTES_def
        compare_indexed_patches_def)
  show ?thesis
    by (rule patched_shows_patch_view[OF file_source.reliable_source_axioms _ _ m, THEN conjunct2])
      (simp_all add: requests_inside_def)
qed

text \<open>
  C17: A patched read writes no byte outside the caller's buffer. For a source patched with any list of
  declarations, over any inner source, in any later state of it that still has its size: when the inner
  read leaves the caller's memory as the buffer followed by other bytes, the patched read gives back
  the buffer with the declared patches of its window over it, and every byte behind the buffer as the
  inner read left it, also where patches are declared right before and right behind the window.
\<close>
theorem patch_writes_in_buffer:
  assumes "gdox_source_make_patched mem ops inner (Some ps) (length ps) = (Inr (), inner', Patched (Some c))"
    and "gdox_source_sector_count ops inner < two64"
    and "gdox_source_sector_count ops later = gdox_source_sector_count ops inner"
    and "gdox_source_read ops later lba blocks (length buffer) = (Inr (buffer @ beyond), h)"
  shows "patch_read ops (put_patched later c) lba blocks (length buffer) =
     (Inr (span (patch_view ps (\<lambda>a. buffer ! (a - lba * GDOX_LOGICAL_SECTOR_BYTES)))
             (lba * GDOX_LOGICAL_SECTOR_BYTES) (length buffer) @ beyond),
      put_patched h c)"
proof -
  obtain qs where c: "c = \<lparr>pt_inner = inner, pt_patches = qs\<rparr>" "patches_sorted qs" "patch_view qs = patch_view ps"
      and small: "gdox_source_sector_count ops inner \<le> UINT64_MAX div GDOX_LOGICAL_SECTOR_BYTES"
    using make_patched_list[OF assms(1)] by auto
  obtain s where "later = Some s" and "gdox_source_validate_read (op_sector_count ops s) lba blocks (length buffer) = Inr ()"
    using assms(4) by (auto simp: gdox_source_read_def split: option.splits sum.splits)
  then have "length buffer = blocks * GDOX_LOGICAL_SECTOR_BYTES" "lba + blocks \<le> gdox_source_sector_count ops inner"
    using validate_read_ok_iff assms(2,3) by (auto simp: gdox_source_sector_count_def)
  then have a: "lba * GDOX_LOGICAL_SECTOR_BYTES + length buffer < two64"
    using small by (simp add: UINT64_MAX_def)
  then show ?thesis
    using patched_memory[OF c(2) a, of beyond] assms(4) c by (simp add: patch_read_def Let_def)
qed

theorem patch_writes_in_buffer_witness:
  "\<exists>c ops. gdox_source_make_patched (\<lambda>_. True) ops (Some sample_file)
       (Some [\<lparr>bp_offset = 4096, bp_value = 5\<rparr>, \<lparr>bp_offset = 4095, bp_value = 4\<rparr>, \<lparr>bp_offset = 2047, bp_value = 3\<rparr>]) 3
       = (Inr (), None, Patched (Some c))
     \<and> fst (patch_read ops c 1 1 2048) = Inr (replicate 2047 0 @ [4, 7, 7])"
proof -
  let ?ops = "file_ops\<lparr>op_read := \<lambda>s lba blocks n. (Inr (replicate n 0 @ [7, 7]), s)\<rparr>"
  let ?ps = "[\<lparr>bp_offset = 4096, bp_value = 5\<rparr>, \<lparr>bp_offset = 4095, bp_value = 4\<rparr>, \<lparr>bp_offset = 2047, bp_value = 3\<rparr>]"
  let ?c = "\<lparr>pt_inner = Some sample_file, pt_patches = [\<lparr>bp_offset = 2047, bp_value = 3\<rparr>, \<lparr>bp_offset = 4095, bp_value = 4\<rparr>,
    \<lparr>bp_offset = 4096, bp_value = 5\<rparr>]\<rparr>"
  have made: "gdox_source_make_patched (\<lambda>_. True) ?ops (Some sample_file) (Some ?ps) (length ?ps)
      = (Inr (), None, Patched (Some ?c))"
    by (simp add: gdox_source_make_patched_def Let_def SIZE_MAX_def UINT64_MAX_def INDEXED_PATCH_BYTES_def
        compare_indexed_patches_def gdox_source_sector_count_def)
  let ?buffer = "replicate 2048 (0 :: byte)"
  have read: "gdox_source_read ?ops (Some sample_file) 1 1 (length ?buffer) = (Inr (?buffer @ [7, 7]), Some sample_file)"
    by (simp add: gdox_source_read_def gdox_source_validate_read_def Let_def SIZE_MAX_def)
  have "span (patch_view ?ps (\<lambda>a. ?buffer ! (a - 1 * GDOX_LOGICAL_SECTOR_BYTES))) (1 * GDOX_LOGICAL_SECTOR_BYTES)
      (length ?buffer) = replicate 2047 0 @ [4]"
    by (intro nth_equalityI) (auto simp: nth_append)
  with patch_writes_in_buffer[OF made _ _ read] have "fst (patch_read ?ops ?c 1 1 2048) = Inr (replicate 2047 0 @ [4, 7, 7])"
    by (simp add: gdox_source_sector_count_def)
  moreover have "length ?ps = 3" by simp
  ultimately show ?thesis using made by metis
qed

end
