(* ===== verification/DirectoryCache.thy ===== *)
theory DirectoryCache
  imports Adapter FileSource
begin

text \<open>
  The XDVDFS directory cache of src/src/core/xdvdfs_directory_cache.c. While a volume is inspected the
  directory buffers are retained in a bounded list of extents; once finalized the list is sorted
  and carries the running maximum of its ends, and a source adapter serves reads from it, piece by
  piece, falling through to the wrapped partition between the extents.
\<close>

definition DIRECTORY_CACHE_MAX_BYTES :: nat where "DIRECTORY_CACHE_MAX_BYTES = 67108864"
definition DIRECTORY_CACHE_MAX_ENTRIES :: nat where "DIRECTORY_CACHE_MAX_ENTRIES = 16384"
definition CACHED_EXTENT_BYTES :: nat where "CACHED_EXTENT_BYTES = 32"

record cached_directory_extent =
  ce_start_sector :: u64
  ce_prefix_max_end :: u64
  ce_blocks :: u32
  ce_bytes :: "byte list option"

record directory_cache =
  dc_extents :: "cached_directory_extent list"
  dc_capacity :: nat
  dc_retained_bytes :: u64
  dc_finalized :: bool

record 's directory_cache_context =
  dx_inner :: "'s sector_source"
  dx_cache :: directory_cache
  dx_aborted :: bool
  dx_closing :: bool

abbreviation put_cached :: "'s sector_source \<Rightarrow> 's directory_cache_context \<Rightarrow> 's directory_cache_context" where
  "put_cached h c \<equiv> c\<lparr>dx_inner := h\<rparr>"

definition extent_end :: "cached_directory_extent \<Rightarrow> u64" where
  "extent_end extent = u64_add (ce_start_sector extent) (ce_blocks extent)"

definition compare_cached_extents :: "cached_directory_extent \<Rightarrow> cached_directory_extent \<Rightarrow> int" where
  "compare_cached_extents left right =
     (if ce_start_sector left < ce_start_sector right then -1
      else if ce_start_sector left > ce_start_sector right then 1
      else if ce_blocks left < ce_blocks right then -1
      else if ce_blocks left > ce_blocks right then 1
      else 0)"

interpretation cached_extents: comparator compare_cached_extents
  by unfold_locales (auto simp: compare_cached_extents_def split: if_splits)

interpretation cached_index: extent_index ce_start_sector extent_end ce_prefix_max_end
    "\<lambda>m x. x\<lparr>ce_prefix_max_end := m\<rparr>"
  by unfold_locales (simp_all add: extent_end_def)

section \<open>Collecting extents\<close>

definition empty_directory_cache :: directory_cache where
  "empty_directory_cache =
     \<lparr>dc_extents = [], dc_capacity = 0, dc_retained_bytes = 0, dc_finalized = False\<rparr>"

definition gdox_xdvdfs_directory_cache_create ::
  "bool \<Rightarrow> directory_cache option \<Rightarrow> directory_cache option res" where
  "gdox_xdvdfs_directory_cache_create mem cache =
     (if cache \<noteq> None
      then fail ERROR_INVALID_ARGUMENT ''an empty XDVDFS directory cache output is required''
      else if \<not> mem
      then fail ERROR_INTERNAL ''could not allocate the XDVDFS directory cache''
      else Inr (Some empty_directory_cache))"

text \<open>
  Result, the cache, and what the caller's buffer pointer holds afterwards: a retained buffer has
  moved into the cache, a buffer beyond the limits (or that the list cannot grow for) stays with the
  caller.
\<close>

definition gdox_xdvdfs_directory_cache_retain ::
  "(nat \<Rightarrow> bool) \<Rightarrow> directory_cache \<Rightarrow> u32 \<Rightarrow> u32 \<Rightarrow> byte list option
     \<Rightarrow> unit res \<times> directory_cache \<times> byte list option" where
  "gdox_xdvdfs_directory_cache_retain mem cache start_sector blocks bytes =
     (let retained = blocks * GDOX_LOGICAL_SECTOR_BYTES;
          count = length (dc_extents cache)
      in if dc_finalized cache \<or> blocks = 0 \<or> bytes = None
         then (fail ERROR_INVALID_ARGUMENT ''directory cache retention requires a live cache and buffer'',
               cache, bytes)
         else if retained > u64_sub DIRECTORY_CACHE_MAX_BYTES (dc_retained_bytes cache)
                 \<or> count \<ge> DIRECTORY_CACHE_MAX_ENTRIES
         then (Inr (), cache, bytes)
         else (let full = (count = dc_capacity cache);
                   capacity = (if full then grown_capacity 8 DIRECTORY_CACHE_MAX_ENTRIES (dc_capacity cache)
                               else dc_capacity cache)
               in if full \<and> \<not> mem (capacity * CACHED_EXTENT_BYTES) then (Inr (), cache, bytes)
                  else (Inr (),
                        cache\<lparr>dc_extents := dc_extents cache @
                                [\<lparr>ce_start_sector = start_sector, ce_prefix_max_end = 0,
                                  ce_blocks = blocks, ce_bytes = bytes\<rparr>],
                              dc_capacity := capacity,
                              dc_retained_bytes := u64_add (dc_retained_bytes cache) retained\<rparr>,
                        None)))"

definition gdox_xdvdfs_directory_cache_finalize :: "directory_cache \<Rightarrow> directory_cache" where
  "gdox_xdvdfs_directory_cache_finalize cache =
     (if dc_finalized cache then cache
      else cache\<lparr>dc_extents := index_prefix extent_end (\<lambda>m x. x\<lparr>ce_prefix_max_end := m\<rparr>) 0
                   (if length (dc_extents cache) > 1
                    then qsort compare_cached_extents (dc_extents cache) else dc_extents cache),
                 dc_finalized := True\<rparr>)"

section \<open>Lookup\<close>

definition first_containing_extent :: "cached_directory_extent list \<Rightarrow> u64 \<Rightarrow> nat" where
  "first_containing_extent extents lba =
     (let count = length extents;
          low = bsearch (\<lambda>middle. ce_start_sector (extents ! middle) \<le> lba) 0 count
      in if low = 0 then count
         else (let containing_limit = low - 1
               in if ce_prefix_max_end (extents ! containing_limit) \<le> lba then count
                  else (let low = bsearch (\<lambda>middle. ce_prefix_max_end (extents ! middle) \<le> lba)
                                    0 (containing_limit + 1)
                        in if extent_end (extents ! low) > lba then low else count)))"

definition next_extent_start :: "cached_directory_extent list \<Rightarrow> u64 \<Rightarrow> u64" where
  "next_extent_start extents lba =
     (let count = length extents;
          low = bsearch (\<lambda>middle. ce_start_sector (extents ! middle) \<le> lba) 0 count
      in if low < count then ce_start_sector (extents ! low) else UINT64_MAX)"

lemma first_containing_extent_eq:
  "first_containing_extent extents lba =
     (case containing ce_start_sector extent_end ce_prefix_max_end extents lba (lba + 1) of
        None \<Rightarrow> length extents | Some i \<Rightarrow> i)"
  by (auto simp: first_containing_extent_def containing_def Let_def less_Suc_eq_le Suc_le_eq)

lemma first_containing_extent_end:
  "first_containing_extent extents lba < length extents \<Longrightarrow>
   lba < extent_end (extents ! first_containing_extent extents lba)"
  by (auto simp: first_containing_extent_def Let_def split: if_splits)

lemma next_extent_start_greater:
  "next_extent_start extents lba \<noteq> UINT64_MAX \<Longrightarrow> lba < next_extent_start extents lba"
  using bsearch_stops[of "\<lambda>middle. ce_start_sector (extents ! middle) \<le> lba" 0 "length extents"]
  by (auto simp: next_extent_start_def Let_def split: if_splits)

section \<open>The caching source\<close>

definition request_cancelled :: "'s directory_cache_context \<Rightarrow> bool" where
  "request_cancelled c \<longleftrightarrow> dx_aborted c \<or> dx_closing c"

abbreviation directory_cancelled :: "gdox_error" where
  "directory_cancelled \<equiv> err ERROR_CANCELLED ''XDVDFS directory cache source is no longer readable''"

definition cache_sector_count :: "'s source_ops \<Rightarrow> 's directory_cache_context \<Rightarrow> u64" where
  "cache_sector_count ops = forward_sector_count dx_inner ops"

text \<open>
  The loop of \<open>cache_read\<close>. A chunk is at most the remaining 32-bit block count, so the casts to
  \<open>uint32_t\<close> keep its value; \<open>extent_end(extent) - current\<close> and \<open>next - current\<close> cannot wrap
  (\<open>first_containing_extent_end\<close>, \<open>next_extent_start_greater\<close>) and are positive, which is why the loop
  ends. \<open>filled\<close> is the part of the output already written.
\<close>

function cache_read_loop ::
  "'s source_ops \<Rightarrow> 's directory_cache_context \<Rightarrow> u64 \<Rightarrow> nat \<Rightarrow> byte list
     \<Rightarrow> byte list res \<times> 's directory_cache_context" where
  "cache_read_loop ops c current remaining filled =
     (if remaining = 0
      then (if request_cancelled c then Inl directory_cancelled else Inr filled, c)
      else (let extents = dc_extents (dx_cache c);
                cached = first_containing_extent extents current
            in if request_cancelled c then (Inl directory_cancelled, c)
               else if cached < length extents
               then (let extent = extents ! cached;
                         available = extent_end extent - current;
                         chunk = (if available < remaining then available else remaining);
                         piece = take (chunk * GDOX_LOGICAL_SECTOR_BYTES)
                                   (drop (u64_sub current (ce_start_sector extent) * GDOX_LOGICAL_SECTOR_BYTES)
                                     (the (ce_bytes extent)))
                     in if request_cancelled c then (Inl directory_cancelled, c)
                        else cache_read_loop ops c (u64_add current chunk) (remaining - chunk)
                               (filled @ piece))
               else (let next = next_extent_start extents current;
                         chunk = (if next \<noteq> UINT64_MAX \<and> next - current < remaining
                                  then next - current else remaining)
                     in case gdox_source_read ops (dx_inner c) current chunk
                               (chunk * GDOX_LOGICAL_SECTOR_BYTES) of
                          (Inl e, h) \<Rightarrow> (Inl e, put_cached h c)
                        | (Inr piece, h) \<Rightarrow>
                            cache_read_loop ops (put_cached h c) (u64_add current chunk)
                              (remaining - chunk) (filled @ piece))))"
  by pat_completeness auto
termination
proof (relation "measure (\<lambda>(ops, c, current, remaining, filled). remaining)", goal_cases)
  case (2 ops c current remaining filled extents cached extent available chunk piece)
  then show ?case using first_containing_extent_end[of extents current] by auto
next
  case (3 ops c current remaining filled extents cached following chunk r h piece)
  then show ?case using next_extent_start_greater[of extents current] by auto
qed simp

declare cache_read_loop.simps [simp del]

definition cache_read ::
  "'s source_ops \<Rightarrow> 's directory_cache_context \<Rightarrow> u64 \<Rightarrow> u32 \<Rightarrow> nat
     \<Rightarrow> byte list res \<times> 's directory_cache_context" where
  "cache_read ops c lba blocks output_bytes =
     (if request_cancelled c then (Inl directory_cancelled, c)
      else cache_read_loop ops c lba blocks [])"

definition cache_media_present ::
  "'s source_ops \<Rightarrow> 's directory_cache_context \<Rightarrow> bool \<times> 's directory_cache_context" where
  "cache_media_present ops = forward_media_present dx_inner put_cached ops"

definition cache_observe_media ::
  "'s source_ops \<Rightarrow> 's directory_cache_context \<Rightarrow> media_observation \<times> 's directory_cache_context" where
  "cache_observe_media ops = forward_observe_media dx_inner put_cached ops"

definition cache_evidence :: "'s source_ops \<Rightarrow> 's directory_cache_context \<Rightarrow> bool \<times> disc_evidence" where
  "cache_evidence ops = forward_evidence dx_inner ops"

definition cache_physical_read_stats ::
  "'s source_ops \<Rightarrow> 's directory_cache_context \<Rightarrow> bool \<times> physical_read_stats" where
  "cache_physical_read_stats ops = forward_physical_read_stats dx_inner ops"

definition cache_abort :: "'s source_ops \<Rightarrow> 's directory_cache_context \<Rightarrow> 's directory_cache_context" where
  "cache_abort ops c = put_cached (gdox_source_abort ops (dx_inner c)) (c\<lparr>dx_aborted := True\<rparr>)"

definition cache_prepare_close ::
  "'s source_ops \<Rightarrow> 's directory_cache_context \<Rightarrow> unit res \<times> 's directory_cache_context" where
  "cache_prepare_close ops c =
     (case gdox_source_prepare_close ops (dx_inner c) of
        (Inl e, h) \<Rightarrow> (Inl e, put_cached h c)
      | (Inr _, h) \<Rightarrow> (Inr (), (put_cached h c)\<lparr>dx_closing := True\<rparr>))"

definition cache_close :: "'s source_ops \<Rightarrow> 's directory_cache_context \<Rightarrow> unit res \<times> bool" where
  "cache_close ops = forward_close dx_inner ops"

definition cache_ops :: "'s source_ops \<Rightarrow> 's directory_cache_context source_ops" where
  "cache_ops ops =
     \<lparr>op_sector_count = cache_sector_count ops, op_read = cache_read ops,
      op_media_present = Some (cache_media_present ops), op_close = cache_close ops,
      op_evidence = Some (cache_evidence ops),
      op_physical_read_stats = Some (cache_physical_read_stats ops),
      op_abort = Some (cache_abort ops),
      op_prepare_close = Some (cache_prepare_close ops),
      op_observe_media = Some (cache_observe_media ops)\<rparr>"

lemma cache_ops_simps [simp]:
  "op_sector_count (cache_ops ops) = cache_sector_count ops"
  "op_read (cache_ops ops) = cache_read ops"
  "op_media_present (cache_ops ops) = Some (cache_media_present ops)"
  "op_close (cache_ops ops) = cache_close ops"
  "op_evidence (cache_ops ops) = Some (cache_evidence ops)"
  "op_physical_read_stats (cache_ops ops) = Some (cache_physical_read_stats ops)"
  "op_abort (cache_ops ops) = Some (cache_abort ops)"
  "op_prepare_close (cache_ops ops) = Some (cache_prepare_close ops)"
  "op_observe_media (cache_ops ops) = Some (cache_observe_media ops)"
  by (simp_all add: cache_ops_def)

definition cached_extent_fits :: "u64 \<Rightarrow> cached_directory_extent \<Rightarrow> bool" where
  "cached_extent_fits source_sectors extent \<longleftrightarrow>
     \<not> (ce_bytes extent = None \<or> ce_start_sector extent > source_sectors
        \<or> ce_blocks extent > u64_sub source_sectors (ce_start_sector extent))"

text \<open>Result, the partition handle, the cache pointer and the output handle afterwards.\<close>

definition gdox_source_make_xdvdfs_directory_cache ::
  "bool \<Rightarrow> 's source_ops \<Rightarrow> 's sector_source \<Rightarrow> directory_cache option
     \<Rightarrow> 's directory_cache_context sector_source
     \<Rightarrow> unit res \<times> 's sector_source \<times> directory_cache option \<times> 's directory_cache_context sector_source" where
  "gdox_source_make_xdvdfs_directory_cache mem ops inner cache output =
     (case cache of
        None \<Rightarrow> (fail ERROR_INVALID_ARGUMENT
            ''directory cache source requires a partition, finalized cache, and empty output'',
            inner, cache, output)
      | Some dc \<Rightarrow>
          if \<not> gdox_source_is_valid inner \<or> gdox_source_is_valid output \<or> \<not> dc_finalized dc
          then (fail ERROR_INVALID_ARGUMENT
                  ''directory cache source requires a partition, finalized cache, and empty output'',
                inner, cache, output)
          else if list_all (cached_extent_fits (gdox_source_sector_count ops inner)) (dc_extents dc)
          then (if \<not> mem
                then (fail ERROR_INTERNAL ''could not allocate the XDVDFS directory cache source'',
                      inner, cache, output)
                else (Inr (), None, None,
                      Some \<lparr>dx_inner = inner, dx_cache = dc, dx_aborted = False, dx_closing = False\<rparr>))
          else (fail ERROR_OUT_OF_BOUNDS ''cached XDVDFS directory is outside the game partition'',
                inner, cache, output))"

section \<open>Invariants of the collection\<close>

text \<open>
  The collected list fits its allocation and the limits, \<open>retained_bytes\<close> is the total size of
  the buffers, and every extent owns a buffer of its size.
\<close>

definition directory_cache_ok :: "directory_cache \<Rightarrow> bool" where
  "directory_cache_ok dc \<longleftrightarrow>
     length (dc_extents dc) \<le> dc_capacity dc \<and> dc_capacity dc \<le> DIRECTORY_CACHE_MAX_ENTRIES
     \<and> dc_retained_bytes dc = sum_list (map (\<lambda>x. ce_blocks x * GDOX_LOGICAL_SECTOR_BYTES) (dc_extents dc))
     \<and> dc_retained_bytes dc \<le> DIRECTORY_CACHE_MAX_BYTES
     \<and> (\<forall>x \<in> set (dc_extents dc). 0 < ce_blocks x
          \<and> (\<exists>bs. ce_bytes x = Some bs \<and> length bs = ce_blocks x * GDOX_LOGICAL_SECTOR_BYTES))"

text \<open>Every buffer holds the bytes of \<open>f\<close> at its extent.\<close>

definition directory_cache_holds :: "(nat \<Rightarrow> byte) \<Rightarrow> directory_cache \<Rightarrow> bool" where
  "directory_cache_holds f dc \<longleftrightarrow>
     (\<forall>x \<in> set (dc_extents dc).
        ce_bytes x = Some (span f (ce_start_sector x * GDOX_LOGICAL_SECTOR_BYTES)
                             (ce_blocks x * GDOX_LOGICAL_SECTOR_BYTES)))"

lemma empty_directory_cache_ok [simp]:
  "directory_cache_ok empty_directory_cache" "directory_cache_holds f empty_directory_cache"
  "\<not> dc_finalized empty_directory_cache"
  by (simp_all add: empty_directory_cache_def directory_cache_ok_def directory_cache_holds_def)

lemma retain_cases:
  assumes "gdox_xdvdfs_directory_cache_retain mem dc start blocks (Some bs) = (Inr (), dc', bytes')"
    and "directory_cache_ok dc"
  obtains "dc' = dc" "bytes' = Some bs"
  | cap where "bytes' = None" "0 < blocks"
      "dc' = dc\<lparr>dc_extents := dc_extents dc @ [\<lparr>ce_start_sector = start, ce_prefix_max_end = 0,
                                  ce_blocks = blocks, ce_bytes = Some bs\<rparr>],
                dc_capacity := cap,
                dc_retained_bytes := dc_retained_bytes dc + blocks * GDOX_LOGICAL_SECTOR_BYTES\<rparr>"
      "length (dc_extents dc) < cap" "cap \<le> DIRECTORY_CACHE_MAX_ENTRIES"
      "dc_retained_bytes dc + blocks * GDOX_LOGICAL_SECTOR_BYTES \<le> DIRECTORY_CACHE_MAX_BYTES"
proof -
  have ok: "length (dc_extents dc) \<le> dc_capacity dc" "dc_capacity dc \<le> DIRECTORY_CACHE_MAX_ENTRIES"
      "dc_retained_bytes dc \<le> DIRECTORY_CACHE_MAX_BYTES"
    using assms(2) by (simp_all add: directory_cache_ok_def)
  have grow: "n < DIRECTORY_CACHE_MAX_ENTRIES \<Longrightarrow> n < grown_capacity 8 DIRECTORY_CACHE_MAX_ENTRIES n
      \<and> grown_capacity 8 DIRECTORY_CACHE_MAX_ENTRIES n \<le> DIRECTORY_CACHE_MAX_ENTRIES" for n
    by (auto simp: grown_capacity_def Let_def DIRECTORY_CACHE_MAX_ENTRIES_def)
  show thesis
  proof (cases "dc' = dc \<and> bytes' = Some bs")
    case True
    then show thesis using that(1) by blast
  next
    case False
    have sub: "u64_sub DIRECTORY_CACHE_MAX_BYTES (dc_retained_bytes dc) =
        DIRECTORY_CACHE_MAX_BYTES - dc_retained_bytes dc"
      using ok(3) by (simp add: DIRECTORY_CACHE_MAX_BYTES_def)
    have fits: "dc_retained_bytes dc + blocks * GDOX_LOGICAL_SECTOR_BYTES \<le> DIRECTORY_CACHE_MAX_BYTES"
      using assms(1) False ok(3) unfolding gdox_xdvdfs_directory_cache_retain_def Let_def sub
      by (auto split: if_splits)
    then have add: "u64_add (dc_retained_bytes dc) (blocks * GDOX_LOGICAL_SECTOR_BYTES) =
        dc_retained_bytes dc + blocks * GDOX_LOGICAL_SECTOR_BYTES"
      by (simp add: DIRECTORY_CACHE_MAX_BYTES_def)
    define cap where "cap = (if length (dc_extents dc) = dc_capacity dc
        then grown_capacity 8 DIRECTORY_CACHE_MAX_ENTRIES (dc_capacity dc) else dc_capacity dc)"
    have lim: "length (dc_extents dc) < DIRECTORY_CACHE_MAX_ENTRIES" "0 < blocks" "bytes' = None"
      and dc': "dc' = dc\<lparr>dc_extents := dc_extents dc @ [\<lparr>ce_start_sector = start, ce_prefix_max_end = 0,
                                  ce_blocks = blocks, ce_bytes = Some bs\<rparr>],
                dc_capacity := cap,
                dc_retained_bytes := u64_add (dc_retained_bytes dc) (blocks * GDOX_LOGICAL_SECTOR_BYTES)\<rparr>"
      using assms(1) False unfolding gdox_xdvdfs_directory_cache_retain_def Let_def cap_def
      by (auto split: if_splits)
    have "length (dc_extents dc) < cap" "cap \<le> DIRECTORY_CACHE_MAX_ENTRIES"
      using grow[of "dc_capacity dc"] lim(1) ok by (auto simp: cap_def)
    then show thesis using that(2) lim dc' add fits by metis
  qed
qed

lemma retain_ok:
  assumes "gdox_xdvdfs_directory_cache_retain mem dc start blocks (Some bs) = (Inr (), dc', bytes')"
    and "directory_cache_ok dc" and "length bs = blocks * GDOX_LOGICAL_SECTOR_BYTES"
  shows "directory_cache_ok dc' \<and> dc_finalized dc' = dc_finalized dc"
  using assms(1,2)
proof (cases rule: retain_cases)
  case (2 cap)
  then show ?thesis using assms(2,3) by (auto simp: directory_cache_ok_def)
qed (use assms(2) in simp)

lemma retain_holds:
  assumes "gdox_xdvdfs_directory_cache_retain mem dc start blocks (Some bs) = (Inr (), dc', bytes')"
    and "directory_cache_ok dc" and "directory_cache_holds f dc"
    and "bs = span f (start * GDOX_LOGICAL_SECTOR_BYTES) (blocks * GDOX_LOGICAL_SECTOR_BYTES)"
  shows "directory_cache_holds f dc'"
  using assms(1,2)
proof (cases rule: retain_cases)
  case (2 cap)
  then show ?thesis using assms(3,4) by (auto simp: directory_cache_holds_def)
qed (use assms(3) in simp)

lemma finalize_indexed:
  assumes "\<not> dc_finalized dc"
  shows "indexed ce_start_sector extent_end ce_prefix_max_end
      (dc_extents (gdox_xdvdfs_directory_cache_finalize dc))
    \<and> dc_finalized (gdox_xdvdfs_directory_cache_finalize dc)"
proof -
  let ?xs = "if length (dc_extents dc) > 1 then qsort compare_cached_extents (dc_extents dc) else dc_extents dc"
  have "sorted_wrt (\<lambda>a b. ce_start_sector a \<le> ce_start_sector b) (qsort compare_cached_extents (dc_extents dc))"
    by (rule sorted_wrt_mono_rel[OF _ cached_extents.sorted_qsort])
      (auto simp: compare_cached_extents_def split: if_splits)
  then have "sorted (map ce_start_sector ?xs)"
    by (cases "dc_extents dc" rule: remdups_adj.cases) (auto simp: sorted_map)
  then show ?thesis
    using assms cached_index.indexed_index_prefix[of ?xs]
    by (simp add: gdox_xdvdfs_directory_cache_finalize_def)
qed

lemma finalize_image:
  assumes "\<And>m x. g (x\<lparr>ce_prefix_max_end := m\<rparr>) = g x"
  shows "g ` set (dc_extents (gdox_xdvdfs_directory_cache_finalize dc)) = g ` set (dc_extents dc)"
proof -
  let ?xs = "if length (dc_extents dc) > 1 then qsort compare_cached_extents (dc_extents dc) else dc_extents dc"
  let ?ys = "index_prefix extent_end (\<lambda>m x. x\<lparr>ce_prefix_max_end := m\<rparr>) 0 ?xs"
  have "g ` set ?ys = set (map g ?ys)" by simp
  also have "\<dots> = set (map g ?xs)" using assms by (subst map_index_prefix) simp_all
  also have "\<dots> = g ` set (dc_extents dc)" by simp
  finally show ?thesis by (simp add: gdox_xdvdfs_directory_cache_finalize_def)
qed

lemma finalize_mem:
  "x \<in> set (dc_extents (gdox_xdvdfs_directory_cache_finalize dc)) \<Longrightarrow>
   \<exists>y \<in> set (dc_extents dc). ce_start_sector x = ce_start_sector y \<and> ce_blocks x = ce_blocks y
    \<and> ce_bytes x = ce_bytes y"
  using finalize_image[of "\<lambda>x. (ce_start_sector x, ce_blocks x, ce_bytes x)" dc]
  by (force simp: image_iff set_eq_iff)

lemma finalize_holds:
  "directory_cache_holds f dc \<Longrightarrow> directory_cache_holds f (gdox_xdvdfs_directory_cache_finalize dc)"
  unfolding directory_cache_holds_def using finalize_mem by metis

section \<open>Contracts\<close>

text \<open>
  The cache serves the bytes of the medium \<open>f\<close> of \<open>sectors\<close> sectors: it is indexed for the bisections
  and every extent lies inside the medium and holds its bytes.
\<close>

definition directory_cache_serves :: "(nat \<Rightarrow> byte) \<Rightarrow> u64 \<Rightarrow> directory_cache \<Rightarrow> bool" where
  "directory_cache_serves f sectors dc \<longleftrightarrow>
     indexed ce_start_sector extent_end ce_prefix_max_end (dc_extents dc)
     \<and> directory_cache_holds f dc
     \<and> (\<forall>x \<in> set (dc_extents dc). ce_start_sector x + ce_blocks x \<le> sectors)"

definition cached_valid :: "'s source_ops \<Rightarrow> ('s \<Rightarrow> bool) \<Rightarrow> ('s \<Rightarrow> nat \<Rightarrow> byte) \<Rightarrow> 's directory_cache_context \<Rightarrow> bool" where
  "cached_valid ops valid contents c \<longleftrightarrow>
     (case dx_inner c of None \<Rightarrow> False
      | Some s \<Rightarrow> valid s \<and> directory_cache_serves (contents s) (op_sector_count ops s) (dx_cache c))"

definition cached_contents :: "('s \<Rightarrow> nat \<Rightarrow> byte) \<Rightarrow> 's directory_cache_context \<Rightarrow> nat \<Rightarrow> byte" where
  "cached_contents contents c = (case dx_inner c of None \<Rightarrow> (\<lambda>_. 0) | Some s \<Rightarrow> contents s)"

definition cached_ready :: "('s \<Rightarrow> bool) \<Rightarrow> 's directory_cache_context \<Rightarrow> bool" where
  "cached_ready ready c \<longleftrightarrow>
     (case dx_inner c of None \<Rightarrow> False | Some s \<Rightarrow> ready s) \<and> \<not> request_cancelled c"

lemma cached_flag_view:
  "cached_valid ops valid contents c \<Longrightarrow>
   view_kept (cache_ops ops) (cached_valid ops valid contents) (cached_contents contents) c
     (c\<lparr>dx_aborted := a, dx_closing := b\<rparr>)"
  by (auto simp: view_kept_def cached_valid_def cached_contents_def cache_sector_count_def forward_sector_count_def
      split: option.splits)

lemma cached_put_view:
  "cached_valid ops valid contents c \<Longrightarrow> dx_inner c = Some s \<Longrightarrow> view_kept ops valid contents s s' \<Longrightarrow>
   view_kept (cache_ops ops) (cached_valid ops valid contents) (cached_contents contents) c (put_cached (Some s') c)"
  by (auto simp: view_kept_def cached_valid_def cached_contents_def cache_sector_count_def forward_sector_count_def)

text \<open>What the memory copy of a cached piece delivers.\<close>

lemma cached_piece:
  assumes "directory_cache_serves f sectors dc" and "sectors < two64"
    and i: "first_containing_extent (dc_extents dc) current < length (dc_extents dc)"
    and x: "x = dc_extents dc ! first_containing_extent (dc_extents dc) current"
    and chunk: "chunk \<le> extent_end x - current"
  shows "take (chunk * GDOX_LOGICAL_SECTOR_BYTES)
      (drop (u64_sub current (ce_start_sector x) * GDOX_LOGICAL_SECTOR_BYTES) (the (ce_bytes x))) =
    span f (current * GDOX_LOGICAL_SECTOR_BYTES) (chunk * GDOX_LOGICAL_SECTOR_BYTES)"
    and "u64_add current chunk = current + chunk"
proof -
  let ?i = "first_containing_extent (dc_extents dc) current"
  have ix: "indexed ce_start_sector extent_end ce_prefix_max_end (dc_extents dc)"
    using assms(1) by (simp add: directory_cache_serves_def)
  have xin: "x \<in> set (dc_extents dc)" using i x by simp
  have b: "ce_start_sector x + ce_blocks x \<le> sectors"
    and bytes: "ce_bytes x = Some (span f (ce_start_sector x * GDOX_LOGICAL_SECTOR_BYTES)
                             (ce_blocks x * GDOX_LOGICAL_SECTOR_BYTES))"
    using assms(1) xin by (auto simp: directory_cache_serves_def directory_cache_holds_def)
  have "containing ce_start_sector extent_end ce_prefix_max_end (dc_extents dc) current (current + 1) = Some ?i"
    using i by (simp add: first_containing_extent_eq split: option.splits)
  then have st: "ce_start_sector x \<le> current" "current < extent_end x"
    using cached_index.containing_Some[OF ix, of current "current + 1" ?i] x by simp_all
  have e: "extent_end x = ce_start_sector x + ce_blocks x"
    using b assms(2) by (simp add: extent_end_def)
  have cl: "current < two64" using st b e assms(2) by simp
  show "u64_add current chunk = current + chunk" using chunk e b st assms(2) by simp
  have cb: "current - ce_start_sector x + chunk \<le> ce_blocks x" using chunk e st by simp
  then have "chunk * GDOX_LOGICAL_SECTOR_BYTES \<le>
      ce_blocks x * GDOX_LOGICAL_SECTOR_BYTES - (current - ce_start_sector x) * GDOX_LOGICAL_SECTOR_BYTES"
    by (simp add: diff_mult_distrib[symmetric])
  moreover have "ce_start_sector x * GDOX_LOGICAL_SECTOR_BYTES
      + (current - ce_start_sector x) * GDOX_LOGICAL_SECTOR_BYTES = current * GDOX_LOGICAL_SECTOR_BYTES"
    using st by (simp add: add_mult_distrib[symmetric])
  ultimately show "take (chunk * GDOX_LOGICAL_SECTOR_BYTES)
      (drop (u64_sub current (ce_start_sector x) * GDOX_LOGICAL_SECTOR_BYTES) (the (ce_bytes x))) =
    span f (current * GDOX_LOGICAL_SECTOR_BYTES) (chunk * GDOX_LOGICAL_SECTOR_BYTES)"
    using st cl by (simp add: bytes drop_span take_span min_absorb1)
qed

lemma span_sectors_split:
  "chunk \<le> n \<Longrightarrow>
   span f (a * GDOX_LOGICAL_SECTOR_BYTES) (chunk * GDOX_LOGICAL_SECTOR_BYTES) @
   span f ((a + chunk) * GDOX_LOGICAL_SECTOR_BYTES) ((n - chunk) * GDOX_LOGICAL_SECTOR_BYTES) =
   span f (a * GDOX_LOGICAL_SECTOR_BYTES) (n * GDOX_LOGICAL_SECTOR_BYTES)"
proof -
  assume "chunk \<le> n"
  then have "n * GDOX_LOGICAL_SECTOR_BYTES =
      chunk * GDOX_LOGICAL_SECTOR_BYTES + (n - chunk) * GDOX_LOGICAL_SECTOR_BYTES" by simp
  then show ?thesis by (simp only: span_add add_mult_distrib)
qed

context sector_source
begin

lemma cache_read_loop_view:
  assumes "cached_valid ops valid contents c"
    and "current + remaining \<le> cache_sector_count ops c"
    and "cache_read_loop ops c current remaining filled = (r, c')"
  shows "view_kept (cache_ops ops) (cached_valid ops valid contents) (cached_contents contents) c c'
    \<and> (\<forall>bs. r = Inr bs \<longrightarrow>
         bs = filled @ span (cached_contents contents c) (current * GDOX_LOGICAL_SECTOR_BYTES)
                (remaining * GDOX_LOGICAL_SECTOR_BYTES))"
  using assms
proof (induction remaining arbitrary: c current filled r c' rule: less_induct)
  case (less remaining)
  let ?V = "view_kept (cache_ops ops) (cached_valid ops valid contents) (cached_contents contents)"
  let ?ext = "dc_extents (dx_cache c)"
  let ?i = "first_containing_extent ?ext current"
  obtain s where s: "dx_inner c = Some s" "valid s"
      "directory_cache_serves (contents s) (op_sector_count ops s) (dx_cache c)"
    using less.prems(1) by (auto simp: cached_valid_def split: option.splits)
  have cnt: "cache_sector_count ops c = op_sector_count ops s" "op_sector_count ops s < two64"
    using s(1) count_less[OF s(2)] by (simp_all add: cache_sector_count_def forward_sector_count_def)
  have cont: "cached_contents contents c = contents s" using s(1) by (simp add: cached_contents_def)
  note unfolded = trans[OF cache_read_loop.simps[symmetric] less.prems(3)]
  show ?case
  proof (cases "remaining = 0 \<or> request_cancelled c")
    case True
    then show ?thesis using unfolded less.prems(1) by (auto simp: Let_def view_kept_refl split: if_splits)
  next
    case False
    then have nz: "remaining \<noteq> 0" and live: "\<not> request_cancelled c" by auto
    show ?thesis
    proof (cases "?i < length ?ext")
      case True
      define chunk where "chunk = (if extent_end (?ext ! ?i) - current < remaining
          then extent_end (?ext ! ?i) - current else remaining)"
      have ch: "0 < chunk" "chunk \<le> remaining" "chunk \<le> extent_end (?ext ! ?i) - current"
        using first_containing_extent_end[OF True] nz by (auto simp: chunk_def)
      note piece = cached_piece[OF s(3) cnt(2) True refl ch(3)]
      have "cache_read_loop ops c (current + chunk) (remaining - chunk)
          (filled @ span (contents s) (current * GDOX_LOGICAL_SECTOR_BYTES) (chunk * GDOX_LOGICAL_SECTOR_BYTES)) = (r, c')"
        using unfolded nz live True piece by (simp add: Let_def chunk_def)
      from less.IH[OF _ less.prems(1) _ this] less.prems(2) ch cont
        span_sectors_split[OF ch(2), of "contents s" current]
      show ?thesis by auto
    next
      case False
      define chunk where "chunk = (if next_extent_start ?ext current \<noteq> UINT64_MAX
          \<and> next_extent_start ?ext current - current < remaining
          then next_extent_start ?ext current - current else remaining)"
      have ch: "0 < chunk" "chunk \<le> remaining"
        using next_extent_start_greater[of ?ext current] nz by (auto simp: chunk_def)
      obtain q h where rd: "gdox_source_read ops (Some s) current chunk (chunk * GDOX_LOGICAL_SECTOR_BYTES) = (q, h)"
        by fastforce
      obtain s' where h: "h = Some s'" and vk: "view_kept ops valid contents s s'"
        and q: "\<And>bs. q = Inr bs \<Longrightarrow>
          bs = span (contents s) (current * GDOX_LOGICAL_SECTOR_BYTES) (chunk * GDOX_LOGICAL_SECTOR_BYTES)"
        using source_read_view[OF s(2) rd] by blast
      have kept: "?V c (put_cached (Some s') c)" by (rule cached_put_view[OF less.prems(1) s(1) vk])
      show ?thesis
      proof (cases q)
        case (Inl e)
        then show ?thesis using unfolded nz live False rd s(1) h kept by (auto simp: Let_def chunk_def)
      next
        case (Inr bs)
        have loop: "cache_read_loop ops (put_cached (Some s') c) (current + chunk) (remaining - chunk) (filled @ bs) = (r, c')"
          using unfolded nz live False rd s(1) h Inr less.prems(2) cnt ch by (simp add: Let_def chunk_def)
        have "?V (put_cached (Some s') c) c' \<and> (\<forall>out. r = Inr out \<longrightarrow> out = (filled @ bs) @
            span (cached_contents contents (put_cached (Some s') c)) ((current + chunk) * GDOX_LOGICAL_SECTOR_BYTES)
              ((remaining - chunk) * GDOX_LOGICAL_SECTOR_BYTES))"
          using less.IH[OF _ _ _ loop] kept less.prems(2) ch nz by (auto simp: view_kept_def)
        then show ?thesis
          using kept view_kept_trans[OF kept] q[OF Inr] cont ch
            span_sectors_split[OF ch(2), of "contents s" current]
          by (auto simp: view_kept_def)
      qed
    qed
  qed
qed

lemma cache_read_view:
  assumes "cached_valid ops valid contents c"
    and "gdox_source_validate_read (cache_sector_count ops c) lba blocks n = Inr ()"
    and "cache_read ops c lba blocks n = (r, c')"
  shows "view_kept (cache_ops ops) (cached_valid ops valid contents) (cached_contents contents) c c'
    \<and> (\<forall>bs. r = Inr bs \<longrightarrow>
         bs = span (cached_contents contents c) (lba * GDOX_LOGICAL_SECTOR_BYTES)
                (blocks * GDOX_LOGICAL_SECTOR_BYTES))"
proof -
  have "cache_sector_count ops c < two64"
    using assms(1) count_less
    by (fastforce simp: cached_valid_def cache_sector_count_def forward_sector_count_def split: option.splits)
  then have "lba + blocks \<le> cache_sector_count ops c" using assms(2) validate_read_ok_iff by blast
  from cache_read_loop_view[OF assms(1) this, of "[]"] assms(1,3) show ?thesis
    by (auto simp: cache_read_def view_kept_refl split: if_splits)
qed

lemma cached_sector_source:
  "sector_source (cache_ops ops) (cached_valid ops valid contents) (cached_contents contents)"
proof (rule adapter_sector_source[where get = dx_inner and put = put_cached])
  let ?V = "view_kept (cache_ops ops) (cached_valid ops valid contents) (cached_contents contents)"
  fix c g assume g: "op_abort (cache_ops ops) = Some g" and v: "cached_valid ops valid contents c"
  obtain s where s: "dx_inner c = Some s" "valid s" using v by (auto simp: cached_valid_def split: option.splits)
  obtain s' where a: "gdox_source_abort ops (Some s) = Some s'" "view_kept ops valid contents s s'"
    using source_abort_view[OF s(2)] by blast
  have f: "?V c (c\<lparr>dx_aborted := True\<rparr>)"
    using cached_flag_view[OF v, where a = True and b = "dx_closing c"] by simp
  then have "?V (c\<lparr>dx_aborted := True\<rparr>) (put_cached (Some s') (c\<lparr>dx_aborted := True\<rparr>))"
    using s a by (intro cached_put_view) (auto simp: view_kept_def)
  then have "?V c (put_cached (Some s') (c\<lparr>dx_aborted := True\<rparr>))" by (rule view_kept_trans[OF f])
  then show "?V c (g c)" using g s a by (auto simp: cache_abort_def)
next
  let ?V = "view_kept (cache_ops ops) (cached_valid ops valid contents) (cached_contents contents)"
  fix c h q c' assume h: "op_prepare_close (cache_ops ops) = Some h" and v: "cached_valid ops valid contents c" and r: "h c = (q, c')"
  obtain s where s: "dx_inner c = Some s" "valid s" using v by (auto simp: cached_valid_def split: option.splits)
  obtain q' s' where p: "gdox_source_prepare_close ops (Some s) = (q', Some s')" "view_kept ops valid contents s s'"
    using source_prepare_view[OF s(2)] by (metis surj_pair)
  have k: "?V c (put_cached (Some s') c)" by (rule cached_put_view[OF v s(1) p(2)])
  then have "?V (put_cached (Some s') c) ((put_cached (Some s') c)\<lparr>dx_closing := True\<rparr>)"
    using cached_flag_view[of ops valid contents "put_cached (Some s') c", where a = "dx_aborted c" and b = True]
    by (simp add: view_kept_def)
  then show "?V c c'"
    using k view_kept_trans[OF k] h r s p by (auto simp: cache_prepare_close_def split: sum.splits)
next
  fix c assume "cached_valid ops valid contents c"
  then show "op_sector_count (cache_ops ops) c < two64"
    using count_less
    by (fastforce simp: cached_valid_def cache_sector_count_def forward_sector_count_def split: option.splits)
next
  fix c assume "cached_valid ops valid contents c"
  then show "\<exists>s. dx_inner c = Some s \<and> valid s"
    by (auto simp: cached_valid_def split: option.splits)
next
  fix c lba blocks n r c'
  assume "cached_valid ops valid contents c"
    and "gdox_source_validate_read (op_sector_count (cache_ops ops) c) lba blocks n = Inr ()"
    and "op_read (cache_ops ops) c lba blocks n = (r, c')"
  then show "view_kept (cache_ops ops) (cached_valid ops valid contents) (cached_contents contents) c c'
    \<and> (\<forall>bs. r = Inr bs \<longrightarrow>
         bs = span (cached_contents contents c) (lba * GDOX_LOGICAL_SECTOR_BYTES)
                (blocks * GDOX_LOGICAL_SECTOR_BYTES))"
    using cache_read_view by simp
qed (simp_all add: cache_media_present_def cache_observe_media_def cached_put_view)

lemma make_directory_cache_valid:
  assumes "gdox_source_make_xdvdfs_directory_cache mem ops (Some s) (Some dc) output = (Inr (), inner', cache', output')"
    and "valid s" and "indexed ce_start_sector extent_end ce_prefix_max_end (dc_extents dc)"
    and "directory_cache_holds (contents s) dc"
  shows "inner' = None \<and> cache' = None \<and> (\<exists>c. output' = Some c \<and> cached_valid ops valid contents c
    \<and> cached_contents contents c = contents s \<and> cache_sector_count ops c = op_sector_count ops s
    \<and> dx_inner c = Some s \<and> \<not> request_cancelled c)"
proof -
  have "list_all (cached_extent_fits (op_sector_count ops s)) (dc_extents dc)"
    using assms(1) by (auto simp: gdox_source_make_xdvdfs_directory_cache_def split: if_splits)
  then have "\<forall>x \<in> set (dc_extents dc). ce_start_sector x + ce_blocks x \<le> op_sector_count ops s"
    using count_less[OF assms(2)] by (fastforce simp: list_all_iff cached_extent_fits_def)
  then have "directory_cache_serves (contents s) (op_sector_count ops s) dc"
    using assms(3,4) by (simp add: directory_cache_serves_def)
  then show ?thesis
    using assms(1,2)
    by (auto simp: gdox_source_make_xdvdfs_directory_cache_def cached_valid_def cached_contents_def
        cache_sector_count_def forward_sector_count_def request_cancelled_def split: if_splits)
qed

end

context reliable_source
begin

lemma cache_read_loop_ready:
  assumes "cached_valid ops valid contents c" and "cached_ready ready c"
    and "current + remaining \<le> cache_sector_count ops c" and "remaining * GDOX_LOGICAL_SECTOR_BYTES \<le> SIZE_MAX"
  shows "\<exists>bs c'. cache_read_loop ops c current remaining filled = (Inr bs, c') \<and> cached_ready ready c'"
  using assms
proof (induction remaining arbitrary: c current filled rule: less_induct)
  case (less remaining)
  let ?ext = "dc_extents (dx_cache c)"
  let ?i = "first_containing_extent ?ext current"
  obtain s where s: "dx_inner c = Some s" "valid s"
      "directory_cache_serves (contents s) (op_sector_count ops s) (dx_cache c)"
    using less.prems(1) by (auto simp: cached_valid_def split: option.splits)
  have rdy: "ready s" "\<not> request_cancelled c" using less.prems(2) s(1) by (simp_all add: cached_ready_def)
  have cnt: "cache_sector_count ops c = op_sector_count ops s" "op_sector_count ops s < two64"
    using s(1) count_less[OF s(2)] by (simp_all add: cache_sector_count_def forward_sector_count_def)
  show ?case
  proof (cases "remaining = 0")
    case True
    then show ?thesis using less.prems(2) rdy by (subst cache_read_loop.simps) simp
  next
    case nz: False
    show ?thesis
    proof (cases "?i < length ?ext")
      case True
      define chunk where "chunk = (if extent_end (?ext ! ?i) - current < remaining
          then extent_end (?ext ! ?i) - current else remaining)"
      have ch: "0 < chunk" "chunk \<le> remaining" "chunk \<le> extent_end (?ext ! ?i) - current"
        using first_containing_extent_end[OF True] nz by (auto simp: chunk_def)
      note piece = cached_piece[OF s(3) cnt(2) True refl ch(3)]
      show ?thesis
        using less.IH[OF _ less.prems(1,2), of "remaining - chunk" "current + chunk"] less.prems(3,4) ch nz rdy True piece
        by (subst cache_read_loop.simps) (simp add: Let_def chunk_def[symmetric])
    next
      case False
      define chunk where "chunk = (if next_extent_start ?ext current \<noteq> UINT64_MAX
          \<and> next_extent_start ?ext current - current < remaining
          then next_extent_start ?ext current - current else remaining)"
      have ch: "0 < chunk" "chunk \<le> remaining"
        using next_extent_start_greater[of ?ext current] nz by (auto simp: chunk_def)
      obtain bs s' where rd: "gdox_source_read ops (Some s) current chunk (chunk * GDOX_LOGICAL_SECTOR_BYTES) = (Inr bs, Some s')"
        and vk: "view_kept ops valid contents s s'" and "ready s'"
        using source_read_ready_max[OF s(2) rdy(1) ch(1), of current] less.prems(3,4) ch cnt by auto
      have kept: "view_kept (cache_ops ops) (cached_valid ops valid contents) (cached_contents contents) c (put_cached (Some s') c)"
        by (rule cached_put_view[OF less.prems(1) s(1) vk])
      moreover have "cached_ready ready (put_cached (Some s') c)"
        using \<open>ready s'\<close> rdy by (simp add: cached_ready_def request_cancelled_def)
      ultimately show ?thesis
        using less.IH[of "remaining - chunk" "put_cached (Some s') c" "current + chunk"] less.prems(3,4) ch nz rdy False rd s(1) cnt
        by (subst cache_read_loop.simps) (simp add: Let_def chunk_def[symmetric] view_kept_def)
    qed
  qed
qed

lemma cached_reliable_source:
  "reliable_source (cache_ops ops) (cached_valid ops valid contents) (cached_contents contents) (cached_ready ready)"
proof (rule reliable_source.intro[OF cached_sector_source], standard)
  fix c lba blocks n
  assume v: "cached_valid ops valid contents c" and rdy: "cached_ready ready c"
    and rq: "gdox_source_validate_read (op_sector_count (cache_ops ops) c) lba blocks n = Inr ()"
  have "cache_sector_count ops c < two64"
    using v count_less
    by (fastforce simp: cached_valid_def cache_sector_count_def forward_sector_count_def split: option.splits)
  then have b: "lba + blocks \<le> cache_sector_count ops c" "blocks * GDOX_LOGICAL_SECTOR_BYTES \<le> SIZE_MAX"
    using rq validate_read_ok_iff by auto
  then show "\<exists>bs c'. op_read (cache_ops ops) c lba blocks n = (Inr bs, c') \<and> cached_ready ready c'"
    using cache_read_loop_ready[OF v rdy] rdy by (simp add: cache_read_def cached_ready_def)
qed

end

context closable_source
begin

lemma cached_closable_source:
  "closable_source (cache_ops ops) (\<lambda>c. \<exists>s. dx_inner c = Some s \<and> prepared s)"
proof (rule adapter_closable[where put = "\<lambda>r h c. if r = Inr () then c\<lparr>dx_inner := h, dx_closing := True\<rparr> else put_cached h c"])
  show "prepare_step (cache_ops ops) c = (case prepare_step ops s of (r, s') \<Rightarrow>
      (r, if r = Inr () then c\<lparr>dx_inner := Some s', dx_closing := True\<rparr> else put_cached (Some s') c))"
    if "dx_inner c = Some s" for c s
    using that by (auto simp: prepare_step_def cache_prepare_close_def gdox_source_prepare_close_def
        split: option.splits prod.splits sum.splits)
  show "r \<noteq> Inr ()" if "dx_inner c = None" "prepare_step (cache_ops ops) c = (r, c')" for c r c'
    using that by (auto simp: prepare_step_def cache_prepare_close_def gdox_source_prepare_close_def)
qed (simp_all add: cache_close_def)

end

interpretation file_cached: reliable_source "cache_ops file_ops" "cached_valid file_ops file_valid file_contents"
  "cached_contents file_contents" "cached_ready file_ready"
  by (rule file_source.cached_reliable_source)

interpretation file_cached_closable: closable_source "cache_ops file_ops" "\<lambda>c. \<exists>s. dx_inner c = Some s \<and> True"
  by (rule file_closable.cached_closable_source)

section \<open>Properties\<close>

text \<open>
  The bisection over the finalized extents is exact: it finds an extent that covers the sector
  whenever one of the collected extents does, overlapping extents included, and reports none
  otherwise.
\<close>
theorem first_containing_extent_exact:
  assumes "\<not> dc_finalized dc"
    and "\<forall>x \<in> set (dc_extents dc). ce_start_sector x + ce_blocks x < two64"
  shows "let xs = dc_extents (gdox_xdvdfs_directory_cache_finalize dc);
             i = first_containing_extent xs lba
         in (if \<exists>x \<in> set (dc_extents dc). ce_start_sector x \<le> lba \<and> lba < ce_start_sector x + ce_blocks x
             then i < length xs \<and> ce_start_sector (xs ! i) \<le> lba
                \<and> lba < ce_start_sector (xs ! i) + ce_blocks (xs ! i)
             else i = length xs)"
proof -
  define xs where "xs = dc_extents (gdox_xdvdfs_directory_cache_finalize dc)"
  have ix: "indexed ce_start_sector extent_end ce_prefix_max_end xs"
    using finalize_indexed[OF assms(1)] by (simp add: xs_def)
  have ends: "extent_end x = ce_start_sector x + ce_blocks x" if "x \<in> set xs" for x
    using finalize_mem[of x dc] that assms(2) unfolding xs_def by (fastforce simp: extent_end_def)
  have same: "(\<exists>x \<in> set (dc_extents dc). ce_start_sector x \<le> lba \<and> lba < ce_start_sector x + ce_blocks x)
      \<longleftrightarrow> (\<exists>x \<in> set xs. ce_start_sector x \<le> lba \<and> lba < ce_start_sector x + ce_blocks x)"
    using finalize_image[of "\<lambda>x. ce_start_sector x \<le> lba \<and> lba < ce_start_sector x + ce_blocks x" dc]
    unfolding xs_def by (simp add: image_iff set_eq_iff) blast
  show ?thesis
  proof (cases "containing ce_start_sector extent_end ce_prefix_max_end xs lba (lba + 1)")
    case None
    then have "\<not> (ce_start_sector x \<le> lba \<and> lba < ce_start_sector x + ce_blocks x)" if "x \<in> set xs" for x
      using cached_index.containing_None[OF ix None] that ends[OF that] by (fastforce simp: in_set_conv_nth)
    then show ?thesis using None same by (auto simp: first_containing_extent_eq xs_def[symmetric] Let_def)
  next
    case (Some i)
    note f = cached_index.containing_Some[OF ix Some]
    then have "i < length xs" "ce_start_sector (xs ! i) \<le> lba" "lba < ce_start_sector (xs ! i) + ce_blocks (xs ! i)"
      using ends[of "xs ! i"] by auto
    then show ?thesis using Some same by (auto simp: first_containing_extent_eq xs_def[symmetric] Let_def)
  qed
qed

definition sample_cache :: directory_cache where
  "sample_cache =
     \<lparr>dc_extents = [\<lparr>ce_start_sector = 2, ce_prefix_max_end = 0, ce_blocks = 1, ce_bytes = Some (replicate 2048 7)\<rparr>,
                    \<lparr>ce_start_sector = 0, ce_prefix_max_end = 0, ce_blocks = 1, ce_bytes = Some (replicate 2048 7)\<rparr>],
      dc_capacity = 8, dc_retained_bytes = 4096, dc_finalized = False\<rparr>"

lemma replicate_span: "a + n \<le> k \<Longrightarrow> replicate n v = span (bytes_at (replicate k v)) a n"
  by (rule span_eqI) (simp_all add: bytes_at_def)

lemma sample_cache_holds: "directory_cache_holds (file_contents sample_file) sample_cache"
  using replicate_span[of 4096 2048 8192 "7 :: byte"] replicate_span[of 0 2048 8192 "7 :: byte"]
  by (simp add: directory_cache_holds_def sample_cache_def file_contents_def sample_file_def)

theorem first_containing_extent_exact_witness:
  "let xs = dc_extents (gdox_xdvdfs_directory_cache_finalize sample_cache); i = first_containing_extent xs 2
   in i < length xs \<and> ce_start_sector (xs ! i) \<le> 2 \<and> 2 < ce_start_sector (xs ! i) + ce_blocks (xs ! i)"
proof -
  have "\<exists>x \<in> set (dc_extents sample_cache). ce_start_sector x \<le> 2 \<and> 2 < ce_start_sector x + ce_blocks x"
    by (simp add: sample_cache_def)
  moreover have "\<not> dc_finalized sample_cache"
    "\<forall>x \<in> set (dc_extents sample_cache). ce_start_sector x + ce_blocks x < two64"
    by (simp_all add: sample_cache_def)
  ultimately show ?thesis
    using first_containing_extent_exact[of sample_cache 2] by (auto simp: Let_def)
qed

text \<open>
  C18: A source that was given a cache collected from its own bytes is indistinguishable from the
  partition it wraps: it has the same size, and every read of any sequence inside it, whichever pieces come from
  the cache and whichever from below, returns exactly the partition's bytes.
\<close>
theorem cached_source_transparent:
  assumes "reliable_source ops valid contents ready" and "valid s" and "ready s"
    and "\<not> dc_finalized dc" and "directory_cache_holds (contents s) dc"
    and "gdox_source_make_xdvdfs_directory_cache mem ops (Some s)
           (Some (gdox_xdvdfs_directory_cache_finalize dc)) None = (Inr (), inner', cache', out)"
    and "requests_inside (op_sector_count ops s) requests"
  shows "inner' = None \<and> cache' = None
    \<and> gdox_source_sector_count (cache_ops ops) out = op_sector_count ops s
    \<and> fst (source_reads (cache_ops ops) requests out) = span_answers (contents s) requests"
proof -
  note src = reliable_source.axioms(1)[OF assms(1)]
  obtain c where c: "inner' = None" "cache' = None" "out = Some c" "cached_valid ops valid contents c"
      "cached_contents contents c = contents s" "cache_sector_count ops c = op_sector_count ops s"
      "dx_inner c = Some s" "\<not> request_cancelled c"
    using sector_source.make_directory_cache_valid[OF src assms(6,2) _ finalize_holds[OF assms(5)]]
      finalize_indexed[OF assms(4)] by blast
  have "cached_ready ready c" using c(7,8) assms(3) by (simp add: cached_ready_def)
  then show ?thesis
    using reliable_source.source_reads_ready[where requests = requests,
        OF reliable_source.cached_reliable_source[OF assms(1)] c(4)] assms(7) c(1,2,3,5,6)
    by auto
qed

theorem cached_source_transparent_witness:
  "\<exists>out. gdox_source_make_xdvdfs_directory_cache True file_ops (Some sample_file)
       (Some (gdox_xdvdfs_directory_cache_finalize sample_cache)) None = (Inr (), None, None, out)
     \<and> fst (source_reads (cache_ops file_ops) [(1, 2), (0, 3)] out) = span_answers (file_contents sample_file) [(1, 2), (0, 3)]"
proof -
  have "\<exists>out. gdox_source_make_xdvdfs_directory_cache True file_ops (Some sample_file)
       (Some (gdox_xdvdfs_directory_cache_finalize sample_cache)) None = (Inr (), None, None, out)"
    by (simp add: gdox_source_make_xdvdfs_directory_cache_def gdox_xdvdfs_directory_cache_finalize_def
        sample_cache_def compare_cached_extents_def extent_end_def cached_extent_fits_def Let_def)
  then obtain out where m: "gdox_source_make_xdvdfs_directory_cache True file_ops (Some sample_file)
       (Some (gdox_xdvdfs_directory_cache_finalize sample_cache)) None = (Inr (), None, None, out)" by blast
  have "\<not> dc_finalized sample_cache" by (simp add: sample_cache_def)
  from cached_source_transparent[OF file_source.reliable_source_axioms _ _ this sample_cache_holds m, of "[(1, 2), (0, 3)]"] m
  show ?thesis by (simp add: requests_inside_def)
qed

end
