(* ===== verification/Bytes.thy ===== *)
theory Bytes
  imports Prelude
begin

text \<open>
  Byte-order helpers of the media code: the checked little-endian readers of
  src/src/core/xdvdfs.c, the unchecked ones and the writers of src/src/core/compact.c, and the
  big-endian ones of src/src/platform/nbd_wire.c. They are written with shifts and bitwise or on
  words, as the code has them; the lemmas give their values as numbers and the round trips.
\<close>

unbundle bit_operations_syntax

section \<open>Joining and splitting words\<close>

definition join16 :: "byte \<Rightarrow> byte \<Rightarrow> 16 word" where
  "join16 low high = ucast low OR push_bit 8 (ucast high)"

definition join32 :: "byte \<Rightarrow> byte \<Rightarrow> byte \<Rightarrow> byte \<Rightarrow> 32 word" where
  "join32 b0 b1 b2 b3 =
     ucast b0 OR push_bit 8 (ucast b1) OR push_bit 16 (ucast b2) OR push_bit 24 (ucast b3)"

definition join64 :: "32 word \<Rightarrow> 32 word \<Rightarrow> 64 word" where
  "join64 low high = ucast low OR push_bit 32 (ucast high)"

definition byte_of16 :: "nat \<Rightarrow> 16 word \<Rightarrow> byte" where
  "byte_of16 shift v = ucast (drop_bit shift v AND 255)"

definition byte_of32 :: "nat \<Rightarrow> 32 word \<Rightarrow> byte" where
  "byte_of32 shift v = ucast (drop_bit shift v AND 255)"

lemma bit_255: "bit (255 :: int) n \<longleftrightarrow> n < 8"
proof -
  have "mask 8 = (255 :: int)" by (simp add: mask_eq_exp_minus_1)
  then show ?thesis using bit_mask_iff[of 8 n, where 'a = int] by auto
qed

lemma bit_mask32: "bit (4294967295 :: int) n \<longleftrightarrow> n < 32"
proof -
  have "mask 32 = (4294967295 :: int)" by (simp add: mask_eq_exp_minus_1)
  then show ?thesis using bit_mask_iff[of 32 n, where 'a = int] by auto
qed

lemmas join_defs = join16_def join32_def join64_def byte_of16_def byte_of32_def
lemmas join_bits = bit_simps bit_255 bit_mask32

lemma join16_split: "join16 (byte_of16 0 v) (byte_of16 8 v) = v"
  by (rule bit_word_eqI) (auto simp: join_defs join_bits not_less)

lemma byte_of16_join:
  "byte_of16 0 (join16 b0 b1) = b0" "byte_of16 8 (join16 b0 b1) = b1"
  subgoal by (rule bit_word_eqI) (auto simp: join_defs join_bits)
  subgoal by (rule bit_word_eqI) (auto simp: join_defs join_bits dest: bit_imp_le_length)
  done

lemma join32_split: "join32 (byte_of32 0 v) (byte_of32 8 v) (byte_of32 16 v) (byte_of32 24 v) = v"
proof (rule bit_word_eqI)
  fix n assume "n < LENGTH(32)"
  then have "n < 32" by simp
  then consider "n < 8" | "8 \<le> n" "n < 16" | "16 \<le> n" "n < 24" | "24 \<le> n" "n < 32"
    by (meson not_less)
  then show "bit (join32 (byte_of32 0 v) (byte_of32 8 v) (byte_of32 16 v) (byte_of32 24 v)) n = bit v n"
    by cases (auto simp: join_defs join_bits)
qed

lemma byte_of32_join:
  "byte_of32 0 (join32 b0 b1 b2 b3) = b0" "byte_of32 8 (join32 b0 b1 b2 b3) = b1"
  "byte_of32 16 (join32 b0 b1 b2 b3) = b2" "byte_of32 24 (join32 b0 b1 b2 b3) = b3"
  subgoal by (rule bit_word_eqI) (auto simp: join_defs join_bits)
  subgoal by (rule bit_word_eqI) (auto simp: join_defs join_bits dest: bit_imp_le_length)
  subgoal by (rule bit_word_eqI) (auto simp: join_defs join_bits dest: bit_imp_le_length)
  subgoal by (rule bit_word_eqI) (auto simp: join_defs join_bits dest: bit_imp_le_length)
  done

lemma join64_split: "join64 (ucast (v AND 4294967295)) (ucast (drop_bit 32 v)) = v"
  by (rule bit_word_eqI) (auto simp: join_defs join_bits not_less)

lemma split_join64:
  "ucast (join64 low high AND 4294967295) = low" "ucast (drop_bit 32 (join64 low high)) = high"
  subgoal by (rule bit_word_eqI) (auto simp: join_defs join_bits)
  subgoal by (rule bit_word_eqI) (auto simp: join_defs join_bits dest: bit_imp_le_length)
  done

lemma nat_or_disjoint:
  fixes a b :: nat
  assumes "a < 2 ^ k" and "2 ^ k dvd b"
  shows "b OR a = b + a"
proof (rule disjunctive_add[symmetric])
  fix n
  obtain c where c: "b = 2 ^ k * c" using assms(2) by (elim dvdE)
  show "\<not> bit b n \<or> \<not> bit a n"
  proof (cases "n < k")
    case True
    have "b = push_bit k c" using c by (simp add: push_bit_eq_mult)
    with True show ?thesis by (simp add: bit_simps)
  next
    case False
    have "a = take_bit k a" using assms(1) by (simp add: take_bit_nat_eq_self)
    then show ?thesis using False by (metis bit_take_bit_iff)
  qed
qed

lemma nat_and_mask:
  fixes a :: nat
  shows "a AND 63 = a mod 64"
proof -
  have "a AND mask 6 = a mod 2 ^ 6" by (simp only: take_bit_eq_mask[symmetric] take_bit_eq_mod)
  then show ?thesis by (simp add: mask_eq_exp_minus_1)
qed

section \<open>Readers and writers on byte lists\<close>

text \<open>
  \<open>input!o\<close> is \<open>input[o]\<close>; the callers are shown to stay inside the buffer. A value handed to a
  writer is converted to the width of the parameter.
\<close>

definition le_u16 :: "byte list \<Rightarrow> nat \<Rightarrow> nat" where
  "le_u16 data p = unat (join16 (data ! p) (data ! (p + 1)))"

definition le_u32 :: "byte list \<Rightarrow> nat \<Rightarrow> nat" where
  "le_u32 data p = unat (join32 (data ! p) (data ! (p + 1)) (data ! (p + 2)) (data ! (p + 3)))"

definition put_le_u32 :: "byte list \<Rightarrow> nat \<Rightarrow> nat \<Rightarrow> byte list" where
  "put_le_u32 data p value =
     (let v = word_of_nat value :: 32 word
      in data[p := byte_of32 0 v, p + 1 := byte_of32 8 v,
              p + 2 := byte_of32 16 v, p + 3 := byte_of32 24 v])"

definition put_le_u64 :: "byte list \<Rightarrow> nat \<Rightarrow> nat \<Rightarrow> byte list" where
  "put_le_u64 data p value =
     (let v = word_of_nat value :: 64 word
      in put_le_u32 (put_le_u32 data p (unat (v AND 4294967295))) (p + 4) (unat (drop_bit 32 v)))"

definition read_be_u16 :: "byte list \<Rightarrow> nat \<Rightarrow> nat" where
  "read_be_u16 input p = unat (join16 (input ! (p + 1)) (input ! p))"

definition read_be_u32 :: "byte list \<Rightarrow> nat \<Rightarrow> nat" where
  "read_be_u32 input p =
     unat (join32 (input ! (p + 3)) (input ! (p + 2)) (input ! (p + 1)) (input ! p))"

definition read_be_u64 :: "byte list \<Rightarrow> nat \<Rightarrow> nat" where
  "read_be_u64 input p =
     unat (join64 (word_of_nat (read_be_u32 input (p + 4))) (word_of_nat (read_be_u32 input p)))"

definition put_be_u16 :: "byte list \<Rightarrow> nat \<Rightarrow> nat \<Rightarrow> byte list" where
  "put_be_u16 output p value =
     (let v = word_of_nat value :: 16 word
      in output[p := byte_of16 8 v, p + 1 := byte_of16 0 v])"

definition put_be_u32 :: "byte list \<Rightarrow> nat \<Rightarrow> nat \<Rightarrow> byte list" where
  "put_be_u32 output p value =
     (let v = word_of_nat value :: 32 word
      in output[p := byte_of32 24 v, p + 1 := byte_of32 16 v,
                p + 2 := byte_of32 8 v, p + 3 := byte_of32 0 v])"

definition put_be_u64 :: "byte list \<Rightarrow> nat \<Rightarrow> nat \<Rightarrow> byte list" where
  "put_be_u64 output p value =
     (let v = word_of_nat value :: 64 word
      in put_be_u32 (put_be_u32 output p (unat (drop_bit 32 v))) (p + 4) (unat (v AND 4294967295)))"

lemma length_puts [simp]:
  "length (put_le_u32 data p v) = length data" "length (put_le_u64 data p v) = length data"
  "length (put_be_u16 data p v) = length data" "length (put_be_u32 data p v) = length data"
  "length (put_be_u64 data p v) = length data"
  by (simp_all add: put_le_u32_def put_le_u64_def put_be_u16_def put_be_u32_def put_be_u64_def Let_def)

lemma unat_lt2p: "unat (w :: 'a::len word) < 2 ^ LENGTH('a)"
  by (rule unsigned_less)

lemma reads_less:
  "le_u16 data p < 65536" "le_u32 data p < two32" "read_be_u16 data p < 65536"
  "read_be_u32 data p < two32" "read_be_u64 data p < two64"
  using unat_lt2p[of "join16 (data ! p) (data ! (p + 1))"]
    unat_lt2p[of "join32 (data ! p) (data ! (p + 1)) (data ! (p + 2)) (data ! (p + 3))"]
    unat_lt2p[of "join16 (data ! (p + 1)) (data ! p)"]
    unat_lt2p[of "join32 (data ! (p + 3)) (data ! (p + 2)) (data ! (p + 1)) (data ! p)"]
    unat_lt2p[of "join64 (word_of_nat (read_be_u32 data (p + 4))) (word_of_nat (read_be_u32 data p))"]
  by (simp_all add: le_u16_def le_u32_def read_be_u16_def read_be_u32_def read_be_u64_def)

lemma unat_word_of_nat_id:
  "v < 2 ^ LENGTH('a) \<Longrightarrow> unat (word_of_nat v :: 'a::len word) = v"
  by (simp add: unsigned_of_nat take_bit_nat_eq_self)

lemma le_u32_put_le_u32:
  "p + 4 \<le> length data \<Longrightarrow> v < two32 \<Longrightarrow> le_u32 (put_le_u32 data p v) p = v"
  by (simp add: le_u32_def put_le_u32_def Let_def nth_list_update join32_split unat_word_of_nat_id)

lemma nth_put_le_u32:
  "i < p \<or> p + 4 \<le> i \<Longrightarrow> put_le_u32 data p v ! i = data ! i"
  by (auto simp: put_le_u32_def Let_def nth_list_update)

lemma nth_put_be:
  "i < p \<or> p + 2 \<le> i \<Longrightarrow> put_be_u16 data p v ! i = data ! i"
  "i < p \<or> p + 4 \<le> i \<Longrightarrow> put_be_u32 data p v ! i = data ! i"
  "i < p \<or> p + 8 \<le> i \<Longrightarrow> put_be_u64 data p v ! i = data ! i"
  by (auto simp: put_be_u16_def put_be_u32_def put_be_u64_def Let_def nth_list_update)

lemma read_be_u16_put:
  "p + 2 \<le> length data \<Longrightarrow> v < 65536 \<Longrightarrow> read_be_u16 (put_be_u16 data p v) p = v"
  by (simp add: read_be_u16_def put_be_u16_def Let_def nth_list_update join16_split unat_word_of_nat_id)

lemma read_be_u32_put:
  "p + 4 \<le> length data \<Longrightarrow> v < two32 \<Longrightarrow> read_be_u32 (put_be_u32 data p v) p = v"
  by (simp add: read_be_u32_def put_be_u32_def Let_def nth_list_update join32_split unat_word_of_nat_id)

lemma read_be_frame:
  "(\<And>i. q \<le> i \<Longrightarrow> i < q + 2 \<Longrightarrow> data' ! i = data ! i) \<Longrightarrow> read_be_u16 data' q = read_be_u16 data q"
  "(\<And>i. q \<le> i \<Longrightarrow> i < q + 4 \<Longrightarrow> data' ! i = data ! i) \<Longrightarrow> read_be_u32 data' q = read_be_u32 data q"
  "(\<And>i. q \<le> i \<Longrightarrow> i < q + 8 \<Longrightarrow> data' ! i = data ! i) \<Longrightarrow> read_be_u64 data' q = read_be_u64 data q"
  by (simp_all add: read_be_u16_def read_be_u32_def read_be_u64_def)

lemma read_be_u64_put:
  assumes "p + 8 \<le> length data" and "v < two64"
  shows "read_be_u64 (put_be_u64 data p v) p = v"
proof -
  let ?w = "word_of_nat v :: 64 word"
  let ?hi = "unat (drop_bit 32 ?w)" and ?lo = "unat (?w AND 4294967295)"
  have "?hi = unat ?w div 2 ^ 32" unfolding unat_drop_bit_eq by (rule drop_bit_eq_div)
  then have hi: "?hi < two32" using unat_lt2p[of ?w] by simp
  have lo: "?lo < two32"
  proof -
    have "?lo = unat ?w AND unat (4294967295 :: 64 word)" by (simp only: unsigned_and_eq)
    also have "\<dots> = unat ?w AND 4294967295" by simp
    also have "\<dots> = unat ?w AND mask 32" by (simp add: mask_eq_exp_minus_1)
    also have "\<dots> = unat ?w mod 2 ^ 32" by (simp only: take_bit_eq_mask[symmetric] take_bit_eq_mod)
    finally show ?thesis by simp
  qed
  have "read_be_u32 (put_be_u64 data p v) p = ?hi"
    unfolding put_be_u64_def Let_def
    by (subst read_be_frame(2)[where data = "put_be_u32 data p ?hi"]) (use assms hi in \<open>auto simp: nth_put_be read_be_u32_put\<close>)
  moreover have "read_be_u32 (put_be_u64 data p v) (p + 4) = ?lo"
    unfolding put_be_u64_def Let_def using assms lo by (simp add: read_be_u32_put)
  ultimately have "read_be_u64 (put_be_u64 data p v) p =
      unat (join64 (word_of_nat ?lo) (word_of_nat ?hi))"
    by (simp add: read_be_u64_def)
  also have "\<dots> = unat ?w" by (simp add: join64_split)
  finally show ?thesis using assms(2) by (simp add: unat_word_of_nat_id)
qed

end
