(* ===== verification/Xdvdfs.thy ===== *)
theory Xdvdfs
  imports Bytes FileSource
begin

text \<open>
  Locating the game volume, src/src/core/xdvdfs.c: the volume descriptor, the probes of the two usual
  places and the batched scan of the rest of the medium. The specification is \<open>descriptor_order\<close>: on
  a reliable source the search is the first descriptor in that order of sectors.

  C strings of the volume are byte lists without the terminating NUL.
\<close>

type_synonym cstring = "byte list"

definition ascii :: "string \<Rightarrow> cstring" where
  "ascii s = map of_char s"

definition GDOX_XDVDFS_VOLUME_DESCRIPTOR_SECTOR :: u64 where "GDOX_XDVDFS_VOLUME_DESCRIPTOR_SECTOR = 32"
definition GDOX_XDVDFS_COMMON_GAME_BASE_LBA :: u64 where "GDOX_XDVDFS_COMMON_GAME_BASE_LBA = 198144"
definition GDOX_XDVDFS_MAX_DIRECTORY_BYTES :: u32 where "GDOX_XDVDFS_MAX_DIRECTORY_BYTES = 67108864"
definition GDOX_XDVDFS_SCAN_BATCH :: nat where "GDOX_XDVDFS_SCAN_BATCH = 256"

record xdvdfs_volume =
  base_lba :: u64
  root_directory_sector :: u32
  root_directory_size :: u32
  image_timestamp :: u64

section \<open>Checked little-endian readers\<close>

definition read_le_u32 :: "byte list \<Rightarrow> nat \<Rightarrow> nat \<Rightarrow> u32 option" where
  "read_le_u32 data bytes offset =
     (if offset > bytes \<or> bytes - offset < 4 then None else Some (le_u32 data offset))"

definition read_le_u64 :: "byte list \<Rightarrow> nat \<Rightarrow> nat \<Rightarrow> u64 option" where
  "read_le_u64 data bytes offset =
     (case read_le_u32 data bytes offset of
        None \<Rightarrow> None
      | Some low \<Rightarrow>
          (case read_le_u32 data bytes (u64_add offset 4) of
             None \<Rightarrow> None
           | Some high \<Rightarrow> Some (unat (join64 (word_of_nat low) (word_of_nat high)))))"

section \<open>The volume descriptor\<close>

definition xdvdfs_magic :: "byte list" where
  "xdvdfs_magic = ascii ''MICROSOFT*XBOX*MEDIA''"

lemma length_xdvdfs_magic [simp]: "length xdvdfs_magic = 20"
  by (simp add: xdvdfs_magic_def ascii_def)

definition descriptor_magic_valid :: "byte list \<Rightarrow> bool" where
  "descriptor_magic_valid sector \<longleftrightarrow>
     window_eq sector 0 xdvdfs_magic
     \<and> window_eq sector (GDOX_LOGICAL_SECTOR_BYTES - length xdvdfs_magic) xdvdfs_magic"

definition parse_descriptor :: "byte list \<Rightarrow> u64 \<Rightarrow> xdvdfs_volume res" where
  "parse_descriptor sector descriptor_lba =
     (if descriptor_lba < GDOX_XDVDFS_VOLUME_DESCRIPTOR_SECTOR
      then fail ERROR_INVALID_VOLUME ''XDVDFS descriptor appears before virtual sector 32''
      else (case (read_le_u32 sector GDOX_LOGICAL_SECTOR_BYTES 20,
                  read_le_u32 sector GDOX_LOGICAL_SECTOR_BYTES 24,
                  read_le_u64 sector GDOX_LOGICAL_SECTOR_BYTES 28) of
              (Some root_sector, Some root_size, Some timestamp) \<Rightarrow>
                if root_size = 0 \<or> root_size > GDOX_XDVDFS_MAX_DIRECTORY_BYTES
                then fail ERROR_INVALID_VOLUME ''XDVDFS root directory has an implausible size''
                else Inr \<lparr>base_lba = u64_sub descriptor_lba GDOX_XDVDFS_VOLUME_DESCRIPTOR_SECTOR,
                          root_directory_sector = root_sector, root_directory_size = root_size,
                          image_timestamp = timestamp\<rparr>
            | _ \<Rightarrow> fail ERROR_INVALID_VOLUME ''XDVDFS descriptor is truncated''))"

text \<open>\<open>Inr None\<close> is success with \<open>*found\<close> false.\<close>

definition probe_descriptor ::
  "'s source_ops \<Rightarrow> 's sector_source \<Rightarrow> u64 \<Rightarrow> xdvdfs_volume option res \<times> 's sector_source" where
  "probe_descriptor ops source lba =
     (case gdox_source_read ops source lba 1 GDOX_LOGICAL_SECTOR_BYTES of
        (Inl e, source') \<Rightarrow> (Inl e, source')
      | (Inr sector, source') \<Rightarrow>
          if \<not> descriptor_magic_valid sector then (Inr None, source')
          else (case parse_descriptor sector lba of
                  Inl e \<Rightarrow> (Inl e, source')
                | Inr volume \<Rightarrow> (Inr (Some volume), source')))"

text \<open>The loop from \<open>index\<close> on; \<open>None\<close> is \<open>*matched\<close> false, \<open>Some r\<close> a match with the parser's result.\<close>

function inspect_descriptor_batch :: "byte list \<Rightarrow> u32 \<Rightarrow> u64 \<Rightarrow> nat \<Rightarrow> xdvdfs_volume res option" where
  "inspect_descriptor_batch batch blocks lba index =
     (if index < blocks
      then (let sector = take GDOX_LOGICAL_SECTOR_BYTES (drop (index * GDOX_LOGICAL_SECTOR_BYTES) batch)
            in if descriptor_magic_valid sector
               then Some (parse_descriptor sector (u64_add lba index))
               else inspect_descriptor_batch batch blocks lba (index + 1))
      else None)"
  by pat_completeness auto
termination
  by (relation "measure (\<lambda>(batch, blocks, lba, index). blocks - index)") auto

function probe_descriptor_batch ::
  "'s source_ops \<Rightarrow> 's sector_source \<Rightarrow> u64 \<Rightarrow> u32 \<Rightarrow> nat
     \<Rightarrow> xdvdfs_volume option res \<times> 's sector_source" where
  "probe_descriptor_batch ops source lba blocks index =
     (if index < blocks
      then (case probe_descriptor ops source (u64_add lba index) of
              (Inl e, source') \<Rightarrow> (Inl e, source')
            | (Inr (Some volume), source') \<Rightarrow> (Inr (Some volume), source')
            | (Inr None, source') \<Rightarrow> probe_descriptor_batch ops source' lba blocks (index + 1))
      else (Inr None, source))"
  by pat_completeness auto
termination
  by (relation "measure (\<lambda>(ops, source, lba, blocks, index). blocks - index)") auto

text \<open>The loop of \<open>scan_range\<close>. \<open>lba + blocks\<close> is at most \<open>stop\<close>, so \<open>lba += blocks\<close> does not wrap.\<close>

function scan_loop ::
  "'s source_ops \<Rightarrow> 's sector_source \<Rightarrow> u64 \<Rightarrow> u64 \<Rightarrow> xdvdfs_volume option res \<times> 's sector_source" where
  "scan_loop ops source lba stop =
     (if lba < stop
      then (let available = stop - lba;
                blocks = (if available > GDOX_XDVDFS_SCAN_BATCH then GDOX_XDVDFS_SCAN_BATCH else available)
            in case gdox_source_read ops source lba blocks (blocks * GDOX_LOGICAL_SECTOR_BYTES) of
                 (Inr batch, source') \<Rightarrow>
                   (case inspect_descriptor_batch batch blocks lba 0 of
                      Some (Inl e) \<Rightarrow> (Inl e, source')
                    | Some (Inr volume) \<Rightarrow> (Inr (Some volume), source')
                    | None \<Rightarrow> scan_loop ops source' (lba + blocks) stop)
               | (Inl read_error, source') \<Rightarrow>
                   if blocks > 1
                   then (case probe_descriptor_batch ops source' lba blocks 0 of
                           (Inl e, source'') \<Rightarrow> (Inl e, source'')
                         | (Inr (Some volume), source'') \<Rightarrow> (Inr (Some volume), source'')
                         | (Inr None, source'') \<Rightarrow> scan_loop ops source'' (lba + blocks) stop)
                   else (Inl read_error, source'))
      else (Inr None, source))"
  by pat_completeness auto
termination
  by (relation "measure (\<lambda>(ops, source, lba, stop). stop - lba)") (auto simp: GDOX_XDVDFS_SCAN_BATCH_def)

declare inspect_descriptor_batch.simps [simp del] probe_descriptor_batch.simps [simp del] scan_loop.simps [simp del]

definition scan_range ::
  "bool \<Rightarrow> 's source_ops \<Rightarrow> 's sector_source \<Rightarrow> u64 \<Rightarrow> u64
     \<Rightarrow> xdvdfs_volume option res \<times> 's sector_source" where
  "scan_range mem ops source start stop =
     (if \<not> mem then (fail ERROR_INTERNAL ''could not allocate XDVDFS scan buffer'', source)
      else scan_loop ops source start stop)"

section \<open>Finding the volume\<close>

text \<open>The loop over \<open>preferred\<close>.\<close>

fun probe_preferred ::
  "'s source_ops \<Rightarrow> u64 \<Rightarrow> u64 list \<Rightarrow> 's sector_source \<Rightarrow> xdvdfs_volume option res \<times> 's sector_source" where
  "probe_preferred ops sectors [] source = (Inr None, source)"
| "probe_preferred ops sectors (lba # rest) source =
     (if lba < sectors
      then (case probe_descriptor ops source lba of
              (Inl e, source') \<Rightarrow> (Inl e, source')
            | (Inr (Some volume), source') \<Rightarrow> (Inr (Some volume), source')
            | (Inr None, source') \<Rightarrow> probe_preferred ops sectors rest source')
      else probe_preferred ops sectors rest source)"

definition quick_scan_sectors :: u64 where
  "quick_scan_sectors = 512 * 1024 * 1024 div GDOX_LOGICAL_SECTOR_BYTES"

definition gdox_xdvdfs_find_volume ::
  "bool \<Rightarrow> 's source_ops \<Rightarrow> 's sector_source \<Rightarrow> xdvdfs_volume res \<times> 's sector_source" where
  "gdox_xdvdfs_find_volume mem ops source =
     (if \<not> gdox_source_is_valid source
      then (fail ERROR_INVALID_ARGUMENT ''source and volume are required'', source)
      else
        (let sectors = gdox_source_sector_count ops source;
             quick_end = (if sectors < quick_scan_sectors then sectors else quick_scan_sectors);
             scan_if = (\<lambda>wanted start stop source.
               if wanted then scan_range mem ops source start stop else (Inr None, source))
         in case probe_preferred ops sectors
                   [GDOX_XDVDFS_VOLUME_DESCRIPTOR_SECTOR,
                    GDOX_XDVDFS_COMMON_GAME_BASE_LBA + GDOX_XDVDFS_VOLUME_DESCRIPTOR_SECTOR] source of
              (Inl e, source1) \<Rightarrow> (Inl e, source1)
            | (Inr (Some volume), source1) \<Rightarrow> (Inr volume, source1)
            | (Inr None, source1) \<Rightarrow>
                (case scan_if (quick_end \<noteq> 0) 0 quick_end source1 of
                   (Inl e, source2) \<Rightarrow> (Inl e, source2)
                 | (Inr (Some volume), source2) \<Rightarrow> (Inr volume, source2)
                 | (Inr None, source2) \<Rightarrow>
                     (case scan_if (quick_end < sectors) quick_end sectors source2 of
                        (Inl e, source3) \<Rightarrow> (Inl e, source3)
                      | (Inr (Some volume), source3) \<Rightarrow> (Inr volume, source3)
                      | (Inr None, source3) \<Rightarrow>
                          (fail ERROR_INVALID_VOLUME ''Xbox game partition was not found'', source3)))))"

section \<open>What the search finds\<close>

definition descriptor_sector :: "(nat \<Rightarrow> byte) \<Rightarrow> u64 \<Rightarrow> byte list" where
  "descriptor_sector f lba = span f (lba * GDOX_LOGICAL_SECTOR_BYTES) GDOX_LOGICAL_SECTOR_BYTES"

definition descriptor_at :: "(nat \<Rightarrow> byte) \<Rightarrow> u64 \<Rightarrow> bool" where
  "descriptor_at f lba = descriptor_magic_valid (descriptor_sector f lba)"

definition search :: "(nat \<Rightarrow> byte) \<Rightarrow> u64 list \<Rightarrow> xdvdfs_volume option res" where
  "search f lbas =
     (case find (descriptor_at f) lbas of
        None \<Rightarrow> Inr None
      | Some lba \<Rightarrow> (case parse_descriptor (descriptor_sector f lba) lba of
                      Inl e \<Rightarrow> Inl e | Inr volume \<Rightarrow> Inr (Some volume)))"

text \<open>Sectors in the order the descriptor is looked for on a medium of \<open>n\<close> sectors.\<close>

definition descriptor_order :: "u64 \<Rightarrow> u64 list" where
  "descriptor_order n = filter (\<lambda>lba. lba < n) [32, 198176] @ [0..<n]"

lemma search_Nil [simp]: "search f [] = Inr None"
  by (simp add: search_def)

lemma search_Cons:
  "search f (l # ls) =
     (if descriptor_at f l
      then (case parse_descriptor (descriptor_sector f l) l of Inl e \<Rightarrow> Inl e | Inr volume \<Rightarrow> Inr (Some volume))
      else search f ls)"
  by (simp add: search_def)

lemma search_append:
  "search f (xs @ ys) = (case search f xs of Inr None \<Rightarrow> search f ys | r \<Rightarrow> r)"
  by (induction xs) (auto simp: search_Cons split: sum.splits option.splits)

lemma upt_split: "a \<le> b \<Longrightarrow> b \<le> c \<Longrightarrow> [a..<c] = [a..<b] @ [b..<c]"
  using upt_add_eq_append[of a b "c - b"] by simp

lemma search_upt_split:
  "a \<le> b \<Longrightarrow> b \<le> c \<Longrightarrow>
   search f [a..<c] = (case search f [a..<b] of Inr None \<Rightarrow> search f [b..<c] | r \<Rightarrow> r)"
  by (simp add: upt_split[of a b c] search_append)

lemma inspect_descriptor_batch_search:
  assumes "batch = span f (lba * GDOX_LOGICAL_SECTOR_BYTES) (blocks * GDOX_LOGICAL_SECTOR_BYTES)"
    and "lba + blocks < two64"
  shows "(case inspect_descriptor_batch batch blocks lba index of
            None \<Rightarrow> Inr None | Some (Inl e) \<Rightarrow> Inl e | Some (Inr volume) \<Rightarrow> Inr (Some volume)) =
         search f [lba + index..<lba + blocks]
       \<and> (inspect_descriptor_batch batch blocks lba index = None \<longleftrightarrow>
          search f [lba + index..<lba + blocks] = Inr None)"
  using assms
proof (induction batch blocks lba index rule: inspect_descriptor_batch.induct)
  case (1 batch blocks lba index)
  show ?case
  proof (cases "index < blocks")
    case False
    then show ?thesis by (simp add: inspect_descriptor_batch.simps)
  next
    case True
    have piece: "take GDOX_LOGICAL_SECTOR_BYTES (drop (index * GDOX_LOGICAL_SECTOR_BYTES) batch) =
        descriptor_sector f (lba + index)"
      using True "1.prems"(1)
      by (simp add: descriptor_sector_def drop_span take_span add_mult_distrib min_absorb1
          diff_mult_distrib[symmetric])
    have cons: "[lba + index..<lba + blocks] = (lba + index) # [lba + (index + 1)..<lba + blocks]"
      using True by (simp add: upt_conv_Cons)
    have add: "u64_add lba index = lba + index" using True "1.prems"(2) by simp
    show ?thesis
    proof (cases "descriptor_at f (lba + index)")
      case True
      then show ?thesis
        using \<open>index < blocks\<close> piece add unfolding cons
        by (subst (1 2) inspect_descriptor_batch.simps)
          (auto simp: search_Cons descriptor_at_def Let_def split: sum.splits)
    next
      case False
      then have "\<not> descriptor_magic_valid
          (take GDOX_LOGICAL_SECTOR_BYTES (drop (index * GDOX_LOGICAL_SECTOR_BYTES) batch))"
        using piece by (simp add: descriptor_at_def)
      then have "inspect_descriptor_batch batch blocks lba index =
          inspect_descriptor_batch batch blocks lba (index + 1)"
        using \<open>index < blocks\<close> by (subst inspect_descriptor_batch.simps) (simp add: Let_def)
      then show ?thesis
        using "1.IH"[OF \<open>index < blocks\<close> refl _ "1.prems"] piece False unfolding cons
        by (simp add: search_Cons descriptor_at_def)
    qed
  qed
qed

context reliable_source
begin

text \<open>\<open>searched s lbas o\<close>: the outcome \<open>o\<close> is that of the search over \<open>lbas\<close>, the source still good.\<close>

definition searched :: "'s \<Rightarrow> u64 list \<Rightarrow> xdvdfs_volume option res \<times> 's sector_source \<Rightarrow> bool" where
  "searched s lbas out \<longleftrightarrow>
     (\<exists>s'. out = (search (contents s) lbas, Some s') \<and> view_kept ops valid contents s s' \<and> ready s')"

lemma searched_Nil: "valid s \<Longrightarrow> ready s \<Longrightarrow> searched s [] (Inr None, Some s)"
  by (simp add: searched_def view_kept_refl)

lemma probe_descriptor_search:
  assumes "valid s" "ready s" "lba < op_sector_count ops s"
  shows "searched s [lba] (probe_descriptor ops (Some s) lba)"
  using source_read_ready[OF assms(1,2), of 1 lba] assms(3)
  by (auto simp: searched_def probe_descriptor_def search_Cons descriptor_at_def descriptor_sector_def
      split: sum.splits)

text \<open>A search continues where the first part found nothing.\<close>

lemma searched_then:
  assumes "searched s xs (r, h)"
    and "\<And>s'. h = Some s' \<Longrightarrow> view_kept ops valid contents s s' \<Longrightarrow> ready s' \<Longrightarrow> r = Inr None \<Longrightarrow>
       searched s' ys (k (Some s'))"
  shows "searched s (xs @ ys) (case r of Inl e \<Rightarrow> (Inl e, h) | Inr (Some v) \<Rightarrow> (Inr (Some v), h)
           | Inr None \<Rightarrow> k h)"
proof -
  obtain s' where s': "r = search (contents s) xs" "h = Some s'" "view_kept ops valid contents s s'" "ready s'"
    using assms(1) by (auto simp: searched_def)
  show ?thesis
  proof (cases "r = Inr None")
    case True
    obtain s'' where "k (Some s') = (search (contents s') ys, Some s'')" "view_kept ops valid contents s' s''" "ready s''"
      using assms(2)[OF s'(2,3,4) True] by (auto simp: searched_def)
    then show ?thesis
      using True s' view_kept_trans[OF s'(3)] by (auto simp: searched_def search_append view_kept_def)
  next
    case False
    then show ?thesis using s' by (auto simp: searched_def search_append split: sum.splits option.splits)
  qed
qed

lemma scan_loop_search:
  assumes "valid s" "ready s" "stop \<le> op_sector_count ops s" "lba \<le> stop"
  shows "searched s [lba..<stop] (scan_loop ops (Some s) lba stop)"
  using assms
proof (induction "stop - lba" arbitrary: s lba rule: less_induct)
  case less
  show ?case
  proof (cases "lba < stop")
    case False
    then show ?thesis using less.prems searched_Nil by (simp add: scan_loop.simps)
  next
    case True
    define blocks where "blocks = (if stop - lba > GDOX_XDVDFS_SCAN_BATCH then GDOX_XDVDFS_SCAN_BATCH else stop - lba)"
    have b: "0 < blocks" "blocks < two32" "lba + blocks \<le> stop" "blocks \<le> stop - lba"
      using True by (auto simp: blocks_def GDOX_XDVDFS_SCAN_BATCH_def)
    obtain s' where rd: "gdox_source_read ops (Some s) lba blocks (blocks * GDOX_LOGICAL_SECTOR_BYTES) =
        (Inr (span (contents s) (lba * GDOX_LOGICAL_SECTOR_BYTES) (blocks * GDOX_LOGICAL_SECTOR_BYTES)), Some s')"
      and vk: "view_kept ops valid contents s s'" and rdy: "ready s'"
      using source_read_ready[OF less.prems(1,2) b(1), of lba] b less.prems(3) by auto
    let ?batch = "span (contents s) (lba * GDOX_LOGICAL_SECTOR_BYTES) (blocks * GDOX_LOGICAL_SECTOR_BYTES)"
    let ?q = "inspect_descriptor_batch ?batch blocks lba 0"
    have "lba + blocks < two64" using count_less[OF less.prems(1)] b less.prems(3) by simp
    note q = inspect_descriptor_batch_search[OF refl this, of "contents s" 0]
    have eq: "scan_loop ops (Some s) lba stop =
        (case ?q of Some (Inl e) \<Rightarrow> (Inl e, Some s') | Some (Inr volume) \<Rightarrow> (Inr (Some volume), Some s')
          | None \<Rightarrow> scan_loop ops (Some s') (lba + blocks) stop)"
      using True rd unfolding blocks_def by (subst scan_loop.simps) (simp add: Let_def)
    have "searched s [lba..<lba + blocks] (search (contents s) [lba..<lba + blocks], Some s')"
      using vk rdy by (simp add: searched_def)
    from searched_then[OF this, of "[lba + blocks..<stop]" "\<lambda>h. scan_loop ops h (lba + blocks) stop"]
    have "searched s ([lba..<lba + blocks] @ [lba + blocks..<stop])
       (case search (contents s) [lba..<lba + blocks] of Inl e \<Rightarrow> (Inl e, Some s')
          | Inr (Some v) \<Rightarrow> (Inr (Some v), Some s') | Inr None \<Rightarrow> scan_loop ops (Some s') (lba + blocks) stop)"
      using less.hyps[of "lba + blocks" s'] vk less.prems(3) b True by (auto simp: view_kept_def rdy)
    moreover have "[lba..<lba + blocks] @ [lba + blocks..<stop] = [lba..<stop]"
      using b by (simp add: upt_split[of lba "lba + blocks" stop])
    moreover have "(case search (contents s) [lba..<lba + blocks] of Inl e \<Rightarrow> (Inl e, Some s')
          | Inr (Some v) \<Rightarrow> (Inr (Some v), Some s') | Inr None \<Rightarrow> scan_loop ops (Some s') (lba + blocks) stop) =
        scan_loop ops (Some s) lba stop"
      using q eq by (auto split: option.splits sum.splits)
    ultimately show ?thesis by simp
  qed
qed

lemma probe_preferred_search:
  assumes "valid s" "ready s"
  shows "searched s (filter (\<lambda>l. l < op_sector_count ops s) ls)
           (probe_preferred ops (op_sector_count ops s) ls (Some s))"
  using assms
proof (induction ls arbitrary: s)
  case Nil
  then show ?case by (simp add: searched_Nil)
next
  case (Cons l ls)
  show ?case
  proof (cases "l < op_sector_count ops s")
    case True
    obtain r h where p: "probe_descriptor ops (Some s) l = (r, h)" by fastforce
    have "searched s [l] (r, h)" using probe_descriptor_search[OF Cons.prems True] p by simp
    moreover have "searched s' (filter (\<lambda>l. l < op_sector_count ops s) ls)
        (probe_preferred ops (op_sector_count ops s) ls (Some s'))"
      if "view_kept ops valid contents s s'" "ready s'" for s'
      using Cons.IH[of s'] that by (simp add: view_kept_def)
    ultimately have "searched s ([l] @ filter (\<lambda>l. l < op_sector_count ops s) ls)
        (case r of Inl e \<Rightarrow> (Inl e, h) | Inr (Some v) \<Rightarrow> (Inr (Some v), h)
           | Inr None \<Rightarrow> probe_preferred ops (op_sector_count ops s) ls h)"
      by (rule searched_then) auto
    then show ?thesis using True p by (auto split: sum.splits option.splits)
  qed (use Cons in simp)
qed

lemma find_volume_search:
  assumes "valid s" "ready s"
  shows "\<exists>s'. gdox_xdvdfs_find_volume True ops (Some s) =
      (case search (contents s) (descriptor_order (op_sector_count ops s)) of
         Inl e \<Rightarrow> Inl e
       | Inr None \<Rightarrow> fail ERROR_INVALID_VOLUME ''Xbox game partition was not found''
       | Inr (Some volume) \<Rightarrow> Inr volume, Some s') \<and> view_kept ops valid contents s s' \<and> ready s'"
proof -
  let ?n = "op_sector_count ops s"
  define q where "q = (if ?n < quick_scan_sectors then ?n else quick_scan_sectors)"
  let ?pre = "filter (\<lambda>l. l < ?n) [32, 198176]"
  define scan_if where "scan_if = (\<lambda>wanted start stop source.
      if wanted then scan_range True ops source start stop else (Inr None, source))"
  have q: "q \<le> ?n" by (simp add: q_def)
  have scan: "searched s' [a..<b] (scan_if w a b (Some s'))"
    if "view_kept ops valid contents s s'" "ready s'" "a \<le> b" "b \<le> ?n" "\<not> w \<longrightarrow> a = b" for s' a b w
    using that scan_loop_search[of s' b a] searched_Nil[of s']
    by (auto simp: scan_if_def scan_range_def view_kept_def)
  define third where "third = (\<lambda>h. scan_if (q < ?n) q ?n h)"
  define second where "second = (\<lambda>h. case scan_if (q \<noteq> 0) 0 q h of (r, h) \<Rightarrow>
      (case r of Inl e \<Rightarrow> (Inl e, h) | Inr (Some v) \<Rightarrow> (Inr (Some v), h) | Inr None \<Rightarrow> third h))"
  have s2: "searched s' ([0..<q] @ [q..<?n]) (second (Some s'))"
    if "view_kept ops valid contents s s'" "ready s'" for s'
  proof -
    obtain r h where r: "scan_if (q \<noteq> 0) 0 q (Some s') = (r, h)" by fastforce
    have "searched s' [0..<q] (r, h)" using scan[OF that, of 0 q "q \<noteq> 0"] q r by simp
    then have "searched s' ([0..<q] @ [q..<?n]) (case r of Inl e \<Rightarrow> (Inl e, h) | Inr (Some v) \<Rightarrow> (Inr (Some v), h)
        | Inr None \<Rightarrow> third h)"
    proof (rule searched_then)
      fix t assume "view_kept ops valid contents s' t" "ready t"
      then show "searched t [q..<?n] (third (Some t))"
        using scan[of t q ?n "q < ?n"] q view_kept_trans[OF that(1)] by (auto simp: third_def)
    qed
    then show ?thesis using r by (simp add: second_def)
  qed
  obtain r h where r: "probe_preferred ops ?n [32, 198176] (Some s) = (r, h)" by fastforce
  have "searched s ?pre (r, h)" using probe_preferred_search[OF assms, of "[32, 198176]"] r by simp
  then have all: "searched s (?pre @ ([0..<q] @ [q..<?n])) (case r of Inl e \<Rightarrow> (Inl e, h)
      | Inr (Some v) \<Rightarrow> (Inr (Some v), h) | Inr None \<Rightarrow> second h)"
    by (rule searched_then) (rule s2)
  have order: "?pre @ ([0..<q] @ [q..<?n]) = descriptor_order ?n"
    using q by (simp add: descriptor_order_def upt_split[of 0 q ?n])
  have code: "gdox_xdvdfs_find_volume True ops (Some s) =
     (case (case r of Inl e \<Rightarrow> (Inl e, h) | Inr (Some v) \<Rightarrow> (Inr (Some v), h) | Inr None \<Rightarrow> second h) of
        (Inl e, h) \<Rightarrow> (Inl e, h) | (Inr (Some v), h) \<Rightarrow> (Inr v, h)
      | (Inr None, h) \<Rightarrow> (fail ERROR_INVALID_VOLUME ''Xbox game partition was not found'', h))"
    using r
    by (auto simp: gdox_xdvdfs_find_volume_def Let_def second_def third_def scan_if_def q_def
        GDOX_XDVDFS_VOLUME_DESCRIPTOR_SECTOR_def GDOX_XDVDFS_COMMON_GAME_BASE_LBA_def
        split: sum.splits option.splits prod.splits)
  show ?thesis using all unfolding order code by (auto simp: searched_def split: sum.splits option.splits)
qed

end

context sector_source
begin

text \<open>
  Whatever reads fail: the source keeps its view, and a volume that is reported is the parse of a
  real descriptor of the medium.
\<close>

definition located :: "'s \<Rightarrow> xdvdfs_volume option res \<times> 's sector_source \<Rightarrow> bool" where
  "located s out \<longleftrightarrow>
     (\<exists>s'. snd out = Some s' \<and> view_kept ops valid contents s s')
     \<and> (\<forall>v. fst out = Inr (Some v) \<longrightarrow>
          (\<exists>lba < op_sector_count ops s. descriptor_at (contents s) lba
             \<and> parse_descriptor (descriptor_sector (contents s) lba) lba = Inr v))"

lemma located_none: "view_kept ops valid contents s s' \<Longrightarrow> located s (Inr None, Some s')"
  "view_kept ops valid contents s s' \<Longrightarrow> located s (Inl e, Some s')"
  by (simp_all add: located_def)

lemma located_view: "view_kept ops valid contents s s' \<Longrightarrow> located s' out \<Longrightarrow> located s out"
  by (auto simp: located_def view_kept_def)

lemma located_then:
  assumes "located s (r, h)"
    and "\<And>s'. h = Some s' \<Longrightarrow> view_kept ops valid contents s s' \<Longrightarrow> located s (k (Some s'))"
  shows "located s (case r of Inl e \<Rightarrow> (Inl e, h) | Inr (Some v) \<Rightarrow> (Inr (Some v), h) | Inr None \<Rightarrow> k h)"
  using assms by (auto simp: located_def split: sum.splits option.splits)

lemma probe_descriptor_located:
  assumes "valid s"
  shows "located s (probe_descriptor ops (Some s) lba)"
proof -
  obtain r h where rd: "gdox_source_read ops (Some s) lba 1 GDOX_LOGICAL_SECTOR_BYTES = (r, h)" by fastforce
  obtain s' where s': "h = Some s'" "view_kept ops valid contents s s'"
    and all: "\<forall>bs. r = Inr bs \<longrightarrow> bs = descriptor_sector (contents s) lba \<and> lba < op_sector_count ops s"
    using source_read_view[OF assms rd] by (simp add: descriptor_sector_def Suc_le_eq) blast
  note bs = all[rule_format]
  show ?thesis
  proof (cases r)
    case (Inl e)
    then show ?thesis using rd s' by (simp add: probe_descriptor_def located_def)
  next
    case (Inr sector)
    then show ?thesis
      using rd s' bs[OF Inr]
      by (cases "parse_descriptor sector lba")
        (auto simp: probe_descriptor_def located_def descriptor_at_def)
  qed
qed

lemma probe_descriptor_batch_located:
  "valid s \<Longrightarrow> located s (probe_descriptor_batch ops (Some s) lba blocks index)"
proof (induction "blocks - index" arbitrary: s index rule: less_induct)
  case less
  show ?case
  proof (cases "index < blocks")
    case False
    then show ?thesis using less.prems by (simp add: probe_descriptor_batch.simps located_none view_kept_refl)
  next
    case True
    obtain r h where p: "probe_descriptor ops (Some s) (u64_add lba index) = (r, h)" by fastforce
    have "located s (case r of Inl e \<Rightarrow> (Inl e, h) | Inr (Some v) \<Rightarrow> (Inr (Some v), h)
        | Inr None \<Rightarrow> probe_descriptor_batch ops h lba blocks (index + 1))"
    proof (rule located_then)
      show "located s (r, h)" using probe_descriptor_located[OF less.prems, of "u64_add lba index"] p by simp
    next
      fix s' assume "view_kept ops valid contents s s'"
      then show "located s (probe_descriptor_batch ops (Some s') lba blocks (index + 1))"
        using less.hyps[of "index + 1" s'] True located_view by (auto simp: view_kept_def)
    qed
    then show ?thesis
      using True p by (subst probe_descriptor_batch.simps) (simp split: sum.splits option.splits)
  qed
qed

lemma inspect_descriptor_batch_located:
  assumes "inspect_descriptor_batch batch blocks lba index = Some (Inr v)"
    and "batch = span f (lba * GDOX_LOGICAL_SECTOR_BYTES) (blocks * GDOX_LOGICAL_SECTOR_BYTES)"
    and "lba + blocks < two64"
  shows "\<exists>l < lba + blocks. descriptor_at f l \<and> parse_descriptor (descriptor_sector f l) l = Inr v"
proof -
  have "search f [lba + index..<lba + blocks] = Inr (Some v)"
    using inspect_descriptor_batch_search[OF assms(2,3), of index] assms(1) by simp
  then obtain l where l: "find (descriptor_at f) [lba + index..<lba + blocks] = Some l"
      "parse_descriptor (descriptor_sector f l) l = Inr v"
    by (auto simp: search_def split: option.splits sum.splits)
  with find_mem[OF l(1)] show ?thesis by auto
qed

lemma scan_loop_located:
  "valid s \<Longrightarrow> stop \<le> op_sector_count ops s \<Longrightarrow> located s (scan_loop ops (Some s) lba stop)"
proof (induction "stop - lba" arbitrary: s lba rule: less_induct)
  case less
  show ?case
  proof (cases "lba < stop")
    case False
    then show ?thesis using less.prems by (simp add: scan_loop.simps located_none view_kept_refl)
  next
    case True
    define blocks where "blocks = (if stop - lba > GDOX_XDVDFS_SCAN_BATCH then GDOX_XDVDFS_SCAN_BATCH else stop - lba)"
    have b: "0 < blocks" "lba + blocks \<le> stop"
      using True by (auto simp: blocks_def GDOX_XDVDFS_SCAN_BATCH_def)
    have rec: "located s (scan_loop ops (Some s') (lba + blocks) stop)" if "view_kept ops valid contents s s'" for s'
      using less.hyps[of "lba + blocks" s'] less.prems True b that located_view by (auto simp: view_kept_def)
    obtain r h where rd: "gdox_source_read ops (Some s) lba blocks (blocks * GDOX_LOGICAL_SECTOR_BYTES) = (r, h)"
      by fastforce
    obtain s' where h: "h = Some s'" and vk: "view_kept ops valid contents s s'"
      and bs: "\<And>bs. r = Inr bs \<Longrightarrow>
        bs = span (contents s) (lba * GDOX_LOGICAL_SECTOR_BYTES) (blocks * GDOX_LOGICAL_SECTOR_BYTES)"
      using source_read_view[OF less.prems(1) rd] by blast
    show ?thesis
    proof (cases r)
      case (Inl e)
      obtain q h' where pb: "probe_descriptor_batch ops (Some s') lba blocks 0 = (q, h')" by fastforce
      have "located s (case q of Inl e \<Rightarrow> (Inl e, h') | Inr (Some v) \<Rightarrow> (Inr (Some v), h')
          | Inr None \<Rightarrow> scan_loop ops h' (lba + blocks) stop)"
        using located_view[OF vk probe_descriptor_batch_located[of s' lba blocks 0]] vk pb
        by (intro located_then) (auto simp: view_kept_def intro: rec)
      then show ?thesis
        using True rd Inl h pb vk located_none unfolding blocks_def
        by (subst scan_loop.simps) (auto simp: Let_def split: sum.splits option.splits)
    next
      case (Inr batch)
      have lt: "lba + blocks < two64" using count_less[OF less.prems(1)] b less.prems(2) by simp
      have eq: "scan_loop ops (Some s) lba stop =
          (case inspect_descriptor_batch batch blocks lba 0 of
             Some (Inl e) \<Rightarrow> (Inl e, Some s') | Some (Inr volume) \<Rightarrow> (Inr (Some volume), Some s')
           | None \<Rightarrow> scan_loop ops (Some s') (lba + blocks) stop)"
        using True rd Inr h unfolding blocks_def by (subst scan_loop.simps) (simp add: Let_def)
      have "located s (Inr (Some v), Some s')" if found: "inspect_descriptor_batch batch blocks lba 0 = Some (Inr v)" for v
      proof -
        obtain l where "l < lba + blocks" "descriptor_at (contents s) l"
            "parse_descriptor (descriptor_sector (contents s) l) l = Inr v"
          using inspect_descriptor_batch_located[OF found bs[OF Inr] lt] by blast
        then show ?thesis using vk b less.prems(2) by (auto simp: located_def intro!: exI[of _ l])
      qed
      then show ?thesis
        unfolding eq using rec[OF vk] located_none[OF vk] by (auto split: option.splits sum.splits)
    qed
  qed
qed

lemma probe_preferred_located:
  "valid s \<Longrightarrow> located s (probe_preferred ops n ls (Some s))"
proof (induction ls arbitrary: s)
  case (Cons l ls)
  obtain r h where p: "probe_descriptor ops (Some s) l = (r, h)" by fastforce
  have "located s (case r of Inl e \<Rightarrow> (Inl e, h) | Inr (Some v) \<Rightarrow> (Inr (Some v), h)
      | Inr None \<Rightarrow> probe_preferred ops n ls h)"
    using probe_descriptor_located[OF Cons.prems, of l] p Cons.IH located_view
    by (intro located_then) (auto simp: view_kept_def)
  then show ?case using p Cons by (auto split: sum.splits option.splits)
qed (simp add: located_none view_kept_refl)

lemma find_volume_located:
  assumes "valid s" and "gdox_xdvdfs_find_volume mem ops (Some s) = (r, h)"
  shows "(\<exists>s'. h = Some s' \<and> view_kept ops valid contents s s')
    \<and> (\<forall>v. r = Inr v \<longrightarrow> (\<exists>lba < op_sector_count ops s. descriptor_at (contents s) lba
             \<and> parse_descriptor (descriptor_sector (contents s) lba) lba = Inr v))"
proof -
  let ?n = "op_sector_count ops s"
  define q where "q = (if ?n < quick_scan_sectors then ?n else quick_scan_sectors)"
  define scan_if where "scan_if = (\<lambda>wanted start stop source.
      if wanted then scan_range mem ops source start stop else (Inr None, source))"
  have scan: "located s (scan_if w a b (Some s'))" if "view_kept ops valid contents s s'" "b \<le> ?n" for s' a b w
    using that scan_loop_located[of s' b a] located_none located_view[OF that(1)]
    by (auto simp: scan_if_def scan_range_def view_kept_def)
  define second where "second = (\<lambda>h. case scan_if (q \<noteq> 0) 0 q h of (r, h) \<Rightarrow>
      (case r of Inl e \<Rightarrow> (Inl e, h) | Inr (Some v) \<Rightarrow> (Inr (Some v), h)
         | Inr None \<Rightarrow> scan_if (q < ?n) q ?n h))"
  have s2: "located s (second (Some s'))" if vk: "view_kept ops valid contents s s'" for s'
  proof -
    obtain r h where "scan_if (q \<noteq> 0) 0 q (Some s') = (r, h)" by fastforce
    moreover have "q \<le> ?n" by (simp add: q_def)
    ultimately show ?thesis
      using scan[OF vk, of q "q \<noteq> 0" 0] scan by (auto simp: second_def intro!: located_then)
  qed
  obtain p hp where p: "probe_preferred ops ?n [32, 198176] (Some s) = (p, hp)" by fastforce
  have all: "located s (case p of Inl e \<Rightarrow> (Inl e, hp) | Inr (Some v) \<Rightarrow> (Inr (Some v), hp) | Inr None \<Rightarrow> second hp)"
    using probe_preferred_located[OF assms(1), of ?n "[32, 198176]"] p s2 by (intro located_then) auto
  have code: "gdox_xdvdfs_find_volume mem ops (Some s) =
     (case (case p of Inl e \<Rightarrow> (Inl e, hp) | Inr (Some v) \<Rightarrow> (Inr (Some v), hp) | Inr None \<Rightarrow> second hp) of
        (Inl e, h) \<Rightarrow> (Inl e, h) | (Inr (Some v), h) \<Rightarrow> (Inr v, h)
      | (Inr None, h) \<Rightarrow> (fail ERROR_INVALID_VOLUME ''Xbox game partition was not found'', h))"
    using p
    by (auto simp: gdox_xdvdfs_find_volume_def Let_def second_def scan_if_def q_def
        GDOX_XDVDFS_VOLUME_DESCRIPTOR_SECTOR_def GDOX_XDVDFS_COMMON_GAME_BASE_LBA_def
        split: sum.splits option.splits prod.splits)
  show ?thesis
    using all assms(2) unfolding code by (auto simp: located_def split: sum.splits option.splits prod.splits)
qed

end

section \<open>Properties\<close>

text \<open>
  C19: On a medium that can be read, the search returns the first volume descriptor in the documented
  order (sector 32, sector 198176, then every sector from 0), parsed; it fails with the parser's error
  when that descriptor is malformed and with \<open>Xbox game partition was not found\<close> when there is none.
\<close>
theorem find_volume_first_descriptor:
  assumes "reliable_source ops valid contents ready" and "valid s" and "ready s"
  shows "\<exists>s'. gdox_xdvdfs_find_volume True ops (Some s) =
      (case find (descriptor_at (contents s)) (descriptor_order (op_sector_count ops s)) of
         None \<Rightarrow> fail ERROR_INVALID_VOLUME ''Xbox game partition was not found''
       | Some lba \<Rightarrow> parse_descriptor (descriptor_sector (contents s) lba) lba, Some s')"
  using reliable_source.find_volume_search[OF assms]
  by (auto simp: search_def split: option.splits sum.splits)

theorem find_volume_first_descriptor_witness:
  "\<exists>s'. gdox_xdvdfs_find_volume True file_ops (Some sample_file) =
      (case find (descriptor_at (file_contents sample_file)) (descriptor_order 4) of
         None \<Rightarrow> fail ERROR_INVALID_VOLUME ''Xbox game partition was not found''
       | Some lba \<Rightarrow> parse_descriptor (descriptor_sector (file_contents sample_file) lba) lba, Some s')"
  using find_volume_first_descriptor[OF file_source.reliable_source_axioms, of sample_file] by simp

text \<open>
  C20: Whatever read errors the medium has on the way, a volume that is reported comes from a
  descriptor sector that exists on the medium, carries the magic twice, and its fields are that
  sector's: the base is 32 sectors before it and the root directory has between 1 byte and 64 MiB.
\<close>
theorem find_volume_sound:
  assumes "sector_source ops valid contents" and "valid s"
    and "gdox_xdvdfs_find_volume mem ops (Some s) = (Inr v, h)"
  shows "base_lba v + 32 < op_sector_count ops s \<and> descriptor_at (contents s) (base_lba v + 32)
    \<and> parse_descriptor (descriptor_sector (contents s) (base_lba v + 32)) (base_lba v + 32) = Inr v
    \<and> 0 < root_directory_size v \<and> root_directory_size v \<le> 67108864"
proof -
  obtain lba where l: "lba < op_sector_count ops s" "descriptor_at (contents s) lba"
      "parse_descriptor (descriptor_sector (contents s) lba) lba = Inr v"
    using sector_source.find_volume_located[OF assms] by blast
  have "lba < two64" using sector_source.count_less[OF assms(1,2)] l(1) by simp
  then have "base_lba v + 32 = lba \<and> 0 < root_directory_size v \<and> root_directory_size v \<le> 67108864"
    using l(3)
    by (auto simp: parse_descriptor_def GDOX_XDVDFS_VOLUME_DESCRIPTOR_SECTOR_def GDOX_XDVDFS_MAX_DIRECTORY_BYTES_def
        split: if_splits option.splits)
  with l show ?thesis by simp
qed

text \<open>
  A disc of 64 sectors: descriptor, a root directory with one file, and the file, an executable with one
  media check and a certificate at 0x178 with title id 1.
\<close>

definition sample_descriptor :: "byte list" where
  "sample_descriptor = xdvdfs_magic @ [33, 0, 0, 0, 25, 0, 0, 0, 1, 2, 3, 4, 5, 6, 7, 8] @ replicate 1992 0 @ xdvdfs_magic"

definition sample_directory :: "byte list" where
  "sample_directory =
     [0, 0, 0, 0, 34, 0, 0, 0, 0, 8, 0, 0, 0, 11] @ ascii ''default.xbe'' @ replicate 2023 255"

definition sample_xbe :: "byte list" where
  "sample_xbe = ascii ''XBEH'' @ [232, 202, 253, 255, 255, 133, 192, 125] @ replicate 268 0
     @ [120, 1, 0, 0] @ replicate 100 0 @ [1, 0, 0, 0] @ replicate 1660 0"

definition sample_disc :: file_context where
  "sample_disc =
     \<lparr>fc_data = replicate 65536 0 @ sample_descriptor @ sample_directory @ sample_xbe @ replicate 59392 0,
      fc_sectors = 64, fc_script = [PREAD_EINTR, PREAD_BYTES 100], fc_close_error = None\<rparr>"

lemma length_samples [simp]:
  "length sample_descriptor = 2048" "length sample_directory = 2048" "length sample_xbe = 2048"
  by (simp_all add: sample_descriptor_def sample_directory_def sample_xbe_def ascii_def)

lemma sample_disc_simps [simp]:
  "file_valid sample_disc" "file_ready sample_disc" "file_sector_count sample_disc = 64"
  "length (fc_data sample_disc) = 131072"
  by (simp_all add: sample_disc_def file_valid_def file_ready_def INT64_MAX_def file_sector_count_def)

lemma sample_disc_spans:
  "span (file_contents sample_disc) 65536 2048 = sample_descriptor"
  "span (file_contents sample_disc) 67584 2048 = sample_directory"
  "span (file_contents sample_disc) 69632 2048 = sample_xbe"
  by (simp_all add: file_contents_def span_bytes_at) (simp_all add: sample_disc_def)

definition sample_volume :: xdvdfs_volume where
  "sample_volume = \<lparr>base_lba = 0, root_directory_sector = 33, root_directory_size = 25,
     image_timestamp = 578437695752307201\<rparr>"

lemma sample_descriptor_parses:
  "descriptor_magic_valid sample_descriptor" "parse_descriptor sample_descriptor 32 = Inr sample_volume"
proof -
  show "descriptor_magic_valid sample_descriptor"
    by (simp add: descriptor_magic_valid_def window_eq_def sample_descriptor_def)
  have m: "xdvdfs_magic = map of_char ''MICROSOFT*XBOX*MEDIA''" by (simp add: xdvdfs_magic_def ascii_def)
  show "parse_descriptor sample_descriptor 32 = Inr sample_volume"
    unfolding parse_descriptor_def sample_descriptor_def m sample_volume_def read_le_u32_def read_le_u64_def le_u32_def
    by (simp add: GDOX_XDVDFS_VOLUME_DESCRIPTOR_SECTOR_def GDOX_XDVDFS_MAX_DIRECTORY_BYTES_def
        join32_def join64_def)
qed

lemma sample_disc_search:
  "search (file_contents sample_disc) (descriptor_order 64) = Inr (Some sample_volume)"
  using sample_descriptor_parses
  by (simp add: search_def descriptor_order_def descriptor_at_def descriptor_sector_def sample_disc_spans)

lemma sample_disc_volume: "\<exists>h. gdox_xdvdfs_find_volume True file_ops (Some sample_disc) = (Inr sample_volume, h)"
  using file_source.find_volume_search[of sample_disc] sample_disc_search by simp blast

theorem find_volume_sound_witness:
  "base_lba sample_volume + 32 < 64 \<and> descriptor_at (file_contents sample_disc) 32
    \<and> 0 < root_directory_size sample_volume \<and> root_directory_size sample_volume \<le> 67108864"
proof -
  obtain h where "gdox_xdvdfs_find_volume True file_ops (Some sample_disc) = (Inr sample_volume, h)"
    using sample_disc_volume by blast
  from find_volume_sound[OF file_source.sector_source_axioms _ this] show ?thesis
    by (simp add: sample_volume_def)
qed

end
