(* ===== verification/XdvdfsDirectory.thy ===== *)
theory XdvdfsDirectory
  imports Xdvdfs DirectoryCache
begin

text \<open>
  Reading one directory, src/src/core/xdvdfs.c. A directory is a binary tree of entries in an array
  of 4-byte slots; the walk keeps a stack of pending offsets and a map of visited slots. The
  specification is the set \<open>linked\<close> of offsets reachable from 0 over the two child links: a walk
  that succeeds appends the decoded entry of every reachable offset exactly once, and every walk ends.
\<close>

definition GDOX_XDVDFS_MAX_ENTRIES :: nat where "GDOX_XDVDFS_MAX_ENTRIES = 262144"

record xdvdfs_entry =
  en_name :: cstring
  en_path :: cstring
  en_start_sector :: u32
  en_size :: u32
  en_attributes :: byte

definition entry_vector_push ::
  "(nat \<Rightarrow> bool) \<Rightarrow> xdvdfs_entry vec \<Rightarrow> xdvdfs_entry \<Rightarrow> xdvdfs_entry vec res" where
  "entry_vector_push mem entries entry =
     vec_push mem 32 16 GDOX_XDVDFS_MAX_ENTRIES
       (err ERROR_INVALID_VOLUME ''XDVDFS entry limit exceeded'')
       (err ERROR_INTERNAL ''could not allocate XDVDFS entries'') entries entry"

definition offset_vector_push :: "(nat \<Rightarrow> bool) \<Rightarrow> nat vec \<Rightarrow> nat \<Rightarrow> nat vec res" where
  "offset_vector_push mem offsets v =
     vec_push_late mem 8 16 GDOX_XDVDFS_MAX_ENTRIES
       (err ERROR_INVALID_VOLUME ''directory tree is too large'')
       (err ERROR_INTERNAL ''could not allocate directory traversal'') offsets v"

definition display_char :: "byte \<Rightarrow> byte" where
  "display_char b = (if 32 \<le> b \<and> b \<le> 126 then b else 63)"

definition display_name :: "(nat \<Rightarrow> bool) \<Rightarrow> byte list \<Rightarrow> nat \<Rightarrow> cstring option" where
  "display_name mem bytes name_bytes =
     (if \<not> mem (name_bytes + 1) then None else Some (map display_char (take name_bytes bytes)))"

definition join_path :: "(nat \<Rightarrow> bool) \<Rightarrow> cstring \<Rightarrow> cstring \<Rightarrow> cstring option" where
  "join_path mem parent name =
     (let parent_bytes = length parent; name_bytes = length name
      in if parent_bytes > u64_sub (u64_sub SIZE_MAX name_bytes) 2 then None
         else if \<not> mem (parent_bytes + name_bytes + 2) then None
         else Some (parent @ [47] @ name))"

record directory_reader =
  dr_data :: "byte list"
  dr_size :: u32
  dr_parent :: cstring
  dr_visited :: "bool list"
  dr_pending :: "nat vec"
  dr_entries :: "xdvdfs_entry vec"

definition directory_data_is_empty :: "byte list \<Rightarrow> u32 \<Rightarrow> bool" where
  "directory_data_is_empty data n \<longleftrightarrow> \<not> n < 14 \<and> list_all (\<lambda>i. data ! i = 255) [0..<14]"

definition directory_u16 :: "byte list \<Rightarrow> nat \<Rightarrow> nat" where
  "directory_u16 data offset = le_u16 data offset"

text \<open>
  \<open>reader->visited[slot]\<close>. An index outside the array would be undefined in C and counts as visited
  here; \<open>directory_slot_in_bounds\<close> shows the code never forms one.
\<close>

definition slot_visited :: "bool list \<Rightarrow> nat \<Rightarrow> bool" where
  "slot_visited visited slot = (slot < length visited \<longrightarrow> visited ! slot)"

definition push_child :: "(nat \<Rightarrow> bool) \<Rightarrow> nat vec \<Rightarrow> nat \<Rightarrow> nat vec res" where
  "push_child mem pending child =
     (if child \<noteq> 0 then offset_vector_push mem pending (child * 4) else Inr pending)"

definition process_directory_entry ::
  "(nat \<Rightarrow> bool) \<Rightarrow> directory_reader \<Rightarrow> nat \<Rightarrow> directory_reader res" where
  "process_directory_entry mem r offset =
     (if offset mod 4 \<noteq> 0 \<or> offset > dr_size r \<or> dr_size r - offset < 14
      then fail ERROR_INVALID_VOLUME ''directory entry is truncated''
      else
        (let slot = offset div 4
         in if slot_visited (dr_visited r) slot then Inr r
            else
              (let r = r\<lparr>dr_visited := (dr_visited r)[slot := True]\<rparr>;
                   left = directory_u16 (dr_data r) offset;
                   right = directory_u16 (dr_data r) (offset + 2)
               in case (read_le_u32 (dr_data r) (dr_size r) (offset + 4),
                        read_le_u32 (dr_data r) (dr_size r) (offset + 8)) of
                    (Some entry_sector, Some entry_size) \<Rightarrow>
                      (let attributes = dr_data r ! (offset + 12);
                           name_bytes = unat (dr_data r ! (offset + 13))
                       in if name_bytes = 0 \<or> name_bytes > dr_size r - offset - 14
                          then fail ERROR_INVALID_VOLUME ''directory name is invalid''
                          else
                            (case display_name mem (drop (offset + 14) (dr_data r)) name_bytes of
                               None \<Rightarrow> fail ERROR_INTERNAL ''could not allocate directory name''
                             | Some name \<Rightarrow>
                                 (case join_path mem (dr_parent r) name of
                                    None \<Rightarrow> fail ERROR_INTERNAL ''could not allocate directory path''
                                  | Some path \<Rightarrow>
                                      (case entry_vector_push mem (dr_entries r)
                                              \<lparr>en_name = name, en_path = path, en_start_sector = entry_sector,
                                               en_size = entry_size, en_attributes = attributes\<rparr> of
                                         Inl e \<Rightarrow> Inl e
                                       | Inr entries \<Rightarrow>
                                           (let r = r\<lparr>dr_entries := entries\<rparr>
                                            in case push_child mem (dr_pending r) left of
                                                 Inl e \<Rightarrow> Inl e
                                               | Inr pending \<Rightarrow>
                                                   (case push_child mem pending right of
                                                      Inl e \<Rightarrow> Inl e
                                                    | Inr pending \<Rightarrow> Inr (r\<lparr>dr_pending := pending\<rparr>)))))))
                  | _ \<Rightarrow> fail ERROR_INVALID_VOLUME ''directory entry is truncated'')))"

section \<open>One step of the walk\<close>

text \<open>The children of the node at an offset, in the order they are pushed, and its entry.\<close>

definition node_links :: "byte list \<Rightarrow> nat \<Rightarrow> nat list" where
  "node_links data offset =
     (let left = directory_u16 data offset; right = directory_u16 data (offset + 2)
      in (if left \<noteq> 0 then [left * 4] else []) @ (if right \<noteq> 0 then [right * 4] else []))"

definition node_entry :: "byte list \<Rightarrow> cstring \<Rightarrow> nat \<Rightarrow> xdvdfs_entry" where
  "node_entry data parent offset =
     (let name = map display_char (take (unat (data ! (offset + 13))) (drop (offset + 14) data))
      in \<lparr>en_name = name, en_path = parent @ [47] @ name, en_start_sector = le_u32 data (offset + 4),
          en_size = le_u32 data (offset + 8), en_attributes = data ! (offset + 12)\<rparr>)"

text \<open>A node lies inside the directory with its name.\<close>

definition node_fits :: "byte list \<Rightarrow> nat \<Rightarrow> nat \<Rightarrow> bool" where
  "node_fits data n offset \<longleftrightarrow>
     offset mod 4 = 0 \<and> offset + 14 \<le> n \<and> 0 < unat (data ! (offset + 13))
     \<and> offset + 14 + unat (data ! (offset + 13)) \<le> n"

lemma push_child_Inr:
  assumes "push_child mem v child = Inr v'"
  shows "vec_items v' = vec_items v @ (if child \<noteq> 0 then [child * 4] else [])"
    and "vec_ok GDOX_XDVDFS_MAX_ENTRIES v \<Longrightarrow> vec_ok GDOX_XDVDFS_MAX_ENTRIES v'"
  using assms vec_push_late_items[of mem 8 16 GDOX_XDVDFS_MAX_ENTRIES _ _ v "child * 4" v']
    vec_push_late_ok[of GDOX_XDVDFS_MAX_ENTRIES v 16 mem 8 _ _ "child * 4" v']
  by (auto simp: push_child_def offset_vector_push_def split: if_splits)

lemma process_cases:
  assumes "process_directory_entry mem r offset = Inr r'"
  obtains (seen) "r' = r" "offset mod 4 = 0" "offset + 14 \<le> dr_size r" "slot_visited (dr_visited r) (offset div 4)"
  | (fresh) "node_fits (dr_data r) (dr_size r) offset" "\<not> slot_visited (dr_visited r) (offset div 4)"
      "dr_data r' = dr_data r" "dr_size r' = dr_size r" "dr_parent r' = dr_parent r"
      "dr_visited r' = (dr_visited r)[offset div 4 := True]"
      "vec_items (dr_entries r') = vec_items (dr_entries r) @ [node_entry (dr_data r) (dr_parent r) offset]"
      "vec_items (dr_pending r') = vec_items (dr_pending r) @ node_links (dr_data r) offset"
      "vec_ok GDOX_XDVDFS_MAX_ENTRIES (dr_entries r) \<longrightarrow> vec_ok GDOX_XDVDFS_MAX_ENTRIES (dr_entries r')"
      "vec_ok GDOX_XDVDFS_MAX_ENTRIES (dr_pending r) \<longrightarrow> vec_ok GDOX_XDVDFS_MAX_ENTRIES (dr_pending r')"
proof -
  have off: "offset mod 4 = 0" "offset + 14 \<le> dr_size r"
    using assms by (auto simp: process_directory_entry_def Let_def split: if_splits)
  show thesis
  proof (cases "slot_visited (dr_visited r) (offset div 4)")
    case True
    then show thesis using assms off by (intro seen) (auto simp: process_directory_entry_def Let_def split: if_splits)
  next
    case False
    have le32: "read_le_u32 (dr_data r) (dr_size r) (offset + 4) = Some (le_u32 (dr_data r) (offset + 4))"
      "read_le_u32 (dr_data r) (dr_size r) (offset + 8) = Some (le_u32 (dr_data r) (offset + 8))"
      using off by (simp_all add: read_le_u32_def)
    let ?n = "unat (dr_data r ! (offset + 13))"
    note code = trans[OF process_directory_entry_def[symmetric] assms, unfolded Let_def]
    have name: "0 < ?n" "offset + 14 + ?n \<le> dr_size r"
      using code False off le32 by (auto split: if_splits)
    have guards: "\<not> dr_size r - offset < 14" "\<not> dr_size r - (offset + 14) < ?n" "\<not> dr_size r - offset - 14 < ?n"
      using off name by auto
    define r1 where "r1 = r\<lparr>dr_visited := (dr_visited r)[offset div 4 := True]\<rparr>"
    define entry where "entry = node_entry (dr_data r) (dr_parent r) offset"
    have "(if \<not> mem (?n + 1) then fail ERROR_INTERNAL ''could not allocate directory name''
       else (case join_path mem (dr_parent r) (en_name entry) of
           None \<Rightarrow> fail ERROR_INTERNAL ''could not allocate directory path''
         | Some path \<Rightarrow>
             (case entry_vector_push mem (dr_entries r) (entry\<lparr>en_path := path\<rparr>) of
                Inl e \<Rightarrow> Inl e
              | Inr entries \<Rightarrow>
                  (case push_child mem (dr_pending r) (directory_u16 (dr_data r) offset) of
                     Inl e \<Rightarrow> Inl e
                   | Inr pending \<Rightarrow>
                       (case push_child mem pending (directory_u16 (dr_data r) (offset + 2)) of
                          Inl e \<Rightarrow> Inl e
                        | Inr pending \<Rightarrow> Inr (r1\<lparr>dr_entries := entries, dr_pending := pending\<rparr>)))))) = Inr r'"
      using code False off le32 name guards
      by (cases "mem (Suc ?n)")
        (simp_all add: display_name_def entry_def node_entry_def r1_def Let_def
          cong: option.case_cong sum.case_cong)
    then obtain path entries p1 p2 where
      path: "join_path mem (dr_parent r) (en_name entry) = Some path"
      and ents': "entry_vector_push mem (dr_entries r) (entry\<lparr>en_path := path\<rparr>) = Inr entries"
      and p1: "push_child mem (dr_pending r) (directory_u16 (dr_data r) offset) = Inr p1"
      and p2: "push_child mem p1 (directory_u16 (dr_data r) (offset + 2)) = Inr p2"
      and r': "r' = r1\<lparr>dr_entries := entries, dr_pending := p2\<rparr>"
      by (auto split: if_splits option.splits sum.splits)
    have "entry\<lparr>en_path := path\<rparr> = entry"
      using path by (auto simp: join_path_def entry_def node_entry_def Let_def split: if_splits)
    with ents' have ents: "entry_vector_push mem (dr_entries r) entry = Inr entries" by simp
    show thesis
    proof (rule fresh)
      show "node_fits (dr_data r) (dr_size r) offset" using off name by (simp add: node_fits_def)
      show "\<not> slot_visited (dr_visited r) (offset div 4)" by fact
      show "vec_items (dr_entries r') = vec_items (dr_entries r) @ [node_entry (dr_data r) (dr_parent r) offset]"
        using ents r' by (simp add: entry_vector_push_def vec_push_items entry_def)
      show "vec_items (dr_pending r') = vec_items (dr_pending r) @ node_links (dr_data r) offset"
        using p1 p2 r'
        by (simp add: node_links_def Let_def push_child_Inr(1)[OF p1] push_child_Inr(1)[OF p2])
      show "vec_ok GDOX_XDVDFS_MAX_ENTRIES (dr_entries r) \<longrightarrow> vec_ok GDOX_XDVDFS_MAX_ENTRIES (dr_entries r')"
        using vec_push_ok[OF _ _ ents[unfolded entry_vector_push_def]] r' by simp
      show "vec_ok GDOX_XDVDFS_MAX_ENTRIES (dr_pending r) \<longrightarrow> vec_ok GDOX_XDVDFS_MAX_ENTRIES (dr_pending r')"
        using r' push_child_Inr(2)[OF p1] push_child_Inr(2)[OF p2] by simp
    qed (simp_all add: r' r1_def)
  qed
qed

section \<open>The walk\<close>

definition vec_pop :: "'a vec \<Rightarrow> 'a vec" where
  "vec_pop v = v\<lparr>vec_items := butlast (vec_items v)\<rparr>"

lemma vec_pop_simps [simp]:
  "vec_items (vec_pop v) = butlast (vec_items v)" "vec_ok limit v \<Longrightarrow> vec_ok limit (vec_pop v)"
  by (auto simp: vec_pop_def vec_ok_def)

lemma unvisited_mark:
  "i < length xs \<Longrightarrow> \<not> xs ! i \<Longrightarrow> length (filter Not xs) = Suc (length (filter Not (xs[i := True])))"
proof (induction xs arbitrary: i)
  case (Cons x xs)
  then show ?case by (cases i) auto
qed simp

lemma node_links_length: "length (node_links data offset) \<le> 2"
  by (simp add: node_links_def Let_def)

function directory_walk :: "(nat \<Rightarrow> bool) \<Rightarrow> directory_reader \<Rightarrow> directory_reader res" where
  "directory_walk mem r =
     (if vec_items (dr_pending r) \<noteq> []
      then (case process_directory_entry mem (r\<lparr>dr_pending := vec_pop (dr_pending r)\<rparr>)
                   (last (vec_items (dr_pending r))) of
              Inl e \<Rightarrow> Inl e
            | Inr r' \<Rightarrow> directory_walk mem r')
      else Inr r)"
  by pat_completeness auto
termination
proof (relation "measure (\<lambda>(mem, r). 2 * length (filter Not (dr_visited r)) + length (vec_items (dr_pending r)))", goal_cases)
  case (2 mem r r')
  from 2(2) show ?case
  proof (cases rule: process_cases)
    case seen
    then show ?thesis using 2(1) by simp
  next
    case fresh
    then show ?thesis
      using 2(1) node_links_length[of "dr_data r" "last (vec_items (dr_pending r))"]
        unvisited_mark[of "last (vec_items (dr_pending r)) div 4" "dr_visited r"]
      by (simp add: slot_visited_def) (cases "vec_items (dr_pending r)"; simp)
  qed
qed simp

declare directory_walk.simps [simp del]

text \<open>
  The offsets linked from the root of the tree, as a graph: a directory may contain cycles and
  shared nodes.
\<close>

inductive_set linked :: "byte list \<Rightarrow> nat set" for data where
  root: "0 \<in> linked data"
| link: "offset \<in> linked data \<Longrightarrow> next_offset \<in> set (node_links data offset) \<Longrightarrow> next_offset \<in> linked data"

text \<open>
  Invariant of the walk after the offsets \<open>seen\<close>: the marked slots are theirs, each contributed its
  entry in that order, and everything marked or pending is linked, the links of marked nodes included.
\<close>

definition walk_inv :: "xdvdfs_entry list \<Rightarrow> nat list \<Rightarrow> directory_reader \<Rightarrow> bool" where
  "walk_inv before seen r \<longleftrightarrow>
     distinct seen \<and> dr_size r \<le> 4 * length (dr_visited r)
     \<and> list_all (node_fits (dr_data r) (dr_size r)) seen
     \<and> (\<forall>slot < length (dr_visited r). dr_visited r ! slot \<longleftrightarrow> 4 * slot \<in> set seen)
     \<and> vec_items (dr_entries r) = before @ map (node_entry (dr_data r) (dr_parent r)) seen
     \<and> set seen \<union> set (vec_items (dr_pending r)) \<subseteq> linked (dr_data r)
     \<and> 0 \<in> set seen \<union> set (vec_items (dr_pending r))
     \<and> (\<forall>offset \<in> set seen. set (node_links (dr_data r) offset) \<subseteq> set seen \<union> set (vec_items (dr_pending r)))"

lemma directory_slot_in_bounds:
  assumes "n \<le> 4 * length visited" and "offset mod 4 = 0" and "offset + 14 \<le> n"
  shows "offset div 4 < length visited"
  using assms by presburger

lemma process_walk_inv:
  assumes inv: "walk_inv before seen r" and p: "vec_items (dr_pending r) \<noteq> []"
    and step: "process_directory_entry mem (r\<lparr>dr_pending := vec_pop (dr_pending r)\<rparr>)
      (last (vec_items (dr_pending r))) = Inr r'"
  shows "\<exists>seen'. walk_inv before seen' r' \<and> dr_data r' = dr_data r \<and> dr_size r' = dr_size r \<and> dr_parent r' = dr_parent r"
proof -
  let ?o = "last (vec_items (dr_pending r))"
  have pend: "vec_items (dr_pending r) = butlast (vec_items (dr_pending r)) @ [?o]" using p by simp
  have o_linked: "?o \<in> linked (dr_data r)" using inv p by (auto simp: walk_inv_def)
  from step show ?thesis
  proof (cases rule: process_cases)
    case seen
    have "?o div 4 < length (dr_visited r)"
      using directory_slot_in_bounds[of "dr_size r" "dr_visited r" ?o] seen inv by (simp add: walk_inv_def)
    then have "4 * (?o div 4) \<in> set seen"
      using seen inv by (simp add: walk_inv_def slot_visited_def)
    moreover have "4 * (?o div 4) = ?o" using seen by presburger
    ultimately have "?o \<in> set seen" by simp
    then have "set seen \<union> set (vec_items (dr_pending r)) = set seen \<union> set (butlast (vec_items (dr_pending r)))"
      by (subst pend) auto
    then show ?thesis using inv seen by (intro exI[of _ seen]) (simp add: walk_inv_def)
  next
    case fresh
    then have slot: "?o div 4 < length (dr_visited r)" "\<not> dr_visited r ! (?o div 4)" "4 * (?o div 4) = ?o"
      by (auto simp: slot_visited_def node_fits_def)
    have new: "?o \<notin> set seen" using inv slot by (auto simp: walk_inv_def)
    have sub: "set (node_links (dr_data r) ?o) \<subseteq> linked (dr_data r)" using o_linked by (auto intro: linked.link)
    have all: "set (seen @ [?o]) \<union> set (vec_items (dr_pending r')) =
        set seen \<union> set (vec_items (dr_pending r)) \<union> set (node_links (dr_data r) ?o)"
      using fresh(8) by (subst pend) auto
    have "walk_inv before (seen @ [?o]) r'"
      unfolding walk_inv_def
    proof (intro conjI)
      show "distinct (seen @ [?o])" using inv new by (simp add: walk_inv_def)
      show "dr_size r' \<le> 4 * length (dr_visited r')" using inv fresh by (simp add: walk_inv_def)
      show "list_all (node_fits (dr_data r') (dr_size r')) (seen @ [?o])" using inv fresh by (simp add: walk_inv_def)
      show "\<forall>slot < length (dr_visited r'). dr_visited r' ! slot \<longleftrightarrow> 4 * slot \<in> set (seen @ [?o])"
        using inv fresh(6) slot by (auto simp: walk_inv_def nth_list_update)
      show "vec_items (dr_entries r') = before @ map (node_entry (dr_data r') (dr_parent r')) (seen @ [?o])"
        using inv fresh by (simp add: walk_inv_def)
      show "set (seen @ [?o]) \<union> set (vec_items (dr_pending r')) \<subseteq> linked (dr_data r')"
        unfolding all using inv sub fresh(3) by (simp add: walk_inv_def)
      show "0 \<in> set (seen @ [?o]) \<union> set (vec_items (dr_pending r'))"
        unfolding all using inv by (simp add: walk_inv_def)
      show "\<forall>offset \<in> set (seen @ [?o]). set (node_links (dr_data r') offset) \<subseteq>
          set (seen @ [?o]) \<union> set (vec_items (dr_pending r'))"
        unfolding all using inv fresh(3) by (auto simp: walk_inv_def)
    qed
    with fresh show ?thesis by auto
  qed
qed

lemma directory_walk_inv:
  assumes "directory_walk mem r = Inr r'" and "walk_inv before seen r"
  shows "\<exists>seen'. walk_inv before seen' r' \<and> vec_items (dr_pending r') = []
    \<and> dr_data r' = dr_data r \<and> dr_size r' = dr_size r \<and> dr_parent r' = dr_parent r"
  using assms
proof (induction mem r arbitrary: seen rule: directory_walk.induct)
  case (1 mem r)
  show ?case
  proof (cases "vec_items (dr_pending r) = []")
    case True
    then show ?thesis using "1.prems" by (auto simp: directory_walk.simps)
  next
    case False
    then obtain r1 where r1: "process_directory_entry mem (r\<lparr>dr_pending := vec_pop (dr_pending r)\<rparr>)
        (last (vec_items (dr_pending r))) = Inr r1" "directory_walk mem r1 = Inr r'"
      using trans[OF directory_walk.simps[symmetric] "1.prems"(1)] by (auto split: sum.splits)
    from process_walk_inv[OF "1.prems"(2) False r1(1)] "1.IH"[OF False r1(1,2)] show ?thesis by metis
  qed
qed

text \<open>A walk that has emptied its stack has visited exactly the linked offsets.\<close>

lemma walk_inv_complete:
  assumes "walk_inv before seen r" and "vec_items (dr_pending r) = []"
  shows "set seen = linked (dr_data r)"
proof
  show "set seen \<subseteq> linked (dr_data r)" using assms by (auto simp: walk_inv_def)
  show "linked (dr_data r) \<subseteq> set seen"
  proof
    fix offset assume "offset \<in> linked (dr_data r)"
    then show "offset \<in> set seen"
      by induction (use assms in \<open>auto simp: walk_inv_def\<close>)
  qed
qed

section \<open>Reading a directory\<close>

definition retain_directory ::
  "(nat \<Rightarrow> bool) \<Rightarrow> directory_cache option \<Rightarrow> u32 \<Rightarrow> u32 \<Rightarrow> byte list \<Rightarrow> unit res \<times> directory_cache option" where
  "retain_directory mem cache start_sector blocks data =
     (case cache of
        None \<Rightarrow> (Inr (), None)
      | Some dc \<Rightarrow>
          (case gdox_xdvdfs_directory_cache_retain mem dc start_sector blocks (Some data) of
             (r, dc', _) \<Rightarrow> (r, Some dc')))"

text \<open>
  The entries are appended to \<open>entries\<close>; the second and third results are the source and the cache
  afterwards.
\<close>

definition read_directory ::
  "(nat \<Rightarrow> bool) \<Rightarrow> 's source_ops \<Rightarrow> 's sector_source \<Rightarrow> xdvdfs_volume \<Rightarrow> directory_cache option
     \<Rightarrow> u32 \<Rightarrow> u32 \<Rightarrow> cstring \<Rightarrow> xdvdfs_entry vec
     \<Rightarrow> xdvdfs_entry vec res \<times> 's sector_source \<times> directory_cache option" where
  "read_directory mem ops source volume cache start_sector n parent entries =
     (let blocks = u32_cast (n + GDOX_LOGICAL_SECTOR_BYTES - 1) div GDOX_LOGICAL_SECTOR_BYTES;
          allocated = blocks * GDOX_LOGICAL_SECTOR_BYTES
      in if n = 0 \<or> n > GDOX_XDVDFS_MAX_DIRECTORY_BYTES
         then (fail ERROR_INVALID_VOLUME ''directory has an implausible size'', source, cache)
         else if \<not> mem allocated
         then (fail ERROR_INTERNAL ''could not allocate directory data'', source, cache)
         else (case gdox_source_read ops source (u64_add (base_lba volume) start_sector) blocks allocated of
                 (Inl e, source') \<Rightarrow> (Inl e, source', cache)
               | (Inr data, source') \<Rightarrow>
                   if directory_data_is_empty data n
                   then (case retain_directory mem cache start_sector blocks data of
                           (Inl e, cache') \<Rightarrow> (Inl e, source', cache')
                         | (Inr _, cache') \<Rightarrow> (Inr entries, source', cache'))
                   else (let visited_bytes = (n + 3) div 4
                         in if \<not> mem visited_bytes
                            then (fail ERROR_INTERNAL ''could not allocate directory index'', source', cache)
                            else (case offset_vector_push mem vec_empty 0 of
                                    Inl e \<Rightarrow> (Inl e, source', cache)
                                  | Inr pending \<Rightarrow>
                                      (case directory_walk mem
                                              \<lparr>dr_data = data, dr_size = n, dr_parent = parent,
                                               dr_visited = replicate visited_bytes False,
                                               dr_pending = pending, dr_entries = entries\<rparr> of
                                         Inl e \<Rightarrow> (Inl e, source', cache)
                                       | Inr r \<Rightarrow>
                                           (case retain_directory mem cache start_sector blocks data of
                                              (Inl e, cache') \<Rightarrow> (Inl e, source', cache')
                                            | (Inr _, cache') \<Rightarrow> (Inr (dr_entries r), source', cache')))))))"

text \<open>The entries a directory of \<open>n\<close> bytes lists: one for each linked offset, none if it is empty.\<close>

definition directory_listing :: "byte list \<Rightarrow> nat \<Rightarrow> cstring \<Rightarrow> xdvdfs_entry list \<Rightarrow> bool" where
  "directory_listing data n parent es \<longleftrightarrow>
     (\<exists>offsets. distinct offsets \<and> set offsets = (if directory_data_is_empty data n then {} else linked data)
        \<and> list_all (node_fits data n) offsets \<and> es = map (node_entry data parent) offsets)"

definition sectors_of :: "nat \<Rightarrow> nat" where
  "sectors_of n = (n + 2047) div GDOX_LOGICAL_SECTOR_BYTES"

text \<open>The bytes a directory or file of \<open>n\<close> bytes at \<open>start\<close> occupies in the volume that begins at \<open>base\<close>.\<close>

definition volume_span :: "(nat \<Rightarrow> byte) \<Rightarrow> u64 \<Rightarrow> nat \<Rightarrow> nat \<Rightarrow> byte list" where
  "volume_span f base start n =
     span f ((base + start) * GDOX_LOGICAL_SECTOR_BYTES) (sectors_of n * GDOX_LOGICAL_SECTOR_BYTES)"

definition cache_collects :: "(nat \<Rightarrow> byte) \<Rightarrow> u64 \<Rightarrow> directory_cache option \<Rightarrow> bool" where
  "cache_collects f base cache \<longleftrightarrow>
     (case cache of None \<Rightarrow> True
      | Some dc \<Rightarrow> directory_cache_ok dc \<and> \<not> dc_finalized dc
          \<and> directory_cache_holds (\<lambda>a. f (base * GDOX_LOGICAL_SECTOR_BYTES + a)) dc)"

lemma walk_listing:
  assumes "directory_walk mem \<lparr>dr_data = data, dr_size = n, dr_parent = parent,
       dr_visited = replicate ((n + 3) div 4) False, dr_pending = pending, dr_entries = entries\<rparr> = Inr r"
    and "offset_vector_push mem vec_empty 0 = Inr pending" and "\<not> directory_data_is_empty data n"
  shows "\<exists>es. vec_items (dr_entries r) = vec_items entries @ es \<and> directory_listing data n parent es"
proof -
  let ?r0 = "\<lparr>dr_data = data, dr_size = n, dr_parent = parent,
       dr_visited = replicate ((n + 3) div 4) False, dr_pending = pending, dr_entries = entries\<rparr>"
  have "vec_items pending = [0]"
    using assms(2) vec_push_late_items by (fastforce simp: offset_vector_push_def)
  then have "walk_inv (vec_items entries) [] ?r0"
    by (auto simp: walk_inv_def intro: linked.root)
  then obtain seen where inv: "walk_inv (vec_items entries) seen r" and "vec_items (dr_pending r) = []"
      and "dr_data r = data" "dr_size r = n" "dr_parent r = parent"
    using directory_walk_inv[OF assms(1)] by fastforce
  moreover from this have "set seen = linked data" using walk_inv_complete by metis
  ultimately show ?thesis using assms(3) by (auto simp: walk_inv_def directory_listing_def)
qed

lemma retain_directory_collects:
  assumes "retain_directory mem cache start blocks data = (r, cache')" and "cache_collects f base cache"
    and "data = span f ((base + start) * GDOX_LOGICAL_SECTOR_BYTES) (blocks * GDOX_LOGICAL_SECTOR_BYTES)"
  shows "cache_collects f base cache' \<and> (cache' = None \<longleftrightarrow> cache = None)"
proof (cases cache)
  case None
  then show ?thesis using assms(1) by (auto simp: retain_directory_def cache_collects_def)
next
  case (Some dc)
  obtain dc' b where rt: "gdox_xdvdfs_directory_cache_retain mem dc start blocks (Some data) = (r, dc', b)"
    and c': "cache' = Some dc'"
    using assms(1) Some by (auto simp: retain_directory_def split: prod.splits)
  have dc: "directory_cache_ok dc" "\<not> dc_finalized dc"
      "directory_cache_holds (\<lambda>a. f (base * GDOX_LOGICAL_SECTOR_BYTES + a)) dc"
    using assms(2) Some by (simp_all add: cache_collects_def)
  have d: "data = span (\<lambda>a. f (base * GDOX_LOGICAL_SECTOR_BYTES + a)) (start * GDOX_LOGICAL_SECTOR_BYTES)
      (blocks * GDOX_LOGICAL_SECTOR_BYTES)"
    using assms(3) by (simp add: span_shift add_mult_distrib)
  show ?thesis
  proof (cases r)
    case (Inl e)
    then have "dc' = dc" using rt by (auto simp: gdox_xdvdfs_directory_cache_retain_def Let_def split: if_splits)
    then show ?thesis using assms(2) Some c' by (simp add: cache_collects_def)
  next
    case (Inr u)
    then have rt': "gdox_xdvdfs_directory_cache_retain mem dc start blocks (Some data) = (Inr (), dc', b)"
      using rt by simp
    have "length data = blocks * GDOX_LOGICAL_SECTOR_BYTES" using assms(3) by simp
    then show ?thesis
      using retain_ok[OF rt' dc(1)] retain_holds[OF rt' dc(1,3) d] dc Some c' by (simp add: cache_collects_def)
  qed
qed

context sector_source
begin

lemma read_directory_spec:
  assumes "valid s" and "base_lba volume + start < two64"
    and "read_directory mem ops (Some s) volume cache start n parent entries = (r, h, cache')"
    and "cache_collects (contents s) (base_lba volume) cache"
  shows "(\<exists>s'. h = Some s' \<and> view_kept ops valid contents s s')
    \<and> cache_collects (contents s) (base_lba volume) cache' \<and> (cache' = None \<longleftrightarrow> cache = None)
    \<and> (\<forall>entries'. r = Inr entries' \<longrightarrow>
         (\<exists>es. vec_items entries' = vec_items entries @ es
           \<and> directory_listing (volume_span (contents s) (base_lba volume) start n) n parent es
           \<and> 0 < n \<and> base_lba volume + start + sectors_of n \<le> op_sector_count ops s))"
proof (cases "n = 0 \<or> n > GDOX_XDVDFS_MAX_DIRECTORY_BYTES \<or> \<not> mem (sectors_of n * GDOX_LOGICAL_SECTOR_BYTES)")
  case True
  have "\<not> n > GDOX_XDVDFS_MAX_DIRECTORY_BYTES \<Longrightarrow>
      u32_cast (n + GDOX_LOGICAL_SECTOR_BYTES - 1) div GDOX_LOGICAL_SECTOR_BYTES = sectors_of n"
    by (simp add: sectors_of_def GDOX_XDVDFS_MAX_DIRECTORY_BYTES_def)
  then show ?thesis
    using assms True view_kept_refl[where valid = valid and s = s]
    by (auto simp: read_directory_def Let_def split: if_splits)
next
  case False
  have blocks: "u32_cast (n + GDOX_LOGICAL_SECTOR_BYTES - 1) div GDOX_LOGICAL_SECTOR_BYTES = sectors_of n"
    using False by (auto simp: sectors_of_def GDOX_XDVDFS_MAX_DIRECTORY_BYTES_def)
  have add: "u64_add (base_lba volume) start = base_lba volume + start" using assms(2) by simp
  obtain q h' where rd: "gdox_source_read ops (Some s) (base_lba volume + start) (sectors_of n)
      (sectors_of n * GDOX_LOGICAL_SECTOR_BYTES) = (q, h')" by fastforce
  obtain s' where h': "h' = Some s'" "view_kept ops valid contents s s'"
    and all: "\<forall>data. q = Inr data \<longrightarrow> data = volume_span (contents s) (base_lba volume) start n
        \<and> base_lba volume + start + sectors_of n \<le> op_sector_count ops s"
    using source_read_view[OF assms(1) rd] by (auto simp: volume_span_def)
  note code = trans[OF read_directory_def[symmetric] assms(3), unfolded Let_def blocks add]
  show ?thesis
  proof (cases q)
    case (Inl e)
    then show ?thesis using code False rd h' assms(4) by auto
  next
    case (Inr data)
    let ?f = "contents s" and ?b = "base_lba volume"
    have d: "data = span ?f ((?b + start) * GDOX_LOGICAL_SECTOR_BYTES) (sectors_of n * GDOX_LOGICAL_SECTOR_BYTES)"
      and dv: "data = volume_span ?f ?b start n" and fit: "?b + start + sectors_of n \<le> op_sector_count ops s"
      using all Inr by (auto simp: volume_span_def)
    obtain rr rc where rt: "retain_directory mem cache start (sectors_of n) data = (rr, rc)" by fastforce
    note rc = retain_directory_collects[OF rt assms(4) d]
    show ?thesis
    proof (cases "directory_data_is_empty data n")
      case True
      have "directory_listing data n parent []" using True by (simp add: directory_listing_def)
      then show ?thesis
        using code False rd Inr h' True rt rc fit dv by (auto split: sum.splits)
    next
      case ne: False
      show ?thesis
      proof (cases "h = h' \<and> cache' = cache \<and> (\<exists>e. r = Inl e)")
        case True
        then show ?thesis using h' assms(4) by auto
      next
        case nf: False
        then obtain pending rdr where
          pend: "offset_vector_push mem vec_empty 0 = Inr pending" and
          walk: "directory_walk mem \<lparr>dr_data = data, dr_size = n, dr_parent = parent,
             dr_visited = replicate ((n + 3) div 4) False, dr_pending = pending, dr_entries = entries\<rparr> = Inr rdr"
          and out: "h = h'" "cache' = rc" "r = (case rr of Inl e \<Rightarrow> Inl e | Inr _ \<Rightarrow> Inr (dr_entries rdr))"
          using code False rd Inr ne rt by (auto split: if_splits sum.splits)
        from walk_listing[OF walk pend ne] show ?thesis
          using out rc h' fit dv False by (auto split: sum.splits)
      qed
    qed
  qed
qed

end

context reliable_source
begin

text \<open>With memory available, a walk that succeeds on the data makes the whole read succeed.\<close>

lemma read_directory_ready:
  assumes "valid s" and "ready s" and "0 < n" and "n \<le> GDOX_XDVDFS_MAX_DIRECTORY_BYTES"
    and "base_lba volume + start + sectors_of n \<le> op_sector_count ops s"
    and "\<not> directory_data_is_empty (volume_span (contents s) (base_lba volume) start n) n"
    and "directory_walk (\<lambda>_. True) \<lparr>dr_data = volume_span (contents s) (base_lba volume) start n, dr_size = n,
          dr_parent = parent, dr_visited = replicate ((n + 3) div 4) False,
          dr_pending = \<lparr>vec_items = [0], vec_capacity = 16\<rparr>, dr_entries = entries\<rparr> = Inr r"
    and "retain_directory (\<lambda>_. True) cache start (sectors_of n) (volume_span (contents s) (base_lba volume) start n) =
          (Inr (), cache')"
  shows "\<exists>s'. read_directory (\<lambda>_. True) ops (Some s) volume cache start n parent entries = (Inr (dr_entries r), Some s', cache')
    \<and> view_kept ops valid contents s s' \<and> ready s'"
proof -
  have blocks: "u32_cast (n + GDOX_LOGICAL_SECTOR_BYTES - 1) div GDOX_LOGICAL_SECTOR_BYTES = sectors_of n"
    using assms(4) by (auto simp: sectors_of_def GDOX_XDVDFS_MAX_DIRECTORY_BYTES_def)
  have lt: "base_lba volume + start < two64"
    using assms(5) count_less[OF assms(1)] by simp
  have pos: "0 < sectors_of n" and small: "sectors_of n \<le> 32768"
    using assms(3,4) unfolding sectors_of_def GDOX_XDVDFS_MAX_DIRECTORY_BYTES_def by auto
  obtain s' where rd: "gdox_source_read ops (Some s) (base_lba volume + start) (sectors_of n)
      (sectors_of n * GDOX_LOGICAL_SECTOR_BYTES) = (Inr (volume_span (contents s) (base_lba volume) start n), Some s')"
      and s': "view_kept ops valid contents s s'" "ready s'"
    using source_read_ready[OF assms(1,2), of "sectors_of n" "base_lba volume + start"] pos small assms(5)
    by (auto simp: volume_span_def)
  have push: "offset_vector_push (\<lambda>_. True) vec_empty 0 = Inr \<lparr>vec_items = [0], vec_capacity = 16\<rparr>"
    by (simp add: offset_vector_push_def vec_push_late_def vec_empty_def GDOX_XDVDFS_MAX_ENTRIES_def grown_capacity_def Let_def)
  have add: "u64_add (base_lba volume) start = base_lba volume + start" using lt by simp
  show ?thesis
    using assms(3,4,6,7) rd s' unfolding read_directory_def Let_def blocks add
    by (intro exI[of _ s']) (simp add: push assms(8))
qed

end

section \<open>Properties\<close>

text \<open>
  C21: Reading a directory that succeeds appends the decoded entry of every offset linked from the root
  of its tree, each exactly once, with cycles and shared nodes in the links tolerated; every decoded
  node and its name lie inside the directory, and an empty directory appends nothing.
\<close>
theorem read_directory_lists_linked:
  assumes "sector_source ops valid contents" and "valid s" and "base_lba volume + start < two64"
    and "read_directory mem ops (Some s) volume None start n parent entries = (Inr entries', h, cache')"
  shows "\<exists>offsets. let data = volume_span (contents s) (base_lba volume) start n in
    distinct offsets \<and> set offsets = (if directory_data_is_empty data n then {} else linked data)
    \<and> list_all (node_fits data n) offsets
    \<and> vec_items entries' = vec_items entries @ map (node_entry data parent) offsets"
proof -
  have "cache_collects (contents s) (base_lba volume) None" by (simp add: cache_collects_def)
  from sector_source.read_directory_spec[OF assms this] show ?thesis
    by (auto simp: directory_listing_def Let_def)
qed

text \<open>The root directory of the sample disc.\<close>

definition sample_entry :: xdvdfs_entry where
  "sample_entry = \<lparr>en_name = ascii ''default.xbe'', en_path = ascii ''/default.xbe'', en_start_sector = 34,
     en_size = 2048, en_attributes = 0\<rparr>"

lemma sample_directory_nth:
  "sample_directory ! 0 = 0" "sample_directory ! 13 = 11" "sample_directory ! 12 = 0"
  "take 11 (drop 14 sample_directory) = ascii ''default.xbe''"
  "le_u16 sample_directory 0 = 0" "le_u16 sample_directory 2 = 0" "le_u16 sample_directory (Suc (Suc 0)) = 0"
  "le_u32 sample_directory 4 = 34" "le_u32 sample_directory 8 = 2048"
  by (simp_all add: sample_directory_def le_u16_def le_u32_def join16_def join32_def ascii_def)

lemma sample_directory_entry: "node_entry sample_directory [] 0 = sample_entry"
  by (simp add: node_entry_def sample_directory_nth sample_entry_def ascii_def display_char_def Let_def)

lemma sample_directory_walk:
  "directory_walk (\<lambda>_. True) \<lparr>dr_data = sample_directory, dr_size = 25, dr_parent = [],
      dr_visited = replicate 7 False, dr_pending = \<lparr>vec_items = [0], vec_capacity = 16\<rparr>, dr_entries = vec_empty\<rparr> =
   Inr \<lparr>dr_data = sample_directory, dr_size = 25, dr_parent = [],
      dr_visited = [True, False, False, False, False, False, False],
      dr_pending = \<lparr>vec_items = [], vec_capacity = 16\<rparr>,
      dr_entries = \<lparr>vec_items = [sample_entry], vec_capacity = 16\<rparr>\<rparr>"
proof -
  have seven: "replicate 7 False = [False, False, False, False, False, False, False]" by (simp add: numeral_eq_Suc)
  have "process_directory_entry (\<lambda>_. True) \<lparr>dr_data = sample_directory, dr_size = 25, dr_parent = [],
      dr_visited = replicate 7 False, dr_pending = \<lparr>vec_items = [], vec_capacity = 16\<rparr>, dr_entries = vec_empty\<rparr> 0 =
    Inr \<lparr>dr_data = sample_directory, dr_size = 25, dr_parent = [],
      dr_visited = [True, False, False, False, False, False, False],
      dr_pending = \<lparr>vec_items = [], vec_capacity = 16\<rparr>,
      dr_entries = \<lparr>vec_items = [sample_entry], vec_capacity = 16\<rparr>\<rparr>"
    unfolding seven
    by (simp add: process_directory_entry_def sample_directory_nth read_le_u32_def directory_u16_def slot_visited_def
        display_name_def join_path_def entry_vector_push_def vec_push_def vec_empty_def push_child_def Let_def
        GDOX_XDVDFS_MAX_ENTRIES_def sample_entry_def ascii_def display_char_def grown_capacity_def)
  then show ?thesis
    by (simp add: directory_walk.simps vec_pop_def)
qed

lemma sample_directory_span: "volume_span (file_contents sample_disc) 0 33 25 = sample_directory"
  by (simp add: volume_span_def sectors_of_def sample_disc_spans)

lemma sample_directory_occupied: "\<not> directory_data_is_empty sample_directory 25"
  by (auto simp: directory_data_is_empty_def sample_directory_nth list_all_iff intro!: bexI[of _ 0])

text \<open>The sample disc after any number of reads.\<close>

definition sample_state :: "file_context \<Rightarrow> bool" where
  "sample_state s \<longleftrightarrow> view_kept file_ops file_valid file_contents sample_disc s \<and> file_ready s"

lemma sample_state_start: "sample_state sample_disc"
  by (simp add: sample_state_def view_kept_refl)

lemma sample_stateD:
  "sample_state s \<Longrightarrow> file_valid s" "sample_state s \<Longrightarrow> file_ready s" "sample_state s \<Longrightarrow> file_sector_count s = 64"
  "sample_state s \<Longrightarrow> file_contents s = file_contents sample_disc"
  by (simp_all add: sample_state_def view_kept_def)

lemma sample_state_kept: "sample_state s \<Longrightarrow> view_kept file_ops file_valid file_contents s s' \<Longrightarrow> file_ready s' \<Longrightarrow> sample_state s'"
  by (simp add: sample_state_def view_kept_def)

lemma sample_directory_read:
  assumes "retain_directory (\<lambda>_. True) cache 33 1 sample_directory = (Inr (), cache')" and "sample_state s"
  shows "\<exists>s'. read_directory (\<lambda>_. True) file_ops (Some s) sample_volume cache 33 25 [] vec_empty =
     (Inr \<lparr>vec_items = [sample_entry], vec_capacity = 16\<rparr>, Some s', cache')
   \<and> sample_state s'"
  using file_source.read_directory_ready[of s 25 sample_volume 33 "[]" vec_empty _ cache cache'] assms(1)
    sample_stateD[OF assms(2)] sample_state_kept[OF assms(2)]
    sample_directory_walk sample_directory_span sample_directory_occupied
  by (auto simp: sample_volume_def GDOX_XDVDFS_MAX_DIRECTORY_BYTES_def sectors_of_def)

theorem read_directory_lists_linked_witness:
  "\<exists>offsets. distinct offsets \<and> set offsets = linked sample_directory
     \<and> map (node_entry sample_directory []) offsets = [sample_entry]"
proof -
  obtain s' where "read_directory (\<lambda>_. True) file_ops (Some sample_disc) sample_volume None 33 25 [] vec_empty =
     (Inr \<lparr>vec_items = [sample_entry], vec_capacity = 16\<rparr>, Some s', None)"
    using sample_directory_read[of None None, OF _ sample_state_start] by (auto simp: retain_directory_def)
  from read_directory_lists_linked[OF file_source.sector_source_axioms _ _ this]
  show ?thesis
    using sample_directory_occupied
    by (auto simp: sample_volume_def sample_directory_span vec_empty_def Let_def dest: sym)
qed

end
