(* ===== verification/XdvdfsTitle.thy ===== *)
theory XdvdfsTitle
  imports XdvdfsDirectory
begin

text \<open>
  The title of an XBE certificate, src/src/core/xdvdfs.c: 40 UTF-16 units decoded to UTF-8 into a
  buffer of 161 bytes, trimmed, and the certificate lookup that finds them. The specification decodes
  UTF-16 with U+FFFD for every unpaired surrogate and encodes UTF-8 arithmetically.
\<close>

unbundle bit_operations_syntax

section \<open>The code\<close>

text \<open>
  \<open>output\<close> is the part of the buffer before \<open>*length\<close>; the terminating NUL after it is
  \<open>output[*length]\<close>, so a success needs one byte more than the encoding.
\<close>

definition append_utf8 :: "nat \<Rightarrow> byte list \<Rightarrow> nat \<Rightarrow> byte list option" where
  "append_utf8 capacity output codepoint =
     (let needed = (if codepoint \<le> 0x7f then 1 else if codepoint \<le> 0x7ff then 2
                    else if codepoint \<le> 0xffff then 3 else 4)
      in if length output > capacity \<or> capacity - length output \<le> needed then None
         else if needed = 1 then Some (output @ [word_of_nat codepoint])
         else if needed = (2 :: nat)
         then Some (output @ [word_of_nat (0xc0 OR drop_bit 6 codepoint),
                              word_of_nat (0x80 OR (codepoint AND 0x3f))])
         else if needed = 3
         then Some (output @ [word_of_nat (0xe0 OR drop_bit 12 codepoint),
                              word_of_nat (0x80 OR (drop_bit 6 codepoint AND 0x3f)),
                              word_of_nat (0x80 OR (codepoint AND 0x3f))])
         else Some (output @ [word_of_nat (0xf0 OR drop_bit 18 codepoint),
                              word_of_nat (0x80 OR (drop_bit 12 codepoint AND 0x3f)),
                              word_of_nat (0x80 OR (drop_bit 6 codepoint AND 0x3f)),
                              word_of_nat (0x80 OR (codepoint AND 0x3f))]))"

definition is_high :: "nat \<Rightarrow> bool" where
  "is_high u \<longleftrightarrow> 0xd800 \<le> u \<and> u \<le> 0xdbff"

definition is_low :: "nat \<Rightarrow> bool" where
  "is_low u \<longleftrightarrow> 0xdc00 \<le> u \<and> u \<le> 0xdfff"

definition title_unit :: "byte list \<Rightarrow> nat \<Rightarrow> nat" where
  "title_unit title_bytes unit = le_u16 title_bytes (unit * 2)"

definition surrogate_pair :: "nat \<Rightarrow> nat \<Rightarrow> nat" where
  "surrogate_pair high low = 0x10000 + push_bit 10 (high - 0xd800) + (low - 0xdc00)"

text \<open>
  The body of the decoding loop for a unit that is not 0: the code point and the unit the loop
  continues with (\<open>unit\<close> is the value before the \<open>++unit\<close>).
\<close>

definition next_codepoint :: "byte list \<Rightarrow> nat \<Rightarrow> nat \<times> nat" where
  "next_codepoint title_bytes unit =
     (let codepoint = title_unit title_bytes unit; unit = unit + 1
      in if is_high codepoint \<and> unit < 40
         then (let low = title_unit title_bytes unit
               in if is_low low then (surrogate_pair codepoint low, unit + 1) else (0xfffd, unit))
         else if is_low codepoint then (0xfffd, unit)
         else (codepoint, unit))"

lemma next_codepoint_unit: "(c, unit') = next_codepoint bs unit \<Longrightarrow> unit < unit'"
  by (auto simp: next_codepoint_def Let_def split: if_splits)

text \<open>The decoding loop from \<open>unit\<close> on; \<open>None\<close> is a failing \<open>append_utf8\<close>.\<close>

function decode_units :: "byte list \<Rightarrow> nat \<Rightarrow> byte list \<Rightarrow> byte list option" where
  "decode_units title_bytes unit title =
     (if unit < 40
      then (if title_unit title_bytes unit = 0 then Some title
            else (case next_codepoint title_bytes unit of
                    (codepoint, unit') \<Rightarrow>
                      (case append_utf8 161 title codepoint of
                         None \<Rightarrow> None
                       | Some title' \<Rightarrow> decode_units title_bytes unit' title')))
      else Some title)"
  by pat_completeness auto
termination
  by (relation "measure (\<lambda>(title_bytes, unit, title). 40 - unit)") (auto dest!: next_codepoint_unit)

declare decode_units.simps [simp del]

text \<open>\<open>isspace\<close> of the C locale on a byte below 0x80.\<close>

definition is_space :: "byte \<Rightarrow> bool" where
  "is_space b \<longleftrightarrow> b < 0x80 \<and> (b = 0x20 \<or> (0x09 \<le> b \<and> b \<le> 0x0d))"

text \<open>The two trimming loops and the \<open>memmove\<close>.\<close>

definition trim_title :: "byte list \<Rightarrow> byte list" where
  "trim_title title = rev (dropWhile is_space (rev (dropWhile is_space title)))"

definition decode_title :: "(nat \<Rightarrow> bool) \<Rightarrow> byte list \<Rightarrow> cstring option" where
  "decode_title mem title_bytes =
     (if \<not> mem 161 then None
      else (case decode_units title_bytes 0 [] of
              None \<Rightarrow> None
            | Some title \<Rightarrow>
                (let trimmed = trim_title title in if trimmed = [] then None else Some trimmed)))"

section \<open>The specification\<close>

text \<open>\<open>tail\<close> is what an unpaired high surrogate in the very last unit becomes.\<close>

fun utf16_decode :: "(nat \<Rightarrow> nat) \<Rightarrow> nat list \<Rightarrow> nat list" where
  "utf16_decode tail [] = []"
| "utf16_decode tail (u # us) =
     (if u = 0 then []
      else if is_high u
      then (case us of
              low # rest \<Rightarrow> if is_low low then surrogate_pair u low # utf16_decode tail rest
                            else 0xfffd # utf16_decode tail us
            | [] \<Rightarrow> [tail u])
      else if is_low u then 0xfffd # utf16_decode tail us
      else u # utf16_decode tail us)"

definition code_tail :: "nat \<Rightarrow> nat" where
  "code_tail u = u"

definition replacement_tail :: "nat \<Rightarrow> nat" where
  "replacement_tail u = 0xfffd"

definition utf8_encode :: "nat \<Rightarrow> byte list" where
  "utf8_encode c =
     map word_of_nat
       (if c < 0x80 then [c]
        else if c < 0x800 then [0xc0 + c div 64, 0x80 + c mod 64]
        else if c < 0x10000 then [0xe0 + c div 4096, 0x80 + c div 64 mod 64, 0x80 + c mod 64]
        else [0xf0 + c div 262144, 0x80 + c div 4096 mod 64, 0x80 + c div 64 mod 64, 0x80 + c mod 64])"

definition title_units :: "byte list \<Rightarrow> nat \<Rightarrow> nat list" where
  "title_units title_bytes unit = map (title_unit title_bytes) [unit..<40]"

section \<open>The code meets the specification\<close>

lemma or_shifted:
  "x < 64 \<Longrightarrow> 0xc0 OR x = 0xc0 + (x :: nat)" "x < 64 \<Longrightarrow> 0x80 OR x = 0x80 + (x :: nat)"
  "x < 32 \<Longrightarrow> 0xe0 OR x = 0xe0 + (x :: nat)" "x < 16 \<Longrightarrow> 0xf0 OR x = 0xf0 + (x :: nat)"
  using nat_or_disjoint[of x 6 "0xc0"] nat_or_disjoint[of x 6 "0x80"]
    nat_or_disjoint[of x 5 "0xe0"] nat_or_disjoint[of x 4 "0xf0"] by simp_all

lemma utf8_length: "length (utf8_encode c) \<le> 4" "c < 0x10000 \<Longrightarrow> length (utf8_encode c) \<le> 3"
  by (simp_all add: utf8_encode_def)

lemma append_utf8_encode:
  assumes "length output + length (utf8_encode c) < capacity" and "c < 0x200000"
  shows "append_utf8 capacity output c = Some (output @ utf8_encode c)"
proof -
  have d: "drop_bit 6 c = c div 64" "drop_bit 12 c = c div 4096" "drop_bit 18 c = c div 262144"
    by (simp_all add: drop_bit_eq_div)
  have b: "c div 262144 < 16" using assms(2) by linarith
  show ?thesis
  proof (cases "c < 0x80")
    case True
    then show ?thesis using assms(1) by (simp add: append_utf8_def utf8_encode_def)
  next
    case ge7: False
    show ?thesis
    proof (cases "c < 0x800")
      case True
      then have "c div 64 < 64" by linarith
      then show ?thesis using True ge7 assms(1)
        by (simp add: append_utf8_def utf8_encode_def d nat_and_mask or_shifted)
    next
      case ge11: False
      show ?thesis
      proof (cases "c < 0x10000")
        case True
        then have "c div 4096 < 32" by linarith
        then show ?thesis using True ge7 ge11 assms(1)
          by (simp add: append_utf8_def utf8_encode_def d nat_and_mask or_shifted)
      next
        case False
        then show ?thesis using ge7 ge11 b assms(1)
          by (simp add: append_utf8_def utf8_encode_def d nat_and_mask or_shifted)
      qed
    qed
  qed
qed

lemma title_unit_less: "title_unit bs u < 65536"
  by (simp add: title_unit_def reads_less)

lemma surrogate_pair_less: "is_high h \<Longrightarrow> is_low l \<Longrightarrow> surrogate_pair h l < 0x110000"
  by (auto simp: surrogate_pair_def is_high_def is_low_def push_bit_eq_mult)

lemma title_units_Cons: "u < 40 \<Longrightarrow> title_units bs u = title_unit bs u # title_units bs (u + 1)"
  by (simp add: title_units_def upt_conv_Cons)

lemma title_units_40 [simp]: "title_units bs 40 = []"
  by (simp add: title_units_def)

text \<open>One step of the loop follows the decoder, and writes at most three bytes a unit.\<close>

lemma next_codepoint_spec:
  assumes "unit < 40" and "title_unit bs unit \<noteq> 0" and "next_codepoint bs unit = (cp, unit')"
  shows "utf16_decode code_tail (title_units bs unit) = cp # utf16_decode code_tail (title_units bs unit')
    \<and> unit < unit' \<and> unit' \<le> 40 \<and> length (utf8_encode cp) \<le> 3 * (unit' - unit) \<and> cp < 0x200000"
proof -
  let ?c = "title_unit bs unit"
  have us: "title_units bs unit = ?c # title_units bs (Suc unit)" using assms(1) title_units_Cons by simp
  consider (pair) "is_high ?c" "Suc unit < 40" "is_low (title_unit bs (Suc unit))"
    | (lone) "is_high ?c" "Suc unit < 40" "\<not> is_low (title_unit bs (Suc unit))"
    | (tail) "is_high ?c" "Suc unit = 40" | (low) "is_low ?c" "\<not> is_high ?c" | (bmp) "\<not> is_low ?c" "\<not> is_high ?c"
    using assms(1) by linarith
  then show ?thesis
  proof cases
    case pair
    then have "cp = surrogate_pair ?c (title_unit bs (Suc unit))" "unit' = Suc (Suc unit)"
      using assms(3) by (auto simp: next_codepoint_def Let_def)
    then show ?thesis
      using pair assms(2) utf8_length(1)[of cp] surrogate_pair_less[OF pair(1,3)]
      by (simp add: us title_units_Cons)
  next
    case lone
    then have "cp = 0xfffd" "unit' = Suc unit" using assms(3) by (auto simp: next_codepoint_def Let_def)
    then show ?thesis
      using lone assms(2) utf8_length(2)[of cp] by (simp add: us title_units_Cons)
  next
    case tail
    then have "cp = ?c" "unit' = 40" using assms(3) by (auto simp: next_codepoint_def Let_def is_high_def is_low_def)
    then show ?thesis
      using tail assms(2) utf8_length(2)[of cp] title_unit_less[of bs unit] us by (simp add: code_tail_def)
  next
    case low
    then have "cp = 0xfffd" "unit' = Suc unit" using assms(3) by (auto simp: next_codepoint_def Let_def)
    then show ?thesis using low assms(1,2) utf8_length(2)[of cp] by (simp add: us)
  next
    case bmp
    then have "cp = ?c" "unit' = Suc unit" using assms(3) by (auto simp: next_codepoint_def Let_def)
    then show ?thesis using bmp assms(1,2) utf8_length(2)[of cp] title_unit_less[of bs unit] by (simp add: us)
  qed
qed

lemma decode_units_spec:
  assumes "unit \<le> 40" and "length title \<le> 3 * unit"
  shows "decode_units bs unit title =
      Some (title @ concat (map utf8_encode (utf16_decode code_tail (title_units bs unit))))
    \<and> length title + length (concat (map utf8_encode (utf16_decode code_tail (title_units bs unit)))) \<le> 120"
  using assms
proof (induction bs unit title rule: decode_units.induct)
  case (1 bs unit title)
  show ?case
  proof (cases "unit < 40 \<and> title_unit bs unit \<noteq> 0")
    case False
    then show ?thesis using "1.prems"
      by (subst decode_units.simps) (cases "unit < 40"; auto simp: title_units_Cons)
  next
    case True
    then have t: "unit < 40" "title_unit bs unit \<noteq> 0" by auto
    obtain cp u' where nc: "next_codepoint bs unit = (cp, u')" by fastforce
    note st = next_codepoint_spec[OF t nc]
    have len: "length (title @ utf8_encode cp) \<le> 3 * u'" and u': "u' \<le> 40" "cp < 0x200000"
      and dec: "utf16_decode code_tail (title_units bs unit) = cp # utf16_decode code_tail (title_units bs u')"
      using st "1.prems" by auto
    have app: "append_utf8 161 title cp = Some (title @ utf8_encode cp)"
      using len u' by (intro append_utf8_encode) simp_all
    have step: "decode_units bs unit title = decode_units bs u' (title @ utf8_encode cp)"
      using t nc app by (subst decode_units.simps) simp
    from "1.IH"[OF t nc[symmetric] app u'(1) len] show ?thesis
      unfolding step dec by simp
  qed
qed

lemma utf16_decode_tail:
  "us = [] \<or> \<not> is_high (last us) \<Longrightarrow> utf16_decode tail us = utf16_decode tail' us"
proof (induction us rule: length_induct)
  case (1 us)
  show ?case
  proof (cases us)
    case (Cons u vs)
    note IH = "1.IH"[rule_format]
    have vs: "utf16_decode tail vs = utf16_decode tail' vs" if "vs \<noteq> []"
      using IH[of vs] "1.prems" Cons that by auto
    show ?thesis
    proof (cases vs)
      case Nil
      then show ?thesis using Cons "1.prems" by simp
    next
      case (Cons w ws)
      have "utf16_decode tail ws = utf16_decode tail' ws"
        using IH[of ws] "1.prems" \<open>us = u # vs\<close> Cons by (cases ws) auto
      then show ?thesis using \<open>us = u # vs\<close> Cons vs by simp
    qed
  qed simp
qed

lemma decode_title_spec:
  "decode_title mem bs =
     (if \<not> mem 161 then None
      else (let t = trim_title (concat (map utf8_encode (utf16_decode code_tail (title_units bs 0))))
            in if t = [] then None else Some t))"
  using decode_units_spec[of 0 "[]" bs] by (simp add: decode_title_def Let_def)

lemma title_units_cong:
  "(\<And>i. i < 80 \<Longrightarrow> a ! i = b ! i) \<Longrightarrow> title_units a 0 = title_units b 0"
  unfolding title_units_def map_eq_conv set_upt title_unit_def le_u16_def by simp

lemma decode_title_cong:
  assumes "\<And>i. i < 80 \<Longrightarrow> a ! i = b ! i"
  shows "decode_title mem a = decode_title mem b"
  using title_units_cong[of a b] assms by (simp only: decode_title_spec)

section \<open>The certificate of an executable\<close>

definition xbe_header_magic :: "byte list" where
  "xbe_header_magic = ascii ''XBEH''"

lemma length_xbe_header_magic [simp]: "length xbe_header_magic = 4"
  by (simp add: xbe_header_magic_def ascii_def)

text \<open>
  On success the title and the title id: \<open>None\<close> is \<open>*title\<close> NULL, or \<open>*title_id_present\<close> false. The two-sector
  buffer \<open>certificate\<close> holds the sectors read; \<open>read_xbe_title_spec\<close> shows that nothing behind them
  is used.
\<close>

definition read_xbe_title ::
  "(nat \<Rightarrow> bool) \<Rightarrow> 's source_ops \<Rightarrow> 's sector_source \<Rightarrow> u64 \<Rightarrow> xdvdfs_entry
     \<Rightarrow> (cstring option \<times> u32 option) res \<times> 's sector_source" where
  "read_xbe_title mem ops source volume_base entry =
     (if en_size entry < GDOX_LOGICAL_SECTOR_BYTES then (Inr (None, None), source)
      else
        (case gdox_source_read ops source (u64_add volume_base (en_start_sector entry)) 1
                GDOX_LOGICAL_SECTOR_BYTES of
           (Inl e, source') \<Rightarrow> (Inl e, source')
         | (Inr header, source') \<Rightarrow>
             if \<not> window_eq header 0 xbe_header_magic then (Inr (None, None), source')
             else (case (read_le_u32 header GDOX_LOGICAL_SECTOR_BYTES 0x104,
                         read_le_u32 header GDOX_LOGICAL_SECTOR_BYTES 0x118) of
                     (Some image_base, Some certificate_address) \<Rightarrow>
                       if certificate_address < image_base then (Inr (None, None), source')
                       else
                         (let certificate_offset = certificate_address - image_base
                          in if certificate_offset > en_size entry \<or> en_size entry - certificate_offset < 92
                             then (Inr (None, None), source')
                             else
                               (let certificate_lba =
                                      u64_add (u64_add volume_base (en_start_sector entry))
                                        (certificate_offset div GDOX_LOGICAL_SECTOR_BYTES);
                                    within = certificate_offset mod GDOX_LOGICAL_SECTOR_BYTES;
                                    blocks = (if within + 92 > GDOX_LOGICAL_SECTOR_BYTES then 2 else 1)
                                in case gdox_source_read ops source' certificate_lba blocks
                                          (blocks * GDOX_LOGICAL_SECTOR_BYTES) of
                                     (Inl e, source'') \<Rightarrow> (Inl e, source'')
                                   | (Inr certificate, source'') \<Rightarrow>
                                       (case read_le_u32 certificate (2 * GDOX_LOGICAL_SECTOR_BYTES) (within + 8) of
                                          None \<Rightarrow> (Inr (None, None), source'')
                                        | Some title_id \<Rightarrow>
                                            (Inr (decode_title mem (drop (within + 12) certificate), Some title_id),
                                             source''))))
                   | _ \<Rightarrow> (Inr (None, None), source'))))"

text \<open>What an executable of \<open>n\<close> bytes declares in its certificate, from the bytes of the file alone.\<close>

definition xbe_title :: "(nat \<Rightarrow> bool) \<Rightarrow> byte list \<Rightarrow> nat \<Rightarrow> cstring option \<times> u32 option" where
  "xbe_title mem xbe n =
     (let image_base = le_u32 xbe 0x104; address = le_u32 xbe 0x118; offset = address - image_base
      in if n < 2048 \<or> take 4 xbe \<noteq> xbe_header_magic \<or> address < image_base \<or> n < offset + 92
         then (None, None)
         else (decode_title mem (drop (offset + 12) xbe), Some (le_u32 xbe (offset + 8))))"

lemma le_u32_cong:
  assumes "\<And>i. i < 4 \<Longrightarrow> a ! (p + i) = b ! (q + i)"
  shows "le_u32 a p = le_u32 b q"
  using assms[of 0] assms[of 1] assms[of 2] assms[of 3] by (simp add: le_u32_def)

lemma sectors_of_bound: "n \<le> sectors_of n * GDOX_LOGICAL_SECTOR_BYTES"
  unfolding sectors_of_def by linarith

context sector_source
begin

lemma read_xbe_title_spec:
  assumes "valid s" and "volume_base + en_start_sector entry + sectors_of (en_size entry) \<le> op_sector_count ops s"
    and "read_xbe_title mem ops (Some s) volume_base entry = (r, h)"
  shows "(\<exists>s'. h = Some s' \<and> view_kept ops valid contents s s')
    \<and> (\<forall>t. r = Inr t \<longrightarrow>
         t = xbe_title mem (volume_span (contents s) volume_base (en_start_sector entry) (en_size entry))
               (en_size entry))"
proof -
  define n where "n = en_size entry"
  define k where "k = sectors_of n"
  define b where "b = volume_base + en_start_sector entry"
  define f where "f = contents s"
  define xbe where "xbe = volume_span f volume_base (en_start_sector entry) n"
  have xbe: "xbe ! i = f (b * GDOX_LOGICAL_SECTOR_BYTES + i)" if "i < n" for i
    using that sectors_of_bound[of n] by (simp add: xbe_def volume_span_def b_def)
  have len: "n \<le> length xbe" using sectors_of_bound[of n] by (simp add: xbe_def volume_span_def)
  have cnt: "b + k < two64" using assms(2) count_less[OF assms(1)] by (simp add: b_def k_def n_def)
  have base: "u64_add volume_base (en_start_sector entry) = b" using cnt by (simp add: b_def)
  note code = trans[OF read_xbe_title_def[symmetric] assms(3), unfolded base Let_def, folded n_def]
  show ?thesis
  proof (cases "n < GDOX_LOGICAL_SECTOR_BYTES")
    case True
    then show ?thesis using code view_kept_refl[where valid = valid and s = s] assms(1)
      by (auto simp: xbe_title_def n_def Let_def)
  next
    case n: False
    obtain q h1 where rd: "gdox_source_read ops (Some s) b 1 GDOX_LOGICAL_SECTOR_BYTES = (q, h1)" by fastforce
    obtain s1 where h1: "h1 = Some s1" and v1: "view_kept ops valid contents s s1"
      and all: "\<forall>bs. q = Inr bs \<longrightarrow> bs = span f (b * GDOX_LOGICAL_SECTOR_BYTES) GDOX_LOGICAL_SECTOR_BYTES"
      using source_read_view[OF assms(1) rd] by (auto simp: f_def)
    show ?thesis
    proof (cases q)
      case (Inl e)
      then show ?thesis using code n rd h1 v1 by auto
    next
      case (Inr header)
      have header: "header ! i = xbe ! i" if "i < 2048" for i
        using all Inr that n xbe[of i] by simp
      have hlen: "length header = 2048" using all Inr by simp
      have magic: "window_eq header 0 xbe_header_magic \<longleftrightarrow> take 4 xbe = xbe_header_magic"
        using header hlen len n by (simp add: window_eq_def list_eq_iff_nth_eq)
      have le: "le_u32 header 0x104 = le_u32 xbe 0x104" "le_u32 header 0x118 = le_u32 xbe 0x118"
        by (rule le_u32_cong, simp add: header)+
      define image where "image = le_u32 xbe 0x104"
      define addr where "addr = le_u32 xbe 0x118"
      have rds: "read_le_u32 header GDOX_LOGICAL_SECTOR_BYTES 0x104 = Some image"
        "read_le_u32 header GDOX_LOGICAL_SECTOR_BYTES 0x118 = Some addr"
        by (simp_all add: read_le_u32_def le image_def addr_def)
      show ?thesis
      proof (cases "\<not> take 4 xbe = xbe_header_magic \<or> addr < image \<or> n < addr - image + 92")
        case True
        then have "r = Inr (None, None) \<and> h = h1"
          using code n rd Inr magic rds by (auto split: if_splits)
        moreover have "xbe_title mem xbe n = (None, None)"
          using True by (auto simp: xbe_title_def Let_def image_def addr_def)
        ultimately show ?thesis using h1 v1 by (auto simp: xbe_def f_def n_def)
      next
        case False
        define off where "off = addr - image"
        define within where "within = off mod GDOX_LOGICAL_SECTOR_BYTES"
        define blocks where "blocks = (if within + 92 > GDOX_LOGICAL_SECTOR_BYTES then 2 else 1 :: nat)"
        have fits: "off + 92 \<le> n" using False unfolding off_def by linarith
        have w: "within < 2048" "within + 92 \<le> blocks * GDOX_LOGICAL_SECTOR_BYTES"
          by (auto simp: within_def blocks_def)
        have split: "off = off div GDOX_LOGICAL_SECTOR_BYTES * GDOX_LOGICAL_SECTOR_BYTES + within"
          by (simp add: within_def)
        have "off div GDOX_LOGICAL_SECTOR_BYTES \<le> k"
          using fits sectors_of_bound[of n] unfolding k_def by linarith
        then have add: "u64_add b (off div GDOX_LOGICAL_SECTOR_BYTES) = b + off div GDOX_LOGICAL_SECTOR_BYTES"
          using cnt by simp
        have s1: "valid s1" "contents s1 = f" using v1 by (simp_all add: view_kept_def f_def)
        obtain q2 h2 where rd2: "gdox_source_read ops (Some s1) (b + off div GDOX_LOGICAL_SECTOR_BYTES) blocks
            (blocks * GDOX_LOGICAL_SECTOR_BYTES) = (q2, h2)" by fastforce
        obtain s2 where h2: "h2 = Some s2" and v2: "view_kept ops valid contents s1 s2"
          and all2: "\<forall>bs. q2 = Inr bs \<longrightarrow> bs = span f ((b + off div GDOX_LOGICAL_SECTOR_BYTES) * GDOX_LOGICAL_SECTOR_BYTES)
             (blocks * GDOX_LOGICAL_SECTOR_BYTES)"
          using source_read_view[OF s1(1) rd2] s1(2) by auto
        have step: "(r, h) = (case q2 of Inl e \<Rightarrow> (Inl e, h2) | Inr certificate \<Rightarrow>
            (case read_le_u32 certificate (2 * GDOX_LOGICAL_SECTOR_BYTES) (within + 8) of
               None \<Rightarrow> (Inr (None, None), h2)
             | Some title_id \<Rightarrow> (Inr (decode_title mem (drop (within + 12) certificate), Some title_id), h2)))"
        proof -
          have "addr - image = off" "off mod GDOX_LOGICAL_SECTOR_BYTES = within" "\<not> addr < image"
            "(if within + 92 > GDOX_LOGICAL_SECTOR_BYTES then 2 else 1) = blocks"
            "\<not> (off > n \<or> n - off < 92)" "window_eq header 0 xbe_header_magic"
            using False fits magic by (auto simp: off_def within_def blocks_def)
          then show ?thesis
            using code n rd Inr rds h1 rd2 add by (cases q2) (simp_all cong: option.case_cong)
        qed
        show ?thesis
        proof (cases q2)
          case (Inl e)
          then show ?thesis using step h2 view_kept_trans[OF v1 v2] by auto
        next
          case (Inr cert)
          have cert: "cert ! (within + j) = xbe ! (off + j)" if "j < 92" for j
          proof -
            have "cert ! (within + j) = f ((b + off div GDOX_LOGICAL_SECTOR_BYTES) * GDOX_LOGICAL_SECTOR_BYTES + (within + j))"
              using all2 Inr that w(2) by simp
            also have "(b + off div GDOX_LOGICAL_SECTOR_BYTES) * GDOX_LOGICAL_SECTOR_BYTES + (within + j) =
                b * GDOX_LOGICAL_SECTOR_BYTES + (off + j)"
              using split by (simp add: add_mult_distrib)
            also have "f \<dots> = xbe ! (off + j)" using xbe[of "off + j"] that fits by simp
            finally show ?thesis .
          qed
          have id: "read_le_u32 cert (2 * GDOX_LOGICAL_SECTOR_BYTES) (within + 8) = Some (le_u32 xbe (off + 8))"
          proof -
            have "le_u32 cert (within + 8) = le_u32 xbe (off + 8)"
              by (rule le_u32_cong) (use cert in \<open>simp add: add.assoc\<close>)
            then show ?thesis using w(1) by (simp add: read_le_u32_def)
          qed
          have title: "decode_title mem (drop (within + 12) cert) = decode_title mem (drop (off + 12) xbe)"
          proof (rule decode_title_cong)
            fix i :: nat assume "i < 80"
            moreover have "length cert = blocks * GDOX_LOGICAL_SECTOR_BYTES" using all2 Inr by simp
            ultimately show "drop (within + 12) cert ! i = drop (off + 12) xbe ! i"
              using cert[of "12 + i"] w(2) fits len by (simp add: add.assoc)
          qed
          have "xbe_title mem xbe n = (decode_title mem (drop (off + 12) xbe), Some (le_u32 xbe (off + 8)))"
            using False n fits by (simp add: xbe_title_def Let_def image_def addr_def off_def)
          then show ?thesis
            using step Inr id title h2 view_kept_trans[OF v1 v2] by (auto simp: xbe_def f_def n_def)
        qed
      qed
    qed
  qed
qed

end

section \<open>Properties\<close>

text \<open>
  C25: Decoding a title writes at most 120 of the buffer's 161 bytes, never fails for want of room, and
  is the trimmed UTF-8 encoding of the UTF-16 text up to its first NUL, every unpaired surrogate
  replaced by U+FFFD, unless the 40th unit is an unpaired high surrogate.
\<close>
theorem decode_title_is_utf8:
  assumes "\<not> is_high (title_unit bs 39)"
  shows "decode_title mem bs =
      (if \<not> mem 161 then None
       else (let t = trim_title (concat (map utf8_encode (utf16_decode replacement_tail (title_units bs 0))))
             in if t = [] then None else Some t))
    \<and> length (concat (map utf8_encode (utf16_decode replacement_tail (title_units bs 0)))) \<le> 120"
proof -
  have "last (title_units bs 0) = title_unit bs 39" by (simp add: title_units_def last_map)
  then have "utf16_decode code_tail (title_units bs 0) = utf16_decode replacement_tail (title_units bs 0)"
    using assms by (intro utf16_decode_tail) simp
  then show ?thesis using decode_units_spec[of 0 "[]" bs] by (simp add: decode_title_spec)
qed

definition sample_title :: "byte list" where
  "sample_title = concat (map (\<lambda>c. [c, 0]) (ascii '' Halo 2 '')) @ replicate 64 0"

theorem decode_title_is_utf8_witness:
  "decode_title (\<lambda>_. True) sample_title =
      (let t = trim_title (concat (map utf8_encode (utf16_decode replacement_tail (title_units sample_title 0))))
       in if t = [] then None else Some t)"
proof -
  have "\<not> is_high (title_unit sample_title 39)"
    by (simp add: is_high_def title_unit_def le_u16_def sample_title_def ascii_def join16_def)
  from decode_title_is_utf8[OF this, of "\<lambda>_. True"] show ?thesis by simp
qed

lemma le_u16_units:
  "i < k \<Longrightarrow> le_u16 (concat (replicate k [a, b]) @ xs) (i * 2) = unat (join16 a b)"
proof (induction k arbitrary: i)
  case (Suc k)
  then show ?case by (cases i) (auto simp: le_u16_def)
qed simp

lemma le_u16_units_end:
  "le_u16 (concat (replicate k [a, b]) @ [c, d]) (k * 2) = unat (join16 c d)"
  by (induction k) (simp_all add: le_u16_def)

text \<open>A high surrogate at the very end is decoded to itself, whatever stands before it.\<close>

lemma utf16_decode_end:
  "is_high h \<Longrightarrow> 0 \<notin> set us \<Longrightarrow> utf16_decode code_tail (us @ [h]) = utf16_decode replacement_tail us @ [h]"
proof (induction us rule: length_induct)
  case (1 us)
  have h: "h \<noteq> 0" "\<not> is_low h" using "1.prems"(1) by (auto simp: is_high_def is_low_def)
  note IH = "1.IH"[rule_format, OF _ "1.prems"(1)]
  show ?case
  proof (cases us)
    case Nil
    then show ?thesis using "1.prems"(1) h by (simp add: code_tail_def)
  next
    case (Cons u vs)
    have vs: "utf16_decode code_tail (vs @ [h]) = utf16_decode replacement_tail vs @ [h]"
      using IH[of vs] "1.prems"(2) Cons by simp
    show ?thesis
    proof (cases vs)
      case Nil
      then show ?thesis using Cons "1.prems" h by (simp add: code_tail_def replacement_tail_def)
    next
      case (Cons w ws)
      have "utf16_decode code_tail (ws @ [h]) = utf16_decode replacement_tail ws @ [h]"
        using IH[of ws] "1.prems"(2) \<open>us = u # vs\<close> Cons by simp
      then show ?thesis using \<open>us = u # vs\<close> Cons vs "1.prems"(2) by simp
    qed
  qed
qed

text \<open>Behind a NUL nothing is decoded.\<close>

lemma utf16_decode_NUL: "0 \<in> set us \<Longrightarrow> utf16_decode tail (us @ vs) = utf16_decode tail' us"
proof (induction us rule: length_induct)
  case (1 us)
  note IH = "1.IH"[rule_format]
  obtain u us' where us: "us = u # us'" using "1.prems" by (cases us) auto
  show ?case
  proof (cases "u = 0")
    case False
    then have in': "0 \<in> set us'" using "1.prems" us by simp
    then obtain w ws where ws: "us' = w # ws" by (cases us') auto
    have "utf16_decode tail (ws @ vs) = utf16_decode tail' ws" if "is_low w"
      using IH[of ws] that in' us ws by (auto simp: is_low_def)
    then show ?thesis using IH[OF _ in'] us ws by simp
  qed (simp add: us)
qed

text \<open>The encoding of a surrogate, and that no encoding of Unicode scalar values ends with one.\<close>

definition unicode_scalar :: "nat \<Rightarrow> bool" where
  "unicode_scalar c \<longleftrightarrow> c < 0x110000 \<and> \<not> (0xd800 \<le> c \<and> c \<le> 0xdfff)"

definition surrogate_bytes :: "nat \<Rightarrow> byte list" where
  "surrogate_bytes h = [0xed, word_of_nat (0xa0 + (h - 0xd800) div 64), word_of_nat (0x80 + (h - 0xd800) mod 64)]"

lemma high_split:
  assumes "is_high h"
  shows "\<exists>a b. h = 0xd800 + (64 * a + b) \<and> a < 16 \<and> b < 64"
proof (intro exI conjI)
  have h: "0xd800 \<le> h" "h - 0xd800 < 16 * 64" using assms by (auto simp: is_high_def)
  then show "h = 0xd800 + (64 * ((h - 0xd800) div 64) + (h - 0xd800) mod 64)" by simp
  show "(h - 0xd800) div 64 < 16" using h(2) by (simp add: less_mult_imp_div_less)
qed simp

lemma utf8_encode_high:
  assumes "is_high h"
  shows "utf8_encode h = surrogate_bytes h"
proof -
  obtain a b where h: "h = 0xd800 + (64 * a + b)" "a < 16" "b < 64" using high_split[OF assms] by blast
  have "h = 4096 * 13 + (64 * (32 + a) + b)" "h = 64 * (864 + a) + b" using h(1) by simp_all
  moreover have "64 * (32 + a) + b < 4096" using h by simp
  ultimately have "h div 4096 = 13" "h div 64 = 864 + a" "h mod 64 = b"
    using h(3) by (simp_all add: div_nat_eqI mod_nat_eqI)
  moreover have "(864 + a) mod 64 = 32 + a" using h(2) by (simp add: mod_nat_eqI)
  ultimately show ?thesis using h by (simp add: utf8_encode_def surrogate_bytes_def)
qed

lemma byte_of_nat_inject:
  "(word_of_nat a :: byte) = word_of_nat b \<Longrightarrow> a < 256 \<Longrightarrow> b < 256 \<Longrightarrow> a = b"
  by (simp add: word_of_nat_eq_iff take_bit_eq_mod)

lemma utf8_not_surrogate:
  assumes "unicode_scalar c" and "is_high h"
  shows "xs @ utf8_encode c \<noteq> ys @ surrogate_bytes h"
proof
  assume "xs @ utf8_encode c = ys @ surrogate_bytes h"
  then have eq: "rev (utf8_encode c) @ rev xs = rev (surrogate_bytes h) @ rev ys" by (metis rev_append)
  obtain a b where h: "h - 0xd800 = 64 * a + b" "a < 16" "b < 64" using high_split[OF assms(2)] by auto
  have s: "rev (surrogate_bytes h) = [word_of_nat (0x80 + b), word_of_nat (0xa0 + a), word_of_nat 0xed]"
    using h by (simp add: surrogate_bytes_def)
  have c: "c < 0x110000" "\<not> (0xd800 \<le> c \<and> c \<le> 0xdfff)" using assms(1) by (auto simp: unicode_scalar_def)
  consider "c < 0x80" | "0x80 \<le> c" "c < 0x800" | "0x800 \<le> c" "c < 0x10000" | "0x10000 \<le> c" by linarith
  then show False
  proof cases
    case 1
    then have "(word_of_nat c :: byte) = word_of_nat (0x80 + b)" using eq unfolding s utf8_encode_def by simp
    then have "c = 0x80 + b" by (rule byte_of_nat_inject) (use 1 h(3) in simp_all)
    then show False using 1 by simp
  next
    case 2
    then have "(word_of_nat (0xc0 + c div 64) :: byte) = word_of_nat (0xa0 + a)"
      using eq unfolding s utf8_encode_def by simp
    then have "0xc0 + c div 64 = 0xa0 + a"
      by (rule byte_of_nat_inject) (use 2 h(2) in \<open>simp_all add: less_mult_imp_div_less\<close>)
    then show False using h(2) by simp
  next
    case 3
    have lead: "(word_of_nat (0xe0 + c div 4096) :: byte) = word_of_nat 0xed"
      and middle: "(word_of_nat (0x80 + c div 64 mod 64) :: byte) = word_of_nat (0xa0 + a)"
      using eq 3 unfolding s utf8_encode_def by simp_all
    have "0xe0 + c div 4096 = 0xed"
      by (rule byte_of_nat_inject[OF lead]) (use 3 in \<open>simp_all add: less_mult_imp_div_less\<close>)
    moreover have "c div 64 mod 64 < 64" by simp
    then have "0x80 + c div 64 mod 64 = 0xa0 + a"
      using h(2) by (intro byte_of_nat_inject[OF middle]) linarith+
    ultimately have "c div 4096 = 13" "32 \<le> c div 64 mod 64" by linarith+
    moreover have "c div 64 = 64 * (c div 4096) + c div 64 mod 64"
      using mult_div_mod_eq[of 64 "c div 64"] by (simp add: div_mult2_eq[symmetric])
    ultimately have "864 \<le> c div 64" "c div 4096 = 13" by simp_all
    then have "0xd800 \<le> c \<and> c \<le> 0xdfff" by linarith
    then show False using c(2) by simp
  next
    case 4
    then have third: "(word_of_nat (0x80 + c div 4096 mod 64) :: byte) = word_of_nat 0xed"
      using eq unfolding s utf8_encode_def by simp
    have "c div 4096 mod 64 < 64" by simp
    moreover from this have "0x80 + c div 4096 mod 64 = 0xed"
      by (intro byte_of_nat_inject[OF third]) linarith+
    ultimately show False by linarith
  qed
qed

lemma utf8_never_ends_in_surrogate:
  assumes "\<forall>c\<in>set cs. unicode_scalar c" and "is_high h"
  shows "concat (map utf8_encode cs) \<noteq> ys @ surrogate_bytes h"
proof (cases cs rule: rev_cases)
  case Nil
  then show ?thesis by (simp add: surrogate_bytes_def)
next
  case (snoc ds d)
  then show ?thesis using utf8_not_surrogate[OF _ assms(2), of d] assms(1) by simp
qed

lemma trim_surrogate:
  assumes "is_high h"
  shows "trim_title (xs @ surrogate_bytes h) = dropWhile is_space xs @ surrogate_bytes h"
proof -
  obtain a b where h: "h - 0xd800 = 64 * a + b" "a < 16" "b < 64" using high_split[OF assms] by auto
  have "\<not> (word_of_nat (0x80 + b) :: byte) < 0x80"
    using h(3) by (simp only: word_less_nat_alt unsigned_of_nat take_bit_eq_mod) simp
  moreover have "(h - 0xd800) mod 64 = b" using h by simp
  ultimately have last: "\<not> is_space (word_of_nat (0x80 + (h - 0xd800) mod 64))"
    unfolding is_space_def by (simp only: simp_thms)
  have first: "\<not> is_space 0xed" by (simp add: is_space_def)
  have "dropWhile is_space (xs @ surrogate_bytes h) = dropWhile is_space xs @ surrogate_bytes h"
    using first by (induction xs) (simp_all add: surrogate_bytes_def)
  then show ?thesis using last by (simp add: trim_title_def) (simp add: surrogate_bytes_def)
qed

text \<open>
  C26: A title whose 40th unit is a high surrogate. Behind a NUL unit it is not reached, and the title is
  the text before it. Otherwise it is unpaired, and is not replaced by U+FFFD as every other unpaired
  surrogate is: the title is that of the 39 units before it followed by the three bytes of the surrogate
  itself, ED, one of A0 to AF and one of 80 to BF, with which no UTF-8 encoding of any text ends.
\<close>
theorem decode_title_unpaired_tail:
  assumes "is_high (title_unit bs 39)" and "mem 161"
  shows "(0 \<in> set (map (title_unit bs) [0..<39]) \<longrightarrow>
      decode_title mem bs =
        (let t = trim_title (concat (map utf8_encode (utf16_decode replacement_tail (map (title_unit bs) [0..<39]))))
         in if t = [] then None else Some t))
    \<and> (0 \<notin> set (map (title_unit bs) [0..<39]) \<longrightarrow>
      decode_title mem bs =
        Some (dropWhile is_space
                (concat (map utf8_encode (utf16_decode replacement_tail (map (title_unit bs) [0..<39]))))
              @ surrogate_bytes (title_unit bs 39))
      \<and> (\<forall>cs. (\<forall>c\<in>set cs. unicode_scalar c) \<longrightarrow> decode_title mem bs \<noteq> Some (concat (map utf8_encode cs))))"
proof -
  let ?us = "map (title_unit bs) [0..<39]" and ?h = "title_unit bs 39"
  have units: "title_units bs 0 = ?us @ [?h]"
    by (simp only: title_units_def upt_split[of 0 39 40] map_append) (simp add: upt_rec)
  note spec = decode_title_spec[of mem bs, unfolded units]
  have "utf16_decode code_tail (?us @ [?h]) = utf16_decode replacement_tail ?us @ [?h]" if "0 \<notin> set ?us"
    by (rule utf16_decode_end[OF assms(1) that])
  then have ends: "decode_title mem bs = Some (dropWhile is_space (concat (map utf8_encode (utf16_decode replacement_tail ?us)))
      @ surrogate_bytes ?h)" if "0 \<notin> set ?us"
    using that spec assms(2) trim_surrogate[OF assms(1)]
    by (simp add: utf8_encode_high[OF assms(1)] Let_def) (simp add: surrogate_bytes_def)
  moreover have "\<forall>cs. (\<forall>c\<in>set cs. unicode_scalar c) \<longrightarrow> decode_title mem bs \<noteq> Some (concat (map utf8_encode cs))"
    if "0 \<notin> set ?us"
    using ends[OF that] utf8_never_ends_in_surrogate[OF _ assms(1)] by force
  moreover have "decode_title mem bs =
        (let t = trim_title (concat (map utf8_encode (utf16_decode replacement_tail ?us)))
         in if t = [] then None else Some t)" if "0 \<in> set ?us"
    using spec utf16_decode_NUL[OF that, of code_tail "[?h]" replacement_tail] assms(2) by simp
  ultimately show ?thesis by blast
qed

theorem decode_title_unpaired_tail_witness:
  "\<exists>t. decode_title (\<lambda>_. True) (concat (replicate 39 [65, 0]) @ [0x41, 0xd9]) = Some (t @ [0xed, 0xa5, 0x81])
     \<and> (\<forall>cs. (\<forall>c\<in>set cs. unicode_scalar c) \<longrightarrow>
          decode_title (\<lambda>_. True) (concat (replicate 39 [65, 0]) @ [0x41, 0xd9]) \<noteq> Some (concat (map utf8_encode cs)))"
proof -
  let ?bs = "concat (replicate 39 [65, 0]) @ [0x41, 0xd9] :: byte list"
  have h: "title_unit ?bs 39 = 0xd941"
    using le_u16_units_end[of 39 65 0 "0x41" "0xd9"] by (simp add: title_unit_def join16_def)
  have "title_unit ?bs i = 65" if "i < 39" for i
    using le_u16_units[OF that, of 65 0 "[0x41, 0xd9]"] by (simp add: title_unit_def join16_def)
  then have "0 \<notin> set (map (title_unit ?bs) [0..<39])" by auto
  moreover have "is_high (title_unit ?bs 39)" by (simp only: h) (simp add: is_high_def)
  moreover have "surrogate_bytes (title_unit ?bs 39) = [0xed, 0xa5, 0x81]"
    by (simp only: h) (simp add: surrogate_bytes_def)
  ultimately show ?thesis
    using decode_title_unpaired_tail[of ?bs "\<lambda>_. True"] by metis
qed

end
