(* ===== verification/XdvdfsInspect.thy ===== *)
theory XdvdfsInspect
  imports XdvdfsTitle PatchedSource
begin

text \<open>
  Walking a whole volume, src/src/core/xdvdfs.c: the breadth-first traversal of the directories with its
  limits, the collected executables and file extents, the metadata of a disc, the trimmed length of
  an image, and the media-check patches. The specification is the set \<open>volume_dirs\<close> of directories
  reachable from the root and the files they list.
\<close>

definition GDOX_XDVDFS_MAX_XBE_BYTES :: u32 where "GDOX_XDVDFS_MAX_XBE_BYTES = 67108864"
definition GDOX_XDVDFS_MAX_DIRECTORY_DEPTH :: nat where "GDOX_XDVDFS_MAX_DIRECTORY_DEPTH = 64"
definition GDOX_XDVDFS_MAX_DIRECTORIES :: nat where "GDOX_XDVDFS_MAX_DIRECTORIES = 16384"
definition GDOX_XDVDFS_NO_ENTRY :: nat where "GDOX_XDVDFS_NO_ENTRY = SIZE_MAX"

section \<open>Names and orders\<close>

definition is_directory :: "xdvdfs_entry \<Rightarrow> bool" where
  "is_directory entry \<longleftrightarrow> and (en_attributes entry) 0x10 \<noteq> 0"

text \<open>\<open>tolower\<close> of the C locale.\<close>

definition lower :: "byte \<Rightarrow> byte" where
  "lower b = (if 65 \<le> b \<and> b \<le> 90 then b + 32 else b)"

fun ascii_case_compare :: "cstring \<Rightarrow> cstring \<Rightarrow> int" where
  "ascii_case_compare (x # xs) (y # ys) =
     (if lower x \<noteq> lower y then (if lower x < lower y then -1 else 1) else ascii_case_compare xs ys)"
| "ascii_case_compare [] [] = 0"
| "ascii_case_compare [] (y # ys) = -1"
| "ascii_case_compare (x # xs) [] = 1"

definition has_xbe_extension :: "cstring \<Rightarrow> bool" where
  "has_xbe_extension name \<longleftrightarrow>
     length name \<ge> 4 \<and> ascii_case_compare (drop (length name - 4) name) (ascii ''.xbe'') = 0"

definition compare_entries :: "xdvdfs_entry \<Rightarrow> xdvdfs_entry \<Rightarrow> int" where
  "compare_entries left right = ascii_case_compare (en_path left) (en_path right)"

record file_extent =
  fe_start_sector :: u32
  fe_sector_count :: u32
  fe_prefix_max_end :: u64

definition compare_extents :: "file_extent \<Rightarrow> file_extent \<Rightarrow> int" where
  "compare_extents left right =
     (if fe_start_sector left \<noteq> fe_start_sector right
      then (if fe_start_sector left < fe_start_sector right then -1 else 1)
      else if fe_sector_count left = fe_sector_count right then 0
      else if fe_sector_count left < fe_sector_count right then -1 else 1)"

definition file_extent_end :: "file_extent \<Rightarrow> u64" where
  "file_extent_end x = u64_add (fe_start_sector x) (fe_sector_count x)"

definition index_extents :: "file_extent list \<Rightarrow> file_extent list" where
  "index_extents extents =
     index_prefix file_extent_end (\<lambda>m x. x\<lparr>fe_prefix_max_end := m\<rparr>) 0
       (if length extents > 1 then qsort compare_extents extents else extents)"

lemma ascii_case_compare_total: "ascii_case_compare xs ys \<le> 0 \<or> ascii_case_compare ys xs \<le> 0"
  by (induction xs ys rule: ascii_case_compare.induct) auto

lemma ascii_case_compare_trans:
  "ascii_case_compare xs ys \<le> 0 \<Longrightarrow> ascii_case_compare ys zs \<le> 0 \<Longrightarrow> ascii_case_compare xs zs \<le> 0"
proof (induction xs ys arbitrary: zs rule: ascii_case_compare.induct)
  case (1 x xs y ys)
  then show ?case by (cases zs) (auto split: if_splits)
next
  case 2
  then show ?case by simp
next
  case (3 y ys)
  then show ?case by (cases zs) auto
next
  case (4 x xs)
  then show ?case by simp
qed

lemma ascii_case_compare_eq: "ascii_case_compare xs ys = 0 \<longleftrightarrow> map lower xs = map lower ys"
  by (induction xs ys rule: ascii_case_compare.induct) auto

interpretation xbe_paths: comparator compare_entries
  using ascii_case_compare_total ascii_case_compare_trans
  by unfold_locales (auto simp: compare_entries_def)

interpretation file_extents: comparator compare_extents
  by unfold_locales (auto simp: compare_extents_def split: if_splits)

interpretation file_extent_index: extent_index fe_start_sector file_extent_end fe_prefix_max_end
    "\<lambda>m x. x\<lparr>fe_prefix_max_end := m\<rparr>"
  by unfold_locales (simp_all add: file_extent_end_def)

section \<open>The traversal\<close>

record directory_job =
  dj_start_sector :: u32
  dj_size :: u32
  dj_parent_path :: cstring
  dj_depth :: nat

record directory_identity =
  di_start_sector :: u32
  di_size :: u32

text \<open>
  \<open>visited_count\<close> is the length of \<open>xc_visited\<close>; the array has \<open>GDOX_XDVDFS_MAX_DIRECTORIES\<close> elements
  (\<open>collected\<close> bounds the count). \<open>xc_extents = None\<close> is a NULL \<open>file_extents\<close>.
\<close>

record 's xbe_collection =
  xc_source :: "'s sector_source"
  xc_volume :: xdvdfs_volume
  xc_cache :: "directory_cache option"
  xc_directories :: "directory_job vec"
  xc_visited :: "directory_identity list"
  xc_xbes :: "xdvdfs_entry vec"
  xc_extents :: "file_extent vec option"
  xc_highest :: u64

definition directory_vector_push ::
  "(nat \<Rightarrow> bool) \<Rightarrow> directory_job vec \<Rightarrow> directory_job \<Rightarrow> directory_job vec res" where
  "directory_vector_push mem directories job =
     vec_push mem 32 16 GDOX_XDVDFS_MAX_DIRECTORIES
       (err ERROR_INVALID_VOLUME ''XDVDFS directory limit exceeded'')
       (err ERROR_INTERNAL ''could not allocate directory queue'') directories job"

definition extent_vector_push ::
  "(nat \<Rightarrow> bool) \<Rightarrow> file_extent vec \<Rightarrow> file_extent \<Rightarrow> file_extent vec res" where
  "extent_vector_push mem extents extent =
     vec_push mem 16 16 GDOX_XDVDFS_MAX_ENTRIES
       (err ERROR_INVALID_VOLUME ''XDVDFS file extent limit exceeded'')
       (err ERROR_INTERNAL ''could not allocate XDVDFS file extents'') extents extent"

definition directory_seen :: "directory_identity list \<Rightarrow> u32 \<Rightarrow> u32 \<Rightarrow> bool" where
  "directory_seen visited start_sector n =
     list_ex (\<lambda>d. di_start_sector d = start_sector \<and> di_size d = n) visited"

text \<open>The 64-bit round-up \<open>((uint64_t)n + 2047) / 2048\<close> does not wrap for a 32-bit size.\<close>

definition entry_blocks :: "u32 \<Rightarrow> u64" where
  "entry_blocks n = u64_add n (GDOX_LOGICAL_SECTOR_BYTES - 1) div GDOX_LOGICAL_SECTOR_BYTES"

definition initialize_xbe_collection ::
  "(nat \<Rightarrow> bool) \<Rightarrow> 's xbe_collection \<Rightarrow> unit res \<times> 's xbe_collection" where
  "initialize_xbe_collection mem c =
     (let v = xc_volume c;
          root_end = u64_add (root_directory_sector v) (entry_blocks (root_directory_size v));
          c = c\<lparr>xc_highest := (if root_end > xc_highest c then root_end else xc_highest c)\<rparr>;
          root = \<lparr>dj_start_sector = root_directory_sector v, dj_size = root_directory_size v,
                  dj_parent_path = [], dj_depth = 0\<rparr>
      in if \<not> mem 1 then (fail ERROR_INTERNAL ''could not allocate root path'', c)
         else (case directory_vector_push mem (xc_directories c) root of
                 Inl e \<Rightarrow> (Inl e, c)
               | Inr directories \<Rightarrow>
                   (let c = c\<lparr>xc_directories := directories\<rparr>
                    in if \<not> mem (GDOX_XDVDFS_MAX_DIRECTORIES * 8)
                       then (fail ERROR_INTERNAL ''could not allocate directory identities'', c)
                       else (Inr (), c))))"

definition update_highest_entry ::
  "'s source_ops \<Rightarrow> 's xbe_collection \<Rightarrow> xdvdfs_entry \<Rightarrow> unit res \<times> 's xbe_collection" where
  "update_highest_entry ops c entry =
     (let entry_end = u64_add (en_start_sector entry) (entry_blocks (en_size entry))
      in if entry_end > u64_sub (gdox_source_sector_count ops (xc_source c)) (base_lba (xc_volume c))
         then (fail ERROR_INVALID_VOLUME ''XDVDFS entry extent exceeds the source'', c)
         else (Inr (), if entry_end > xc_highest c then c\<lparr>xc_highest := entry_end\<rparr> else c))"

definition enqueue_child_directory ::
  "(nat \<Rightarrow> bool) \<Rightarrow> 's xbe_collection \<Rightarrow> xdvdfs_entry \<Rightarrow> nat \<Rightarrow> unit res \<times> 's xbe_collection" where
  "enqueue_child_directory mem c entry parent_depth =
     (if parent_depth \<ge> GDOX_XDVDFS_MAX_DIRECTORY_DEPTH
      then (fail ERROR_INVALID_VOLUME ''XDVDFS directory nesting limit exceeded'', c)
      else if directory_seen (xc_visited c) (en_start_sector entry) (en_size entry) then (Inr (), c)
      else (let c = c\<lparr>xc_visited := xc_visited c @
                      [\<lparr>di_start_sector = en_start_sector entry, di_size = en_size entry\<rparr>]\<rparr>;
                child = \<lparr>dj_start_sector = en_start_sector entry, dj_size = en_size entry,
                         dj_parent_path = en_path entry, dj_depth = parent_depth + 1\<rparr>
            in case directory_vector_push mem (xc_directories c) child of
                 Inl e \<Rightarrow> (Inl e, c)
               | Inr directories \<Rightarrow> (Inr (), c\<lparr>xc_directories := directories\<rparr>)))"

definition push_file_extent ::
  "(nat \<Rightarrow> bool) \<Rightarrow> file_extent vec option \<Rightarrow> xdvdfs_entry \<Rightarrow> file_extent vec option res" where
  "push_file_extent mem extents entry =
     (case extents of
        None \<Rightarrow> Inr None
      | Some v \<Rightarrow>
          (case extent_vector_push mem v
                  \<lparr>fe_start_sector = en_start_sector entry,
                   fe_sector_count = u32_cast (entry_blocks (en_size entry)), fe_prefix_max_end = 0\<rparr> of
             Inl e \<Rightarrow> Inl e
           | Inr v' \<Rightarrow> Inr (Some v')))"

definition collect_xbe_entry ::
  "(nat \<Rightarrow> bool) \<Rightarrow> 's source_ops \<Rightarrow> 's xbe_collection \<Rightarrow> xdvdfs_entry \<Rightarrow> nat
     \<Rightarrow> unit res \<times> 's xbe_collection" where
  "collect_xbe_entry mem ops c entry parent_depth =
     (case update_highest_entry ops c entry of
        (Inl e, c) \<Rightarrow> (Inl e, c)
      | (Inr _, c) \<Rightarrow>
          if is_directory entry then enqueue_child_directory mem c entry parent_depth
          else (case push_file_extent mem (xc_extents c) entry of
                  Inl e \<Rightarrow> (Inl e, c)
                | Inr extents \<Rightarrow>
                    (let c = c\<lparr>xc_extents := extents\<rparr>
                     in if \<not> has_xbe_extension (en_name entry) then (Inr (), c)
                        else (case entry_vector_push mem (xc_xbes c) entry of
                                Inl e \<Rightarrow> (Inl e, c)
                              | Inr xbes \<Rightarrow> (Inr (), c\<lparr>xc_xbes := xbes\<rparr>)))))"

fun collect_entries ::
  "(nat \<Rightarrow> bool) \<Rightarrow> 's source_ops \<Rightarrow> 's xbe_collection \<Rightarrow> xdvdfs_entry list \<Rightarrow> nat
     \<Rightarrow> unit res \<times> 's xbe_collection" where
  "collect_entries mem ops c [] depth = (Inr (), c)"
| "collect_entries mem ops c (entry # entries) depth =
     (case collect_xbe_entry mem ops c entry depth of
        (Inl e, c) \<Rightarrow> (Inl e, c)
      | (Inr _, c) \<Rightarrow> collect_entries mem ops c entries depth)"

definition process_xbe_directory ::
  "(nat \<Rightarrow> bool) \<Rightarrow> 's source_ops \<Rightarrow> 's xbe_collection \<Rightarrow> nat \<Rightarrow> unit res \<times> 's xbe_collection" where
  "process_xbe_directory mem ops c index =
     (let stored = vec_items (xc_directories c) ! index
      in case read_directory mem ops (xc_source c) (xc_volume c) (xc_cache c)
                (dj_start_sector stored) (dj_size stored) (dj_parent_path stored) vec_empty of
           (r, source, cache) \<Rightarrow>
             (let c = c\<lparr>xc_source := source, xc_cache := cache\<rparr>
              in case r of
                   Inl e \<Rightarrow> (Inl e, c)
                 | Inr entries \<Rightarrow> collect_entries mem ops c (vec_items entries) (dj_depth stored)))"

definition directory_count :: "'s xbe_collection \<Rightarrow> nat" where
  "directory_count c = length (vec_items (xc_directories c))"

lemma directory_push_count:
  "directory_vector_push mem v x = Inr v' \<Longrightarrow> length (vec_items v') \<le> GDOX_XDVDFS_MAX_DIRECTORIES"
  unfolding directory_vector_push_def by (rule vec_push_limit)

lemma collect_xbe_entry_count:
  "collect_xbe_entry mem ops c entry depth = (r, c') \<Longrightarrow>
   directory_count c' \<le> max GDOX_XDVDFS_MAX_DIRECTORIES (directory_count c)"
  by (auto simp: collect_xbe_entry_def update_highest_entry_def enqueue_child_directory_def Let_def
      directory_count_def dest: directory_push_count split: if_splits sum.splits)

lemma collect_entries_count:
  "collect_entries mem ops c entries depth = (r, c') \<Longrightarrow>
   directory_count c' \<le> max GDOX_XDVDFS_MAX_DIRECTORIES (directory_count c)"
proof (induction entries arbitrary: c)
  case (Cons e es)
  then show ?case by (fastforce dest: collect_xbe_entry_count split: prod.splits sum.splits)
qed simp

lemma process_xbe_directory_count:
  assumes "process_xbe_directory mem ops c index = (r, c')"
  shows "directory_count c' \<le> max GDOX_XDVDFS_MAX_DIRECTORIES (directory_count c)"
proof -
  have same: "directory_count (c\<lparr>xc_source := h, xc_cache := dc\<rparr>) = directory_count c" for h dc
    by (simp add: directory_count_def)
  show ?thesis
    using assms collect_entries_count[where mem = mem and ops = ops]
    by (fastforce simp: process_xbe_directory_def Let_def same split: prod.splits sum.splits)
qed

text \<open>The loop \<open>while (next < collection.directories.count)\<close>; the limit on directories ends it.\<close>

function collect_loop ::
  "(nat \<Rightarrow> bool) \<Rightarrow> 's source_ops \<Rightarrow> 's xbe_collection \<Rightarrow> nat \<Rightarrow> unit res \<times> 's xbe_collection" where
  "collect_loop mem ops c index =
     (if index < directory_count c
      then (case process_xbe_directory mem ops c index of
              (Inl e, c') \<Rightarrow> (Inl e, c')
            | (Inr _, c') \<Rightarrow> collect_loop mem ops c' (index + 1))
      else (Inr (), c))"
  by pat_completeness auto
termination
proof (relation "measure (\<lambda>(mem, ops, c, index). max GDOX_XDVDFS_MAX_DIRECTORIES (directory_count c) - index)", goal_cases)
  case (2 mem ops c index r c' u)
  then have "max GDOX_XDVDFS_MAX_DIRECTORIES (directory_count c') \<le> max GDOX_XDVDFS_MAX_DIRECTORIES (directory_count c)"
    and "index < max GDOX_XDVDFS_MAX_DIRECTORIES (directory_count c)"
    using process_xbe_directory_count[of mem ops c index r c'] by auto
  then show ?case unfolding in_measure case_prod_conv by linarith
qed simp

declare collect_loop.simps [simp del]

text \<open>The sorted executables, the indexed extents and the highest used sector.\<close>

definition collect_xbe_entries ::
  "(nat \<Rightarrow> bool) \<Rightarrow> 's source_ops \<Rightarrow> 's sector_source \<Rightarrow> xdvdfs_volume \<Rightarrow> bool \<Rightarrow> directory_cache option
     \<Rightarrow> (xdvdfs_entry list \<times> file_extent list \<times> u64) res \<times> 's sector_source \<times> directory_cache option" where
  "collect_xbe_entries mem ops source volume with_extents cache =
     (let c = \<lparr>xc_source = source, xc_volume = volume, xc_cache = cache, xc_directories = vec_empty,
               xc_visited = [], xc_xbes = vec_empty,
               xc_extents = (if with_extents then Some vec_empty else None),
               xc_highest = GDOX_XDVDFS_VOLUME_DESCRIPTOR_SECTOR + 1\<rparr>
      in case initialize_xbe_collection mem c of
           (Inl e, c) \<Rightarrow> (Inl e, xc_source c, xc_cache c)
         | (Inr _, c) \<Rightarrow>
             (case collect_loop mem ops c 0 of
                (Inl e, c) \<Rightarrow> (Inl e, xc_source c, xc_cache c)
              | (Inr _, c) \<Rightarrow>
                  (let xbes = vec_items (xc_xbes c);
                       xbes = (if length xbes > 1 then qsort compare_entries xbes else xbes);
                       extents = (case xc_extents c of None \<Rightarrow> [] | Some v \<Rightarrow> index_extents (vec_items v))
                   in (Inr (xbes, extents, xc_highest c), xc_source c, xc_cache c))))"

section \<open>Metadata, length and patches\<close>

record xdvdfs_metadata =
  md_volume :: xdvdfs_volume
  md_title :: "cstring option"
  md_title_id :: "u32 option"
  md_xbe_files :: "xdvdfs_entry list"
  md_default_xbe_index :: nat
  md_file_extents :: "file_extent list"

text \<open>The loop that looks for \<open>/default.xbe\<close>, from \<open>index\<close> on.\<close>

fun find_default_xbe :: "xdvdfs_entry list \<Rightarrow> nat \<Rightarrow> nat" where
  "find_default_xbe [] index = GDOX_XDVDFS_NO_ENTRY"
| "find_default_xbe (entry # entries) index =
     (if ascii_case_compare (en_path entry) (ascii ''/default.xbe'') = 0 then index
      else find_default_xbe entries (index + 1))"

definition inspect_xdvdfs ::
  "(nat \<Rightarrow> bool) \<Rightarrow> 's source_ops \<Rightarrow> 's sector_source \<Rightarrow> xdvdfs_volume \<Rightarrow> directory_cache option
     \<Rightarrow> xdvdfs_metadata res \<times> 's sector_source \<times> directory_cache option" where
  "inspect_xdvdfs mem ops source volume cache =
     (if \<not> gdox_source_is_valid source
      then (fail ERROR_INVALID_ARGUMENT ''source, volume, and metadata are required'', source, cache)
      else (case collect_xbe_entries mem ops source volume True cache of
              (Inl e, source, cache) \<Rightarrow> (Inl e, source, cache)
            | (Inr (xbes, extents, _), source, cache) \<Rightarrow>
                (let default = find_default_xbe xbes 0;
                     metadata = \<lparr>md_volume = volume, md_title = None, md_title_id = None,
                                 md_xbe_files = xbes, md_default_xbe_index = default,
                                 md_file_extents = extents\<rparr>
                 in if default \<noteq> GDOX_XDVDFS_NO_ENTRY
                    then (case read_xbe_title mem ops source (base_lba volume) (xbes ! default) of
                            (Inl e, source) \<Rightarrow> (Inl e, source, cache)
                          | (Inr (title, title_id), source) \<Rightarrow>
                              (Inr (metadata\<lparr>md_title := title, md_title_id := title_id\<rparr>), source, cache))
                    else (Inr metadata, source, cache))))"

definition gdox_xdvdfs_inspect ::
  "(nat \<Rightarrow> bool) \<Rightarrow> 's source_ops \<Rightarrow> 's sector_source \<Rightarrow> xdvdfs_volume
     \<Rightarrow> xdvdfs_metadata res \<times> 's sector_source" where
  "gdox_xdvdfs_inspect mem ops source volume =
     (case inspect_xdvdfs mem ops source volume None of (r, source, _) \<Rightarrow> (r, source))"

text \<open>Result, the source, and the caller's cache pointer afterwards.\<close>

definition gdox_xdvdfs_inspect_with_directory_cache ::
  "(nat \<Rightarrow> bool) \<Rightarrow> 's source_ops \<Rightarrow> 's sector_source \<Rightarrow> xdvdfs_volume \<Rightarrow> directory_cache option
     \<Rightarrow> xdvdfs_metadata res \<times> 's sector_source \<times> directory_cache option" where
  "gdox_xdvdfs_inspect_with_directory_cache mem ops source volume cache =
     (if \<not> gdox_source_is_valid source \<or> cache \<noteq> None
      then (fail ERROR_INVALID_ARGUMENT
              ''source, volume, metadata, and empty directory cache are required'', source, cache)
      else (case gdox_xdvdfs_directory_cache_create (mem 40) None of
              Inl e \<Rightarrow> (Inl e, source, cache)
            | Inr created \<Rightarrow>
                (case inspect_xdvdfs mem ops source volume created of
                   (Inl e, source, _) \<Rightarrow> (Inl e, source, cache)
                 | (Inr metadata, source, created) \<Rightarrow>
                     (Inr metadata, source, map_option gdox_xdvdfs_directory_cache_finalize created))))"

definition gdox_xdvdfs_measure_trimmed_sectors ::
  "(nat \<Rightarrow> bool) \<Rightarrow> 's source_ops \<Rightarrow> 's sector_source \<Rightarrow> xdvdfs_volume \<Rightarrow> u64 res \<times> 's sector_source" where
  "gdox_xdvdfs_measure_trimmed_sectors mem ops source volume =
     (if \<not> gdox_source_is_valid source \<or> base_lba volume \<ge> gdox_source_sector_count ops source
      then (fail ERROR_INVALID_ARGUMENT ''partition, volume, and output are required'', source)
      else (case collect_xbe_entries mem ops source volume False None of
              (Inl e, source, _) \<Rightarrow> (Inl e, source)
            | (Inr (_, _, highest), source, _) \<Rightarrow>
                if highest > UINT64_MAX - 31
                then (fail ERROR_INVALID_VOLUME ''trimmed XISO length overflows'', source)
                else (let aligned = (highest + 31) div 32 * 32
                      in if aligned = 0
                            \<or> aligned > u64_sub (gdox_source_sector_count ops source) (base_lba volume)
                         then (fail ERROR_INVALID_VOLUME ''trimmed XISO length exceeds the source'', source)
                         else (Inr aligned, source))))"

section \<open>The volume as a graph\<close>

definition ident :: "xdvdfs_entry \<Rightarrow> nat \<times> nat" where
  "ident e = (en_start_sector e, en_size e)"

definition entry_end :: "xdvdfs_entry \<Rightarrow> nat" where
  "entry_end e = en_start_sector e + sectors_of (en_size e)"

definition entry_ok :: "xdvdfs_entry \<Rightarrow> bool" where
  "entry_ok e \<longleftrightarrow> en_start_sector e < two32 \<and> en_size e < two32"

definition file_extent_of :: "xdvdfs_entry \<Rightarrow> file_extent" where
  "file_extent_of e =
     \<lparr>fe_start_sector = en_start_sector e, fe_sector_count = sectors_of (en_size e), fe_prefix_max_end = 0\<rparr>"

definition is_xbe :: "xdvdfs_entry \<Rightarrow> bool" where
  "is_xbe e \<longleftrightarrow> \<not> is_directory e \<and> has_xbe_extension (en_name e)"

definition job_ident :: "directory_job \<Rightarrow> nat \<times> nat" where
  "job_ident j = (dj_start_sector j, dj_size j)"

definition dir_ident :: "directory_identity \<Rightarrow> nat \<times> nat" where
  "dir_ident d = (di_start_sector d, di_size d)"

definition root_ident :: "xdvdfs_volume \<Rightarrow> nat \<times> nat" where
  "root_ident v = (root_directory_sector v, root_directory_size v)"

definition root_end :: "xdvdfs_volume \<Rightarrow> nat" where
  "root_end v = root_directory_sector v + sectors_of (root_directory_size v)"

text \<open>The entries listed in the directory at \<open>d\<close>; their paths depend on the way to it.\<close>

definition dir_entries :: "(nat \<Rightarrow> byte) \<Rightarrow> u64 \<Rightarrow> nat \<times> nat \<Rightarrow> cstring \<Rightarrow> xdvdfs_entry set" where
  "dir_entries f base d parent =
     (let data = volume_span f base (fst d) (snd d)
      in node_entry data parent ` (if directory_data_is_empty data (snd d) then {} else linked data))"

inductive_set volume_dirs :: "(nat \<Rightarrow> byte) \<Rightarrow> xdvdfs_volume \<Rightarrow> (nat \<times> nat) set" for f v where
  root: "root_ident v \<in> volume_dirs f v"
| child: "d \<in> volume_dirs f v \<Longrightarrow> e \<in> dir_entries f (base_lba v) d [] \<Longrightarrow> is_directory e \<Longrightarrow>
     ident e \<in> volume_dirs f v"

lemma dir_entries_parent:
  "e \<in> dir_entries f base d parent \<Longrightarrow>
   \<exists>e' \<in> dir_entries f base d parent'. en_name e' = en_name e \<and> ident e' = ident e
     \<and> is_directory e' = is_directory e \<and> entry_end e' = entry_end e"
  by (auto simp: dir_entries_def Let_def node_entry_def ident_def is_directory_def entry_end_def split: if_splits)

lemma dir_entries_ok: "e \<in> dir_entries f base d parent \<Longrightarrow> entry_ok e"
  by (auto simp: dir_entries_def Let_def node_entry_def entry_ok_def reads_less split: if_splits)

lemma directory_listing_entries:
  "directory_listing (volume_span f base start n) n parent es \<Longrightarrow> set es = dir_entries f base (start, n) parent"
  by (auto simp: directory_listing_def dir_entries_def Let_def)

section \<open>Invariant of the traversal\<close>

text \<open>
  After the entries \<open>es\<close> have been collected: the used length is their largest end, every
  subdirectory among them was queued once, in order of first appearance behind the root, and the
  extents and executables are the files among them.
\<close>

definition collected :: "xdvdfs_volume \<Rightarrow> u64 \<Rightarrow> 's xbe_collection \<Rightarrow> xdvdfs_entry list \<Rightarrow> bool" where
  "collected v space c es \<longleftrightarrow>
     xc_volume c = v
     \<and> (\<forall>e \<in> set es. entry_ok e \<and> entry_end e \<le> space \<and> entry_end e \<le> xc_highest c
          \<and> (is_directory e \<longrightarrow> ident e \<in> dir_ident ` set (xc_visited c)))
     \<and> xc_highest c \<in> {33, root_end v} \<union> entry_end ` set es \<and> 33 \<le> xc_highest c \<and> root_end v \<le> xc_highest c
     \<and> map job_ident (vec_items (xc_directories c)) = root_ident v # map dir_ident (xc_visited c)
     \<and> distinct (map dir_ident (xc_visited c))
     \<and> dir_ident ` set (xc_visited c) \<subseteq> ident ` {e \<in> set es. is_directory e}
     \<and> (case xc_extents c of None \<Rightarrow> True
        | Some w \<Rightarrow> vec_items w = map file_extent_of (filter (\<lambda>e. \<not> is_directory e) es))
     \<and> vec_items (xc_xbes c) = filter is_xbe es
     \<and> directory_count c \<le> GDOX_XDVDFS_MAX_DIRECTORIES
     \<and> (\<forall>j \<in> set (vec_items (xc_directories c)). dj_depth j \<le> GDOX_XDVDFS_MAX_DIRECTORY_DEPTH)
     \<and> length (vec_items (xc_xbes c)) \<le> GDOX_XDVDFS_MAX_ENTRIES"

lemma collectedD:
  assumes "collected v space c es"
  shows "xc_volume c = v"
    and "\<forall>e \<in> set es. entry_ok e \<and> entry_end e \<le> space \<and> entry_end e \<le> xc_highest c
          \<and> (is_directory e \<longrightarrow> ident e \<in> dir_ident ` set (xc_visited c))"
    and "xc_highest c \<in> {33, root_end v} \<union> entry_end ` set es" and "33 \<le> xc_highest c" and "root_end v \<le> xc_highest c"
    and "map job_ident (vec_items (xc_directories c)) = root_ident v # map dir_ident (xc_visited c)"
    and "distinct (map dir_ident (xc_visited c))"
    and "dir_ident ` set (xc_visited c) \<subseteq> ident ` {e \<in> set es. is_directory e}"
    and "case xc_extents c of None \<Rightarrow> True
        | Some w \<Rightarrow> vec_items w = map file_extent_of (filter (\<lambda>e. \<not> is_directory e) es)"
    and "vec_items (xc_xbes c) = filter is_xbe es"
    and "directory_count c \<le> GDOX_XDVDFS_MAX_DIRECTORIES"
    and "\<forall>j \<in> set (vec_items (xc_directories c)). dj_depth j \<le> GDOX_XDVDFS_MAX_DIRECTORY_DEPTH"
    and "length (vec_items (xc_xbes c)) \<le> GDOX_XDVDFS_MAX_ENTRIES"
  using assms unfolding collected_def by blast+

lemma collected_jobs:
  assumes "collected v space c es"
  shows "job_ident ` set (vec_items (xc_directories c)) = insert (root_ident v) (dir_ident ` set (xc_visited c))"
  using arg_cong[OF collectedD(6)[OF assms], of set] by simp

lemma entry_blocks_sectors: "n < two32 \<Longrightarrow> entry_blocks n = sectors_of n"
  by (simp add: entry_blocks_def sectors_of_def)

lemma sectors_of_less: "n < two32 \<Longrightarrow> sectors_of n < two32"
  unfolding sectors_of_def by simp

text \<open>What one entry changes, apart from the source and the cache.\<close>

lemma collect_xbe_entry_collected:
  assumes "collect_xbe_entry mem ops c e depth = (Inr (), c')"
    and "collected v space c es" and "entry_ok e" and "depth \<le> GDOX_XDVDFS_MAX_DIRECTORY_DEPTH"
    and "u64_sub (gdox_source_sector_count ops (xc_source c)) (base_lba v) = space"
  shows "collected v space c' (es @ [e]) \<and> xc_source c' = xc_source c \<and> xc_cache c' = xc_cache c
    \<and> (\<exists>js. vec_items (xc_directories c') = vec_items (xc_directories c) @ js)"
proof -
  have ends: "u64_add (en_start_sector e) (entry_blocks (en_size e)) = entry_end e"
    using assms(3) sectors_of_less[of "en_size e"] by (simp add: entry_ok_def entry_blocks_sectors entry_end_def)
  have cast: "u32_cast (entry_blocks (en_size e)) = sectors_of (en_size e)"
    using assms(3) sectors_of_less[of "en_size e"] by (simp add: entry_ok_def entry_blocks_sectors)
  define c1 where "c1 = (if entry_end e > xc_highest c then c\<lparr>xc_highest := entry_end e\<rparr> else c)"
  have vol: "xc_volume c = v" using assms(2) by (simp add: collected_def)
  have fits: "entry_end e \<le> space" and up: "update_highest_entry ops c e = (Inr (), c1)"
    using assms(1,5) vol ends by (auto simp: collect_xbe_entry_def update_highest_entry_def c1_def Let_def split: if_splits)
  have same: "xc_source c1 = xc_source c" "xc_cache c1 = xc_cache c" "xc_volume c1 = xc_volume c"
      "xc_directories c1 = xc_directories c" "xc_visited c1 = xc_visited c" "xc_xbes c1 = xc_xbes c"
      "xc_extents c1 = xc_extents c" "xc_highest c1 = max (xc_highest c) (entry_end e)"
    by (auto simp: c1_def)
  have hi: "xc_highest c1 \<in> {33, root_end v} \<union> entry_end ` set (es @ [e])" "33 \<le> xc_highest c1"
      "root_end v \<le> xc_highest c1"
    using assms(2) same(8) by (auto simp: collected_def max_def)
  have old: "\<forall>e' \<in> set es. entry_ok e' \<and> entry_end e' \<le> space \<and> entry_end e' \<le> xc_highest c1
      \<and> (is_directory e' \<longrightarrow> ident e' \<in> dir_ident ` set (xc_visited c))"
    "map job_ident (vec_items (xc_directories c)) = root_ident v # map dir_ident (xc_visited c)"
    "distinct (map dir_ident (xc_visited c))"
    "dir_ident ` set (xc_visited c) \<subseteq> ident ` {e \<in> set es. is_directory e}"
    "case xc_extents c of None \<Rightarrow> True
        | Some w \<Rightarrow> vec_items w = map file_extent_of (filter (\<lambda>e. \<not> is_directory e) es)"
    "vec_items (xc_xbes c) = filter is_xbe es" "directory_count c \<le> GDOX_XDVDFS_MAX_DIRECTORIES"
    "\<forall>j \<in> set (vec_items (xc_directories c)). dj_depth j \<le> GDOX_XDVDFS_MAX_DIRECTORY_DEPTH"
    "length (vec_items (xc_xbes c)) \<le> GDOX_XDVDFS_MAX_ENTRIES"
    using assms(2) same(8) by (auto simp: collected_def max_def)
  have rest: "(if is_directory e then enqueue_child_directory mem c1 e depth
       else (case push_file_extent mem (xc_extents c1) e of
               Inl e \<Rightarrow> (Inl e, c1)
             | Inr extents \<Rightarrow>
                 if \<not> has_xbe_extension (en_name e) then (Inr (), c1\<lparr>xc_extents := extents\<rparr>)
                 else (case entry_vector_push mem (xc_xbes c1) e of
                         Inl e \<Rightarrow> (Inl e, c1\<lparr>xc_extents := extents\<rparr>)
                       | Inr xbes \<Rightarrow> (Inr (), c1\<lparr>xc_extents := extents, xc_xbes := xbes\<rparr>)))) = (Inr (), c')"
    using assms(1) up by (auto simp: collect_xbe_entry_def Let_def split: sum.splits if_splits)
  show ?thesis
  proof (cases "is_directory e")
    case True
    then have en: "enqueue_child_directory mem c1 e depth = (Inr (), c')" using rest by simp
    show ?thesis
    proof (cases "directory_seen (xc_visited c1) (en_start_sector e) (en_size e)")
      case seen: True
      then have "c' = c1" using en by (auto simp: enqueue_child_directory_def split: if_splits)
      have "ident e \<in> dir_ident ` set (xc_visited c)"
        using seen same by (force simp: directory_seen_def list_ex_iff ident_def dir_ident_def image_iff)
      then have all: "\<forall>e' \<in> set (es @ [e]). entry_ok e' \<and> entry_end e' \<le> space \<and> entry_end e' \<le> xc_highest c1
          \<and> (is_directory e' \<longrightarrow> ident e' \<in> dir_ident ` set (xc_visited c))"
        using old(1) assms(3) fits same(8) by simp
      have sub: "dir_ident ` set (xc_visited c) \<subseteq> ident ` {e' \<in> set (es @ [e]). is_directory e'}"
        using old(4) by (rule order_trans) auto
      have "\<not> is_xbe e" using True by (simp add: is_xbe_def)
      then show ?thesis
        unfolding \<open>c' = c1\<close> collected_def same(1-7) directory_count_def
        using all sub hi vol True old(2,3,5-9) unfolding directory_count_def by (simp split: option.splits)
    next
      case False
      let ?id = "\<lparr>di_start_sector = en_start_sector e, di_size = en_size e\<rparr>"
      let ?job = "\<lparr>dj_start_sector = en_start_sector e, dj_size = en_size e, dj_parent_path = en_path e,
                   dj_depth = depth + 1\<rparr>"
      obtain dirs where push: "directory_vector_push mem (xc_directories c) ?job = Inr dirs"
        and c': "c' = c1\<lparr>xc_visited := xc_visited c @ [?id], xc_directories := dirs\<rparr>"
        and depth: "depth < GDOX_XDVDFS_MAX_DIRECTORY_DEPTH"
        using en False same by (auto simp: enqueue_child_directory_def Let_def split: if_splits sum.splits)
      have items: "vec_items dirs = vec_items (xc_directories c) @ [?job]"
        using push by (simp add: directory_vector_push_def vec_push_items)
      have new: "ident e \<notin> dir_ident ` set (xc_visited c)"
        using False same by (auto simp: directory_seen_def list_ex_iff ident_def dir_ident_def)
      have ids: "dir_ident ?id = ident e" "job_ident ?job = ident e"
        by (simp_all add: dir_ident_def ident_def job_ident_def)
      have cnt: "directory_count c' \<le> GDOX_XDVDFS_MAX_DIRECTORIES"
        using directory_push_count[OF push] c' by (simp add: directory_count_def)
      have all: "\<forall>e' \<in> set (es @ [e]). entry_ok e' \<and> entry_end e' \<le> space \<and> entry_end e' \<le> xc_highest c1
          \<and> (is_directory e' \<longrightarrow> ident e' \<in> dir_ident ` set (xc_visited c @ [?id]))"
        using old(1) assms(3) fits same(8) ids(1) by simp
      have sub: "dir_ident ` set (xc_visited c @ [?id]) \<subseteq> ident ` {e' \<in> set (es @ [e]). is_directory e'}"
        using old(4) True ids(1) by auto
      have fields: "xc_volume c' = xc_volume c" "xc_visited c' = xc_visited c @ [?id]" "xc_directories c' = dirs"
        "xc_extents c' = xc_extents c" "xc_xbes c' = xc_xbes c" "xc_highest c' = xc_highest c1"
        "xc_source c' = xc_source c" "xc_cache c' = xc_cache c"
        using c' same by simp_all
      have "\<not> is_xbe e" using True by (simp add: is_xbe_def)
      then show ?thesis
        unfolding collected_def fields
        using all sub hi vol True old(2,3,5-9) items ids new depth cnt by (simp split: option.splits)
    qed
  next
    case False
    then obtain extents where ext: "push_file_extent mem (xc_extents c) e = Inr extents"
      using rest same by (auto split: sum.splits)
    have w: "case extents of None \<Rightarrow> xc_extents c = None
       | Some w' \<Rightarrow> (\<exists>w. xc_extents c = Some w \<and> vec_items w' = vec_items w @ [file_extent_of e])"
      using ext cast
      by (auto simp: push_file_extent_def extent_vector_push_def file_extent_of_def vec_push_items
          split: option.splits sum.splits)
    have c': "\<exists>xbes. c' = c1\<lparr>xc_extents := extents, xc_xbes := xbes\<rparr>
        \<and> vec_items xbes = vec_items (xc_xbes c) @ (if is_xbe e then [e] else [])
        \<and> length (vec_items xbes) \<le> GDOX_XDVDFS_MAX_ENTRIES"
    proof (cases "has_xbe_extension (en_name e)")
      case True
      then obtain xbes where "entry_vector_push mem (xc_xbes c) e = Inr xbes"
          "c' = c1\<lparr>xc_extents := extents, xc_xbes := xbes\<rparr>"
        using rest False same ext by (auto split: sum.splits)
      then show ?thesis using True False using vec_push_limit
        by (fastforce simp: entry_vector_push_def vec_push_items is_xbe_def)
    next
      case no: False
      then have "c' = c1\<lparr>xc_extents := extents\<rparr>" using rest False same ext by simp
      then show ?thesis using no same old(9) by (intro exI[of _ "xc_xbes c1"]) (simp add: is_xbe_def)
    qed
    then obtain xbes where c': "c' = c1\<lparr>xc_extents := extents, xc_xbes := xbes\<rparr>"
      and xbes: "vec_items xbes = vec_items (xc_xbes c) @ (if is_xbe e then [e] else [])"
      and lim: "length (vec_items xbes) \<le> GDOX_XDVDFS_MAX_ENTRIES" by blast
    have fields: "xc_volume c' = xc_volume c" "xc_visited c' = xc_visited c" "xc_directories c' = xc_directories c"
      "xc_extents c' = extents" "xc_xbes c' = xbes" "xc_highest c' = xc_highest c1"
      "xc_source c' = xc_source c" "xc_cache c' = xc_cache c" "directory_count c' = directory_count c"
      using c' same by (simp_all add: directory_count_def)
    have all: "\<forall>e' \<in> set (es @ [e]). entry_ok e' \<and> entry_end e' \<le> space \<and> entry_end e' \<le> xc_highest c1
        \<and> (is_directory e' \<longrightarrow> ident e' \<in> dir_ident ` set (xc_visited c))"
      using old(1) assms(3) fits same(8) False by simp
    have sub: "dir_ident ` set (xc_visited c) \<subseteq> ident ` {e' \<in> set (es @ [e]). is_directory e'}"
      using old(4) by (rule order_trans) auto
    have ext': "case extents of None \<Rightarrow> True
        | Some w \<Rightarrow> vec_items w = map file_extent_of (filter (\<lambda>e. \<not> is_directory e) (es @ [e]))"
      using w old(5) False by (auto split: option.splits)
    show ?thesis
      unfolding collected_def fields
      using all sub hi vol old(2,3,6-8) lim ext' xbes by simp
  qed
qed

lemma collect_entries_collected:
  assumes "collect_entries mem ops c entries depth = (Inr (), c')"
    and "collected v space c es" and "list_all entry_ok entries" and "depth \<le> GDOX_XDVDFS_MAX_DIRECTORY_DEPTH"
    and "u64_sub (gdox_source_sector_count ops (xc_source c)) (base_lba v) = space"
  shows "collected v space c' (es @ entries) \<and> xc_source c' = xc_source c \<and> xc_cache c' = xc_cache c
    \<and> (\<exists>js. vec_items (xc_directories c') = vec_items (xc_directories c) @ js)"
  using assms
proof (induction entries arbitrary: c es)
  case (Cons e entries)
  obtain c1 where c1: "collect_xbe_entry mem ops c e depth = (Inr (), c1)" "collect_entries mem ops c1 entries depth = (Inr (), c')"
    using Cons.prems(1) by (auto split: prod.splits sum.splits)
  note step = collect_xbe_entry_collected[OF c1(1) Cons.prems(2) _ Cons.prems(4,5)]
  have "collected v space c1 (es @ [e])" "xc_source c1 = xc_source c" "xc_cache c1 = xc_cache c"
    and js: "\<exists>js. vec_items (xc_directories c1) = vec_items (xc_directories c) @ js"
    using step Cons.prems(3) by auto
  with Cons.IH[OF c1(2), of "es @ [e]"] Cons.prems(3,4,5) show ?case by auto
qed simp

text \<open>The queue positions before \<open>index\<close> have been read, and \<open>ess\<close> are the entries they list.\<close>

definition traversed ::
  "(nat \<Rightarrow> byte) \<Rightarrow> xdvdfs_volume \<Rightarrow> u64 \<Rightarrow> 's xbe_collection \<Rightarrow> nat \<Rightarrow> xdvdfs_entry list list \<Rightarrow> bool" where
  "traversed f v space c index ess \<longleftrightarrow>
     collected v space c (concat ess) \<and> length ess = index \<and> index \<le> directory_count c
     \<and> (\<forall>i < index. let j = vec_items (xc_directories c) ! i
          in directory_listing (volume_span f (base_lba v) (dj_start_sector j) (dj_size j)) (dj_size j)
               (dj_parent_path j) (ess ! i))
     \<and> job_ident ` set (vec_items (xc_directories c)) \<subseteq> volume_dirs f v"

text \<open>The entries read so far are listed in directories of the volume, so the queued ones belong to it.\<close>

lemma listed_in_volume:
  assumes "directory_listing (volume_span f (base_lba v) (dj_start_sector j) (dj_size j)) (dj_size j) (dj_parent_path j) es"
    and "job_ident j \<in> volume_dirs f v" and "e \<in> set es"
  shows "e \<in> dir_entries f (base_lba v) (job_ident j) (dj_parent_path j)"
    and "is_directory e \<Longrightarrow> ident e \<in> volume_dirs f v"
proof -
  show e: "e \<in> dir_entries f (base_lba v) (job_ident j) (dj_parent_path j)"
    using directory_listing_entries[OF assms(1)] assms(3) by (simp add: job_ident_def)
  show "ident e \<in> volume_dirs f v" if dir: "is_directory e"
  proof -
    obtain e' where "e' \<in> dir_entries f (base_lba v) (job_ident j) []" "ident e' = ident e" "is_directory e'"
      using dir_entries_parent[OF e, of "[]"] dir by auto
    then show ?thesis using volume_dirs.child[OF assms(2)] by metis
  qed
qed

lemma collected_in_volume:
  assumes "collected v space c (concat ess)" and "length ess = n"
    and "\<And>i. i < n \<Longrightarrow> \<exists>j. job_ident j \<in> volume_dirs f v
       \<and> directory_listing (volume_span f (base_lba v) (dj_start_sector j) (dj_size j)) (dj_size j) (dj_parent_path j) (ess ! i)"
  shows "job_ident ` set (vec_items (xc_directories c)) \<subseteq> volume_dirs f v"
proof -
  have "ident e \<in> volume_dirs f v" if ein: "e \<in> set (concat ess)" and dir: "is_directory e" for e
  proof -
    obtain es where "es \<in> set ess" "e \<in> set es" using ein by auto
    then obtain i where "i < n" "e \<in> set (ess ! i)" using assms(2) by (metis in_set_conv_nth)
    then obtain j where "job_ident j \<in> volume_dirs f v"
        "directory_listing (volume_span f (base_lba v) (dj_start_sector j) (dj_size j)) (dj_size j) (dj_parent_path j) (ess ! i)"
      using assms(3)[of i] by blast
    from listed_in_volume(2)[OF this(2,1) \<open>e \<in> set (ess ! i)\<close> dir] show ?thesis .
  qed
  then have "ident ` {e \<in> set (concat ess). is_directory e} \<subseteq> volume_dirs f v"
    by (intro image_subsetI) simp
  with collectedD(8)[OF assms(1)] have "dir_ident ` set (xc_visited c) \<subseteq> volume_dirs f v" by (rule order_trans)
  then show ?thesis using volume_dirs.root[of v f] collected_jobs[OF assms(1)] by simp
qed

lemma jobs_ok:
  assumes "collected v space c es" and "j \<in> set (vec_items (xc_directories c))"
    and "root_directory_sector v < two32"
  shows "dj_start_sector j < two32"
proof -
  have "job_ident j \<in> insert (root_ident v) (dir_ident ` set (xc_visited c))"
    unfolding collected_jobs[OF assms(1), symmetric] using assms(2) by (rule imageI)
  moreover have "dir_ident ` set (xc_visited c) \<subseteq> ident ` set es"
    using collectedD(8)[OF assms(1)] by (rule order_trans) auto
  ultimately have "job_ident j \<in> insert (root_ident v) (ident ` set es)" by blast
  then show ?thesis
    using collectedD(2)[OF assms(1)] assms(3) by (auto simp: root_ident_def ident_def job_ident_def entry_ok_def)
qed

context sector_source
begin

definition collecting :: "'s \<Rightarrow> 's xbe_collection \<Rightarrow> bool" where
  "collecting s c \<longleftrightarrow>
     (\<exists>s'. xc_source c = Some s' \<and> view_kept ops valid contents s s')
     \<and> cache_collects (contents s) (base_lba (xc_volume c)) (xc_cache c)"

lemma collect_entries_collecting:
  "collect_entries mem ops c entries depth = (r, c') \<Longrightarrow> collecting s c \<Longrightarrow> collecting s c' \<and> xc_volume c' = xc_volume c"
proof (induction entries arbitrary: c)
  case (Cons e es)
  have "collecting s c1 \<and> xc_volume c1 = xc_volume c" if "collect_xbe_entry mem ops c e depth = (q, c1)" for q c1
    using that Cons.prems(2)
    by (auto simp: collect_xbe_entry_def update_highest_entry_def enqueue_child_directory_def Let_def collecting_def
        split: if_splits sum.splits)
  then show ?case using Cons by (fastforce split: prod.splits sum.splits)
qed simp

lemma process_collecting:
  assumes "process_xbe_directory mem ops c index = (r, c')" and "collecting s c"
    and "base_lba (xc_volume c) + two32 \<le> two64"
    and "dj_start_sector (vec_items (xc_directories c) ! index) < two32"
  shows "collecting s c' \<and> xc_volume c' = xc_volume c"
proof -
  let ?j = "vec_items (xc_directories c) ! index"
  obtain s1 where s1: "xc_source c = Some s1" "view_kept ops valid contents s s1" "valid s1" "contents s1 = contents s"
    using assms(2) by (auto simp: collecting_def view_kept_def)
  obtain q h dc where rd: "read_directory mem ops (Some s1) (xc_volume c) (xc_cache c) (dj_start_sector ?j)
      (dj_size ?j) (dj_parent_path ?j) vec_empty = (q, h, dc)" by (metis prod_cases3)
  have sp: "(\<exists>s'. h = Some s' \<and> view_kept ops valid contents s1 s') \<and> cache_collects (contents s1) (base_lba (xc_volume c)) dc"
    using read_directory_spec[OF s1(3) _ rd] assms(2,3,4) s1(4) by (auto simp: collecting_def)
  then have "collecting s (c\<lparr>xc_source := h, xc_cache := dc\<rparr>)"
    using s1 view_kept_trans[OF s1(2)] by (auto simp: collecting_def)
  then show ?thesis
    using collect_entries_collecting[where s = s and mem = mem and c = "c\<lparr>xc_source := h, xc_cache := dc\<rparr>"] assms(1) rd s1(1)
    by (auto simp: process_xbe_directory_def Let_def split: sum.splits)
qed

lemma process_traversed:
  assumes "process_xbe_directory mem ops c index = (Inr (), c')"
    and "traversed (contents s) v space c index ess" and "collecting s c" and "index < directory_count c"
    and "base_lba v + two32 \<le> two64" and "root_directory_sector v < two32"
    and "u64_sub (op_sector_count ops s) (base_lba v) = space"
  shows "\<exists>es. traversed (contents s) v space c' (Suc index) (ess @ [es]) \<and> base_lba v \<le> op_sector_count ops s"
proof -
  let ?j = "vec_items (xc_directories c) ! index"
  have col: "collected v space c (concat ess)" and vol: "xc_volume c = v"
    using assms(2) by (auto simp: traversed_def collected_def)
  have jin: "?j \<in> set (vec_items (xc_directories c))" using assms(4) by (simp add: directory_count_def)
  obtain s1 where s1: "xc_source c = Some s1" "view_kept ops valid contents s s1" "valid s1" "contents s1 = contents s"
      "op_sector_count ops s1 = op_sector_count ops s"
    using assms(3) by (auto simp: collecting_def view_kept_def)
  obtain q h dc where rd: "read_directory mem ops (Some s1) v (xc_cache c) (dj_start_sector ?j)
      (dj_size ?j) (dj_parent_path ?j) vec_empty = (q, h, dc)" by (metis prod_cases3)
  obtain entries where q: "q = Inr entries"
    and ce: "collect_entries mem ops (c\<lparr>xc_source := h, xc_cache := dc\<rparr>) (vec_items entries) (dj_depth ?j) = (Inr (), c')"
    using assms(1) rd s1(1) vol by (auto simp: process_xbe_directory_def Let_def split: sum.splits)
  have start: "base_lba v + dj_start_sector ?j < two64"
    using jobs_ok[OF col jin assms(6)] assms(5) by simp
  have cc: "cache_collects (contents s1) (base_lba v) (xc_cache c)"
    using assms(3) s1(4) vol by (simp add: collecting_def)
  from read_directory_spec[OF s1(3) start rd cc] q s1(4,5)
  obtain s2 where h: "h = Some s2" "view_kept ops valid contents s1 s2"
    and listing: "directory_listing (volume_span (contents s) (base_lba v) (dj_start_sector ?j) (dj_size ?j)) (dj_size ?j)
        (dj_parent_path ?j) (vec_items entries)"
    and le: "base_lba v \<le> op_sector_count ops s" by auto
  have eok: "list_all entry_ok (vec_items entries)"
    using directory_listing_entries[OF listing] dir_entries_ok by (auto simp: list_all_iff)
  have dep: "dj_depth ?j \<le> GDOX_XDVDFS_MAX_DIRECTORY_DEPTH" using col jin by (auto simp: collected_def)
  have sp: "u64_sub (gdox_source_sector_count ops (xc_source (c\<lparr>xc_source := h, xc_cache := dc\<rparr>))) (base_lba v) = space"
    using assms(7) h s1(5) by (simp add: view_kept_def)
  let ?c = "c\<lparr>xc_source := h, xc_cache := dc\<rparr>"
  have fields: "xc_volume ?c = xc_volume c" "xc_directories ?c = xc_directories c" "xc_visited ?c = xc_visited c"
    "xc_xbes ?c = xc_xbes c" "xc_extents ?c = xc_extents c" "xc_highest ?c = xc_highest c"
    by simp_all
  have "collected v space ?c (concat ess)"
    using col unfolding collected_def directory_count_def fields .
  from collect_entries_collected[OF ce this eok dep sp]
  obtain js where c': "collected v space c' (concat ess @ vec_items entries)"
    and js: "vec_items (xc_directories c') = vec_items (xc_directories c) @ js" by auto
  let ?ess = "ess @ [vec_items entries]"
  have jobs: "\<forall>i < Suc index. let j = vec_items (xc_directories c') ! i
      in job_ident j \<in> volume_dirs (contents s) v
        \<and> directory_listing (volume_span (contents s) (base_lba v) (dj_start_sector j) (dj_size j)) (dj_size j)
             (dj_parent_path j) (?ess ! i)"
    using assms(2,4) js listing
    by (auto simp: traversed_def directory_count_def Let_def nth_append less_Suc_eq)
  have "job_ident ` set (vec_items (xc_directories c')) \<subseteq> volume_dirs (contents s) v"
  proof (rule collected_in_volume[of v space c' ?ess "Suc index"])
    show "collected v space c' (concat ?ess)" using c' by simp
    show "length ?ess = Suc index" using assms(2) by (simp add: traversed_def)
  qed (use jobs in \<open>auto simp: Let_def\<close>)
  then have "traversed (contents s) v space c' (Suc index) ?ess"
    using assms(2,4) c' js jobs
    by (simp add: traversed_def directory_count_def Let_def)
  then show ?thesis using le by blast
qed

lemma collect_loop_traversed:
  assumes "collect_loop mem ops c index = (r, c')" and "traversed (contents s) v space c index ess" and "collecting s c"
    and "base_lba v + two32 \<le> two64" and "root_directory_sector v < two32"
    and "u64_sub (op_sector_count ops s) (base_lba v) = space"
  shows "collecting s c' \<and> xc_volume c' = v \<and> (r = Inr () \<longrightarrow>
      (\<exists>ess'. traversed (contents s) v space c' (directory_count c') ess'
        \<and> (index < directory_count c' \<longrightarrow> base_lba v \<le> op_sector_count ops s)))"
  using assms(1-3)
proof (induction "max GDOX_XDVDFS_MAX_DIRECTORIES (directory_count c) - index" arbitrary: c index ess rule: less_induct)
  case less
  have col: "collected v space c (concat ess)" and vol: "xc_volume c = v"
    using less.prems(2) by (auto simp: traversed_def collected_def)
  show ?case
  proof (cases "index < directory_count c")
    case False
    then have "c' = c" "index = directory_count c" using less.prems by (auto simp: collect_loop.simps traversed_def)
    then show ?thesis using less.prems vol by auto
  next
    case True
    obtain q c1 where p: "process_xbe_directory mem ops c index = (q, c1)" by fastforce
    have jin: "vec_items (xc_directories c) ! index \<in> set (vec_items (xc_directories c))"
      using True by (simp add: directory_count_def)
    have keep: "collecting s c1" "xc_volume c1 = v"
      using process_collecting[OF p less.prems(3)] vol assms(4) jobs_ok[OF col jin assms(5)] by auto
    note unfolded = trans[OF collect_loop.simps[symmetric] less.prems(1)]
    show ?thesis
    proof (cases q)
      case (Inl e)
      then show ?thesis using unfolded True p keep by auto
    next
      case (Inr u)
      then have p': "process_xbe_directory mem ops c index = (Inr (), c1)" using p by simp
      obtain es where es: "traversed (contents s) v space c1 (Suc index) (ess @ [es])" "base_lba v \<le> op_sector_count ops s"
        using process_traversed[OF p' less.prems(2,3) True assms(4,5,6)] by blast
      have loop: "collect_loop mem ops c1 (Suc index) = (r, c')" using unfolded True p' by simp
      have "max GDOX_XDVDFS_MAX_DIRECTORIES (directory_count c1) \<le> max GDOX_XDVDFS_MAX_DIRECTORIES (directory_count c)"
        using process_xbe_directory_count[OF p'] by simp
      moreover have "index < max GDOX_XDVDFS_MAX_DIRECTORIES (directory_count c)" using True by simp
      ultimately have "max GDOX_XDVDFS_MAX_DIRECTORIES (directory_count c1) - Suc index
          < max GDOX_XDVDFS_MAX_DIRECTORIES (directory_count c) - index" by linarith
      from less.hyps[OF this loop es(1) keep(1)] es(2) show ?thesis by blast
    qed
  qed
qed

end

section \<open>What the traversal returns\<close>

text \<open>A finished traversal has queued exactly the directories of the volume.\<close>

lemma traversed_done:
  assumes "traversed f v space c (directory_count c) ess"
  shows "job_ident ` set (vec_items (xc_directories c)) = volume_dirs f v"
proof
  let ?jobs = "vec_items (xc_directories c)"
  have col: "collected v space c (concat ess)" and len: "length ess = length ?jobs"
    and ls: "\<And>i. i < length ?jobs \<Longrightarrow> directory_listing (volume_span f (base_lba v) (dj_start_sector (?jobs ! i))
        (dj_size (?jobs ! i))) (dj_size (?jobs ! i)) (dj_parent_path (?jobs ! i)) (ess ! i)"
    using assms by (simp_all add: traversed_def directory_count_def Let_def)
  show "job_ident ` set ?jobs \<subseteq> volume_dirs f v" using assms by (simp add: traversed_def)
  show "volume_dirs f v \<subseteq> job_ident ` set ?jobs"
  proof
    fix d assume "d \<in> volume_dirs f v"
    then show "d \<in> job_ident ` set ?jobs"
    proof induction
      case root
      then show ?case using collected_jobs[OF col] by simp
    next
      case (child d e)
      then obtain i where i: "i < length ?jobs" "d = job_ident (?jobs ! i)" by (auto simp: in_set_conv_nth)
      obtain e' where e': "e' \<in> dir_entries f (base_lba v) d (dj_parent_path (?jobs ! i))" "ident e' = ident e" "is_directory e'"
        using dir_entries_parent[OF child(2)] child(3) by metis
      have "e' \<in> set (ess ! i)" using directory_listing_entries[OF ls[OF i(1)]] e'(1) i(2) by (simp add: job_ident_def)
      moreover have "ess ! i \<in> set ess" using i(1) len by simp
      ultimately have "e' \<in> set (concat ess)" by auto
      then have "ident e' \<in> dir_ident ` set (xc_visited c)" using collectedD(2)[OF col] e'(3) by blast
      then show ?case using collected_jobs[OF col] e'(2) by simp
    qed
  qed
qed

text \<open>The entries it collected are those of the volume's directories.\<close>

lemma traversed_entries:
  assumes "traversed f v space c (directory_count c) ess"
  shows "e \<in> set (concat ess) \<Longrightarrow> \<exists>d \<in> volume_dirs f v. \<exists>parent. e \<in> dir_entries f (base_lba v) d parent"
    and "d \<in> volume_dirs f v \<Longrightarrow> e \<in> dir_entries f (base_lba v) d parent \<Longrightarrow>
      \<exists>e' \<in> set (concat ess). en_name e' = en_name e \<and> ident e' = ident e \<and> is_directory e' = is_directory e \<and> entry_end e' = entry_end e"
proof -
  let ?jobs = "vec_items (xc_directories c)"
  have len: "length ess = length ?jobs"
    and ls: "\<And>i. i < length ?jobs \<Longrightarrow> directory_listing (volume_span f (base_lba v) (dj_start_sector (?jobs ! i))
        (dj_size (?jobs ! i))) (dj_size (?jobs ! i)) (dj_parent_path (?jobs ! i)) (ess ! i)"
    using assms by (simp_all add: traversed_def directory_count_def Let_def)
  show "\<exists>d \<in> volume_dirs f v. \<exists>parent. e \<in> dir_entries f (base_lba v) d parent" if e: "e \<in> set (concat ess)"
  proof -
    obtain es where "es \<in> set ess" "e \<in> set es" using e by auto
    then obtain i where i: "i < length ?jobs" "e \<in> set (ess ! i)" using len by (metis in_set_conv_nth)
    have "job_ident (?jobs ! i) \<in> volume_dirs f v" using traversed_done[OF assms] i(1) by force
    moreover have "e \<in> dir_entries f (base_lba v) (job_ident (?jobs ! i)) (dj_parent_path (?jobs ! i))"
      using directory_listing_entries[OF ls[OF i(1)]] i(2) by (simp add: job_ident_def)
    ultimately show ?thesis by blast
  qed
  show "\<exists>e' \<in> set (concat ess). en_name e' = en_name e \<and> ident e' = ident e \<and> is_directory e' = is_directory e \<and> entry_end e' = entry_end e"
    if d: "d \<in> volume_dirs f v" and e: "e \<in> dir_entries f (base_lba v) d parent"
  proof -
    obtain i where i: "i < length ?jobs" "d = job_ident (?jobs ! i)"
      using d unfolding traversed_done[OF assms, symmetric] by (auto simp: in_set_conv_nth)
    obtain e' where e': "e' \<in> dir_entries f (base_lba v) d (dj_parent_path (?jobs ! i))"
        "en_name e' = en_name e" "ident e' = ident e" "is_directory e' = is_directory e" "entry_end e' = entry_end e"
      using dir_entries_parent[OF e] by blast
    have "e' \<in> set (ess ! i)" using directory_listing_entries[OF ls[OF i(1)]] e'(1) i(2) by (simp add: job_ident_def)
    moreover have "ess ! i \<in> set ess" using i(1) len by simp
    ultimately have "e' \<in> set (concat ess)" by auto
    with e' show ?thesis by blast
  qed
qed

text \<open>Whether extents and directories are retained does not change on the way.\<close>

definition same_retention :: "'s xbe_collection \<Rightarrow> 's xbe_collection \<Rightarrow> bool" where
  "same_retention c c' \<longleftrightarrow> (xc_extents c' = None) = (xc_extents c = None) \<and> (xc_cache c' = None) = (xc_cache c = None)"

lemma collect_entries_retention:
  "collect_entries mem ops c entries depth = (r, c') \<Longrightarrow> same_retention c c'"
proof (induction entries arbitrary: c)
  case (Cons e es)
  have "same_retention c c1" if "collect_xbe_entry mem ops c e depth = (q, c1)" for q c1
    using that
    by (auto simp: same_retention_def collect_xbe_entry_def update_highest_entry_def enqueue_child_directory_def
        push_file_extent_def Let_def split: if_splits sum.splits option.splits)
  then show ?case using Cons by (fastforce simp: same_retention_def split: prod.splits sum.splits)
qed (simp add: same_retention_def)

lemma read_directory_retention:
  "read_directory mem ops h v cache start n parent entries = (r, h', cache') \<Longrightarrow> (cache' = None) = (cache = None)"
  by (auto simp: read_directory_def retain_directory_def Let_def split: if_splits sum.splits prod.splits option.splits)

lemma process_directory_retention:
  assumes "process_xbe_directory mem ops c index = (q, c1)"
  shows "same_retention c c1"
proof -
  let ?j = "vec_items (xc_directories c) ! index"
  obtain r h cache where rd: "read_directory mem ops (xc_source c) (xc_volume c) (xc_cache c) (dj_start_sector ?j) (dj_size ?j)
      (dj_parent_path ?j) vec_empty = (r, h, cache)" by (metis prod_cases3)
  show ?thesis
  proof (cases r)
    case (Inl e)
    then show ?thesis
      using assms rd read_directory_retention[OF rd] by (auto simp: process_xbe_directory_def same_retention_def Let_def)
  next
    case (Inr entries)
    then have "collect_entries mem ops (c\<lparr>xc_source := h, xc_cache := cache\<rparr>) (vec_items entries) (dj_depth ?j) = (q, c1)"
      using assms rd by (simp add: process_xbe_directory_def Let_def)
    from collect_entries_retention[OF this] read_directory_retention[OF rd] show ?thesis
      by (simp add: same_retention_def)
  qed
qed

lemma collect_loop_retention:
  "collect_loop mem ops c index = (r, c') \<Longrightarrow> same_retention c c'"
proof (induction mem ops c index rule: collect_loop.induct)
  case (1 mem ops c index)
  note unfolded = trans[OF collect_loop.simps[symmetric] "1.prems"]
  show ?case
  proof (cases "index < directory_count c")
    case True
    obtain q c1 where p: "process_xbe_directory mem ops c index = (q, c1)" by fastforce
    then show ?thesis
      using "1.IH"[OF True p[symmetric]] unfolded True p process_directory_retention[OF p]
      by (cases q) (auto simp: same_retention_def)
  qed (use unfolded in \<open>auto simp: same_retention_def\<close>)
qed

lemma initialize_traversed:
  assumes "initialize_xbe_collection mem \<lparr>xc_source = h, xc_volume = v, xc_cache = cache, xc_directories = vec_empty,
               xc_visited = [], xc_xbes = vec_empty, xc_extents = (if we then Some vec_empty else None),
               xc_highest = GDOX_XDVDFS_VOLUME_DESCRIPTOR_SECTOR + 1\<rparr> = (r, c)"
    and "root_directory_sector v < two32" and "root_directory_size v < two32"
  shows "xc_source c = h \<and> xc_cache c = cache \<and> xc_volume c = v
    \<and> (xc_extents c = None \<longleftrightarrow> \<not> we) \<and> (r = Inr () \<longrightarrow> traversed f v space c 0 [] \<and> 0 < directory_count c)"
proof -
  have e: "u64_add (root_directory_sector v) (entry_blocks (root_directory_size v)) = root_end v"
    using assms(2,3) sectors_of_less[OF assms(3)] by (simp add: entry_blocks_sectors root_end_def)
  show ?thesis
    using assms(1) volume_dirs.root[of v f]
    by (auto simp: initialize_xbe_collection_def Let_def e traversed_def collected_def directory_count_def
        directory_vector_push_def GDOX_XDVDFS_VOLUME_DESCRIPTOR_SECTOR_def GDOX_XDVDFS_MAX_DIRECTORIES_def
        job_ident_def root_ident_def vec_empty_def vec_push_def split: if_splits sum.splits)
qed

context sector_source
begin

lemma collect_xbe_entries_traversed:
  assumes "valid s" and "base_lba v + two32 \<le> two64" and "root_directory_sector v < two32"
    and "root_directory_size v < two32" and "cache_collects (contents s) (base_lba v) cache"
    and "collect_xbe_entries mem ops (Some s) v we cache = (r, h, cache')"
  shows "(\<exists>s'. h = Some s' \<and> view_kept ops valid contents s s') \<and> cache_collects (contents s) (base_lba v) cache'
    \<and> (cache' = None \<longleftrightarrow> cache = None)
    \<and> (\<forall>xbes extents highest. r = Inr (xbes, extents, highest) \<longrightarrow>
        base_lba v \<le> op_sector_count ops s
        \<and> (\<exists>c :: 's xbe_collection. \<exists>ess. traversed (contents s) v (op_sector_count ops s - base_lba v) c (directory_count c) ess
           \<and> highest = xc_highest c
           \<and> xbes = (if length (filter is_xbe (concat ess)) > 1 then qsort compare_entries (filter is_xbe (concat ess))
                     else filter is_xbe (concat ess))
           \<and> (we \<longrightarrow> extents = index_extents (map file_extent_of (filter (\<lambda>e. \<not> is_directory e) (concat ess))))))"
proof -
  define space where "space = u64_sub (op_sector_count ops s) (base_lba v)"
  obtain q c where init: "initialize_xbe_collection mem \<lparr>xc_source = Some s, xc_volume = v, xc_cache = cache, xc_directories = vec_empty,
               xc_visited = [], xc_xbes = vec_empty, xc_extents = (if we then Some vec_empty else None),
               xc_highest = GDOX_XDVDFS_VOLUME_DESCRIPTOR_SECTOR + 1\<rparr> = (q, c)" by fastforce
  note it = initialize_traversed[OF init assms(3,4), of "contents s" space]
  have col: "collecting s c" using it assms(1,5) by (simp add: collecting_def view_kept_refl)
  show ?thesis
  proof (cases q)
    case (Inl e)
    have "(r, h, cache') = (Inl e, xc_source c, xc_cache c)"
      using trans[OF assms(6)[symmetric] collect_xbe_entries_def] init Inl by (simp add: Let_def)
    then show ?thesis using it assms(5) view_kept_refl[where valid = valid and s = s] assms(1) by simp
  next
    case (Inr u)
    then have qi: "q = Inr ()" and tr: "traversed (contents s) v space c 0 []" and pos: "0 < directory_count c" using it by auto
    obtain q2 c2 where lp: "collect_loop mem ops c 0 = (q2, c2)" by fastforce
    have cl: "collecting s c2" and vol: "xc_volume c2 = v"
      and fin: "q2 = Inr () \<longrightarrow> (\<exists>ess'. traversed (contents s) v space c2 (directory_count c2) ess'
        \<and> (0 < directory_count c2 \<longrightarrow> base_lba v \<le> op_sector_count ops s))"
      using collect_loop_traversed[OF lp tr col assms(2,3)] by (auto simp: space_def)
    have ext: "xc_extents c2 = None \<longleftrightarrow> \<not> we" and dcs: "xc_cache c2 = None \<longleftrightarrow> cache = None"
      using collect_loop_retention[OF lp] it unfolding same_retention_def by auto
    show ?thesis
    proof (cases q2)
      case (Inl e)
      have "(r, h, cache') = (Inl e, xc_source c2, xc_cache c2)"
        using trans[OF assms(6)[symmetric] collect_xbe_entries_def] init qi lp Inl by (simp add: Let_def)
      then show ?thesis using cl vol dcs by (simp add: collecting_def)
    next
      case (Inr u2)
      with fin obtain ess where ess: "traversed (contents s) v space c2 (directory_count c2) ess"
        "0 < directory_count c2 \<longrightarrow> base_lba v \<le> op_sector_count ops s"
        using fin by auto
      have c2: "collected v space c2 (concat ess)" using ess(1) by (simp add: traversed_def)
      have le: "base_lba v \<le> op_sector_count ops s"
        using ess(2) collectedD(6)[OF c2] by (cases "vec_items (xc_directories c2)") (auto simp: directory_count_def)
      then have sp: "space = op_sector_count ops s - base_lba v"
        using count_less[OF assms(1)] by (simp add: space_def)
      define files where "files = filter is_xbe (concat ess)"
      have xb: "vec_items (xc_xbes c2) = files" using collectedD(10)[OF c2] by (simp add: files_def)
      have out: "(r, h, cache') = (Inr (if length files > 1 then qsort compare_entries files else files,
          case xc_extents c2 of None \<Rightarrow> [] | Some v \<Rightarrow> index_extents (vec_items v), xc_highest c2), xc_source c2, xc_cache c2)"
        using trans[OF assms(6)[symmetric] collect_xbe_entries_def] init qi lp Inr xb by (simp add: Let_def)
      have exts: "we \<longrightarrow> (case xc_extents c2 of None \<Rightarrow> [] | Some v \<Rightarrow> index_extents (vec_items v)) =
          index_extents (map file_extent_of (filter (\<lambda>e. \<not> is_directory e) (concat ess)))"
        using ext collectedD(9)[OF c2] by (auto split: option.splits)
      have kept: "\<exists>s'. h = Some s' \<and> view_kept ops valid contents s s'" "cache_collects (contents s) (base_lba v) cache'" "cache' = None \<longleftrightarrow> cache = None"
        using cl vol out dcs by (auto simp: collecting_def)
      have r: "r = Inr (if length files > 1 then qsort compare_entries files else files,
          case xc_extents c2 of None \<Rightarrow> [] | Some v \<Rightarrow> index_extents (vec_items v), xc_highest c2)"
        using out by simp
      have some: "traversed (contents s) v (op_sector_count ops s - base_lba v) c2 (directory_count c2) ess"
        using ess(1) sp by simp
      show ?thesis
        using kept le some exts unfolding r files_def by blast
    qed
  qed
qed

end

lemma find_default_xbe_spec:
  "find_default_xbe entries index = n \<Longrightarrow> index + length entries < GDOX_XDVDFS_NO_ENTRY \<Longrightarrow>
   (if n = GDOX_XDVDFS_NO_ENTRY
    then list_all (\<lambda>e. ascii_case_compare (en_path e) (ascii ''/default.xbe'') \<noteq> 0) entries
    else index \<le> n \<and> n < index + length entries
      \<and> ascii_case_compare (en_path (entries ! (n - index))) (ascii ''/default.xbe'') = 0
      \<and> list_all (\<lambda>e. ascii_case_compare (en_path e) (ascii ''/default.xbe'') \<noteq> 0) (take (n - index) entries))"
proof (induction entries arbitrary: index)
  case (Cons e es)
  show ?case
  proof (cases "ascii_case_compare (en_path e) (ascii ''/default.xbe'') = 0")
    case False
    then show ?thesis
      using Cons.IH[of "Suc index"] Cons.prems
      by (auto simp: Suc_diff_le nth_Cons' take_Cons' split: if_splits)
  qed (use Cons.prems in auto)
qed simp

text \<open>The executables of a volume: name, first sector and size of every \<open>*.xbe\<close> in a reachable directory.\<close>

definition volume_executables :: "(nat \<Rightarrow> byte) \<Rightarrow> xdvdfs_volume \<Rightarrow> (cstring \<times> nat \<times> nat) set" where
  "volume_executables f v =
     {(en_name e, ident e) | d e. d \<in> volume_dirs f v \<and> e \<in> dir_entries f (base_lba v) d [] \<and> is_xbe e}"

text \<open>The metadata describe the default executable, or say that there is none.\<close>

definition default_described :: "(nat \<Rightarrow> bool) \<Rightarrow> (nat \<Rightarrow> byte) \<Rightarrow> xdvdfs_volume \<Rightarrow> xdvdfs_metadata \<Rightarrow> bool" where
  "default_described mem f v md \<longleftrightarrow>
     (if md_default_xbe_index md = GDOX_XDVDFS_NO_ENTRY
      then list_all (\<lambda>e. ascii_case_compare (en_path e) (ascii ''/default.xbe'') \<noteq> 0) (md_xbe_files md)
        \<and> md_title md = None \<and> md_title_id md = None
      else md_default_xbe_index md < length (md_xbe_files md)
        \<and> (let e = md_xbe_files md ! md_default_xbe_index md
           in ascii_case_compare (en_path e) (ascii ''/default.xbe'') = 0
            \<and> (md_title md, md_title_id md) =
                xbe_title mem (volume_span f (base_lba v) (en_start_sector e) (en_size e)) (en_size e)))"

context sector_source
begin

text \<open>What one inspection leaves: the source, the collected directories, and metadata that fit the partition.\<close>

lemma inspect_xdvdfs_fits:
  assumes "valid s" and "base_lba v + two32 \<le> two64" and "root_directory_sector v < two32"
    and "root_directory_size v < two32" and "cache_collects (contents s) (base_lba v) cache"
    and "inspect_xdvdfs mem ops (Some s) v cache = (Inr md, h, cache')"
  shows "\<exists>s'. h = Some s' \<and> view_kept ops valid contents s s' \<and> cache_collects (contents s) (base_lba v) cache'
    \<and> (cache' = None \<longleftrightarrow> cache = None) \<and> base_lba v \<le> op_sector_count ops s
    \<and> list_all (\<lambda>e. entry_ok e \<and> entry_end e \<le> op_sector_count ops s - base_lba v) (md_xbe_files md)
    \<and> sorted_wrt (\<lambda>a b. compare_entries a b \<le> 0) (md_xbe_files md)
    \<and> (\<lambda>e. (en_name e, ident e)) ` set (md_xbe_files md) = volume_executables (contents s) v
    \<and> default_described mem (contents s) v md"
proof -
  obtain r h' c' where col: "collect_xbe_entries mem ops (Some s) v True cache = (r, h', c')"
    by (metis prod_cases3)
  obtain xbes extents highest where r: "r = Inr (xbes, extents, highest)"
    using assms(6) col by (auto simp: inspect_xdvdfs_def split: sum.splits)
  note sp = collect_xbe_entries_traversed[OF assms(1,2,3,4,5) col]
  obtain c :: "'s xbe_collection" and ess where
    tr: "traversed (contents s) v (op_sector_count ops s - base_lba v) c (directory_count c) ess"
    and xbes: "xbes = (if length (filter is_xbe (concat ess)) > 1 then qsort compare_entries (filter is_xbe (concat ess))
                     else filter is_xbe (concat ess))"
    and le: "base_lba v \<le> op_sector_count ops s"
    using sp r by blast
  obtain s' where s': "h' = Some s'" "view_kept ops valid contents s s'" using sp by auto
  have cl: "collected v (op_sector_count ops s - base_lba v) c (concat ess)" using tr by (simp add: traversed_def)
  have set_xbes: "set xbes = {e \<in> set (concat ess). is_xbe e}" unfolding xbes by auto
  have "length xbes = length (filter is_xbe (concat ess))" unfolding xbes by simp
  then have len: "length xbes < GDOX_XDVDFS_NO_ENTRY"
    using collectedD(10,13)[OF cl] by (simp add: GDOX_XDVDFS_MAX_ENTRIES_def GDOX_XDVDFS_NO_ENTRY_def SIZE_MAX_def)
  have ends: "\<forall>e \<in> set xbes. entry_ok e \<and> entry_end e \<le> op_sector_count ops s - base_lba v"
    using collectedD(2)[OF cl] set_xbes by blast
  have sorted: "sorted_wrt (\<lambda>a b. compare_entries a b \<le> 0) xbes"
  proof (cases "length (filter is_xbe (concat ess)) > 1")
    case True
    then show ?thesis using xbes xbe_paths.sorted_qsort by simp
  next
    case False
    then have "length xbes \<le> 1" using xbes by simp
    then show ?thesis by (cases xbes) auto
  qed
  have keys: "(\<lambda>e. (en_name e, ident e)) ` set xbes =
      volume_executables (contents s) v"
    unfolding volume_executables_def
  proof (intro equalityI subsetI)
    fix k assume "k \<in> (\<lambda>e. (en_name e, ident e)) ` set xbes"
    then obtain e where e: "e \<in> set (concat ess)" "is_xbe e" "k = (en_name e, ident e)" using set_xbes by auto
    obtain d parent where d: "d \<in> volume_dirs (contents s) v" "e \<in> dir_entries (contents s) (base_lba v) d parent"
      using traversed_entries(1)[OF tr e(1)] by blast
    obtain e' where "e' \<in> dir_entries (contents s) (base_lba v) d []" "en_name e' = en_name e" "ident e' = ident e"
        "is_directory e' = is_directory e"
      using dir_entries_parent[OF d(2)] by blast
    then show "k \<in> {(en_name e, ident e) | d e. d \<in> volume_dirs (contents s) v
         \<and> e \<in> dir_entries (contents s) (base_lba v) d [] \<and> is_xbe e}"
      using d(1) e(2,3) unfolding is_xbe_def mem_Collect_eq by metis
  next
    fix k assume "k \<in> {(en_name e, ident e) | d e. d \<in> volume_dirs (contents s) v
         \<and> e \<in> dir_entries (contents s) (base_lba v) d [] \<and> is_xbe e}"
    then obtain d e where d: "d \<in> volume_dirs (contents s) v" and e: "e \<in> dir_entries (contents s) (base_lba v) d []"
      "is_xbe e" "k = (en_name e, ident e)" by auto
    obtain e' where "e' \<in> set (concat ess)" "en_name e' = en_name e" "ident e' = ident e" "is_directory e' = is_directory e"
      using traversed_entries(2)[OF tr d e(1)] by blast
    then show "k \<in> (\<lambda>e. (en_name e, ident e)) ` set xbes"
      using e(2,3) set_xbes by (auto simp: is_xbe_def intro!: image_eqI[of _ _ e'])
  qed
  define n where "n = find_default_xbe xbes 0"
  note fd = find_default_xbe_spec[of xbes 0 n, simplified, OF n_def[symmetric] len]
  have vs: "valid s'" "contents s' = contents s" "op_sector_count ops s' = op_sector_count ops s"
    using s'(2) by (simp_all add: view_kept_def)
  have after: "(\<exists>s''. h2 = Some s'' \<and> view_kept ops valid contents s s'')
      \<and> (\<forall>t. q = Inr t \<longrightarrow> t = xbe_title mem (volume_span (contents s) (base_lba v) (en_start_sector (xbes ! n))
            (en_size (xbes ! n))) (en_size (xbes ! n)))"
    if n: "n \<noteq> GDOX_XDVDFS_NO_ENTRY" and rt: "read_xbe_title mem ops h' (base_lba v) (xbes ! n) = (q, h2)" for q h2
  proof -
    have "entry_end (xbes ! n) \<le> op_sector_count ops s - base_lba v" using fd n ends by simp
    then have "base_lba v + en_start_sector (xbes ! n) + sectors_of (en_size (xbes ! n)) \<le> op_sector_count ops s'"
      using le vs by (simp add: entry_end_def)
    from read_xbe_title_spec[OF vs(1) this rt[unfolded s'(1)]] show ?thesis
      using view_kept_trans[OF s'(2)] vs(2) by auto
  qed
  have md: "md_xbe_files md = xbes" "md_default_xbe_index md = n" "cache' = c'"
    using assms(6) col r by (auto simp: inspect_xdvdfs_def n_def Let_def split: sum.splits if_splits prod.splits)
  have "(\<exists>s''. h = Some s'' \<and> view_kept ops valid contents s s'') \<and> default_described mem (contents s) v md"
  proof (cases "n = GDOX_XDVDFS_NO_ENTRY")
    case True
    then have "h = h'" "md_title md = None" "md_title_id md = None"
      using assms(6) col r by (auto simp: inspect_xdvdfs_def n_def[symmetric])
    then show ?thesis using s' True fd md by (simp add: default_described_def)
  next
    case False
    obtain q h2 where rt: "read_xbe_title mem ops h' (base_lba v) (xbes ! n) = (q, h2)" by fastforce
    then have "h = h2" "q = Inr (md_title md, md_title_id md)"
      using assms(6) col r False by (auto simp: inspect_xdvdfs_def n_def[symmetric] split: sum.splits)
    then show ?thesis using after[OF False rt] fd md False by (simp add: default_described_def)
  qed
  then show ?thesis using sp r md ends le sorted keys by (auto simp: list_all_iff)
qed

lemma inspect_with_cache_fits:
  assumes "valid s" and "base_lba v + two32 \<le> two64" and "root_directory_sector v < two32"
    and "root_directory_size v < two32"
    and "gdox_xdvdfs_inspect_with_directory_cache mem ops (Some s) v None = (Inr md, h, cache)"
  shows "\<exists>s' dc. h = Some s' \<and> view_kept ops valid contents s s'
    \<and> cache = Some (gdox_xdvdfs_directory_cache_finalize dc) \<and> directory_cache_ok dc \<and> \<not> dc_finalized dc
    \<and> directory_cache_holds (\<lambda>a. contents s (base_lba v * GDOX_LOGICAL_SECTOR_BYTES + a)) dc
    \<and> base_lba v \<le> op_sector_count ops s
    \<and> list_all (\<lambda>e. entry_ok e \<and> entry_end e \<le> op_sector_count ops s - base_lba v) (md_xbe_files md)
    \<and> (\<lambda>e. (en_name e, ident e)) ` set (md_xbe_files md) = volume_executables (contents s) v
    \<and> default_described mem (contents s) v md"
proof -
  have create: "gdox_xdvdfs_directory_cache_create (mem 40) None = Inr (Some empty_directory_cache)"
    using assms(5) by (auto simp: gdox_xdvdfs_inspect_with_directory_cache_def gdox_xdvdfs_directory_cache_create_def
        split: if_splits)
  obtain r h' c' where ins: "inspect_xdvdfs mem ops (Some s) v (Some empty_directory_cache) = (r, h', c')"
    by (metis prod_cases3)
  have r: "r = Inr md" "h = h'" "cache = map_option gdox_xdvdfs_directory_cache_finalize c'"
    using assms(5) create ins by (auto simp: gdox_xdvdfs_inspect_with_directory_cache_def split: sum.splits)
  have "cache_collects (contents s) (base_lba v) (Some empty_directory_cache)" by (simp add: cache_collects_def)
  from inspect_xdvdfs_fits[OF assms(1,2,3,4) this, of mem md h' c'] ins r show ?thesis
    by (auto simp: cache_collects_def split: option.splits)
qed

end

section \<open>Properties\<close>

text \<open>
  C22: The length an image is trimmed to keeps the whole file system: it is a multiple of 32 sectors
  that fits the medium, it covers the descriptor, the root directory and every file and directory
  listed in any directory reachable from the root, and no smaller multiple would do.
\<close>
theorem trimmed_length_covers_volume:
  assumes "sector_source ops valid contents" and "valid s"
    and "root_directory_sector v < two32" and "root_directory_size v < two32" and "base_lba v + two32 \<le> two64"
    and "gdox_xdvdfs_measure_trimmed_sectors mem ops (Some s) v = (Inr sectors, h)"
  shows "sectors mod 32 = 0 \<and> base_lba v + sectors \<le> op_sector_count ops s
    \<and> 33 \<le> sectors \<and> root_directory_sector v + sectors_of (root_directory_size v) \<le> sectors
    \<and> (\<forall>d \<in> volume_dirs (contents s) v. \<forall>parent. \<forall>e \<in> dir_entries (contents s) (base_lba v) d parent.
         en_start_sector e + sectors_of (en_size e) \<le> sectors)
    \<and> (sectors < 33 + 32 \<or> sectors < root_directory_sector v + sectors_of (root_directory_size v) + 32
       \<or> (\<exists>d \<in> volume_dirs (contents s) v. \<exists>parent. \<exists>e \<in> dir_entries (contents s) (base_lba v) d parent.
            sectors < en_start_sector e + sectors_of (en_size e) + 32))"
proof -
  obtain r h' cache' where col: "collect_xbe_entries mem ops (Some s) v False None = (r, h', cache')"
    by (metis prod_cases3)
  have guard: "base_lba v < op_sector_count ops s"
    using assms(6) by (auto simp: gdox_xdvdfs_measure_trimmed_sectors_def split: if_splits)
  obtain xbes extents highest where r: "r = Inr (xbes, extents, highest)"
    using assms(6) col guard by (auto simp: gdox_xdvdfs_measure_trimmed_sectors_def split: sum.splits if_splits)
  have cc: "cache_collects (contents s) (base_lba v) None" by (simp add: cache_collects_def)
  note sp = sector_source.collect_xbe_entries_traversed[OF assms(1,2,5,3,4) cc col]
  obtain c :: "'a xbe_collection" and ess where tr: "traversed (contents s) v (op_sector_count ops s - base_lba v) c (directory_count c) ess"
    and hi: "highest = xc_highest c"
    using sp r by blast
  obtain s' where s': "h' = Some s'" "op_sector_count ops s' = op_sector_count ops s"
    using sp by (auto simp: view_kept_def)
  have cl: "collected v (op_sector_count ops s - base_lba v) c (concat ess)" using tr by (simp add: traversed_def)
  have aligned: "sectors = (highest + 31) div 32 * 32" and fits: "sectors \<le> op_sector_count ops s - base_lba v"
    using assms(6) col guard r s' sector_source.count_less[OF assms(1,2)]
    by (auto simp: gdox_xdvdfs_measure_trimmed_sectors_def Let_def split: if_splits)
  have a: "sectors mod 32 = 0" "highest \<le> sectors" "sectors < highest + 32"
    unfolding aligned using div_mult_mod_eq[of "highest + 31" 32] mod_less_divisor[of 32 "highest + 31"]
    by simp_all
  have every: "en_start_sector e + sectors_of (en_size e) \<le> sectors"
    if d: "d \<in> volume_dirs (contents s) v" and e: "e \<in> dir_entries (contents s) (base_lba v) d parent" for d e parent
  proof -
    obtain e' where "e' \<in> set (concat ess)" "entry_end e' = entry_end e"
      using traversed_entries(2)[OF tr d e] by blast
    then have "entry_end e \<le> highest" using collectedD(2)[OF cl] hi by metis
    then show ?thesis using a(2) by (simp add: entry_end_def)
  qed
  have "highest = 33 \<or> highest = root_end v \<or> (\<exists>e \<in> set (concat ess). highest = entry_end e)"
    using collectedD(3)[OF cl] hi by auto
  then have min: "sectors < 33 + 32 \<or> sectors < root_end v + 32
       \<or> (\<exists>d \<in> volume_dirs (contents s) v. \<exists>parent. \<exists>e \<in> dir_entries (contents s) (base_lba v) d parent.
            sectors < entry_end e + 32)"
    using a(3) traversed_entries(1)[OF tr] by metis
  show ?thesis
    using a fits guard every min collectedD(4,5)[OF cl] hi unfolding root_end_def entry_end_def by auto
qed



text \<open>
  When inspection also retains directories, the cache it returns holds the bytes of the volume: it
  can be placed over the volume's partition without changing what is read there.
\<close>
theorem inspect_cache_holds_volume:
  assumes "sector_source ops valid contents" and "valid s"
    and "root_directory_sector v < two32" and "root_directory_size v < two32" and "base_lba v + two32 \<le> two64"
    and "gdox_xdvdfs_inspect_with_directory_cache mem ops (Some s) v None = (Inr md, h, cache)"
  shows "\<exists>dc. cache = Some (gdox_xdvdfs_directory_cache_finalize dc) \<and> directory_cache_ok dc \<and> \<not> dc_finalized dc
    \<and> directory_cache_holds (\<lambda>a. contents s (base_lba v * GDOX_LOGICAL_SECTOR_BYTES + a)) dc"
  using sector_source.inspect_with_cache_fits[OF assms(1,2,5,3,4,6)] by blast

lemma sample_entry_simps [simp]:
  "en_start_sector sample_entry = 34" "en_size sample_entry = 2048" "\<not> is_directory sample_entry"
  "en_path sample_entry = ascii ''/default.xbe''" "has_xbe_extension (en_name sample_entry)"
  by (simp_all add: sample_entry_def is_directory_def has_xbe_extension_def ascii_def lower_def)

definition sample_extent :: file_extent where
  "sample_extent = \<lparr>fe_start_sector = 34, fe_sector_count = 1, fe_prefix_max_end = 35\<rparr>"

lemma sample_collection:
  assumes "retain_directory (\<lambda>_. True) cache 33 1 sample_directory = (Inr (), cache')" and "sample_state s0"
  shows "\<exists>s'. collect_xbe_entries (\<lambda>_. True) file_ops (Some s0) sample_volume we cache =
     (Inr ([sample_entry], if we then [sample_extent] else [], 35), Some s', cache') \<and> sample_state s'"
proof -
  obtain s' where rd: "read_directory (\<lambda>_. True) file_ops (Some s0) sample_volume cache 33 25 [] vec_empty =
     (Inr \<lparr>vec_items = [sample_entry], vec_capacity = 16\<rparr>, Some s', cache')"
    and s': "sample_state s'"
    using sample_directory_read[OF assms] by blast
  have v: "base_lba sample_volume = 0" "root_directory_sector sample_volume = 33" "root_directory_size sample_volume = 25"
    by (simp_all add: sample_volume_def)
  let ?root = "\<lparr>dj_start_sector = 33, dj_size = 25, dj_parent_path = [], dj_depth = 0\<rparr>"
  define ext where "ext = (if we then Some vec_empty else None :: file_extent vec option)"
  define ext' where "ext' = (if we then Some \<lparr>vec_items = [sample_extent\<lparr>fe_prefix_max_end := 0\<rparr>], vec_capacity = 16\<rparr> else None)"
  define c where "c e dc xbes n h = \<lparr>xc_source = Some h, xc_volume = sample_volume, xc_cache = dc,
      xc_directories = \<lparr>vec_items = [?root], vec_capacity = 16\<rparr>, xc_visited = [],
      xc_xbes = xbes, xc_extents = e, xc_highest = n\<rparr>" for e dc xbes n and h :: file_context
  have i: "initialize_xbe_collection (\<lambda>_. True) \<lparr>xc_source = Some s0, xc_volume = sample_volume, xc_cache = cache,
      xc_directories = vec_empty, xc_visited = [], xc_xbes = vec_empty, xc_extents = ext,
      xc_highest = GDOX_XDVDFS_VOLUME_DESCRIPTOR_SECTOR + 1\<rparr> = (Inr (), c ext cache vec_empty 34 s0)"
    by (simp add: initialize_xbe_collection_def Let_def v entry_blocks_def GDOX_XDVDFS_VOLUME_DESCRIPTOR_SECTOR_def
        directory_vector_push_def vec_push_def vec_empty_def GDOX_XDVDFS_MAX_DIRECTORIES_def grown_capacity_def c_def)
  have count: "file_sector_count s' = 64" using sample_stateD(3)[OF s'] by simp
  have e: "collect_xbe_entry (\<lambda>_. True) file_ops (c ext cache' vec_empty 34 s') sample_entry 0 =
      (Inr (), c ext' cache' \<lparr>vec_items = [sample_entry], vec_capacity = 16\<rparr> 35 s')"
    by (simp add: collect_xbe_entry_def update_highest_entry_def c_def count v entry_blocks_def push_file_extent_def
        entry_vector_push_def vec_push_def vec_empty_def grown_capacity_def GDOX_XDVDFS_MAX_ENTRIES_def
        extent_vector_push_def ext_def ext'_def sample_extent_def)
  have p: "process_xbe_directory (\<lambda>_. True) file_ops (c ext cache vec_empty 34 s0) 0 =
      (Inr (), c ext' cache' \<lparr>vec_items = [sample_entry], vec_capacity = 16\<rparr> 35 s')"
    using e rd by (simp add: process_xbe_directory_def c_def)
  have l: "collect_loop (\<lambda>_. True) file_ops (c ext cache vec_empty 34 s0) 0 =
      (Inr (), c ext' cache' \<lparr>vec_items = [sample_entry], vec_capacity = 16\<rparr> 35 s')"
    using p by (simp add: collect_loop.simps directory_count_def) (simp add: c_def)
  show ?thesis
    using i l s' unfolding ext_def
    by (simp add: collect_xbe_entries_def) (simp add: c_def ext'_def index_extents_def file_extent_end_def sample_extent_def)
qed

lemma sample_certificate:
  "window_eq sample_xbe 0 xbe_header_magic" "le_u32 sample_xbe 260 = 0" "le_u32 sample_xbe 280 = 376"
  "le_u32 sample_xbe 384 = 1"
  by (simp_all add: window_eq_def sample_xbe_def ascii_def xbe_header_magic_def le_u32_def join32_def nth_append)

definition sample_metadata :: xdvdfs_metadata where
  "sample_metadata = \<lparr>md_volume = sample_volume, md_title = decode_title (\<lambda>_. True) (drop 388 sample_xbe),
     md_title_id = Some 1, md_xbe_files = [sample_entry], md_default_xbe_index = 0, md_file_extents = [sample_extent]\<rparr>"

lemma sample_title_read:
  assumes "sample_state s"
  shows "\<exists>s'. read_xbe_title (\<lambda>_. True) file_ops (Some s) 0 sample_entry =
      (Inr (decode_title (\<lambda>_. True) (drop 388 sample_xbe), Some 1), Some s')
    \<and> sample_state s'"
proof -
  have step: "\<exists>t. gdox_source_read file_ops (Some t0) 34 1 2048 = (Inr sample_xbe, Some t)
      \<and> sample_state t"
    if "sample_state t0" for t0
    using file_source.source_read_ready[of t0 1 34] sample_stateD[OF that] sample_state_kept[OF that]
    by (auto simp: sample_disc_spans)
  obtain s1 where s1: "gdox_source_read file_ops (Some s) 34 1 2048 = (Inr sample_xbe, Some s1)"
      "sample_state s1"
    using step[OF assms] by blast
  obtain s2 where s2: "gdox_source_read file_ops (Some s1) 34 1 2048 = (Inr sample_xbe, Some s2)"
      "sample_state s2"
    using step[OF s1(2)] by blast
  show ?thesis
    using s1 s2 sample_certificate by (simp add: read_xbe_title_def read_le_u32_def Let_def)
qed

lemma sample_inspection:
  assumes "retain_directory (\<lambda>_. True) cache 33 1 sample_directory = (Inr (), cache')" and "sample_state s0"
  shows "\<exists>s'. inspect_xdvdfs (\<lambda>_. True) file_ops (Some s0) sample_volume cache = (Inr sample_metadata, Some s', cache')
    \<and> sample_state s'"
proof -
  obtain s' where c: "collect_xbe_entries (\<lambda>_. True) file_ops (Some s0) sample_volume True cache =
     (Inr ([sample_entry], [sample_extent], 35), Some s', cache')"
    and s': "sample_state s'"
    using sample_collection[OF assms, of True] by auto
  have d: "find_default_xbe [sample_entry] 0 = 0" by (simp add: ascii_case_compare_eq)
  have v: "base_lba sample_volume = 0" by (simp add: sample_volume_def)
  show ?thesis
    using sample_title_read[OF s'] c
    by (auto simp: inspect_xdvdfs_def d v GDOX_XDVDFS_NO_ENTRY_def SIZE_MAX_def sample_metadata_def simp del: find_default_xbe.simps)
qed

theorem trimmed_length_covers_volume_witness:
  "33 \<le> (64::nat) \<and> root_directory_sector sample_volume + sectors_of (root_directory_size sample_volume) \<le> 64"
proof -
  obtain s' where s': "collect_xbe_entries (\<lambda>_. True) file_ops (Some sample_disc) sample_volume False None =
     (Inr ([sample_entry], [], 35), Some s', None)" "sample_state s'"
    using sample_collection[of None None _ False, OF _ sample_state_start] by (auto simp: retain_directory_def)
  have "op_sector_count file_ops s' = 64" using sample_stateD(3)[OF s'(2)] by simp
  then have "gdox_xdvdfs_measure_trimmed_sectors (\<lambda>_. True) file_ops (Some sample_disc) sample_volume = (Inr 64, Some s')"
    using s'(1) by (simp add: gdox_xdvdfs_measure_trimmed_sectors_def sample_volume_def UINT64_MAX_def)
  from trimmed_length_covers_volume[OF file_source.sector_source_axioms _ _ _ _ this] show ?thesis
    by (simp add: sample_volume_def)
qed


text \<open>The cache of an inspection of the sample disc before it is finalized.\<close>

definition sample_directory_cache :: directory_cache where
  "sample_directory_cache = \<lparr>dc_extents = [\<lparr>ce_start_sector = 33, ce_prefix_max_end = 0, ce_blocks = 1,
        ce_bytes = Some sample_directory\<rparr>],
      dc_capacity = 8, dc_retained_bytes = 2048, dc_finalized = False\<rparr>"

lemma sample_inspection_cached:
  assumes "sample_state s0"
  shows "\<exists>s'. gdox_xdvdfs_inspect_with_directory_cache (\<lambda>_. True) file_ops (Some s0) sample_volume None =
      (Inr sample_metadata, Some s', Some (gdox_xdvdfs_directory_cache_finalize sample_directory_cache)) \<and> sample_state s'"
proof -
  have "retain_directory (\<lambda>_. True) (Some empty_directory_cache) 33 1 sample_directory = (Inr (), Some sample_directory_cache)"
    by (simp add: retain_directory_def gdox_xdvdfs_directory_cache_retain_def empty_directory_cache_def Let_def
        DIRECTORY_CACHE_MAX_BYTES_def DIRECTORY_CACHE_MAX_ENTRIES_def grown_capacity_def sample_directory_cache_def)
  from sample_inspection[OF this assms] show ?thesis
    by (auto simp: gdox_xdvdfs_inspect_with_directory_cache_def gdox_xdvdfs_directory_cache_create_def)
qed

theorem inspect_cache_holds_volume_witness:
  "directory_cache_holds (\<lambda>a. file_contents sample_disc (0 * GDOX_LOGICAL_SECTOR_BYTES + a))
     (gdox_xdvdfs_directory_cache_finalize sample_directory_cache)"
proof -
  obtain s' where "gdox_xdvdfs_inspect_with_directory_cache (\<lambda>_. True) file_ops (Some sample_disc) sample_volume None =
      (Inr sample_metadata, Some s', Some (gdox_xdvdfs_directory_cache_finalize sample_directory_cache))"
    using sample_inspection_cached[OF sample_state_start] by blast
  from inspect_cache_holds_volume[OF file_source.sector_source_axioms _ _ _ _ this]
  have "\<exists>dc. gdox_xdvdfs_directory_cache_finalize sample_directory_cache = gdox_xdvdfs_directory_cache_finalize dc \<and> \<not> dc_finalized dc
      \<and> directory_cache_holds (\<lambda>a. file_contents sample_disc (0 * GDOX_LOGICAL_SECTOR_BYTES + a)) dc"
    by (auto simp: sample_volume_def)
  then show ?thesis using finalize_holds by metis
qed

end
