(* ===== verification/XdvdfsPatches.thy ===== *)
theory XdvdfsPatches
  imports XdvdfsInspect
begin

text \<open>
  The media-check patches of a disc, src/src/core/xdvdfs.c: every executable of the metadata is
  scanned for the instruction sequence that tests the medium, and the conditional jump behind each
  occurrence is patched into an unconditional one. The specification is the list of occurrences in
  the bytes of the files.
\<close>

definition xbe_media_check :: "byte list" where
  "xbe_media_check = [0xe8, 0xca, 0xfd, 0xff, 0xff, 0x85, 0xc0, 0x7d]"

text \<open>The patch vector with its capacity.\<close>

definition patch_vector_push :: "(nat \<Rightarrow> bool) \<Rightarrow> byte_patch vec \<Rightarrow> byte_patch \<Rightarrow> byte_patch vec res" where
  "patch_vector_push mem patches patch =
     (if length (vec_items patches) = vec_capacity patches
      then (let next_capacity = (if vec_capacity patches = 0 then 8 else u64_mul (vec_capacity patches) 2)
            in if next_capacity < vec_capacity patches \<or> next_capacity > SIZE_MAX div BYTE_PATCH_BYTES
               then fail ERROR_INTERNAL ''media patch list is too large''
               else if \<not> mem (next_capacity * BYTE_PATCH_BYTES)
               then fail ERROR_INTERNAL ''could not allocate media patches''
               else Inr \<lparr>vec_items = vec_items patches @ [patch], vec_capacity = next_capacity\<rparr>)
      else Inr (patches\<lparr>vec_items := vec_items patches @ [patch]\<rparr>))"

text \<open>The loop over the offsets of one executable.\<close>

function scan_media_checks ::
  "(nat \<Rightarrow> bool) \<Rightarrow> byte list \<Rightarrow> xdvdfs_entry \<Rightarrow> nat \<Rightarrow> byte_patch vec \<Rightarrow> byte_patch vec res" where
  "scan_media_checks mem data entry offset patches =
     (if offset + length xbe_media_check \<le> en_size entry
      then (if window_eq data offset xbe_media_check
            then (case patch_vector_push mem patches
                          \<lparr>bp_offset = u64_add (u64_add (u64_mul (en_start_sector entry) GDOX_LOGICAL_SECTOR_BYTES) offset) 7,
                           bp_value = 0xeb\<rparr> of
                    Inl e \<Rightarrow> Inl e
                  | Inr patches \<Rightarrow> scan_media_checks mem data entry (offset + 1) patches)
            else scan_media_checks mem data entry (offset + 1) patches)
      else Inr patches)"
  by pat_completeness auto
termination
  by (relation "measure (\<lambda>(mem, data, entry, offset, patches). en_size entry - offset)")
    (auto simp: xbe_media_check_def)

declare scan_media_checks.simps [simp del]

fun collect_entry_patches ::
  "(nat \<Rightarrow> bool) \<Rightarrow> 's source_ops \<Rightarrow> 's sector_source \<Rightarrow> u64 \<Rightarrow> xdvdfs_entry list \<Rightarrow> byte_patch vec
     \<Rightarrow> byte_patch vec res \<times> 's sector_source" where
  "collect_entry_patches mem ops source base [] patches = (Inr patches, source)"
| "collect_entry_patches mem ops source base (entry # entries) patches =
     (if en_size entry < length xbe_media_check \<or> en_size entry > GDOX_XDVDFS_MAX_XBE_BYTES
      then collect_entry_patches mem ops source base entries patches
      else (let blocks = u32_cast (en_size entry + GDOX_LOGICAL_SECTOR_BYTES - 1) div GDOX_LOGICAL_SECTOR_BYTES;
                allocated = blocks * GDOX_LOGICAL_SECTOR_BYTES
            in if \<not> mem allocated
               then (fail ERROR_INTERNAL ''could not allocate XBE scan data'', source)
               else (case gdox_source_read ops source (u64_add base (en_start_sector entry)) blocks allocated of
                       (Inl e, source) \<Rightarrow> (Inl e, source)
                     | (Inr data, source) \<Rightarrow>
                         (case (if window_eq data 0 xbe_header_magic
                                then scan_media_checks mem data entry 0 patches else Inr patches) of
                            Inl e \<Rightarrow> (Inl e, source)
                          | Inr patches \<Rightarrow> collect_entry_patches mem ops source base entries patches))))"

definition gdox_xdvdfs_collect_media_patches ::
  "(nat \<Rightarrow> bool) \<Rightarrow> 's source_ops \<Rightarrow> 's sector_source \<Rightarrow> xdvdfs_metadata
     \<Rightarrow> byte_patch list res \<times> 's sector_source" where
  "gdox_xdvdfs_collect_media_patches mem ops source metadata =
     (if \<not> gdox_source_is_valid source
      then (fail ERROR_INVALID_ARGUMENT ''source, metadata, and outputs are required'', source)
      else (case collect_entry_patches mem ops source (base_lba (md_volume metadata)) (md_xbe_files metadata) vec_empty of
              (Inl e, source) \<Rightarrow> (Inl e, source)
            | (Inr patches, source) \<Rightarrow> (Inr (vec_items patches), source)))"

section \<open>The occurrences\<close>

text \<open>The patches for an executable with the bytes \<open>data\<close>, and whether it is scanned at all.\<close>

definition check_offsets :: "byte list \<Rightarrow> nat \<Rightarrow> nat list" where
  "check_offsets data n = filter (\<lambda>i. take 8 (drop i data) = xbe_media_check) [0..<n - 7]"

definition scanned :: "xdvdfs_entry \<Rightarrow> bool" where
  "scanned e \<longleftrightarrow> 8 \<le> en_size e \<and> en_size e \<le> GDOX_XDVDFS_MAX_XBE_BYTES"

definition entry_patches :: "(nat \<Rightarrow> byte) \<Rightarrow> u64 \<Rightarrow> xdvdfs_entry \<Rightarrow> byte_patch list" where
  "entry_patches f base e =
     (let data = volume_span f base (en_start_sector e) (en_size e)
      in if scanned e \<and> take 4 data = xbe_header_magic
         then map (\<lambda>i. \<lparr>bp_offset = en_start_sector e * GDOX_LOGICAL_SECTOR_BYTES + i + 7, bp_value = 0xeb\<rparr>)
                (check_offsets data (en_size e))
         else [])"

lemma length_xbe_media_check [simp]: "length xbe_media_check = 8"
  by (simp add: xbe_media_check_def)

lemma patch_vector_push_items:
  "patch_vector_push mem v p = Inr v' \<Longrightarrow> vec_items v' = vec_items v @ [p]"
  by (auto simp: patch_vector_push_def Let_def split: if_splits)

lemma upt_from: "i \<le> n \<Longrightarrow> [i..<Suc n] = i # [Suc i..<Suc n]"
  by (simp add: upt_rec)

lemma scan_media_checks_items:
  assumes "scan_media_checks mem data e offset v = Inr v'" and "en_start_sector e < two32" and "en_size e < two32"
    and "8 \<le> en_size e"
  shows "vec_items v' = vec_items v @
    map (\<lambda>i. \<lparr>bp_offset = en_start_sector e * GDOX_LOGICAL_SECTOR_BYTES + i + 7, bp_value = 0xeb\<rparr>)
      (filter (\<lambda>i. take 8 (drop i data) = xbe_media_check) [offset..<en_size e - 7])"
  using assms
proof (induction mem data e offset v rule: scan_media_checks.induct)
  case (1 mem data e offset v)
  note unfolded = trans[OF scan_media_checks.simps[symmetric] "1.prems"(1)]
  show ?case
  proof (cases "offset + 8 \<le> en_size e")
    case False
    then show ?thesis using unfolded by simp
  next
    case True
    then have head: "[offset..<en_size e - 7] = offset # [Suc offset..<en_size e - 7]"
      by (intro upt_conv_Cons) simp
    have off: "u64_add (u64_add (u64_mul (en_start_sector e) GDOX_LOGICAL_SECTOR_BYTES) offset) 7 =
        en_start_sector e * GDOX_LOGICAL_SECTOR_BYTES + offset + 7"
      using "1.prems"(2,3) True by simp
    show ?thesis
    proof (cases "window_eq data offset xbe_media_check")
      case no: False
      then have "take 8 (drop offset data) \<noteq> xbe_media_check" by (simp add: window_eq_def)
      then show ?thesis
        using "1.IH"(2)[OF _ no] "1.prems"(2-4) True unfolded no head by simp
    next
      case yes: True
      obtain v1 where v1: "patch_vector_push mem v \<lparr>bp_offset = en_start_sector e * GDOX_LOGICAL_SECTOR_BYTES + offset + 7,
          bp_value = 0xeb\<rparr> = Inr v1" and r: "scan_media_checks mem data e (offset + 1) v1 = Inr v'"
        using unfolded True yes off by (auto split: sum.splits)
      have "take 8 (drop offset data) = xbe_media_check" using yes by (simp add: window_eq_def)
      then show ?thesis
        using "1.IH"(1)[OF _ yes v1[folded off] r] "1.prems"(2-4) True head patch_vector_push_items[OF v1] by simp
    qed
  qed
qed

context sector_source
begin

lemma collect_entry_patches_items:
  assumes "valid s" and "collect_entry_patches mem ops (Some s) base es v = (r, h)"
    and "list_all entry_ok es" and "base + two32 \<le> two64"
  shows "(\<exists>s'. h = Some s' \<and> view_kept ops valid contents s s')
    \<and> (\<forall>v'. r = Inr v' \<longrightarrow> vec_items v' = vec_items v @ concat (map (entry_patches (contents s) base) es))"
  using assms
proof (induction es arbitrary: s v)
  case Nil
  then show ?case using view_kept_refl[where valid = valid and s = s] by auto
next
  case (Cons e es)
  have rng: "en_start_sector e < two32" "en_size e < two32" using Cons.prems(3) by (simp_all add: entry_ok_def)
  show ?case
  proof (cases "scanned e")
    case False
    then have skip: "en_size e < length xbe_media_check \<or> en_size e > GDOX_XDVDFS_MAX_XBE_BYTES"
      by (auto simp: scanned_def)
    have none: "entry_patches (contents s) base e = []" using False by (simp add: entry_patches_def Let_def)
    have "collect_entry_patches mem ops (Some s) base (e # es) v = collect_entry_patches mem ops (Some s) base es v"
      unfolding collect_entry_patches.simps(2) by (rule if_P[OF skip])
    note rest = trans[OF this[symmetric] Cons.prems(2)]
    have "list_all entry_ok es" using Cons.prems(3) by simp
    from Cons.IH[OF Cons.prems(1) rest this Cons.prems(4)] show ?thesis
      unfolding list.map concat.simps none append_Nil .
  next
    case True
    then have sz: "8 \<le> en_size e" "en_size e \<le> GDOX_XDVDFS_MAX_XBE_BYTES" by (simp_all add: scanned_def)
    have blocks: "u32_cast (en_size e + GDOX_LOGICAL_SECTOR_BYTES - 1) div GDOX_LOGICAL_SECTOR_BYTES = sectors_of (en_size e)"
      using sz by (simp add: sectors_of_def GDOX_XDVDFS_MAX_XBE_BYTES_def)
    have add: "u64_add base (en_start_sector e) = base + en_start_sector e" using rng Cons.prems(4) by simp
    let ?n = "sectors_of (en_size e) * GDOX_LOGICAL_SECTOR_BYTES"
    obtain q h1 where rd: "gdox_source_read ops (Some s) (base + en_start_sector e) (sectors_of (en_size e)) ?n = (q, h1)"
      by fastforce
    obtain s1 where h1: "h1 = Some s1" "view_kept ops valid contents s s1"
      and data: "\<forall>bs. q = Inr bs \<longrightarrow> bs = volume_span (contents s) base (en_start_sector e) (en_size e)"
      using source_read_view[OF Cons.prems(1) rd] by (auto simp: volume_span_def)
    have step: "collect_entry_patches mem ops (Some s) base (e # es) v = (if \<not> mem ?n then (fail ERROR_INTERNAL ''could not allocate XBE scan data'', Some s)
       else (case (q, h1) of
               (Inl e, source) \<Rightarrow> (Inl e, source)
             | (Inr data, source) \<Rightarrow>
                 (case (if window_eq data 0 xbe_header_magic then scan_media_checks mem data e 0 v else Inr v) of
                    Inl e \<Rightarrow> (Inl e, source)
                  | Inr patches \<Rightarrow> collect_entry_patches mem ops source base es patches)))"
      using sz unfolding collect_entry_patches.simps Let_def blocks add rd by simp
    note code = trans[OF step[symmetric] Cons.prems(2)]
    show ?thesis
    proof (cases "(\<exists>e. r = Inl e) \<and> (h = Some s \<or> h = Some s1)")
      case True
      then show ?thesis using h1 Cons.prems(1) view_kept_refl[where valid = valid and s = s] by auto
    next
      case False
      then obtain bs where q: "q = Inr bs" and m: "mem ?n"
        using code h1(1) by (cases q) (auto split: if_splits)
      define w where "w = (if window_eq bs 0 xbe_header_magic then scan_media_checks mem bs e 0 v else Inr v)"
      have code': "(case w of Inl e \<Rightarrow> (Inl e, h1)
          | Inr patches \<Rightarrow> collect_entry_patches mem ops h1 base es patches) = (r, h)"
        using code q m by (simp add: w_def)
      then obtain v1 where v1: "w = Inr v1" and rest: "collect_entry_patches mem ops (Some s1) base es v1 = (r, h)"
        using False h1(1) by (cases w) auto
      have bs: "bs = volume_span (contents s) base (en_start_sector e) (en_size e)" using data q by simp
      have items: "vec_items v1 = vec_items v @ entry_patches (contents s) base e"
        using v1 scan_media_checks_items[of mem bs e 0 v v1] rng sz(1) True unfolding bs w_def
        by (auto simp: entry_patches_def Let_def window_eq_def check_offsets_def split: if_splits)
      have s1: "valid s1" "contents s1 = contents s" "op_sector_count ops s1 = op_sector_count ops s"
        using h1(2) by (simp_all add: view_kept_def)
      have "list_all entry_ok es" using Cons.prems(3) by simp
      note ih = Cons.IH[OF s1(1) rest this Cons.prems(4), unfolded s1(2)]
      have "\<exists>s'. h = Some s' \<and> view_kept ops valid contents s s'" using ih view_kept_trans[OF h1(2)] by blast
      moreover have "vec_items v' = vec_items v @ concat (map (entry_patches (contents s) base) (e # es))" if "r = Inr v'" for v'
        using ih that items by (metis append_assoc concat.simps(2) list.simps(9))
      ultimately show ?thesis by blast
    qed
  qed
qed

end

section \<open>Properties\<close>

text \<open>
  C24: The media patches of a disc are exactly the conditional jumps behind the occurrences of the
  media check in its executables, file by file in the order of the metadata and by ascending offset
  in each; files without the XBE signature, shorter than the sequence or above 64 MiB contribute none.
\<close>
theorem media_patches_exact:
  assumes "sector_source ops valid contents" and "valid s" and "base_lba (md_volume md) + two32 \<le> two64"
    and "list_all (\<lambda>e. en_start_sector e < two32 \<and> en_size e < two32) (md_xbe_files md)"
    and "gdox_xdvdfs_collect_media_patches mem ops (Some s) md = (Inr patches, h)"
  shows "patches = concat (map (\<lambda>e.
     let data = volume_span (contents s) (base_lba (md_volume md)) (en_start_sector e) (en_size e)
     in if 8 \<le> en_size e \<and> en_size e \<le> 67108864 \<and> take 4 data = ascii ''XBEH''
        then map (\<lambda>i. \<lparr>bp_offset = en_start_sector e * 2048 + i + 7, bp_value = 0xeb\<rparr>)
               (filter (\<lambda>i. take 8 (drop i data) = [0xe8, 0xca, 0xfd, 0xff, 0xff, 0x85, 0xc0, 0x7d]) [0..<en_size e - 7])
        else []) (md_xbe_files md))"
proof -
  obtain v where "collect_entry_patches mem ops (Some s) (base_lba (md_volume md)) (md_xbe_files md) vec_empty = (Inr v, h)"
    and p: "patches = vec_items v"
    using assms(5) by (auto simp: gdox_xdvdfs_collect_media_patches_def split: prod.splits sum.splits)
  from sector_source.collect_entry_patches_items[OF assms(1,2) this(1) _ assms(3)] assms(4)
  have items: "patches = concat (map (entry_patches (contents s) (base_lba (md_volume md))) (md_xbe_files md))"
    by (simp add: entry_ok_def[abs_def] p)
  show ?thesis
    unfolding items entry_patches_def[abs_def] scanned_def check_offsets_def xbe_media_check_def xbe_header_magic_def
      GDOX_XDVDFS_MAX_XBE_BYTES_def conj_assoc ..
qed


lemma sample_xbe_span: "volume_span (file_contents sample_disc) 0 34 12 = sample_xbe"
  by (simp add: volume_span_def sectors_of_def sample_disc_spans)

lemma sample_xbe_windows:
  "take 4 sample_xbe = ascii ''XBEH''" "window_eq sample_xbe 0 xbe_header_magic" "take 8 (drop 0 sample_xbe) \<noteq> xbe_media_check"
  "take 8 (drop 1 sample_xbe) \<noteq> xbe_media_check" "take 8 (drop 2 sample_xbe) \<noteq> xbe_media_check"
  "take 8 (drop 3 sample_xbe) \<noteq> xbe_media_check" "take 8 (drop 4 sample_xbe) = xbe_media_check"
  by (simp_all add: sample_xbe_def ascii_def xbe_media_check_def window_eq_def xbe_header_magic_def)

definition sample_patch :: byte_patch where
  "sample_patch = \<lparr>bp_offset = 69643, bp_value = 0xeb\<rparr>"

lemma sample_scan:
  "scan_media_checks (\<lambda>_. True) sample_xbe (sample_entry\<lparr>en_size := 12\<rparr>) 0 vec_empty =
     Inr \<lparr>vec_items = [sample_patch], vec_capacity = 8\<rparr>"
proof -
  let ?scan = "scan_media_checks (\<lambda>_. True) sample_xbe (sample_entry\<lparr>en_size := 12\<rparr>)"
  have skip: "?scan i v = ?scan j v" if "j = i + 1" "j \<le> 5" "take 8 (drop i sample_xbe) \<noteq> xbe_media_check" for i j v
    using that by (subst scan_media_checks.simps) (simp add: window_eq_def)
  have "?scan 0 vec_empty = ?scan 4 vec_empty"
    using skip[of 1 0 vec_empty] skip[of 2 1 vec_empty] skip[of 3 2 vec_empty] skip[of 4 3 vec_empty] sample_xbe_windows
    by simp
  also have "\<dots> = ?scan 5 \<lparr>vec_items = [sample_patch], vec_capacity = 8\<rparr>"
    using sample_xbe_windows(7)
    by (subst scan_media_checks.simps)
      (simp add: window_eq_def patch_vector_push_def vec_empty_def sample_patch_def SIZE_MAX_def BYTE_PATCH_BYTES_def)
  also have "\<dots> = Inr \<lparr>vec_items = [sample_patch], vec_capacity = 8\<rparr>"
    by (subst scan_media_checks.simps) simp
  finally show ?thesis .
qed

lemma sample_media_patches:
  "\<exists>h. gdox_xdvdfs_collect_media_patches (\<lambda>_. True) file_ops (Some sample_disc)
     \<lparr>md_volume = sample_volume, md_title = None, md_title_id = None, md_xbe_files = [sample_entry\<lparr>en_size := 12\<rparr>],
        md_default_xbe_index = 0, md_file_extents = []\<rparr> = (Inr [sample_patch], h)"
proof -
  obtain s' where "gdox_source_read file_ops (Some sample_disc) 34 1 2048 = (Inr sample_xbe, Some s')"
    using file_source.source_read_ready[of sample_disc 1 34] by (auto simp: sample_disc_spans)
  then show ?thesis
    using sample_scan sample_xbe_windows(2)
    by (simp add: gdox_xdvdfs_collect_media_patches_def GDOX_XDVDFS_MAX_XBE_BYTES_def sample_volume_def)
qed

theorem media_patches_exact_witness:
  "[sample_patch] = map (\<lambda>i. \<lparr>bp_offset = 34 * 2048 + i + 7, bp_value = 0xeb\<rparr>)
     (filter (\<lambda>i. take 8 (drop i sample_xbe) = [0xe8, 0xca, 0xfd, 0xff, 0xff, 0x85, 0xc0, 0x7d]) [0..<5])"
proof -
  obtain h where "gdox_xdvdfs_collect_media_patches (\<lambda>_. True) file_ops (Some sample_disc)
     \<lparr>md_volume = sample_volume, md_title = None, md_title_id = None, md_xbe_files = [sample_entry\<lparr>en_size := 12\<rparr>],
        md_default_xbe_index = 0, md_file_extents = []\<rparr> = (Inr [sample_patch], h)"
    using sample_media_patches by blast
  from media_patches_exact[OF file_source.sector_source_axioms _ _ _ this] sample_xbe_windows(1) sample_xbe_span
  show ?thesis by (simp add: sample_volume_def upt_rec[of _ "5::nat"] del: upt_Suc)
qed

end
