(* ===== verification/XbePatch.thy ===== *)
theory XbePatch
  imports XdvdfsInspect
begin

text \<open>
  The XBE compatibility source of src/src/core/xbe_patch_source.c: while a request is answered, every
  occurrence of the media check in the executables of the disc has its conditional jump replaced, also
  when the occurrence crosses the start of the request. Headers are validated once per executable and
  remembered. The specification is \<open>xbe_view\<close>: the bytes of the medium with the jump behind every
  occurrence inside a valid executable replaced; the same view describes the in-memory form
  \<open>gdox_xbe_patch_complete_file\<close>.
\<close>

definition XBE_SIGNATURE_BYTES :: nat where "XBE_SIGNATURE_BYTES = 8"
definition XBE_PATCH_OFFSET :: nat where "XBE_PATCH_OFFSET = 7"
definition XBE_PATCH_VALUE :: byte where "XBE_PATCH_VALUE = 0xeb"

datatype xbe_header_state = XBE_HEADER_UNKNOWN | XBE_HEADER_VALID | XBE_HEADER_INVALID

record xbe_patch_extent =
  xe_offset :: u64
  xe_length :: u64
  xe_prefix_max_end :: u64
  xe_header_state :: xbe_header_state

record 's xbe_patch_context =
  xp_inner :: "'s sector_source"
  xp_extents :: "xbe_patch_extent list"

record sector_cache =
  sc_bytes :: "byte list"
  sc_lba :: u64
  sc_valid :: bool

abbreviation put_xbe :: "'s sector_source \<Rightarrow> 's xbe_patch_context \<Rightarrow> 's xbe_patch_context" where
  "put_xbe h c \<equiv> c\<lparr>xp_inner := h\<rparr>"

definition media_check_signature :: "byte list" where
  "media_check_signature = [0xe8, 0xca, 0xfd, 0xff, 0xff, 0x85, 0xc0, 0x7d]"

section \<open>A complete file in memory\<close>

text \<open>The loop \<open>for (offset = 0; offset <= length - 8; ++offset)\<close>, from \<open>offset\<close> on.\<close>

function patch_file_loop :: "nat \<Rightarrow> nat \<Rightarrow> byte list \<Rightarrow> byte list" where
  "patch_file_loop n offset bytes =
     (if offset \<le> n - XBE_SIGNATURE_BYTES
      then patch_file_loop n (offset + 1)
             (if window_eq bytes offset media_check_signature
              then bytes[offset + XBE_PATCH_OFFSET := XBE_PATCH_VALUE] else bytes)
      else bytes)"
  by pat_completeness auto
termination
  by (relation "measure (\<lambda>(n, offset, bytes). n + 1 - offset)") auto

declare patch_file_loop.simps [simp del]

text \<open>The result and the buffer of at least \<open>n\<close> bytes afterwards; \<open>None\<close> is a NULL pointer.\<close>

definition gdox_xbe_patch_complete_file :: "byte list option \<Rightarrow> nat \<Rightarrow> bool \<times> byte list option" where
  "gdox_xbe_patch_complete_file bytes n =
     (case bytes of
        None \<Rightarrow> (False, None)
      | Some b \<Rightarrow>
          if n < XBE_SIGNATURE_BYTES \<or> \<not> window_eq b 0 xbe_header_magic then (False, Some b)
          else (True, Some (patch_file_loop n 0 b)))"

section \<open>The extents\<close>

definition xbe_extent_end :: "xbe_patch_extent \<Rightarrow> u64" where
  "xbe_extent_end x = u64_add (xe_offset x) (xe_length x)"

definition compare_xbe_extents :: "xbe_patch_extent \<Rightarrow> xbe_patch_extent \<Rightarrow> int" where
  "compare_xbe_extents left right =
     (if xe_offset left < xe_offset right then -1
      else if xe_offset left > xe_offset right then 1
      else if xe_length left < xe_length right then -1
      else if xe_length left > xe_length right then 1
      else 0)"

interpretation xbe_patch_extents: comparator compare_xbe_extents
  by unfold_locales (auto simp: compare_xbe_extents_def split: if_splits)

definition first_possible_extent :: "xbe_patch_extent list \<Rightarrow> u64 \<Rightarrow> nat" where
  "first_possible_extent extents offset =
     bsearch (\<lambda>middle. xe_prefix_max_end (extents ! middle) \<le> offset) 0 (length extents)"

definition ranges_intersect :: "u64 \<Rightarrow> u64 \<Rightarrow> u64 \<Rightarrow> u64 \<Rightarrow> bool" where
  "ranges_intersect left_start left_end right_start right_end \<longleftrightarrow>
     left_start < right_end \<and> right_start < left_end"

section \<open>Reading\<close>

definition read_cached_sector ::
  "'s source_ops \<Rightarrow> 's sector_source \<Rightarrow> u64 \<Rightarrow> sector_cache \<Rightarrow> unit res \<times> 's sector_source \<times> sector_cache" where
  "read_cached_sector ops inner lba cache =
     (if sc_valid cache \<and> sc_lba cache = lba then (Inr (), inner, cache)
      else (case gdox_source_read ops inner lba 1 GDOX_LOGICAL_SECTOR_BYTES of
              (Inl e, inner) \<Rightarrow> (Inl e, inner, cache)
            | (Inr bytes, inner) \<Rightarrow> (Inr (), inner, \<lparr>sc_bytes = bytes, sc_lba = lba, sc_valid = True\<rparr>)))"

text \<open>The result, the inner source, the extent and the cache afterwards.\<close>

definition validate_header ::
  "'s source_ops \<Rightarrow> 's sector_source \<Rightarrow> xbe_patch_extent \<Rightarrow> u64 \<Rightarrow> u64 \<Rightarrow> byte list \<Rightarrow> sector_cache
     \<Rightarrow> unit res \<times> 's sector_source \<times> xbe_patch_extent \<times> sector_cache" where
  "validate_header ops inner extent request_start request_end output cache =
     (let judge = (\<lambda>header. extent\<lparr>xe_header_state :=
            (if window_eq header 0 xbe_header_magic then XBE_HEADER_VALID else XBE_HEADER_INVALID)\<rparr>)
      in if xe_header_state extent \<noteq> XBE_HEADER_UNKNOWN then (Inr (), inner, extent, cache)
         else if request_start \<le> xe_offset extent \<and> u64_add (xe_offset extent) 4 \<le> request_end
         then (Inr (), inner, judge (drop (u64_sub (xe_offset extent) request_start) output), cache)
         else (case read_cached_sector ops inner (xe_offset extent div GDOX_LOGICAL_SECTOR_BYTES) cache of
                 (Inl e, inner, cache) \<Rightarrow> (Inl e, inner, extent, cache)
               | (Inr _, inner, cache) \<Rightarrow> (Inr (), inner, judge (sc_bytes cache), cache)))"

definition patch_window_byte :: "u64 \<Rightarrow> u64 \<Rightarrow> byte list \<Rightarrow> u64 \<Rightarrow> byte list \<Rightarrow> byte" where
  "patch_window_byte position request_start output prefix_start prefix =
     (if position < request_start then prefix ! (position - prefix_start)
      else output ! (position - request_start))"

definition crossing_signature_possible :: "xbe_patch_extent \<Rightarrow> u64 \<Rightarrow> u64 \<Rightarrow> byte list \<Rightarrow> bool" where
  "crossing_signature_possible extent request_start request_end output =
     (let request_bytes = u64_sub request_end request_start;
          maximum = (if request_bytes < XBE_PATCH_OFFSET then request_bytes else XBE_PATCH_OFFSET)
      in list_ex (\<lambda>returned.
           u64_add request_start (returned - 1) \<ge> u64_add (xe_offset extent) XBE_PATCH_OFFSET
           \<and> take returned output = drop (XBE_SIGNATURE_BYTES - returned) media_check_signature)
         [1..<maximum + 1])"

text \<open>The loop of \<open>patch_extent_bytes\<close> from \<open>position\<close> on.\<close>

function patch_extent_loop ::
  "u64 \<Rightarrow> u64 \<Rightarrow> u64 \<Rightarrow> byte list \<Rightarrow> u64 \<Rightarrow> u64 \<Rightarrow> byte list \<Rightarrow> byte list" where
  "patch_extent_loop request_start request_end prefix_start prefix final_start position output =
     (if position \<le> final_start
      then (let matched = list_all (\<lambda>index.
                  patch_window_byte (position + index) request_start output prefix_start prefix
                    = media_check_signature ! index) [0..<XBE_SIGNATURE_BYTES];
                patch_position = position + XBE_PATCH_OFFSET
            in patch_extent_loop request_start request_end prefix_start prefix final_start (position + 1)
                 (if matched \<and> patch_position \<ge> request_start \<and> patch_position < request_end
                  then output[patch_position - request_start := XBE_PATCH_VALUE] else output))
      else output)"
  by pat_completeness auto
termination
  by (relation "measure (\<lambda>(rs, re, ps, p, final_start, position, out). final_start + 1 - position)") auto

declare patch_extent_loop.simps [simp del]

definition patch_extent_bytes ::
  "xbe_patch_extent \<Rightarrow> u64 \<Rightarrow> u64 \<Rightarrow> byte list \<Rightarrow> u64 \<Rightarrow> byte list \<Rightarrow> byte list" where
  "patch_extent_bytes extent request_start request_end output prefix_start prefix =
     (let position = (if xe_offset extent > prefix_start then xe_offset extent else prefix_start);
          final_start = u64_sub request_end XBE_SIGNATURE_BYTES;
          extent_final = u64_sub (xbe_extent_end extent) XBE_SIGNATURE_BYTES;
          final_start = (if extent_final < final_start then extent_final else final_start)
      in patch_extent_loop request_start request_end prefix_start prefix final_start position output)"

definition xbe_patch_sector_count :: "'s source_ops \<Rightarrow> 's xbe_patch_context \<Rightarrow> u64" where
  "xbe_patch_sector_count ops = forward_sector_count xp_inner ops"

text \<open>The first loop of \<open>xbe_patch_read\<close>: headers are validated and a crossing occurrence is looked for.\<close>

fun validate_extents ::
  "'s source_ops \<Rightarrow> u64 \<Rightarrow> u64 \<Rightarrow> byte list \<Rightarrow> 's sector_source \<Rightarrow> xbe_patch_extent list \<Rightarrow> sector_cache \<Rightarrow> bool
     \<Rightarrow> bool res \<times> 's sector_source \<times> xbe_patch_extent list \<times> sector_cache" where
  "validate_extents ops start stop output inner [] cache needed = (Inr needed, inner, [], cache)"
| "validate_extents ops start stop output inner (x # xs) cache needed =
     (if xe_offset x < stop
      then if \<not> ranges_intersect start stop (xe_offset x) (xbe_extent_end x)
           then (case validate_extents ops start stop output inner xs cache needed of
                   (r, inner, xs, cache) \<Rightarrow> (r, inner, x # xs, cache))
           else (case validate_header ops inner x start stop output cache of
                   (Inl e, inner, x, cache) \<Rightarrow> (Inl e, inner, x # xs, cache)
                 | (Inr _, inner, x, cache) \<Rightarrow>
                     (let needed = (needed \<or> xe_header_state x = XBE_HEADER_VALID \<and> xe_offset x < start
                            \<and> crossing_signature_possible x start stop output)
                      in case validate_extents ops start stop output inner xs cache needed of
                           (r, inner, xs, cache) \<Rightarrow> (r, inner, x # xs, cache)))
      else (Inr needed, inner, x # xs, cache))"

text \<open>The second loop.\<close>

fun patch_extents ::
  "u64 \<Rightarrow> u64 \<Rightarrow> u64 \<Rightarrow> byte list \<Rightarrow> xbe_patch_extent list \<Rightarrow> byte list \<Rightarrow> byte list" where
  "patch_extents start stop prefix_start prefix [] output = output"
| "patch_extents start stop prefix_start prefix (x # xs) output =
     (if xe_offset x < stop
      then patch_extents start stop prefix_start prefix xs
             (if xe_header_state x = XBE_HEADER_VALID \<and> ranges_intersect start stop (xe_offset x) (xbe_extent_end x)
              then patch_extent_bytes x start stop output prefix_start prefix else output)
      else output)"

definition xbe_patch_read ::
  "'s source_ops \<Rightarrow> 's xbe_patch_context \<Rightarrow> u64 \<Rightarrow> u32 \<Rightarrow> nat \<Rightarrow> byte list res \<times> 's xbe_patch_context" where
  "xbe_patch_read ops c lba blocks output_bytes =
     (let start = u64_mul lba GDOX_LOGICAL_SECTOR_BYTES;
          stop = u64_add start output_bytes
      in case gdox_source_read ops (xp_inner c) lba blocks output_bytes of
           (Inl e, inner) \<Rightarrow> (Inl e, put_xbe inner c)
         | (Inr output, inner) \<Rightarrow>
             (let first = first_possible_extent (xp_extents c) start
              in case validate_extents ops start stop output inner (drop first (xp_extents c))
                        \<lparr>sc_bytes = [], sc_lba = 0, sc_valid = False\<rparr> False of
                   (Inl e, inner, xs, _) \<Rightarrow>
                     (Inl e, \<lparr>xp_inner = inner, xp_extents = take first (xp_extents c) @ xs\<rparr>)
                 | (Inr prefix_needed, inner, xs, auxiliary) \<Rightarrow>
                     (let c = \<lparr>xp_inner = inner, xp_extents = take first (xp_extents c) @ xs\<rparr>
                      in if prefix_needed
                         then (case read_cached_sector ops inner (u64_sub lba 1) auxiliary of
                                 (Inl e, inner, _) \<Rightarrow> (Inl e, put_xbe inner c)
                               | (Inr _, inner, auxiliary) \<Rightarrow>
                                   (Inr (patch_extents start stop (u64_sub start XBE_PATCH_OFFSET)
                                           (drop (GDOX_LOGICAL_SECTOR_BYTES - XBE_PATCH_OFFSET) (sc_bytes auxiliary))
                                           xs output),
                                    put_xbe inner c))
                         else (Inr (patch_extents start stop start output xs output), c))))"

definition xbe_patch_media_present :: "'s source_ops \<Rightarrow> 's xbe_patch_context \<Rightarrow> bool \<times> 's xbe_patch_context" where
  "xbe_patch_media_present ops = forward_media_present xp_inner put_xbe ops"

definition xbe_patch_observe_media ::
  "'s source_ops \<Rightarrow> 's xbe_patch_context \<Rightarrow> media_observation \<times> 's xbe_patch_context" where
  "xbe_patch_observe_media ops = forward_observe_media xp_inner put_xbe ops"

definition xbe_patch_evidence :: "'s source_ops \<Rightarrow> 's xbe_patch_context \<Rightarrow> bool \<times> disc_evidence" where
  "xbe_patch_evidence ops = forward_evidence xp_inner ops"

definition xbe_patch_physical_read_stats ::
  "'s source_ops \<Rightarrow> 's xbe_patch_context \<Rightarrow> bool \<times> physical_read_stats" where
  "xbe_patch_physical_read_stats ops = forward_physical_read_stats xp_inner ops"

definition xbe_patch_abort :: "'s source_ops \<Rightarrow> 's xbe_patch_context \<Rightarrow> 's xbe_patch_context" where
  "xbe_patch_abort ops = forward_abort xp_inner put_xbe ops"

definition xbe_patch_prepare_close ::
  "'s source_ops \<Rightarrow> 's xbe_patch_context \<Rightarrow> unit res \<times> 's xbe_patch_context" where
  "xbe_patch_prepare_close ops = forward_prepare_close xp_inner put_xbe ops"

definition xbe_patch_close :: "'s source_ops \<Rightarrow> 's xbe_patch_context \<Rightarrow> unit res \<times> bool" where
  "xbe_patch_close ops = forward_close xp_inner ops"

definition xbe_patch_ops :: "'s source_ops \<Rightarrow> 's xbe_patch_context source_ops" where
  "xbe_patch_ops ops =
     \<lparr>op_sector_count = xbe_patch_sector_count ops, op_read = xbe_patch_read ops,
      op_media_present = Some (xbe_patch_media_present ops), op_close = xbe_patch_close ops,
      op_evidence = Some (xbe_patch_evidence ops),
      op_physical_read_stats = Some (xbe_patch_physical_read_stats ops),
      op_abort = Some (xbe_patch_abort ops),
      op_prepare_close = Some (xbe_patch_prepare_close ops),
      op_observe_media = Some (xbe_patch_observe_media ops)\<rparr>"

lemma xbe_patch_ops_simps [simp]:
  "op_sector_count (xbe_patch_ops ops) = xbe_patch_sector_count ops"
  "op_read (xbe_patch_ops ops) = xbe_patch_read ops"
  "op_media_present (xbe_patch_ops ops) = Some (xbe_patch_media_present ops)"
  "op_close (xbe_patch_ops ops) = xbe_patch_close ops"
  "op_evidence (xbe_patch_ops ops) = Some (xbe_patch_evidence ops)"
  "op_physical_read_stats (xbe_patch_ops ops) = Some (xbe_patch_physical_read_stats ops)"
  "op_abort (xbe_patch_ops ops) = Some (xbe_patch_abort ops)"
  "op_prepare_close (xbe_patch_ops ops) = Some (xbe_patch_prepare_close ops)"
  "op_observe_media (xbe_patch_ops ops) = Some (xbe_patch_observe_media ops)"
  by (simp_all add: xbe_patch_ops_def)

section \<open>Construction\<close>

definition XBE_PATCH_EXTENT_BYTES :: nat where "XBE_PATCH_EXTENT_BYTES = 32"

text \<open>The first loop of \<open>copy_extents\<close>: bounds, and executables too short for a signature are left out.\<close>

fun entry_extents :: "u64 \<Rightarrow> xdvdfs_entry list \<Rightarrow> xbe_patch_extent list res" where
  "entry_extents source_bytes [] = Inr []"
| "entry_extents source_bytes (entry # entries) =
     (let offset = u64_mul (en_start_sector entry) GDOX_LOGICAL_SECTOR_BYTES; n = en_size entry
      in if offset > source_bytes \<or> n > source_bytes - offset
         then fail ERROR_OUT_OF_BOUNDS ''XBE patch extent is outside the game partition''
         else (case entry_extents source_bytes entries of
                 Inl e \<Rightarrow> Inl e
               | Inr xs \<Rightarrow>
                   Inr (if n < XBE_SIGNATURE_BYTES then xs
                        else \<lparr>xe_offset = offset, xe_length = n, xe_prefix_max_end = 0,
                               xe_header_state = XBE_HEADER_UNKNOWN\<rparr> # xs)))"

text \<open>The second loop: equal neighbours are merged, overlapping ones refused; \<open>kept\<close> is the prefix
  of the array compacted so far.\<close>

fun unique_extents :: "xbe_patch_extent list \<Rightarrow> xbe_patch_extent list \<Rightarrow> xbe_patch_extent list res" where
  "unique_extents kept [] = Inr kept"
| "unique_extents kept (x # xs) =
     (if kept = [] then unique_extents [x] xs
      else if xe_offset x = xe_offset (last kept) \<and> xe_length x = xe_length (last kept)
      then unique_extents kept xs
      else if xe_offset x < xbe_extent_end (last kept)
      then fail ERROR_INVALID_VOLUME ''XBE compatibility extents overlap''
      else unique_extents (kept @ [x]) xs)"

definition copy_extents :: "(nat \<Rightarrow> bool) \<Rightarrow> xdvdfs_entry list \<Rightarrow> u64 \<Rightarrow> xbe_patch_extent list res" where
  "copy_extents mem entries source_bytes =
     (if length entries = 0 then Inr []
      else if length entries > SIZE_MAX div XBE_PATCH_EXTENT_BYTES
      then fail ERROR_INVALID_ARGUMENT ''XBE patch metadata is invalid''
      else if \<not> mem (length entries * XBE_PATCH_EXTENT_BYTES)
      then fail ERROR_INTERNAL ''could not allocate XBE patch extents''
      else (case entry_extents source_bytes entries of
              Inl e \<Rightarrow> Inl e
            | Inr extents \<Rightarrow>
                (case unique_extents [] (if length extents > 1 then qsort compare_xbe_extents extents else extents) of
                   Inl e \<Rightarrow> Inl e
                 | Inr extents \<Rightarrow>
                     Inr (index_prefix xbe_extent_end
                            (\<lambda>m x. x\<lparr>xe_prefix_max_end := m, xe_header_state := XBE_HEADER_UNKNOWN\<rparr>) 0 extents))))"

text \<open>The result, the partition handle and the output handle afterwards.\<close>

definition gdox_source_make_xbe_patch_source ::
  "(nat \<Rightarrow> bool) \<Rightarrow> 's source_ops \<Rightarrow> 's sector_source \<Rightarrow> xdvdfs_metadata
     \<Rightarrow> unit res \<times> 's sector_source \<times> 's xbe_patch_context sector_source" where
  "gdox_source_make_xbe_patch_source mem ops source metadata =
     (if \<not> gdox_source_is_valid source
      then (fail ERROR_INVALID_ARGUMENT
              ''XBE patch source requires a valid partition, metadata, and empty output'', source, None)
      else (let sectors = gdox_source_sector_count ops source
            in if sectors > UINT64_MAX div GDOX_LOGICAL_SECTOR_BYTES
               then (fail ERROR_INVALID_SOURCE ''XBE patch source length overflows'', source, None)
               else (case copy_extents mem (md_xbe_files metadata) (u64_mul sectors GDOX_LOGICAL_SECTOR_BYTES) of
                       Inl e \<Rightarrow> (Inl e, source, None)
                     | Inr extents \<Rightarrow>
                         if \<not> mem 32
                         then (fail ERROR_INTERNAL ''could not allocate XBE patch source'', source, None)
                         else (Inr (), None, Some \<lparr>xp_inner = source, xp_extents = extents\<rparr>))))"

section \<open>The view of a set of executables\<close>

text \<open>
  An executable is an offset and a length. A jump at \<open>a\<close> is replaced when a signature that lies inside
  the executable ends there, and the executable starts with its magic.
\<close>

definition signature_at :: "(nat \<Rightarrow> byte) \<Rightarrow> nat \<Rightarrow> bool" where
  "signature_at f a \<longleftrightarrow> span f a 8 = media_check_signature"

definition jump_at :: "(nat \<Rightarrow> byte) \<Rightarrow> nat \<times> nat \<Rightarrow> nat \<Rightarrow> bool" where
  "jump_at f x a \<longleftrightarrow> fst x + 7 \<le> a \<and> a < fst x + snd x \<and> signature_at f (a - 7)"

definition xbe_magic_at :: "(nat \<Rightarrow> byte) \<Rightarrow> nat \<Rightarrow> bool" where
  "xbe_magic_at f a \<longleftrightarrow> span f a 4 = xbe_header_magic"

definition xbe_view :: "(nat \<times> nat) set \<Rightarrow> (nat \<Rightarrow> byte) \<Rightarrow> nat \<Rightarrow> byte" where
  "xbe_view xs f a = (if \<exists>x \<in> xs. xbe_magic_at f (fst x) \<and> jump_at f x a then XBE_PATCH_VALUE else f a)"

definition xbe_key :: "xbe_patch_extent \<Rightarrow> nat \<times> nat" where
  "xbe_key x = (xe_offset x, xe_length x)"

lemma length_media_check_signature [simp]: "length media_check_signature = 8"
  by (simp add: media_check_signature_def)

lemmas xbe_patch_constants = XBE_SIGNATURE_BYTES_def XBE_PATCH_OFFSET_def XBE_PATCH_VALUE_def

lemma signature_at_nth: "signature_at f a \<longleftrightarrow> (\<forall>i < 8. f (a + i) = media_check_signature ! i)"
  by (auto simp: signature_at_def list_eq_iff_nth_eq)

text \<open>The last byte of the signature occurs nowhere else in it, and the replacement not at all.\<close>

lemma signature_bytes:
  "i < 7 \<Longrightarrow> media_check_signature ! i \<noteq> media_check_signature ! 7"
  "i < 8 \<Longrightarrow> media_check_signature ! i \<noteq> XBE_PATCH_VALUE"
proof -
  have all: "list_all (\<lambda>i. media_check_signature ! i \<noteq> media_check_signature ! 7) [0..<7]"
    "list_all (\<lambda>i. media_check_signature ! i \<noteq> XBE_PATCH_VALUE) [0..<8]"
    by (simp_all add: media_check_signature_def XBE_PATCH_VALUE_def upt_rec)
  show "i < 7 \<Longrightarrow> media_check_signature ! i \<noteq> media_check_signature ! 7" using all(1) by (auto simp: list_all_iff)
  show "i < 8 \<Longrightarrow> media_check_signature ! i \<noteq> XBE_PATCH_VALUE" using all(2) by (auto simp: list_all_iff)
qed

text \<open>
  One scan: the signatures that start in \<open>[p, q)\<close> have been replaced in \<open>g\<close>, the signatures being those
  of the untouched bytes \<open>f\<close>.
\<close>

definition scanned_view :: "(nat \<Rightarrow> byte) \<Rightarrow> (nat \<Rightarrow> byte) \<Rightarrow> nat \<Rightarrow> nat \<Rightarrow> nat \<Rightarrow> byte" where
  "scanned_view f g p q a = (if p + 7 \<le> a \<and> a < q + 7 \<and> signature_at f (a - 7) then XBE_PATCH_VALUE else g a)"

lemma scanned_view_start: "scanned_view f g p p = g"
  by (rule ext) (auto simp: scanned_view_def)

lemma scanned_view_step:
  "p \<le> q \<Longrightarrow> scanned_view f g p (Suc q) =
     (if signature_at f q then (scanned_view f g p q)(q + 7 := XBE_PATCH_VALUE) else scanned_view f g p q)"
  by (rule ext) (auto simp: scanned_view_def not_less le_less_Suc_eq dest!: le_imp_less_or_eq)

text \<open>Replaced bytes do not disturb the comparison: no signature shares its last byte with another.\<close>

lemma scanned_window:
  assumes "\<And>i. i < 8 \<Longrightarrow> g (q + i) = f (q + i)"
  shows "(\<forall>i < 8. scanned_view f g p q (q + i) = media_check_signature ! i) \<longleftrightarrow> signature_at f q"
proof
  assume w: "\<forall>i < 8. scanned_view f g p q (q + i) = media_check_signature ! i"
  show "signature_at f q"
    unfolding signature_at_nth
  proof (intro allI impI)
    fix i :: nat assume i: "i < 8"
    then show "f (q + i) = media_check_signature ! i"
      using w assms[OF i] signature_bytes(2)[OF i] by (auto simp: scanned_view_def split: if_splits)
  qed
next
  assume s: "signature_at f q"
  show "\<forall>i < 8. scanned_view f g p q (q + i) = media_check_signature ! i"
  proof (intro allI impI)
    fix i :: nat assume i: "i < 8"
    have "\<not> (q + i < q + 7 \<and> p + 7 \<le> q + i \<and> signature_at f (q + i - 7))"
    proof
      assume a: "q + i < q + 7 \<and> p + 7 \<le> q + i \<and> signature_at f (q + i - 7)"
      then have all: "\<And>k. k < 8 \<Longrightarrow> f (q + i - 7 + k) = media_check_signature ! k" unfolding signature_at_nth by blast
      have "f (q + i - 7 + 7) = media_check_signature ! 7" by (rule all) simp
      then have "f (q + i) = media_check_signature ! 7" using a by simp
      then show False using s a signature_bytes(1)[of i] i unfolding signature_at_nth by auto
    qed
    then show "scanned_view f g p q (q + i) = media_check_signature ! i"
      using s i assms[OF i] unfolding signature_at_nth scanned_view_def by auto
  qed
qed

lemma patch_extent_loop_view:
  assumes "final + 8 \<le> start + n" and "p0 \<le> p" and "pstart \<le> p0" and "start \<le> p0 + 7"
    and "\<And>a. p0 \<le> a \<Longrightarrow> a < final + 8 \<Longrightarrow> g a = f a"
    and "\<And>a. pstart \<le> a \<Longrightarrow> a < start \<Longrightarrow> prefix ! (a - pstart) = f a"
    and "p \<le> final + 1"
  shows "patch_extent_loop start (start + n) pstart prefix final p (span (scanned_view f g p0 p) start n) =
    span (scanned_view f g p0 (final + 1)) start n"
  using assms(2,7)
proof (induction "final + 1 - p" arbitrary: p)
  case 0
  then have "p = final + 1" by simp
  then show ?case by (simp add: patch_extent_loop.simps)
next
  case (Suc k)
  have le: "p \<le> final" using Suc.hyps(2) by simp
  let ?h = "scanned_view f g p0 p"
  have byte: "patch_window_byte (p + i) start (span ?h start n) pstart prefix = ?h (p + i)" if i: "i < 8" for i
  proof (cases "p + i < start")
    case True
    have w: "p0 \<le> p + i" "p + i < final + 8" "pstart \<le> p + i" using i le Suc.prems assms(3) by auto
    have "\<not> p0 + 7 \<le> p + i" using True assms(4) by simp
    then have "?h (p + i) = f (p + i)" using assms(5)[OF w(1,2)] by (simp add: scanned_view_def)
    then show ?thesis using True assms(6)[OF w(3) True] by (simp add: patch_window_byte_def)
  next
    case False
    then show ?thesis using i le assms(1) by (simp add: patch_window_byte_def)
  qed
  have agree: "g (p + i) = f (p + i)" if "i < 8" for i using that le Suc.prems assms(5)[of "p + i"] by simp
  have matched: "list_all (\<lambda>i. patch_window_byte (p + i) start (span ?h start n) pstart prefix
      = media_check_signature ! i) [0..<XBE_SIGNATURE_BYTES] \<longleftrightarrow> signature_at f p"
    using byte scanned_window[where g = g and f = f and q = p and p = p0] agree by (auto simp: list_all_iff XBE_SIGNATURE_BYTES_def)
  have upd: "(if signature_at f p \<and> p + 7 \<ge> start \<and> p + 7 < start + n
      then (span ?h start n)[p + 7 - start := XBE_PATCH_VALUE] else span ?h start n) =
      span (scanned_view f g p0 (Suc p)) start n"
    unfolding scanned_view_step[OF Suc.prems(1)] using Suc.prems(1) assms(1,4) le
    by (intro nth_equalityI) (auto simp: nth_list_update)
  have "patch_extent_loop start (start + n) pstart prefix final p (span ?h start n) =
      patch_extent_loop start (start + n) pstart prefix final (Suc p) (span (scanned_view f g p0 (Suc p)) start n)"
    using le by (subst patch_extent_loop.simps) (simp add: Let_def matched upd XBE_PATCH_OFFSET_def)
  also have "\<dots> = span (scanned_view f g p0 (final + 1)) start n"
    using Suc.hyps(2) Suc.prems le by (intro Suc.hyps(1)) auto
  finally show ?case .
qed

section \<open>A complete file\<close>

lemma patch_file_loop_extent:
  "8 \<le> n \<Longrightarrow> n \<le> length b \<Longrightarrow> patch_file_loop n p b = patch_extent_loop 0 n 0 [] (n - 8) p b"
proof (induction n p b rule: patch_file_loop.induct)
  case (1 n p b)
  show ?case
  proof (cases "p \<le> n - 8")
    case True
    have m: "window_eq b p media_check_signature \<longleftrightarrow> list_all (\<lambda>i. patch_window_byte (p + i) 0 b 0 []
        = media_check_signature ! i) [0..<XBE_SIGNATURE_BYTES]"
      using True "1.prems" by (auto simp: window_eq_nth list_all_iff patch_window_byte_def XBE_SIGNATURE_BYTES_def)
    have in_range: "p + 7 < n" using True "1.prems" by simp
    show ?thesis
      using "1.IH" "1.prems" True in_range
      by (subst patch_file_loop.simps, subst patch_extent_loop.simps)
        (simp add: Let_def m xbe_patch_constants)
  next
    case False
    then show ?thesis by (simp add: patch_file_loop.simps patch_extent_loop.simps XBE_SIGNATURE_BYTES_def)
  qed
qed

lemma patch_file_loop_view:
  assumes "8 \<le> n" and "n \<le> length b" and "window_eq b 0 xbe_header_magic"
  shows "patch_file_loop n 0 b = span (xbe_view {(0, n)} (bytes_at b)) 0 (length b)"
proof -
  let ?f = "bytes_at b"
  have b: "b = span ?f 0 (length b)" by (rule span_eqI) (simp_all add: bytes_at_def)
  have loop: "patch_extent_loop 0 m 0 [] (n - 8) p xs = patch_extent_loop 0 n 0 [] (n - 8) p xs" if "n \<le> m" for m p xs
  proof (induction "n - 7 - p" arbitrary: p xs)
    case 0
    then have "\<not> p \<le> n - 8" using assms(1) by simp
    then show ?case by (simp add: patch_extent_loop.simps)
  next
    case (Suc k)
    have "p + 7 < n" using Suc.hyps(2) by simp
    then show ?case
      using Suc.hyps that assms(1)
      by (subst (1 2) patch_extent_loop.simps) (simp add: Let_def XBE_PATCH_OFFSET_def)
  qed
  have "patch_file_loop n 0 b = patch_extent_loop 0 (0 + length b) 0 [] (n - 8) 0 (span (scanned_view ?f ?f 0 0) 0 (length b))"
    using assms(1,2) loop[OF assms(2), of 0 b] b by (simp add: patch_file_loop_extent scanned_view_start)
  also have "\<dots> = span (scanned_view ?f ?f 0 (n - 8 + 1)) 0 (length b)"
    using assms(1,2) by (intro patch_extent_loop_view) auto
  also have "\<dots> = span (xbe_view {(0, n)} ?f) 0 (length b)"
  proof (rule span_cong)
    fix a
    have "xbe_magic_at ?f 0"
      using assms by (simp add: xbe_magic_at_def span_bytes_at window_eq_def)
    then show "scanned_view ?f ?f 0 (n - 8 + 1) a = xbe_view {(0, n)} ?f a"
      using assms(1) by (auto simp: scanned_view_def xbe_view_def jump_at_def)
  qed
  finally show ?thesis .
qed

section \<open>One extent\<close>

definition extent_bounds :: "u64 \<Rightarrow> xbe_patch_extent \<Rightarrow> bool" where
  "extent_bounds sectors x \<longleftrightarrow>
     8 \<le> xe_length x \<and> xe_offset x mod GDOX_LOGICAL_SECTOR_BYTES = 0
     \<and> xe_offset x + xe_length x \<le> sectors * GDOX_LOGICAL_SECTOR_BYTES"

text \<open>\<open>marked f xs\<close>: the bytes \<open>f\<close> with the jumps of the executables \<open>xs\<close> replaced.\<close>

definition marked :: "(nat \<times> nat) set \<Rightarrow> (nat \<Rightarrow> byte) \<Rightarrow> nat \<Rightarrow> byte" where
  "marked xs f a = (if \<exists>x \<in> xs. jump_at f x a then XBE_PATCH_VALUE else f a)"

lemma marked_empty [simp]: "marked {} f = f"
  by (rule ext) (simp add: marked_def)

lemma marked_insert: "marked (insert x xs) f a = (if jump_at f x a then XBE_PATCH_VALUE else marked xs f a)"
  by (simp add: marked_def)

lemma xbe_view_marked: "xbe_view xs f = marked {x \<in> xs. xbe_magic_at f (fst x)} f"
  by (rule ext) (auto simp: xbe_view_def marked_def)

lemma patch_extent_bytes_view:
  assumes x: "xe_offset x + xe_length x < two64" "8 \<le> xe_length x"
    and req: "start + n < two64" "8 \<le> n"
    and pre: "pstart \<le> start" "start \<le> pstart + 7"
      "\<And>a. pstart \<le> a \<Longrightarrow> a < start \<Longrightarrow> prefix ! (a - pstart) = f a"
    and g: "\<And>a. xe_offset x \<le> a \<Longrightarrow> a < xe_offset x + xe_length x \<Longrightarrow> g a = f a"
    and crossing: "\<And>a. start \<le> a \<Longrightarrow> a < start + n \<Longrightarrow> jump_at f (xbe_key x) a \<Longrightarrow> pstart + 7 \<le> a"
  shows "patch_extent_bytes x start (start + n) (span g start n) pstart prefix =
    span (\<lambda>a. if jump_at f (xbe_key x) a then XBE_PATCH_VALUE else g a) start n"
proof -
  define stop where "stop = start + n"
  define p0 where "p0 = max (xe_offset x) pstart"
  define final where "final = min (xe_offset x + xe_length x) stop - 8"
  have e: "xbe_extent_end x = xe_offset x + xe_length x" using x by (simp add: xbe_extent_end_def)
  have final8: "final + 8 = min (xe_offset x + xe_length x) stop"
    using x req by (simp add: final_def stop_def)
  have code: "patch_extent_bytes x start stop (span g start n) pstart prefix =
      patch_extent_loop start stop pstart prefix final p0 (span g start n)"
    using x req
    by (auto simp: patch_extent_bytes_def Let_def e XBE_SIGNATURE_BYTES_def p0_def final_def stop_def max_def min_def
        intro!: arg_cong[where f = "\<lambda>k. patch_extent_loop _ _ _ _ k _ _"])
  have loop: "patch_extent_loop start stop pstart prefix final p0 (span g start n) =
      (if p0 \<le> final + 1 then span (scanned_view f g p0 (final + 1)) start n else span g start n)"
  proof (cases "p0 \<le> final + 1")
    case True
    have "patch_extent_loop start (start + n) pstart prefix final p0 (span (scanned_view f g p0 p0) start n) =
        span (scanned_view f g p0 (final + 1)) start n"
      using True pre final8 g by (intro patch_extent_loop_view) (auto simp: p0_def stop_def)
    then show ?thesis using True by (simp add: scanned_view_start stop_def)
  qed (simp add: patch_extent_loop.simps)
  have same: "(if p0 \<le> final + 1 then scanned_view f g p0 (final + 1) a else g a) =
      (if jump_at f (xbe_key x) a then XBE_PATCH_VALUE else g a)" if a: "start \<le> a" "a < stop" for a
  proof (cases "jump_at f (xbe_key x) a")
    case True
    then have "xe_offset x + 7 \<le> a" "a < xe_offset x + xe_length x" "signature_at f (a - 7)" "pstart + 7 \<le> a"
      using crossing[of a] a by (auto simp: jump_at_def xbe_key_def stop_def)
    then have "p0 + 7 \<le> a" "a < final + 8" using a final8 by (auto simp: p0_def)
    with True \<open>signature_at f (a - 7)\<close> show ?thesis by (simp add: scanned_view_def)
  next
    case False
    have "\<not> (p0 + 7 \<le> a \<and> a < final + 8 \<and> signature_at f (a - 7))"
      using False final8 by (auto simp: jump_at_def xbe_key_def p0_def)
    with False show ?thesis by (auto simp: scanned_view_def)
  qed
  show ?thesis
    using same unfolding code[unfolded stop_def] loop[unfolded stop_def]
    by (cases "p0 \<le> final + 1") (auto simp: stop_def intro!: span_cong)
qed

section \<open>All extents of a request\<close>

text \<open>The extents are separate and ascending, and the remembered header verdicts are those of the medium.\<close>

definition header_ok :: "(nat \<Rightarrow> byte) \<Rightarrow> xbe_patch_extent \<Rightarrow> bool" where
  "header_ok f x \<longleftrightarrow>
     (case xe_header_state x of XBE_HEADER_UNKNOWN \<Rightarrow> True
      | XBE_HEADER_VALID \<Rightarrow> xbe_magic_at f (xe_offset x) | XBE_HEADER_INVALID \<Rightarrow> \<not> xbe_magic_at f (xe_offset x))"

definition separate :: "xbe_patch_extent list \<Rightarrow> bool" where
  "separate xs \<longleftrightarrow> sorted_wrt (\<lambda>x y. xe_offset x + xe_length x \<le> xe_offset y) xs"

definition xbe_extents_ok :: "(nat \<Rightarrow> byte) \<Rightarrow> u64 \<Rightarrow> xbe_patch_extent list \<Rightarrow> bool" where
  "xbe_extents_ok f sectors xs \<longleftrightarrow>
     separate xs \<and> list_all (\<lambda>x. extent_bounds sectors x \<and> header_ok f x
       \<and> xe_prefix_max_end x = xe_offset x + xe_length x) xs"

text \<open>The verdict on an extent that the request touches is known.\<close>

definition judged :: "u64 \<Rightarrow> u64 \<Rightarrow> xbe_patch_extent \<Rightarrow> bool" where
  "judged start stop x \<longleftrightarrow>
     (xe_offset x < stop \<and> start < xe_offset x + xe_length x \<longrightarrow> xe_header_state x \<noteq> XBE_HEADER_UNKNOWN)"

definition valid_keys :: "(nat \<Rightarrow> byte) \<Rightarrow> xbe_patch_extent list \<Rightarrow> (nat \<times> nat) set" where
  "valid_keys f xs = xbe_key ` {x \<in> set xs. xbe_magic_at f (xe_offset x)}"

lemma jump_at_range: "jump_at f (xbe_key x) a \<Longrightarrow> xe_offset x + 7 \<le> a \<and> a < xe_offset x + xe_length x"
  by (auto simp: jump_at_def xbe_key_def)

lemma patch_extents_view:
  assumes "separate xs" and "list_all (\<lambda>x. extent_bounds sectors x \<and> header_ok f x \<and> judged start (start + n) x) xs"
    and "sectors * GDOX_LOGICAL_SECTOR_BYTES < two64" and "start + n < two64" "8 \<le> n"
    and "pstart \<le> start" "start \<le> pstart + 7"
      "\<And>a. pstart \<le> a \<Longrightarrow> a < start \<Longrightarrow> prefix ! (a - pstart) = f a"
    and "\<And>x a. x \<in> set xs \<Longrightarrow> xe_header_state x = XBE_HEADER_VALID \<Longrightarrow> start \<le> a \<Longrightarrow> a < start + n \<Longrightarrow>
        jump_at f (xbe_key x) a \<Longrightarrow> pstart + 7 \<le> a"
    and "\<And>y x. y \<in> ys \<Longrightarrow> x \<in> set xs \<Longrightarrow> fst y + snd y \<le> xe_offset x"
  shows "patch_extents start (start + n) pstart prefix xs (span (marked ys f) start n) =
    span (marked (ys \<union> valid_keys f xs) f) start n"
  using assms(1,2,9,10)
proof (induction xs arbitrary: ys)
  case Nil
  then show ?case by (simp add: valid_keys_def)
next
  case (Cons x xs)
  have bx: "8 \<le> xe_length x" "xe_offset x + xe_length x < two64" "header_ok f x" "judged start (start + n) x"
    using Cons.prems(2) assms(3) by (auto simp: extent_bounds_def)
  have e: "xbe_extent_end x = xe_offset x + xe_length x" using bx by (simp add: xbe_extent_end_def)
  show ?case
  proof (cases "xe_offset x < start + n")
    case False
    have none: "\<not> jump_at f (xbe_key y) a" if "y \<in> set (x # xs)" "a < start + n" for y a
      using that Cons.prems(1) False jump_at_range[of f y a] by (fastforce simp: separate_def)
    have "marked (ys \<union> valid_keys f (x # xs)) f a = marked ys f a" if "a < start + n" for a
      using none[OF _ that] by (auto simp: marked_def valid_keys_def)
    then show ?thesis using False by (auto intro: span_cong)
  next
    case True
    have free: "marked ys f a = f a" if "xe_offset x \<le> a" "a < xe_offset x + xe_length x" for a
      using that Cons.prems(4)[of _ x] by (fastforce simp: marked_def jump_at_def)
    define zs where "zs = (if xbe_magic_at f (xe_offset x) then insert (xbe_key x) ys else ys)"
    have step: "(if xe_header_state x = XBE_HEADER_VALID \<and> ranges_intersect start (start + n) (xe_offset x) (xbe_extent_end x)
        then patch_extent_bytes x start (start + n) (span (marked ys f) start n) pstart prefix
        else span (marked ys f) start n) = span (marked zs f) start n"
    proof (cases "xe_header_state x = XBE_HEADER_VALID \<and> ranges_intersect start (start + n) (xe_offset x) (xbe_extent_end x)")
      case hit: True
      then have "zs = insert (xbe_key x) ys" using bx(3) by (simp add: zs_def header_ok_def)
      then show ?thesis
        using hit patch_extent_bytes_view[where g = "marked ys f" and f = f and x = x and start = start and n = n
            and pstart = pstart and prefix = prefix] bx(1,2) assms(4-8) free Cons.prems(3)[of x]
        by (simp add: marked_insert[abs_def])
    next
      case miss: False
      have "marked zs f a = marked ys f a" if a: "start \<le> a" "a < start + n" for a
      proof (cases "xbe_magic_at f (xe_offset x) \<and> jump_at f (xbe_key x) a")
        case True
        then have "xe_header_state x = XBE_HEADER_VALID"
          using bx(3,4) a jump_at_range[of f x a] \<open>xe_offset x < start + n\<close>
          by (cases "xe_header_state x") (auto simp: header_ok_def judged_def)
        then show ?thesis using miss True a e jump_at_range[of f x a] by (auto simp: ranges_intersect_def)
      next
        case False
        then show ?thesis by (auto simp: zs_def marked_insert)
      qed
      then have "span (marked ys f) start n = span (marked zs f) start n" by (intro span_cong) auto
      then show ?thesis unfolding if_not_P[OF miss] .
    qed
    have "patch_extents start (start + n) pstart prefix xs (span (marked zs f) start n) =
        span (marked (zs \<union> valid_keys f xs) f) start n"
    proof (rule Cons.IH)
      show "separate xs" using Cons.prems(1) by (simp add: separate_def)
      show "list_all (\<lambda>x. extent_bounds sectors x \<and> header_ok f x \<and> judged start (start + n) x) xs"
        using Cons.prems(2) by simp
      show "pstart + 7 \<le> a" if "x \<in> set xs" "xe_header_state x = XBE_HEADER_VALID" "start \<le> a" "a < start + n"
        "jump_at f (xbe_key x) a" for x a
        using Cons.prems(3)[of x a] that by simp
      show "fst y + snd y \<le> xe_offset z" if "y \<in> zs" "z \<in> set xs" for y z
        using that Cons.prems(1,4) by (auto simp: zs_def separate_def xbe_key_def split: if_splits)
    qed
    moreover have "zs \<union> valid_keys f xs = ys \<union> valid_keys f (x # xs)" by (auto simp: zs_def valid_keys_def)
    ultimately show ?thesis using True step by simp
  qed
qed

text \<open>Without a possible crossing no jump of the extent lies so close to the start of the request.\<close>

lemma no_crossing:
  assumes "\<not> crossing_signature_possible x start (start + n) (span f start n)" and "7 \<le> n" and "start + n < two64"
    and "xe_offset x + 7 < two64" and "start \<le> a" and "jump_at f (xbe_key x) a"
  shows "start + 7 \<le> a"
proof (rule ccontr)
  assume "\<not> start + 7 \<le> a"
  define k where "k = a - start + 1"
  have k: "k \<in> set [1..<8]" "a = start + k - 1" "k \<le> 7" using \<open>\<not> start + 7 \<le> a\<close> assms(5) by (auto simp: k_def)
  have sig: "signature_at f (a - 7)" "xe_offset x + 7 \<le> a" using assms(6) by (auto simp: jump_at_def xbe_key_def)
  have "take k (span f start n) = drop (8 - k) media_check_signature"
  proof (rule nth_equalityI)
    fix i assume "i < length (take k (span f start n))"
    then have i: "i < k" by simp
    have "8 - k + i < 8" using i k(3) by simp
    note sig(1)[unfolded signature_at_nth, rule_format, OF this]
    moreover have "a - 7 + (8 - k + i) = start + i" using sig(2) k i by simp
    ultimately show "take k (span f start n) ! i = drop (8 - k) media_check_signature ! i"
      using i k(3) assms(2) by (simp add: add.commute)
  qed (use k assms(2) in simp)
  then have "crossing_signature_possible x start (start + n) (span f start n)"
    using k sig(2) assms(2-4)
    by (auto simp: crossing_signature_possible_def Let_def list_ex_iff xbe_patch_constants intro!: bexI[of _ k])
  then show False using assms(1) by simp
qed

section \<open>Headers\<close>

definition cache_ok :: "(nat \<Rightarrow> byte) \<Rightarrow> sector_cache \<Rightarrow> bool" where
  "cache_ok f cache \<longleftrightarrow>
     (sc_valid cache \<longrightarrow> sc_bytes cache = span f (sc_lba cache * GDOX_LOGICAL_SECTOR_BYTES) GDOX_LOGICAL_SECTOR_BYTES)"

definition same_extents :: "xbe_patch_extent list \<Rightarrow> xbe_patch_extent list \<Rightarrow> bool" where
  "same_extents xs ys \<longleftrightarrow>
     map (\<lambda>x. (xe_offset x, xe_length x, xe_prefix_max_end x)) xs = map (\<lambda>x. (xe_offset x, xe_length x, xe_prefix_max_end x)) ys"

lemma same_extents_separate: "same_extents xs ys \<Longrightarrow> separate ys = separate xs"
proof -
  assume same: "same_extents xs ys"
  have "separate zs = sorted_wrt (\<lambda>p q. fst p + fst (snd p) \<le> fst q)
      (map (\<lambda>x. (xe_offset x, xe_length x, xe_prefix_max_end x)) zs)" for zs
    by (simp add: separate_def sorted_wrt_map)
  with same show ?thesis by (simp add: same_extents_def)
qed

context sector_source
begin

lemma read_cached_sector_view:
  assumes "valid s" and "cache_ok (contents s) cache" and "read_cached_sector ops (Some s) lba cache = (r, h, cache')"
  shows "\<exists>s'. h = Some s' \<and> view_kept ops valid contents s s'"
    and "cache_ok (contents s) cache'"
    and "r = Inr () \<Longrightarrow> sc_bytes cache' = span (contents s) (lba * GDOX_LOGICAL_SECTOR_BYTES) GDOX_LOGICAL_SECTOR_BYTES"
proof -
  obtain q h1 where rd: "gdox_source_read ops (Some s) lba 1 GDOX_LOGICAL_SECTOR_BYTES = (q, h1)" by fastforce
  note view = source_read_view[OF assms(1) rd]
  show "\<exists>s'. h = Some s' \<and> view_kept ops valid contents s s'"
    using assms(1,3) rd view view_kept_refl[where valid = valid and s = s]
    by (auto simp: read_cached_sector_def split: if_splits sum.splits)
  show "cache_ok (contents s) cache'"
    using assms(2,3) rd view by (auto simp: read_cached_sector_def cache_ok_def split: if_splits sum.splits)
  show "sc_bytes cache' = span (contents s) (lba * GDOX_LOGICAL_SECTOR_BYTES) GDOX_LOGICAL_SECTOR_BYTES" if "r = Inr ()"
    using assms(2,3) rd view that by (auto simp: read_cached_sector_def cache_ok_def split: if_splits sum.splits)
qed

lemma validate_header_view:
  assumes "valid s" and "cache_ok (contents s) cache" and "header_ok (contents s) x" and "extent_bounds sectors x"
    and "start + n < two64" and "sectors * GDOX_LOGICAL_SECTOR_BYTES < two64"
    and "validate_header ops (Some s) x start (start + n) (span (contents s) start n) cache = (r, h, x', cache')"
  shows "\<exists>s'. h = Some s' \<and> view_kept ops valid contents s s'"
    and "cache_ok (contents s) cache'" and "header_ok (contents s) x'" and "same_extents [x] [x']"
    and "r = Inr () \<Longrightarrow> xe_header_state x' \<noteq> XBE_HEADER_UNKNOWN"
proof -
  let ?f = "contents s"
  have b: "xe_offset x + 8 < two64" "xe_offset x div GDOX_LOGICAL_SECTOR_BYTES * GDOX_LOGICAL_SECTOR_BYTES = xe_offset x"
    using assms(4,6) by (auto simp: extent_bounds_def)
  have all: "(\<exists>s'. h = Some s' \<and> view_kept ops valid contents s s') \<and> cache_ok ?f cache' \<and> header_ok ?f x'
    \<and> same_extents [x] [x'] \<and> (r = Inr () \<longrightarrow> xe_header_state x' \<noteq> XBE_HEADER_UNKNOWN)"
  proof (cases "xe_header_state x \<noteq> XBE_HEADER_UNKNOWN")
    case True
    then show ?thesis
      using assms view_kept_refl[where valid = valid and s = s] by (auto simp: validate_header_def same_extents_def)
  next
    case unknown: False
    show ?thesis
    proof (cases "start \<le> xe_offset x \<and> xe_offset x + 4 \<le> start + n")
      case True
      then have four: "min 4 (n + start - xe_offset x) = 4" by (auto simp: min_def)
      from True have w: "window_eq (drop (u64_sub (xe_offset x) start) (span ?f start n)) 0 xbe_header_magic \<longleftrightarrow>
          xbe_magic_at ?f (xe_offset x)"
        using b assms(5) four by (simp add: window_eq_def xbe_magic_at_def drop_span take_span)
      show ?thesis
        using assms(1,2,7) unknown True w b view_kept_refl[where valid = valid and s = s]
        by (auto simp: validate_header_def Let_def header_ok_def same_extents_def)
    next
      case False
      obtain q h1 c1 where rd: "read_cached_sector ops (Some s) (xe_offset x div GDOX_LOGICAL_SECTOR_BYTES) cache = (q, h1, c1)"
        by (metis prod_cases3)
      note rc = read_cached_sector_view[OF assms(1,2) rd]
      have w: "window_eq (sc_bytes c1) 0 xbe_header_magic \<longleftrightarrow> xbe_magic_at ?f (xe_offset x)" if "q = Inr ()"
        using rc(3)[OF that] b by (simp add: window_eq_def xbe_magic_at_def take_span)
      show ?thesis
        using assms(3,7) unknown False rd rc w b
        by (auto simp: validate_header_def Let_def header_ok_def same_extents_def split: sum.splits)
    qed
  qed
  then show "\<exists>s'. h = Some s' \<and> view_kept ops valid contents s s'" "cache_ok ?f cache'" "header_ok ?f x'"
    "same_extents [x] [x']" "r = Inr () \<Longrightarrow> xe_header_state x' \<noteq> XBE_HEADER_UNKNOWN"
    by auto
qed

lemma validate_extents_view:
  assumes "valid s" and "cache_ok (contents s) cache" and "separate xs"
    and "list_all (\<lambda>x. extent_bounds sectors x \<and> header_ok (contents s) x) xs"
    and "start + n < two64" and "sectors * GDOX_LOGICAL_SECTOR_BYTES < two64"
    and "validate_extents ops start (start + n) (span (contents s) start n) (Some s) xs cache needed = (r, h, xs', cache')"
  shows "(\<exists>s'. h = Some s' \<and> view_kept ops valid contents s s')
    \<and> cache_ok (contents s) cache' \<and> same_extents xs xs' \<and> list_all (header_ok (contents s)) xs'
    \<and> (\<forall>b. r = Inr b \<longrightarrow> list_all (judged start (start + n)) xs'
        \<and> (b \<longrightarrow> needed \<or> (\<exists>x \<in> set xs'. xe_offset x < start \<and> start < xe_offset x + xe_length x))
        \<and> (\<not> b \<longrightarrow> \<not> needed \<and> (\<forall>x \<in> set xs'. xe_header_state x = XBE_HEADER_VALID \<and> xe_offset x < start
              \<and> start < xe_offset x + xe_length x \<longrightarrow>
              \<not> crossing_signature_possible x start (start + n) (span (contents s) start n))))"
  using assms
proof (induction xs arbitrary: s cache needed r h xs' cache')
  case Nil
  then show ?case using view_kept_refl[where valid = valid and s = s] by (auto simp: same_extents_def)
next
  case (Cons x xs)
  let ?f = "contents s" and ?stop = "start + n"
  have e: "xbe_extent_end x = xe_offset x + xe_length x" and ex: "extent_bounds sectors x" "header_ok ?f x"
    using Cons.prems(4,6) by (auto simp: xbe_extent_end_def extent_bounds_def)
  show ?case
  proof (cases "xe_offset x < ?stop")
    case False
    have beyond: "?stop \<le> xe_offset y" if "y \<in> set (x # xs)" for y
      using that Cons.prems(3) False by (fastforce simp: separate_def)
    have "list_all (judged start ?stop) (x # xs)" using beyond by (fastforce simp: judged_def list_all_iff)
    moreover have "\<not> xe_offset y < start" if "y \<in> set (x # xs)" for y using beyond[OF that] by simp
    moreover have "r = Inr needed" "h = Some s" "xs' = x # xs" "cache' = cache"
      using Cons.prems(7) False by auto
    ultimately show ?thesis
      using Cons.prems(1,2,4) view_kept_refl[where valid = valid and s = s]
      by (auto simp: same_extents_def list_all_iff)
  next
    case True
    show ?thesis
    proof (cases "ranges_intersect start ?stop (xe_offset x) (xbe_extent_end x)")
      case miss: False
      obtain r1 h1 ys c1 where rec: "validate_extents ops start ?stop (span ?f start n) (Some s) xs cache needed = (r1, h1, ys, c1)"
        by (metis prod_cases4)
      have out: "r = r1" "h = h1" "xs' = x # ys" "cache' = c1" using Cons.prems(7) True miss rec by auto
      have j: "judged start ?stop x" "\<not> start < xe_offset x + xe_length x"
        using miss True e by (auto simp: judged_def ranges_intersect_def)
      have sep: "separate xs" "list_all (\<lambda>x. extent_bounds sectors x \<and> header_ok ?f x) xs"
        using Cons.prems(3,4) by (simp_all add: separate_def)
      show ?thesis
        using Cons.IH[OF Cons.prems(1,2) sep Cons.prems(5,6) rec] ex j unfolding out
        by (auto simp: same_extents_def)
    next
      case hit: True
      obtain q h1 x1 c1 where vh: "validate_header ops (Some s) x start ?stop (span ?f start n) cache = (q, h1, x1, c1)"
        by (metis prod_cases4)
      note v = validate_header_view[OF Cons.prems(1,2) ex(2,1) Cons.prems(5,6) vh]
      have x1: "xe_offset x1 = xe_offset x" "xe_length x1 = xe_length x" "xe_prefix_max_end x1 = xe_prefix_max_end x"
        using v(4) by (auto simp: same_extents_def)
      show ?thesis
      proof (cases q)
        case (Inl err)
        then have "r = Inl err" "h = h1" "xs' = x1 # xs" "cache' = c1" using Cons.prems(7) True hit vh by auto
        then show ?thesis using v Cons.prems(4) by (auto simp: same_extents_def list_all_iff)
      next
        case (Inr u)
        define nd where "nd = (needed \<or> xe_header_state x1 = XBE_HEADER_VALID \<and> xe_offset x1 < start
              \<and> crossing_signature_possible x1 start ?stop (span ?f start n))"
        obtain r2 h2 ys c2 where rec: "validate_extents ops start ?stop (span ?f start n) h1 xs c1 nd = (r2, h2, ys, c2)"
          by (metis prod_cases4)
        have out: "r = r2" "h = h2" "xs' = x1 # ys" "cache' = c2"
          using Cons.prems(7) True hit vh Inr rec by (auto simp: nd_def Let_def)
        obtain s1 where s1: "h1 = Some s1" "view_kept ops valid contents s s1" using v(1) by blast
        have same: "valid s1" "contents s1 = ?f" using s1(2) by (auto simp: view_kept_def)
        have known: "xe_header_state x1 \<noteq> XBE_HEADER_UNKNOWN" using v(5) Inr by simp
        have sep: "separate xs" "list_all (\<lambda>x. extent_bounds sectors x \<and> header_ok ?f x) xs"
          using Cons.prems(3,4) by (simp_all add: separate_def)
        note ih = Cons.IH[OF same(1), unfolded same(2), OF v(2) sep Cons.prems(5,6) rec[unfolded s1(1)]]
        have inter: "start < xe_offset x + xe_length x" using hit e by (simp add: ranges_intersect_def)
        have trans': "\<exists>s'. h2 = Some s' \<and> view_kept ops valid contents s s'"
          using ih view_kept_trans[OF s1(2)] by blast
        have keep: "cache_ok ?f c2" "same_extents (x # xs) (x1 # ys)" "list_all (header_ok ?f) (x1 # ys)"
          using ih v(3) x1 by (auto simp: same_extents_def)
        have res: "list_all (judged start ?stop) (x1 # ys)
            \<and> (b \<longrightarrow> needed \<or> (\<exists>y \<in> set (x1 # ys). xe_offset y < start \<and> start < xe_offset y + xe_length y))
            \<and> (\<not> b \<longrightarrow> \<not> needed \<and> (\<forall>y \<in> set (x1 # ys). xe_header_state y = XBE_HEADER_VALID \<and> xe_offset y < start
              \<and> start < xe_offset y + xe_length y \<longrightarrow>
              \<not> crossing_signature_possible y start ?stop (span ?f start n)))" if "r2 = Inr b" for b
        proof -
          have jd: "list_all (judged start ?stop) ys"
            and yes: "b \<Longrightarrow> nd \<or> (\<exists>y \<in> set ys. xe_offset y < start \<and> start < xe_offset y + xe_length y)"
            and no: "\<not> b \<Longrightarrow> \<not> nd \<and> (\<forall>y \<in> set ys. xe_header_state y = XBE_HEADER_VALID \<and> xe_offset y < start
              \<and> start < xe_offset y + xe_length y \<longrightarrow>
              \<not> crossing_signature_possible y start ?stop (span ?f start n))"
            using ih that by auto
          have "judged start ?stop x1" using known by (simp add: judged_def)
          moreover have "b \<Longrightarrow> needed \<or> (\<exists>y \<in> set (x1 # ys). xe_offset y < start \<and> start < xe_offset y + xe_length y)"
            using yes inter x1 by (auto simp: nd_def)
          moreover have "\<not> b \<Longrightarrow> \<not> needed \<and> (\<forall>y \<in> set (x1 # ys). xe_header_state y = XBE_HEADER_VALID \<and> xe_offset y < start
              \<and> start < xe_offset y + xe_length y \<longrightarrow>
              \<not> crossing_signature_possible y start ?stop (span ?f start n))"
            using no by (auto simp: nd_def)
          ultimately show ?thesis using jd by simp
        qed
        show ?thesis using trans' keep res unfolding out by blast
      qed
    qed
  qed
qed

end

section \<open>Contracts\<close>

definition xbe_valid ::
  "'s source_ops \<Rightarrow> ('s \<Rightarrow> bool) \<Rightarrow> ('s \<Rightarrow> nat \<Rightarrow> byte) \<Rightarrow> 's xbe_patch_context \<Rightarrow> bool" where
  "xbe_valid ops valid contents c \<longleftrightarrow>
     (case xp_inner c of None \<Rightarrow> False
      | Some s \<Rightarrow> valid s \<and> op_sector_count ops s \<le> UINT64_MAX div GDOX_LOGICAL_SECTOR_BYTES
          \<and> xbe_extents_ok (contents s) (op_sector_count ops s) (xp_extents c))"

definition xbe_contents :: "('s \<Rightarrow> nat \<Rightarrow> byte) \<Rightarrow> 's xbe_patch_context \<Rightarrow> nat \<Rightarrow> byte" where
  "xbe_contents contents c =
     (case xp_inner c of None \<Rightarrow> (\<lambda>_. 0)
      | Some s \<Rightarrow> xbe_view (xbe_key ` set (xp_extents c)) (contents s))"

definition xbe_ready :: "('s \<Rightarrow> bool) \<Rightarrow> 's xbe_patch_context \<Rightarrow> bool" where
  "xbe_ready ready c \<longleftrightarrow> (case xp_inner c of None \<Rightarrow> False | Some s \<Rightarrow> ready s)"

lemma xbe_put_view:
  "xbe_valid ops valid contents c \<Longrightarrow> xp_inner c = Some s \<Longrightarrow> view_kept ops valid contents s s' \<Longrightarrow>
   view_kept (xbe_patch_ops ops) (xbe_valid ops valid contents) (xbe_contents contents) c (put_xbe (Some s') c)"
  by (auto simp: view_kept_def xbe_valid_def xbe_contents_def xbe_patch_sector_count_def forward_sector_count_def)

lemma same_extents_facts:
  assumes "same_extents xs ys"
  shows "xbe_key ` set ys = xbe_key ` set xs"
    and "list_all (\<lambda>x. extent_bounds n x \<and> xe_prefix_max_end x = xe_offset x + xe_length x) xs \<Longrightarrow>
      list_all (\<lambda>x. extent_bounds n x \<and> xe_prefix_max_end x = xe_offset x + xe_length x) ys"
proof -
  let ?t = "\<lambda>x. (xe_offset x, xe_length x, xe_prefix_max_end x)"
  have eq: "?t ` set ys = ?t ` set xs"
    using arg_cong[OF assms[unfolded same_extents_def], of set] by simp
  have keys: "xbe_key ` set zs = (\<lambda>p. (fst p, fst (snd p))) ` ?t ` set zs" for zs
    by (simp add: image_image xbe_key_def)
  show "xbe_key ` set ys = xbe_key ` set xs" unfolding keys eq ..
  let ?P = "\<lambda>(a, l, m). 8 \<le> l \<and> a mod GDOX_LOGICAL_SECTOR_BYTES = 0 \<and> a + l \<le> n * GDOX_LOGICAL_SECTOR_BYTES \<and> m = a + l"
  have all: "list_all (\<lambda>x. extent_bounds n x \<and> xe_prefix_max_end x = xe_offset x + xe_length x) zs \<longleftrightarrow>
      (\<forall>p \<in> ?t ` set zs. ?P p)" for zs
    by (auto simp: list_all_iff extent_bounds_def)
  show "list_all (\<lambda>x. extent_bounds n x \<and> xe_prefix_max_end x = xe_offset x + xe_length x) xs \<Longrightarrow>
      list_all (\<lambda>x. extent_bounds n x \<and> xe_prefix_max_end x = xe_offset x + xe_length x) ys"
    unfolding all eq .
qed

lemma extents_ok_same:
  assumes "xbe_extents_ok f n xs" and "same_extents xs ys" and "list_all (header_ok f) ys"
  shows "xbe_extents_ok f n ys"
proof -
  have "separate ys" using assms(1) same_extents_separate[OF assms(2)] by (simp add: xbe_extents_ok_def)
  moreover have "list_all (\<lambda>x. extent_bounds n x \<and> xe_prefix_max_end x = xe_offset x + xe_length x) ys"
    by (rule same_extents_facts(2)[OF assms(2)]) (use assms(1) in \<open>auto simp: xbe_extents_ok_def list_all_iff\<close>)
  ultimately show ?thesis using assms(3) by (auto simp: xbe_extents_ok_def list_all_iff)
qed

lemma same_extents_take:
  assumes "same_extents (drop k es) xs"
  shows "same_extents es (take k es @ xs)"
proof -
  have "map g es = map g (take k es) @ map g (drop k es)" for g :: "xbe_patch_extent \<Rightarrow> nat \<times> nat \<times> nat"
    by (metis append_take_drop_id map_append)
  then show ?thesis using assms unfolding same_extents_def map_append by (metis (no_types))
qed

text \<open>The extents before the first possible one end before the request.\<close>

lemma first_possible_split:
  assumes "xbe_extents_ok f n xs"
  shows "x \<in> set (take (first_possible_extent xs start) xs) \<Longrightarrow> xe_offset x + xe_length x \<le> start"
proof -
  have mark: "xe_prefix_max_end (xs ! i) = xe_offset (xs ! i) + xe_length (xs ! i)" if "i < length xs" for i
    using assms that by (auto simp: xbe_extents_ok_def list_all_iff)
  have anti: "antitone_on 0 (length xs) (\<lambda>i. xe_prefix_max_end (xs ! i) \<le> start)"
    unfolding antitone_on_def
  proof (intro allI impI)
    fix i j assume a: "0 \<le> i \<and> i \<le> j \<and> j < length xs \<and> xe_prefix_max_end (xs ! j) \<le> start"
    show "xe_prefix_max_end (xs ! i) \<le> start"
    proof (cases "i = j")
      case False
      then have "xe_offset (xs ! i) + xe_length (xs ! i) \<le> xe_offset (xs ! j)"
        using assms a by (auto simp: xbe_extents_ok_def separate_def sorted_wrt_iff_nth_less)
      then show ?thesis using a mark[of i] mark[of j] by simp
    qed (use a in simp)
  qed
  assume "x \<in> set (take (first_possible_extent xs start) xs)"
  then obtain i where i: "i < first_possible_extent xs start" "i < length xs" "x = xs ! i"
    by (auto simp: in_set_conv_nth)
  have "\<forall>i. 0 \<le> i \<and> i < first_possible_extent xs start \<longrightarrow> xe_prefix_max_end (xs ! i) \<le> start"
    unfolding first_possible_extent_def by (rule conjunct1[OF bsearch_split[OF le0 anti]])
  then have "xe_prefix_max_end (xs ! i) \<le> start" using i(1) by blast
  then show ?thesis using i mark by simp
qed

text \<open>The bytes of the request, once the touched headers are known and the prefix is at hand if needed.\<close>

lemma patched_request:
  assumes ok: "xbe_extents_ok f n es" and bound: "n * GDOX_LOGICAL_SECTOR_BYTES < two64"
    and req: "start + k \<le> n * GDOX_LOGICAL_SECTOR_BYTES" "8 \<le> k"
    and xs: "same_extents (drop (first_possible_extent es start) es) xs" "list_all (header_ok f) xs"
      "list_all (judged start (start + k)) xs"
    and pre: "pstart \<le> start" "start \<le> pstart + 7"
      "\<And>a. pstart \<le> a \<Longrightarrow> a < start \<Longrightarrow> prefix ! (a - pstart) = f a"
    and crossing: "pstart + 7 = start \<or> (\<forall>x \<in> set xs. xe_header_state x = XBE_HEADER_VALID \<and> xe_offset x < start
              \<and> start < xe_offset x + xe_length x \<longrightarrow>
              \<not> crossing_signature_possible x start (start + k) (span f start k))"
  shows "patch_extents start (start + k) pstart prefix xs (span f start k) = span (xbe_view (xbe_key ` set es) f) start k"
proof -
  let ?first = "first_possible_extent es start"
  note es = same_extents_take[OF xs(1)]
  have ok_take: "list_all (header_ok f) (take ?first es)"
    using ok by (auto simp: xbe_extents_ok_def list_all_iff dest: in_set_takeD)
  have all: "xbe_extents_ok f n (take ?first es @ xs)"
    using extents_ok_same[OF ok es] ok_take xs(2) by simp
  have sep: "separate xs" using all by (simp add: xbe_extents_ok_def separate_def sorted_wrt_append)
  have bounds: "list_all (\<lambda>x. extent_bounds n x \<and> header_ok f x \<and> judged start (start + k) x) xs"
    using all xs(2,3) by (auto simp: xbe_extents_ok_def list_all_iff)
  have jumps: "pstart + 7 \<le> a" if x: "x \<in> set xs" "xe_header_state x = XBE_HEADER_VALID" and a: "start \<le> a" "a < start + k"
      and j: "jump_at f (xbe_key x) a" for x a
  proof (cases "pstart + 7 = start")
    case False
    have xb: "xe_offset x + xe_length x \<le> n * GDOX_LOGICAL_SECTOR_BYTES" "8 \<le> xe_length x"
      using bounds x(1) by (auto simp: list_all_iff extent_bounds_def)
    have r: "xe_offset x + 7 \<le> a" "a < xe_offset x + xe_length x" using jump_at_range[OF j] by auto
    have "start + 7 \<le> a"
    proof (cases "xe_offset x < start")
      case True
      then have "\<not> crossing_signature_possible x start (start + k) (span f start k)"
        using crossing False x a r by auto
      then show ?thesis using no_crossing[OF _ _ _ _ a(1) j, of k] req bound xb by simp
    qed (use r in simp)
    then show ?thesis using pre by simp
  qed (use a in simp)
  have "patch_extents start (start + k) pstart prefix xs (span (marked {} f) start k) =
      span (marked ({} \<union> valid_keys f xs) f) start k"
    using patch_extents_view[OF sep bounds bound _ req(2) pre jumps, where ys = "{}"] req(1) bound by simp
  also have "\<dots> = span (xbe_view (xbe_key ` set es) f) start k"
  proof (rule span_cong)
    fix a assume a: "start \<le> a" "a < start + k"
    have keys: "xbe_key ` set es = xbe_key ` set (take ?first es) \<union> xbe_key ` set xs"
      using same_extents_facts(1)[OF es] by (simp add: image_Un)
    have "\<not> jump_at f (xbe_key x) a" if "x \<in> set (take ?first es)" for x
      using first_possible_split[OF ok that] a jump_at_range[of f x a] by auto
    then show "marked ({} \<union> valid_keys f xs) f a = xbe_view (xbe_key ` set es) f a"
      unfolding xbe_view_def keys by (auto simp: marked_def valid_keys_def xbe_key_def)
  qed
  finally show ?thesis by simp
qed

context sector_source
begin

lemma xbe_patch_read_view:
  assumes "xbe_valid ops valid contents c"
    and "gdox_source_validate_read (op_sector_count (xbe_patch_ops ops) c) lba blocks n = Inr ()"
    and "xbe_patch_read ops c lba blocks n = (r, c')"
  shows "view_kept (xbe_patch_ops ops) (xbe_valid ops valid contents) (xbe_contents contents) c c'
    \<and> (\<forall>bs. r = Inr bs \<longrightarrow>
         bs = span (xbe_contents contents c) (lba * GDOX_LOGICAL_SECTOR_BYTES)
                (blocks * GDOX_LOGICAL_SECTOR_BYTES))"
proof -
  obtain s where s: "xp_inner c = Some s" "valid s"
      "op_sector_count ops s \<le> UINT64_MAX div GDOX_LOGICAL_SECTOR_BYTES"
      "xbe_extents_ok (contents s) (op_sector_count ops s) (xp_extents c)"
    using assms(1) by (auto simp: xbe_valid_def split: option.splits)
  let ?f = "contents s" and ?es = "xp_extents c" and ?start = "lba * GDOX_LOGICAL_SECTOR_BYTES"
  have count: "op_sector_count (xbe_patch_ops ops) c = op_sector_count ops s"
    using s(1) by (simp add: xbe_patch_sector_count_def forward_sector_count_def)
  have v: "0 < blocks" "n = blocks * GDOX_LOGICAL_SECTOR_BYTES" "lba + blocks \<le> op_sector_count ops s"
    using assms(2) validate_read_ok_iff[OF count_less[OF s(2)]] unfolding count by auto
  have bound: "op_sector_count ops s * GDOX_LOGICAL_SECTOR_BYTES < two64" using s(3) by (simp add: UINT64_MAX_def)
  have inside: "?start + n \<le> op_sector_count ops s * GDOX_LOGICAL_SECTOR_BYTES" "8 \<le> n" using v by auto
  have wrap: "u64_mul lba GDOX_LOGICAL_SECTOR_BYTES = ?start" "u64_add ?start n = ?start + n"
    using inside bound by simp_all
  obtain q h where rd: "gdox_source_read ops (Some s) lba blocks n = (q, h)" by fastforce
  obtain s1 where s1: "h = Some s1" "view_kept ops valid contents s s1"
    and out: "\<And>bs. q = Inr bs \<Longrightarrow> bs = span ?f ?start n"
    using source_read_view[OF s(2) rd] v by auto
  have vs1: "valid s1" "contents s1 = ?f" "op_sector_count ops s1 = op_sector_count ops s"
    using s1(2) by (simp_all add: view_kept_def)
  have kept: "view_kept (xbe_patch_ops ops) (xbe_valid ops valid contents) (xbe_contents contents) c
      \<lparr>xp_inner = Some s', xp_extents = es\<rparr>"
    if "view_kept ops valid contents s s'" "xbe_extents_ok ?f (op_sector_count ops s) es" "xbe_key ` set es = xbe_key ` set ?es"
    for s' es
    using that s assms(1)
    by (auto simp: view_kept_def xbe_valid_def xbe_contents_def xbe_patch_sector_count_def forward_sector_count_def)
  show ?thesis
  proof (cases q)
    case (Inl e)
    then have "r = Inl e" "c' = put_xbe (Some s1) c"
      using assms(3) rd s(1) s1(1) wrap by (auto simp: xbe_patch_read_def Let_def)
    then show ?thesis using xbe_put_view[OF assms(1) s(1) s1(2)] by simp
  next
    case (Inr data)
    note o = out[OF Inr]
    define first where "first = first_possible_extent ?es ?start"
    obtain b h2 xs c2 where ve: "validate_extents ops ?start (?start + n) (span ?f ?start n) (Some s1) (drop first ?es)
        \<lparr>sc_bytes = [], sc_lba = 0, sc_valid = False\<rparr> False = (b, h2, xs, c2)" by (metis prod_cases4)
    have sep: "separate (drop first ?es)"
      using s(4) unfolding xbe_extents_ok_def separate_def by (auto intro: sorted_wrt_drop)
    have each: "list_all (\<lambda>x. extent_bounds (op_sector_count ops s) x \<and> header_ok ?f x) (drop first ?es)"
      using s(4) by (auto simp: xbe_extents_ok_def list_all_iff dest: in_set_dropD)
    have cache0: "cache_ok (contents s1) \<lparr>sc_bytes = [], sc_lba = 0, sc_valid = False\<rparr>" by (simp add: cache_ok_def)
    note ve' = validate_extents_view[OF vs1(1) cache0, unfolded vs1(2), OF sep each _ bound ve]
    note vv = ve'[OF order.strict_trans1[OF inside(1) bound]]
    obtain s2 where s2: "h2 = Some s2" "view_kept ops valid contents s1 s2" using vv by blast
    have ks2: "view_kept ops valid contents s s2" using view_kept_trans[OF s1(2) s2(2)] .
    let ?es' = "take first ?es @ xs"
    have "same_extents (drop first ?es) xs" using vv by blast
    note same = same_extents_take[OF this]
    have "list_all (header_ok ?f) (take first ?es)"
      using s(4) unfolding xbe_extents_ok_def list_all_iff by (meson in_set_takeD)
    moreover have "list_all (header_ok ?f) xs" using vv by blast
    ultimately have hdr: "list_all (header_ok ?f) ?es'" unfolding list_all_append ..
    have ok': "xbe_extents_ok ?f (op_sector_count ops s) ?es'" by (rule extents_ok_same[OF s(4) same hdr])
    note keys = same_extents_facts(1)[OF same]
    note code = trans[OF xbe_patch_read_def[symmetric] assms(3), unfolded Let_def wrap s(1) rd Inr s1(1) o first_def[symmetric]]
    show ?thesis
    proof (cases b)
      case (Inl e)
      then have "r = Inl e" "c' = \<lparr>xp_inner = Some s2, xp_extents = ?es'\<rparr>" using code ve s2(1) by auto
      then show ?thesis using kept[OF ks2 ok' keys] by simp
    next
      case (Inr needed)
      have j: "list_all (judged ?start (?start + n)) xs" using vv Inr by simp
      have sx: "same_extents (drop first ?es) xs" "list_all (header_ok ?f) xs" using vv by simp_all
      show ?thesis
      proof (cases needed)
        case False
        then have "r = Inr (patch_extents ?start (?start + n) ?start (span ?f ?start n) xs (span ?f ?start n))"
          "c' = \<lparr>xp_inner = Some s2, xp_extents = ?es'\<rparr>"
          using code ve s2(1) Inr by auto
        moreover have "patch_extents ?start (?start + n) ?start (span ?f ?start n) xs (span ?f ?start n) =
            span (xbe_view (xbe_key ` set ?es) ?f) ?start n"
          using vv Inr False
          by (intro patched_request[OF s(4) bound inside sx[unfolded first_def] j]) auto
        ultimately show ?thesis using kept[OF ks2 ok' keys] s(1) v(2) by (simp add: xbe_contents_def)
      next
        case True
        then obtain x where "x \<in> set xs" "xe_offset x < ?start" using vv Inr by auto
        then have pos: "0 < lba" by (cases lba) auto
        then have lba1: "u64_sub lba 1 = lba - 1" "u64_sub ?start XBE_PATCH_OFFSET = ?start - 7"
          using inside bound by (simp_all add: XBE_PATCH_OFFSET_def)
        obtain p h3 c3 where rc: "read_cached_sector ops (Some s2) (lba - 1) c2 = (p, h3, c3)" by (metis prod_cases3)
        have vs2: "valid s2" "contents s2 = ?f" using ks2 by (simp_all add: view_kept_def)
        have cok: "cache_ok (contents s2) c2" using vv vs2 by simp
        note rv = read_cached_sector_view[OF vs2(1) cok rc, unfolded vs2(2)]
        obtain s3 where s3: "h3 = Some s3" "view_kept ops valid contents s s3"
          using rv(1) view_kept_trans[OF ks2] by blast
        note keep = kept[OF s3(2) ok' keys]
        show ?thesis
        proof (cases p)
          case (Inl e)
          then have "r = Inl e" "c' = \<lparr>xp_inner = Some s3, xp_extents = ?es'\<rparr>"
            using code ve s2(1) Inr True lba1 rc s3(1) \<open>b = Inr needed\<close> by auto
          then show ?thesis using keep by simp
        next
          case (Inr u)
          let ?prefix = "drop (GDOX_LOGICAL_SECTOR_BYTES - XBE_PATCH_OFFSET) (sc_bytes c3)"
          have bytes: "sc_bytes c3 = span ?f ((lba - 1) * GDOX_LOGICAL_SECTOR_BYTES) GDOX_LOGICAL_SECTOR_BYTES"
            using rv(3) Inr by simp
          have pre: "?prefix ! (a - (?start - 7)) = ?f a" if "?start - 7 \<le> a" "a < ?start" for a
          proof -
            have addr: "(lba - 1) * GDOX_LOGICAL_SECTOR_BYTES + (GDOX_LOGICAL_SECTOR_BYTES - 7) + (a - (?start - 7)) = a"
              using pos that by (cases lba) auto
            have m: "a - (?start - 7) < GDOX_LOGICAL_SECTOR_BYTES - (GDOX_LOGICAL_SECTOR_BYTES - 7)" using that by simp
            show ?thesis unfolding bytes XBE_PATCH_OFFSET_def drop_span nth_span[OF m] addr ..
          qed
          have "patch_extents ?start (?start + n) (?start - 7) ?prefix xs (span ?f ?start n) =
              span (xbe_view (xbe_key ` set ?es) ?f) ?start n"
          proof (rule patched_request[OF s(4) bound inside sx[unfolded first_def] j _ _ pre])
            show "?start - 7 \<le> ?start" "?start \<le> ?start - 7 + 7" by simp_all
            show "?start - 7 + 7 = ?start \<or> (\<forall>x \<in> set xs. xe_header_state x = XBE_HEADER_VALID \<and> xe_offset x < ?start
              \<and> ?start < xe_offset x + xe_length x \<longrightarrow>
              \<not> crossing_signature_possible x ?start (?start + n) (span ?f ?start n))"
              using pos by (cases lba) auto
          qed
          moreover have "r = Inr (patch_extents ?start (?start + n) (?start - 7) ?prefix xs (span ?f ?start n))"
            "c' = \<lparr>xp_inner = Some s3, xp_extents = ?es'\<rparr>"
            using code ve s2(1) Inr True lba1 rc s3(1) \<open>b = Inr needed\<close> by auto
          ultimately show ?thesis using keep s(1) v(2) by (simp add: xbe_contents_def)
        qed
      qed
    qed
  qed
qed

lemma xbe_patch_sector_source:
  "sector_source (xbe_patch_ops ops) (xbe_valid ops valid contents) (xbe_contents contents)"
proof (rule adapter_sector_source[where get = xp_inner and put = put_xbe])
  fix c g assume "op_abort (xbe_patch_ops ops) = Some g" "xbe_valid ops valid contents c"
  then show "view_kept (xbe_patch_ops ops) (xbe_valid ops valid contents) (xbe_contents contents) c (g c)"
    using forward_abort_view[of xp_inner c _ put_xbe] xbe_put_view[of ops valid contents c]
    by (fastforce simp: xbe_patch_abort_def xbe_valid_def split: option.splits)
next
  fix c h q c' assume "op_prepare_close (xbe_patch_ops ops) = Some h" "xbe_valid ops valid contents c" "h c = (q, c')"
  then show "view_kept (xbe_patch_ops ops) (xbe_valid ops valid contents) (xbe_contents contents) c c'"
    using forward_prepare_view[of xp_inner c _ put_xbe] xbe_put_view[of ops valid contents c]
    by (fastforce simp: xbe_patch_prepare_close_def xbe_valid_def split: option.splits)
next
  fix c assume "xbe_valid ops valid contents c"
  then show "op_sector_count (xbe_patch_ops ops) c < two64"
    using count_less
    by (fastforce simp: xbe_valid_def xbe_patch_sector_count_def forward_sector_count_def split: option.splits)
next
  fix c assume "xbe_valid ops valid contents c"
  then show "\<exists>s. xp_inner c = Some s \<and> valid s"
    by (auto simp: xbe_valid_def split: option.splits)
next
  fix c s s' assume "xbe_valid ops valid contents c" "xp_inner c = Some s" "view_kept ops valid contents s s'"
  then show "view_kept (xbe_patch_ops ops) (xbe_valid ops valid contents) (xbe_contents contents) c (put_xbe (Some s') c)"
    by (rule xbe_put_view)
next
  fix c lba blocks n r c'
  assume "xbe_valid ops valid contents c" "gdox_source_validate_read (op_sector_count (xbe_patch_ops ops) c) lba blocks n = Inr ()"
    "op_read (xbe_patch_ops ops) c lba blocks n = (r, c')"
  then show "view_kept (xbe_patch_ops ops) (xbe_valid ops valid contents) (xbe_contents contents) c c'
    \<and> (\<forall>bs. r = Inr bs \<longrightarrow>
         bs = span (xbe_contents contents c) (lba * GDOX_LOGICAL_SECTOR_BYTES) (blocks * GDOX_LOGICAL_SECTOR_BYTES))"
    using xbe_patch_read_view by simp
qed (simp_all add: xbe_patch_media_present_def xbe_patch_observe_media_def)

end

end
