(* ===== verification/XbePatchSource.thy ===== *)
theory XbePatchSource
  imports XbePatch XdvdfsPatches
begin

text \<open>
  Building the XBE compatibility source of src/src/core/xbe_patch_source.c and reading from it: the
  extents copied from the metadata are separate, sorted and indexed, every validated request succeeds
  on a reliable partition, and the source shows exactly \<open>xbe_view\<close> of its partition.
\<close>

section \<open>Copying the extents\<close>

definition entry_key :: "xdvdfs_entry \<Rightarrow> nat \<times> nat" where
  "entry_key e = (en_start_sector e * GDOX_LOGICAL_SECTOR_BYTES, en_size e)"

definition entry_keys :: "xdvdfs_entry list \<Rightarrow> (nat \<times> nat) set" where
  "entry_keys es = entry_key ` {e \<in> set es. 8 \<le> en_size e}"

lemma entry_extents_spec:
  assumes "entry_extents bytes es = Inr xs" and "list_all entry_ok es" and "bytes = sectors * GDOX_LOGICAL_SECTOR_BYTES"
  shows "xbe_key ` set xs = entry_keys es"
    and "list_all (\<lambda>x. extent_bounds sectors x \<and> xe_header_state x = XBE_HEADER_UNKNOWN) xs"
proof -
  have "xbe_key ` set xs = entry_keys es
    \<and> list_all (\<lambda>x. extent_bounds sectors x \<and> xe_header_state x = XBE_HEADER_UNKNOWN) xs"
    using assms
  proof (induction es arbitrary: xs)
    case Nil
    then show ?case by (simp add: entry_keys_def)
  next
    case (Cons e es)
    have mul: "u64_mul (en_start_sector e) GDOX_LOGICAL_SECTOR_BYTES = en_start_sector e * GDOX_LOGICAL_SECTOR_BYTES"
      using Cons.prems(2) by (simp add: entry_ok_def)
    obtain ys where ys: "entry_extents bytes es = Inr ys"
      and fits: "en_start_sector e * GDOX_LOGICAL_SECTOR_BYTES + en_size e \<le> bytes"
      and xs: "xs = (if en_size e < 8 then ys
                else \<lparr>xe_offset = en_start_sector e * GDOX_LOGICAL_SECTOR_BYTES, xe_length = en_size e,
                       xe_prefix_max_end = 0, xe_header_state = XBE_HEADER_UNKNOWN\<rparr> # ys)"
      using Cons.prems(1) by (auto simp: mul Let_def XBE_SIGNATURE_BYTES_def split: if_splits sum.splits)
    have keys: "entry_keys (e # es) = (if 8 \<le> en_size e then insert (entry_key e) (entry_keys es) else entry_keys es)"
      by (auto simp: entry_keys_def)
    show ?case
      using Cons.IH[OF ys] Cons.prems(2,3) fits unfolding keys xs
      by (auto simp: xbe_key_def entry_key_def extent_bounds_def)
  qed
  then show "xbe_key ` set xs = entry_keys es"
    "list_all (\<lambda>x. extent_bounds sectors x \<and> xe_header_state x = XBE_HEADER_UNKNOWN) xs" by auto
qed

lemma unique_extents_spec:
  assumes "unique_extents kept xs = Inr zs" and "separate kept"
    and "list_all (\<lambda>x. 8 \<le> xe_length x \<and> xe_offset x + xe_length x < two64) (kept @ xs)"
  shows "separate zs \<and> xbe_key ` set zs = xbe_key ` set (kept @ xs) \<and> set zs \<subseteq> set (kept @ xs)"
  using assms
proof (induction kept xs rule: unique_extents.induct)
  case (1 kept)
  then show ?case by simp
next
  case (2 kept x xs)
  show ?case
  proof (cases "kept = []")
    case True
    then show ?thesis using "2.IH"(1) "2.prems" by (simp add: separate_def)
  next
    case ne: False
    then have kept: "kept = butlast kept @ [last kept]" by simp
    have lastin: "last kept \<in> set kept" using ne by simp
    have e: "xbe_extent_end (last kept) = xe_offset (last kept) + xe_length (last kept)"
      using "2.prems"(3) lastin by (auto simp: xbe_extent_end_def list_all_iff)
    show ?thesis
    proof (cases "xe_offset x = xe_offset (last kept) \<and> xe_length x = xe_length (last kept)")
      case True
      then have "xbe_key x = xbe_key (last kept)" by (simp add: xbe_key_def)
      then have same: "xbe_key ` set (kept @ x # xs) = xbe_key ` set (kept @ xs)" using lastin by auto
      have rec: "unique_extents kept xs = Inr zs" using "2.prems"(1) ne True by simp
      have "list_all (\<lambda>x. 8 \<le> xe_length x \<and> xe_offset x + xe_length x < two64) (kept @ xs)" using "2.prems"(3) by simp
      note ih = "2.IH"(2)[OF ne True rec "2.prems"(2) this]
      have "set (kept @ xs) \<subseteq> set (kept @ x # xs)" by auto
      then show ?thesis using ih unfolding same by blast
    next
      case False
      then have guard: "\<not> xe_offset x < xbe_extent_end (last kept)" and rec: "unique_extents (kept @ [x]) xs = Inr zs"
        using "2.prems"(1) ne by (auto split: if_splits)
      have "xe_offset y + xe_length y \<le> xe_offset x" if y: "y \<in> set kept" for y
      proof -
        have "separate (butlast kept @ [last kept])" "y \<in> set (butlast kept @ [last kept])"
          using "2.prems"(2) y ne by simp_all
        then have "y = last kept \<or> xe_offset y + xe_length y \<le> xe_offset (last kept)"
          unfolding separate_def sorted_wrt_append by auto
        then show ?thesis using guard e by auto
      qed
      then have "separate (kept @ [x])" using "2.prems"(2) by (simp add: separate_def sorted_wrt_append)
      from "2.IH"(3)[OF ne False guard rec this] "2.prems"(3) show ?thesis by simp
    qed
  qed
qed

lemma index_prefix_separate:
  assumes "separate xs" and "list_all (\<lambda>x. xe_offset x + xe_length x < two64 \<and> m \<le> xe_offset x + xe_length x) xs"
  shows "index_prefix xbe_extent_end (\<lambda>m x. x\<lparr>xe_prefix_max_end := m, xe_header_state := XBE_HEADER_UNKNOWN\<rparr>) m xs =
    map (\<lambda>x. x\<lparr>xe_prefix_max_end := xe_offset x + xe_length x, xe_header_state := XBE_HEADER_UNKNOWN\<rparr>) xs"
  using assms
proof (induction xs arbitrary: m)
  case (Cons x xs)
  have e: "xbe_extent_end x = xe_offset x + xe_length x" using Cons.prems(2) by (simp add: xbe_extent_end_def)
  have "list_all (\<lambda>y. xe_offset y + xe_length y < two64 \<and> xe_offset x + xe_length x \<le> xe_offset y + xe_length y) xs"
    using Cons.prems by (auto simp: separate_def list_all_iff intro: trans_le_add1)
  moreover have "(if xbe_extent_end x > m then xbe_extent_end x else m) = xe_offset x + xe_length x"
    using e Cons.prems(2) by auto
  ultimately show ?case using Cons.IH Cons.prems(1) by (simp add: Let_def separate_def)
qed simp

lemma copy_extents_spec:
  assumes "copy_extents mem es (sectors * GDOX_LOGICAL_SECTOR_BYTES) = Inr xs" and "list_all entry_ok es"
    and "sectors * GDOX_LOGICAL_SECTOR_BYTES < two64"
  shows "xbe_extents_ok f sectors xs" and "xbe_key ` set xs = entry_keys es"
proof -
  have "xbe_extents_ok f sectors xs \<and> xbe_key ` set xs = entry_keys es"
  proof (cases "es = []")
    case True
    then show ?thesis using assms(1) by (simp add: copy_extents_def xbe_extents_ok_def separate_def entry_keys_def)
  next
    case False
    obtain ys zs where ys: "entry_extents (sectors * GDOX_LOGICAL_SECTOR_BYTES) es = Inr ys"
      and zs: "unique_extents [] (if length ys > 1 then qsort compare_xbe_extents ys else ys) = Inr zs"
      and xs: "xs = index_prefix xbe_extent_end (\<lambda>m x. x\<lparr>xe_prefix_max_end := m, xe_header_state := XBE_HEADER_UNKNOWN\<rparr>) 0 zs"
      using assms(1) False by (auto simp: copy_extents_def split: if_splits sum.splits)
    note en = entry_extents_spec[OF ys assms(2) refl]
    have all: "list_all (\<lambda>x. 8 \<le> xe_length x \<and> xe_offset x + xe_length x < two64)
        ([] @ (if length ys > 1 then qsort compare_xbe_extents ys else ys))"
      using en(2) assms(3) by (auto simp: list_all_iff extent_bounds_def)
    have "separate []" by (simp add: separate_def)
    note un = unique_extents_spec[OF zs this all]
    have bounds: "extent_bounds sectors z" if "z \<in> set zs" for z
      using that un en(2) by (auto simp: list_all_iff split: if_splits)
    have small: "xe_offset z + xe_length z < two64" if "z \<in> set zs" for z
      using bounds[OF that] assms(3) unfolding extent_bounds_def by simp
    have xs': "xs = map (\<lambda>x. x\<lparr>xe_prefix_max_end := xe_offset x + xe_length x, xe_header_state := XBE_HEADER_UNKNOWN\<rparr>) zs"
      unfolding xs using un small by (intro index_prefix_separate) (simp_all add: list_all_iff)
    have same: "separate xs"
      using un unfolding xs' separate_def sorted_wrt_map by simp
    have "xbe_extents_ok f sectors xs"
      using same bounds by (auto simp: xbe_extents_ok_def xs' list_all_iff extent_bounds_def header_ok_def)
    moreover have "xbe_key ` set xs = xbe_key ` set zs" by (simp add: xs' image_image xbe_key_def)
    moreover have "xbe_key ` set zs = entry_keys es" using un en(1) by auto
    ultimately show ?thesis by simp
  qed
  then show "xbe_extents_ok f sectors xs" "xbe_key ` set xs = entry_keys es" by simp_all
qed

section \<open>Reliability\<close>

text \<open>A request at the start of the medium has no sector before it.\<close>

lemma validate_extents_zero:
  "validate_extents ops 0 stop out h xs cache False = (Inr b, r) \<Longrightarrow> \<not> b"
proof (induction xs arbitrary: h cache r)
  case (Cons x xs)
  then show ?case by (auto simp: Let_def split: if_splits prod.splits sum.splits)
qed simp

context reliable_source
begin

lemma read_cached_sector_ready:
  assumes "valid s" and "ready s" and "lba < op_sector_count ops s"
  shows "\<exists>s' cache'. read_cached_sector ops (Some s) lba cache = (Inr (), Some s', cache')
    \<and> view_kept ops valid contents s s' \<and> ready s'"
  using source_read_ready[OF assms(1,2), of 1 lba] assms view_kept_refl[where valid = valid and s = s]
  by (auto simp: read_cached_sector_def)

lemma validate_header_ready:
  assumes "valid s" and "ready s" and "extent_bounds (op_sector_count ops s) x"
  shows "\<exists>s' x' cache'. validate_header ops (Some s) x start stop out cache = (Inr (), Some s', x', cache')
    \<and> view_kept ops valid contents s s' \<and> ready s'"
proof -
  have "xe_offset x div GDOX_LOGICAL_SECTOR_BYTES < op_sector_count ops s"
    using assms(3) by (auto simp: extent_bounds_def less_mult_imp_div_less)
  from read_cached_sector_ready[OF assms(1,2) this, of cache]
  show ?thesis
    using assms(1,2) view_kept_refl[where valid = valid and s = s] by (auto simp: validate_header_def Let_def)
qed

lemma validate_extents_ready:
  assumes "valid s" and "ready s" and "list_all (extent_bounds (op_sector_count ops s)) xs"
  shows "\<exists>b s' xs' cache'. validate_extents ops start stop out (Some s) xs cache needed = (Inr b, Some s', xs', cache')
    \<and> view_kept ops valid contents s s' \<and> ready s'"
  using assms
proof (induction xs arbitrary: s cache needed)
  case Nil
  then show ?case using view_kept_refl[where valid = valid and s = s] by auto
next
  case (Cons x xs)
  show ?case
  proof (cases "xe_offset x < stop")
    case False
    then show ?thesis using Cons.prems view_kept_refl[where valid = valid and s = s] by auto
  next
    case True
    show ?thesis
    proof (cases "ranges_intersect start stop (xe_offset x) (xbe_extent_end x)")
      case False
      have "list_all (extent_bounds (op_sector_count ops s)) xs" using Cons.prems(3) by simp
      from Cons.IH[OF Cons.prems(1,2) this, of cache needed] show ?thesis using True False by auto
    next
      case hit: True
      obtain s1 x1 c1 where vh: "validate_header ops (Some s) x start stop out cache = (Inr (), Some s1, x1, c1)"
        and s1: "view_kept ops valid contents s s1" "ready s1"
        using validate_header_ready[OF Cons.prems(1,2), of x start stop out cache] Cons.prems(3) by auto
      have v1: "valid s1" "op_sector_count ops s1 = op_sector_count ops s" using s1(1) by (simp_all add: view_kept_def)
      then have "list_all (extent_bounds (op_sector_count ops s1)) xs" using Cons.prems(3) by simp
      from Cons.IH[OF v1(1) s1(2) this, of c1 "needed \<or> xe_header_state x1 = XBE_HEADER_VALID \<and> xe_offset x1 < start
          \<and> crossing_signature_possible x1 start stop out"]
      obtain b s' xs' c' where "validate_extents ops start stop out (Some s1) xs c1 (needed \<or> xe_header_state x1 = XBE_HEADER_VALID
          \<and> xe_offset x1 < start \<and> crossing_signature_possible x1 start stop out) = (Inr b, Some s', xs', c')"
        "view_kept ops valid contents s1 s'" "ready s'" by blast
      then show ?thesis using True hit vh view_kept_trans[OF s1(1)] by (auto simp: Let_def)
    qed
  qed
qed

lemma xbe_patch_reliable_source:
  "reliable_source (xbe_patch_ops ops) (xbe_valid ops valid contents) (xbe_contents contents) (xbe_ready ready)"
proof (rule reliable_source.intro[OF xbe_patch_sector_source], standard)
  fix c lba blocks n
  assume v: "xbe_valid ops valid contents c" and rdy: "xbe_ready ready c"
    and rq: "gdox_source_validate_read (op_sector_count (xbe_patch_ops ops) c) lba blocks n = Inr ()"
  obtain s where s: "xp_inner c = Some s" "valid s" "ready s"
      "xbe_extents_ok (contents s) (op_sector_count ops s) (xp_extents c)"
    using v rdy by (auto simp: xbe_valid_def xbe_ready_def split: option.splits)
  have b: "0 < blocks" "n = blocks * GDOX_LOGICAL_SECTOR_BYTES" "n \<le> SIZE_MAX" "lba + blocks \<le> op_sector_count ops s"
    using rq validate_read_ok_iff[OF count_less[OF s(2)]] s(1)
    by (auto simp: xbe_patch_sector_count_def forward_sector_count_def)
  obtain s1 where rd: "gdox_source_read ops (Some s) lba blocks n =
      (Inr (span (contents s) (lba * GDOX_LOGICAL_SECTOR_BYTES) (blocks * GDOX_LOGICAL_SECTOR_BYTES)), Some s1)"
    and s1: "view_kept ops valid contents s s1" "ready s1"
    using source_read_ready_max[OF s(2,3) b(1,4)] b(2,3) by auto
  have v1: "valid s1" "op_sector_count ops s1 = op_sector_count ops s" using s1(1) by (simp_all add: view_kept_def)
  define start where "start = u64_mul lba GDOX_LOGICAL_SECTOR_BYTES"
  define first where "first = first_possible_extent (xp_extents c) start"
  have "list_all (extent_bounds (op_sector_count ops s1)) (drop first (xp_extents c))"
    using s(4) v1(2) by (auto simp: xbe_extents_ok_def list_all_iff dest: in_set_dropD)
  from validate_extents_ready[OF v1(1) s1(2) this]
  obtain needed s2 xs c2 where ve: "validate_extents ops start (u64_add start n)
      (span (contents s) (lba * GDOX_LOGICAL_SECTOR_BYTES) (blocks * GDOX_LOGICAL_SECTOR_BYTES)) (Some s1)
      (drop first (xp_extents c)) \<lparr>sc_bytes = [], sc_lba = 0, sc_valid = False\<rparr> False = (Inr needed, Some s2, xs, c2)"
    and s2: "view_kept ops valid contents s1 s2" "ready s2"
    by blast
  have v2: "valid s2" "op_sector_count ops s2 = op_sector_count ops s" using s2(1) v1 by (simp_all add: view_kept_def)
  have lba: "lba < op_sector_count ops s" "lba < two64" using b count_less[OF s(2)] by auto
  have prev: "u64_sub lba 1 < op_sector_count ops s" if "0 < lba" using that lba by simp
  have needed_pos: "0 < lba" if needed
  proof (rule ccontr)
    assume "\<not> 0 < lba"
    then have "start = 0" by (simp add: start_def)
    then show False using validate_extents_zero[OF ve[unfolded \<open>start = 0\<close>]] that by simp
  qed
  show "\<exists>bs c'. op_read (xbe_patch_ops ops) c lba blocks n = (Inr bs, c') \<and> xbe_ready ready c'"
  proof (cases needed)
    case False
    then show ?thesis
      using ve rd s(1) s2(2) by (simp add: xbe_patch_read_def Let_def start_def[symmetric] first_def[symmetric] xbe_ready_def)
  next
    case True
    obtain s3 c3 where "read_cached_sector ops (Some s2) (u64_sub lba 1) c2 = (Inr (), Some s3, c3)" "ready s3"
      using read_cached_sector_ready[OF v2(1) s2(2), of "u64_sub lba 1" c2] prev[OF needed_pos[OF True]] v2(2) by auto
    then show ?thesis
      using ve rd s(1) True by (simp add: xbe_patch_read_def Let_def start_def[symmetric] first_def[symmetric] xbe_ready_def)
  qed
qed

end

context closable_source
begin

lemma xbe_patch_closable_source:
  "closable_source (xbe_patch_ops ops) (\<lambda>c. \<exists>s. xp_inner c = Some s \<and> prepared s)"
  by (rule adapter_closable[where put = "\<lambda>_. put_xbe"])
    (auto simp: xbe_patch_prepare_close_def xbe_patch_close_def
      intro: prepare_step_forward dest: prepare_step_forward_None[rotated 2])

end

interpretation file_xbe_patched: reliable_source "xbe_patch_ops file_ops" "xbe_valid file_ops file_valid file_contents"
  "xbe_contents file_contents" "xbe_ready file_ready"
  by (rule file_source.xbe_patch_reliable_source)

interpretation file_xbe_closable: closable_source "xbe_patch_ops file_ops" "\<lambda>c. \<exists>s. xp_inner c = Some s \<and> True"
  by (rule file_closable.xbe_patch_closable_source)

section \<open>Construction\<close>

context sector_source
begin

lemma make_xbe_patch_source_view:
  assumes "gdox_source_make_xbe_patch_source mem ops (Some s) md = (Inr (), part, out)" and "valid s"
    and "list_all entry_ok (md_xbe_files md)"
  shows "part = None \<and> (\<exists>c. out = Some c \<and> xp_inner c = Some s \<and> xbe_valid ops valid contents c
    \<and> xbe_contents contents c = xbe_view (entry_keys (md_xbe_files md)) (contents s)
    \<and> xbe_patch_sector_count ops c = op_sector_count ops s)"
proof -
  have cnt: "op_sector_count ops s \<le> UINT64_MAX div GDOX_LOGICAL_SECTOR_BYTES"
    using assms(1) by (auto simp: gdox_source_make_xbe_patch_source_def Let_def split: if_splits)
  have bound: "op_sector_count ops s * GDOX_LOGICAL_SECTOR_BYTES < two64" using cnt by (simp add: UINT64_MAX_def)
  obtain xs where xs: "copy_extents mem (md_xbe_files md) (op_sector_count ops s * GDOX_LOGICAL_SECTOR_BYTES) = Inr xs"
    and out: "part = None" "out = Some \<lparr>xp_inner = Some s, xp_extents = xs\<rparr>"
    using assms(1) bound by (auto simp: gdox_source_make_xbe_patch_source_def Let_def split: if_splits sum.splits)
  note cs = copy_extents_spec[OF xs assms(3) bound]
  show ?thesis
    using out cs(1)[of "contents s"] cs(2) assms(2) cnt
    by (simp add: xbe_valid_def xbe_contents_def xbe_patch_sector_count_def forward_sector_count_def)
qed

end

section \<open>Agreement with the collected patches\<close>

text \<open>The patches of an executable written at their offsets are its marked jumps.\<close>

lemma xbe_view_is_patch_view:
  assumes "list_all (\<lambda>e. en_size e \<le> 67108864) es"
  shows "xbe_view (entry_keys es) (\<lambda>a. f (base * GDOX_LOGICAL_SECTOR_BYTES + a)) =
    patch_view (concat (map (entry_patches f base) es)) (\<lambda>a. f (base * GDOX_LOGICAL_SECTOR_BYTES + a))"
proof (rule ext)
  fix a
  let ?g = "\<lambda>a. f (base * GDOX_LOGICAL_SECTOR_BYTES + a)"
  let ?ps = "concat (map (entry_patches f base) es)"
  have data: "volume_span f base (en_start_sector e) (en_size e) =
      span ?g (en_start_sector e * GDOX_LOGICAL_SECTOR_BYTES) (sectors_of (en_size e) * GDOX_LOGICAL_SECTOR_BYTES)" for e
    by (simp add: volume_span_def span_shift add_mult_distrib)
  have magic: "take 4 (volume_span f base (en_start_sector e) (en_size e)) = xbe_header_magic
      \<longleftrightarrow> xbe_magic_at ?g (fst (entry_key e))" if "8 \<le> en_size e" for e
  proof -
    have "min 4 (sectors_of (en_size e) * GDOX_LOGICAL_SECTOR_BYTES) = 4"
      using that sectors_of_bound[of "en_size e"] by (auto simp: min_def)
    then show ?thesis unfolding data by (simp add: xbe_magic_at_def entry_key_def take_span)
  qed
  have window: "take 8 (drop i (volume_span f base (en_start_sector e) (en_size e))) = xbe_media_check
      \<longleftrightarrow> signature_at ?g (en_start_sector e * GDOX_LOGICAL_SECTOR_BYTES + i)" if "i + 8 \<le> en_size e" for i e
  proof -
    have "min 8 (sectors_of (en_size e) * GDOX_LOGICAL_SECTOR_BYTES - i) = 8"
      using that sectors_of_bound[of "en_size e"] by (auto simp: min_def)
    then show ?thesis
      unfolding data by (simp add: signature_at_def take_span drop_span media_check_signature_def xbe_media_check_def)
  qed
  have hit: "(\<exists>p \<in> set (entry_patches f base e). bp_offset p = a) \<longleftrightarrow>
      8 \<le> en_size e \<and> xbe_magic_at ?g (fst (entry_key e)) \<and> jump_at ?g (entry_key e) a" if e: "e \<in> set es" for e
  proof (cases "8 \<le> en_size e \<and> xbe_magic_at ?g (fst (entry_key e))")
    case False
    then show ?thesis using magic[of e] by (auto simp: entry_patches_def scanned_def Let_def)
  next
    case True
    have sz: "en_size e \<le> GDOX_XDVDFS_MAX_XBE_BYTES"
      using assms e by (auto simp: list_all_iff GDOX_XDVDFS_MAX_XBE_BYTES_def)
    let ?o = "en_start_sector e * GDOX_LOGICAL_SECTOR_BYTES"
    have "(\<exists>p \<in> set (entry_patches f base e). bp_offset p = a) \<longleftrightarrow>
        (\<exists>i. i + 8 \<le> en_size e \<and> signature_at ?g (?o + i) \<and> ?o + i + 7 = a)"
      using True sz magic[of e] window[of _ e]
      by (auto simp: entry_patches_def scanned_def Let_def check_offsets_def)
    also have "\<dots> \<longleftrightarrow> jump_at ?g (entry_key e) a"
    proof
      assume "jump_at ?g (entry_key e) a"
      then have "(a - 7 - ?o) + 8 \<le> en_size e \<and> signature_at ?g (?o + (a - 7 - ?o)) \<and> ?o + (a - 7 - ?o) + 7 = a"
        by (auto simp: jump_at_def entry_key_def)
      then show "\<exists>i. i + 8 \<le> en_size e \<and> signature_at ?g (?o + i) \<and> ?o + i + 7 = a" by blast
    qed (auto simp: jump_at_def entry_key_def)
    finally show ?thesis using True by simp
  qed
  have eb: "bp_value p = XBE_PATCH_VALUE" if "p \<in> set ?ps" for p
    using that by (auto simp: entry_patches_def Let_def XBE_PATCH_VALUE_def split: if_splits)
  have "patch_view ?ps ?g a = (if \<exists>p \<in> set ?ps. bp_offset p = a then XBE_PATCH_VALUE else ?g a)"
  proof (cases "filter (\<lambda>p. bp_offset p = a) ?ps")
    case Nil
    then show ?thesis by (auto simp: patch_view_at filter_empty_conv)
  next
    case (Cons x xs)
    have "last (x # xs) \<in> set (filter (\<lambda>p. bp_offset p = a) ?ps)" unfolding Cons by (rule last_in_set) simp
    then have l: "last (x # xs) \<in> set ?ps" "bp_offset (last (x # xs)) = a" by simp_all
    have "patch_view ?ps ?g a = bp_value (last (x # xs))" unfolding patch_view_at Cons by simp
    then show ?thesis using l eb by auto
  qed
  also have "(\<exists>p \<in> set ?ps. bp_offset p = a) \<longleftrightarrow>
      (\<exists>e \<in> set es. 8 \<le> en_size e \<and> xbe_magic_at ?g (fst (entry_key e)) \<and> jump_at ?g (entry_key e) a)"
    using hit by auto
  finally show "xbe_view (entry_keys es) ?g a = patch_view ?ps ?g a"
    by (auto simp: xbe_view_def entry_keys_def)
qed

section \<open>Properties\<close>

text \<open>
  C27: A source built over a partition and the metadata of its disc shows, on every read of any sequence inside it, the
  bytes of the partition with the jump behind each media check inside an executable replaced, whether
  the check lies inside the request or crosses its start, and whatever requests came before.
\<close>
theorem xbe_patch_source_shows_view:
  assumes "reliable_source ops valid contents ready" and "valid s" and "ready s"
    and "gdox_source_make_xbe_patch_source mem ops (Some s) md = (Inr (), part, out)"
    and "list_all (\<lambda>e. en_start_sector e < two32 \<and> en_size e < two32) (md_xbe_files md)"
    and "requests_inside (op_sector_count ops s) requests"
  shows "fst (source_reads (xbe_patch_ops ops) requests out) =
      span_answers (xbe_view (entry_keys (md_xbe_files md)) (contents s)) requests"
proof -
  have "list_all entry_ok (md_xbe_files md)" using assms(5) by (simp add: entry_ok_def[abs_def])
  from sector_source.make_xbe_patch_source_view[OF reliable_source.axioms(1)[OF assms(1)] assms(4,2) this]
  obtain c where c: "out = Some c" "xp_inner c = Some s" "xbe_valid ops valid contents c"
      "xbe_contents contents c = xbe_view (entry_keys (md_xbe_files md)) (contents s)"
      "xbe_patch_sector_count ops c = op_sector_count ops s"
    by blast
  have "xbe_ready ready c" using assms(3) c(2) by (simp add: xbe_ready_def)
  from reliable_source.source_reads_ready[OF reliable_source.xbe_patch_reliable_source[OF assms(1)] c(3) this, of requests]
  show ?thesis using assms(6) c by auto
qed

definition sample_patched_metadata :: xdvdfs_metadata where
  "sample_patched_metadata = \<lparr>md_volume = sample_volume, md_title = None, md_title_id = None,
     md_xbe_files = [sample_entry\<lparr>en_size := 12\<rparr>], md_default_xbe_index = 0, md_file_extents = []\<rparr>"

lemma sample_xbe_make:
  "gdox_source_make_xbe_patch_source (\<lambda>_. True) file_ops (Some sample_disc) sample_patched_metadata =
     (Inr (), None, Some \<lparr>xp_inner = Some sample_disc,
        xp_extents = [\<lparr>xe_offset = 69632, xe_length = 12, xe_prefix_max_end = 69644, xe_header_state = XBE_HEADER_UNKNOWN\<rparr>]\<rparr>)"
  by (simp add: gdox_source_make_xbe_patch_source_def sample_patched_metadata_def copy_extents_def Let_def UINT64_MAX_def
      SIZE_MAX_def XBE_PATCH_EXTENT_BYTES_def XBE_SIGNATURE_BYTES_def xbe_extent_end_def)

theorem xbe_patch_source_shows_view_witness:
  "fst (source_reads (xbe_patch_ops file_ops) [(34, 1), (33, 3)]
      (Some \<lparr>xp_inner = Some sample_disc, xp_extents = [\<lparr>xe_offset = 69632, xe_length = 12, xe_prefix_max_end = 69644,
         xe_header_state = XBE_HEADER_UNKNOWN\<rparr>]\<rparr>)) =
      span_answers (xbe_view (entry_keys (md_xbe_files sample_patched_metadata)) (file_contents sample_disc)) [(34, 1), (33, 3)]"
  by (rule xbe_patch_source_shows_view[OF file_source.reliable_source_axioms _ _ sample_xbe_make])
    (simp_all add: sample_patched_metadata_def requests_inside_def)

text \<open>
  Patching a complete executable in memory gives the same bytes as the view the source shows of it
  when the file is the whole medium; a buffer without the XBE magic, or shorter than a media check,
  is left alone.
\<close>
theorem patch_complete_file_is_view:
  assumes "n \<le> length b"
  shows "gdox_xbe_patch_complete_file (Some b) n =
    (if 8 \<le> n \<and> take 4 b = ascii ''XBEH'' then (True, Some (span (xbe_view {(0, n)} (bytes_at b)) 0 (length b)))
     else (False, Some b))"
proof -
  have "window_eq b 0 xbe_header_magic \<longleftrightarrow> take 4 b = ascii ''XBEH''"
    unfolding window_eq_def length_xbe_header_magic drop_0 by (simp add: xbe_header_magic_def)
  then show ?thesis
    using patch_file_loop_view[of n b] assms by (auto simp: gdox_xbe_patch_complete_file_def XBE_SIGNATURE_BYTES_def)
qed

theorem patch_complete_file_is_view_witness:
  "gdox_xbe_patch_complete_file (Some sample_xbe) 12 =
     (True, Some (span (xbe_view {(0, 12)} (bytes_at sample_xbe)) 0 2048))"
  using patch_complete_file_is_view[of 12 sample_xbe] sample_xbe_windows(1) by simp

text \<open>
  C28: The image archived with the collected media patches is the one the compatibility source plays: over
  any reliable source of the partition, with executables of at most 64 MiB, every read of the byte-patched
  source equals the same read of the compatibility source.
\<close>
theorem archived_patches_match_playback:
  assumes "sector_source ops valid contents" and "valid s" and "base_lba (md_volume md) + two32 \<le> two64"
    and "list_all (\<lambda>e. en_start_sector e < two32 \<and> en_size e \<le> 67108864) (md_xbe_files md)"
    and "gdox_xdvdfs_collect_media_patches mem ops (Some s) md = (Inr ps, h)" and "ps \<noteq> []"
    and "reliable_source pops pvalid pcontents pready" and "pvalid p" and "pready p"
    and "pcontents p = (\<lambda>a. contents s (base_lba (md_volume md) * GDOX_LOGICAL_SECTOR_BYTES + a))"
    and "gdox_source_make_patched mem pops (Some p) (Some ps) (length ps) = (Inr (), inner1, Patched archived)"
    and "gdox_source_make_xbe_patch_source mem pops (Some p) md = (Inr (), inner2, played)"
    and "0 < blocks" and "blocks < two32" and "lba + blocks \<le> op_sector_count pops p"
  shows "fst (gdox_source_read (patch_ops pops) archived lba blocks (blocks * GDOX_LOGICAL_SECTOR_BYTES)) =
    fst (gdox_source_read (xbe_patch_ops pops) played lba blocks (blocks * GDOX_LOGICAL_SECTOR_BYTES))"
proof -
  have ok: "list_all entry_ok (md_xbe_files md)"
    using assms(4) by (auto simp: entry_ok_def list_all_iff)
  obtain v where v: "collect_entry_patches mem ops (Some s) (base_lba (md_volume md)) (md_xbe_files md) vec_empty = (Inr v, h)"
    and p: "ps = vec_items v"
    using assms(5) by (auto simp: gdox_xdvdfs_collect_media_patches_def split: prod.splits sum.splits)
  have "ps = concat (map (entry_patches (contents s) (base_lba (md_volume md))) (md_xbe_files md))"
    using sector_source.collect_entry_patches_items[OF assms(1,2) v ok assms(3)] p by simp
  then have view: "patch_view ps (pcontents p) = xbe_view (entry_keys (md_xbe_files md)) (pcontents p)"
    using xbe_view_is_patch_view[of "md_xbe_files md" "contents s"] assms(4) by (simp add: assms(10) list_all_iff)
  note src = reliable_source.axioms(1)[OF assms(7)]
  obtain c where c: "archived = Some c" "patched_valid pops pvalid c"
      "patched_contents pcontents c = patch_view ps (pcontents p)" "patch_sector_count pops c = op_sector_count pops p"
    using sector_source.make_patched_view[OF src assms(11,8,6)] by blast
  have "patched_ready pready c"
    using assms(6,9,11) c(1)
    by (auto simp: gdox_source_make_patched_def patched_ready_def Let_def split: if_splits sum.splits)
  from reliable_source.source_read_ready[OF reliable_source.patched_reliable_source[OF assms(7)] c(2) this assms(13), of lba]
  have "fst (gdox_source_read (patch_ops pops) archived lba blocks (blocks * GDOX_LOGICAL_SECTOR_BYTES)) =
      Inr (span (patch_view ps (pcontents p)) (lba * GDOX_LOGICAL_SECTOR_BYTES) (blocks * GDOX_LOGICAL_SECTOR_BYTES))"
    using assms(14,15) c by auto
  moreover obtain d where d: "played = Some d" "xp_inner d = Some p" "xbe_valid pops pvalid pcontents d"
      "xbe_contents pcontents d = xbe_view (entry_keys (md_xbe_files md)) (pcontents p)"
      "xbe_patch_sector_count pops d = op_sector_count pops p"
    using sector_source.make_xbe_patch_source_view[OF src assms(12,8) ok] by blast
  moreover have "xbe_ready pready d" using assms(9) d(2) by (simp add: xbe_ready_def)
  ultimately show ?thesis
    using reliable_source.source_read_ready[OF reliable_source.xbe_patch_reliable_source[OF assms(7)] d(3) _ assms(13), of lba]
      assms(14,15) view by auto
qed

theorem archived_patches_match_playback_witness:
  "fst (gdox_source_read (patch_ops file_ops) (Some \<lparr>pt_inner = Some sample_disc, pt_patches = [sample_patch]\<rparr>) 34 1
      (1 * GDOX_LOGICAL_SECTOR_BYTES)) =
   fst (gdox_source_read (xbe_patch_ops file_ops)
      (Some \<lparr>xp_inner = Some sample_disc, xp_extents = [\<lparr>xe_offset = 69632, xe_length = 12, xe_prefix_max_end = 69644,
         xe_header_state = XBE_HEADER_UNKNOWN\<rparr>]\<rparr>) 34 1 (1 * GDOX_LOGICAL_SECTOR_BYTES))"
proof -
  obtain h where h: "gdox_xdvdfs_collect_media_patches (\<lambda>_. True) file_ops (Some sample_disc) sample_patched_metadata =
      (Inr [sample_patch], h)"
    using sample_media_patches by (auto simp: sample_patched_metadata_def)
  have m: "gdox_source_make_patched (\<lambda>_. True) file_ops (Some sample_disc) (Some [sample_patch]) (length [sample_patch]) =
     (Inr (), None, Patched (Some \<lparr>pt_inner = Some sample_disc, pt_patches = [sample_patch]\<rparr>))"
    by (simp add: gdox_source_make_patched_def Let_def SIZE_MAX_def UINT64_MAX_def INDEXED_PATCH_BYTES_def sample_patch_def)
  show ?thesis
    by (rule archived_patches_match_playback[OF file_source.sector_source_axioms _ _ _ h _
          file_source.reliable_source_axioms _ _ _ m sample_xbe_make])
      (simp_all add: sample_patched_metadata_def sample_volume_def)
qed

end
