(* ===== verification/DefaultXbeCache.thy ===== *)
theory DefaultXbeCache
  imports XbePatchSource
begin

text \<open>
  The default-executable cache of src/src/core/default_xbe_cache_source.c: \<open>/default.xbe\<close> is read
  once, patched in memory and served from there, everything else comes from the wrapped partition. The
  source shows \<open>xbe_view\<close> of its partition with the default executable alone, on every read, whatever
  part of the executable the read overlaps.
\<close>

definition DEFAULT_XBE_CACHE_MAX_BYTES :: u64 where "DEFAULT_XBE_CACHE_MAX_BYTES = 67108864"
definition DEFAULT_XBE_CACHE_READ_BLOCKS :: u32 where "DEFAULT_XBE_CACHE_READ_BLOCKS = 512"

record 's default_xbe_cache_context =
  dq_inner :: "'s sector_source"
  dq_bytes :: "byte list option"
  dq_start_sector :: u64
  dq_sectors :: u64
  dq_aborted :: bool

abbreviation put_default :: "'s sector_source \<Rightarrow> 's default_xbe_cache_context \<Rightarrow> 's default_xbe_cache_context" where
  "put_default h c \<equiv> c\<lparr>dq_inner := h\<rparr>"

definition default_cache_sector_count :: "'s source_ops \<Rightarrow> 's default_xbe_cache_context \<Rightarrow> u64" where
  "default_cache_sector_count ops = forward_sector_count dq_inner ops"

definition read_inner ::
  "'s source_ops \<Rightarrow> 's default_xbe_cache_context \<Rightarrow> u64 \<Rightarrow> u32 \<Rightarrow> byte list res \<times> 's default_xbe_cache_context" where
  "read_inner ops c lba blocks =
     (case gdox_source_read ops (dq_inner c) lba blocks (blocks * GDOX_LOGICAL_SECTOR_BYTES) of
        (r, h) \<Rightarrow> (r, put_default h c))"

text \<open>
  The loop of \<open>cache_read\<close>; \<open>filled\<close> is the output written so far. The differences are guarded by the
  conditions before them, and a chunk is at most the 32-bit remaining count.
\<close>

function default_cache_read_loop ::
  "'s source_ops \<Rightarrow> 's default_xbe_cache_context \<Rightarrow> u64 \<Rightarrow> nat \<Rightarrow> byte list
     \<Rightarrow> byte list res \<times> 's default_xbe_cache_context" where
  "default_cache_read_loop ops c current remaining filled =
     (if remaining = 0 then (Inr filled, c)
      else (let cache_end = u64_add (dq_start_sector c) (dq_sectors c)
            in if dq_bytes c \<noteq> None \<and> current \<ge> dq_start_sector c \<and> current < cache_end
               then (let available = cache_end - current;
                         chunk = (if available < remaining then available else remaining);
                         piece = take (chunk * GDOX_LOGICAL_SECTOR_BYTES)
                           (drop ((current - dq_start_sector c) * GDOX_LOGICAL_SECTOR_BYTES) (the (dq_bytes c)))
                     in default_cache_read_loop ops c (u64_add current chunk) (remaining - chunk) (filled @ piece))
               else (let available = (if dq_bytes c \<noteq> None \<and> current < dq_start_sector c
                                      then (if dq_start_sector c - current > remaining then remaining
                                            else dq_start_sector c - current)
                                      else remaining);
                         chunk = available
                     in case read_inner ops c current chunk of
                          (Inl e, c) \<Rightarrow> (Inl e, c)
                        | (Inr piece, c) \<Rightarrow>
                            default_cache_read_loop ops c (u64_add current chunk) (remaining - chunk) (filled @ piece))))"
  by pat_completeness auto
termination
  by (relation "measure (\<lambda>(ops, c, current, remaining, filled). remaining)") (auto split: if_splits)

declare default_cache_read_loop.simps [simp del]

definition default_cache_read ::
  "'s source_ops \<Rightarrow> 's default_xbe_cache_context \<Rightarrow> u64 \<Rightarrow> u32 \<Rightarrow> nat
     \<Rightarrow> byte list res \<times> 's default_xbe_cache_context" where
  "default_cache_read ops c lba blocks output_bytes =
     (if dq_aborted c then (fail ERROR_CANCELLED ''default XBE cache source was cancelled'', c)
      else default_cache_read_loop ops c lba blocks [])"

definition default_cache_media_present ::
  "'s source_ops \<Rightarrow> 's default_xbe_cache_context \<Rightarrow> bool \<times> 's default_xbe_cache_context" where
  "default_cache_media_present ops = forward_media_present dq_inner put_default ops"

definition default_cache_observe_media ::
  "'s source_ops \<Rightarrow> 's default_xbe_cache_context \<Rightarrow> media_observation \<times> 's default_xbe_cache_context" where
  "default_cache_observe_media ops = forward_observe_media dq_inner put_default ops"

definition default_cache_evidence :: "'s source_ops \<Rightarrow> 's default_xbe_cache_context \<Rightarrow> bool \<times> disc_evidence" where
  "default_cache_evidence ops = forward_evidence dq_inner ops"

definition default_cache_physical_read_stats ::
  "'s source_ops \<Rightarrow> 's default_xbe_cache_context \<Rightarrow> bool \<times> physical_read_stats" where
  "default_cache_physical_read_stats ops = forward_physical_read_stats dq_inner ops"

definition default_cache_abort :: "'s source_ops \<Rightarrow> 's default_xbe_cache_context \<Rightarrow> 's default_xbe_cache_context" where
  "default_cache_abort ops c = put_default (gdox_source_abort ops (dq_inner c)) (c\<lparr>dq_aborted := True\<rparr>)"

definition default_cache_prepare_close ::
  "'s source_ops \<Rightarrow> 's default_xbe_cache_context \<Rightarrow> unit res \<times> 's default_xbe_cache_context" where
  "default_cache_prepare_close ops = forward_prepare_close dq_inner put_default ops"

definition default_cache_close :: "'s source_ops \<Rightarrow> 's default_xbe_cache_context \<Rightarrow> unit res \<times> bool" where
  "default_cache_close ops = forward_close dq_inner ops"

definition default_cache_ops :: "'s source_ops \<Rightarrow> 's default_xbe_cache_context source_ops" where
  "default_cache_ops ops =
     \<lparr>op_sector_count = default_cache_sector_count ops, op_read = default_cache_read ops,
      op_media_present = Some (default_cache_media_present ops), op_close = default_cache_close ops,
      op_evidence = Some (default_cache_evidence ops),
      op_physical_read_stats = Some (default_cache_physical_read_stats ops),
      op_abort = Some (default_cache_abort ops),
      op_prepare_close = Some (default_cache_prepare_close ops),
      op_observe_media = Some (default_cache_observe_media ops)\<rparr>"

lemma default_cache_ops_simps [simp]:
  "op_sector_count (default_cache_ops ops) = default_cache_sector_count ops"
  "op_read (default_cache_ops ops) = default_cache_read ops"
  "op_media_present (default_cache_ops ops) = Some (default_cache_media_present ops)"
  "op_close (default_cache_ops ops) = default_cache_close ops"
  "op_evidence (default_cache_ops ops) = Some (default_cache_evidence ops)"
  "op_physical_read_stats (default_cache_ops ops) = Some (default_cache_physical_read_stats ops)"
  "op_abort (default_cache_ops ops) = Some (default_cache_abort ops)"
  "op_prepare_close (default_cache_ops ops) = Some (default_cache_prepare_close ops)"
  "op_observe_media (default_cache_ops ops) = Some (default_cache_observe_media ops)"
  by (simp_all add: default_cache_ops_def)

section \<open>Construction\<close>

text \<open>The loop that reads the executable in pieces of at most 512 sectors.\<close>

function read_default_xbe ::
  "'s source_ops \<Rightarrow> 's sector_source \<Rightarrow> u64 \<Rightarrow> u64 \<Rightarrow> u64 \<Rightarrow> byte list \<Rightarrow> byte list res \<times> 's sector_source" where
  "read_default_xbe ops source start cache_sectors completed cache =
     (if completed < cache_sectors
      then (let remaining = cache_sectors - completed;
                blocks = (if remaining < DEFAULT_XBE_CACHE_READ_BLOCKS then remaining else DEFAULT_XBE_CACHE_READ_BLOCKS)
            in case gdox_source_read ops source (u64_add start completed) blocks (blocks * GDOX_LOGICAL_SECTOR_BYTES) of
                 (Inl e, source) \<Rightarrow> (Inl e, source)
               | (Inr piece, source) \<Rightarrow>
                   read_default_xbe ops source start cache_sectors (completed + blocks) (cache @ piece))
      else (Inr cache, source))"
  by pat_completeness auto
termination
  by (relation "measure (\<lambda>(ops, source, start, cache_sectors, completed, cache). cache_sectors - completed)")
    (auto simp: DEFAULT_XBE_CACHE_READ_BLOCKS_def)

declare read_default_xbe.simps [simp del]

text \<open>On success the bytes (\<open>None\<close> for NULL), the start sector and the number of sectors.\<close>

definition prepare_default_xbe ::
  "(nat \<Rightarrow> bool) \<Rightarrow> 's source_ops \<Rightarrow> 's sector_source \<Rightarrow> xdvdfs_metadata
     \<Rightarrow> (byte list option \<times> u64 \<times> u64) res \<times> 's sector_source" where
  "prepare_default_xbe mem ops source metadata =
     (if md_default_xbe_index metadata = GDOX_XDVDFS_NO_ENTRY then (Inr (None, 0, 0), source)
      else if md_default_xbe_index metadata \<ge> length (md_xbe_files metadata)
      then (fail ERROR_INVALID_ARGUMENT ''default XBE cache metadata is invalid'', source)
      else (let entry = md_xbe_files metadata ! md_default_xbe_index metadata
            in if en_size entry = 0 \<or> en_size entry > DEFAULT_XBE_CACHE_MAX_BYTES then (Inr (None, 0, 0), source)
               else (let cache_sectors = (en_size entry + GDOX_LOGICAL_SECTOR_BYTES - 1) div GDOX_LOGICAL_SECTOR_BYTES;
                         partition_sectors = gdox_source_sector_count ops source
                     in if en_start_sector entry > partition_sectors
                           \<or> cache_sectors > partition_sectors - en_start_sector entry
                           \<or> cache_sectors > SIZE_MAX div GDOX_LOGICAL_SECTOR_BYTES
                        then (fail ERROR_OUT_OF_BOUNDS ''default XBE cache extent is outside the game partition'', source)
                        else if \<not> mem (cache_sectors * GDOX_LOGICAL_SECTOR_BYTES)
                        then (fail ERROR_INTERNAL ''could not allocate the default XBE cache'', source)
                        else (case read_default_xbe ops source (en_start_sector entry) cache_sectors 0 [] of
                                (Inl e, source) \<Rightarrow> (Inl e, source)
                              | (Inr cache, source) \<Rightarrow>
                                  (Inr (snd (gdox_xbe_patch_complete_file (Some cache) (en_size entry)),
                                        en_start_sector entry, cache_sectors), source)))))"

definition gdox_source_make_default_xbe_cache ::
  "(nat \<Rightarrow> bool) \<Rightarrow> 's source_ops \<Rightarrow> 's sector_source \<Rightarrow> xdvdfs_metadata
     \<Rightarrow> unit res \<times> 's sector_source \<times> 's default_xbe_cache_context sector_source" where
  "gdox_source_make_default_xbe_cache mem ops source metadata =
     (if \<not> gdox_source_is_valid source
      then (fail ERROR_INVALID_ARGUMENT
              ''default XBE cache requires a valid partition, metadata, and empty output'', source, None)
      else (case prepare_default_xbe mem ops source metadata of
              (Inl e, source) \<Rightarrow> (Inl e, source, None)
            | (Inr (bytes, start, sectors), source) \<Rightarrow>
                if \<not> mem 56
                then (fail ERROR_INTERNAL ''could not allocate the default XBE cache source'', source, None)
                else (Inr (), None,
                      Some \<lparr>dq_inner = source, dq_bytes = bytes, dq_start_sector = start, dq_sectors = sectors,
                            dq_aborted = False\<rparr>)))"

section \<open>Contracts\<close>

definition default_valid :: "'s source_ops \<Rightarrow> ('s \<Rightarrow> bool) \<Rightarrow> 's default_xbe_cache_context \<Rightarrow> bool" where
  "default_valid ops valid c \<longleftrightarrow>
     (case dq_inner c of None \<Rightarrow> False
      | Some s \<Rightarrow> valid s \<and> (\<forall>b. dq_bytes c = Some b \<longrightarrow> length b = dq_sectors c * GDOX_LOGICAL_SECTOR_BYTES
          \<and> dq_start_sector c + dq_sectors c \<le> op_sector_count ops s))"

text \<open>The cached bytes over those of the partition.\<close>

definition overlay :: "byte list option \<Rightarrow> nat \<Rightarrow> (nat \<Rightarrow> byte) \<Rightarrow> nat \<Rightarrow> byte" where
  "overlay bytes start f a =
     (case bytes of None \<Rightarrow> f a | Some b \<Rightarrow> if start \<le> a \<and> a < start + length b then b ! (a - start) else f a)"

definition default_contents :: "('s \<Rightarrow> nat \<Rightarrow> byte) \<Rightarrow> 's default_xbe_cache_context \<Rightarrow> nat \<Rightarrow> byte" where
  "default_contents contents c =
     (case dq_inner c of None \<Rightarrow> (\<lambda>_. 0)
      | Some s \<Rightarrow> overlay (dq_bytes c) (dq_start_sector c * GDOX_LOGICAL_SECTOR_BYTES) (contents s))"

definition default_ready :: "('s \<Rightarrow> bool) \<Rightarrow> 's default_xbe_cache_context \<Rightarrow> bool" where
  "default_ready ready c \<longleftrightarrow> \<not> dq_aborted c \<and> (case dq_inner c of None \<Rightarrow> False | Some s \<Rightarrow> ready s)"

lemma default_put_view:
  "default_valid ops valid c \<Longrightarrow> dq_inner c = Some s \<Longrightarrow> view_kept ops valid contents s s' \<Longrightarrow>
   view_kept (default_cache_ops ops) (default_valid ops valid) (default_contents contents) c (put_default (Some s') c)"
  by (auto simp: view_kept_def default_valid_def default_contents_def default_cache_sector_count_def forward_sector_count_def)

lemma default_abort_flag_view:
  "default_valid ops valid c \<Longrightarrow>
   view_kept (default_cache_ops ops) (default_valid ops valid) (default_contents contents) c (c\<lparr>dq_aborted := True\<rparr>)"
  by (auto simp: view_kept_def default_valid_def default_contents_def default_cache_sector_count_def forward_sector_count_def
      split: option.splits)

lemma overlay_None [simp]: "overlay None start f = f"
  by (rule ext) (simp add: overlay_def)

lemma overlay_outside:
  "a + n \<le> start \<or> start + length b \<le> a \<Longrightarrow> span (overlay (Some b) start f) a n = span f a n"
  by (rule span_cong) (auto simp: overlay_def)

lemma overlay_inside:
  "start \<le> a \<Longrightarrow> a + n \<le> start + length b \<Longrightarrow> span (overlay (Some b) start f) a n = take n (drop (a - start) b)"
  by (rule nth_equalityI) (auto simp: overlay_def)

text \<open>One turn of the read loop: a chunk of the output and its source.\<close>

lemma default_turn:
  assumes "default_valid ops valid c" and "dq_inner c = Some s" and "op_sector_count ops s < two64"
    and "current + remaining \<le> op_sector_count ops s" and "remaining \<noteq> 0"
  obtains (cached) chunk where "0 < chunk" "chunk \<le> remaining"
      "default_cache_read_loop ops c current remaining filled =
         default_cache_read_loop ops c (current + chunk) (remaining - chunk)
           (filled @ span (default_contents contents c) (current * GDOX_LOGICAL_SECTOR_BYTES) (chunk * GDOX_LOGICAL_SECTOR_BYTES))"
  | (inner) chunk where "0 < chunk" "chunk \<le> remaining"
      "span (default_contents contents c) (current * GDOX_LOGICAL_SECTOR_BYTES) (chunk * GDOX_LOGICAL_SECTOR_BYTES) =
         span (contents s) (current * GDOX_LOGICAL_SECTOR_BYTES) (chunk * GDOX_LOGICAL_SECTOR_BYTES)"
      "default_cache_read_loop ops c current remaining filled =
         (case gdox_source_read ops (Some s) current chunk (chunk * GDOX_LOGICAL_SECTOR_BYTES) of
            (Inl e, h) \<Rightarrow> (Inl e, put_default h c)
          | (Inr piece, h) \<Rightarrow>
              default_cache_read_loop ops (put_default h c) (current + chunk) (remaining - chunk) (filled @ piece))"
proof (cases "dq_bytes c")
  case None
  have "u64_add current remaining = current + remaining" using assms(3,4) by simp
  then show ?thesis
    using None assms(2,5) default_cache_read_loop.simps[of ops c current remaining filled]
    by (intro inner[of remaining])
      (auto simp: default_contents_def read_inner_def Let_def split: prod.splits sum.splits)
next
  case (Some b)
  let ?b0 = "dq_start_sector c * GDOX_LOGICAL_SECTOR_BYTES"
  have b: "length b = dq_sectors c * GDOX_LOGICAL_SECTOR_BYTES" "dq_start_sector c + dq_sectors c \<le> op_sector_count ops s"
    using assms(1,2) Some by (auto simp: default_valid_def)
  have stop: "u64_add (dq_start_sector c) (dq_sectors c) = dq_start_sector c + dq_sectors c" using b(2) assms(3) by simp
  have cont: "default_contents contents c = overlay (Some b) ?b0 (contents s)"
    using Some assms(2) by (simp add: default_contents_def)
  show ?thesis
  proof (cases "dq_start_sector c \<le> current \<and> current < dq_start_sector c + dq_sectors c")
    case True
    define chunk where "chunk = (if dq_start_sector c + dq_sectors c - current < remaining
        then dq_start_sector c + dq_sectors c - current else remaining)"
    have ch: "0 < chunk" "chunk \<le> remaining" "current + chunk \<le> dq_start_sector c + dq_sectors c"
      using True assms(5) by (auto simp: chunk_def)
    have "span (default_contents contents c) (current * GDOX_LOGICAL_SECTOR_BYTES) (chunk * GDOX_LOGICAL_SECTOR_BYTES) =
        take (chunk * GDOX_LOGICAL_SECTOR_BYTES)
          (drop ((current - dq_start_sector c) * GDOX_LOGICAL_SECTOR_BYTES) b)"
      unfolding cont using True ch(3) b(1)
      by (subst overlay_inside) (auto simp: diff_mult_distrib)
    moreover have "u64_add current chunk = current + chunk" using ch assms(3,4) by simp
    ultimately show ?thesis
      using True Some assms(5) ch stop default_cache_read_loop.simps[of ops c current remaining filled]
      by (intro cached[of chunk]) (simp_all add: Let_def chunk_def)
  next
    case False
    define chunk where "chunk = (if current < dq_start_sector c
        then (if dq_start_sector c - current > remaining then remaining else dq_start_sector c - current) else remaining)"
    have ch: "0 < chunk" "chunk \<le> remaining" "current < dq_start_sector c \<Longrightarrow> current + chunk \<le> dq_start_sector c"
      using assms(5) by (auto simp: chunk_def)
    have "span (default_contents contents c) (current * GDOX_LOGICAL_SECTOR_BYTES) (chunk * GDOX_LOGICAL_SECTOR_BYTES) =
        span (contents s) (current * GDOX_LOGICAL_SECTOR_BYTES) (chunk * GDOX_LOGICAL_SECTOR_BYTES)"
      unfolding cont using False ch(3) b(1) by (intro overlay_outside) (cases "current < dq_start_sector c"; auto)
    moreover have "u64_add current chunk = current + chunk" using ch assms(3,4) by simp
    ultimately show ?thesis
      using False Some assms(2,5) ch stop default_cache_read_loop.simps[of ops c current remaining filled]
      by (intro inner[of chunk]) (auto simp: Let_def chunk_def read_inner_def split: prod.splits sum.splits)
  qed
qed

lemma default_loop_view:
  assumes "sector_source ops valid contents"
    and "default_valid ops valid c" and "dq_inner c = Some s" and "current + remaining \<le> op_sector_count ops s"
    and "default_cache_read_loop ops c current remaining filled = (r, c')"
  shows "view_kept (default_cache_ops ops) (default_valid ops valid) (default_contents contents) c c'
    \<and> (\<forall>bs. r = Inr bs \<longrightarrow> bs = filled @
         span (default_contents contents c) (current * GDOX_LOGICAL_SECTOR_BYTES) (remaining * GDOX_LOGICAL_SECTOR_BYTES))"
  using assms(2-)
proof (induction remaining arbitrary: c s current filled rule: less_induct)
  case (less remaining)
  let ?kept = "view_kept (default_cache_ops ops) (default_valid ops valid) (default_contents contents)"
  have v: "valid s" using less.prems(1,2) by (simp add: default_valid_def)
  have cnt: "op_sector_count ops s < two64" by (rule sector_source.count_less[OF assms(1) v])
  have join: "span f (current * GDOX_LOGICAL_SECTOR_BYTES) (chunk * GDOX_LOGICAL_SECTOR_BYTES)
      @ span f ((current + chunk) * GDOX_LOGICAL_SECTOR_BYTES) ((remaining - chunk) * GDOX_LOGICAL_SECTOR_BYTES) =
      span f (current * GDOX_LOGICAL_SECTOR_BYTES) (remaining * GDOX_LOGICAL_SECTOR_BYTES)" if "chunk \<le> remaining" for f chunk
  proof -
    have "remaining * GDOX_LOGICAL_SECTOR_BYTES =
        chunk * GDOX_LOGICAL_SECTOR_BYTES + (remaining - chunk) * GDOX_LOGICAL_SECTOR_BYTES"
      using that by (simp add: add_mult_distrib[symmetric])
    then show ?thesis by (simp add: span_add add_mult_distrib)
  qed
  show ?case
  proof (cases "remaining = 0")
    case True
    then show ?thesis
      using less.prems default_cache_read_loop.simps[of ops c current remaining filled] by (auto intro: view_kept_refl)
  next
    case False
    show ?thesis
    proof (rule default_turn[OF less.prems(1,2) cnt less.prems(3) False, of filled contents])
      fix chunk assume ch: "0 < chunk" "chunk \<le> remaining"
        and eq: "default_cache_read_loop ops c current remaining filled =
         default_cache_read_loop ops c (current + chunk) (remaining - chunk)
           (filled @ span (default_contents contents c) (current * GDOX_LOGICAL_SECTOR_BYTES) (chunk * GDOX_LOGICAL_SECTOR_BYTES))"
      have "remaining - chunk < remaining" "current + chunk + (remaining - chunk) \<le> op_sector_count ops s"
        using ch less.prems(3) by simp_all
      from less.IH[OF this(1) less.prems(1,2) this(2) less.prems(4)[unfolded eq]]
      show ?thesis using join[OF ch(2), of "default_contents contents c"] by auto
    next
      fix chunk assume ch: "0 < chunk" "chunk \<le> remaining"
        and sp: "span (default_contents contents c) (current * GDOX_LOGICAL_SECTOR_BYTES) (chunk * GDOX_LOGICAL_SECTOR_BYTES) =
         span (contents s) (current * GDOX_LOGICAL_SECTOR_BYTES) (chunk * GDOX_LOGICAL_SECTOR_BYTES)"
        and eq: "default_cache_read_loop ops c current remaining filled =
         (case gdox_source_read ops (Some s) current chunk (chunk * GDOX_LOGICAL_SECTOR_BYTES) of
            (Inl e, h) \<Rightarrow> (Inl e, put_default h c)
          | (Inr piece, h) \<Rightarrow>
              default_cache_read_loop ops (put_default h c) (current + chunk) (remaining - chunk) (filled @ piece))"
      obtain q h where rd: "gdox_source_read ops (Some s) current chunk (chunk * GDOX_LOGICAL_SECTOR_BYTES) = (q, h)"
        by fastforce
      from sector_source.source_read_view[OF assms(1) v rd]
      obtain s' where s': "h = Some s'" "view_kept ops valid contents s s'"
        and bs: "\<And>bs. q = Inr bs \<Longrightarrow> bs = span (contents s) (current * GDOX_LOGICAL_SECTOR_BYTES) (chunk * GDOX_LOGICAL_SECTOR_BYTES)"
        by blast
      have kept: "?kept c (put_default h c)" unfolding s'(1) by (rule default_put_view[OF less.prems(1,2) s'(2)])
      show ?thesis
      proof (cases q)
        case (Inl e)
        then have "r = Inl e" "c' = put_default h c" using less.prems(4) eq rd by simp_all
        then show ?thesis using kept by simp
      next
        case (Inr piece)
        have "default_valid ops valid (put_default h c)" "default_contents contents (put_default h c) = default_contents contents c"
          using kept by (simp_all add: view_kept_def)
        moreover have "remaining - chunk < remaining" using ch by simp
        moreover have "dq_inner (put_default h c) = Some s'" using s' by simp
        moreover have "current + chunk + (remaining - chunk) \<le> op_sector_count ops s'"
          using ch less.prems(3) s'(2) by (simp add: view_kept_def)
        moreover have "default_cache_read_loop ops (put_default h c) (current + chunk) (remaining - chunk) (filled @ piece) = (r, c')"
          using less.prems(4) eq rd Inr by simp
        ultimately have "?kept (put_default h c) c' \<and> (\<forall>bs. r = Inr bs \<longrightarrow> bs = (filled @ piece) @
            span (default_contents contents c) ((current + chunk) * GDOX_LOGICAL_SECTOR_BYTES) ((remaining - chunk) * GDOX_LOGICAL_SECTOR_BYTES))"
          using less.IH by metis
        then show ?thesis
          using view_kept_trans[OF kept] join[OF ch(2), of "default_contents contents c"] bs[OF Inr] sp by auto
      qed
    qed
  qed
qed

lemma default_loop_ready:
  assumes "reliable_source ops valid contents ready"
    and "default_valid ops valid c" and "dq_inner c = Some s" and "current + remaining \<le> op_sector_count ops s"
    and "ready s" and "remaining * GDOX_LOGICAL_SECTOR_BYTES \<le> SIZE_MAX"
  shows "\<exists>bs s'. default_cache_read_loop ops c current remaining filled = (Inr bs, put_default (Some s') c) \<and> ready s'"
  using assms(2-)
proof (induction remaining arbitrary: c s current filled rule: less_induct)
  case (less remaining)
  note src = reliable_source.axioms(1)[OF assms(1)]
  have v: "valid s" using less.prems(1,2) by (simp add: default_valid_def)
  have cnt: "op_sector_count ops s < two64" by (rule sector_source.count_less[OF src v])
  show ?case
  proof (cases "remaining = 0")
    case True
    have "c = put_default (Some s) c" using less.prems(2) by (cases c) simp
    then show ?thesis
      using True less.prems(4) default_cache_read_loop.simps[of ops c current remaining filled] by auto
  next
    case False
    show ?thesis
    proof (rule default_turn[OF less.prems(1,2) cnt less.prems(3) False, of filled contents])
      fix chunk assume ch: "0 < chunk" "chunk \<le> remaining"
        and eq: "default_cache_read_loop ops c current remaining filled =
         default_cache_read_loop ops c (current + chunk) (remaining - chunk)
           (filled @ span (default_contents contents c) (current * GDOX_LOGICAL_SECTOR_BYTES) (chunk * GDOX_LOGICAL_SECTOR_BYTES))"
      have "remaining - chunk < remaining" "current + chunk + (remaining - chunk) \<le> op_sector_count ops s"
        "(remaining - chunk) * GDOX_LOGICAL_SECTOR_BYTES \<le> SIZE_MAX"
        using ch less.prems(3,5) by auto
      from less.IH[OF this(1) less.prems(1,2) this(2) less.prems(4) this(3)] show ?thesis unfolding eq .
    next
      fix chunk assume ch: "0 < chunk" "chunk \<le> remaining"
        and eq: "default_cache_read_loop ops c current remaining filled =
         (case gdox_source_read ops (Some s) current chunk (chunk * GDOX_LOGICAL_SECTOR_BYTES) of
            (Inl e, h) \<Rightarrow> (Inl e, put_default h c)
          | (Inr piece, h) \<Rightarrow>
              default_cache_read_loop ops (put_default h c) (current + chunk) (remaining - chunk) (filled @ piece))"
      have "chunk * GDOX_LOGICAL_SECTOR_BYTES \<le> SIZE_MAX" "current + chunk \<le> op_sector_count ops s"
        using ch less.prems(3,5) by auto
      from reliable_source.source_read_ready_max[OF assms(1) v less.prems(4) ch(1) this(2,1)]
      obtain piece s' where rd: "gdox_source_read ops (Some s) current chunk (chunk * GDOX_LOGICAL_SECTOR_BYTES) = (Inr piece, Some s')"
        and s': "view_kept ops valid contents s s'" "ready s'" by blast
      have "default_valid ops valid (put_default (Some s') c)"
        using default_put_view[OF less.prems(1,2) s'(1)] by (simp add: view_kept_def)
      moreover have "remaining - chunk < remaining" "(remaining - chunk) * GDOX_LOGICAL_SECTOR_BYTES \<le> SIZE_MAX"
        "current + chunk + (remaining - chunk) \<le> op_sector_count ops s'"
        using ch less.prems(3,5) s'(1) by (auto simp: view_kept_def)
      ultimately have "\<exists>bs t. default_cache_read_loop ops (put_default (Some s') c) (current + chunk) (remaining - chunk) (filled @ piece)
          = (Inr bs, put_default (Some t) (put_default (Some s') c)) \<and> ready t"
        using less.IH s'(2) by fastforce
      then show ?thesis unfolding eq rd by auto
    qed
  qed
qed

context sector_source
begin

lemma default_read_view:
  assumes "default_valid ops valid c"
    and "gdox_source_validate_read (op_sector_count (default_cache_ops ops) c) lba blocks n = Inr ()"
    and "default_cache_read ops c lba blocks n = (r, c')"
  shows "view_kept (default_cache_ops ops) (default_valid ops valid) (default_contents contents) c c'
    \<and> (\<forall>bs. r = Inr bs \<longrightarrow> bs = span (default_contents contents c) (lba * GDOX_LOGICAL_SECTOR_BYTES)
         (blocks * GDOX_LOGICAL_SECTOR_BYTES))"
proof -
  obtain s where s: "dq_inner c = Some s" "valid s"
    using assms(1) by (auto simp: default_valid_def split: option.splits)
  have b: "lba + blocks \<le> op_sector_count ops s"
    using assms(2) validate_read_ok_iff[OF count_less[OF s(2)]] s(1)
    by (auto simp: default_cache_sector_count_def forward_sector_count_def)
  show ?thesis
    using assms(1,3) default_loop_view[OF sector_source_axioms assms(1) s(1) b, of "[]" r c']
    by (auto simp: default_cache_read_def intro: view_kept_refl split: if_splits)
qed

lemma default_sector_source:
  "sector_source (default_cache_ops ops) (default_valid ops valid) (default_contents contents)"
proof (rule adapter_sector_source[where get = dq_inner and put = put_default])
  fix c g assume g: "op_abort (default_cache_ops ops) = Some g" and c: "default_valid ops valid c"
  obtain s where s: "dq_inner c = Some s" "valid s"
    using c by (auto simp: default_valid_def split: option.splits)
  obtain s' where s': "gdox_source_abort ops (Some s) = Some s'" "view_kept ops valid contents s s'"
    using source_abort_view[OF s(2)] by blast
  let ?d = "c\<lparr>dq_aborted := True\<rparr>"
  have "g c = put_default (Some s') ?d" using g s s' by (auto simp: default_cache_abort_def)
  moreover note fl = default_abort_flag_view[OF c, of contents]
  moreover have "default_valid ops valid ?d" using fl by (simp add: view_kept_def)
  ultimately show "view_kept (default_cache_ops ops) (default_valid ops valid) (default_contents contents) c (g c)"
    using view_kept_trans[OF fl] default_put_view[of ops valid ?d s contents s'] s s' by simp
next
  fix c h q c' assume "op_prepare_close (default_cache_ops ops) = Some h" "default_valid ops valid c" "h c = (q, c')"
  then show "view_kept (default_cache_ops ops) (default_valid ops valid) (default_contents contents) c c'"
    using forward_prepare_view[of dq_inner c _ put_default] default_put_view[of ops valid c]
    by (fastforce simp: default_cache_prepare_close_def default_valid_def split: option.splits)
next
  fix c assume "default_valid ops valid c"
  then show "op_sector_count (default_cache_ops ops) c < two64"
    using count_less by (fastforce simp: default_valid_def default_cache_sector_count_def forward_sector_count_def split: option.splits)
next
  fix c assume "default_valid ops valid c"
  then show "\<exists>s. dq_inner c = Some s \<and> valid s"
    by (auto simp: default_valid_def split: option.splits)
qed (simp_all add: default_cache_media_present_def default_cache_observe_media_def default_put_view default_read_view)

end

context reliable_source
begin

lemma default_reliable_source:
  "reliable_source (default_cache_ops ops) (default_valid ops valid) (default_contents contents) (default_ready ready)"
proof (rule reliable_source.intro[OF default_sector_source], standard)
  fix c lba blocks n
  assume v: "default_valid ops valid c" and rdy: "default_ready ready c"
    and rq: "gdox_source_validate_read (op_sector_count (default_cache_ops ops) c) lba blocks n = Inr ()"
  obtain s where s: "dq_inner c = Some s" "valid s" "ready s" and live: "\<not> dq_aborted c"
    using v rdy by (auto simp: default_valid_def default_ready_def split: option.splits)
  have b: "n = blocks * GDOX_LOGICAL_SECTOR_BYTES" "n \<le> SIZE_MAX" "lba + blocks \<le> op_sector_count ops s"
    using rq validate_read_ok_iff[OF count_less[OF s(2)]] s(1)
    by (auto simp: default_cache_sector_count_def forward_sector_count_def)
  from default_loop_ready[OF reliable_source_axioms v s(1) b(3) s(3), of "[]"] b(1,2) live
  show "\<exists>bs c'. op_read (default_cache_ops ops) c lba blocks n = (Inr bs, c') \<and> default_ready ready c'"
    by (auto simp: default_cache_read_def default_ready_def)
qed

end

context closable_source
begin

lemma default_closable_source:
  "closable_source (default_cache_ops ops) (\<lambda>c. \<exists>s. dq_inner c = Some s \<and> prepared s)"
  by (rule adapter_closable[where put = "\<lambda>_. put_default"])
    (auto simp: default_cache_prepare_close_def default_cache_close_def
      intro: prepare_step_forward dest: prepare_step_forward_None[rotated 2])

end

interpretation file_default: reliable_source "default_cache_ops file_ops" "default_valid file_ops file_valid"
  "default_contents file_contents" "default_ready file_ready"
  by (rule file_source.default_reliable_source)

interpretation file_default_closable: closable_source "default_cache_ops file_ops" "\<lambda>c. \<exists>s. dq_inner c = Some s \<and> True"
  by (rule file_closable.default_closable_source)

section \<open>The cached executable\<close>

text \<open>The executable the cache holds: none without a default executable, or when it is empty or larger than 64 MiB.\<close>

definition default_keys :: "xdvdfs_metadata \<Rightarrow> (nat \<times> nat) set" where
  "default_keys md =
     (if md_default_xbe_index md = GDOX_XDVDFS_NO_ENTRY then {}
      else (let e = md_xbe_files md ! md_default_xbe_index md
            in if en_size e = 0 \<or> en_size e > DEFAULT_XBE_CACHE_MAX_BYTES then {} else {entry_key e}))"

text \<open>Replacing the jumps of one executable first changes nothing that replacing those of all decides on.\<close>

lemma xbe_view_idle:
  "snd k < 8 \<Longrightarrow> xbe_view {k} f = f"
  by (auto simp: xbe_view_def jump_at_def fun_eq_iff)

lemma xbe_view_again:
  assumes "\<And>x. x \<in> K \<Longrightarrow> 8 \<le> snd x \<and> (x = k \<or> fst x + snd x \<le> fst k \<or> fst k + snd k \<le> fst x)" and "k \<in> K"
  shows "xbe_view K (xbe_view {k} f) = xbe_view K f"
proof -
  define g where "g = xbe_view {k} f"
  have same: "g a = f a" if "a < fst k + 7 \<or> fst k + snd k \<le> a" for a
    using that by (auto simp: g_def xbe_view_def jump_at_def)
  have g: "g a = (if xbe_magic_at f (fst k) \<and> jump_at f k a then XBE_PATCH_VALUE else f a)" for a
    by (simp add: g_def xbe_view_def)
  have eq4: "span g a 4 = span f a 4" if span4: "\<And>i. i < 4 \<Longrightarrow> g (a + i) = f (a + i)" for a
  proof -
    have "g x = f x" if "a \<le> x" "x < a + 4" for x using span4(1)[of "x - a"] that by simp
    then show ?thesis by (simp add: span_def)
  qed
  have magic: "xbe_magic_at g (fst x) = xbe_magic_at f (fst x)" if x: "x \<in> K" for x
  proof -
    have "g (fst x + i) = f (fst x + i)" if "i < 4" for i
      using assms(1)[OF x] assms(1)[OF assms(2)] that by (intro same) auto
    then show ?thesis unfolding xbe_magic_at_def using eq4 by simp
  qed
  have sig: "signature_at g b \<longleftrightarrow> signature_at f b" if "\<And>i. i < 8 \<Longrightarrow> g (b + i) = f (b + i)" for b
    using that by (simp add: signature_at_nth)
  have other: "jump_at g x a = jump_at f x a" if x: "x \<in> K" "x \<noteq> k" for x a
  proof (cases "fst x + 7 \<le> a \<and> a < fst x + snd x")
    case True
    have "g (a - 7 + i) = f (a - 7 + i)" if "i < 8" for i
      using assms(1)[OF x(1)] x(2) that True by (intro same) auto
    then show ?thesis using sig by (simp add: jump_at_def)
  next
    case False
    then show ?thesis by (auto simp: jump_at_def)
  qed
  have own: "jump_at f k a" if j: "jump_at g k a" for a
  proof -
    have "g (a - 7 + i) = f (a - 7 + i)" if i: "i < 8" for i
    proof -
      have "\<forall>i < 8. g (a - 7 + i) = media_check_signature ! i" using j unfolding jump_at_def signature_at_nth by blast
      then have "g (a - 7 + i) = media_check_signature ! i" using i by blast
      then have "g (a - 7 + i) \<noteq> XBE_PATCH_VALUE" using signature_bytes(2)[OF i] by simp
      then show ?thesis using g[of "a - 7 + i"] by (auto split: if_splits)
    qed
    then show ?thesis using j sig by (simp add: jump_at_def)
  qed
  have "xbe_view K g a = xbe_view K f a" for a
  proof (cases "xbe_magic_at f (fst k) \<and> jump_at f k a")
    case True
    then have "g a = XBE_PATCH_VALUE" by (simp add: g)
    then show ?thesis using True assms(2) by (auto simp: xbe_view_def)
  next
    case False
    then have "g a = f a" unfolding g by auto
    moreover have "(\<exists>x \<in> K. xbe_magic_at g (fst x) \<and> jump_at g x a) = (\<exists>x \<in> K. xbe_magic_at f (fst x) \<and> jump_at f x a)"
      using False magic other own by metis
    ultimately show ?thesis by (simp only: xbe_view_def)
  qed
  then show ?thesis by (simp add: g_def fun_eq_iff)
qed

lemma separate_keys:
  assumes "separate xs" and "x \<in> set xs" and "y \<in> set xs"
  shows "x = y \<or> xe_offset x + xe_length x \<le> xe_offset y \<or> xe_offset y + xe_length y \<le> xe_offset x"
  using assms unfolding separate_def by (induction xs) auto

lemma xbe_view_default_keys:
  assumes "copy_extents mem (md_xbe_files md) (sectors * GDOX_LOGICAL_SECTOR_BYTES) = Inr xs"
    and "list_all entry_ok (md_xbe_files md)" and "sectors * GDOX_LOGICAL_SECTOR_BYTES < two64"
    and "md_default_xbe_index md = GDOX_XDVDFS_NO_ENTRY \<or> md_default_xbe_index md < length (md_xbe_files md)"
  shows "xbe_view (entry_keys (md_xbe_files md)) (xbe_view (default_keys md) f) = xbe_view (entry_keys (md_xbe_files md)) f"
proof (cases "default_keys md = {}")
  case True
  moreover have "xbe_view {} f = f" by (simp add: xbe_view_def fun_eq_iff)
  ultimately show ?thesis by simp
next
  case False
  let ?e = "md_xbe_files md ! md_default_xbe_index md"
  have k: "default_keys md = {entry_key ?e}" and e: "?e \<in> set (md_xbe_files md)"
    using False assms(4) by (auto simp: default_keys_def Let_def split: if_splits)
  note cs = copy_extents_spec[OF assms(1-3)]
  have sep: "separate xs" using cs(1)[of f] by (simp add: xbe_extents_ok_def)
  show ?thesis
  proof (cases "en_size ?e < 8")
    case True
    then show ?thesis using k xbe_view_idle[of "entry_key ?e"] by (simp add: entry_key_def)
  next
    case False
    then have mem: "entry_key ?e \<in> entry_keys (md_xbe_files md)" using e by (auto simp: entry_keys_def)
    have "8 \<le> snd x \<and> (x = entry_key ?e \<or> fst x + snd x \<le> fst (entry_key ?e) \<or> fst (entry_key ?e) + snd (entry_key ?e) \<le> fst x)"
      if x: "x \<in> entry_keys (md_xbe_files md)" for x
    proof -
      obtain a b where ab: "a \<in> set xs" "b \<in> set xs" "x = xbe_key a" "entry_key ?e = xbe_key b"
        using x mem cs(2) by (metis imageE)
      have "8 \<le> snd x" using x by (auto simp: entry_keys_def entry_key_def)
      then show ?thesis using separate_keys[OF sep ab(1,2)] ab(3,4) by (auto simp: xbe_key_def)
    qed
    then show ?thesis unfolding k using xbe_view_again mem by blast
  qed
qed

text \<open>The metadata names a default executable it has, and that lies inside the partition.\<close>

definition default_fits :: "xdvdfs_metadata \<Rightarrow> u64 \<Rightarrow> bool" where
  "default_fits md sectors \<longleftrightarrow>
     (md_default_xbe_index md = GDOX_XDVDFS_NO_ENTRY
      \<or> md_default_xbe_index md < length (md_xbe_files md)
        \<and> (let e = md_xbe_files md ! md_default_xbe_index md in en_start_sector e + sectors_of (en_size e) \<le> sectors))"

lemma complete_file_length: "length (the (snd (gdox_xbe_patch_complete_file (Some b) n))) = length b" if "n \<le> length b"
  using patch_file_loop_view[of n b] that by (auto simp: gdox_xbe_patch_complete_file_def XBE_SIGNATURE_BYTES_def)

lemma overlay_complete_file:
  assumes "n \<le> k" and "snd (gdox_xbe_patch_complete_file (Some (span f o1 k)) n) = Some b"
  shows "overlay (Some b) o1 f = xbe_view {(o1, n)} f"
proof (cases "8 \<le> n \<and> xbe_magic_at f o1")
  case False
  have "window_eq (span f o1 k) 0 xbe_header_magic \<longleftrightarrow> xbe_magic_at f o1" if "8 \<le> n"
    using that assms(1) by (simp add: window_eq_def xbe_magic_at_def take_span min_def)
  then have "b = span f o1 k"
    using False assms(2) by (auto simp: gdox_xbe_patch_complete_file_def XBE_SIGNATURE_BYTES_def split: if_splits)
  moreover have "xbe_view {(o1, n)} f = f" using False by (auto simp: xbe_view_def jump_at_def fun_eq_iff)
  ultimately show ?thesis by (auto simp: overlay_def fun_eq_iff)
next
  case True
  let ?g = "bytes_at (span f o1 k)"
  have magic: "window_eq (span f o1 k) 0 xbe_header_magic"
    using True assms(1) by (simp add: window_eq_def xbe_magic_at_def take_span min_def)
  have b: "b = span (xbe_view {(0, n)} ?g) 0 k"
    using assms True magic patch_file_loop_view[of n "span f o1 k"]
    by (auto simp: gdox_xbe_patch_complete_file_def XBE_SIGNATURE_BYTES_def)
  have g: "?g i = f (o1 + i)" if "i < k" for i using that by (simp add: bytes_at_def)
  have sig: "signature_at ?g i \<longleftrightarrow> signature_at f (o1 + i)" if "i + 8 \<le> k" for i
    using that g by (auto simp: signature_at_nth add.assoc)
  have mg: "xbe_magic_at ?g 0" using magic assms(1) True by (simp add: xbe_magic_at_def span_bytes_at window_eq_def)
  show ?thesis
  proof (rule ext)
    fix a
    show "overlay (Some b) o1 f a = xbe_view {(o1, n)} f a"
    proof (cases "o1 \<le> a \<and> a < o1 + k")
      case False
      then show ?thesis using assms(1) b by (auto simp: overlay_def xbe_view_def jump_at_def)
    next
      case in_range: True
      have "jump_at ?g (0, n) (a - o1) \<longleftrightarrow> jump_at f (o1, n) a"
      proof (cases "o1 + 7 \<le> a \<and> a < o1 + n")
        case True
        then show ?thesis using sig[of "a - o1 - 7"] assms(1) by (auto simp: jump_at_def)
      qed (use in_range in \<open>auto simp: jump_at_def\<close>)
      then show ?thesis using in_range g[of "a - o1"] True mg by (auto simp: overlay_def b xbe_view_def)
    qed
  qed
qed

context reliable_source
begin

lemma read_default_xbe_ready:
  assumes "valid s" and "ready s" and "start + cache_sectors \<le> op_sector_count ops s" and "completed \<le> cache_sectors"
    and "cache = span (contents s) (start * GDOX_LOGICAL_SECTOR_BYTES) (completed * GDOX_LOGICAL_SECTOR_BYTES)"
  shows "\<exists>s'. read_default_xbe ops (Some s) start cache_sectors completed cache =
      (Inr (span (contents s) (start * GDOX_LOGICAL_SECTOR_BYTES) (cache_sectors * GDOX_LOGICAL_SECTOR_BYTES)), Some s')
    \<and> view_kept ops valid contents s s' \<and> ready s'"
  using assms
proof (induction "cache_sectors - completed" arbitrary: s completed cache rule: less_induct)
  case less
  show ?case
  proof (cases "completed < cache_sectors")
    case False
    then show ?thesis
      using less.prems view_kept_refl[where valid = valid and s = s] read_default_xbe.simps[of ops "Some s" start cache_sectors completed cache]
      by auto
  next
    case True
    define blocks where "blocks = (if cache_sectors - completed < DEFAULT_XBE_CACHE_READ_BLOCKS
        then cache_sectors - completed else DEFAULT_XBE_CACHE_READ_BLOCKS)"
    have bl: "0 < blocks" "completed + blocks \<le> cache_sectors" "blocks < two32"
      using True by (auto simp: blocks_def DEFAULT_XBE_CACHE_READ_BLOCKS_def)
    have fit: "start + completed + blocks \<le> op_sector_count ops s" using bl less.prems(3) by simp
    have add: "u64_add start completed = start + completed" using fit count_less[OF less.prems(1)] by simp
    obtain s1 where rd: "gdox_source_read ops (Some s) (start + completed) blocks (blocks * GDOX_LOGICAL_SECTOR_BYTES) =
        (Inr (span (contents s) ((start + completed) * GDOX_LOGICAL_SECTOR_BYTES) (blocks * GDOX_LOGICAL_SECTOR_BYTES)), Some s1)"
      and s1: "view_kept ops valid contents s s1" "ready s1"
      using source_read_ready[OF less.prems(1,2) bl(1) fit bl(3)] by blast
    have "cache @ span (contents s) ((start + completed) * GDOX_LOGICAL_SECTOR_BYTES) (blocks * GDOX_LOGICAL_SECTOR_BYTES) =
        span (contents s1) (start * GDOX_LOGICAL_SECTOR_BYTES) ((completed + blocks) * GDOX_LOGICAL_SECTOR_BYTES)"
      using less.prems(5) s1(1) by (simp add: view_kept_def add_mult_distrib span_add)
    moreover have "cache_sectors - (completed + blocks) < cache_sectors - completed" using True bl(1) by simp
    moreover have "valid s1" "start + cache_sectors \<le> op_sector_count ops s1" "contents s1 = contents s"
      using less.prems(3) s1(1) by (simp_all add: view_kept_def)
    ultimately obtain s' where "read_default_xbe ops (Some s1) start cache_sectors (completed + blocks)
        (cache @ span (contents s) ((start + completed) * GDOX_LOGICAL_SECTOR_BYTES) (blocks * GDOX_LOGICAL_SECTOR_BYTES)) =
        (Inr (span (contents s) (start * GDOX_LOGICAL_SECTOR_BYTES) (cache_sectors * GDOX_LOGICAL_SECTOR_BYTES)), Some s')"
      and "view_kept ops valid contents s1 s'" "ready s'"
      using less.hyps[of "completed + blocks" s1] s1(2) bl(2) by metis
    then show ?thesis
      using True rd add view_kept_trans[OF s1(1)] read_default_xbe.simps[of ops "Some s" start cache_sectors completed cache]
      by (auto simp: Let_def blocks_def[symmetric])
  qed
qed

lemma make_default_cache_ready:
  assumes "valid s" and "ready s" and "\<And>k. mem k" and "default_fits md (op_sector_count ops s)"
  shows "\<exists>c. gdox_source_make_default_xbe_cache mem ops (Some s) md = (Inr (), None, Some c)
    \<and> default_valid ops valid c \<and> default_ready ready c
    \<and> default_contents contents c = xbe_view (default_keys md) (contents s)
    \<and> default_cache_sector_count ops c = op_sector_count ops s"
proof -
  let ?e = "md_xbe_files md ! md_default_xbe_index md"
  show ?thesis
  proof (cases "md_default_xbe_index md = GDOX_XDVDFS_NO_ENTRY \<or> en_size ?e = 0 \<or> en_size ?e > DEFAULT_XBE_CACHE_MAX_BYTES")
    case True
    then have "prepare_default_xbe mem ops (Some s) md = (Inr (None, 0, 0), Some s)" "default_keys md = {}"
      using assms(4) by (auto simp: prepare_default_xbe_def default_fits_def default_keys_def Let_def)
    then show ?thesis
      using assms(1,2,3)
      by (auto simp: gdox_source_make_default_xbe_cache_def default_valid_def default_ready_def default_contents_def
          default_cache_sector_count_def forward_sector_count_def xbe_view_def fun_eq_iff)
  next
    case False
    let ?k = "sectors_of (en_size ?e)"
    have idx: "md_default_xbe_index md < length (md_xbe_files md)" and fits: "en_start_sector ?e + ?k \<le> op_sector_count ops s"
      using False assms(4) by (auto simp: default_fits_def Let_def)
    have k: "(en_size ?e + GDOX_LOGICAL_SECTOR_BYTES - 1) div GDOX_LOGICAL_SECTOR_BYTES = ?k" by (simp add: sectors_of_def)
    have k': "(2047 + en_size ?e) div GDOX_LOGICAL_SECTOR_BYTES = ?k" by (simp add: sectors_of_def)
    have small: "?k \<le> SIZE_MAX div GDOX_LOGICAL_SECTOR_BYTES"
    proof -
      have "en_size ?e + GDOX_LOGICAL_SECTOR_BYTES - 1 \<le> DEFAULT_XBE_CACHE_MAX_BYTES + GDOX_LOGICAL_SECTOR_BYTES - 1"
        using False by simp
      then have "?k \<le> (DEFAULT_XBE_CACHE_MAX_BYTES + GDOX_LOGICAL_SECTOR_BYTES - 1) div GDOX_LOGICAL_SECTOR_BYTES"
        unfolding k[symmetric] by (rule div_le_mono)
      then show ?thesis by (simp add: DEFAULT_XBE_CACHE_MAX_BYTES_def SIZE_MAX_def)
    qed
    obtain s' where rd: "read_default_xbe ops (Some s) (en_start_sector ?e) ?k 0 [] =
        (Inr (span (contents s) (en_start_sector ?e * GDOX_LOGICAL_SECTOR_BYTES) (?k * GDOX_LOGICAL_SECTOR_BYTES)), Some s')"
      and s': "view_kept ops valid contents s s'" "ready s'"
      using read_default_xbe_ready[OF assms(1,2) fits, of 0 "[]"] by auto
    let ?b = "span (contents s) (en_start_sector ?e * GDOX_LOGICAL_SECTOR_BYTES) (?k * GDOX_LOGICAL_SECTOR_BYTES)"
    have n: "en_size ?e \<le> ?k * GDOX_LOGICAL_SECTOR_BYTES" using sectors_of_bound[of "en_size ?e"] by simp
    obtain b where b: "snd (gdox_xbe_patch_complete_file (Some ?b) (en_size ?e)) = Some b" "length b = ?k * GDOX_LOGICAL_SECTOR_BYTES"
      using complete_file_length[of "en_size ?e" ?b] n
      by (cases "snd (gdox_xbe_patch_complete_file (Some ?b) (en_size ?e))")
        (auto simp: gdox_xbe_patch_complete_file_def split: if_splits)
    have "prepare_default_xbe mem ops (Some s) md = (Inr (Some b, en_start_sector ?e, ?k), Some s')"
      using False idx fits small rd b(1) assms(3) by (simp add: prepare_default_xbe_def Let_def k')
    then have "gdox_source_make_default_xbe_cache mem ops (Some s) md = (Inr (), None,
        Some \<lparr>dq_inner = Some s', dq_bytes = Some b, dq_start_sector = en_start_sector ?e, dq_sectors = ?k, dq_aborted = False\<rparr>)"
      using assms(3) by (simp add: gdox_source_make_default_xbe_cache_def)
    moreover have "default_keys md = {entry_key ?e}" using False by (simp add: default_keys_def)
    ultimately show ?thesis
      using s' b(2) fits overlay_complete_file[OF n b(1)]
      by (auto simp: default_valid_def default_ready_def default_contents_def default_cache_sector_count_def
          forward_sector_count_def view_kept_def entry_key_def)
  qed
qed

end

section \<open>Properties\<close>

text \<open>
  C29: When the metadata names an executable inside the partition (or none) and memory suffices, building the
  cache over a reliable partition succeeds and moves the partition into it; every read of any sequence inside
  the partition then delivers its bytes with the jumps behind the media checks of the default executable
  replaced, however the request overlaps the cached sectors; and a cancelled cache refuses to read.
\<close>
theorem default_xbe_cache_shows_view:
  assumes "reliable_source ops valid contents ready" and "valid s" and "ready s"
    and "\<And>k. mem k" and "default_fits md (op_sector_count ops s)"
    and "requests_inside (op_sector_count ops s) requests"
  shows "\<exists>c. gdox_source_make_default_xbe_cache mem ops (Some s) md = (Inr (), None, Some c)
    \<and> fst (source_reads (default_cache_ops ops) requests (Some c)) =
        span_answers (xbe_view (default_keys md) (contents s)) requests
    \<and> fst (source_reads (default_cache_ops ops) requests (gdox_source_abort (default_cache_ops ops) (Some c))) =
        map (\<lambda>_. fail ERROR_CANCELLED ''default XBE cache source was cancelled'') requests"
proof -
  obtain c where c: "gdox_source_make_default_xbe_cache mem ops (Some s) md = (Inr (), None, Some c)"
      "default_valid ops valid c" "default_ready ready c"
      "default_contents contents c = xbe_view (default_keys md) (contents s)"
      "default_cache_sector_count ops c = op_sector_count ops s"
    using reliable_source.make_default_cache_ready[where mem = mem, OF assms(1-5)] by blast
  note rel = reliable_source.default_reliable_source[OF assms(1)]
  have rd: "fst (source_reads (default_cache_ops ops) requests (Some c)) = span_answers (default_contents contents c) requests"
    using reliable_source.source_reads_ready[OF rel c(2,3), of requests] assms(6) c(5) by auto
  obtain d where d: "gdox_source_abort (default_cache_ops ops) (Some c) = Some d" "dq_aborted d"
      "view_kept (default_cache_ops ops) (default_valid ops valid) (default_contents contents) c d"
    using sector_source.source_abort_view[OF reliable_source.axioms(1)[OF rel] c(2)]
    by (auto simp: gdox_source_abort_def default_cache_abort_def)
  have cnt: "default_cache_sector_count ops d = op_sector_count ops s" "op_sector_count ops s < two64"
    using d(3) c(5) sector_source.count_less[OF reliable_source.axioms(1)[OF assms(1)] assms(2)] by (simp_all add: view_kept_def)
  have "fst (source_reads (default_cache_ops ops) requests (Some d)) =
      map (\<lambda>_. fail ERROR_CANCELLED ''default XBE cache source was cancelled'') requests"
    using assms(6)
  proof (induction requests)
    case (Cons q requests)
    obtain lba blocks where q: "q = (lba, blocks)" by fastforce
    have "gdox_source_read (default_cache_ops ops) (Some d) lba blocks (blocks * GDOX_LOGICAL_SECTOR_BYTES) =
        (fail ERROR_CANCELLED ''default XBE cache source was cancelled'', Some d)"
      using Cons.prems cnt d(2)
      by (auto simp: q requests_inside_def gdox_source_read_def default_cache_read_def SIZE_MAX_def
          gdox_source_validate_read_def Let_def)
    then show ?case using Cons by (auto simp: q requests_inside_def split: prod.splits)
  qed simp
  then show ?thesis using c(1,4) rd d(1) by simp
qed

theorem default_xbe_cache_shows_view_witness:
  "\<exists>c. gdox_source_make_default_xbe_cache (\<lambda>_. True) file_ops (Some sample_disc) sample_patched_metadata =
      (Inr (), None, Some c)
    \<and> fst (source_reads (default_cache_ops file_ops) [(33, 3), (0, 4)] (Some c)) =
        span_answers (xbe_view (default_keys sample_patched_metadata) (file_contents sample_disc)) [(33, 3), (0, 4)]
    \<and> fst (source_reads (default_cache_ops file_ops) [(33, 3), (0, 4)] (gdox_source_abort (default_cache_ops file_ops) (Some c))) =
        map (\<lambda>_. fail ERROR_CANCELLED ''default XBE cache source was cancelled'') [(33 :: u64, 3 :: u32), (0, 4)]"
  by (rule default_xbe_cache_shows_view[OF file_source.reliable_source_axioms])
    (simp_all add: default_fits_def sample_patched_metadata_def sectors_of_def requests_inside_def)

end
