(* ===== verification/FileReadahead.thy ===== *)
theory FileReadahead
  imports XdvdfsInspect
begin

text \<open>
  The read-ahead source of src/src/core/file_readahead_source.c: file extents are read in windows, the
  windows are kept in slots that are reused least recently used first, and the session ends when the medium
  goes away. Other threads may call into the source while an inner read is under way: \<open>ra_calls\<close> lists, for
  each inner read to come, the calls that complete during it (none when the list is exhausted). All other
  fields are those of the C context.
\<close>

unbundle bit_operations_syntax

section \<open>State\<close>

definition FILE_READAHEAD_CACHE_BYTES :: nat where "FILE_READAHEAD_CACHE_BYTES = 16 * 1024 * 1024"
definition GDOX_FILE_READAHEAD_MAX_WINDOW_BLOCKS :: u32 where "GDOX_FILE_READAHEAD_MAX_WINDOW_BLOCKS = 512"

record file_cache_slot =
  fs_start_sector :: u64
  fs_last_used :: u64
  fs_epoch :: u64
  fs_extent_index :: nat
  fs_blocks :: u32
  fs_valid :: bool

datatype readahead_call = CALL_ABORT | CALL_OBSERVE | CALL_PREPARE_CLOSE

record 's file_readahead_context =
  ra_inner :: "'s sector_source"
  ra_extents :: "file_extent list"
  ra_touched_extents :: "byte list"
  ra_cache :: "byte list"
  ra_slots :: "file_cache_slot list"
  ra_slot_bytes :: nat
  ra_use_counter :: u64
  ra_max_window_blocks :: u32
  ra_cache_epoch :: u64
  ra_aborted :: bool
  ra_closing :: bool
  ra_media_invalid :: bool
  ra_generation_known :: bool
  ra_observed_generation :: u64
  ra_calls :: "readahead_call list list"

abbreviation put_readahead :: "'s sector_source \<Rightarrow> 's file_readahead_context \<Rightarrow> 's file_readahead_context" where
  "put_readahead h c \<equiv> c\<lparr>ra_inner := h\<rparr>"

section \<open>Session and media\<close>

definition invalidate_cache :: "'s file_readahead_context \<Rightarrow> 's file_readahead_context" where
  "invalidate_cache c = c\<lparr>ra_cache_epoch := u64_add (ra_cache_epoch c) 1\<rparr>"

definition readahead_cancelled :: "'s file_readahead_context \<Rightarrow> bool" where
  "readahead_cancelled c \<longleftrightarrow> ra_aborted c \<or> ra_closing c \<or> ra_media_invalid c"

abbreviation session_cancelled :: gdox_error where
  "session_cancelled \<equiv> err ERROR_CANCELLED ''file read-ahead session is no longer readable''"

definition session_is_readable :: "'s file_readahead_context \<Rightarrow> bool" where
  "session_is_readable c \<longleftrightarrow> \<not> ra_aborted c \<and> \<not> ra_closing c \<and> \<not> ra_media_invalid c"

text \<open>The observation of a medium that left or changed.\<close>

definition ends_session :: "media_observation \<Rightarrow> bool" where
  "ends_session ob \<longleftrightarrow> readiness ob = MEDIA_READINESS_ABSENT \<or> event ob = MEDIA_EVENT_EJECT_REQUEST
     \<or> event ob = MEDIA_EVENT_NEW_MEDIA \<or> event ob = MEDIA_EVENT_REMOVAL \<or> event ob = MEDIA_EVENT_CHANGED"

definition apply_media_observation ::
  "'s file_readahead_context \<Rightarrow> media_observation \<Rightarrow> 's file_readahead_context" where
  "apply_media_observation c ob =
     (let invalid_session = ends_session ob;
          invalidate = readiness ob \<noteq> MEDIA_READINESS_PRESENT \<or> invalid_session;
          changed = readiness ob = MEDIA_READINESS_PRESENT \<and> ra_generation_known c
            \<and> ra_observed_generation c \<noteq> generation ob;
          c = (if changed then c\<lparr>ra_media_invalid := True\<rparr> else c);
          c = (if readiness ob = MEDIA_READINESS_PRESENT
               then c\<lparr>ra_observed_generation := generation ob, ra_generation_known := True\<rparr> else c);
          c = (if invalid_session then c\<lparr>ra_media_invalid := True\<rparr> else c)
      in if invalidate \<or> changed then invalidate_cache c else c)"

definition establish_media_baseline ::
  "'s source_ops \<Rightarrow> 's file_readahead_context \<Rightarrow> 's file_readahead_context" where
  "establish_media_baseline ops c =
     (case gdox_source_observe_media ops (ra_inner c) of
        (ok, ob, h) \<Rightarrow>
          (let c = put_readahead h c
           in if \<not> ok then c
              else if event ob = MEDIA_EVENT_EJECT_REQUEST \<or> event ob = MEDIA_EVENT_REMOVAL
                \<or> event ob = MEDIA_EVENT_CHANGED
              then c\<lparr>ra_media_invalid := True\<rparr>
              else if readiness ob = MEDIA_READINESS_PRESENT
              then c\<lparr>ra_observed_generation := generation ob, ra_generation_known := True\<rparr>
              else if readiness ob = MEDIA_READINESS_ABSENT then c\<lparr>ra_media_invalid := True\<rparr>
              else c))"

definition media_was_removed ::
  "'s source_ops \<Rightarrow> 's file_readahead_context \<Rightarrow> bool \<times> 's file_readahead_context" where
  "media_was_removed ops c =
     (case gdox_source_observe_media ops (ra_inner c) of
        (ok, ob, h) \<Rightarrow>
          (let c = put_readahead h c
           in if \<not> ok then (False, c) else (ends_session ob, apply_media_observation c ob)))"

section \<open>Operations beside the read\<close>

definition readahead_sector_count :: "'s source_ops \<Rightarrow> 's file_readahead_context \<Rightarrow> u64" where
  "readahead_sector_count ops c = gdox_source_sector_count ops (ra_inner c)"

definition readahead_media_present ::
  "'s source_ops \<Rightarrow> 's file_readahead_context \<Rightarrow> bool \<times> 's file_readahead_context" where
  "readahead_media_present ops c =
     (case gdox_source_observe_media ops (ra_inner c) of
        (ok, ob, h) \<Rightarrow>
          (let c = put_readahead h c
           in if \<not> ok then (False, c)
              else (readiness ob = MEDIA_READINESS_PRESENT, apply_media_observation c ob)))"

definition readahead_observe_media ::
  "'s source_ops \<Rightarrow> 's file_readahead_context \<Rightarrow> media_observation \<times> 's file_readahead_context" where
  "readahead_observe_media ops c =
     (case gdox_source_observe_media ops (ra_inner c) of
        (ok, ob, h) \<Rightarrow>
          (let c = put_readahead h c in (ob, if ok then apply_media_observation c ob else c)))"

definition readahead_evidence :: "'s source_ops \<Rightarrow> 's file_readahead_context \<Rightarrow> bool \<times> disc_evidence" where
  "readahead_evidence ops c = gdox_source_evidence ops (ra_inner c)"

definition readahead_physical_read_stats ::
  "'s source_ops \<Rightarrow> 's file_readahead_context \<Rightarrow> bool \<times> physical_read_stats" where
  "readahead_physical_read_stats ops c = gdox_source_physical_read_stats ops (ra_inner c)"

definition readahead_abort :: "'s source_ops \<Rightarrow> 's file_readahead_context \<Rightarrow> 's file_readahead_context" where
  "readahead_abort ops c =
     (let c = invalidate_cache (c\<lparr>ra_aborted := True\<rparr>)
      in put_readahead (gdox_source_abort ops (ra_inner c)) c)"

definition readahead_prepare_close ::
  "'s source_ops \<Rightarrow> 's file_readahead_context \<Rightarrow> unit res \<times> 's file_readahead_context" where
  "readahead_prepare_close ops c =
     (case gdox_source_prepare_close ops (ra_inner c) of
        (Inl e, h) \<Rightarrow> (Inl e, put_readahead h c)
      | (Inr _, h) \<Rightarrow> (Inr (), invalidate_cache (put_readahead h c\<lparr>ra_closing := True\<rparr>)))"

definition readahead_close :: "'s source_ops \<Rightarrow> 's file_readahead_context \<Rightarrow> unit res \<times> bool" where
  "readahead_close ops = forward_close ra_inner ops"

text \<open>The inner read, with the calls other threads complete before it returns.\<close>

fun perform_call :: "'s source_ops \<Rightarrow> readahead_call \<Rightarrow> 's file_readahead_context \<Rightarrow> 's file_readahead_context" where
  "perform_call ops CALL_ABORT c = readahead_abort ops c"
| "perform_call ops CALL_OBSERVE c = snd (readahead_observe_media ops c)"
| "perform_call ops CALL_PREPARE_CLOSE c = snd (readahead_prepare_close ops c)"

definition inner_read ::
  "'s source_ops \<Rightarrow> 's file_readahead_context \<Rightarrow> u64 \<Rightarrow> u32 \<Rightarrow> nat
     \<Rightarrow> byte list res \<times> 's file_readahead_context" where
  "inner_read ops c lba blocks output_bytes =
     (case gdox_source_read ops (ra_inner c) lba blocks output_bytes of
        (r, h) \<Rightarrow>
          (case ra_calls c of
             [] \<Rightarrow> (r, put_readahead h c)
           | calls # later \<Rightarrow> (r, fold (perform_call ops) calls (put_readahead h c\<lparr>ra_calls := later\<rparr>))))"

section \<open>The slots\<close>

text \<open>The index and the end of the first extent that contains the request.\<close>

definition find_containing_extent :: "file_extent list \<Rightarrow> u64 \<Rightarrow> u32 \<Rightarrow> (nat \<times> u64) option" where
  "find_containing_extent extents lba blocks =
     (let request_end = u64_add lba blocks;
          low = bsearch (\<lambda>middle. fe_start_sector (extents ! middle) \<le> lba) 0 (length extents)
      in if low = 0 then None
         else (let containing_limit = low - 1
               in if fe_prefix_max_end (extents ! containing_limit) < request_end then None
                  else (let low = bsearch (\<lambda>middle. fe_prefix_max_end (extents ! middle) < request_end)
                                    0 (containing_limit + 1);
                            extent_stop = file_extent_end (extents ! low)
                        in if extent_stop \<ge> request_end then Some (low, extent_stop) else None)))"

definition mark_extent_touched ::
  "'s file_readahead_context \<Rightarrow> nat \<Rightarrow> bool \<times> 's file_readahead_context" where
  "mark_extent_touched c extent_number =
     (let byte_index = extent_number div 8;
          mask = (push_bit (extent_number mod 8) 1 :: byte);
          first_touch = (ra_touched_extents c ! byte_index AND mask) = 0
      in (first_touch,
          c\<lparr>ra_touched_extents := (ra_touched_extents c)[byte_index := ra_touched_extents c ! byte_index OR mask]\<rparr>))"

definition slot_data :: "'s file_readahead_context \<Rightarrow> nat \<Rightarrow> nat" where
  "slot_data c slot_index = slot_index * ra_slot_bytes c"

definition cache_bytes_at :: "'s file_readahead_context \<Rightarrow> nat \<Rightarrow> nat \<Rightarrow> byte list" where
  "cache_bytes_at c offset n = take n (drop offset (ra_cache c))"

definition write_cache :: "'s file_readahead_context \<Rightarrow> nat \<Rightarrow> byte list \<Rightarrow> 's file_readahead_context" where
  "write_cache c offset bytes =
     c\<lparr>ra_cache := take offset (ra_cache c) @ bytes @ drop (offset + length bytes) (ra_cache c)\<rparr>"

definition next_use_stamp :: "'s file_readahead_context \<Rightarrow> u64 \<times> 's file_readahead_context" where
  "next_use_stamp c =
     (let stamp = u64_add (ra_use_counter c) 1
      in if stamp \<noteq> 0 then (stamp, c\<lparr>ra_use_counter := stamp\<rparr>)
         else (1, c\<lparr>ra_slots := map (\<lambda>slot. slot\<lparr>fs_last_used := 0\<rparr>) (ra_slots c), ra_use_counter := 1\<rparr>))"

text \<open>\<open>None\<close> stands for \<open>SIZE_MAX\<close>.\<close>

definition find_cached_request :: "'s file_readahead_context \<Rightarrow> u64 \<Rightarrow> u64 \<Rightarrow> u32 \<Rightarrow> nat option" where
  "find_cached_request c epoch lba blocks =
     (let request_end = u64_add lba blocks
      in find (\<lambda>i. let slot = ra_slots c ! i
                   in fs_valid slot \<and> fs_epoch slot = epoch \<and> lba \<ge> fs_start_sector slot
                      \<and> request_end \<le> u64_add (fs_start_sector slot) (fs_blocks slot))
           [0..<length (ra_slots c)])"

text \<open>\<open>Inr None\<close>: the call succeeds with \<open>*found\<close> false.\<close>

definition copy_cached_request ::
  "'s file_readahead_context \<Rightarrow> u64 \<Rightarrow> u32 \<Rightarrow> byte list option res \<times> 's file_readahead_context" where
  "copy_cached_request c lba blocks =
     (let epoch = ra_cache_epoch c
      in case find_cached_request c epoch lba blocks of
           None \<Rightarrow> (Inr None, c)
         | Some slot_index \<Rightarrow>
             (let slot = ra_slots c ! slot_index;
                  bytes = cache_bytes_at c (slot_data c slot_index + (lba - fs_start_sector slot) * GDOX_LOGICAL_SECTOR_BYTES)
                            (blocks * GDOX_LOGICAL_SECTOR_BYTES)
              in case next_use_stamp c of
                   (stamp, c) \<Rightarrow>
                     (let c = c\<lparr>ra_slots := (ra_slots c)[slot_index := (ra_slots c ! slot_index)\<lparr>fs_last_used := stamp\<rparr>]\<rparr>
                      in if readahead_cancelled c then (Inl session_cancelled, c)
                         else if epoch \<noteq> ra_cache_epoch c then (Inr None, c)
                         else (Inr (Some bytes), c))))"

definition continues_cached_extent :: "'s file_readahead_context \<Rightarrow> u64 \<Rightarrow> nat \<Rightarrow> u64 \<Rightarrow> bool" where
  "continues_cached_extent c epoch extent_number lba =
     list_ex (\<lambda>slot. fs_valid slot \<and> fs_epoch slot = epoch \<and> fs_extent_index slot = extent_number
        \<and> lba \<ge> fs_start_sector slot \<and> lba \<le> u64_add (fs_start_sector slot) (fs_blocks slot)) (ra_slots c)"

text \<open>The loop of \<open>reserve_cache_slot\<close> over the slots from \<open>index\<close> on.\<close>

fun reserve_loop :: "file_cache_slot list \<Rightarrow> u64 \<Rightarrow> nat \<Rightarrow> u64 \<Rightarrow> nat \<Rightarrow> nat" where
  "reserve_loop [] epoch index oldest_use victim = victim"
| "reserve_loop (slot # slots) epoch index oldest_use victim =
     (if \<not> fs_valid slot \<or> fs_epoch slot \<noteq> epoch then index
      else if fs_last_used slot < oldest_use then reserve_loop slots epoch (index + 1) (fs_last_used slot) index
      else reserve_loop slots epoch (index + 1) oldest_use victim)"

definition reserve_cache_slot ::
  "'s file_readahead_context \<Rightarrow> u64 \<Rightarrow> nat \<times> 's file_readahead_context" where
  "reserve_cache_slot c epoch =
     (let victim = reserve_loop (ra_slots c) epoch 0 UINT64_MAX SIZE_MAX
      in (victim, c\<lparr>ra_slots := (ra_slots c)[victim := (ra_slots c ! victim)\<lparr>fs_valid := False\<rparr>]\<rparr>))"

definition publish_cache_slot ::
  "'s file_readahead_context \<Rightarrow> nat \<Rightarrow> u64 \<Rightarrow> nat \<Rightarrow> u64 \<Rightarrow> u32 \<Rightarrow> 's file_readahead_context" where
  "publish_cache_slot c slot_index epoch extent_number lba blocks =
     (if epoch \<noteq> ra_cache_epoch c \<or> \<not> session_is_readable c then c
      else (let slot = (ra_slots c ! slot_index)\<lparr>fs_start_sector := lba, fs_blocks := blocks,
                         fs_extent_index := extent_number, fs_epoch := epoch\<rparr>
            in case next_use_stamp (c\<lparr>ra_slots := (ra_slots c)[slot_index := slot]\<rparr>) of
                 (stamp, c) \<Rightarrow>
                   c\<lparr>ra_slots := (ra_slots c)[slot_index :=
                       (ra_slots c ! slot_index)\<lparr>fs_last_used := stamp, fs_valid := True\<rparr>]\<rparr>))"

definition retain_exact_read ::
  "'s file_readahead_context \<Rightarrow> u64 \<Rightarrow> nat \<Rightarrow> u64 \<Rightarrow> u32 \<Rightarrow> byte list \<Rightarrow> 's file_readahead_context" where
  "retain_exact_read c epoch extent_number lba blocks output =
     (if blocks > ra_max_window_blocks c \<or> epoch \<noteq> ra_cache_epoch c \<or> \<not> session_is_readable c then c
      else (case reserve_cache_slot c epoch of
              (slot_index, c) \<Rightarrow>
                publish_cache_slot
                  (write_cache c (slot_data c slot_index) (take (blocks * GDOX_LOGICAL_SECTOR_BYTES) output))
                  slot_index epoch extent_number lba blocks))"

section \<open>The read\<close>

definition exact_read ::
  "'s source_ops \<Rightarrow> 's file_readahead_context \<Rightarrow> u64 \<Rightarrow> u32 \<Rightarrow> nat \<Rightarrow> bool \<Rightarrow> nat
     \<Rightarrow> byte list res \<times> 's file_readahead_context" where
  "exact_read ops c lba blocks output_bytes cacheable extent_number =
     (let epoch = ra_cache_epoch c
      in case inner_read ops c lba blocks output_bytes of
           (Inl e, c) \<Rightarrow> (Inl e, c)
         | (Inr bytes, c) \<Rightarrow>
             if readahead_cancelled c then (Inl session_cancelled, c)
             else (Inr bytes, if cacheable then retain_exact_read c epoch extent_number lba blocks bytes else c))"

definition speculative_read ::
  "'s source_ops \<Rightarrow> 's file_readahead_context \<Rightarrow> u64 \<Rightarrow> u32 \<Rightarrow> u32 \<Rightarrow> nat \<Rightarrow> nat
     \<Rightarrow> byte list res \<times> 's file_readahead_context" where
  "speculative_read ops c lba blocks window_blocks extent_number output_bytes =
     (let epoch = ra_cache_epoch c
      in case reserve_cache_slot c epoch of
           (slot_index, c) \<Rightarrow>
             (case inner_read ops c lba window_blocks (window_blocks * GDOX_LOGICAL_SECTOR_BYTES) of
                (Inr bytes, c) \<Rightarrow>
                  (let c = write_cache c (slot_data c slot_index) bytes
                   in if readahead_cancelled c then (Inl session_cancelled, c)
                      else (Inr (cache_bytes_at c (slot_data c slot_index) output_bytes),
                            publish_cache_slot c slot_index epoch extent_number lba window_blocks))
              | (Inl e, c) \<Rightarrow>
                  (if code e = ERROR_CANCELLED then (Inl e, c)
                   else (case media_was_removed ops c of
                           (removed, c) \<Rightarrow>
                             if removed then (Inl e, c)
                             else exact_read ops c lba blocks output_bytes True extent_number))))"

definition bounded_window_read ::
  "'s source_ops \<Rightarrow> 's file_readahead_context \<Rightarrow> u64 \<Rightarrow> u32 \<Rightarrow> u64 \<Rightarrow> u64 \<Rightarrow> nat \<Rightarrow> nat
     \<Rightarrow> byte list res \<times> 's file_readahead_context" where
  "bounded_window_read ops c lba blocks extent_stop source_end extent_number output_bytes =
     (let available = u64_sub extent_stop lba;
          available = (if available > u64_sub source_end lba then u64_sub source_end lba else available);
          window_blocks = (if available < ra_max_window_blocks c then available else ra_max_window_blocks c)
      in if window_blocks > blocks
         then speculative_read ops c lba blocks window_blocks extent_number output_bytes
         else exact_read ops c lba blocks output_bytes True extent_number)"

text \<open>The extent index is 0 when the request lies in no extent.\<close>

definition readahead_read ::
  "'s source_ops \<Rightarrow> 's file_readahead_context \<Rightarrow> u64 \<Rightarrow> u32 \<Rightarrow> nat
     \<Rightarrow> byte list res \<times> 's file_readahead_context" where
  "readahead_read ops c lba blocks output_bytes =
     (let source_end = gdox_source_sector_count ops (ra_inner c)
      in if readahead_cancelled c then (Inl session_cancelled, c)
         else (let found = find_containing_extent (ra_extents c) lba blocks;
                   contained = (found \<noteq> None);
                   extent_number = (case found of Some (i, _) \<Rightarrow> i | None \<Rightarrow> 0)
               in case copy_cached_request c lba blocks of
                    (Inl e, c) \<Rightarrow> (Inl e, c)
                  | (Inr (Some bytes), c) \<Rightarrow>
                      (if readahead_cancelled c then Inl session_cancelled else Inr bytes, c)
                  | (Inr None, c) \<Rightarrow>
                      (case (if contained then mark_extent_touched c extent_number else (False, c)) of
                         (first_touch, c) \<Rightarrow>
                           (let continuing = contained
                                  \<and> continues_cached_extent c (ra_cache_epoch c) extent_number lba
                            in case (if (first_touch \<or> continuing) \<and> blocks < ra_max_window_blocks c
                                     then bounded_window_read ops c lba blocks (snd (the found)) source_end
                                            extent_number output_bytes
                                     else exact_read ops c lba blocks output_bytes contained extent_number) of
                                 (Inl e, c) \<Rightarrow> (Inl e, c)
                               | (Inr bytes, c) \<Rightarrow>
                                   (if readahead_cancelled c then Inl session_cancelled else Inr bytes, c)))))"

definition readahead_ops :: "'s source_ops \<Rightarrow> 's file_readahead_context source_ops" where
  "readahead_ops ops =
     \<lparr>op_sector_count = readahead_sector_count ops, op_read = readahead_read ops,
      op_media_present = Some (readahead_media_present ops), op_close = readahead_close ops,
      op_evidence = Some (readahead_evidence ops),
      op_physical_read_stats = Some (readahead_physical_read_stats ops), op_abort = Some (readahead_abort ops),
      op_prepare_close = Some (readahead_prepare_close ops),
      op_observe_media = Some (readahead_observe_media ops)\<rparr>"

lemma readahead_ops_simps [simp]:
  "op_sector_count (readahead_ops ops) = readahead_sector_count ops"
  "op_read (readahead_ops ops) = readahead_read ops"
  "op_media_present (readahead_ops ops) = Some (readahead_media_present ops)"
  "op_close (readahead_ops ops) = readahead_close ops"
  "op_evidence (readahead_ops ops) = Some (readahead_evidence ops)"
  "op_physical_read_stats (readahead_ops ops) = Some (readahead_physical_read_stats ops)"
  "op_abort (readahead_ops ops) = Some (readahead_abort ops)"
  "op_prepare_close (readahead_ops ops) = Some (readahead_prepare_close ops)"
  "op_observe_media (readahead_ops ops) = Some (readahead_observe_media ops)"
  by (simp_all add: readahead_ops_def)

section \<open>Construction\<close>

text \<open>\<open>sizeof\<close> of an extent, a slot and the context.\<close>

definition FILE_EXTENT_BYTES :: nat where "FILE_EXTENT_BYTES = 16"
definition CACHE_SLOT_BYTES :: nat where "CACHE_SLOT_BYTES = 40"
definition READAHEAD_CONTEXT_BYTES :: nat where "READAHEAD_CONTEXT_BYTES = 112"

text \<open>The loop over the copied extents: the previous start (\<open>None\<close> at the first), and the running maximum.\<close>

fun validate_file_extents :: "u64 \<Rightarrow> u32 option \<Rightarrow> u64 \<Rightarrow> file_extent list \<Rightarrow> file_extent list res" where
  "validate_file_extents source_sectors previous prefix_max_end [] = Inr []"
| "validate_file_extents source_sectors previous prefix_max_end (x # xs) =
     (let stop = file_extent_end x
      in if (case previous of None \<Rightarrow> False | Some p \<Rightarrow> fe_start_sector x < p) \<or> stop > source_sectors
         then fail ERROR_INVALID_ARGUMENT ''file extent metadata is outside the source or unsorted''
         else (let prefix_max_end = (if stop > prefix_max_end then stop else prefix_max_end)
               in case validate_file_extents source_sectors (Some (fe_start_sector x)) prefix_max_end xs of
                    Inl e \<Rightarrow> Inl e
                  | Inr ys \<Rightarrow> Inr (x\<lparr>fe_prefix_max_end := prefix_max_end\<rparr> # ys)))"

definition copy_and_validate_extents :: "(nat \<Rightarrow> bool) \<Rightarrow> u64 \<Rightarrow> file_extent list \<Rightarrow> file_extent list res" where
  "copy_and_validate_extents mem source_sectors extents =
     (if length extents = 0 then Inr []
      else if length extents > SIZE_MAX div FILE_EXTENT_BYTES
      then fail ERROR_INVALID_ARGUMENT ''file extent metadata is invalid''
      else if \<not> mem (length extents * FILE_EXTENT_BYTES)
      then fail ERROR_INTERNAL ''could not allocate the file extent index''
      else validate_file_extents source_sectors None 0 extents)"

text \<open>The loop that halves the number of slots until both allocations succeed.\<close>

function allocate_slots :: "(nat \<Rightarrow> bool) \<Rightarrow> nat \<Rightarrow> nat \<Rightarrow> nat" where
  "allocate_slots mem slot_bytes slot_count =
     (if slot_count = 0 then 0
      else if mem (slot_count * slot_bytes) \<and> mem (slot_count * CACHE_SLOT_BYTES) then slot_count
      else allocate_slots mem slot_bytes (slot_count div 2))"
  by pat_completeness auto
termination
  by (relation "measure (\<lambda>(mem, slot_bytes, slot_count). slot_count)") auto

declare allocate_slots.simps [simp del]

definition empty_slot :: file_cache_slot where
  "empty_slot = \<lparr>fs_start_sector = 0, fs_last_used = 0, fs_epoch = 0, fs_extent_index = 0, fs_blocks = 0, fs_valid = False\<rparr>"

datatype 's readahead_output = Passed "'s sector_source" | Readahead "'s file_readahead_context sector_source"

text \<open>
  \<open>junk\<close> is the uninitialised memory \<open>malloc\<close> returns for the cache, \<open>calls\<close> what other threads will do.
  The size of a window is at most 1 MiB, so the test against \<open>SIZE_MAX\<close> never fires after the bound.
\<close>

definition gdox_source_make_file_readahead ::
  "(nat \<Rightarrow> bool) \<Rightarrow> (nat \<Rightarrow> byte) \<Rightarrow> readahead_call list list \<Rightarrow> 's source_ops \<Rightarrow> 's sector_source
     \<Rightarrow> xdvdfs_metadata option \<Rightarrow> u32 \<Rightarrow> unit res \<times> 's sector_source \<times> 's readahead_output" where
  "gdox_source_make_file_readahead mem junk calls ops source metadata max_window_blocks =
     (if \<not> gdox_source_is_valid source
      then (fail ERROR_INVALID_ARGUMENT
              ''file read-ahead requires a valid partition, metadata, window, and empty output'', source, Readahead None)
      else if max_window_blocks = 0 then (Inr (), None, Passed source)
      else if metadata = None \<or> max_window_blocks > GDOX_FILE_READAHEAD_MAX_WINDOW_BLOCKS
        \<or> max_window_blocks * GDOX_LOGICAL_SECTOR_BYTES > SIZE_MAX
      then (fail ERROR_INVALID_ARGUMENT ''file read-ahead requires metadata and a representable window'',
            source, Readahead None)
      else if \<not> mem READAHEAD_CONTEXT_BYTES
      then (fail ERROR_INTERNAL ''could not allocate the file read-ahead source'', source, Readahead None)
      else (let slot_bytes = max_window_blocks * GDOX_LOGICAL_SECTOR_BYTES;
                slot_count = FILE_READAHEAD_CACHE_BYTES div slot_bytes;
                c = establish_media_baseline ops
                      \<lparr>ra_inner = source, ra_extents = [], ra_touched_extents = [], ra_cache = [], ra_slots = [],
                       ra_slot_bytes = slot_bytes, ra_use_counter = 0, ra_max_window_blocks = max_window_blocks,
                       ra_cache_epoch = 1, ra_aborted = False, ra_closing = False, ra_media_invalid = False,
                       ra_generation_known = False, ra_observed_generation = 0, ra_calls = calls\<rparr>
            in case copy_and_validate_extents mem (gdox_source_sector_count ops (ra_inner c))
                      (md_file_extents (the metadata)) of
                 Inl e \<Rightarrow> (Inl e, ra_inner c, Readahead None)
               | Inr extents \<Rightarrow>
                   (let touched_bytes = length extents div 8 + (if length extents mod 8 \<noteq> 0 then 1 else 0)
                    in if length extents \<noteq> 0 \<and> \<not> mem touched_bytes
                       then (fail ERROR_INTERNAL ''could not allocate the file read-ahead touch index'',
                             ra_inner c, Readahead None)
                       else (let slots = allocate_slots mem slot_bytes slot_count
                             in if slots = 0
                                then (fail ERROR_INTERNAL ''could not allocate the file read-ahead cache'',
                                      ra_inner c, Readahead None)
                                else (Inr (), None,
                                      Readahead (Some (c\<lparr>ra_extents := extents,
                                        ra_touched_extents := replicate touched_bytes 0,
                                        ra_cache := span junk 0 (slots * slot_bytes),
                                        ra_slots := replicate slots empty_slot\<rparr>)))))))"

end
