(* ===== verification/FileReadaheadSource.thy ===== *)
theory FileReadaheadSource
  imports FileReadahead FileSource
begin

text \<open>
  The contract of the read-ahead source: its slots hold bytes of the partition whatever the order of reads,
  evictions and media events, so the source shows exactly the partition it wraps. A session that was
  aborted, closed or lost its medium is never readable again, whatever other threads do during a read.
\<close>

section \<open>The slot store\<close>

lemma nth_update: "j < length xs \<Longrightarrow> xs[i := x] ! j = (if i = j then x else xs ! j)"
  by (cases "i = j") auto

definition slot_holds :: "u64 \<Rightarrow> (nat \<Rightarrow> byte) \<Rightarrow> 's file_readahead_context \<Rightarrow> nat \<Rightarrow> u64 \<Rightarrow> u32 \<Rightarrow> bool" where
  "slot_holds sectors f c i start blocks \<longleftrightarrow>
     start + blocks \<le> sectors \<and> blocks \<le> ra_max_window_blocks c
     \<and> cache_bytes_at c (slot_data c i) (blocks * GDOX_LOGICAL_SECTOR_BYTES) =
         span f (start * GDOX_LOGICAL_SECTOR_BYTES) (blocks * GDOX_LOGICAL_SECTOR_BYTES)"

text \<open>The stamps are below the counter and at most one slot carries the largest one.\<close>

definition stamps_ok :: "u64 \<Rightarrow> file_cache_slot list \<Rightarrow> bool" where
  "stamps_ok counter slots \<longleftrightarrow>
     counter \<le> UINT64_MAX \<and> (\<forall>i < length slots. fs_last_used (slots ! i) \<le> counter)
     \<and> (\<forall>i < length slots. \<forall>j < length slots.
          fs_last_used (slots ! i) = UINT64_MAX \<longrightarrow> fs_last_used (slots ! j) = UINT64_MAX \<longrightarrow> i = j)"

definition slots_ok :: "u64 \<Rightarrow> (nat \<Rightarrow> byte) \<Rightarrow> 's file_readahead_context \<Rightarrow> bool" where
  "slots_ok sectors f c \<longleftrightarrow>
     ra_max_window_blocks c \<le> GDOX_FILE_READAHEAD_MAX_WINDOW_BLOCKS
     \<and> ra_slot_bytes c = ra_max_window_blocks c * GDOX_LOGICAL_SECTOR_BYTES
     \<and> length (ra_cache c) = length (ra_slots c) * ra_slot_bytes c
     \<and> 2 \<le> length (ra_slots c) \<and> length (ra_slots c) < SIZE_MAX
     \<and> stamps_ok (ra_use_counter c) (ra_slots c)
     \<and> (\<forall>i < length (ra_slots c). fs_valid (ra_slots c ! i) \<longrightarrow>
          slot_holds sectors f c i (fs_start_sector (ra_slots c ! i)) (fs_blocks (ra_slots c ! i)))"

definition extents_ok :: "u64 \<Rightarrow> 's file_readahead_context \<Rightarrow> bool" where
  "extents_ok sectors c \<longleftrightarrow>
     indexed fe_start_sector file_extent_end fe_prefix_max_end (ra_extents c)
     \<and> (\<forall>x \<in> set (ra_extents c). file_extent_end x \<le> sectors)
     \<and> length (ra_extents c) \<le> 8 * length (ra_touched_extents c)"

definition same_store :: "'s file_readahead_context \<Rightarrow> 's file_readahead_context \<Rightarrow> bool" where
  "same_store c c' \<longleftrightarrow>
     ra_extents c' = ra_extents c \<and> ra_touched_extents c' = ra_touched_extents c \<and> ra_cache c' = ra_cache c
     \<and> ra_slots c' = ra_slots c \<and> ra_slot_bytes c' = ra_slot_bytes c \<and> ra_use_counter c' = ra_use_counter c
     \<and> ra_max_window_blocks c' = ra_max_window_blocks c"

lemma same_store_refl [simp]: "same_store c c"
  by (simp add: same_store_def)

lemma same_store_trans: "same_store a b \<Longrightarrow> same_store b c \<Longrightarrow> same_store a c"
  by (simp add: same_store_def)

lemma same_store_ok:
  "same_store c c' \<Longrightarrow> slots_ok sectors f c' \<longleftrightarrow> slots_ok sectors f c"
  "same_store c c' \<Longrightarrow> extents_ok sectors c' \<longleftrightarrow> extents_ok sectors c"
  by (simp_all add: same_store_def slots_ok_def extents_ok_def slot_holds_def cache_bytes_at_def slot_data_def)

subsection \<open>The buffer\<close>

lemma splice_same:
  "a + length bs \<le> length xs \<Longrightarrow> n \<le> length bs \<Longrightarrow>
   take n (drop a (take a xs @ bs @ drop (a + length bs) xs)) = take n bs"
  by simp

lemma splice_other:
  "a + length bs \<le> length xs \<Longrightarrow> k + n \<le> a \<or> a + length bs \<le> k \<Longrightarrow>
   take n (drop k (take a xs @ bs @ drop (a + length bs) xs)) = take n (drop k xs)"
  by (rule nth_equalityI) (auto simp: nth_append)

lemma slot_inside:
  assumes "slots_ok sectors f c" and "i < length (ra_slots c)" and "n \<le> ra_slot_bytes c"
  shows "slot_data c i + n \<le> length (ra_cache c)"
proof -
  have "Suc i * ra_slot_bytes c \<le> length (ra_slots c) * ra_slot_bytes c"
    using assms(2) by (intro mult_le_mono1) simp
  then show ?thesis using assms(1,3) by (simp add: slots_ok_def slot_data_def)
qed

lemma slots_apart:
  fixes b i j m n :: nat
  assumes "i \<noteq> j" and "m \<le> b" and "n \<le> b"
  shows "j * b + m \<le> i * b \<or> i * b + n \<le> j * b"
proof (cases "j < i")
  case True
  then have "Suc j * b \<le> i * b" by (intro mult_le_mono1) simp
  then show ?thesis using assms(2) by simp
next
  case False
  then have "Suc i * b \<le> j * b" using assms(1) by (intro mult_le_mono1) simp
  then show ?thesis using assms(3) by simp
qed

lemma write_cache_simps [simp]:
  "ra_slots (write_cache c a bs) = ra_slots c" "ra_slot_bytes (write_cache c a bs) = ra_slot_bytes c"
  "ra_max_window_blocks (write_cache c a bs) = ra_max_window_blocks c" "ra_inner (write_cache c a bs) = ra_inner c"
  "ra_use_counter (write_cache c a bs) = ra_use_counter c" "ra_extents (write_cache c a bs) = ra_extents c"
  "ra_touched_extents (write_cache c a bs) = ra_touched_extents c" "slot_data (write_cache c a bs) i = slot_data c i"
  "extents_ok sectors (write_cache c a bs) = extents_ok sectors c"
  "readahead_cancelled (write_cache c a bs) = readahead_cancelled c"
  by (simp_all add: write_cache_def slot_data_def extents_ok_def readahead_cancelled_def)

lemma write_slot_ok:
  assumes "slots_ok sectors f c" and "i < length (ra_slots c)" and "\<not> fs_valid (ra_slots c ! i)"
    and "length bs \<le> ra_slot_bytes c"
  shows "slots_ok sectors f (write_cache c (slot_data c i) bs)"
    and "n \<le> length bs \<Longrightarrow> cache_bytes_at (write_cache c (slot_data c i) bs) (slot_data c i) n = take n bs"
proof -
  note fits = slot_inside[OF assms(1,2,4)]
  have other: "cache_bytes_at (write_cache c (slot_data c i) bs) (slot_data c j) n = cache_bytes_at c (slot_data c j) n"
    if "j \<noteq> i" "n \<le> ra_slot_bytes c" for j n
    using splice_other[OF fits, of "slot_data c j" n] slots_apart[OF that(1)[symmetric] that(2) assms(4)]
    by (simp add: cache_bytes_at_def write_cache_def slot_data_def)
  have "blocks \<le> ra_max_window_blocks c \<Longrightarrow> blocks * GDOX_LOGICAL_SECTOR_BYTES \<le> ra_slot_bytes c" for blocks
    using assms(1) by (simp add: slots_ok_def)
  then have "slot_holds sectors f (write_cache c (slot_data c i) bs) j start blocks \<longleftrightarrow> slot_holds sectors f c j start blocks"
    if "j \<noteq> i" for j start blocks
    using other[OF that] by (auto simp: slot_holds_def)
  then have "slot_holds sectors f (write_cache c (slot_data c i) bs) j (fs_start_sector (ra_slots c ! j)) (fs_blocks (ra_slots c ! j))"
    if "j < length (ra_slots c)" "fs_valid (ra_slots c ! j)" for j
    using assms(1,3) that unfolding slots_ok_def by (cases "j = i") blast+
  moreover have "length (ra_cache (write_cache c (slot_data c i) bs)) = length (ra_cache c)"
    using fits by (simp add: write_cache_def)
  ultimately show "slots_ok sectors f (write_cache c (slot_data c i) bs)"
    using assms(1) unfolding slots_ok_def write_cache_simps by presburger
  show "cache_bytes_at (write_cache c (slot_data c i) bs) (slot_data c i) n = take n bs" if "n \<le> length bs"
    using splice_same[OF fits that] by (simp add: cache_bytes_at_def write_cache_def)
qed

subsection \<open>Stamps\<close>

lemma next_use_stamp_frame:
  assumes "next_use_stamp c = (stamp, c')"
  shows "ra_inner c' = ra_inner c \<and> ra_extents c' = ra_extents c \<and> ra_touched_extents c' = ra_touched_extents c
    \<and> ra_cache c' = ra_cache c \<and> ra_slot_bytes c' = ra_slot_bytes c \<and> ra_max_window_blocks c' = ra_max_window_blocks c
    \<and> ra_cache_epoch c' = ra_cache_epoch c \<and> readahead_cancelled c' = readahead_cancelled c \<and> ra_calls c' = ra_calls c
    \<and> length (ra_slots c') = length (ra_slots c)
    \<and> (\<forall>i < length (ra_slots c). \<exists>k. ra_slots c' ! i = (ra_slots c ! i)\<lparr>fs_last_used := k\<rparr>)"
  using assms by (auto simp: next_use_stamp_def Let_def readahead_cancelled_def split: if_splits)
    (metis file_cache_slot.surjective file_cache_slot.update_convs(2))+

lemma next_use_stamp_stamps:
  assumes "next_use_stamp c = (stamp, c')" and "stamps_ok (ra_use_counter c) (ra_slots c)"
  shows "stamps_ok (ra_use_counter c') ((ra_slots c')[i := x\<lparr>fs_last_used := stamp\<rparr>])"
    and "stamps_ok (ra_use_counter c') (ra_slots c')"
proof -
  show "stamps_ok (ra_use_counter c') ((ra_slots c')[i := x\<lparr>fs_last_used := stamp\<rparr>])"
  proof (cases "ra_use_counter c = UINT64_MAX")
    case True
    then have "stamp = 1" "c' = c\<lparr>ra_slots := map (\<lambda>slot. slot\<lparr>fs_last_used := 0\<rparr>) (ra_slots c), ra_use_counter := 1\<rparr>"
      using assms(1) by (auto simp: next_use_stamp_def Let_def u64_add_def UINT64_MAX_def)
    then show ?thesis by (auto simp: stamps_ok_def UINT64_MAX_def nth_update)
  next
    case False
    have small: "ra_use_counter c < UINT64_MAX" using False assms(2) by (simp add: stamps_ok_def)
    then have c': "stamp = ra_use_counter c + 1" "c' = c\<lparr>ra_use_counter := stamp\<rparr>"
      using assms(1) by (auto simp: next_use_stamp_def Let_def UINT64_MAX_def)
    have below: "fs_last_used (ra_slots c ! j) \<le> ra_use_counter c" if "j < length (ra_slots c)" for j
      using assms(2) that by (simp add: stamps_ok_def)
    then have ne: "fs_last_used (ra_slots c ! j) \<noteq> UINT64_MAX" if "j < length (ra_slots c)" for j
      using small that by (metis not_less)
    show ?thesis
      using small below ne by (auto simp: stamps_ok_def c' nth_update intro: le_SucI)
  qed
  show "stamps_ok (ra_use_counter c') (ra_slots c')"
  proof (cases "ra_use_counter c = UINT64_MAX")
    case True
    then show ?thesis
      using assms(1) by (auto simp: next_use_stamp_def Let_def u64_add_def UINT64_MAX_def stamps_ok_def)
  next
    case False
    then have "ra_use_counter c < UINT64_MAX" using assms(2) by (simp add: stamps_ok_def)
    then show ?thesis
      using assms by (auto simp: next_use_stamp_def Let_def stamps_ok_def UINT64_MAX_def intro: le_SucI)
  qed
qed

lemma stamped_slot_ok:
  assumes "slots_ok sectors f c" and "next_use_stamp c = (stamp, c')" and "i < length (ra_slots c)"
    and "v \<Longrightarrow> slot_holds sectors f c i (fs_start_sector (ra_slots c ! i)) (fs_blocks (ra_slots c ! i))"
  shows "slots_ok sectors f (c'\<lparr>ra_slots := (ra_slots c')[i := (ra_slots c' ! i)\<lparr>fs_last_used := stamp, fs_valid := v\<rparr>]\<rparr>)"
proof -
  let ?d = "c'\<lparr>ra_slots := (ra_slots c')[i := (ra_slots c' ! i)\<lparr>fs_last_used := stamp, fs_valid := v\<rparr>]\<rparr>"
  note fr = next_use_stamp_frame[OF assms(2)]
  have swap: "(ra_slots c' ! i)\<lparr>fs_last_used := stamp, fs_valid := v\<rparr> = ((ra_slots c' ! i)\<lparr>fs_valid := v\<rparr>)\<lparr>fs_last_used := stamp\<rparr>"
    by simp
  have st: "stamps_ok (ra_use_counter ?d) (ra_slots ?d)"
    using next_use_stamp_stamps(1)[OF assms(2), of i "(ra_slots c' ! i)\<lparr>fs_valid := v\<rparr>"] assms(1)
    unfolding swap by (simp add: slots_ok_def)
  have same: "fs_start_sector (ra_slots ?d ! j) = fs_start_sector (ra_slots c ! j)
      \<and> fs_blocks (ra_slots ?d ! j) = fs_blocks (ra_slots c ! j)
      \<and> fs_valid (ra_slots ?d ! j) = (if j = i then v else fs_valid (ra_slots c ! j))" if j: "j < length (ra_slots c)" for j
  proof -
    obtain k where "ra_slots c' ! j = (ra_slots c ! j)\<lparr>fs_last_used := k\<rparr>" using fr j by blast
    then show ?thesis using fr j by (auto simp: nth_update)
  qed
  have hold: "slot_holds sectors f ?d j start blocks = slot_holds sectors f c j start blocks" for j start blocks
    using fr by (simp add: slot_holds_def cache_bytes_at_def slot_data_def)
  have "length (ra_slots ?d) = length (ra_slots c)" using fr by simp
  then show ?thesis
    using assms(1) assms(4) st same unfolding slots_ok_def hold using fr by (auto split: if_splits)
qed

lemma touched_slot_ok:
  assumes "slots_ok sectors f c" and "next_use_stamp c = (stamp, c')" and "i < length (ra_slots c)"
  shows "slots_ok sectors f (c'\<lparr>ra_slots := (ra_slots c')[i := (ra_slots c' ! i)\<lparr>fs_last_used := stamp\<rparr>]\<rparr>)"
proof -
  obtain k where "ra_slots c' ! i = (ra_slots c ! i)\<lparr>fs_last_used := k\<rparr>"
    using next_use_stamp_frame[OF assms(2)] assms(3) by blast
  then have "(ra_slots c' ! i)\<lparr>fs_last_used := stamp\<rparr> =
      (ra_slots c' ! i)\<lparr>fs_last_used := stamp, fs_valid := fs_valid (ra_slots c ! i)\<rparr>"
    by simp
  then show ?thesis
    using stamped_slot_ok[OF assms, of "fs_valid (ra_slots c ! i)"] assms(1,3) by (simp add: slots_ok_def)
qed

subsection \<open>Reserving and publishing\<close>

text \<open>The slot the loop reserves: a free one, else the least recently used.\<close>

lemma reserve_loop_range:
  "(\<exists>x \<in> set slots. \<not> fs_valid x \<or> fs_epoch x \<noteq> epoch \<or> fs_last_used x < oldest) \<Longrightarrow>
   index \<le> reserve_loop slots epoch index oldest victim
   \<and> reserve_loop slots epoch index oldest victim < index + length slots"
  "\<not> (\<exists>x \<in> set slots. \<not> fs_valid x \<or> fs_epoch x \<noteq> epoch \<or> fs_last_used x < oldest) \<Longrightarrow>
   reserve_loop slots epoch index oldest victim = victim"
proof (induction slots arbitrary: index oldest victim)
  case (Cons x xs)
  {
    case 1
    show ?case
    proof (cases "fs_valid x \<and> fs_epoch x = epoch \<and> fs_last_used x < oldest")
      case True
      then show ?thesis
        using Cons.IH(1)[of "fs_last_used x" "index + 1" index] Cons.IH(2)[of "fs_last_used x" "index + 1" index]
        by (cases "\<exists>y \<in> set xs. \<not> fs_valid y \<or> fs_epoch y \<noteq> epoch \<or> fs_last_used y < fs_last_used x") auto
    next
      case False
      show ?thesis
      proof (cases "\<not> fs_valid x \<or> fs_epoch x \<noteq> epoch")
        case live: False
        then have "\<exists>y \<in> set xs. \<not> fs_valid y \<or> fs_epoch y \<noteq> epoch \<or> fs_last_used y < oldest"
          using 1 False by auto
        from Cons.IH(1)[OF this, of "index + 1" victim] show ?thesis using live False by simp
      qed simp
    qed
  next
    case 2
    then show ?case using Cons.IH(2)[of oldest "index + 1" victim] by auto
  }
qed simp_all

lemma reserve_loop_lru:
  assumes "\<forall>x \<in> set seen. fs_valid x \<and> fs_epoch x = epoch \<and> oldest \<le> fs_last_used x"
    and "victim < length seen \<Longrightarrow> fs_last_used (seen ! victim) = oldest"
    and "victim < length seen \<or> length (seen @ slots) \<le> victim"
    and "reserve_loop slots epoch (length seen) oldest victim = r" and "r < length (seen @ slots)"
  shows "\<not> fs_valid ((seen @ slots) ! r) \<or> fs_epoch ((seen @ slots) ! r) \<noteq> epoch
    \<or> (\<forall>x \<in> set (seen @ slots). fs_last_used ((seen @ slots) ! r) \<le> fs_last_used x)"
  using assms
proof (induction slots arbitrary: seen oldest victim)
  case Nil
  then show ?case by (cases "victim < length seen") auto
next
  case (Cons x xs)
  show ?case
  proof (cases "\<not> fs_valid x \<or> fs_epoch x \<noteq> epoch")
    case True
    then show ?thesis using Cons.prems(4) by (auto simp: nth_append)
  next
    case False
    show ?thesis
    proof (cases "fs_last_used x < oldest")
      case True
      then show ?thesis
        using Cons.IH[of "seen @ [x]" "fs_last_used x" "length seen"] Cons.prems False by (fastforce simp: nth_append)
    next
      case older: False
      have "\<forall>y \<in> set (seen @ [x]). fs_valid y \<and> fs_epoch y = epoch \<and> oldest \<le> fs_last_used y"
        using Cons.prems(1) False older by auto
      moreover have "victim < length (seen @ [x]) \<Longrightarrow> fs_last_used ((seen @ [x]) ! victim) = oldest"
        using Cons.prems(2,3) by (auto simp: nth_append)
      moreover have "victim < length (seen @ [x]) \<or> length ((seen @ [x]) @ xs) \<le> victim" using Cons.prems(3) by auto
      moreover have "reserve_loop xs epoch (length (seen @ [x])) oldest victim = r" using Cons.prems(4) False older by simp
      moreover have "r < length ((seen @ [x]) @ xs)" using Cons.prems(5) by simp
      ultimately show ?thesis using Cons.IH[of "seen @ [x]" oldest victim] by simp
    qed
  qed
qed

lemma reserve_in_range:
  assumes "slots_ok sectors f c" and "reserve_cache_slot c epoch = (i, c')"
  shows "i < length (ra_slots c) \<and> c' = c\<lparr>ra_slots := (ra_slots c)[i := (ra_slots c ! i)\<lparr>fs_valid := False\<rparr>]\<rparr>"
proof -
  have two: "0 < length (ra_slots c)" "1 < length (ra_slots c)" and st: "stamps_ok (ra_use_counter c) (ra_slots c)"
    using assms(1) by (auto simp: slots_ok_def)
  have le: "fs_last_used (ra_slots c ! j) \<le> UINT64_MAX" if "j < length (ra_slots c)" for j
    using st that unfolding stamps_ok_def by (meson order_trans)
  have "fs_last_used (ra_slots c ! 0) \<noteq> UINT64_MAX \<or> fs_last_used (ra_slots c ! 1) \<noteq> UINT64_MAX"
    using st two unfolding stamps_ok_def by (metis zero_neq_one)
  then have "\<exists>x \<in> set (ra_slots c). fs_last_used x < UINT64_MAX"
    using two le by (metis nth_mem le_neq_implies_less)
  then show ?thesis
    using reserve_loop_range(1)[of "ra_slots c" epoch UINT64_MAX 0 SIZE_MAX] assms(2)
    by (auto simp: reserve_cache_slot_def Let_def)
qed

lemma invalid_slot_ok:
  "slots_ok sectors f c \<Longrightarrow> slots_ok sectors f (c\<lparr>ra_slots := (ra_slots c)[i := (ra_slots c ! i)\<lparr>fs_valid := False\<rparr>]\<rparr>)"
  by (auto simp: slots_ok_def stamps_ok_def slot_holds_def cache_bytes_at_def slot_data_def nth_update)

lemma publish_ok:
  assumes "slots_ok sectors f c" and "i < length (ra_slots c)" and "\<not> fs_valid (ra_slots c ! i)"
    and "slot_holds sectors f c i lba blocks"
  shows "slots_ok sectors f (publish_cache_slot c i epoch extent lba blocks)"
proof (cases "epoch \<noteq> ra_cache_epoch c \<or> \<not> session_is_readable c")
  case True
  then show ?thesis using assms(1) by (simp add: publish_cache_slot_def)
next
  case False
  let ?slot = "(ra_slots c ! i)\<lparr>fs_start_sector := lba, fs_blocks := blocks, fs_extent_index := extent, fs_epoch := epoch\<rparr>"
  let ?c1 = "c\<lparr>ra_slots := (ra_slots c)[i := ?slot]\<rparr>"
  have c1: "slots_ok sectors f ?c1"
    using assms(1,3) by (auto simp: slots_ok_def stamps_ok_def slot_holds_def cache_bytes_at_def slot_data_def nth_update)
  obtain stamp c2 where c2: "next_use_stamp ?c1 = (stamp, c2)" by fastforce
  have "slot_holds sectors f ?c1 i (fs_start_sector (ra_slots ?c1 ! i)) (fs_blocks (ra_slots ?c1 ! i))"
    using assms(2,4) by (simp add: slot_holds_def cache_bytes_at_def slot_data_def)
  from stamped_slot_ok[OF c1 c2 _ this, of True] assms(2) False c2
  show ?thesis by (simp add: publish_cache_slot_def Let_def)
qed

lemma publish_frame:
  "ra_inner (publish_cache_slot c i epoch extent lba blocks) = ra_inner c
   \<and> ra_extents (publish_cache_slot c i epoch extent lba blocks) = ra_extents c
   \<and> ra_touched_extents (publish_cache_slot c i epoch extent lba blocks) = ra_touched_extents c
   \<and> ra_calls (publish_cache_slot c i epoch extent lba blocks) = ra_calls c
   \<and> readahead_cancelled (publish_cache_slot c i epoch extent lba blocks) = readahead_cancelled c"
  using next_use_stamp_frame
  by (auto simp: publish_cache_slot_def Let_def readahead_cancelled_def split: prod.splits) fastforce+

section \<open>The contract\<close>

definition readahead_valid ::
  "'s source_ops \<Rightarrow> ('s \<Rightarrow> bool) \<Rightarrow> ('s \<Rightarrow> nat \<Rightarrow> byte) \<Rightarrow> 's file_readahead_context \<Rightarrow> bool" where
  "readahead_valid ops valid contents c \<longleftrightarrow>
     (case ra_inner c of None \<Rightarrow> False
      | Some s \<Rightarrow> valid s \<and> slots_ok (op_sector_count ops s) (contents s) c \<and> extents_ok (op_sector_count ops s) c)"

definition readahead_contents :: "('s \<Rightarrow> nat \<Rightarrow> byte) \<Rightarrow> 's file_readahead_context \<Rightarrow> nat \<Rightarrow> byte" where
  "readahead_contents contents c = (case ra_inner c of None \<Rightarrow> (\<lambda>_. 0) | Some s \<Rightarrow> contents s)"

text \<open>No other thread is about to end the session.\<close>

definition readahead_ready :: "('s \<Rightarrow> bool) \<Rightarrow> 's file_readahead_context \<Rightarrow> bool" where
  "readahead_ready ready c \<longleftrightarrow>
     \<not> readahead_cancelled c \<and> ra_calls c = [] \<and> (case ra_inner c of None \<Rightarrow> False | Some s \<Rightarrow> ready s)"

abbreviation readahead_kept ::
  "'s source_ops \<Rightarrow> ('s \<Rightarrow> bool) \<Rightarrow> ('s \<Rightarrow> nat \<Rightarrow> byte) \<Rightarrow> 's file_readahead_context \<Rightarrow> 's file_readahead_context \<Rightarrow> bool" where
  "readahead_kept ops valid contents \<equiv>
     view_kept (readahead_ops ops) (readahead_valid ops valid contents) (readahead_contents contents)"

lemma readahead_inner:
  assumes "readahead_valid ops valid contents c"
  obtains s where "ra_inner c = Some s" "valid s" "slots_ok (op_sector_count ops s) (contents s) c"
    "extents_ok (op_sector_count ops s) c" "readahead_contents contents c = contents s"
    "readahead_sector_count ops c = op_sector_count ops s"
  using assms that
  by (auto simp: readahead_valid_def readahead_contents_def readahead_sector_count_def split: option.splits)

lemma readahead_put:
  assumes "readahead_valid ops valid contents c" and "ra_inner c = Some s" and "view_kept ops valid contents s s'"
    and "ra_inner c' = Some s'" and "same_store c c'"
  shows "readahead_kept ops valid contents c c'"
  using assms
  by (auto simp: view_kept_def readahead_valid_def readahead_contents_def readahead_sector_count_def same_store_ok)

lemma readahead_store:
  assumes "readahead_valid ops valid contents c" and "ra_inner c = Some s" and "ra_inner c' = Some s"
    and "slots_ok (op_sector_count ops s) (contents s) c'" and "extents_ok (op_sector_count ops s) c'"
  shows "readahead_kept ops valid contents c c'"
  using assms by (auto simp: view_kept_def readahead_valid_def readahead_contents_def readahead_sector_count_def)

lemma invalidate_frame [simp]:
  "ra_inner (invalidate_cache c) = ra_inner c" "same_store c (invalidate_cache c)" "ra_calls (invalidate_cache c) = ra_calls c"
  "readahead_cancelled (invalidate_cache c) = readahead_cancelled c"
  by (simp_all add: invalidate_cache_def same_store_def readahead_cancelled_def)

lemma observation_frame [simp]:
  "ra_inner (apply_media_observation c ob) = ra_inner c" "same_store c (apply_media_observation c ob)"
  "ra_calls (apply_media_observation c ob) = ra_calls c"
  by (simp_all add: apply_media_observation_def Let_def same_store_def invalidate_cache_def)

lemma put_readahead_store: "same_store (put_readahead h c) d \<Longrightarrow> same_store c d"
  by (simp add: same_store_def)

context sector_source
begin

lemma readahead_observe_kept:
  assumes "readahead_valid ops valid contents c" and "readahead_observe_media ops c = (ob, c')"
  shows "readahead_kept ops valid contents c c' \<and> same_store c c'"
proof -
  obtain s where s: "ra_inner c = Some s" "valid s" using assms(1) by (rule readahead_inner)
  obtain b ob' h where o: "gdox_source_observe_media ops (Some s) = (b, ob', h)" by (metis prod.exhaust)
  obtain s' where s': "h = Some s'" "view_kept ops valid contents s s'" "b"
    using source_observe_view[OF s(2) o] by blast
  have c': "c' = apply_media_observation (put_readahead (Some s') c) ob'"
    using assms(2) s(1) o s' by (auto simp: readahead_observe_media_def Let_def)
  then have "same_store c c'" using put_readahead_store[OF observation_frame(2)] by simp
  then show ?thesis using readahead_put[OF assms(1) s(1) s'(2)] c' by simp
qed

lemma readahead_media_kept:
  assumes "readahead_valid ops valid contents c" and "readahead_media_present ops c = (b, c')"
  shows "readahead_kept ops valid contents c c'"
  using readahead_observe_kept[OF assms(1)] assms(2)
  by (auto simp: readahead_media_present_def readahead_observe_media_def Let_def split: prod.splits if_splits)

lemma media_was_removed_kept:
  assumes "readahead_valid ops valid contents c" and "media_was_removed ops c = (b, c')"
  shows "readahead_kept ops valid contents c c'"
  using readahead_observe_kept[OF assms(1)] assms(2)
  by (auto simp: media_was_removed_def readahead_observe_media_def Let_def split: prod.splits if_splits)

lemma readahead_abort_kept:
  assumes "readahead_valid ops valid contents c"
  shows "readahead_kept ops valid contents c (readahead_abort ops c) \<and> same_store c (readahead_abort ops c)"
proof -
  obtain s where s: "ra_inner c = Some s" "valid s" using assms by (rule readahead_inner)
  obtain s' where s': "gdox_source_abort ops (Some s) = Some s'" "view_kept ops valid contents s s'"
    using source_abort_view[OF s(2)] by blast
  have "ra_inner (readahead_abort ops c) = Some s'" "same_store c (readahead_abort ops c)"
    using s(1) s'(1) by (simp_all add: readahead_abort_def Let_def invalidate_cache_def same_store_def)
  then show ?thesis using readahead_put[OF assms s(1) s'(2)] by simp
qed

lemma readahead_prepare_kept:
  assumes "readahead_valid ops valid contents c" and "readahead_prepare_close ops c = (r, c')"
  shows "readahead_kept ops valid contents c c' \<and> same_store c c'"
proof -
  obtain s where s: "ra_inner c = Some s" "valid s" using assms(1) by (rule readahead_inner)
  obtain q h where q: "gdox_source_prepare_close ops (Some s) = (q, h)" by fastforce
  obtain s' where s': "h = Some s'" "view_kept ops valid contents s s'" using source_prepare_view[OF s(2) q] by blast
  have "ra_inner c' = Some s'" "same_store c c'"
    using assms(2) s(1) q s'(1)
    by (auto simp: readahead_prepare_close_def invalidate_cache_def same_store_def split: sum.splits)
  then show ?thesis using readahead_put[OF assms(1) s(1) s'(2)] by simp
qed

lemma perform_calls_kept:
  assumes "readahead_valid ops valid contents c"
  shows "readahead_kept ops valid contents c (fold (perform_call ops) calls c)
    \<and> same_store c (fold (perform_call ops) calls c)"
  using assms
proof (induction calls arbitrary: c)
  case Nil
  then show ?case by (simp add: view_kept_def)
next
  case (Cons k calls)
  have step: "readahead_kept ops valid contents c (perform_call ops k c) \<and> same_store c (perform_call ops k c)"
    using readahead_abort_kept[OF Cons.prems] readahead_observe_kept[OF Cons.prems] readahead_prepare_kept[OF Cons.prems]
    by (cases k) (metis perform_call.simps prod.collapse)+
  then have "readahead_valid ops valid contents (perform_call ops k c)" by (simp add: view_kept_def)
  from Cons.IH[OF this] step show ?case using view_kept_trans same_store_trans by (metis fold_simps(2))
qed

lemma inner_read_view:
  assumes "readahead_valid ops valid contents c" and "inner_read ops c lba blocks n = (r, c')"
  shows "readahead_kept ops valid contents c c' \<and> same_store c c'
    \<and> (\<forall>bs. r = Inr bs \<longrightarrow> bs = span (readahead_contents contents c) (lba * GDOX_LOGICAL_SECTOR_BYTES)
         (blocks * GDOX_LOGICAL_SECTOR_BYTES) \<and> n = blocks * GDOX_LOGICAL_SECTOR_BYTES
         \<and> lba + blocks \<le> readahead_sector_count ops c)"
proof -
  obtain s where s: "ra_inner c = Some s" "valid s" "readahead_contents contents c = contents s"
      "readahead_sector_count ops c = op_sector_count ops s"
    using assms(1) by (rule readahead_inner)
  obtain q h where q: "gdox_source_read ops (Some s) lba blocks n = (q, h)" by fastforce
  obtain s' where s': "h = Some s'" "view_kept ops valid contents s s'"
    and bs: "\<And>bs. q = Inr bs \<Longrightarrow> bs = span (contents s) (lba * GDOX_LOGICAL_SECTOR_BYTES) (blocks * GDOX_LOGICAL_SECTOR_BYTES)
         \<and> n = blocks * GDOX_LOGICAL_SECTOR_BYTES \<and> lba + blocks \<le> op_sector_count ops s"
    using source_read_view[OF s(2) q] by blast
  show ?thesis
  proof (cases "ra_calls c")
    case Nil
    then have "r = q" "c' = put_readahead h c" using assms(2) s(1) q by (simp_all add: inner_read_def)
    then show ?thesis
      using readahead_put[OF assms(1) s(1) s'(2), of c'] s' bs s(3,4) by (auto simp: same_store_def)
  next
    case (Cons calls later)
    let ?d = "put_readahead h c\<lparr>ra_calls := later\<rparr>"
    have r: "r = q" "c' = fold (perform_call ops) calls ?d" using assms(2) s(1) q Cons by (simp_all add: inner_read_def)
    have d: "same_store c ?d" by (simp add: same_store_def)
    then have k: "readahead_kept ops valid contents c ?d"
      using readahead_put[OF assms(1) s(1) s'(2), of ?d] s'(1) by simp
    then have "readahead_valid ops valid contents ?d" by (simp add: view_kept_def)
    note pc = perform_calls_kept[OF this, of calls]
    have "readahead_kept ops valid contents c c'" "same_store c c'"
      using pc view_kept_trans[OF k] same_store_trans[OF d] by (simp_all add: r(2))
    then show ?thesis using bs r(1) s(3,4) by simp
  qed
qed

end

section \<open>The read\<close>

text \<open>The parts of the context that decide whether reads succeed.\<close>

definition same_session :: "'s file_readahead_context \<Rightarrow> 's file_readahead_context \<Rightarrow> bool" where
  "same_session c c' \<longleftrightarrow> ra_inner c' = ra_inner c \<and> ra_calls c' = ra_calls c \<and> readahead_cancelled c' = readahead_cancelled c"

lemma same_session_refl [simp]: "same_session c c"
  by (simp add: same_session_def)

lemma same_session_trans: "same_session a b \<Longrightarrow> same_session b c \<Longrightarrow> same_session a c"
  by (simp add: same_session_def)

lemma same_session_ready: "same_session c c' \<Longrightarrow> readahead_ready ready c' = readahead_ready ready c"
  by (simp add: same_session_def readahead_ready_def)

lemma mark_kept:
  assumes "readahead_valid ops valid contents c" and "mark_extent_touched c i = (b, c')"
  shows "readahead_kept ops valid contents c c' \<and> same_session c c'"
proof -
  obtain s where s: "ra_inner c = Some s" "slots_ok (op_sector_count ops s) (contents s) c" "extents_ok (op_sector_count ops s) c"
    using assms(1) by (rule readahead_inner)
  have "slots_ok (op_sector_count ops s) (contents s) c'" "extents_ok (op_sector_count ops s) c'" "ra_inner c' = Some s"
    using s assms(2)
    by (auto simp: mark_extent_touched_def Let_def slots_ok_def extents_ok_def slot_holds_def cache_bytes_at_def slot_data_def)
  moreover have "same_session c c'"
    using assms(2) by (auto simp: mark_extent_touched_def Let_def same_session_def readahead_cancelled_def)
  ultimately show ?thesis using readahead_store[OF assms(1) s(1)] by simp
qed

lemma find_cached_request_Some:
  assumes "find_cached_request c epoch lba blocks = Some i"
  shows "i < length (ra_slots c) \<and> fs_valid (ra_slots c ! i) \<and> fs_epoch (ra_slots c ! i) = epoch
    \<and> fs_start_sector (ra_slots c ! i) \<le> lba
    \<and> u64_add lba blocks \<le> u64_add (fs_start_sector (ra_slots c ! i)) (fs_blocks (ra_slots c ! i))"
  using find_mem[OF assms[unfolded find_cached_request_def Let_def]] by simp

lemma copy_cached_view:
  assumes "readahead_valid ops valid contents c" and "readahead_sector_count ops c < two64"
    and "lba + blocks \<le> readahead_sector_count ops c" and "copy_cached_request c lba blocks = (q, c')"
  shows "readahead_kept ops valid contents c c' \<and> same_session c c'
    \<and> (\<forall>bs. q = Inr (Some bs) \<longrightarrow> bs = span (readahead_contents contents c) (lba * GDOX_LOGICAL_SECTOR_BYTES)
         (blocks * GDOX_LOGICAL_SECTOR_BYTES))
    \<and> (\<not> readahead_cancelled c \<longrightarrow> (\<exists>o1. q = Inr o1)) \<and> ((\<exists>bs. q = Inr (Some bs)) \<longrightarrow> \<not> readahead_cancelled c)"
proof (cases "find_cached_request c (ra_cache_epoch c) lba blocks")
  case None
  then have "q = Inr None" "c' = c" using assms(4) by (auto simp: copy_cached_request_def Let_def)
  then show ?thesis using assms(1) by (simp add: view_kept_refl)
next
  case (Some i)
  obtain s where s: "ra_inner c = Some s" "slots_ok (op_sector_count ops s) (contents s) c" "extents_ok (op_sector_count ops s) c"
      "readahead_contents contents c = contents s" "readahead_sector_count ops c = op_sector_count ops s"
    using assms(1) by (rule readahead_inner)
  let ?slot = "ra_slots c ! i"
  have i: "i < length (ra_slots c)" "fs_valid ?slot" and i2: "fs_start_sector ?slot \<le> lba"
    "u64_add lba blocks \<le> u64_add (fs_start_sector ?slot) (fs_blocks ?slot)"
    using find_cached_request_Some[OF Some] by simp_all
  then have hold: "slot_holds (op_sector_count ops s) (contents s) c i (fs_start_sector ?slot) (fs_blocks ?slot)"
    using s(2) by (simp add: slots_ok_def)
  then have inside: "lba + blocks \<le> fs_start_sector ?slot + fs_blocks ?slot"
    using i2 assms(2,3) s(5) by (simp add: slot_holds_def)
  let ?k = "lba - fs_start_sector ?slot"
  have bytes: "cache_bytes_at c (slot_data c i + ?k * GDOX_LOGICAL_SECTOR_BYTES) (blocks * GDOX_LOGICAL_SECTOR_BYTES) =
      span (contents s) (lba * GDOX_LOGICAL_SECTOR_BYTES) (blocks * GDOX_LOGICAL_SECTOR_BYTES)"
  proof -
    have len: "?k * GDOX_LOGICAL_SECTOR_BYTES + blocks * GDOX_LOGICAL_SECTOR_BYTES \<le> fs_blocks ?slot * GDOX_LOGICAL_SECTOR_BYTES"
      using inside i2(1) by (simp add: add_mult_distrib[symmetric])
    have "cache_bytes_at c (slot_data c i + ?k * GDOX_LOGICAL_SECTOR_BYTES) (blocks * GDOX_LOGICAL_SECTOR_BYTES) =
        take (blocks * GDOX_LOGICAL_SECTOR_BYTES) (drop (?k * GDOX_LOGICAL_SECTOR_BYTES)
          (cache_bytes_at c (slot_data c i) (fs_blocks ?slot * GDOX_LOGICAL_SECTOR_BYTES)))"
      using len by (simp add: cache_bytes_at_def drop_take add.commute min_def)
    also have "\<dots> = span (contents s) (fs_start_sector ?slot * GDOX_LOGICAL_SECTOR_BYTES + ?k * GDOX_LOGICAL_SECTOR_BYTES)
        (blocks * GDOX_LOGICAL_SECTOR_BYTES)"
      using hold len by (auto simp: slot_holds_def take_span drop_span min_def)
    also have "fs_start_sector ?slot * GDOX_LOGICAL_SECTOR_BYTES + ?k * GDOX_LOGICAL_SECTOR_BYTES = lba * GDOX_LOGICAL_SECTOR_BYTES"
      using i2(1) by (simp add: add_mult_distrib[symmetric])
    finally show ?thesis .
  qed
  obtain stamp d where d: "next_use_stamp c = (stamp, d)" by fastforce
  note fr = next_use_stamp_frame[OF d]
  let ?e = "d\<lparr>ra_slots := (ra_slots d)[i := (ra_slots d ! i)\<lparr>fs_last_used := stamp\<rparr>]\<rparr>"
  have "extents_ok (op_sector_count ops s) ?e" using s(3) fr by (simp add: extents_ok_def)
  then have kept: "readahead_kept ops valid contents c ?e"
    using readahead_store[OF assms(1) s(1)] touched_slot_ok[OF s(2) d i(1)] fr s(1) by simp
  have can: "readahead_cancelled ?e = readahead_cancelled c" using fr by (simp add: readahead_cancelled_def)
  then have sess: "same_session c ?e" using fr by (simp add: same_session_def)
  have "q = (if readahead_cancelled c then Inl session_cancelled else Inr (Some (span (contents s)
        (lba * GDOX_LOGICAL_SECTOR_BYTES) (blocks * GDOX_LOGICAL_SECTOR_BYTES))))" "c' = ?e"
    using assms(4) Some d bytes can fr by (auto simp: copy_cached_request_def Let_def split: if_splits)
  then show ?thesis using kept sess s(4) by auto
qed

lemma write_publish_kept:
  assumes "readahead_valid ops valid contents c" and "i < length (ra_slots c)" and "\<not> fs_valid (ra_slots c ! i)"
    and "lba + blocks \<le> readahead_sector_count ops c" and "blocks \<le> ra_max_window_blocks c"
    and "bs = span (readahead_contents contents c) (lba * GDOX_LOGICAL_SECTOR_BYTES) (blocks * GDOX_LOGICAL_SECTOR_BYTES)"
  shows "readahead_kept ops valid contents c (write_cache c (slot_data c i) bs)"
    and "readahead_kept ops valid contents c
      (publish_cache_slot (write_cache c (slot_data c i) bs) i epoch extent lba blocks)"
    and "n \<le> length bs \<Longrightarrow> cache_bytes_at (write_cache c (slot_data c i) bs) (slot_data c i) n = take n bs"
proof -
  obtain s where s: "ra_inner c = Some s" "slots_ok (op_sector_count ops s) (contents s) c" "extents_ok (op_sector_count ops s) c"
      "readahead_contents contents c = contents s" "readahead_sector_count ops c = op_sector_count ops s"
    using assms(1) by (rule readahead_inner)
  have len: "length bs \<le> ra_slot_bytes c" using assms(5,6) s(2) by (simp add: slots_ok_def)
  note w = write_slot_ok[OF s(2) assms(2,3) len]
  show "readahead_kept ops valid contents c (write_cache c (slot_data c i) bs)"
    using readahead_store[OF assms(1) s(1)] w(1) s(1,3) by simp
  show "n \<le> length bs \<Longrightarrow> cache_bytes_at (write_cache c (slot_data c i) bs) (slot_data c i) n = take n bs" by (rule w(2))
  have "slot_holds (op_sector_count ops s) (contents s) (write_cache c (slot_data c i) bs) i lba blocks"
    using w(2)[of "blocks * GDOX_LOGICAL_SECTOR_BYTES"] assms(4-6) s(4,5) by (simp add: slot_holds_def)
  from publish_ok[OF w(1) _ _ this, of epoch extent] assms(2,3)
  have "slots_ok (op_sector_count ops s) (contents s) (publish_cache_slot (write_cache c (slot_data c i) bs) i epoch extent lba blocks)"
    by simp
  moreover have "extents_ok (op_sector_count ops s) (publish_cache_slot (write_cache c (slot_data c i) bs) i epoch extent lba blocks)"
    using s(3) publish_frame[of "write_cache c (slot_data c i) bs"] by (simp add: extents_ok_def)
  ultimately show "readahead_kept ops valid contents c
      (publish_cache_slot (write_cache c (slot_data c i) bs) i epoch extent lba blocks)"
    using readahead_store[OF assms(1) s(1)] s(1) publish_frame[of "write_cache c (slot_data c i) bs"] by simp
qed

lemma publish_session: "same_session c (publish_cache_slot c i epoch extent lba blocks)"
  using publish_frame[of c] by (simp add: same_session_def)

lemma write_session: "same_session c (write_cache c a bs)"
  by (simp add: same_session_def write_cache_def readahead_cancelled_def)

lemma reserve_kept:
  assumes "readahead_valid ops valid contents c" and "reserve_cache_slot c epoch = (i, c')"
  shows "readahead_kept ops valid contents c c' \<and> same_session c c' \<and> i < length (ra_slots c')
    \<and> \<not> fs_valid (ra_slots c' ! i) \<and> ra_max_window_blocks c' = ra_max_window_blocks c"
proof -
  obtain s where s: "ra_inner c = Some s" "slots_ok (op_sector_count ops s) (contents s) c" "extents_ok (op_sector_count ops s) c"
    using assms(1) by (rule readahead_inner)
  have i: "i < length (ra_slots c)" and c': "c' = c\<lparr>ra_slots := (ra_slots c)[i := (ra_slots c ! i)\<lparr>fs_valid := False\<rparr>]\<rparr>"
    using reserve_in_range[OF s(2) assms(2)] by simp_all
  have "extents_ok (op_sector_count ops s) c'" using s(3) by (simp add: c' extents_ok_def)
  then have "readahead_kept ops valid contents c c'"
    using readahead_store[OF assms(1) s(1)] invalid_slot_ok[OF s(2), of i] s(1) by (simp add: c')
  then show ?thesis using i by (simp add: c' same_session_def readahead_cancelled_def)
qed

lemma retain_kept:
  assumes "readahead_valid ops valid contents c" and "lba + blocks \<le> readahead_sector_count ops c"
    and "bs = span (readahead_contents contents c) (lba * GDOX_LOGICAL_SECTOR_BYTES) (blocks * GDOX_LOGICAL_SECTOR_BYTES)"
  shows "readahead_kept ops valid contents c (retain_exact_read c epoch extent lba blocks bs)
    \<and> same_session c (retain_exact_read c epoch extent lba blocks bs)"
proof (cases "blocks > ra_max_window_blocks c \<or> epoch \<noteq> ra_cache_epoch c \<or> \<not> session_is_readable c")
  case True
  then show ?thesis using assms(1) by (simp add: retain_exact_read_def view_kept_refl)
next
  case False
  obtain i d where d: "reserve_cache_slot c epoch = (i, d)" by fastforce
  note r = reserve_kept[OF assms(1) d]
  then have v: "readahead_valid ops valid contents d" "readahead_sector_count ops d = readahead_sector_count ops c"
    "readahead_contents contents d = readahead_contents contents c"
    by (simp_all add: view_kept_def)
  let ?e = "publish_cache_slot (write_cache d (slot_data d i) bs) i epoch extent lba blocks"
  have "readahead_kept ops valid contents d ?e"
    using write_publish_kept(2)[OF v(1), of i lba blocks bs epoch extent] r assms(2,3) False v(2,3) by simp
  then have "readahead_kept ops valid contents c ?e" using view_kept_trans[OF conjunct1[OF r]] by simp
  moreover have "same_session c ?e"
    using r same_session_trans[OF _ same_session_trans[OF write_session publish_session]] by blast
  moreover have "retain_exact_read c epoch extent lba blocks bs = ?e"
    using False d assms(3) by (simp add: retain_exact_read_def)
  ultimately show ?thesis by simp
qed

text \<open>
  What a read step owes: it keeps the view, a success delivers the span, and in a ready session it succeeds
  and leaves the session ready.
\<close>

definition read_step ::
  "'s source_ops \<Rightarrow> ('s \<Rightarrow> bool) \<Rightarrow> ('s \<Rightarrow> nat \<Rightarrow> byte) \<Rightarrow> ('s \<Rightarrow> bool) \<Rightarrow> 's file_readahead_context \<Rightarrow> u64 \<Rightarrow> u32
     \<Rightarrow> byte list res \<times> 's file_readahead_context \<Rightarrow> bool" where
  "read_step ops valid contents ready c lba blocks p \<longleftrightarrow>
     readahead_kept ops valid contents c (snd p)
     \<and> (\<forall>bs. fst p = Inr bs \<longrightarrow> bs = span (readahead_contents contents c) (lba * GDOX_LOGICAL_SECTOR_BYTES)
          (blocks * GDOX_LOGICAL_SECTOR_BYTES))
     \<and> (readahead_ready ready c \<longrightarrow> (\<exists>bs. fst p = Inr bs) \<and> readahead_ready ready (snd p))"

lemma read_step_after:
  assumes "readahead_kept ops valid contents c d" and "same_session c d" and "read_step ops valid contents ready d lba blocks p"
  shows "read_step ops valid contents ready c lba blocks p"
proof -
  have "readahead_contents contents d = readahead_contents contents c" using assms(1) by (simp add: view_kept_def)
  then show ?thesis
    using assms(3) view_kept_trans[OF assms(1)] same_session_ready[OF assms(2), of ready] unfolding read_step_def by auto
qed

context reliable_source
begin

lemma inner_read_ready:
  assumes "readahead_valid ops valid contents c" and "readahead_ready ready c" and "0 < blocks" and "blocks * GDOX_LOGICAL_SECTOR_BYTES \<le> SIZE_MAX"
    and "lba + blocks \<le> readahead_sector_count ops c"
  shows "\<exists>bs c'. inner_read ops c lba blocks (blocks * GDOX_LOGICAL_SECTOR_BYTES) = (Inr bs, c') \<and> readahead_ready ready c'"
proof -
  obtain s where s: "ra_inner c = Some s" "valid s" "readahead_sector_count ops c = op_sector_count ops s"
    using assms(1) by (rule readahead_inner)
  have "ready s" "ra_calls c = []" "\<not> readahead_cancelled c" using assms(2) s(1) by (simp_all add: readahead_ready_def)
  then show ?thesis
    using source_read_ready_max[OF s(2) _ assms(3) _ assms(4), of lba] assms(5) s(1,3)
    by (auto simp: inner_read_def readahead_ready_def readahead_cancelled_def)
qed

lemma exact_read_step:
  assumes "readahead_valid ops valid contents c" and "0 < blocks" and "blocks * GDOX_LOGICAL_SECTOR_BYTES \<le> SIZE_MAX"
    and "lba + blocks \<le> readahead_sector_count ops c" and "n = blocks * GDOX_LOGICAL_SECTOR_BYTES"
  shows "read_step ops valid contents ready c lba blocks (exact_read ops c lba blocks n cacheable extent)"
proof -
  obtain r d where d: "inner_read ops c lba blocks n = (r, d)" by fastforce
  note v = inner_read_view[OF assms(1) d]
  have vd: "readahead_valid ops valid contents d" "readahead_contents contents d = readahead_contents contents c"
      "readahead_sector_count ops d = readahead_sector_count ops c"
    using v by (simp_all add: view_kept_def)
  have rdy: "(\<exists>bs. r = Inr bs) \<and> readahead_ready ready d" if "readahead_ready ready c"
    using inner_read_ready[OF assms(1) that assms(2,3,4)] d assms(5) by auto
  show ?thesis
  proof (cases r)
    case (Inl e)
    then show ?thesis using d v rdy by (auto simp: exact_read_def read_step_def)
  next
    case (Inr bs)
    have bs: "bs = span (readahead_contents contents d) (lba * GDOX_LOGICAL_SECTOR_BYTES) (blocks * GDOX_LOGICAL_SECTOR_BYTES)"
      using v Inr vd(2) by simp
    have "lba + blocks \<le> readahead_sector_count ops d" using assms(4) vd(3) by simp
    note rk = retain_kept[OF vd(1) this bs, of "ra_cache_epoch c" extent]
    show ?thesis
    proof (cases "readahead_cancelled d")
      case True
      then have "exact_read ops c lba blocks n cacheable extent = (Inl session_cancelled, d)"
        using d Inr by (simp add: exact_read_def)
      then show ?thesis using v True rdy by (auto simp: read_step_def readahead_ready_def)
    next
      case False
      let ?e = "if cacheable then retain_exact_read d (ra_cache_epoch c) extent lba blocks bs else d"
      have ex: "exact_read ops c lba blocks n cacheable extent = (Inr bs, ?e)" using d Inr False by (simp add: exact_read_def)
      have e: "readahead_kept ops valid contents d ?e" "same_session d ?e"
        using rk view_kept_refl[where valid = "readahead_valid ops valid contents", of d] vd(1) by simp_all
      show ?thesis
        using view_kept_trans[OF conjunct1[OF v] e(1)] same_session_ready[OF e(2), of ready] rdy bs vd(2)
        unfolding ex read_step_def by simp
    qed
  qed
qed

lemma speculative_read_step:
  assumes "readahead_valid ops valid contents c" and "0 < blocks" and "blocks < window" and "window * GDOX_LOGICAL_SECTOR_BYTES \<le> SIZE_MAX"
    and "lba + window \<le> readahead_sector_count ops c" and "window \<le> ra_max_window_blocks c"
    and "n = blocks * GDOX_LOGICAL_SECTOR_BYTES"
  shows "read_step ops valid contents ready c lba blocks (speculative_read ops c lba blocks window extent n)"
proof -
  let ?wb = "window * GDOX_LOGICAL_SECTOR_BYTES"
  obtain i a where a: "reserve_cache_slot c (ra_cache_epoch c) = (i, a)" by fastforce
  note ra = reserve_kept[OF assms(1) a]
  have va: "readahead_valid ops valid contents a" "readahead_contents contents a = readahead_contents contents c"
      "readahead_sector_count ops a = readahead_sector_count ops c"
    using ra by (simp_all add: view_kept_def)
  obtain r d where d: "inner_read ops a lba window ?wb = (r, d)" by fastforce
  note v = inner_read_view[OF va(1) d]
  have vd: "readahead_valid ops valid contents d" "readahead_contents contents d = readahead_contents contents c"
      "readahead_sector_count ops d = readahead_sector_count ops c"
    using v va by (simp_all add: view_kept_def)
  have kd: "readahead_kept ops valid contents c d" using view_kept_trans[OF conjunct1[OF ra] conjunct1[OF v]] .
  have rdy: "(\<exists>bs. r = Inr bs) \<and> readahead_ready ready d" if "readahead_ready ready c"
  proof -
    have "readahead_ready ready a" "0 < window" "lba + window \<le> readahead_sector_count ops a"
      using same_session_ready[of c a ready] ra that assms(3,5) va(3) by simp_all
    from inner_read_ready[OF va(1) this(1,2) assms(4) this(3)] show ?thesis using d by auto
  qed
  show ?thesis
  proof (cases r)
    case (Inr bs)
    have slots: "ra_slots d = ra_slots a" "ra_max_window_blocks d = ra_max_window_blocks a"
      using v by (simp_all add: same_store_def)
    have bs: "bs = span (readahead_contents contents d) (lba * GDOX_LOGICAL_SECTOR_BYTES) ?wb"
      using v Inr va(2) vd(2) by simp
    have wp: "lba + window \<le> readahead_sector_count ops d" "window \<le> ra_max_window_blocks d"
      "i < length (ra_slots d)" "\<not> fs_valid (ra_slots d ! i)"
      using assms(5,6) vd(3) ra slots by simp_all
    note w = write_publish_kept[OF vd(1) wp(3,4,1,2) bs]
    let ?w = "write_cache d (slot_data d i) bs"
    have bytes: "cache_bytes_at ?w (slot_data d i) n =
        span (readahead_contents contents c) (lba * GDOX_LOGICAL_SECTOR_BYTES) (blocks * GDOX_LOGICAL_SECTOR_BYTES)"
      using w(3)[of n] assms(3,7) bs vd(2) by (simp add: take_span min_def)
    show ?thesis
    proof (cases "readahead_cancelled d")
      case True
      then have sp: "speculative_read ops c lba blocks window extent n = (Inl session_cancelled, ?w)"
        using a d Inr by (simp add: speculative_read_def Let_def)
      show ?thesis
        using view_kept_trans[OF kd w(1)] True rdy unfolding sp read_step_def by (auto simp: readahead_ready_def)
    next
      case False
      let ?e = "publish_cache_slot ?w i (ra_cache_epoch c) extent lba window"
      have sp: "speculative_read ops c lba blocks window extent n = (Inr (cache_bytes_at ?w (slot_data d i) n), ?e)"
        using a d Inr False by (simp add: speculative_read_def Let_def)
      have "same_session d ?e" using same_session_trans[OF write_session publish_session] .
      then show ?thesis
        using view_kept_trans[OF kd w(2)] rdy bytes same_session_ready[of d ?e ready] unfolding sp read_step_def by simp
    qed
  next
    case (Inl e)
    then have nr: "\<not> readahead_ready ready c" using rdy by auto
    show ?thesis
    proof (cases "code e = ERROR_CANCELLED")
      case True
      then have "speculative_read ops c lba blocks window extent n = (Inl e, d)"
        using a d Inl by (simp add: speculative_read_def Let_def)
      then show ?thesis using kd nr by (simp add: read_step_def)
    next
      case False
      obtain b g where g: "media_was_removed ops d = (b, g)" by fastforce
      note mk = media_was_removed_kept[OF vd(1) g]
      have kg: "readahead_kept ops valid contents c g" using view_kept_trans[OF kd mk] .
      have vg: "readahead_valid ops valid contents g" "readahead_contents contents g = readahead_contents contents c"
          "readahead_sector_count ops g = readahead_sector_count ops c"
        using kg by (simp_all add: view_kept_def)
      have sp: "speculative_read ops c lba blocks window extent n = (if b then (Inl e, g) else exact_read ops g lba blocks n True extent)"
        using a d Inl False g by (simp add: speculative_read_def Let_def)
      have ex: "read_step ops valid contents ready g lba blocks (exact_read ops g lba blocks n True extent)"
        using exact_read_step[OF vg(1) assms(2)] assms(3,4,5,7) vg(3) by simp
      show ?thesis
        using kg nr ex vg(2) view_kept_trans[OF kg] unfolding sp read_step_def by auto
    qed
  qed
qed

lemma bounded_window_step:
  assumes "readahead_valid ops valid contents c" and "0 < blocks" and "blocks * GDOX_LOGICAL_SECTOR_BYTES \<le> SIZE_MAX"
    and "lba + blocks \<le> readahead_sector_count ops c" and "lba + blocks \<le> stop" and "stop < two64"
    and "n = blocks * GDOX_LOGICAL_SECTOR_BYTES" and "readahead_sector_count ops c < two64"
  shows "read_step ops valid contents ready c lba blocks
    (bounded_window_read ops c lba blocks stop (readahead_sector_count ops c) extent n)"
proof -
  let ?src = "readahead_sector_count ops c"
  have sub: "u64_sub stop lba = stop - lba" "u64_sub ?src lba = ?src - lba" using assms(4,5,6,8) by simp_all
  define window where "window = (let available = (if stop - lba > ?src - lba then ?src - lba else stop - lba)
      in if available < ra_max_window_blocks c then available else ra_max_window_blocks c)"
  have w: "window \<le> ra_max_window_blocks c" "lba + window \<le> ?src" using assms(4,5) by (auto simp: window_def Let_def)
  have eq: "bounded_window_read ops c lba blocks stop ?src extent n =
      (if window > blocks then speculative_read ops c lba blocks window extent n else exact_read ops c lba blocks n True extent)"
    by (simp add: bounded_window_read_def Let_def window_def sub)
  have "ra_max_window_blocks c \<le> GDOX_FILE_READAHEAD_MAX_WINDOW_BLOCKS"
    using assms(1) by (auto simp: readahead_valid_def slots_ok_def split: option.splits)
  then have "window * GDOX_LOGICAL_SECTOR_BYTES \<le> SIZE_MAX"
    using w(1) by (simp add: GDOX_FILE_READAHEAD_MAX_WINDOW_BLOCKS_def SIZE_MAX_def)
  then show ?thesis
    unfolding eq
    using speculative_read_step[OF assms(1,2), of window lba n extent] exact_read_step[OF assms(1,2,3,4,7), of True extent] w assms(7)
    by auto
qed

end

context reliable_source
begin

lemma readahead_read_step:
  assumes "readahead_valid ops valid contents c" and "0 < blocks" and "blocks * GDOX_LOGICAL_SECTOR_BYTES \<le> SIZE_MAX"
    and "lba + blocks \<le> readahead_sector_count ops c" and "n = blocks * GDOX_LOGICAL_SECTOR_BYTES"
  shows "read_step ops valid contents ready c lba blocks (readahead_read ops c lba blocks n)"
    and "readahead_read ops c lba blocks n = (Inr bs, c') \<Longrightarrow> \<not> readahead_cancelled c'"
proof -
  let ?src = "readahead_sector_count ops c"
  obtain s where s: "ra_inner c = Some s" "valid s" "?src = op_sector_count ops s" using assms(1) by (rule readahead_inner)
  have cnt: "?src < two64" using count_less[OF s(2)] s(3) by simp
  have src: "gdox_source_sector_count ops (ra_inner c) = ?src" by (simp add: readahead_sector_count_def)
  define found where "found = find_containing_extent (ra_extents c) lba blocks"
  define extent where "extent = (case found of Some (i, _) \<Rightarrow> i | None \<Rightarrow> 0)"
  have stop: "lba + blocks \<le> snd (the found) \<and> snd (the found) < two64" if "found \<noteq> None"
    using that assms(4) cnt by (auto simp: found_def find_containing_extent_def Let_def file_extent_end_def split: if_splits)
  obtain q d where d: "copy_cached_request c lba blocks = (q, d)" by fastforce
  note cc = copy_cached_view[OF assms(1) cnt assms(4) d]
  have vd: "readahead_valid ops valid contents d" "readahead_contents contents d = readahead_contents contents c"
      "readahead_sector_count ops d = ?src"
    using cc by (simp_all add: view_kept_def)
  have sd: "same_session c d" using cc by simp
  define p where "p = (if found \<noteq> None then mark_extent_touched d extent else (False, d))"
  obtain first e where e: "p = (first, e)" by fastforce
  have ke: "readahead_kept ops valid contents d e \<and> same_session d e"
    using mark_kept[OF vd(1), of extent first e] e vd(1)
    by (auto simp: p_def intro: view_kept_refl split: if_splits)
  have ve: "readahead_valid ops valid contents e" "readahead_sector_count ops e = ?src"
    using ke vd(3) by (simp_all add: view_kept_def)
  define go where "go = ((first \<or> found \<noteq> None \<and> continues_cached_extent e (ra_cache_epoch e) extent lba)
      \<and> blocks < ra_max_window_blocks e)"
  define inner where "inner = (if go then bounded_window_read ops e lba blocks (snd (the found)) ?src extent n
      else exact_read ops e lba blocks n (found \<noteq> None) extent)"
  have go: "found \<noteq> None" if go using that e by (auto simp: go_def p_def split: if_splits)
  have "read_step ops valid contents ready e lba blocks inner"
    using bounded_window_step[OF ve(1) assms(2,3), of lba "snd (the found)" n extent] stop go
      exact_read_step[OF ve(1) assms(2,3), of lba n "found \<noteq> None" extent] assms(4,5) ve(2) cnt
    unfolding inner_def by auto
  then have step: "read_step ops valid contents ready c lba blocks inner"
    using read_step_after[OF view_kept_trans[OF conjunct1[OF cc] conjunct1[OF ke]] same_session_trans[OF sd conjunct2[OF ke]]]
    by blast
  have run: "readahead_read ops c lba blocks n =
      (if readahead_cancelled c then (Inl session_cancelled, c)
       else case q of Inl x \<Rightarrow> (Inl x, d)
            | Inr (Some bytes) \<Rightarrow> (if readahead_cancelled d then Inl session_cancelled else Inr bytes, d)
            | Inr None \<Rightarrow> (case inner of (Inl x, g) \<Rightarrow> (Inl x, g)
                | (Inr bytes, g) \<Rightarrow> (if readahead_cancelled g then Inl session_cancelled else Inr bytes, g)))"
    unfolding readahead_read_def Let_def src found_def[symmetric] extent_def[symmetric] inner_def go_def
    by (simp only: d e[unfolded p_def] prod.case)
  show "read_step ops valid contents ready c lba blocks (readahead_read ops c lba blocks n)"
  proof (cases "readahead_cancelled c")
    case True
    then show ?thesis
      using assms(1) by (simp add: run read_step_def readahead_ready_def view_kept_refl)
  next
    case live: False
    then have liv: "\<not> readahead_cancelled d" using sd by (simp add: same_session_def)
    show ?thesis
    proof (cases q)
      case (Inl x)
      then show ?thesis using cc live by auto
    next
      case (Inr o1)
      show ?thesis
      proof (cases o1)
        case (Some bytes)
        then have r: "readahead_read ops c lba blocks n = (Inr bytes, d)" using live liv Inr by (simp add: run)
        show ?thesis
          unfolding r read_step_def using cc Inr Some same_session_ready[OF sd, of ready] by auto
      next
        case None
        obtain x g where g: "inner = (x, g)" by fastforce
        then have r: "readahead_read ops c lba blocks n =
            (case x of Inl y \<Rightarrow> Inl y | Inr bytes \<Rightarrow> if readahead_cancelled g then Inl session_cancelled else Inr bytes, g)"
          using live Inr None by (simp add: run split: sum.splits)
        show ?thesis
          using step unfolding r g read_step_def by (auto simp: readahead_ready_def split: sum.splits if_splits)
      qed
    qed
  qed
  show "\<not> readahead_cancelled c'" if "readahead_read ops c lba blocks n = (Inr bs, c')"
    using that unfolding run by (auto split: if_splits sum.splits option.splits prod.splits)
qed

end

section \<open>The contracts\<close>

context sector_source
begin

lemma never_reliable: "reliable_source ops valid contents (\<lambda>_. False)"
  by (rule reliable_source.intro[OF sector_source_axioms], standard) simp

lemma readahead_sector_source:
  "sector_source (readahead_ops ops) (readahead_valid ops valid contents) (readahead_contents contents)"
proof
  fix c assume "readahead_valid ops valid contents c"
  then show "op_sector_count (readahead_ops ops) c < two64"
    using count_less by (metis readahead_inner readahead_ops_simps(1))
next
  fix c lba blocks n r c'
  assume v: "readahead_valid ops valid contents c"
    and rq: "gdox_source_validate_read (op_sector_count (readahead_ops ops) c) lba blocks n = Inr ()"
    and rd: "op_read (readahead_ops ops) c lba blocks n = (r, c')"
  obtain s where s: "valid s" "readahead_sector_count ops c = op_sector_count ops s" using v by (rule readahead_inner)
  have b: "0 < blocks" "n = blocks * GDOX_LOGICAL_SECTOR_BYTES" "n \<le> SIZE_MAX" "lba + blocks \<le> readahead_sector_count ops c"
    using rq validate_read_ok_iff[OF count_less[OF s(1)]] s(2) by auto
  from reliable_source.readahead_read_step(1)[OF never_reliable v b(1) _ b(4,2)] b(2,3) rd
  show "readahead_kept ops valid contents c c' \<and> (\<forall>bs. r = Inr bs \<longrightarrow> bs = span (readahead_contents contents c)
      (lba * GDOX_LOGICAL_SECTOR_BYTES) (blocks * GDOX_LOGICAL_SECTOR_BYTES))"
    by (simp add: read_step_def)
next
  fix c b c' f
  assume "readahead_valid ops valid contents c" "op_media_present (readahead_ops ops) = Some f" "f c = (b, c')"
  then show "readahead_kept ops valid contents c c'" using readahead_media_kept by auto
next
  fix c g
  assume "readahead_valid ops valid contents c" "op_abort (readahead_ops ops) = Some g"
  then show "readahead_kept ops valid contents c (g c)" using readahead_abort_kept by auto
next
  fix c h q c'
  assume "readahead_valid ops valid contents c" "op_prepare_close (readahead_ops ops) = Some h" "h c = (q, c')"
  then show "readahead_kept ops valid contents c c'" using readahead_prepare_kept by auto
next
  fix c k ob c'
  assume "readahead_valid ops valid contents c" "op_observe_media (readahead_ops ops) = Some k" "k c = (ob, c')"
  then show "readahead_kept ops valid contents c c'" using readahead_observe_kept by auto
qed

end

context reliable_source
begin

lemma readahead_reliable_source:
  "reliable_source (readahead_ops ops) (readahead_valid ops valid contents) (readahead_contents contents) (readahead_ready ready)"
proof (rule reliable_source.intro[OF readahead_sector_source], standard)
  fix c lba blocks n
  assume v: "readahead_valid ops valid contents c" and rdy: "readahead_ready ready c"
    and rq: "gdox_source_validate_read (op_sector_count (readahead_ops ops) c) lba blocks n = Inr ()"
  obtain s where s: "valid s" "readahead_sector_count ops c = op_sector_count ops s" using v by (rule readahead_inner)
  have b: "0 < blocks" "n = blocks * GDOX_LOGICAL_SECTOR_BYTES" "n \<le> SIZE_MAX" "lba + blocks \<le> readahead_sector_count ops c"
    using rq validate_read_ok_iff[OF count_less[OF s(1)]] s(2) by auto
  from readahead_read_step(1)[OF v b(1) _ b(4,2)] b(2,3) rdy
  show "\<exists>bs c'. op_read (readahead_ops ops) c lba blocks n = (Inr bs, c') \<and> readahead_ready ready c'"
    by (cases "readahead_read ops c lba blocks n") (auto simp: read_step_def)
qed

end

context closable_source
begin

lemma readahead_closable_source:
  "closable_source (readahead_ops ops) (\<lambda>c. \<exists>s. ra_inner c = Some s \<and> prepared s)"
proof (rule adapter_closable[where put = "\<lambda>r h c. case r of Inl _ \<Rightarrow> put_readahead h c
      | Inr _ \<Rightarrow> invalidate_cache (put_readahead h c\<lparr>ra_closing := True\<rparr>)"])
  fix c :: "'s file_readahead_context" and s assume "ra_inner c = Some s"
  then show "prepare_step (readahead_ops ops) c = (case prepare_step ops s of (r, s') \<Rightarrow> (r, case r of Inl _ \<Rightarrow> put_readahead (Some s') c
      | Inr _ \<Rightarrow> invalidate_cache (put_readahead (Some s') c\<lparr>ra_closing := True\<rparr>)))"
    by (auto simp: prepare_step_def readahead_prepare_close_def gdox_source_prepare_close_def split: option.splits prod.splits sum.splits)
next
  fix c :: "'s file_readahead_context" and r c' assume "ra_inner c = None" "prepare_step (readahead_ops ops) c = (r, c')"
  then show "r \<noteq> Inr ()" by (auto simp: prepare_step_def readahead_prepare_close_def gdox_source_prepare_close_def)
qed (auto simp: readahead_close_def invalidate_cache_def split: sum.splits)

end

interpretation file_readahead: reliable_source "readahead_ops file_ops" "readahead_valid file_ops file_valid file_contents"
  "readahead_contents file_contents" "readahead_ready file_ready"
  by (rule file_source.readahead_reliable_source)

interpretation file_readahead_closable: closable_source "readahead_ops file_ops" "\<lambda>c. \<exists>s. ra_inner c = Some s \<and> True"
  by (rule file_closable.readahead_closable_source)

section \<open>Construction\<close>

lemma allocate_slots_bounds:
  assumes "\<And>k. mem k"
  shows "allocate_slots mem b n = n"
  using assms by (subst allocate_slots.simps) auto

lemma allocate_slots_le: "allocate_slots mem b n \<le> n"
proof (induction mem b n rule: allocate_slots.induct)
  case (1 mem b n)
  show ?case
  proof (cases "n = 0 \<or> mem (n * b) \<and> mem (n * CACHE_SLOT_BYTES)")
    case True
    then show ?thesis by (subst allocate_slots.simps) auto
  next
    case False
    then have "allocate_slots mem b n = allocate_slots mem b (n div 2)" by (subst allocate_slots.simps) auto
    then show ?thesis using "1.IH" False by (auto intro: order_trans)
  qed
qed

lemma validate_file_extents_spec:
  assumes "validate_file_extents sectors prev m xs = Inr ys"
  shows "ys = index_prefix file_extent_end (\<lambda>m x. x\<lparr>fe_prefix_max_end := m\<rparr>) m xs"
    and "\<forall>x \<in> set xs. file_extent_end x \<le> sectors"
    and "sorted (map fe_start_sector xs)" and "\<forall>p. prev = Some p \<longrightarrow> (\<forall>x \<in> set xs. p \<le> fe_start_sector x)"
proof -
  have "ys = index_prefix file_extent_end (\<lambda>m x. x\<lparr>fe_prefix_max_end := m\<rparr>) m xs \<and> (\<forall>x \<in> set xs. file_extent_end x \<le> sectors)
    \<and> sorted (map fe_start_sector xs) \<and> (\<forall>p. prev = Some p \<longrightarrow> (\<forall>x \<in> set xs. p \<le> fe_start_sector x))"
    using assms
  proof (induction xs arbitrary: prev m ys)
    case (Cons x xs)
    let ?m = "if file_extent_end x > m then file_extent_end x else m"
    have ok: "\<not> (case prev of None \<Rightarrow> False | Some p \<Rightarrow> fe_start_sector x < p)" "file_extent_end x \<le> sectors"
      using Cons.prems by (auto simp: Let_def split: if_splits)
    obtain zs where zs: "validate_file_extents sectors (Some (fe_start_sector x)) ?m xs = Inr zs"
      and ys: "ys = x\<lparr>fe_prefix_max_end := ?m\<rparr> # zs"
      using Cons.prems ok by (auto simp: Let_def split: sum.splits)
    have "\<forall>y \<in> set xs. fe_start_sector x \<le> fe_start_sector y" using Cons.IH[OF zs] by blast
    then show ?case
      using Cons.IH[OF zs] ok ys by (cases prev) (fastforce simp: Let_def)+
  qed simp
  then show "ys = index_prefix file_extent_end (\<lambda>m x. x\<lparr>fe_prefix_max_end := m\<rparr>) m xs"
    "\<forall>x \<in> set xs. file_extent_end x \<le> sectors" "sorted (map fe_start_sector xs)"
    "\<forall>p. prev = Some p \<longrightarrow> (\<forall>x \<in> set xs. p \<le> fe_start_sector x)"
    by blast+
qed

lemma copy_extents_ok:
  assumes "copy_and_validate_extents mem sectors xs = Inr ys"
  shows "indexed fe_start_sector file_extent_end fe_prefix_max_end ys" and "\<forall>x \<in> set ys. file_extent_end x \<le> sectors"
proof -
  have "indexed fe_start_sector file_extent_end fe_prefix_max_end ys \<and> (\<forall>x \<in> set ys. file_extent_end x \<le> sectors)"
  proof (cases "xs = []")
    case True
    then show ?thesis using assms by (simp add: copy_and_validate_extents_def indexed_def prefix_marked_def)
  next
    case False
    then have v: "validate_file_extents sectors None 0 xs = Inr ys"
      using assms by (auto simp: copy_and_validate_extents_def split: if_splits)
    note sp = validate_file_extents_spec[OF v]
    have "map file_extent_end ys = map file_extent_end xs" by (simp add: sp(1))
    then have "file_extent_end ` set ys = file_extent_end ` set xs" by (metis list.set_map)
    then have "\<forall>x \<in> set ys. file_extent_end x \<le> sectors" using sp(2) by (metis imageE imageI)
    then show ?thesis using file_extent_index.indexed_index_prefix[OF sp(3)] sp(1) by simp
  qed
  then show "indexed fe_start_sector file_extent_end fe_prefix_max_end ys" "\<forall>x \<in> set ys. file_extent_end x \<le> sectors"
    by simp_all
qed

context reliable_source
begin

lemma make_readahead_ready:
  assumes "valid s" and "gdox_source_observe_media ops (Some s) = (True, ob, Some s')" and "ready s'" and "\<not> ends_session ob"
    and "\<And>k. mem k" and "0 < window" and "window \<le> GDOX_FILE_READAHEAD_MAX_WINDOW_BLOCKS"
    and "copy_and_validate_extents mem (op_sector_count ops s) (md_file_extents md) = Inr extents"
  shows "\<exists>c. gdox_source_make_file_readahead mem junk [] ops (Some s) (Some md) window = (Inr (), None, Readahead (Some c))
    \<and> readahead_valid ops valid contents c \<and> readahead_ready ready c \<and> readahead_contents contents c = contents s
    \<and> readahead_sector_count ops c = op_sector_count ops s"
proof -
  have vk: "view_kept ops valid contents s s'" using source_observe_view[OF assms(1,2)] by auto
  let ?n = "FILE_READAHEAD_CACHE_BYTES div (window * GDOX_LOGICAL_SECTOR_BYTES)"
  let ?t = "length extents div 8 + (if length extents mod 8 \<noteq> 0 then 1 else 0)"
  have w: "window \<le> 512" "0 < window" using assms(6,7) by (simp_all add: GDOX_FILE_READAHEAD_MAX_WINDOW_BLOCKS_def)
  have n: "16 \<le> ?n" "?n \<le> FILE_READAHEAD_CACHE_BYTES"
  proof -
    have "FILE_READAHEAD_CACHE_BYTES div (512 * GDOX_LOGICAL_SECTOR_BYTES) \<le> ?n"
      using w by (intro div_le_mono2) auto
    then show "16 \<le> ?n" by (simp add: FILE_READAHEAD_CACHE_BYTES_def)
    show "?n \<le> FILE_READAHEAD_CACHE_BYTES" by (rule div_le_dividend)
  qed
  have slots: "allocate_slots mem (window * GDOX_LOGICAL_SECTOR_BYTES) ?n = ?n" by (rule allocate_slots_bounds[OF assms(5)])
  define known where "known = (readiness ob = MEDIA_READINESS_PRESENT)"
  define gen where "gen = (if known then generation ob else 0)"
  have base: "establish_media_baseline ops
      \<lparr>ra_inner = Some s, ra_extents = [], ra_touched_extents = [], ra_cache = [], ra_slots = [],
       ra_slot_bytes = window * GDOX_LOGICAL_SECTOR_BYTES, ra_use_counter = 0, ra_max_window_blocks = window, ra_cache_epoch = 1,
       ra_aborted = False, ra_closing = False, ra_media_invalid = False, ra_generation_known = False,
       ra_observed_generation = 0, ra_calls = []\<rparr> =
      \<lparr>ra_inner = Some s', ra_extents = [], ra_touched_extents = [], ra_cache = [], ra_slots = [],
       ra_slot_bytes = window * GDOX_LOGICAL_SECTOR_BYTES, ra_use_counter = 0, ra_max_window_blocks = window, ra_cache_epoch = 1,
       ra_aborted = False, ra_closing = False, ra_media_invalid = False, ra_generation_known = known,
       ra_observed_generation = gen, ra_calls = []\<rparr>"
    using assms(2,4)
    by (cases "readiness ob = MEDIA_READINESS_PRESENT")
      (simp_all add: establish_media_baseline_def Let_def ends_session_def known_def gen_def)
  define c where "c = \<lparr>ra_inner = Some s', ra_extents = extents, ra_touched_extents = replicate ?t 0,
       ra_cache = span junk 0 (?n * (window * GDOX_LOGICAL_SECTOR_BYTES)), ra_slots = replicate ?n empty_slot,
       ra_slot_bytes = window * GDOX_LOGICAL_SECTOR_BYTES, ra_use_counter = 0, ra_max_window_blocks = window, ra_cache_epoch = 1,
       ra_aborted = False, ra_closing = False, ra_media_invalid = False, ra_generation_known = known,
       ra_observed_generation = gen, ra_calls = []\<rparr>"
  have fits: "window * GDOX_LOGICAL_SECTOR_BYTES \<le> SIZE_MAX" using w by (simp add: SIZE_MAX_def)
  have cnt: "op_sector_count ops s' = op_sector_count ops s" using vk by (simp add: view_kept_def)
  have "gdox_source_make_file_readahead mem junk [] ops (Some s) (Some md) window = (Inr (), None, Readahead (Some c))"
    using assms(5,6,7,8) fits n base slots cnt
    by (simp add: gdox_source_make_file_readahead_def Let_def c_def del: div_le_dividend)
  moreover have "slots_ok (op_sector_count ops s') (contents s') c"
    using w n assms(7)
    by (auto simp: slots_ok_def c_def stamps_ok_def empty_slot_def UINT64_MAX_def SIZE_MAX_def FILE_READAHEAD_CACHE_BYTES_def)
  moreover have "extents_ok (op_sector_count ops s') c"
  proof -
    have "length extents \<le> 8 * ?t" using div_mult_mod_eq[of "length extents" 8] mod_less_divisor[of 8 "length extents"] by presburger
    then show ?thesis using copy_extents_ok[OF assms(8)] cnt by (simp add: extents_ok_def c_def)
  qed
  ultimately show ?thesis
    using vk assms(3)
    by (auto simp: readahead_valid_def readahead_ready_def readahead_contents_def readahead_sector_count_def
        readahead_cancelled_def c_def view_kept_def)
qed

end

section \<open>The life of a session\<close>

text \<open>Everything the owner of a read-ahead source, and other threads, may do to it while it is open.\<close>

inductive readahead_run ::
  "'s source_ops \<Rightarrow> 's file_readahead_context \<Rightarrow> 's file_readahead_context \<Rightarrow> bool" for ops where
  run_start: "readahead_run ops c c"
| run_read: "readahead_run ops c d \<Longrightarrow> readahead_read ops d lba blocks n = (r, e) \<Longrightarrow> readahead_run ops c e"
| run_media: "readahead_run ops c d \<Longrightarrow> readahead_media_present ops d = (b, e) \<Longrightarrow> readahead_run ops c e"
| run_call: "readahead_run ops c d \<Longrightarrow> readahead_run ops c (perform_call ops k d)"

lemma observation_cancelled:
  "readahead_cancelled c \<Longrightarrow> readahead_cancelled (apply_media_observation c ob)"
  "ends_session ob \<Longrightarrow> readahead_cancelled (apply_media_observation c ob)"
  by (simp_all add: apply_media_observation_def Let_def readahead_cancelled_def invalidate_cache_def)

lemma put_cancelled [simp]: "readahead_cancelled (put_readahead h c) = readahead_cancelled c"
  by (simp add: readahead_cancelled_def)

lemma call_cancelled:
  assumes "readahead_cancelled c"
  shows "readahead_cancelled (perform_call ops k c)"
proof (cases k)
  case CALL_ABORT
  then show ?thesis by (simp add: readahead_abort_def Let_def readahead_cancelled_def invalidate_cache_def)
next
  case CALL_OBSERVE
  then show ?thesis
    using assms observation_cancelled(1)[of "put_readahead h c" for h]
    by (auto simp: readahead_observe_media_def Let_def split: prod.splits)
next
  case CALL_PREPARE_CLOSE
  then show ?thesis
    using assms by (auto simp: readahead_prepare_close_def readahead_cancelled_def invalidate_cache_def split: prod.splits sum.splits)
qed

lemma calls_cancelled: "readahead_cancelled c \<Longrightarrow> readahead_cancelled (fold (perform_call ops) ks c)"
  by (induction ks arbitrary: c) (auto simp: call_cancelled)

lemma media_cancelled: "readahead_cancelled c \<Longrightarrow> readahead_cancelled (snd (readahead_media_present ops c))"
  using observation_cancelled(1)[of "put_readahead h c" for h]
  by (auto simp: readahead_media_present_def Let_def split: prod.splits)

lemma read_cancelled: "readahead_cancelled c \<Longrightarrow> readahead_read ops c lba blocks n = (Inl session_cancelled, c)"
  by (simp add: readahead_read_def Let_def)

lemma run_cancelled: "readahead_run ops c d \<Longrightarrow> readahead_cancelled c \<Longrightarrow> readahead_cancelled d"
proof (induction rule: readahead_run.induct)
  case (run_read c d lba blocks n r e)
  then show ?case by (simp add: read_cancelled)
next
  case (run_media c d b e)
  then show ?case using media_cancelled[of d ops] by simp
qed (simp_all add: call_cancelled)

section \<open>Reads that are interrupted\<close>

lemma inner_read_cancelled: "readahead_cancelled c \<Longrightarrow> readahead_cancelled (snd (inner_read ops c lba blocks n))"
  by (auto simp: inner_read_def readahead_cancelled_def[of "_\<lparr>ra_calls := _\<rparr>"] split: prod.splits list.splits
      intro!: calls_cancelled) (simp_all add: readahead_cancelled_def)

lemma calls_abort:
  "CALL_ABORT \<in> set ks \<Longrightarrow> readahead_cancelled (fold (perform_call ops) ks c)"
proof (induction ks arbitrary: c)
  case (Cons k ks)
  show ?case
  proof (cases "k = CALL_ABORT")
    case True
    have "readahead_cancelled (readahead_abort ops c)"
      by (simp add: readahead_abort_def Let_def readahead_cancelled_def invalidate_cache_def)
    then show ?thesis using True calls_cancelled by simp
  qed (use Cons in auto)
qed simp

lemma inner_read_abort:
  "ra_calls c = ks # later \<Longrightarrow> CALL_ABORT \<in> set ks \<Longrightarrow> readahead_cancelled (snd (inner_read ops c lba blocks n))"
  by (simp add: inner_read_def calls_abort split: prod.splits)

lemma retain_session: "same_session c (retain_exact_read c epoch extent lba blocks bs)"
proof (cases "reserve_cache_slot c epoch")
  case (Pair i d)
  have "same_session c d"
    using Pair by (auto simp: reserve_cache_slot_def Let_def same_session_def readahead_cancelled_def)
  then show ?thesis
    using Pair same_session_trans[OF _ same_session_trans[OF write_session publish_session]]
    by (auto simp: retain_exact_read_def)
qed

lemma exact_read_cancelled:
  "readahead_cancelled (snd (inner_read ops c lba blocks n)) \<Longrightarrow>
   readahead_cancelled (snd (exact_read ops c lba blocks n cacheable extent))"
  by (auto simp: exact_read_def Let_def split: prod.splits sum.splits)

lemma media_removed_cancelled: "readahead_cancelled c \<Longrightarrow> readahead_cancelled (snd (media_was_removed ops c))"
  using observation_cancelled(1)[of "put_readahead h c" for h]
  by (auto simp: media_was_removed_def Let_def split: prod.splits)

lemma speculative_read_cancelled:
  assumes "ra_calls c = ks # later" and "CALL_ABORT \<in> set ks"
  shows "readahead_cancelled (snd (speculative_read ops c lba blocks window extent n))"
proof -
  obtain i a where a: "reserve_cache_slot c (ra_cache_epoch c) = (i, a)" by fastforce
  then have "ra_calls a = ks # later" using assms(1) by (auto simp: reserve_cache_slot_def Let_def)
  then have can: "readahead_cancelled (snd (inner_read ops a lba window (window * GDOX_LOGICAL_SECTOR_BYTES)))"
    using inner_read_abort assms(2) by blast
  obtain r d where d: "inner_read ops a lba window (window * GDOX_LOGICAL_SECTOR_BYTES) = (r, d)" by fastforce
  obtain b g where g: "media_was_removed ops d = (b, g)" by fastforce
  have cd: "readahead_cancelled d" "readahead_cancelled g"
    using can d media_removed_cancelled[of d ops] g by simp_all
  have "readahead_cancelled (snd (exact_read ops g lba blocks n True extent))"
    by (rule exact_read_cancelled[OF inner_read_cancelled[OF cd(2)]])
  then show ?thesis using a d g cd by (cases r) (simp_all add: speculative_read_def Let_def)
qed

section \<open>Properties\<close>

text \<open>
  C30: A read-ahead source built over a partition whose medium is present shows exactly that partition: every
  read of any sequence inside it returns the partition's bytes, whatever windows are read ahead, whichever
  slots answer, and however slots are evicted and reused.
\<close>
theorem readahead_transparent:
  assumes "reliable_source ops valid contents ready" and "valid s"
    and "gdox_source_observe_media ops (Some s) = (True, ob, Some s')" and "ready s'" and "\<not> ends_session ob"
    and "\<And>k. mem k" and "0 < window" and "window \<le> GDOX_FILE_READAHEAD_MAX_WINDOW_BLOCKS"
    and "copy_and_validate_extents mem (op_sector_count ops s) (md_file_extents md) = Inr extents"
    and "requests_inside (op_sector_count ops s) requests"
  shows "\<exists>out. gdox_source_make_file_readahead mem junk [] ops (Some s) (Some md) window = (Inr (), None, Readahead out)
    \<and> gdox_source_sector_count (readahead_ops ops) out = op_sector_count ops s
    \<and> fst (source_reads (readahead_ops ops) requests out) = span_answers (contents s) requests"
proof -
  obtain c where c: "gdox_source_make_file_readahead mem junk [] ops (Some s) (Some md) window = (Inr (), None, Readahead (Some c))"
      "readahead_valid ops valid contents c" "readahead_ready ready c" "readahead_contents contents c = contents s"
      "readahead_sector_count ops c = op_sector_count ops s"
    using reliable_source.make_readahead_ready[where mem = mem and junk = junk, OF assms(1-9)] by blast
  from reliable_source.source_reads_ready[OF reliable_source.readahead_reliable_source[OF assms(1)] c(2,3), of requests]
  show ?thesis using assms(10) c by auto
qed

theorem readahead_transparent_witness:
  "\<exists>out. gdox_source_make_file_readahead (\<lambda>_. True) (\<lambda>_. 7) [] file_ops (Some sample_file)
      (Some \<lparr>md_volume = sample_volume, md_title = None, md_title_id = None, md_xbe_files = [], md_default_xbe_index = 0,
         md_file_extents = [\<lparr>fe_start_sector = 1, fe_sector_count = 3, fe_prefix_max_end = 0\<rparr>]\<rparr>) 2
      = (Inr (), None, Readahead out)
    \<and> gdox_source_sector_count (readahead_ops file_ops) out = 4
    \<and> fst (source_reads (readahead_ops file_ops) [(1, 1), (2, 1), (0, 4), (3, 1)] out) =
        span_answers (file_contents sample_file) [(1, 1), (2, 1), (0, 4), (3, 1)]"
  using readahead_transparent[OF file_source.reliable_source_axioms, of sample_file
      "\<lparr>readiness = MEDIA_READINESS_PRESENT, generation = 0, event = MEDIA_EVENT_NONE\<rparr>" sample_file "\<lambda>_. True" 2
      "\<lparr>md_volume = sample_volume, md_title = None, md_title_id = None, md_xbe_files = [], md_default_xbe_index = 0,
         md_file_extents = [\<lparr>fe_start_sector = 1, fe_sector_count = 3, fe_prefix_max_end = 0\<rparr>]\<rparr>"
      "[\<lparr>fe_start_sector = 1, fe_sector_count = 3, fe_prefix_max_end = 4\<rparr>]" "[(1, 1), (2, 1), (0, 4), (3, 1)]" "\<lambda>_. 7"]
  by (simp add: gdox_source_observe_media_def file_observe_media_def ends_session_def GDOX_FILE_READAHEAD_MAX_WINDOW_BLOCKS_def
      copy_and_validate_extents_def file_extent_end_def Let_def requests_inside_def SIZE_MAX_def FILE_EXTENT_BYTES_def
      clamp_observation_def)

text \<open>
  C31: Once a session was aborted, prepared for closing, or saw its medium leave or change, every later read
  fails as cancelled and leaves the source alone, whatever reads, observations and calls happen in between.
\<close>
theorem readahead_session_ends:
  assumes "k = CALL_ABORT \<or> (k = CALL_PREPARE_CLOSE \<and> fst (readahead_prepare_close ops c) = Inr ())
      \<or> (k = CALL_OBSERVE \<and> ends_session (fst (readahead_observe_media ops c)))"
    and "readahead_run ops (perform_call ops k c) d"
  shows "readahead_read ops d lba blocks n =
    (fail ERROR_CANCELLED ''file read-ahead session is no longer readable'', d)"
proof -
  have "readahead_cancelled (perform_call ops k c)"
    using assms(1)
  proof (elim disjE)
    assume "k = CALL_ABORT"
    then show ?thesis by (simp add: readahead_abort_def Let_def readahead_cancelled_def invalidate_cache_def)
  next
    assume "k = CALL_PREPARE_CLOSE \<and> fst (readahead_prepare_close ops c) = Inr ()"
    then show ?thesis
      by (auto simp: readahead_prepare_close_def readahead_cancelled_def invalidate_cache_def split: prod.splits sum.splits)
  next
    assume o: "k = CALL_OBSERVE \<and> ends_session (fst (readahead_observe_media ops c))"
    obtain ok ob h where h: "gdox_source_observe_media ops (ra_inner c) = (ok, ob, h)" by (metis prod.exhaust)
    have ok if "ends_session ob"
      using h that by (auto simp: gdox_source_observe_media_def Let_def ends_session_def split: option.splits prod.splits)
    then show ?thesis
      using o h observation_cancelled(2)[of ob "put_readahead h c"] by (auto simp: readahead_observe_media_def Let_def)
  qed
  from read_cancelled[OF run_cancelled[OF assms(2) this]] show ?thesis .
qed

theorem readahead_session_ends_witness:
  "\<exists>c :: file_context file_readahead_context. readahead_read file_ops (perform_call file_ops CALL_ABORT c) 0 1 2048 =
    (fail ERROR_CANCELLED ''file read-ahead session is no longer readable'', perform_call file_ops CALL_ABORT c)"
  using readahead_session_ends[OF disjI1[OF refl] run_start] by blast

text \<open>
  A read that goes to the medium while another thread aborts the source does not deliver the bytes it read.
\<close>
theorem readahead_aborted_read_fails:
  assumes "sector_source ops valid contents" and "readahead_valid ops valid contents c"
    and "ra_calls c = ks # later" and "CALL_ABORT \<in> set ks"
    and "find_cached_request c (ra_cache_epoch c) lba blocks = None"
    and "0 < blocks" and "blocks < two32" and "lba + blocks \<le> readahead_sector_count ops c"
  shows "fst (readahead_read ops c lba blocks (blocks * GDOX_LOGICAL_SECTOR_BYTES)) \<noteq> Inr bs"
proof
  let ?n = "blocks * GDOX_LOGICAL_SECTOR_BYTES"
  assume ok: "fst (readahead_read ops c lba blocks ?n) = Inr bs"
  then obtain c' where rd: "readahead_read ops c lba blocks ?n = (Inr bs, c')" by (metis prod.collapse)
  have "\<not> readahead_cancelled c'"
    by (rule reliable_source.readahead_read_step(2)[OF sector_source.never_reliable[OF assms(1)] assms(2,6) _ assms(8) refl rd])
      (use assms(7) in \<open>simp add: SIZE_MAX_def\<close>)
  moreover have "readahead_cancelled c'"
  proof (cases "readahead_cancelled c")
    case True
    then show ?thesis using rd read_cancelled[of c ops lba blocks ?n] by simp
  next
    case False
    define found where "found = find_containing_extent (ra_extents c) lba blocks"
    define extent where "extent = (case found of Some (i, _) \<Rightarrow> i | None \<Rightarrow> 0)"
    have miss: "copy_cached_request c lba blocks = (Inr None, c)" using assms(5) by (simp add: copy_cached_request_def Let_def)
    obtain first e where e: "(if found \<noteq> None then mark_extent_touched c extent else (False, c)) = (first, e)" by fastforce
    then have calls: "ra_calls e = ks # later"
      using assms(3) by (auto simp: mark_extent_touched_def Let_def split: if_splits)
    have inner: "readahead_cancelled (snd (if b then bounded_window_read ops e lba blocks x y extent ?n
        else exact_read ops e lba blocks ?n cacheable extent))" for b x y cacheable
      using speculative_read_cancelled[OF calls assms(4)] exact_read_cancelled[OF inner_read_abort[OF calls assms(4)]]
      by (simp add: bounded_window_read_def Let_def)
    define go where "go = ((first \<or> found \<noteq> None \<and> continues_cached_extent e (ra_cache_epoch e) extent lba)
        \<and> blocks < ra_max_window_blocks e)"
    obtain x g where g: "(if go then bounded_window_read ops e lba blocks (snd (the found))
          (gdox_source_sector_count ops (ra_inner c)) extent ?n
        else exact_read ops e lba blocks ?n (found \<noteq> None) extent) = (x, g)" by fastforce
    have "readahead_cancelled g" using inner[of go "snd (the found)" "gdox_source_sector_count ops (ra_inner c)" "found \<noteq> None"] unfolding g by simp
    moreover have "readahead_read ops c lba blocks ?n = (case x of Inl y \<Rightarrow> (Inl y, g)
        | Inr bytes \<Rightarrow> (if readahead_cancelled g then Inl session_cancelled else Inr bytes, g))"
      unfolding readahead_read_def Let_def found_def[symmetric] extent_def[symmetric] if_not_P[OF False] miss prod.case
        sum.case option.case e go_def[symmetric] g ..
    ultimately show ?thesis using rd by (simp split: sum.splits)
  qed
  ultimately show False by simp
qed

definition sample_readahead :: "file_context file_readahead_context" where
  "sample_readahead =
     \<lparr>ra_inner = Some sample_file, ra_extents = [], ra_touched_extents = [], ra_cache = replicate 4096 0,
      ra_slots = [\<lparr>fs_start_sector = 0, fs_last_used = 5, fs_epoch = 1, fs_extent_index = 0, fs_blocks = 0, fs_valid = True\<rparr>,
        \<lparr>fs_start_sector = 0, fs_last_used = 3, fs_epoch = 1, fs_extent_index = 0, fs_blocks = 0, fs_valid = True\<rparr>],
      ra_slot_bytes = 2048, ra_use_counter = 5, ra_max_window_blocks = 1, ra_cache_epoch = 1, ra_aborted = False,
      ra_closing = False, ra_media_invalid = False, ra_generation_known = True, ra_observed_generation = 0,
      ra_calls = [[CALL_ABORT]]\<rparr>"

lemma sample_readahead_valid: "readahead_valid file_ops file_valid file_contents sample_readahead"
  by (simp add: readahead_valid_def sample_readahead_def slots_ok_def extents_ok_def stamps_ok_def slot_holds_def
      cache_bytes_at_def indexed_def prefix_marked_def GDOX_FILE_READAHEAD_MAX_WINDOW_BLOCKS_def SIZE_MAX_def UINT64_MAX_def
      less_Suc_eq numeral_2_eq_2)

theorem readahead_aborted_read_fails_witness:
  "fst (readahead_read file_ops sample_readahead 0 1 (1 * GDOX_LOGICAL_SECTOR_BYTES)) \<noteq>
     Inr (span (file_contents sample_file) 0 2048)"
  by (rule readahead_aborted_read_fails[OF file_source.sector_source_axioms sample_readahead_valid])
    (auto simp: sample_readahead_def find_cached_request_def readahead_sector_count_def upt_rec)

text \<open>
  The slot the cache reserves always exists and lies inside the cache memory, and it is a free slot or
  one of the least recently used ones.
\<close>
theorem readahead_reserves_oldest_slot:
  assumes "readahead_valid ops valid contents c" and "reserve_cache_slot c epoch = (i, c')"
  shows "i < length (ra_slots c) \<and> slot_data c i + ra_slot_bytes c \<le> length (ra_cache c)
    \<and> (\<not> fs_valid (ra_slots c ! i) \<or> fs_epoch (ra_slots c ! i) \<noteq> epoch
       \<or> list_all (\<lambda>slot. fs_last_used (ra_slots c ! i) \<le> fs_last_used slot) (ra_slots c))"
proof -
  obtain s where s: "slots_ok (op_sector_count ops s) (contents s) c" using assms(1) by (rule readahead_inner)
  have i: "i < length (ra_slots c)" using reserve_in_range[OF s assms(2)] by simp
  have "length (ra_slots c) \<le> SIZE_MAX" using s by (simp add: slots_ok_def)
  then have "\<not> fs_valid (ra_slots c ! i) \<or> fs_epoch (ra_slots c ! i) \<noteq> epoch
      \<or> (\<forall>x \<in> set (ra_slots c). fs_last_used (ra_slots c ! i) \<le> fs_last_used x)"
    using reserve_loop_lru[of "[]" epoch UINT64_MAX SIZE_MAX "ra_slots c" i] assms(2) i
    by (simp add: reserve_cache_slot_def Let_def)
  then show ?thesis using i slot_inside[OF s i] by (auto simp: list_all_iff)
qed

theorem readahead_reserves_oldest_slot_witness:
  "1 < length (ra_slots sample_readahead) \<and> slot_data sample_readahead 1 + ra_slot_bytes sample_readahead \<le> 4096
    \<and> list_all (\<lambda>slot. fs_last_used (ra_slots sample_readahead ! 1) \<le> fs_last_used slot) (ra_slots sample_readahead)"
proof -
  have "fst (reserve_cache_slot sample_readahead 1) = 1"
    by (simp add: reserve_cache_slot_def sample_readahead_def UINT64_MAX_def)
  then have "reserve_cache_slot sample_readahead 1 = (1, snd (reserve_cache_slot sample_readahead 1))"
    by (metis prod.collapse)
  from readahead_reserves_oldest_slot[OF sample_readahead_valid this]
  show ?thesis by (simp add: sample_readahead_def)
qed

end
