(* ===== verification/Disc.thy ===== *)
theory Disc
  imports Adapter FileSource
begin

text \<open>
  The random-access disc interface of src/include/gdox/disc.h and its direct implementation over a sector
  source (src/src/core/disc.c): byte reads at any offset, cut at the end of the disc, answered with one read
  of whole sectors. As for sources, a disc is an optional context with the operation table of its kind.
\<close>

section \<open>The interface\<close>

record 'd disc_ops =
  dop_length :: "'d \<Rightarrow> u64"
  dop_read_at :: "'d \<Rightarrow> u64 \<Rightarrow> nat \<Rightarrow> byte list res \<times> 'd"
  dop_media_present :: "('d \<Rightarrow> bool \<times> 'd) option"
  dop_close :: "'d \<Rightarrow> unit res \<times> bool"
  dop_physical_read_stats :: "('d \<Rightarrow> bool \<times> physical_read_stats) option"
  dop_abort :: "('d \<Rightarrow> 'd) option"
  dop_prepare_close :: "('d \<Rightarrow> unit res \<times> 'd) option"
  dop_observe_media :: "('d \<Rightarrow> media_observation \<times> 'd) option"

type_synonym 'd random_disc = "'d option"

definition gdox_disc_is_valid :: "'d random_disc \<Rightarrow> bool" where
  "gdox_disc_is_valid disc = (disc \<noteq> None)"

definition gdox_disc_length :: "'d disc_ops \<Rightarrow> 'd random_disc \<Rightarrow> u64" where
  "gdox_disc_length dops disc = (case disc of None \<Rightarrow> 0 | Some d \<Rightarrow> dop_length dops d)"

text \<open>The bytes read; their number is what the C function stores in \<open>*read_bytes\<close>.\<close>

definition gdox_disc_read_at ::
  "'d disc_ops \<Rightarrow> 'd random_disc \<Rightarrow> u64 \<Rightarrow> nat \<Rightarrow> byte list res \<times> 'd random_disc" where
  "gdox_disc_read_at dops disc offset output_bytes =
     (case disc of
        None \<Rightarrow> (fail ERROR_INVALID_ARGUMENT ''valid disc, output, and read count are required'', None)
      | Some d \<Rightarrow> (case dop_read_at dops d offset output_bytes of (r, d') \<Rightarrow> (r, Some d')))"

definition gdox_disc_observe_media ::
  "'d disc_ops \<Rightarrow> 'd random_disc \<Rightarrow> bool \<times> media_observation \<times> 'd random_disc" where
  "gdox_disc_observe_media dops disc =
     (let initial = \<lparr>readiness = MEDIA_READINESS_UNKNOWN, generation = 0, event = MEDIA_EVENT_NONE\<rparr>
      in case disc of
           None \<Rightarrow> (False, initial, None)
         | Some d \<Rightarrow>
             (case dop_observe_media dops of
                Some f \<Rightarrow> (case f d of (ob, d') \<Rightarrow> (True, clamp_observation ob, Some d'))
              | None \<Rightarrow>
                  (case dop_media_present dops of
                     None \<Rightarrow> (True, initial\<lparr>readiness := MEDIA_READINESS_PRESENT\<rparr>, Some d)
                   | Some f \<Rightarrow>
                       (case f d of (present, d') \<Rightarrow>
                          (True, initial\<lparr>readiness := (if present then MEDIA_READINESS_PRESENT
                                                       else MEDIA_READINESS_ABSENT)\<rparr>, Some d')))))"

definition gdox_disc_media_present :: "'d disc_ops \<Rightarrow> 'd random_disc \<Rightarrow> bool \<times> 'd random_disc" where
  "gdox_disc_media_present dops disc =
     (case gdox_disc_observe_media dops disc of
        (ok, ob, disc) \<Rightarrow> (ok \<and> readiness ob = MEDIA_READINESS_PRESENT, disc))"

definition gdox_disc_physical_read_stats :: "'d disc_ops \<Rightarrow> 'd random_disc \<Rightarrow> bool \<times> physical_read_stats" where
  "gdox_disc_physical_read_stats dops disc =
     (case disc of
        None \<Rightarrow> (False, no_read_stats)
      | Some d \<Rightarrow> (case dop_physical_read_stats dops of None \<Rightarrow> (False, no_read_stats) | Some f \<Rightarrow> f d))"

definition gdox_disc_abort :: "'d disc_ops \<Rightarrow> 'd random_disc \<Rightarrow> 'd random_disc" where
  "gdox_disc_abort dops disc =
     (case disc of None \<Rightarrow> None
      | Some d \<Rightarrow> (case dop_abort dops of None \<Rightarrow> Some d | Some f \<Rightarrow> Some (f d)))"

definition gdox_disc_prepare_close :: "'d disc_ops \<Rightarrow> 'd random_disc \<Rightarrow> unit res \<times> 'd random_disc" where
  "gdox_disc_prepare_close dops disc =
     (case disc of
        None \<Rightarrow> (fail ERROR_INVALID_ARGUMENT ''disc is not open'', None)
      | Some d \<Rightarrow>
          (case dop_prepare_close dops of
             None \<Rightarrow> (Inr (), Some d)
           | Some f \<Rightarrow> (case f d of (r, d') \<Rightarrow> (r, Some d'))))"

text \<open>As for sources: the result, whether an open source was lost, and the handle the caller keeps.\<close>

definition gdox_disc_close :: "'d disc_ops \<Rightarrow> 'd random_disc \<Rightarrow> unit res \<times> bool \<times> 'd random_disc" where
  "gdox_disc_close dops disc =
     (case disc of
        None \<Rightarrow> (fail ERROR_INVALID_ARGUMENT ''disc is not open'', False, None)
      | Some d \<Rightarrow>
          (case gdox_disc_prepare_close dops disc of
             (Inl e, disc') \<Rightarrow> (Inl e, False, disc')
           | (Inr _, disc') \<Rightarrow>
               (case disc' of
                  None \<Rightarrow> (Inr (), False, None)
                | Some d' \<Rightarrow> (case dop_close dops d' of (r, lost) \<Rightarrow> (r, lost, None)))))"

section \<open>The direct disc\<close>

record 's direct_disc_context =
  dd_source :: "'s sector_source"
  dd_length :: u64

abbreviation put_direct :: "'s sector_source \<Rightarrow> 's direct_disc_context \<Rightarrow> 's direct_disc_context" where
  "put_direct h c \<equiv> c\<lparr>dd_source := h\<rparr>"

definition source_length :: "'s source_ops \<Rightarrow> 's sector_source \<Rightarrow> u64 res" where
  "source_length ops source =
     (let sectors = gdox_source_sector_count ops source
      in if sectors > UINT64_MAX div GDOX_LOGICAL_SECTOR_BYTES
         then fail ERROR_INVALID_SOURCE ''source byte length overflows''
         else Inr (u64_mul sectors GDOX_LOGICAL_SECTOR_BYTES))"

definition direct_length :: "'s direct_disc_context \<Rightarrow> u64" where
  "direct_length c = dd_length c"

definition direct_read_at ::
  "(nat \<Rightarrow> bool) \<Rightarrow> 's source_ops \<Rightarrow> 's direct_disc_context \<Rightarrow> u64 \<Rightarrow> nat
     \<Rightarrow> byte list res \<times> 's direct_disc_context" where
  "direct_read_at mem ops c offset output_bytes =
     (if output_bytes = 0 \<or> offset \<ge> dd_length c then (Inr [], c)
      else (let remaining = dd_length c - offset;
                readable = (if remaining < output_bytes then remaining else output_bytes);
                first_sector = offset div GDOX_LOGICAL_SECTOR_BYTES;
                within = offset mod GDOX_LOGICAL_SECTOR_BYTES
            in if readable > SIZE_MAX - within
               then (fail ERROR_OUT_OF_BOUNDS ''byte read span overflows'', c)
               else if within = 0 \<and> readable mod GDOX_LOGICAL_SECTOR_BYTES = 0
                 \<and> readable div GDOX_LOGICAL_SECTOR_BYTES \<le> UINT32_MAX
               then (case gdox_source_read ops (dd_source c) first_sector
                            (u32_cast (readable div GDOX_LOGICAL_SECTOR_BYTES)) readable of
                       (Inl e, h) \<Rightarrow> (Inl e, put_direct h c)
                     | (Inr bytes, h) \<Rightarrow> (Inr bytes, put_direct h c))
               else (let covered = within + readable;
                         block_count = u64_sub (u64_add covered GDOX_LOGICAL_SECTOR_BYTES) 1 div GDOX_LOGICAL_SECTOR_BYTES
                     in if block_count > UINT32_MAX \<or> block_count > SIZE_MAX div GDOX_LOGICAL_SECTOR_BYTES
                        then (fail ERROR_OUT_OF_BOUNDS ''byte read is too large'', c)
                        else if \<not> mem (block_count * GDOX_LOGICAL_SECTOR_BYTES)
                        then (fail ERROR_INTERNAL ''could not allocate aligned read buffer'', c)
                        else (case gdox_source_read ops (dd_source c) first_sector (u32_cast block_count)
                                     (block_count * GDOX_LOGICAL_SECTOR_BYTES) of
                                (Inl e, h) \<Rightarrow> (Inl e, put_direct h c)
                              | (Inr aligned, h) \<Rightarrow> (Inr (take readable (drop within aligned)), put_direct h c)))))"

definition direct_media_present :: "'s source_ops \<Rightarrow> 's direct_disc_context \<Rightarrow> bool \<times> 's direct_disc_context" where
  "direct_media_present ops = forward_media_present dd_source put_direct ops"

definition direct_observe_media ::
  "'s source_ops \<Rightarrow> 's direct_disc_context \<Rightarrow> media_observation \<times> 's direct_disc_context" where
  "direct_observe_media ops = forward_observe_media dd_source put_direct ops"

definition direct_physical_read_stats :: "'s source_ops \<Rightarrow> 's direct_disc_context \<Rightarrow> bool \<times> physical_read_stats" where
  "direct_physical_read_stats ops = forward_physical_read_stats dd_source ops"

definition direct_close :: "'s source_ops \<Rightarrow> 's direct_disc_context \<Rightarrow> unit res \<times> bool" where
  "direct_close ops = forward_close dd_source ops"

definition direct_prepare_close ::
  "'s source_ops \<Rightarrow> 's direct_disc_context \<Rightarrow> unit res \<times> 's direct_disc_context" where
  "direct_prepare_close ops = forward_prepare_close dd_source put_direct ops"

definition direct_abort :: "'s source_ops \<Rightarrow> 's direct_disc_context \<Rightarrow> 's direct_disc_context" where
  "direct_abort ops = forward_abort dd_source put_direct ops"

definition direct_ops :: "(nat \<Rightarrow> bool) \<Rightarrow> 's source_ops \<Rightarrow> 's direct_disc_context disc_ops" where
  "direct_ops mem ops =
     \<lparr>dop_length = direct_length, dop_read_at = direct_read_at mem ops,
      dop_media_present = Some (direct_media_present ops), dop_close = direct_close ops,
      dop_physical_read_stats = Some (direct_physical_read_stats ops), dop_abort = Some (direct_abort ops),
      dop_prepare_close = Some (direct_prepare_close ops), dop_observe_media = Some (direct_observe_media ops)\<rparr>"

lemma direct_ops_simps [simp]:
  "dop_length (direct_ops mem ops) = direct_length" "dop_read_at (direct_ops mem ops) = direct_read_at mem ops"
  "dop_media_present (direct_ops mem ops) = Some (direct_media_present ops)" "dop_close (direct_ops mem ops) = direct_close ops"
  "dop_physical_read_stats (direct_ops mem ops) = Some (direct_physical_read_stats ops)"
  "dop_abort (direct_ops mem ops) = Some (direct_abort ops)"
  "dop_prepare_close (direct_ops mem ops) = Some (direct_prepare_close ops)"
  "dop_observe_media (direct_ops mem ops) = Some (direct_observe_media ops)"
  by (simp_all add: direct_ops_def)

text \<open>\<open>sizeof\<close> the context is 24.\<close>

definition gdox_disc_from_source ::
  "(nat \<Rightarrow> bool) \<Rightarrow> 's source_ops \<Rightarrow> 's sector_source
     \<Rightarrow> unit res \<times> 's sector_source \<times> 's direct_disc_context random_disc" where
  "gdox_disc_from_source mem ops source =
     (if \<not> gdox_source_is_valid source
      then (fail ERROR_INVALID_ARGUMENT ''an open source and empty disc output are required'', source, None)
      else (case source_length ops source of
              Inl e \<Rightarrow> (Inl e, source, None)
            | Inr len \<Rightarrow>
                if \<not> mem 24 then (fail ERROR_INTERNAL ''could not allocate direct disc'', source, None)
                else (Inr (), None, Some \<lparr>dd_source = source, dd_length = len\<rparr>)))"

section \<open>The contract of a disc\<close>

definition disc_kept ::
  "'d disc_ops \<Rightarrow> ('d \<Rightarrow> bool) \<Rightarrow> ('d \<Rightarrow> nat \<Rightarrow> byte) \<Rightarrow> 'd \<Rightarrow> 'd \<Rightarrow> bool" where
  "disc_kept dops valid contents d d' \<longleftrightarrow>
     valid d' \<and> contents d' = contents d \<and> dop_length dops d' = dop_length dops d"

lemma disc_kept_refl: "valid d \<Longrightarrow> disc_kept dops valid contents d d"
  by (simp add: disc_kept_def)

text \<open>A sequence of reads of a disc at byte offsets, and the answers of a disc that shows \<open>len\<close> bytes of \<open>f\<close>.\<close>

fun disc_reads :: "'d disc_ops \<Rightarrow> (u64 \<times> nat) list \<Rightarrow> 'd random_disc \<Rightarrow> byte list res list \<times> 'd random_disc" where
  "disc_reads dops [] h = ([], h)"
| "disc_reads dops ((offset, n) # requests) h =
     (case gdox_disc_read_at dops h offset n of
        (r, h) \<Rightarrow> (case disc_reads dops requests h of (rs, h) \<Rightarrow> (r # rs, h)))"

definition disc_answers :: "(nat \<Rightarrow> byte) \<Rightarrow> u64 \<Rightarrow> (u64 \<times> nat) list \<Rightarrow> byte list res list" where
  "disc_answers f len requests = map (\<lambda>(offset, n). Inr (span f offset (min n (len - offset)))) requests"

text \<open>
  A disc shows \<open>dop_length\<close> bytes: a successful read returns the bytes from its offset on, cut at the end. In
  a ready state every read of at most \<open>limit\<close> bytes succeeds.
\<close>

locale random_disc =
  fixes dops :: "'d disc_ops" and valid :: "'d \<Rightarrow> bool" and contents :: "'d \<Rightarrow> nat \<Rightarrow> byte"
  assumes read_at_view: "valid d \<Longrightarrow> dop_read_at dops d offset n = (r, d') \<Longrightarrow>
      disc_kept dops valid contents d d'
      \<and> (\<forall>bs. r = Inr bs \<longrightarrow> bs = span (contents d) offset (min n (dop_length dops d - offset)))"
    and disc_media_view: "valid d \<Longrightarrow> dop_media_present dops = Some f \<Longrightarrow> f d = (b, d') \<Longrightarrow>
      disc_kept dops valid contents d d'"
    and disc_observe_view: "valid d \<Longrightarrow> dop_observe_media dops = Some g \<Longrightarrow> g d = (ob, d') \<Longrightarrow>
      disc_kept dops valid contents d d'"
    and disc_abort_view: "valid d \<Longrightarrow> dop_abort dops = Some h \<Longrightarrow> disc_kept dops valid contents d (h d)"
begin

lemma disc_read_at_view:
  "valid d \<Longrightarrow> gdox_disc_read_at dops (Some d) offset n = (r, h) \<Longrightarrow>
   \<exists>d'. h = Some d' \<and> disc_kept dops valid contents d d'
   \<and> (\<forall>bs. r = Inr bs \<longrightarrow> bs = span (contents d) offset (min n (dop_length dops d - offset)))"
  using read_at_view[of d offset n] by (cases "dop_read_at dops d offset n") (auto simp: gdox_disc_read_at_def)

lemma disc_media_observed:
  "valid d \<Longrightarrow> gdox_disc_observe_media dops (Some d) = (b, ob, h) \<Longrightarrow>
   \<exists>d'. h = Some d' \<and> disc_kept dops valid contents d d'"
  by (auto simp: gdox_disc_observe_media_def Let_def disc_kept_refl split: option.splits prod.splits
      intro: disc_media_view disc_observe_view)

end

locale ready_disc = random_disc +
  fixes ready :: "'d \<Rightarrow> bool" and limit :: nat
  assumes read_at_ready: "valid d \<Longrightarrow> ready d \<Longrightarrow> n \<le> limit \<Longrightarrow>
      \<exists>bs d'. dop_read_at dops d offset n = (Inr bs, d') \<and> ready d'"
begin

lemma disc_read_at_ready:
  assumes "valid d" and "ready d" and "n \<le> limit"
  shows "\<exists>d'. gdox_disc_read_at dops (Some d) offset n =
      (Inr (span (contents d) offset (min n (dop_length dops d - offset))), Some d')
    \<and> disc_kept dops valid contents d d' \<and> ready d'"
proof -
  obtain bs d' where r: "dop_read_at dops d offset n = (Inr bs, d')" "ready d'" using read_at_ready[OF assms] by blast
  then show ?thesis using read_at_view[OF assms(1) r(1)] by (simp add: gdox_disc_read_at_def)
qed

lemma disc_reads_ready:
  assumes "valid d" and "ready d" and "list_all (\<lambda>(offset, n). n \<le> limit) requests"
  shows "\<exists>d'. disc_reads dops requests (Some d) = (disc_answers (contents d) (dop_length dops d) requests, Some d')
    \<and> disc_kept dops valid contents d d' \<and> ready d'"
  using assms
proof (induction requests arbitrary: d)
  case Nil
  then show ?case by (simp add: disc_answers_def disc_kept_refl)
next
  case (Cons q requests)
  obtain offset n where q: "q = (offset, n)" by fastforce
  obtain d1 where d1: "gdox_disc_read_at dops (Some d) offset n =
      (Inr (span (contents d) offset (min n (dop_length dops d - offset))), Some d1)"
      "disc_kept dops valid contents d d1" "ready d1"
    using disc_read_at_ready[of d n offset] Cons.prems q by auto
  obtain d' where "disc_reads dops requests (Some d1) = (disc_answers (contents d) (dop_length dops d) requests, Some d')"
      "disc_kept dops valid contents d1 d'" "ready d'"
    using Cons.IH[of d1] d1(2,3) Cons.prems(3) by (auto simp: disc_kept_def)
  then show ?case using d1(1,2) q by (auto simp: disc_answers_def disc_kept_def)
qed

end

section \<open>The direct disc keeps the contract\<close>

definition direct_valid :: "'s source_ops \<Rightarrow> ('s \<Rightarrow> bool) \<Rightarrow> 's direct_disc_context \<Rightarrow> bool" where
  "direct_valid ops valid c \<longleftrightarrow>
     (case dd_source c of None \<Rightarrow> False
      | Some s \<Rightarrow> valid s \<and> dd_length c = op_sector_count ops s * GDOX_LOGICAL_SECTOR_BYTES \<and> dd_length c < two64)"

definition direct_contents :: "('s \<Rightarrow> nat \<Rightarrow> byte) \<Rightarrow> 's direct_disc_context \<Rightarrow> nat \<Rightarrow> byte" where
  "direct_contents contents c = (case dd_source c of None \<Rightarrow> (\<lambda>_. 0) | Some s \<Rightarrow> contents s)"

definition direct_ready :: "('s \<Rightarrow> bool) \<Rightarrow> 's direct_disc_context \<Rightarrow> bool" where
  "direct_ready ready c \<longleftrightarrow> (case dd_source c of None \<Rightarrow> False | Some s \<Rightarrow> ready s)"

lemma direct_put_kept:
  "direct_valid ops valid c \<Longrightarrow> dd_source c = Some s \<Longrightarrow> view_kept ops valid contents s s' \<Longrightarrow>
   disc_kept (direct_ops mem ops) (direct_valid ops valid) (direct_contents contents) c (put_direct (Some s') c)"
  by (auto simp: disc_kept_def view_kept_def direct_valid_def direct_contents_def direct_length_def)

text \<open>The request the direct disc makes: it covers the bytes asked for and lies inside the source.\<close>

lemma covering_request:
  assumes "offset < len" and "len = sectors * GDOX_LOGICAL_SECTOR_BYTES" and "len < two64" and "0 < n"
    and "r = (if len - offset < n then len - offset else n)" and "w = offset mod GDOX_LOGICAL_SECTOR_BYTES"
    and "k = u64_sub (u64_add (w + r) GDOX_LOGICAL_SECTOR_BYTES) 1 div GDOX_LOGICAL_SECTOR_BYTES" and "k \<le> UINT32_MAX"
  shows "0 < k \<and> w + r \<le> k * GDOX_LOGICAL_SECTOR_BYTES \<and> offset div GDOX_LOGICAL_SECTOR_BYTES + k \<le> sectors"
proof -
  have r: "0 < r" "offset + r \<le> len" using assms(1,4,5) by auto
  have off: "offset = offset div GDOX_LOGICAL_SECTOR_BYTES * GDOX_LOGICAL_SECTOR_BYTES + w" using assms(6) by simp
  have "w + r \<le> len" using off r(2) by linarith
  have no_wrap: "w + r + GDOX_LOGICAL_SECTOR_BYTES < two64"
  proof (rule ccontr)
    assume big: "\<not> w + r + GDOX_LOGICAL_SECTOR_BYTES < two64"
    have "sectors * GDOX_LOGICAL_SECTOR_BYTES < 9007199254740992 * GDOX_LOGICAL_SECTOR_BYTES" using assms(2,3) by simp
    then have "sectors \<le> 9007199254740991" by linarith
    then have "len \<le> 9007199254740991 * GDOX_LOGICAL_SECTOR_BYTES" using assms(2) by simp
    then have "w + r + GDOX_LOGICAL_SECTOR_BYTES = two64" using big \<open>w + r \<le> len\<close> by simp
    then have "k = 9007199254740991" using assms(7) by (simp add: u64_add_def u64_sub_def)
    then show False using assms(8) by (simp add: UINT32_MAX_def)
  qed
  then have k: "k = (w + r + 2047) div GDOX_LOGICAL_SECTOR_BYTES" using assms(7) by simp
  have "0 < k" "w + r \<le> k * GDOX_LOGICAL_SECTOR_BYTES" using r(1) unfolding k by linarith+
  moreover have "offset div GDOX_LOGICAL_SECTOR_BYTES + k \<le> sectors"
  proof -
    let ?a = "offset div GDOX_LOGICAL_SECTOR_BYTES"
    have "w + r + ?a * GDOX_LOGICAL_SECTOR_BYTES \<le> sectors * GDOX_LOGICAL_SECTOR_BYTES"
      using off r(2) assms(2) by simp
    then have "?a * GDOX_LOGICAL_SECTOR_BYTES + (w + r + 2047) \<le> sectors * GDOX_LOGICAL_SECTOR_BYTES + 2047" by simp
    then have "(?a * GDOX_LOGICAL_SECTOR_BYTES + (w + r + 2047)) div GDOX_LOGICAL_SECTOR_BYTES
        \<le> (sectors * GDOX_LOGICAL_SECTOR_BYTES + 2047) div GDOX_LOGICAL_SECTOR_BYTES"
      by (rule div_le_mono)
    then show ?thesis unfolding k by simp
  qed
  ultimately show ?thesis by simp
qed

text \<open>What a read becomes: nothing, an error before any read, or one read of whole sectors.\<close>

lemma direct_read_cases:
  assumes "direct_valid ops valid c" and "dd_source c = Some s"
  obtains (nothing) "n = 0 \<or> dd_length c \<le> offset" "direct_read_at mem ops c offset n = (Inr [], c)"
  | (refused) e where "direct_read_at mem ops c offset n = (Inl e, c)" "\<not> (n \<le> UINT32_MAX \<and> (\<forall>k. mem k))"
  | (sectors) lba blocks w whole where "0 < blocks" "blocks < two32" "lba + blocks \<le> op_sector_count ops s"
      "offset = lba * GDOX_LOGICAL_SECTOR_BYTES + w" "w + min n (dd_length c - offset) \<le> blocks * GDOX_LOGICAL_SECTOR_BYTES"
      "direct_read_at mem ops c offset n =
        (case gdox_source_read ops (Some s) lba blocks (blocks * GDOX_LOGICAL_SECTOR_BYTES) of
           (Inl e, h) \<Rightarrow> (Inl e, put_direct h c)
         | (Inr bytes, h) \<Rightarrow>
             (Inr (if whole then bytes else take (min n (dd_length c - offset)) (drop w bytes)), put_direct h c))"
      "whole \<Longrightarrow> w = 0 \<and> min n (dd_length c - offset) = blocks * GDOX_LOGICAL_SECTOR_BYTES"
proof (cases "n = 0 \<or> dd_length c \<le> offset")
  case True
  show ?thesis by (rule nothing) (use True in \<open>auto simp: direct_read_at_def\<close>)
next
  case False
  define r where "r = (if dd_length c - offset < n then dd_length c - offset else n)"
  define w where "w = offset mod GDOX_LOGICAL_SECTOR_BYTES"
  define lba where "lba = offset div GDOX_LOGICAL_SECTOR_BYTES"
  define k where "k = u64_sub (u64_add (w + r) GDOX_LOGICAL_SECTOR_BYTES) 1 div GDOX_LOGICAL_SECTOR_BYTES"
  have rmin: "r = min n (dd_length c - offset)" by (auto simp: r_def)
  have len: "dd_length c = op_sector_count ops s * GDOX_LOGICAL_SECTOR_BYTES" "dd_length c < two64"
    using assms by (simp_all add: direct_valid_def)
  have off: "offset = lba * GDOX_LOGICAL_SECTOR_BYTES + w" by (simp add: lba_def w_def)
  have r: "0 < r" "offset + r \<le> dd_length c" "r \<le> n" using False by (auto simp: r_def)
  have step: "direct_read_at mem ops c offset n =
      (if r > SIZE_MAX - w then (fail ERROR_OUT_OF_BOUNDS ''byte read span overflows'', c)
       else if w = 0 \<and> r mod GDOX_LOGICAL_SECTOR_BYTES = 0 \<and> r div GDOX_LOGICAL_SECTOR_BYTES \<le> UINT32_MAX
       then (case gdox_source_read ops (dd_source c) lba (u32_cast (r div GDOX_LOGICAL_SECTOR_BYTES)) r of
               (Inl e, h) \<Rightarrow> (Inl e, put_direct h c) | (Inr bytes, h) \<Rightarrow> (Inr bytes, put_direct h c))
       else if k > UINT32_MAX \<or> k > SIZE_MAX div GDOX_LOGICAL_SECTOR_BYTES
       then (fail ERROR_OUT_OF_BOUNDS ''byte read is too large'', c)
       else if \<not> mem (k * GDOX_LOGICAL_SECTOR_BYTES)
       then (fail ERROR_INTERNAL ''could not allocate aligned read buffer'', c)
       else (case gdox_source_read ops (dd_source c) lba (u32_cast k) (k * GDOX_LOGICAL_SECTOR_BYTES) of
               (Inl e, h) \<Rightarrow> (Inl e, put_direct h c)
             | (Inr aligned, h) \<Rightarrow> (Inr (take r (drop w aligned)), put_direct h c)))"
    unfolding direct_read_at_def if_not_P[OF False] Let_def r_def[symmetric] w_def[symmetric] lba_def[symmetric] k_def[symmetric] ..
  have wl: "w < GDOX_LOGICAL_SECTOR_BYTES" by (simp add: w_def)
  have span_fits: "\<not> r > SIZE_MAX - w" using r(2) off len(2) by (simp add: SIZE_MAX_def)
  show ?thesis
  proof (cases "w = 0 \<and> r mod GDOX_LOGICAL_SECTOR_BYTES = 0 \<and> r div GDOX_LOGICAL_SECTOR_BYTES \<le> UINT32_MAX")
    case True
    let ?b = "r div GDOX_LOGICAL_SECTOR_BYTES"
    have b: "r = ?b * GDOX_LOGICAL_SECTOR_BYTES" using True div_mult_mod_eq[of r GDOX_LOGICAL_SECTOR_BYTES] by linarith
    have b32: "?b < two32" using True by (simp add: UINT32_MAX_def)
    have b0: "0 < ?b" using b r(1) by (cases "?b") auto
    have "lba * GDOX_LOGICAL_SECTOR_BYTES + ?b * GDOX_LOGICAL_SECTOR_BYTES \<le> op_sector_count ops s * GDOX_LOGICAL_SECTOR_BYTES"
      using r(2) off True b len(1) by linarith
    then have inside: "lba + ?b \<le> op_sector_count ops s" by simp
    have rd: "direct_read_at mem ops c offset n =
        (case gdox_source_read ops (Some s) lba ?b (?b * GDOX_LOGICAL_SECTOR_BYTES) of
           (Inl e, h) \<Rightarrow> (Inl e, put_direct h c)
         | (Inr bytes, h) \<Rightarrow> (Inr bytes, put_direct h c))"
      unfolding step if_not_P[OF span_fits] if_P[OF True] using b32 b assms(2) by simp
    show ?thesis
    proof (rule sectors[OF b0 b32 inside])
      show "offset = lba * GDOX_LOGICAL_SECTOR_BYTES + 0" using off True by simp
      show "0 + min n (dd_length c - offset) \<le> ?b * GDOX_LOGICAL_SECTOR_BYTES" using b rmin by linarith
      show "direct_read_at mem ops c offset n =
        (case gdox_source_read ops (Some s) lba ?b (?b * GDOX_LOGICAL_SECTOR_BYTES) of
           (Inl e, h) \<Rightarrow> (Inl e, put_direct h c)
         | (Inr bytes, h) \<Rightarrow> (Inr (if True then bytes else take (min n (dd_length c - offset)) (drop 0 bytes)), put_direct h c))"
        using rd by (simp only: if_True)
      show "0 = (0 :: nat) \<and> min n (dd_length c - offset) = ?b * GDOX_LOGICAL_SECTOR_BYTES" using b rmin by linarith
    qed
  next
    case partial: False
    show ?thesis
    proof (cases "k > UINT32_MAX \<or> k > SIZE_MAX div GDOX_LOGICAL_SECTOR_BYTES \<or> \<not> mem (k * GDOX_LOGICAL_SECTOR_BYTES)")
      case True
      have "\<not> (n \<le> UINT32_MAX \<and> (\<forall>k. mem k))"
      proof
        assume small: "n \<le> UINT32_MAX \<and> (\<forall>k. mem k)"
        have "w + r + 2047 \<le> 2048 + UINT32_MAX + 2047" using small r(3) wl by simp
        then have sm: "k \<le> (2048 + UINT32_MAX + 2047) div GDOX_LOGICAL_SECTOR_BYTES"
          unfolding k_def by (subst u64_add_id) (auto simp: UINT32_MAX_def intro!: div_le_mono)
        show False using True small sm by (simp add: UINT32_MAX_def SIZE_MAX_def)
      qed
      then show ?thesis
        using refused step span_fits partial True by (auto split: if_splits)
    next
      case False
      have cov: "0 < k \<and> w + r \<le> k * GDOX_LOGICAL_SECTOR_BYTES \<and> lba + k \<le> op_sector_count ops s"
        unfolding lba_def
        by (rule covering_request[OF _ len _ r_def w_def k_def]) (use False \<open>\<not> (n = 0 \<or> dd_length c \<le> offset)\<close> in auto)
      have k32: "k < two32" using False by (simp add: UINT32_MAX_def)
      have rd: "direct_read_at mem ops c offset n =
        (case gdox_source_read ops (Some s) lba k (k * GDOX_LOGICAL_SECTOR_BYTES) of
           (Inl e, h) \<Rightarrow> (Inl e, put_direct h c)
         | (Inr bytes, h) \<Rightarrow> (Inr (take r (drop w bytes)), put_direct h c))"
        unfolding step if_not_P[OF span_fits] if_not_P[OF partial] using False k32 assms(2) by simp
      show ?thesis
      proof (rule sectors[OF _ k32 _ off])
        show "0 < k" "lba + k \<le> op_sector_count ops s" using cov by simp_all
        show "w + min n (dd_length c - offset) \<le> k * GDOX_LOGICAL_SECTOR_BYTES" using cov rmin by simp
        show "direct_read_at mem ops c offset n =
          (case gdox_source_read ops (Some s) lba k (k * GDOX_LOGICAL_SECTOR_BYTES) of
             (Inl e, h) \<Rightarrow> (Inl e, put_direct h c)
           | (Inr bytes, h) \<Rightarrow> (Inr (if False then bytes else take (min n (dd_length c - offset)) (drop w bytes)), put_direct h c))"
          using rd by (simp only: if_False rmin)
        show "w = 0 \<and> min n (dd_length c - offset) = k * GDOX_LOGICAL_SECTOR_BYTES" if False using that ..
      qed
    qed
  qed
qed

context sector_source
begin

lemma direct_read_view:
  assumes "direct_valid ops valid c" and "direct_read_at mem ops c offset n = (r, c')"
  shows "disc_kept (direct_ops mem ops) (direct_valid ops valid) (direct_contents contents) c c'
    \<and> (\<forall>bs. r = Inr bs \<longrightarrow> bs = span (direct_contents contents c) offset (min n (dd_length c - offset)))"
proof -
  obtain s where s: "dd_source c = Some s" "valid s" using assms(1) by (auto simp: direct_valid_def split: option.splits)
  have cont: "direct_contents contents c = contents s" using s(1) by (simp add: direct_contents_def)
  have refl: "disc_kept (direct_ops mem ops) (direct_valid ops valid) (direct_contents contents) c c"
    using assms(1) by (simp add: disc_kept_def)
  show ?thesis
  proof (rule direct_read_cases[OF assms(1) s(1), of n offset mem])
    assume "n = 0 \<or> dd_length c \<le> offset" "direct_read_at mem ops c offset n = (Inr [], c)"
    then show ?thesis using refl assms(2) by auto
  next
    fix e assume "direct_read_at mem ops c offset n = (Inl e, c)"
    then show ?thesis using refl assms(2) by auto
  next
    fix lba blocks w whole
    assume a: "0 < blocks" "lba + blocks \<le> op_sector_count ops s" "offset = lba * GDOX_LOGICAL_SECTOR_BYTES + w"
      "w + min n (dd_length c - offset) \<le> blocks * GDOX_LOGICAL_SECTOR_BYTES"
      "whole \<Longrightarrow> w = 0 \<and> min n (dd_length c - offset) = blocks * GDOX_LOGICAL_SECTOR_BYTES"
      and rd: "direct_read_at mem ops c offset n =
        (case gdox_source_read ops (Some s) lba blocks (blocks * GDOX_LOGICAL_SECTOR_BYTES) of
           (Inl e, h) \<Rightarrow> (Inl e, put_direct h c)
         | (Inr bytes, h) \<Rightarrow>
             (Inr (if whole then bytes else take (min n (dd_length c - offset)) (drop w bytes)), put_direct h c))"
    obtain q h where q: "gdox_source_read ops (Some s) lba blocks (blocks * GDOX_LOGICAL_SECTOR_BYTES) = (q, h)" by fastforce
    obtain s' where s': "h = Some s'" "view_kept ops valid contents s s'"
      and bs: "\<And>bs. q = Inr bs \<Longrightarrow> bs = span (contents s) (lba * GDOX_LOGICAL_SECTOR_BYTES) (blocks * GDOX_LOGICAL_SECTOR_BYTES)"
      using source_read_view[OF s(2) q] by blast
    note kept = direct_put_kept[OF assms(1) s(1) s'(2), of mem]
    show ?thesis
    proof (cases q)
      case (Inl e)
      then have "r = Inl e" "c' = put_direct h c" using assms(2) rd q by simp_all
      then show ?thesis using kept s'(1) by simp
    next
      case (Inr bytes)
      have "(if whole then bytes else take (min n (dd_length c - offset)) (drop w bytes)) =
          span (contents s) offset (min n (dd_length c - offset))"
        using bs[OF Inr] a(3,4,5) by (cases whole) (simp_all add: take_span drop_span min_absorb1)
      then show ?thesis using assms(2) rd q kept s'(1) Inr cont by auto
    qed
  qed
qed

lemma direct_random_disc:
  "random_disc (direct_ops mem ops) (direct_valid ops valid) (direct_contents contents)"
proof
  fix d offset n r d' assume v: "direct_valid ops valid d" and "dop_read_at (direct_ops mem ops) d offset n = (r, d')"
  then show "disc_kept (direct_ops mem ops) (direct_valid ops valid) (direct_contents contents) d d'
      \<and> (\<forall>bs. r = Inr bs \<longrightarrow> bs = span (direct_contents contents d) offset (min n (dop_length (direct_ops mem ops) d - offset)))"
    using direct_read_view by (simp add: direct_length_def)
next
  fix d f b d' assume v: "direct_valid ops valid d" and f: "dop_media_present (direct_ops mem ops) = Some f" "f d = (b, d')"
  obtain s where s: "dd_source d = Some s" "valid s" using v by (auto simp: direct_valid_def split: option.splits)
  show "disc_kept (direct_ops mem ops) (direct_valid ops valid) (direct_contents contents) d d'"
    using forward_media_view[where get = dd_source and put = put_direct, OF s, of b d'] f direct_put_kept[OF v s(1)]
    by (auto simp: direct_media_present_def)
next
  fix d g ob d' assume v: "direct_valid ops valid d" and g: "dop_observe_media (direct_ops mem ops) = Some g" "g d = (ob, d')"
  obtain s where s: "dd_source d = Some s" "valid s" using v by (auto simp: direct_valid_def split: option.splits)
  show "disc_kept (direct_ops mem ops) (direct_valid ops valid) (direct_contents contents) d d'"
    using forward_observe_view[where get = dd_source and put = put_direct, OF s, of ob d'] g direct_put_kept[OF v s(1)]
    by (auto simp: direct_observe_media_def)
next
  fix d h assume v: "direct_valid ops valid d" and h: "dop_abort (direct_ops mem ops) = Some h"
  obtain s where s: "dd_source d = Some s" "valid s" using v by (auto simp: direct_valid_def split: option.splits)
  show "disc_kept (direct_ops mem ops) (direct_valid ops valid) (direct_contents contents) d (h d)"
    using forward_abort_view[where get = dd_source and put = put_direct, OF s] h direct_put_kept[OF v s(1)]
    by (auto simp: direct_abort_def)
qed

lemma disc_from_source_valid:
  assumes "gdox_disc_from_source mem ops (Some s) = (Inr (), source, disc)" and "valid s"
  shows "source = None \<and> (\<exists>c. disc = Some c \<and> dd_source c = Some s \<and> direct_valid ops valid c
    \<and> direct_contents contents c = contents s \<and> dd_length c = op_sector_count ops s * GDOX_LOGICAL_SECTOR_BYTES)"
proof -
  have "op_sector_count ops s \<le> UINT64_MAX div GDOX_LOGICAL_SECTOR_BYTES"
    using assms(1) by (auto simp: gdox_disc_from_source_def source_length_def Let_def split: if_splits)
  then have "op_sector_count ops s * GDOX_LOGICAL_SECTOR_BYTES < two64" by (simp add: UINT64_MAX_def)
  then show ?thesis
    using assms
    by (auto simp: gdox_disc_from_source_def source_length_def direct_valid_def direct_contents_def Let_def split: if_splits)
qed

end

context reliable_source
begin

lemma direct_ready_disc:
  assumes "\<And>k. mem k"
  shows "ready_disc (direct_ops mem ops) (direct_valid ops valid) (direct_contents contents) (direct_ready ready) UINT32_MAX"
proof (rule ready_disc.intro[OF direct_random_disc], standard)
  fix d n offset
  assume v: "direct_valid ops valid d" and rdy: "direct_ready ready d" and n: "n \<le> UINT32_MAX"
  obtain s where s: "dd_source d = Some s" "valid s" "ready s"
    using v rdy by (auto simp: direct_valid_def direct_ready_def split: option.splits)
  show "\<exists>bs d'. dop_read_at (direct_ops mem ops) d offset n = (Inr bs, d') \<and> direct_ready ready d'"
  proof (rule direct_read_cases[OF v s(1), of n offset mem])
    assume "direct_read_at mem ops d offset n = (Inr [], d)"
    then show ?thesis using rdy by simp
  next
    assume "\<not> (n \<le> UINT32_MAX \<and> (\<forall>k. mem k))"
    then show ?thesis using n assms by simp
  next
    fix lba blocks w whole
    assume a: "0 < blocks" "blocks < two32" "lba + blocks \<le> op_sector_count ops s"
      and rd: "direct_read_at mem ops d offset n =
        (case gdox_source_read ops (Some s) lba blocks (blocks * GDOX_LOGICAL_SECTOR_BYTES) of
           (Inl e, h) \<Rightarrow> (Inl e, put_direct h d)
         | (Inr bytes, h) \<Rightarrow>
             (Inr (if whole then bytes else take (min n (dd_length d - offset)) (drop w bytes)), put_direct h d))"
    then show ?thesis using source_read_ready[OF s(2,3) a(1,3,2)] by (auto simp: direct_ready_def)
  qed
qed

end

interpretation file_disc: ready_disc "direct_ops (\<lambda>_. True) file_ops" "direct_valid file_ops file_valid"
  "direct_contents file_contents" "direct_ready file_ready" UINT32_MAX
  by (rule file_source.direct_ready_disc) simp

section \<open>Shutdown\<close>

definition disc_prepare_step :: "'d disc_ops \<Rightarrow> 'd \<Rightarrow> unit res \<times> 'd" where
  "disc_prepare_step dops d = (case dop_prepare_close dops of None \<Rightarrow> (Inr (), d) | Some f \<Rightarrow> f d)"

lemma gdox_disc_prepare_close_Some:
  "gdox_disc_prepare_close dops (Some d) = (case disc_prepare_step dops d of (r, d') \<Rightarrow> (r, Some d'))"
  by (simp add: gdox_disc_prepare_close_def disc_prepare_step_def split: option.splits)

locale closable_disc =
  fixes dops :: "'d disc_ops" and prepared :: "'d \<Rightarrow> bool"
  assumes disc_prepare_ok: "disc_prepare_step dops d = (Inr (), d') \<Longrightarrow> prepared d'"
    and disc_prepare_again: "prepared d \<Longrightarrow> \<exists>d'. disc_prepare_step dops d = (Inr (), d') \<and> prepared d'"
    and disc_close_clean: "prepared d \<Longrightarrow> dop_close dops d = (r, lost) \<Longrightarrow> \<not> lost"
begin

lemma disc_close_keeps: "gdox_disc_close dops disc = (r, lost, disc') \<Longrightarrow> \<not> lost"
  by (auto simp: gdox_disc_close_def gdox_disc_prepare_close_Some
      split: option.splits prod.splits sum.splits dest: disc_prepare_ok disc_close_clean)

end

context closable_source
begin

lemma direct_closable_disc: "closable_disc (direct_ops mem ops) (\<lambda>c. \<exists>s. dd_source c = Some s \<and> prepared s)"
proof
  fix d d' :: "'s direct_disc_context" assume d: "disc_prepare_step (direct_ops mem ops) d = (Inr (), d')"
  show "\<exists>s. dd_source d' = Some s \<and> prepared s"
  proof (cases "dd_source d")
    case None
    then show ?thesis
      using d by (simp add: disc_prepare_step_def direct_prepare_close_def forward_prepare_close_def gdox_source_prepare_close_def)
  next
    case (Some s)
    then show ?thesis
      using d prepare_ok[of s]
      by (auto simp: disc_prepare_step_def direct_prepare_close_def forward_prepare_close_def gdox_source_prepare_close_Some
          split: prod.splits)
  qed
next
  fix d :: "'s direct_disc_context" assume "\<exists>s. dd_source d = Some s \<and> prepared s"
  then show "\<exists>d'. disc_prepare_step (direct_ops mem ops) d = (Inr (), d') \<and> (\<exists>s. dd_source d' = Some s \<and> prepared s)"
    using prepare_again
    by (fastforce simp: disc_prepare_step_def direct_prepare_close_def forward_prepare_close_def gdox_source_prepare_close_Some
        split: prod.splits)
next
  fix d :: "'s direct_disc_context" and r lost assume "\<exists>s. dd_source d = Some s \<and> prepared s" "dop_close (direct_ops mem ops) d = (r, lost)"
  then show "\<not> lost" using forward_close_clean[where get = dd_source and c = d] by (auto simp: direct_close_def)
qed

end

interpretation file_disc_closable: closable_disc "direct_ops mem file_ops" "\<lambda>c. \<exists>s. dd_source c = Some s \<and> True"
  by (rule file_closable.direct_closable_disc)

section \<open>Properties\<close>

text \<open>
  C32: A disc made from a source shows the bytes of the source: in any sequence of reads of up to
  4 GiB at any offsets, aligned or not, each returns the bytes from there on, cut at the end of the disc (none at or past it).
\<close>
theorem disc_reads_source_bytes:
  assumes "reliable_source ops valid contents ready" and "valid s" and "ready s" and "\<And>k. mem k"
    and "op_sector_count ops s \<le> UINT64_MAX div GDOX_LOGICAL_SECTOR_BYTES"
    and "list_all (\<lambda>(offset, n). n \<le> UINT32_MAX) requests"
  shows "\<exists>d. gdox_disc_from_source mem ops (Some s) = (Inr (), None, Some d)
    \<and> gdox_disc_length (direct_ops mem ops) (Some d) = op_sector_count ops s * GDOX_LOGICAL_SECTOR_BYTES
    \<and> fst (disc_reads (direct_ops mem ops) requests (Some d)) =
        disc_answers (contents s) (op_sector_count ops s * GDOX_LOGICAL_SECTOR_BYTES) requests"
proof -
  have m: "gdox_disc_from_source mem ops (Some s) = (Inr (), None,
      Some \<lparr>dd_source = Some s, dd_length = u64_mul (op_sector_count ops s) GDOX_LOGICAL_SECTOR_BYTES\<rparr>)"
    using assms(4,5) by (simp add: gdox_disc_from_source_def source_length_def)
  obtain c where c: "gdox_disc_from_source mem ops (Some s) = (Inr (), None, Some c)" "dd_source c = Some s"
      "direct_valid ops valid c" "direct_contents contents c = contents s"
      "dd_length c = op_sector_count ops s * GDOX_LOGICAL_SECTOR_BYTES"
    using sector_source.disc_from_source_valid[OF reliable_source.axioms(1)[OF assms(1)] m assms(2)] m by auto
  have "direct_ready ready c" using assms(3) c(2) by (simp add: direct_ready_def)
  from ready_disc.disc_reads_ready[OF reliable_source.direct_ready_disc[where mem = mem, OF assms(1,4)] c(3) this assms(6)]
  show ?thesis using c by (auto simp: gdox_disc_length_def direct_length_def)
qed

theorem disc_reads_source_bytes_witness:
  "\<exists>d. gdox_disc_from_source (\<lambda>_. True) file_ops (Some sample_file) = (Inr (), None, Some d)
    \<and> gdox_disc_length (direct_ops (\<lambda>_. True) file_ops) (Some d) = op_sector_count file_ops sample_file * GDOX_LOGICAL_SECTOR_BYTES
    \<and> fst (disc_reads (direct_ops (\<lambda>_. True) file_ops) [(2040, 100), (8190, 100), (9000, 1)] (Some d)) =
        disc_answers (file_contents sample_file) (op_sector_count file_ops sample_file * GDOX_LOGICAL_SECTOR_BYTES)
          [(2040, 100), (8190, 100), (9000, 1)]"
  by (rule disc_reads_source_bytes[OF file_source.reliable_source_axioms]) (simp_all add: UINT64_MAX_def UINT32_MAX_def)



end
