(* ===== verification/LiveSource.thy ===== *)
theory LiveSource
  imports FileReadaheadSource DefaultXbeCache PartitionSource
begin

text \<open>
  What a live disc needs of its stack of sources. A handle of the C code carries its own operation
  table, so \<open>streamed\<close> of src/src/core/live.c may hold either the prepared source itself or a read-ahead
  source over it: \<open>either_ops\<close> is the table behind such a handle. A \<open>steady\<close> source is a reliable
  one whose medium is not reported as leaving, so that a read-ahead session can be established on it.
\<close>

section \<open>A handle on one of two sources\<close>

definition either_read ::
  "'a source_ops \<Rightarrow> 'b source_ops \<Rightarrow> 'a + 'b \<Rightarrow> u64 \<Rightarrow> u32 \<Rightarrow> nat \<Rightarrow> byte list res \<times> ('a + 'b)" where
  "either_read aops bops x lba blocks n =
     (case x of
        Inl a \<Rightarrow> (case op_read aops a lba blocks n of (r, a) \<Rightarrow> (r, Inl a))
      | Inr b \<Rightarrow> (case op_read bops b lba blocks n of (r, b) \<Rightarrow> (r, Inr b)))"

definition either_media_present :: "'a source_ops \<Rightarrow> 'b source_ops \<Rightarrow> 'a + 'b \<Rightarrow> bool \<times> ('a + 'b)" where
  "either_media_present aops bops x =
     (case x of
        Inl a \<Rightarrow> (case gdox_source_media_present aops (Some a) of (p, h) \<Rightarrow> (p, Inl (the h)))
      | Inr b \<Rightarrow> (case gdox_source_media_present bops (Some b) of (p, h) \<Rightarrow> (p, Inr (the h))))"

definition either_observe_media ::
  "'a source_ops \<Rightarrow> 'b source_ops \<Rightarrow> 'a + 'b \<Rightarrow> media_observation \<times> ('a + 'b)" where
  "either_observe_media aops bops x =
     (case x of
        Inl a \<Rightarrow> (case gdox_source_observe_media aops (Some a) of (_, ob, h) \<Rightarrow> (ob, Inl (the h)))
      | Inr b \<Rightarrow> (case gdox_source_observe_media bops (Some b) of (_, ob, h) \<Rightarrow> (ob, Inr (the h))))"

definition either_abort :: "'a source_ops \<Rightarrow> 'b source_ops \<Rightarrow> 'a + 'b \<Rightarrow> 'a + 'b" where
  "either_abort aops bops x =
     (case x of
        Inl a \<Rightarrow> Inl (the (gdox_source_abort aops (Some a)))
      | Inr b \<Rightarrow> Inr (the (gdox_source_abort bops (Some b))))"

definition either_prepare_close :: "'a source_ops \<Rightarrow> 'b source_ops \<Rightarrow> 'a + 'b \<Rightarrow> unit res \<times> ('a + 'b)" where
  "either_prepare_close aops bops x =
     (case x of
        Inl a \<Rightarrow> (case prepare_step aops a of (r, a) \<Rightarrow> (r, Inl a))
      | Inr b \<Rightarrow> (case prepare_step bops b of (r, b) \<Rightarrow> (r, Inr b)))"

definition either_ops :: "'a source_ops \<Rightarrow> 'b source_ops \<Rightarrow> ('a + 'b) source_ops" where
  "either_ops aops bops =
     \<lparr>op_sector_count = case_sum (op_sector_count aops) (op_sector_count bops),
      op_read = either_read aops bops,
      op_media_present = Some (either_media_present aops bops),
      op_close = case_sum (op_close aops) (op_close bops),
      op_evidence = Some (case_sum (\<lambda>a. gdox_source_evidence aops (Some a)) (\<lambda>b. gdox_source_evidence bops (Some b))),
      op_physical_read_stats = Some (case_sum (\<lambda>a. gdox_source_physical_read_stats aops (Some a))
                                              (\<lambda>b. gdox_source_physical_read_stats bops (Some b))),
      op_abort = Some (either_abort aops bops),
      op_prepare_close = Some (either_prepare_close aops bops),
      op_observe_media = Some (either_observe_media aops bops)\<rparr>"

lemma either_ops_simps [simp]:
  "op_sector_count (either_ops aops bops) = case_sum (op_sector_count aops) (op_sector_count bops)"
  "op_read (either_ops aops bops) = either_read aops bops"
  "op_media_present (either_ops aops bops) = Some (either_media_present aops bops)"
  "op_close (either_ops aops bops) = case_sum (op_close aops) (op_close bops)"
  "op_abort (either_ops aops bops) = Some (either_abort aops bops)"
  "op_prepare_close (either_ops aops bops) = Some (either_prepare_close aops bops)"
  "op_observe_media (either_ops aops bops) = Some (either_observe_media aops bops)"
  by (simp_all add: either_ops_def)

lemma either_kept [simp]:
  "view_kept (either_ops aops bops) (case_sum va vb) (case_sum ca cb) (Inl a) (Inl a') = view_kept aops va ca a a'"
  "view_kept (either_ops aops bops) (case_sum va vb) (case_sum ca cb) (Inr b) (Inr b') = view_kept bops vb cb b b'"
  by (simp_all add: view_kept_def)

lemma either_sector_source:
  assumes "sector_source aops va ca" and "sector_source bops vb cb"
  shows "sector_source (either_ops aops bops) (case_sum va vb) (case_sum ca cb)"
proof
  fix x assume "case_sum va vb x"
  then show "op_sector_count (either_ops aops bops) x < two64"
    using sector_source.count_less[OF assms(1)] sector_source.count_less[OF assms(2)] by (cases x) auto
next
  fix x lba blocks n r x'
  assume "case_sum va vb x"
    and "gdox_source_validate_read (op_sector_count (either_ops aops bops) x) lba blocks n = Inr ()"
    and "op_read (either_ops aops bops) x lba blocks n = (r, x')"
  then show "view_kept (either_ops aops bops) (case_sum va vb) (case_sum ca cb) x x'
      \<and> (\<forall>bs. r = Inr bs \<longrightarrow>
          bs = span (case_sum ca cb x) (lba * GDOX_LOGICAL_SECTOR_BYTES) (blocks * GDOX_LOGICAL_SECTOR_BYTES))"
    using sector_source.read_view[OF assms(1)] sector_source.read_view[OF assms(2)]
    by (cases x) (auto simp: either_read_def split: prod.splits)
next
  fix x f p x'
  assume "case_sum va vb x" and "op_media_present (either_ops aops bops) = Some f" and "f x = (p, x')"
  then show "view_kept (either_ops aops bops) (case_sum va vb) (case_sum ca cb) x x'"
    using sector_source.source_media_view[OF assms(1)] sector_source.source_media_view[OF assms(2)]
    by (cases x) (fastforce simp: either_media_present_def split: prod.splits)+
next
  fix x g
  assume "case_sum va vb x" and "op_abort (either_ops aops bops) = Some g"
  then show "view_kept (either_ops aops bops) (case_sum va vb) (case_sum ca cb) x (g x)"
    using sector_source.source_abort_view[OF assms(1)] sector_source.source_abort_view[OF assms(2)]
    by (cases x) (fastforce simp: either_abort_def)+
next
  fix x h q x'
  assume "case_sum va vb x" and "op_prepare_close (either_ops aops bops) = Some h" and "h x = (q, x')"
  then show "view_kept (either_ops aops bops) (case_sum va vb) (case_sum ca cb) x x'"
    using sector_source.source_prepare_view[OF assms(1)] sector_source.source_prepare_view[OF assms(2)]
    by (cases x) (fastforce simp: either_prepare_close_def gdox_source_prepare_close_Some split: prod.splits)+
next
  fix x k ob x'
  assume "case_sum va vb x" and "op_observe_media (either_ops aops bops) = Some k" and "k x = (ob, x')"
  then show "view_kept (either_ops aops bops) (case_sum va vb) (case_sum ca cb) x x'"
    using sector_source.source_observe_view[OF assms(1)] sector_source.source_observe_view[OF assms(2)]
    by (cases x) (fastforce simp: either_observe_media_def split: prod.splits)+
qed

lemma either_reliable_source:
  assumes "reliable_source aops va ca ra" and "reliable_source bops vb cb rb"
  shows "reliable_source (either_ops aops bops) (case_sum va vb) (case_sum ca cb) (case_sum ra rb)"
proof (rule reliable_source.intro)
  show "sector_source (either_ops aops bops) (case_sum va vb) (case_sum ca cb)"
    using assms by (intro either_sector_source reliable_source.axioms(1))
next
  show "reliable_source_axioms (either_ops aops bops) (case_sum va vb) (case_sum ra rb)"
  proof
    fix x lba blocks n
    assume "case_sum va vb x" and "case_sum ra rb x"
      and "gdox_source_validate_read (op_sector_count (either_ops aops bops) x) lba blocks n = Inr ()"
    then show "\<exists>bs x'. op_read (either_ops aops bops) x lba blocks n = (Inr bs, x') \<and> case_sum ra rb x'"
      using reliable_source.ready_read[OF assms(1)] reliable_source.ready_read[OF assms(2)]
      by (cases x) (fastforce simp: either_read_def)+
  qed
qed

lemma either_closable_source:
  assumes "closable_source aops pa" and "closable_source bops pb"
  shows "closable_source (either_ops aops bops) (case_sum pa pb)"
proof
  fix x x' assume "prepare_step (either_ops aops bops) x = (Inr (), x')"
  then show "case_sum pa pb x'"
    using closable_source.prepare_ok[OF assms(1)] closable_source.prepare_ok[OF assms(2)]
    by (cases x) (auto simp: prepare_step_def[of "either_ops aops bops"] either_prepare_close_def split: prod.splits)
next
  fix x assume "case_sum pa pb x"
  then show "\<exists>x'. prepare_step (either_ops aops bops) x = (Inr (), x') \<and> case_sum pa pb x'"
    using closable_source.prepare_again[OF assms(1)] closable_source.prepare_again[OF assms(2)]
    by (cases x) (fastforce simp: prepare_step_def[of "either_ops aops bops"] either_prepare_close_def)+
next
  fix x r lost assume "case_sum pa pb x" and "op_close (either_ops aops bops) x = (r, lost)"
  then show "\<not> lost"
    using closable_source.close_clean[OF assms(1)] closable_source.close_clean[OF assms(2)]
    by (cases x) fastforce+
qed

section \<open>Steady sources\<close>

locale steady_source = reliable_source +
  assumes steady_observe: "valid s \<Longrightarrow> ready s \<Longrightarrow>
      \<exists>ob s'. gdox_source_observe_media ops (Some s) = (True, ob, Some s') \<and> ready s' \<and> \<not> ends_session ob"
begin

lemma adapter_steady:
  assumes "reliable_source aops avalid acontents aready"
    and "op_observe_media aops = Some (forward_observe_media get put ops)"
    and "\<And>c. avalid c \<Longrightarrow> aready c \<Longrightarrow> \<exists>s. get c = Some s \<and> valid s \<and> ready s"
    and "\<And>c s. aready c \<Longrightarrow> ready s \<Longrightarrow> aready (put (Some s) c)"
  shows "steady_source aops avalid acontents aready"
proof (rule steady_source.intro[OF assms(1)], standard)
  fix c assume c: "avalid c" "aready c"
  obtain s where s: "get c = Some s" "valid s" "ready s" using assms(3)[OF c] by blast
  obtain ob s' where o: "gdox_source_observe_media ops (Some s) = (True, ob, Some s')" "ready s'" "\<not> ends_session ob"
    using steady_observe[OF s(2,3)] by blast
  have "gdox_source_observe_media aops (Some c) = (True, clamp_observation ob, Some (put (Some s') c))"
    using assms(2) s(1) o(1) by (simp add: gdox_source_observe_media_def[of aops] forward_observe_media_def)
  moreover have "\<not> ends_session (clamp_observation ob)" using o(3) by (auto simp: ends_session_def clamp_observation_def)
  ultimately show "\<exists>ob c'. gdox_source_observe_media aops (Some c) = (True, ob, Some c') \<and> aready c' \<and> \<not> ends_session ob"
    using assms(4)[OF c(2) o(2)] by blast
qed

lemma partition_steady:
  "steady_source (partition_ops ops) (partition_valid ops valid) (partition_contents contents) (partition_ready ready)"
  by (rule adapter_steady[OF partition_reliable_source, of pc_inner put_partition])
    (auto simp: partition_observe_media_def[abs_def] partition_valid_def partition_ready_def split: option.splits)

lemma cached_steady:
  "steady_source (cache_ops ops) (cached_valid ops valid contents) (cached_contents contents) (cached_ready ready)"
  by (rule adapter_steady[OF cached_reliable_source, of dx_inner put_cached])
    (auto simp: cache_observe_media_def[abs_def] cached_valid_def cached_ready_def request_cancelled_def split: option.splits)

lemma default_steady:
  "steady_source (default_cache_ops ops) (default_valid ops valid) (default_contents contents) (default_ready ready)"
  by (rule adapter_steady[OF default_reliable_source, of dq_inner put_default])
    (auto simp: default_cache_observe_media_def[abs_def] default_valid_def default_ready_def split: option.splits)

end

abbreviation file_intact :: "file_context \<Rightarrow> bool" where
  "file_intact fc \<equiv> file_valid fc \<and> file_ready fc"

lemma file_intact_kept: "view_kept file_ops file_valid file_contents fc fc' \<Longrightarrow> file_ready fc' \<Longrightarrow>
   view_kept file_ops file_intact file_contents fc fc'"
  by (simp add: view_kept_def)

interpretation file_steady: steady_source file_ops file_intact file_contents file_intact
proof
  fix fc assume "file_intact fc"
  then show "op_sector_count file_ops fc < two64" using file_source.count_less by blast
next
  fix fc lba blocks n r fc'
  assume a: "file_intact fc" and rq: "gdox_source_validate_read (op_sector_count file_ops fc) lba blocks n = Inr ()"
    and rd: "op_read file_ops fc lba blocks n = (r, fc')"
  have "file_ready fc'" using file_source.ready_read[of fc lba blocks n] a rq rd by auto
  then show "view_kept file_ops file_intact file_contents fc fc'
      \<and> (\<forall>bs. r = Inr bs \<longrightarrow>
           bs = span (file_contents fc) (lba * GDOX_LOGICAL_SECTOR_BYTES) (blocks * GDOX_LOGICAL_SECTOR_BYTES))"
    using file_source.read_view[of fc lba blocks n r fc'] a rq rd file_intact_kept by blast
next
  fix fc lba blocks n
  assume a: "file_intact fc" and rq: "gdox_source_validate_read (op_sector_count file_ops fc) lba blocks n = Inr ()"
  show "\<exists>bs s'. op_read file_ops fc lba blocks n = (Inr bs, s') \<and> file_intact s'"
    using file_source.ready_read[of fc lba blocks n] file_source.read_view[of fc lba blocks n] a rq
    by (fastforce simp: view_kept_def)
qed (auto simp: file_media_present_def file_observe_media_def view_kept_def gdox_source_observe_media_def
    clamp_observation_def ends_session_def)

end
