(* ===== verification/LiveDisc.thy ===== *)
theory LiveDisc
  imports LiveSource Disc
begin

text \<open>
  The live disc of src/src/core/live.c: the volume of a whole medium is located and inspected, and its game
  partition is wrapped by the directory cache, the default XBE cache, the optional read-ahead and the XBE
  compatibility source; a random-access disc over that stack is what an emulator reads. Until the disc
  exists every stage owns the stages beneath, so that a failure closes what was built, and a source that
  cannot be closed goes back to the caller for another attempt.
\<close>

section \<open>Titles and identity\<close>

definition GDOX_LIVE_TITLE_CAPACITY :: nat where "GDOX_LIVE_TITLE_CAPACITY = 256"

record live_disc_info =
  li_title :: cstring
  li_title_id :: "u32 option"
  li_game_partition_lba :: u64
  li_input_sectors :: u64
  li_output_sectors :: u64

text \<open>\<open>memset(info, 0, sizeof *info)\<close>; a title is the bytes before its terminator.\<close>

definition empty_info :: live_disc_info where
  "empty_info = \<lparr>li_title = [], li_title_id = None, li_game_partition_lba = 0, li_input_sectors = 0, li_output_sectors = 0\<rparr>"

definition copy_title :: "cstring option \<Rightarrow> cstring" where
  "copy_title title =
     (let source = (case title of Some t \<Rightarrow> t | None \<Rightarrow> ascii ''Original Xbox disc'');
          n = length source
      in take (if n \<ge> GDOX_LIVE_TITLE_CAPACITY then GDOX_LIVE_TITLE_CAPACITY - 1 else n) source)"

definition require_playable_default_xbe :: "xdvdfs_metadata \<Rightarrow> unit res" where
  "require_playable_default_xbe metadata =
     (if md_default_xbe_index metadata = GDOX_XDVDFS_NO_ENTRY
      then fail ERROR_INVALID_VOLUME ''Original Xbox media has no root default.xbe''
      else if md_title_id metadata = None \<or> md_title_id metadata = Some 0
      then fail ERROR_INVALID_VOLUME ''Original Xbox default.xbe has no valid executable identity''
      else Inr ())"

text \<open>\<open>wanted\<close> says that the caller gave an \<open>info\<close> to fill.\<close>

definition gdox_live_disc_identify ::
  "(nat \<Rightarrow> bool) \<Rightarrow> 's source_ops \<Rightarrow> 's sector_source \<Rightarrow> bool \<Rightarrow> live_disc_info res \<times> 's sector_source" where
  "gdox_live_disc_identify mem ops whole_source wanted =
     (if \<not> gdox_source_is_valid whole_source \<or> \<not> wanted
      then (fail ERROR_INVALID_ARGUMENT ''an open source and disc information are required'', whole_source)
      else (case gdox_xdvdfs_find_volume (mem (GDOX_XDVDFS_SCAN_BATCH * GDOX_LOGICAL_SECTOR_BYTES)) ops whole_source of
              (Inl e, whole_source) \<Rightarrow> (Inl e, whole_source)
            | (Inr volume, whole_source) \<Rightarrow>
                (case gdox_xdvdfs_inspect mem ops whole_source volume of
                   (Inl e, whole_source) \<Rightarrow> (Inl e, whole_source)
                 | (Inr metadata, whole_source) \<Rightarrow>
                     (Inr (empty_info\<lparr>li_title := copy_title (md_title metadata),
                                     li_title_id := md_title_id metadata\<rparr>), whole_source))))"

section \<open>The handles of a build\<close>

type_synonym 's live_cached = "'s partition_context directory_cache_context"
type_synonym 's live_prepared = "'s live_cached default_xbe_cache_context"
type_synonym 's live_streamed = "'s live_prepared + 's live_prepared file_readahead_context"
type_synonym 's live_compatible = "'s live_streamed xbe_patch_context"
type_synonym 's live_disc = "'s live_compatible direct_disc_context"

abbreviation cached_live_ops :: "'s source_ops \<Rightarrow> 's live_cached source_ops" where
  "cached_live_ops ops \<equiv> cache_ops (partition_ops ops)"

abbreviation prepared_live_ops :: "'s source_ops \<Rightarrow> 's live_prepared source_ops" where
  "prepared_live_ops ops \<equiv> default_cache_ops (cached_live_ops ops)"

abbreviation streamed_live_ops :: "'s source_ops \<Rightarrow> 's live_streamed source_ops" where
  "streamed_live_ops ops \<equiv> either_ops (prepared_live_ops ops) (readahead_ops (prepared_live_ops ops))"

abbreviation compatible_live_ops :: "'s source_ops \<Rightarrow> 's live_compatible source_ops" where
  "compatible_live_ops ops \<equiv> xbe_patch_ops (streamed_live_ops ops)"

abbreviation disc_live_ops :: "(nat \<Rightarrow> bool) \<Rightarrow> 's source_ops \<Rightarrow> 's live_disc disc_ops" where
  "disc_live_ops mem ops \<equiv> direct_ops mem (compatible_live_ops ops)"

text \<open>
  The local handles, the caller's source, and whether an open source was lost by a close. A handle that is
  moved back into the caller's source keeps its type: \<open>retained\<close>.
\<close>

record 's live_handles =
  lh_whole :: "'s sector_source"
  lh_partition :: "'s partition_context sector_source"
  lh_directory_cached :: "'s live_cached sector_source"
  lh_prepared :: "'s live_prepared sector_source"
  lh_streamed :: "'s live_streamed sector_source"
  lh_compatible :: "'s live_compatible sector_source"
  lh_lost :: bool

datatype 's retained =
    RETAINED_NONE
  | RETAINED_WHOLE 's
  | RETAINED_PARTITION "'s partition_context"
  | RETAINED_CACHED "'s live_cached"
  | RETAINED_PREPARED "'s live_prepared"
  | RETAINED_STREAMED "'s live_streamed"
  | RETAINED_COMPATIBLE "'s live_compatible"

definition opened_handles :: "'s sector_source \<Rightarrow> 's live_handles" where
  "opened_handles whole = \<lparr>lh_whole = whole, lh_partition = None, lh_directory_cached = None, lh_prepared = None,
     lh_streamed = None, lh_compatible = None, lh_lost = False\<rparr>"

definition close_source :: "'a source_ops \<Rightarrow> 'a sector_source \<Rightarrow> unit res \<times> bool \<times> 'a sector_source" where
  "close_source ops source =
     (if gdox_source_is_valid source then gdox_source_close ops source else (Inr (), False, source))"

definition move_source_if_valid :: "('a \<Rightarrow> 's retained) \<Rightarrow> 'a sector_source \<Rightarrow> 's retained \<Rightarrow> 'a sector_source \<times> 's retained" where
  "move_source_if_valid held source output =
     (case source of
        None \<Rightarrow> (source, output)
      | Some s \<Rightarrow> if output = RETAINED_NONE then (None, held s) else (source, output))"

section \<open>Building\<close>

text \<open>The calls that wrap one source by the next, on the local handles.\<close>

definition wrap_partition ::
  "(nat \<Rightarrow> bool) \<Rightarrow> 's source_ops \<Rightarrow> u64 \<Rightarrow> 's live_handles \<Rightarrow> unit res \<times> 's live_handles" where
  "wrap_partition mem ops base h =
     (case gdox_source_make_partition (mem 32) ops (lh_whole h) base (lh_partition h) of
        (r, w, p) \<Rightarrow> (r, h\<lparr>lh_whole := w, lh_partition := p\<rparr>))"

definition wrap_directory_cache ::
  "(nat \<Rightarrow> bool) \<Rightarrow> 's source_ops \<Rightarrow> directory_cache option \<Rightarrow> 's live_handles \<Rightarrow> unit res \<times> 's live_handles" where
  "wrap_directory_cache mem ops cache h =
     (case gdox_source_make_xdvdfs_directory_cache (mem 32) (partition_ops ops) (lh_partition h) cache (lh_directory_cached h) of
        (r, p, _, d) \<Rightarrow> (r, h\<lparr>lh_partition := p, lh_directory_cached := d\<rparr>))"

definition wrap_default_xbe ::
  "(nat \<Rightarrow> bool) \<Rightarrow> 's source_ops \<Rightarrow> xdvdfs_metadata \<Rightarrow> 's live_handles \<Rightarrow> unit res \<times> 's live_handles" where
  "wrap_default_xbe mem ops md h =
     (case gdox_source_make_default_xbe_cache mem (cached_live_ops ops) (lh_directory_cached h) md of
        (r, d, q) \<Rightarrow> (r, h\<lparr>lh_directory_cached := d, lh_prepared := q\<rparr>))"

definition streamed_handle :: "'a readahead_output \<Rightarrow> ('a + 'a file_readahead_context) sector_source" where
  "streamed_handle output = (case output of Passed s \<Rightarrow> map_option Inl s | Readahead s \<Rightarrow> map_option Inr s)"

definition wrap_readahead ::
  "(nat \<Rightarrow> bool) \<Rightarrow> (nat \<Rightarrow> byte) \<Rightarrow> readahead_call list list \<Rightarrow> 's source_ops \<Rightarrow> xdvdfs_metadata \<Rightarrow> u32
     \<Rightarrow> 's live_handles \<Rightarrow> unit res \<times> 's live_handles" where
  "wrap_readahead mem junk calls ops md blocks h =
     (case gdox_source_make_file_readahead mem junk calls (prepared_live_ops ops) (lh_prepared h) (Some md) blocks of
        (r, q, output) \<Rightarrow> (r, h\<lparr>lh_prepared := q, lh_streamed := streamed_handle output\<rparr>))"

definition wrap_xbe_patch ::
  "(nat \<Rightarrow> bool) \<Rightarrow> 's source_ops \<Rightarrow> xdvdfs_metadata \<Rightarrow> 's live_handles \<Rightarrow> unit res \<times> 's live_handles" where
  "wrap_xbe_patch mem ops md h =
     (case gdox_source_make_xbe_patch_source mem (streamed_live_ops ops) (lh_streamed h) md of
        (r, t, c) \<Rightarrow> (r, h\<lparr>lh_streamed := t, lh_compatible := c\<rparr>))"

text \<open>One call after the success of another.\<close>

definition and_then :: "unit res \<times> 'h \<Rightarrow> ('h \<Rightarrow> unit res \<times> 'h) \<Rightarrow> unit res \<times> 'h" where
  "and_then out k = (case out of (Inl e, h) \<Rightarrow> (Inl e, h) | (Inr _, h) \<Rightarrow> k h)"

text \<open>The chain of calls up to the compatibility source.\<close>

definition live_stages ::
  "(nat \<Rightarrow> bool) \<Rightarrow> (nat \<Rightarrow> byte) \<Rightarrow> readahead_call list list \<Rightarrow> 's source_ops \<Rightarrow> u32 \<Rightarrow> 's live_handles
     \<Rightarrow> (xdvdfs_volume \<times> xdvdfs_metadata) res \<times> 's live_handles" where
  "live_stages mem junk calls ops blocks h =
     (case gdox_xdvdfs_find_volume (mem (GDOX_XDVDFS_SCAN_BATCH * GDOX_LOGICAL_SECTOR_BYTES)) ops (lh_whole h) of
        (Inl e, w) \<Rightarrow> (Inl e, h\<lparr>lh_whole := w\<rparr>)
      | (Inr v, w) \<Rightarrow>
     (case gdox_xdvdfs_inspect_with_directory_cache mem ops w v None of
        (Inl e, w, _) \<Rightarrow> (Inl e, h\<lparr>lh_whole := w\<rparr>)
      | (Inr md, w, cache) \<Rightarrow>
     (case and_then (require_playable_default_xbe md, h\<lparr>lh_whole := w\<rparr>)
             (\<lambda>h. and_then (wrap_partition mem ops (base_lba v) h)
             (\<lambda>h. and_then (wrap_directory_cache mem ops cache h)
             (\<lambda>h. and_then (wrap_default_xbe mem ops md h)
             (\<lambda>h. and_then (wrap_readahead mem junk calls ops md blocks h)
             (\<lambda>h. wrap_xbe_patch mem ops md h))))) of
        (Inl e, h) \<Rightarrow> (Inl e, h)
      | (Inr _, h) \<Rightarrow> (Inr (v, md), h))))"

text \<open>The five closes of the cleanup, each after the success of the one before.\<close>

definition close_compatible :: "'s source_ops \<Rightarrow> 's live_handles \<Rightarrow> unit res \<times> 's live_handles" where
  "close_compatible ops h = (case close_source (compatible_live_ops ops) (lh_compatible h) of
     (r, lost, c) \<Rightarrow> (r, h\<lparr>lh_compatible := c, lh_lost := (lh_lost h \<or> lost)\<rparr>))"

definition close_streamed :: "'s source_ops \<Rightarrow> 's live_handles \<Rightarrow> unit res \<times> 's live_handles" where
  "close_streamed ops h = (case close_source (streamed_live_ops ops) (lh_streamed h) of
     (r, lost, t) \<Rightarrow> (r, h\<lparr>lh_streamed := t, lh_lost := (lh_lost h \<or> lost)\<rparr>))"

definition close_prepared :: "'s source_ops \<Rightarrow> 's live_handles \<Rightarrow> unit res \<times> 's live_handles" where
  "close_prepared ops h = (case close_source (prepared_live_ops ops) (lh_prepared h) of
     (r, lost, q) \<Rightarrow> (r, h\<lparr>lh_prepared := q, lh_lost := (lh_lost h \<or> lost)\<rparr>))"

definition close_directory_cached :: "'s source_ops \<Rightarrow> 's live_handles \<Rightarrow> unit res \<times> 's live_handles" where
  "close_directory_cached ops h = (case close_source (cached_live_ops ops) (lh_directory_cached h) of
     (r, lost, d) \<Rightarrow> (r, h\<lparr>lh_directory_cached := d, lh_lost := (lh_lost h \<or> lost)\<rparr>))"

definition close_partition :: "'s source_ops \<Rightarrow> 's live_handles \<Rightarrow> unit res \<times> 's live_handles" where
  "close_partition ops h = (case close_source (partition_ops ops) (lh_partition h) of
     (r, lost, p) \<Rightarrow> (r, h\<lparr>lh_partition := p, lh_lost := (lh_lost h \<or> lost)\<rparr>))"

definition close_handles :: "'s source_ops \<Rightarrow> 's live_handles \<Rightarrow> unit res \<times> 's live_handles" where
  "close_handles ops h =
     and_then (close_compatible ops h) (\<lambda>h. and_then (close_streamed ops h) (\<lambda>h. and_then (close_prepared ops h)
       (\<lambda>h. and_then (close_directory_cached ops h) (\<lambda>h. close_partition ops h))))"

definition whole_slot :: "'s live_handles \<Rightarrow> 's retained" where
  "whole_slot h = (case lh_whole h of None \<Rightarrow> RETAINED_NONE | Some w \<Rightarrow> RETAINED_WHOLE w)"

text \<open>The five moves of the cleanup into the caller's source.\<close>

definition retain_handles :: "'s live_handles \<Rightarrow> 's retained \<times> 's live_handles" where
  "retain_handles h =
     (case move_source_if_valid RETAINED_COMPATIBLE (lh_compatible h) (whole_slot h) of (c, slot) \<Rightarrow>
     (case move_source_if_valid RETAINED_STREAMED (lh_streamed h) slot of (t, slot) \<Rightarrow>
     (case move_source_if_valid RETAINED_PREPARED (lh_prepared h) slot of (q, slot) \<Rightarrow>
     (case move_source_if_valid RETAINED_CACHED (lh_directory_cached h) slot of (d, slot) \<Rightarrow>
     (case move_source_if_valid RETAINED_PARTITION (lh_partition h) slot of (p, slot) \<Rightarrow>
       (slot, h\<lparr>lh_compatible := c, lh_streamed := t, lh_prepared := q, lh_directory_cached := d,
               lh_partition := p\<rparr>))))))"

text \<open>
  What follows the label \<open>cleanup\<close>. The local disc is valid there only after its own close failed to
  free it, which no path reaches with a disc; \<open>output\<close> is the caller's disc handle.
\<close>

definition live_cleanup ::
  "(nat \<Rightarrow> bool) \<Rightarrow> 's source_ops \<Rightarrow> 'i res \<Rightarrow> 's live_disc random_disc \<Rightarrow> 's live_disc random_disc \<Rightarrow> 's live_handles
     \<Rightarrow> 'i res \<times> 's live_disc random_disc \<times> 's retained \<times> 's live_handles" where
  "live_cleanup mem ops success disc output h =
     (let (success, output, failed, h) =
            (if gdox_disc_is_valid disc
             then (case gdox_disc_close (disc_live_ops mem ops) disc of
                     (Inl e, lost, disc) \<Rightarrow>
                       (Inl e, if gdox_disc_is_valid disc then disc else output, True, h\<lparr>lh_lost := (lh_lost h \<or> lost)\<rparr>)
                   | (Inr _, lost, disc) \<Rightarrow> (success, output, False, h\<lparr>lh_lost := (lh_lost h \<or> lost)\<rparr>))
             else (success, output, False, h));
          (closed, h) = close_handles ops h;
          (success, failed) = (case closed of Inl e \<Rightarrow> (Inl e, True) | Inr _ \<Rightarrow> (success, failed))
      in if failed \<and> \<not> gdox_disc_is_valid output
         then (case retain_handles h of (slot, h) \<Rightarrow> (success, output, slot, h))
         else (success, output, whole_slot h, h))"

text \<open>
  Result with the information, the caller's disc, what the caller's source handle holds, and the local
  handles when the function returns: one that is still open then is leaked.
\<close>

definition gdox_live_disc_build_configured ::
  "(nat \<Rightarrow> bool) \<Rightarrow> (nat \<Rightarrow> byte) \<Rightarrow> readahead_call list list \<Rightarrow> 's source_ops \<Rightarrow> 's sector_source \<Rightarrow> u32 option
     \<Rightarrow> 's live_disc random_disc \<Rightarrow> live_disc_info res \<times> 's live_disc random_disc \<times> 's retained \<times> 's live_handles" where
  "gdox_live_disc_build_configured mem junk calls ops whole_source options output =
     (if \<not> gdox_source_is_valid whole_source \<or> options = None \<or> gdox_disc_is_valid output
      then (fail ERROR_INVALID_ARGUMENT
              ''an open source, live-disc options, and empty disc output are required'', output,
            whole_slot (opened_handles whole_source), opened_handles whole_source)
      else (case live_stages mem junk calls ops (the options) (opened_handles whole_source) of
              (Inl e, h) \<Rightarrow> live_cleanup mem ops (Inl e) None output h
            | (Inr (v, md), h) \<Rightarrow>
                (let partition_sectors = gdox_source_sector_count (compatible_live_ops ops) (lh_compatible h)
                 in case gdox_disc_from_source mem (compatible_live_ops ops) (lh_compatible h) of
                      (Inl e, c, disc) \<Rightarrow> live_cleanup mem ops (Inl e) disc output (h\<lparr>lh_compatible := c\<rparr>)
                    | (Inr _, c, disc) \<Rightarrow>
                        live_cleanup mem ops
                          (Inr \<lparr>li_title = copy_title (md_title md), li_title_id = md_title_id md,
                                li_game_partition_lba = base_lba v, li_input_sectors = partition_sectors,
                                li_output_sectors = partition_sectors\<rparr>)
                          None disc (h\<lparr>lh_compatible := c\<rparr>))))"

definition gdox_live_disc_build ::
  "(nat \<Rightarrow> bool) \<Rightarrow> (nat \<Rightarrow> byte) \<Rightarrow> readahead_call list list \<Rightarrow> 's source_ops \<Rightarrow> 's sector_source
     \<Rightarrow> 's live_disc random_disc \<Rightarrow> live_disc_info res \<times> 's live_disc random_disc \<times> 's retained \<times> 's live_handles" where
  "gdox_live_disc_build mem junk calls ops whole_source output =
     gdox_live_disc_build_configured mem junk calls ops whole_source (Some 0) output"

section \<open>What a build leaves\<close>

lemma and_then_success: "and_then out k = (Inr u, h') \<Longrightarrow> \<exists>h. out = (Inr (), h) \<and> k h = (Inr u, h')"
  by (auto simp: and_then_def split: prod.splits sum.splits)

lemma live_stages_success:
  assumes "live_stages mem junk calls ops blocks (opened_handles whole) = (Inr (v, md), h)"
  obtains w1 w2 cache w3 p p' cache' d d' q q' str t' c where
    "gdox_xdvdfs_find_volume (mem (GDOX_XDVDFS_SCAN_BATCH * GDOX_LOGICAL_SECTOR_BYTES)) ops whole = (Inr v, w1)"
    "gdox_xdvdfs_inspect_with_directory_cache mem ops w1 v None = (Inr md, w2, cache)"
    "require_playable_default_xbe md = Inr ()"
    "gdox_source_make_partition (mem 32) ops w2 (base_lba v) None = (Inr (), w3, p)"
    "gdox_source_make_xdvdfs_directory_cache (mem 32) (partition_ops ops) p cache None = (Inr (), p', cache', d)"
    "gdox_source_make_default_xbe_cache mem (cached_live_ops ops) d md = (Inr (), d', q)"
    "gdox_source_make_file_readahead mem junk calls (prepared_live_ops ops) q (Some md) blocks = (Inr (), q', str)"
    "gdox_source_make_xbe_patch_source mem (streamed_live_ops ops) (streamed_handle str) md = (Inr (), t', c)"
    "h = \<lparr>lh_whole = w3, lh_partition = p', lh_directory_cached = d', lh_prepared = q', lh_streamed = t',
         lh_compatible = c, lh_lost = False\<rparr>"
proof -
  obtain w1 w2 cache h0 where f: "gdox_xdvdfs_find_volume (mem (GDOX_XDVDFS_SCAN_BATCH * GDOX_LOGICAL_SECTOR_BYTES)) ops whole = (Inr v, w1)"
    and i: "gdox_xdvdfs_inspect_with_directory_cache mem ops w1 v None = (Inr md, w2, cache)"
    and h0: "h0 = (opened_handles whole)\<lparr>lh_whole := w2\<rparr>"
    and st: "and_then (require_playable_default_xbe md, h0)
             (\<lambda>h. and_then (wrap_partition mem ops (base_lba v) h)
             (\<lambda>h. and_then (wrap_directory_cache mem ops cache h)
             (\<lambda>h. and_then (wrap_default_xbe mem ops md h)
             (\<lambda>h. and_then (wrap_readahead mem junk calls ops md blocks h)
             (\<lambda>h. wrap_xbe_patch mem ops md h))))) = (Inr (), h)"
    using assms by (auto simp: live_stages_def opened_handles_def split: sum.splits prod.splits)
  obtain h1 h2 h3 h4 where "require_playable_default_xbe md = Inr ()"
      and h: "wrap_partition mem ops (base_lba v) h0 = (Inr (), h1)" "wrap_directory_cache mem ops cache h1 = (Inr (), h2)"
      "wrap_default_xbe mem ops md h2 = (Inr (), h3)" "wrap_readahead mem junk calls ops md blocks h3 = (Inr (), h4)"
      "wrap_xbe_patch mem ops md h4 = (Inr (), h)"
    using st by (auto dest!: and_then_success)
  moreover obtain w3 p where p: "gdox_source_make_partition (mem 32) ops w2 (base_lba v) None = (Inr (), w3, p)"
      "h1 = h0\<lparr>lh_whole := w3, lh_partition := p\<rparr>"
    using h(1) h0 by (auto simp: wrap_partition_def opened_handles_def split: prod.splits)
  moreover obtain p' cache' d where d: "gdox_source_make_xdvdfs_directory_cache (mem 32) (partition_ops ops) p cache None = (Inr (), p', cache', d)"
      "h2 = h1\<lparr>lh_partition := p', lh_directory_cached := d\<rparr>"
    using h(2) h0 p(2) by (auto simp: wrap_directory_cache_def opened_handles_def split: prod.splits)
  moreover obtain d' q where q: "gdox_source_make_default_xbe_cache mem (cached_live_ops ops) d md = (Inr (), d', q)"
      "h3 = h2\<lparr>lh_directory_cached := d', lh_prepared := q\<rparr>"
    using h(3) d(2) by (auto simp: wrap_default_xbe_def split: prod.splits)
  moreover obtain q' str where t: "gdox_source_make_file_readahead mem junk calls (prepared_live_ops ops) q (Some md) blocks = (Inr (), q', str)"
      "h4 = h3\<lparr>lh_prepared := q', lh_streamed := streamed_handle str\<rparr>"
    using h(4) q(2) by (auto simp: wrap_readahead_def split: prod.splits)
  moreover obtain t' c where "gdox_source_make_xbe_patch_source mem (streamed_live_ops ops) (streamed_handle str) md = (Inr (), t', c)"
      "h = h4\<lparr>lh_streamed := t', lh_compatible := c\<rparr>"
    using h(5) t(2) by (auto simp: wrap_xbe_patch_def split: prod.splits)
  ultimately show ?thesis using that[OF f i] h0 by (simp add: opened_handles_def)
qed

text \<open>The predicates of the stacked sources.\<close>

abbreviation cached_live_valid where
  "cached_live_valid ops valid contents \<equiv>
     cached_valid (partition_ops ops) (partition_valid ops valid) (partition_contents contents)"

abbreviation prepared_live_valid where
  "prepared_live_valid ops valid contents \<equiv> default_valid (cached_live_ops ops) (cached_live_valid ops valid contents)"

abbreviation prepared_live_contents where
  "prepared_live_contents contents \<equiv> default_contents (cached_contents (partition_contents contents))"

abbreviation prepared_live_ready where
  "prepared_live_ready ready \<equiv> default_ready (cached_ready (partition_ready ready))"

abbreviation streamed_live_valid where
  "streamed_live_valid ops valid contents \<equiv> case_sum (prepared_live_valid ops valid contents)
     (readahead_valid (prepared_live_ops ops) (prepared_live_valid ops valid contents) (prepared_live_contents contents))"

abbreviation streamed_live_contents where
  "streamed_live_contents contents \<equiv>
     case_sum (prepared_live_contents contents) (readahead_contents (prepared_live_contents contents))"

abbreviation streamed_live_ready where
  "streamed_live_ready ready \<equiv> case_sum (prepared_live_ready ready) (readahead_ready (prepared_live_ready ready))"

lemma prepared_live_steady:
  assumes "steady_source ops valid contents ready"
  shows "steady_source (prepared_live_ops ops) (prepared_live_valid ops valid contents) (prepared_live_contents contents)
    (prepared_live_ready ready)"
  by (rule steady_source.default_steady[OF steady_source.cached_steady[OF steady_source.partition_steady[OF assms]]])

lemma streamed_live_reliable:
  assumes "steady_source ops valid contents ready"
  shows "reliable_source (streamed_live_ops ops) (streamed_live_valid ops valid contents) (streamed_live_contents contents)
    (streamed_live_ready ready)"
  using steady_source.axioms(1)[OF prepared_live_steady[OF assms]]
  by (intro either_reliable_source reliable_source.readahead_reliable_source)

lemma streamed_stage:
  assumes ss: "steady_source pops pvalid pcontents pready" and "pvalid q" and "pready q" and "\<And>k. mem k"
    and mk: "gdox_source_make_file_readahead mem junk [] pops (Some q) (Some md) blocks = (Inr (), q', st)"
  shows "\<exists>t. streamed_handle st = Some t \<and> q' = None
    \<and> case_sum pvalid (readahead_valid pops pvalid pcontents) t
    \<and> case_sum pready (readahead_ready pready) t
    \<and> case_sum pcontents (readahead_contents pcontents) t = pcontents q
    \<and> op_sector_count (either_ops pops (readahead_ops pops)) t = op_sector_count pops q"
proof (cases "blocks = 0")
  case True
  then show ?thesis using mk assms(2,3) by (auto simp: gdox_source_make_file_readahead_def streamed_handle_def)
next
  case False
  note rel = steady_source.axioms(1)[OF ss]
  obtain ob s' where o: "gdox_source_observe_media pops (Some q) = (True, ob, Some s')" "pready s'" "\<not> ends_session ob"
    using steady_source.steady_observe[OF ss assms(2,3)] by blast
  have w: "blocks \<le> GDOX_FILE_READAHEAD_MAX_WINDOW_BLOCKS"
    using mk False by (auto simp: gdox_source_make_file_readahead_def split: if_splits)
  have vk: "op_sector_count pops s' = op_sector_count pops q"
    using sector_source.source_observe_view[OF reliable_source.axioms(1)[OF rel] assms(2) o(1)] by (auto simp: view_kept_def)
  have base: "ra_inner (establish_media_baseline pops
      \<lparr>ra_inner = Some q, ra_extents = [], ra_touched_extents = [], ra_cache = [], ra_slots = [],
       ra_slot_bytes = blocks * GDOX_LOGICAL_SECTOR_BYTES, ra_use_counter = 0, ra_max_window_blocks = blocks,
       ra_cache_epoch = 1, ra_aborted = False, ra_closing = False, ra_media_invalid = False,
       ra_generation_known = False, ra_observed_generation = 0, ra_calls = []\<rparr>) = Some s'"
    using o(1) by (simp add: establish_media_baseline_def Let_def)
  obtain extents where ex: "copy_and_validate_extents mem (op_sector_count pops q) (md_file_extents md) = Inr extents"
    using mk False w assms(4) vk
    by (cases "copy_and_validate_extents mem (op_sector_count pops q) (md_file_extents md)")
      (auto simp: gdox_source_make_file_readahead_def Let_def base[simplified] split: if_splits)
  obtain c where "gdox_source_make_file_readahead mem junk [] pops (Some q) (Some md) blocks = (Inr (), None, Readahead (Some c))"
      "readahead_valid pops pvalid pcontents c" "readahead_ready pready c" "readahead_contents pcontents c = pcontents q"
      "readahead_sector_count pops c = op_sector_count pops q"
    using reliable_source.make_readahead_ready[where mem = mem and junk = junk, OF rel assms(2) o assms(4) _ w ex] False
    by auto
  then show ?thesis using mk by (auto simp: streamed_handle_def)
qed

text \<open>The view of a disc replaces the media checks of every executable of its volume.\<close>

definition executable_keys :: "(nat \<Rightarrow> byte) \<Rightarrow> xdvdfs_volume \<Rightarrow> (nat \<times> nat) set" where
  "executable_keys f v = (\<lambda>(_, start, n). (start * GDOX_LOGICAL_SECTOR_BYTES, n)) ` volume_executables f v"

lemma xbe_view_small:
  "xbe_view {k \<in> K. 8 \<le> snd k} f = xbe_view K f"
proof -
  have "8 \<le> snd k" if "jump_at f k a" for k a using that by (simp add: jump_at_def)
  then have eq: "(\<exists>k \<in> {k \<in> K. 8 \<le> snd k}. xbe_magic_at f (fst k) \<and> jump_at f k a)
      = (\<exists>k \<in> K. xbe_magic_at f (fst k) \<and> jump_at f k a)" for a by blast
  show ?thesis by (rule ext) (simp only: xbe_view_def eq)
qed

lemma xbe_view_executables:
  assumes "(\<lambda>e. (en_name e, ident e)) ` set es = volume_executables g v"
  shows "xbe_view (entry_keys es) f = xbe_view (executable_keys g v) f"
proof -
  have "entry_keys es = {k \<in> executable_keys g v. 8 \<le> snd k}"
    unfolding executable_keys_def assms[symmetric] image_image
    by (auto simp: entry_keys_def entry_key_def ident_def image_iff)
  then show ?thesis by (simp add: xbe_view_small)
qed

lemma parse_descriptor_bounds:
  "parse_descriptor sector lba = Inr v \<Longrightarrow> root_directory_sector v < two32 \<and> root_directory_size v < two32"
  using unsigned_less[of "join32 (sector ! 20) (sector ! 21) (sector ! 22) (sector ! 23)"]
  by (auto simp: parse_descriptor_def read_le_u32_def le_u32_def GDOX_XDVDFS_MAX_DIRECTORY_BYTES_def
      split: if_splits option.splits)

lemma descriptor_base_bound:
  assumes "parse_descriptor sector lba = Inr v" and "lba < sectors" and "sectors \<le> UINT64_MAX div GDOX_LOGICAL_SECTOR_BYTES"
  shows "base_lba v + two32 \<le> two64"
proof -
  have "base_lba v = u64_sub lba 32" "32 \<le> lba"
    using assms(1) by (auto simp: parse_descriptor_def GDOX_XDVDFS_VOLUME_DESCRIPTOR_SECTOR_def split: if_splits option.splits)
  then show ?thesis using assms(2,3) by (simp add: UINT64_MAX_def)
qed

lemma live_stages_view:
  assumes ss: "steady_source ops valid contents valid" and v: "valid s" and mem: "\<And>k. mem k"
    and len: "op_sector_count ops s \<le> UINT64_MAX div GDOX_LOGICAL_SECTOR_BYTES"
    and st: "live_stages mem junk [] ops blocks (opened_handles (Some s)) = (Inr (v, md), h)"
  shows "\<exists>c lba. h = (opened_handles None)\<lparr>lh_compatible := Some c\<rparr>
    \<and> xbe_valid (streamed_live_ops ops) (streamed_live_valid ops valid contents) (streamed_live_contents contents) c
    \<and> xbe_ready (streamed_live_ready valid) c
    \<and> xbe_contents (streamed_live_contents contents) c =
        xbe_view (executable_keys (contents s) v) (\<lambda>a. contents s (base_lba v * GDOX_LOGICAL_SECTOR_BYTES + a))
    \<and> op_sector_count (compatible_live_ops ops) c = op_sector_count ops s - base_lba v
    \<and> base_lba v < op_sector_count ops s
    \<and> descriptor_at (contents s) lba \<and> parse_descriptor (descriptor_sector (contents s) lba) lba = Inr v
    \<and> require_playable_default_xbe md = Inr () \<and> default_described mem (contents s) v md
    \<and> (\<lambda>e. (en_name e, ident e)) ` set (md_xbe_files md) = volume_executables (contents s) v"
proof -
  obtain w1 w2 cache w3 p p' cache' d d' q q' str t' c where
      f: "gdox_xdvdfs_find_volume (mem (GDOX_XDVDFS_SCAN_BATCH * GDOX_LOGICAL_SECTOR_BYTES)) ops (Some s) = (Inr v, w1)"
    and i: "gdox_xdvdfs_inspect_with_directory_cache mem ops w1 v None = (Inr md, w2, cache)"
    and pl: "require_playable_default_xbe md = Inr ()"
    and pa: "gdox_source_make_partition (mem 32) ops w2 (base_lba v) None = (Inr (), w3, p)"
    and di: "gdox_source_make_xdvdfs_directory_cache (mem 32) (partition_ops ops) p cache None = (Inr (), p', cache', d)"
    and de: "gdox_source_make_default_xbe_cache mem (cached_live_ops ops) d md = (Inr (), d', q)"
    and ra: "gdox_source_make_file_readahead mem junk [] (prepared_live_ops ops) q (Some md) blocks = (Inr (), q', str)"
    and xb: "gdox_source_make_xbe_patch_source mem (streamed_live_ops ops)
       (streamed_handle str) md = (Inr (), t', c)"
    and h: "h = \<lparr>lh_whole = w3, lh_partition = p', lh_directory_cached = d', lh_prepared = q', lh_streamed = t',
         lh_compatible = c, lh_lost = False\<rparr>"
    using live_stages_success[OF st] by metis
  have rel: "reliable_source ops valid contents valid" using ss by (rule steady_source.axioms(1))
  have src: "sector_source ops valid contents" using rel by (rule reliable_source.axioms(1))
  obtain s1 lba where s1: "w1 = Some s1" "view_kept ops valid contents s s1"
    and lba: "lba < op_sector_count ops s" "descriptor_at (contents s) lba"
      "parse_descriptor (descriptor_sector (contents s) lba) lba = Inr v"
    using sector_source.find_volume_located[OF src v f] by auto
  have v1: "valid s1" "contents s1 = contents s" "op_sector_count ops s1 = op_sector_count ops s"
    using s1(2) by (simp_all add: view_kept_def)
  have bounds: "root_directory_sector v < two32" "root_directory_size v < two32"
    using parse_descriptor_bounds[OF lba(3)] by simp_all
  have base: "base_lba v + two32 \<le> two64" by (rule descriptor_base_bound[OF lba(3,1) len])
  obtain s2 dc where s2: "w2 = Some s2" "view_kept ops valid contents s1 s2"
    and dc: "cache = Some (gdox_xdvdfs_directory_cache_finalize dc)" "\<not> dc_finalized dc"
      "directory_cache_holds (\<lambda>a. contents s1 (base_lba v * GDOX_LOGICAL_SECTOR_BYTES + a)) dc"
    and ok: "base_lba v \<le> op_sector_count ops s1"
      "list_all (\<lambda>e. entry_ok e \<and> entry_end e \<le> op_sector_count ops s1 - base_lba v) (md_xbe_files md)"
      "(\<lambda>e. (en_name e, ident e)) ` set (md_xbe_files md) = volume_executables (contents s1) v"
      "default_described mem (contents s1) v md"
    using sector_source.inspect_with_cache_fits[OF src v1(1) base bounds i[unfolded s1(1)]] by blast
  have idx: "md_default_xbe_index md = GDOX_XDVDFS_NO_ENTRY \<or> md_default_xbe_index md < length (md_xbe_files md)"
    using ok(4) by (auto simp: default_described_def split: if_splits)
  have v2: "valid s2" "contents s2 = contents s" "op_sector_count ops s2 = op_sector_count ops s"
    using s2(2) v1 by (simp_all add: view_kept_def)
  let ?f = "\<lambda>a. contents s (base_lba v * GDOX_LOGICAL_SECTOR_BYTES + a)"
  let ?n = "op_sector_count ops s - base_lba v"
  have ok2: "list_all (\<lambda>e. entry_ok e \<and> entry_end e \<le> ?n) (md_xbe_files md)" using ok(2) v1(3) by simp
  obtain pp where pp: "w3 = None" "p = Some pp" "partition_valid ops valid pp" "pc_sectors pp = ?n"
      "base_lba v < op_sector_count ops s" "partition_contents contents pp = ?f"
    using sector_source.make_partition_valid[OF src pa[unfolded s2(1)] v2(1)] v2(2,3) by auto
  have prdy: "partition_ready valid pp"
    using pp(3) by (auto simp: partition_valid_def partition_ready_def split: option.splits)
  note psrc = sector_source.partition_sector_source[OF src]
  obtain dd where dd: "p' = None" "d = Some dd" "cached_live_valid ops valid contents dd"
      "cached_contents (partition_contents contents) dd = ?f" "cache_sector_count (partition_ops ops) dd = ?n"
      "dx_inner dd = Some pp" "\<not> request_cancelled dd"
  proof -
    have "directory_cache_holds (partition_contents contents pp) (gdox_xdvdfs_directory_cache_finalize dc)"
      using finalize_holds[OF dc(3)] pp(6) v1(2) by simp
    from sector_source.make_directory_cache_valid[OF psrc di[unfolded pp(2) dc(1)] pp(3) _ this]
    show ?thesis using that finalize_indexed[OF dc(2)] pp(4,6) by (auto simp: partition_sector_count_def)
  qed
  have drdy: "cached_ready (partition_ready valid) dd" using dd(6,7) prdy by (simp add: cached_ready_def)
  have crel: "reliable_source (cached_live_ops ops) (cached_live_valid ops valid contents)
      (cached_contents (partition_contents contents)) (cached_ready (partition_ready valid))"
    using steady_source.cached_steady[OF steady_source.partition_steady[OF ss]] by (rule steady_source.axioms(1))
  have fits: "default_fits md (op_sector_count (cached_live_ops ops) dd)"
    using idx ok2 dd(5) by (auto simp: default_fits_def list_all_length entry_end_def Let_def)
  obtain qq where qq: "d' = None" "q = Some qq" "prepared_live_valid ops valid contents qq"
      "prepared_live_ready valid qq" "prepared_live_contents contents qq = xbe_view (default_keys md) ?f"
      "op_sector_count (prepared_live_ops ops) qq = ?n"
    using reliable_source.make_default_cache_ready[where mem = mem, OF crel dd(3) drdy mem fits] de dd(2,4,5) by auto
  obtain tt where tt: "streamed_handle str = Some tt" "q' = None"
      "streamed_live_valid ops valid contents tt" "streamed_live_ready valid tt"
      "streamed_live_contents contents tt = xbe_view (default_keys md) ?f" "op_sector_count (streamed_live_ops ops) tt = ?n"
    using streamed_stage[OF prepared_live_steady[OF ss] qq(3,4) mem ra[unfolded qq(2)]] qq(5,6) by auto
  note srel = streamed_live_reliable[OF ss]
  have eok: "list_all entry_ok (md_xbe_files md)" using ok2 by (simp add: list_all_iff)
  obtain cc where cc: "t' = None" "c = Some cc" "xp_inner cc = Some tt"
      "xbe_valid (streamed_live_ops ops) (streamed_live_valid ops valid contents) (streamed_live_contents contents) cc"
      "xbe_contents (streamed_live_contents contents) cc =
         xbe_view (entry_keys (md_xbe_files md)) (xbe_view (default_keys md) ?f)"
      "xbe_patch_sector_count (streamed_live_ops ops) cc = ?n"
    using sector_source.make_xbe_patch_source_view[OF reliable_source.axioms(1)[OF srel] xb[unfolded tt(1)] tt(3) eok]
      tt(5,6) by auto
  have len': "?n * GDOX_LOGICAL_SECTOR_BYTES < two64" using len by (simp add: UINT64_MAX_def)
  obtain xs where "copy_extents mem (md_xbe_files md) (?n * GDOX_LOGICAL_SECTOR_BYTES) = Inr xs"
    using xb tt(1,6) len' by (auto simp: gdox_source_make_xbe_patch_source_def Let_def split: if_splits sum.splits)
  from xbe_view_default_keys[OF this eok len' idx]
  have "xbe_contents (streamed_live_contents contents) cc = xbe_view (executable_keys (contents s) v) ?f"
    using cc(5) xbe_view_executables[OF ok(3)] v1(2) by simp
  moreover have "xbe_ready (streamed_live_ready valid) cc" using cc(3) tt(4) by (simp add: xbe_ready_def)
  ultimately show ?thesis
    using h pp(1,5) dd(1) qq(1) tt(2) cc(1,2,4,6) lba(2,3) pl ok(3,4) v1(2) by (auto simp: opened_handles_def)
qed

section \<open>Cleaning up\<close>

text \<open>
  Only the handle of stage \<open>k\<close> may be open: the caller's source, the partition, and so on up to the
  compatibility source. Every call either fails and leaves its stage, or succeeds and consumes it.
\<close>

definition only_stage :: "nat \<Rightarrow> 's live_handles \<Rightarrow> bool" where
  "only_stage k h \<longleftrightarrow> (k \<noteq> 0 \<longrightarrow> lh_whole h = None) \<and> (k \<noteq> 1 \<longrightarrow> lh_partition h = None)
     \<and> (k \<noteq> 2 \<longrightarrow> lh_directory_cached h = None) \<and> (k \<noteq> 3 \<longrightarrow> lh_prepared h = None)
     \<and> (k \<noteq> 4 \<longrightarrow> lh_streamed h = None) \<and> (k \<noteq> 5 \<longrightarrow> lh_compatible h = None) \<and> \<not> lh_lost h"

definition locals_closed :: "'s live_handles \<Rightarrow> bool" where
  "locals_closed h \<longleftrightarrow> lh_partition h = None \<and> lh_directory_cached h = None \<and> lh_prepared h = None
     \<and> lh_streamed h = None \<and> lh_compatible h = None"

definition stage_moves :: "nat \<Rightarrow> unit res \<times> 's live_handles \<Rightarrow> bool" where
  "stage_moves k out = (case out of (Inl _, h) \<Rightarrow> only_stage k h | (Inr _, h) \<Rightarrow> only_stage (Suc k) h)"

lemma make_partition_moves:
  "gdox_source_make_partition mem ops w base None = (r, w', p) \<Longrightarrow> (r \<noteq> Inr () \<longrightarrow> p = None) \<and> (r = Inr () \<longrightarrow> w' = None)"
  by (auto simp: gdox_source_make_partition_def Let_def split: if_splits)

lemma make_directory_cache_moves:
  "gdox_source_make_xdvdfs_directory_cache mem ops p cache None = (r, p', cache', d) \<Longrightarrow>
   (r \<noteq> Inr () \<longrightarrow> d = None) \<and> (r = Inr () \<longrightarrow> p' = None)"
  by (auto simp: gdox_source_make_xdvdfs_directory_cache_def split: if_splits option.splits)

lemma make_default_cache_moves:
  "gdox_source_make_default_xbe_cache mem ops d md = (r, d', q) \<Longrightarrow> (r \<noteq> Inr () \<longrightarrow> q = None) \<and> (r = Inr () \<longrightarrow> d' = None)"
  by (auto simp: gdox_source_make_default_xbe_cache_def split: if_splits sum.splits prod.splits)

lemma make_readahead_moves:
  assumes "gdox_source_make_file_readahead mem junk calls ops q md blocks = (r, q', st)"
  shows "(r \<noteq> Inr () \<longrightarrow> streamed_handle st = None) \<and> (r = Inr () \<longrightarrow> q' = None)"
  using assms unfolding gdox_source_make_file_readahead_def Let_def streamed_handle_def by (auto split: if_splits sum.splits)

lemma make_xbe_patch_moves:
  "gdox_source_make_xbe_patch_source mem ops t md = (r, t', c) \<Longrightarrow> (r \<noteq> Inr () \<longrightarrow> c = None) \<and> (r = Inr () \<longrightarrow> t' = None)"
  by (auto simp: gdox_source_make_xbe_patch_source_def Let_def split: if_splits sum.splits)

lemma disc_from_source_moves:
  "gdox_disc_from_source mem ops c = (r, c', disc) \<Longrightarrow> (r \<noteq> Inr () \<longrightarrow> disc = None) \<and> (r = Inr () \<longrightarrow> c' = None)"
  by (auto simp: gdox_disc_from_source_def split: if_splits sum.splits)

lemma wraps_move:
  "only_stage 0 h \<Longrightarrow> stage_moves 0 (wrap_partition mem ops base h)"
  "only_stage 1 h \<Longrightarrow> stage_moves 1 (wrap_directory_cache mem ops cache h)"
  "only_stage 2 h \<Longrightarrow> stage_moves 2 (wrap_default_xbe mem ops md h)"
  "only_stage 3 h \<Longrightarrow> stage_moves 3 (wrap_readahead mem junk calls ops md blocks h)"
  "only_stage 4 h \<Longrightarrow> stage_moves 4 (wrap_xbe_patch mem ops md h)"
proof -
  show "only_stage 0 h \<Longrightarrow> stage_moves 0 (wrap_partition mem ops base h)"
    by (auto simp: wrap_partition_def only_stage_def stage_moves_def split: prod.splits sum.splits dest!: make_partition_moves)
  show "only_stage 1 h \<Longrightarrow> stage_moves 1 (wrap_directory_cache mem ops cache h)"
    by (auto simp: wrap_directory_cache_def only_stage_def stage_moves_def split: prod.splits sum.splits
        dest!: make_directory_cache_moves)
  show "only_stage 2 h \<Longrightarrow> stage_moves 2 (wrap_default_xbe mem ops md h)"
    by (auto simp: wrap_default_xbe_def only_stage_def stage_moves_def split: prod.splits sum.splits dest!: make_default_cache_moves)
  show "only_stage 3 h \<Longrightarrow> stage_moves 3 (wrap_readahead mem junk calls ops md blocks h)"
    by (auto simp: wrap_readahead_def only_stage_def stage_moves_def split: prod.splits sum.splits dest!: make_readahead_moves)
  show "only_stage 4 h \<Longrightarrow> stage_moves 4 (wrap_xbe_patch mem ops md h)"
    by (auto simp: wrap_xbe_patch_def only_stage_def stage_moves_def split: prod.splits sum.splits dest!: make_xbe_patch_moves)
qed

lemma and_then_stage:
  assumes "stage_moves k out" and "\<And>h. only_stage (Suc k) h \<Longrightarrow> \<exists>j. only_stage j (snd (f h))"
  shows "\<exists>j. only_stage j (snd (and_then out f))"
  using assms by (cases out) (auto simp: and_then_def stage_moves_def split: sum.splits)

lemma live_stages_one_handle:
  assumes "live_stages mem junk calls ops blocks (opened_handles whole) = (r, h)"
  shows "\<exists>k. only_stage k h"
proof -
  have w: "only_stage 0 ((opened_handles whole)\<lparr>lh_whole := w\<rparr>)" for w by (simp add: only_stage_def opened_handles_def)
  have s4: "\<exists>j. only_stage j (snd (wrap_xbe_patch mem ops md h))" if "only_stage 4 h" for md and h :: "'a live_handles"
    using wraps_move(5)[OF that, of mem ops md]
    by (cases "wrap_xbe_patch mem ops md h") (auto simp: stage_moves_def split: sum.splits)
  have s3: "\<exists>j. only_stage j (snd (and_then (wrap_readahead mem junk calls ops md blocks h) (\<lambda>h. wrap_xbe_patch mem ops md h)))"
    if "only_stage 3 h" for md and h :: "'a live_handles"
    by (rule and_then_stage[OF wraps_move(4)[OF that]], rule s4) simp
  have s2: "\<exists>j. only_stage j (snd (and_then (wrap_default_xbe mem ops md h)
      (\<lambda>h. and_then (wrap_readahead mem junk calls ops md blocks h) (\<lambda>h. wrap_xbe_patch mem ops md h))))"
    if "only_stage 2 h" for md and h :: "'a live_handles"
    by (rule and_then_stage[OF wraps_move(3)[OF that]], rule s3) simp
  have s1: "\<exists>j. only_stage j (snd (and_then (wrap_directory_cache mem ops cache h) (\<lambda>h. and_then (wrap_default_xbe mem ops md h)
      (\<lambda>h. and_then (wrap_readahead mem junk calls ops md blocks h) (\<lambda>h. wrap_xbe_patch mem ops md h)))))"
    if "only_stage 1 h" for md cache and h :: "'a live_handles"
    by (rule and_then_stage[OF wraps_move(2)[OF that]], rule s2) (simp add: numeral_2_eq_2)
  have rest: "\<exists>j. only_stage j (snd (and_then (wrap_partition mem ops base h) (\<lambda>h. and_then (wrap_directory_cache mem ops cache h)
             (\<lambda>h. and_then (wrap_default_xbe mem ops md h) (\<lambda>h. and_then (wrap_readahead mem junk calls ops md blocks h)
             (\<lambda>h. wrap_xbe_patch mem ops md h))))))" if "only_stage 0 h" for base cache md and h :: "'a live_handles"
    by (rule and_then_stage[OF wraps_move(1)[OF that]], rule s1) simp
  obtain r1 w1 where f: "gdox_xdvdfs_find_volume (mem (GDOX_XDVDFS_SCAN_BATCH * GDOX_LOGICAL_SECTOR_BYTES)) ops whole = (r1, w1)"
    by fastforce
  have open0: "lh_whole (opened_handles whole) = whole" by (simp add: opened_handles_def)
  show ?thesis
  proof (cases r1)
    case (Inl e)
    then have "h = (opened_handles whole)\<lparr>lh_whole := w1\<rparr>" using assms f open0 by (simp add: live_stages_def)
    then show ?thesis using w by blast
  next
    case r1: (Inr v)
    obtain r2 w2 cache where i: "gdox_xdvdfs_inspect_with_directory_cache mem ops w1 v None = (r2, w2, cache)"
      by (metis prod_cases3)
    show ?thesis
    proof (cases r2)
      case (Inl e)
      then have "h = (opened_handles whole)\<lparr>lh_whole := w2\<rparr>" using assms f i r1 open0 by (simp add: live_stages_def)
      then show ?thesis using w by blast
    next
      case r2: (Inr md)
      obtain r3 h3 where a: "and_then (wrap_partition mem ops (base_lba v) ((opened_handles whole)\<lparr>lh_whole := w2\<rparr>))
          (\<lambda>h. and_then (wrap_directory_cache mem ops cache h)
          (\<lambda>h. and_then (wrap_default_xbe mem ops md h) (\<lambda>h. and_then (wrap_readahead mem junk calls ops md blocks h)
          (\<lambda>h. wrap_xbe_patch mem ops md h)))) = (r3, h3)" by fastforce
      show ?thesis
      proof (cases "require_playable_default_xbe md")
        case (Inl e)
        then have "h = (opened_handles whole)\<lparr>lh_whole := w2\<rparr>"
          using assms f i r1 r2 open0 by (simp add: live_stages_def and_then_def)
        then show ?thesis using w by blast
      next
        case (Inr u)
        then have "h = h3"
          using assms f i r1 r2 open0 a
          by (cases r3) (simp_all add: live_stages_def and_then_def[of "(Inr _, _)"])
        then show ?thesis using rest[OF w[of w2], of "base_lba v" cache md] a by simp
      qed
    qed
  qed
qed



lemma close_source_None [simp]: "close_source ops None = (Inr (), False, None)"
  by (simp add: close_source_def)

context closable_source
begin

lemma close_source_frees:
  "close_source ops h = (r, lost, h') \<Longrightarrow> \<not> lost \<and> (r = Inr () \<longrightarrow> h' = None) \<and> (h = None \<longrightarrow> r = Inr () \<and> h' = None)"
  using source_close_keeps[of h r lost h'] source_close_frees[of _ _ lost h']
  by (cases h) (auto simp: close_source_def)

end

text \<open>The handles from stage \<open>j\<close> on are closed.\<close>

definition closed_from :: "nat \<Rightarrow> 's live_handles \<Rightarrow> bool" where
  "closed_from j h \<longleftrightarrow> (j \<le> 5 \<longrightarrow> lh_compatible h = None) \<and> (j \<le> 4 \<longrightarrow> lh_streamed h = None)
     \<and> (j \<le> 3 \<longrightarrow> lh_prepared h = None) \<and> (j \<le> 2 \<longrightarrow> lh_directory_cached h = None)
     \<and> (j \<le> 1 \<longrightarrow> lh_partition h = None)"

definition step_closes :: "nat \<Rightarrow> nat \<Rightarrow> 's live_handles \<Rightarrow> unit res \<times> 's live_handles \<Rightarrow> bool" where
  "step_closes j k h out = (case out of (q, h') \<Rightarrow> only_stage k h' \<and> lh_whole h' = lh_whole h
     \<and> (locals_closed h \<longrightarrow> q = Inr () \<and> locals_closed h') \<and> (q = Inr () \<longrightarrow> closed_from j h'))"

lemma and_then_closes:
  assumes "step_closes i k h out"
    and "\<And>h1. only_stage k h1 \<Longrightarrow> closed_from i h1 \<Longrightarrow> step_closes j k h1 (f h1)"
  shows "step_closes j k h (and_then out f)"
proof (cases out)
  case (Pair q h1)
  show ?thesis
  proof (cases q)
    case (Inl e)
    then show ?thesis using assms(1) Pair by (simp add: step_closes_def and_then_def)
  next
    case (Inr u)
    then have "only_stage k h1 \<and> closed_from i h1" using assms(1) Pair by (simp add: step_closes_def)
    then have "step_closes j k h1 (f h1)" using assms(2) by blast
    then show ?thesis using assms(1) Pair Inr by (cases "f h1") (auto simp: step_closes_def and_then_def)
  qed
qed

context closable_source
begin

lemmas live_closable = partition_closable_source
  closable_source.cached_closable_source[OF partition_closable_source]
  closable_source.default_closable_source[OF closable_source.cached_closable_source[OF partition_closable_source]]

lemma close_partition_closes: "only_stage k h \<Longrightarrow> closed_from 2 h \<Longrightarrow> step_closes 1 k h (close_partition ops h)"
  using closable_source.close_source_frees[OF live_closable(1)]
  by (fastforce simp: close_partition_def step_closes_def closed_from_def only_stage_def locals_closed_def split: prod.splits)

lemma close_directory_cached_closes: "only_stage k h \<Longrightarrow> closed_from 3 h \<Longrightarrow> step_closes 2 k h (close_directory_cached ops h)"
  using closable_source.close_source_frees[OF live_closable(2)]
  by (fastforce simp: close_directory_cached_def step_closes_def closed_from_def only_stage_def locals_closed_def split: prod.splits)

lemma close_prepared_closes: "only_stage k h \<Longrightarrow> closed_from 4 h \<Longrightarrow> step_closes 3 k h (close_prepared ops h)"
  using closable_source.close_source_frees[OF live_closable(3)]
  by (fastforce simp: close_prepared_def step_closes_def closed_from_def only_stage_def locals_closed_def split: prod.splits)

lemma streamed_live_closable:
  "closable_source (streamed_live_ops ops) (case_sum (\<lambda>c. \<exists>s. dq_inner c = Some s \<and> (\<exists>s'. dx_inner s = Some s' \<and> (\<exists>s. pc_inner s' = Some s \<and> prepared s)))
     (\<lambda>c. \<exists>s. ra_inner c = Some s \<and> (\<exists>s'. dq_inner s = Some s' \<and> (\<exists>s. dx_inner s' = Some s \<and> (\<exists>s'. pc_inner s = Some s' \<and> prepared s')))))"
  by (rule either_closable_source[OF live_closable(3) closable_source.readahead_closable_source[OF live_closable(3)]])

lemma close_streamed_closes: "only_stage k h \<Longrightarrow> closed_from 5 h \<Longrightarrow> step_closes 4 k h (close_streamed ops h)"
  using closable_source.close_source_frees[OF streamed_live_closable]
  by (fastforce simp: close_streamed_def step_closes_def closed_from_def only_stage_def locals_closed_def split: prod.splits)

lemma close_compatible_closes: "only_stage k h \<Longrightarrow> step_closes 5 k h (close_compatible ops h)"
  using closable_source.close_source_frees[OF closable_source.xbe_patch_closable_source[OF streamed_live_closable]]
  by (fastforce simp: close_compatible_def step_closes_def closed_from_def only_stage_def locals_closed_def split: prod.splits)

lemma close_handles_closes:
  assumes "only_stage k h" and "close_handles ops h = (q, h')"
  shows "only_stage k h' \<and> lh_whole h' = lh_whole h \<and> (q = Inr () \<longrightarrow> locals_closed h') \<and> (locals_closed h \<longrightarrow> q = Inr ())"
proof -
  have "step_closes 1 k h (close_handles ops h)"
    unfolding close_handles_def using assms(1)
    by (elim and_then_closes[OF close_compatible_closes] and_then_closes[OF close_streamed_closes]
        and_then_closes[OF close_prepared_closes] and_then_closes[OF close_directory_cached_closes] close_partition_closes)
  then show ?thesis using assms(2) by (auto simp: step_closes_def closed_from_def locals_closed_def)
qed

end

lemma retain_handles_moves:
  assumes "only_stage k h" and "retain_handles h = (slot, h')"
  shows "locals_closed h' \<and> \<not> lh_lost h'"
  using assms
  by (auto simp: retain_handles_def move_source_if_valid_def whole_slot_def only_stage_def locals_closed_def
      split: option.splits if_splits)

lemma live_cleanup_closes:
  assumes cl: "closable_source ops prepared" and st: "only_stage k h" and out: "output = None \<or> locals_closed h"
    and cu: "live_cleanup mem ops success None output h = (r, output', slot, h')"
  shows "locals_closed h' \<and> \<not> lh_lost h' \<and> output' = output \<and> (locals_closed h \<longrightarrow> r = success \<and> slot = whole_slot h)
    \<and> (r = success \<or> (\<exists>e. r = Inl e))"
proof -
  obtain q h1 where c: "close_handles ops h = (q, h1)" by fastforce
  note cc = closable_source.close_handles_closes[OF cl st c]
  obtain slot1 h2 where m: "retain_handles h1 = (slot1, h2)" by fastforce
  note mm = retain_handles_moves[OF conjunct1[OF cc] m]
  show ?thesis
    using cu out cc mm c m
    by (cases q) (auto simp: live_cleanup_def gdox_disc_is_valid_def only_stage_def whole_slot_def split: if_splits)
qed

lemma live_cleanup_result:
  "live_cleanup mem ops (Inl e) None output h = (r, output', slot, h') \<Longrightarrow> \<exists>e. r = Inl e"
  by (auto simp: live_cleanup_def gdox_disc_is_valid_def split: prod.splits sum.splits if_splits)

lemma close_no_handles: "close_handles ops (opened_handles None) = (Inr (), opened_handles None)"
  by (simp add: close_handles_def opened_handles_def and_then_def close_compatible_def close_streamed_def
      close_prepared_def close_directory_cached_def close_partition_def)

text \<open>What a successful build hands out.\<close>

lemma live_build_success:
  assumes ss: "steady_source ops valid contents valid" and v: "valid s" and mem: "\<And>k. mem k"
    and len: "op_sector_count ops s \<le> UINT64_MAX div GDOX_LOGICAL_SECTOR_BYTES"
    and mk: "gdox_live_disc_build_configured mem junk [] ops (Some s) options None = (Inr info, disc, kept, h)"
  obtains v md c lba where
    "xbe_valid (streamed_live_ops ops) (streamed_live_valid ops valid contents) (streamed_live_contents contents) c"
    "xbe_ready (streamed_live_ready valid) c"
    "xbe_contents (streamed_live_contents contents) c =
       xbe_view (executable_keys (contents s) v) (\<lambda>a. contents s (base_lba v * GDOX_LOGICAL_SECTOR_BYTES + a))"
    "op_sector_count (compatible_live_ops ops) c = op_sector_count ops s - base_lba v"
    "descriptor_at (contents s) lba" "parse_descriptor (descriptor_sector (contents s) lba) lba = Inr v"
    "require_playable_default_xbe md = Inr ()" "default_described mem (contents s) v md"
    "(\<lambda>e. (en_name e, ident e)) ` set (md_xbe_files md) = volume_executables (contents s) v"
    "info = \<lparr>li_title = copy_title (md_title md), li_title_id = md_title_id md, li_game_partition_lba = base_lba v,
       li_input_sectors = op_sector_count ops s - base_lba v, li_output_sectors = op_sector_count ops s - base_lba v\<rparr>"
    "gdox_disc_from_source mem (compatible_live_ops ops) (Some c) = (Inr (), None, disc)"
    "kept = RETAINED_NONE" "h = opened_handles None"
proof -
  obtain blocks where o: "options = Some blocks" using mk by (auto simp: gdox_live_disc_build_configured_def split: if_splits)
  obtain v md h1 where st: "live_stages mem junk [] ops blocks (opened_handles (Some s)) = (Inr (v, md), h1)"
  proof -
    obtain r h1 where "live_stages mem junk [] ops blocks (opened_handles (Some s)) = (r, h1)" by fastforce
    then show ?thesis
      using that mk
      by (cases r) (auto simp: gdox_live_disc_build_configured_def o gdox_disc_is_valid_def dest: live_cleanup_result)
  qed
  obtain c lba where c: "h1 = (opened_handles None)\<lparr>lh_compatible := Some c\<rparr>"
      "xbe_valid (streamed_live_ops ops) (streamed_live_valid ops valid contents) (streamed_live_contents contents) c"
      "xbe_ready (streamed_live_ready valid) c"
      "xbe_contents (streamed_live_contents contents) c =
         xbe_view (executable_keys (contents s) v) (\<lambda>a. contents s (base_lba v * GDOX_LOGICAL_SECTOR_BYTES + a))"
      "op_sector_count (compatible_live_ops ops) c = op_sector_count ops s - base_lba v"
      "descriptor_at (contents s) lba" "parse_descriptor (descriptor_sector (contents s) lba) lba = Inr v"
      "require_playable_default_xbe md = Inr ()" "default_described mem (contents s) v md"
      "(\<lambda>e. (en_name e, ident e)) ` set (md_xbe_files md) = volume_executables (contents s) v"
    using live_stages_view[OF ss v mem len st] by blast
  have "op_sector_count (compatible_live_ops ops) c \<le> UINT64_MAX div GDOX_LOGICAL_SECTOR_BYTES"
    unfolding c(5) using len by simp
  then have "source_length (compatible_live_ops ops) (Some c) =
      Inr (u64_mul (op_sector_count (compatible_live_ops ops) c) GDOX_LOGICAL_SECTOR_BYTES)"
    by (simp add: source_length_def Let_def)
  then obtain d where m: "gdox_disc_from_source mem (compatible_live_ops ops) (Some c) = (Inr (), None, d)"
    using mem by (simp add: gdox_disc_from_source_def)
  have "close_handles ops (opened_handles None) = (Inr (), opened_handles None)" by (rule close_no_handles)
  moreover have "(opened_handles None)\<lparr>lh_compatible := Some c, lh_compatible := None\<rparr> = opened_handles None"
    by (simp add: opened_handles_def)
  moreover have "lh_compatible ((opened_handles None)\<lparr>lh_compatible := Some c\<rparr>) = Some c" by simp
  ultimately have "info = \<lparr>li_title = copy_title (md_title md), li_title_id = md_title_id md, li_game_partition_lba = base_lba v,
       li_input_sectors = op_sector_count ops s - base_lba v, li_output_sectors = op_sector_count ops s - base_lba v\<rparr>"
      "disc = d" "kept = RETAINED_NONE" "h = opened_handles None"
    using mk st m c(5)
    unfolding gdox_live_disc_build_configured_def o c(1)
    by (auto simp: gdox_disc_is_valid_def live_cleanup_def whole_slot_def Let_def opened_handles_def split: if_splits)
  then show ?thesis using that c(2-10) m by blast
qed

section \<open>Properties\<close>

text \<open>
  C12: An emulator that reads a live disc sees the game partition of the medium with the media checks of its
  executables answered: the disc is as long as the partition behind the volume descriptor, and every read
  of any sequence returns the partition's bytes with the jump behind each media check of every executable of the
  volume replaced, whichever of the directory cache, the executable cache and the read-ahead answers.
\<close>
theorem live_disc_plays_partition:
  assumes "steady_source ops valid contents valid" and "valid s" and "\<And>k. mem k"
    and "op_sector_count ops s \<le> UINT64_MAX div GDOX_LOGICAL_SECTOR_BYTES"
    and "gdox_live_disc_build_configured mem junk [] ops (Some s) options None = (Inr info, disc, kept, h)"
    and "list_all (\<lambda>(offset, n). n \<le> UINT32_MAX) requests"
  shows "kept = RETAINED_NONE \<and> locals_closed h
    \<and> (\<exists>v lba. descriptor_at (contents s) lba \<and> parse_descriptor (descriptor_sector (contents s) lba) lba = Inr v
      \<and> li_game_partition_lba info = base_lba v \<and> li_output_sectors info = op_sector_count ops s - base_lba v
      \<and> fst (disc_reads (disc_live_ops mem ops) requests disc) =
          disc_answers (xbe_view (executable_keys (contents s) v)
             (\<lambda>a. contents s (base_lba v * GDOX_LOGICAL_SECTOR_BYTES + a)))
            ((op_sector_count ops s - base_lba v) * GDOX_LOGICAL_SECTOR_BYTES) requests)"
proof -
  obtain v md c lba where c:
      "xbe_valid (streamed_live_ops ops) (streamed_live_valid ops valid contents) (streamed_live_contents contents) c"
      "xbe_ready (streamed_live_ready valid) c"
      "xbe_contents (streamed_live_contents contents) c =
         xbe_view (executable_keys (contents s) v) (\<lambda>a. contents s (base_lba v * GDOX_LOGICAL_SECTOR_BYTES + a))"
      "op_sector_count (compatible_live_ops ops) c = op_sector_count ops s - base_lba v"
      "descriptor_at (contents s) lba" "parse_descriptor (descriptor_sector (contents s) lba) lba = Inr v"
      "li_game_partition_lba info = base_lba v" "li_output_sectors info = op_sector_count ops s - base_lba v"
      "gdox_disc_from_source mem (compatible_live_ops ops) (Some c) = (Inr (), None, disc)"
      "kept = RETAINED_NONE" "h = opened_handles None"
    by (rule live_build_success[OF assms(1-5)]) auto
  note rel = reliable_source.xbe_patch_reliable_source[OF streamed_live_reliable[OF assms(1)]]
  note made = sector_source.disc_from_source_valid[OF reliable_source.axioms(1)[OF rel]]
  from conjunct2[OF made[OF c(9,1)]]
  obtain dd where dd: "disc = Some dd" "dd_source dd = Some c"
      "direct_valid (compatible_live_ops ops)
         (xbe_valid (streamed_live_ops ops) (streamed_live_valid ops valid contents) (streamed_live_contents contents)) dd"
      "direct_contents (xbe_contents (streamed_live_contents contents)) dd = xbe_contents (streamed_live_contents contents) c"
      "dd_length dd = op_sector_count (compatible_live_ops ops) c * GDOX_LOGICAL_SECTOR_BYTES"
    by (elim exE conjE)
  have rdy: "direct_ready (xbe_ready (streamed_live_ready valid)) dd" using dd(2) c(2) by (simp add: direct_ready_def)
  note reads = ready_disc.disc_reads_ready[OF reliable_source.direct_ready_disc[where mem = mem, OF rel assms(3)]]
  from reads[OF dd(3) rdy assms(6)]
  have "fst (disc_reads (disc_live_ops mem ops) requests disc) = disc_answers
      (xbe_view (executable_keys (contents s) v) (\<lambda>a. contents s (base_lba v * GDOX_LOGICAL_SECTOR_BYTES + a)))
      ((op_sector_count ops s - base_lba v) * GDOX_LOGICAL_SECTOR_BYTES) requests"
    unfolding dd(1,4) c(3) direct_ops_simps direct_length_def dd(5) c(4) by auto
  then show ?thesis
    using c(5-8,10,11) by (intro conjI exI[of _ v] exI[of _ lba]) (simp_all add: locals_closed_def opened_handles_def)
qed


text \<open>
  A live disc is built only for a medium with a playable root executable: its title and identifier are those
  of the certificate in an executable of the volume at the path \<open>/default.xbe\<close>, the identifier is not zero, and the
  title fits the caller's buffer of 256 bytes with its terminator.
\<close>
theorem live_disc_only_playable:
  assumes "steady_source ops valid contents valid" and "valid s" and "\<And>k. mem k"
    and "op_sector_count ops s \<le> UINT64_MAX div GDOX_LOGICAL_SECTOR_BYTES"
    and "gdox_live_disc_build_configured mem junk [] ops (Some s) options None = (Inr info, disc, kept, h)"
  shows "\<exists>lba v e title id. descriptor_at (contents s) lba
    \<and> parse_descriptor (descriptor_sector (contents s) lba) lba = Inr v \<and> li_game_partition_lba info = base_lba v
    \<and> (en_name e, ident e) \<in> volume_executables (contents s) v
    \<and> ascii_case_compare (en_path e) (ascii ''/default.xbe'') = 0
    \<and> xbe_title mem (volume_span (contents s) (base_lba v) (en_start_sector e) (en_size e)) (en_size e) = (title, Some id)
    \<and> id \<noteq> 0 \<and> li_title_id info = Some id \<and> li_title info = copy_title title
    \<and> length (li_title info) < GDOX_LIVE_TITLE_CAPACITY"
proof -
  obtain v md lba where c:
      "descriptor_at (contents s) lba" "parse_descriptor (descriptor_sector (contents s) lba) lba = Inr v"
      "require_playable_default_xbe md = Inr ()" "default_described mem (contents s) v md"
      "(\<lambda>e. (en_name e, ident e)) ` set (md_xbe_files md) = volume_executables (contents s) v"
      "li_game_partition_lba info = base_lba v" "li_title_id info = md_title_id md" "li_title info = copy_title (md_title md)"
    by (rule live_build_success[OF assms]) auto
  have n: "md_default_xbe_index md \<noteq> GDOX_XDVDFS_NO_ENTRY" "md_title_id md \<noteq> None" "md_title_id md \<noteq> Some 0"
    using c(3) by (auto simp: require_playable_default_xbe_def split: if_splits)
  let ?e = "md_xbe_files md ! md_default_xbe_index md"
  have e: "?e \<in> set (md_xbe_files md)" "ascii_case_compare (en_path ?e) (ascii ''/default.xbe'') = 0"
      "(md_title md, md_title_id md) =
        xbe_title mem (volume_span (contents s) (base_lba v) (en_start_sector ?e) (en_size ?e)) (en_size ?e)"
    using c(4) n(1) by (auto simp: default_described_def Let_def)
  obtain id where id: "md_title_id md = Some id" "id \<noteq> 0" using n(2,3) by auto
  have "(en_name ?e, ident ?e) \<in> volume_executables (contents s) v" using e(1) c(5) by blast
  moreover have "length (copy_title t) < GDOX_LIVE_TITLE_CAPACITY" for t
    by (simp add: copy_title_def GDOX_LIVE_TITLE_CAPACITY_def Let_def)
  ultimately show ?thesis using e c id by (intro exI[of _ lba] exI[of _ v] exI[of _ ?e] exI[of _ "md_title md"] exI[of _ id]) auto
qed

text \<open>
  Identifying a disc reports the certificate of the executable at \<open>/default.xbe\<close> of its volume, or the default
  title and no identifier when no executable of the volume is at that path, and leaves the medium open.
\<close>
theorem live_disc_identity:
  assumes "sector_source ops valid contents" and "valid s"
    and "op_sector_count ops s \<le> UINT64_MAX div GDOX_LOGICAL_SECTOR_BYTES"
    and "gdox_live_disc_identify mem ops (Some s) wanted = (Inr info, h)"
  shows "h \<noteq> None \<and> li_game_partition_lba info = 0 \<and> li_output_sectors info = 0
    \<and> (\<exists>lba v es. descriptor_at (contents s) lba \<and> parse_descriptor (descriptor_sector (contents s) lba) lba = Inr v
      \<and> (\<lambda>e. (en_name e, ident e)) ` set es = volume_executables (contents s) v
      \<and> (list_all (\<lambda>e. ascii_case_compare (en_path e) (ascii ''/default.xbe'') \<noteq> 0) es
            \<and> li_title info = ascii ''Original Xbox disc'' \<and> li_title_id info = None
          \<or> list_ex (\<lambda>e. ascii_case_compare (en_path e) (ascii ''/default.xbe'') = 0
            \<and> (li_title info, li_title_id info) = (case xbe_title mem
                (volume_span (contents s) (base_lba v) (en_start_sector e) (en_size e)) (en_size e) of
                  (title, key) \<Rightarrow> (copy_title title, key))) es))"
proof -
  obtain v w md where f: "gdox_xdvdfs_find_volume (mem (GDOX_XDVDFS_SCAN_BATCH * GDOX_LOGICAL_SECTOR_BYTES)) ops (Some s) = (Inr v, w)"
    and i: "gdox_xdvdfs_inspect mem ops w v = (Inr md, h)"
    and info: "info = empty_info\<lparr>li_title := copy_title (md_title md), li_title_id := md_title_id md\<rparr>"
    using assms(4) by (auto simp: gdox_live_disc_identify_def split: if_splits prod.splits sum.splits)
  obtain s1 lba where s1: "w = Some s1" "view_kept ops valid contents s s1"
    and lba: "lba < op_sector_count ops s" "descriptor_at (contents s) lba"
      "parse_descriptor (descriptor_sector (contents s) lba) lba = Inr v"
    using sector_source.find_volume_located[OF assms(1,2) f] by auto
  have v1: "valid s1" "contents s1 = contents s" using s1(2) by (simp_all add: view_kept_def)
  have base: "base_lba v + two32 \<le> two64" by (rule descriptor_base_bound[OF lba(3,1) assms(3)])
  obtain r h' c where ins: "inspect_xdvdfs mem ops (Some s1) v None = (r, h', c)" by (metis prod_cases3)
  then have ins': "inspect_xdvdfs mem ops (Some s1) v None = (Inr md, h, c)"
    using i s1(1) by (simp add: gdox_xdvdfs_inspect_def)
  have "cache_collects (contents s1) (base_lba v) None" by (simp add: cache_collects_def)
  from sector_source.inspect_xdvdfs_fits[OF assms(1) v1(1) base _ _ this ins'] parse_descriptor_bounds[OF lba(3)]
  have fit: "h \<noteq> None" "(\<lambda>e. (en_name e, ident e)) ` set (md_xbe_files md) = volume_executables (contents s) v"
      "default_described mem (contents s) v md"
    unfolding v1(2) by auto
  have "list_all (\<lambda>e. ascii_case_compare (en_path e) (ascii ''/default.xbe'') \<noteq> 0) (md_xbe_files md)
            \<and> li_title info = ascii ''Original Xbox disc'' \<and> li_title_id info = None
          \<or> list_ex (\<lambda>e. ascii_case_compare (en_path e) (ascii ''/default.xbe'') = 0
            \<and> (li_title info, li_title_id info) = (case xbe_title mem
                (volume_span (contents s) (base_lba v) (en_start_sector e) (en_size e)) (en_size e) of
                  (title, key) \<Rightarrow> (copy_title title, key))) (md_xbe_files md)"
  proof (cases "md_default_xbe_index md = GDOX_XDVDFS_NO_ENTRY")
    case True
    then show ?thesis using fit(3) info
      by (simp add: default_described_def copy_title_def ascii_def GDOX_LIVE_TITLE_CAPACITY_def Let_def)
  next
    case False
    then have "md_xbe_files md ! md_default_xbe_index md \<in> set (md_xbe_files md)"
      using fit(3) by (simp add: default_described_def)
    then show ?thesis using fit(3) False info
      by (auto simp: default_described_def list_ex_iff Let_def split: prod.splits)
  qed
  then show ?thesis using fit(1,2) lba(2,3) info
    by (intro conjI exI[of _ lba] exI[of _ v] exI[of _ "md_xbe_files md"]) (simp_all add: empty_info_def)
qed

section \<open>A sample build\<close>

lemma sample_intact: "file_intact s \<Longrightarrow> view_kept file_ops file_intact file_contents sample_disc s \<Longrightarrow> sample_state s"
  by (simp add: sample_state_def view_kept_def)

lemma sample_cache_final:
  "gdox_xdvdfs_directory_cache_finalize sample_directory_cache = \<lparr>dc_extents = [\<lparr>ce_start_sector = 33, ce_prefix_max_end = 34,
     ce_blocks = 1, ce_bytes = Some sample_directory\<rparr>], dc_capacity = 8, dc_retained_bytes = 2048, dc_finalized = True\<rparr>"
  by (simp add: gdox_xdvdfs_directory_cache_finalize_def sample_directory_cache_def extent_end_def)

lemma sample_stages:
  "\<exists>h. live_stages (\<lambda>_. True) (\<lambda>_. 7) [] file_ops 2 (opened_handles (Some sample_disc)) = (Inr (sample_volume, sample_metadata), h)
     \<and> (\<exists>c. h = (opened_handles None)\<lparr>lh_compatible := Some c\<rparr> \<and> op_sector_count (compatible_live_ops file_ops) c = 64)"
proof -
  let ?m = "\<lambda>_. True"
  obtain w1 where f: "gdox_xdvdfs_find_volume True file_ops (Some sample_disc) = (Inr sample_volume, w1)"
    using sample_disc_volume by blast
  obtain s1 where s1: "w1 = Some s1" "sample_state s1"
    using file_steady.find_volume_located[of sample_disc, OF _ f] sample_intact by (auto simp: view_kept_def)
  obtain s2 where i: "gdox_xdvdfs_inspect_with_directory_cache ?m file_ops (Some s1) sample_volume None =
      (Inr sample_metadata, Some s2, Some (gdox_xdvdfs_directory_cache_finalize sample_directory_cache))" and s2: "sample_state s2"
    using sample_inspection_cached[OF s1(2)] by blast
  have base: "base_lba sample_volume = 0" by (simp add: sample_volume_def)
  have n2: "op_sector_count file_ops s2 = 64" using sample_stateD(3)[OF s2] by simp
  have pl: "require_playable_default_xbe sample_metadata = Inr ()"
    by (simp add: require_playable_default_xbe_def sample_metadata_def GDOX_XDVDFS_NO_ENTRY_def SIZE_MAX_def)
  define pp where "pp = \<lparr>pc_inner = Some s2, pc_base_lba = 0, pc_sectors = 64\<rparr>"
  have p: "gdox_source_make_partition True file_ops (Some s2) 0 None = (Inr (), None, Some pp)"
    using n2 by (simp add: gdox_source_make_partition_def pp_def)
  have v2: "file_intact s2" using sample_stateD(1,2)[OF s2] by simp
  define dd where "dd = \<lparr>dx_inner = Some pp, dx_cache = gdox_xdvdfs_directory_cache_finalize sample_directory_cache,
      dx_aborted = False, dx_closing = False\<rparr>"
  have d: "gdox_source_make_xdvdfs_directory_cache True (partition_ops file_ops) (Some pp)
      (Some (gdox_xdvdfs_directory_cache_finalize sample_directory_cache)) None = (Inr (), None, None, Some dd)"
    by (simp add: gdox_source_make_xdvdfs_directory_cache_def sample_cache_final dd_def cached_extent_fits_def
        partition_sector_count_def pp_def)
  have pv: "partition_valid file_ops file_intact pp" "partition_ready file_intact pp" "partition_sector_count pp = 64"
    using v2 n2 by (simp_all add: pp_def partition_valid_def partition_ready_def partition_sector_count_def)
  have pc: "partition_contents file_contents pp = file_contents sample_disc"
    using sample_stateD(4)[OF s2] by (auto simp: pp_def partition_contents_def fun_eq_iff)
  have cv: "cached_live_valid file_ops file_intact file_contents dd"
  proof -
    have "indexed ce_start_sector extent_end ce_prefix_max_end
        (dc_extents (gdox_xdvdfs_directory_cache_finalize sample_directory_cache))"
      using finalize_indexed[of sample_directory_cache] by (simp add: sample_directory_cache_def)
    then have "directory_cache_serves (partition_contents file_contents pp) 64
        (gdox_xdvdfs_directory_cache_finalize sample_directory_cache)"
      unfolding pc by (simp add: directory_cache_serves_def directory_cache_holds_def sample_cache_final sample_disc_spans)
    then show ?thesis using pv by (simp add: cached_valid_def dd_def partition_sector_count_def)
  qed
  have cr: "cached_ready (partition_ready file_intact) dd" using pv(2) by (simp add: cached_ready_def dd_def request_cancelled_def)
  have cn: "op_sector_count (cached_live_ops file_ops) dd = 64"
    using pv(3) by (simp add: cache_sector_count_def forward_sector_count_def dd_def)
  have fits: "default_fits sample_metadata (op_sector_count (cached_live_ops file_ops) dd)"
    unfolding cn by (simp add: default_fits_def sample_metadata_def sectors_of_def)
  note crel = steady_source.axioms(1)[OF steady_source.cached_steady[OF steady_source.partition_steady[OF file_steady.steady_source_axioms]]]
  note made = reliable_source.make_default_cache_ready[OF crel]
  obtain qq where q: "gdox_source_make_default_xbe_cache ?m (cached_live_ops file_ops) (Some dd) sample_metadata = (Inr (), None, Some qq)"
      "prepared_live_valid file_ops file_intact file_contents qq" "prepared_live_ready file_intact qq"
      "op_sector_count (prepared_live_ops file_ops) qq = 64"
    using made[OF cv cr _ fits, of ?m] cn by auto
  note prel = prepared_live_steady[OF file_steady.steady_source_axioms]
  obtain ob q2 where o: "gdox_source_observe_media (prepared_live_ops file_ops) (Some qq) = (True, ob, Some q2)"
      "prepared_live_ready file_intact q2" "\<not> ends_session ob"
    using steady_source.steady_observe[OF prel q(2,3)] by blast
  have ex: "copy_and_validate_extents ?m (op_sector_count (prepared_live_ops file_ops) qq) (md_file_extents sample_metadata) =
      Inr [sample_extent]"
    unfolding q(4) by (simp add: copy_and_validate_extents_def sample_metadata_def sample_extent_def file_extent_end_def
        Let_def SIZE_MAX_def FILE_EXTENT_BYTES_def)
  note rmade = reliable_source.make_readahead_ready[OF steady_source.axioms(1)[OF prel]]
  obtain cc where t: "gdox_source_make_file_readahead ?m (\<lambda>_. 7) [] (prepared_live_ops file_ops) (Some qq) (Some sample_metadata) 2 =
      (Inr (), None, Readahead (Some cc))" "readahead_sector_count (prepared_live_ops file_ops) cc = 64"
    using rmade[OF q(2) o _ _ _ ex, of 2 "\<lambda>_. 7"] q(4) by (auto simp: GDOX_FILE_READAHEAD_MAX_WINDOW_BLOCKS_def)
  have x: "gdox_source_make_xbe_patch_source ?m (streamed_live_ops file_ops) (Some (Inr cc)) sample_metadata = (Inr (), None,
      Some \<lparr>xp_inner = Some (Inr cc), xp_extents = [\<lparr>xe_offset = 69632, xe_length = 2048, xe_prefix_max_end = 71680,
        xe_header_state = XBE_HEADER_UNKNOWN\<rparr>]\<rparr>)"
    using t(2) by (simp add: gdox_source_make_xbe_patch_source_def sample_metadata_def copy_extents_def Let_def UINT64_MAX_def
        SIZE_MAX_def XBE_PATCH_EXTENT_BYTES_def XBE_SIGNATURE_BYTES_def xbe_extent_end_def)
  show ?thesis
    using f s1 i pl p d q(1) t x base
    by (simp add: live_stages_def opened_handles_def and_then_def wrap_partition_def wrap_directory_cache_def wrap_default_xbe_def
        wrap_readahead_def wrap_xbe_patch_def streamed_handle_def xbe_patch_sector_count_def forward_sector_count_def)
qed

lemma sample_build:
  "\<exists>info disc kept h. gdox_live_disc_build_configured (\<lambda>_. True) (\<lambda>_. 7) [] file_ops (Some sample_disc) (Some 2) None =
     (Inr info, disc, kept, h) \<and> li_output_sectors info = 64 \<and> li_game_partition_lba info = 0 \<and> li_title_id info = Some 1"
proof -
  obtain h c where st: "live_stages (\<lambda>_. True) (\<lambda>_. 7) [] file_ops 2 (opened_handles (Some sample_disc)) =
        (Inr (sample_volume, sample_metadata), h)"
      "h = (opened_handles None)\<lparr>lh_compatible := Some c\<rparr>" "op_sector_count (compatible_live_ops file_ops) c = 64"
    using sample_stages by blast
  have "gdox_disc_from_source (\<lambda>_. True) (compatible_live_ops file_ops) (Some c) =
      (Inr (), None, Some \<lparr>dd_source = Some c, dd_length = 131072\<rparr>)"
    using st(3) by (simp add: gdox_disc_from_source_def source_length_def UINT64_MAX_def)
  moreover have "(opened_handles None)\<lparr>lh_compatible := Some c, lh_compatible := None\<rparr> = opened_handles None"
    by (simp add: opened_handles_def)
  ultimately show ?thesis
    using st close_no_handles[of file_ops]
    by (simp add: gdox_live_disc_build_configured_def gdox_disc_is_valid_def live_cleanup_def Let_def sample_volume_def
        sample_metadata_def)
qed

theorem live_disc_plays_partition_witness:
  "\<exists>v lba. descriptor_at (file_contents sample_disc) lba
     \<and> parse_descriptor (descriptor_sector (file_contents sample_disc) lba) lba = Inr v \<and> base_lba v = 0
     \<and> (\<exists>disc. fst (disc_reads (disc_live_ops (\<lambda>_. True) file_ops) [(69640, 5), (131070, 10), (67000, 4000)] disc) =
         disc_answers (xbe_view (executable_keys (file_contents sample_disc) v) (file_contents sample_disc))
            131072 [(69640, 5), (131070, 10), (67000, 4000)])"
proof -
  obtain info disc kept h where b: "gdox_live_disc_build_configured (\<lambda>_. True) (\<lambda>_. 7) [] file_ops (Some sample_disc) (Some 2) None =
     (Inr info, disc, kept, h)" "li_output_sectors info = 64" "li_game_partition_lba info = 0"
    using sample_build by blast
  note t = live_disc_plays_partition[OF file_steady.steady_source_axioms _ _ _ b(1)]
  obtain v lba where v: "descriptor_at (file_contents sample_disc) lba"
      "parse_descriptor (descriptor_sector (file_contents sample_disc) lba) lba = Inr v" "base_lba v = 0"
      "fst (disc_reads (disc_live_ops (\<lambda>_. True) file_ops) [(69640, 5), (131070, 10), (67000, 4000)] disc) =
         disc_answers (xbe_view (executable_keys (file_contents sample_disc) v)
             (\<lambda>a. file_contents sample_disc (base_lba v * GDOX_LOGICAL_SECTOR_BYTES + a)))
            ((64 - base_lba v) * GDOX_LOGICAL_SECTOR_BYTES) [(69640, 5), (131070, 10), (67000, 4000)]"
    using t[of "[(69640, 5), (131070, 10), (67000, 4000)]"] b(2,3)
    by (auto simp: UINT64_MAX_def UINT32_MAX_def simp del: disc_reads.simps)
  show ?thesis
    using v(1-3) v(4)[unfolded v(3)] by (intro exI[of _ v] exI[of _ lba] conjI exI[of _ disc]) (simp_all del: disc_reads.simps)
qed


theorem live_disc_only_playable_witness:
  "\<exists>lba v e title. parse_descriptor (descriptor_sector (file_contents sample_disc) lba) lba = Inr v
    \<and> (en_name e, ident e) \<in> volume_executables (file_contents sample_disc) v
    \<and> xbe_title (\<lambda>_. True) (volume_span (file_contents sample_disc) (base_lba v) (en_start_sector e) (en_size e)) (en_size e) =
        (title, Some 1)"
proof -
  obtain info disc kept h where b: "gdox_live_disc_build_configured (\<lambda>_. True) (\<lambda>_. 7) [] file_ops (Some sample_disc) (Some 2) None =
     (Inr info, disc, kept, h)" "li_title_id info = Some 1"
    using sample_build by blast
  from live_disc_only_playable[OF file_steady.steady_source_axioms _ _ _ b(1)] b(2) show ?thesis
    by (fastforce simp: UINT64_MAX_def)
qed

theorem live_disc_identity_witness:
  "\<exists>info h. gdox_live_disc_identify (\<lambda>_. True) file_ops (Some sample_disc) True = (Inr info, h)
     \<and> h \<noteq> None \<and> li_title_id info = Some 1 \<and> li_output_sectors info = 0"
proof -
  obtain w1 where f: "gdox_xdvdfs_find_volume True file_ops (Some sample_disc) = (Inr sample_volume, w1)"
    using sample_disc_volume by blast
  obtain s1 where s1: "w1 = Some s1" "sample_state s1"
    using file_steady.find_volume_located[of sample_disc, OF _ f] sample_intact by (auto simp: view_kept_def)
  obtain h where "gdox_xdvdfs_inspect (\<lambda>_. True) file_ops (Some s1) sample_volume = (Inr sample_metadata, h)"
    using sample_inspection[of None None, OF _ s1(2)] by (auto simp: retain_directory_def gdox_xdvdfs_inspect_def)
  then obtain info where g: "gdox_live_disc_identify (\<lambda>_. True) file_ops (Some sample_disc) True = (Inr info, h)"
      "li_title_id info = Some 1"
    using f s1(1) by (simp add: gdox_live_disc_identify_def sample_metadata_def)
  from live_disc_identity[OF file_source.sector_source_axioms _ _ g(1)] g show ?thesis by (auto simp: UINT64_MAX_def)
qed

end
