(* ===== verification/NbdWire.thy ===== *)
theory NbdWire
  imports Bytes
begin

text \<open>
  The wire formats of the network block device server (src/src/platform/nbd_wire.c and nbd_wire.h): the
  greeting, the client flags, the option headers and payloads, the requests and the replies. The writers
  fill a caller's buffer; the lemmas read every format as a concatenation of big-endian numbers
  (\<open>be_bytes\<close>), which is the form the protocol document gives, and give the parsers as its inverse.
\<close>

section \<open>Constants and the request\<close>

definition NBD_INIT_MAGIC :: u64 where "NBD_INIT_MAGIC = 0x4e42444d41474943"
definition NBD_OPTS_MAGIC :: u64 where "NBD_OPTS_MAGIC = 0x49484156454f5054"
definition NBD_REP_MAGIC :: u64 where "NBD_REP_MAGIC = 0x0003e889045565a9"
definition NBD_REQUEST_MAGIC :: u32 where "NBD_REQUEST_MAGIC = 0x25609513"
definition NBD_SIMPLE_REPLY_MAGIC :: u32 where "NBD_SIMPLE_REPLY_MAGIC = 0x67446698"

definition NBD_FLAG_FIXED_NEWSTYLE :: nat where "NBD_FLAG_FIXED_NEWSTYLE = 1"
definition NBD_FLAG_NO_ZEROES :: nat where "NBD_FLAG_NO_ZEROES = 2"
definition NBD_INFO_EXPORT :: nat where "NBD_INFO_EXPORT = 0"
definition NBD_INFO_BLOCK_SIZE :: nat where "NBD_INFO_BLOCK_SIZE = 3"

definition GDOX_NBD_MAX_BUFFER_SIZE :: u32 where "GDOX_NBD_MAX_BUFFER_SIZE = 32 * 1024 * 1024"
definition GDOX_NBD_MAX_OPTION_SIZE :: u32 where "GDOX_NBD_MAX_OPTION_SIZE = 64 * 1024"

definition GDOX_NBD_FLAG_C_FIXED_NEWSTYLE :: u32 where "GDOX_NBD_FLAG_C_FIXED_NEWSTYLE = 1"
definition GDOX_NBD_FLAG_C_NO_ZEROES :: u32 where "GDOX_NBD_FLAG_C_NO_ZEROES = 2"

definition GDOX_NBD_OPT_EXPORT_NAME :: u32 where "GDOX_NBD_OPT_EXPORT_NAME = 1"
definition GDOX_NBD_OPT_ABORT :: u32 where "GDOX_NBD_OPT_ABORT = 2"
definition GDOX_NBD_OPT_INFO :: u32 where "GDOX_NBD_OPT_INFO = 6"
definition GDOX_NBD_OPT_GO :: u32 where "GDOX_NBD_OPT_GO = 7"

definition GDOX_NBD_REP_ACK :: u32 where "GDOX_NBD_REP_ACK = 1"
definition GDOX_NBD_REP_INFO :: u32 where "GDOX_NBD_REP_INFO = 3"
definition GDOX_NBD_REP_ERR_UNSUP :: u32 where "GDOX_NBD_REP_ERR_UNSUP = 0x80000001"
definition GDOX_NBD_REP_ERR_INVALID :: u32 where "GDOX_NBD_REP_ERR_INVALID = 0x80000003"
definition GDOX_NBD_REP_ERR_UNKNOWN :: u32 where "GDOX_NBD_REP_ERR_UNKNOWN = 0x80000006"

definition GDOX_NBD_CMD_READ :: nat where "GDOX_NBD_CMD_READ = 0"
definition GDOX_NBD_CMD_WRITE :: nat where "GDOX_NBD_CMD_WRITE = 1"
definition GDOX_NBD_CMD_DISC :: nat where "GDOX_NBD_CMD_DISC = 2"

definition GDOX_NBD_EPERM :: u32 where "GDOX_NBD_EPERM = 1"
definition GDOX_NBD_EIO :: u32 where "GDOX_NBD_EIO = 5"
definition GDOX_NBD_EINVAL :: u32 where "GDOX_NBD_EINVAL = 22"

lemmas nbd_constants = NBD_INIT_MAGIC_def NBD_OPTS_MAGIC_def NBD_REP_MAGIC_def NBD_REQUEST_MAGIC_def
  NBD_SIMPLE_REPLY_MAGIC_def NBD_FLAG_FIXED_NEWSTYLE_def NBD_FLAG_NO_ZEROES_def NBD_INFO_EXPORT_def
  NBD_INFO_BLOCK_SIZE_def GDOX_NBD_MAX_BUFFER_SIZE_def GDOX_NBD_MAX_OPTION_SIZE_def
  GDOX_NBD_FLAG_C_FIXED_NEWSTYLE_def GDOX_NBD_FLAG_C_NO_ZEROES_def
lemmas nbd_options = GDOX_NBD_OPT_EXPORT_NAME_def GDOX_NBD_OPT_ABORT_def GDOX_NBD_OPT_INFO_def GDOX_NBD_OPT_GO_def
lemmas nbd_replies = GDOX_NBD_REP_ACK_def GDOX_NBD_REP_INFO_def GDOX_NBD_REP_ERR_UNSUP_def
  GDOX_NBD_REP_ERR_INVALID_def GDOX_NBD_REP_ERR_UNKNOWN_def
lemmas nbd_commands = GDOX_NBD_CMD_READ_def GDOX_NBD_CMD_WRITE_def GDOX_NBD_CMD_DISC_def
lemmas nbd_errors = GDOX_NBD_EPERM_def GDOX_NBD_EIO_def GDOX_NBD_EINVAL_def

record gdox_nbd_request =
  rq_flags :: nat
  rq_command :: nat
  rq_handle :: u64
  rq_offset :: u64
  rq_length :: u32

section \<open>Writers and parsers\<close>

definition gdox_nbd_wire_greeting :: "byte list \<Rightarrow> byte list" where
  "gdox_nbd_wire_greeting output =
     (let output = put_be_u64 output 0 NBD_INIT_MAGIC;
          output = put_be_u64 output 8 NBD_OPTS_MAGIC
      in put_be_u16 output 16 (NBD_FLAG_FIXED_NEWSTYLE OR NBD_FLAG_NO_ZEROES))"

text \<open>The flag mask of the code, \<open>~3\<close> on 32 bits.\<close>

definition gdox_nbd_wire_parse_client_flags :: "byte list \<Rightarrow> u32 option" where
  "gdox_nbd_wire_parse_client_flags input =
     (let value = read_be_u32 input 0
      in if value AND GDOX_NBD_FLAG_C_FIXED_NEWSTYLE = 0
           \<or> value AND (UINT32_MAX - (GDOX_NBD_FLAG_C_FIXED_NEWSTYLE OR GDOX_NBD_FLAG_C_NO_ZEROES)) \<noteq> 0
         then None else Some value)"

definition gdox_nbd_wire_parse_option_header :: "byte list \<Rightarrow> (u32 \<times> u32) option" where
  "gdox_nbd_wire_parse_option_header input =
     (if read_be_u64 input 0 \<noteq> NBD_OPTS_MAGIC then None
      else let len = read_be_u32 input 12
           in if len > GDOX_NBD_MAX_OPTION_SIZE then None else Some (read_be_u32 input 8, len))"

text \<open>The parsed name is the part of the payload the C function points into.\<close>

definition gdox_nbd_wire_parse_info_name :: "byte list \<Rightarrow> byte list option" where
  "gdox_nbd_wire_parse_info_name payload =
     (let payload_bytes = length payload
      in if payload_bytes < 6 then None
         else let declared_name = read_be_u32 payload 0
              in if u64_add declared_name 6 > payload_bytes then None
                 else let end_at = 4 + declared_name;
                          request_count = read_be_u16 payload end_at
                      in if request_count > u64_sub (u64_sub SIZE_MAX end_at) 2 div 2 then None
                         else if u64_add (u64_add end_at 2) (u64_mul request_count 2) \<noteq> payload_bytes then None
                         else Some (take declared_name (drop 4 payload)))"

definition gdox_nbd_wire_parse_request :: "byte list \<Rightarrow> gdox_nbd_request option" where
  "gdox_nbd_wire_parse_request input =
     (if read_be_u32 input 0 \<noteq> NBD_REQUEST_MAGIC then None
      else Some \<lparr>rq_flags = read_be_u16 input 4, rq_command = read_be_u16 input 6,
                 rq_handle = read_be_u64 input 8, rq_offset = read_be_u64 input 16,
                 rq_length = read_be_u32 input 24\<rparr>)"

definition gdox_nbd_wire_read_is_valid :: "gdox_nbd_request \<Rightarrow> u64 \<Rightarrow> bool" where
  "gdox_nbd_wire_read_is_valid request export_bytes \<longleftrightarrow>
     rq_length request \<le> GDOX_NBD_MAX_BUFFER_SIZE \<and> rq_offset request \<le> export_bytes
     \<and> rq_length request \<le> u64_sub export_bytes (rq_offset request)"

definition gdox_nbd_wire_option_reply_header :: "byte list \<Rightarrow> u32 \<Rightarrow> u32 \<Rightarrow> u32 \<Rightarrow> byte list" where
  "gdox_nbd_wire_option_reply_header output option reply payload_bytes =
     (let output = put_be_u64 output 0 NBD_REP_MAGIC;
          output = put_be_u32 output 8 option;
          output = put_be_u32 output 12 reply
      in put_be_u32 output 16 payload_bytes)"

definition gdox_nbd_wire_simple_reply :: "byte list \<Rightarrow> u32 \<Rightarrow> u64 \<Rightarrow> byte list" where
  "gdox_nbd_wire_simple_reply output reply_error handle =
     (let output = put_be_u32 output 0 NBD_SIMPLE_REPLY_MAGIC;
          output = put_be_u32 output 4 reply_error
      in put_be_u64 output 8 handle)"

definition gdox_nbd_wire_export_response :: "byte list \<Rightarrow> u64 \<Rightarrow> nat \<Rightarrow> byte list" where
  "gdox_nbd_wire_export_response output len export_flags = put_be_u16 (put_be_u64 output 0 len) 8 export_flags"

definition gdox_nbd_wire_block_size_info :: "byte list \<Rightarrow> byte list" where
  "gdox_nbd_wire_block_size_info output =
     (let output = put_be_u16 output 0 NBD_INFO_BLOCK_SIZE;
          output = put_be_u32 output 2 1;
          output = put_be_u32 output 6 (64 * 1024)
      in put_be_u32 output 10 GDOX_NBD_MAX_BUFFER_SIZE)"

definition gdox_nbd_wire_export_info :: "byte list \<Rightarrow> u64 \<Rightarrow> nat \<Rightarrow> byte list" where
  "gdox_nbd_wire_export_info output len export_flags =
     (let output = put_be_u16 output 0 NBD_INFO_EXPORT;
          output = put_be_u64 output 2 len
      in put_be_u16 output 10 export_flags)"

section \<open>Big-endian numbers\<close>

fun be_bytes :: "nat \<Rightarrow> nat \<Rightarrow> byte list" where
  "be_bytes 0 v = []"
| "be_bytes (Suc n) v = be_bytes n (v div 256) @ [word_of_nat (v mod 256)]"

definition be_value :: "byte list \<Rightarrow> nat" where
  "be_value bs = foldl (\<lambda>a b. a * 256 + unat b) 0 bs"

lemma length_be_bytes [simp]: "length (be_bytes n v) = n"
  by (induction n arbitrary: v) auto

lemma be_value_snoc: "be_value (bs @ [b]) = be_value bs * 256 + unat b"
  by (simp add: be_value_def)

lemma be_value_bytes: "be_value (be_bytes n v) = v mod 256 ^ n"
proof (induction n arbitrary: v)
  case (Suc n)
  have "v mod 256 ^ Suc n = 256 * (v div 256 mod 256 ^ n) + v mod 256"
    using mod_mult2_eq[of v 256 "256 ^ n"] by simp
  with Suc show ?case by (simp add: be_value_snoc unat_word_of_nat_id)
qed (simp add: be_value_def)

lemma be_bytes_value: "be_bytes (length bs) (be_value bs) = bs"
proof (induction bs rule: rev_induct)
  case (snoc b bs)
  have "unat b < 256" using unat_lt2p[of b] by simp
  with snoc show ?case by (simp add: be_value_snoc)
qed simp

lemma unat_join16: "unat (join16 b0 b1) = unat b1 * 256 + unat b0"
proof -
  have b: "unat b0 < 2 ^ 8" "unat b1 < 2 ^ 8" using unat_lt2p[of b0] unat_lt2p[of b1] by simp_all
  have "unat (join16 b0 b1) = unat b0 OR take_bit 16 (push_bit 8 (unat b1))"
    by (simp add: join16_def unsigned_or_eq unsigned_push_bit_eq unsigned_ucast_eq take_bit_nat_eq_self)
      (use b in \<open>simp add: take_bit_nat_eq_self push_bit_eq_mult\<close>)
  also have "take_bit 16 (push_bit 8 (unat b1)) = unat b1 * 256"
    using b by (simp add: push_bit_eq_mult take_bit_nat_eq_self)
  also have "unat b0 OR unat b1 * 256 = unat b1 * 256 + unat b0"
    using nat_or_disjoint[of "unat b0" 8 "unat b1 * 256"] b by (simp add: or.commute)
  finally show ?thesis .
qed

lemma nat_or_shift:
  assumes "a < 2 ^ k"
  shows "a OR c * 2 ^ k = c * 2 ^ k + (a :: nat)"
  using nat_or_disjoint[of a k "c * 2 ^ k"] assms by (simp add: or.commute)

lemma unat_byte_bounds: "unat (b :: byte) < 256"
  using unat_lt2p[of b] by simp

lemma unat_ucast_byte32: "unat (ucast (b :: byte) :: 32 word) = unat b"
  using unat_byte_bounds[of b] by (simp add: unsigned_ucast_eq take_bit_nat_eq_self)

lemma unat_push_byte32:
  assumes "n \<le> 24"
  shows "unat (push_bit n (ucast (b :: byte) :: 32 word)) = unat b * 2 ^ n"
proof -
  have "unat b * 2 ^ n < 2 ^ 8 * 2 ^ n" using unat_byte_bounds[of b] by simp
  also have "\<dots> \<le> 2 ^ 8 * 2 ^ 24" using assms by (intro mult_left_mono power_increasing) auto
  finally have "unat b * 2 ^ n < 2 ^ 32" by simp
  then have "take_bit 32 (push_bit n (unat b)) = unat b * 2 ^ n"
    by (simp only: push_bit_eq_mult) (simp add: take_bit_nat_eq_self)
  then show ?thesis by (simp only: unsigned_push_bit_eq unat_ucast_byte32) simp
qed

lemma unat_join32: "unat (join32 b0 b1 b2 b3) = ((unat b3 * 256 + unat b2) * 256 + unat b1) * 256 + unat b0"
proof -
  have s: "unat (join32 b0 b1 b2 b3) = unat b0 OR unat b1 * 2 ^ 8 OR unat b2 * 2 ^ 16 OR unat b3 * 2 ^ 24"
    by (simp only: join32_def unsigned_or_eq unat_ucast_byte32 unat_push_byte32 order_refl)
  have "unat b0 OR unat b1 * 2 ^ 8 = unat b1 * 2 ^ 8 + unat b0"
    using nat_or_shift[of "unat b0" 8 "unat b1"] unat_byte_bounds[of b0] by simp
  moreover have "(unat b1 * 2 ^ 8 + unat b0) OR unat b2 * 2 ^ 16 = unat b2 * 2 ^ 16 + (unat b1 * 2 ^ 8 + unat b0)"
    by (rule nat_or_shift) (use unat_byte_bounds[of b0] unat_byte_bounds[of b1] in simp)
  moreover have "(unat b2 * 2 ^ 16 + (unat b1 * 2 ^ 8 + unat b0)) OR unat b3 * 2 ^ 24
      = unat b3 * 2 ^ 24 + (unat b2 * 2 ^ 16 + (unat b1 * 2 ^ 8 + unat b0))"
    by (rule nat_or_shift) (use unat_byte_bounds[of b0] unat_byte_bounds[of b1] unat_byte_bounds[of b2] in simp)
  ultimately show ?thesis using s by (simp add: or.assoc[symmetric])
qed

lemma unat_join64: "unat (join64 low high) = unat high * two32 + unat low"
proof -
  have l: "unat low < 2 ^ 32" "unat high < 2 ^ 32" using unat_lt2p[of low] unat_lt2p[of high] by simp_all
  have u: "unat (ucast (w :: 32 word) :: 64 word) = unat w" if "unat w < 2 ^ 32" for w
    using that by (simp add: unsigned_ucast_eq take_bit_nat_eq_self)
  have "take_bit 64 (push_bit 32 (unat high)) = unat high * 2 ^ 32"
    using l by (simp add: push_bit_eq_mult take_bit_nat_eq_self)
  then have "unat (join64 low high) = unat low OR unat high * 2 ^ 32"
    using u[OF l(1)] u[OF l(2)] by (simp only: join64_def unsigned_or_eq unsigned_push_bit_eq) simp
  then show ?thesis using nat_or_shift[of "unat low" 32 "unat high"] l by simp
qed

lemma nth_take_drop: "i < n \<Longrightarrow> p + n \<le> length xs \<Longrightarrow> take n (drop p xs) ! i = xs ! (p + i)"
  by simp

lemma be_value_2: "be_value [a, b] = unat a * 256 + unat b"
  by (simp add: be_value_def)

lemma be_value_4: "be_value [a, b, c, d] = ((unat a * 256 + unat b) * 256 + unat c) * 256 + unat d"
  by (simp add: be_value_def)

lemma be_value_append: "be_value (xs @ ys) = be_value xs * 256 ^ length ys + be_value ys"
proof (induction ys rule: rev_induct)
  case (snoc y ys)
  then show ?case by (simp only: append_assoc[symmetric] be_value_snoc) (simp add: algebra_simps)
qed (simp add: be_value_def)

lemma drop_take_2: "p + 2 \<le> length xs \<Longrightarrow> take 2 (drop p xs) = [xs ! p, xs ! (p + 1)]"
  by (rule nth_equalityI) (auto simp: less_Suc_eq numeral_2_eq_2)

lemma drop_take_4: "p + 4 \<le> length xs \<Longrightarrow> take 4 (drop p xs) = [xs ! p, xs ! (p + 1), xs ! (p + 2), xs ! (p + 3)]"
  by (rule nth_equalityI) (auto simp: less_Suc_eq numeral_eq_Suc)

lemma read_be_u16_value: "p + 2 \<le> length xs \<Longrightarrow> read_be_u16 xs p = be_value (take 2 (drop p xs))"
  by (simp add: read_be_u16_def unat_join16 drop_take_2 be_value_2)

lemma read_be_u32_value: "p + 4 \<le> length xs \<Longrightarrow> read_be_u32 xs p = be_value (take 4 (drop p xs))"
  by (simp add: read_be_u32_def unat_join32 drop_take_4 be_value_4)

lemma read_be_u64_value:
  assumes "p + 8 \<le> length xs"
  shows "read_be_u64 xs p = be_value (take 8 (drop p xs))"
proof -
  have s: "take 8 (drop p xs) = take 4 (drop p xs) @ take 4 (drop (p + 4) xs)"
    using take_add[of 4 4 "drop p xs"] by (simp add: add.commute)
  have "read_be_u64 xs p = read_be_u32 xs p * two32 + read_be_u32 xs (p + 4)"
    using reads_less(4)[of xs p] reads_less(4)[of xs "p + 4"]
    by (simp add: read_be_u64_def unat_join64 unat_word_of_nat_id)
  then show ?thesis using assms by (simp add: s be_value_append read_be_u32_value)
qed

text \<open>The writers place the big-endian bytes of the value, converted to the width of the parameter.\<close>

lemma and_255: "(a :: nat) AND 255 = a mod 256"
proof -
  have "a AND mask 8 = a mod 2 ^ 8" by (simp only: take_bit_eq_mask[symmetric] take_bit_eq_mod)
  then show ?thesis by (simp add: mask_eq_exp_minus_1)
qed

lemma unat_ucast_small: "unat (x :: 'a::len word) < 256 \<Longrightarrow> unat (ucast x :: byte) = unat x"
  by (simp add: unsigned_ucast_eq take_bit_nat_eq_self)

lemma unat_low_byte: "unat (ucast (drop_bit n w AND 255) :: byte) = unat (w :: 'a::len word) div 2 ^ n mod 256"
  if "LENGTH('a) \<ge> 9"
proof -
  have m: "unat (255 :: 'a word) = 255" using that power_increasing[of 9 "LENGTH('a)" "2 :: nat"]
    by (simp add: unsigned_numeral take_bit_nat_eq_self)
  have "unat (drop_bit n w AND 255) = unat w div 2 ^ n mod 256"
    by (simp only: unsigned_and_eq unat_drop_bit_eq m and_255) (simp only: drop_bit_eq_div)
  moreover have "unat w div 2 ^ n mod 256 < 256" by simp
  ultimately show ?thesis by (simp only: unat_ucast_small)
qed

lemma unat_byte_of32: "unat (byte_of32 n w) = unat w div 2 ^ n mod 256"
  using unat_low_byte[of n w] by (simp add: byte_of32_def)

lemma unat_byte_of16: "unat (byte_of16 n w) = unat w div 2 ^ n mod 256"
  using unat_low_byte[of n w] by (simp add: byte_of16_def)

lemma byte_of32_nat: "v < two32 \<Longrightarrow> byte_of32 n (word_of_nat v) = word_of_nat (v div 2 ^ n mod 256)"
  by (rule word_unat_eq_iff[THEN iffD2]) (simp add: unat_byte_of32 unat_word_of_nat_id)

lemma byte_of16_nat: "v < 65536 \<Longrightarrow> byte_of16 n (word_of_nat v) = word_of_nat (v div 2 ^ n mod 256)"
  by (rule word_unat_eq_iff[THEN iffD2]) (simp add: unat_byte_of16 unat_word_of_nat_id)

lemma be_bytes_2: "be_bytes 2 v = [word_of_nat (v div 256 mod 256), word_of_nat (v mod 256)]"
proof -
  have "be_bytes (Suc (Suc 0)) v = [word_of_nat (v div 256 mod 256), word_of_nat (v mod 256)]"
    by (simp only: be_bytes.simps append_Nil append_Cons)
  then show ?thesis by (simp only: numeral_2_eq_2)
qed

lemma be_bytes_4: "be_bytes 4 v = [word_of_nat (v div 2 ^ 24 mod 256), word_of_nat (v div 2 ^ 16 mod 256),
    word_of_nat (v div 2 ^ 8 mod 256), word_of_nat (v mod 256)]"
proof -
  have "be_bytes (Suc (Suc 2)) v = be_bytes 2 (v div 256 div 256) @ [word_of_nat (v div 256 mod 256), word_of_nat (v mod 256)]"
    by (simp only: be_bytes.simps append_assoc append_Nil append_Cons)
  moreover have "Suc (Suc 2) = 4" by simp
  ultimately show ?thesis by (simp add: be_bytes_2 div_mult2_eq[symmetric])
qed

lemma be_bytes_add: "be_bytes (m + n) v = be_bytes m (v div 256 ^ n) @ be_bytes n v"
proof (induction n arbitrary: v)
  case (Suc n)
  then show ?case by (simp add: div_mult2_eq[symmetric])
qed simp

lemma be_bytes_mod: "be_bytes n (v mod 256 ^ n) = be_bytes n v"
proof (induction n arbitrary: v)
  case (Suc n)
  have "v mod 256 ^ Suc n div 256 = v div 256 mod 256 ^ n" "v mod 256 ^ Suc n mod 256 = v mod 256"
    using mod_mult2_eq[of v 256 "256 ^ n"] by simp_all
  then show ?case using Suc[of "v div 256"] by simp
qed simp

lemma split_2:
  assumes "p + 2 \<le> length xs"
  obtains ys a b zs where "xs = ys @ a # b # zs" "length ys = p"
proof -
  have "xs = take p xs @ xs ! p # xs ! Suc p # drop (Suc (Suc p)) xs"
    using assms by (simp add: Cons_nth_drop_Suc)
  then show thesis using that[of "take p xs"] assms by simp
qed

lemma put_2: "p + 2 \<le> length xs \<Longrightarrow> xs[p := a, p + 1 := b] = take p xs @ [a, b] @ drop (p + 2) xs"
  by (elim split_2) (simp add: list_update_append)

lemma put_4: "p + 4 \<le> length xs \<Longrightarrow>
  xs[p := a, p + 1 := b, p + 2 := c, p + 3 := d] = take p xs @ [a, b, c, d] @ drop (p + 4) xs"
proof -
  assume l: "p + 4 \<le> length xs"
  from l have "p + 2 \<le> length xs" by simp
  then obtain ys a' b' us where x: "xs = ys @ a' # b' # us" "length ys = p" by (rule split_2)
  obtain c' d' zs where u: "us = c' # d' # zs" using l x by (cases us; cases "tl us") auto
  show ?thesis by (simp add: x u list_update_append flip: x(2))
qed

lemma put_be_u16_bytes:
  "p + 2 \<le> length xs \<Longrightarrow> v < 65536 \<Longrightarrow> put_be_u16 xs p v = take p xs @ be_bytes 2 v @ drop (p + 2) xs"
  using put_2[of p xs] by (simp add: put_be_u16_def Let_def byte_of16_nat be_bytes_2)

lemma put_be_u32_bytes:
  "p + 4 \<le> length xs \<Longrightarrow> v < two32 \<Longrightarrow> put_be_u32 xs p v = take p xs @ be_bytes 4 v @ drop (p + 4) xs"
  using put_4[of p xs] by (simp add: put_be_u32_def Let_def byte_of32_nat be_bytes_4)

lemma put_be_u64_bytes:
  assumes "p + 8 \<le> length xs" and "v < two64"
  shows "put_be_u64 xs p v = take p xs @ be_bytes 8 v @ drop (p + 8) xs"
proof -
  have v: "unat (word_of_nat v :: 64 word) = v" using assms(2) by (simp add: unat_word_of_nat_id)
  have hi: "unat (drop_bit 32 (word_of_nat v :: 64 word)) = v div two32"
    unfolding unat_drop_bit_eq v by (simp add: drop_bit_eq_div)
  have "(v AND 4294967295) = v mod two32"
    using take_bit_eq_mask[of 32 v] by (simp add: take_bit_eq_mod mask_eq_exp_minus_1)
  then have lo: "unat ((word_of_nat v :: 64 word) AND 4294967295) = v mod two32"
    by (simp add: unsigned_and_eq v)
  have b: "be_bytes 8 v = be_bytes 4 (v div two32) @ be_bytes 4 (v mod two32)"
    using be_bytes_add[of 4 4 v] be_bytes_mod[of 4 v] by simp
  have "v div two32 < two32" using assms(2) by simp
  then show ?thesis using assms(1)
    by (simp add: put_be_u64_def Let_def hi lo put_be_u32_bytes b add.commute[of _ p])
qed

text \<open>The formats, byte for byte. The buffer is overwritten whole, so its initial bytes do not matter.\<close>

lemma greeting_bytes:
  "length out = 18 \<Longrightarrow> gdox_nbd_wire_greeting out = be_bytes 8 NBD_INIT_MAGIC @ be_bytes 8 NBD_OPTS_MAGIC @ be_bytes 2 3"
  by (simp add: gdox_nbd_wire_greeting_def Let_def put_be_u64_bytes put_be_u16_bytes nbd_constants)

lemma option_reply_header_bytes:
  "length out = 20 \<Longrightarrow> option < two32 \<Longrightarrow> reply < two32 \<Longrightarrow> n < two32 \<Longrightarrow>
   gdox_nbd_wire_option_reply_header out option reply n =
     be_bytes 8 NBD_REP_MAGIC @ be_bytes 4 option @ be_bytes 4 reply @ be_bytes 4 n"
  by (simp add: gdox_nbd_wire_option_reply_header_def Let_def put_be_u64_bytes put_be_u32_bytes nbd_constants)

lemma simple_reply_bytes:
  "length out = 16 \<Longrightarrow> e < two32 \<Longrightarrow> handle < two64 \<Longrightarrow>
   gdox_nbd_wire_simple_reply out e handle = be_bytes 4 NBD_SIMPLE_REPLY_MAGIC @ be_bytes 4 e @ be_bytes 8 handle"
  by (simp add: gdox_nbd_wire_simple_reply_def Let_def put_be_u64_bytes put_be_u32_bytes nbd_constants)

lemma export_response_bytes:
  "length out = 10 \<Longrightarrow> len < two64 \<Longrightarrow> flags < 65536 \<Longrightarrow>
   gdox_nbd_wire_export_response out len flags = be_bytes 8 len @ be_bytes 2 flags"
  by (simp add: gdox_nbd_wire_export_response_def put_be_u64_bytes put_be_u16_bytes)

lemma block_size_info_bytes:
  "length out = 14 \<Longrightarrow> gdox_nbd_wire_block_size_info out =
     be_bytes 2 3 @ be_bytes 4 1 @ be_bytes 4 65536 @ be_bytes 4 33554432"
  by (simp add: gdox_nbd_wire_block_size_info_def Let_def put_be_u32_bytes put_be_u16_bytes nbd_constants)

lemma export_info_bytes:
  "length out = 12 \<Longrightarrow> len < two64 \<Longrightarrow> flags < 65536 \<Longrightarrow>
   gdox_nbd_wire_export_info out len flags = be_bytes 2 0 @ be_bytes 8 len @ be_bytes 2 flags"
  by (simp add: gdox_nbd_wire_export_info_def Let_def put_be_u64_bytes put_be_u16_bytes nbd_constants)

section \<open>What a client sends\<close>

definition request_bytes :: "gdox_nbd_request \<Rightarrow> byte list" where
  "request_bytes q = be_bytes 4 NBD_REQUEST_MAGIC @ be_bytes 2 (rq_flags q) @ be_bytes 2 (rq_command q)
     @ be_bytes 8 (rq_handle q) @ be_bytes 8 (rq_offset q) @ be_bytes 4 (rq_length q)"

definition request_fits :: "gdox_nbd_request \<Rightarrow> bool" where
  "request_fits q \<longleftrightarrow> rq_flags q < 65536 \<and> rq_command q < 65536 \<and> rq_handle q < two64
     \<and> rq_offset q < two64 \<and> rq_length q < two32"

definition option_bytes :: "u32 \<Rightarrow> byte list \<Rightarrow> byte list" where
  "option_bytes option payload = be_bytes 8 NBD_OPTS_MAGIC @ be_bytes 4 option @ be_bytes 4 (length payload) @ payload"

definition info_payload :: "byte list \<Rightarrow> nat list \<Rightarrow> byte list" where
  "info_payload name infos =
     be_bytes 4 (length name) @ name @ be_bytes 2 (length infos) @ concat (map (be_bytes 2) infos)"

lemma length_request_bytes [simp]: "length (request_bytes q) = 28"
  by (simp add: request_bytes_def)

lemma be_value_two: "be_value (be_bytes 2 v) = v mod 65536" "be_value (be_bytes 4 v) = v mod two32"
  "be_value (be_bytes 8 v) = v mod two64"
  by (simp_all add: be_value_bytes)

lemma parse_request_bytes:
  assumes "request_fits q"
  shows "gdox_nbd_wire_parse_request (request_bytes q) = Some q"
  using assms
  by (simp add: gdox_nbd_wire_parse_request_def request_bytes_def request_fits_def read_be_u16_value
      read_be_u32_value read_be_u64_value be_value_two nbd_constants)

lemma parse_request_inverse:
  assumes "length input = 28" and "gdox_nbd_wire_parse_request input = Some q"
  shows "request_fits q \<and> request_bytes q = input"
proof -
  have p: "be_value (take 4 input) = NBD_REQUEST_MAGIC"
    "q = \<lparr>rq_flags = be_value (take 2 (drop 4 input)), rq_command = be_value (take 2 (drop 6 input)),
          rq_handle = be_value (take 8 (drop 8 input)), rq_offset = be_value (take 8 (drop 16 input)),
          rq_length = be_value (take 4 (drop 24 input))\<rparr>"
    using assms by (auto simp: gdox_nbd_wire_parse_request_def read_be_u16_value
      read_be_u32_value read_be_u64_value split: if_splits)
  have b: "be_bytes n (be_value (take n (drop p input))) = take n (drop p input)" if "p + n \<le> 28" for n p
    using be_bytes_value[of "take n (drop p input)"] that assms(1) by simp
  have "request_bytes q = take 4 (drop 0 input) @ take 2 (drop 4 input) @ take 2 (drop 6 input)
      @ take 8 (drop 8 input) @ take 8 (drop 16 input) @ take 4 (drop 24 input)"
    using b[of 0 4] b[of 4 2] b[of 6 2] b[of 8 8] b[of 16 8] b[of 24 4] p by (simp add: request_bytes_def)
  also have "\<dots> = input"
  proof -
    have "input = take 4 input @ drop 4 input" "drop 4 input = take 2 (drop 4 input) @ drop 6 input"
      "drop 6 input = take 2 (drop 6 input) @ drop 8 input" "drop 8 input = take 8 (drop 8 input) @ drop 16 input"
      "drop 16 input = take 8 (drop 16 input) @ drop 24 input" "drop 24 input = take 4 (drop 24 input)"
      using assms(1) append_take_drop_id[of 2 "drop 4 input"] append_take_drop_id[of 2 "drop 6 input"]
        append_take_drop_id[of 8 "drop 8 input"] append_take_drop_id[of 8 "drop 16 input"] by simp_all
    then show ?thesis by simp
  qed
  finally have "request_bytes q = input" .
  moreover have "request_fits q"
    using reads_less(3)[of input 4] reads_less(3)[of input 6] reads_less(5)[of input 8] reads_less(5)[of input 16]
      reads_less(4)[of input 24] assms by (auto simp: gdox_nbd_wire_parse_request_def request_fits_def split: if_splits)
  ultimately show ?thesis by simp
qed

lemma parse_option_bytes:
  assumes "option < two32" and "length payload \<le> GDOX_NBD_MAX_OPTION_SIZE"
  shows "gdox_nbd_wire_parse_option_header (take 16 (option_bytes option payload)) = Some (option, length payload)"
proof -
  have "length payload < two32" using assms(2) by (simp add: nbd_constants)
  then show ?thesis using assms
    by (simp add: gdox_nbd_wire_parse_option_header_def option_bytes_def read_be_u32_value read_be_u64_value
      be_value_two nbd_constants)
qed

lemma length_infos [simp]: "length (concat (map (be_bytes 2) infos)) = 2 * length infos"
  by (induction infos) auto

text \<open>
  The parser accepts exactly the payloads that are a name with its list of information requests, and returns
  the name: the declared lengths can neither run past the payload nor leave bytes behind.
\<close>

lemma parse_info_value:
  assumes "length payload < two32"
  shows "gdox_nbd_wire_parse_info_name payload = Some name \<longleftrightarrow>
     (6 \<le> length payload \<and> be_value (take 4 payload) + 6 \<le> length payload
      \<and> be_value (take 4 payload) + 6 + 2 * be_value (take 2 (drop (4 + be_value (take 4 payload)) payload)) = length payload
      \<and> name = take (be_value (take 4 payload)) (drop 4 payload))" (is "?l \<longleftrightarrow> ?r")
proof (cases "6 \<le> length payload \<and> be_value (take 4 payload) + 6 \<le> length payload")
  case True
  let ?d = "be_value (take 4 payload)"
  have d: "read_be_u32 payload 0 = ?d" using True by (simp add: read_be_u32_value)
  have c: "read_be_u16 payload (4 + ?d) = be_value (take 2 (drop (4 + ?d) payload))" using True by (simp add: read_be_u16_value)
  have cl: "be_value (take 2 (drop (4 + ?d) payload)) < 65536" using reads_less(3)[of payload "4 + ?d"] c by simp
  have dl: "?d < two32" using reads_less(4)[of payload 0] d by simp
  show ?thesis using True cl dl assms
    by (auto simp: gdox_nbd_wire_parse_info_name_def Let_def d c SIZE_MAX_def algebra_simps)
next
  case False
  have "read_be_u32 payload 0 = be_value (take 4 payload)" if "6 \<le> length payload" using that by (simp add: read_be_u32_value)
  then show ?thesis using False reads_less(4)[of payload 0] by (auto simp: gdox_nbd_wire_parse_info_name_def Let_def)
qed

lemma parse_info_payload:
  assumes "length (info_payload name infos) < two32" and "length infos < 65536"
  shows "gdox_nbd_wire_parse_info_name (info_payload name infos) = Some name"
proof -
  have "length name < two32" using assms(1) by (simp add: info_payload_def)
  then have "be_value (take 4 (info_payload name infos)) = length name"
    by (simp add: info_payload_def be_value_two)
  then show ?thesis unfolding parse_info_value[OF assms(1)] using assms
    by (simp add: info_payload_def be_value_two)
qed

section \<open>Properties\<close>

text \<open>C8: The request parser is the exact inverse of the wire format: 28 bytes parse to a request precisely when
  they are its big-endian encoding, with every field within its width, and the info option returns exactly the name
  a client put into its payload.\<close>
theorem nbd_requests_round_trip:
  assumes "length input = 28" and "length (info_payload name infos) < two32" and "length infos < 65536"
  shows "(gdox_nbd_wire_parse_request input = Some q) = (request_fits q \<and> input = request_bytes q)
    \<and> gdox_nbd_wire_parse_info_name (info_payload name infos) = Some name"
  using parse_request_inverse[OF assms(1)] parse_request_bytes parse_info_payload[OF assms(2,3)] by blast

theorem nbd_requests_round_trip_witness:
  "(gdox_nbd_wire_parse_request (be_bytes 4 NBD_REQUEST_MAGIC @ replicate 24 7) = Some
      \<lparr>rq_flags = 1799, rq_command = 1799, rq_handle = 506381209866536711, rq_offset = 506381209866536711, rq_length = 117901063\<rparr>)
   = (request_fits \<lparr>rq_flags = 1799, rq_command = 1799, rq_handle = 506381209866536711, rq_offset = 506381209866536711, rq_length = 117901063\<rparr>
      \<and> be_bytes 4 NBD_REQUEST_MAGIC @ replicate 24 7 = request_bytes
      \<lparr>rq_flags = 1799, rq_command = 1799, rq_handle = 506381209866536711, rq_offset = 506381209866536711, rq_length = 117901063\<rparr>)
   \<and> gdox_nbd_wire_parse_info_name (info_payload [100, 105, 115, 99] [3]) = Some [100, 105, 115, 99]"
  by (rule nbd_requests_round_trip) (simp_all add: info_payload_def)

end
