(* ===== verification/NbdSocket.thy ===== *)
theory NbdSocket
  imports Source NbdWire
begin

text \<open>
  The socket layer of the network block device server (src/src/platform/nbd_socket.c): exact reads and
  complete writes over \<open>recv\<close> and \<open>send\<close>, which may move fewer bytes than asked, and the error number of the
  process. The operating system is a table of functions on a host state; what the code relies on
  is stated as the locale \<open>byte_stream\<close>: what is received comes, in order, from the bytes the peer sent, what is sent
  is appended to what the peer will see, and only finitely many calls are interrupted.
\<close>

section \<open>The host\<close>

text \<open>The error numbers the code tells apart; any other one is \<open>SOCKET_OTHER\<close>.\<close>

datatype socket_error =
    SOCKET_CONNECTION_ABORTED | SOCKET_CONNECTION_RESET | SOCKET_INTERRUPTED | SOCKET_NO_MEMORY
  | SOCKET_PERMISSION | SOCKET_PROTOCOL | SOCKET_OTHER int

text \<open>The calls that configure a client socket, with their arguments.\<close>

datatype socket_option =
    SOCKET_GET_FLAGS | SOCKET_SET_BLOCKING | SOCKET_NODELAY | SOCKET_RECEIVE_TIMEOUT nat | SOCKET_SEND_TIMEOUT nat

text \<open>
  A call that returns \<open>-1\<close> sets the error number: \<open>Inl\<close>. \<open>host_recv\<close> returns the received bytes, none at the
  end of the stream; \<open>host_send\<close> the number of accepted bytes.
\<close>

record 'k host_ops =
  host_recv :: "'k \<Rightarrow> nat \<Rightarrow> (socket_error + byte list) \<times> 'k"
  host_send :: "'k \<Rightarrow> byte list \<Rightarrow> (socket_error + nat) \<times> 'k"
  host_option :: "'k \<Rightarrow> socket_option \<Rightarrow> (socket_error + unit) \<times> 'k"
  host_alloc :: "'k \<Rightarrow> nat \<Rightarrow> bool \<times> 'k"
  host_clock :: "'k \<Rightarrow> u64 \<times> 'k"
  host_lock :: "'k \<Rightarrow> bool \<times> 'k"

record 'k process =
  world :: 'k
  errno :: socket_error
  console :: "string list"

definition set_socket_error :: "socket_error \<Rightarrow> 'k process \<Rightarrow> 'k process" where
  "set_socket_error c p = p\<lparr>errno := c\<rparr>"

definition gdox_nbd_socket_error :: "'k process \<Rightarrow> socket_error" where
  "gdox_nbd_socket_error p = errno p"

abbreviation gdox_nbd_socket_set_protocol_error :: "'k process \<Rightarrow> 'k process" where
  "gdox_nbd_socket_set_protocol_error \<equiv> set_socket_error SOCKET_PROTOCOL"

abbreviation gdox_nbd_socket_set_permission_error :: "'k process \<Rightarrow> 'k process" where
  "gdox_nbd_socket_set_permission_error \<equiv> set_socket_error SOCKET_PERMISSION"

abbreviation gdox_nbd_socket_set_no_memory_error :: "'k process \<Rightarrow> 'k process" where
  "gdox_nbd_socket_set_no_memory_error \<equiv> set_socket_error SOCKET_NO_MEMORY"

abbreviation gdox_nbd_socket_set_connection_aborted :: "'k process \<Rightarrow> 'k process" where
  "gdox_nbd_socket_set_connection_aborted \<equiv> set_socket_error SOCKET_CONNECTION_ABORTED"

definition receive_bytes :: "'k host_ops \<Rightarrow> 'k process \<Rightarrow> nat \<Rightarrow> byte list option \<times> 'k process" where
  "receive_bytes host p n =
     (case host_recv host (world p) n of
        (Inl c, k) \<Rightarrow> (None, p\<lparr>world := k, errno := c\<rparr>)
      | (Inr bs, k) \<Rightarrow> (Some bs, p\<lparr>world := k\<rparr>))"

definition send_bytes :: "'k host_ops \<Rightarrow> 'k process \<Rightarrow> byte list \<Rightarrow> nat option \<times> 'k process" where
  "send_bytes host p bs =
     (case host_send host (world p) bs of
        (Inl c, k) \<Rightarrow> (None, p\<lparr>world := k, errno := c\<rparr>)
      | (Inr n, k) \<Rightarrow> (Some n, p\<lparr>world := k\<rparr>))"

definition set_option :: "'k host_ops \<Rightarrow> socket_option \<Rightarrow> 'k process \<Rightarrow> bool \<times> 'k process" where
  "set_option host opt p =
     (case host_option host (world p) opt of
        (Inl c, k) \<Rightarrow> (False, p\<lparr>world := k, errno := c\<rparr>)
      | (Inr _, k) \<Rightarrow> (True, p\<lparr>world := k\<rparr>))"

fun set_options :: "'k host_ops \<Rightarrow> socket_option list \<Rightarrow> 'k process \<Rightarrow> bool \<times> 'k process" where
  "set_options host [] p = (True, p)"
| "set_options host (opt # opts) p =
     (case set_option host opt p of (ok, p) \<Rightarrow> if \<not> ok then (False, p) else set_options host opts p)"

text \<open>The POSIX calls without \<open>SO_NOSIGPIPE\<close>, which Linux has not; timeouts in seconds.\<close>

definition gdox_nbd_socket_configure_client :: "'k host_ops \<Rightarrow> 'k process \<Rightarrow> bool \<times> 'k process" where
  "gdox_nbd_socket_configure_client host p =
     set_options host [SOCKET_GET_FLAGS, SOCKET_SET_BLOCKING, SOCKET_NODELAY, SOCKET_RECEIVE_TIMEOUT 5,
       SOCKET_SEND_TIMEOUT 5] p"

definition gdox_nbd_socket_clear_timeouts :: "'k host_ops \<Rightarrow> 'k process \<Rightarrow> bool \<times> 'k process" where
  "gdox_nbd_socket_clear_timeouts host p = set_options host [SOCKET_RECEIVE_TIMEOUT 0, SOCKET_SEND_TIMEOUT 0] p"

definition INT_MAX :: nat where "INT_MAX = 2147483647"

text \<open>
  The loops of \<open>gdox_nbd_socket_read_exact\<close> and \<open>gdox_nbd_socket_write_all\<close>. A call may be interrupted any
  number of times, so the loops are partial: \<open>None\<close> is a call that never returns. A received buffer is the
  result of a successful read.
\<close>

partial_function (option) read_loop ::
  "'k host_ops \<Rightarrow> nat \<Rightarrow> byte list \<Rightarrow> 'k process \<Rightarrow> (byte list option \<times> 'k process) option" where
  "read_loop host n completed p =
     (if length completed < n then
        (let remaining = n - length completed;
             requested = (if remaining > INT_MAX then INT_MAX else remaining)
         in case receive_bytes host p requested of
              (received, p) \<Rightarrow>
                (case received of
                   Some bs \<Rightarrow>
                     if bs = [] then Some (None, set_socket_error SOCKET_CONNECTION_RESET p)
                     else read_loop host n (completed @ bs) p
                 | None \<Rightarrow>
                     if gdox_nbd_socket_error p \<noteq> SOCKET_INTERRUPTED then Some (None, p)
                     else read_loop host n completed p))
      else Some (Some completed, p))"

definition gdox_nbd_socket_read_exact ::
  "'k host_ops \<Rightarrow> nat \<Rightarrow> 'k process \<Rightarrow> (byte list option \<times> 'k process) option" where
  "gdox_nbd_socket_read_exact host n p = read_loop host n [] p"

partial_function (option) write_loop ::
  "'k host_ops \<Rightarrow> byte list \<Rightarrow> nat \<Rightarrow> 'k process \<Rightarrow> (bool \<times> 'k process) option" where
  "write_loop host bs completed p =
     (if completed < length bs then
        (let remaining = length bs - completed;
             requested = (if remaining > INT_MAX then INT_MAX else remaining)
         in case send_bytes host p (take requested (drop completed bs)) of
              (accepted, p) \<Rightarrow>
                (case accepted of
                   Some n \<Rightarrow>
                     if n = 0 then Some (False, set_socket_error SOCKET_CONNECTION_RESET p)
                     else write_loop host bs (completed + n) p
                 | None \<Rightarrow>
                     if gdox_nbd_socket_error p \<noteq> SOCKET_INTERRUPTED then Some (False, p)
                     else write_loop host bs completed p))
      else Some (True, p))"

definition gdox_nbd_socket_write_all ::
  "'k host_ops \<Rightarrow> byte list \<Rightarrow> 'k process \<Rightarrow> (bool \<times> 'k process) option" where
  "gdox_nbd_socket_write_all host bs p = write_loop host bs 0 p"

section \<open>What the code relies on\<close>

text \<open>
  \<open>pending k\<close> are the bytes the peer has sent or will send and the program has not received, \<open>sent k\<close> what was
  sent to the peer so far, and \<open>tries k\<close> bounds the interrupted calls to come.
\<close>

definition same_stream :: "('k \<Rightarrow> byte list) \<Rightarrow> ('k \<Rightarrow> byte list) \<Rightarrow> ('k \<Rightarrow> nat) \<Rightarrow> 'k \<Rightarrow> 'k \<Rightarrow> bool" where
  "same_stream pending sent tries k k' \<longleftrightarrow> pending k' = pending k \<and> sent k' = sent k \<and> tries k' \<le> tries k"

text \<open>What a read of \<open>n\<close> bytes, of which \<open>completed\<close> are there, and a write of \<open>bs\<close> after the first \<open>completed\<close> bytes leave.\<close>

definition read_outcome ::
  "('k \<Rightarrow> byte list) \<Rightarrow> ('k \<Rightarrow> byte list) \<Rightarrow> ('k \<Rightarrow> nat) \<Rightarrow> nat \<Rightarrow> byte list \<Rightarrow> 'k process
     \<Rightarrow> byte list option \<Rightarrow> 'k process \<Rightarrow> bool" where
  "read_outcome pending sent tries n completed p r p' \<longleftrightarrow>
     sent (world p') = sent (world p) \<and> tries (world p') \<le> tries (world p) \<and> console p' = console p
     \<and> (\<exists>got. pending (world p) = got @ pending (world p')
            \<and> (\<forall>bs. r = Some bs \<longrightarrow> bs = completed @ got \<and> length bs = n))"

definition write_outcome ::
  "('k \<Rightarrow> byte list) \<Rightarrow> ('k \<Rightarrow> byte list) \<Rightarrow> ('k \<Rightarrow> nat) \<Rightarrow> byte list \<Rightarrow> nat \<Rightarrow> 'k process \<Rightarrow> bool \<Rightarrow> 'k process \<Rightarrow> bool" where
  "write_outcome pending sent tries bs completed p ok p' \<longleftrightarrow>
     pending (world p') = pending (world p) \<and> tries (world p') \<le> tries (world p) \<and> console p' = console p
     \<and> (\<exists>m. completed \<le> m \<and> m \<le> length bs
            \<and> sent (world p') = sent (world p) @ take (m - completed) (drop completed bs) \<and> (ok \<longrightarrow> m = length bs))"

lemma read_outcome_same:
  "read_outcome pending sent tries n completed q r p' \<Longrightarrow> same_stream pending sent tries (world p) (world q)
   \<Longrightarrow> console q = console p \<Longrightarrow> read_outcome pending sent tries n completed p r p'"
  by (auto simp: read_outcome_def same_stream_def)

lemma read_outcome_step:
  assumes "read_outcome pending sent tries n (completed @ bs) q r p'" and "pending (world p) = bs @ pending (world q)"
    and "sent (world q) = sent (world p)" and "tries (world q) \<le> tries (world p)" and "console q = console p"
  shows "read_outcome pending sent tries n completed p r p'"
proof -
  obtain got where g: "pending (world q) = got @ pending (world p')"
    "\<forall>x. r = Some x \<longrightarrow> x = (completed @ bs) @ got \<and> length x = n" using assms(1) by (auto simp: read_outcome_def)
  then have "pending (world p) = (bs @ got) @ pending (world p')" using assms(2) by simp
  with g assms show ?thesis by (auto simp: read_outcome_def intro!: exI[of _ "bs @ got"])
qed

lemma write_outcome_same:
  "write_outcome pending sent tries bs completed q ok p' \<Longrightarrow> same_stream pending sent tries (world p) (world q)
   \<Longrightarrow> console q = console p \<Longrightarrow> write_outcome pending sent tries bs completed p ok p'"
  by (auto simp: write_outcome_def same_stream_def)

lemma write_outcome_step:
  assumes "write_outcome pending sent tries bs (completed + m) q ok p'"
    and "sent (world q) = sent (world p) @ take m (drop completed bs)"
    and "pending (world q) = pending (world p)" and "tries (world q) \<le> tries (world p)" and "console q = console p"
  shows "write_outcome pending sent tries bs completed p ok p'"
proof -
  obtain j where j: "completed + m \<le> j" "j \<le> length bs" "ok \<longrightarrow> j = length bs"
    "sent (world p') = sent (world q) @ take (j - (completed + m)) (drop (completed + m) bs)"
    using assms(1) by (auto simp: write_outcome_def)
  have "take (j - completed) (drop completed bs)
      = take m (drop completed bs) @ take (j - (completed + m)) (drop (completed + m) bs)"
    using j(1) take_add[of m "j - (completed + m)" "drop completed bs"] by (simp add: add.commute)
  then show ?thesis using j assms by (auto simp: write_outcome_def intro!: exI[of _ j])
qed

locale byte_stream =
  fixes host :: "'k host_ops" and pending :: "'k \<Rightarrow> byte list" and sent :: "'k \<Rightarrow> byte list" and tries :: "'k \<Rightarrow> nat"
  assumes recv_bytes: "host_recv host k n = (Inr bs, k') \<Longrightarrow> 0 < n \<Longrightarrow>
      length bs \<le> n \<and> pending k = bs @ pending k' \<and> sent k' = sent k \<and> tries k' \<le> tries k"
    and recv_fails: "host_recv host k n = (Inl c, k') \<Longrightarrow> 0 < n \<Longrightarrow>
      same_stream pending sent tries k k' \<and> (c = SOCKET_INTERRUPTED \<longrightarrow> tries k' < tries k)"
    and send_accepts: "host_send host k bs = (Inr m, k') \<Longrightarrow> bs \<noteq> [] \<Longrightarrow>
      m \<le> length bs \<and> sent k' = sent k @ take m bs \<and> pending k' = pending k \<and> tries k' \<le> tries k"
    and send_fails: "host_send host k bs = (Inl c, k') \<Longrightarrow> bs \<noteq> [] \<Longrightarrow>
      same_stream pending sent tries k k' \<and> (c = SOCKET_INTERRUPTED \<longrightarrow> tries k' < tries k)"
    and option_keeps: "host_option host k opt = (r, k') \<Longrightarrow> same_stream pending sent tries k k'"
    and alloc_keeps: "host_alloc host k n = (b, k') \<Longrightarrow> same_stream pending sent tries k k'"
    and clock_keeps: "host_clock host k = (now, k') \<Longrightarrow> same_stream pending sent tries k k'"
    and lock_keeps: "host_lock host k = (b, k') \<Longrightarrow> same_stream pending sent tries k k'"
begin

lemma read_loop_returns:
  assumes "length completed \<le> n"
  shows "\<exists>r p'. read_loop host n completed p = Some (r, p') \<and> read_outcome pending sent tries n completed p r p'"
  using assms
proof (induction "n - length completed + tries (world p)" arbitrary: completed p rule: less_induct)
  case less
  show ?case
  proof (cases "length completed < n")
    case False
    with less.prems show ?thesis by (subst read_loop.simps) (simp add: read_outcome_def)
  next
    case True
    define q where "q = (if n - length completed > INT_MAX then INT_MAX else n - length completed)"
    have q: "0 < q" "q \<le> n - length completed" using True by (auto simp: INT_MAX_def q_def)
    obtain r k where r: "host_recv host (world p) q = (r, k)" by fastforce
    show ?thesis
    proof (cases r)
      case (Inl c)
      note f = recv_fails[OF r[unfolded Inl] q(1)]
      let ?p = "p\<lparr>world := k, errno := c\<rparr>"
      have step: "read_loop host n completed p =
          (if c \<noteq> SOCKET_INTERRUPTED then Some (None, ?p) else read_loop host n completed ?p)"
        using True r[unfolded q_def] Inl by (subst read_loop.simps) (simp add: Let_def receive_bytes_def gdox_nbd_socket_error_def)
      show ?thesis
      proof (cases "c = SOCKET_INTERRUPTED")
        case False
        then show ?thesis using step f by (simp add: read_outcome_def same_stream_def)
      next
        case i: True
        have dec: "n - length completed + tries (world ?p) < n - length completed + tries (world p)" using f i by simp
        obtain r' p' where w: "read_loop host n completed ?p = Some (r', p')"
          "read_outcome pending sent tries n completed ?p r' p'"
          using less.hyps[OF dec less.prems] by blast
        from read_outcome_same[OF w(2), of p] step i w(1) f show ?thesis by simp
      qed
    next
      case (Inr bs)
      note g = recv_bytes[OF r[unfolded Inr] q(1)]
      let ?p = "p\<lparr>world := k\<rparr>"
      have step: "read_loop host n completed p =
          (if bs = [] then Some (None, set_socket_error SOCKET_CONNECTION_RESET ?p) else read_loop host n (completed @ bs) ?p)"
        using True r[unfolded q_def] Inr by (subst read_loop.simps) (simp add: Let_def receive_bytes_def)
      show ?thesis
      proof (cases "bs = []")
        case True
        then show ?thesis using step g by (simp add: read_outcome_def set_socket_error_def)
      next
        case ne: False
        have l: "length (completed @ bs) \<le> n" using g q(2) True by auto
        have "n - length (completed @ bs) + tries k < n - length completed + tries (world p)"
          using g ne True l by (cases bs) auto
        then obtain r' p' where w: "read_loop host n (completed @ bs) ?p = Some (r', p')"
          "read_outcome pending sent tries n (completed @ bs) ?p r' p'"
          using less.hyps[of "completed @ bs" ?p] l by auto
        from read_outcome_step[OF w(2), of p] step ne w(1) g show ?thesis by simp
      qed
    qed
  qed
qed

lemma write_loop_returns:
  assumes "completed \<le> length bs"
  shows "\<exists>ok p'. write_loop host bs completed p = Some (ok, p') \<and> write_outcome pending sent tries bs completed p ok p'"
  using assms
proof (induction "length bs - completed + tries (world p)" arbitrary: completed p rule: less_induct)
  case less
  show ?case
  proof (cases "completed < length bs")
    case False
    with less.prems show ?thesis by (subst write_loop.simps) (auto simp: write_outcome_def intro!: exI[of _ "length bs"])
  next
    case True
    define q where "q = (if length bs - completed > INT_MAX then INT_MAX else length bs - completed)"
    let ?out = "take q (drop completed bs)"
    have q: "0 < q" "q \<le> length bs - completed" using True by (auto simp: INT_MAX_def q_def)
    have ne: "?out \<noteq> []" using q True by auto
    obtain r k where r: "host_send host (world p) ?out = (r, k)" by fastforce
    show ?thesis
    proof (cases r)
      case (Inl c)
      note f = send_fails[OF r[unfolded Inl] ne]
      let ?p = "p\<lparr>world := k, errno := c\<rparr>"
      have step: "write_loop host bs completed p =
          (if c \<noteq> SOCKET_INTERRUPTED then Some (False, ?p) else write_loop host bs completed ?p)"
        using True r[unfolded q_def] Inl by (subst write_loop.simps) (simp add: Let_def send_bytes_def gdox_nbd_socket_error_def)
      show ?thesis
      proof (cases "c = SOCKET_INTERRUPTED")
        case False
        then show ?thesis using step f less.prems
          by (auto simp: write_outcome_def same_stream_def intro!: exI[of _ completed])
      next
        case i: True
        have dec: "length bs - completed + tries (world ?p) < length bs - completed + tries (world p)" using f i by simp
        obtain ok p' where w: "write_loop host bs completed ?p = Some (ok, p')"
          "write_outcome pending sent tries bs completed ?p ok p'"
          using less.hyps[OF dec less.prems] by blast
        from write_outcome_same[OF w(2), of p] step i w(1) f show ?thesis by simp
      qed
    next
      case (Inr m)
      note g = send_accepts[OF r[unfolded Inr] ne]
      let ?p = "p\<lparr>world := k\<rparr>"
      have step: "write_loop host bs completed p =
          (if m = 0 then Some (False, set_socket_error SOCKET_CONNECTION_RESET ?p) else write_loop host bs (completed + m) ?p)"
        using True r[unfolded q_def] Inr by (subst write_loop.simps) (simp add: Let_def send_bytes_def)
      show ?thesis
      proof (cases "m = 0")
        case True
        then show ?thesis using step g less.prems
          by (auto simp: write_outcome_def set_socket_error_def intro!: exI[of _ completed])
      next
        case nz: False
        have l: "completed + m \<le> length bs" "m \<le> q" using g q(2) True by auto
        have "length bs - (completed + m) + tries k < length bs - completed + tries (world p)"
          using g nz True l by auto
        then obtain ok p' where w: "write_loop host bs (completed + m) ?p = Some (ok, p')"
          "write_outcome pending sent tries bs (completed + m) ?p ok p'"
          using less.hyps[of "completed + m" ?p] l by auto
        have "sent k = sent (world p) @ take m (drop completed bs)" using g l(2) by (simp add: min_absorb1)
        then have "write_outcome pending sent tries bs completed p ok p'" using write_outcome_step[OF w(2), of p] g by simp
        then show ?thesis using step nz w(1) by simp
      qed
    qed
  qed
qed

lemma read_exact_returns:
  "\<exists>r p'. gdox_nbd_socket_read_exact host n p = Some (r, p') \<and> read_outcome pending sent tries n [] p r p'"
  using read_loop_returns[of "[]" n p] by (simp add: gdox_nbd_socket_read_exact_def)

lemma write_all_returns:
  "\<exists>ok p'. gdox_nbd_socket_write_all host bs p = Some (ok, p') \<and> write_outcome pending sent tries bs 0 p ok p'"
  using write_loop_returns[of 0 bs p] by (simp add: gdox_nbd_socket_write_all_def)

end

text \<open>
  A live connection: no call fails for good, what the peer sent arrives, every configuration call succeeds, and
  there is memory for the largest buffer the server asks for.
\<close>

locale live_stream = byte_stream +
  fixes live :: "'k \<Rightarrow> bool"
  assumes live_recv: "live k \<Longrightarrow> 0 < n \<Longrightarrow> host_recv host k n = (r, k') \<Longrightarrow>
      live k' \<and> (case r of Inr bs \<Rightarrow> bs = [] \<longrightarrow> pending k = [] | Inl c \<Rightarrow> c = SOCKET_INTERRUPTED)"
    and live_send: "live k \<Longrightarrow> bs \<noteq> [] \<Longrightarrow> host_send host k bs = (a, k') \<Longrightarrow>
      live k' \<and> (case a of Inr m \<Rightarrow> 0 < m | Inl c \<Rightarrow> c = SOCKET_INTERRUPTED)"
    and live_option: "live k \<Longrightarrow> host_option host k opt = (u, k') \<Longrightarrow> live k' \<and> u = Inr ()"
    and live_alloc: "live k \<Longrightarrow> n \<le> GDOX_NBD_MAX_BUFFER_SIZE \<Longrightarrow> host_alloc host k n = (b, k') \<Longrightarrow> live k' \<and> b"
    and live_clock: "live k \<Longrightarrow> host_clock host k = (now, k') \<Longrightarrow> live k'"
    and live_lock: "live k \<Longrightarrow> host_lock host k = (b, k') \<Longrightarrow> live k'"
begin

definition stream_at :: "'k process \<Rightarrow> byte list \<Rightarrow> byte list \<Rightarrow> bool" where
  "stream_at p coming gone \<longleftrightarrow> live (world p) \<and> pending (world p) = coming \<and> sent (world p) = gone"

lemma read_loop_live:
  assumes "live (world p)" and "read_loop host n completed p = Some (r, p')" and "length completed \<le> n"
  shows "live (world p') \<and> (r = None \<longrightarrow> length completed + length (pending (world p)) < n \<and> errno p' = SOCKET_CONNECTION_RESET)"
  using assms
proof (induction "n - length completed + tries (world p)" arbitrary: completed p rule: less_induct)
  case less
  show ?case
  proof (cases "length completed < n")
    case False
    with less.prems show ?thesis by (subst (asm) read_loop.simps) auto
  next
    case True
    define q where "q = (if n - length completed > INT_MAX then INT_MAX else n - length completed)"
    have q: "0 < q" "q \<le> n - length completed" using True by (auto simp: INT_MAX_def q_def)
    obtain s k where r: "host_recv host (world p) q = (s, k)" by fastforce
    note l = live_recv[OF less.prems(1) q(1) r]
    show ?thesis
    proof (cases s)
      case (Inl c)
      let ?p = "p\<lparr>world := k, errno := c\<rparr>"
      note f = recv_fails[OF r[unfolded Inl] q(1)]
      have c: "c = SOCKET_INTERRUPTED" using l Inl by simp
      have "read_loop host n completed p = read_loop host n completed ?p"
        using True r[unfolded q_def] Inl c by (subst read_loop.simps) (simp add: Let_def receive_bytes_def gdox_nbd_socket_error_def)
      then have w: "read_loop host n completed ?p = Some (r, p')" using less.prems(2) by simp
      have dec: "n - length completed + tries (world ?p) < n - length completed + tries (world p)" using f c by simp
      show ?thesis using less.hyps[OF dec _ w less.prems(3)] l f by (auto simp: same_stream_def)
    next
      case (Inr bs)
      note g = recv_bytes[OF r[unfolded Inr] q(1)]
      let ?p = "p\<lparr>world := k\<rparr>"
      have step: "read_loop host n completed p =
          (if bs = [] then Some (None, set_socket_error SOCKET_CONNECTION_RESET ?p) else read_loop host n (completed @ bs) ?p)"
        using True r[unfolded q_def] Inr by (subst read_loop.simps) (simp add: Let_def receive_bytes_def)
      show ?thesis
      proof (cases "bs = []")
        case True
        then show ?thesis using step l g Inr less.prems(2) \<open>length completed < n\<close>
          by (auto simp: set_socket_error_def)
      next
        case False
        have b: "length (completed @ bs) \<le> n" using g q(2) True by auto
        have dec: "n - length (completed @ bs) + tries (world ?p) < n - length completed + tries (world p)"
          using g False True b by (cases bs) auto
        have w: "read_loop host n (completed @ bs) ?p = Some (r, p')" using less.prems(2) step False by simp
        show ?thesis using less.hyps[OF dec _ w b] l g by (auto simp: add.assoc)
      qed
    qed
  qed
qed

lemma write_loop_live:
  assumes "live (world p)" and "write_loop host bs completed p = Some (ok, p')" and "completed \<le> length bs"
  shows "live (world p') \<and> ok"
  using assms
proof (induction "length bs - completed + tries (world p)" arbitrary: completed p rule: less_induct)
  case less
  show ?case
  proof (cases "completed < length bs")
    case False
    with less.prems show ?thesis by (subst (asm) write_loop.simps) auto
  next
    case True
    define q where "q = (if length bs - completed > INT_MAX then INT_MAX else length bs - completed)"
    let ?out = "take q (drop completed bs)"
    have q: "0 < q" "q \<le> length bs - completed" using True by (auto simp: INT_MAX_def q_def)
    have ne: "?out \<noteq> []" using q True by auto
    obtain s k where r: "host_send host (world p) ?out = (s, k)" by fastforce
    note l = live_send[OF less.prems(1) ne r]
    show ?thesis
    proof (cases s)
      case (Inl c)
      let ?p = "p\<lparr>world := k, errno := c\<rparr>"
      note f = send_fails[OF r[unfolded Inl] ne]
      have c: "c = SOCKET_INTERRUPTED" using l Inl by simp
      have "write_loop host bs completed p = write_loop host bs completed ?p"
        using True r[unfolded q_def] Inl c by (subst write_loop.simps) (simp add: Let_def send_bytes_def gdox_nbd_socket_error_def)
      then have w: "write_loop host bs completed ?p = Some (ok, p')" using less.prems(2) by simp
      have dec: "length bs - completed + tries (world ?p) < length bs - completed + tries (world p)" using f c by simp
      show ?thesis using less.hyps[OF dec _ w less.prems(3)] l by simp
    next
      case (Inr m)
      note g = send_accepts[OF r[unfolded Inr] ne]
      let ?p = "p\<lparr>world := k\<rparr>"
      have m: "0 < m" using l Inr by simp
      have "write_loop host bs completed p = write_loop host bs (completed + m) ?p"
        using True r[unfolded q_def] Inr m by (subst write_loop.simps) (simp add: Let_def send_bytes_def)
      then have w: "write_loop host bs (completed + m) ?p = Some (ok, p')" using less.prems(2) by simp
      have b: "completed + m \<le> length bs" using g q(2) True by auto
      have dec: "length bs - (completed + m) + tries (world ?p) < length bs - completed + tries (world p)"
        using g m True b by auto
      show ?thesis using less.hyps[OF dec _ w b] l by simp
    qed
  qed
qed

text \<open>Exact reads take what the peer sent; complete writes deliver everything.\<close>

lemma read_exact_live:
  assumes "stream_at p (bs @ coming) gone" and "length bs = n"
  shows "\<exists>p'. gdox_nbd_socket_read_exact host n p = Some (Some bs, p') \<and> stream_at p' coming gone \<and> console p' = console p"
proof -
  obtain r p' where r: "gdox_nbd_socket_read_exact host n p = Some (r, p')" "read_outcome pending sent tries n [] p r p'"
    using read_exact_returns by blast
  have "live (world p') \<and> (r = None \<longrightarrow> length (pending (world p)) < n)"
    using read_loop_live[of p n "[]" r p'] r(1) assms(1) by (auto simp: gdox_nbd_socket_read_exact_def stream_at_def)
  then show ?thesis using r assms by (cases r) (auto simp: read_outcome_def stream_at_def)
qed

lemma read_exact_ended:
  assumes "stream_at p coming gone" and "length coming < n"
  shows "\<exists>p'. gdox_nbd_socket_read_exact host n p = Some (None, p') \<and> errno p' = SOCKET_CONNECTION_RESET
    \<and> live (world p') \<and> sent (world p') = gone"
proof -
  obtain r p' where r: "gdox_nbd_socket_read_exact host n p = Some (r, p')" "read_outcome pending sent tries n [] p r p'"
    using read_exact_returns by blast
  have l: "live (world p') \<and> (r = None \<longrightarrow> errno p' = SOCKET_CONNECTION_RESET)"
    using read_loop_live[of p n "[]" r p'] r(1) assms(1) by (auto simp: gdox_nbd_socket_read_exact_def stream_at_def)
  have "r = None" using r(2) assms by (cases r) (auto simp: read_outcome_def stream_at_def)
  then show ?thesis using l r assms by (auto simp: read_outcome_def stream_at_def)
qed

lemma write_all_live:
  assumes "stream_at p coming gone"
  shows "\<exists>p'. gdox_nbd_socket_write_all host bs p = Some (True, p') \<and> stream_at p' coming (gone @ bs) \<and> console p' = console p"
proof -
  obtain ok p' where r: "gdox_nbd_socket_write_all host bs p = Some (ok, p')" "write_outcome pending sent tries bs 0 p ok p'"
    using write_all_returns by blast
  have "live (world p') \<and> ok"
    using write_loop_live[of p bs 0 ok p'] r(1) assms(1) by (auto simp: gdox_nbd_socket_write_all_def stream_at_def)
  then show ?thesis using r assms by (auto simp: write_outcome_def stream_at_def)
qed

lemma set_options_live:
  "stream_at p coming gone \<Longrightarrow> \<exists>p'. set_options host opts p = (True, p') \<and> stream_at p' coming gone \<and> console p' = console p"
proof (induction opts arbitrary: p)
  case (Cons opt opts)
  obtain r k where r: "host_option host (world p) opt = (r, k)" by fastforce
  have "stream_at (p\<lparr>world := k\<rparr>) coming gone \<and> r = Inr ()"
    using live_option[OF _ r] option_keeps[OF r] Cons.prems by (auto simp: stream_at_def same_stream_def)
  then show ?case using Cons.IH[of "p\<lparr>world := k\<rparr>"] r by (simp add: set_option_def)
qed simp

end

section \<open>A loopback connection\<close>

text \<open>
  A connection whose peer has already sent everything: the bytes arrive in given pieces, an empty piece is an
  interrupted call; a send takes at most a window of bytes. Allocations up to a bound succeed.
\<close>

record loopback =
  lb_arriving :: "byte list list"
  lb_sent :: "byte list"
  lb_window :: nat
  lb_memory :: nat
  lb_now :: nat

definition loopback_recv :: "loopback \<Rightarrow> nat \<Rightarrow> (socket_error + byte list) \<times> loopback" where
  "loopback_recv k n =
     (case lb_arriving k of
        [] \<Rightarrow> (Inr [], k)
      | c # cs \<Rightarrow>
          if c = [] then (Inl SOCKET_INTERRUPTED, k\<lparr>lb_arriving := cs\<rparr>)
          else if length c \<le> n then (Inr c, k\<lparr>lb_arriving := cs\<rparr>)
          else (Inr (take n c), k\<lparr>lb_arriving := drop n c # cs\<rparr>))"

definition loopback_send :: "loopback \<Rightarrow> byte list \<Rightarrow> (socket_error + nat) \<times> loopback" where
  "loopback_send k bs =
     (let m = min (length bs) (Suc (lb_window k)) in (Inr m, k\<lparr>lb_sent := lb_sent k @ take m bs\<rparr>))"

definition loopback_host :: "loopback host_ops" where
  "loopback_host =
     \<lparr>host_recv = loopback_recv, host_send = loopback_send, host_option = (\<lambda>k opt. (Inr (), k)),
      host_alloc = (\<lambda>k n. (n \<le> lb_memory k, k)), host_clock = (\<lambda>k. (lb_now k, k\<lparr>lb_now := lb_now k + 1\<rparr>)),
      host_lock = (\<lambda>k. (True, k))\<rparr>"

definition loopback_pending :: "loopback \<Rightarrow> byte list" where
  "loopback_pending k = concat (lb_arriving k)"

definition loopback_tries :: "loopback \<Rightarrow> nat" where
  "loopback_tries k = length (filter (\<lambda>c. c = []) (lb_arriving k))"

definition loopback_live :: "loopback \<Rightarrow> bool" where
  "loopback_live k \<longleftrightarrow> GDOX_NBD_MAX_BUFFER_SIZE \<le> lb_memory k"

interpretation loopback: live_stream loopback_host loopback_pending lb_sent loopback_tries loopback_live
  by unfold_locales
    (auto simp: loopback_host_def loopback_recv_def loopback_send_def loopback_pending_def loopback_tries_def
      loopback_live_def same_stream_def Let_def split: list.splits if_splits)

end
