(* ===== verification/NbdTelemetry.thy ===== *)
theory NbdTelemetry
  imports Source
begin

text \<open>
  The counters the server keeps of the reads it answers (src/src/platform/nbd_telemetry.c). All additions
  saturate; the lemmas show that every counter is the saturated sum over the recorded requests, and the
  relations between the counters that follow. \<open>locked\<close> is the answer of the mutex.
\<close>

section \<open>The counters\<close>

record gdox_nbd_read_stats =
  rs_requests :: u64
  rs_requested_bytes :: u64
  rs_successful_requests :: u64
  rs_successful_bytes :: u64
  rs_failed_requests :: u64
  rs_sequential_requests :: u64
  rs_discontinuous_requests :: u64
  rs_served_without_drive_io_requests :: u64
  rs_served_without_drive_io_bytes :: u64
  rs_requests_with_drive_io :: u64
  rs_physical_commands :: u64
  rs_physical_sectors :: u64
  rs_physical_bytes :: u64
  rs_service_milliseconds :: u64
  rs_maximum_service_milliseconds :: u64

record gdox_nbd_telemetry =
  te_reads :: gdox_nbd_read_stats
  te_previous_read_end :: u64
  te_previous_read_valid :: bool

definition no_nbd_read_stats :: gdox_nbd_read_stats where
  "no_nbd_read_stats =
     \<lparr>rs_requests = 0, rs_requested_bytes = 0, rs_successful_requests = 0, rs_successful_bytes = 0,
      rs_failed_requests = 0, rs_sequential_requests = 0, rs_discontinuous_requests = 0,
      rs_served_without_drive_io_requests = 0, rs_served_without_drive_io_bytes = 0,
      rs_requests_with_drive_io = 0, rs_physical_commands = 0, rs_physical_sectors = 0,
      rs_physical_bytes = 0, rs_service_milliseconds = 0, rs_maximum_service_milliseconds = 0\<rparr>"

definition no_nbd_telemetry :: gdox_nbd_telemetry where
  "no_nbd_telemetry = \<lparr>te_reads = no_nbd_read_stats, te_previous_read_end = 0, te_previous_read_valid = False\<rparr>"

definition saturating_add_u64 :: "u64 \<Rightarrow> u64 \<Rightarrow> u64" where
  "saturating_add_u64 left right = (if right > UINT64_MAX - left then UINT64_MAX else left + right)"

definition physical_delta :: "physical_read_stats option \<Rightarrow> physical_read_stats option \<Rightarrow> physical_read_stats option" where
  "physical_delta before after =
     (case (before, after) of
        (Some b, Some a) \<Rightarrow>
          if stat_commands a < stat_commands b \<or> stat_sectors a < stat_sectors b \<or> stat_bytes a < stat_bytes b
          then None
          else Some \<lparr>stat_commands = stat_commands a - stat_commands b, stat_sectors = stat_sectors a - stat_sectors b,
                     stat_bytes = stat_bytes a - stat_bytes b, stat_last_lba = stat_last_lba a\<rparr>
      | _ \<Rightarrow> None)"

text \<open>The updates of \<open>gdox_nbd_telemetry_record\<close>, one definition per group of counters, in the order of the code.\<close>

definition record_service :: "u32 \<Rightarrow> u64 \<Rightarrow> gdox_nbd_read_stats \<Rightarrow> gdox_nbd_read_stats" where
  "record_service len elapsed_ms stats =
     (let stats = stats\<lparr>rs_requests := saturating_add_u64 (rs_requests stats) 1,
                        rs_requested_bytes := saturating_add_u64 (rs_requested_bytes stats) len,
                        rs_service_milliseconds := saturating_add_u64 (rs_service_milliseconds stats) elapsed_ms\<rparr>
      in if elapsed_ms > rs_maximum_service_milliseconds stats
         then stats\<lparr>rs_maximum_service_milliseconds := elapsed_ms\<rparr> else stats)"

definition record_sequence :: "u64 \<Rightarrow> u32 \<Rightarrow> bool \<Rightarrow> gdox_nbd_telemetry \<Rightarrow> gdox_nbd_telemetry" where
  "record_sequence offset len sequence_valid t =
     (if \<not> sequence_valid then t
      else (let stats = te_reads t;
                stats = (if \<not> te_previous_read_valid t then stats
                         else if offset = te_previous_read_end t
                         then stats\<lparr>rs_sequential_requests := saturating_add_u64 (rs_sequential_requests stats) 1\<rparr>
                         else stats\<lparr>rs_discontinuous_requests := saturating_add_u64 (rs_discontinuous_requests stats) 1\<rparr>)
            in t\<lparr>te_reads := stats, te_previous_read_end := u64_add offset len, te_previous_read_valid := True\<rparr>))"

definition record_result :: "u32 \<Rightarrow> bool \<Rightarrow> gdox_nbd_read_stats \<Rightarrow> gdox_nbd_read_stats" where
  "record_result len succeeded stats =
     (if succeeded
      then stats\<lparr>rs_successful_requests := saturating_add_u64 (rs_successful_requests stats) 1,
                 rs_successful_bytes := saturating_add_u64 (rs_successful_bytes stats) len\<rparr>
      else stats\<lparr>rs_failed_requests := saturating_add_u64 (rs_failed_requests stats) 1\<rparr>)"

definition record_physical ::
  "u32 \<Rightarrow> bool \<Rightarrow> physical_read_stats option \<Rightarrow> gdox_nbd_read_stats \<Rightarrow> gdox_nbd_read_stats" where
  "record_physical len succeeded physical stats =
     (case physical of
        None \<Rightarrow> stats
      | Some delta \<Rightarrow>
          (let stats = stats\<lparr>rs_physical_commands := saturating_add_u64 (rs_physical_commands stats) (stat_commands delta),
                             rs_physical_sectors := saturating_add_u64 (rs_physical_sectors stats) (stat_sectors delta),
                             rs_physical_bytes := saturating_add_u64 (rs_physical_bytes stats) (stat_bytes delta)\<rparr>
           in if stat_commands delta \<noteq> 0
              then stats\<lparr>rs_requests_with_drive_io := saturating_add_u64 (rs_requests_with_drive_io stats) 1\<rparr>
              else if succeeded
              then stats\<lparr>rs_served_without_drive_io_requests := saturating_add_u64 (rs_served_without_drive_io_requests stats) 1,
                         rs_served_without_drive_io_bytes := saturating_add_u64 (rs_served_without_drive_io_bytes stats) len\<rparr>
              else stats))"

definition gdox_nbd_telemetry_record ::
  "gdox_nbd_telemetry \<Rightarrow> bool \<Rightarrow> u64 \<Rightarrow> u32 \<Rightarrow> bool \<Rightarrow> bool \<Rightarrow> physical_read_stats option
     \<Rightarrow> physical_read_stats option \<Rightarrow> u64 \<Rightarrow> gdox_nbd_telemetry" where
  "gdox_nbd_telemetry_record t locked offset len sequence_valid succeeded before after elapsed_ms =
     (let physical = physical_delta before after
      in if \<not> locked then t
         else (let t = t\<lparr>te_reads := record_service len elapsed_ms (te_reads t)\<rparr>;
                   t = record_sequence offset len sequence_valid t;
                   t = t\<lparr>te_reads := record_result len succeeded (te_reads t)\<rparr>
               in t\<lparr>te_reads := record_physical len succeeded physical (te_reads t)\<rparr>))"

text \<open>The outputs: the C result and what is left in a non-NULL \<open>output\<close>.\<close>

definition gdox_nbd_telemetry_snapshot :: "gdox_nbd_telemetry option \<Rightarrow> bool \<Rightarrow> bool \<times> gdox_nbd_read_stats" where
  "gdox_nbd_telemetry_snapshot telemetry locked =
     (case telemetry of
        None \<Rightarrow> (False, no_nbd_read_stats)
      | Some t \<Rightarrow> if \<not> locked then (False, no_nbd_read_stats) else (True, te_reads t))"

section \<open>Counters are saturated sums\<close>

record nbd_served =
  sv_offset :: u64
  sv_length :: u32
  sv_sequence_valid :: bool
  sv_succeeded :: bool
  sv_before :: "physical_read_stats option"
  sv_after :: "physical_read_stats option"
  sv_elapsed_ms :: u64

definition record_served :: "nbd_served \<Rightarrow> gdox_nbd_telemetry \<Rightarrow> gdox_nbd_telemetry" where
  "record_served s t = gdox_nbd_telemetry_record t True (sv_offset s) (sv_length s) (sv_sequence_valid s)
     (sv_succeeded s) (sv_before s) (sv_after s) (sv_elapsed_ms s)"

definition served_delta :: "nbd_served \<Rightarrow> physical_read_stats option" where
  "served_delta s = physical_delta (sv_before s) (sv_after s)"

definition saturated :: "nat \<Rightarrow> u64" where
  "saturated n = (if n > UINT64_MAX then UINT64_MAX else n)"

lemma saturating_step: "saturating_add_u64 (saturated a) b = saturated (a + b)"
  by (auto simp: saturating_add_u64_def saturated_def)

lemma saturated_0 [simp]: "saturated 0 = 0"
  by (simp add: saturated_def)

definition without_io :: "nbd_served \<Rightarrow> bool" where
  "without_io s \<longleftrightarrow> sv_succeeded s \<and> (case served_delta s of Some d \<Rightarrow> stat_commands d = 0 | None \<Rightarrow> False)"

definition with_io :: "nbd_served \<Rightarrow> bool" where
  "with_io s \<longleftrightarrow> (case served_delta s of Some d \<Rightarrow> stat_commands d \<noteq> 0 | None \<Rightarrow> False)"

definition moved :: "(physical_read_stats \<Rightarrow> nat) \<Rightarrow> nbd_served \<Rightarrow> nat" where
  "moved f s = (case served_delta s of Some d \<Rightarrow> f d | None \<Rightarrow> 0)"

definition tally :: "(nbd_served \<Rightarrow> bool) \<Rightarrow> (nbd_served \<Rightarrow> nat) \<Rightarrow> nbd_served list \<Rightarrow> nat" where
  "tally p f ss = sum_list (map f (filter p ss))"

lemma tally_Nil [simp]: "tally p f [] = 0"
  by (simp add: tally_def)

lemma tally_snoc [simp]: "tally p f (ss @ [s]) = tally p f ss + (if p s then f s else 0)"
  by (simp add: tally_def)

definition counted :: "nbd_served list \<Rightarrow> gdox_nbd_read_stats \<Rightarrow> bool" where
  "counted ss r \<longleftrightarrow>
     rs_requests r = saturated (length ss)
     \<and> rs_requested_bytes r = saturated (tally (\<lambda>_. True) sv_length ss)
     \<and> rs_successful_requests r = saturated (tally sv_succeeded (\<lambda>_. 1) ss)
     \<and> rs_successful_bytes r = saturated (tally sv_succeeded sv_length ss)
     \<and> rs_failed_requests r = saturated (tally (\<lambda>s. \<not> sv_succeeded s) (\<lambda>_. 1) ss)
     \<and> rs_served_without_drive_io_requests r = saturated (tally without_io (\<lambda>_. 1) ss)
     \<and> rs_served_without_drive_io_bytes r = saturated (tally without_io sv_length ss)
     \<and> rs_requests_with_drive_io r = saturated (tally with_io (\<lambda>_. 1) ss)
     \<and> rs_physical_commands r = saturated (tally (\<lambda>_. True) (moved stat_commands) ss)
     \<and> rs_physical_sectors r = saturated (tally (\<lambda>_. True) (moved stat_sectors) ss)
     \<and> rs_physical_bytes r = saturated (tally (\<lambda>_. True) (moved stat_bytes) ss)
     \<and> rs_service_milliseconds r = saturated (tally (\<lambda>_. True) sv_elapsed_ms ss)
     \<and> rs_maximum_service_milliseconds r = fold max (map sv_elapsed_ms ss) 0"

lemma record_sequence_keeps:
  "rs_requests (te_reads (record_sequence o' n v t)) = rs_requests (te_reads t)"
  "rs_requested_bytes (te_reads (record_sequence o' n v t)) = rs_requested_bytes (te_reads t)"
  "rs_successful_requests (te_reads (record_sequence o' n v t)) = rs_successful_requests (te_reads t)"
  "rs_successful_bytes (te_reads (record_sequence o' n v t)) = rs_successful_bytes (te_reads t)"
  "rs_failed_requests (te_reads (record_sequence o' n v t)) = rs_failed_requests (te_reads t)"
  "rs_served_without_drive_io_requests (te_reads (record_sequence o' n v t)) = rs_served_without_drive_io_requests (te_reads t)"
  "rs_served_without_drive_io_bytes (te_reads (record_sequence o' n v t)) = rs_served_without_drive_io_bytes (te_reads t)"
  "rs_requests_with_drive_io (te_reads (record_sequence o' n v t)) = rs_requests_with_drive_io (te_reads t)"
  "rs_physical_commands (te_reads (record_sequence o' n v t)) = rs_physical_commands (te_reads t)"
  "rs_physical_sectors (te_reads (record_sequence o' n v t)) = rs_physical_sectors (te_reads t)"
  "rs_physical_bytes (te_reads (record_sequence o' n v t)) = rs_physical_bytes (te_reads t)"
  "rs_service_milliseconds (te_reads (record_sequence o' n v t)) = rs_service_milliseconds (te_reads t)"
  "rs_maximum_service_milliseconds (te_reads (record_sequence o' n v t)) = rs_maximum_service_milliseconds (te_reads t)"
  by (simp_all add: record_sequence_def Let_def)

lemma max_if: "(if (e :: nat) > m then e else m) = max e m"
  by simp

lemma counted_record:
  assumes "counted ss (te_reads t)"
  shows "counted (ss @ [s]) (te_reads (record_served s t))"
proof (cases "served_delta s")
  case None
  then show ?thesis using assms
    by (cases "sv_succeeded s")
      (simp_all add: counted_def record_served_def gdox_nbd_telemetry_record_def Let_def record_service_def
        record_sequence_keeps record_result_def record_physical_def served_delta_def saturating_step
        moved_def with_io_def without_io_def)
next
  case (Some d)
  then show ?thesis using assms
    by (cases "sv_succeeded s"; cases "stat_commands d = 0")
      (simp_all add: counted_def record_served_def gdox_nbd_telemetry_record_def Let_def record_service_def
        record_sequence_keeps record_result_def record_physical_def served_delta_def saturating_step
        moved_def with_io_def without_io_def)
qed

lemma counted_all: "counted ss (te_reads (fold record_served ss no_nbd_telemetry))"
proof (induction ss rule: rev_induct)
  case Nil
  show ?case by (simp add: counted_def no_nbd_telemetry_def no_nbd_read_stats_def)
next
  case (snoc s ss)
  then show ?case using counted_record by simp
qed

lemma tally_mono: "(\<And>s. p s \<Longrightarrow> q s) \<Longrightarrow> tally p f ss \<le> tally q f ss"
  by (induction ss) (auto simp: tally_def intro: le_SucI trans_le_add2)

lemma tally_split: "tally p (\<lambda>_. 1) ss + tally (\<lambda>s. \<not> p s) (\<lambda>_. 1) ss = length ss"
  by (induction ss) (auto simp: tally_def)

text \<open>Consecutive valid reads: one that starts where the one before ended is sequential.\<close>

definition follows :: "nbd_served \<times> nbd_served \<Rightarrow> bool" where
  "follows = (\<lambda>(a, b). sv_offset b = u64_add (sv_offset a) (sv_length a))"

definition read_pairs :: "nbd_served list \<Rightarrow> (nbd_served \<times> nbd_served) list" where
  "read_pairs ss = (let vs = filter sv_sequence_valid ss in zip vs (tl vs))"

lemma zip_tl_snoc: "vs \<noteq> [] \<Longrightarrow> zip (vs @ [s]) (tl (vs @ [s])) = zip vs (tl vs) @ [(last vs, s)]"
  by (induction vs) (auto simp: neq_Nil_conv)

definition sequenced :: "nbd_served list \<Rightarrow> gdox_nbd_telemetry \<Rightarrow> bool" where
  "sequenced ss t \<longleftrightarrow>
     (let vs = filter sv_sequence_valid ss
      in te_previous_read_valid t = (vs \<noteq> [])
         \<and> (vs \<noteq> [] \<longrightarrow> te_previous_read_end t = u64_add (sv_offset (last vs)) (sv_length (last vs)))
         \<and> rs_sequential_requests (te_reads t) = saturated (length (filter follows (read_pairs ss)))
         \<and> rs_discontinuous_requests (te_reads t) = saturated (length (filter (\<lambda>p. \<not> follows p) (read_pairs ss))))"

lemma record_other_keeps:
  "te_previous_read_valid (record_served s t) = te_previous_read_valid (record_sequence (sv_offset s) (sv_length s) (sv_sequence_valid s) t)"
  "te_previous_read_end (record_served s t) = te_previous_read_end (record_sequence (sv_offset s) (sv_length s) (sv_sequence_valid s) t)"
  "rs_sequential_requests (te_reads (record_served s t)) =
     rs_sequential_requests (te_reads (record_sequence (sv_offset s) (sv_length s) (sv_sequence_valid s) t))"
  "rs_discontinuous_requests (te_reads (record_served s t)) =
     rs_discontinuous_requests (te_reads (record_sequence (sv_offset s) (sv_length s) (sv_sequence_valid s) t))"
  by (simp_all add: record_served_def gdox_nbd_telemetry_record_def Let_def record_sequence_def record_result_def
      record_physical_def record_service_def split: option.split)

lemma sequenced_record:
  assumes "sequenced ss t"
  shows "sequenced (ss @ [s]) (record_served s t)"
proof (cases "sv_sequence_valid s")
  case False
  then show ?thesis using assms by (simp add: sequenced_def record_other_keeps record_sequence_def read_pairs_def)
next
  case True
  let ?vs = "filter sv_sequence_valid ss"
  show ?thesis
  proof (cases "?vs = []")
    case False
    then have "read_pairs (ss @ [s]) = read_pairs ss @ [(last ?vs, s)]"
      using True zip_tl_snoc[OF False] by (simp add: read_pairs_def Let_def)
    then show ?thesis using True False assms
      by (simp add: sequenced_def record_other_keeps record_sequence_def Let_def follows_def saturating_step)
  qed (use True assms in \<open>simp add: sequenced_def record_other_keeps record_sequence_def read_pairs_def\<close>)
qed

lemma sequenced_all: "sequenced ss (fold record_served ss no_nbd_telemetry)"
proof (induction ss rule: rev_induct)
  case Nil
  show ?case by (simp add: sequenced_def no_nbd_telemetry_def no_nbd_read_stats_def read_pairs_def)
next
  case (snoc s ss)
  then show ?case using sequenced_record by simp
qed

lemma saturated_mono: "a \<le> b \<Longrightarrow> saturated a \<le> saturated b"
  by (simp add: saturated_def)

lemma saturated_sum: "saturated (saturated a + saturated b) = saturated (a + b)"
  by (auto simp: saturated_def)

section \<open>Properties\<close>

text \<open>C10: After any sequence of recorded requests every counter of the server's telemetry is the sum over the
  requests it counts, saturated at the largest 64-bit value; the requests are the successful and the failed
  ones together, those served with and without drive work are among them, and two reads in a row count as
  sequential exactly when the second starts where the first ended.\<close>
theorem nbd_telemetry_adds_up:
  "let t = fold record_served ss no_nbd_telemetry; r = te_reads t
   in counted ss r \<and> sequenced ss t
      \<and> rs_requests r = saturated (rs_successful_requests r + rs_failed_requests r)
      \<and> rs_successful_bytes r \<le> rs_requested_bytes r
      \<and> rs_served_without_drive_io_requests r \<le> rs_successful_requests r
      \<and> rs_served_without_drive_io_bytes r \<le> rs_successful_bytes r
      \<and> saturated (rs_served_without_drive_io_requests r + rs_requests_with_drive_io r) \<le> rs_requests r"
proof -
  let ?t = "fold record_served ss no_nbd_telemetry"
  note c = counted_all[of ss, unfolded counted_def]
  have "tally without_io (\<lambda>_. 1) ss + tally with_io (\<lambda>_. 1) ss \<le> length ss"
    by (induction ss) (auto simp: tally_def without_io_def with_io_def split: option.splits)
  moreover have "tally without_io f ss \<le> tally sv_succeeded f ss" for f
    by (rule tally_mono) (simp add: without_io_def)
  moreover have "tally sv_succeeded f ss \<le> tally (\<lambda>_. True) f ss" for f by (rule tally_mono) simp
  ultimately show ?thesis using c counted_all[of ss] sequenced_all[of ss] tally_split[of sv_succeeded ss]
    by (simp add: Let_def saturated_sum saturated_mono)
qed

end
