(* ===== verification/NbdProtocol.thy ===== *)
theory NbdProtocol
  imports NbdSocket NbdTelemetry Disc Xdvdfs "HOL-Library.Monad_Syntax"
begin

text \<open>
  One session of the network block device server (src/src/platform/nbd_protocol.c): the greeting, the option
  haggling and the transmission of disc bytes, over the socket layer and a random-access disc. An operation
  that may not return has the result \<open>None\<close>. Output to \<open>stderr\<close> is the \<open>console\<close> of the process.

  The client side of a session (\<open>option_call\<close>, \<open>call_reply\<close>) says what a client may send and what it is to
  receive; the lemmas show that the server answers every such client so, piece by piece and as a whole.
\<close>

section \<open>The export\<close>

record 'd gdox_nbd_export =
  ex_export_name :: "byte list"
  ex_export_flags :: nat
  ex_disc :: "'d random_disc"
  ex_runtime_failed :: bool
  ex_runtime_error :: gdox_error
  ex_telemetry :: gdox_nbd_telemetry

definition lock_state :: "'k host_ops \<Rightarrow> 'k process \<Rightarrow> bool \<times> 'k process" where
  "lock_state host p = (case host_lock host (world p) of (locked, k) \<Rightarrow> (locked, p\<lparr>world := k\<rparr>))"

definition monotonic_ms :: "'k host_ops \<Rightarrow> 'k process \<Rightarrow> u64 \<times> 'k process" where
  "monotonic_ms host p = (case host_clock host (world p) of (now, k) \<Rightarrow> (now, p\<lparr>world := k\<rparr>))"

definition allocate :: "'k host_ops \<Rightarrow> nat \<Rightarrow> 'k process \<Rightarrow> bool \<times> 'k process" where
  "allocate host n p = (case host_alloc host (world p) n of (ok, k) \<Rightarrow> (ok, p\<lparr>world := k\<rparr>))"

definition print_error :: "string \<Rightarrow> 'k process \<Rightarrow> 'k process" where
  "print_error line p = p\<lparr>console := console p @ [line]\<rparr>"

definition gdox_nbd_export_record_runtime_error ::
  "'k host_ops \<Rightarrow> string \<Rightarrow> 'd gdox_nbd_export \<Rightarrow> 'k process \<Rightarrow> 'd gdox_nbd_export \<times> 'k process" where
  "gdox_nbd_export_record_runtime_error host text_line ex p =
     (case lock_state host p of (locked, p) \<Rightarrow>
        if \<not> locked then (ex, p)
        else if ex_runtime_failed ex then (ex, p)
        else (ex\<lparr>ex_runtime_failed := True,
                 ex_runtime_error := err ERROR_TRANSPORT (take (GDOX_ERROR_MESSAGE_CAPACITY - 1) text_line)\<rparr>, p))"

section \<open>Replies\<close>

definition send_option_reply ::
  "'k host_ops \<Rightarrow> u32 \<Rightarrow> u32 \<Rightarrow> byte list \<Rightarrow> 'k process \<Rightarrow> (bool \<times> 'k process) option" where
  "send_option_reply host option reply payload p =
     do {
       (ok, p) \<leftarrow> gdox_nbd_socket_write_all host
         (gdox_nbd_wire_option_reply_header (replicate 20 0) option reply (u32_cast (length payload))) p;
       if \<not> ok then Some (False, p)
       else if length payload = 0 then Some (True, p)
       else gdox_nbd_socket_write_all host payload p
     }"

definition send_simple_reply ::
  "'k host_ops \<Rightarrow> u32 \<Rightarrow> u64 \<Rightarrow> byte list \<Rightarrow> 'k process \<Rightarrow> (bool \<times> 'k process) option" where
  "send_simple_reply host reply_error handle data p =
     do {
       (ok, p) \<leftarrow> gdox_nbd_socket_write_all host (gdox_nbd_wire_simple_reply (replicate 16 0) reply_error handle) p;
       if \<not> ok then Some (False, p)
       else if length data = 0 then Some (True, p)
       else gdox_nbd_socket_write_all host data p
     }"

definition read_disc_request ::
  "'d disc_ops \<Rightarrow> u64 \<Rightarrow> u32 \<Rightarrow> 'd gdox_nbd_export \<Rightarrow> byte list res \<times> 'd gdox_nbd_export" where
  "read_disc_request dops offset output_bytes ex =
     (case gdox_disc_read_at dops (ex_disc ex) offset output_bytes of
        (r, disc) \<Rightarrow>
          (case r of
             Inr received \<Rightarrow>
               if length received = output_bytes then Inr received
               else fail ERROR_IO ''disc source returned an incomplete read''
           | Inl e \<Rightarrow>
               if gdox_error_is_set (Some e) then Inl e
               else fail ERROR_IO ''disc source returned an incomplete read'',
           ex\<lparr>ex_disc := disc\<rparr>))"

definition send_export_info ::
  "'k host_ops \<Rightarrow> u32 \<Rightarrow> u64 \<Rightarrow> nat \<Rightarrow> 'k process \<Rightarrow> (bool \<times> 'k process) option" where
  "send_export_info host option len export_flags p =
     do {
       (ok, p) \<leftarrow> send_option_reply host option GDOX_NBD_REP_INFO (gdox_nbd_wire_block_size_info (replicate 14 0)) p;
       if \<not> ok then Some (False, p)
       else send_option_reply host option GDOX_NBD_REP_INFO
              (gdox_nbd_wire_export_info (replicate 12 0) len export_flags) p
     }"

section \<open>Option haggling\<close>

definition read_option_request ::
  "'k host_ops \<Rightarrow> 'k process \<Rightarrow> ((u32 \<times> byte list) option \<times> 'k process) option" where
  "read_option_request host p =
     do {
       (header, p) \<leftarrow> gdox_nbd_socket_read_exact host 16 p;
       case header of
         None \<Rightarrow> Some (None, gdox_nbd_socket_set_protocol_error p)
       | Some input \<Rightarrow>
           (case gdox_nbd_wire_parse_option_header input of
              None \<Rightarrow> Some (None, gdox_nbd_socket_set_protocol_error p)
            | Some (option, payload_length) \<Rightarrow>
                if payload_length = 0 then Some (Some (option, []), p)
                else (case allocate host payload_length p of
                        (ok, p) \<Rightarrow>
                          if \<not> ok then Some (None, gdox_nbd_socket_set_no_memory_error p)
                          else do {
                            (payload, p) \<leftarrow> gdox_nbd_socket_read_exact host payload_length p;
                            Some (map_option (\<lambda>bs. (option, bs)) payload, p)
                          }))
     }"

definition export_name_matches :: "'d gdox_nbd_export \<Rightarrow> byte list \<Rightarrow> bool" where
  "export_name_matches ex name \<longleftrightarrow> length name = length (ex_export_name ex) \<and> name = ex_export_name ex"

definition negotiate_export_name ::
  "'d disc_ops \<Rightarrow> 'k host_ops \<Rightarrow> 'd gdox_nbd_export \<Rightarrow> byte list \<Rightarrow> bool \<Rightarrow> 'k process \<Rightarrow> (bool \<times> 'k process) option" where
  "negotiate_export_name dops host ex payload no_zeroes p =
     (if \<not> export_name_matches ex payload then Some (False, gdox_nbd_socket_set_permission_error p)
      else do {
        (ok, p) \<leftarrow> gdox_nbd_socket_write_all host
          (gdox_nbd_wire_export_response (replicate 10 0) (gdox_disc_length dops (ex_disc ex)) (ex_export_flags ex)) p;
        if \<not> ok then Some (False, p)
        else if no_zeroes then Some (True, p)
        else gdox_nbd_socket_write_all host (replicate 124 0) p
      })"

text \<open>The outputs: the result, \<open>*ready\<close>, and the process.\<close>

definition negotiate_info ::
  "'d disc_ops \<Rightarrow> 'k host_ops \<Rightarrow> 'd gdox_nbd_export \<Rightarrow> u32 \<Rightarrow> byte list \<Rightarrow> 'k process
     \<Rightarrow> (bool \<times> bool \<times> 'k process) option" where
  "negotiate_info dops host ex option payload p =
     (case gdox_nbd_wire_parse_info_name payload of
        None \<Rightarrow>
          do {
            (ok, p) \<leftarrow> send_option_reply host option GDOX_NBD_REP_ERR_INVALID (ascii ''invalid info request'') p;
            Some (ok, False, p)
          }
      | Some name \<Rightarrow>
          if \<not> export_name_matches ex name
          then do {
            (ok, p) \<leftarrow> send_option_reply host option GDOX_NBD_REP_ERR_UNKNOWN (ascii ''unknown export'') p;
            Some (ok, False, p)
          }
          else do {
            (ok, p) \<leftarrow> send_export_info host option (gdox_disc_length dops (ex_disc ex)) (ex_export_flags ex) p;
            (result, p) \<leftarrow> (if \<not> ok then Some (False, p) else send_option_reply host option GDOX_NBD_REP_ACK [] p);
            Some (result, result \<and> option = GDOX_NBD_OPT_GO, p)
          })"

text \<open>One turn of the loop of \<open>negotiate\<close>: \<open>Some\<close> the value it returns, or \<open>None\<close> when it goes on.\<close>

definition negotiate_turn ::
  "'d disc_ops \<Rightarrow> 'k host_ops \<Rightarrow> 'd gdox_nbd_export \<Rightarrow> bool \<Rightarrow> 'k process \<Rightarrow> (bool option \<times> 'k process) option" where
  "negotiate_turn dops host ex no_zeroes p =
     do {
       (request, p) \<leftarrow> read_option_request host p;
       case request of
         None \<Rightarrow> Some (Some False, p)
       | Some (option, payload) \<Rightarrow>
           if option = GDOX_NBD_OPT_ABORT
           then do {
             (result, p) \<leftarrow> send_option_reply host option GDOX_NBD_REP_ACK [] p;
             Some (Some False, if result then gdox_nbd_socket_set_connection_aborted p else p)
           }
           else if option = GDOX_NBD_OPT_EXPORT_NAME
           then do {
             (result, p) \<leftarrow> negotiate_export_name dops host ex payload no_zeroes p;
             Some (Some result, p)
           }
           else do {
             (result, ready, p) \<leftarrow>
               (if option = GDOX_NBD_OPT_INFO \<or> option = GDOX_NBD_OPT_GO
                then negotiate_info dops host ex option payload p
                else do {
                  (result, p) \<leftarrow> send_option_reply host option GDOX_NBD_REP_ERR_UNSUP [] p;
                  Some (result, False, p)
                });
             Some (if ready then Some True else if \<not> result then Some False else None, p)
           }
     }"

partial_function (option) negotiate ::
  "'d disc_ops \<Rightarrow> 'k host_ops \<Rightarrow> 'd gdox_nbd_export \<Rightarrow> bool \<Rightarrow> 'k process \<Rightarrow> (bool \<times> 'k process) option" where
  "negotiate dops host ex no_zeroes p =
     do {
       (result, p) \<leftarrow> negotiate_turn dops host ex no_zeroes p;
       case result of
         Some b \<Rightarrow> Some (b, p)
       | None \<Rightarrow> negotiate dops host ex no_zeroes p
     }"

section \<open>Transmission\<close>

record ('d, 'k) nbd_session =
  se_export :: "'d gdox_nbd_export"
  se_process :: "'k process"

text \<open>The capacity stands for the buffer; \<open>realloc\<close> of a positive length keeps or moves it.\<close>

definition reserve_request_buffer ::
  "'k host_ops \<Rightarrow> nat \<Rightarrow> u32 \<Rightarrow> 'k process \<Rightarrow> bool \<times> nat \<times> 'k process" where
  "reserve_request_buffer host capacity len p =
     (if len \<le> capacity \<or> len > GDOX_NBD_MAX_BUFFER_SIZE then (True, capacity, p)
      else (case allocate host len p of
              (resized, p) \<Rightarrow>
                if \<not> resized \<and> len \<noteq> 0 then (False, capacity, gdox_nbd_socket_set_no_memory_error p)
                else (True, len, p)))"

definition NBD_SLOW_READ_MS :: u64 where "NBD_SLOW_READ_MS = 1000"

definition report_slow_read :: "gdox_nbd_request \<Rightarrow> u64 \<Rightarrow> 'k process \<Rightarrow> 'k process" where
  "report_slow_read request elapsed_ms p =
     (if elapsed_ms < NBD_SLOW_READ_MS then p
      else print_error (''GDOX: slow live read at sector '' @ decimal (rq_offset request div GDOX_LOGICAL_SECTOR_BYTES)
             @ '' ('' @ decimal (rq_length request) @ '' bytes, '' @ decimal elapsed_ms @ '' ms)'') p)"

definition report_read_failure ::
  "'k host_ops \<Rightarrow> gdox_nbd_request \<Rightarrow> gdox_error \<Rightarrow> ('d, 'k) nbd_session \<Rightarrow> (bool \<times> ('d, 'k) nbd_session) option" where
  "report_read_failure host request read_error s =
     (let report = take (GDOX_ERROR_MESSAGE_CAPACITY - 1)
            (''disc read failed at sector '' @ decimal (rq_offset request div GDOX_LOGICAL_SECTOR_BYTES)
             @ '' (byte offset '' @ decimal (rq_offset request) @ '', '' @ decimal (rq_length request)
             @ '' bytes): '' @ take 240 (message read_error));
          p = print_error (''GDOX: '' @ report) (se_process s)
      in case gdox_nbd_export_record_runtime_error host report (se_export s) p of
           (ex, p) \<Rightarrow>
             do {
               (ok, p) \<leftarrow> send_simple_reply host GDOX_NBD_EIO (rq_handle request) [] p;
               Some (ok, \<lparr>se_export = ex, se_process = p\<rparr>)
             })"

definition record_read ::
  "'k host_ops \<Rightarrow> gdox_nbd_request \<Rightarrow> bool \<Rightarrow> bool \<Rightarrow> physical_read_stats option \<Rightarrow> physical_read_stats option \<Rightarrow> u64
     \<Rightarrow> ('d, 'k) nbd_session \<Rightarrow> ('d, 'k) nbd_session" where
  "record_read host request sequence_valid succeeded before after elapsed_ms s =
     (case lock_state host (se_process s) of
        (locked, p) \<Rightarrow>
          \<lparr>se_export = (se_export s)\<lparr>ex_telemetry :=
             gdox_nbd_telemetry_record (ex_telemetry (se_export s)) locked (rq_offset request) (rq_length request)
               sequence_valid succeeded before after elapsed_ms\<rparr>,
           se_process = p\<rparr>)"

definition elapsed_since :: "'k host_ops \<Rightarrow> u64 \<Rightarrow> 'k process \<Rightarrow> u64 \<times> 'k process" where
  "elapsed_since host started_ms p =
     (case monotonic_ms host p of
        (finished_ms, p) \<Rightarrow> (if finished_ms \<ge> started_ms then finished_ms - started_ms else 0, p))"

definition physical_stats :: "'d disc_ops \<Rightarrow> 'd gdox_nbd_export \<Rightarrow> physical_read_stats option" where
  "physical_stats dops ex =
     (case gdox_disc_physical_read_stats dops (ex_disc ex) of (ok, stats) \<Rightarrow> if ok then Some stats else None)"

definition transmit_read ::
  "'d disc_ops \<Rightarrow> 'k host_ops \<Rightarrow> gdox_nbd_request \<Rightarrow> ('d, 'k) nbd_session \<Rightarrow> (bool \<times> ('d, 'k) nbd_session) option" where
  "transmit_read dops host request s =
     (let disc_bytes = gdox_disc_length dops (ex_disc (se_export s))
      in case monotonic_ms host (se_process s) of
           (started_ms, p) \<Rightarrow>
             if \<not> gdox_nbd_wire_read_is_valid request disc_bytes
             then (case elapsed_since host started_ms p of
                     (elapsed_ms, p) \<Rightarrow>
                       let s = record_read host request False False None None elapsed_ms (s\<lparr>se_process := p\<rparr>)
                       in do {
                            (ok, p) \<leftarrow> send_simple_reply host GDOX_NBD_EINVAL (rq_handle request) [] (se_process s);
                            Some (ok, s\<lparr>se_process := p\<rparr>)
                          })
             else (let before = physical_stats dops (se_export s)
                   in case read_disc_request dops (rq_offset request) (rq_length request) (se_export s) of
                        (r, ex) \<Rightarrow>
                          let after = physical_stats dops ex
                          in case elapsed_since host started_ms p of
                               (elapsed_ms, p) \<Rightarrow>
                                 let s = record_read host request True (\<not> isl r) before after elapsed_ms
                                           \<lparr>se_export = ex, se_process = p\<rparr>
                                 in case r of
                                      Inl read_error \<Rightarrow> report_read_failure host request read_error s
                                    | Inr buffer \<Rightarrow>
                                        do {
                                          (ok, p) \<leftarrow> send_simple_reply host 0 (rq_handle request) buffer
                                            (report_slow_read request elapsed_ms (se_process s));
                                          Some (ok, s\<lparr>se_process := p\<rparr>)
                                        }))"

definition transmit_write ::
  "'k host_ops \<Rightarrow> gdox_nbd_request \<Rightarrow> u32 \<Rightarrow> 'k process \<Rightarrow> (bool \<times> 'k process) option" where
  "transmit_write host request reply_error p =
     (if rq_length request > GDOX_NBD_MAX_BUFFER_SIZE then Some (False, gdox_nbd_socket_set_protocol_error p)
      else do {
        (ok, p) \<leftarrow> (if rq_length request = 0 then Some (True, p)
                   else do {
                     (received, p) \<leftarrow> gdox_nbd_socket_read_exact host (rq_length request) p;
                     Some (received \<noteq> None, p)
                   });
        if \<not> ok then Some (False, p)
        else send_simple_reply host reply_error (rq_handle request) [] p
      })"

text \<open>
  One turn of the loop of \<open>transmit\<close>, from the capacity of the buffer and the \<open>result\<close> of the turn before: whether the
  loop is left, and the two new values.
\<close>

definition transmit_turn ::
  "'d disc_ops \<Rightarrow> 'k host_ops \<Rightarrow> nat \<Rightarrow> bool \<Rightarrow> ('d, 'k) nbd_session
     \<Rightarrow> (bool \<times> nat \<times> bool \<times> ('d, 'k) nbd_session) option" where
  "transmit_turn dops host capacity result s =
     do {
       (received, p) \<leftarrow> gdox_nbd_socket_read_exact host 28 (se_process s);
       case received of
         None \<Rightarrow> Some (True, capacity, gdox_nbd_socket_error p = SOCKET_CONNECTION_RESET, s\<lparr>se_process := p\<rparr>)
       | Some input \<Rightarrow>
           (case gdox_nbd_wire_parse_request input of
              None \<Rightarrow> Some (True, capacity, result, s\<lparr>se_process := gdox_nbd_socket_set_protocol_error p\<rparr>)
            | Some request \<Rightarrow>
                if rq_command request = GDOX_NBD_CMD_DISC then Some (True, capacity, True, s\<lparr>se_process := p\<rparr>)
                else (case reserve_request_buffer host capacity (rq_length request) p of
                        (ok, capacity, p) \<Rightarrow>
                          if \<not> ok then Some (True, capacity, result, s\<lparr>se_process := p\<rparr>)
                          else do {
                            (result, s) \<leftarrow>
                              (if rq_command request = GDOX_NBD_CMD_READ \<and> rq_flags request = 0
                               then transmit_read dops host request (s\<lparr>se_process := p\<rparr>)
                               else if rq_command request = GDOX_NBD_CMD_WRITE
                               then do {
                                 (ok, p) \<leftarrow> transmit_write host request
                                   (if rq_flags request = 0 then GDOX_NBD_EPERM else GDOX_NBD_EINVAL) p;
                                 Some (ok, s\<lparr>se_process := p\<rparr>)
                               }
                               else do {
                                 (ok, p) \<leftarrow> send_simple_reply host GDOX_NBD_EINVAL (rq_handle request) [] p;
                                 Some (ok, s\<lparr>se_process := p\<rparr>)
                               });
                            Some (\<not> result, capacity, result, s)
                          }))
     }"

partial_function (option) transmit_loop ::
  "'d disc_ops \<Rightarrow> 'k host_ops \<Rightarrow> nat \<Rightarrow> bool \<Rightarrow> ('d, 'k) nbd_session \<Rightarrow> (bool \<times> ('d, 'k) nbd_session) option" where
  "transmit_loop dops host capacity result s =
     do {
       (left, capacity, result, s) \<leftarrow> transmit_turn dops host capacity result s;
       if left then Some (result, s) else transmit_loop dops host capacity result s
     }"

definition transmit ::
  "'d disc_ops \<Rightarrow> 'k host_ops \<Rightarrow> ('d, 'k) nbd_session \<Rightarrow> (bool \<times> ('d, 'k) nbd_session) option" where
  "transmit dops host s = transmit_loop dops host 0 False s"

section \<open>The session\<close>

definition gdox_nbd_protocol_handle ::
  "'d disc_ops \<Rightarrow> 'k host_ops \<Rightarrow> ('d, 'k) nbd_session \<Rightarrow> (bool \<times> ('d, 'k) nbd_session) option" where
  "gdox_nbd_protocol_handle dops host s =
     (case gdox_nbd_socket_configure_client host (se_process s) of
        (ok, p) \<Rightarrow>
          if \<not> ok then Some (False, s\<lparr>se_process := p\<rparr>)
          else do {
            (ok, p) \<leftarrow> gdox_nbd_socket_write_all host (gdox_nbd_wire_greeting (replicate 18 0)) p;
            (flags, p) \<leftarrow> (if \<not> ok then Some (None, p) else gdox_nbd_socket_read_exact host 4 p);
            case flags of
              None \<Rightarrow> Some (False, s\<lparr>se_process := p\<rparr>)
            | Some client_flags_bytes \<Rightarrow>
                (case gdox_nbd_wire_parse_client_flags client_flags_bytes of
                   None \<Rightarrow> Some (False, s\<lparr>se_process := gdox_nbd_socket_set_protocol_error p\<rparr>)
                 | Some client_flags \<Rightarrow>
                     do {
                       (ok, p) \<leftarrow> negotiate dops host (se_export s)
                         (client_flags AND GDOX_NBD_FLAG_C_NO_ZEROES \<noteq> 0) p;
                       if \<not> ok then Some (False, s\<lparr>se_process := p\<rparr>)
                       else (case gdox_nbd_socket_clear_timeouts host p of
                               (ok, p) \<Rightarrow>
                                 if \<not> ok then Some (False, s\<lparr>se_process := p\<rparr>)
                                 else transmit dops host (s\<lparr>se_process := p\<rparr>))
                     })
          })"

section \<open>What a client sends and receives\<close>

definition option_reply_bytes :: "u32 \<Rightarrow> u32 \<Rightarrow> byte list \<Rightarrow> byte list" where
  "option_reply_bytes option reply payload =
     be_bytes 8 NBD_REP_MAGIC @ be_bytes 4 option @ be_bytes 4 reply @ be_bytes 4 (length payload) @ payload"

definition simple_reply_of :: "u32 \<Rightarrow> u64 \<Rightarrow> byte list \<Rightarrow> byte list" where
  "simple_reply_of e handle data = be_bytes 4 NBD_SIMPLE_REPLY_MAGIC @ be_bytes 4 e @ be_bytes 8 handle @ data"

definition info_replies :: "u32 \<Rightarrow> u64 \<Rightarrow> nat \<Rightarrow> byte list" where
  "info_replies option len flags =
     option_reply_bytes option GDOX_NBD_REP_INFO (be_bytes 2 3 @ be_bytes 4 1 @ be_bytes 4 65536 @ be_bytes 4 33554432)
     @ option_reply_bytes option GDOX_NBD_REP_INFO (be_bytes 2 0 @ be_bytes 8 len @ be_bytes 2 flags)
     @ option_reply_bytes option GDOX_NBD_REP_ACK []"

text \<open>An option that leaves the haggling open, and its reply.\<close>

definition open_option :: "byte list \<Rightarrow> u32 \<times> byte list \<Rightarrow> bool" where
  "open_option name = (\<lambda>(option, payload).
     option < two32 \<and> length payload \<le> GDOX_NBD_MAX_OPTION_SIZE
     \<and> option \<noteq> GDOX_NBD_OPT_ABORT \<and> option \<noteq> GDOX_NBD_OPT_EXPORT_NAME
     \<and> \<not> (option = GDOX_NBD_OPT_GO \<and> gdox_nbd_wire_parse_info_name payload = Some name))"

definition open_reply :: "byte list \<Rightarrow> u64 \<Rightarrow> nat \<Rightarrow> u32 \<times> byte list \<Rightarrow> byte list" where
  "open_reply name len flags = (\<lambda>(option, payload).
     if option = GDOX_NBD_OPT_INFO \<or> option = GDOX_NBD_OPT_GO
     then (case gdox_nbd_wire_parse_info_name payload of
             None \<Rightarrow> option_reply_bytes option GDOX_NBD_REP_ERR_INVALID (ascii ''invalid info request'')
           | Some n \<Rightarrow>
               if n \<noteq> name then option_reply_bytes option GDOX_NBD_REP_ERR_UNKNOWN (ascii ''unknown export'')
               else info_replies option len flags)
     else option_reply_bytes option GDOX_NBD_REP_ERR_UNSUP [])"

text \<open>The two options that end the haggling, and what the client gets for them.\<close>

datatype chosen_export = GO_WITH "nat list" | EXPORT_NAME

definition chosen_bytes :: "byte list \<Rightarrow> chosen_export \<Rightarrow> byte list" where
  "chosen_bytes name choice =
     (case choice of
        GO_WITH infos \<Rightarrow> option_bytes GDOX_NBD_OPT_GO (info_payload name infos)
      | EXPORT_NAME \<Rightarrow> option_bytes GDOX_NBD_OPT_EXPORT_NAME name)"

definition chosen_ok :: "byte list \<Rightarrow> chosen_export \<Rightarrow> bool" where
  "chosen_ok name choice =
     (case choice of
        GO_WITH infos \<Rightarrow> length infos < 65536 \<and> length (info_payload name infos) \<le> GDOX_NBD_MAX_OPTION_SIZE
      | EXPORT_NAME \<Rightarrow> length name \<le> GDOX_NBD_MAX_OPTION_SIZE)"

definition chosen_reply :: "bool \<Rightarrow> u64 \<Rightarrow> nat \<Rightarrow> chosen_export \<Rightarrow> byte list" where
  "chosen_reply no_zeroes len flags choice =
     (case choice of
        GO_WITH infos \<Rightarrow> info_replies GDOX_NBD_OPT_GO len flags
      | EXPORT_NAME \<Rightarrow> be_bytes 8 len @ be_bytes 2 flags @ (if no_zeroes then [] else replicate 124 0))"

text \<open>A command with the bytes that follow it, and its reply.\<close>

definition call_ok :: "gdox_nbd_request \<times> byte list \<Rightarrow> bool" where
  "call_ok = (\<lambda>(q, payload).
     request_fits q \<and> rq_command q \<noteq> GDOX_NBD_CMD_DISC
     \<and> (if rq_command q = GDOX_NBD_CMD_WRITE
        then rq_length q \<le> GDOX_NBD_MAX_BUFFER_SIZE \<and> length payload = rq_length q else payload = []))"

definition call_bytes :: "gdox_nbd_request \<times> byte list \<Rightarrow> byte list" where
  "call_bytes = (\<lambda>(q, payload). request_bytes q @ payload)"

definition call_reply :: "(nat \<Rightarrow> byte) \<Rightarrow> u64 \<Rightarrow> gdox_nbd_request \<times> byte list \<Rightarrow> byte list" where
  "call_reply f len = (\<lambda>(q, payload).
     if rq_command q = GDOX_NBD_CMD_READ \<and> rq_flags q = 0
     then (if rq_length q \<le> GDOX_NBD_MAX_BUFFER_SIZE \<and> rq_offset q + rq_length q \<le> len
           then simple_reply_of 0 (rq_handle q) (span f (rq_offset q) (rq_length q))
           else simple_reply_of GDOX_NBD_EINVAL (rq_handle q) [])
     else if rq_command q = GDOX_NBD_CMD_WRITE
     then simple_reply_of (if rq_flags q = 0 then GDOX_NBD_EPERM else GDOX_NBD_EINVAL) (rq_handle q) []
     else simple_reply_of GDOX_NBD_EINVAL (rq_handle q) [])"

section \<open>The server on a live connection\<close>

lemma replicate_header_lengths:
  "length (replicate n x) = n" by simp

context live_stream begin

lemma quiet_steps_live:
  "stream_at p coming gone \<Longrightarrow> lock_state host p = (b, p') \<Longrightarrow> stream_at p' coming gone"
  "stream_at p coming gone \<Longrightarrow> monotonic_ms host p = (now, p') \<Longrightarrow> stream_at p' coming gone"
  "stream_at p coming gone \<Longrightarrow> elapsed_since host t p = (now, p') \<Longrightarrow> stream_at p' coming gone"
  "stream_at p coming gone \<Longrightarrow> n \<le> GDOX_NBD_MAX_BUFFER_SIZE \<Longrightarrow> allocate host n p = (b, p') \<Longrightarrow> b \<and> stream_at p' coming gone"
  "stream_at p coming gone \<Longrightarrow> stream_at (print_error line p) coming gone"
  "stream_at p coming gone \<Longrightarrow> stream_at (report_slow_read q e p) coming gone"
  by (auto simp: lock_state_def monotonic_ms_def elapsed_since_def allocate_def print_error_def report_slow_read_def
      stream_at_def same_stream_def split: prod.splits dest: live_lock live_clock live_alloc lock_keeps clock_keeps alloc_keeps)

lemma send_option_reply_live:
  assumes "stream_at p coming gone" and "option < two32" and "reply < two32" and "length payload < two32"
  shows "\<exists>p'. send_option_reply host option reply payload p = Some (True, p')
    \<and> stream_at p' coming (gone @ option_reply_bytes option reply payload)"
proof -
  let ?h = "be_bytes 8 NBD_REP_MAGIC @ be_bytes 4 option @ be_bytes 4 reply @ be_bytes 4 (length payload)"
  have h: "gdox_nbd_wire_option_reply_header (replicate 20 0) option reply (u32_cast (length payload)) = ?h"
    using option_reply_header_bytes[of "replicate 20 0" option reply "length payload"] assms by simp
  obtain p1 where p1: "gdox_nbd_socket_write_all host ?h p = Some (True, p1)" "stream_at p1 coming (gone @ ?h)"
    using write_all_live[OF assms(1)] by blast
  obtain p2 where p2: "gdox_nbd_socket_write_all host payload p1 = Some (True, p2)"
    "stream_at p2 coming ((gone @ ?h) @ payload)"
    using write_all_live[OF p1(2)] by blast
  have "send_option_reply host option reply payload p = (if payload = [] then Some (True, p1) else Some (True, p2))"
    using p1(1) p2(1) by (simp add: send_option_reply_def h)
  then show ?thesis using p1(2) p2(2) by (cases "payload = []") (simp_all add: option_reply_bytes_def)
qed

lemma send_simple_reply_live:
  assumes "stream_at p coming gone" and "e < two32" and "handle < two64"
  shows "\<exists>p'. send_simple_reply host e handle data p = Some (True, p')
    \<and> stream_at p' coming (gone @ simple_reply_of e handle data)"
proof -
  let ?h = "be_bytes 4 NBD_SIMPLE_REPLY_MAGIC @ be_bytes 4 e @ be_bytes 8 handle"
  have h: "gdox_nbd_wire_simple_reply (replicate 16 0) e handle = ?h"
    using simple_reply_bytes[of "replicate 16 0" e handle] assms by simp
  obtain p1 where p1: "gdox_nbd_socket_write_all host ?h p = Some (True, p1)" "stream_at p1 coming (gone @ ?h)"
    using write_all_live[OF assms(1)] by blast
  obtain p2 where p2: "gdox_nbd_socket_write_all host data p1 = Some (True, p2)" "stream_at p2 coming ((gone @ ?h) @ data)"
    using write_all_live[OF p1(2)] by blast
  show ?thesis using p1 p2
    by (cases "data = []") (simp_all add: send_simple_reply_def h simple_reply_of_def)
qed

lemma send_export_info_live:
  assumes "stream_at p coming gone" and "option < two32" and "len < two64" and "flags < 65536"
  shows "\<exists>p'. send_export_info host option len flags p = Some (True, p')
    \<and> stream_at p' coming (gone @ option_reply_bytes option GDOX_NBD_REP_INFO (be_bytes 2 3 @ be_bytes 4 1 @ be_bytes 4 65536 @ be_bytes 4 33554432)
     @ option_reply_bytes option GDOX_NBD_REP_INFO (be_bytes 2 0 @ be_bytes 8 len @ be_bytes 2 flags))"
proof -
  let ?b = "be_bytes 2 3 @ be_bytes 4 1 @ be_bytes 4 65536 @ be_bytes 4 33554432"
  let ?e = "be_bytes 2 0 @ be_bytes 8 len @ be_bytes 2 flags"
  have r: "GDOX_NBD_REP_INFO < two32" by (simp add: nbd_replies)
  obtain p1 where p1: "send_option_reply host option GDOX_NBD_REP_INFO ?b p = Some (True, p1)"
    "stream_at p1 coming (gone @ option_reply_bytes option GDOX_NBD_REP_INFO ?b)"
    using send_option_reply_live[OF assms(1,2) r, of ?b] by auto
  obtain p2 where p2: "send_option_reply host option GDOX_NBD_REP_INFO ?e p1 = Some (True, p2)"
    "stream_at p2 coming ((gone @ option_reply_bytes option GDOX_NBD_REP_INFO ?b) @ option_reply_bytes option GDOX_NBD_REP_INFO ?e)"
    using send_option_reply_live[OF p1(2) assms(2) r, of ?e] by auto
  show ?thesis using p1(1) p2 assms
    by (simp add: send_export_info_def block_size_info_bytes export_info_bytes)
qed

lemma read_option_request_live:
  assumes "stream_at p (option_bytes option payload @ coming) gone" and "option < two32"
    and "length payload \<le> GDOX_NBD_MAX_OPTION_SIZE"
  shows "\<exists>p'. read_option_request host p = Some (Some (option, payload), p') \<and> stream_at p' coming gone"
proof -
  have s: "option_bytes option payload = take 16 (option_bytes option payload) @ payload"
    by (simp add: option_bytes_def)
  have l: "length (take 16 (option_bytes option payload)) = 16" by (simp add: option_bytes_def)
  have "stream_at p (take 16 (option_bytes option payload) @ payload @ coming) gone"
    using assms(1) by (subst (asm) s) simp
  then obtain p1 where p1: "gdox_nbd_socket_read_exact host 16 p = Some (Some (take 16 (option_bytes option payload)), p1)"
    "stream_at p1 (payload @ coming) gone" using read_exact_live[OF _ l] by blast
  note parsed = parse_option_bytes[OF assms(2,3)]
  show ?thesis
  proof (cases "payload = []")
    case True
    then show ?thesis using p1 parsed by (simp add: read_option_request_def)
  next
    case False
    obtain b p2 where a: "allocate host (length payload) p1 = (b, p2)" by fastforce
    have m: "length payload \<le> GDOX_NBD_MAX_BUFFER_SIZE" using assms(3) by (simp add: nbd_constants)
    have b: "b" "stream_at p2 (payload @ coming) gone" using quiet_steps_live(4)[OF p1(2) m a] by auto
    obtain p3 where "gdox_nbd_socket_read_exact host (length payload) p2 = Some (Some payload, p3)" "stream_at p3 coming gone"
      using read_exact_live[OF b(2)] by blast
    then show ?thesis using p1(1) parsed a b(1) False by (simp add: read_option_request_def)
  qed
qed

lemma negotiate_info_matched:
  assumes "stream_at p coming gone" and "option < two32" and "gdox_disc_length dops (ex_disc ex) < two64"
    and "ex_export_flags ex < 65536" and "gdox_nbd_wire_parse_info_name payload = Some (ex_export_name ex)"
  shows "\<exists>p'. negotiate_info dops host ex option payload p = Some (True, option = GDOX_NBD_OPT_GO, p')
    \<and> stream_at p' coming (gone @ info_replies option (gdox_disc_length dops (ex_disc ex)) (ex_export_flags ex))"
proof -
  obtain p1 where p1: "send_export_info host option (gdox_disc_length dops (ex_disc ex)) (ex_export_flags ex) p = Some (True, p1)"
    and s1: "stream_at p1 coming (gone @ option_reply_bytes option GDOX_NBD_REP_INFO (be_bytes 2 3 @ be_bytes 4 1 @ be_bytes 4 65536 @ be_bytes 4 33554432)
     @ option_reply_bytes option GDOX_NBD_REP_INFO
         (be_bytes 2 0 @ be_bytes 8 (gdox_disc_length dops (ex_disc ex)) @ be_bytes 2 (ex_export_flags ex)))"
    using send_export_info_live[OF assms(1-4)] by blast
  have a: "GDOX_NBD_REP_ACK < two32" by (simp add: nbd_replies)
  obtain p2 where "send_option_reply host option GDOX_NBD_REP_ACK [] p1 = Some (True, p2)"
    "stream_at p2 coming ((gone @ option_reply_bytes option GDOX_NBD_REP_INFO (be_bytes 2 3 @ be_bytes 4 1 @ be_bytes 4 65536 @ be_bytes 4 33554432)
     @ option_reply_bytes option GDOX_NBD_REP_INFO
         (be_bytes 2 0 @ be_bytes 8 (gdox_disc_length dops (ex_disc ex)) @ be_bytes 2 (ex_export_flags ex)))
       @ option_reply_bytes option GDOX_NBD_REP_ACK [])"
    using send_option_reply_live[OF s1 assms(2) a, of "[]"] by auto
  then show ?thesis using p1 assms(5)
    by (simp add: negotiate_info_def export_name_matches_def info_replies_def)
qed

lemma negotiate_turn_open:
  assumes "stream_at p (option_bytes option payload @ coming) gone"
    and "open_option (ex_export_name ex) (option, payload)"
    and "gdox_disc_length dops (ex_disc ex) < two64" and "ex_export_flags ex < 65536"
  shows "\<exists>p'. negotiate_turn dops host ex no_zeroes p = Some (None, p')
    \<and> stream_at p' coming (gone @ open_reply (ex_export_name ex) (gdox_disc_length dops (ex_disc ex)) (ex_export_flags ex) (option, payload))"
proof -
  have o: "option < two32" "length payload \<le> GDOX_NBD_MAX_OPTION_SIZE" "option \<noteq> GDOX_NBD_OPT_ABORT"
    "option \<noteq> GDOX_NBD_OPT_EXPORT_NAME"
    "\<not> (option = GDOX_NBD_OPT_GO \<and> gdox_nbd_wire_parse_info_name payload = Some (ex_export_name ex))"
    using assms(2) by (simp_all add: open_option_def)
  obtain p1 where p1: "read_option_request host p = Some (Some (option, payload), p1)" "stream_at p1 coming gone"
    using read_option_request_live[OF assms(1) o(1,2)] by blast
  have reply: "\<exists>p'. send_option_reply host option e t p1 = Some (True, p') \<and> stream_at p' coming (gone @ option_reply_bytes option e t)"
    if "e < two32" "length t < two32" for e t
    using send_option_reply_live[OF p1(2) o(1) that(1,2)] .
  show ?thesis
  proof (cases "option = GDOX_NBD_OPT_INFO \<or> option = GDOX_NBD_OPT_GO")
    case False
    then show ?thesis using p1(1) o reply[of GDOX_NBD_REP_ERR_UNSUP "[]"]
      by (auto simp: negotiate_turn_def open_reply_def nbd_replies)
  next
    case info: True
    show ?thesis
    proof (cases "gdox_nbd_wire_parse_info_name payload")
      case None
      then show ?thesis using p1(1) o info reply[of GDOX_NBD_REP_ERR_INVALID "ascii ''invalid info request''"]
        by (auto simp: negotiate_turn_def open_reply_def nbd_replies negotiate_info_def ascii_def)
    next
      case (Some name)
      show ?thesis
      proof (cases "name = ex_export_name ex")
        case False
        then show ?thesis using p1(1) o info Some reply[of GDOX_NBD_REP_ERR_UNKNOWN "ascii ''unknown export''"]
          by (auto simp: negotiate_turn_def open_reply_def nbd_replies negotiate_info_def export_name_matches_def ascii_def)
      next
        case True
        then show ?thesis
          using p1(1) o info Some negotiate_info_matched[OF p1(2) o(1) assms(3,4), of payload]
          by (auto simp: negotiate_turn_def open_reply_def)
      qed
    qed
  qed
qed

lemma negotiate_turn_chosen:
  assumes "stream_at p (chosen_bytes (ex_export_name ex) choice @ coming) gone"
    and "chosen_ok (ex_export_name ex) choice"
    and "gdox_disc_length dops (ex_disc ex) < two64" and "ex_export_flags ex < 65536"
  shows "\<exists>p'. negotiate_turn dops host ex no_zeroes p = Some (Some True, p')
    \<and> stream_at p' coming (gone @ chosen_reply no_zeroes (gdox_disc_length dops (ex_disc ex)) (ex_export_flags ex) choice)"
proof (cases choice)
  case (GO_WITH infos)
  let ?payload = "info_payload (ex_export_name ex) infos"
  have l: "length ?payload \<le> GDOX_NBD_MAX_OPTION_SIZE" "length infos < 65536" using assms(2) GO_WITH by (simp_all add: chosen_ok_def)
  have parsed: "gdox_nbd_wire_parse_info_name ?payload = Some (ex_export_name ex)"
    by (rule parse_info_payload) (use l in \<open>simp_all add: nbd_constants\<close>)
  have o: "GDOX_NBD_OPT_GO < two32" by (simp add: nbd_options)
  obtain p1 where p1: "read_option_request host p = Some (Some (GDOX_NBD_OPT_GO, ?payload), p1)" "stream_at p1 coming gone"
    using read_option_request_live[OF _ o l(1), of p coming gone] assms(1) GO_WITH by (auto simp: chosen_bytes_def)
  show ?thesis using p1(1) GO_WITH negotiate_info_matched[OF p1(2) o assms(3,4) parsed]
    by (auto simp: negotiate_turn_def chosen_reply_def nbd_options)
next
  case EXPORT_NAME
  let ?name = "ex_export_name ex" and ?len = "gdox_disc_length dops (ex_disc ex)"
  have o: "GDOX_NBD_OPT_EXPORT_NAME < two32" by (simp add: nbd_options)
  obtain p1 where p1: "read_option_request host p = Some (Some (GDOX_NBD_OPT_EXPORT_NAME, ?name), p1)" "stream_at p1 coming gone"
    using read_option_request_live[OF _ o, of p ?name coming gone] assms(1,2) EXPORT_NAME by (auto simp: chosen_bytes_def chosen_ok_def)
  let ?r = "be_bytes 8 ?len @ be_bytes 2 (ex_export_flags ex)"
  have h: "gdox_nbd_wire_export_response (replicate 10 0) ?len (ex_export_flags ex) = ?r"
    using export_response_bytes assms(3,4) by simp
  obtain p2 where p2: "gdox_nbd_socket_write_all host ?r p1 = Some (True, p2)" "stream_at p2 coming (gone @ ?r)"
    using write_all_live[OF p1(2)] by blast
  obtain p3 where p3: "gdox_nbd_socket_write_all host (replicate 124 0) p2 = Some (True, p3)"
    "stream_at p3 coming ((gone @ ?r) @ replicate 124 0)"
    using write_all_live[OF p2(2)] by blast
  have "GDOX_NBD_OPT_EXPORT_NAME \<noteq> GDOX_NBD_OPT_ABORT" by (simp add: nbd_options)
  then show ?thesis using p1(1) EXPORT_NAME p2 p3
    by (cases no_zeroes)
      (simp_all add: negotiate_turn_def negotiate_export_name_def export_name_matches_def chosen_reply_def h)
qed

lemma negotiate_live:
  assumes "stream_at p (concat (map (\<lambda>(option, payload). option_bytes option payload) options) @ chosen_bytes (ex_export_name ex) choice @ coming) gone"
    and "list_all (open_option (ex_export_name ex)) options" and "chosen_ok (ex_export_name ex) choice"
    and "gdox_disc_length dops (ex_disc ex) < two64" and "ex_export_flags ex < 65536"
  shows "\<exists>p'. negotiate dops host ex no_zeroes p = Some (True, p')
    \<and> stream_at p' coming (gone
        @ concat (map (open_reply (ex_export_name ex) (gdox_disc_length dops (ex_disc ex)) (ex_export_flags ex)) options)
        @ chosen_reply no_zeroes (gdox_disc_length dops (ex_disc ex)) (ex_export_flags ex) choice)"
  using assms(1,2)
proof (induction options arbitrary: p gone)
  case Nil
  then obtain p' where "negotiate_turn dops host ex no_zeroes p = Some (Some True, p')"
    "stream_at p' coming (gone @ chosen_reply no_zeroes (gdox_disc_length dops (ex_disc ex)) (ex_export_flags ex) choice)"
    using negotiate_turn_chosen[OF _ assms(3-5)] by fastforce
  then show ?case by (subst negotiate.simps) simp
next
  case (Cons q options)
  obtain option payload where q: "q = (option, payload)" by fastforce
  obtain p1 where p1: "negotiate_turn dops host ex no_zeroes p = Some (None, p1)"
    "stream_at p1 (concat (map (\<lambda>(option, payload). option_bytes option payload) options) @ chosen_bytes (ex_export_name ex) choice @ coming)
       (gone @ open_reply (ex_export_name ex) (gdox_disc_length dops (ex_disc ex)) (ex_export_flags ex) q)"
    using negotiate_turn_open[OF _ _ assms(4,5), of p option payload _ gone no_zeroes] Cons.prems q by fastforce
  from Cons.IH[OF p1(2)] Cons.prems(2) p1(1) show ?case by (subst negotiate.simps) simp
qed

end

section \<open>Transmission of a ready disc\<close>

text \<open>What a turn keeps of the export: its name, flags and the disc's contents.\<close>

definition export_kept ::
  "'d disc_ops \<Rightarrow> ('d \<Rightarrow> bool) \<Rightarrow> ('d \<Rightarrow> nat \<Rightarrow> byte) \<Rightarrow> ('d \<Rightarrow> bool) \<Rightarrow> 'd \<Rightarrow> 'd gdox_nbd_export \<Rightarrow> bool" where
  "export_kept dops valid contents ready d ex \<longleftrightarrow>
     (\<exists>d'. ex_disc ex = Some d' \<and> disc_kept dops valid contents d d' \<and> ready d')"

locale nbd_service =
  live_stream host pending sent tries live + ready_disc dops valid contents ready limit
  for host :: "'k host_ops" and pending sent tries live
    and dops :: "'d disc_ops" and valid contents ready limit +
  assumes room: "GDOX_NBD_MAX_BUFFER_SIZE \<le> limit"
begin

lemma read_is_valid_iff:
  assumes "request_fits q" and "len < two64"
  shows "gdox_nbd_wire_read_is_valid q len \<longleftrightarrow>
    rq_length q \<le> GDOX_NBD_MAX_BUFFER_SIZE \<and> rq_offset q + rq_length q \<le> len"
  using assms by (auto simp: gdox_nbd_wire_read_is_valid_def request_fits_def)

lemma read_disc_request_ready:
  assumes "ex_disc ex = Some d" and "valid d" and "ready d" and "n \<le> GDOX_NBD_MAX_BUFFER_SIZE"
    and "offset + n \<le> dop_length dops d"
  shows "\<exists>ex'. read_disc_request dops offset n ex = (Inr (span (contents d) offset n), ex')
    \<and> export_kept dops valid contents ready d ex'"
proof -
  obtain d' where "gdox_disc_read_at dops (Some d) offset n = (Inr (span (contents d) offset n), Some d')"
    "disc_kept dops valid contents d d'" "ready d'"
    using disc_read_at_ready[of d n offset] assms room by (auto simp: min_absorb1)
  then show ?thesis using assms(1) by (simp add: read_disc_request_def export_kept_def)
qed

lemma record_read_simps:
  "ex_disc (se_export (record_read host q v ok b a e s)) = ex_disc (se_export s)"
  "ex_export_name (se_export (record_read host q v ok b a e s)) = ex_export_name (se_export s)"
  "ex_export_flags (se_export (record_read host q v ok b a e s)) = ex_export_flags (se_export s)"
  by (simp_all add: record_read_def split: prod.split)

lemma record_read_stream:
  "stream_at (se_process s) coming gone \<Longrightarrow> stream_at (se_process (record_read host q v ok b a e s)) coming gone"
  using quiet_steps_live(1) by (auto simp: record_read_def split: prod.split)

lemma transmit_read_live:
  assumes "ex_disc (se_export s) = Some d" and "valid d" and "ready d" and "dop_length dops d < two64"
    and "stream_at (se_process s) coming gone" and "request_fits q" and "rq_command q = GDOX_NBD_CMD_READ" and "rq_flags q = 0"
  shows "\<exists>s'. transmit_read dops host q s = Some (True, s')
    \<and> export_kept dops valid contents ready d (se_export s')
    \<and> stream_at (se_process s') coming (gone @ call_reply (contents d) (dop_length dops d) (q, payload))"
proof -
  obtain started p1 where c: "monotonic_ms host (se_process s) = (started, p1)" by fastforce
  note s1 = quiet_steps_live(2)[OF assms(5) c]
  obtain e p2 where el: "elapsed_since host started p1 = (e, p2)" by fastforce
  note s2 = quiet_steps_live(3)[OF s1 el]
  have h: "rq_handle q < two64" using assms(6) by (simp add: request_fits_def)
  have len: "gdox_disc_length dops (ex_disc (se_export s)) = dop_length dops d" using assms(1) by (simp add: gdox_disc_length_def)
  note ok = read_is_valid_iff[OF assms(6,4)]
  show ?thesis
  proof (cases "rq_length q \<le> GDOX_NBD_MAX_BUFFER_SIZE \<and> rq_offset q + rq_length q \<le> dop_length dops d")
    case False
    let ?s = "record_read host q False False None None e (s\<lparr>se_process := p2\<rparr>)"
    have st: "stream_at (se_process ?s) coming gone" by (rule record_read_stream) (simp add: s2)
    have "GDOX_NBD_EINVAL < two32" by (simp add: nbd_errors)
    then obtain p3 where p3: "send_simple_reply host GDOX_NBD_EINVAL (rq_handle q) [] (se_process ?s) = Some (True, p3)"
      "stream_at p3 coming (gone @ simple_reply_of GDOX_NBD_EINVAL (rq_handle q) [])"
      using send_simple_reply_live[OF st _ h] by blast
    have "transmit_read dops host q s = Some (True, ?s\<lparr>se_process := p3\<rparr>)"
      using c el p3(1) False ok len by (simp add: transmit_read_def Let_def)
    then show ?thesis using p3(2) False assms by (auto simp: call_reply_def export_kept_def record_read_simps disc_kept_refl)
  next
    case True
    obtain ex' where r: "read_disc_request dops (rq_offset q) (rq_length q) (se_export s)
        = (Inr (span (contents d) (rq_offset q) (rq_length q)), ex')" "export_kept dops valid contents ready d ex'"
      using read_disc_request_ready[OF assms(1,2,3), of "rq_length q" "rq_offset q"] True by blast
    let ?s = "record_read host q True True (physical_stats dops (se_export s)) (physical_stats dops ex') e
        \<lparr>se_export = ex', se_process = p2\<rparr>"
    have st: "stream_at (report_slow_read q e (se_process ?s)) coming gone"
      by (rule quiet_steps_live(6), rule record_read_stream) (simp add: s2)
    obtain p3 where p3: "send_simple_reply host 0 (rq_handle q) (span (contents d) (rq_offset q) (rq_length q))
          (report_slow_read q e (se_process ?s)) = Some (True, p3)"
      "stream_at p3 coming (gone @ simple_reply_of 0 (rq_handle q) (span (contents d) (rq_offset q) (rq_length q)))"
      using send_simple_reply_live[OF st _ h] by fastforce
    have "transmit_read dops host q s = Some (True, ?s\<lparr>se_process := p3\<rparr>)"
      using c el p3(1) True ok len r(1) by (simp add: transmit_read_def Let_def)
    then show ?thesis using p3(2) True assms(7,8) r(2) by (auto simp: call_reply_def export_kept_def record_read_simps)
  qed
qed

lemma transmit_write_live:
  assumes "stream_at p (payload @ coming) gone" and "request_fits q" and "rq_length q \<le> GDOX_NBD_MAX_BUFFER_SIZE"
    and "length payload = rq_length q" and "e < two32"
  shows "\<exists>p'. transmit_write host q e p = Some (True, p') \<and> stream_at p' coming (gone @ simple_reply_of e (rq_handle q) [])"
proof -
  have h: "rq_handle q < two64" using assms(2) by (simp add: request_fits_def)
  obtain p1 where p1: "gdox_nbd_socket_read_exact host (rq_length q) p = Some (Some payload, p1)" "stream_at p1 coming gone"
    using read_exact_live[OF assms(1,4)] by blast
  define p2 where "p2 = (if rq_length q = 0 then p else p1)"
  have "stream_at p2 coming gone" using p1(2) assms(1,4) by (auto simp: p2_def)
  then obtain p3 where "send_simple_reply host e (rq_handle q) [] p2 = Some (True, p3)"
    "stream_at p3 coming (gone @ simple_reply_of e (rq_handle q) [])"
    using send_simple_reply_live[OF _ assms(5) h] by blast
  then show ?thesis using p1(1) assms(3) by (cases "rq_length q = 0") (simp_all add: transmit_write_def p2_def)
qed

lemma reserve_live:
  assumes "stream_at p coming gone"
  shows "\<exists>c' p'. reserve_request_buffer host c n p = (True, c', p') \<and> stream_at p' coming gone"
proof (cases "n \<le> c \<or> n > GDOX_NBD_MAX_BUFFER_SIZE")
  case False
  obtain b p' where a: "allocate host n p = (b, p')" by fastforce
  then show ?thesis using quiet_steps_live(4)[OF assms _ a] False by (simp add: reserve_request_buffer_def)
qed (use assms in \<open>simp add: reserve_request_buffer_def\<close>)

lemma transmit_turn_live:
  assumes "ex_disc (se_export s) = Some d" and "valid d" and "ready d" and "dop_length dops d < two64"
    and "stream_at (se_process s) (call_bytes call @ coming) gone" and "call_ok call"
  shows "\<exists>c' s'. transmit_turn dops host c result s = Some (False, c', True, s')
    \<and> export_kept dops valid contents ready d (se_export s')
    \<and> stream_at (se_process s') coming (gone @ call_reply (contents d) (dop_length dops d) call)"
proof -
  obtain q payload where call: "call = (q, payload)" by fastforce
  have ok: "request_fits q" "rq_command q \<noteq> GDOX_NBD_CMD_DISC" "rq_handle q < two64"
    "rq_command q = GDOX_NBD_CMD_WRITE \<Longrightarrow> rq_length q \<le> GDOX_NBD_MAX_BUFFER_SIZE \<and> length payload = rq_length q"
    "rq_command q \<noteq> GDOX_NBD_CMD_WRITE \<Longrightarrow> payload = []"
    using assms(6) call by (auto simp: call_ok_def request_fits_def split: if_splits)
  obtain p1 where p1: "gdox_nbd_socket_read_exact host 28 (se_process s) = Some (Some (request_bytes q), p1)"
    "stream_at p1 (payload @ coming) gone"
    using read_exact_live[of "se_process s" "request_bytes q" "payload @ coming" gone 28] assms(5) call by (auto simp: call_bytes_def)
  obtain c' p2 where p2: "reserve_request_buffer host c (rq_length q) p1 = (True, c', p2)" "stream_at p2 (payload @ coming) gone"
    using reserve_live[OF p1(2)] by blast
  have kept: "export_kept dops valid contents ready d (se_export s)" using assms(1-3) by (simp add: export_kept_def disc_kept_refl)
  note start = p1(1) parse_request_bytes[OF ok(1)] ok(2) p2(1)
  have different: "GDOX_NBD_CMD_READ \<noteq> GDOX_NBD_CMD_WRITE" by (simp add: nbd_commands)
  consider (reads) "rq_command q = GDOX_NBD_CMD_READ" "rq_flags q = 0" | (writes) "rq_command q = GDOX_NBD_CMD_WRITE"
    | (other) "\<not> (rq_command q = GDOX_NBD_CMD_READ \<and> rq_flags q = 0)" "rq_command q \<noteq> GDOX_NBD_CMD_WRITE" by auto
  then show ?thesis
  proof cases
    case reads
    then have "payload = []" using ok(5) different by simp
    with p2(2) obtain s' where "transmit_read dops host q (s\<lparr>se_process := p2\<rparr>) = Some (True, s')"
      "export_kept dops valid contents ready d (se_export s')"
      "stream_at (se_process s') coming (gone @ call_reply (contents d) (dop_length dops d) (q, payload))"
      using transmit_read_live[of "s\<lparr>se_process := p2\<rparr>" d coming gone q payload] assms(1-4) ok(1) reads by auto
    then show ?thesis using start reads call by (simp add: transmit_turn_def)
  next
    case writes
    let ?e = "if rq_flags q = 0 then GDOX_NBD_EPERM else GDOX_NBD_EINVAL"
    have "?e < two32" by (simp add: nbd_errors)
    then obtain p3 where "transmit_write host q ?e p2 = Some (True, p3)"
      "stream_at p3 coming (gone @ simple_reply_of ?e (rq_handle q) [])"
      using transmit_write_live[OF p2(2) ok(1), of ?e] ok(4) writes by auto
    then show ?thesis using start writes call different kept by (simp add: transmit_turn_def call_reply_def)
  next
    case other
    have "GDOX_NBD_EINVAL < two32" by (simp add: nbd_errors)
    then obtain p3 where "send_simple_reply host GDOX_NBD_EINVAL (rq_handle q) [] p2 = Some (True, p3)"
      "stream_at p3 (payload @ coming) (gone @ simple_reply_of GDOX_NBD_EINVAL (rq_handle q) [])"
      using send_simple_reply_live[OF p2(2) _ ok(3)] by blast
    then show ?thesis using start other call ok(5) kept by (auto simp: transmit_turn_def call_reply_def)
  qed
qed

lemma transmit_turn_closed:
  assumes "stream_at (se_process s) closing gone"
    and "closing = [] \<or> (\<exists>q. closing = request_bytes q \<and> request_fits q \<and> rq_command q = GDOX_NBD_CMD_DISC)"
  shows "\<exists>s'. transmit_turn dops host c result s = Some (True, c, True, s')
    \<and> se_export s' = se_export s \<and> sent (world (se_process s')) = gone"
proof (cases "closing = []")
  case True
  then obtain p where "gdox_nbd_socket_read_exact host 28 (se_process s) = Some (None, p)"
    "errno p = SOCKET_CONNECTION_RESET" "sent (world p) = gone"
    using read_exact_ended[OF assms(1), of 28] by auto
  then show ?thesis by (simp add: transmit_turn_def gdox_nbd_socket_error_def)
next
  case False
  then obtain q where q: "closing = request_bytes q" "request_fits q" "rq_command q = GDOX_NBD_CMD_DISC" using assms(2) by blast
  then obtain p where "gdox_nbd_socket_read_exact host 28 (se_process s) = Some (Some (request_bytes q), p)" "sent (world p) = gone"
    using read_exact_live[of "se_process s" "request_bytes q" "[]" gone 28] assms(1) by (auto simp: stream_at_def)
  then show ?thesis using parse_request_bytes[OF q(2)] q(3) by (simp add: transmit_turn_def)
qed

lemma transmit_loop_live:
  assumes "ex_disc (se_export s) = Some d" and "valid d" and "ready d" and "dop_length dops d < two64"
    and "stream_at (se_process s) (concat (map call_bytes calls) @ closing) gone" and "list_all call_ok calls"
    and "closing = [] \<or> (\<exists>q. closing = request_bytes q \<and> request_fits q \<and> rq_command q = GDOX_NBD_CMD_DISC)"
  shows "\<exists>s'. transmit_loop dops host c result s = Some (True, s')
    \<and> export_kept dops valid contents ready d (se_export s')
    \<and> sent (world (se_process s')) = gone @ concat (map (call_reply (contents d) (dop_length dops d)) calls)"
  using assms
proof (induction calls arbitrary: s d c result gone)
  case Nil
  have "export_kept dops valid contents ready d (se_export s)" using Nil(1-3) by (simp add: export_kept_def disc_kept_refl)
  with transmit_turn_closed[of s closing gone c result] Nil show ?case by (subst transmit_loop.simps) auto
next
  case (Cons call calls)
  obtain c1 s1 where t: "transmit_turn dops host c result s = Some (False, c1, True, s1)"
    "export_kept dops valid contents ready d (se_export s1)"
    "stream_at (se_process s1) (concat (map call_bytes calls) @ closing) (gone @ call_reply (contents d) (dop_length dops d) call)"
    using transmit_turn_live[OF Cons.prems(1-4), of call "concat (map call_bytes calls) @ closing" gone c result] Cons.prems(5,6)
    by auto
  obtain d1 where d1: "ex_disc (se_export s1) = Some d1" "valid d1" "ready d1" "contents d1 = contents d"
    "dop_length dops d1 = dop_length dops d" using t(2) by (auto simp: export_kept_def disc_kept_def)
  obtain s' where s': "transmit_loop dops host c1 True s1 = Some (True, s')"
    "export_kept dops valid contents ready d1 (se_export s')"
    "sent (world (se_process s')) = (gone @ call_reply (contents d) (dop_length dops d) call)
       @ concat (map (call_reply (contents d) (dop_length dops d)) calls)"
    using Cons.IH[OF d1(1-3) _ t(3)] Cons.prems(4,6,7) d1 by auto
  have "export_kept dops valid contents ready d (se_export s')" using s'(2) d1(4,5) by (auto simp: export_kept_def disc_kept_def)
  then show ?case using s' t(1) by (subst transmit_loop.simps) simp
qed

lemma greeting_reply:
  "gdox_nbd_wire_greeting (replicate 18 0) = be_bytes 8 NBD_INIT_MAGIC @ be_bytes 8 NBD_OPTS_MAGIC @ be_bytes 2 3"
  by (simp add: greeting_bytes)

lemma client_flags_parsed:
  "gdox_nbd_wire_parse_client_flags (be_bytes 4 (if nz then 3 else 1)) = Some (if nz then 3 else 1)"
  by (cases nz) (simp_all add: gdox_nbd_wire_parse_client_flags_def read_be_u32_value be_value_two nbd_constants UINT32_MAX_def)

lemma handle_live:
  assumes "ex_disc (se_export s) = Some d" and "valid d" and "ready d" and "dop_length dops d < two64"
    and "ex_export_flags (se_export s) < 65536"
    and "name = ex_export_name (se_export s)" and "len = dop_length dops d" and "flags = ex_export_flags (se_export s)"
    and "stream_at (se_process s) (be_bytes 4 (if nz then 3 else 1)
        @ concat (map (\<lambda>(option, payload). option_bytes option payload) options) @ chosen_bytes name choice
        @ concat (map call_bytes calls) @ closing) gone"
    and "list_all (open_option name) options" and "chosen_ok name choice" and "list_all call_ok calls"
    and "closing = [] \<or> (\<exists>q. closing = request_bytes q \<and> request_fits q \<and> rq_command q = GDOX_NBD_CMD_DISC)"
  shows "\<exists>s'. gdox_nbd_protocol_handle dops host s = Some (True, s')
    \<and> export_kept dops valid contents ready d (se_export s')
    \<and> sent (world (se_process s')) = gone @ be_bytes 8 NBD_INIT_MAGIC @ be_bytes 8 NBD_OPTS_MAGIC @ be_bytes 2 3
        @ concat (map (open_reply name len flags) options) @ chosen_reply nz len flags choice
        @ concat (map (call_reply (contents d) len) calls)"
proof -
  let ?g = "be_bytes 8 NBD_INIT_MAGIC @ be_bytes 8 NBD_OPTS_MAGIC @ be_bytes 2 3"
  have len: "gdox_disc_length dops (ex_disc (se_export s)) = len" using assms(1,7) by (simp add: gdox_disc_length_def)
  define cf :: nat where "cf = (if nz then 3 else 1)"
  have nz: "(0 < cf AND GDOX_NBD_FLAG_C_NO_ZEROES) = nz" by (simp add: nbd_constants cf_def)
  note cf = client_flags_parsed[of nz, folded cf_def]
  obtain p1 where p1: "gdox_nbd_socket_configure_client host (se_process s) = (True, p1)"
    "stream_at p1 (be_bytes 4 cf @ concat (map (\<lambda>(option, payload). option_bytes option payload) options)
        @ chosen_bytes name choice @ concat (map call_bytes calls) @ closing) gone"
    using set_options_live[OF assms(9)[folded cf_def]] unfolding gdox_nbd_socket_configure_client_def by blast
  obtain p2 where p2: "gdox_nbd_socket_write_all host ?g p1 = Some (True, p2)"
    "stream_at p2 (be_bytes 4 cf @ concat (map (\<lambda>(option, payload). option_bytes option payload) options)
        @ chosen_bytes name choice @ concat (map call_bytes calls) @ closing) (gone @ ?g)"
    using write_all_live[OF p1(2)] by blast
  obtain p3 where p3: "gdox_nbd_socket_read_exact host 4 p2 = Some (Some (be_bytes 4 cf), p3)"
    "stream_at p3 (concat (map (\<lambda>(option, payload). option_bytes option payload) options)
        @ chosen_bytes name choice @ concat (map call_bytes calls) @ closing) (gone @ ?g)"
    using read_exact_live[OF p2(2)] by fastforce
  obtain p4 where p4: "negotiate dops host (se_export s) nz p3 = Some (True, p4)"
    "stream_at p4 (concat (map call_bytes calls) @ closing) ((gone @ ?g)
        @ concat (map (open_reply name len flags) options) @ chosen_reply nz len flags choice)"
    using negotiate_live[of p3 options "se_export s" choice "concat (map call_bytes calls) @ closing" "gone @ ?g" dops nz]
      p3(2) assms(4-8,10,11) len by auto
  obtain p5 where p5: "gdox_nbd_socket_clear_timeouts host p4 = (True, p5)"
    "stream_at p5 (concat (map call_bytes calls) @ closing) ((gone @ ?g)
        @ concat (map (open_reply name len flags) options) @ chosen_reply nz len flags choice)"
    using set_options_live[OF p4(2)] unfolding gdox_nbd_socket_clear_timeouts_def by blast
  have st: "stream_at (se_process (s\<lparr>se_process := p5\<rparr>)) (concat (map call_bytes calls) @ closing) ((gone @ ?g)
        @ concat (map (open_reply name len flags) options) @ chosen_reply nz len flags choice)"
    using p5(2) by simp
  have d: "ex_disc (se_export (s\<lparr>se_process := p5\<rparr>)) = Some d" using assms(1) by simp
  obtain s' where s': "transmit_loop dops host 0 False (s\<lparr>se_process := p5\<rparr>) = Some (True, s')"
    "export_kept dops valid contents ready d (se_export s')"
    "sent (world (se_process s')) = ((gone @ ?g)
        @ concat (map (open_reply name len flags) options) @ chosen_reply nz len flags choice)
        @ concat (map (call_reply (contents d) (dop_length dops d)) calls)"
    using transmit_loop_live[OF d assms(2-4) st assms(12,13)] by blast
  have "gdox_nbd_protocol_handle dops host s = Some (True, s')"
    using p1(1) p2(1) p3(1) p4(1) p5(1) s'(1)
    by (simp add: gdox_nbd_protocol_handle_def greeting_reply cf nz transmit_def del: be_bytes.simps)
  then show ?thesis using s'(2,3) assms(7) by auto
qed

end

interpretation loopback_file: nbd_service loopback_host loopback_pending lb_sent loopback_tries loopback_live
  "direct_ops (\<lambda>_. True) file_ops" "direct_valid file_ops file_valid" "direct_contents file_contents"
  "direct_ready file_ready" UINT32_MAX
  by unfold_locales (simp add: nbd_constants UINT32_MAX_def)

section \<open>Every session ends\<close>

context byte_stream
begin

text \<open>
  On any connection with a finite stream, live or not: an operation returns, and takes from the stream at
  most what the peer sent. \<open>left p p'\<close> says so of a process before and after.
\<close>

definition not_more :: "'k process \<Rightarrow> 'k process \<Rightarrow> bool" where
  "not_more p p' \<longleftrightarrow> length (pending (world p')) \<le> length (pending (world p))"

lemma not_more_trans: "not_more p q \<Longrightarrow> not_more q r \<Longrightarrow> not_more p r"
  by (simp add: not_more_def)

lemma read_exact_not_more:
  "\<exists>r p'. gdox_nbd_socket_read_exact host n p = Some (r, p') \<and> not_more p p'
    \<and> (\<forall>bs. r = Some bs \<longrightarrow> length (pending (world p)) = n + length (pending (world p')))"
  using read_exact_returns[of n p] by (fastforce simp: read_outcome_def not_more_def)

lemma write_all_not_more:
  "\<exists>ok p'. gdox_nbd_socket_write_all host bs p = Some (ok, p') \<and> not_more p p'"
  using write_all_returns[of bs p] by (fastforce simp: write_outcome_def not_more_def)

lemma quiet_not_more:
  "lock_state host p = (b, p') \<Longrightarrow> not_more p p'" "monotonic_ms host p = (now, p') \<Longrightarrow> not_more p p'"
  "elapsed_since host t p = (now, p') \<Longrightarrow> not_more p p'" "allocate host n p = (b, p') \<Longrightarrow> not_more p p'"
  "not_more p (set_socket_error c p)" "not_more p (print_error line p)" "not_more p (report_slow_read q e p)"
  by (auto simp: lock_state_def monotonic_ms_def elapsed_since_def allocate_def print_error_def report_slow_read_def
      set_socket_error_def not_more_def same_stream_def split: prod.splits dest: lock_keeps clock_keeps alloc_keeps)

lemma set_options_not_more: "set_options host opts p = (ok, p') \<Longrightarrow> not_more p p'"
proof (induction opts arbitrary: p)
  case (Cons opt opts)
  obtain r k where r: "host_option host (world p) opt = (r, k)" by fastforce
  have k: "length (pending k) = length (pending (world p))" using option_keeps[OF r] by (simp add: same_stream_def)
  show ?case
  proof (cases r)
    case (Inl c)
    then show ?thesis using Cons.prems r k by (auto simp: set_option_def not_more_def)
  next
    case (Inr u)
    then show ?thesis using Cons.IH[of "p\<lparr>world := k\<rparr>"] Cons.prems r k by (auto simp: set_option_def not_more_def)
  qed
qed (simp add: not_more_def)

lemma send_simple_reply_not_more:
  "\<exists>ok p'. send_simple_reply host e h data p = Some (ok, p') \<and> not_more p p'"
proof -
  obtain ok p1 where p1: "gdox_nbd_socket_write_all host (gdox_nbd_wire_simple_reply (replicate 16 0) e h) p = Some (ok, p1)"
    "not_more p p1" using write_all_not_more by blast
  obtain ok' p2 where "gdox_nbd_socket_write_all host data p1 = Some (ok', p2)" "not_more p1 p2" using write_all_not_more by blast
  then show ?thesis using p1 not_more_trans[OF p1(2)] by (auto simp: send_simple_reply_def)
qed

lemma send_option_reply_not_more:
  "\<exists>ok p'. send_option_reply host option reply payload p = Some (ok, p') \<and> not_more p p'"
proof -
  obtain ok p1 where p1: "gdox_nbd_socket_write_all host
      (gdox_nbd_wire_option_reply_header (replicate 20 0) option reply (u32_cast (length payload))) p = Some (ok, p1)"
    "not_more p p1" using write_all_not_more by blast
  obtain ok' p2 where "gdox_nbd_socket_write_all host payload p1 = Some (ok', p2)" "not_more p1 p2" using write_all_not_more by blast
  then show ?thesis using p1 not_more_trans[OF p1(2)] by (auto simp: send_option_reply_def)
qed

lemma send_export_info_not_more:
  "\<exists>ok p'. send_export_info host option len flags p = Some (ok, p') \<and> not_more p p'"
proof -
  obtain ok p1 where p1: "send_option_reply host option GDOX_NBD_REP_INFO (gdox_nbd_wire_block_size_info (replicate 14 0)) p = Some (ok, p1)"
    "not_more p p1" using send_option_reply_not_more by blast
  obtain ok' p2 where "send_option_reply host option GDOX_NBD_REP_INFO (gdox_nbd_wire_export_info (replicate 12 0) len flags) p1 = Some (ok', p2)"
    "not_more p1 p2" using send_option_reply_not_more by blast
  then show ?thesis using p1 not_more_trans[OF p1(2)] by (auto simp: send_export_info_def)
qed

text \<open>A turn of the haggling that goes on has taken at least an option header from the stream.\<close>

lemma read_option_request_not_more:
  "\<exists>r p'. read_option_request host p = Some (r, p') \<and> not_more p p'
    \<and> (r \<noteq> None \<longrightarrow> length (pending (world p')) < length (pending (world p)))"
proof -
  obtain h p1 where p1: "gdox_nbd_socket_read_exact host 16 p = Some (h, p1)" "not_more p p1"
    "\<And>bs. h = Some bs \<Longrightarrow> length (pending (world p1)) < length (pending (world p))"
    using read_exact_not_more[of 16 p] by fastforce
  show ?thesis
  proof (cases h)
    case None
    then show ?thesis using p1(1) not_more_trans[OF p1(2) quiet_not_more(5)] by (simp add: read_option_request_def)
  next
    case h: (Some input)
    note less = p1(3)[OF h]
    show ?thesis
    proof (cases "gdox_nbd_wire_parse_option_header input")
      case None
      then show ?thesis using p1(1) h not_more_trans[OF p1(2) quiet_not_more(5)] by (simp add: read_option_request_def)
    next
      case (Some ol)
      obtain option n where ol: "ol = (option, n)" by fastforce
      obtain ok p2 where a: "allocate host n p1 = (ok, p2)" by fastforce
      note n2 = quiet_not_more(4)[OF a]
      obtain r p3 where p3: "gdox_nbd_socket_read_exact host n p2 = Some (r, p3)" "not_more p2 p3"
        using read_exact_not_more by blast
      have "read_option_request host p =
          (if n = 0 then Some (Some (option, []), p1)
           else if \<not> ok then Some (None, gdox_nbd_socket_set_no_memory_error p2)
           else Some (map_option (\<lambda>bs. (option, bs)) r, p3))"
        using p1(1) h Some ol a p3(1) by (simp add: read_option_request_def)
      moreover have "not_more p (gdox_nbd_socket_set_no_memory_error p2)" "not_more p p3"
        "length (pending (world p3)) < length (pending (world p))"
        using n2 p3(2) less p1(2) quiet_not_more(5)[of p2 SOCKET_NO_MEMORY] by (simp_all add: not_more_def)
      ultimately show ?thesis using less p1(2) by (cases "n = 0"; cases ok) simp_all
    qed
  qed
qed

lemma negotiate_info_not_more:
  "\<exists>ok ready p'. negotiate_info dops host ex option payload p = Some (ok, ready, p') \<and> not_more p p'"
proof -
  let ?len = "gdox_disc_length dops (ex_disc ex)" and ?f = "ex_export_flags ex"
  obtain a p1 where p1: "send_export_info host option ?len ?f p = Some (a, p1)" "not_more p p1" using send_export_info_not_more by blast
  obtain b p2 where p2: "send_option_reply host option GDOX_NBD_REP_ACK [] p1 = Some (b, p2)" "not_more p1 p2"
    using send_option_reply_not_more by blast
  have e: "\<exists>ok p'. send_option_reply host option reply t p = Some (ok, p') \<and> not_more p p'" for reply t
    by (rule send_option_reply_not_more)
  show ?thesis using p1 p2 not_more_trans[OF p1(2) p2(2)] e[of GDOX_NBD_REP_ERR_INVALID "ascii ''invalid info request''"]
      e[of GDOX_NBD_REP_ERR_UNKNOWN "ascii ''unknown export''"]
    by (cases a) (auto simp: negotiate_info_def split: option.split)
qed

lemma negotiate_export_name_not_more:
  "\<exists>ok p'. negotiate_export_name dops host ex payload nz p = Some (ok, p') \<and> not_more p p'"
proof -
  obtain a p1 where p1: "gdox_nbd_socket_write_all host
      (gdox_nbd_wire_export_response (replicate 10 0) (gdox_disc_length dops (ex_disc ex)) (ex_export_flags ex)) p = Some (a, p1)"
    "not_more p p1" using write_all_not_more by blast
  obtain b p2 where "gdox_nbd_socket_write_all host (replicate 124 0) p1 = Some (b, p2)" "not_more p1 p2" using write_all_not_more by blast
  then show ?thesis using p1 not_more_trans[OF p1(2)] quiet_not_more(5) by (auto simp: negotiate_export_name_def)
qed

lemma negotiate_turn_returns:
  "\<exists>r p'. negotiate_turn dops host ex nz p = Some (r, p') \<and> not_more p p'
    \<and> (r = None \<longrightarrow> length (pending (world p')) < length (pending (world p)))"
proof -
  obtain q p1 where p1: "read_option_request host p = Some (q, p1)" "not_more p p1"
    "q \<noteq> None \<longrightarrow> length (pending (world p1)) < length (pending (world p))" using read_option_request_not_more by blast
  show ?thesis
  proof (cases q)
    case None
    then show ?thesis using p1 by (simp add: negotiate_turn_def)
  next
    case (Some op)
    obtain option payload where op: "op = (option, payload)" by fastforce
    have less: "not_more p1 p' \<Longrightarrow> not_more p p' \<and> length (pending (world p')) < length (pending (world p))" for p'
      using p1(2,3) Some by (auto simp: not_more_def)
    obtain a p2 where p2: "send_option_reply host option GDOX_NBD_REP_ACK [] p1 = Some (a, p2)" "not_more p1 p2"
      using send_option_reply_not_more by blast
    obtain b p3 where p3: "negotiate_export_name dops host ex payload nz p1 = Some (b, p3)" "not_more p1 p3"
      using negotiate_export_name_not_more by blast
    obtain c r p4 where p4: "negotiate_info dops host ex option payload p1 = Some (c, r, p4)" "not_more p1 p4"
      using negotiate_info_not_more by blast
    obtain d p5 where p5: "send_option_reply host option GDOX_NBD_REP_ERR_UNSUP [] p1 = Some (d, p5)" "not_more p1 p5"
      using send_option_reply_not_more by blast
    have "negotiate_turn dops host ex nz p =
        (if option = GDOX_NBD_OPT_ABORT then Some (Some False, if a then gdox_nbd_socket_set_connection_aborted p2 else p2)
         else if option = GDOX_NBD_OPT_EXPORT_NAME then Some (Some b, p3)
         else if option = GDOX_NBD_OPT_INFO \<or> option = GDOX_NBD_OPT_GO
         then Some (if r then Some True else if \<not> c then Some False else None, p4)
         else Some (if \<not> d then Some False else None, p5))"
      using p1(1) Some op p2(1) p3(1) p4(1) p5(1)
      by (cases "option = GDOX_NBD_OPT_ABORT"; cases "option = GDOX_NBD_OPT_EXPORT_NAME";
          cases "option = GDOX_NBD_OPT_INFO \<or> option = GDOX_NBD_OPT_GO") (simp_all add: negotiate_turn_def)
    moreover have "not_more p1 (gdox_nbd_socket_set_connection_aborted p2)"
      using not_more_trans[OF p2(2) quiet_not_more(5)] .
    ultimately show ?thesis using less p2(2) p3(2) p4(2) p5(2) by (auto split: if_splits)
  qed
qed

lemma negotiate_returns: "\<exists>b p'. negotiate dops host ex nz p = Some (b, p') \<and> not_more p p'"
proof (induction "length (pending (world p))" arbitrary: p rule: less_induct)
  case less
  obtain r p1 where t: "negotiate_turn dops host ex nz p = Some (r, p1)" "not_more p p1"
    "r = None \<longrightarrow> length (pending (world p1)) < length (pending (world p))" using negotiate_turn_returns by blast
  show ?case
  proof (cases r)
    case None
    then obtain b p2 where n: "negotiate dops host ex nz p1 = Some (b, p2)" "not_more p1 p2" using less t(3) by blast
    then show ?thesis using t(1) None not_more_trans[OF t(2) n(2)] by (subst negotiate.simps) simp
  next
    case (Some b)
    then show ?thesis using t by (subst negotiate.simps) simp
  qed
qed

abbreviation session_left :: "('d, 'k) nbd_session \<Rightarrow> nat" where
  "session_left s \<equiv> length (pending (world (se_process s)))"

lemma record_read_not_more: "not_more (se_process s) (se_process (record_read host q v ok b a e s))"
  using quiet_not_more(1) by (auto simp: record_read_def split: prod.split)

lemma report_read_failure_not_more:
  "\<exists>ok s'. report_read_failure host q e s = Some (ok, s') \<and> not_more (se_process s) (se_process s')"
proof -
  define report where "report = take (GDOX_ERROR_MESSAGE_CAPACITY - 1)
            (''disc read failed at sector '' @ decimal (rq_offset q div GDOX_LOGICAL_SECTOR_BYTES)
             @ '' (byte offset '' @ decimal (rq_offset q) @ '', '' @ decimal (rq_length q)
             @ '' bytes): '' @ take 240 (message e))"
  let ?p = "print_error (''GDOX: '' @ report) (se_process s)"
  obtain ex p1 where r: "gdox_nbd_export_record_runtime_error host report (se_export s) ?p = (ex, p1)" by fastforce
  then have "not_more ?p p1" using quiet_not_more(1)
    by (auto simp: gdox_nbd_export_record_runtime_error_def split: prod.splits if_splits)
  then have n1: "not_more (se_process s) p1" using not_more_trans quiet_not_more(6) by blast
  obtain ok p2 where p2: "send_simple_reply host GDOX_NBD_EIO (rq_handle q) [] p1 = Some (ok, p2)" "not_more p1 p2"
    using send_simple_reply_not_more by blast
  have "report_read_failure host q e s = Some (ok, \<lparr>se_export = ex, se_process = p2\<rparr>)"
    using r p2(1) unfolding report_read_failure_def Let_def report_def[symmetric] by simp
  then show ?thesis using not_more_trans[OF n1 p2(2)] by simp
qed

lemma transmit_read_not_more:
  "\<exists>ok s'. transmit_read dops host q s = Some (ok, s') \<and> not_more (se_process s) (se_process s')"
proof -
  obtain started p1 where c: "monotonic_ms host (se_process s) = (started, p1)" by fastforce
  obtain e p2 where el: "elapsed_since host started p1 = (e, p2)" by fastforce
  have n2: "not_more (se_process s) p2" using not_more_trans[OF quiet_not_more(2)[OF c] quiet_not_more(3)[OF el]] .
  obtain r ex where r: "read_disc_request dops (rq_offset q) (rq_length q) (se_export s) = (r, ex)" by fastforce
  let ?s1 = "record_read host q False False None None e (s\<lparr>se_process := p2\<rparr>)"
  let ?s2 = "record_read host q True (\<not> isl r) (physical_stats dops (se_export s)) (physical_stats dops ex) e
      \<lparr>se_export = ex, se_process = p2\<rparr>"
  have m1: "not_more (se_process s) (se_process ?s1)"
    using not_more_trans[OF n2] record_read_not_more[of "s\<lparr>se_process := p2\<rparr>"] by simp
  have m2: "not_more (se_process s) (se_process ?s2)"
    using not_more_trans[OF n2] record_read_not_more[of "\<lparr>se_export = ex, se_process = p2\<rparr>"] by simp
  obtain ok1 q1 where q1: "send_simple_reply host GDOX_NBD_EINVAL (rq_handle q) [] (se_process ?s1) = Some (ok1, q1)"
    "not_more (se_process ?s1) q1" using send_simple_reply_not_more by blast
  show ?thesis
  proof (cases "gdox_nbd_wire_read_is_valid q (gdox_disc_length dops (ex_disc (se_export s)))")
    case False
    then have "transmit_read dops host q s = Some (ok1, ?s1\<lparr>se_process := q1\<rparr>)"
      using c el q1(1) by (simp add: transmit_read_def Let_def)
    then show ?thesis using not_more_trans[OF m1 q1(2)] by simp
  next
    case True
    show ?thesis
    proof (cases r)
      case (Inl err)
      obtain ok s' where f: "report_read_failure host q err ?s2 = Some (ok, s')" "not_more (se_process ?s2) (se_process s')"
        using report_read_failure_not_more by blast
      then have "transmit_read dops host q s = Some (ok, s')"
        using True c el r Inl by (simp add: transmit_read_def Let_def)
      then show ?thesis using not_more_trans[OF m2 f(2)] by simp
    next
      case (Inr bs)
      obtain ok q2 where q2: "send_simple_reply host 0 (rq_handle q) bs (report_slow_read q e (se_process ?s2)) = Some (ok, q2)"
        "not_more (report_slow_read q e (se_process ?s2)) q2" using send_simple_reply_not_more by blast
      then have "transmit_read dops host q s = Some (ok, ?s2\<lparr>se_process := q2\<rparr>)"
        using True c el r Inr by (simp add: transmit_read_def Let_def)
      then show ?thesis using not_more_trans[OF m2 not_more_trans[OF quiet_not_more(7) q2(2)]] by simp
    qed
  qed
qed

lemma transmit_write_not_more:
  "\<exists>ok p'. transmit_write host q e p = Some (ok, p') \<and> not_more p p'"
proof -
  obtain r p1 where p1: "gdox_nbd_socket_read_exact host (rq_length q) p = Some (r, p1)" "not_more p p1"
    using read_exact_not_more by blast
  obtain a q1 where q1: "send_simple_reply host e (rq_handle q) [] p = Some (a, q1)" "not_more p q1" using send_simple_reply_not_more by blast
  obtain b q2 where q2: "send_simple_reply host e (rq_handle q) [] p1 = Some (b, q2)" "not_more p1 q2" using send_simple_reply_not_more by blast
  show ?thesis using p1 q1 q2 not_more_trans[OF p1(2) q2(2)] quiet_not_more(5)
    by (cases "rq_length q = 0") (auto simp: transmit_write_def)
qed

text \<open>A turn of the transmission that goes on has taken a request from the stream.\<close>

lemma transmit_turn_returns:
  "\<exists>l c' b s'. transmit_turn dops host c result s = Some (l, c', b, s') \<and> (\<not> l \<longrightarrow> session_left s' < session_left s)"
proof -
  obtain r p1 where p1: "gdox_nbd_socket_read_exact host 28 (se_process s) = Some (r, p1)"
    "\<And>bs. r = Some bs \<Longrightarrow> length (pending (world p1)) < session_left s"
    using read_exact_not_more[of 28 "se_process s"] by fastforce
  show ?thesis
  proof (cases r)
    case None
    then show ?thesis using p1(1) by (auto simp: transmit_turn_def intro: exI[of _ True])
  next
    case r: (Some input)
    show ?thesis
    proof (cases "gdox_nbd_wire_parse_request input")
      case None
      then show ?thesis using p1(1) r by (auto simp: transmit_turn_def intro: exI[of _ True])
    next
      case (Some q)
      obtain ok c' p2 where a: "reserve_request_buffer host c (rq_length q) p1 = (ok, c', p2)" by (metis prod_cases3)
      obtain b p' where al: "allocate host (rq_length q) p1 = (b, p')" by fastforce
      have "p2 = p1 \<or> p2 = p' \<or> p2 = gdox_nbd_socket_set_no_memory_error p'"
        using a al by (auto simp: reserve_request_buffer_def split: if_splits)
      then have "not_more p1 p2" using quiet_not_more(4)[OF al] by (auto simp: not_more_def set_socket_error_def)
      then have less: "not_more p2 p' \<Longrightarrow> length (pending (world p')) < session_left s" for p'
        using p1(2)[OF r] by (simp add: not_more_def)
      obtain b1 s1 where s1: "transmit_read dops host q (s\<lparr>se_process := p2\<rparr>) = Some (b1, s1)" "not_more p2 (se_process s1)"
        using transmit_read_not_more[of dops q "s\<lparr>se_process := p2\<rparr>"] by auto
      obtain b2 p3 where p3: "transmit_write host q (if rq_flags q = 0 then GDOX_NBD_EPERM else GDOX_NBD_EINVAL) p2 = Some (b2, p3)"
        "not_more p2 p3" using transmit_write_not_more by blast
      obtain b3 p4 where p4: "send_simple_reply host GDOX_NBD_EINVAL (rq_handle q) [] p2 = Some (b3, p4)" "not_more p2 p4"
        using send_simple_reply_not_more by blast
      show ?thesis
      proof (cases "rq_command q = GDOX_NBD_CMD_DISC \<or> \<not> ok")
        case True
        then show ?thesis using p1(1) r Some a by (auto simp: transmit_turn_def intro: exI[of _ True])
      next
        case False
        then have "transmit_turn dops host c result s =
            (if rq_command q = GDOX_NBD_CMD_READ \<and> rq_flags q = 0 then Some (\<not> b1, c', b1, s1)
             else if rq_command q = GDOX_NBD_CMD_WRITE then Some (\<not> b2, c', b2, s\<lparr>se_process := p3\<rparr>)
             else Some (\<not> b3, c', b3, s\<lparr>se_process := p4\<rparr>))"
          using p1(1) r Some a s1(1) p3(1) p4(1)
          by (cases "rq_command q = GDOX_NBD_CMD_READ \<and> rq_flags q = 0"; cases "rq_command q = GDOX_NBD_CMD_WRITE")
            (auto simp: transmit_turn_def)
        then show ?thesis using less s1(2) p3(2) p4(2) by simp
      qed
    qed
  qed
qed

lemma transmit_loop_returns: "\<exists>b s'. transmit_loop dops host c result s = Some (b, s')"
proof (induction "session_left s" arbitrary: c result s rule: less_induct)
  case less
  obtain l c1 b s1 where t: "transmit_turn dops host c result s = Some (l, c1, b, s1)" "\<not> l \<longrightarrow> session_left s1 < session_left s"
    using transmit_turn_returns by blast
  show ?case
  proof (cases l)
    case True
    then show ?thesis using t(1) by (subst transmit_loop.simps) simp
  next
    case False
    then show ?thesis using t less[of s1 c1 b] by (subst transmit_loop.simps) simp
  qed
qed

lemma handle_returns: "\<exists>b s'. gdox_nbd_protocol_handle dops host s = Some (b, s')"
proof -
  obtain ok p1 where p1: "gdox_nbd_socket_configure_client host (se_process s) = (ok, p1)" by fastforce
  obtain ok2 p2 where p2: "gdox_nbd_socket_write_all host (gdox_nbd_wire_greeting (replicate 18 0)) p1 = Some (ok2, p2)"
    using write_all_not_more by blast
  obtain f p3 where p3: "gdox_nbd_socket_read_exact host 4 p2 = Some (f, p3)" using read_exact_not_more by blast
  show ?thesis
  proof (cases "\<not> ok \<or> \<not> ok2 \<or> f = None \<or> gdox_nbd_wire_parse_client_flags (the f) = None")
    case True
    then show ?thesis using p1 p2 p3
      by (cases ok; cases ok2; cases f) (auto simp: gdox_nbd_protocol_handle_def)
  next
    case False
    then obtain fb cf where f: "f = Some fb" "gdox_nbd_wire_parse_client_flags fb = Some cf" by auto
    obtain b p4 where p4: "negotiate dops host (se_export s) (cf AND GDOX_NBD_FLAG_C_NO_ZEROES \<noteq> 0) p3 = Some (b, p4)"
      using negotiate_returns by blast
    obtain ok5 p5 where p5: "gdox_nbd_socket_clear_timeouts host p4 = (ok5, p5)" by fastforce
    obtain b' s' where "transmit dops host (s\<lparr>se_process := p5\<rparr>) = Some (b', s')"
      using transmit_loop_returns unfolding transmit_def by blast
    then show ?thesis using False p1 p2 p3 f p4 p5 by (auto simp: gdox_nbd_protocol_handle_def)
  qed
qed

end

section \<open>Properties\<close>

text \<open>The bytes of a whole session, as the client sends and as it receives them.\<close>

definition client_stream ::
  "bool \<Rightarrow> byte list \<Rightarrow> (u32 \<times> byte list) list \<Rightarrow> chosen_export \<Rightarrow> (gdox_nbd_request \<times> byte list) list \<Rightarrow> byte list \<Rightarrow> byte list" where
  "client_stream no_zeroes name options choice calls closing =
     be_bytes 4 (if no_zeroes then 3 else 1) @ concat (map (\<lambda>(option, payload). option_bytes option payload) options)
     @ chosen_bytes name choice @ concat (map call_bytes calls) @ closing"

definition server_stream ::
  "bool \<Rightarrow> byte list \<Rightarrow> nat \<Rightarrow> (u32 \<times> byte list) list \<Rightarrow> chosen_export \<Rightarrow> (gdox_nbd_request \<times> byte list) list
     \<Rightarrow> (nat \<Rightarrow> byte) \<Rightarrow> u64 \<Rightarrow> byte list" where
  "server_stream no_zeroes name flags options choice calls f len =
     be_bytes 8 NBD_INIT_MAGIC @ be_bytes 8 NBD_OPTS_MAGIC @ be_bytes 2 3
     @ concat (map (open_reply name len flags) options) @ chosen_reply no_zeroes len flags choice
     @ concat (map (call_reply f len) calls)"

definition session_closing :: "byte list \<Rightarrow> bool" where
  "session_closing closing \<longleftrightarrow>
     closing = [] \<or> (\<exists>q. closing = request_bytes q \<and> request_fits q \<and> rq_command q = GDOX_NBD_CMD_DISC)"

text \<open>C6: The network server delivers the disc. Whatever well-formed client connects, over a connection that splits,
  delays and interrupts the bytes at will: every option it tries gets its reply, the export it names is opened with the
  length of the disc, and then each read inside the disc is answered with exactly the bytes of the disc, each read
  outside it and each write with an error and no data, in order and with nothing between, until the client hangs up.\<close>
theorem nbd_session_serves_the_disc:
  assumes "live_stream host pending sent tries live" and "ready_disc dops valid contents ready limit"
    and "GDOX_NBD_MAX_BUFFER_SIZE \<le> limit"
    and "ex_disc (se_export s) = Some d" and "valid d" and "ready d" and "dop_length dops d < two64"
    and "ex_export_flags (se_export s) < 65536" and "name = ex_export_name (se_export s)"
    and "live (world (se_process s))" and "sent (world (se_process s)) = []"
    and "pending (world (se_process s)) = client_stream no_zeroes name options choice calls closing"
    and "list_all (open_option name) options" and "chosen_ok name choice" and "list_all call_ok calls"
    and "session_closing closing"
  shows "\<exists>s'. gdox_nbd_protocol_handle dops host s = Some (True, s')
    \<and> export_kept dops valid contents ready d (se_export s')
    \<and> sent (world (se_process s')) =
        server_stream no_zeroes name (ex_export_flags (se_export s)) options choice calls (contents d) (dop_length dops d)"
proof -
  note service = nbd_service.intro[OF assms(1,2) nbd_service_axioms.intro[OF assms(3)]]
  have st: "live_stream.stream_at pending sent live (se_process s) (be_bytes 4 (if no_zeroes then 3 else 1)
        @ concat (map (\<lambda>(option, payload). option_bytes option payload) options) @ chosen_bytes name choice
        @ concat (map call_bytes calls) @ closing) []"
    using assms(10-12) by (simp add: live_stream.stream_at_def[OF assms(1)] client_stream_def)
  note handled = nbd_service.handle_live[OF service assms(4-8) assms(9) refl refl st assms(13-15)]
  show ?thesis using handled assms(16) by (simp add: session_closing_def server_stream_def)
qed

definition sample_calls :: "(gdox_nbd_request \<times> byte list) list" where
  "sample_calls =
     [(\<lparr>rq_flags = 0, rq_command = 0, rq_handle = 1, rq_offset = 2040, rq_length = 100\<rparr>, []),
      (\<lparr>rq_flags = 0, rq_command = 1, rq_handle = 2, rq_offset = 0, rq_length = 3\<rparr>, [1, 2, 3]),
      (\<lparr>rq_flags = 0, rq_command = 0, rq_handle = 3, rq_offset = 9000, rq_length = 4\<rparr>, [])]"

definition sample_client :: "byte list" where
  "sample_client = client_stream True [115] [(6, [0]), (3, [])] (GO_WITH [3]) sample_calls []"

definition sample_nbd_export :: "file_context direct_disc_context gdox_nbd_export" where
  "sample_nbd_export =
     \<lparr>ex_export_name = [115], ex_export_flags = 3, ex_disc = Some \<lparr>dd_source = Some sample_file, dd_length = 8192\<rparr>,
      ex_runtime_failed = False, ex_runtime_error = err ERROR_NONE [], ex_telemetry = no_nbd_telemetry\<rparr>"

definition sample_session :: "byte list list \<Rightarrow> nat \<Rightarrow> (file_context direct_disc_context, loopback) nbd_session" where
  "sample_session pieces memory =
     \<lparr>se_export = sample_nbd_export,
      se_process = \<lparr>world = \<lparr>lb_arriving = pieces, lb_sent = [], lb_window = 9, lb_memory = memory, lb_now = 5\<rparr>,
                    errno = SOCKET_OTHER 0, console = []\<rparr>\<rparr>"

definition sample_direct :: "file_context direct_disc_context" where
  "sample_direct = \<lparr>dd_source = Some sample_file, dd_length = 8192\<rparr>"

lemma sample_direct_simps [simp]:
  "direct_valid file_ops file_valid sample_direct" "direct_ready file_ready sample_direct"
  "direct_length sample_direct = 8192"
  by (simp_all add: sample_direct_def direct_valid_def direct_ready_def direct_length_def)

lemma sample_session_simps [simp]:
  "ex_disc (se_export (sample_session pieces memory)) = Some sample_direct"
  "ex_export_flags (se_export (sample_session pieces memory)) = 3"
  "ex_export_name (se_export (sample_session pieces memory)) = [115]"
  "lb_sent (world (se_process (sample_session pieces memory))) = []"
  "loopback_pending (world (se_process (sample_session pieces memory))) = concat pieces"
  "loopback_live (world (se_process (sample_session pieces memory))) = (GDOX_NBD_MAX_BUFFER_SIZE \<le> memory)"
  by (simp_all add: sample_session_def sample_nbd_export_def sample_direct_def loopback_pending_def loopback_live_def)

theorem nbd_session_serves_the_disc_witness:
  "\<exists>s'. gdox_nbd_protocol_handle (direct_ops (\<lambda>_. True) file_ops) loopback_host
      (sample_session [[], take 5 sample_client, [], drop 5 sample_client] 40000000) = Some (True, s')
    \<and> export_kept (direct_ops (\<lambda>_. True) file_ops) (direct_valid file_ops file_valid) (direct_contents file_contents)
        (direct_ready file_ready) sample_direct (se_export s')
    \<and> lb_sent (world (se_process s')) =
        server_stream True [115] 3 [(6, [0]), (3, [])] (GO_WITH [3]) sample_calls (direct_contents file_contents sample_direct) 8192"
proof -
  let ?s = "sample_session [[], take 5 sample_client, [], drop 5 sample_client] 40000000"
  have options: "list_all (open_option [115]) [(6, [0]), (3, [])]"
    by (simp add: open_option_def nbd_options nbd_constants gdox_nbd_wire_parse_info_name_def)
  have choice: "chosen_ok [115] (GO_WITH [3])" by (simp add: chosen_ok_def info_payload_def nbd_constants)
  have calls: "list_all call_ok sample_calls"
    by (simp add: sample_calls_def call_ok_def request_fits_def nbd_commands nbd_constants)
  have bytes: "loopback_pending (world (se_process ?s)) = client_stream True [115] [(6, [0]), (3, [])] (GO_WITH [3]) sample_calls []"
    by (simp add: sample_client_def)
  have alive: "loopback_live (world (se_process ?s))" by (simp add: nbd_constants)
  have n: "[115] = ex_export_name (se_export ?s)" by simp
  have c: "session_closing []" by (simp add: session_closing_def)
  from nbd_session_serves_the_disc[OF loopback.live_stream_axioms file_disc.ready_disc_axioms _ _ _ _ _ _ n alive _ bytes options choice calls c,
      of sample_direct]
  show ?thesis by (simp add: nbd_constants UINT32_MAX_def)
qed

text \<open>C7: Every session ends. On any connection over which the peer sends finitely many bytes and which interrupts
  finitely many calls, whatever those bytes are and whichever calls fail, the server returns from the session.\<close>
theorem nbd_session_ends:
  assumes "byte_stream host pending sent tries"
  shows "\<exists>result s'. gdox_nbd_protocol_handle dops host s = Some (result, s')"
  by (rule byte_stream.handle_returns[OF assms])

theorem nbd_session_ends_witness:
  "\<exists>result s'. gdox_nbd_protocol_handle (direct_ops (\<lambda>_. True) file_ops) loopback_host
     (sample_session [[], [255], replicate 40 7, []] 0) = Some (result, s')"
  by (rule nbd_session_ends[OF loopback.byte_stream_axioms])

text \<open>C11: When the buffer of a request cannot be allocated, the transmission is left with the result of the request
  before it: after a served request the session reports success although it ended on exhausted memory.\<close>
theorem nbd_failed_buffer_keeps_result:
  assumes "gdox_nbd_socket_read_exact host 28 (se_process s) = Some (Some input, p)"
    and "gdox_nbd_wire_parse_request input = Some q" and "rq_command q \<noteq> GDOX_NBD_CMD_DISC"
    and "capacity < rq_length q" and "rq_length q \<le> GDOX_NBD_MAX_BUFFER_SIZE"
    and "host_alloc host (world p) (rq_length q) = (False, k)"
  shows "\<exists>s'. transmit_loop dops host capacity result s = Some (result, s') \<and> errno (se_process s') = SOCKET_NO_MEMORY"
proof -
  have "reserve_request_buffer host capacity (rq_length q) p =
      (False, capacity, gdox_nbd_socket_set_no_memory_error (p\<lparr>world := k\<rparr>))"
    using assms(4-6) by (simp add: reserve_request_buffer_def allocate_def)
  then show ?thesis using assms(1-3)
    by (subst transmit_loop.simps) (simp add: transmit_turn_def set_socket_error_def)
qed

theorem nbd_failed_buffer_keeps_result_witness:
  "\<exists>s'. transmit_loop (direct_ops (\<lambda>_. True) file_ops) loopback_host 4 True
      (sample_session [request_bytes \<lparr>rq_flags = 0, rq_command = 0, rq_handle = 7, rq_offset = 0, rq_length = 8\<rparr>] 4)
      = Some (True, s') \<and> errno (se_process s') = SOCKET_NO_MEMORY"
proof -
  let ?q = "\<lparr>rq_flags = 0, rq_command = 0, rq_handle = 7, rq_offset = 0, rq_length = 8\<rparr>"
  let ?s = "sample_session [request_bytes ?q] 4"
  have ne: "request_bytes ?q \<noteq> []" using length_request_bytes[of ?q] by (metis list.size(3) zero_neq_numeral)
  define p where "p = se_process ?s\<lparr>world := (world (se_process ?s))\<lparr>lb_arriving := []\<rparr>\<rparr>"
  have r: "gdox_nbd_socket_read_exact loopback_host 28 (se_process ?s) = Some (Some (request_bytes ?q), p)"
    unfolding gdox_nbd_socket_read_exact_def
    by (subst read_loop.simps, subst read_loop.simps)
      (simp add: INT_MAX_def receive_bytes_def loopback_host_def loopback_recv_def sample_session_def ne p_def)
  have f: "request_fits ?q" by (simp add: request_fits_def)
  show ?thesis
    by (rule nbd_failed_buffer_keeps_result[OF r parse_request_bytes[OF f], where k = "world p"])
      (simp_all add: nbd_commands nbd_constants loopback_host_def p_def sample_session_def)
qed

end
