(* ===== verification/NbdServer.thy ===== *)
theory NbdServer
  imports NbdProtocol
begin

text \<open>
  The network block device server around its sessions (src/src/platform/nbd_tcp.c and nbd_token.c): starting,
  the thread that accepts one client after the other, the queries, the inspection of an idle disc, and the
  shutdown. The calls of the operating system and of the thread library are a table of functions on the host
  state; what a server holds of them is recorded in \<open>held\<close>, so that a leak is a difference there.
\<close>

section \<open>The server object\<close>

text \<open>A socket handle is a number, negative when it is invalid (\<open>GDOX_NBD_INVALID_SOCKET\<close> is \<open>-1\<close>).\<close>

record 'k server_ops =
  so_platform_start :: "'k \<Rightarrow> bool \<times> 'k"
  so_mutex_init :: "'k \<Rightarrow> bool \<times> 'k"
  so_getrandom :: "'k \<Rightarrow> nat \<Rightarrow> (socket_error + byte list) \<times> 'k"
  so_create :: "'k \<Rightarrow> int \<times> 'k"
  so_bind_loopback :: "'k \<Rightarrow> int \<Rightarrow> nat option \<times> 'k"
  so_accept :: "'k \<Rightarrow> int \<Rightarrow> (socket_error + int) \<times> 'k"
  so_shutdown :: "'k \<Rightarrow> int \<Rightarrow> 'k"
  so_close :: "'k \<Rightarrow> int \<Rightarrow> 'k"
  so_wake :: "'k \<Rightarrow> nat \<Rightarrow> 'k"
  so_thread_start :: "'k \<Rightarrow> bool \<times> 'k"
  so_thread_join :: "'k \<Rightarrow> bool \<times> 'k"
  so_stopping :: "'k \<Rightarrow> bool \<times> 'k"
  so_stop :: "'k \<Rightarrow> 'k"
  so_error_text :: "socket_error \<Rightarrow> string"

datatype server_resource = SERVER_MEMORY | SERVER_PLATFORM | SERVER_MUTEX | SERVER_LISTENER | SERVER_THREAD

record 'd gdox_nbd_server =
  sv_export :: "'d gdox_nbd_export"
  sv_listener :: int
  sv_active :: int
  sv_port :: nat
  sv_uri :: string
  sv_display_uri :: string
  sv_thread_started :: bool
  sv_platform_started :: bool

record 'k server_world =
  sw_process :: "'k process"
  held :: "server_resource set"

definition on_host :: "('k \<Rightarrow> 'a \<times> 'k) \<Rightarrow> 'k server_world \<Rightarrow> 'a \<times> 'k server_world" where
  "on_host f w = (case f (world (sw_process w)) of
     (a, k) \<Rightarrow> (a, w\<lparr>sw_process := (sw_process w)\<lparr>world := k\<rparr>\<rparr>))"

definition acquire :: "server_resource \<Rightarrow> 'k server_world \<Rightarrow> 'k server_world" where
  "acquire r w = w\<lparr>held := insert r (held w)\<rparr>"

definition release :: "server_resource \<Rightarrow> 'k server_world \<Rightarrow> 'k server_world" where
  "release r w = w\<lparr>held := held w - {r}\<rparr>"

definition gdox_nbd_socket_is_valid :: "int \<Rightarrow> bool" where
  "gdox_nbd_socket_is_valid h \<longleftrightarrow> h \<ge> 0"

section \<open>The session token\<close>

definition GDOX_NBD_TOKEN_BYTES :: nat where "GDOX_NBD_TOKEN_BYTES = 16"

partial_function (option) random_loop ::
  "'k server_ops \<Rightarrow> byte list \<Rightarrow> 'k server_world \<Rightarrow> (byte list res \<times> 'k server_world) option" where
  "random_loop sops completed w =
     (if length completed < GDOX_NBD_TOKEN_BYTES then
        (case on_host (\<lambda>k. so_getrandom sops k (GDOX_NBD_TOKEN_BYTES - length completed)) w of
           (received, w) \<Rightarrow>
             (case received of
                Inr bs \<Rightarrow>
                  if bs \<noteq> [] then random_loop sops (completed @ bs) w
                  else Some (fail ERROR_IO ''could not create private NBD token'', w)
              | Inl c \<Rightarrow>
                  if c = SOCKET_INTERRUPTED then random_loop sops completed w
                  else Some (fail ERROR_IO ''could not create private NBD token'', w)))
      else Some (Inr completed, w))"

definition token_alphabet :: "byte list" where
  "token_alphabet = ascii ''0123456789abcdef''"

definition token_text :: "byte list \<Rightarrow> byte list" where
  "token_text token =
     concat (map (\<lambda>b. [token_alphabet ! unat (drop_bit 4 b), token_alphabet ! unat (and b 15)]) token)"

definition gdox_nbd_create_token ::
  "'k server_ops \<Rightarrow> 'k server_world \<Rightarrow> (byte list res \<times> 'k server_world) option" where
  "gdox_nbd_create_token sops w =
     do {
       (r, w) \<leftarrow> random_loop sops [] w;
       Some (case r of Inl e \<Rightarrow> Inl e | Inr token \<Rightarrow> Inr (token_text token), w)
     }"

section \<open>Starting\<close>

datatype client_access = CLIENT_READ_ONLY | CLIENT_WRITE_OPEN | CLIENT_ACCESS_OUT_OF_RANGE

definition NBD_FLAG_HAS_FLAGS :: nat where "NBD_FLAG_HAS_FLAGS = 1"
definition NBD_FLAG_READ_ONLY :: nat where "NBD_FLAG_READ_ONLY = 2"

definition close_socket :: "'k server_ops \<Rightarrow> int \<Rightarrow> 'k server_world \<Rightarrow> 'k server_world" where
  "close_socket sops h w =
     (if \<not> gdox_nbd_socket_is_valid h then w
      else w\<lparr>sw_process := (sw_process w)\<lparr>world := so_close sops (world (sw_process w)) h\<rparr>\<rparr>)"

definition close_listener :: "'k server_ops \<Rightarrow> int \<Rightarrow> 'k server_world \<Rightarrow> 'k server_world" where
  "close_listener sops h w =
     (if \<not> gdox_nbd_socket_is_valid h then close_socket sops h w
      else release SERVER_LISTENER (close_socket sops h w))"

definition release_failed_start :: "'k server_ops \<Rightarrow> 'd gdox_nbd_server \<Rightarrow> 'k server_world \<Rightarrow> 'k server_world" where
  "release_failed_start sops sv w =
     (let w = close_listener sops (sv_listener sv) w;
          w = release SERVER_MUTEX w;
          w = (if sv_platform_started sv then release SERVER_PLATFORM w else w)
      in release SERVER_MEMORY w)"

definition new_server :: "client_access \<Rightarrow> 'd gdox_nbd_server" where
  "new_server access =
     \<lparr>sv_export = \<lparr>ex_export_name = [],
        ex_export_flags = or NBD_FLAG_HAS_FLAGS (if access = CLIENT_READ_ONLY then NBD_FLAG_READ_ONLY else 0),
        ex_disc = None, ex_runtime_failed = False, ex_runtime_error = err ERROR_NONE [], ex_telemetry = no_nbd_telemetry\<rparr>,
      sv_listener = -1, sv_active = -1, sv_port = 0, sv_uri = [], sv_display_uri = [],
      sv_thread_started = False, sv_platform_started = False\<rparr>"

definition name_string :: "byte list \<Rightarrow> string" where
  "name_string name = map (\<lambda>b. char_of (unat b)) name"

text \<open>
  The stages of \<open>gdox_nbd_start\<close> after the checks, each entered with what the one before acquired. The
  outputs: the result, the disc handle the caller keeps, the new server. \<open>mem\<close> is the answer of \<open>calloc\<close>.
\<close>

definition start_thread ::
  "'k server_ops \<Rightarrow> 'd random_disc \<Rightarrow> 'd gdox_nbd_server \<Rightarrow> 'k server_world
     \<Rightarrow> unit res \<times> 'd random_disc \<times> 'd gdox_nbd_server option \<times> 'k server_world" where
  "start_thread sops disc sv w =
     (let name = name_string (ex_export_name (sv_export sv));
          sv = sv\<lparr>sv_uri := take 95 (''nbd://127.0.0.1:'' @ decimal (sv_port sv) @ ''/'' @ name),
                  sv_display_uri := take 95 (''nbd://127.0.0.1:'' @ decimal (sv_port sv) @ ''/<private-session>''),
                  sv_export := (sv_export sv)\<lparr>ex_disc := disc\<rparr>\<rparr>
      in case on_host (so_thread_start sops) w of
           (ok, w) \<Rightarrow>
             if \<not> ok then (fail ERROR_INTERNAL ''could not start private NBD thread'', disc, None, release_failed_start sops sv w)
             else (Inr (), None, Some (sv\<lparr>sv_thread_started := True\<rparr>), acquire SERVER_THREAD w))"

definition start_listener ::
  "'k server_ops \<Rightarrow> 'd random_disc \<Rightarrow> 'd gdox_nbd_server \<Rightarrow> 'k server_world
     \<Rightarrow> unit res \<times> 'd random_disc \<times> 'd gdox_nbd_server option \<times> 'k server_world" where
  "start_listener sops disc sv w =
     (case on_host (so_create sops) w of
        (h, w) \<Rightarrow>
          let sv = sv\<lparr>sv_listener := h\<rparr>
          in if \<not> gdox_nbd_socket_is_valid h
             then (fail ERROR_IO ''could not create private NBD listener'', disc, None, release_failed_start sops sv w)
             else let w = acquire SERVER_LISTENER w
                  in case on_host (\<lambda>k. so_bind_loopback sops k h) w of
                       (None, w) \<Rightarrow>
                         (fail ERROR_IO ''could not bind private NBD listener'', disc, None, release_failed_start sops sv w)
                     | (Some port, w) \<Rightarrow> start_thread sops disc (sv\<lparr>sv_port := port\<rparr>) w)"

definition start_state ::
  "'k server_ops \<Rightarrow> 'd random_disc \<Rightarrow> 'd gdox_nbd_server \<Rightarrow> 'k server_world
     \<Rightarrow> (unit res \<times> 'd random_disc \<times> 'd gdox_nbd_server option \<times> 'k server_world) option" where
  "start_state sops disc sv w =
     (case on_host (so_mutex_init sops) w of
        (ok, w) \<Rightarrow>
          if \<not> ok
          then Some (fail ERROR_INTERNAL ''could not initialize NBD state'', disc, None,
                     release SERVER_MEMORY (release SERVER_PLATFORM w))
          else do {
            (token, w) \<leftarrow> gdox_nbd_create_token sops (acquire SERVER_MUTEX w);
            case token of
              Inl e \<Rightarrow> Some (Inl e, disc, None, release_failed_start sops sv w)
            | Inr name \<Rightarrow>
                Some (start_listener sops disc (sv\<lparr>sv_export := (sv_export sv)\<lparr>ex_export_name := name\<rparr>\<rparr>) w)
          })"

definition gdox_nbd_start ::
  "bool \<Rightarrow> 'k server_ops \<Rightarrow> 'd random_disc \<Rightarrow> client_access \<Rightarrow> 'k server_world
     \<Rightarrow> (unit res \<times> 'd random_disc \<times> 'd gdox_nbd_server option \<times> 'k server_world) option" where
  "gdox_nbd_start mem sops disc access w =
     (if \<not> gdox_disc_is_valid disc
      then Some (fail ERROR_INVALID_ARGUMENT ''disc and export output are required'', disc, None, w)
      else if access \<noteq> CLIENT_READ_ONLY \<and> access \<noteq> CLIENT_WRITE_OPEN
      then Some (fail ERROR_INVALID_ARGUMENT ''NBD client access mode is invalid'', disc, None, w)
      else if \<not> mem then Some (fail ERROR_INTERNAL ''could not allocate NBD export'', disc, None, w)
      else let w = acquire SERVER_MEMORY w; sv = new_server access
           in case on_host (so_platform_start sops) w of
                (ok, w) \<Rightarrow>
                  if \<not> ok
                  then Some (fail ERROR_IO ''could not initialize Windows sockets'', disc, None, release SERVER_MEMORY w)
                  else start_state sops disc (sv\<lparr>sv_platform_started := True\<rparr>) (acquire SERVER_PLATFORM w))"

section \<open>Serving clients\<close>

record ('d, 'k) nbd_thread =
  th_server :: "'d gdox_nbd_server"
  th_process :: "'k process"

definition stopping :: "'k server_ops \<Rightarrow> 'k process \<Rightarrow> bool \<times> 'k process" where
  "stopping sops p = (case so_stopping sops (world p) of (b, k) \<Rightarrow> (b, p\<lparr>world := k\<rparr>))"

definition set_active_client ::
  "'k host_ops \<Rightarrow> 'k server_ops \<Rightarrow> int \<Rightarrow> ('d, 'k) nbd_thread \<Rightarrow> bool \<times> ('d, 'k) nbd_thread" where
  "set_active_client host sops client t =
     (case lock_state host (th_process t) of
        (locked, p) \<Rightarrow>
          if \<not> locked then (False, t\<lparr>th_process := p\<rparr>)
          else (case (if gdox_nbd_socket_is_valid client then stopping sops p else (False, p)) of
                  (stop, p) \<Rightarrow>
                    if stop then (False, t\<lparr>th_process := p\<rparr>)
                    else (True, \<lparr>th_server = (th_server t)\<lparr>sv_active := client\<rparr>, th_process = p\<rparr>)))"

definition session_error_is_expected :: "socket_error \<Rightarrow> bool" where
  "session_error_is_expected c \<longleftrightarrow>
     c = SOCKET_CONNECTION_RESET \<or> c = SOCKET_PROTOCOL \<or> c = SOCKET_PERMISSION \<or> c = SOCKET_CONNECTION_ABORTED"

definition record_failure :: "'k host_ops \<Rightarrow> string \<Rightarrow> ('d, 'k) nbd_thread \<Rightarrow> ('d, 'k) nbd_thread" where
  "record_failure host report t =
     (case gdox_nbd_export_record_runtime_error host (take (GDOX_ERROR_MESSAGE_CAPACITY - 1) report)
             (sv_export (th_server t)) (th_process t) of
        (ex, p) \<Rightarrow> \<lparr>th_server = (th_server t)\<lparr>sv_export := ex\<rparr>, th_process = p\<rparr>)"

definition close_client :: "'k server_ops \<Rightarrow> int \<Rightarrow> ('d, 'k) nbd_thread \<Rightarrow> ('d, 'k) nbd_thread" where
  "close_client sops client t =
     t\<lparr>th_process := (th_process t)\<lparr>world := so_close sops (world (th_process t)) client\<rparr>\<rparr>"

definition serve_client ::
  "'d disc_ops \<Rightarrow> 'k host_ops \<Rightarrow> 'k server_ops \<Rightarrow> int \<Rightarrow> ('d, 'k) nbd_thread \<Rightarrow> ('d, 'k) nbd_thread option" where
  "serve_client dops host sops client t =
     (case set_active_client host sops client t of
        (active, t) \<Rightarrow>
          if \<not> active then Some (close_client sops client t)
          else do {
            (handled, s) \<leftarrow> gdox_nbd_protocol_handle dops host
              \<lparr>se_export = sv_export (th_server t), se_process = th_process t\<rparr>;
            let t = \<lparr>th_server = (th_server t)\<lparr>sv_export := se_export s\<rparr>, th_process = se_process s\<rparr>;
                saved_error = gdox_nbd_socket_error (th_process t);
                t = snd (set_active_client host sops (-1) t);
                t = close_client sops client t
            in if handled then Some t
               else (case stopping sops (th_process t) of
                       (stop, p) \<Rightarrow>
                         let t = t\<lparr>th_process := p\<rparr>
                         in if stop \<or> session_error_is_expected saved_error then Some t
                            else Some (record_failure host
                                   (''private NBD session failed: '' @ so_error_text sops saved_error) t))
          })"

text \<open>One turn of the loop of \<open>server_thread\<close>: whether it is left.\<close>

definition server_turn ::
  "'d disc_ops \<Rightarrow> 'k host_ops \<Rightarrow> 'k server_ops \<Rightarrow> ('d, 'k) nbd_thread \<Rightarrow> (bool \<times> ('d, 'k) nbd_thread) option" where
  "server_turn dops host sops t =
     (case so_accept sops (world (th_process t)) (sv_listener (th_server t)) of
        (Inr client, k) \<Rightarrow>
          do {
            t \<leftarrow> serve_client dops host sops client (t\<lparr>th_process := (th_process t)\<lparr>world := k\<rparr>\<rparr>);
            Some (False, t)
          }
      | (Inl c, k) \<Rightarrow>
          let p = (th_process t)\<lparr>world := k, errno := c\<rparr>
          in if c = SOCKET_INTERRUPTED then Some (False, t\<lparr>th_process := p\<rparr>)
             else (case stopping sops p of
                     (stop, p) \<Rightarrow>
                       if stop then Some (False, t\<lparr>th_process := p\<rparr>)
                       else Some (True, record_failure host (''private NBD listener failed: '' @ so_error_text sops c)
                              (t\<lparr>th_process := p\<rparr>))))"

partial_function (option) server_thread ::
  "'d disc_ops \<Rightarrow> 'k host_ops \<Rightarrow> 'k server_ops \<Rightarrow> ('d, 'k) nbd_thread \<Rightarrow> ('d, 'k) nbd_thread option" where
  "server_thread dops host sops t =
     (case stopping sops (th_process t) of
        (stop, p) \<Rightarrow>
          if stop then Some (t\<lparr>th_process := p\<rparr>)
          else do {
            (leave, t) \<leftarrow> server_turn dops host sops (t\<lparr>th_process := p\<rparr>);
            if leave then Some t else server_thread dops host sops t
          })"

section \<open>Queries and inspection\<close>

definition gdox_nbd_uri :: "'d gdox_nbd_server option \<Rightarrow> string option" where
  "gdox_nbd_uri exported = map_option sv_uri exported"

definition gdox_nbd_display_uri :: "'d gdox_nbd_server option \<Rightarrow> string option" where
  "gdox_nbd_display_uri exported = map_option sv_display_uri exported"

definition gdox_nbd_length :: "'d disc_ops \<Rightarrow> 'd gdox_nbd_server option \<Rightarrow> u64" where
  "gdox_nbd_length dops exported =
     (case exported of None \<Rightarrow> 0 | Some sv \<Rightarrow> gdox_disc_length dops (ex_disc (sv_export sv)))"

definition put_disc :: "'d random_disc \<Rightarrow> 'd gdox_nbd_server \<Rightarrow> 'd gdox_nbd_server" where
  "put_disc disc sv = sv\<lparr>sv_export := (sv_export sv)\<lparr>ex_disc := disc\<rparr>\<rparr>"

definition gdox_nbd_media_present ::
  "'d disc_ops \<Rightarrow> 'd gdox_nbd_server option \<Rightarrow> bool \<times> 'd gdox_nbd_server option" where
  "gdox_nbd_media_present dops exported =
     (case exported of
        None \<Rightarrow> (False, None)
      | Some sv \<Rightarrow> (case gdox_disc_media_present dops (ex_disc (sv_export sv)) of (b, disc) \<Rightarrow> (b, Some (put_disc disc sv))))"

definition gdox_nbd_observe_media ::
  "'d disc_ops \<Rightarrow> 'd gdox_nbd_server option \<Rightarrow> bool \<times> media_observation \<times> 'd gdox_nbd_server option" where
  "gdox_nbd_observe_media dops exported =
     (case exported of
        None \<Rightarrow> (False, \<lparr>readiness = MEDIA_READINESS_UNKNOWN, generation = 0, event = MEDIA_EVENT_NONE\<rparr>, None)
      | Some sv \<Rightarrow>
          (case gdox_disc_observe_media dops (ex_disc (sv_export sv)) of (b, ob, disc) \<Rightarrow> (b, ob, Some (put_disc disc sv))))"

definition gdox_nbd_physical_read_stats ::
  "'d disc_ops \<Rightarrow> 'd gdox_nbd_server option \<Rightarrow> bool \<times> physical_read_stats" where
  "gdox_nbd_physical_read_stats dops exported =
     (case exported of None \<Rightarrow> (False, no_read_stats)
      | Some sv \<Rightarrow> gdox_disc_physical_read_stats dops (ex_disc (sv_export sv)))"

definition gdox_nbd_get_read_stats ::
  "'k host_ops \<Rightarrow> 'd gdox_nbd_server option \<Rightarrow> 'k process \<Rightarrow> bool \<times> gdox_nbd_read_stats \<times> 'k process" where
  "gdox_nbd_get_read_stats host exported p =
     (case exported of
        None \<Rightarrow> (False, no_nbd_read_stats, p)
      | Some sv \<Rightarrow>
          (case lock_state host p of
             (locked, p) \<Rightarrow>
               (case gdox_nbd_telemetry_snapshot (Some (ex_telemetry (sv_export sv))) locked of
                  (ok, stats) \<Rightarrow> (ok, stats, p))))"

text \<open>The C result with the error it stores, if any.\<close>

definition gdox_nbd_runtime_error ::
  "'k host_ops \<Rightarrow> 'd gdox_nbd_server option \<Rightarrow> 'k process \<Rightarrow> gdox_error option \<times> 'k process" where
  "gdox_nbd_runtime_error host exported p =
     (case exported of
        None \<Rightarrow> (Some (err ERROR_INVALID_ARGUMENT ''NBD export is not available''), p)
      | Some sv \<Rightarrow>
          (case lock_state host p of
             (locked, p) \<Rightarrow>
               if \<not> locked then (Some (err ERROR_INVALID_ARGUMENT ''NBD export is not available''), p)
               else (if ex_runtime_failed (sv_export sv) then Some (ex_runtime_error (sv_export sv)) else None, p)))"

definition gdox_nbd_inspect_disc ::
  "'k host_ops \<Rightarrow> ('d random_disc \<Rightarrow> 'a res \<times> 'd random_disc) option \<Rightarrow> 'd gdox_nbd_server option \<Rightarrow> 'k process
     \<Rightarrow> 'a res \<times> 'd gdox_nbd_server option \<times> 'k process" where
  "gdox_nbd_inspect_disc host inspector exported p =
     (case (exported, inspector) of
        (Some sv, Some inspect) \<Rightarrow>
          (case lock_state host p of
             (locked, p) \<Rightarrow>
               if \<not> locked then (fail ERROR_INTERNAL ''could not lock the private NBD disc'', exported, p)
               else if gdox_nbd_socket_is_valid (sv_active sv)
               then (fail ERROR_PROTOCOL ''private NBD disc is active'', exported, p)
               else if ex_runtime_failed (sv_export sv) then (Inl (ex_runtime_error (sv_export sv)), exported, p)
               else (case inspect (ex_disc (sv_export sv)) of (r, disc) \<Rightarrow> (r, Some (put_disc disc sv), p)))
      | _ \<Rightarrow> (fail ERROR_INVALID_ARGUMENT ''NBD export and disc inspector are required'', exported, p))"

section \<open>Shutdown\<close>

text \<open>
  The parts of \<open>gdox_nbd_close\<close>: joining the thread, closing the disc, freeing the rest. As for a disc, the last
  result of the whole records whether an open source was lost.
\<close>

definition stop_thread ::
  "'d disc_ops \<Rightarrow> 'k host_ops \<Rightarrow> 'k server_ops \<Rightarrow> 'd gdox_nbd_server \<Rightarrow> 'k server_world
     \<Rightarrow> unit res \<times> 'd gdox_nbd_server \<times> 'k server_world" where
  "stop_thread dops host sops sv w =
     (let p = sw_process w;
          p = p\<lparr>world := so_stop sops (world p)\<rparr>;
          sv = put_disc (gdox_disc_abort dops (ex_disc (sv_export sv))) sv
      in case lock_state host p of
           (locked, p) \<Rightarrow>
             let p = (if locked \<and> gdox_nbd_socket_is_valid (sv_active sv)
                      then p\<lparr>world := so_shutdown sops (world p) (sv_active sv)\<rparr> else p);
                 p = p\<lparr>world := so_wake sops (world p) (sv_port sv)\<rparr>
             in case on_host (so_thread_join sops) (w\<lparr>sw_process := p\<rparr>) of
                  (joined, w) \<Rightarrow>
                    if \<not> joined
                    then (fail ERROR_INTERNAL ''could not join the private NBD server thread'', sv, w)
                    else (Inr (), sv\<lparr>sv_thread_started := False, sv_listener := -1\<rparr>,
                          close_listener sops (sv_listener sv) (release SERVER_THREAD w)))"

definition free_server :: "'d gdox_nbd_server \<Rightarrow> 'k server_world \<Rightarrow> 'k server_world" where
  "free_server sv w =
     (let w = release SERVER_MUTEX w;
          w = (if sv_platform_started sv then release SERVER_PLATFORM w else w)
      in release SERVER_MEMORY w)"

definition gdox_nbd_close ::
  "'d disc_ops \<Rightarrow> 'k host_ops \<Rightarrow> 'k server_ops \<Rightarrow> 'd gdox_nbd_server option \<Rightarrow> 'k server_world
     \<Rightarrow> unit res \<times> bool \<times> 'd gdox_nbd_server option \<times> 'k server_world" where
  "gdox_nbd_close dops host sops exported w =
     (case exported of
        None \<Rightarrow> (fail ERROR_INVALID_ARGUMENT ''NBD export is not available'', False, None, w)
      | Some sv \<Rightarrow>
          (case (if sv_thread_started sv then stop_thread dops host sops sv w else (Inr (), sv, w)) of
             (Inl e, sv, w) \<Rightarrow> (Inl e, False, Some sv, w)
           | (Inr _, sv, w) \<Rightarrow>
               if gdox_disc_is_valid (ex_disc (sv_export sv))
               then (case gdox_disc_close dops (ex_disc (sv_export sv)) of
                       (Inl e, lost, disc) \<Rightarrow> (Inl e, lost, Some (put_disc disc sv), w)
                     | (Inr _, lost, disc) \<Rightarrow> (Inr (), lost, None, free_server (put_disc disc sv) w))
               else (Inr (), False, None, free_server sv w)))"

section \<open>What a server holds\<close>

lemma held_on_host: "on_host f w = (a, w') \<Longrightarrow> held w' = held w"
  by (auto simp: on_host_def split: prod.splits)

lemma held_acquire [simp]: "held (acquire r w) = insert r (held w)"
  by (simp add: acquire_def)

lemma held_release [simp]: "held (release r w) = held w - {r}"
  by (simp add: release_def)

lemma held_close_socket [simp]: "held (close_socket sops h w) = held w"
  by (simp add: close_socket_def)

lemma held_close_listener [simp]:
  "held (close_listener sops h w) = held w - (if gdox_nbd_socket_is_valid h then {SERVER_LISTENER} else {})"
  by (simp add: close_listener_def)

lemma random_loop_step:
  assumes "\<And>c w' y. recur sops c w' = Some y \<Longrightarrow> held (snd y) = held w'"
    and "(if length completed < GDOX_NBD_TOKEN_BYTES then
        (case on_host (\<lambda>k. so_getrandom sops k (GDOX_NBD_TOKEN_BYTES - length completed)) w of
           (received, w) \<Rightarrow>
             (case received of
                Inr bs \<Rightarrow>
                  if bs \<noteq> [] then recur sops (completed @ bs) w
                  else Some (fail ERROR_IO ''could not create private NBD token'', w)
              | Inl c \<Rightarrow>
                  if c = SOCKET_INTERRUPTED then recur sops completed w
                  else Some (fail ERROR_IO ''could not create private NBD token'', w)))
      else Some (Inr completed, w)) = Some y"
  shows "held (snd y) = held w"
proof -
  obtain received w1 where r: "on_host (\<lambda>k. so_getrandom sops k (GDOX_NBD_TOKEN_BYTES - length completed)) w = (received, w1)"
    by fastforce
  show ?thesis
  proof (cases "length completed < GDOX_NBD_TOKEN_BYTES")
    case True
    then show ?thesis using assms r held_on_host[OF r] by (cases received) (auto split: if_splits)
  next
    case False
    then show ?thesis using assms(2) by auto
  qed
qed

lemma random_loop_held: "random_loop sops completed w = Some y \<Longrightarrow> held (snd y) = held w"
proof -
  assume returned: "random_loop sops completed w = Some y"
  show ?thesis
  proof (rule random_loop.raw_induct[where P = "\<lambda>sops completed w y. held (snd y) = held w", OF _ returned], goal_cases)
    case (1 recur sops completed w y)
    show ?case by (rule random_loop_step[where recur = recur and sops = sops and completed = completed, OF 1(1) 1(2)])
  qed
qed

lemma create_token_held: "gdox_nbd_create_token sops w = Some (r, w') \<Longrightarrow> held w' = held w"
proof -
  assume created: "gdox_nbd_create_token sops w = Some (r, w')"
  then obtain q w1 where "random_loop sops [] w = Some (q, w1)" by (cases "random_loop sops [] w") (auto simp: gdox_nbd_create_token_def)
  then show ?thesis using random_loop_held[of sops "[]" w "(q, w1)"] created by (simp add: gdox_nbd_create_token_def)
qed

lemma release_failed_start_held:
  "sv_platform_started sv \<Longrightarrow> held w \<subseteq> {SERVER_MEMORY, SERVER_PLATFORM, SERVER_MUTEX} \<union>
      (if gdox_nbd_socket_is_valid (sv_listener sv) then {SERVER_LISTENER} else {}) \<Longrightarrow>
   held (release_failed_start sops sv w) = {}"
  by (auto simp: release_failed_start_def Let_def split: if_splits)

definition server_account :: "'d gdox_nbd_server \<Rightarrow> 'k server_world \<Rightarrow> bool" where
  "server_account sv w \<longleftrightarrow>
     held w = {SERVER_MEMORY, SERVER_PLATFORM, SERVER_MUTEX} \<union>
       (if sv_thread_started sv then {SERVER_LISTENER, SERVER_THREAD} else {})
     \<and> sv_platform_started sv \<and> (sv_thread_started sv \<longrightarrow> gdox_nbd_socket_is_valid (sv_listener sv))"

text \<open>Starting gives everything back when it fails, and hands the disc to a server that holds all its parts otherwise.\<close>

definition start_outcome ::
  "'d random_disc \<Rightarrow> unit res \<times> 'd random_disc \<times> 'd gdox_nbd_server option \<times> 'k server_world \<Rightarrow> bool" where
  "start_outcome disc = (\<lambda>(r, disc', ex, w).
     case r of
       Inl e \<Rightarrow> disc' = disc \<and> ex = None \<and> held w = {}
     | Inr _ \<Rightarrow> disc' = None \<and>
         (case ex of None \<Rightarrow> False
          | Some sv \<Rightarrow> ex_disc (sv_export sv) = disc \<and> sv_thread_started sv \<and> server_account sv w))"

lemma start_thread_outcome:
  assumes "held w = {SERVER_MEMORY, SERVER_PLATFORM, SERVER_MUTEX, SERVER_LISTENER}" and "sv_platform_started sv"
    and "gdox_nbd_socket_is_valid (sv_listener sv)"
  shows "start_outcome disc (start_thread sops disc sv w)"
proof -
  obtain ok w1 where t: "on_host (so_thread_start sops) w = (ok, w1)" by fastforce
  show ?thesis using assms held_on_host[OF t] t
    by (cases ok) (auto simp: start_thread_def start_outcome_def Let_def server_account_def release_failed_start_held)
qed

lemma start_listener_outcome:
  assumes "held w = {SERVER_MEMORY, SERVER_PLATFORM, SERVER_MUTEX}" and "sv_platform_started sv"
  shows "start_outcome disc (start_listener sops disc sv w)"
proof -
  obtain h w1 where c: "on_host (so_create sops) w = (h, w1)" by fastforce
  obtain b w2 where b: "on_host (\<lambda>k. so_bind_loopback sops k h) (acquire SERVER_LISTENER w1) = (b, w2)" by fastforce
  have h1: "held w1 = {SERVER_MEMORY, SERVER_PLATFORM, SERVER_MUTEX}" using held_on_host[OF c] assms(1) by simp
  have h2: "held w2 = {SERVER_MEMORY, SERVER_PLATFORM, SERVER_MUTEX, SERVER_LISTENER}" using held_on_host[OF b] h1 by auto
  show ?thesis
  proof (cases "gdox_nbd_socket_is_valid h")
    case False
    then show ?thesis using c h1 assms(2) by (simp add: start_listener_def start_outcome_def release_failed_start_held)
  next
    case True
    note valid = True
    show ?thesis
    proof (cases b)
      case None
      then show ?thesis using c b h2 assms(2) valid
        by (simp add: start_listener_def start_outcome_def release_failed_start_held Let_def)
    next
      case (Some port)
      let ?sv = "sv\<lparr>sv_listener := h, sv_port := port\<rparr>"
      have "start_listener sops disc sv w = start_thread sops disc ?sv w2"
        using c b valid Some by (simp add: start_listener_def Let_def)
      then show ?thesis using start_thread_outcome[OF h2, of ?sv] assms(2) valid by simp
    qed
  qed
qed

lemma start_state_outcome:
  assumes "held w = {SERVER_MEMORY, SERVER_PLATFORM}" and "sv_platform_started sv" and "sv_listener sv = -1"
    and "start_state sops disc sv w = Some x"
  shows "start_outcome disc x"
proof -
  obtain ok w1 where m: "on_host (so_mutex_init sops) w = (ok, w1)" by fastforce
  have h1: "held w1 = {SERVER_MEMORY, SERVER_PLATFORM}" using held_on_host[OF m] assms(1) by simp
  show ?thesis
  proof (cases ok)
    case False
    then have "x = (fail ERROR_INTERNAL ''could not initialize NBD state'', disc, None, release SERVER_MEMORY (release SERVER_PLATFORM w1))"
      using assms(4) m by (simp add: start_state_def)
    then show ?thesis using h1 by (auto simp: start_outcome_def)
  next
    case True
    with assms(4) m have "gdox_nbd_create_token sops (acquire SERVER_MUTEX w1) \<noteq> None"
      by (cases "gdox_nbd_create_token sops (acquire SERVER_MUTEX w1)") (simp_all add: start_state_def)
    then obtain r w2 where t: "gdox_nbd_create_token sops (acquire SERVER_MUTEX w1) = Some (r, w2)" by auto
    have h2: "held w2 = {SERVER_MEMORY, SERVER_PLATFORM, SERVER_MUTEX}" using create_token_held[OF t] h1 by auto
    show ?thesis
    proof (cases r)
      case (Inl e)
      then have "x = (Inl e, disc, None, release_failed_start sops sv w2)"
        using assms(4) m t True by (simp add: start_state_def)
      then show ?thesis using assms(2,3) h2
        by (simp add: start_outcome_def release_failed_start_held gdox_nbd_socket_is_valid_def)
    next
      case (Inr name)
      let ?sv = "sv\<lparr>sv_export := (sv_export sv)\<lparr>ex_export_name := name\<rparr>\<rparr>"
      have "x = start_listener sops disc ?sv w2" using assms(4) m t True Inr by (simp add: start_state_def)
      then show ?thesis using assms(2) start_listener_outcome[OF h2, of ?sv] by simp
    qed
  qed
qed

lemma start_outcome_holds:
  assumes "gdox_nbd_start mem sops disc access w = Some x" and "held w = {}"
  shows "start_outcome disc x"
proof -
  obtain ok w1 where p: "on_host (so_platform_start sops) (acquire SERVER_MEMORY w) = (ok, w1)" by fastforce
  have h1: "held w1 = {SERVER_MEMORY}" using held_on_host[OF p] assms(2) by simp
  have h2: "held (acquire SERVER_PLATFORM w1) = {SERVER_MEMORY, SERVER_PLATFORM}" using h1 by auto
  show ?thesis
  proof (cases "gdox_disc_is_valid disc \<and> (access = CLIENT_READ_ONLY \<or> access = CLIENT_WRITE_OPEN) \<and> mem \<and> ok")
    case False
    then show ?thesis using assms p h1 by (auto simp: gdox_nbd_start_def start_outcome_def Let_def split: if_splits)
  next
    case True
    then have "start_state sops disc ((new_server access)\<lparr>sv_platform_started := True\<rparr>) (acquire SERVER_PLATFORM w1) = Some x"
      using assms(1) p by (auto simp: gdox_nbd_start_def Let_def)
    from start_state_outcome[OF h2 _ _ this] show ?thesis by (simp add: new_server_def)
  qed
qed

text \<open>Closing keeps the account: a server that could not be closed is kept, with what it still holds.\<close>

lemma stop_thread_account:
  assumes "server_account sv w" and "sv_thread_started sv" and "stop_thread dops host sops sv w = (r, sv', w')"
  shows "server_account sv' w' \<and> (r = Inr () \<longrightarrow> \<not> sv_thread_started sv') \<and> (ex_disc (sv_export sv) \<noteq> None \<longrightarrow> ex_disc (sv_export sv') \<noteq> None)"
proof -
  obtain locked p1 where l: "lock_state host ((sw_process w)\<lparr>world := so_stop sops (world (sw_process w))\<rparr>) = (locked, p1)" by fastforce
  define p2 where "p2 = (if locked \<and> gdox_nbd_socket_is_valid (sv_active sv)
     then p1\<lparr>world := so_shutdown sops (world p1) (sv_active sv)\<rparr> else p1)"
  define p3 where "p3 = p2\<lparr>world := so_wake sops (world p2) (sv_port sv)\<rparr>"
  obtain joined w1 where j: "on_host (so_thread_join sops) (w\<lparr>sw_process := p3\<rparr>) = (joined, w1)" by fastforce
  let ?sv = "put_disc (gdox_disc_abort dops (ex_disc (sv_export sv))) sv"
  have h: "held w1 = held w" using held_on_host[OF j] by simp
  have "stop_thread dops host sops sv w =
      (if \<not> joined then (fail ERROR_INTERNAL ''could not join the private NBD server thread'', ?sv, w1)
       else (Inr (), ?sv\<lparr>sv_thread_started := False, sv_listener := -1\<rparr>, close_listener sops (sv_listener ?sv) (release SERVER_THREAD w1)))"
    using l j by (cases "locked \<and> gdox_nbd_socket_is_valid (sv_active sv)")
      (auto simp: stop_thread_def Let_def p2_def p3_def put_disc_def)
  moreover have "ex_disc (sv_export sv) \<noteq> None \<longrightarrow> gdox_disc_abort dops (ex_disc (sv_export sv)) \<noteq> None"
    by (auto simp: gdox_disc_abort_def split: option.splits)
  ultimately show ?thesis using assms h
    by (cases joined) (auto simp: server_account_def put_disc_def)
qed

lemma free_server_held:
  "server_account sv w \<Longrightarrow> \<not> sv_thread_started sv \<Longrightarrow> held (free_server sv w) = {}"
  by (auto simp: free_server_def server_account_def Let_def)

lemma put_disc_simps [simp]:
  "server_account (put_disc d sv) w = server_account sv w" "sv_thread_started (put_disc d sv) = sv_thread_started sv"
  by (simp_all add: put_disc_def server_account_def)

lemma close_account:
  assumes "closable_disc dops prepared" and "server_account sv w"
    and "gdox_nbd_close dops host sops (Some sv) w = (r, lost, ex, w')"
  shows "\<not> lost \<and> (case r of Inr _ \<Rightarrow> ex = None \<and> held w' = {} | Inl e \<Rightarrow> \<exists>sv'. ex = Some sv' \<and> server_account sv' w')"
proof -
  obtain q sv1 w1 where st: "(if sv_thread_started sv then stop_thread dops host sops sv w else (Inr (), sv, w)) = (q, sv1, w1)"
    by (metis prod_cases3)
  have a: "server_account sv1 w1" "q = Inr () \<longrightarrow> \<not> sv_thread_started sv1"
    using st assms(2) stop_thread_account[OF assms(2), of dops host sops q sv1 w1] by (auto split: if_splits)
  show ?thesis
  proof (cases q)
    case (Inl e)
    then show ?thesis using assms(3) st a by (auto simp: gdox_nbd_close_def)
  next
    case (Inr u)
    obtain c l disc where d: "gdox_disc_close dops (ex_disc (sv_export sv1)) = (c, l, disc)" by (metis prod_cases3)
    have "\<not> l" using closable_disc.disc_close_keeps[OF assms(1) d] .
    then show ?thesis using assms(3) st a Inr d free_server_held[of sv1 w1] free_server_held[of "put_disc disc sv1" w1]
      by (auto simp: gdox_nbd_close_def split: if_splits sum.splits)
  qed
qed

section \<open>Properties\<close>

text \<open>C9: A server accounts for what it takes. Starting it either fails with the caller's disc untouched and nothing
  held, or moves the disc into a server that holds its memory, socket layer, mutex, listener and thread; closing a started
  server either frees all of them and closes the disc, or fails and keeps a server that holds exactly what is left; the
  source beneath the disc is never lost.\<close>
theorem nbd_server_keeps_account:
  assumes "closable_disc dops prepared" and "held w = {}"
    and "gdox_nbd_start mem sops disc access w = Some (r, disc', started, w1)"
    and "gdox_nbd_close dops host sops started w1 = (c, lost, left, w2)"
  shows "start_outcome disc (r, disc', started, w1) \<and> \<not> lost
    \<and> (case (r, c) of
         (Inl e, _) \<Rightarrow> left = None \<and> held w2 = {}
       | (Inr u, Inr v) \<Rightarrow> left = None \<and> held w2 = {}
       | (Inr u, Inl e) \<Rightarrow> \<exists>sv. left = Some sv \<and> server_account sv w2)"
proof -
  note s = start_outcome_holds[OF assms(3,2)]
  show ?thesis
  proof (cases r)
    case (Inl e)
    then show ?thesis using s assms(4) by (simp add: start_outcome_def gdox_nbd_close_def)
  next
    case (Inr u)
    then obtain sv where sv: "started = Some sv" "server_account sv w1"
      using s by (auto simp: start_outcome_def split: option.splits)
    from close_account[OF assms(1) sv(2), of host sops c lost left w2] show ?thesis
      using s assms(4) sv(1) Inr by (cases c) auto
  qed
qed

definition sample_server_ops :: "loopback server_ops" where
  "sample_server_ops =
     \<lparr>so_platform_start = (\<lambda>k. (True, k)), so_mutex_init = (\<lambda>k. (True, k)),
      so_getrandom = (\<lambda>k n. (Inr (replicate n 165), k)), so_create = (\<lambda>k. (7, k)),
      so_bind_loopback = (\<lambda>k h. (Some 4711, k)), so_accept = (\<lambda>k h. (Inl SOCKET_INTERRUPTED, k)),
      so_shutdown = (\<lambda>k h. k), so_close = (\<lambda>k h. k), so_wake = (\<lambda>k port. k), so_thread_start = (\<lambda>k. (True, k)),
      so_thread_join = (\<lambda>k. (True, k)), so_stopping = (\<lambda>k. (True, k)), so_stop = (\<lambda>k. k), so_error_text = (\<lambda>c. [])\<rparr>"

definition sample_world :: "loopback server_world" where
  "sample_world = \<lparr>sw_process = se_process (sample_session [] 0), held = {}\<rparr>"

lemma sample_token:
  "gdox_nbd_create_token sample_server_ops w = Some (Inr (concat (replicate 16 (ascii ''a5''))), w)"
  unfolding gdox_nbd_create_token_def
  by (subst random_loop.simps, subst random_loop.simps)
    (simp add: GDOX_NBD_TOKEN_BYTES_def on_host_def sample_server_ops_def token_text_def token_alphabet_def ascii_def)

lemma sample_host_answers:
  "on_host (so_platform_start sample_server_ops) w = (True, w)" "on_host (so_mutex_init sample_server_ops) w = (True, w)"
  "on_host (so_create sample_server_ops) w = (7, w)" "on_host (\<lambda>k. so_bind_loopback sample_server_ops k h) w = (Some 4711, w)"
  "on_host (so_thread_start sample_server_ops) w = (True, w)"
  by (simp_all add: on_host_def sample_server_ops_def)

lemma sample_started:
  "\<exists>sv w1. gdox_nbd_start True sample_server_ops (Some sample_direct) CLIENT_READ_ONLY sample_world = Some (Inr (), None, Some sv, w1)"
  by (simp add: gdox_nbd_start_def start_state_def sample_token sample_host_answers start_listener_def start_thread_def
      gdox_disc_is_valid_def gdox_nbd_socket_is_valid_def Let_def)

theorem nbd_server_keeps_account_witness:
  "\<exists>sv w1 c left w2. gdox_nbd_start True sample_server_ops (Some sample_direct) CLIENT_READ_ONLY sample_world = Some (Inr (), None, Some sv, w1)
    \<and> gdox_nbd_close (direct_ops (\<lambda>_. True) file_ops) loopback_host sample_server_ops (Some sv) w1 = (c, False, left, w2)
    \<and> start_outcome (Some sample_direct) (Inr (), None, Some sv, w1)
    \<and> (case c of Inr v \<Rightarrow> left = None \<and> held w2 = {} | Inl e \<Rightarrow> \<exists>sv. left = Some sv \<and> server_account sv w2)"
proof -
  obtain sv w1 where st: "gdox_nbd_start True sample_server_ops (Some sample_direct) CLIENT_READ_ONLY sample_world = Some (Inr (), None, Some sv, w1)"
    using sample_started by blast
  obtain c lost left w2 where cl: "gdox_nbd_close (direct_ops (\<lambda>_. True) file_ops) loopback_host sample_server_ops (Some sv) w1 = (c, lost, left, w2)"
    by (metis prod_cases4)
  have "held sample_world = {}" by (simp add: sample_world_def)
  from nbd_server_keeps_account[OF file_disc_closable.closable_disc_axioms this st cl] show ?thesis
    using st cl by (cases c) auto
qed

end
