(* ===== verification/CompactSource.thy ===== *)
theory CompactSource
  imports Adapter FileSource
begin

text \<open>
  The compact XISO source of src/src/core/compact.c, its reading half: an image assembled from
  segments that lie one behind the other, each of which is a table held in memory, an extent of
  the wrapped partition (zero beyond its content) or zeros. A read bisects for the segment of each
  sector and copies chunk by chunk. The specification is \<open>compact_view\<close>, the bytes the segments
  lay out; over a layout without gaps the source keeps the contracts of a sector source.
  The building half is CompactBuild.
\<close>

datatype compact_segment_kind = COMPACT_SEGMENT_MEMORY | COMPACT_SEGMENT_FILE | COMPACT_SEGMENT_ZERO

record compact_segment =
  cs_output_sector :: u64
  cs_sectors :: u64
  cs_source_sector :: u64
  cs_content_bytes :: u64
  cs_memory :: "byte list"
  cs_kind :: compact_segment_kind

record 's compact_context =
  cc_inner :: "'s sector_source"
  cc_segments :: "compact_segment list"
  cc_sectors :: u64

abbreviation put_compact :: "'s sector_source \<Rightarrow> 's compact_context \<Rightarrow> 's compact_context" where
  "put_compact h c \<equiv> c\<lparr>cc_inner := h\<rparr>"

definition compact_sector_count :: "'s compact_context \<Rightarrow> u64" where
  "compact_sector_count c = cc_sectors c"

definition find_segment :: "compact_segment list \<Rightarrow> u64 \<Rightarrow> nat" where
  "find_segment segments sector =
     lower_bound (\<lambda>i. u64_add (cs_output_sector (segments ! i)) (cs_sectors (segments ! i)) \<le> sector)
       0 (length segments)"

text \<open>The copy of one chunk: \<open>blocks\<close> sectors of a segment from its sector \<open>inside\<close> on.\<close>

definition compact_chunk ::
  "'s source_ops \<Rightarrow> 's compact_context \<Rightarrow> compact_segment \<Rightarrow> u64 \<Rightarrow> u32 \<Rightarrow> byte list res \<times> 's compact_context" where
  "compact_chunk ops c segment inside blocks =
     (let chunk_bytes = blocks * GDOX_LOGICAL_SECTOR_BYTES
      in case cs_kind segment of
           COMPACT_SEGMENT_MEMORY \<Rightarrow>
             (Inr (take chunk_bytes (drop (inside * GDOX_LOGICAL_SECTOR_BYTES) (cs_memory segment))), c)
         | COMPACT_SEGMENT_ZERO \<Rightarrow> (Inr (replicate chunk_bytes 0), c)
         | COMPACT_SEGMENT_FILE \<Rightarrow>
             (let content_offset = u64_mul inside GDOX_LOGICAL_SECTOR_BYTES;
                  valid_bytes = (if cs_content_bytes segment > content_offset
                                 then cs_content_bytes segment - content_offset else 0)
              in case gdox_source_read ops (cc_inner c) (u64_add (cs_source_sector segment) inside) blocks chunk_bytes of
                   (Inl e, h) \<Rightarrow> (Inl e, put_compact h c)
                 | (Inr bs, h) \<Rightarrow>
                     (Inr (if valid_bytes < chunk_bytes
                           then take valid_bytes bs @ replicate (chunk_bytes - valid_bytes) 0
                           else bs),
                      put_compact h c)))"

text \<open>
  The bisection stops at a segment that ends behind the sector, so the unsigned differences \<open>within\<close>
  and \<open>available\<close> cannot wrap and every chunk has a sector at least (\<open>compact_progress\<close>): the loop ends.
\<close>

lemma find_segment_le: "find_segment segments sector \<le> length segments"
  unfolding find_segment_def lower_bound_bsearch using bsearch_bounds[of 0 "length segments"] by simp

lemma compact_progress:
  assumes "find_segment segments sector < length segments"
  shows "sector < cs_output_sector (segments ! find_segment segments sector)
    + cs_sectors (segments ! find_segment segments sector)"
proof -
  let ?g = "segments ! find_segment segments sector"
  have "\<not> u64_add (cs_output_sector ?g) (cs_sectors ?g) \<le> sector"
    using assms bsearch_stops[of "\<lambda>i. u64_add (cs_output_sector (segments ! i)) (cs_sectors (segments ! i)) \<le> sector"
        0 "length segments"]
    unfolding find_segment_def lower_bound_bsearch by simp
  moreover have "u64_add (cs_output_sector ?g) (cs_sectors ?g) \<le> cs_output_sector ?g + cs_sectors ?g"
    by (simp add: u64_add_def)
  ultimately show ?thesis by simp
qed

function compact_copy ::
  "'s source_ops \<Rightarrow> 's compact_context \<Rightarrow> u64 \<Rightarrow> u32 \<Rightarrow> byte list \<Rightarrow> byte list res \<times> 's compact_context" where
  "compact_copy ops c current remaining output_done =
     (if remaining \<noteq> 0
      then (let index = find_segment (cc_segments c) current
            in if index \<ge> length (cc_segments c)
               then (fail ERROR_INTERNAL ''compact XISO read reached a layout gap'', c)
               else (let segment = cc_segments c ! index
                     in if current < cs_output_sector segment
                        then (fail ERROR_INTERNAL ''compact XISO read found a layout gap'', c)
                        else (let inside = current - cs_output_sector segment;
                                  available = cs_sectors segment - inside;
                                  chunk = (if available < remaining then available else remaining)
                              in case compact_chunk ops c segment inside chunk of
                                   (Inl e, c') \<Rightarrow> (Inl e, c')
                                 | (Inr bs, c') \<Rightarrow>
                                     compact_copy ops c' (current + chunk) (remaining - chunk) (output_done @ bs))))
      else (Inr output_done, c))"
  by pat_completeness auto
termination
proof (relation "measure (\<lambda>(ops, c, current, remaining, output_done). remaining)", goal_cases)
  case (2 ops c current remaining output_done index segment inside available chunk r c' bs)
  then show ?case
    using compact_progress[of "cc_segments c" current] by (auto split: if_splits)
qed simp

declare compact_copy.simps [simp del]

definition compact_read ::
  "'s source_ops \<Rightarrow> 's compact_context \<Rightarrow> u64 \<Rightarrow> u32 \<Rightarrow> nat \<Rightarrow> byte list res \<times> 's compact_context" where
  "compact_read ops c lba blocks output_bytes = compact_copy ops c lba blocks []"

definition compact_media_present :: "'s source_ops \<Rightarrow> 's compact_context \<Rightarrow> bool \<times> 's compact_context" where
  "compact_media_present ops = forward_media_present cc_inner put_compact ops"

definition compact_observe_media ::
  "'s source_ops \<Rightarrow> 's compact_context \<Rightarrow> media_observation \<times> 's compact_context" where
  "compact_observe_media ops = forward_observe_media cc_inner put_compact ops"

definition compact_evidence :: "'s source_ops \<Rightarrow> 's compact_context \<Rightarrow> bool \<times> disc_evidence" where
  "compact_evidence ops = forward_evidence cc_inner ops"

definition compact_physical_read_stats ::
  "'s source_ops \<Rightarrow> 's compact_context \<Rightarrow> bool \<times> physical_read_stats" where
  "compact_physical_read_stats ops = forward_physical_read_stats cc_inner ops"

definition compact_close :: "'s source_ops \<Rightarrow> 's compact_context \<Rightarrow> unit res \<times> bool" where
  "compact_close ops = forward_close cc_inner ops"

definition compact_prepare_close :: "'s source_ops \<Rightarrow> 's compact_context \<Rightarrow> unit res \<times> 's compact_context" where
  "compact_prepare_close ops = forward_prepare_close cc_inner put_compact ops"

definition compact_abort :: "'s source_ops \<Rightarrow> 's compact_context \<Rightarrow> 's compact_context" where
  "compact_abort ops = forward_abort cc_inner put_compact ops"

definition compact_ops :: "'s source_ops \<Rightarrow> 's compact_context source_ops" where
  "compact_ops ops =
     \<lparr>op_sector_count = compact_sector_count, op_read = compact_read ops,
      op_media_present = Some (compact_media_present ops), op_close = compact_close ops,
      op_evidence = Some (compact_evidence ops),
      op_physical_read_stats = Some (compact_physical_read_stats ops),
      op_abort = Some (compact_abort ops),
      op_prepare_close = Some (compact_prepare_close ops),
      op_observe_media = Some (compact_observe_media ops)\<rparr>"

lemma compact_ops_simps [simp]:
  "op_sector_count (compact_ops ops) = compact_sector_count"
  "op_read (compact_ops ops) = compact_read ops"
  "op_media_present (compact_ops ops) = Some (compact_media_present ops)"
  "op_close (compact_ops ops) = compact_close ops"
  "op_evidence (compact_ops ops) = Some (compact_evidence ops)"
  "op_physical_read_stats (compact_ops ops) = Some (compact_physical_read_stats ops)"
  "op_abort (compact_ops ops) = Some (compact_abort ops)"
  "op_prepare_close (compact_ops ops) = Some (compact_prepare_close ops)"
  "op_observe_media (compact_ops ops) = Some (compact_observe_media ops)"
  by (simp_all add: compact_ops_def)

section \<open>The view of a layout\<close>

text \<open>Segments that cover the sectors from \<open>start\<close> up to \<open>stop\<close> without gaps.\<close>

fun tiled :: "nat \<Rightarrow> compact_segment list \<Rightarrow> nat \<Rightarrow> bool" where
  "tiled start [] stop \<longleftrightarrow> start = stop"
| "tiled start (g # gs) stop \<longleftrightarrow> cs_output_sector g = start \<and> tiled (start + cs_sectors g) gs stop"

definition segment_stop :: "compact_segment \<Rightarrow> nat" where
  "segment_stop g = cs_output_sector g + cs_sectors g"

definition segment_byte :: "(nat \<Rightarrow> byte) \<Rightarrow> compact_segment \<Rightarrow> nat \<Rightarrow> byte" where
  "segment_byte f g a =
     (case cs_kind g of
        COMPACT_SEGMENT_MEMORY \<Rightarrow> bytes_at (cs_memory g) a
      | COMPACT_SEGMENT_ZERO \<Rightarrow> 0
      | COMPACT_SEGMENT_FILE \<Rightarrow>
          if a < cs_content_bytes g then f (cs_source_sector g * GDOX_LOGICAL_SECTOR_BYTES + a) else 0)"

definition compact_view :: "(nat \<Rightarrow> byte) \<Rightarrow> compact_segment list \<Rightarrow> nat \<Rightarrow> byte" where
  "compact_view f segments a =
     (case find (\<lambda>g. a div GDOX_LOGICAL_SECTOR_BYTES < segment_stop g) segments of
        None \<Rightarrow> 0
      | Some g \<Rightarrow> segment_byte f g (a - cs_output_sector g * GDOX_LOGICAL_SECTOR_BYTES))"

lemma tiled_le: "tiled start gs stop \<Longrightarrow> start \<le> stop"
  by (induction gs arbitrary: start) fastforce+

lemma tiled_bounds:
  "tiled start gs stop \<Longrightarrow> g \<in> set gs \<Longrightarrow> start \<le> cs_output_sector g \<and> segment_stop g \<le> stop"
  by (induction gs arbitrary: start) (fastforce simp: segment_stop_def dest: tiled_le)+

lemma tiled_order:
  "tiled start gs stop \<Longrightarrow> i < j \<Longrightarrow> j < length gs \<Longrightarrow> segment_stop (gs ! i) \<le> cs_output_sector (gs ! j)"
proof (induction gs arbitrary: start i j)
  case (Cons g gs)
  obtain k where j: "j = Suc k" using Cons.prems(2) by (cases j) auto
  show ?case
  proof (cases i)
    case 0
    then show ?thesis
      using Cons.prems j tiled_bounds[of "start + cs_sectors g" gs stop "gs ! k"] by (simp add: segment_stop_def)
  next
    case (Suc m)
    then show ?thesis using Cons j by auto
  qed
qed simp

lemma tiled_covers:
  "tiled start gs stop \<Longrightarrow> start \<le> x \<Longrightarrow> x < stop \<Longrightarrow>
   \<exists>i<length gs. cs_output_sector (gs ! i) \<le> x \<and> x < segment_stop (gs ! i)"
proof (induction gs arbitrary: start)
  case (Cons g gs)
  show ?case
  proof (cases "x < start + cs_sectors g")
    case True
    then show ?thesis using Cons.prems by (intro exI[of _ 0]) (auto simp: segment_stop_def)
  next
    case False
    then obtain i where "i < length gs" "cs_output_sector (gs ! i) \<le> x" "x < segment_stop (gs ! i)"
      using Cons by fastforce
    then show ?thesis by (intro exI[of _ "Suc i"]) simp
  qed
qed simp

lemma tiled_before:
  assumes "tiled start gs stop" "i < length gs" "cs_output_sector (gs ! i) \<le> x" "j < i"
  shows "segment_stop (gs ! j) \<le> x"
  using tiled_order[OF assms(1,4,2)] assms(3) by simp

text \<open>Each sector of a layout lies in one segment: the one the bisection finds.\<close>

lemma find_segment_tiled:
  assumes t: "tiled 0 gs stop" "stop < two64" and i: "i < length gs" "cs_output_sector (gs ! i) \<le> x" "x < segment_stop (gs ! i)"
  shows "find_segment gs x = i"
proof -
  let ?p = "\<lambda>i. u64_add (cs_output_sector (gs ! i)) (cs_sectors (gs ! i)) \<le> x"
  have add: "?p k \<longleftrightarrow> segment_stop (gs ! k) \<le> x" if "k < length gs" for k
    using tiled_bounds[OF t(1) nth_mem[OF that]] t(2) by (simp add: segment_stop_def)
  have mono: "segment_stop (gs ! j) \<le> segment_stop (gs ! k)" if "j \<le> k" "k < length gs" for j k
    using tiled_order[OF t(1), of j k] that by (cases "j = k") (auto simp: segment_stop_def)
  have "antitone_on 0 (0 + length gs) ?p"
    unfolding antitone_on_def
  proof (intro allI impI, elim conjE)
    fix j k assume jk: "j \<le> k" "k < 0 + length gs" "?p k"
    then have k: "k < length gs" "j < length gs" by simp_all
    have "segment_stop (gs ! k) \<le> x" by (rule iffD1[OF add[OF k(1)] jk(3)])
    then show "?p j" by (rule iffD2[OF add[OF k(2)] le_trans[OF mono[OF jk(1) k(1)]]])
  qed
  note split = bsearch_split[OF _ this]
  have eq: "bsearch ?p 0 (0 + length gs) = find_segment gs x" by (simp only: find_segment_def lower_bound_bsearch)
  have sp: "\<And>k. k < find_segment gs x \<Longrightarrow> ?p k" "\<And>k. find_segment gs x \<le> k \<Longrightarrow> k < length gs \<Longrightarrow> \<not> ?p k"
    using split unfolding eq by (simp_all only: le0 add_0 simp_thms)
  have "\<not> find_segment gs x < i"
  proof
    assume f: "find_segment gs x < i"
    then have "\<not> segment_stop (gs ! find_segment gs x) \<le> x"
      using sp(2)[of "find_segment gs x"] add[of "find_segment gs x"] i(1) by simp
    then show False using tiled_before[OF t(1) i(1,2) f] by simp
  qed
  moreover have "\<not> i < find_segment gs x"
  proof
    assume "i < find_segment gs x"
    then have "segment_stop (gs ! i) \<le> x" using sp(1) add[OF i(1)] by simp
    then show False using i(3) by simp
  qed
  ultimately show ?thesis by simp
qed

lemma compact_view_at:
  assumes t: "tiled 0 gs stop" and i: "i < length gs"
    and a: "cs_output_sector (gs ! i) \<le> a div GDOX_LOGICAL_SECTOR_BYTES" "a div GDOX_LOGICAL_SECTOR_BYTES < segment_stop (gs ! i)"
  shows "compact_view f gs a = segment_byte f (gs ! i) (a - cs_output_sector (gs ! i) * GDOX_LOGICAL_SECTOR_BYTES)"
proof -
  have "find (\<lambda>g. a div GDOX_LOGICAL_SECTOR_BYTES < segment_stop g) gs = Some (gs ! i)"
    using tiled_before[OF t i a(1)] i a(2) by (fastforce simp: find_Some_iff not_less)
  then show ?thesis by (simp add: compact_view_def)
qed

lemma compact_view_span:
  assumes t: "tiled 0 gs stop" and i: "i < length gs"
    and x: "cs_output_sector (gs ! i) \<le> x" "x + k \<le> segment_stop (gs ! i)"
  shows "span (compact_view f gs) (x * GDOX_LOGICAL_SECTOR_BYTES) (k * GDOX_LOGICAL_SECTOR_BYTES) =
    span (segment_byte f (gs ! i)) ((x - cs_output_sector (gs ! i)) * GDOX_LOGICAL_SECTOR_BYTES) (k * GDOX_LOGICAL_SECTOR_BYTES)"
proof (rule span_eqI, goal_cases)
  case (2 j)
  then have j: "j < k * GDOX_LOGICAL_SECTOR_BYTES" by simp
  let ?a = "x * GDOX_LOGICAL_SECTOR_BYTES + j"
  have "cs_output_sector (gs ! i) \<le> ?a div GDOX_LOGICAL_SECTOR_BYTES" "?a div GDOX_LOGICAL_SECTOR_BYTES < segment_stop (gs ! i)"
    using x j by (auto simp: less_mult_imp_div_less)
  from compact_view_at[OF t i this] show ?case
    using x(1) j by (simp add: diff_mult_distrib)
qed simp

section \<open>Contracts\<close>

text \<open>
  A table of a memory segment has its full length and an extent of the partition lies inside it; the
  byte length of the image is a 64-bit number.
\<close>

definition segment_ok :: "nat \<Rightarrow> compact_segment \<Rightarrow> bool" where
  "segment_ok sectors g \<longleftrightarrow>
     (case cs_kind g of
        COMPACT_SEGMENT_MEMORY \<Rightarrow> length (cs_memory g) = cs_sectors g * GDOX_LOGICAL_SECTOR_BYTES
      | COMPACT_SEGMENT_ZERO \<Rightarrow> True
      | COMPACT_SEGMENT_FILE \<Rightarrow> cs_source_sector g + cs_sectors g \<le> sectors)"

definition compact_valid :: "'s source_ops \<Rightarrow> ('s \<Rightarrow> bool) \<Rightarrow> 's compact_context \<Rightarrow> bool" where
  "compact_valid ops valid c \<longleftrightarrow>
     (case cc_inner c of None \<Rightarrow> False
      | Some s \<Rightarrow> valid s \<and> list_all (segment_ok (op_sector_count ops s)) (cc_segments c))
     \<and> tiled 0 (cc_segments c) (cc_sectors c) \<and> cc_sectors c * GDOX_LOGICAL_SECTOR_BYTES < two64"

definition compact_contents :: "('s \<Rightarrow> nat \<Rightarrow> byte) \<Rightarrow> 's compact_context \<Rightarrow> nat \<Rightarrow> byte" where
  "compact_contents contents c =
     (case cc_inner c of None \<Rightarrow> (\<lambda>_. 0) | Some s \<Rightarrow> compact_view (contents s) (cc_segments c))"

definition compact_ready :: "('s \<Rightarrow> bool) \<Rightarrow> 's compact_context \<Rightarrow> bool" where
  "compact_ready ready c \<longleftrightarrow> (case cc_inner c of None \<Rightarrow> False | Some s \<Rightarrow> ready s)"

lemma compact_valid_SomeE:
  assumes "compact_valid ops valid c"
  obtains s where "cc_inner c = Some s" "valid s" "list_all (segment_ok (op_sector_count ops s)) (cc_segments c)"
    "tiled 0 (cc_segments c) (cc_sectors c)" "cc_sectors c * GDOX_LOGICAL_SECTOR_BYTES < two64"
  using assms by (auto simp: compact_valid_def split: option.splits)

lemma compact_put_view:
  "compact_valid ops valid c \<Longrightarrow> cc_inner c = Some s \<Longrightarrow> view_kept ops valid contents s s' \<Longrightarrow>
   view_kept (compact_ops ops) (compact_valid ops valid) (compact_contents contents) c (put_compact (Some s') c)"
  by (auto simp: view_kept_def compact_valid_def compact_contents_def compact_sector_count_def)

text \<open>What a file extent delivers: its content, then zeros.\<close>

lemma segment_file_span:
  assumes "cs_kind g = COMPACT_SEGMENT_FILE"
    and "valid_bytes = cs_content_bytes g - inside * GDOX_LOGICAL_SECTOR_BYTES"
  shows "(if valid_bytes < n
      then take valid_bytes (span f ((cs_source_sector g + inside) * GDOX_LOGICAL_SECTOR_BYTES) n) @ replicate (n - valid_bytes) 0
      else span f ((cs_source_sector g + inside) * GDOX_LOGICAL_SECTOR_BYTES) n) =
    span (segment_byte f g) (inside * GDOX_LOGICAL_SECTOR_BYTES) n"
proof (rule span_eqI, goal_cases)
  case (2 i)
  then show ?case
    using assms by (auto simp: segment_byte_def nth_append take_span add.assoc)
qed simp

lemma segment_memory_span:
  assumes "cs_kind g = COMPACT_SEGMENT_MEMORY" "length (cs_memory g) = cs_sectors g * GDOX_LOGICAL_SECTOR_BYTES"
    and "inside + k \<le> cs_sectors g"
  shows "take (k * GDOX_LOGICAL_SECTOR_BYTES) (drop (inside * GDOX_LOGICAL_SECTOR_BYTES) (cs_memory g)) =
    span (segment_byte f g) (inside * GDOX_LOGICAL_SECTOR_BYTES) (k * GDOX_LOGICAL_SECTOR_BYTES)"
proof -
  have "segment_byte f g = bytes_at (cs_memory g)" using assms(1) by (simp add: segment_byte_def fun_eq_iff)
  moreover have "inside * GDOX_LOGICAL_SECTOR_BYTES + k * GDOX_LOGICAL_SECTOR_BYTES \<le> length (cs_memory g)"
    using assms(2,3) by simp
  ultimately show ?thesis by (simp only: span_bytes_at)
qed

lemma segment_zero_span:
  "cs_kind g = COMPACT_SEGMENT_ZERO \<Longrightarrow> replicate n 0 = span (segment_byte f g) a n"
  by (rule span_eqI) (simp_all add: segment_byte_def)

context sector_source
begin

lemma compact_chunk_view:
  assumes v: "compact_valid ops valid c" and i: "i < length (cc_segments c)" "g = cc_segments c ! i"
    and x: "inside + k \<le> cs_sectors g" "0 < k"
    and chunk: "compact_chunk ops c g inside k = (r, c')"
  shows "view_kept (compact_ops ops) (compact_valid ops valid) (compact_contents contents) c c'
    \<and> cc_segments c' = cc_segments c
    \<and> (\<forall>bs. r = Inr bs \<longrightarrow>
         bs = span (compact_contents contents c) ((cs_output_sector g + inside) * GDOX_LOGICAL_SECTOR_BYTES)
                (k * GDOX_LOGICAL_SECTOR_BYTES))"
proof -
  from v obtain s where s: "cc_inner c = Some s" "valid s" "list_all (segment_ok (op_sector_count ops s)) (cc_segments c)"
    "tiled 0 (cc_segments c) (cc_sectors c)" "cc_sectors c * GDOX_LOGICAL_SECTOR_BYTES < two64" by (rule compact_valid_SomeE)
  have ok: "segment_ok (op_sector_count ops s) g" using s(3) i by (simp add: list_all_length)
  have "segment_stop g \<le> cc_sectors c" using tiled_bounds[OF s(4)] i by simp
  then have stop: "cs_sectors g \<le> cc_sectors c" by (simp add: segment_stop_def)
  then have mul: "u64_mul inside GDOX_LOGICAL_SECTOR_BYTES = inside * GDOX_LOGICAL_SECTOR_BYTES"
    using x s(5) by (intro u64_mul_id) linarith
  have sp: "span (compact_contents contents c) ((cs_output_sector g + inside) * GDOX_LOGICAL_SECTOR_BYTES)
      (k * GDOX_LOGICAL_SECTOR_BYTES) =
     span (segment_byte (contents s) g) (inside * GDOX_LOGICAL_SECTOR_BYTES) (k * GDOX_LOGICAL_SECTOR_BYTES)"
    using compact_view_span[OF s(4) i(1), of "cs_output_sector g + inside" k "contents s"] i(2) x(1) s(1)
    by (simp add: compact_contents_def segment_stop_def)
  show ?thesis
  proof (cases "cs_kind g")
    case COMPACT_SEGMENT_MEMORY
    then show ?thesis
      using chunk v ok segment_memory_span[OF COMPACT_SEGMENT_MEMORY _ x(1), of "contents s"]
      unfolding sp by (auto simp: compact_chunk_def segment_ok_def view_kept_refl Let_def)
  next
    case COMPACT_SEGMENT_ZERO
    then show ?thesis
      using chunk v segment_zero_span[OF COMPACT_SEGMENT_ZERO]
      unfolding sp by (auto simp: compact_chunk_def view_kept_refl Let_def)
  next
    case COMPACT_SEGMENT_FILE
    have "cs_source_sector g + cs_sectors g < two64"
      using ok COMPACT_SEGMENT_FILE count_less[OF s(2)] by (simp add: segment_ok_def)
    then have add: "u64_add (cs_source_sector g) inside = cs_source_sector g + inside" using x by simp
    obtain q h where rd: "gdox_source_read ops (Some s) (cs_source_sector g + inside) k (k * GDOX_LOGICAL_SECTOR_BYTES) = (q, h)"
      by fastforce
    from source_read_view[OF s(2) rd] obtain s' where h: "h = Some s'" "view_kept ops valid contents s s'"
      and q: "\<forall>bs. q = Inr bs \<longrightarrow> bs = span (contents s) ((cs_source_sector g + inside) * GDOX_LOGICAL_SECTOR_BYTES)
        (k * GDOX_LOGICAL_SECTOR_BYTES)" by blast
    note kept = compact_put_view[OF v s(1) h(2)]
    note tail = segment_file_span[OF COMPACT_SEGMENT_FILE, of _ inside "k * GDOX_LOGICAL_SECTOR_BYTES" "contents s"]
    have vb: "(if cs_content_bytes g > inside * GDOX_LOGICAL_SECTOR_BYTES
        then cs_content_bytes g - inside * GDOX_LOGICAL_SECTOR_BYTES else 0) =
      cs_content_bytes g - inside * GDOX_LOGICAL_SECTOR_BYTES" by simp
    show ?thesis
    proof (cases q)
      case (Inl e)
      then show ?thesis
        using chunk rd h kept by (auto simp: compact_chunk_def COMPACT_SEGMENT_FILE s(1) add Let_def)
    next
      case (Inr bs)
      have c': "c' = put_compact (Some s') c"
        and r: "r = Inr (span (segment_byte (contents s) g) (inside * GDOX_LOGICAL_SECTOR_BYTES) (k * GDOX_LOGICAL_SECTOR_BYTES))"
        using chunk rd h q[rule_format, OF Inr] tail[OF refl]
        unfolding compact_chunk_def Let_def COMPACT_SEGMENT_FILE s(1) add mul vb compact_segment_kind.case
        by (simp_all only: Inr prod.case sum.case prod.inject simp_thms sum.inject)
      then show ?thesis unfolding sp using kept by simp
    qed
  qed
qed

text \<open>One round of the loop inside a layout.\<close>

lemma compact_copy_step:
  assumes v: "compact_valid ops valid c" and b: "0 < remaining" "current + remaining \<le> cc_sectors c"
  obtains i chunk where "i < length (cc_segments c)" "0 < chunk" "chunk \<le> remaining"
    "cs_output_sector (cc_segments c ! i) \<le> current"
    "current - cs_output_sector (cc_segments c ! i) + chunk \<le> cs_sectors (cc_segments c ! i)"
    "compact_copy ops c current remaining done =
      (case compact_chunk ops c (cc_segments c ! i) (current - cs_output_sector (cc_segments c ! i)) chunk of
         (Inl e, c') \<Rightarrow> (Inl e, c')
       | (Inr bs, c') \<Rightarrow> compact_copy ops c' (current + chunk) (remaining - chunk) (done @ bs))"
proof -
  from v obtain s where t: "tiled 0 (cc_segments c) (cc_sectors c)" and lt: "cc_sectors c < two64"
    by (rule compact_valid_SomeE) simp
  obtain i where i: "i < length (cc_segments c)" "cs_output_sector (cc_segments c ! i) \<le> current"
      "current < segment_stop (cc_segments c ! i)"
    using tiled_covers[OF t, of current] b by auto
  have find: "find_segment (cc_segments c) current = i" by (rule find_segment_tiled[OF t lt i])
  let ?g = "cc_segments c ! i"
  let ?chunk = "if cs_sectors ?g - (current - cs_output_sector ?g) < remaining
    then cs_sectors ?g - (current - cs_output_sector ?g) else remaining"
  have guards: "(remaining \<noteq> 0) = True" "(length (cc_segments c) \<le> i) = False" "(current < cs_output_sector ?g) = False"
    using b(1) i by auto
  have "compact_copy ops c current remaining done =
      (case compact_chunk ops c ?g (current - cs_output_sector ?g) ?chunk of
         (Inl e, c') \<Rightarrow> (Inl e, c')
       | (Inr bs, c') \<Rightarrow> compact_copy ops c' (current + ?chunk) (remaining - ?chunk) (done @ bs))"
    by (subst compact_copy.simps) (simp only: find Let_def guards if_True if_False)
  moreover have "0 < ?chunk" "?chunk \<le> remaining" "current - cs_output_sector ?g + ?chunk \<le> cs_sectors ?g"
    using i b by (auto simp: segment_stop_def)
  ultimately show thesis using i that by blast
qed

lemma compact_copy_view:
  assumes "compact_valid ops valid c" and "current + remaining \<le> cc_sectors c"
    and "compact_copy ops c current remaining done = (r, c')"
  shows "view_kept (compact_ops ops) (compact_valid ops valid) (compact_contents contents) c c'
    \<and> (\<forall>bs. r = Inr bs \<longrightarrow>
         bs = done @ span (compact_contents contents c) (current * GDOX_LOGICAL_SECTOR_BYTES)
                (remaining * GDOX_LOGICAL_SECTOR_BYTES))"
  using assms
proof (induction remaining arbitrary: c current "done" rule: less_induct)
  case (less remaining)
  note v = less.prems(1)
  show ?case
  proof (cases "remaining = 0")
    case True
    then show ?thesis using less.prems by (auto simp: compact_copy.simps view_kept_refl)
  next
    case False
    then have "0 < remaining" by simp
    from compact_copy_step[OF v this less.prems(2)] obtain i k where
      i: "i < length (cc_segments c)" and k: "0 < k" "k \<le> remaining"
      and g: "cs_output_sector (cc_segments c ! i) \<le> current"
        "current - cs_output_sector (cc_segments c ! i) + k \<le> cs_sectors (cc_segments c ! i)"
      and step: "compact_copy ops c current remaining done =
      (case compact_chunk ops c (cc_segments c ! i) (current - cs_output_sector (cc_segments c ! i)) k of
         (Inl e, c') \<Rightarrow> (Inl e, c')
       | (Inr bs, c') \<Rightarrow> compact_copy ops c' (current + k) (remaining - k) (done @ bs))" by blast
    obtain q c1 where ch: "compact_chunk ops c (cc_segments c ! i) (current - cs_output_sector (cc_segments c ! i)) k = (q, c1)"
      by fastforce
    note cv = compact_chunk_view[OF v i refl g(2) k(1) ch]
    have k1: "view_kept (compact_ops ops) (compact_valid ops valid) (compact_contents contents) c c1" using cv by blast
    show ?thesis
    proof (cases q)
      case (Inl e)
      then show ?thesis using less.prems(3) step ch k1 by auto
    next
      case (Inr bs)
      have bs: "bs = span (compact_contents contents c) (current * GDOX_LOGICAL_SECTOR_BYTES) (k * GDOX_LOGICAL_SECTOR_BYTES)"
        using cv Inr g(1) by simp
      have rest: "compact_copy ops c1 (current + k) (remaining - k) (done @ bs) = (r, c')"
        using less.prems(3) step ch Inr by simp
      have c1: "compact_valid ops valid c1" "compact_contents contents c1 = compact_contents contents c"
        "cc_sectors c1 = cc_sectors c"
        using k1 by (simp_all add: view_kept_def compact_sector_count_def)
      have "remaining - k < remaining" "current + k + (remaining - k) \<le> cc_sectors c1"
        using k less.prems(2) c1(3) by simp_all
      note IH = less.IH[OF this(1) c1(1) this(2) rest]
      have split: "span h (current * GDOX_LOGICAL_SECTOR_BYTES) (remaining * GDOX_LOGICAL_SECTOR_BYTES) =
          span h (current * GDOX_LOGICAL_SECTOR_BYTES) (k * GDOX_LOGICAL_SECTOR_BYTES)
          @ span h ((current + k) * GDOX_LOGICAL_SECTOR_BYTES) ((remaining - k) * GDOX_LOGICAL_SECTOR_BYTES)" for h :: "nat \<Rightarrow> byte"
      proof -
        have "remaining * GDOX_LOGICAL_SECTOR_BYTES = k * GDOX_LOGICAL_SECTOR_BYTES + (remaining - k) * GDOX_LOGICAL_SECTOR_BYTES"
          "(current + k) * GDOX_LOGICAL_SECTOR_BYTES = current * GDOX_LOGICAL_SECTOR_BYTES + k * GDOX_LOGICAL_SECTOR_BYTES"
          using k(2) by simp_all
        then show ?thesis by (simp only: span_add)
      qed
      show ?thesis
        using IH view_kept_trans[OF k1] by (auto simp: bs c1(2) split)
    qed
  qed
qed

lemma compact_sector_source:
  "sector_source (compact_ops ops) (compact_valid ops valid) (compact_contents contents)"
proof (rule adapter_sector_source[where get = cc_inner and put = put_compact])
  fix c g assume "op_abort (compact_ops ops) = Some g" "compact_valid ops valid c"
  then show "view_kept (compact_ops ops) (compact_valid ops valid) (compact_contents contents) c (g c)"
    using forward_abort_view[of cc_inner c _ put_compact] compact_put_view[of ops valid c]
    by (fastforce simp: compact_abort_def compact_valid_def split: option.splits)
next
  fix c h q c' assume "op_prepare_close (compact_ops ops) = Some h" "compact_valid ops valid c" "h c = (q, c')"
  then show "view_kept (compact_ops ops) (compact_valid ops valid) (compact_contents contents) c c'"
    using forward_prepare_view[of cc_inner c _ put_compact] compact_put_view[of ops valid c]
    by (fastforce simp: compact_prepare_close_def compact_valid_def split: option.splits)
next
  fix c assume "compact_valid ops valid c"
  then show "op_sector_count (compact_ops ops) c < two64"
    by (simp add: compact_valid_def compact_sector_count_def)
next
  fix c assume "compact_valid ops valid c"
  then show "\<exists>s. cc_inner c = Some s \<and> valid s"
    by (auto simp: compact_valid_def split: option.splits)
next
  fix c lba blocks n r c'
  assume v: "compact_valid ops valid c" and rd: "op_read (compact_ops ops) c lba blocks n = (r, c')"
    and rq: "gdox_source_validate_read (op_sector_count (compact_ops ops) c) lba blocks n = Inr ()"
  have "cc_sectors c < two64" using v by (simp add: compact_valid_def)
  then have "lba + blocks \<le> cc_sectors c" using rq validate_read_ok_iff by (auto simp: compact_sector_count_def)
  from compact_copy_view[OF v this] rd
  show "view_kept (compact_ops ops) (compact_valid ops valid) (compact_contents contents) c c'
       \<and> (\<forall>bs. r = Inr bs \<longrightarrow>
            bs = span (compact_contents contents c) (lba * GDOX_LOGICAL_SECTOR_BYTES) (blocks * GDOX_LOGICAL_SECTOR_BYTES))"
    by (fastforce simp: compact_read_def)
qed (simp_all add: compact_media_present_def compact_observe_media_def compact_put_view)

end

context reliable_source
begin

lemma compact_chunk_ready:
  assumes v: "compact_valid ops valid c" and rdy: "compact_ready ready c" and i: "i < length (cc_segments c)" "g = cc_segments c ! i"
    and x: "inside + k \<le> cs_sectors g" "0 < k" "k * GDOX_LOGICAL_SECTOR_BYTES \<le> SIZE_MAX"
  shows "\<exists>bs c'. compact_chunk ops c g inside k = (Inr bs, c') \<and> compact_ready ready c'"
proof -
  from v obtain s where s: "cc_inner c = Some s" "valid s" "list_all (segment_ok (op_sector_count ops s)) (cc_segments c)"
    by (rule compact_valid_SomeE)
  have ok: "segment_ok (op_sector_count ops s) g" using s(3) i by (simp add: list_all_length)
  have rs: "ready s" using rdy s(1) by (simp add: compact_ready_def)
  show ?thesis
  proof (cases "cs_kind g = COMPACT_SEGMENT_FILE")
    case True
    then have fit: "cs_source_sector g + inside + k \<le> op_sector_count ops s" using ok x by (simp add: segment_ok_def)
    then have "u64_add (cs_source_sector g) inside = cs_source_sector g + inside"
      using count_less[OF s(2)] by simp
    then show ?thesis
      using source_read_ready_max[OF s(2) rs x(2) fit x(3)] s(1) True
      by (auto simp: compact_chunk_def compact_ready_def Let_def)
  next
    case False
    then show ?thesis using rdy by (cases "cs_kind g") (auto simp: compact_chunk_def Let_def)
  qed
qed

lemma compact_copy_ready:
  assumes "compact_valid ops valid c" and "compact_ready ready c" and "current + remaining \<le> cc_sectors c"
    and "remaining * GDOX_LOGICAL_SECTOR_BYTES \<le> SIZE_MAX"
  shows "\<exists>bs c'. compact_copy ops c current remaining done = (Inr bs, c') \<and> compact_ready ready c'"
  using assms
proof (induction remaining arbitrary: c current "done" rule: less_induct)
  case (less remaining)
  note v = less.prems(1)
  show ?case
  proof (cases "remaining = 0")
    case True
    then show ?thesis using less.prems by (simp add: compact_copy.simps)
  next
    case False
    then have "0 < remaining" by simp
    from compact_copy_step[OF v this less.prems(3)] obtain i k where
      i: "i < length (cc_segments c)" and k: "0 < k" "k \<le> remaining"
      and g: "cs_output_sector (cc_segments c ! i) \<le> current"
        "current - cs_output_sector (cc_segments c ! i) + k \<le> cs_sectors (cc_segments c ! i)"
      and step: "compact_copy ops c current remaining done =
      (case compact_chunk ops c (cc_segments c ! i) (current - cs_output_sector (cc_segments c ! i)) k of
         (Inl e, c') \<Rightarrow> (Inl e, c')
       | (Inr bs, c') \<Rightarrow> compact_copy ops c' (current + k) (remaining - k) (done @ bs))" by blast
    have small: "k * GDOX_LOGICAL_SECTOR_BYTES \<le> SIZE_MAX" "(remaining - k) * GDOX_LOGICAL_SECTOR_BYTES \<le> SIZE_MAX"
      using k less.prems(4) by simp_all
    obtain bs c1 where ch: "compact_chunk ops c (cc_segments c ! i) (current - cs_output_sector (cc_segments c ! i)) k = (Inr bs, c1)"
        "compact_ready ready c1"
      using compact_chunk_ready[OF v less.prems(2) i refl g(2) k(1) small(1)] by blast
    have c1: "compact_valid ops valid c1" "cc_sectors c1 = cc_sectors c"
      using compact_chunk_view[OF v i refl g(2) k(1) ch(1)] by (simp_all add: view_kept_def compact_sector_count_def)
    then show ?thesis
      using less.IH[of "remaining - k" c1 "current + k" "done @ bs"] ch k step small(2) less.prems(3) by simp
  qed
qed

lemma compact_reliable_source:
  "reliable_source (compact_ops ops) (compact_valid ops valid) (compact_contents contents) (compact_ready ready)"
proof (rule reliable_source.intro[OF compact_sector_source], standard)
  fix c lba blocks n
  assume v: "compact_valid ops valid c" and rdy: "compact_ready ready c"
    and rq: "gdox_source_validate_read (op_sector_count (compact_ops ops) c) lba blocks n = Inr ()"
  have "cc_sectors c < two64" using v by (simp add: compact_valid_def)
  then have "lba + blocks \<le> cc_sectors c" "blocks * GDOX_LOGICAL_SECTOR_BYTES \<le> SIZE_MAX"
    using rq validate_read_ok_iff by (auto simp: compact_sector_count_def)
  from compact_copy_ready[OF v rdy this]
  show "\<exists>bs c'. op_read (compact_ops ops) c lba blocks n = (Inr bs, c') \<and> compact_ready ready c'"
    by (simp add: compact_read_def)
qed

end

context closable_source
begin

lemma compact_closable_source:
  "closable_source (compact_ops ops) (\<lambda>c. \<exists>s. cc_inner c = Some s \<and> prepared s)"
  by (rule adapter_closable[where put = "\<lambda>_. put_compact"])
    (auto simp: compact_prepare_close_def compact_close_def
      intro: prepare_step_forward dest: prepare_step_forward_None[rotated 2])

end

interpretation file_compact: reliable_source "compact_ops file_ops" "compact_valid file_ops file_valid"
  "compact_contents file_contents" "compact_ready file_ready"
  by (rule file_source.compact_reliable_source)

interpretation file_compact_closable: closable_source "compact_ops file_ops" "\<lambda>c. \<exists>s. cc_inner c = Some s \<and> True"
  by (rule file_closable.compact_closable_source)

end
