(* ===== verification/CompactBuild.thy ===== *)
theory CompactBuild
  imports CompactSource XdvdfsDirectory
begin

text \<open>
  The layout of the compact XISO image, the building half of src/src/core/compact.c: a header, the root
  directory, then every directory and file in the order the walk meets them, each in a region of its
  own behind the last one. The builder collects the segments of the image and the directories still
  to be processed; a directory's table is copied with the sector of each entry replaced by that of
  its region.
\<close>

definition COMPACT_MAX_DIRECTORY_BYTES :: u64 where "COMPACT_MAX_DIRECTORY_BYTES = 67108864"
definition COMPACT_MAX_METADATA_BYTES :: u64 where "COMPACT_MAX_METADATA_BYTES = 268435456"
definition COMPACT_MAX_DIRECTORIES :: nat where "COMPACT_MAX_DIRECTORIES = 16384"
definition COMPACT_MAX_ENTRIES :: nat where "COMPACT_MAX_ENTRIES = 262144"
definition COMPACT_MAX_DEPTH :: nat where "COMPACT_MAX_DEPTH = 64"
definition COMPACT_MAX_SEGMENTS :: nat where
  "COMPACT_MAX_SEGMENTS = COMPACT_MAX_ENTRIES + COMPACT_MAX_DIRECTORIES + 2"

record compact_directory =
  cd_source_sector :: u32
  cd_size :: u32
  cd_output_sector :: u32
  cd_depth :: nat

record compact_builder =
  cb_segments :: "compact_segment vec"
  cb_directories :: "compact_directory vec"
  cb_next_sector :: u64
  cb_file_count :: u64
  cb_metadata_bytes :: u64

definition required_sectors :: "u64 \<Rightarrow> u64" where
  "required_sectors bytes =
     (if bytes = 0 then 1
      else u64_sub (u64_add bytes GDOX_LOGICAL_SECTOR_BYTES) 1 div GDOX_LOGICAL_SECTOR_BYTES)"

definition add_u64 :: "u64 \<Rightarrow> u64 \<Rightarrow> u64 option" where
  "add_u64 left right = (if left > u64_sub UINT64_MAX right then None else Some (left + right))"

definition COMPACT_SEGMENT_BYTES :: nat where "COMPACT_SEGMENT_BYTES = 48"
definition COMPACT_DIRECTORY_BYTES :: nat where "COMPACT_DIRECTORY_BYTES = 24"

definition push_segment :: "(nat \<Rightarrow> bool) \<Rightarrow> compact_builder \<Rightarrow> compact_segment \<Rightarrow> compact_builder res" where
  "push_segment mem b segment =
     (case vec_push mem COMPACT_SEGMENT_BYTES 64 COMPACT_MAX_SEGMENTS
             (err ERROR_INVALID_VOLUME ''compact XISO segment limit exceeded'')
             (err ERROR_INTERNAL ''could not allocate compact XISO segments'') (cb_segments b) segment of
        Inl e \<Rightarrow> Inl e
      | Inr segments \<Rightarrow> Inr (b\<lparr>cb_segments := segments\<rparr>))"

definition directory_exists :: "compact_builder \<Rightarrow> u32 \<Rightarrow> u32 \<Rightarrow> bool" where
  "directory_exists b source_sector n \<longleftrightarrow>
     list_ex (\<lambda>d. cd_source_sector d = source_sector \<and> cd_size d = n) (vec_items (cb_directories b))"

definition push_directory :: "(nat \<Rightarrow> bool) \<Rightarrow> compact_builder \<Rightarrow> compact_directory \<Rightarrow> compact_builder res" where
  "push_directory mem b directory =
     (if length (vec_items (cb_directories b)) \<ge> COMPACT_MAX_DIRECTORIES
      then fail ERROR_INVALID_VOLUME ''compact XISO directory limit exceeded''
      else if directory_exists b (cd_source_sector directory) (cd_size directory)
      then fail ERROR_INVALID_VOLUME ''XDVDFS contains a directory cycle or duplicate extent''
      else (case vec_push mem COMPACT_DIRECTORY_BYTES 32 COMPACT_MAX_DIRECTORIES
                   (err ERROR_INVALID_VOLUME ''compact XISO directory limit exceeded'')
                   (err ERROR_INTERNAL ''could not allocate compact XISO directories'')
                   (cb_directories b) directory of
              Inl e \<Rightarrow> Inl e
            | Inr directories \<Rightarrow> Inr (b\<lparr>cb_directories := directories\<rparr>)))"

definition push_offset :: "(nat \<Rightarrow> bool) \<Rightarrow> nat vec \<Rightarrow> nat \<Rightarrow> nat vec res" where
  "push_offset mem stack offset =
     vec_push_late mem 8 32 COMPACT_MAX_ENTRIES
       (err ERROR_INVALID_VOLUME ''directory entry limit exceeded'')
       (err ERROR_INTERNAL ''could not allocate directory traversal'') stack offset"

text \<open>The sector and the sectors of the region, and the builder behind it.\<close>

definition allocate_region :: "compact_builder \<Rightarrow> u64 \<Rightarrow> (u32 \<times> u64 \<times> compact_builder) res" where
  "allocate_region b bytes =
     (let sectors = required_sectors bytes;
          full = fail ERROR_INVALID_VOLUME ''compact XISO exceeds the XDVDFS address space''
      in if cb_next_sector b > UINT32_MAX then full
         else (case add_u64 (cb_next_sector b) sectors of
                 None \<Rightarrow> full
               | Some stop \<Rightarrow>
                   if stop > UINT32_MAX + 1 then full
                   else Inr (u32_cast (cb_next_sector b), sectors, b\<lparr>cb_next_sector := stop\<rparr>)))"

definition bytes_are_empty_directory :: "byte list \<Rightarrow> nat \<Rightarrow> bool" where
  "bytes_are_empty_directory bytes n \<longleftrightarrow> \<not> n < 14 \<and> list_all (\<lambda>i. bytes ! i = 255) [0..<14]"

record compact_entry =
  ce_left :: nat
  ce_right :: nat
  ce_source_sector :: u32
  ce_size :: u32
  ce_attributes :: byte
  ce_output_sector :: u32
  ce_output_blocks :: u64

record compact_directory_reader =
  cr_builder :: compact_builder
  cr_directory :: compact_directory
  cr_data :: "byte list"
  cr_visited :: "bool list"
  cr_pending :: "nat vec"

definition compact_read_u16 :: "byte list \<Rightarrow> nat \<Rightarrow> nat" where
  "compact_read_u16 data offset = le_u16 data offset"

text \<open>
  The entry at an offset, \<open>None\<close> for one already visited. \<open>source_sectors\<close> is the size of the
  source, \<open>gdox_source_sector_count(reader->builder->source)\<close>.
\<close>

definition read_compact_entry ::
  "u64 \<Rightarrow> compact_directory_reader \<Rightarrow> nat \<Rightarrow> (compact_entry option \<times> compact_directory_reader) res" where
  "read_compact_entry source_sectors r offset =
     (let directory_size = cd_size (cr_directory r)
      in if offset mod 4 \<noteq> 0 \<or> offset > directory_size \<or> directory_size - offset < 14
         then fail ERROR_INVALID_VOLUME ''compact directory entry is truncated''
         else
           (let slot = offset div 4
            in if slot_visited (cr_visited r) slot then Inr (None, r)
               else
                 (let visited = (cr_visited r)[slot := True];
                      data = cr_data r;
                      source_sector = le_u32 data (offset + 4);
                      entry_size = le_u32 data (offset + 8);
                      name_bytes = unat (data ! (offset + 13))
                  in if name_bytes = 0 \<or> name_bytes > directory_size - offset - 14
                     then fail ERROR_INVALID_VOLUME ''compact directory name is invalid''
                     else
                       (case allocate_region (cr_builder r) entry_size of
                          Inl e \<Rightarrow> Inl e
                        | Inr (output_sector, output_blocks, b) \<Rightarrow>
                            (case add_u64 source_sector output_blocks of
                               None \<Rightarrow> fail ERROR_INVALID_VOLUME ''XDVDFS file extent exceeds the partition''
                             | Some source_end \<Rightarrow>
                                 if source_end > source_sectors
                                 then fail ERROR_INVALID_VOLUME ''XDVDFS file extent exceeds the partition''
                                 else
                                   Inr (Some \<lparr>ce_left = compact_read_u16 data offset,
                                              ce_right = compact_read_u16 data (offset + 2),
                                              ce_source_sector = source_sector, ce_size = entry_size,
                                              ce_attributes = data ! (offset + 12),
                                              ce_output_sector = output_sector, ce_output_blocks = output_blocks\<rparr>,
                                        r\<lparr>cr_builder := b, cr_visited := visited,
                                          cr_data := put_le_u32 data (offset + 4) output_sector\<rparr>))))))"

definition record_compact_entry ::
  "(nat \<Rightarrow> bool) \<Rightarrow> compact_directory_reader \<Rightarrow> compact_entry \<Rightarrow> compact_directory_reader res" where
  "record_compact_entry mem r entry =
     (if ce_attributes entry AND 16 \<noteq> 0
      then (let child = \<lparr>cd_source_sector = ce_source_sector entry, cd_size = ce_size entry,
                         cd_output_sector = ce_output_sector entry, cd_depth = cd_depth (cr_directory r) + 1\<rparr>
            in if cd_depth (cr_directory r) < COMPACT_MAX_DEPTH
               then (case push_directory mem (cr_builder r) child of
                       Inl e \<Rightarrow> Inl e
                     | Inr b \<Rightarrow> Inr (r\<lparr>cr_builder := b\<rparr>))
               else fail ERROR_INVALID_VOLUME ''XDVDFS directory nesting limit exceeded'')
      else (case push_segment mem (cr_builder r)
                   \<lparr>cs_output_sector = ce_output_sector entry, cs_sectors = ce_output_blocks entry,
                    cs_source_sector = ce_source_sector entry, cs_content_bytes = ce_size entry, cs_memory = [],
                    cs_kind = (if ce_size entry = 0 then COMPACT_SEGMENT_ZERO else COMPACT_SEGMENT_FILE)\<rparr> of
              Inl e \<Rightarrow> Inl e
            | Inr b \<Rightarrow> Inr (r\<lparr>cr_builder := b\<lparr>cb_file_count := u64_add (cb_file_count b) 1\<rparr>\<rparr>)))"

definition push_compact_entry_children ::
  "(nat \<Rightarrow> bool) \<Rightarrow> nat vec \<Rightarrow> compact_entry \<Rightarrow> nat vec res" where
  "push_compact_entry_children mem pending entry =
     (case (if ce_left entry \<noteq> 0 then push_offset mem pending (ce_left entry * 4) else Inr pending) of
        Inl e \<Rightarrow> Inl e
      | Inr pending \<Rightarrow>
          if ce_right entry = 0 then Inr pending else push_offset mem pending (ce_right entry * 4))"

text \<open>The body of the loop of \<open>traverse_compact_directory\<close>, and the loop.\<close>

definition compact_entry_step ::
  "(nat \<Rightarrow> bool) \<Rightarrow> u64 \<Rightarrow> compact_directory_reader \<Rightarrow> nat \<Rightarrow> compact_directory_reader res" where
  "compact_entry_step mem source_sectors r offset =
     (case read_compact_entry source_sectors r offset of
        Inl e \<Rightarrow> Inl e
      | Inr (None, r) \<Rightarrow> Inr r
      | Inr (Some entry, r) \<Rightarrow>
          (case record_compact_entry mem r entry of
             Inl e \<Rightarrow> Inl e
           | Inr r \<Rightarrow>
               (case push_compact_entry_children mem (cr_pending r) entry of
                  Inl e \<Rightarrow> Inl e
                | Inr pending \<Rightarrow> Inr (r\<lparr>cr_pending := pending\<rparr>))))"

text \<open>
  What a fresh entry does to the builder: its region begins at \<open>next_sector\<close>, its extent lies inside
  the source, and a child directory or a segment is added for it.
\<close>

definition entry_placed ::
  "u64 \<Rightarrow> nat \<Rightarrow> u32 \<Rightarrow> u32 \<Rightarrow> byte \<Rightarrow> compact_builder \<Rightarrow> compact_builder \<Rightarrow> bool" where
  "entry_placed source_sectors depth source_sector n attributes b b' \<longleftrightarrow>
     (let out = cb_next_sector b; blocks = required_sectors n
      in out \<le> UINT32_MAX \<and> out + blocks \<le> UINT32_MAX + 1 \<and> cb_next_sector b' = out + blocks
       \<and> source_sector + blocks \<le> source_sectors \<and> cb_metadata_bytes b' = cb_metadata_bytes b
       \<and> (if attributes AND 16 \<noteq> 0
          then depth < COMPACT_MAX_DEPTH \<and> \<not> directory_exists b source_sector n
             \<and> length (vec_items (cb_directories b')) \<le> COMPACT_MAX_DIRECTORIES
             \<and> cb_segments b' = cb_segments b \<and> cb_file_count b' = cb_file_count b
             \<and> vec_items (cb_directories b') = vec_items (cb_directories b)
                 @ [\<lparr>cd_source_sector = source_sector, cd_size = n, cd_output_sector = out, cd_depth = depth + 1\<rparr>]
          else cb_directories b' = cb_directories b \<and> cb_file_count b' = u64_add (cb_file_count b) 1
             \<and> length (vec_items (cb_segments b')) \<le> COMPACT_MAX_SEGMENTS
             \<and> vec_items (cb_segments b') = vec_items (cb_segments b)
                 @ [\<lparr>cs_output_sector = out, cs_sectors = blocks, cs_source_sector = source_sector,
                     cs_content_bytes = n, cs_memory = [],
                     cs_kind = (if n = 0 then COMPACT_SEGMENT_ZERO else COMPACT_SEGMENT_FILE)\<rparr>]))"

lemma required_sectors_bounds:
  "n < two32 \<Longrightarrow> 0 < required_sectors n \<and> required_sectors n \<le> 2097152 \<and> n \<le> required_sectors n * GDOX_LOGICAL_SECTOR_BYTES"
  by (auto simp: required_sectors_def)

lemma add_u64_Some:
  "right < two64 \<Longrightarrow> add_u64 left right = Some s \<Longrightarrow> s = left + right \<and> s \<le> UINT64_MAX"
  by (auto simp: add_u64_def UINT64_MAX_def split: if_splits)

lemma allocate_region_Inr:
  assumes "allocate_region b n = Inr (out, blocks, b')" and "n < two32"
  shows "out = cb_next_sector b" "blocks = required_sectors n" "out \<le> UINT32_MAX" "out + blocks \<le> UINT32_MAX + 1"
    "b' = b\<lparr>cb_next_sector := out + blocks\<rparr>"
proof -
  obtain stop where "cb_next_sector b \<le> UINT32_MAX" and "add_u64 (cb_next_sector b) (required_sectors n) = Some stop"
    and "stop \<le> UINT32_MAX + 1" and "out = u32_cast (cb_next_sector b)" "blocks = required_sectors n" "b' = b\<lparr>cb_next_sector := stop\<rparr>"
    using assms(1) by (auto simp: allocate_region_def Let_def split: if_splits option.splits)
  moreover from this(2) have "stop = cb_next_sector b + required_sectors n"
    using add_u64_Some required_sectors_bounds[OF assms(2)] by fastforce
  ultimately show "out = cb_next_sector b" "blocks = required_sectors n" "out \<le> UINT32_MAX" "out + blocks \<le> UINT32_MAX + 1"
    "b' = b\<lparr>cb_next_sector := out + blocks\<rparr>"
    by (auto simp: UINT32_MAX_def)
qed

lemma read_entry_cases:
  assumes "read_compact_entry source_sectors r offset = Inr (e, r')"
  obtains (seen) "e = None" "r' = r" "offset mod 4 = 0" "offset + 14 \<le> cd_size (cr_directory r)"
      "slot_visited (cr_visited r) (offset div 4)"
  | (fresh) entry where "e = Some entry" "node_fits (cr_data r) (cd_size (cr_directory r)) offset"
      "\<not> slot_visited (cr_visited r) (offset div 4)"
      "cb_next_sector (cr_builder r) + ce_output_blocks entry \<le> UINT32_MAX + 1" "cb_next_sector (cr_builder r) \<le> UINT32_MAX"
      "le_u32 (cr_data r) (offset + 4) + ce_output_blocks entry \<le> source_sectors"
      "entry = \<lparr>ce_left = le_u16 (cr_data r) offset, ce_right = le_u16 (cr_data r) (offset + 2),
         ce_source_sector = le_u32 (cr_data r) (offset + 4), ce_size = le_u32 (cr_data r) (offset + 8),
         ce_attributes = cr_data r ! (offset + 12), ce_output_sector = cb_next_sector (cr_builder r),
         ce_output_blocks = required_sectors (le_u32 (cr_data r) (offset + 8))\<rparr>"
      "r' = r\<lparr>cr_builder := (cr_builder r)\<lparr>cb_next_sector := cb_next_sector (cr_builder r) + ce_output_blocks entry\<rparr>,
         cr_visited := (cr_visited r)[offset div 4 := True],
         cr_data := put_le_u32 (cr_data r) (offset + 4) (cb_next_sector (cr_builder r))\<rparr>"
proof -
  have off: "offset mod 4 = 0" "offset + 14 \<le> cd_size (cr_directory r)"
    using assms by (auto simp: read_compact_entry_def Let_def split: if_splits)
  show thesis
  proof (cases "slot_visited (cr_visited r) (offset div 4)")
    case True
    then show thesis using assms off by (intro seen) (auto simp: read_compact_entry_def Let_def split: if_splits)
  next
    case False
    let ?n = "unat (cr_data r ! (offset + 13))" and ?size = "le_u32 (cr_data r) (offset + 8)"
    note code = trans[OF read_compact_entry_def[symmetric] assms, unfolded Let_def]
    have name: "0 < ?n" "offset + 14 + ?n \<le> cd_size (cr_directory r)"
      using code False off by (auto split: if_splits)
    obtain out blocks b stop where al: "allocate_region (cr_builder r) ?size = Inr (out, blocks, b)"
      and add: "add_u64 (le_u32 (cr_data r) (offset + 4)) blocks = Some stop" "stop \<le> source_sectors"
      and e: "e = Some \<lparr>ce_left = le_u16 (cr_data r) offset, ce_right = le_u16 (cr_data r) (offset + 2),
         ce_source_sector = le_u32 (cr_data r) (offset + 4), ce_size = ?size,
         ce_attributes = cr_data r ! (offset + 12), ce_output_sector = out, ce_output_blocks = blocks\<rparr>"
      and r': "r' = r\<lparr>cr_builder := b, cr_visited := (cr_visited r)[offset div 4 := True],
         cr_data := put_le_u32 (cr_data r) (offset + 4) out\<rparr>"
      using code False off name by (auto simp: compact_read_u16_def split: if_splits sum.splits option.splits)
    note al = allocate_region_Inr[OF al reads_less(2)]
    have "blocks < two64" using al(2) required_sectors_bounds[OF reads_less(2), of "cr_data r" "offset + 8"] by simp
    then have "stop = le_u32 (cr_data r) (offset + 4) + blocks" using add_u64_Some add(1) by blast
    then show thesis
      using False off name al add(2) e r' by (intro fresh[OF e]) (auto simp: node_fits_def)
  qed
qed

lemma push_segment_Inr:
  assumes "push_segment mem b g = Inr b'"
  obtains v where "b' = b\<lparr>cb_segments := v\<rparr>" "vec_items v = vec_items (cb_segments b) @ [g]"
    "length (vec_items v) \<le> COMPACT_MAX_SEGMENTS"
    "vec_ok COMPACT_MAX_SEGMENTS (cb_segments b) \<longrightarrow> vec_ok COMPACT_MAX_SEGMENTS v"
proof (cases "vec_push mem COMPACT_SEGMENT_BYTES 64 COMPACT_MAX_SEGMENTS
    (err ERROR_INVALID_VOLUME ''compact XISO segment limit exceeded'')
    (err ERROR_INTERNAL ''could not allocate compact XISO segments'') (cb_segments b) g")
  case (Inr v)
  then have "b' = b\<lparr>cb_segments := v\<rparr>" using assms by (simp add: push_segment_def)
  then show thesis
    using vec_push_items[OF Inr] vec_push_limit[OF Inr] vec_push_ok[OF _ _ Inr] by (intro that) auto
qed (use assms in \<open>simp add: push_segment_def\<close>)

lemma push_directory_Inr:
  assumes "push_directory mem b d = Inr b'"
  obtains v where "b' = b\<lparr>cb_directories := v\<rparr>" "vec_items v = vec_items (cb_directories b) @ [d]"
    "length (vec_items v) \<le> COMPACT_MAX_DIRECTORIES" "\<not> directory_exists b (cd_source_sector d) (cd_size d)"
    "vec_ok COMPACT_MAX_DIRECTORIES (cb_directories b) \<longrightarrow> vec_ok COMPACT_MAX_DIRECTORIES v"
proof -
  obtain v where v: "vec_push mem COMPACT_DIRECTORY_BYTES 32 COMPACT_MAX_DIRECTORIES
      (err ERROR_INVALID_VOLUME ''compact XISO directory limit exceeded'')
      (err ERROR_INTERNAL ''could not allocate compact XISO directories'') (cb_directories b) d = Inr v"
    and "b' = b\<lparr>cb_directories := v\<rparr>" "\<not> directory_exists b (cd_source_sector d) (cd_size d)"
    using assms unfolding push_directory_def by (auto split: sum.splits if_splits)
  then show thesis
    using vec_push_items[OF v] vec_push_limit[OF v] vec_push_ok[OF _ _ v] by (intro that) auto
qed

lemma push_offset_Inr:
  assumes "push_offset mem v o' = Inr v'"
  shows "vec_items v' = vec_items v @ [o']" and "vec_ok COMPACT_MAX_ENTRIES v \<Longrightarrow> vec_ok COMPACT_MAX_ENTRIES v'"
  using assms vec_push_late_items[of mem 8 32 COMPACT_MAX_ENTRIES _ _ v o' v']
    vec_push_late_ok[of COMPACT_MAX_ENTRIES v 32 mem 8 _ _ o' v']
  by (auto simp: push_offset_def)

lemma push_children_Inr:
  assumes "push_compact_entry_children mem v entry = Inr v'"
  shows "vec_items v' = vec_items v @ (if ce_left entry \<noteq> 0 then [ce_left entry * 4] else [])
    @ (if ce_right entry \<noteq> 0 then [ce_right entry * 4] else [])"
    and "vec_ok COMPACT_MAX_ENTRIES v \<Longrightarrow> vec_ok COMPACT_MAX_ENTRIES v'"
  using assms push_offset_Inr
  by (auto simp: push_compact_entry_children_def split: if_splits sum.splits)

text \<open>The arrays of the builder are within their allocations, and those within their limits.\<close>

definition builder_arrays :: "compact_builder \<Rightarrow> bool" where
  "builder_arrays b \<longleftrightarrow>
     vec_ok COMPACT_MAX_SEGMENTS (cb_segments b) \<and> vec_ok COMPACT_MAX_DIRECTORIES (cb_directories b)"

lemma record_entry_Inr:
  assumes "record_compact_entry mem r entry = Inr r'"
    and "cr_builder r = b\<lparr>cb_next_sector := cb_next_sector b + ce_output_blocks entry\<rparr>"
    and "ce_output_sector entry = cb_next_sector b" "ce_output_blocks entry = required_sectors (ce_size entry)"
    and "cb_next_sector b \<le> UINT32_MAX" "cb_next_sector b + ce_output_blocks entry \<le> UINT32_MAX + 1"
    and "ce_source_sector entry + ce_output_blocks entry \<le> source_sectors"
  obtains b' where "r' = r\<lparr>cr_builder := b'\<rparr>" "builder_arrays b \<longrightarrow> builder_arrays b'"
    "entry_placed source_sectors (cd_depth (cr_directory r)) (ce_source_sector entry) (ce_size entry) (ce_attributes entry) b b'"
proof (cases "ce_attributes entry AND 16 = 0")
  case True
  then obtain b1 where p: "push_segment mem (cr_builder r)
      \<lparr>cs_output_sector = ce_output_sector entry, cs_sectors = ce_output_blocks entry,
       cs_source_sector = ce_source_sector entry, cs_content_bytes = ce_size entry, cs_memory = [],
       cs_kind = (if ce_size entry = 0 then COMPACT_SEGMENT_ZERO else COMPACT_SEGMENT_FILE)\<rparr> = Inr b1"
    and r': "r' = r\<lparr>cr_builder := b1\<lparr>cb_file_count := u64_add (cb_file_count b1) 1\<rparr>\<rparr>"
    using assms(1) by (auto simp: record_compact_entry_def split: sum.splits)
  from p obtain v where v: "b1 = (cr_builder r)\<lparr>cb_segments := v\<rparr>"
      "vec_ok COMPACT_MAX_SEGMENTS (cb_segments (cr_builder r)) \<longrightarrow> vec_ok COMPACT_MAX_SEGMENTS v"
      "length (vec_items v) \<le> COMPACT_MAX_SEGMENTS" and items: "vec_items v = vec_items (cb_segments (cr_builder r))
        @ [\<lparr>cs_output_sector = ce_output_sector entry, cs_sectors = ce_output_blocks entry,
       cs_source_sector = ce_source_sector entry, cs_content_bytes = ce_size entry, cs_memory = [],
       cs_kind = (if ce_size entry = 0 then COMPACT_SEGMENT_ZERO else COMPACT_SEGMENT_FILE)\<rparr>]"
    by (rule push_segment_Inr)
  show thesis
    by (rule that[OF r']) (use v items assms True in \<open>simp_all add: entry_placed_def Let_def builder_arrays_def\<close>)
next
  case False
  then obtain b1 where p: "push_directory mem (cr_builder r)
      \<lparr>cd_source_sector = ce_source_sector entry, cd_size = ce_size entry,
       cd_output_sector = ce_output_sector entry, cd_depth = cd_depth (cr_directory r) + 1\<rparr> = Inr b1"
    and r': "r' = r\<lparr>cr_builder := b1\<rparr>" and d: "cd_depth (cr_directory r) < COMPACT_MAX_DEPTH"
    using assms(1) by (auto simp: record_compact_entry_def split: sum.splits if_splits)
  from p obtain v where v: "b1 = (cr_builder r)\<lparr>cb_directories := v\<rparr>"
      "vec_ok COMPACT_MAX_DIRECTORIES (cb_directories (cr_builder r)) \<longrightarrow> vec_ok COMPACT_MAX_DIRECTORIES v"
      "length (vec_items v) \<le> COMPACT_MAX_DIRECTORIES" "\<not> directory_exists (cr_builder r) (ce_source_sector entry) (ce_size entry)"
    and items: "vec_items v = vec_items (cb_directories (cr_builder r))
      @ [\<lparr>cd_source_sector = ce_source_sector entry, cd_size = ce_size entry,
       cd_output_sector = ce_output_sector entry, cd_depth = cd_depth (cr_directory r) + 1\<rparr>]"
    by (rule push_directory_Inr) simp
  show thesis
    by (rule that[OF r'])
      (use v items assms False d in \<open>simp_all add: entry_placed_def Let_def builder_arrays_def directory_exists_def\<close>)
qed

lemma entry_step_cases:
  assumes "compact_entry_step mem source_sectors r offset = Inr r'"
  obtains (seen) "r' = r" "offset mod 4 = 0" "offset + 14 \<le> cd_size (cr_directory r)" "slot_visited (cr_visited r) (offset div 4)"
  | (fresh) "node_fits (cr_data r) (cd_size (cr_directory r)) offset" "\<not> slot_visited (cr_visited r) (offset div 4)"
      "cr_directory r' = cr_directory r" "cr_visited r' = (cr_visited r)[offset div 4 := True]"
      "cr_data r' = put_le_u32 (cr_data r) (offset + 4) (cb_next_sector (cr_builder r))"
      "vec_items (cr_pending r') = vec_items (cr_pending r) @ node_links (cr_data r) offset"
      "entry_placed source_sectors (cd_depth (cr_directory r)) (le_u32 (cr_data r) (offset + 4))
         (le_u32 (cr_data r) (offset + 8)) (cr_data r ! (offset + 12)) (cr_builder r) (cr_builder r')"
      "vec_ok COMPACT_MAX_ENTRIES (cr_pending r) \<longrightarrow> vec_ok COMPACT_MAX_ENTRIES (cr_pending r')"
      "builder_arrays (cr_builder r) \<longrightarrow> builder_arrays (cr_builder r')"
proof -
  obtain e r1 where rd: "read_compact_entry source_sectors r offset = Inr (e, r1)"
    using assms by (auto simp: compact_entry_step_def split: sum.splits)
  from rd show thesis
  proof (cases rule: read_entry_cases)
    case a: seen
    then show thesis using assms rd by (intro seen) (auto simp: compact_entry_step_def)
  next
    case e: (fresh entry)
    obtain r2 p where rc: "record_compact_entry mem r1 entry = Inr r2"
      and pc: "push_compact_entry_children mem (cr_pending r2) entry = Inr p" and r': "r' = r2\<lparr>cr_pending := p\<rparr>"
      using assms rd e(1) by (auto simp: compact_entry_step_def split: sum.splits)
    from rc obtain b' where b': "r2 = r1\<lparr>cr_builder := b'\<rparr>" "builder_arrays (cr_builder r) \<longrightarrow> builder_arrays b'"
      "entry_placed source_sectors (cd_depth (cr_directory r1)) (ce_source_sector entry) (ce_size entry) (ce_attributes entry)
         (cr_builder r) b'"
      by (rule record_entry_Inr[where b = "cr_builder r" and source_sectors = source_sectors]) (use e in \<open>simp_all\<close>)
    show thesis
      using e r' b' push_children_Inr[OF pc]
      by (intro fresh) (auto simp: node_links_def directory_u16_def Let_def)
  qed
qed

function compact_walk ::
  "(nat \<Rightarrow> bool) \<Rightarrow> u64 \<Rightarrow> compact_directory_reader \<Rightarrow> compact_directory_reader res" where
  "compact_walk mem source_sectors r =
     (if vec_items (cr_pending r) \<noteq> []
      then (case compact_entry_step mem source_sectors (r\<lparr>cr_pending := vec_pop (cr_pending r)\<rparr>)
                   (last (vec_items (cr_pending r))) of
              Inl e \<Rightarrow> Inl e
            | Inr r' \<Rightarrow> compact_walk mem source_sectors r')
      else Inr r)"
  by pat_completeness auto
termination
proof (relation "measure (\<lambda>(mem, source_sectors, r).
    2 * length (filter Not (cr_visited r)) + length (vec_items (cr_pending r)))", goal_cases)
  case (2 mem source_sectors r r')
  from 2(2) show ?case
  proof (cases rule: entry_step_cases)
    case seen
    then show ?thesis using 2(1) by simp
  next
    case fresh
    then show ?thesis
      using 2(1) node_links_length[of "cr_data r" "last (vec_items (cr_pending r))"]
        unvisited_mark[of "last (vec_items (cr_pending r)) div 4" "cr_visited r"]
      by (simp add: slot_visited_def) (cases "vec_items (cr_pending r)"; simp)
  qed
qed simp

declare compact_walk.simps [simp del]

definition traverse_compact_directory ::
  "(nat \<Rightarrow> bool) \<Rightarrow> u64 \<Rightarrow> compact_builder \<Rightarrow> compact_directory \<Rightarrow> byte list \<Rightarrow> compact_directory_reader res" where
  "traverse_compact_directory mem source_sectors b directory data =
     (let visited_bytes = (cd_size directory + 3) div 4
      in if \<not> mem visited_bytes then fail ERROR_INTERNAL ''could not allocate compact directory index''
         else (case push_offset mem vec_empty 0 of
                 Inl e \<Rightarrow> Inl e
               | Inr pending \<Rightarrow>
                   compact_walk mem source_sectors
                     \<lparr>cr_builder = b, cr_directory = directory, cr_data = data,
                      cr_visited = replicate visited_bytes False, cr_pending = pending\<rparr>))"

definition append_compact_directory_table ::
  "(nat \<Rightarrow> bool) \<Rightarrow> compact_builder \<Rightarrow> compact_directory \<Rightarrow> u64 \<Rightarrow> byte list \<Rightarrow> compact_builder res" where
  "append_compact_directory_table mem b directory blocks data =
     push_segment mem b
       \<lparr>cs_output_sector = cd_output_sector directory, cs_sectors = blocks, cs_source_sector = 0,
        cs_content_bytes = cd_size directory, cs_memory = data, cs_kind = COMPACT_SEGMENT_MEMORY\<rparr>"

text \<open>\<open>process_directory\<close>: the table as read, zero beyond the directory's size, then as traversed.\<close>

definition directory_table :: "byte list \<Rightarrow> nat \<Rightarrow> byte list" where
  "directory_table data n = (if n < length data then take n data @ replicate (length data - n) 0 else data)"

definition process_directory ::
  "(nat \<Rightarrow> bool) \<Rightarrow> 's source_ops \<Rightarrow> 's sector_source \<Rightarrow> compact_builder \<Rightarrow> nat
     \<Rightarrow> compact_builder res \<times> 's sector_source" where
  "process_directory mem ops source b directory_index =
     (let directory = vec_items (cb_directories b) ! directory_index;
          blocks = required_sectors (cd_size directory);
          allocated_bytes = u64_mul blocks GDOX_LOGICAL_SECTOR_BYTES
      in if cd_size directory = 0 \<or> cd_size directory > COMPACT_MAX_DIRECTORY_BYTES
            \<or> blocks > SIZE_MAX div GDOX_LOGICAL_SECTOR_BYTES
            \<or> cb_metadata_bytes b > u64_sub COMPACT_MAX_METADATA_BYTES allocated_bytes
         then (fail ERROR_INVALID_VOLUME ''XDVDFS directory metadata exceeds compacting limits'', source)
         else if \<not> mem allocated_bytes
         then (fail ERROR_INTERNAL ''could not allocate compact directory table'', source)
         else (case gdox_source_read ops source (cd_source_sector directory) (u32_cast blocks) allocated_bytes of
                 (Inl e, source') \<Rightarrow> (Inl e, source')
               | (Inr bytes, source') \<Rightarrow>
                   (let data = directory_table bytes (cd_size directory);
                        b = b\<lparr>cb_metadata_bytes := u64_add (cb_metadata_bytes b) allocated_bytes\<rparr>
                    in if bytes_are_empty_directory data (cd_size directory)
                       then (append_compact_directory_table mem b directory blocks data, source')
                       else (case traverse_compact_directory mem (gdox_source_sector_count ops source') b directory data of
                               Inl e \<Rightarrow> (Inl e, source')
                             | Inr r \<Rightarrow>
                                 (append_compact_directory_table mem (cr_builder r) directory blocks (cr_data r), source')))))"

definition compare_segments :: "compact_segment \<Rightarrow> compact_segment \<Rightarrow> int" where
  "compare_segments left right =
     (if cs_output_sector left < cs_output_sector right then -1
      else if cs_output_sector left > cs_output_sector right then 1 else 0)"

interpretation segment_order: comparator compare_segments
  by unfold_locales (auto simp: compare_segments_def split: if_splits)

section \<open>How the builder grows\<close>

text \<open>Everything an entry preserves of the builder, a walk preserves.\<close>

lemma compact_walk_builder:
  assumes "compact_walk mem source_sectors r = Inr r'" and "P (cr_builder r)"
    and step: "\<And>b b' source_sector n attributes. P b \<Longrightarrow> n < two32 \<Longrightarrow> (builder_arrays b \<longrightarrow> builder_arrays b') \<Longrightarrow>
      entry_placed source_sectors (cd_depth (cr_directory r)) source_sector n attributes b b' \<Longrightarrow> P b'"
  shows "P (cr_builder r') \<and> cr_directory r' = cr_directory r \<and> length (cr_data r') = length (cr_data r)"
  using assms
proof (induction mem source_sectors r rule: compact_walk.induct)
  case (1 mem source_sectors r)
  show ?case
  proof (cases "vec_items (cr_pending r) = []")
    case True
    then show ?thesis using "1.prems"(1,2) by (simp add: compact_walk.simps)
  next
    case False
    then obtain r1 where r1: "compact_entry_step mem source_sectors (r\<lparr>cr_pending := vec_pop (cr_pending r)\<rparr>)
        (last (vec_items (cr_pending r))) = Inr r1" "compact_walk mem source_sectors r1 = Inr r'"
      using trans[OF compact_walk.simps[symmetric] "1.prems"(1)] by (auto split: sum.splits)
    have "P (cr_builder r1) \<and> cr_directory r1 = cr_directory r \<and> length (cr_data r1) = length (cr_data r)"
      using r1(1)
    proof (cases rule: entry_step_cases)
      case seen
      then show ?thesis using "1.prems"(2) by simp
    next
      case fresh
      then show ?thesis using "1.prems"(3)[OF "1.prems"(2) reads_less(2)] by simp
    qed
    with "1.IH"[OF False r1(1,2)] "1.prems"(3) show ?thesis by simp
  qed
qed

definition builder_extends :: "compact_builder \<Rightarrow> compact_builder \<Rightarrow> bool" where
  "builder_extends b b' \<longleftrightarrow>
     (\<exists>ds. vec_items (cb_directories b') = vec_items (cb_directories b) @ ds)
     \<and> (\<exists>gs. vec_items (cb_segments b') = vec_items (cb_segments b) @ gs)
     \<and> length (vec_items (cb_directories b')) \<le> max (length (vec_items (cb_directories b))) COMPACT_MAX_DIRECTORIES"

lemma builder_extends_refl: "builder_extends b b"
  by (simp add: builder_extends_def)

lemma builder_extends_metadata:
  "builder_extends (b\<lparr>cb_metadata_bytes := k\<rparr>) c \<longleftrightarrow> builder_extends b c"
  "builder_extends b (c\<lparr>cb_metadata_bytes := k\<rparr>) \<longleftrightarrow> builder_extends b c"
  by (simp_all add: builder_extends_def)

lemma builder_extends_trans: "builder_extends a b \<Longrightarrow> builder_extends b c \<Longrightarrow> builder_extends a c"
  by (auto simp: builder_extends_def)

lemma entry_placed_extends: "entry_placed source_sectors depth src n attributes b b' \<Longrightarrow> builder_extends b b'"
  by (auto simp: entry_placed_def builder_extends_def Let_def split: if_splits)

text \<open>A directory that is processed: its table as read, the builder after its walk, and its segment.\<close>

definition table_walked ::
  "(nat \<Rightarrow> bool) \<Rightarrow> u64 \<Rightarrow> compact_builder \<Rightarrow> compact_directory \<Rightarrow> byte list \<Rightarrow> compact_builder \<Rightarrow> byte list \<Rightarrow> bool" where
  "table_walked mem source_sectors b d data b1 table \<longleftrightarrow>
     (if bytes_are_empty_directory data (cd_size d) then table = data \<and> (\<exists>m. b1 = b\<lparr>cb_metadata_bytes := m\<rparr>)
      else \<exists>m r. traverse_compact_directory mem source_sectors (b\<lparr>cb_metadata_bytes := m\<rparr>) d data = Inr r
             \<and> b1 = cr_builder r \<and> table = cr_data r)"

lemma process_directory_cases:
  assumes "process_directory mem ops source b index = (Inr b', source')"
    and "\<And>d. d \<in> set (vec_items (cb_directories b)) \<Longrightarrow> cd_size d < two32" and "index < length (vec_items (cb_directories b))"
  defines "d \<equiv> vec_items (cb_directories b) ! index"
  obtains bytes b1 table where "0 < cd_size d" "cd_size d \<le> COMPACT_MAX_DIRECTORY_BYTES"
    "gdox_source_read ops source (cd_source_sector d) (required_sectors (cd_size d))
       (required_sectors (cd_size d) * GDOX_LOGICAL_SECTOR_BYTES) = (Inr bytes, source')"
    "table_walked mem (gdox_source_sector_count ops source') b d (directory_table bytes (cd_size d)) b1 table"
    "append_compact_directory_table mem b1 d (required_sectors (cd_size d)) table = Inr b'"
proof -
  have n: "cd_size d < two32" using assms(2,3) unfolding d_def by simp
  note req = required_sectors_bounds[OF n]
  have mul: "u64_mul (required_sectors (cd_size d)) GDOX_LOGICAL_SECTOR_BYTES = required_sectors (cd_size d) * GDOX_LOGICAL_SECTOR_BYTES"
    "u32_cast (required_sectors (cd_size d)) = required_sectors (cd_size d)"
    using req by simp_all
  note code = trans[OF process_directory_def[symmetric] assms(1), unfolded Let_def, folded d_def, unfolded mul]
  obtain bytes where bounds: "0 < cd_size d" "cd_size d \<le> COMPACT_MAX_DIRECTORY_BYTES"
    and rd: "gdox_source_read ops source (cd_source_sector d) (required_sectors (cd_size d))
       (required_sectors (cd_size d) * GDOX_LOGICAL_SECTOR_BYTES) = (Inr bytes, source')"
    using code by (auto split: if_splits prod.splits sum.splits)
  let ?t = "directory_table bytes (cd_size d)"
  let ?m = "u64_add (cb_metadata_bytes b) (required_sectors (cd_size d) * GDOX_LOGICAL_SECTOR_BYTES)"
  show thesis
  proof (cases "bytes_are_empty_directory ?t (cd_size d)")
    case True
    then have "append_compact_directory_table mem (b\<lparr>cb_metadata_bytes := ?m\<rparr>) d (required_sectors (cd_size d)) ?t = Inr b'"
      using code rd by (auto split: if_splits)
    with True bounds rd show thesis by (intro that[of bytes "b\<lparr>cb_metadata_bytes := ?m\<rparr>" ?t]) (auto simp: table_walked_def)
  next
    case False
    then obtain r where "traverse_compact_directory mem (gdox_source_sector_count ops source') (b\<lparr>cb_metadata_bytes := ?m\<rparr>) d ?t = Inr r"
      "append_compact_directory_table mem (cr_builder r) d (required_sectors (cd_size d)) (cr_data r) = Inr b'"
      using code rd by (auto split: if_splits sum.splits)
    with False bounds rd show thesis by (intro that[of bytes "cr_builder r" "cr_data r"]) (auto simp: table_walked_def)
  qed
qed

lemma append_table_extends:
  "append_compact_directory_table mem b d blocks table = Inr b' \<Longrightarrow> builder_extends b b'"
  unfolding append_compact_directory_table_def by (erule push_segment_Inr) (simp add: builder_extends_def)

lemma traverse_extends:
  assumes "traverse_compact_directory mem source_sectors b d data = Inr r"
  shows "builder_extends b (cr_builder r)"
proof -
  obtain r0 where "compact_walk mem source_sectors r0 = Inr r" "cr_builder r0 = b"
    using assms by (auto simp: traverse_compact_directory_def Let_def split: if_splits sum.splits)
  then show ?thesis
    using compact_walk_builder[of mem source_sectors r0 r "builder_extends b"]
    by (auto intro: builder_extends_refl builder_extends_trans entry_placed_extends)
qed

lemma process_directory_extends:
  assumes "process_directory mem ops source b index = (Inr b', source')"
  shows "builder_extends b b'"
proof -
  show ?thesis
    using assms
    by (auto simp: process_directory_def Let_def split: if_splits prod.splits sum.splits
        dest!: append_table_extends traverse_extends intro: builder_extends_trans simp: builder_extends_metadata)
qed

text \<open>
  The loop over the directories, which grow while it runs; their count stays within
  \<open>COMPACT_MAX_DIRECTORIES\<close>, so the loop ends.
\<close>

function process_directories ::
  "(nat \<Rightarrow> bool) \<Rightarrow> 's source_ops \<Rightarrow> 's sector_source \<Rightarrow> compact_builder \<Rightarrow> nat
     \<Rightarrow> compact_builder res \<times> 's sector_source" where
  "process_directories mem ops source b index =
     (if index < length (vec_items (cb_directories b))
      then (case process_directory mem ops source b index of
              (Inl e, source') \<Rightarrow> (Inl e, source')
            | (Inr b', source') \<Rightarrow> process_directories mem ops source' b' (index + 1))
      else (Inr b, source))"
  by pat_completeness auto
termination
proof (relation "measure (\<lambda>(mem, ops, source, b, index).
    max (length (vec_items (cb_directories b))) COMPACT_MAX_DIRECTORIES - index)", goal_cases)
  case (2 mem ops source b index result source' b')
  then have "builder_extends b b'" by (metis process_directory_extends)
  then show ?case using 2(1) by (auto simp: builder_extends_def)
qed simp

declare process_directories.simps [simp del]

text \<open>The contiguity check over the sorted segments; the sector behind them.\<close>

fun check_layout :: "u64 \<Rightarrow> compact_segment list \<Rightarrow> u64 res" where
  "check_layout expected [] = Inr expected"
| "check_layout expected (g # gs) =
     (if cs_output_sector g \<noteq> expected
      then fail ERROR_INTERNAL ''compact XISO layout is not contiguous''
      else (case add_u64 expected (cs_sectors g) of
              None \<Rightarrow> fail ERROR_INTERNAL ''compact XISO layout is not contiguous''
            | Some stop \<Rightarrow> check_layout stop gs))"

definition COMPACT_HEADER_SECTORS :: u64 where "COMPACT_HEADER_SECTORS = 33"

text \<open>\<open>memcpy(header + offset, bytes, sizeof bytes)\<close>.\<close>

definition put_bytes :: "byte list \<Rightarrow> nat \<Rightarrow> byte list \<Rightarrow> byte list" where
  "put_bytes data offset bytes = take offset data @ bytes @ drop (offset + length bytes) data"

definition compact_magic :: "byte list" where
  "compact_magic = ascii ''MICROSOFT*XBOX*MEDIA''"

definition compact_header :: "xdvdfs_volume \<Rightarrow> u32 \<Rightarrow> byte list" where
  "compact_header volume root_output_sector =
     (let descriptor = 32 * GDOX_LOGICAL_SECTOR_BYTES;
          header = replicate (COMPACT_HEADER_SECTORS * GDOX_LOGICAL_SECTOR_BYTES) 0;
          header = put_bytes header descriptor compact_magic;
          header = put_le_u32 header (descriptor + 20) root_output_sector;
          header = put_le_u32 header (descriptor + 24) (root_directory_size volume);
          header = put_le_u64 header (descriptor + 28) (image_timestamp volume)
      in put_bytes header (33 * GDOX_LOGICAL_SECTOR_BYTES - length compact_magic) compact_magic)"

text \<open>The end of \<open>build_compact_layout\<close>: the alignment to 32 sectors, the sort and the check.\<close>

definition finish_compact_layout ::
  "(nat \<Rightarrow> bool) \<Rightarrow> compact_builder \<Rightarrow> (compact_builder \<times> u64) res" where
  "finish_compact_layout mem b =
     (if cb_next_sector b > UINT64_MAX - 31
      then fail ERROR_INVALID_VOLUME ''compact XISO aligned length overflows''
      else
        (let aligned = (cb_next_sector b + 31) div 32 * 32
         in case (if aligned > cb_next_sector b
                  then push_segment mem b
                         \<lparr>cs_output_sector = cb_next_sector b, cs_sectors = aligned - cb_next_sector b,
                          cs_source_sector = 0, cs_content_bytes = 0, cs_memory = [], cs_kind = COMPACT_SEGMENT_ZERO\<rparr>
                  else Inr b) of
              Inl e \<Rightarrow> Inl e
            | Inr b \<Rightarrow>
                (let segments = qsort compare_segments (vec_items (cb_segments b))
                 in case check_layout 0 segments of
                      Inl e \<Rightarrow> Inl e
                    | Inr expected \<Rightarrow>
                        if expected \<noteq> aligned
                        then fail ERROR_INTERNAL ''compact XISO layout has the wrong length''
                        else Inr (b\<lparr>cb_segments := (cb_segments b)\<lparr>vec_items := segments\<rparr>\<rparr>, aligned))))"

text \<open>The sorted segments of the image and its sectors.\<close>

definition build_compact_layout ::
  "(nat \<Rightarrow> bool) \<Rightarrow> 's source_ops \<Rightarrow> 's sector_source \<Rightarrow> xdvdfs_volume
     \<Rightarrow> (compact_builder \<times> u64) res \<times> 's sector_source" where
  "build_compact_layout mem ops source volume =
     (let header_bytes = COMPACT_HEADER_SECTORS * GDOX_LOGICAL_SECTOR_BYTES;
          b = \<lparr>cb_segments = vec_empty, cb_directories = vec_empty, cb_next_sector = COMPACT_HEADER_SECTORS,
               cb_file_count = 0, cb_metadata_bytes = 0\<rparr>
      in if \<not> mem header_bytes
         then (fail ERROR_INTERNAL ''could not allocate compact XISO header'', source)
         else (case allocate_region b (root_directory_size volume) of
                 Inl e \<Rightarrow> (Inl e, source)
               | Inr (root_output_sector, _, b) \<Rightarrow>
                   (case push_segment mem b
                           \<lparr>cs_output_sector = 0, cs_sectors = COMPACT_HEADER_SECTORS, cs_source_sector = 0,
                            cs_content_bytes = header_bytes, cs_memory = compact_header volume root_output_sector,
                            cs_kind = COMPACT_SEGMENT_MEMORY\<rparr> of
                      Inl e \<Rightarrow> (Inl e, source)
                    | Inr b \<Rightarrow>
                        (case push_directory mem b
                                \<lparr>cd_source_sector = root_directory_sector volume, cd_size = root_directory_size volume,
                                 cd_output_sector = root_output_sector, cd_depth = 0\<rparr> of
                           Inl e \<Rightarrow> (Inl e, source)
                         | Inr b \<Rightarrow>
                             (case process_directories mem ops source b 0 of
                                (Inl e, source') \<Rightarrow> (Inl e, source')
                              | (Inr b, source') \<Rightarrow>
                                  (finish_compact_layout mem b, source'))))))"

record compact_stats =
  xs_input_sectors :: u64
  xs_output_sectors :: u64
  xs_file_count :: u64
  xs_directory_count :: u64

definition COMPACT_CONTEXT_BYTES :: nat where "COMPACT_CONTEXT_BYTES = 40"

text \<open>
  Result with the statistics, the caller's partition handle and the output handle afterwards. On
  failure the partition stays with the caller, having been read.
\<close>

definition gdox_source_make_compact_xiso ::
  "(nat \<Rightarrow> bool) \<Rightarrow> 's source_ops \<Rightarrow> 's sector_source \<Rightarrow> xdvdfs_volume option \<Rightarrow> 's compact_context sector_source
     \<Rightarrow> compact_stats res \<times> 's sector_source \<times> 's compact_context sector_source" where
  "gdox_source_make_compact_xiso mem ops inner volume output =
     (case volume of
        None \<Rightarrow> (fail ERROR_INVALID_ARGUMENT ''compact XISO requires a partition-relative source and volume'', inner, output)
      | Some volume \<Rightarrow>
          if \<not> gdox_source_is_valid inner \<or> gdox_source_is_valid output \<or> base_lba volume \<noteq> 0
          then (fail ERROR_INVALID_ARGUMENT ''compact XISO requires a partition-relative source and volume'', inner, output)
          else (case build_compact_layout mem ops inner volume of
                  (Inl e, inner') \<Rightarrow> (Inl e, inner', output)
                | (Inr (b, output_sectors), inner') \<Rightarrow>
                    if \<not> mem COMPACT_CONTEXT_BYTES
                    then (fail ERROR_INTERNAL ''could not allocate compact XISO source'', inner', output)
                    else (Inr \<lparr>xs_input_sectors = gdox_source_sector_count ops inner', xs_output_sectors = output_sectors,
                               xs_file_count = cb_file_count b,
                               xs_directory_count = length (vec_items (cb_directories b))\<rparr>,
                          None,
                          Some \<lparr>cc_inner = inner', cc_segments = vec_items (cb_segments b), cc_sectors = output_sectors\<rparr>)))"

end
