(* ===== verification/CompactLayout.thy ===== *)
theory CompactLayout
  imports CompactBuild
begin

text \<open>
  The layout a build produces. While directories wait to be processed, the segments and the regions
  kept for their tables tile the image (\<open>laid_out\<close>); when none waits, the sorted segments lie one
  behind the other, so the contiguity check at the end of the build cannot fail.
\<close>

definition table_region :: "compact_directory \<Rightarrow> compact_segment" where
  "table_region d =
     \<lparr>cs_output_sector = cd_output_sector d, cs_sectors = required_sectors (cd_size d), cs_source_sector = 0,
      cs_content_bytes = 0, cs_memory = [], cs_kind = COMPACT_SEGMENT_ZERO\<rparr>"

definition laid_out :: "compact_builder \<Rightarrow> compact_directory list \<Rightarrow> bool" where
  "laid_out b waiting \<longleftrightarrow>
     (\<exists>gs. tiled 0 gs (cb_next_sector b) \<and> (\<forall>g \<in> set gs. 0 < cs_sectors g)
        \<and> mset gs = mset (vec_items (cb_segments b)) + mset (map table_region waiting))"

text \<open>The invariant of the build after the tables of the first \<open>k\<close> directories are in place.\<close>

definition builder_inv :: "u64 \<Rightarrow> nat \<Rightarrow> compact_builder \<Rightarrow> bool" where
  "builder_inv source_sectors k b \<longleftrightarrow>
     k \<le> length (vec_items (cb_directories b)) \<and> laid_out b (drop k (vec_items (cb_directories b)))
     \<and> list_all (segment_ok source_sectors) (vec_items (cb_segments b))
     \<and> list_all (\<lambda>d. cd_size d < two32) (vec_items (cb_directories b))
     \<and> builder_arrays b \<and> cb_next_sector b \<le> two32"

lemma tiled_append: "tiled a (xs @ ys) c \<longleftrightarrow> (\<exists>b. tiled a xs b \<and> tiled b ys c)"
  by (induction xs arbitrary: a) auto

lemma laid_out_add:
  assumes "laid_out b waiting" and "cs_output_sector g = cb_next_sector b" and "0 < cs_sectors g"
    and "cb_next_sector b' = cb_next_sector b + cs_sectors g"
    and "mset (vec_items (cb_segments b')) + mset (map table_region waiting') =
      add_mset g (mset (vec_items (cb_segments b)) + mset (map table_region waiting))"
  shows "laid_out b' waiting'"
proof -
  from assms(1) obtain gs where "tiled 0 gs (cb_next_sector b)" "\<forall>g \<in> set gs. 0 < cs_sectors g"
    "mset gs = mset (vec_items (cb_segments b)) + mset (map table_region waiting)"
    unfolding laid_out_def by blast
  with assms(2-5) show ?thesis
    unfolding laid_out_def by (intro exI[of _ "gs @ [g]"]) (auto simp: tiled_append)
qed

lemma laid_out_fill:
  assumes "laid_out b (d # waiting)" and "cs_output_sector g = cd_output_sector d" and "cs_sectors g = required_sectors (cd_size d)"
    and "cb_next_sector b' = cb_next_sector b" and "vec_items (cb_segments b') = vec_items (cb_segments b) @ [g]"
  shows "laid_out b' waiting"
proof -
  from assms(1) obtain gs where gs: "tiled 0 gs (cb_next_sector b)" "\<forall>g \<in> set gs. 0 < cs_sectors g"
    "mset gs = mset (vec_items (cb_segments b)) + mset (map table_region (d # waiting))"
    unfolding laid_out_def by blast
  then have "table_region d \<in> set gs" using mset_eq_setD[of gs] by (metis in_multiset_in_set union_iff list.set_intros(1) list.simps(9))
  then obtain xs ys where split: "gs = xs @ table_region d # ys" by (auto simp: in_set_conv_decomp)
  have "tiled 0 (xs @ g # ys) (cb_next_sector b)"
    using gs(1) assms(2,3) by (simp add: split tiled_append table_region_def)
  moreover have "\<forall>g \<in> set (xs @ g # ys). 0 < cs_sectors g"
    using gs(2) assms(3) by (auto simp: split table_region_def)
  moreover have "mset (xs @ g # ys) = mset (vec_items (cb_segments b')) + mset (map table_region waiting)"
    using gs(3) assms(5) by (simp add: split)
  ultimately show ?thesis unfolding laid_out_def assms(4) by blast
qed

lemma entry_placed_inv:
  assumes "builder_inv source_sectors k b" and "n < two32" and "builder_arrays b \<longrightarrow> builder_arrays b'"
    and "entry_placed source_sectors depth source_sector n attributes b b'"
  shows "builder_inv source_sectors k b'"
proof -
  have k: "k \<le> length (vec_items (cb_directories b))" and lo: "laid_out b (drop k (vec_items (cb_directories b)))"
    using assms(1) by (simp_all add: builder_inv_def)
  note pos = required_sectors_bounds[OF assms(2)]
  show ?thesis
  proof (cases "attributes AND 16 = 0")
    case True
    let ?g = "\<lparr>cs_output_sector = cb_next_sector b, cs_sectors = required_sectors n, cs_source_sector = source_sector,
      cs_content_bytes = n, cs_memory = [], cs_kind = (if n = 0 then COMPACT_SEGMENT_ZERO else COMPACT_SEGMENT_FILE)\<rparr>"
    have "laid_out b' (drop k (vec_items (cb_directories b')))"
      by (rule laid_out_add[OF lo, of ?g]) (use assms(4) True pos in \<open>simp_all add: entry_placed_def Let_def\<close>)
    moreover have "segment_ok source_sectors ?g" using assms(4) True by (simp add: segment_ok_def entry_placed_def Let_def)
    ultimately show ?thesis
      using assms True by (simp add: builder_inv_def entry_placed_def Let_def UINT32_MAX_def)
  next
    case False
    let ?d = "\<lparr>cd_source_sector = source_sector, cd_size = n, cd_output_sector = cb_next_sector b, cd_depth = depth + 1\<rparr>"
    have "laid_out b' (drop k (vec_items (cb_directories b')))"
      by (rule laid_out_add[OF lo, of "table_region ?d"])
        (use assms(4) False pos k in \<open>simp_all add: entry_placed_def Let_def table_region_def\<close>)
    then show ?thesis
      using assms False by (simp add: builder_inv_def entry_placed_def Let_def UINT32_MAX_def)
  qed
qed

lemma traverse_inv:
  assumes "traverse_compact_directory mem source_sectors b d data = Inr r" and "builder_inv source_sectors k b"
  shows "builder_inv source_sectors k (cr_builder r)" and "length (cr_data r) = length data"
proof -
  obtain r0 where "compact_walk mem source_sectors r0 = Inr r" "cr_builder r0 = b" "cr_data r0 = data"
    using assms by (auto simp: traverse_compact_directory_def Let_def split: if_splits sum.splits)
  then show "builder_inv source_sectors k (cr_builder r)" "length (cr_data r) = length data"
    using compact_walk_builder[of mem source_sectors r0 r "builder_inv source_sectors k"] assms(2) entry_placed_inv
    by blast+
qed

lemma builder_inv_metadata: "builder_inv S k (b\<lparr>cb_metadata_bytes := m\<rparr>) \<longleftrightarrow> builder_inv S k b"
  by (simp add: builder_inv_def laid_out_def builder_arrays_def)

lemma table_walked_inv:
  assumes "table_walked mem source_sectors b d data b1 table" and "builder_inv source_sectors k b"
  shows "builder_inv source_sectors k b1 \<and> length table = length data \<and> builder_extends b b1"
proof (cases "bytes_are_empty_directory data (cd_size d)")
  case True
  then show ?thesis
    using assms by (auto simp: table_walked_def builder_inv_metadata builder_extends_metadata builder_extends_refl)
next
  case False
  then obtain m r where r: "traverse_compact_directory mem source_sectors (b\<lparr>cb_metadata_bytes := m\<rparr>) d data = Inr r"
    "b1 = cr_builder r" "table = cr_data r" using assms(1) by (auto simp: table_walked_def)
  then show ?thesis
    using traverse_inv[OF r(1)] traverse_extends[OF r(1)] assms(2) by (simp add: builder_inv_metadata builder_extends_metadata)
qed

lemma append_table_inv:
  assumes "append_compact_directory_table mem b d (required_sectors (cd_size d)) table = Inr b'"
    and "builder_inv source_sectors k b" and "k < length (vec_items (cb_directories b))" and "d = vec_items (cb_directories b) ! k"
    and "length table = required_sectors (cd_size d) * GDOX_LOGICAL_SECTOR_BYTES"
  shows "builder_inv source_sectors (Suc k) b'"
proof -
  let ?g = "\<lparr>cs_output_sector = cd_output_sector d, cs_sectors = required_sectors (cd_size d), cs_source_sector = 0,
        cs_content_bytes = cd_size d, cs_memory = table, cs_kind = COMPACT_SEGMENT_MEMORY\<rparr>"
  from assms(1) obtain v where v: "b' = b\<lparr>cb_segments := v\<rparr>" "vec_items v = vec_items (cb_segments b) @ [?g]"
    "vec_ok COMPACT_MAX_SEGMENTS (cb_segments b) \<longrightarrow> vec_ok COMPACT_MAX_SEGMENTS v"
    unfolding append_compact_directory_table_def by (rule push_segment_Inr)
  have "drop k (vec_items (cb_directories b)) = d # drop (Suc k) (vec_items (cb_directories b))"
    using assms(3,4) by (simp add: Cons_nth_drop_Suc)
  then have "laid_out b (d # drop (Suc k) (vec_items (cb_directories b)))"
    using assms(2) by (simp add: builder_inv_def)
  then have "laid_out b' (drop (Suc k) (vec_items (cb_directories b)))"
    by (rule laid_out_fill[where g = ?g]) (use v in simp_all)
  moreover have "segment_ok source_sectors ?g" using assms(5) by (simp add: segment_ok_def)
  ultimately show ?thesis
    using assms(2,3) v by (simp add: builder_inv_def builder_arrays_def)
qed

lemma length_directory_table [simp]: "length (directory_table bytes n) = length bytes"
  by (simp add: directory_table_def)

lemma builder_inv_sizes:
  "builder_inv source_sectors k b \<Longrightarrow> d \<in> set (vec_items (cb_directories b)) \<Longrightarrow> cd_size d < two32"
  by (simp add: builder_inv_def list_all_iff)

text \<open>The fresh builder with the header and the root directory.\<close>

definition build_start :: "xdvdfs_volume \<Rightarrow> compact_builder \<Rightarrow> bool" where
  "build_start volume b \<longleftrightarrow>
     vec_items (cb_segments b) =
       [\<lparr>cs_output_sector = 0, cs_sectors = COMPACT_HEADER_SECTORS, cs_source_sector = 0,
         cs_content_bytes = COMPACT_HEADER_SECTORS * GDOX_LOGICAL_SECTOR_BYTES,
         cs_memory = compact_header volume COMPACT_HEADER_SECTORS, cs_kind = COMPACT_SEGMENT_MEMORY\<rparr>]
     \<and> vec_items (cb_directories b) =
       [\<lparr>cd_source_sector = root_directory_sector volume, cd_size = root_directory_size volume,
         cd_output_sector = COMPACT_HEADER_SECTORS, cd_depth = 0\<rparr>]
     \<and> cb_next_sector b = COMPACT_HEADER_SECTORS + required_sectors (root_directory_size volume)
     \<and> cb_next_sector b \<le> two32 \<and> builder_arrays b"

lemma length_put_bytes: "offset + length bytes \<le> length data \<Longrightarrow> length (put_bytes data offset bytes) = length data"
  by (simp add: put_bytes_def)

lemma length_compact_magic [simp]: "length compact_magic = 20"
  by (simp add: compact_magic_def ascii_def)

lemma length_compact_header [simp]: "length (compact_header volume root) = 67584"
  by (simp add: compact_header_def Let_def length_put_bytes COMPACT_HEADER_SECTORS_def)

lemma build_start_inv:
  assumes "build_start volume b" and "root_directory_size volume < two32"
  shows "builder_inv source_sectors 0 b"
proof -
  let ?h = "\<lparr>cs_output_sector = 0, cs_sectors = COMPACT_HEADER_SECTORS, cs_source_sector = 0,
         cs_content_bytes = COMPACT_HEADER_SECTORS * GDOX_LOGICAL_SECTOR_BYTES,
         cs_memory = compact_header volume COMPACT_HEADER_SECTORS, cs_kind = COMPACT_SEGMENT_MEMORY\<rparr>"
  let ?d = "\<lparr>cd_source_sector = root_directory_sector volume, cd_size = root_directory_size volume,
         cd_output_sector = COMPACT_HEADER_SECTORS, cd_depth = 0\<rparr>"
  have "laid_out b [?d]"
    unfolding laid_out_def using assms(1) required_sectors_bounds[OF assms(2)]
    by (intro exI[of _ "[?h, table_region ?d]"]) (simp add: build_start_def table_region_def COMPACT_HEADER_SECTORS_def)
  then show ?thesis
    using assms by (simp add: builder_inv_def build_start_def segment_ok_def COMPACT_HEADER_SECTORS_def)
qed

lemma build_cases:
  assumes "build_compact_layout mem ops source volume = (Inr (b, stop), source')" and "root_directory_size volume < two32"
  obtains b0 b1 where "build_start volume b0" "process_directories mem ops source b0 0 = (Inr b1, source')"
    "finish_compact_layout mem b1 = Inr (b, stop)"
proof -
  let ?b = "\<lparr>cb_segments = vec_empty, cb_directories = vec_empty, cb_next_sector = COMPACT_HEADER_SECTORS,
               cb_file_count = 0, cb_metadata_bytes = 0\<rparr>"
  obtain root blocks b2 b3 b4 where al: "allocate_region ?b (root_directory_size volume) = Inr (root, blocks, b2)"
    and seg: "push_segment mem b2
         \<lparr>cs_output_sector = 0, cs_sectors = COMPACT_HEADER_SECTORS, cs_source_sector = 0,
          cs_content_bytes = COMPACT_HEADER_SECTORS * GDOX_LOGICAL_SECTOR_BYTES, cs_memory = compact_header volume root,
          cs_kind = COMPACT_SEGMENT_MEMORY\<rparr> = Inr b3"
    and dir: "push_directory mem b3
         \<lparr>cd_source_sector = root_directory_sector volume, cd_size = root_directory_size volume,
          cd_output_sector = root, cd_depth = 0\<rparr> = Inr b4"
    and rest: "(case process_directories mem ops source b4 0 of
        (Inl e, source') \<Rightarrow> (Inl e, source') | (Inr b, source') \<Rightarrow> (finish_compact_layout mem b, source')) = (Inr (b, stop), source')"
    using assms(1) by (auto simp: build_compact_layout_def Let_def split: if_splits sum.splits)
  note al = allocate_region_Inr[OF al assms(2)]
  from seg obtain v where v: "b3 = b2\<lparr>cb_segments := v\<rparr>" "vec_items v = vec_items (cb_segments b2) @
         [\<lparr>cs_output_sector = 0, cs_sectors = COMPACT_HEADER_SECTORS, cs_source_sector = 0,
          cs_content_bytes = COMPACT_HEADER_SECTORS * GDOX_LOGICAL_SECTOR_BYTES, cs_memory = compact_header volume root,
          cs_kind = COMPACT_SEGMENT_MEMORY\<rparr>]"
    "vec_ok COMPACT_MAX_SEGMENTS (cb_segments b2) \<longrightarrow> vec_ok COMPACT_MAX_SEGMENTS v" by (rule push_segment_Inr)
  from dir obtain w where w: "b4 = b3\<lparr>cb_directories := w\<rparr>" "vec_items w = vec_items (cb_directories b3) @
         [\<lparr>cd_source_sector = root_directory_sector volume, cd_size = root_directory_size volume,
          cd_output_sector = root, cd_depth = 0\<rparr>]"
    "vec_ok COMPACT_MAX_DIRECTORIES (cb_directories b3) \<longrightarrow> vec_ok COMPACT_MAX_DIRECTORIES w" by (rule push_directory_Inr)
  have "build_start volume b4"
    using al v w by (simp add: build_start_def builder_arrays_def UINT32_MAX_def)
  moreover obtain b1 where "process_directories mem ops source b4 0 = (Inr b1, source')" "finish_compact_layout mem b1 = Inr (b, stop)"
    using rest by (auto split: prod.splits sum.splits)
  ultimately show thesis by (rule that)
qed

section \<open>The end of the build\<close>

lemma check_layout_tiled:
  "check_layout start gs = Inr stop \<Longrightarrow> (\<forall>g \<in> set gs. cs_sectors g < two64) \<Longrightarrow> tiled start gs stop"
  by (induction gs arbitrary: start) (auto split: if_splits option.splits dest: add_u64_Some)

lemma tiled_check_layout:
  "tiled start gs stop \<Longrightarrow> stop \<le> UINT64_MAX \<Longrightarrow> check_layout start gs = Inr stop"
proof (induction gs arbitrary: start)
  case (Cons g gs)
  have "start + cs_sectors g \<le> UINT64_MAX" using Cons.prems tiled_le[of "start + cs_sectors g" gs stop] by simp
  then have "add_u64 start (cs_sectors g) = Some (start + cs_sectors g)"
    by (simp add: add_u64_def UINT64_MAX_def)
  with Cons show ?case by simp
qed simp

lemma tiled_starts:
  "tiled start gs stop \<Longrightarrow> \<forall>g \<in> set gs. 0 < cs_sectors g \<Longrightarrow>
   sorted (map cs_output_sector gs) \<and> distinct (map cs_output_sector gs) \<and> (\<forall>g \<in> set gs. start \<le> cs_output_sector g)"
proof (induction gs arbitrary: start)
  case (Cons g gs)
  then have t: "tiled (start + cs_sectors g) gs stop" "\<forall>h \<in> set gs. 0 < cs_sectors h" "0 < cs_sectors g" "cs_output_sector g = start"
    by simp_all
  from Cons.IH[OF t(1,2)] show ?case using t(3,4) by fastforce
qed simp

text \<open>Sorting segments that tile the image in some order puts them in that order.\<close>

lemma qsort_tiled:
  assumes "tiled start gs stop" and "\<forall>g \<in> set gs. 0 < cs_sectors g" and "mset gs = mset segments"
  shows "qsort compare_segments segments = gs"
proof -
  let ?q = "qsort compare_segments segments"
  have m: "mset ?q = mset gs" using assms(3) by simp
  have gs: "sorted (map cs_output_sector gs)" "distinct (map cs_output_sector gs)" using tiled_starts[OF assms(1,2)] by simp_all
  have "mset (map cs_output_sector ?q) = mset (map cs_output_sector gs)" using m by simp
  then have d: "distinct (map cs_output_sector ?q)" using gs(2) mset_eq_imp_distinct_iff by blast
  have "sorted_wrt (\<lambda>a b. cs_output_sector a \<le> cs_output_sector b) ?q"
    using segment_order.sorted_qsort[of segments]
    by (rule sorted_wrt_mono_rel[rotated]) (auto simp: compare_segments_def split: if_splits)
  then have s: "sorted (map cs_output_sector ?q)" by (simp add: sorted_map)
  have set: "set ?q = set gs" using m mset_eq_setD by blast
  have "inj_on cs_output_sector (set ?q \<union> set gs)" using gs(2) unfolding set by (simp add: distinct_map)
  from map_sorted_distinct_set_unique[OF this s d gs set] show ?thesis .
qed

lemma finish_layout_spec:
  assumes "builder_inv source_sectors (length (vec_items (cb_directories b))) b"
  defines "aligned \<equiv> (cb_next_sector b + 31) div 32 * 32"
  shows "(\<exists>b'. finish_compact_layout mem b = Inr (b', aligned)
        \<and> tiled 0 (vec_items (cb_segments b')) aligned \<and> set (vec_items (cb_segments b)) \<subseteq> set (vec_items (cb_segments b'))
        \<and> list_all (segment_ok source_sectors) (vec_items (cb_segments b'))
        \<and> cb_directories b' = cb_directories b \<and> cb_file_count b' = cb_file_count b)
    \<or> finish_compact_layout mem b = fail ERROR_INVALID_VOLUME ''compact XISO segment limit exceeded''
    \<or> finish_compact_layout mem b = fail ERROR_INTERNAL ''could not allocate compact XISO segments''"
proof -
  let ?n = "cb_next_sector b"
  have n: "?n \<le> two32" and lo: "laid_out b []" and ok: "list_all (segment_ok source_sectors) (vec_items (cb_segments b))"
    using assms(1) by (simp_all add: builder_inv_def)
  from lo obtain gs where gs: "tiled 0 gs ?n" "\<forall>g \<in> set gs. 0 < cs_sectors g" "mset gs = mset (vec_items (cb_segments b))"
    unfolding laid_out_def by auto
  have al: "?n \<le> aligned" "aligned \<le> UINT64_MAX" using n by (simp_all add: aligned_def UINT64_MAX_def)
  have small: "(?n > UINT64_MAX - 31) = False" using n by (simp add: UINT64_MAX_def)
  let ?z = "\<lparr>cs_output_sector = ?n, cs_sectors = aligned - ?n, cs_source_sector = 0, cs_content_bytes = 0,
    cs_memory = [], cs_kind = COMPACT_SEGMENT_ZERO\<rparr>"
  note code = finish_compact_layout_def[of mem b, unfolded Let_def, folded aligned_def, unfolded small if_False]
  show ?thesis
  proof (cases "aligned > ?n")
    case False
    then have eq: "aligned = ?n" using al by simp
    have q: "qsort compare_segments (vec_items (cb_segments b)) = gs" by (rule qsort_tiled[OF gs])
    have "check_layout 0 gs = Inr aligned" using tiled_check_layout gs(1) eq al by simp
    then have "finish_compact_layout mem b = Inr (b\<lparr>cb_segments := (cb_segments b)\<lparr>vec_items := gs\<rparr>\<rparr>, aligned)"
      using False by (simp add: code q)
    moreover have "set gs = set (vec_items (cb_segments b))" using gs(3) by (rule mset_eq_setD)
    ultimately show ?thesis using gs(1) eq ok by (simp add: list_all_iff)
  next
    case True
    show ?thesis
    proof (cases "push_segment mem b ?z")
      case (Inl e)
      then have "e = err ERROR_INVALID_VOLUME ''compact XISO segment limit exceeded''
          \<or> e = err ERROR_INTERNAL ''could not allocate compact XISO segments''"
        by (auto simp: push_segment_def split: sum.splits dest: vec_push_Inl)
      then show ?thesis using True Inl by (auto simp: code)
    next
      case (Inr b1)
      then obtain v where v: "b1 = b\<lparr>cb_segments := v\<rparr>" "vec_items v = vec_items (cb_segments b) @ [?z]"
        by (rule push_segment_Inr)
      have t: "tiled 0 (gs @ [?z]) aligned" using gs(1) al by (simp add: tiled_append)
      have "\<forall>g \<in> set (gs @ [?z]). 0 < cs_sectors g" using gs(2) True by auto
      moreover have m: "mset (gs @ [?z]) = mset (vec_items v)" using gs(3) v by simp
      ultimately have q: "qsort compare_segments (vec_items v) = gs @ [?z]" by (rule qsort_tiled[OF t])
      have "check_layout 0 (gs @ [?z]) = Inr aligned" using tiled_check_layout[OF t al(2)] .
      then have "finish_compact_layout mem b = Inr (b1\<lparr>cb_segments := v\<lparr>vec_items := gs @ [?z]\<rparr>\<rparr>, aligned)"
        using True Inr v(1) by (simp add: code q)
      moreover have "set gs = set (vec_items (cb_segments b))" using gs(3) by (rule mset_eq_setD)
      ultimately show ?thesis using t v ok by (auto simp: list_all_iff segment_ok_def)
    qed
  qed
qed

section \<open>The directories in turn\<close>

lemma process_directory_handle:
  assumes "process_directory mem ops source b k = (r, h)"
  shows "h = source \<or> (\<exists>lba blocks n q. gdox_source_read ops source lba blocks n = (q, h))"
proof -
  let ?d = "vec_items (cb_directories b) ! k"
  let ?n = "u64_mul (required_sectors (cd_size ?d)) GDOX_LOGICAL_SECTOR_BYTES"
  obtain q h1 where "gdox_source_read ops source (cd_source_sector ?d) (u32_cast (required_sectors (cd_size ?d))) ?n = (q, h1)"
    by fastforce
  moreover from this have "h = source \<or> h = h1"
    using assms by (cases q) (simp_all add: process_directory_def Let_def split: if_splits sum.splits)
  ultimately show ?thesis by blast
qed

context sector_source
begin

lemma process_directory_inv:
  assumes "valid s" and "builder_inv (op_sector_count ops s) k b" and "k < length (vec_items (cb_directories b))"
    and "process_directory mem ops (Some s) b k = (r, h)"
  shows "\<exists>s'. h = Some s' \<and> view_kept ops valid contents s s'
    \<and> (\<forall>b'. r = Inr b' \<longrightarrow> builder_inv (op_sector_count ops s) (Suc k) b')"
proof -
  have h: "\<exists>s'. h = Some s' \<and> view_kept ops valid contents s s'"
    using process_directory_handle[OF assms(4)] source_read_view[OF assms(1)] view_kept_refl[of valid, OF assms(1)] by metis
  moreover have "builder_inv (op_sector_count ops s) (Suc k) b'" if r: "r = Inr b'" for b'
  proof -
    define d where "d = vec_items (cb_directories b) ! k"
    obtain bytes b1 table where rd: "gdox_source_read ops (Some s) (cd_source_sector d) (required_sectors (cd_size d))
       (required_sectors (cd_size d) * GDOX_LOGICAL_SECTOR_BYTES) = (Inr bytes, h)"
      and tr: "table_walked mem (gdox_source_sector_count ops h) b d (directory_table bytes (cd_size d)) b1 table"
      and ap: "append_compact_directory_table mem b1 d (required_sectors (cd_size d)) table = Inr b'"
      using process_directory_cases[OF assms(4)[unfolded r] builder_inv_sizes[OF assms(2)] assms(3)] unfolding d_def by blast
    obtain s' where s': "h = Some s'" "op_sector_count ops s' = op_sector_count ops s" using h by (auto simp: view_kept_def)
    have len: "length bytes = required_sectors (cd_size d) * GDOX_LOGICAL_SECTOR_BYTES"
      using source_read_view[OF assms(1) rd] by auto
    have "builder_inv (op_sector_count ops s) k b1 \<and> length table = length bytes \<and> builder_extends b b1"
      using table_walked_inv[OF tr, of k] assms(2) s' by simp
    then obtain ds where b1: "builder_inv (op_sector_count ops s) k b1" "length table = length bytes"
        "vec_items (cb_directories b1) = vec_items (cb_directories b) @ ds" by (auto simp: builder_extends_def)
    show ?thesis
      by (rule append_table_inv[OF ap b1(1)]) (use b1 assms(3) d_def len in \<open>simp_all add: nth_append\<close>)
  qed
  ultimately show ?thesis by blast
qed

lemma process_directories_inv:
  assumes "process_directories mem ops (Some s) b k = (r, h)" and "valid s" and "builder_inv (op_sector_count ops s) k b"
  shows "\<exists>s'. h = Some s' \<and> view_kept ops valid contents s s'
    \<and> (\<forall>b'. r = Inr b' \<longrightarrow> builder_inv (op_sector_count ops s) (length (vec_items (cb_directories b'))) b' \<and> builder_extends b b')"
  using assms
proof (induction "max (length (vec_items (cb_directories b))) COMPACT_MAX_DIRECTORIES - k" arbitrary: s b k rule: less_induct)
  case less
  show ?case
  proof (cases "k < length (vec_items (cb_directories b))")
    case False
    then have "k = length (vec_items (cb_directories b))" using less.prems(3) by (simp add: builder_inv_def)
    then show ?thesis
      using less.prems False by (auto simp: process_directories.simps[of _ _ _ b] view_kept_refl builder_extends_refl)
  next
    case True
    obtain q h1 where pd: "process_directory mem ops (Some s) b k = (q, h1)" by fastforce
    from process_directory_inv[OF less.prems(2,3) True pd] obtain s1 where s1: "h1 = Some s1" "view_kept ops valid contents s s1"
      and inv: "\<forall>b'. q = Inr b' \<longrightarrow> builder_inv (op_sector_count ops s) (Suc k) b'" by blast
    show ?thesis
    proof (cases q)
      case (Inl e)
      then show ?thesis using less.prems(1) True pd s1 by (auto simp: process_directories.simps[of _ _ _ b])
    next
      case (Inr b1)
      have rest: "process_directories mem ops (Some s1) b1 (Suc k) = (r, h)"
        using less.prems(1) True pd s1 Inr by (simp add: process_directories.simps[of _ _ _ b])
      have ext: "builder_extends b b1" using process_directory_extends pd Inr by blast
      have v: "valid s1" "op_sector_count ops s1 = op_sector_count ops s" using s1(2) by (simp_all add: view_kept_def)
      have "max (length (vec_items (cb_directories b1))) COMPACT_MAX_DIRECTORIES - Suc k
          < max (length (vec_items (cb_directories b))) COMPACT_MAX_DIRECTORIES - k"
        using ext True by (auto simp: builder_extends_def)
      from less.hyps[OF this rest v(1)] inv Inr v(2) show ?thesis
        using view_kept_trans[OF s1(2)] builder_extends_trans[OF ext] by (metis v(2))
    qed
  qed
qed

end

end
