(* ===== verification/CompactTree.thy ===== *)
theory CompactTree
  imports CompactLayout
begin

text \<open>
  The compact image holds the files of the partition. The specification is \<open>stored_file\<close>: the files
  of a directory tree, each with its path, attributes and contents, read off the bytes of a medium.
  A processed table is the original one with the sector field of every linked entry replaced
  (\<open>relocated\<close>); with the regions of the layout this makes the tree of the image the tree of the
  partition. Entries that overlap would have one entry's new sector overwrite another entry's bytes,
  so the theorem is about tables whose linked entries lie apart.
\<close>

section \<open>The files of a tree\<close>

text \<open>A directory's table, zero behind the directory's size.\<close>

definition tree_table :: "(nat \<Rightarrow> byte) \<Rightarrow> nat \<Rightarrow> nat \<Rightarrow> byte list" where
  "tree_table f start n = directory_table (volume_span f 0 start n) n"

definition node_name :: "byte list \<Rightarrow> nat \<Rightarrow> byte list" where
  "node_name data offset = take (unat (data ! (offset + 13))) (drop (offset + 14) data)"

inductive stored_file :: "(nat \<Rightarrow> byte) \<Rightarrow> nat \<Rightarrow> nat \<Rightarrow> byte list list \<Rightarrow> byte \<Rightarrow> byte list \<Rightarrow> bool" for f where
  file_here: "\<not> bytes_are_empty_directory (tree_table f start n) n \<Longrightarrow> offset \<in> linked (tree_table f start n) \<Longrightarrow>
    tree_table f start n ! (offset + 12) AND 16 = 0 \<Longrightarrow>
    stored_file f start n [node_name (tree_table f start n) offset] (tree_table f start n ! (offset + 12))
      (span f (le_u32 (tree_table f start n) (offset + 4) * GDOX_LOGICAL_SECTOR_BYTES) (le_u32 (tree_table f start n) (offset + 8)))"
| file_below: "\<not> bytes_are_empty_directory (tree_table f start n) n \<Longrightarrow> offset \<in> linked (tree_table f start n) \<Longrightarrow>
    tree_table f start n ! (offset + 12) AND 16 \<noteq> 0 \<Longrightarrow>
    stored_file f (le_u32 (tree_table f start n) (offset + 4)) (le_u32 (tree_table f start n) (offset + 8)) path attributes content \<Longrightarrow>
    stored_file f start n (node_name (tree_table f start n) offset # path) attributes content"

text \<open>The directories of a tree.\<close>

inductive_set directory_extents :: "(nat \<Rightarrow> byte) \<Rightarrow> nat \<Rightarrow> nat \<Rightarrow> (nat \<times> nat) set" for f start n where
  extent_root: "(start, n) \<in> directory_extents f start n"
| extent_child: "(s, m) \<in> directory_extents f start n \<Longrightarrow> \<not> bytes_are_empty_directory (tree_table f s m) m \<Longrightarrow>
    offset \<in> linked (tree_table f s m) \<Longrightarrow> tree_table f s m ! (offset + 12) AND 16 \<noteq> 0 \<Longrightarrow>
    (le_u32 (tree_table f s m) (offset + 4), le_u32 (tree_table f s m) (offset + 8)) \<in> directory_extents f start n"

definition node_stop :: "byte list \<Rightarrow> nat \<Rightarrow> nat" where
  "node_stop data offset = offset + 14 + unat (data ! (offset + 13))"

definition nodes_apart :: "byte list \<Rightarrow> bool" where
  "nodes_apart data \<longleftrightarrow>
     (\<forall>p \<in> linked data. \<forall>q \<in> linked data. p \<noteq> q \<longrightarrow> node_stop data p \<le> q \<or> node_stop data q \<le> p)"

lemma apart_fields:
  assumes "nodes_apart data" "p \<in> linked data" "q \<in> linked data" "p \<noteq> q" "q + 4 \<le> a" "a < q + 8"
  shows "a < p \<or> node_stop data p \<le> a"
  using assms(1)[unfolded nodes_apart_def, rule_format, OF assms(2-4)] assms(5,6) by (auto simp: node_stop_def)

section \<open>Tables that agree on their nodes\<close>

lemma le_frame:
  "(\<And>a. p \<le> a \<Longrightarrow> a < p + 2 \<Longrightarrow> data' ! a = data ! a) \<Longrightarrow> le_u16 data' p = le_u16 data p"
  "(\<And>a. p \<le> a \<Longrightarrow> a < p + 4 \<Longrightarrow> data' ! a = data ! a) \<Longrightarrow> le_u32 data' p = le_u32 data p"
  by (simp_all add: le_u16_def le_u32_def)

lemma node_links_frame:
  "(\<And>a. p \<le> a \<Longrightarrow> a < p + 4 \<Longrightarrow> data' ! a = data ! a) \<Longrightarrow> node_links data' p = node_links data p"
  using le_frame(1)[of p data' data] le_frame(1)[of "p + 2" data' data]
  by (simp add: node_links_def directory_u16_def)

lemma linked_frame:
  assumes "\<And>p a. p \<in> linked data \<Longrightarrow> p \<le> a \<Longrightarrow> a < p + 4 \<Longrightarrow> data' ! a = data ! a"
  shows "linked data' = linked data"
proof -
  have links: "p \<in> linked data \<Longrightarrow> node_links data' p = node_links data p" for p
    by (rule node_links_frame) (rule assms)
  show ?thesis
  proof (intro set_eqI iffI)
    fix p assume "p \<in> linked data'"
    then show "p \<in> linked data" by induction (auto simp: links intro: linked.intros)
  next
    fix p assume "p \<in> linked data"
    then show "p \<in> linked data'" by induction (auto simp: links intro: linked.intros)
  qed
qed

section \<open>What a walk does to a table\<close>

definition entry_recorded :: "compact_builder \<Rightarrow> byte list \<Rightarrow> byte list \<Rightarrow> nat \<Rightarrow> bool" where
  "entry_recorded b data table offset \<longleftrightarrow>
     (let source_sector = le_u32 data (offset + 4); n = le_u32 data (offset + 8); out = le_u32 table (offset + 4)
      in if data ! (offset + 12) AND 16 \<noteq> 0
         then \<exists>d \<in> set (vec_items (cb_directories b)).
                cd_source_sector d = source_sector \<and> cd_size d = n \<and> cd_output_sector d = out
         else \<exists>g \<in> set (vec_items (cb_segments b)).
                cs_output_sector g = out \<and> cs_sectors g = required_sectors n \<and> cs_source_sector g = source_sector
                \<and> cs_content_bytes g = n \<and> cs_kind g = (if n = 0 then COMPACT_SEGMENT_ZERO else COMPACT_SEGMENT_FILE))"

lemma entry_recorded_extends:
  "entry_recorded b data table p \<Longrightarrow> builder_extends b b' \<Longrightarrow> entry_recorded b' data table p"
  by (auto simp: entry_recorded_def builder_extends_def Let_def split: if_splits)

lemma entry_recorded_frame:
  "entry_recorded b data table p \<Longrightarrow> le_u32 table' (p + 4) = le_u32 table (p + 4) \<Longrightarrow> entry_recorded b data table' p"
  by (simp add: entry_recorded_def)

lemma entry_placed_recorded:
  assumes "entry_placed source_sectors depth (le_u32 data (p + 4)) (le_u32 data (p + 8)) (data ! (p + 12)) b b'"
    and "le_u32 table (p + 4) = cb_next_sector b"
  shows "entry_recorded b' data table p"
  using assms by (auto simp: entry_placed_def entry_recorded_def Let_def split: if_splits)

text \<open>
  Invariant of the walk over the table \<open>data\<close> after the nodes \<open>seen\<close>: as for the plain walk, and the
  reader's copy differs from \<open>data\<close> in the sector fields of those nodes only, each of which holds the
  region recorded for it. All directories of the builder are in \<open>extents\<close>.
\<close>

definition relocation_inv :: "(nat \<times> nat) set \<Rightarrow> byte list \<Rightarrow> nat list \<Rightarrow> compact_directory_reader \<Rightarrow> bool" where
  "relocation_inv extents data seen r \<longleftrightarrow>
     distinct seen \<and> cd_size (cr_directory r) \<le> 4 * length (cr_visited r)
     \<and> list_all (node_fits data (cd_size (cr_directory r))) seen
     \<and> (\<forall>slot < length (cr_visited r). cr_visited r ! slot \<longleftrightarrow> 4 * slot \<in> set seen)
     \<and> set seen \<union> set (vec_items (cr_pending r)) \<subseteq> linked data
     \<and> 0 \<in> set seen \<union> set (vec_items (cr_pending r))
     \<and> (\<forall>p \<in> set seen. set (node_links data p) \<subseteq> set seen \<union> set (vec_items (cr_pending r)))
     \<and> length (cr_data r) = length data \<and> cd_size (cr_directory r) \<le> length data
     \<and> (\<forall>a. (\<forall>p \<in> set seen. \<not> (p + 4 \<le> a \<and> a < p + 8)) \<longrightarrow> cr_data r ! a = data ! a)
     \<and> (\<forall>p \<in> set seen. entry_recorded (cr_builder r) data (cr_data r) p)
     \<and> (\<forall>d \<in> set (vec_items (cb_directories (cr_builder r))). (cd_source_sector d, cd_size d) \<in> extents)"

lemma relocation_fresh_bytes:
  assumes "relocation_inv extents data seen r" and "nodes_apart data" and "p \<in> linked data" and "p \<notin> set seen"
    and "p \<le> a" and "a < p + 14"
  shows "cr_data r ! a = data ! a"
proof -
  have "\<not> (q + 4 \<le> a \<and> a < q + 8)" if "q \<in> set seen" for q
    using apart_fields[OF assms(2,3), of q a] that assms by (auto simp: relocation_inv_def node_stop_def)
  then show ?thesis using assms(1) by (simp add: relocation_inv_def)
qed

lemma step_relocation:
  assumes inv: "relocation_inv extents data seen r" and ap: "nodes_apart data" and p: "vec_items (cr_pending r) \<noteq> []"
    and kids: "\<And>q. q \<in> linked data \<Longrightarrow> data ! (q + 12) AND 16 \<noteq> 0 \<Longrightarrow> (le_u32 data (q + 4), le_u32 data (q + 8)) \<in> extents"
    and step: "compact_entry_step mem source_sectors (r\<lparr>cr_pending := vec_pop (cr_pending r)\<rparr>)
      (last (vec_items (cr_pending r))) = Inr r'"
  shows "\<exists>seen'. relocation_inv extents data seen' r' \<and> cr_directory r' = cr_directory r"
proof -
  let ?o = "last (vec_items (cr_pending r))"
  have pend: "vec_items (cr_pending r) = butlast (vec_items (cr_pending r)) @ [?o]" using p by simp
  have o_linked: "?o \<in> linked data" using inv p by (auto simp: relocation_inv_def)
  from step show ?thesis
  proof (cases rule: entry_step_cases)
    case seen
    have "?o div 4 < length (cr_visited r)"
      using directory_slot_in_bounds[of "cd_size (cr_directory r)" "cr_visited r" ?o] seen inv by (simp add: relocation_inv_def)
    then have "4 * (?o div 4) \<in> set seen"
      using seen inv by (simp add: relocation_inv_def slot_visited_def)
    moreover have "4 * (?o div 4) = ?o" using seen by presburger
    ultimately have "?o \<in> set seen" by simp
    then have "set seen \<union> set (vec_items (cr_pending r)) = set seen \<union> set (butlast (vec_items (cr_pending r)))"
      by (subst pend) auto
    then show ?thesis using inv seen by (intro exI[of _ seen]) (simp add: relocation_inv_def)
  next
    case fresh
    then have slot: "?o div 4 < length (cr_visited r)" "\<not> cr_visited r ! (?o div 4)" "4 * (?o div 4) = ?o"
      by (auto simp: slot_visited_def node_fits_def)
    have new: "?o \<notin> set seen" using inv slot by (auto simp: relocation_inv_def)
    note same = relocation_fresh_bytes[OF inv ap o_linked new]
    have fields: "le_u32 (cr_data r) (?o + 4) = le_u32 data (?o + 4)" "le_u32 (cr_data r) (?o + 8) = le_u32 data (?o + 8)"
      "cr_data r ! (?o + 12) = data ! (?o + 12)" "cr_data r ! (?o + 13) = data ! (?o + 13)" "node_links (cr_data r) ?o = node_links data ?o"
      by (auto intro!: le_frame node_links_frame same)
    have fits: "node_fits data (cd_size (cr_directory r)) ?o" using fresh(1) fields(4) by (simp add: node_fits_def)
    have placed: "entry_placed source_sectors (cd_depth (cr_directory r)) (le_u32 data (?o + 4)) (le_u32 data (?o + 8))
        (data ! (?o + 12)) (cr_builder r) (cr_builder r')"
      using fresh(7) fields by simp
    note ext = entry_placed_extends[OF placed]
    have in_table: "?o + 4 + 4 \<le> length (cr_data r)"
      using fits inv by (simp add: node_fits_def relocation_inv_def)
    have next32: "cb_next_sector (cr_builder r) < two32" using placed by (simp add: entry_placed_def Let_def UINT32_MAX_def)
    have d': "cr_data r' = put_le_u32 (cr_data r) (?o + 4) (cb_next_sector (cr_builder r))" using fresh by simp
    have here: "le_u32 (cr_data r') (?o + 4) = cb_next_sector (cr_builder r)"
      unfolding d' by (rule le_u32_put_le_u32[OF in_table next32])
    have other: "le_u32 (cr_data r') (q + 4) = le_u32 (cr_data r) (q + 4)" if "q \<in> set seen" for q
    proof (rule le_frame(2))
      fix a assume a: "q + 4 \<le> a" "a < q + 4 + 4"
      have "q \<in> linked data" "?o \<noteq> q" using that inv new by (auto simp: relocation_inv_def)
      from apart_fields[OF ap o_linked this(1,2), of a] a have "a < ?o \<or> ?o + 14 \<le> a" by (auto simp: node_stop_def)
      then show "cr_data r' ! a = cr_data r ! a" unfolding d' by (intro nth_put_le_u32) auto
    qed
    have sub: "set (node_links data ?o) \<subseteq> linked data" using o_linked by (auto intro: linked.link)
    have all: "set (seen @ [?o]) \<union> set (vec_items (cr_pending r')) =
        set seen \<union> set (vec_items (cr_pending r)) \<union> set (node_links data ?o)"
      using fresh(6) fields(5) by (subst pend) auto
    have "relocation_inv extents data (seen @ [?o]) r'"
      unfolding relocation_inv_def
    proof (intro conjI)
      show "distinct (seen @ [?o])" using inv new by (simp add: relocation_inv_def)
      show "cd_size (cr_directory r') \<le> 4 * length (cr_visited r')" using inv fresh by (simp add: relocation_inv_def)
      show "list_all (node_fits data (cd_size (cr_directory r'))) (seen @ [?o])" using inv fits fresh by (simp add: relocation_inv_def)
      show "\<forall>slot < length (cr_visited r'). cr_visited r' ! slot \<longleftrightarrow> 4 * slot \<in> set (seen @ [?o])"
        using inv fresh(4) slot by (auto simp: relocation_inv_def nth_list_update)
      show "set (seen @ [?o]) \<union> set (vec_items (cr_pending r')) \<subseteq> linked data"
        unfolding all using inv sub by (simp add: relocation_inv_def)
      show "0 \<in> set (seen @ [?o]) \<union> set (vec_items (cr_pending r'))"
        unfolding all using inv by (simp add: relocation_inv_def)
      show "\<forall>p \<in> set (seen @ [?o]). set (node_links data p) \<subseteq> set (seen @ [?o]) \<union> set (vec_items (cr_pending r'))"
        unfolding all using inv by (auto simp: relocation_inv_def)
      show "length (cr_data r') = length data" "cd_size (cr_directory r') \<le> length data"
        using inv fresh by (simp_all add: relocation_inv_def)
      show "\<forall>a. (\<forall>p \<in> set (seen @ [?o]). \<not> (p + 4 \<le> a \<and> a < p + 8)) \<longrightarrow> cr_data r' ! a = data ! a"
        using inv by (auto simp: relocation_inv_def d' nth_put_le_u32 not_le not_less)
      show "\<forall>p \<in> set (seen @ [?o]). entry_recorded (cr_builder r') data (cr_data r') p"
      proof
        fix q assume "q \<in> set (seen @ [?o])"
        then consider "q = ?o" | "q \<in> set seen" by auto
        then show "entry_recorded (cr_builder r') data (cr_data r') q"
        proof cases
          case 2
          then have "entry_recorded (cr_builder r) data (cr_data r) q" using inv by (simp add: relocation_inv_def)
          then show ?thesis by (rule entry_recorded_frame[OF entry_recorded_extends[OF _ ext] other[OF 2]])
        qed (simp add: entry_placed_recorded[OF placed here])
      qed
      show "\<forall>d \<in> set (vec_items (cb_directories (cr_builder r'))). (cd_source_sector d, cd_size d) \<in> extents"
        using inv placed kids[OF o_linked] by (auto simp: relocation_inv_def entry_placed_def Let_def split: if_splits)
    qed
    with fresh show ?thesis by auto
  qed
qed

lemma walk_relocation:
  assumes "compact_walk mem source_sectors r = Inr r'" and "relocation_inv extents data seen r" and "nodes_apart data"
    and "\<And>q. q \<in> linked data \<Longrightarrow> data ! (q + 12) AND 16 \<noteq> 0 \<Longrightarrow> (le_u32 data (q + 4), le_u32 data (q + 8)) \<in> extents"
  shows "\<exists>seen'. relocation_inv extents data seen' r' \<and> vec_items (cr_pending r') = [] \<and> cr_directory r' = cr_directory r"
  using assms
proof (induction mem source_sectors r arbitrary: seen rule: compact_walk.induct)
  case (1 mem source_sectors r)
  show ?case
  proof (cases "vec_items (cr_pending r) = []")
    case True
    then show ?thesis using "1.prems" by (auto simp: compact_walk.simps)
  next
    case False
    then obtain r1 where r1: "compact_entry_step mem source_sectors (r\<lparr>cr_pending := vec_pop (cr_pending r)\<rparr>)
        (last (vec_items (cr_pending r))) = Inr r1" "compact_walk mem source_sectors r1 = Inr r'"
      using trans[OF compact_walk.simps[symmetric] "1.prems"(1)] by (auto split: sum.splits)
    from step_relocation[OF "1.prems"(2,3) False "1.prems"(4) r1(1)] obtain seen1
      where "relocation_inv extents data seen1 r1" "cr_directory r1 = cr_directory r" by blast
    then show ?thesis using "1.IH"[OF False r1(1,2) _ "1.prems"(3,4)] by simp
  qed
qed

text \<open>The table of a processed directory against the original.\<close>

definition relocated :: "compact_builder \<Rightarrow> byte list \<Rightarrow> nat \<Rightarrow> byte list \<Rightarrow> bool" where
  "relocated b data n table \<longleftrightarrow>
     length table = length data \<and> n \<le> length data
     \<and> (\<forall>a. (\<forall>p \<in> linked data. \<not> (p + 4 \<le> a \<and> a < p + 8)) \<longrightarrow> table ! a = data ! a)
     \<and> (\<forall>p \<in> linked data. node_fits data n p \<and> entry_recorded b data table p)"

lemma relocated_extends: "relocated b data n table \<Longrightarrow> builder_extends b b' \<Longrightarrow> relocated b' data n table"
  by (auto simp: relocated_def intro: entry_recorded_extends)

lemma traverse_relocates:
  assumes tr: "traverse_compact_directory mem source_sectors b d data = Inr r" and "nodes_apart data"
    and "cd_size d \<le> length data"
    and "\<And>q. q \<in> linked data \<Longrightarrow> data ! (q + 12) AND 16 \<noteq> 0 \<Longrightarrow> (le_u32 data (q + 4), le_u32 data (q + 8)) \<in> extents"
    and "\<forall>d \<in> set (vec_items (cb_directories b)). (cd_source_sector d, cd_size d) \<in> extents"
  shows "relocated (cr_builder r) data (cd_size d) (cr_data r)
    \<and> (\<forall>d \<in> set (vec_items (cb_directories (cr_builder r))). (cd_source_sector d, cd_size d) \<in> extents)"
proof -
  obtain v where v: "push_offset mem vec_empty 0 = Inr v"
    and walk: "compact_walk mem source_sectors
       \<lparr>cr_builder = b, cr_directory = d, cr_data = data,
        cr_visited = replicate ((cd_size d + 3) div 4) False, cr_pending = v\<rparr> = Inr r"
    using tr by (auto simp: traverse_compact_directory_def Let_def split: if_splits sum.splits)
  have "relocation_inv extents data [] \<lparr>cr_builder = b, cr_directory = d, cr_data = data,
        cr_visited = replicate ((cd_size d + 3) div 4) False, cr_pending = v\<rparr>"
    using assms(3,5) push_offset_Inr(1)[OF v] by (auto simp: relocation_inv_def intro: linked.root)
  from walk_relocation[OF walk this assms(2,4)] obtain seen
    where inv: "relocation_inv extents data seen r" and "vec_items (cr_pending r) = []" and d: "cr_directory r = d" by auto
  then have "set seen \<subseteq> linked data" "0 \<in> set seen" and closed: "\<And>p. p \<in> set seen \<Longrightarrow> set (node_links data p) \<subseteq> set seen"
    by (auto simp: relocation_inv_def)
  moreover have "p \<in> set seen" if "p \<in> linked data" for p
    using that by induction (use \<open>0 \<in> set seen\<close> closed in auto)
  ultimately have "set seen = linked data" by blast
  then show ?thesis
    using inv d by (simp add: relocation_inv_def relocated_def list_all_iff)
qed

lemma relocated_linked:
  assumes "relocated b data n table" and "nodes_apart data" and "p \<in> linked data" and "p \<le> a" "a < node_stop data p"
    and "\<not> (p + 4 \<le> a \<and> a < p + 8)"
  shows "table ! a = data ! a"
proof -
  have "\<not> (q + 4 \<le> a \<and> a < q + 8)" if "q \<in> linked data" for q
    using apart_fields[OF assms(2,3) that, of a] assms(4-6) by (cases "q = p") auto
  then show ?thesis using assms(1) by (simp add: relocated_def)
qed

lemma relocated_nodes:
  assumes "relocated b data n table" and "nodes_apart data"
  shows "linked table = linked data"
    and "p \<in> linked data \<Longrightarrow> node_name table p = node_name data p"
    and "p \<in> linked data \<Longrightarrow> table ! (p + 12) = data ! (p + 12)"
    and "p \<in> linked data \<Longrightarrow> le_u32 table (p + 8) = le_u32 data (p + 8)"
proof -
  note same = relocated_linked[OF assms]
  show "linked table = linked data"
    by (rule linked_frame, rule same) (auto simp: node_stop_def)
  assume p: "p \<in> linked data"
  show att: "table ! (p + 12) = data ! (p + 12)" by (rule same[OF p]) (auto simp: node_stop_def)
  show "le_u32 table (p + 8) = le_u32 data (p + 8)"
    by (rule le_frame(2), rule same[OF p]) (auto simp: node_stop_def)
  have len: "table ! (p + 13) = data ! (p + 13)" by (rule same[OF p]) (auto simp: node_stop_def)
  have "p + 14 + unat (data ! (p + 13)) \<le> length data" "length table = length data"
    using assms(1) p by (auto simp: relocated_def node_fits_def)
  then show "node_name table p = node_name data p"
    unfolding node_name_def len by (intro nth_equalityI) (auto intro!: same[OF p] simp: node_stop_def)
qed

section \<open>The builder and the tree\<close>

text \<open>A directory whose table is in place.\<close>

definition table_segment :: "(nat \<Rightarrow> byte) \<Rightarrow> compact_builder \<Rightarrow> compact_directory \<Rightarrow> compact_segment \<Rightarrow> bool" where
  "table_segment f b d g \<longleftrightarrow>
     cs_kind g = COMPACT_SEGMENT_MEMORY \<and> cs_output_sector g = cd_output_sector d
     \<and> cs_sectors g = required_sectors (cd_size d)
     \<and> (let data = tree_table f (cd_source_sector d) (cd_size d)
        in if bytes_are_empty_directory data (cd_size d) then cs_memory g = data
           else relocated b data (cd_size d) (cs_memory g))"

definition table_placed :: "(nat \<Rightarrow> byte) \<Rightarrow> compact_builder \<Rightarrow> compact_directory \<Rightarrow> bool" where
  "table_placed f b d \<longleftrightarrow>
     0 < cd_size d \<and> cd_size d \<le> COMPACT_MAX_DIRECTORY_BYTES
     \<and> (\<exists>g \<in> set (vec_items (cb_segments b)). table_segment f b d g)"

lemma table_placed_extends:
  assumes "table_placed f b d" and "builder_extends b b'"
  shows "table_placed f b' d"
proof -
  obtain g where g: "g \<in> set (vec_items (cb_segments b))" "table_segment f b d g"
    using assms(1) by (auto simp: table_placed_def)
  have "table_segment f b' d g"
    using g(2) relocated_extends[OF _ assms(2)] by (simp add: table_segment_def Let_def split: if_splits)
  moreover have "g \<in> set (vec_items (cb_segments b'))" using g(1) assms(2) by (auto simp: builder_extends_def)
  ultimately show ?thesis using assms(1) by (auto simp: table_placed_def)
qed

definition tree_inv :: "(nat \<Rightarrow> byte) \<Rightarrow> (nat \<times> nat) set \<Rightarrow> nat \<Rightarrow> compact_builder \<Rightarrow> bool" where
  "tree_inv f extents k b \<longleftrightarrow>
     (\<forall>j < k. table_placed f b (vec_items (cb_directories b) ! j))
     \<and> (\<forall>d \<in> set (vec_items (cb_directories b)). (cd_source_sector d, cd_size d) \<in> extents)"

lemma sectors_of_required: "0 < n \<Longrightarrow> n < two32 \<Longrightarrow> required_sectors n = sectors_of n"
  by (simp add: required_sectors_def sectors_of_def)

lemma length_tree_table: "0 < n \<Longrightarrow> n < two32 \<Longrightarrow> length (tree_table f start n) = required_sectors n * GDOX_LOGICAL_SECTOR_BYTES"
  by (simp add: tree_table_def volume_span_def sectors_of_required)

context sector_source
begin

lemma process_directory_tree:
  assumes "valid s" and "builder_inv (op_sector_count ops s) k b" and "tree_inv (contents s) extents k b"
    and "k < length (vec_items (cb_directories b))"
    and "process_directory mem ops (Some s) b k = (Inr b', h)"
    and ap: "\<And>start n. (start, n) \<in> extents \<Longrightarrow> nodes_apart (tree_table (contents s) start n)"
    and kids: "\<And>start n q. (start, n) \<in> extents \<Longrightarrow> \<not> bytes_are_empty_directory (tree_table (contents s) start n) n \<Longrightarrow>
      q \<in> linked (tree_table (contents s) start n) \<Longrightarrow> tree_table (contents s) start n ! (q + 12) AND 16 \<noteq> 0 \<Longrightarrow>
      (le_u32 (tree_table (contents s) start n) (q + 4), le_u32 (tree_table (contents s) start n) (q + 8)) \<in> extents"
  shows "tree_inv (contents s) extents (Suc k) b'"
proof -
  define d where "d = vec_items (cb_directories b) ! k"
  have d_in: "d \<in> set (vec_items (cb_directories b))" using assms(4) by (simp add: d_def)
  have n32: "cd_size d < two32" using builder_inv_sizes[OF assms(2) d_in] .
  have ext: "(cd_source_sector d, cd_size d) \<in> extents" using assms(3) d_in by (simp add: tree_inv_def)
  obtain bytes b1 table where bounds: "0 < cd_size d" "cd_size d \<le> COMPACT_MAX_DIRECTORY_BYTES"
    and rd: "gdox_source_read ops (Some s) (cd_source_sector d) (required_sectors (cd_size d))
       (required_sectors (cd_size d) * GDOX_LOGICAL_SECTOR_BYTES) = (Inr bytes, h)"
    and tr: "table_walked mem (gdox_source_sector_count ops h) b d (directory_table bytes (cd_size d)) b1 table"
    and app: "append_compact_directory_table mem b1 d (required_sectors (cd_size d)) table = Inr b'"
    using process_directory_cases[OF assms(5) builder_inv_sizes[OF assms(2)] assms(4)] unfolding d_def by blast
  let ?t = "tree_table (contents s) (cd_source_sector d) (cd_size d)"
  have "bytes = volume_span (contents s) 0 (cd_source_sector d) (cd_size d)"
    using source_read_view[OF assms(1) rd] sectors_of_required[OF bounds(1) n32] by (auto simp: volume_span_def)
  then have t: "directory_table bytes (cd_size d) = ?t" by (simp add: tree_table_def)
  have len: "cd_size d \<le> length ?t"
    using length_tree_table[OF bounds(1) n32] required_sectors_bounds[OF n32] by simp
  have walked: "(if bytes_are_empty_directory ?t (cd_size d) then table = ?t else relocated b1 ?t (cd_size d) table)
      \<and> builder_extends b b1
      \<and> (\<forall>d \<in> set (vec_items (cb_directories b1)). (cd_source_sector d, cd_size d) \<in> extents)"
  proof (cases "bytes_are_empty_directory ?t (cd_size d)")
    case True
    then show ?thesis using tr t assms(3)
      by (auto simp: table_walked_def tree_inv_def builder_extends_metadata builder_extends_refl)
  next
    case False
    then obtain m r where r: "traverse_compact_directory mem (gdox_source_sector_count ops h) (b\<lparr>cb_metadata_bytes := m\<rparr>) d ?t = Inr r"
      "b1 = cr_builder r" "table = cr_data r" using tr t by (auto simp: table_walked_def)
    have "\<forall>d \<in> set (vec_items (cb_directories (b\<lparr>cb_metadata_bytes := m\<rparr>))). (cd_source_sector d, cd_size d) \<in> extents"
      using assms(3) by (simp add: tree_inv_def)
    from traverse_relocates[OF r(1) ap[OF ext] len kids[OF ext False] this]
    show ?thesis using False r traverse_extends[OF r(1)] by (simp add: builder_extends_metadata)
  qed
  let ?g = "\<lparr>cs_output_sector = cd_output_sector d, cs_sectors = required_sectors (cd_size d), cs_source_sector = 0,
        cs_content_bytes = cd_size d, cs_memory = table, cs_kind = COMPACT_SEGMENT_MEMORY\<rparr>"
  note ext1 = append_table_extends[OF app]
  from app obtain v where v: "b' = b1\<lparr>cb_segments := v\<rparr>" "vec_items v = vec_items (cb_segments b1) @ [?g]"
    unfolding append_compact_directory_table_def by (rule push_segment_Inr)
  have "table_segment (contents s) b' d ?g"
    using walked relocated_extends[OF _ ext1] by (simp add: table_segment_def Let_def split: if_splits)
  then have here: "table_placed (contents s) b' d" using bounds v by (auto simp: table_placed_def)
  have ext2: "builder_extends b b'" using walked ext1 builder_extends_trans by blast
  then have dirs: "j < length (vec_items (cb_directories b)) \<Longrightarrow>
      vec_items (cb_directories b') ! j = vec_items (cb_directories b) ! j" for j
    by (auto simp: builder_extends_def nth_append)
  have "table_placed (contents s) b' (vec_items (cb_directories b') ! j)" if "j < Suc k" for j
  proof (cases "j = k")
    case True
    then show ?thesis using here dirs assms(4) by (simp add: d_def)
  next
    case False
    then have "table_placed (contents s) b (vec_items (cb_directories b) ! j)" using assms(3) that by (simp add: tree_inv_def)
    then show ?thesis using table_placed_extends[OF _ ext2] dirs[of j] assms(4) that by simp
  qed
  then show ?thesis using walked v(1) by (simp add: tree_inv_def)
qed

lemma process_directories_tree:
  assumes "process_directories mem ops (Some s) b k = (Inr b', h)" and "valid s"
    and "builder_inv (op_sector_count ops s) k b" and "tree_inv (contents s) extents k b"
    and ap: "\<And>start n. (start, n) \<in> extents \<Longrightarrow> nodes_apart (tree_table (contents s) start n)"
    and kids: "\<And>start n q. (start, n) \<in> extents \<Longrightarrow> \<not> bytes_are_empty_directory (tree_table (contents s) start n) n \<Longrightarrow>
      q \<in> linked (tree_table (contents s) start n) \<Longrightarrow> tree_table (contents s) start n ! (q + 12) AND 16 \<noteq> 0 \<Longrightarrow>
      (le_u32 (tree_table (contents s) start n) (q + 4), le_u32 (tree_table (contents s) start n) (q + 8)) \<in> extents"
  shows "tree_inv (contents s) extents (length (vec_items (cb_directories b'))) b'"
  using assms
proof (induction "max (length (vec_items (cb_directories b))) COMPACT_MAX_DIRECTORIES - k" arbitrary: s b k rule: less_induct)
  case less
  show ?case
  proof (cases "k < length (vec_items (cb_directories b))")
    case False
    then have "k = length (vec_items (cb_directories b))" using less.prems(3) by (simp add: builder_inv_def)
    then show ?thesis using less.prems(1,4) False by (simp add: process_directories.simps[of _ _ _ b])
  next
    case True
    then obtain b1 h1 where pd: "process_directory mem ops (Some s) b k = (Inr b1, h1)"
      and rest: "process_directories mem ops h1 b1 (Suc k) = (Inr b', h)"
      using trans[OF process_directories.simps[symmetric] less.prems(1)] by (auto split: prod.splits sum.splits)
    from process_directory_inv[OF less.prems(2,3) True pd] obtain s1 where s1: "h1 = Some s1" "view_kept ops valid contents s s1"
      and inv: "builder_inv (op_sector_count ops s) (Suc k) b1" by blast
    have v: "valid s1" "op_sector_count ops s1 = op_sector_count ops s" "contents s1 = contents s" using s1(2) by (simp_all add: view_kept_def)
    note tree = process_directory_tree[OF less.prems(2-4) True pd less.prems(5,6)]
    have ext: "builder_extends b b1" using process_directory_extends[OF pd] .
    have "max (length (vec_items (cb_directories b1))) COMPACT_MAX_DIRECTORIES - Suc k
          < max (length (vec_items (cb_directories b))) COMPACT_MAX_DIRECTORIES - k"
      using ext True by (auto simp: builder_extends_def)
    from less.hyps[OF this rest[unfolded s1(1)] v(1), unfolded v] show ?thesis
      using inv tree less.prems(5,6) by blast
  qed
qed

end

section \<open>The tree of the image\<close>

text \<open>
  Two media whose directories match entry by entry: \<open>ds\<close> relates the sector of a directory on the
  first (\<open>cd_source_sector\<close>) with its sector on the second (\<open>cd_output_sector\<close>).
\<close>

definition tables_match :: "(nat \<Rightarrow> byte) \<Rightarrow> (nat \<Rightarrow> byte) \<Rightarrow> compact_directory set \<Rightarrow> compact_directory \<Rightarrow> bool" where
  "tables_match f v ds d \<longleftrightarrow>
     (let n = cd_size d; t = tree_table f (cd_source_sector d) n; t' = tree_table v (cd_output_sector d) n
      in bytes_are_empty_directory t' n = bytes_are_empty_directory t n
       \<and> (\<not> bytes_are_empty_directory t n \<longrightarrow>
            linked t' = linked t
            \<and> (\<forall>p \<in> linked t. node_name t' p = node_name t p \<and> t' ! (p + 12) = t ! (p + 12)
                \<and> le_u32 t' (p + 8) = le_u32 t (p + 8)
                \<and> (if t ! (p + 12) AND 16 \<noteq> 0
                   then \<exists>e \<in> ds. cd_source_sector e = le_u32 t (p + 4) \<and> cd_size e = le_u32 t (p + 8)
                          \<and> cd_output_sector e = le_u32 t' (p + 4)
                   else span v (le_u32 t' (p + 4) * GDOX_LOGICAL_SECTOR_BYTES) (le_u32 t (p + 8)) =
                        span f (le_u32 t (p + 4) * GDOX_LOGICAL_SECTOR_BYTES) (le_u32 t (p + 8))))))"

lemma tables_matchD:
  assumes "tables_match f v ds d"
  defines "t \<equiv> tree_table f (cd_source_sector d) (cd_size d)" and "t' \<equiv> tree_table v (cd_output_sector d) (cd_size d)"
  shows "bytes_are_empty_directory t' (cd_size d) = bytes_are_empty_directory t (cd_size d)"
    and "\<not> bytes_are_empty_directory t (cd_size d) \<Longrightarrow> linked t' = linked t"
    and "\<not> bytes_are_empty_directory t (cd_size d) \<Longrightarrow> p \<in> linked t \<Longrightarrow>
      node_name t' p = node_name t p \<and> t' ! (p + 12) = t ! (p + 12) \<and> le_u32 t' (p + 8) = le_u32 t (p + 8)"
    and "\<not> bytes_are_empty_directory t (cd_size d) \<Longrightarrow> p \<in> linked t \<Longrightarrow> t ! (p + 12) AND 16 \<noteq> 0 \<Longrightarrow>
      \<exists>e \<in> ds. cd_source_sector e = le_u32 t (p + 4) \<and> cd_size e = le_u32 t (p + 8) \<and> cd_output_sector e = le_u32 t' (p + 4)"
    and "\<not> bytes_are_empty_directory t (cd_size d) \<Longrightarrow> p \<in> linked t \<Longrightarrow> t ! (p + 12) AND 16 = 0 \<Longrightarrow>
      span v (le_u32 t' (p + 4) * GDOX_LOGICAL_SECTOR_BYTES) (le_u32 t (p + 8)) =
      span f (le_u32 t (p + 4) * GDOX_LOGICAL_SECTOR_BYTES) (le_u32 t (p + 8))"
  using assms(1) unfolding tables_match_def Let_def t_def t'_def by (simp_all split: if_splits)

lemma stored_file_image:
  "stored_file f start n path attributes content \<Longrightarrow> \<forall>d \<in> ds. tables_match f v ds d \<Longrightarrow>
   d \<in> ds \<Longrightarrow> cd_source_sector d = start \<Longrightarrow> cd_size d = n \<Longrightarrow>
   stored_file v (cd_output_sector d) n path attributes content"
proof (induction arbitrary: d rule: stored_file.induct)
  case (file_here start n p)
  then have m: "tables_match f v ds d" by blast
  note t = tables_matchD[OF m, unfolded file_here.prems(3,4)]
  have "stored_file v (cd_output_sector d) n [node_name (tree_table v (cd_output_sector d) n) p]
      (tree_table v (cd_output_sector d) n ! (p + 12))
      (span v (le_u32 (tree_table v (cd_output_sector d) n) (p + 4) * GDOX_LOGICAL_SECTOR_BYTES)
         (le_u32 (tree_table v (cd_output_sector d) n) (p + 8)))"
    using file_here.hyps t(1-3) by (intro stored_file.file_here) simp_all
  then show ?case using t(3,5) file_here.hyps by simp
next
  case (file_below start n p path attributes content)
  then have m: "tables_match f v ds d" by blast
  note t = tables_matchD[OF m, unfolded file_below.prems(3,4)]
  from t(4)[OF file_below.hyps(1-3)] obtain e where e: "e \<in> ds"
    "cd_source_sector e = le_u32 (tree_table f start n) (p + 4)" "cd_size e = le_u32 (tree_table f start n) (p + 8)"
    "cd_output_sector e = le_u32 (tree_table v (cd_output_sector d) n) (p + 4)" by blast
  from file_below.IH[OF file_below.prems(1) e(1-3)]
  have "stored_file v (cd_output_sector d) n (node_name (tree_table v (cd_output_sector d) n) p # path) attributes content"
    using file_below.hyps t(1-3) e(4) by (intro stored_file.file_below) simp_all
  then show ?case using t(3) file_below.hyps by simp
qed

lemma stored_file_original:
  "stored_file v start n path attributes content \<Longrightarrow> \<forall>d \<in> ds. tables_match f v ds d \<Longrightarrow>
   d \<in> ds \<Longrightarrow> cd_output_sector d = start \<Longrightarrow> cd_size d = n \<Longrightarrow>
   stored_file f (cd_source_sector d) n path attributes content"
proof (induction arbitrary: d rule: stored_file.induct)
  case (file_here start n p)
  then have m: "tables_match f v ds d" by blast
  note t = tables_matchD[OF m, unfolded file_here.prems(3,4)]
  have "stored_file f (cd_source_sector d) n [node_name (tree_table f (cd_source_sector d) n) p]
      (tree_table f (cd_source_sector d) n ! (p + 12))
      (span f (le_u32 (tree_table f (cd_source_sector d) n) (p + 4) * GDOX_LOGICAL_SECTOR_BYTES)
         (le_u32 (tree_table f (cd_source_sector d) n) (p + 8)))"
    using file_here.hyps t(1-3) by (intro stored_file.file_here) simp_all
  then show ?case using t(1,2,3,5) file_here.hyps by simp
next
  case (file_below start n p path attributes content)
  then have m: "tables_match f v ds d" by blast
  note t = tables_matchD[OF m, unfolded file_below.prems(3,4)]
  have p: "\<not> bytes_are_empty_directory (tree_table f (cd_source_sector d) n) n" "p \<in> linked (tree_table f (cd_source_sector d) n)"
    "tree_table f (cd_source_sector d) n ! (p + 12) AND 16 \<noteq> 0"
    using file_below.hyps(1-3) t(1-3) by simp_all
  from t(4)[OF p] obtain e where e: "e \<in> ds"
    "cd_source_sector e = le_u32 (tree_table f (cd_source_sector d) n) (p + 4)"
    "cd_size e = le_u32 (tree_table f (cd_source_sector d) n) (p + 8)"
    "cd_output_sector e = le_u32 (tree_table v start n) (p + 4)" by blast
  have "cd_size e = le_u32 (tree_table v start n) (p + 8)" using e(3) t(3)[OF p(1,2)] by simp
  from file_below.IH[OF file_below.prems(1) e(1,4) this]
  have "stored_file f (cd_source_sector d) n (node_name (tree_table f (cd_source_sector d) n) p # path) attributes content"
    using p t(3)[OF p(1,2)] e(2) by (intro stored_file.file_below) simp_all
  then show ?case using t(3)[OF p(1,2)] by simp
qed

text \<open>Reading segments of the layout through the view.\<close>

lemma view_segment:
  assumes "tiled 0 gs stop" and "g \<in> set gs" and "k \<le> cs_sectors g * GDOX_LOGICAL_SECTOR_BYTES"
  shows "span (compact_view f gs) (cs_output_sector g * GDOX_LOGICAL_SECTOR_BYTES) k = span (segment_byte f g) 0 k"
proof -
  obtain i where i: "i < length gs" "gs ! i = g" using assms(2) by (auto simp: in_set_conv_nth)
  have "span (compact_view f gs) (cs_output_sector g * GDOX_LOGICAL_SECTOR_BYTES) (cs_sectors g * GDOX_LOGICAL_SECTOR_BYTES) =
      span (segment_byte f g) 0 (cs_sectors g * GDOX_LOGICAL_SECTOR_BYTES)"
    using compact_view_span[OF assms(1) i(1), of "cs_output_sector g" "cs_sectors g" f] i(2) by (simp add: segment_stop_def)
  from arg_cong[OF this, of "take k"] show ?thesis using assms(3) by (simp add: take_span min_absorb1)
qed

lemma directory_table_idem: "directory_table (directory_table data n) n = directory_table data n"
  by (simp add: directory_table_def)

lemma nth_directory_table: "i < length bytes \<Longrightarrow> n \<le> i \<Longrightarrow> directory_table bytes n ! i = 0"
  by (simp add: directory_table_def nth_append)

lemma relocated_tail:
  assumes "relocated b (tree_table f start n) n table"
  shows "directory_table table n = table"
proof (rule nth_equalityI)
  fix i assume "i < length (directory_table table n)"
  then have i: "i < length table" by simp
  show "directory_table table n ! i = table ! i"
  proof (cases "i < n")
    case True
    then show ?thesis by (simp add: directory_table_def nth_append)
  next
    case False
    have "\<not> (p + 4 \<le> i \<and> i < p + 8)" if "p \<in> linked (tree_table f start n)" for p
      using assms that False by (auto simp: relocated_def node_fits_def)
    then have "table ! i = tree_table f start n ! i" using assms by (simp add: relocated_def)
    moreover have "length (tree_table f start n) = length table" using assms by (simp add: relocated_def)
    ultimately have "table ! i = 0"
      using nth_directory_table[of i "volume_span f 0 start n" n] False i by (simp add: tree_table_def)
    then show ?thesis using nth_directory_table[of i table n] False i by simp
  qed
qed simp

text \<open>The table of a processed directory, as the image shows it.\<close>

lemma image_table:
  assumes "tiled 0 gs stop" and "g \<in> set gs" and "table_segment f b d g" and "0 < cd_size d" and "cd_size d < two32"
  shows "tree_table (compact_view f gs) (cd_output_sector d) (cd_size d) = cs_memory g"
proof -
  let ?t = "tree_table f (cd_source_sector d) (cd_size d)"
  have g: "cs_kind g = COMPACT_SEGMENT_MEMORY" "cs_output_sector g = cd_output_sector d" "cs_sectors g = required_sectors (cd_size d)"
    using assms(3) by (simp_all add: table_segment_def)
  have mem: "length (cs_memory g) = length ?t \<and> directory_table (cs_memory g) (cd_size d) = cs_memory g"
  proof (cases "bytes_are_empty_directory ?t (cd_size d)")
    case True
    then have "cs_memory g = ?t" using assms(3) by (simp add: table_segment_def)
    then show ?thesis by (simp add: tree_table_def directory_table_idem)
  next
    case False
    then have "relocated b ?t (cd_size d) (cs_memory g)" using assms(3) by (simp add: table_segment_def)
    then show ?thesis using relocated_tail by (auto simp: relocated_def)
  qed
  have len: "length (cs_memory g) = required_sectors (cd_size d) * GDOX_LOGICAL_SECTOR_BYTES"
    using mem length_tree_table[OF assms(4,5)] by simp
  have "segment_byte f g = bytes_at (cs_memory g)" using g(1) by (simp add: segment_byte_def fun_eq_iff)
  then have "span (compact_view f gs) (cd_output_sector d * GDOX_LOGICAL_SECTOR_BYTES) (length (cs_memory g)) = cs_memory g"
    using view_segment[OF assms(1,2), of "length (cs_memory g)" f] len g span_bytes_at[of 0 "length (cs_memory g)" "cs_memory g"] by simp
  then have "volume_span (compact_view f gs) 0 (cd_output_sector d) (cd_size d) = cs_memory g"
    using len by (simp add: volume_span_def sectors_of_required[OF assms(4,5)])
  then show ?thesis using mem by (simp add: tree_table_def)
qed

lemma le_u32_full: "data ! p = 255 \<Longrightarrow> data ! (p + 1) = 255 \<Longrightarrow> data ! (p + 2) = 255 \<Longrightarrow> data ! (p + 3) = 255 \<Longrightarrow> le_u32 data p = 4294967295"
  by (simp add: le_u32_def join32_def)

text \<open>A table with entries does not turn into the empty one.\<close>

lemma relocated_not_empty:
  assumes "relocated b data n table" and "nodes_apart data" and "\<not> bytes_are_empty_directory data n"
    and "\<forall>d \<in> set (vec_items (cb_directories b)). cd_size d \<le> COMPACT_MAX_DIRECTORY_BYTES"
  shows "\<not> bytes_are_empty_directory table n"
proof
  assume "bytes_are_empty_directory table n"
  then have full: "table ! i = 255" if "i < 14" for i using that by (simp add: bytes_are_empty_directory_def list_all_iff)
  have root: "0 \<in> linked data" by (rule linked.root)
  have att: "data ! 12 = 255" using relocated_nodes(3)[OF assms(1,2) root] full[of 12] by simp
  have "le_u32 table 8 = 4294967295" using full[of 8] full[of 9] full[of 10] full[of 11] le_u32_full[of table 8] by simp
  then have n: "le_u32 data 8 = 4294967295" using relocated_nodes(4)[OF assms(1,2) root] by simp
  have "entry_recorded b data table 0" using assms(1) root by (simp add: relocated_def)
  moreover have "(255 :: byte) AND 16 \<noteq> 0" by simp
  ultimately obtain d where "d \<in> set (vec_items (cb_directories b))" "cd_size d = 4294967295"
    using att n by (auto simp: entry_recorded_def)
  then show False using assms(4) by (auto simp: COMPACT_MAX_DIRECTORY_BYTES_def)
qed

lemma placed_tables_match:
  assumes "tiled 0 gs stop" and "set (vec_items (cb_segments b)) \<subseteq> set gs"
    and placed: "\<forall>d \<in> set (vec_items (cb_directories b)). table_placed f b d"
    and apart: "\<forall>d \<in> set (vec_items (cb_directories b)). nodes_apart (tree_table f (cd_source_sector d) (cd_size d))"
    and d: "d \<in> set (vec_items (cb_directories b))"
  shows "tables_match f (compact_view f gs) (set (vec_items (cb_directories b))) d"
proof -
  let ?t = "tree_table f (cd_source_sector d) (cd_size d)"
  obtain g where g: "g \<in> set gs" "table_segment f b d g" and n: "0 < cd_size d" "cd_size d \<le> COMPACT_MAX_DIRECTORY_BYTES"
    using placed d assms(2) unfolding table_placed_def by blast
  have n32: "cd_size d < two32" using n(2) by (simp add: COMPACT_MAX_DIRECTORY_BYTES_def)
  have max: "\<forall>d \<in> set (vec_items (cb_directories b)). cd_size d \<le> COMPACT_MAX_DIRECTORY_BYTES"
    using placed by (simp add: table_placed_def)
  note image = image_table[OF assms(1) g n(1) n32]
  show ?thesis
  proof (cases "bytes_are_empty_directory ?t (cd_size d)")
    case True
    then have "cs_memory g = ?t" using g(2) by (simp add: table_segment_def)
    then show ?thesis using True by (simp add: tables_match_def image)
  next
    case False
    have r: "relocated b ?t (cd_size d) (cs_memory g)" using g(2) False by (simp add: table_segment_def)
    have ap: "nodes_apart ?t" using apart d by blast
    note nodes = relocated_nodes[OF r ap]
    have "span (compact_view f gs) (le_u32 (cs_memory g) (p + 4) * GDOX_LOGICAL_SECTOR_BYTES) (le_u32 ?t (p + 8)) =
        span f (le_u32 ?t (p + 4) * GDOX_LOGICAL_SECTOR_BYTES) (le_u32 ?t (p + 8))"
      if p: "p \<in> linked ?t" "?t ! (p + 12) AND 16 = 0" for p
    proof (cases "le_u32 ?t (p + 8) = 0")
      case False
      have "entry_recorded b ?t (cs_memory g) p" using r p(1) by (simp add: relocated_def)
      then obtain e where e: "e \<in> set (vec_items (cb_segments b))" "cs_output_sector e = le_u32 (cs_memory g) (p + 4)"
          "cs_sectors e = required_sectors (le_u32 ?t (p + 8))" "cs_source_sector e = le_u32 ?t (p + 4)"
          "cs_content_bytes e = le_u32 ?t (p + 8)" "cs_kind e = COMPACT_SEGMENT_FILE"
        using p(2) False by (auto simp: entry_recorded_def Let_def)
      have "le_u32 ?t (p + 8) \<le> cs_sectors e * GDOX_LOGICAL_SECTOR_BYTES"
        using required_sectors_bounds[OF reads_less(2)] e(3) by simp
      from view_segment[OF assms(1) _ this, of f] e(1) assms(2)
      have "span (compact_view f gs) (cs_output_sector e * GDOX_LOGICAL_SECTOR_BYTES) (le_u32 ?t (p + 8)) =
          span (segment_byte f e) 0 (le_u32 ?t (p + 8))" by blast
      also have "\<dots> = span f (cs_source_sector e * GDOX_LOGICAL_SECTOR_BYTES) (le_u32 ?t (p + 8))"
        using e(5,6) by (intro span_eqI) (simp_all add: segment_byte_def)
      finally show ?thesis by (simp only: e(2,4))
    qed simp
    moreover have "\<exists>e \<in> set (vec_items (cb_directories b)). cd_source_sector e = le_u32 ?t (p + 4)
        \<and> cd_size e = le_u32 ?t (p + 8) \<and> cd_output_sector e = le_u32 (cs_memory g) (p + 4)"
      if p: "p \<in> linked ?t" "?t ! (p + 12) AND 16 \<noteq> 0" for p
    proof -
      have "entry_recorded b ?t (cs_memory g) p" using r p(1) by (simp add: relocated_def)
      then show ?thesis using p(2) by (simp add: entry_recorded_def Let_def)
    qed
    moreover have "\<not> bytes_are_empty_directory (cs_memory g) (cd_size d)" by (rule relocated_not_empty[OF r ap False max])
    ultimately show ?thesis
      using False nodes by (simp add: tables_match_def image Let_def)
  qed
qed

section \<open>The volume of the image\<close>

lemma nth_put_bytes:
  "offset + length bytes \<le> length data \<Longrightarrow>
   put_bytes data offset bytes ! i = (if offset \<le> i \<and> i < offset + length bytes then bytes ! (i - offset) else data ! i)"
  by (auto simp: put_bytes_def nth_append)

lemma le_u64_put:
  assumes "p + 8 \<le> length data" and "v < two64"
  shows "unat (join64 (word_of_nat (le_u32 (put_le_u64 data p v) p)) (word_of_nat (le_u32 (put_le_u64 data p v) (p + 4)))) = v"
proof -
  let ?w = "word_of_nat v :: 64 word"
  let ?lo = "unat (?w AND 4294967295)" and ?hi = "unat (drop_bit 32 ?w)"
  have lo: "?lo < two32" using word_and_le1[of ?w 4294967295] by (simp add: word_le_nat_alt)
  have hi: "?hi < two32"
  proof -
    have "?hi = unat ?w div 2 ^ 32" unfolding unat_drop_bit_eq by (rule drop_bit_eq_div)
    then show ?thesis using unat_lt2p[of ?w] by simp
  qed
  have "le_u32 (put_le_u64 data p v) (p + 4) = ?hi"
    unfolding put_le_u64_def Let_def using assms(1) hi by (intro le_u32_put_le_u32) simp_all
  moreover have "le_u32 (put_le_u64 data p v) p = ?lo"
  proof -
    have "le_u32 (put_le_u64 data p v) p = le_u32 (put_le_u32 data p ?lo) p"
      unfolding put_le_u64_def Let_def by (intro le_frame(2) nth_put_le_u32) simp
    then show ?thesis using assms(1) lo by (simp add: le_u32_put_le_u32)
  qed
  moreover have "join64 (word_of_nat ?lo) (word_of_nat ?hi) = ?w" using join64_split[of ?w] by simp
  ultimately show ?thesis using assms(2) by (simp add: unat_word_of_nat_id)
qed

lemma nth_put_le_u64: "i < p \<or> p + 8 \<le> i \<Longrightarrow> put_le_u64 data p v ! i = data ! i"
  using nth_put_le_u32[of i p] nth_put_le_u32[of i "p + 4"] by (auto simp: put_le_u64_def Let_def)

text \<open>The descriptor sector of the header, field by field.\<close>

lemma header_fields:
  assumes "root < two32" and "root_directory_size volume < two32" and "image_timestamp volume < two64"
  defines "h \<equiv> compact_header volume root"
  shows "i < 20 \<Longrightarrow> h ! (65536 + i) = compact_magic ! i"
    and "i < 20 \<Longrightarrow> h ! (67564 + i) = compact_magic ! i"
    and "le_u32 h 65556 = root" and "le_u32 h 65560 = root_directory_size volume"
    and "unat (join64 (word_of_nat (le_u32 h 65564)) (word_of_nat (le_u32 h 65568))) = image_timestamp volume"
proof -
  define h0 where "h0 = put_bytes (replicate (COMPACT_HEADER_SECTORS * GDOX_LOGICAL_SECTOR_BYTES) 0) (32 * GDOX_LOGICAL_SECTOR_BYTES) compact_magic"
  define h1 where "h1 = put_le_u32 h0 65556 root"
  define h2 where "h2 = put_le_u32 h1 65560 (root_directory_size volume)"
  define h3 where "h3 = put_le_u64 h2 65564 (image_timestamp volume)"
  have h: "h = put_bytes h3 67564 compact_magic"
    by (simp add: h_def compact_header_def Let_def h0_def h1_def h2_def h3_def)
  have len: "length h0 = 67584" by (simp add: h0_def length_put_bytes COMPACT_HEADER_SECTORS_def)
  then have lens: "length h1 = 67584" "length h2 = 67584" "length h3 = 67584" by (simp_all add: h1_def h2_def h3_def)
  have top: "h ! i = (if 67564 \<le> i \<and> i < 67584 then compact_magic ! (i - 67564) else h3 ! i)" for i
    unfolding h using lens by (subst nth_put_bytes) simp_all
  show "i < 20 \<Longrightarrow> h ! (67564 + i) = compact_magic ! i" by (simp add: top)
  have "h0 ! (65536 + i) = compact_magic ! i" if "i < 20"
    unfolding h0_def using that by (subst nth_put_bytes) (simp_all add: COMPACT_HEADER_SECTORS_def)
  then show "i < 20 \<Longrightarrow> h ! (65536 + i) = compact_magic ! i"
    by (simp add: top h3_def h2_def h1_def nth_put_le_u64 nth_put_le_u32)
  have "le_u32 h 65556 = le_u32 h1 65556"
    by (rule le_frame(2)) (simp add: top h3_def h2_def nth_put_le_u64 nth_put_le_u32)
  also have "\<dots> = root" unfolding h1_def using len assms(1) by (intro le_u32_put_le_u32) simp_all
  finally show "le_u32 h 65556 = root" .
  have "le_u32 h 65560 = le_u32 h2 65560"
    by (rule le_frame(2)) (simp add: top h3_def nth_put_le_u64)
  also have "\<dots> = root_directory_size volume" unfolding h2_def using lens assms(2) by (intro le_u32_put_le_u32) simp_all
  finally show "le_u32 h 65560 = root_directory_size volume" .
  have "le_u32 h 65564 = le_u32 h3 65564" "le_u32 h 65568 = le_u32 h3 65568"
    by (rule le_frame(2), simp add: top)+
  then show "unat (join64 (word_of_nat (le_u32 h 65564)) (word_of_nat (le_u32 h 65568))) = image_timestamp volume"
    using le_u64_put[of 65564 h2 "image_timestamp volume"] lens assms(3) by (simp add: h3_def)
qed

lemma header_descriptor:
  assumes "root < two32" and "0 < root_directory_size volume" and "root_directory_size volume \<le> COMPACT_MAX_DIRECTORY_BYTES"
    and "image_timestamp volume < two64" and "base_lba volume = 0"
  defines "sector \<equiv> take GDOX_LOGICAL_SECTOR_BYTES (drop 65536 (compact_header volume root))"
  shows "descriptor_magic_valid sector" and "parse_descriptor sector 32 = Inr (volume\<lparr>root_directory_sector := root\<rparr>)"
proof -
  have n32: "root_directory_size volume < two32" using assms(3) by (simp add: COMPACT_MAX_DIRECTORY_BYTES_def)
  note fields = header_fields[OF assms(1) n32 assms(4)]
  have len: "length sector = 2048" by (simp add: sector_def)
  have nth: "i < 2048 \<Longrightarrow> sector ! i = compact_header volume root ! (65536 + i)" for i by (simp add: sector_def)
  have m: "xdvdfs_magic = compact_magic" by (simp add: xdvdfs_magic_def compact_magic_def)
  have "window_eq sector 0 compact_magic" "window_eq sector 2028 compact_magic"
    using len fields(1,2) by (simp_all add: window_eq_nth nth add.assoc[symmetric])
  then show "descriptor_magic_valid sector" by (simp add: descriptor_magic_valid_def m)
  have at: "le_u32 sector p = le_u32 (compact_header volume root) (65536 + p)" if "p + 4 \<le> 2048" for p
    using that by (simp add: le_u32_def nth)
  have "read_le_u32 sector 2048 20 = Some root" "read_le_u32 sector 2048 24 = Some (root_directory_size volume)"
    "read_le_u64 sector 2048 28 = Some (image_timestamp volume)"
    using fields(3-5) at[of 20] at[of 24] at[of 28] at[of 32] by (simp_all add: read_le_u32_def read_le_u64_def)
  then show "parse_descriptor sector 32 = Inr (volume\<lparr>root_directory_sector := root\<rparr>)"
    using assms(2,3,5)
    by (simp add: parse_descriptor_def GDOX_XDVDFS_VOLUME_DESCRIPTOR_SECTOR_def GDOX_XDVDFS_MAX_DIRECTORY_BYTES_def
        COMPACT_MAX_DIRECTORY_BYTES_def)
qed

section \<open>The image\<close>

definition tree_apart :: "(nat \<Rightarrow> byte) \<Rightarrow> xdvdfs_volume \<Rightarrow> bool" where
  "tree_apart f volume \<longleftrightarrow>
     (\<forall>(start, n) \<in> directory_extents f (root_directory_sector volume) (root_directory_size volume).
        nodes_apart (tree_table f start n))"

context sector_source
begin

text \<open>The context a successful build leaves, and what its layout shows.\<close>

lemma make_compact_spec:
  assumes make: "gdox_source_make_compact_xiso mem ops (Some s) (Some volume) None = (Inr stats, inner', out)"
    and v: "valid s" and n32: "root_directory_size volume < two32"
  obtains c h where "inner' = None" "out = Some c" "compact_valid ops valid c" "cc_inner c = Some h" "view_kept ops valid contents s h"
    "\<exists>b b'. process_directories mem ops (Some s) b 0 = (Inr b', Some h)"
    "compact_contents contents c = compact_view (contents s) (cc_segments c)"
    "tiled 0 (cc_segments c) (cc_sectors c)" "cc_sectors c = xs_output_sectors stats" "cc_sectors c mod 32 = 0" "34 \<le> cc_sectors c"
    "base_lba volume = 0" "0 < root_directory_size volume" "root_directory_size volume \<le> COMPACT_MAX_DIRECTORY_BYTES"
    "\<exists>g \<in> set (cc_segments c). cs_output_sector g = 0 \<and> cs_sectors g = COMPACT_HEADER_SECTORS \<and> cs_kind g = COMPACT_SEGMENT_MEMORY
       \<and> cs_memory g = compact_header volume COMPACT_HEADER_SECTORS"
    "tree_apart (contents s) volume \<Longrightarrow>
       \<exists>ds d. (\<forall>d \<in> ds. tables_match (contents s) (compact_contents contents c) ds d) \<and> d \<in> ds
         \<and> cd_source_sector d = root_directory_sector volume \<and> cd_size d = root_directory_size volume
         \<and> cd_output_sector d = COMPACT_HEADER_SECTORS"
proof -
  let ?cnt = "op_sector_count ops s"
  obtain b stop h where build: "build_compact_layout mem ops (Some s) volume = (Inr (b, stop), h)"
    and out: "inner' = None" "out = Some \<lparr>cc_inner = h, cc_segments = vec_items (cb_segments b), cc_sectors = stop\<rparr>"
    and base: "base_lba volume = 0" and stats: "xs_output_sectors stats = stop"
    using make by (auto simp: gdox_source_make_compact_xiso_def split: if_splits prod.splits sum.splits)
  from build n32 obtain b0 b1 where b0: "build_start volume b0" and pd: "process_directories mem ops (Some s) b0 0 = (Inr b1, h)"
    and fin: "finish_compact_layout mem b1 = Inr (b, stop)" by (rule build_cases)
  note inv0 = build_start_inv[OF b0 n32, of ?cnt]
  from process_directories_inv[OF pd v inv0] obtain h' where h: "h = Some h'" "view_kept ops valid contents s h'"
    and inv1: "builder_inv ?cnt (length (vec_items (cb_directories b1))) b1" and ext: "builder_extends b0 b1" by auto
  have al: "stop = (cb_next_sector b1 + 31) div 32 * 32"
    and t: "tiled 0 (vec_items (cb_segments b)) stop" and sub: "set (vec_items (cb_segments b1)) \<subseteq> set (vec_items (cb_segments b))"
    and ok: "list_all (segment_ok ?cnt) (vec_items (cb_segments b))"
    using finish_layout_spec[OF inv1, of mem] fin by auto
  have small: "stop * GDOX_LOGICAL_SECTOR_BYTES < two64"
  proof -
    have "cb_next_sector b1 \<le> two32" using inv1 by (simp add: builder_inv_def)
    then have "stop \<le> two32 + 31" using al by linarith
    then show ?thesis by simp
  qed
  let ?c = "\<lparr>cc_inner = h, cc_segments = vec_items (cb_segments b), cc_sectors = stop\<rparr>"
  have header: "\<exists>g \<in> set (cc_segments ?c). cs_output_sector g = 0 \<and> cs_sectors g = COMPACT_HEADER_SECTORS
      \<and> cs_kind g = COMPACT_SEGMENT_MEMORY \<and> cs_memory g = compact_header volume COMPACT_HEADER_SECTORS"
  proof -
    let ?h = "\<lparr>cs_output_sector = 0, cs_sectors = COMPACT_HEADER_SECTORS, cs_source_sector = 0,
         cs_content_bytes = COMPACT_HEADER_SECTORS * GDOX_LOGICAL_SECTOR_BYTES,
         cs_memory = compact_header volume COMPACT_HEADER_SECTORS, cs_kind = COMPACT_SEGMENT_MEMORY\<rparr>"
    have "?h \<in> set (vec_items (cb_segments b0))" using b0 by (simp add: build_start_def)
    then have "?h \<in> set (cc_segments ?c)" using ext sub by (auto simp: builder_extends_def)
    then show ?thesis by (rule bexI[rotated]) simp
  qed
  obtain g where "g \<in> set (vec_items (cb_segments b))" "cs_output_sector g = 0" "cs_sectors g = COMPACT_HEADER_SECTORS"
    using header by auto
  then have "33 \<le> stop" using tiled_bounds[OF t, of g] by (simp add: segment_stop_def COMPACT_HEADER_SECTORS_def)
  moreover have "stop mod 32 = 0" using al by simp
  ultimately have min: "34 \<le> stop" by (cases "stop = 33") simp_all
  have contents_c: "compact_contents contents ?c = compact_view (contents s) (vec_items (cb_segments b))"
    using h by (simp add: compact_contents_def view_kept_def)
  have dirs0: "vec_items (cb_directories b1) \<noteq> []" "vec_items (cb_directories b1) ! 0 =
      \<lparr>cd_source_sector = root_directory_sector volume, cd_size = root_directory_size volume,
       cd_output_sector = COMPACT_HEADER_SECTORS, cd_depth = 0\<rparr>"
    using b0 ext by (auto simp: build_start_def builder_extends_def)
  have root: "0 < root_directory_size volume \<and> root_directory_size volume \<le> COMPACT_MAX_DIRECTORY_BYTES"
  proof -
    have len: "0 < length (vec_items (cb_directories b0))" and d0: "cd_size (vec_items (cb_directories b0) ! 0) = root_directory_size volume"
      using b0 by (simp_all add: build_start_def)
    then obtain bb hh where "process_directory mem ops (Some s) b0 0 = (Inr bb, hh)"
      using trans[OF process_directories.simps[symmetric] pd] by (auto split: prod.splits sum.splits)
    from process_directory_cases[OF this builder_inv_sizes[OF inv0] len] show ?thesis unfolding d0 by blast
  qed
  have match: "\<exists>ds d. (\<forall>d \<in> ds. tables_match (contents s) (compact_contents contents ?c) ds d) \<and> d \<in> ds
         \<and> cd_source_sector d = root_directory_sector volume \<and> cd_size d = root_directory_size volume
         \<and> cd_output_sector d = COMPACT_HEADER_SECTORS"
    if ap: "tree_apart (contents s) volume"
  proof -
    define X where "X = directory_extents (contents s) (root_directory_sector volume) (root_directory_size volume)"
    have apart: "nodes_apart (tree_table (contents s) start n)" if "(start, n) \<in> X" for start n
      using ap that by (auto simp: tree_apart_def X_def)
    have kids: "(le_u32 (tree_table (contents s) start n) (q + 4), le_u32 (tree_table (contents s) start n) (q + 8)) \<in> X"
      if "(start, n) \<in> X" "\<not> bytes_are_empty_directory (tree_table (contents s) start n) n"
        "q \<in> linked (tree_table (contents s) start n)" "tree_table (contents s) start n ! (q + 12) AND 16 \<noteq> 0" for start n q
      using that unfolding X_def by (rule extent_child)
    have "tree_inv (contents s) X 0 b0"
      using b0 by (simp add: tree_inv_def build_start_def X_def extent_root)
    from process_directories_tree[OF pd v inv0 this apart kids]
    have tree: "tree_inv (contents s) X (length (vec_items (cb_directories b1))) b1" .
    then have "\<forall>d \<in> set (vec_items (cb_directories b1)). table_placed (contents s) b1 d
        \<and> nodes_apart (tree_table (contents s) (cd_source_sector d) (cd_size d))"
      using apart by (auto simp: tree_inv_def in_set_conv_nth)
    then have "\<forall>d \<in> set (vec_items (cb_directories b1)).
        tables_match (contents s) (compact_contents contents ?c) (set (vec_items (cb_directories b1))) d"
      using placed_tables_match[OF t sub] contents_c by simp
    moreover have "vec_items (cb_directories b1) ! 0 \<in> set (vec_items (cb_directories b1))" using dirs0(1) by simp
    ultimately show ?thesis using dirs0(2) by (intro exI conjI) (assumption, assumption, simp_all)
  qed
  have valid_c: "compact_valid ops valid ?c"
    using h t ok small by (simp add: compact_valid_def view_kept_def)
  show thesis
    by (rule that[OF out(1) out(2) valid_c]) (use h pd contents_c t stats al min base root header match in auto)
qed

end

text \<open>What every read keeps of the source, the loop over the directories keeps.\<close>

lemma process_directories_keeps:
  assumes "process_directories mem ops source b k = (r, h)" and "P source"
    and "\<And>source lba blocks n q h. P source \<Longrightarrow> gdox_source_read ops source lba blocks n = (q, h) \<Longrightarrow> P h"
  shows "P h"
  using assms
proof (induction mem ops source b k rule: process_directories.induct)
  case (1 mem ops source b k)
  show ?case
  proof (cases "k < length (vec_items (cb_directories b))")
    case False
    then show ?thesis using "1.prems"(1,2) by (simp add: process_directories.simps[of _ _ _ b])
  next
    case True
    obtain q h1 where pd: "process_directory mem ops source b k = (q, h1)" by fastforce
    have P: "P h1" using process_directory_handle[OF pd] "1.prems"(2,3) by blast
    show ?thesis
    proof (cases q)
      case (Inl e)
      then show ?thesis using "1.prems"(1) True pd P by (simp add: process_directories.simps[of _ _ _ b])
    next
      case (Inr b1)
      then have "process_directories mem ops h1 b1 (k + 1) = (r, h)"
        using "1.prems"(1) True pd by (simp add: process_directories.simps[of _ _ _ b])
      then show ?thesis using "1.IH"[OF True pd[symmetric] Inr _ P] "1.prems"(3) by blast
    qed
  qed
qed

context reliable_source
begin

lemma source_read_keeps_ready:
  assumes "valid s" "ready s" and "gdox_source_read ops (Some s) lba blocks n = (r, h)"
  shows "\<exists>s'. h = Some s' \<and> ready s' \<and> view_kept ops valid contents s s'"
proof -
  obtain s' where h: "h = Some s'" "view_kept ops valid contents s s'" using source_read_view[OF assms(1,3)] by blast
  moreover have "ready s'"
  proof (cases "gdox_source_validate_read (op_sector_count ops s) lba blocks n")
    case (Inl e)
    then show ?thesis using assms(2,3) h by (simp add: gdox_source_read_def)
  next
    case (Inr u)
    then show ?thesis using ready_read[OF assms(1,2), of lba blocks n] assms(3) h by (auto simp: gdox_source_read_def)
  qed
  ultimately show ?thesis by blast
qed

lemma process_directories_ready:
  assumes "process_directories mem ops (Some s) b k = (r, Some h)" and "valid s" and "ready s"
  shows "ready h"
proof -
  have "\<exists>s'. Some h = Some s' \<and> valid s' \<and> ready s'"
    using assms(1)
  proof (rule process_directories_keeps)
    show "\<exists>s'. Some s = Some s' \<and> valid s' \<and> ready s'" using assms(2,3) by simp
  next
    fix source lba blocks n q h
    assume "\<exists>s'. source = Some s' \<and> valid s' \<and> ready s'" and rd: "gdox_source_read ops source lba blocks n = (q, h)"
    then obtain s' where s': "source = Some s'" "valid s'" "ready s'" by blast
    from source_read_keeps_ready[OF s'(2,3) rd[unfolded s'(1)]] show "\<exists>s'. h = Some s' \<and> valid s' \<and> ready s'"
      by (auto simp: view_kept_def)
  qed
  then show ?thesis by simp
qed

text \<open>Opening the image finds its volume at once: the descriptor of its header.\<close>

lemma compact_volume_found:
  assumes c: "compact_valid ops valid c" and rdy: "compact_ready ready c"
    and g: "g \<in> set (cc_segments c)" "cs_output_sector g = 0" "cs_sectors g = COMPACT_HEADER_SECTORS" "cs_kind g = COMPACT_SEGMENT_MEMORY"
      "cs_memory g = compact_header volume COMPACT_HEADER_SECTORS"
    and n: "0 < root_directory_size volume" "root_directory_size volume \<le> COMPACT_MAX_DIRECTORY_BYTES"
      "image_timestamp volume < two64" "base_lba volume = 0" "34 \<le> cc_sectors c"
  shows "\<exists>h. gdox_xdvdfs_find_volume True (compact_ops ops) (Some c) =
    (Inr (volume\<lparr>root_directory_sector := COMPACT_HEADER_SECTORS\<rparr>), h)"
proof -
  let ?f = "compact_contents contents c"
  from c obtain s where s: "cc_inner c = Some s" "tiled 0 (cc_segments c) (cc_sectors c)" by (rule compact_valid_SomeE)
  obtain i where i: "i < length (cc_segments c)" "cc_segments c ! i = g" using g(1) by (auto simp: in_set_conv_nth)
  have "descriptor_sector ?f 32 = span (segment_byte (contents s) g) 65536 2048"
    using compact_view_span[OF s(2) i(1), of 32 1 "contents s"] g(2,3) i(2) s(1)
    by (simp add: descriptor_sector_def compact_contents_def segment_stop_def COMPACT_HEADER_SECTORS_def)
  also have "segment_byte (contents s) g = bytes_at (compact_header volume COMPACT_HEADER_SECTORS)"
    using g(4,5) by (simp add: segment_byte_def fun_eq_iff)
  also have "span (bytes_at (compact_header volume COMPACT_HEADER_SECTORS)) 65536 2048 =
      take GDOX_LOGICAL_SECTOR_BYTES (drop 65536 (compact_header volume COMPACT_HEADER_SECTORS))"
    by (rule span_bytes_at) simp
  finally have sector: "descriptor_sector ?f 32 =
      take GDOX_LOGICAL_SECTOR_BYTES (drop 65536 (compact_header volume COMPACT_HEADER_SECTORS))" .
  have root32: "COMPACT_HEADER_SECTORS < two32" by (simp add: COMPACT_HEADER_SECTORS_def)
  note header = header_descriptor[OF root32 n(1-4)]
  have "search ?f (descriptor_order (cc_sectors c)) = Inr (Some (volume\<lparr>root_directory_sector := COMPACT_HEADER_SECTORS\<rparr>))"
    using header n(5) by (simp add: descriptor_order_def search_Cons descriptor_at_def sector)
  moreover note reliable_source.find_volume_search[OF compact_reliable_source c rdy]
  ultimately show ?thesis by (auto simp: compact_sector_count_def)
qed

end

section \<open>The image of the sample disc\<close>

definition sample_table :: "byte list" where
  "sample_table = [0, 0, 0, 0, 34, 0, 0, 0, 0, 8, 0, 0, 0, 11] @ ascii ''default.xbe'' @ replicate 2023 0"

lemma length_sample_table [simp]: "length sample_table = 2048"
  by (simp add: sample_table_def ascii_def)

lemma sample_table_nth:
  "sample_table ! 0 = 0" "sample_table ! 12 = 0" "sample_table ! 13 = 11"
  "le_u16 sample_table 0 = 0" "le_u16 sample_table 2 = 0" "le_u16 sample_table (Suc (Suc 0)) = 0"
  "le_u32 sample_table 4 = 34" "le_u32 sample_table 8 = 2048"
  by (simp_all add: sample_table_def le_u16_def le_u32_def join16_def join32_def ascii_def)

lemma sample_table_same: "directory_table sample_directory 25 = sample_table"
  by (simp add: directory_table_def sample_directory_def sample_table_def ascii_def)

lemma sample_tree_table: "tree_table (file_contents sample_disc) 33 25 = sample_table"
  by (simp add: tree_table_def sample_directory_span sample_table_same)

lemma sample_table_put: "put_le_u32 sample_table 4 34 = sample_table"
  by (simp add: put_le_u32_def Let_def sample_table_def byte_of32_def)

lemma sample_table_occupied: "\<not> bytes_are_empty_directory sample_table 25"
  by (auto simp: bytes_are_empty_directory_def sample_table_nth list_all_iff intro!: bexI[of _ 0])

lemma sample_linked: "linked sample_table = {0}"
proof -
  have "p = 0" if "p \<in> linked sample_table" for p
    using that by induction (auto simp: node_links_def directory_u16_def sample_table_nth)
  then show ?thesis by (auto intro: linked.root)
qed

lemma sample_apart: "tree_apart (file_contents sample_disc) sample_volume"
proof -
  have "(s, m) = (33, 25)" if "(s, m) \<in> directory_extents (file_contents sample_disc) 33 25" for s m
    using that by induction (auto simp: sample_tree_table sample_linked sample_table_nth)
  then have "directory_extents (file_contents sample_disc) 33 25 \<subseteq> {(33, 25)}" by (intro subrelI) simp
  moreover have "nodes_apart (tree_table (file_contents sample_disc) 33 25)"
    by (simp add: sample_tree_table nodes_apart_def sample_linked)
  ultimately show ?thesis by (auto simp: tree_apart_def sample_volume_def)
qed

definition sample_started :: compact_builder where
  "sample_started =
     \<lparr>cb_segments = \<lparr>vec_items = [\<lparr>cs_output_sector = 0, cs_sectors = COMPACT_HEADER_SECTORS, cs_source_sector = 0,
            cs_content_bytes = COMPACT_HEADER_SECTORS * GDOX_LOGICAL_SECTOR_BYTES,
            cs_memory = compact_header sample_volume COMPACT_HEADER_SECTORS, cs_kind = COMPACT_SEGMENT_MEMORY\<rparr>],
          vec_capacity = 64\<rparr>,
      cb_directories = \<lparr>vec_items = [\<lparr>cd_source_sector = 33, cd_size = 25, cd_output_sector = 33, cd_depth = 0\<rparr>],
          vec_capacity = 32\<rparr>,
      cb_next_sector = 34, cb_file_count = 0, cb_metadata_bytes = 0\<rparr>"

definition sample_built :: compact_builder where
  "sample_built = sample_started
     \<lparr>cb_segments := \<lparr>vec_items = vec_items (cb_segments sample_started)
        @ [\<lparr>cs_output_sector = 34, cs_sectors = 1, cs_source_sector = 34, cs_content_bytes = 2048, cs_memory = [],
            cs_kind = COMPACT_SEGMENT_FILE\<rparr>,
           \<lparr>cs_output_sector = 33, cs_sectors = 1, cs_source_sector = 0, cs_content_bytes = 25, cs_memory = sample_table,
            cs_kind = COMPACT_SEGMENT_MEMORY\<rparr>], vec_capacity = 64\<rparr>,
      cb_next_sector := 35, cb_file_count := 1, cb_metadata_bytes := 2048\<rparr>"

lemmas compact_limits = COMPACT_MAX_DIRECTORY_BYTES_def COMPACT_MAX_METADATA_BYTES_def COMPACT_MAX_DIRECTORIES_def
  COMPACT_MAX_ENTRIES_def COMPACT_MAX_SEGMENTS_def

lemma sample_traversed:
  "\<exists>r. traverse_compact_directory (\<lambda>_. True) 64 (sample_started\<lparr>cb_metadata_bytes := 2048\<rparr>)
     \<lparr>cd_source_sector = 33, cd_size = 25, cd_output_sector = 33, cd_depth = 0\<rparr> sample_table = Inr r
   \<and> cr_data r = sample_table
   \<and> append_compact_directory_table (\<lambda>_. True) (cr_builder r)
       \<lparr>cd_source_sector = 33, cd_size = 25, cd_output_sector = 33, cd_depth = 0\<rparr> 1 sample_table = Inr sample_built"
  by (simp add: traverse_compact_directory_def push_offset_def vec_push_late_def vec_empty_def grown_capacity_def Let_def
      compact_walk.simps vec_pop_def compact_entry_step_def read_compact_entry_def slot_visited_def sample_table_nth
      allocate_region_def required_sectors_def add_u64_def record_compact_entry_def push_segment_def vec_push_def
      push_compact_entry_children_def compact_read_u16_def compact_limits UINT32_MAX_def UINT64_MAX_def
      sample_started_def sample_built_def sample_table_put append_compact_directory_table_def)

lemma sample_processed:
  "\<exists>s'. process_directories (\<lambda>_. True) file_ops (Some sample_disc) sample_started 0 = (Inr sample_built, Some s')"
proof -
  obtain s' where rd: "gdox_source_read file_ops (Some sample_disc) 33 1 2048 = (Inr sample_directory, Some s')"
    and s': "view_kept file_ops file_valid file_contents sample_disc s'"
    using file_source.source_read_ready[of sample_disc 1 33] by (auto simp: sample_disc_spans)
  have cnt: "gdox_source_sector_count file_ops (Some s') = 64" using s' by (simp add: view_kept_def)
  let ?d = "\<lparr>cd_source_sector = 33, cd_size = 25, cd_output_sector = 33, cd_depth = 0\<rparr>"
  obtain r where r: "traverse_compact_directory (\<lambda>_. True) 64 (sample_started\<lparr>cb_metadata_bytes := 2048\<rparr>) ?d sample_table = Inr r"
    "cr_data r = sample_table" "append_compact_directory_table (\<lambda>_. True) (cr_builder r) ?d 1 sample_table = Inr sample_built"
    using sample_traversed by blast
  have d: "vec_items (cb_directories sample_started) = [?d]" "cb_metadata_bytes sample_started = 0"
    by (simp_all add: sample_started_def)
  have req: "required_sectors 25 = 1" by (simp add: required_sectors_def)
  have "process_directory (\<lambda>_. True) file_ops (Some sample_disc) sample_started 0 = (Inr sample_built, Some s')"
    using rd r cnt sample_table_occupied
    by (simp add: process_directory_def Let_def d req compact_limits SIZE_MAX_def sample_table_same)
  moreover have "vec_items (cb_directories sample_built) = [?d]" by (simp add: sample_built_def d)
  ultimately show ?thesis by (simp add: process_directories.simps[of _ _ _ sample_started] process_directories.simps[of _ _ _ sample_built] d)
qed

lemma sample_finished: "\<exists>b. finish_compact_layout (\<lambda>_. True) sample_built = Inr (b, 64)"
  by (simp add: finish_compact_layout_def Let_def sample_built_def sample_started_def UINT64_MAX_def push_segment_def vec_push_def
      compact_limits compare_segments_def add_u64_def COMPACT_HEADER_SECTORS_def)

lemma sample_compacted:
  "\<exists>stats out. gdox_source_make_compact_xiso (\<lambda>_. True) file_ops (Some sample_disc) (Some sample_volume) None = (Inr stats, None, out)"
proof -
  obtain s' where pd: "process_directories (\<lambda>_. True) file_ops (Some sample_disc) sample_started 0 = (Inr sample_built, Some s')"
    using sample_processed by blast
  obtain b where fin: "finish_compact_layout (\<lambda>_. True) sample_built = Inr (b, 64)" using sample_finished by blast
  have "build_compact_layout (\<lambda>_. True) file_ops (Some sample_disc) sample_volume = (Inr (b, 64), Some s')"
    using pd fin
    by (simp add: build_compact_layout_def Let_def allocate_region_def required_sectors_def add_u64_def UINT32_MAX_def UINT64_MAX_def
        push_segment_def push_directory_def directory_exists_def vec_push_def vec_empty_def grown_capacity_def compact_limits
        sample_volume_def COMPACT_HEADER_SECTORS_def sample_started_def)
  then show ?thesis by (simp add: gdox_source_make_compact_xiso_def sample_volume_def)
qed

section \<open>Properties\<close>

text \<open>
  C4: The compact image of a partition holds its files. When making the image of a volume whose directory
  tables keep their linked entries apart succeeds, opening the image as a disc finds the volume at
  sector 32 with the same root size and timestamp, and the files stored under its root directory, with
  their paths, attributes and contents, are exactly those stored under the root directory of the
  partition.
\<close>
theorem compact_image_holds_the_files:
  assumes "reliable_source ops valid contents ready" and "valid s" and "ready s"
    and "root_directory_size volume < two32" and "image_timestamp volume < two64"
    and "tree_apart (contents s) volume"
    and "gdox_source_make_compact_xiso mem ops (Some s) (Some volume) None = (Inr stats, inner', out)"
  shows "\<exists>c. out = Some c \<and> inner' = None
    \<and> (\<exists>h. gdox_xdvdfs_find_volume True (compact_ops ops) out =
         (Inr (volume\<lparr>root_directory_sector := COMPACT_HEADER_SECTORS\<rparr>), h))
    \<and> (\<forall>path attributes content.
         stored_file (compact_contents contents c) COMPACT_HEADER_SECTORS (root_directory_size volume) path attributes content
         \<longleftrightarrow> stored_file (contents s) (root_directory_sector volume) (root_directory_size volume) path attributes content)"
proof -
  note src = reliable_source.axioms(1)[OF assms(1)]
  from src assms(7,2,4) obtain c h where c: "inner' = None" "out = Some c" "compact_valid ops valid c" "cc_inner c = Some h"
    and pd: "\<exists>b b'. process_directories mem ops (Some s) b 0 = (Inr b', Some h)"
    and n: "34 \<le> cc_sectors c" "base_lba volume = 0" "0 < root_directory_size volume" "root_directory_size volume \<le> COMPACT_MAX_DIRECTORY_BYTES"
    and hd: "\<exists>g \<in> set (cc_segments c). cs_output_sector g = 0 \<and> cs_sectors g = COMPACT_HEADER_SECTORS \<and> cs_kind g = COMPACT_SEGMENT_MEMORY
       \<and> cs_memory g = compact_header volume COMPACT_HEADER_SECTORS"
    and match: "tree_apart (contents s) volume \<Longrightarrow>
       \<exists>ds d. (\<forall>d \<in> ds. tables_match (contents s) (compact_contents contents c) ds d) \<and> d \<in> ds
         \<and> cd_source_sector d = root_directory_sector volume \<and> cd_size d = root_directory_size volume
         \<and> cd_output_sector d = COMPACT_HEADER_SECTORS"
    by (rule sector_source.make_compact_spec) blast
  have "ready h" using pd reliable_source.process_directories_ready[OF assms(1) _ assms(2,3)] by blast
  then have "compact_ready ready c" using c(4) by (simp add: compact_ready_def)
  with hd have found: "\<exists>h. gdox_xdvdfs_find_volume True (compact_ops ops) (Some c) =
      (Inr (volume\<lparr>root_directory_sector := COMPACT_HEADER_SECTORS\<rparr>), h)"
    using reliable_source.compact_volume_found[OF assms(1) c(3)] n assms(5) by blast
  from match[OF assms(6)] obtain ds d where d: "\<forall>d \<in> ds. tables_match (contents s) (compact_contents contents c) ds d" "d \<in> ds"
    "cd_source_sector d = root_directory_sector volume" "cd_size d = root_directory_size volume"
    "cd_output_sector d = COMPACT_HEADER_SECTORS" by blast
  show ?thesis
    using c(1,2) found stored_file_image[OF _ d(1,2,3,4)] stored_file_original[OF _ d(1,2,5,4)] d(3,5) by auto
qed

theorem compact_image_holds_the_files_witness:
  "\<exists>c. stored_file (compact_contents file_contents c) 33 25 [ascii ''default.xbe''] 0 sample_xbe"
proof -
  obtain stats out where make: "gdox_source_make_compact_xiso (\<lambda>_. True) file_ops (Some sample_disc) (Some sample_volume) None =
      (Inr stats, None, out)" using sample_compacted by blast
  have "node_name sample_table 0 = ascii ''default.xbe''"
    by (simp add: node_name_def sample_table_nth) (simp add: sample_table_def ascii_def)
  then have "stored_file (file_contents sample_disc) 33 25 [ascii ''default.xbe''] 0 sample_xbe"
    using stored_file.file_here[of "file_contents sample_disc" 33 25 0] sample_table_occupied sample_disc_spans(3)
    by (simp add: sample_tree_table sample_linked sample_table_nth)
  then show ?thesis
    using compact_image_holds_the_files[OF file_source.reliable_source_axioms _ _ _ _ sample_apart make]
    by (simp add: sample_volume_def COMPACT_HEADER_SECTORS_def) blast
qed

text \<open>
  C5: The regions handed out during a build tile the image. Once all directories of a volume are
  processed, finishing the layout can fail for the number of segments or for memory only: the two
  internal checks for gaps and for the length never fire, and the sorted segments cover the sectors from 0
  to the aligned end one behind the other, with every extent inside the source and every table of
  its full length.
\<close>
theorem compact_layout_is_contiguous:
  assumes "sector_source ops valid contents" and "valid s" and "root_directory_size volume < two32"
    and "build_start volume b0" and "process_directories mem ops (Some s) b0 0 = (Inr b, h)"
  shows "(\<exists>b'. finish_compact_layout mem b = Inr (b', (cb_next_sector b + 31) div 32 * 32)
        \<and> tiled 0 (vec_items (cb_segments b')) ((cb_next_sector b + 31) div 32 * 32)
        \<and> list_all (segment_ok (op_sector_count ops s)) (vec_items (cb_segments b')))
    \<or> finish_compact_layout mem b = fail ERROR_INVALID_VOLUME ''compact XISO segment limit exceeded''
    \<or> finish_compact_layout mem b = fail ERROR_INTERNAL ''could not allocate compact XISO segments''"
proof -
  from sector_source.process_directories_inv[OF assms(1,5,2) build_start_inv[OF assms(4,3)]]
  have "builder_inv (op_sector_count ops s) (length (vec_items (cb_directories b))) b" by blast
  from finish_layout_spec[OF this, of mem] show ?thesis by blast
qed

theorem compact_layout_is_contiguous_witness:
  "\<exists>b'. finish_compact_layout (\<lambda>_. True) sample_built = Inr (b', 64) \<and> tiled 0 (vec_items (cb_segments b')) 64"
proof -
  obtain h where pd: "process_directories (\<lambda>_. True) file_ops (Some sample_disc) sample_started 0 = (Inr sample_built, h)"
    using sample_processed by blast
  have start: "build_start sample_volume sample_started"
    by (simp add: build_start_def sample_started_def sample_volume_def COMPACT_HEADER_SECTORS_def required_sectors_def
        builder_arrays_def vec_ok_def compact_limits)
  have "\<exists>b. finish_compact_layout (\<lambda>_. True) sample_built = Inr b" using sample_finished by blast
  then show ?thesis
    using compact_layout_is_contiguous[OF file_source.sector_source_axioms _ _ start pd]
    by (auto simp: sample_volume_def sample_built_def)
qed

end
