(* ===== verification/Hash.thy ===== *)
theory Hash
  imports Bytes
begin

text \<open>
  The hash streams of src/src/core/hash.c: the CRC-32 by nibbles, and the stream that feeds every byte to
  the CRC and to the digests of the platform. The digests (MD5, SHA-1, SHA-256 of the operating
  system, src/src/core/ports/hash_backend.h) are the record \<open>digest_ops\<close>. The nibble table is proved
  equal to the CRC computed bit by bit, which src/src/core/security.c does on its own.
\<close>

unbundle bit_operations_syntax

section \<open>CRC-32\<close>

definition crc32_table :: "32 word list" where
  "crc32_table =
     [0x00000000, 0x1db71064, 0x3b6e20c8, 0x26d930ac, 0x76dc4190, 0x6b6b51f4, 0x4db26158, 0x5005713c,
      0xedb88320, 0xf00f9344, 0xd6d6a3e8, 0xcb61b38c, 0x9b64c2b0, 0x86d3d2d4, 0xa00ae278, 0xbdbdf21c]"

definition crc32_nibble :: "32 word \<Rightarrow> 32 word" where
  "crc32_nibble crc = crc32_table ! unat (crc AND 15) XOR drop_bit 4 crc"

fun crc32_update :: "32 word \<Rightarrow> byte list \<Rightarrow> 32 word" where
  "crc32_update crc [] = crc"
| "crc32_update crc (b # bs) = crc32_update (crc32_nibble (crc32_nibble (crc XOR ucast b))) bs"

definition gdox_crc32_buffer :: "byte list \<Rightarrow> 32 word" where
  "gdox_crc32_buffer bytes = NOT (crc32_update 0xffffffff bytes)"

text \<open>The loop of src/src/core/security.c over the bits of each byte.\<close>

definition crc32_bit :: "32 word \<Rightarrow> 32 word" where
  "crc32_bit crc = drop_bit 1 crc XOR (0xedb88320 AND - (crc AND 1))"

fun crc32_bits :: "32 word \<Rightarrow> byte list \<Rightarrow> 32 word" where
  "crc32_bits crc [] = crc"
| "crc32_bits crc (b # bs) = crc32_bits ((crc32_bit ^^ 8) (crc XOR ucast b)) bs"

definition gdox_crc32 :: "byte list \<Rightarrow> 32 word" where
  "gdox_crc32 bytes = NOT (crc32_bits 0xffffffff bytes)"

lemma crc32_update_append: "crc32_update crc (xs @ ys) = crc32_update (crc32_update crc xs) ys"
  by (induction xs arbitrary: crc) auto

lemma crc32_bit_even: "\<not> bit x 0 \<Longrightarrow> crc32_bit x = drop_bit 1 x"
proof -
  assume "\<not> bit x 0"
  then have "x AND 1 = 0" by (simp add: and_one_eq bit_0 even_iff_mod_2_eq_zero)
  then show ?thesis by (simp add: crc32_bit_def)
qed

lemma crc32_bit_linear: "crc32_bit (a XOR b) = crc32_bit a XOR crc32_bit b"
proof -
  have one: "c AND 1 = 0 \<or> c AND 1 = 1" for c :: "32 word"
    by (cases "bit c 0") (auto simp: and_one_eq odd_iff_mod_2_eq_one bit_0)
  have x: "(a XOR b) AND 1 = (a AND 1) XOR (b AND 1)" by (rule bit_eqI) (auto simp: bit_simps)
  have m: "0xedb88320 AND - ((a XOR b) AND 1) = (0xedb88320 AND - (a AND 1)) XOR (0xedb88320 AND - (b AND 1) :: 32 word)"
    unfolding x using one[of a] one[of b] by auto
  show ?thesis unfolding crc32_bit_def m by (rule bit_eqI) (auto simp: bit_simps)
qed

lemma crc32_bits_linear: "(crc32_bit ^^ n) (a XOR b) = (crc32_bit ^^ n) a XOR (crc32_bit ^^ n) b"
  by (induction n) (simp_all add: crc32_bit_linear)

text \<open>Four bits that are zero only shift; the sixteen values of a nibble give the table.\<close>

lemma crc32_bits_high:
  assumes "\<And>i. i < n \<Longrightarrow> \<not> bit x i"
  shows "(crc32_bit ^^ n) x = drop_bit n x"
  using assms
proof (induction n)
  case (Suc n)
  have "\<not> bit (drop_bit n x) 0" using Suc.prems[of n] by (simp add: bit_simps)
  then show ?case using Suc by (simp add: crc32_bit_even)
qed simp

lemma crc32_bits_table:
  "map (\<lambda>i. crc32_bit (crc32_bit (crc32_bit (crc32_bit (word_of_nat i))))) [0..<16] = crc32_table"
  by code_simp

lemma crc32_bits_low: "i < 16 \<Longrightarrow> (crc32_bit ^^ 4) (word_of_nat i) = crc32_table ! i"
proof -
  assume "i < 16"
  then have "crc32_table ! i = crc32_bit (crc32_bit (crc32_bit (crc32_bit (word_of_nat i))))"
    unfolding crc32_bits_table[symmetric] by (subst nth_map) simp_all
  then show ?thesis by (simp add: eval_nat_numeral)
qed

lemma crc32_nibble_bits: "crc32_nibble x = (crc32_bit ^^ 4) x"
proof -
  let ?low = "x AND 15" and ?high = "(x :: 32 word) AND NOT 15"
  have "unat ?low < 16" using word_and_le1[of x 15] by (simp add: word_le_nat_alt)
  then have low: "(crc32_bit ^^ 4) ?low = crc32_table ! unat ?low"
    using crc32_bits_low[of "unat ?low"] by simp
  have fifteen: "bit (15 :: 32 word) i \<longleftrightarrow> i < 4" for i
  proof -
    have mask: "(15 :: 32 word) = mask 4" by (simp add: mask_eq_exp_minus_1)
    show ?thesis unfolding mask bit_mask_iff by auto
  qed
  have "(crc32_bit ^^ 4) ?high = drop_bit 4 ?high"
    by (rule crc32_bits_high) (simp only: bit_and_iff bit_not_iff fifteen, simp)
  also have "\<dots> = drop_bit 4 x"
    by (rule bit_word_eqI) (simp only: bit_and_iff bit_not_iff bit_drop_bit_eq comp_apply fifteen,
      auto dest: bit_imp_le_length)
  finally have high: "(crc32_bit ^^ 4) ?high = drop_bit 4 x" .
  have "x = ?low XOR ?high" by (rule bit_eqI) (auto simp: bit_simps)
  then have "(crc32_bit ^^ 4) x = (crc32_bit ^^ 4) ?low XOR (crc32_bit ^^ 4) ?high"
    by (metis crc32_bits_linear)
  then show ?thesis by (simp only: crc32_nibble_def low high)
qed

lemma crc32_byte: "crc32_nibble (crc32_nibble x) = (crc32_bit ^^ 8) x"
proof -
  have "(crc32_bit ^^ 8) x = (crc32_bit ^^ (4 + 4)) x" by simp
  also have "\<dots> = (crc32_bit ^^ 4) ((crc32_bit ^^ 4) x)" by (simp only: funpow_add comp_apply)
  finally show ?thesis by (simp only: crc32_nibble_bits)
qed

lemma crc32_update_bits: "crc32_update crc bytes = crc32_bits crc bytes"
  by (induction bytes arbitrary: crc) (simp_all add: crc32_byte)

lemma crc32_buffer_bits: "gdox_crc32_buffer bytes = gdox_crc32 bytes"
  by (simp add: gdox_crc32_buffer_def gdox_crc32_def crc32_update_bits)

section \<open>Hash streams\<close>

text \<open>
  The digests of the platform: create may fail, update and finish consume and return the backend. The
  backend is freed with the stream, whatever its state; the model drops it.
\<close>

record digests =
  md5 :: "byte list"
  sha1 :: "byte list"
  sha256 :: "byte list"

record 'd digest_ops =
  digest_create :: "'d res"
  digest_update :: "'d \<Rightarrow> byte list \<Rightarrow> unit res \<times> 'd"
  digest_finish :: "'d \<Rightarrow> digests res \<times> 'd"

record 'd gdox_hash_stream =
  backend :: 'd
  stream_crc32 :: "32 word"
  finished :: bool

record gdox_hashes = digests +
  crc32_value :: "32 word"

definition gdox_hash_stream_create :: "bool \<Rightarrow> 'd digest_ops \<Rightarrow> 'd gdox_hash_stream res" where
  "gdox_hash_stream_create allocated ops =
     (if \<not> allocated then fail ERROR_INTERNAL ''could not allocate hash stream''
      else (case digest_create ops of
              Inl e \<Rightarrow> Inl e
            | Inr d \<Rightarrow> Inr \<lparr>backend = d, stream_crc32 = 0xffffffff, finished = False\<rparr>))"

definition gdox_hash_stream_update ::
  "'d digest_ops \<Rightarrow> 'd gdox_hash_stream \<Rightarrow> byte list \<Rightarrow> unit res \<times> 'd gdox_hash_stream" where
  "gdox_hash_stream_update ops stream bytes =
     (if finished stream
      then (fail ERROR_INVALID_ARGUMENT ''active hash stream and input are required'', stream)
      else (case digest_update ops (backend stream) bytes of
              (r, d) \<Rightarrow>
                (r, stream\<lparr>backend := d, stream_crc32 := crc32_update (stream_crc32 stream) bytes\<rparr>)))"

definition gdox_hash_stream_finish ::
  "'d digest_ops \<Rightarrow> 'd gdox_hash_stream \<Rightarrow> gdox_hashes res \<times> 'd gdox_hash_stream" where
  "gdox_hash_stream_finish ops stream =
     (if finished stream
      then (fail ERROR_INVALID_ARGUMENT ''unfinished hash stream and output are required'', stream)
      else (case digest_finish ops (backend stream) of
              (Inl e, d) \<Rightarrow> (Inl e, stream\<lparr>backend := d\<rparr>)
            | (Inr g, d) \<Rightarrow>
                (Inr \<lparr>md5 = md5 g, sha1 = sha1 g, sha256 = sha256 g, crc32_value = NOT (stream_crc32 stream)\<rparr>,
                 stream\<lparr>backend := d, finished := True\<rparr>)))"

definition gdox_hash_buffer :: "bool \<Rightarrow> 'd digest_ops \<Rightarrow> byte list \<Rightarrow> gdox_hashes res" where
  "gdox_hash_buffer allocated ops bytes =
     (case gdox_hash_stream_create allocated ops of
        Inl e \<Rightarrow> Inl e
      | Inr stream \<Rightarrow>
          (case gdox_hash_stream_update ops stream bytes of
             (Inl e, _) \<Rightarrow> Inl e
           | (Inr _, stream') \<Rightarrow> fst (gdox_hash_stream_finish ops stream')))"

text \<open>\<open>gdox_hash_hex\<close> without the closing zero byte.\<close>

definition hex_digit :: "bool \<Rightarrow> nat \<Rightarrow> char" where
  "hex_digit uppercase d =
     (if uppercase then ''0123456789ABCDEF'' else ''0123456789abcdef'') ! d"

definition gdox_hash_hex :: "byte list \<Rightarrow> bool \<Rightarrow> string" where
  "gdox_hash_hex bytes uppercase =
     concat (map (\<lambda>b. [hex_digit uppercase (unat (drop_bit 4 b)), hex_digit uppercase (unat (b AND 15))]) bytes)"

lemma length_gdox_hash_hex [simp]: "length (gdox_hash_hex bytes uppercase) = 2 * length bytes"
  by (induction bytes) (simp_all add: gdox_hash_hex_def)

text \<open>
  Feeding a stream in parts is feeding it at once, for digests that have this property
  (\<open>incremental\<close>).
\<close>

definition incremental :: "'d digest_ops \<Rightarrow> bool" where
  "incremental ops \<longleftrightarrow>
     (\<forall>d xs ys. digest_update ops d (xs @ ys) =
        (case digest_update ops d xs of (Inl e, d') \<Rightarrow> (Inl e, d') | (Inr _, d') \<Rightarrow> digest_update ops d' ys))"

lemma incrementalD:
  "incremental ops \<Longrightarrow> digest_update ops d xs = (Inr (), d') \<Longrightarrow>
   digest_update ops d (xs @ ys) = digest_update ops d' ys"
  by (simp add: incremental_def)

lemma gdox_hash_stream_update_append:
  assumes "incremental ops" and first: "gdox_hash_stream_update ops stream xs = (Inr (), stream')"
  shows "gdox_hash_stream_update ops stream (xs @ ys) = gdox_hash_stream_update ops stream' ys"
proof -
  obtain d' where d: "digest_update ops (backend stream) xs = (Inr (), d')" "\<not> finished stream"
      "stream' = stream\<lparr>backend := d', stream_crc32 := crc32_update (stream_crc32 stream) xs\<rparr>"
    using first by (auto simp: gdox_hash_stream_update_def split: if_splits prod.splits)
  show ?thesis
    by (simp add: gdox_hash_stream_update_def d incrementalD[OF assms(1) d(1)] crc32_update_append)
qed

end
