(* ===== verification/Security.thy ===== *)
theory Security
  imports Hash
begin

text \<open>
  The security sector of an XGD1 disc (src/src/core/security.c): the conversion of physical sector
  numbers to image sectors, the checks on the sixteen security ranges, and the inspection of the 2048
  bytes with their two CRCs. \<open>gdox_crc32\<close>, the bitwise CRC of that file, is in the theory \<open>Hash\<close>.
\<close>

unbundle bit_operations_syntax

definition GDOX_XGD1_SECURITY_SECTOR_BYTES :: nat where "GDOX_XGD1_SECURITY_SECTOR_BYTES = 2048"
definition GDOX_XGD1_SECURITY_RANGE_COUNT :: nat where "GDOX_XGD1_SECURITY_RANGE_COUNT = 16"
definition GDOX_XGD1_RANGE_SECTORS :: u64 where "GDOX_XGD1_RANGE_SECTORS = 4096"
definition GDOX_XGD1_NORMALIZED_SECTORS :: u64 where "GDOX_XGD1_NORMALIZED_SECTORS = 65536"
definition GDOX_XGD1_REDUMP_SECTORS :: u64 where "GDOX_XGD1_REDUMP_SECTORS = 3820880"
definition GDOX_DVD_DATA_START_PSN :: "32 word" where "GDOX_DVD_DATA_START_PSN = 0x030000"
definition GDOX_XGD1_LAYER_ZERO_SECTORS :: "32 word" where "GDOX_XGD1_LAYER_ZERO_SECTORS = 1913776"
definition GDOX_SECURITY_TABLE_ONE :: nat where "GDOX_SECURITY_TABLE_ONE = 1633"
definition GDOX_SECURITY_TABLE_TWO :: nat where "GDOX_SECURITY_TABLE_TWO = 1840"
definition GDOX_SECURITY_ENTRY_BYTES :: nat where "GDOX_SECURITY_ENTRY_BYTES = 9"
definition GDOX_SECURITY_TABLE_ENTRIES :: nat where "GDOX_SECURITY_TABLE_ENTRIES = 23"
definition GDOX_XGD1_FIX_START :: nat where "GDOX_XGD1_FIX_START = 0x200"
definition GDOX_XGD1_FIX_END :: nat where "GDOX_XGD1_FIX_END = 0x2d0"

lemmas security_constants =
  GDOX_XGD1_SECURITY_SECTOR_BYTES_def GDOX_XGD1_SECURITY_RANGE_COUNT_def GDOX_XGD1_RANGE_SECTORS_def
  GDOX_XGD1_NORMALIZED_SECTORS_def GDOX_XGD1_REDUMP_SECTORS_def GDOX_DVD_DATA_START_PSN_def
  GDOX_XGD1_LAYER_ZERO_SECTORS_def GDOX_SECURITY_TABLE_ONE_def GDOX_SECURITY_TABLE_TWO_def
  GDOX_SECURITY_ENTRY_BYTES_def GDOX_SECURITY_TABLE_ENTRIES_def GDOX_XGD1_FIX_START_def
  GDOX_XGD1_FIX_END_def

record gdox_security_range =
  start_lba :: u64
  end_lba :: u64

record gdox_security_sector_report =
  raw_crc32 :: "32 word"
  fixed_xgd1_crc32 :: "32 word"
  ranges :: "gdox_security_range list"
  range_count :: nat
  normalized_sectors :: u64

section \<open>Physical sector numbers\<close>

definition gdox_u24 :: "byte list \<Rightarrow> nat \<Rightarrow> 32 word" where
  "gdox_u24 bytes p =
     push_bit 16 (ucast (bytes ! p)) OR push_bit 8 (ucast (bytes ! (p + 1))) OR ucast (bytes ! (p + 2))"

definition gdox_psn_to_lba :: "32 word \<Rightarrow> u64 option" where
  "gdox_psn_to_lba psn =
     (let boundary = GDOX_DVD_DATA_START_PSN + GDOX_XGD1_LAYER_ZERO_SECTORS
      in if psn < boundary
         then if psn < GDOX_DVD_DATA_START_PSN then None
              else Some (unat (psn - GDOX_DVD_DATA_START_PSN))
         else (let inverted = (psn XOR 0x00ffffff) + 1;
                   doubled_boundary = boundary * 2
               in if inverted > doubled_boundary - GDOX_DVD_DATA_START_PSN then None
                  else Some (unat (doubled_boundary - inverted - GDOX_DVD_DATA_START_PSN))))"

section \<open>Security ranges\<close>

definition gdox_security_range_length :: "gdox_security_range \<Rightarrow> u64" where
  "gdox_security_range_length rg =
     (if end_lba rg < start_lba rg then 0
      else u64_add (u64_sub (end_lba rg) (start_lba rg)) 1)"

text \<open>The loop of \<open>gdox_security_ranges_validate\<close>: the range before this one, the total so far.\<close>

fun ranges_loop ::
  "gdox_security_range option \<Rightarrow> u64 \<Rightarrow> gdox_security_range list \<Rightarrow> u64 res" where
  "ranges_loop before total_so_far [] = Inr total_so_far"
| "ranges_loop before total_so_far (rg # rest) =
     (if start_lba rg > end_lba rg \<or> end_lba rg \<ge> GDOX_XGD1_REDUMP_SECTORS
      then fail ERROR_INVALID_SOURCE ''security range is outside the XGD1 image''
      else if gdox_security_range_length rg \<noteq> GDOX_XGD1_RANGE_SECTORS
      then fail ERROR_INVALID_SOURCE ''each XGD1 range must contain 4096 sectors''
      else if (case before of None \<Rightarrow> False | Some b \<Rightarrow> end_lba b \<ge> start_lba rg)
      then fail ERROR_INVALID_SOURCE ''security ranges overlap or are unsorted''
      else ranges_loop (Some rg) (u64_add total_so_far (gdox_security_range_length rg)) rest)"

definition gdox_security_ranges_validate :: "gdox_security_range list \<Rightarrow> unit res" where
  "gdox_security_ranges_validate rs =
     (case ranges_loop None 0 rs of
        Inl e \<Rightarrow> Inl e
      | Inr n \<Rightarrow>
          if n \<noteq> GDOX_XGD1_NORMALIZED_SECTORS
          then fail ERROR_INVALID_SOURCE ''XGD1 ranges do not total 65536 sectors''
          else Inr ())"

section \<open>The security sector\<close>

definition security_entry :: "byte list \<Rightarrow> nat \<Rightarrow> gdox_security_range option" where
  "security_entry bytes index =
     (let entry = GDOX_SECURITY_TABLE_ONE + index * GDOX_SECURITY_ENTRY_BYTES
      in case gdox_psn_to_lba (gdox_u24 bytes (entry + 3)) of
           None \<Rightarrow> None
         | Some first \<Rightarrow>
             (case gdox_psn_to_lba (gdox_u24 bytes (entry + 6)) of
                None \<Rightarrow> None
              | Some final \<Rightarrow> Some \<lparr>start_lba = first, end_lba = final\<rparr>))"

fun security_entries :: "byte list \<Rightarrow> nat list \<Rightarrow> gdox_security_range list option" where
  "security_entries bytes [] = Some []"
| "security_entries bytes (index # rest) =
     (case security_entry bytes index of
        None \<Rightarrow> None
      | Some rg \<Rightarrow>
          (case security_entries bytes rest of None \<Rightarrow> None | Some rs \<Rightarrow> Some (rg # rs)))"

definition fixed_sector :: "byte list \<Rightarrow> byte list" where
  "fixed_sector bytes =
     take GDOX_XGD1_FIX_START bytes @ replicate (GDOX_XGD1_FIX_END - GDOX_XGD1_FIX_START) 0
     @ drop GDOX_XGD1_FIX_END bytes"

definition gdox_security_sector_inspect :: "byte list \<Rightarrow> gdox_security_sector_report res" where
  "gdox_security_sector_inspect bytes =
     (let table_bytes = GDOX_SECURITY_TABLE_ENTRIES * GDOX_SECURITY_ENTRY_BYTES
      in if length bytes \<noteq> GDOX_XGD1_SECURITY_SECTOR_BYTES
         then fail ERROR_INVALID_SOURCE ''XGD1 SS.bin must be exactly 2048 bytes''
         else if bytes ! 13 \<noteq> 0x20 \<or> bytes ! 14 \<noteq> 0x33 \<or> bytes ! 15 \<noteq> 0xaf
         then fail ERROR_INVALID_SOURCE ''security sector is not XGD1''
         else if take table_bytes (drop GDOX_SECURITY_TABLE_ONE bytes)
              \<noteq> take table_bytes (drop GDOX_SECURITY_TABLE_TWO bytes)
         then fail ERROR_INVALID_SOURCE ''security range table copies differ''
         else (case security_entries bytes [0..<GDOX_XGD1_SECURITY_RANGE_COUNT] of
                 None \<Rightarrow> fail ERROR_INVALID_SOURCE ''security range contains an invalid PSN''
               | Some rs \<Rightarrow>
                   (case gdox_security_ranges_validate rs of
                      Inl e \<Rightarrow> Inl e
                    | Inr _ \<Rightarrow>
                        Inr \<lparr>raw_crc32 = gdox_crc32 bytes,
                             fixed_xgd1_crc32 = gdox_crc32 (fixed_sector bytes), ranges = rs,
                             range_count = GDOX_XGD1_SECURITY_RANGE_COUNT,
                             normalized_sectors = GDOX_XGD1_NORMALIZED_SECTORS\<rparr>)))"

section \<open>What validated ranges are\<close>

text \<open>Sixteen-times-4096 disjoint sectors of the image, in ascending order.\<close>

definition range_sectors :: "gdox_security_range \<Rightarrow> nat set" where
  "range_sectors rg = {start_lba rg..end_lba rg}"

definition good_range :: "gdox_security_range \<Rightarrow> bool" where
  "good_range rg \<longleftrightarrow>
     end_lba rg = start_lba rg + 4095 \<and> end_lba rg < GDOX_XGD1_REDUMP_SECTORS"

definition ranges_ascend :: "gdox_security_range list \<Rightarrow> bool" where
  "ranges_ascend = sorted_wrt (\<lambda>a b. end_lba a < start_lba b)"

lemma range_length_4096:
  assumes "start_lba rg \<le> end_lba rg" and "end_lba rg < GDOX_XGD1_REDUMP_SECTORS"
  shows "gdox_security_range_length rg = GDOX_XGD1_RANGE_SECTORS \<longleftrightarrow> good_range rg"
  using assms by (auto simp: gdox_security_range_length_def good_range_def security_constants)

lemma ranges_loop_ok:
  assumes "ranges_loop before n rs = Inr total_end" and "n + 4096 * length rs < two64"
  shows "(\<forall>r \<in> set rs. good_range r) \<and> ranges_ascend rs \<and> total_end = n + 4096 * length rs
       \<and> (\<forall>b r. before = Some b \<longrightarrow> r \<in> set rs \<longrightarrow> end_lba b < start_lba r)"
  using assms
proof (induction rs arbitrary: before n)
  case (Cons rg rest)
  have bounds: "start_lba rg \<le> end_lba rg" "end_lba rg < GDOX_XGD1_REDUMP_SECTORS"
      "gdox_security_range_length rg = 4096"
    using Cons.prems(1) by (auto simp: GDOX_XGD1_RANGE_SECTORS_def split: if_splits)
  have good: "good_range rg"
    using range_length_4096[OF bounds(1,2)] bounds(3) by (simp add: GDOX_XGD1_RANGE_SECTORS_def)
  have apart: "\<And>b. before = Some b \<Longrightarrow> end_lba b < start_lba rg"
    using Cons.prems(1) by (force split: if_splits)
  have "ranges_loop (Some rg) (n + 4096) rest = Inr total_end"
    using Cons.prems bounds(3) by (auto split: if_splits)
  from Cons.IH[OF this] Cons.prems(2)
  have rest: "\<forall>r \<in> set rest. good_range r" "ranges_ascend rest" "total_end = n + 4096 + 4096 * length rest"
      "\<forall>r \<in> set rest. end_lba rg < start_lba r"
    by auto
  have "end_lba b < start_lba r" if "before = Some b" "r \<in> set rest" for b r
    using apart[OF that(1)] rest(4) that(2) bounds(1) by force
  with rest good apart show ?case by (auto simp: ranges_ascend_def)
qed (simp add: ranges_ascend_def)

lemma ranges_loop_good:
  assumes "\<forall>r \<in> set rs. good_range r" and "ranges_ascend rs" and "n + 4096 * length rs < two64"
    and "\<forall>b. before = Some b \<longrightarrow> (\<forall>r \<in> set rs. end_lba b < start_lba r)"
  shows "ranges_loop before n rs = Inr (n + 4096 * length rs)"
  using assms
proof (induction rs arbitrary: before n)
  case (Cons rg rest)
  have good: "good_range rg" using Cons.prems(1) by simp
  then have bounds: "start_lba rg \<le> end_lba rg" "end_lba rg < GDOX_XGD1_REDUMP_SECTORS"
    by (auto simp: good_range_def)
  have len: "gdox_security_range_length rg = 4096"
    using range_length_4096[OF bounds] good by (simp add: GDOX_XGD1_RANGE_SECTORS_def)
  have "ranges_loop (Some rg) (n + 4096) rest = Inr (n + 4096 + 4096 * length rest)"
    using Cons.prems by (intro Cons.IH) (auto simp: ranges_ascend_def)
  then show ?case
    using bounds len Cons.prems(3,4)
    by (auto simp: GDOX_XGD1_RANGE_SECTORS_def split: option.split)
qed simp

lemma ranges_validate_iff:
  assumes "length rs = 16"
  shows "gdox_security_ranges_validate rs = Inr () \<longleftrightarrow> (\<forall>r \<in> set rs. good_range r) \<and> ranges_ascend rs"
proof
  assume "gdox_security_ranges_validate rs = Inr ()"
  then obtain n where "ranges_loop None 0 rs = Inr n"
    by (auto simp: gdox_security_ranges_validate_def split: sum.splits)
  from ranges_loop_ok[OF this] assms show "(\<forall>r \<in> set rs. good_range r) \<and> ranges_ascend rs" by simp
next
  assume "(\<forall>r \<in> set rs. good_range r) \<and> ranges_ascend rs"
  then have "ranges_loop None 0 rs = Inr (0 + 4096 * length rs)"
    using assms by (intro ranges_loop_good) auto
  then show "gdox_security_ranges_validate rs = Inr ()"
    using assms by (simp add: gdox_security_ranges_validate_def GDOX_XGD1_NORMALIZED_SECTORS_def)
qed

lemma card_range_sectors: "good_range r \<Longrightarrow> card (range_sectors r) = 4096"
  by (simp add: good_range_def range_sectors_def)

lemma card_ranges:
  assumes "\<forall>r \<in> set rs. good_range r" and "ranges_ascend rs"
  shows "card (\<Union>r \<in> set rs. range_sectors r) = 4096 * length rs"
  using assms
proof (induction rs)
  case (Cons r rest)
  let ?rest = "\<Union>r \<in> set rest. range_sectors r"
  have "range_sectors r \<inter> ?rest = {}"
    using Cons.prems(2) by (force simp: ranges_ascend_def range_sectors_def)
  moreover have "finite ?rest" "finite (range_sectors r)" by (auto simp: range_sectors_def)
  ultimately have "card (range_sectors r \<union> ?rest) = card (range_sectors r) + card ?rest"
    by (simp add: card_Un_disjoint)
  then show ?case
    using Cons by (simp add: card_range_sectors ranges_ascend_def)
qed simp

lemma length_security_entries: "security_entries bytes is = Some rs \<Longrightarrow> length rs = length is"
  by (induction "is" arbitrary: rs) (auto split: option.splits)

lemma security_sector_inspect_ok:
  assumes "gdox_security_sector_inspect bytes = Inr report"
  shows "length bytes = 2048" and "length (ranges report) = 16"
    and "\<forall>r \<in> set (ranges report). good_range r" and "ranges_ascend (ranges report)"
    and "raw_crc32 report = gdox_crc32 bytes"
proof -
  obtain rs where rs: "security_entries bytes [0..<16] = Some rs" "gdox_security_ranges_validate rs = Inr ()"
      "ranges report = rs" "raw_crc32 report = gdox_crc32 bytes" and len: "length bytes = 2048"
    using assms
    by (auto simp: gdox_security_sector_inspect_def GDOX_XGD1_SECURITY_RANGE_COUNT_def
        GDOX_XGD1_SECURITY_SECTOR_BYTES_def Let_def split: if_splits option.splits sum.splits)
  have "length rs = 16" using length_security_entries[OF rs(1)] by simp
  then show "length bytes = 2048" "length (ranges report) = 16"
      "\<forall>r \<in> set (ranges report). good_range r" "ranges_ascend (ranges report)"
      "raw_crc32 report = gdox_crc32 bytes"
    using rs len ranges_validate_iff[of rs] by auto
qed

end
