(* ===== verification/PreservationIo.thy ===== *)
theory PreservationIo
  imports Complex_Main Security FileSource
begin

text \<open>
  The files a disc is preserved to: src/src/platform/preservation_io_posix.c over a model of the POSIX
  calls it makes, and \<open>gdox_hash_file\<close> of src/src/core/hash.c, which reads a file through it.

  The kernel is the record \<open>posix\<close>: a name leads to an inode, an inode has a kind and contents, and
  every system call takes the next answer of a script (it works, it is interrupted, it fails with an
  error text, or it moves at most so many bytes; after the script all calls work). A path is its
  string: two different strings are two different names. Allocations are scripted in the same way,
  and so is the clock, whose readings are exact numbers (the rounding of \<open>double\<close> is not modelled).
\<close>

section \<open>The kernel\<close>

datatype node_kind = REGULAR | DIRECTORY | SPECIAL

datatype sys_answer = SYS_OK | SYS_EINTR | SYS_ERROR string | SYS_BYTES nat

record posix =
  px_names :: "string \<Rightarrow> nat option"
  px_kind :: "nat \<Rightarrow> node_kind"
  px_data :: "nat \<Rightarrow> byte list"
  px_fresh :: nat
  px_descriptors :: nat
  px_errno :: string
  px_space :: "string \<Rightarrow> u64 \<times> u64"
  px_answers :: "sys_answer list"
  px_allocations :: "bool list"
  px_clock :: "rat list"
  px_unix_time :: int

definition ENOENT :: string where "ENOENT = ''No such file or directory''"
definition EEXIST :: string where "EEXIST = ''File exists''"
definition EISDIR :: string where "EISDIR = ''Is a directory''"
definition EPERM :: string where "EPERM = ''Operation not permitted''"
definition EINTR :: string where "EINTR = ''Interrupted system call''"

definition px_sys :: "posix \<Rightarrow> sys_answer \<times> posix" where
  "px_sys px =
     (case px_answers px of [] \<Rightarrow> (SYS_OK, px) | a # rest \<Rightarrow> (a, px\<lparr>px_answers := rest\<rparr>))"

definition px_fail :: "string \<Rightarrow> posix \<Rightarrow> bool \<times> posix" where
  "px_fail errno px = (False, px\<lparr>px_errno := errno\<rparr>)"

text \<open>A call that moves no data: whether it works, before its own checks.\<close>

definition px_call :: "posix \<Rightarrow> bool \<times> posix" where
  "px_call px =
     (case px_sys px of
        (SYS_ERROR errno, px') \<Rightarrow> px_fail errno px'
      | (SYS_EINTR, px') \<Rightarrow> px_fail EINTR px'
      | (_, px') \<Rightarrow> (True, px'))"

definition px_allocate :: "posix \<Rightarrow> bool \<times> posix" where
  "px_allocate px =
     (case px_allocations px of [] \<Rightarrow> (True, px) | a # rest \<Rightarrow> (a, px\<lparr>px_allocations := rest\<rparr>))"

text \<open>A descriptor: the inode and the offset.\<close>

record descriptor =
  fd_inode :: nat
  fd_offset :: nat

definition px_open_new :: "string \<Rightarrow> posix \<Rightarrow> descriptor option \<times> posix" where
  "px_open_new path px =
     (case px_call px of
        (False, px) \<Rightarrow> (None, px)
      | (True, px) \<Rightarrow>
          (case px_names px path of
             Some _ \<Rightarrow> (None, px\<lparr>px_errno := EEXIST\<rparr>)
           | None \<Rightarrow>
               (let i = px_fresh px
                in (Some \<lparr>fd_inode = i, fd_offset = 0\<rparr>,
                    px\<lparr>px_names := (px_names px)(path \<mapsto> i), px_kind := (px_kind px)(i := REGULAR),
                       px_data := (px_data px)(i := []), px_fresh := i + 1,
                       px_descriptors := px_descriptors px + 1\<rparr>))))"

definition px_open_read :: "string \<Rightarrow> posix \<Rightarrow> descriptor option \<times> posix" where
  "px_open_read path px =
     (case px_call px of
        (False, px) \<Rightarrow> (None, px)
      | (True, px) \<Rightarrow>
          (case px_names px path of
             None \<Rightarrow> (None, px\<lparr>px_errno := ENOENT\<rparr>)
           | Some i \<Rightarrow>
               (Some \<lparr>fd_inode = i, fd_offset = 0\<rparr>, px\<lparr>px_descriptors := px_descriptors px + 1\<rparr>)))"

text \<open>\<open>close\<close> releases the descriptor whatever it reports.\<close>

definition px_close :: "posix \<Rightarrow> bool \<times> posix" where
  "px_close px =
     (case px_call px of (ok, px) \<Rightarrow> (ok, px\<lparr>px_descriptors := px_descriptors px - 1\<rparr>))"

definition px_link :: "string \<Rightarrow> string \<Rightarrow> posix \<Rightarrow> bool \<times> posix" where
  "px_link old new px =
     (case px_call px of
        (False, px) \<Rightarrow> (False, px)
      | (True, px) \<Rightarrow>
          (case px_names px old of
             None \<Rightarrow> px_fail ENOENT px
           | Some i \<Rightarrow>
               if px_names px new \<noteq> None then px_fail EEXIST px
               else if px_kind px i = DIRECTORY then px_fail EPERM px
               else (True, px\<lparr>px_names := (px_names px)(new \<mapsto> i)\<rparr>)))"

definition px_unlink :: "string \<Rightarrow> posix \<Rightarrow> bool \<times> posix" where
  "px_unlink path px =
     (case px_call px of
        (False, px) \<Rightarrow> (False, px)
      | (True, px) \<Rightarrow>
          (case px_names px path of
             None \<Rightarrow> px_fail ENOENT px
           | Some i \<Rightarrow>
               if px_kind px i = DIRECTORY then px_fail EISDIR px
               else (True, px\<lparr>px_names := (px_names px)(path := None)\<rparr>)))"

section \<open>preservation_io_posix.c\<close>

definition gdox_preservation_monotonic_seconds :: "posix \<Rightarrow> rat \<times> posix" where
  "gdox_preservation_monotonic_seconds px =
     (case px_clock px of [] \<Rightarrow> (0, px) | t # rest \<Rightarrow> (t, px\<lparr>px_clock := rest\<rparr>))"

definition set_errno_error :: "string \<Rightarrow> string \<Rightarrow> 'a res" where
  "set_errno_error operation errno = fail ERROR_IO (io_message (operation @ '': '') errno)"

definition allocate_file :: "descriptor \<Rightarrow> posix \<Rightarrow> descriptor res \<times> posix" where
  "allocate_file fd px =
     (case px_allocate px of
        (False, px) \<Rightarrow> (fail ERROR_INTERNAL ''could not allocate preservation file'', snd (px_close px))
      | (True, px) \<Rightarrow> (Inr fd, px))"

definition gdox_preservation_file_create :: "string \<Rightarrow> posix \<Rightarrow> descriptor res \<times> posix" where
  "gdox_preservation_file_create path px =
     (if path = [] then (fail ERROR_INVALID_ARGUMENT ''output path and file are required'', px)
      else (case px_open_new path px of
              (None, px) \<Rightarrow> (set_errno_error ''could not create preservation output'' (px_errno px), px)
            | (Some fd, px) \<Rightarrow> allocate_file fd px))"

definition gdox_preservation_file_open_read :: "string \<Rightarrow> posix \<Rightarrow> (descriptor \<times> u64) res \<times> posix" where
  "gdox_preservation_file_open_read path px =
     (if path = [] then (fail ERROR_INVALID_ARGUMENT ''image path, file, and length are required'', px)
      else (case px_open_read path px of
              (None, px) \<Rightarrow> (set_errno_error ''could not open preservation output'' (px_errno px), px)
            | (Some fd, px) \<Rightarrow>
                (case px_call px of
                   (False, px) \<Rightarrow>
                     (set_errno_error ''could not open preservation output'' (px_errno px), snd (px_close px))
                 | (True, px) \<Rightarrow>
                     if px_kind px (fd_inode fd) \<noteq> REGULAR
                     then (fail ERROR_INVALID_SOURCE
                             ''preservation output is not a regular file with a valid length'',
                           snd (px_close px))
                     else (case allocate_file fd px of
                             (Inl e, px) \<Rightarrow> (Inl e, px)
                           | (Inr fd, px) \<Rightarrow> (Inr (fd, length (px_data px (fd_inode fd))), px)))))"

text \<open>
  A write puts bytes at the offset of the descriptor. The loop has \<open>bytes\<close> left to write;
  a \<open>write\<close> that moves nothing reports whatever \<open>errno\<close> holds.
\<close>

definition write_at :: "byte list \<Rightarrow> nat \<Rightarrow> byte list \<Rightarrow> byte list" where
  "write_at data p bytes =
     take p data @ replicate (p - length data) 0 @ bytes @ drop (p + length bytes) data"

definition px_put :: "descriptor \<Rightarrow> byte list \<Rightarrow> posix \<Rightarrow> descriptor \<times> posix" where
  "px_put fd bytes px =
     (fd\<lparr>fd_offset := fd_offset fd + length bytes\<rparr>,
      px\<lparr>px_data := (px_data px)(fd_inode fd :=
           write_at (px_data px (fd_inode fd)) (fd_offset fd) bytes)\<rparr>)"

lemma px_sys_length:
  "px_sys px = (SYS_EINTR, px') \<Longrightarrow> length (px_answers px') < length (px_answers px)"
  "px_sys px = (a, px') \<Longrightarrow> length (px_answers px') \<le> length (px_answers px)"
  by (auto simp: px_sys_def split: list.splits)

function gdox_preservation_file_write ::
  "descriptor \<Rightarrow> byte list \<Rightarrow> posix \<Rightarrow> unit res \<times> descriptor \<times> posix" where
  "gdox_preservation_file_write fd bytes px =
     (if bytes = [] then (Inr (), fd, px)
      else (case px_sys px of
              (SYS_EINTR, px') \<Rightarrow> gdox_preservation_file_write fd bytes px'
            | (SYS_ERROR errno, px') \<Rightarrow>
                (set_errno_error ''could not write preservation output'' errno, fd, px'\<lparr>px_errno := errno\<rparr>)
            | (SYS_OK, px') \<Rightarrow> (case px_put fd bytes px' of (fd', px') \<Rightarrow> (Inr (), fd', px'))
            | (SYS_BYTES limit, px') \<Rightarrow>
                if limit = 0
                then (set_errno_error ''could not write preservation output'' (px_errno px'), fd, px')
                else (case px_put fd (take limit bytes) px' of
                        (fd', px') \<Rightarrow> gdox_preservation_file_write fd' (drop limit bytes) px')))"
  by pat_completeness auto
termination
  by (relation "measure (\<lambda>(fd, bytes, px). length bytes + length (px_answers px))")
    (auto simp: px_put_def neq_Nil_conv dest!: sym[of _ "px_sys _"] dest: px_sys_length)

declare gdox_preservation_file_write.simps [simp del]

function gdox_preservation_file_read ::
  "descriptor \<Rightarrow> nat \<Rightarrow> posix \<Rightarrow> byte list res \<times> descriptor \<times> posix" where
  "gdox_preservation_file_read fd capacity px =
     (case px_sys px of
        (SYS_EINTR, px') \<Rightarrow> gdox_preservation_file_read fd capacity px'
      | (SYS_ERROR errno, px') \<Rightarrow>
          (set_errno_error ''could not read preservation output'' errno, fd, px'\<lparr>px_errno := errno\<rparr>)
      | (a, px') \<Rightarrow>
          (let data = px_data px' (fd_inode fd);
               limit = (case a of SYS_BYTES n \<Rightarrow> n | _ \<Rightarrow> SSIZE_MAX);
               n = pread_count data (fd_offset fd) capacity limit
           in (Inr (take n (drop (fd_offset fd) data)), fd\<lparr>fd_offset := fd_offset fd + n\<rparr>, px')))"
  by pat_completeness auto
termination
  by (relation "measure (\<lambda>(fd, capacity, px). length (px_answers px))") (auto simp: px_sys_length)

declare gdox_preservation_file_read.simps [simp del]

definition gdox_preservation_file_sync_close :: "posix \<Rightarrow> unit res \<times> posix" where
  "gdox_preservation_file_sync_close px =
     (case px_call px of
        (synced, px) \<Rightarrow>
          (let code = px_errno px
           in case px_close px of
                (shut, px) \<Rightarrow>
                  (if \<not> synced
                   then set_errno_error ''could not synchronize preservation output'' code
                   else if \<not> shut
                   then set_errno_error ''could not synchronize preservation output'' (px_errno px)
                   else Inr (), px)))"

definition gdox_preservation_file_close :: "posix \<Rightarrow> unit res \<times> posix" where
  "gdox_preservation_file_close px =
     (case px_close px of
        (shut, px) \<Rightarrow>
          (if shut then Inr () else set_errno_error ''could not close preservation file'' (px_errno px), px))"

definition gdox_preservation_path_exists :: "string \<Rightarrow> posix \<Rightarrow> bool \<times> posix" where
  "gdox_preservation_path_exists path px =
     (case px_call px of (ok, px) \<Rightarrow> (ok \<and> px_names px path \<noteq> None, px))"

definition gdox_preservation_path_remove :: "string \<Rightarrow> posix \<Rightarrow> bool \<times> posix" where
  "gdox_preservation_path_remove path px =
     (case px_unlink path px of (ok, px) \<Rightarrow> (ok \<or> px_errno px = ENOENT, px))"

definition gdox_preservation_path_commit :: "string \<Rightarrow> string \<Rightarrow> posix \<Rightarrow> unit res \<times> posix" where
  "gdox_preservation_path_commit temporary_path final_path px =
     (case px_link temporary_path final_path px of
        (False, px) \<Rightarrow> (set_errno_error ''could not commit preservation output'' (px_errno px), px)
      | (True, px) \<Rightarrow>
          (case px_unlink temporary_path px of
             (True, px) \<Rightarrow> (Inr (), px)
           | (False, px) \<Rightarrow>
               (set_errno_error ''could not remove committed temporary output'' (px_errno px),
                snd (px_unlink final_path px))))"

text \<open>The part of a path before its last slash; \<open>strrchr\<close> is the search from the end.\<close>

definition last_index :: "char \<Rightarrow> string \<Rightarrow> nat option" where
  "last_index c path =
     (if c \<in> set path then Some (length path - 1 - length (takeWhile (\<lambda>x. x \<noteq> c) (rev path))) else None)"

definition parent_path :: "string \<Rightarrow> nat \<Rightarrow> string" where
  "parent_path path output_bytes =
     (case last_index CHR ''/'' path of
        None \<Rightarrow> ''.''
      | Some 0 \<Rightarrow> ''/''
      | Some slash \<Rightarrow> take (min slash (output_bytes - 1)) path)"

definition gdox_preservation_available_space :: "string \<Rightarrow> posix \<Rightarrow> u64 res \<times> posix" where
  "gdox_preservation_available_space path px =
     (let parent = parent_path path 4096
      in case px_call px of
           (False, px) \<Rightarrow> (set_errno_error ''could not inspect output free space'' (px_errno px), px)
         | (True, px) \<Rightarrow>
             (case px_space px parent of
                (bavail, frsize) \<Rightarrow>
                  (if frsize \<noteq> 0 \<and> bavail > UINT64_MAX div frsize then Inr UINT64_MAX
                   else Inr (u64_mul bavail frsize), px)))"

section \<open>What the calls keep\<close>

text \<open>
  \<open>px_same\<close>: the files, their names and the number of open descriptors are as before;
  \<open>px_same_files\<close>: the files and names. \<open>px_valid\<close>: every name leads to an inode handed out before.
\<close>

definition px_same_files :: "posix \<Rightarrow> posix \<Rightarrow> bool" where
  "px_same_files px px' \<longleftrightarrow>
     px_names px' = px_names px \<and> px_kind px' = px_kind px \<and> px_data px' = px_data px \<and> px_fresh px' = px_fresh px"

definition px_same :: "posix \<Rightarrow> posix \<Rightarrow> bool" where
  "px_same px px' \<longleftrightarrow> px_same_files px px' \<and> px_descriptors px' = px_descriptors px"

definition px_valid :: "posix \<Rightarrow> bool" where
  "px_valid px \<longleftrightarrow> (\<forall>path i. px_names px path = Some i \<longrightarrow> i < px_fresh px)"

lemma px_same_refl [simp]: "px_same px px"
  by (simp add: px_same_def px_same_files_def)

lemma px_same_files_refl [simp]: "px_same_files px px"
  by (simp add: px_same_files_def)

lemma px_same_trans [trans]: "px_same px py \<Longrightarrow> px_same py pz \<Longrightarrow> px_same px pz"
  by (simp add: px_same_def px_same_files_def)

lemma px_same_files_trans [trans]: "px_same_files px py \<Longrightarrow> px_same_files py pz \<Longrightarrow> px_same_files px pz"
  by (simp add: px_same_files_def)

lemma px_same_valid: "px_same_files px px' \<Longrightarrow> px_valid px \<Longrightarrow> px_valid px'"
  by (simp add: px_same_files_def px_valid_def)

lemma px_same_imp_files: "px_same px px' \<Longrightarrow> px_same_files px px'"
  by (simp add: px_same_def)

lemma px_sys_same: "px_sys px = (a, px') \<Longrightarrow> px_same px px'"
  by (auto simp: px_sys_def px_same_def px_same_files_def split: list.splits)

lemma px_call_same: "px_call px = (ok, px') \<Longrightarrow> px_same px px'"
  by (auto simp: px_call_def px_fail_def px_same_def px_same_files_def dest!: px_sys_same
      split: prod.splits sys_answer.splits)

lemma px_allocate_same: "px_allocate px = (ok, px') \<Longrightarrow> px_same px px'"
  by (auto simp: px_allocate_def px_same_def px_same_files_def split: list.splits)

lemma px_clock_same: "gdox_preservation_monotonic_seconds px = (t, px') \<Longrightarrow> px_same px px'"
  by (auto simp: gdox_preservation_monotonic_seconds_def px_same_def px_same_files_def split: list.splits)

lemma px_close_same:
  assumes "px_close px = (ok, px')"
  shows "px_same_files px px' \<and> px_descriptors px' = px_descriptors px - 1"
  using assms px_call_same[of px] by (force simp: px_close_def px_same_def px_same_files_def split: prod.splits)

lemma px_close_snd: "px_same_files px (snd (px_close px))"
  using px_close_same[of px "fst (px_close px)" "snd (px_close px)"] by simp

lemma px_exists_same: "gdox_preservation_path_exists path px = (found, px') \<Longrightarrow> px_same px px'"
  by (auto simp: gdox_preservation_path_exists_def dest: px_call_same split: prod.splits)

lemma px_space_same: "gdox_preservation_available_space path px = (r, px') \<Longrightarrow> px_same px px'"
  by (auto simp: gdox_preservation_available_space_def Let_def dest: px_call_same split: prod.splits bool.splits if_splits)

lemma px_read_same: "gdox_preservation_file_read fd capacity px = (r, fd', px') \<Longrightarrow> px_same px px'"
proof (induction fd capacity px rule: gdox_preservation_file_read.induct)
  case (1 fd capacity px)
  obtain a py where a: "px_sys px = (a, py)" by fastforce
  show ?case
  proof (cases "a = SYS_EINTR")
    case True
    then show ?thesis
      using 1 a px_sys_same[OF a] by (auto simp: gdox_preservation_file_read.simps[of fd] intro: px_same_trans)
  next
    case False
    then show ?thesis
      using 1(2) a px_sys_same[OF a]
      by (auto simp: gdox_preservation_file_read.simps[of fd] Let_def px_same_def px_same_files_def
          split: sys_answer.splits)
  qed
qed

text \<open>A read delivers the next bytes of the file, and none exactly at its end.\<close>

lemma px_read_bytes:
  assumes "gdox_preservation_file_read fd capacity px = (Inr bytes, fd', px')" and "0 < capacity"
  shows "bytes = take (length bytes) (drop (fd_offset fd) (px_data px (fd_inode fd)))
       \<and> fd' = fd\<lparr>fd_offset := fd_offset fd + length bytes\<rparr> \<and> length bytes \<le> capacity
       \<and> (bytes = [] \<longleftrightarrow> length (px_data px (fd_inode fd)) \<le> fd_offset fd)"
  using assms
proof (induction fd capacity px rule: gdox_preservation_file_read.induct)
  case (1 fd capacity px)
  obtain a py where a: "px_sys px = (a, py)" by fastforce
  have same: "px_data py = px_data px" using px_sys_same[OF a] by (simp add: px_same_def px_same_files_def)
  show ?case
  proof (cases "a = SYS_EINTR")
    case True
    then show ?thesis
      using 1 a same by (simp add: gdox_preservation_file_read.simps[of fd])
  next
    case False
    define limit where "limit = (case a of SYS_BYTES n \<Rightarrow> n | _ \<Rightarrow> SSIZE_MAX)"
    define n where "n = pread_count (px_data px (fd_inode fd)) (fd_offset fd) capacity limit"
    have "bytes = take n (drop (fd_offset fd) (px_data px (fd_inode fd)))"
        "fd' = fd\<lparr>fd_offset := fd_offset fd + n\<rparr>"
      using 1(2) False a same
      by (auto simp: gdox_preservation_file_read.simps[of fd] Let_def n_def limit_def set_errno_error_def
          split: sys_answer.splits)
    moreover have "n \<le> length (px_data px (fd_inode fd)) - fd_offset fd" "n \<le> capacity"
        "n = 0 \<longleftrightarrow> length (px_data px (fd_inode fd)) \<le> fd_offset fd"
      using 1(3) by (auto simp: n_def pread_count_def)
    ultimately show ?thesis by auto
  qed
qed

text \<open>A completed write at the end of a file appends; everything else stays.\<close>

definition px_written :: "nat \<Rightarrow> byte list \<Rightarrow> posix \<Rightarrow> posix \<Rightarrow> bool" where
  "px_written i bytes px px' \<longleftrightarrow>
     px_names px' = px_names px \<and> px_kind px' = px_kind px \<and> px_fresh px' = px_fresh px
     \<and> px_descriptors px' = px_descriptors px \<and> px_data px' = (px_data px)(i := bytes)"

lemma write_at_end: "write_at data (length data) bytes = data @ bytes"
  by (simp add: write_at_def)

lemma px_file_write:
  assumes "gdox_preservation_file_write fd bytes px = (r, fd', px')"
    and "fd_offset fd = length (px_data px (fd_inode fd))"
  shows "\<exists>n \<le> length bytes. px_written (fd_inode fd) (px_data px (fd_inode fd) @ take n bytes) px px'
     \<and> fd' = fd\<lparr>fd_offset := fd_offset fd + n\<rparr> \<and> (r = Inr () \<longrightarrow> n = length bytes)"
  using assms
proof (induction fd bytes px rule: gdox_preservation_file_write.induct)
  case (1 fd bytes px)
  obtain a py where a: "px_sys px = (a, py)" by fastforce
  have same: "px_same px py" by (rule px_sys_same[OF a])
  then have data: "px_data py = px_data px" by (simp add: px_same_def px_same_files_def)
  let ?ino = "fd_inode fd"
  have stop: ?case if "px' = py\<lparr>px_errno := e\<rparr>" "fd' = fd" "r \<noteq> Inr ()" for e
    using that same by (intro exI[of _ 0]) (simp add: px_written_def px_same_def px_same_files_def)
  show ?case
  proof (cases "bytes = []")
    case True
    then show ?thesis using 1(3) by (simp add: gdox_preservation_file_write.simps[of fd] px_written_def)
  next
    case False
    note step = gdox_preservation_file_write.simps[of fd bytes px]
    show ?thesis
    proof (cases a)
      case SYS_EINTR
      have "gdox_preservation_file_write fd bytes py = (r, fd', px')"
        using 1(3) False a SYS_EINTR by (simp add: step)
      with 1(1)[OF False a[symmetric] SYS_EINTR] 1(4) data same show ?thesis
        by (auto simp: px_written_def px_same_def px_same_files_def)
    next
      case (SYS_ERROR e)
      then show ?thesis
        using 1(3) False a by (intro stop[of e]) (auto simp: step set_errno_error_def)
    next
      case SYS_OK
      then have "r = Inr ()" "fd' = fd\<lparr>fd_offset := fd_offset fd + length bytes\<rparr>"
          "px_data px' = (px_data px)(?ino := px_data px ?ino @ bytes)"
          "px_names px' = px_names py" "px_kind px' = px_kind py" "px_fresh px' = px_fresh py"
          "px_descriptors px' = px_descriptors py"
        using 1(3,4) False a data by (auto simp: step px_put_def write_at_end)
      with same show ?thesis
        by (intro exI[of _ "length bytes"]) (simp add: px_written_def px_same_def px_same_files_def)
    next
      case (SYS_BYTES limit)
      show ?thesis
      proof (cases "limit = 0")
        case True
        then show ?thesis
          using 1(3) False a SYS_BYTES by (intro stop[of "px_errno py"]) (auto simp: step set_errno_error_def)
      next
        case limit: False
        let ?part = "take limit bytes"
        obtain fd1 px1 where put: "px_put fd ?part py = (fd1, px1)" by fastforce
        have fd1: "fd1 = fd\<lparr>fd_offset := fd_offset fd + length ?part\<rparr>"
            "px_data px1 = (px_data px)(?ino := px_data px ?ino @ ?part)"
            "px_names px1 = px_names px" "px_kind px1 = px_kind px" "px_fresh px1 = px_fresh px"
            "px_descriptors px1 = px_descriptors px"
          using put 1(4) data same by (auto simp: px_put_def write_at_end px_same_def px_same_files_def)
        have rest: "gdox_preservation_file_write fd1 (drop limit bytes) px1 = (r, fd', px')"
          using 1(3) False a SYS_BYTES limit put by (simp add: step)
        have off: "fd_offset fd1 = length (px_data px1 (fd_inode fd1))" using fd1 1(4) by simp
        from 1(2)[OF False a[symmetric] SYS_BYTES limit put[symmetric] rest off]
        obtain n where n: "n \<le> length (drop limit bytes)"
            "px_written (fd_inode fd1) (px_data px1 (fd_inode fd1) @ take n (drop limit bytes)) px1 px'"
            "fd' = fd1\<lparr>fd_offset := fd_offset fd1 + n\<rparr>" "r = Inr () \<longrightarrow> n = length (drop limit bytes)"
          by auto
        have all: "length ?part + n \<le> length bytes" "?part @ take n (drop limit bytes) = take (length ?part + n) bytes"
            "r = Inr () \<longrightarrow> length ?part + n = length bytes"
          using n(1,4) by (auto simp: take_add min_def)
        from n(2) fd1 all(2)
        have "px_written ?ino (px_data px ?ino @ take (length ?part + n) bytes) px px'"
          by (simp add: px_written_def)
        then show ?thesis using n(3) fd1(1) all(1,3) by (intro exI[of _ "length ?part + n"]) simp
      qed
    qed
  qed
qed

text \<open>A new file is a fresh inode under a name that was free.\<close>

lemma px_file_create:
  assumes "gdox_preservation_file_create path px = (Inr fd, px')"
  shows "px_names px path = None \<and> fd = \<lparr>fd_inode = px_fresh px, fd_offset = 0\<rparr>
     \<and> px_names px' = (px_names px)(path \<mapsto> px_fresh px)
     \<and> px_kind px' = (px_kind px)(px_fresh px := REGULAR)
     \<and> px_data px' = (px_data px)(px_fresh px := []) \<and> px_fresh px' = px_fresh px + 1
     \<and> px_descriptors px' = px_descriptors px + 1"
proof -
  obtain ok p1 where c: "px_call px = (ok, p1)" by fastforce
  from assms c have ok and free: "px_names p1 path = None"
    by (auto simp: gdox_preservation_file_create_def px_open_new_def set_errno_error_def
        split: bool.splits option.splits if_splits)
  note same = px_call_same[OF c]
  define p2 where "p2 = p1\<lparr>px_names := (px_names p1)(path \<mapsto> px_fresh p1),
      px_kind := (px_kind p1)(px_fresh p1 := REGULAR), px_data := (px_data p1)(px_fresh p1 := []),
      px_fresh := px_fresh p1 + 1, px_descriptors := px_descriptors p1 + 1\<rparr>"
  have "allocate_file \<lparr>fd_inode = px_fresh p1, fd_offset = 0\<rparr> p2 = (Inr fd, px')"
    using assms c free \<open>ok\<close>
    by (auto simp: gdox_preservation_file_create_def px_open_new_def p2_def Let_def split: if_splits)
  then have "fd = \<lparr>fd_inode = px_fresh p1, fd_offset = 0\<rparr>" "px_same p2 px'"
    by (auto simp: allocate_file_def dest: px_allocate_same split: prod.splits bool.splits)
  with same free show ?thesis by (simp add: px_same_def px_same_files_def p2_def)
qed

text \<open>A failed create leaves at worst an empty new file, and no descriptor.\<close>

definition px_grown :: "(string \<Rightarrow> bool) \<Rightarrow> posix \<Rightarrow> posix \<Rightarrow> bool" where
  "px_grown new px px' \<longleftrightarrow>
     px_fresh px \<le> px_fresh px'
     \<and> (\<forall>i < px_fresh px. px_data px' i = px_data px i \<and> px_kind px' i = px_kind px i)
     \<and> (\<forall>path. px_names px' path = px_names px path
          \<or> new path \<and> px_names px path = None
             \<and> (\<exists>i. px_names px' path = Some i \<and> px_fresh px \<le> i \<and> i < px_fresh px'))"

lemma px_grown_same: "px_same_files px px' \<Longrightarrow> px_grown new px px'"
  by (simp add: px_grown_def px_same_files_def)

lemma px_grown_refl: "px_grown new px px"
  by (simp add: px_grown_def)

lemma px_grown_mono: "px_grown new px px' \<Longrightarrow> (\<And>path. new path \<Longrightarrow> new' path) \<Longrightarrow> px_grown new' px px'"
  unfolding px_grown_def by meson

lemma px_grown_valid: "px_grown new px px' \<Longrightarrow> px_valid px \<Longrightarrow> px_valid px'"
  unfolding px_valid_def
proof (intro allI impI)
  fix path i
  assume g: "px_grown new px px'" and v: "\<forall>path i. px_names px path = Some i \<longrightarrow> i < px_fresh px"
    and i: "px_names px' path = Some i"
  from g have le: "px_fresh px \<le> px_fresh px'" by (simp add: px_grown_def)
  from g have "px_names px' path = px_names px path \<or> (\<exists>j. px_names px' path = Some j \<and> j < px_fresh px')"
    unfolding px_grown_def by blast
  then show "i < px_fresh px'"
  proof
    assume "px_names px' path = px_names px path"
    with v i have "i < px_fresh px" by simp
    with le show ?thesis by simp
  qed (use i in simp)
qed

lemma px_grown_trans:
  assumes "px_grown new px py" and "px_grown new py pz" and "px_valid px"
  shows "px_grown new px pz"
  unfolding px_grown_def
proof (intro conjI allI impI)
  note d = assms(1,2)[unfolded px_grown_def]
  show "px_fresh px \<le> px_fresh pz" using d by linarith
  show "px_data pz i = px_data px i" "px_kind pz i = px_kind px i" if "i < px_fresh px" for i
    using d that by (metis less_le_trans)+
  fix path
  have x: "px_names py path = px_names px path \<or> new path \<and> px_names px path = None
      \<and> (\<exists>i. px_names py path = Some i \<and> px_fresh px \<le> i \<and> i < px_fresh py)" using d by blast
  have y: "px_names pz path = px_names py path \<or> new path \<and> px_names py path = None
      \<and> (\<exists>i. px_names pz path = Some i \<and> px_fresh py \<le> i \<and> i < px_fresh pz)" using d by blast
  have le: "px_fresh px \<le> px_fresh py" "px_fresh py \<le> px_fresh pz" using d by auto
  from x y show "px_names pz path = px_names px path
      \<or> new path \<and> px_names px path = None \<and> (\<exists>i. px_names pz path = Some i \<and> px_fresh px \<le> i \<and> i < px_fresh pz)"
    using le by (smt (verit, best) le_trans less_le_trans)
qed

lemma px_open_new_grown:
  "px_open_new path px = (r, px') \<Longrightarrow> px_grown (\<lambda>p. p = path) px px'"
  by (auto simp: px_open_new_def px_grown_def px_same_def px_same_files_def Let_def dest!: px_call_same
      split: prod.splits bool.splits option.splits if_splits)

lemma px_create_grown:
  assumes "gdox_preservation_file_create path px = (r, px')"
  shows "px_grown (\<lambda>p. p = path) px px'"
proof (cases "path = []")
  case True
  then show ?thesis using assms by (simp add: gdox_preservation_file_create_def px_grown_refl)
next
  case False
  obtain o1 p1 where o: "px_open_new path px = (o1, p1)" by fastforce
  have "px_same_files p1 px'"
    using assms False o
    by (auto simp: gdox_preservation_file_create_def allocate_file_def
        intro: px_same_files_trans px_close_snd dest!: px_allocate_same px_same_imp_files
        split: option.splits prod.splits bool.splits)
  with px_open_new_grown[OF o] show ?thesis
    by (simp add: px_grown_def px_same_files_def)
qed

lemma px_open_read_same:
  assumes "gdox_preservation_file_open_read path px = (r, px')"
  shows "px_same_files px px'"
proof -
  have o: "px_same_files px p" if "px_open_read path px = (x, p)" for x p
    using that by (auto simp: px_open_read_def px_same_def px_same_files_def dest!: px_call_same
        split: prod.splits bool.splits option.splits)
  have a: "px_same_files p p'" if "allocate_file fd p = (x, p')" for fd p x p'
    using that by (auto simp: allocate_file_def dest!: px_allocate_same px_same_imp_files
        intro: px_same_files_trans px_close_snd split: prod.splits bool.splits)
  show ?thesis
  proof (cases "path = []")
    case False
    obtain fd p1 where p1: "px_open_read path px = (fd, p1)" by fastforce
    obtain ok p2 where p2: "px_call p1 = (ok, p2)" by fastforce
    have "px_same_files px p2"
      using o[OF p1] px_same_imp_files[OF px_call_same[OF p2]] by (rule px_same_files_trans)
    then show ?thesis
      using assms False p1 p2 o[OF p1]
      by (auto simp: gdox_preservation_file_open_read_def intro: px_same_files_trans px_close_snd dest!: a
          split: option.splits bool.splits prod.splits if_splits sum.splits)
  qed (use assms in \<open>simp add: gdox_preservation_file_open_read_def\<close>)
qed

lemma px_open_read_ok:
  assumes "gdox_preservation_file_open_read path px = (Inr (fd, n), px')"
  shows "\<exists>i. px_names px path = Some i \<and> fd = \<lparr>fd_inode = i, fd_offset = 0\<rparr> \<and> n = length (px_data px i)
     \<and> px_kind px i = REGULAR"
  using assms
  by (auto simp: gdox_preservation_file_open_read_def px_open_read_def allocate_file_def set_errno_error_def
      px_same_def px_same_files_def dest!: px_call_same px_allocate_same
      split: if_splits prod.splits option.splits bool.splits sum.splits)

lemma px_sync_close_same:
  "gdox_preservation_file_sync_close px = (r, px') \<Longrightarrow> px_same_files px px'"
  by (auto simp: gdox_preservation_file_sync_close_def Let_def px_same_def
      dest!: px_call_same px_close_same intro: px_same_files_trans split: prod.splits)

lemma px_file_close_same:
  "gdox_preservation_file_close px = (r, px') \<Longrightarrow> px_same_files px px'"
  by (auto simp: gdox_preservation_file_close_def dest!: px_close_same split: prod.splits)

text \<open>A commit that succeeds moves the name.\<close>

lemma px_commit_ok:
  assumes "gdox_preservation_path_commit old new px = (Inr (), px')"
  shows "\<exists>i. px_names px old = Some i \<and> px_names px new = None
     \<and> px_names px' = (px_names px)(new \<mapsto> i, old := None)
     \<and> px_data px' = px_data px \<and> px_kind px' = px_kind px \<and> px_fresh px' = px_fresh px
     \<and> px_descriptors px' = px_descriptors px"
proof -
  obtain p1 where l: "px_link old new px = (True, p1)" and u: "px_unlink old p1 = (True, px')"
    using assms
    by (auto simp: gdox_preservation_path_commit_def set_errno_error_def split: prod.splits bool.splits)
  obtain i where i: "px_names px old = Some i" "px_names px new = None"
      "px_names p1 = (px_names px)(new \<mapsto> i)" "px_data p1 = px_data px" "px_kind p1 = px_kind px"
      "px_fresh p1 = px_fresh px" "px_descriptors p1 = px_descriptors px"
    using l by (auto simp: px_link_def px_fail_def px_same_def px_same_files_def dest!: px_call_same
        split: prod.splits bool.splits option.splits if_splits)
  have "px_names px' = (px_names p1)(old := None) \<and> px_data px' = px_data p1 \<and> px_kind px' = px_kind p1
      \<and> px_fresh px' = px_fresh p1 \<and> px_descriptors px' = px_descriptors p1"
    using u by (auto simp: px_unlink_def px_fail_def px_same_def px_same_files_def dest!: px_call_same
        split: prod.splits bool.splits option.splits if_splits)
  with i show ?thesis by simp
qed

section \<open>gdox_hash_file\<close>

definition GDOX_HASH_FILE_BUFFER_BYTES :: nat where "GDOX_HASH_FILE_BUFFER_BYTES = 1048576"

text \<open>The reading loop: the bytes hashed so far, of \<open>file_length\<close>.\<close>

function hash_file_loop ::
  "'d digest_ops \<Rightarrow> u64 \<Rightarrow> descriptor \<Rightarrow> u64 \<Rightarrow> 'd gdox_hash_stream \<Rightarrow> posix
   \<Rightarrow> 'd gdox_hash_stream res \<times> posix" where
  "hash_file_loop ops file_length fd completed stream px =
     (if completed < file_length
      then (let request = min (file_length - completed) GDOX_HASH_FILE_BUFFER_BYTES
            in case gdox_preservation_file_read fd request px of
                 (Inl e, fd', px') \<Rightarrow> (Inl e, px')
               | (Inr bytes, fd', px') \<Rightarrow>
                   if bytes = [] then (fail ERROR_IO ''file ended while hashing'', px')
                   else (case gdox_hash_stream_update ops stream bytes of
                           (Inl e, _) \<Rightarrow> (Inl e, px')
                         | (Inr _, stream') \<Rightarrow>
                             hash_file_loop ops file_length fd' (completed + length bytes) stream' px'))
      else (Inr stream, px))"
  by pat_completeness auto
termination
  by (relation "measure (\<lambda>(ops, file_length, fd, completed, stream, px). file_length - completed)")
    (auto simp: neq_Nil_conv)

declare hash_file_loop.simps [simp del]

definition gdox_hash_file ::
  "'d digest_ops \<Rightarrow> string \<Rightarrow> posix \<Rightarrow> (gdox_hashes \<times> u64) res \<times> posix" where
  "gdox_hash_file ops path px =
     (if path = [] then (fail ERROR_INVALID_ARGUMENT ''file path and hash output are required'', px)
      else (case gdox_preservation_file_open_read path px of
              (Inl e, px) \<Rightarrow> (Inl e, px)
            | (Inr (fd, file_length), px) \<Rightarrow>
                (case (case px_allocate px of
                         (False, px) \<Rightarrow> (fail ERROR_INTERNAL ''could not allocate file hashing buffer'', px)
                       | (True, px) \<Rightarrow>
                           (case px_allocate px of
                              (allocated, px) \<Rightarrow>
                                (case gdox_hash_stream_create allocated ops of
                                   Inl e \<Rightarrow> (Inl e, px)
                                 | Inr stream \<Rightarrow>
                                     (case hash_file_loop ops file_length fd 0 stream px of
                                        (Inl e, px) \<Rightarrow> (Inl e, px)
                                      | (Inr stream, px) \<Rightarrow>
                                          (fst (gdox_hash_stream_finish ops stream), px))))) of
                   (Inl e, px) \<Rightarrow> (Inl e, snd (gdox_preservation_file_close px))
                 | (Inr hashes, px) \<Rightarrow>
                     (case gdox_preservation_file_close px of
                        (Inl e, px) \<Rightarrow> (Inl e, px)
                      | (Inr _, px) \<Rightarrow> (Inr (hashes, file_length), px)))))"

end
