(* ===== verification/PreservationCatalog.thy ===== *)
theory PreservationCatalog
  imports PreservationIo
begin

text \<open>
  The data of src/include/gdox/preserve.h and the catalog of known discs
  (src/src/core/preservation_catalog.c): a disc is recognised by the CRCs of its PFI and DMI
  structures and its security ranges and expected hashes come from the table. A fixed \<open>char\<close> array is
  the string before its zero byte.
\<close>

unbundle bit_operations_syntax

section \<open>Data of a preservation\<close>

definition GDOX_PRESERVATION_TITLE_CAPACITY :: nat where "GDOX_PRESERVATION_TITLE_CAPACITY = 160"
definition GDOX_PRESERVATION_ID_CAPACITY :: nat where "GDOX_PRESERVATION_ID_CAPACITY = 64"
definition GDOX_PRESERVATION_PATH_CAPACITY :: nat where "GDOX_PRESERVATION_PATH_CAPACITY = 4096"

definition GDOX_EXPECTED_CRC32 :: "32 word" where "GDOX_EXPECTED_CRC32 = 1"
definition GDOX_EXPECTED_MD5 :: "32 word" where "GDOX_EXPECTED_MD5 = 2"
definition GDOX_EXPECTED_SHA1 :: "32 word" where "GDOX_EXPECTED_SHA1 = 4"
definition GDOX_EXPECTED_SHA256 :: "32 word" where "GDOX_EXPECTED_SHA256 = 8"

text \<open>\<open>PRESERVATION_FORMAT_OTHER\<close> is a value outside the enumeration.\<close>

datatype gdox_preservation_format =
    PRESERVATION_XISO_COMPACT | PRESERVATION_REDUMP | PRESERVATION_FORMAT_OTHER

datatype gdox_preservation_phase =
    PRESERVATION_PREPARING | PRESERVATION_READING | PRESERVATION_VERIFYING | PRESERVATION_FINALIZING

datatype gdox_preservation_status =
    PRESERVATION_PLAYABLE_XISO | PRESERVATION_REDUMP_CANDIDATE | PRESERVATION_REDUMP_EVIDENCE_COMPLETE

datatype gdox_security_map_source =
    SECURITY_MAP_AUTHENTICATED_SS | SECURITY_MAP_CATALOG | SECURITY_MAP_USER

record gdox_preservation_map =
  map_source :: gdox_security_map_source
  map_ranges :: "gdox_security_range list"
  expected_hashes :: gdox_hashes
  expected_hash_mask :: "32 word"
  map_title :: string
  map_mastering_id :: string

record gdox_preservation_request =
  req_format :: gdox_preservation_format
  output_path :: string
  verify :: bool
  keep_partial :: bool
  security_map :: "gdox_preservation_map option"

text \<open>The input without its source, which the operations take next to it; \<open>None\<close> is a NULL string.\<close>

record gdox_preservation_input =
  source_lba_offset :: u64
  in_title :: "string option"
  in_title_id :: "32 word option"
  source_description :: "string option"
  media_patches :: u64
  output_sectors :: u64
  filesystem_inventory_verified :: bool

record gdox_preservation_progress =
  phase :: gdox_preservation_phase
  completed_bytes :: u64
  total_bytes :: u64
  bytes_per_second :: rat
  progress_unreadable :: u64

record gdox_bad_sector_range =
  bad_start :: u64
  bad_end :: u64

record gdox_preservation_result =
  res_format :: gdox_preservation_format
  status :: gdox_preservation_status
  res_bytes :: u64
  hashes :: gdox_hashes
  readback_verified :: bool
  expected_hashes_match :: int
  normalized_security_sectors :: u64
  unreadable_sectors :: u64
  unreadable_ranges :: "gdox_bad_sector_range list"
  evidence :: disc_evidence
  manifest_path :: string

definition no_hashes :: gdox_hashes where
  "no_hashes = \<lparr>md5 = replicate 16 0, sha1 = replicate 20 0, sha256 = replicate 32 0, crc32_value = 0\<rparr>"

definition empty_map :: gdox_preservation_map where
  "empty_map =
     \<lparr>map_source = SECURITY_MAP_AUTHENTICATED_SS, map_ranges = replicate 16 \<lparr>start_lba = 0, end_lba = 0\<rparr>,
      expected_hashes = no_hashes, expected_hash_mask = 0, map_title = [], map_mastering_id = []\<rparr>"

section \<open>The catalog\<close>

record gdox_catalog_entry =
  ce_title :: string
  ce_mastering_id :: string
  ce_pfi_crc32 :: "32 word"
  ce_dmi_crc32 :: "32 word list"
  ce_expected_crc32 :: "32 word"
  ce_expected_md5 :: string
  ce_expected_sha1 :: string
  ce_ranges :: "gdox_security_range list"

definition halo_dmi_crc32 :: "32 word list" where
  "halo_dmi_crc32 = [0x8654b27e, 0xc7377c49, 0xff637773]"

definition halo_ranges :: "gdox_security_range list" where
  "halo_ranges =
     map (\<lambda>(first, final). \<lparr>start_lba = first, end_lba = final\<rparr>)
       [(291292, 295387), (447992, 452087), (757224, 761319), (908256, 912351),
        (1068812, 1072907), (1217808, 1221903), (1373826, 1377921), (1611544, 1615639),
        (2084124, 2088219), (2379638, 2383733), (2527654, 2531749), (2676146, 2680241),
        (2831660, 2835755), (2989624, 2993719), (3296914, 3301009), (3457904, 3461999)]"

definition catalog :: "gdox_catalog_entry list" where
  "catalog =
     [\<lparr>ce_title = ''Halo: Combat Evolved (USA, Rev 2)'', ce_mastering_id = ''MS00409A'',
       ce_pfi_crc32 = 0x8fc52135, ce_dmi_crc32 = halo_dmi_crc32, ce_expected_crc32 = 0x013986d0,
       ce_expected_md5 = ''523d82be68f267579864331085a56ce8'',
       ce_expected_sha1 = ''07326d842e324b35cbd53d4e279aa36199d736a3'', ce_ranges = halo_ranges\<rparr>]"

definition hex_nibble :: "char \<Rightarrow> nat option" where
  "hex_nibble value =
     (let v = of_char value :: nat
      in if of_char CHR ''0'' \<le> v \<and> v \<le> of_char CHR ''9'' then Some (v - of_char CHR ''0'')
         else if of_char CHR ''a'' \<le> v \<and> v \<le> of_char CHR ''f'' then Some (v - of_char CHR ''a'' + 10)
         else if of_char CHR ''A'' \<le> v \<and> v \<le> of_char CHR ''F'' then Some (v - of_char CHR ''A'' + 10)
         else None)"

fun parse_hex_pairs :: "string \<Rightarrow> byte list option" where
  "parse_hex_pairs (h # l # rest) =
     (case (hex_nibble h, hex_nibble l) of
        (Some high, Some low) \<Rightarrow>
          (case parse_hex_pairs rest of
             None \<Rightarrow> None
           | Some bs \<Rightarrow> Some ((push_bit 4 (word_of_nat high) OR word_of_nat low) # bs))
      | _ \<Rightarrow> None)"
| "parse_hex_pairs _ = Some []"

definition parse_hex :: "string \<Rightarrow> nat \<Rightarrow> byte list option" where
  "parse_hex input output_bytes =
     (if length input \<noteq> output_bytes * 2 then None else parse_hex_pairs input)"

definition entry_matches :: "gdox_catalog_entry \<Rightarrow> 32 word \<Rightarrow> 32 word \<Rightarrow> bool" where
  "entry_matches entry pfi_crc32 dmi_crc32 =
     (ce_pfi_crc32 entry = pfi_crc32 \<and> dmi_crc32 \<in> set (ce_dmi_crc32 entry))"

text \<open>The search for the one entry that matches; a second one is an error.\<close>

fun catalog_search ::
  "32 word \<Rightarrow> 32 word \<Rightarrow> gdox_catalog_entry option \<Rightarrow> gdox_catalog_entry list \<Rightarrow> gdox_catalog_entry option res" where
  "catalog_search pfi_crc dmi_crc matched [] = Inr matched"
| "catalog_search pfi_crc dmi_crc matched (entry # rest) =
     (if entry_matches entry pfi_crc dmi_crc
      then (if matched \<noteq> None
            then fail ERROR_INVALID_SOURCE ''disc evidence ambiguously matches the catalog''
            else catalog_search pfi_crc dmi_crc (Some entry) rest)
      else catalog_search pfi_crc dmi_crc matched rest)"

text \<open>\<open>Inr None\<close> is the result false without an error: no entry matches.\<close>

definition gdox_preservation_catalog_match ::
  "disc_evidence \<Rightarrow> u64 \<Rightarrow> gdox_preservation_map option res" where
  "gdox_preservation_catalog_match ev sectors =
     (if \<not> pfi_present ev \<or> \<not> dmi_present ev \<or> sectors \<noteq> GDOX_XGD1_REDUMP_SECTORS then Inr None
      else (case catalog_search (gdox_crc32_buffer (pfi ev)) (gdox_crc32_buffer (dmi ev)) None catalog of
              Inl e \<Rightarrow> Inl e
            | Inr None \<Rightarrow> Inr None
            | Inr (Some matched) \<Rightarrow>
                (case (parse_hex (ce_expected_md5 matched) 16, parse_hex (ce_expected_sha1 matched) 20) of
                   (Some m, Some s) \<Rightarrow>
                     Inr (Some (empty_map\<lparr>map_source := SECURITY_MAP_CATALOG, map_ranges := ce_ranges matched,
                        expected_hashes := no_hashes\<lparr>md5 := m, sha1 := s, crc32_value := ce_expected_crc32 matched\<rparr>,
                        expected_hash_mask := GDOX_EXPECTED_CRC32 OR GDOX_EXPECTED_MD5 OR GDOX_EXPECTED_SHA1,
                        map_title := take (GDOX_PRESERVATION_TITLE_CAPACITY - 1) (ce_title matched),
                        map_mastering_id := take (GDOX_PRESERVATION_ID_CAPACITY - 1) (ce_mastering_id matched)\<rparr>))
                 | _ \<Rightarrow> fail ERROR_INTERNAL ''built-in preservation catalog contains an invalid hash'')))"

section \<open>Lemmas\<close>

lemma halo_ranges_valid: "gdox_security_ranges_validate halo_ranges = Inr () \<and> length halo_ranges = 16"
proof -
  have len: "length halo_ranges = 16" by (simp add: halo_ranges_def)
  moreover have "\<forall>r \<in> set halo_ranges. good_range r"
    by (simp add: halo_ranges_def good_range_def GDOX_XGD1_REDUMP_SECTORS_def)
  moreover have "ranges_ascend halo_ranges" by (simp add: halo_ranges_def ranges_ascend_def)
  ultimately show ?thesis using ranges_validate_iff by blast
qed

lemma catalog_ranges_valid:
  "entry \<in> set catalog \<Longrightarrow> gdox_security_ranges_validate (ce_ranges entry) = Inr () \<and> length (ce_ranges entry) = 16"
  using halo_ranges_valid by (auto simp: catalog_def)

lemma catalog_search_mem:
  "catalog_search p d matched entries = Inr (Some entry) \<Longrightarrow> entry \<in> set entries \<or> matched = Some entry"
  by (induction entries arbitrary: matched) (auto split: if_splits)

lemma catalog_match_ranges:
  assumes "gdox_preservation_catalog_match ev sectors = Inr (Some pmap)"
  shows "gdox_security_ranges_validate (map_ranges pmap) = Inr () \<and> length (map_ranges pmap) = 16"
proof -
  obtain entry where "entry \<in> set catalog" "map_ranges pmap = ce_ranges entry"
    using assms
    by (auto simp: gdox_preservation_catalog_match_def split: if_splits sum.splits option.splits
        dest!: catalog_search_mem)
  then show ?thesis using catalog_ranges_valid by simp
qed

end
