(* ===== verification/PreservationManifest.thy ===== *)
theory PreservationManifest
  imports PreservationCatalog Xdvdfs
begin

text \<open>
  The files written next to a preserved image (src/src/core/preservation_manifest.c): the JSON manifest,
  the checksum files, the disc structures, the security map, the Redump sidecars and the log. A text is
  the sequence of its \<open>text_append\<close> and \<open>text_format\<close> calls, each of which may have to grow the buffer;
  the pieces are the strings after \<open>printf\<close> formatting.
\<close>

definition GDOX_VERSION :: string where "GDOX_VERSION = ''0.3.4''"

section \<open>Slugs and labels\<close>

definition format_slug :: "gdox_preservation_format \<Rightarrow> string" where
  "format_slug f = (if f = PRESERVATION_REDUMP then ''redump'' else ''xiso'')"

definition status_slug :: "gdox_preservation_status \<Rightarrow> string" where
  "status_slug s = (case s of PRESERVATION_PLAYABLE_XISO \<Rightarrow> ''playable-xiso''
     | PRESERVATION_REDUMP_EVIDENCE_COMPLETE \<Rightarrow> ''redump-evidence-complete''
     | PRESERVATION_REDUMP_CANDIDATE \<Rightarrow> ''redump-candidate'')"

definition status_label :: "gdox_preservation_status \<Rightarrow> string" where
  "status_label s = (case s of PRESERVATION_PLAYABLE_XISO \<Rightarrow> ''Playable XISO''
     | PRESERVATION_REDUMP_EVIDENCE_COMPLETE \<Rightarrow> ''Redump evidence complete''
     | PRESERVATION_REDUMP_CANDIDATE \<Rightarrow> ''Redump candidate - additional evidence required'')"

definition map_source_slug :: "gdox_security_map_source \<Rightarrow> string" where
  "map_source_slug s = (case s of SECURITY_MAP_AUTHENTICATED_SS \<Rightarrow> ''authenticated-security-sector''
     | SECURITY_MAP_CATALOG \<Rightarrow> ''catalog-derived'' | SECURITY_MAP_USER \<Rightarrow> ''user-provided'')"

section \<open>Text buffers\<close>

record text_buffer =
  tb_text :: string
  tb_capacity :: u64

definition empty_text :: text_buffer where
  "empty_text = \<lparr>tb_text = [], tb_capacity = 0\<rparr>"

function grow_capacity :: "u64 \<Rightarrow> u64 \<Rightarrow> u64" where
  "grow_capacity capacity required =
     (if 0 < capacity \<and> capacity < required
      then (if capacity > SIZE_MAX div 2 then required else grow_capacity (capacity * 2) required)
      else capacity)"
  by pat_completeness auto
termination
  by (relation "measure (\<lambda>(capacity, required). required - capacity)") auto

declare grow_capacity.simps [simp del]

definition text_reserve :: "text_buffer \<Rightarrow> nat \<Rightarrow> posix \<Rightarrow> bool \<times> text_buffer \<times> posix" where
  "text_reserve tb additional px =
     (if additional > u64_sub (u64_sub SIZE_MAX (length (tb_text tb))) 1 then (False, tb, px)
      else (let required = length (tb_text tb) + additional + 1
            in if required \<le> tb_capacity tb then (True, tb, px)
               else (let capacity = grow_capacity (if tb_capacity tb = 0 then 1024 else tb_capacity tb) required
                     in case px_allocate px of
                          (False, px) \<Rightarrow> (False, tb, px)
                        | (True, px) \<Rightarrow> (True, tb\<lparr>tb_capacity := capacity\<rparr>, px))))"

definition text_append :: "text_buffer \<Rightarrow> string \<Rightarrow> posix \<Rightarrow> bool \<times> text_buffer \<times> posix" where
  "text_append tb piece px =
     (case text_reserve tb (length piece) px of
        (False, tb, px) \<Rightarrow> (False, tb, px)
      | (True, tb, px) \<Rightarrow> (True, tb\<lparr>tb_text := tb_text tb @ piece\<rparr>, px))"

fun text_appends :: "text_buffer \<Rightarrow> string list \<Rightarrow> posix \<Rightarrow> bool \<times> text_buffer \<times> posix" where
  "text_appends tb [] px = (True, tb, px)"
| "text_appends tb (piece # pieces) px =
     (case text_append tb piece px of
        (False, tb, px) \<Rightarrow> (False, tb, px)
      | (True, tb, px) \<Rightarrow> text_appends tb pieces px)"

section \<open>Formatting\<close>

definition hex32 :: "32 word \<Rightarrow> string" where
  "hex32 v = map (\<lambda>i. hex_digit True (unat (drop_bit (4 * i) v AND 15))) [7, 6, 5, 4, 3, 2, 1, 0]"

definition hex16 :: "nat \<Rightarrow> string" where
  "hex16 v = map (\<lambda>i. hex_digit True (v div 16 ^ i mod 16)) [3, 2, 1, 0]"

definition signed_decimal :: "int \<Rightarrow> string" where
  "signed_decimal v = (if v < 0 then CHR ''-'' # decimal (nat (- v)) else decimal (nat v))"

definition text_json_byte :: "char \<Rightarrow> string" where
  "text_json_byte value =
     (if value = CHR 0x22 then [CHR 0x5C, CHR 0x22]
      else if value = CHR 0x5C then [CHR 0x5C, CHR 0x5C]
      else if value = CHR 0x08 then [CHR 0x5C, CHR ''b'']
      else if value = CHR 0x0C then [CHR 0x5C, CHR ''f'']
      else if value = CHR 0x0A then [CHR 0x5C, CHR ''n'']
      else if value = CHR 0x0D then [CHR 0x5C, CHR ''r'']
      else if value = CHR 0x09 then [CHR 0x5C, CHR ''t'']
      else if (of_char value :: nat) < 0x20 then [CHR 0x5C, CHR ''u''] @ hex16 (of_char value)
      else [value])"

text \<open>The pieces of a JSON string; \<open>None\<close> is NULL.\<close>

definition text_json_string :: "string option \<Rightarrow> string list" where
  "text_json_string input =
     (case input of
        None \<Rightarrow> [''\"\"'']
      | Some s \<Rightarrow> [''\"''] @ map text_json_byte s @ [''\"''])"

definition json_boolean :: "bool \<Rightarrow> string" where
  "json_boolean value = (if value then ''true'' else ''false'')"

definition append_ranges :: "gdox_bad_sector_range list \<Rightarrow> string list" where
  "append_ranges rs =
     [''['']
     @ map (\<lambda>(i, r). (if i = 0 then '''' else '','') @ ''{\"start_lba\":'' @ decimal (bad_start r)
                      @ '',\"end_lba\":'' @ decimal (bad_end r) @ ''}'') (enumerate 0 rs)
     @ ['']'']"

definition append_optional_title_id :: "gdox_preservation_input \<Rightarrow> string" where
  "append_optional_title_id input =
     (case in_title_id input of None \<Rightarrow> ''null'' | Some v \<Rightarrow> ''\"'' @ hex32 v @ ''\"'')"

definition append_optional_hash_match :: "int \<Rightarrow> string" where
  "append_optional_hash_match matches = (if matches < 0 then ''null'' else json_boolean (matches \<noteq> 0))"

section \<open>Paths and files\<close>

definition appended_path :: "string \<Rightarrow> string \<Rightarrow> posix \<Rightarrow> string option \<times> posix" where
  "appended_path path suffix px =
     (if length path > u64_sub (u64_sub SIZE_MAX (length suffix)) 1 then (None, px)
      else (case px_allocate px of
              (False, px) \<Rightarrow> (None, px)
            | (True, px) \<Rightarrow> (Some (path @ suffix), px)))"

definition base_name :: "string \<Rightarrow> string" where
  "base_name path =
     (let slash = last_index CHR ''/'' path;
          backslash = last_index CHR 0x5C path;
          separator = (case backslash of
                         None \<Rightarrow> slash
                       | Some b \<Rightarrow> (case slash of None \<Rightarrow> Some b | Some s \<Rightarrow> if b > s then Some b else Some s))
      in case separator of None \<Rightarrow> path | Some s \<Rightarrow> drop (s + 1) path)"

definition write_new :: "string \<Rightarrow> byte list \<Rightarrow> posix \<Rightarrow> unit res \<times> posix" where
  "write_new path bytes px =
     (case gdox_preservation_file_create path px of
        (Inl e, px) \<Rightarrow> (Inl e, px)
      | (Inr fd, px) \<Rightarrow>
          (case gdox_preservation_file_write fd bytes px of
             (Inl e, fd, px) \<Rightarrow> (Inl e, snd (gdox_preservation_file_close px))
           | (Inr _, fd, px) \<Rightarrow> gdox_preservation_file_sync_close px))"

definition write_suffix :: "string \<Rightarrow> string \<Rightarrow> byte list \<Rightarrow> posix \<Rightarrow> unit res \<times> posix" where
  "write_suffix out suffix bytes px =
     (case appended_path out suffix px of
        (None, px) \<Rightarrow> (fail ERROR_INTERNAL ''could not allocate preservation sidecar path'', px)
      | (Some path, px) \<Rightarrow> write_new path bytes px)"

definition suffix_available :: "string \<Rightarrow> string \<Rightarrow> posix \<Rightarrow> unit res \<times> posix" where
  "suffix_available out suffix px =
     (case appended_path out suffix px of
        (None, px) \<Rightarrow> (fail ERROR_INTERNAL ''could not allocate preservation sidecar path'', px)
      | (Some path, px) \<Rightarrow>
          (case gdox_preservation_path_exists path px of
             (found, px) \<Rightarrow>
               (if found then fail ERROR_INVALID_SOURCE ''a preservation sidecar already exists'' else Inr (), px)))"

fun suffixes_available :: "string \<Rightarrow> string list \<Rightarrow> posix \<Rightarrow> unit res \<times> posix" where
  "suffixes_available out [] px = (Inr (), px)"
| "suffixes_available out (suffix # rest) px =
     (case suffix_available out suffix px of
        (Inl e, px) \<Rightarrow> (Inl e, px)
      | (Inr _, px) \<Rightarrow> suffixes_available out rest px)"

text \<open>The suffixes in the order of the checks.\<close>

definition sidecar_suffixes :: "gdox_preservation_format \<Rightarrow> disc_evidence \<Rightarrow> bool \<Rightarrow> string list" where
  "sidecar_suffixes fmt ev has_security_map =
     [''.gdox.json'', ''.crc32'', ''.md5'', ''.sha1'', ''.sha256'', ''.log'']
     @ (if pfi_present ev then [''.pfi.bin''] else [])
     @ (if dmi_present ev then [''.dmi.bin''] else [])
     @ (if security_sector_present ev then [''.ss.bin''] else [])
     @ (if has_security_map then [''.security-map.json''] else [])
     @ (if fmt = PRESERVATION_REDUMP then [''.dvd'', ''.sectors.txt''] else [])"

definition gdox_preservation_sidecars_available ::
  "gdox_preservation_request \<Rightarrow> disc_evidence \<Rightarrow> bool \<Rightarrow> posix \<Rightarrow> unit res \<times> posix" where
  "gdox_preservation_sidecars_available request ev has_security_map px =
     suffixes_available (output_path request) (sidecar_suffixes (req_format request) ev has_security_map) px"

section \<open>The manifest\<close>

text \<open>\<open>created\<close> is the time of day, \<open>ev\<close> and \<open>h\<close> the evidence and the hashes of the result.\<close>

definition manifest_pieces ::
  "gdox_preservation_request \<Rightarrow> gdox_preservation_input \<Rightarrow> gdox_preservation_map option
   \<Rightarrow> gdox_preservation_result \<Rightarrow> int \<Rightarrow> string list" where
  "manifest_pieces request input pmap result created =
     (let ev = evidence result;
          h = hashes result;
          ss_authenticated =
            security_sector_present ev
            \<and> (case pmap of None \<Rightarrow> False | Some m \<Rightarrow> map_source m = SECURITY_MAP_AUTHENTICATED_SS)
      in [''{\<newline>  \"schema\":\"https://gdox.korze.org/schemas/preservation-manifest-v2.json\",\<newline>'',
      ''  \"created_by\":\"GDOX '' @ GDOX_VERSION @ ''\",\<newline>  \"created_unix_seconds\":''
        @ signed_decimal created @ '',\<newline>  \"format\":\"'' @ format_slug (req_format request) @ ''\",\<newline>  \"title\":'']
      @ text_json_string (in_title input)
      @ ['',\<newline>  \"title_id\":'', append_optional_title_id input, '',\<newline>  \"source\":'']
      @ text_json_string (source_description input)
      @ ['',\<newline>  \"source_lba_offset\":'' @ decimal (source_lba_offset input) @ '',\<newline>  \"image\":'']
      @ text_json_string (Some (base_name (output_path request)))
      @ ['',\<newline>  \"bytes\":'' @ decimal (res_bytes result) @ '',\<newline>  \"sectors\":''
        @ decimal (res_bytes result div GDOX_LOGICAL_SECTOR_BYTES) @ '',\<newline>  \"sector_size\":''
        @ decimal GDOX_LOGICAL_SECTOR_BYTES @ '',\<newline>  \"claims\":{\"readback_verified\":''
        @ json_boolean (readback_verified result) @ '',\"filesystem_inventory_verified\":''
        @ json_boolean (filesystem_inventory_verified input) @ '',\"full_logical_length\":''
        @ json_boolean (req_format request = PRESERVATION_REDUMP
            \<and> res_bytes result = u64_mul GDOX_XGD1_REDUMP_SECTORS GDOX_LOGICAL_SECTOR_BYTES) @ '',\"canonical_hash_match\":'',
      append_optional_hash_match (expected_hashes_match result),
      '',\"ss_present\":'' @ json_boolean (security_sector_present ev) @ '',\"ss_authenticated\":''
        @ json_boolean ss_authenticated @ ''},\<newline>  \"compacted\":''
        @ json_boolean (req_format request = PRESERVATION_XISO_COMPACT \<and> filesystem_inventory_verified input)
        @ '',\<newline>  \"media_patches_applied\":''
        @ decimal (if req_format request = PRESERVATION_XISO_COMPACT then media_patches input else 0) @ '',\<newline>  \"hashes\":{\"crc32\":\"''
        @ hex32 (crc32_value h) @ ''\",\"md5\":\"'' @ gdox_hash_hex (md5 h) False @ ''\",\"sha1\":\"''
        @ gdox_hash_hex (sha1 h) False @ ''\",\"sha256\":\"'' @ gdox_hash_hex (sha256 h) False @ ''\"},\<newline>  \"unreadable_ranges\":'']
      @ append_ranges (unreadable_ranges result)
      @ ['',\<newline>  \"unreadable_sectors\":'' @ decimal (unreadable_sectors result) @ '',\<newline>  \"normalized_security_sectors\":''
        @ decimal (normalized_security_sectors result) @ '',\<newline>  \"status\":\"'' @ status_slug (status result) @ ''\",\<newline>  \"status_label\":'']
      @ text_json_string (Some (status_label (status result)))
      @ ['',\<newline>  \"evidence\":{\"pfi\":'' @ json_boolean (pfi_present ev) @ '',\"dmi\":'' @ json_boolean (dmi_present ev)
        @ '',\"security_sector\":'' @ json_boolean (security_sector_present ev) @ '',\"security_ranges_valid\":''
        @ json_boolean ss_authenticated @ '',\"note\":'']
      @ text_json_string (Some (evidence_note ev))
      @ [''}'']
      @ (case pmap of
         None \<Rightarrow> []
       | Some m \<Rightarrow>
           ['',\<newline>  \"security_map\":{\"source\":\"'' @ map_source_slug (map_source m) @ ''\",\"authenticated\":''
             @ json_boolean (map_source m = SECURITY_MAP_AUTHENTICATED_SS)
             @ '',\"coordinate_space\":\"canonical-iso-lba\",\"title\":'']
           @ text_json_string (Some (map_title m)) @ ['',\"mastering_id\":'']
           @ text_json_string (Some (map_mastering_id m)) @ [''}''])
      @ [''\<newline>}\<newline>''])"

definition build_manifest ::
  "gdox_preservation_request \<Rightarrow> gdox_preservation_input \<Rightarrow> gdox_preservation_map option
   \<Rightarrow> gdox_preservation_result \<Rightarrow> posix \<Rightarrow> bool \<times> text_buffer \<times> posix" where
  "build_manifest request input pmap result px =
     text_appends empty_text (manifest_pieces request input pmap result (px_unix_time px)) px"

section \<open>The sidecars\<close>

text \<open>A text built piece by piece and written; a failure of the building has the message given.\<close>

definition checksum_pieces :: "string \<Rightarrow> string \<Rightarrow> string list" where
  "checksum_pieces out hash = [hash @ ''  '' @ base_name out @ ''\<newline>'']"

definition write_checksum :: "string \<Rightarrow> string \<Rightarrow> string \<Rightarrow> posix \<Rightarrow> unit res \<times> posix" where
  "write_checksum out suffix hash px =
     (case text_appends empty_text (checksum_pieces out hash) px of
        (False, _, px) \<Rightarrow> (fail ERROR_INTERNAL ''could not build checksum sidecar'', px)
      | (True, tb, px) \<Rightarrow> write_suffix out suffix (ascii (tb_text tb)) px)"

definition map_pieces :: "gdox_preservation_map \<Rightarrow> string list" where
  "map_pieces m =
     [''{\"schema\":\"https://gdox.korze.org/schemas/security-map-v1.json\",''
        @ ''\"source\":\"'' @ map_source_slug (map_source m) @ ''\",\"coordinate_space\":\"canonical-iso-lba\",''
        @ ''\"authenticated\":'' @ json_boolean (map_source m = SECURITY_MAP_AUTHENTICATED_SS) @ '',\"title\":'']
     @ text_json_string (Some (map_title m)) @ ['',\"mastering_id\":'']
     @ text_json_string (Some (map_mastering_id m)) @ ['',\"ranges\":['']
     @ map (\<lambda>(i, r). (if i = 0 then '''' else '','') @ ''{\"start_lba\":'' @ decimal (start_lba r)
                      @ '',\"end_lba\":'' @ decimal (end_lba r) @ ''}'') (enumerate 0 (map_ranges m))
     @ ['']}\<newline>'']"

definition write_map :: "string \<Rightarrow> gdox_preservation_map \<Rightarrow> posix \<Rightarrow> unit res \<times> posix" where
  "write_map out m px =
     (case text_appends empty_text (map_pieces m) px of
        (False, _, px) \<Rightarrow> (fail ERROR_INTERNAL ''could not build security-map sidecar'', px)
      | (True, tb, px) \<Rightarrow> write_suffix out ''.security-map.json'' (ascii (tb_text tb)) px)"

definition dvd_pieces :: "string \<Rightarrow> string list" where
  "dvd_pieces out = [''LayerBreak=1913776\<newline>'' @ base_name out @ ''\<newline>'']"

definition sectors_pieces :: "gdox_preservation_map option \<Rightarrow> string list" where
  "sectors_pieces pmap =
     (case pmap of
        Some m \<Rightarrow> map (\<lambda>r. decimal (start_lba r) @ ''-'' @ decimal (end_lba r) @ ''\<newline>'') (map_ranges m)
      | None \<Rightarrow> [''\<newline>''])"

definition write_redump_sidecars :: "string \<Rightarrow> gdox_preservation_map option \<Rightarrow> posix \<Rightarrow> unit res \<times> posix" where
  "write_redump_sidecars out pmap px =
     (case text_appends empty_text (dvd_pieces out) px of
        (False, _, px) \<Rightarrow> (fail ERROR_INTERNAL ''could not build Redump sidecars'', px)
      | (True, layers, px) \<Rightarrow>
          (case text_appends empty_text (sectors_pieces pmap) px of
             (False, _, px) \<Rightarrow> (fail ERROR_INTERNAL ''could not build Redump sidecars'', px)
           | (True, sectors, px) \<Rightarrow>
               (case write_suffix out ''.dvd'' (ascii (tb_text layers)) px of
                  (Inl e, px) \<Rightarrow> (Inl e, px)
                | (Inr _, px) \<Rightarrow> write_suffix out ''.sectors.txt'' (ascii (tb_text sectors)) px)))"

definition log_pieces ::
  "gdox_preservation_request \<Rightarrow> gdox_preservation_map option \<Rightarrow> gdox_preservation_result \<Rightarrow> string list" where
  "log_pieces request pmap result =
     (let h = hashes result
      in [''GDOX '' @ GDOX_VERSION @ ''\<newline>Format: '' @ format_slug (req_format request)
          @ ''\<newline>Image: '' @ output_path request @ ''\<newline>Bytes: '' @ decimal (res_bytes result)
          @ ''\<newline>Readback verified: '' @ json_boolean (readback_verified result)
          @ ''\<newline>Canonical hash match: ''
          @ (if expected_hashes_match result < 0 then ''not checked''
             else json_boolean (expected_hashes_match result \<noteq> 0))
          @ ''\<newline>Status: '' @ status_label (status result)
          @ ''\<newline>CRC32: '' @ hex32 (crc32_value h) @ ''\<newline>MD5: '' @ gdox_hash_hex (md5 h) False
          @ ''\<newline>SHA1: '' @ gdox_hash_hex (sha1 h) False
          @ ''\<newline>SHA256: '' @ gdox_hash_hex (sha256 h) False
          @ ''\<newline>Unreadable sectors: '' @ decimal (unreadable_sectors result)
          @ ''\<newline>Normalized security sectors: '' @ decimal (normalized_security_sectors result)
          @ ''\<newline>Evidence note: '' @ evidence_note (evidence result) @ ''\<newline>'']
         @ (case pmap of
              None \<Rightarrow> []
            | Some m \<Rightarrow>
                [''Security map: '' @ map_source_slug (map_source m) @ ''; authenticated: ''
                 @ json_boolean (map_source m = SECURITY_MAP_AUTHENTICATED_SS) @ ''\<newline>'']))"

definition write_log ::
  "gdox_preservation_request \<Rightarrow> gdox_preservation_map option \<Rightarrow> gdox_preservation_result
   \<Rightarrow> posix \<Rightarrow> unit res \<times> posix" where
  "write_log request pmap result px =
     (case text_appends empty_text (log_pieces request pmap result) px of
        (False, _, px) \<Rightarrow> (fail ERROR_INTERNAL ''could not build preservation log'', px)
      | (True, tb, px) \<Rightarrow> write_suffix (output_path request) ''.log'' (ascii (tb_text tb)) px)"

text \<open>The writes after the manifest, each one only when those before it worked.\<close>

fun write_each :: "(posix \<Rightarrow> unit res \<times> posix) list \<Rightarrow> posix \<Rightarrow> unit res \<times> posix" where
  "write_each [] px = (Inr (), px)"
| "write_each (w # ws) px =
     (case w px of (Inl e, px) \<Rightarrow> (Inl e, px) | (Inr _, px) \<Rightarrow> write_each ws px)"

definition sidecar_writes ::
  "gdox_preservation_request \<Rightarrow> gdox_preservation_map option \<Rightarrow> gdox_preservation_result
   \<Rightarrow> (posix \<Rightarrow> unit res \<times> posix) list" where
  "sidecar_writes request pmap result =
     (let out = output_path request; ev = evidence result; h = hashes result
      in [write_checksum out ''.crc32'' (hex32 (crc32_value h)),
          write_checksum out ''.md5'' (gdox_hash_hex (md5 h) False),
          write_checksum out ''.sha1'' (gdox_hash_hex (sha1 h) False),
          write_checksum out ''.sha256'' (gdox_hash_hex (sha256 h) False)]
         @ (if pfi_present ev then [write_suffix out ''.pfi.bin'' (pfi ev)] else [])
         @ (if dmi_present ev then [write_suffix out ''.dmi.bin'' (dmi ev)] else [])
         @ (if security_sector_present ev then [write_suffix out ''.ss.bin'' (security_sector ev)] else [])
         @ (case pmap of None \<Rightarrow> [] | Some m \<Rightarrow> [write_map out m])
         @ (if req_format request = PRESERVATION_REDUMP then [write_redump_sidecars out pmap] else [])
         @ [write_log request pmap result])"

definition gdox_preservation_write_bundle ::
  "gdox_preservation_request \<Rightarrow> gdox_preservation_input \<Rightarrow> gdox_preservation_map option
   \<Rightarrow> gdox_preservation_result \<Rightarrow> posix \<Rightarrow> unit res \<times> gdox_preservation_result \<times> posix" where
  "gdox_preservation_write_bundle request input pmap result px =
     (case appended_path (output_path request) ''.gdox.json'' px of
        (None, px) \<Rightarrow> (fail ERROR_INTERNAL ''could not build preservation manifest'', result, px)
      | (Some path, px) \<Rightarrow>
          (case build_manifest request input pmap result px of
             (False, _, px) \<Rightarrow> (fail ERROR_INTERNAL ''could not build preservation manifest'', result, px)
           | (True, manifest, px) \<Rightarrow>
               (case write_new path (ascii (tb_text manifest)) px of
                  (Inl e, px) \<Rightarrow> (Inl e, result, px)
                | (Inr _, px) \<Rightarrow>
                    (let result = result\<lparr>manifest_path := take (GDOX_PRESERVATION_PATH_CAPACITY - 1) path\<rparr>
                     in case write_each (sidecar_writes request pmap result) px of
                          (r, px) \<Rightarrow> (r, result, px)))))"

section \<open>What is written\<close>

lemma px_allocate_time: "px_allocate px = (ok, px') \<Longrightarrow> px_unix_time px' = px_unix_time px"
  by (auto simp: px_allocate_def split: list.splits)

definition has_file :: "posix \<Rightarrow> string \<Rightarrow> byte list \<Rightarrow> bool" where
  "has_file px path bytes \<longleftrightarrow> (\<exists>i. px_names px path = Some i \<and> i < px_fresh px \<and> px_data px i = bytes)"

lemma has_file_grown:
  assumes "px_grown new px px'" and "has_file px path bytes"
  shows "has_file px' path bytes"
proof -
  from assms(2) obtain i where i: "px_names px path = Some i" "i < px_fresh px" "px_data px i = bytes"
    by (auto simp: has_file_def)
  have "px_names px' path = px_names px path \<or> px_names px path = None"
    using conjunct2[OF conjunct2[OF assms(1)[unfolded px_grown_def]], rule_format, of path] by auto
  then have "px_names px' path = Some i" using i by auto
  moreover have "px_data px' i = bytes" "i < px_fresh px'"
    using assms(1) i unfolding px_grown_def by auto
  ultimately show ?thesis by (auto simp: has_file_def)
qed

lemma text_reserve_same:
  "text_reserve tb n px = (ok, tb', px') \<Longrightarrow> px_same px px' \<and> tb_text tb' = tb_text tb"
  by (auto simp: text_reserve_def Let_def dest: px_allocate_same split: if_splits prod.splits bool.splits)

lemma text_appends_same:
  "text_appends tb pieces px = (ok, tb', px') \<Longrightarrow>
   px_same px px' \<and> (ok \<longrightarrow> tb_text tb' = tb_text tb @ concat pieces)"
proof (induction tb pieces px rule: text_appends.induct)
  case (2 tb piece pieces px)
  obtain o1 tb1 px1 where r: "text_reserve tb (length piece) px = (o1, tb1, px1)" by (metis prod_cases3)
  note res = text_reserve_same[OF r]
  show ?case
  proof (cases o1)
    case True
    have eq: "text_append tb piece px = (True, tb1\<lparr>tb_text := tb_text tb @ piece\<rparr>, px1)"
      using r True res by (simp add: text_append_def)
    have "text_appends (tb1\<lparr>tb_text := tb_text tb @ piece\<rparr>) pieces px1 = (ok, tb', px')"
      using "2.prems" eq by simp
    with "2.IH"[OF eq[symmetric] _ refl] res show ?thesis
      by (auto intro: px_same_trans)
  next
    case False
    then show ?thesis using "2.prems" r res by (auto simp: text_append_def)
  qed
qed simp

lemma text_appends_empty:
  "text_appends empty_text pieces px = (True, tb, px') \<Longrightarrow> tb_text tb = concat pieces"
  by (auto simp: empty_text_def dest: text_appends_same)

lemma appended_path_same:
  "appended_path path suffix px = (r, px') \<Longrightarrow> px_same px px' \<and> (r = None \<or> r = Some (path @ suffix))"
  by (auto simp: appended_path_def dest: px_allocate_same split: if_splits prod.splits bool.splits)

lemma px_grown_same_left: "px_same px py \<Longrightarrow> px_grown new py pz \<Longrightarrow> px_grown new px pz"
  by (simp add: px_grown_def px_same_def px_same_files_def)

lemma px_grown_same_right: "px_grown new px py \<Longrightarrow> px_same_files py pz \<Longrightarrow> px_grown new px pz"
  by (simp add: px_grown_def px_same_files_def)

lemma write_new_grown:
  assumes "write_new path bytes px = (r, px')" and "px_valid px"
  shows "px_grown (\<lambda>p. p = path) px px'"
proof -
  obtain r1 p1 where c: "gdox_preservation_file_create path px = (r1, p1)" by fastforce
  note grown = px_create_grown[OF c]
  show ?thesis
  proof (cases r1)
    case (Inl e)
    then show ?thesis using assms c grown by (simp add: write_new_def)
  next
    case (Inr fd)
    note fd = px_file_create[OF c[unfolded Inr]]
    obtain w fd2 p2 where wr: "gdox_preservation_file_write fd bytes p1 = (w, fd2, p2)" by (metis prod_cases3)
    obtain n where n: "px_written (fd_inode fd) (px_data p1 (fd_inode fd) @ take n bytes) p1 p2"
      using px_file_write[OF wr] fd by auto
    have "px_grown (\<lambda>p. p = path) px p2"
      using grown n fd by (simp add: px_grown_def px_written_def)
    moreover have "px_same_files p2 px'"
      using assms(1) c Inr wr
      by (auto simp: write_new_def intro: px_sync_close_same px_file_close_same[OF surjective_pairing]
          split: sum.splits)
    ultimately show ?thesis by (rule px_grown_same_right)
  qed
qed

lemma write_new_ok:
  assumes "write_new path bytes px = (Inr (), px')"
  shows "has_file px' path bytes \<and> px_names px path = None"
proof -
  obtain fd p1 where c: "gdox_preservation_file_create path px = (Inr fd, p1)"
    using assms by (auto simp: write_new_def split: prod.splits sum.splits)
  note fd = px_file_create[OF c]
  obtain w fd2 p2 where wr: "gdox_preservation_file_write fd bytes p1 = (w, fd2, p2)" by (metis prod_cases3)
  have w: "w = Inr ()" using assms c wr by (auto simp: write_new_def split: sum.splits)
  then have sync: "gdox_preservation_file_sync_close p2 = (Inr (), px')"
    using assms c wr by (simp add: write_new_def)
  have "px_written (fd_inode fd) (px_data p1 (fd_inode fd) @ bytes) p1 p2"
    using px_file_write[OF wr] fd w by auto
  with px_sync_close_same[OF sync] fd show ?thesis
    by (auto simp: has_file_def px_written_def px_same_files_def)
qed

lemma write_suffix_grown:
  assumes "write_suffix out suffix bytes px = (r, px')" and "px_valid px"
  shows "px_grown (\<lambda>p. p = out @ suffix) px px'"
proof -
  obtain x p1 where a: "appended_path out suffix px = (x, p1)" by fastforce
  note same = appended_path_same[OF a]
  show ?thesis
  proof (cases x)
    case None
    then show ?thesis using assms a same by (auto simp: write_suffix_def px_grown_same px_same_def)
  next
    case (Some path)
    then have "write_new (out @ suffix) bytes p1 = (r, px')"
      using assms a same by (simp add: write_suffix_def)
    from write_new_grown[OF this] have "px_grown (\<lambda>p. p = out @ suffix) p1 px'"
      using same assms(2) by (auto intro: px_same_valid px_same_imp_files)
    with same show ?thesis by (blast intro: px_grown_same_left)
  qed
qed

lemma write_suffix_ok:
  "write_suffix out suffix bytes px = (Inr (), px') \<Longrightarrow> has_file px' (out @ suffix) bytes"
  by (auto simp: write_suffix_def dest: appended_path_same write_new_ok split: prod.splits option.splits)

text \<open>A text that is built and then written under one suffix.\<close>

definition write_text ::
  "string \<Rightarrow> string list \<Rightarrow> string \<Rightarrow> string \<Rightarrow> posix \<Rightarrow> unit res \<times> posix" where
  "write_text failure pieces out suffix px =
     (case text_appends empty_text pieces px of
        (False, _, px) \<Rightarrow> (fail ERROR_INTERNAL failure, px)
      | (True, tb, px) \<Rightarrow> write_suffix out suffix (ascii (tb_text tb)) px)"

lemma text_writers:
  "write_checksum out suffix hash = write_text ''could not build checksum sidecar'' (checksum_pieces out hash) out suffix"
  "write_map out m = write_text ''could not build security-map sidecar'' (map_pieces m) out ''.security-map.json''"
  "write_log request pmap result =
     write_text ''could not build preservation log'' (log_pieces request pmap result) (output_path request) ''.log''"
  by (rule ext, simp add: write_checksum_def write_map_def write_log_def write_text_def)+

lemma write_text_grown:
  assumes "write_text failure pieces out suffix px = (r, px')" and "px_valid px"
  shows "px_grown (\<lambda>p. p = out @ suffix) px px'"
proof -
  obtain ok tb p1 where t: "text_appends empty_text pieces px = (ok, tb, p1)" by (metis prod_cases3)
  note same = text_appends_same[OF t]
  show ?thesis
  proof (cases ok)
    case True
    then have "write_suffix out suffix (ascii (tb_text tb)) p1 = (r, px')"
      using assms t by (simp add: write_text_def)
    from write_suffix_grown[OF this] have "px_grown (\<lambda>p. p = out @ suffix) p1 px'"
      using same assms(2) by (auto intro: px_same_valid px_same_imp_files)
    with same show ?thesis by (blast intro: px_grown_same_left)
  next
    case False
    then show ?thesis using assms t same by (auto simp: write_text_def px_grown_same px_same_def)
  qed
qed

lemma write_text_ok:
  "write_text failure pieces out suffix px = (Inr (), px') \<Longrightarrow> has_file px' (out @ suffix) (ascii (concat pieces))"
  by (auto simp: write_text_def dest!: write_suffix_ok dest: text_appends_empty split: prod.splits bool.splits)

text \<open>A sidecar writer only adds files under suffixes of the image's path.\<close>

definition adds_sidecars :: "string \<Rightarrow> (posix \<Rightarrow> unit res \<times> posix) \<Rightarrow> bool" where
  "adds_sidecars out w \<longleftrightarrow>
     (\<forall>px r px'. px_valid px \<longrightarrow> w px = (r, px') \<longrightarrow>
        px_grown (\<lambda>p. \<exists>s. s \<noteq> [] \<and> s \<noteq> ''.part'' \<and> p = out @ s) px px')"

lemma write_suffix_adds:
  "suffix \<noteq> [] \<Longrightarrow> suffix \<noteq> ''.part'' \<Longrightarrow> adds_sidecars out (write_suffix out suffix bytes)"
  by (auto simp: adds_sidecars_def elim!: px_grown_mono dest: write_suffix_grown)

lemma write_text_adds:
  "suffix \<noteq> [] \<Longrightarrow> suffix \<noteq> ''.part'' \<Longrightarrow> adds_sidecars out (write_text failure pieces out suffix)"
  by (auto simp: adds_sidecars_def elim!: px_grown_mono dest: write_text_grown)

lemma adds_sidecarsD:
  "adds_sidecars out w \<Longrightarrow> px_valid px \<Longrightarrow> w px = (r, px') \<Longrightarrow>
   px_grown (\<lambda>p. \<exists>s. s \<noteq> [] \<and> s \<noteq> ''.part'' \<and> p = out @ s) px px'"
  by (simp add: adds_sidecars_def)

lemma write_redump_adds: "adds_sidecars out (write_redump_sidecars out pmap)"
  unfolding adds_sidecars_def
proof (intro allI impI)
  fix px r px'
  assume valid: "px_valid px" and w: "write_redump_sidecars out pmap px = (r, px')"
  let ?new = "\<lambda>p. \<exists>s. s \<noteq> [] \<and> s \<noteq> ''.part'' \<and> p = out @ s"
  obtain o1 t1 p1 where t1: "text_appends empty_text (dvd_pieces out) px = (o1, t1, p1)" by (metis prod_cases3)
  obtain o2 t2 p2 where t2: "text_appends empty_text (sectors_pieces pmap) p1 = (o2, t2, p2)" by (metis prod_cases3)
  have same: "px_same px p1" "px_same p1 p2" using text_appends_same[OF t1] text_appends_same[OF t2] by auto
  show "px_grown ?new px px'"
  proof (cases "o1 \<and> o2")
    case False
    then show ?thesis
      using w t1 t2 same by (auto simp: write_redump_sidecars_def px_same_def
          intro: px_grown_same px_same_files_trans split: bool.splits)
  next
    case True
    obtain q1 p3 where w1: "write_suffix out ''.dvd'' (ascii (tb_text t1)) p2 = (q1, p3)" by fastforce
    have v2: "px_valid p2" using valid same by (auto intro: px_same_valid px_same_imp_files)
    have g1: "px_grown ?new p2 p3"
      by (rule adds_sidecarsD[OF write_suffix_adds v2 w1]) simp_all
    have "px_grown ?new p2 px'"
    proof (cases q1)
      case (Inl e)
      then show ?thesis using w t1 t2 True w1 g1 by (simp add: write_redump_sidecars_def)
    next
      case (Inr u)
      then have w2: "write_suffix out ''.sectors.txt'' (ascii (tb_text t2)) p3 = (r, px')"
        using w t1 t2 True w1 by (simp add: write_redump_sidecars_def)
      have "px_grown ?new p3 px'"
        by (rule adds_sidecarsD[OF write_suffix_adds px_grown_valid[OF g1 v2] w2]) simp_all
      with g1 v2 show ?thesis by (blast intro: px_grown_trans)
    qed
    with same show ?thesis by (blast intro: px_grown_same_left px_same_trans)
  qed
qed

lemma write_redump_ok:
  assumes "write_redump_sidecars out pmap px = (Inr (), px')" and "px_valid px"
  shows "has_file px' (out @ ''.dvd'') (ascii (concat (dvd_pieces out)))"
    and "has_file px' (out @ ''.sectors.txt'') (ascii (concat (sectors_pieces pmap)))"
proof -
  obtain t1 p1 where t1: "text_appends empty_text (dvd_pieces out) px = (True, t1, p1)"
    using assms(1) by (auto simp: write_redump_sidecars_def split: prod.splits bool.splits)
  obtain t2 p2 where t2: "text_appends empty_text (sectors_pieces pmap) p1 = (True, t2, p2)"
    using assms(1) t1 by (auto simp: write_redump_sidecars_def split: prod.splits bool.splits)
  obtain p3 where w1: "write_suffix out ''.dvd'' (ascii (tb_text t1)) p2 = (Inr (), p3)"
      and w2: "write_suffix out ''.sectors.txt'' (ascii (tb_text t2)) p3 = (Inr (), px')"
    using assms(1) t1 t2 by (auto simp: write_redump_sidecars_def split: prod.splits sum.splits)
  have "px_valid p2"
    using assms(2) text_appends_same[OF t1] text_appends_same[OF t2] by (auto intro: px_same_valid px_same_imp_files)
  from px_grown_valid[OF adds_sidecarsD[OF write_suffix_adds this w1] this] have v3: "px_valid p3" by simp
  have texts: "tb_text t1 = concat (dvd_pieces out)" "tb_text t2 = concat (sectors_pieces pmap)"
    using text_appends_empty t1 t2 by auto
  have "px_grown (\<lambda>p. \<exists>s. s \<noteq> [] \<and> s \<noteq> ''.part'' \<and> p = out @ s) p3 px'"
    by (rule adds_sidecarsD[OF write_suffix_adds v3 w2]) simp_all
  from has_file_grown[OF this write_suffix_ok[OF w1]]
  show "has_file px' (out @ ''.dvd'') (ascii (concat (dvd_pieces out)))" by (simp add: texts)
  show "has_file px' (out @ ''.sectors.txt'') (ascii (concat (sectors_pieces pmap)))"
    using write_suffix_ok[OF w2] by (simp add: texts)
qed

lemma sidecar_writes_add:
  "w \<in> set (sidecar_writes request pmap result) \<Longrightarrow> adds_sidecars (output_path request) w"
  by (auto simp: sidecar_writes_def Let_def text_writers write_redump_adds
      intro!: write_suffix_adds write_text_adds split: if_splits option.splits)

text \<open>A run of writers that works: each wrote in some state between, and what it wrote is still there.\<close>

lemma write_each_grown:
  assumes "write_each ws px = (r, px')" and "px_valid px" and "\<forall>w \<in> set ws. adds_sidecars out w"
  shows "px_grown (\<lambda>p. \<exists>s. s \<noteq> [] \<and> s \<noteq> ''.part'' \<and> p = out @ s) px px'"
  using assms
proof (induction ws arbitrary: px)
  case (Cons w ws)
  obtain q p1 where w: "w px = (q, p1)" by fastforce
  have g: "px_grown (\<lambda>p. \<exists>s. s \<noteq> [] \<and> s \<noteq> ''.part'' \<and> p = out @ s) px p1"
    using adds_sidecarsD[where w = w, OF _ Cons.prems(2) w] Cons.prems(3) by simp
  show ?case
  proof (cases q)
    case (Inl e)
    then show ?thesis using Cons.prems(1) w g by simp
  next
    case (Inr u)
    then have "write_each ws p1 = (r, px')" using Cons.prems(1) w by simp
    from Cons.IH[OF this px_grown_valid[OF g Cons.prems(2)]] Cons.prems(3)
    have "px_grown (\<lambda>p. \<exists>s. s \<noteq> [] \<and> s \<noteq> ''.part'' \<and> p = out @ s) p1 px'" by simp
    with g show ?thesis using Cons.prems(2) by (rule px_grown_trans)
  qed
qed (simp add: px_grown_refl)

lemma write_each_ok:
  assumes "write_each ws px = (Inr (), px')" and "px_valid px" and "\<forall>w \<in> set ws. adds_sidecars out w"
    and "w \<in> set ws" and "\<And>py pz. px_valid py \<Longrightarrow> w py = (Inr (), pz) \<Longrightarrow> has_file pz path bytes"
  shows "has_file px' path bytes"
  using assms(1-4)
proof (induction ws arbitrary: px)
  case (Cons v ws)
  obtain p1 where v: "v px = (Inr (), p1)" and rest: "write_each ws p1 = (Inr (), px')"
    using Cons.prems(1) by (auto split: prod.splits sum.splits)
  have valid: "px_valid p1"
    using adds_sidecarsD[where w = v, OF _ Cons.prems(2) v] Cons.prems(2,3) px_grown_valid by fastforce
  show ?case
  proof (cases "w = v")
    case True
    then have "has_file p1 path bytes" using assms(5) Cons.prems(2) v by blast
    moreover have "\<forall>w \<in> set ws. adds_sidecars out w" using Cons.prems(3) by simp
    ultimately show ?thesis using write_each_grown[OF rest valid] has_file_grown by blast
  next
    case False
    then show ?thesis using Cons.IH[OF rest valid] Cons.prems(3,4) by simp
  qed
qed simp

lemma write_bundle_grown:
  assumes "gdox_preservation_write_bundle request input pmap result px = (r, result', px')" and "px_valid px"
  shows "px_grown (\<lambda>p. \<exists>s. s \<noteq> [] \<and> s \<noteq> ''.part'' \<and> p = output_path request @ s) px px'
     \<and> (\<exists>path. result' = result\<lparr>manifest_path := path\<rparr>)"
proof -
  let ?new = "\<lambda>p. \<exists>s. s \<noteq> [] \<and> s \<noteq> ''.part'' \<and> p = output_path request @ s"
  obtain x p1 where a: "appended_path (output_path request) ''.gdox.json'' px = (x, p1)" by fastforce
  note sa = appended_path_same[OF a]
  have keep: "\<exists>path. result = result\<lparr>manifest_path := path\<rparr>" by (rule exI[of _ "manifest_path result"]) simp
  show ?thesis
  proof (cases x)
    case None
    then show ?thesis
      using assms(1) a sa keep by (auto simp: gdox_preservation_write_bundle_def px_grown_same px_same_def)
  next
    case (Some path)
    then have path: "path = output_path request @ ''.gdox.json''" using sa by simp
    obtain ok tb p2 where b: "build_manifest request input pmap result p1 = (ok, tb, p2)" by (metis prod_cases3)
    have sb: "px_same p1 p2" using text_appends_same b by (auto simp: build_manifest_def)
    have valid: "px_valid p2" using assms(2) sa sb by (meson px_same_imp_files px_same_valid)
    show ?thesis
    proof (cases ok)
      case False
      then show ?thesis
        using assms(1) a Some b keep sa sb
        by (auto simp: gdox_preservation_write_bundle_def px_same_def intro: px_grown_same px_same_files_trans)
    next
      case True
      obtain q p3 where w: "write_new path (ascii (tb_text tb)) p2 = (q, p3)" by fastforce
      have g: "px_grown ?new p2 p3"
        using write_new_grown[OF w valid] by (rule px_grown_mono) (simp add: path)
      have from_p2: "px_grown ?new px pz" if "px_grown ?new p2 pz" for pz
        using that sa sb by (blast intro: px_grown_same_left px_same_trans)
      show ?thesis
      proof (cases q)
        case (Inl e)
        then show ?thesis
          using assms(1) a Some b True w keep from_p2[OF g] by (auto simp: gdox_preservation_write_bundle_def)
      next
        case (Inr u)
        let ?result = "result\<lparr>manifest_path := take (GDOX_PRESERVATION_PATH_CAPACITY - 1) path\<rparr>"
        have each: "write_each (sidecar_writes request pmap ?result) p3 = (r, px')" and "result' = ?result"
          using assms(1) a Some b True w Inr
          by (auto simp: gdox_preservation_write_bundle_def Let_def split: prod.splits)
        moreover have "px_grown ?new p2 px'"
          using px_grown_trans[OF g write_each_grown[OF each px_grown_valid[OF g valid]] valid] sidecar_writes_add
          by blast
        ultimately show ?thesis using from_p2 by auto
      qed
    qed
  qed
qed

text \<open>
  After a bundle that worked every sidecar holds what it should: the manifest, the checksums, the
  structures of the disc, the security map, the two files of a Redump bundle and the log.
\<close>

definition bundle_files ::
  "gdox_preservation_request \<Rightarrow> gdox_preservation_input \<Rightarrow> gdox_preservation_map option
   \<Rightarrow> gdox_preservation_result \<Rightarrow> int \<Rightarrow> (string \<times> byte list) list" where
  "bundle_files request input pmap result created =
     (let out = output_path request; ev = evidence result; h = hashes result
      in [(''.gdox.json'', ascii (concat (manifest_pieces request input pmap result created))),
          (''.crc32'', ascii (concat (checksum_pieces out (hex32 (crc32_value h))))),
          (''.md5'', ascii (concat (checksum_pieces out (gdox_hash_hex (md5 h) False)))),
          (''.sha1'', ascii (concat (checksum_pieces out (gdox_hash_hex (sha1 h) False)))),
          (''.sha256'', ascii (concat (checksum_pieces out (gdox_hash_hex (sha256 h) False))))]
         @ (if pfi_present ev then [(''.pfi.bin'', pfi ev)] else [])
         @ (if dmi_present ev then [(''.dmi.bin'', dmi ev)] else [])
         @ (if security_sector_present ev then [(''.ss.bin'', security_sector ev)] else [])
         @ (case pmap of None \<Rightarrow> [] | Some m \<Rightarrow> [(''.security-map.json'', ascii (concat (map_pieces m)))])
         @ (if req_format request = PRESERVATION_REDUMP
            then [(''.dvd'', ascii (concat (dvd_pieces out))), (''.sectors.txt'', ascii (concat (sectors_pieces pmap)))]
            else [])
         @ [(''.log'', ascii (concat (log_pieces request pmap result)))])"

lemma write_bundle_ok:
  assumes "gdox_preservation_write_bundle request input pmap result px = (Inr (), result', px')"
    and "px_valid px" and "(suffix, bytes) \<in> set (bundle_files request input pmap result (px_unix_time px))"
  shows "has_file px' (output_path request @ suffix) bytes"
proof -
  let ?out = "output_path request"
  obtain path p1 where a: "appended_path ?out ''.gdox.json'' px = (Some path, p1)"
    using assms(1) by (auto simp: gdox_preservation_write_bundle_def split: prod.splits option.splits)
  note sa = appended_path_same[OF a]
  have time: "px_unix_time p1 = px_unix_time px"
    using a by (auto simp: appended_path_def dest: px_allocate_time split: if_splits prod.splits bool.splits)
  obtain tb p2 where b: "build_manifest request input pmap result p1 = (True, tb, p2)"
    using assms(1) a by (auto simp: gdox_preservation_write_bundle_def split: prod.splits bool.splits)
  have sb: "px_same p1 p2" "tb_text tb = concat (manifest_pieces request input pmap result (px_unix_time px))"
    using text_appends_same text_appends_empty b time by (auto simp: build_manifest_def)
  have valid: "px_valid p2" using assms(2) sa sb by (meson px_same_imp_files px_same_valid)
  obtain p3 where w: "write_new path (ascii (tb_text tb)) p2 = (Inr (), p3)"
    using assms(1) a b by (auto simp: gdox_preservation_write_bundle_def split: prod.splits sum.splits)
  let ?result = "result\<lparr>manifest_path := take (GDOX_PRESERVATION_PATH_CAPACITY - 1) path\<rparr>"
  have each: "write_each (sidecar_writes request pmap ?result) p3 = (Inr (), px')"
    using assms(1) a b w by (auto simp: gdox_preservation_write_bundle_def Let_def split: prod.splits)
  have v3: "px_valid p3" by (rule px_grown_valid[OF write_new_grown[OF w valid] valid])
  have all: "\<forall>w \<in> set (sidecar_writes request pmap ?result). adds_sidecars ?out w"
    using sidecar_writes_add by blast
  note written = write_each_ok[OF each v3 all]
  have manifest: "has_file px' (?out @ ''.gdox.json'') (ascii (tb_text tb))"
    using write_new_ok[OF w] has_file_grown[OF write_each_grown[OF each v3 all]] sa by auto
  let ?ws = "sidecar_writes request pmap ?result"
  have built: "has_file px' (?out @ s) (ascii (concat pieces))"
    if "write_text failure pieces ?out s \<in> set ?ws" for failure pieces s
    using written[OF that] write_text_ok by blast
  have plain: "has_file px' (?out @ s) bs" if "write_suffix ?out s bs \<in> set ?ws" for s bs
    using written[OF that] write_suffix_ok by blast
  have checksum: "has_file px' (?out @ s) (ascii (concat (checksum_pieces ?out hash)))"
    if "write_checksum ?out s hash \<in> set ?ws" for s hash
    using that built by (simp only: text_writers)
  have pieces: "log_pieces request pmap ?result = log_pieces request pmap result" by (simp add: log_pieces_def)
  have "write_log request pmap ?result \<in> set ?ws" by (simp add: sidecar_writes_def Let_def)
  then have log: "has_file px' (?out @ ''.log'') (ascii (concat (log_pieces request pmap result)))"
    unfolding text_writers pieces by (rule built)
  have maps: "has_file px' (?out @ ''.security-map.json'') (ascii (concat (map_pieces m)))" if "pmap = Some m" for m
  proof -
    have "write_map ?out m \<in> set ?ws" using that by (simp add: sidecar_writes_def Let_def)
    then show ?thesis unfolding text_writers by (rule built)
  qed
  define sectors where "sectors = ascii (concat (sectors_pieces pmap))"
  have redump: "has_file px' (?out @ ''.dvd'') (ascii (concat (dvd_pieces ?out)))"
    "has_file px' (?out @ ''.sectors.txt'') sectors" if "req_format request = PRESERVATION_REDUMP"
  proof -
    have "write_redump_sidecars ?out pmap \<in> set ?ws" using that by (simp add: sidecar_writes_def Let_def)
    note redump_written = written[OF this]
    show "has_file px' (?out @ ''.dvd'') (ascii (concat (dvd_pieces ?out)))"
      by (rule redump_written) (erule write_redump_ok(1))
    show "has_file px' (?out @ ''.sectors.txt'') sectors"
      unfolding sectors_def by (rule redump_written) (erule write_redump_ok(2))
  qed
  have sums:
    "write_checksum ?out ''.crc32'' (hex32 (crc32_value (hashes result))) \<in> set ?ws"
    "write_checksum ?out ''.md5'' (gdox_hash_hex (md5 (hashes result)) False) \<in> set ?ws"
    "write_checksum ?out ''.sha1'' (gdox_hash_hex (sha1 (hashes result)) False) \<in> set ?ws"
    "write_checksum ?out ''.sha256'' (gdox_hash_hex (sha256 (hashes result)) False) \<in> set ?ws"
    by (simp_all add: sidecar_writes_def Let_def)
  have structures:
    "pfi_present (evidence result) \<Longrightarrow> write_suffix ?out ''.pfi.bin'' (pfi (evidence result)) \<in> set ?ws"
    "dmi_present (evidence result) \<Longrightarrow> write_suffix ?out ''.dmi.bin'' (dmi (evidence result)) \<in> set ?ws"
    "security_sector_present (evidence result) \<Longrightarrow>
       write_suffix ?out ''.ss.bin'' (security_sector (evidence result)) \<in> set ?ws"
    by (simp_all add: sidecar_writes_def Let_def)
  show ?thesis
    using assms(3) manifest[unfolded sb(2)] log unfolding bundle_files_def Let_def sectors_def[symmetric]
    by (auto simp only: set_append set_simps Un_iff insert_iff empty_iff prod.inject if_splits option.split
        list.set simp_thms
        intro: checksum[OF sums(1)] checksum[OF sums(2)] checksum[OF sums(3)] checksum[OF sums(4)]
        plain[OF structures(1)] plain[OF structures(2)] plain[OF structures(3)] maps redump
        split: if_splits option.splits)
qed

section \<open>JSON strings\<close>

text \<open>Reading back the inside of a JSON string.\<close>

fun json_unescape :: "string \<Rightarrow> string option" where
  "json_unescape [] = Some []"
| "json_unescape (c # rest) =
     (if c = CHR 0x22 \<or> (of_char c :: nat) < 0x20 then None
      else if c \<noteq> CHR 0x5C then map_option (Cons c) (json_unescape rest)
      else (case rest of
              [] \<Rightarrow> None
            | k # others \<Rightarrow>
                if k = CHR ''u''
                then (case others of
                        a # b # d # e # tail \<Rightarrow>
                          (case (hex_nibble a, hex_nibble b, hex_nibble d, hex_nibble e) of
                             (Some 0, Some 0, Some high, Some low) \<Rightarrow>
                               map_option (Cons (char_of (high * 16 + low))) (json_unescape tail)
                           | _ \<Rightarrow> None)
                      | _ \<Rightarrow> None)
                else (case map_of [(CHR 0x22, CHR 0x22), (CHR 0x5C, CHR 0x5C), (CHR ''b'', CHR 0x08),
                         (CHR ''f'', CHR 0x0C), (CHR ''n'', CHR 0x0A), (CHR ''r'', CHR 0x0D), (CHR ''t'', CHR 0x09)] k of
                        None \<Rightarrow> None
                      | Some v \<Rightarrow> map_option (Cons v) (json_unescape others))))"

lemma hex_nibble_hex_digit: "d < 16 \<Longrightarrow> hex_nibble (hex_digit True d) = Some d"
proof -
  have "\<forall>d \<in> set [0..<16]. hex_nibble (hex_digit True d) = Some d" by code_simp
  then show "d < 16 \<Longrightarrow> hex_nibble (hex_digit True d) = Some d" by simp
qed

lemma json_unescape_byte:
  "json_unescape (text_json_byte c @ rest) = map_option (Cons c) (json_unescape rest)"
proof (cases "c \<in> {CHR 0x22, CHR 0x5C, CHR 0x08, CHR 0x0C, CHR 0x0A, CHR 0x0D, CHR 0x09}")
  case True
  then show ?thesis by (auto simp: text_json_byte_def)
next
  case False
  let ?n = "of_char c :: nat"
  show ?thesis
  proof (cases "?n < 0x20")
    case True
    then have parts: "?n div 16 mod 16 * 16 + ?n mod 16 = ?n" "?n div 16 mod 16 < 16" "?n mod 16 < 16"
        "?n div 4096 mod 16 = 0" "?n div 256 mod 16 = 0"
      by auto
    have esc: "text_json_byte c = [CHR 0x5C, CHR ''u''] @ hex16 ?n"
      using False True by (simp add: text_json_byte_def)
    have zero: "hex_nibble (hex_digit True 0) = Some 0" by (simp add: hex_nibble_hex_digit)
    show ?thesis
      unfolding esc hex16_def
      using parts by (simp add: hex_nibble_hex_digit zero power2_eq_square)
  next
    case plain: False
    then have "text_json_byte c = [c]" using False by (simp add: text_json_byte_def)
    then show ?thesis using False plain by simp
  qed
qed

lemma json_unescape_string: "json_unescape (concat (map text_json_byte s)) = Some s"
  by (induction s) (simp_all add: json_unescape_byte)

end
