(* ===== verification/Preserve.thy ===== *)
theory Preserve
  imports PreservationManifest Source
begin

text \<open>
  Preserving a disc (src/src/core/preserve.c): the sectors of a source are written to
  \<open>output_path.part\<close>, unreadable ones and the security ranges as zeros, the file is read back and
  compared by its hashes, moved to its name and completed with its sidecars.

  The C function writes its results through pointers into the caller's objects and calls back for
  progress and cancellation; the model threads all of it as one \<open>writer_state\<close>: the source, the
  kernel, the result, the hash stream, the open file, the answers of the cancellation callback (none
  for a NULL callback) and the progress reported.
\<close>

unbundle bit_operations_syntax

definition PRESERVATION_READ_BLOCKS :: u32 where "PRESERVATION_READ_BLOCKS = 31"
definition PRESERVATION_VERIFY_BUFFER :: nat where "PRESERVATION_VERIFY_BUFFER = 4194304"

section \<open>State\<close>

record ('s, 'd) preservation =
  pv_ops :: "'s source_ops"
  pv_digests :: "'d digest_ops"
  pv_request :: gdox_preservation_request
  pv_input :: gdox_preservation_input
  pv_map :: "gdox_preservation_map option"
  pv_reporting :: bool

record ('s, 'd) writer_state =
  ws_source :: "'s sector_source"
  ws_host :: posix
  ws_result :: gdox_preservation_result
  ws_hashes :: "'d gdox_hash_stream option"
  ws_file :: "descriptor option"
  ws_discard_partial :: bool
  ws_started :: rat
  ws_last_progress :: rat
  ws_cancel :: "bool list"
  ws_reports :: "gdox_preservation_progress list"

definition output_sector_count :: "'s source_ops \<Rightarrow> gdox_preservation_input \<Rightarrow> 's sector_source \<Rightarrow> u64" where
  "output_sector_count ops input source =
     (if output_sectors input \<noteq> 0 then output_sectors input else gdox_source_sector_count ops source)"

definition is_cancelled :: "('s, 'd) writer_state \<Rightarrow> bool \<times> ('s, 'd) writer_state" where
  "is_cancelled st =
     (case ws_cancel st of [] \<Rightarrow> (False, st) | a # rest \<Rightarrow> (a, st\<lparr>ws_cancel := rest\<rparr>))"

text \<open>An operation of the kernel in the state.\<close>

definition on_host :: "(posix \<Rightarrow> 'a \<times> posix) \<Rightarrow> ('s, 'd) writer_state \<Rightarrow> 'a \<times> ('s, 'd) writer_state" where
  "on_host f st = (case f (ws_host st) of (a, px) \<Rightarrow> (a, st\<lparr>ws_host := px\<rparr>))"

definition report_progress ::
  "('s, 'd) preservation \<Rightarrow> gdox_preservation_phase \<Rightarrow> u64 \<Rightarrow> u64 \<Rightarrow> bool
   \<Rightarrow> ('s, 'd) writer_state \<Rightarrow> ('s, 'd) writer_state" where
  "report_progress pv ph completed total_size force st =
     (case on_host gdox_preservation_monotonic_seconds st of
        (now, st) \<Rightarrow>
          if \<not> pv_reporting pv then st
          else if \<not> force \<and> now - ws_last_progress st < 1 / 5 then st
          else (let elapsed = now - ws_started st
                in st\<lparr>ws_last_progress := now,
                      ws_reports := ws_reports st @
                        [\<lparr>phase = ph, completed_bytes = completed, total_bytes = total_size,
                          bytes_per_second = (if elapsed > 1 / 1000 then rat_of_nat completed / elapsed else 0),
                          progress_unreadable = unreadable_sectors (ws_result st)\<rparr>]\<rparr>))"

section \<open>Comparing hashes\<close>

definition hashes_equal :: "gdox_hashes \<Rightarrow> gdox_hashes \<Rightarrow> bool" where
  "hashes_equal left right =
     (crc32_value left = crc32_value right \<and> md5 left = md5 right \<and> sha1 left = sha1 right
      \<and> sha256 left = sha256 right)"

definition hashes_expected :: "gdox_preservation_map \<Rightarrow> gdox_hashes \<Rightarrow> bool" where
  "hashes_expected m actual =
     (let mask = expected_hash_mask m; expected = expected_hashes m
      in if mask AND GDOX_EXPECTED_CRC32 \<noteq> 0 \<and> crc32_value expected \<noteq> crc32_value actual then False
         else if mask AND GDOX_EXPECTED_MD5 \<noteq> 0 \<and> md5 expected \<noteq> md5 actual then False
         else if mask AND GDOX_EXPECTED_SHA1 \<noteq> 0 \<and> sha1 expected \<noteq> sha1 actual then False
         else if mask AND GDOX_EXPECTED_SHA256 \<noteq> 0 \<and> sha256 expected \<noteq> sha256 actual then False
         else True)"

section \<open>Sectors\<close>

fun normalized_in :: "gdox_security_range list \<Rightarrow> u64 \<Rightarrow> bool" where
  "normalized_in [] lba = False"
| "normalized_in (r # rs) lba =
     (if lba \<ge> start_lba r \<and> lba \<le> end_lba r then True
      else if lba < start_lba r then False
      else normalized_in rs lba)"

definition lba_is_normalized :: "gdox_preservation_map option \<Rightarrow> u64 \<Rightarrow> bool" where
  "lba_is_normalized pmap lba =
     (case pmap of None \<Rightarrow> False | Some m \<Rightarrow> normalized_in (map_ranges m) lba)"

definition range_intersects_map :: "gdox_preservation_map option \<Rightarrow> u64 \<Rightarrow> u32 \<Rightarrow> bool" where
  "range_intersects_map pmap absolute_lba blocks =
     list_ex (\<lambda>i. lba_is_normalized pmap (u64_add absolute_lba i)) [0..<blocks]"

definition append_bad_sector ::
  "gdox_preservation_result \<Rightarrow> u64 \<Rightarrow> posix \<Rightarrow> gdox_preservation_result res \<times> posix" where
  "append_bad_sector result lba px =
     (let rs = unreadable_ranges result
      in if rs \<noteq> [] \<and> bad_end (last rs) \<noteq> UINT64_MAX \<and> bad_end (last rs) + 1 = lba
         then (Inr (result\<lparr>unreadable_ranges := butlast rs @ [(last rs)\<lparr>bad_end := lba\<rparr>],
                           unreadable_sectors := u64_add (unreadable_sectors result) 1\<rparr>), px)
         else if length rs \<ge> SIZE_MAX div 16 - 1
         then (fail ERROR_INTERNAL ''unreadable-sector range list is too large'', px)
         else (case px_allocate px of
                 (False, px) \<Rightarrow> (fail ERROR_INTERNAL ''could not record an unreadable sector'', px)
               | (True, px) \<Rightarrow>
                   (Inr (result\<lparr>unreadable_ranges := rs @ [\<lparr>bad_start = lba, bad_end = lba\<rparr>],
                                unreadable_sectors := u64_add (unreadable_sectors result) 1\<rparr>), px)))"

definition zero_sector :: "byte list" where
  "zero_sector = replicate GDOX_LOGICAL_SECTOR_BYTES 0"

definition recover_sector ::
  "('s, 'd) preservation \<Rightarrow> u64 \<Rightarrow> ('s, 'd) writer_state \<Rightarrow> byte list res \<times> ('s, 'd) writer_state" where
  "recover_sector pv relative_lba st =
     (let absolute_lba = u64_add (source_lba_offset (pv_input pv)) relative_lba
      in case is_cancelled st of
           (True, st) \<Rightarrow> (fail ERROR_CANCELLED ''preservation was cancelled'', st)
         | (False, st) \<Rightarrow>
             if lba_is_normalized (pv_map pv) absolute_lba then (Inr zero_sector, st)
             else (case gdox_source_read (pv_ops pv) (ws_source st) relative_lba 1 GDOX_LOGICAL_SECTOR_BYTES of
                     (Inr bytes, source) \<Rightarrow> (Inr bytes, st\<lparr>ws_source := source\<rparr>)
                   | (Inl e, source) \<Rightarrow>
                       (let st = st\<lparr>ws_source := source\<rparr>
                        in if code e = ERROR_NOT_FOUND \<or> code e = ERROR_CANCELLED then (Inl e, st)
                           else (case append_bad_sector (ws_result st) absolute_lba (ws_host st) of
                                   (Inl e, px) \<Rightarrow> (Inl e, st\<lparr>ws_host := px\<rparr>)
                                 | (Inr result, px) \<Rightarrow>
                                     (Inr zero_sector, st\<lparr>ws_host := px, ws_result := result\<rparr>)))))"

text \<open>The sectors \<open>source_lba + index\<close> for the indices given.\<close>

fun recover_block ::
  "('s, 'd) preservation \<Rightarrow> u64 \<Rightarrow> nat list \<Rightarrow> ('s, 'd) writer_state \<Rightarrow> byte list res \<times> ('s, 'd) writer_state" where
  "recover_block pv source_lba [] st = (Inr [], st)"
| "recover_block pv source_lba (index # rest) st =
     (case recover_sector pv (u64_add source_lba index) st of
        (Inl e, st) \<Rightarrow> (Inl e, st)
      | (Inr sector, st) \<Rightarrow>
          (case recover_block pv source_lba rest st of
             (Inl e, st) \<Rightarrow> (Inl e, st)
           | (Inr bytes, st) \<Rightarrow> (Inr (sector @ bytes), st)))"

section \<open>Writing the image\<close>

definition read_sectors ::
  "('s, 'd) preservation \<Rightarrow> u64 \<Rightarrow> u32 \<Rightarrow> ('s, 'd) writer_state \<Rightarrow> byte list res \<times> ('s, 'd) writer_state" where
  "read_sectors pv completed blocks st =
     (let absolute_lba = u64_add (source_lba_offset (pv_input pv)) completed
      in if range_intersects_map (pv_map pv) absolute_lba blocks
         then recover_block pv completed [0..<blocks] st
         else (case gdox_source_read (pv_ops pv) (ws_source st) completed blocks
                      (blocks * GDOX_LOGICAL_SECTOR_BYTES) of
                 (Inr bytes, source) \<Rightarrow> (Inr bytes, st\<lparr>ws_source := source\<rparr>)
               | (Inl _, source) \<Rightarrow> recover_block pv completed [0..<blocks] (st\<lparr>ws_source := source\<rparr>)))"

definition put_sectors ::
  "('s, 'd) preservation \<Rightarrow> byte list \<Rightarrow> ('s, 'd) writer_state \<Rightarrow> unit res \<times> ('s, 'd) writer_state" where
  "put_sectors pv bytes st =
     (case gdox_preservation_file_write (the (ws_file st)) bytes (ws_host st) of
        (Inl e, fd, px) \<Rightarrow> (Inl e, st\<lparr>ws_file := Some fd, ws_host := px\<rparr>)
      | (Inr _, fd, px) \<Rightarrow>
          (case gdox_hash_stream_update (pv_digests pv) (the (ws_hashes st)) bytes of
             (r, stream) \<Rightarrow> (r, st\<lparr>ws_file := Some fd, ws_host := px, ws_hashes := Some stream\<rparr>)))"

definition image_turn ::
  "('s, 'd) preservation \<Rightarrow> u64 \<Rightarrow> u64 \<Rightarrow> u32 \<Rightarrow> ('s, 'd) writer_state \<Rightarrow> unit res \<times> ('s, 'd) writer_state" where
  "image_turn pv sectors completed blocks st =
     (case is_cancelled st of
        (True, st) \<Rightarrow> (fail ERROR_CANCELLED ''preservation was cancelled'', st)
      | (False, st) \<Rightarrow>
          (case read_sectors pv completed blocks st of
             (Inl e, st) \<Rightarrow> (Inl e, st)
           | (Inr bytes, st) \<Rightarrow>
               (case put_sectors pv bytes st of
                  (Inl e, st) \<Rightarrow> (Inl e, st)
                | (Inr _, st) \<Rightarrow>
                    (Inr (), report_progress pv PRESERVATION_READING
                       (u64_mul (completed + blocks) GDOX_LOGICAL_SECTOR_BYTES)
                       (u64_mul sectors GDOX_LOGICAL_SECTOR_BYTES) False st))))"

function image_loop ::
  "('s, 'd) preservation \<Rightarrow> u64 \<Rightarrow> u64 \<Rightarrow> ('s, 'd) writer_state \<Rightarrow> unit res \<times> ('s, 'd) writer_state" where
  "image_loop pv sectors completed st =
     (if completed < sectors
      then (let blocks = min (sectors - completed) PRESERVATION_READ_BLOCKS
            in case image_turn pv sectors completed blocks st of
                 (Inl e, st) \<Rightarrow> (Inl e, st)
               | (Inr _, st) \<Rightarrow> image_loop pv sectors (completed + blocks) st)
      else (Inr (), st))"
  by pat_completeness auto
termination
  by (relation "measure (\<lambda>(pv, sectors, completed, st). sectors - completed)")
    (auto simp: PRESERVATION_READ_BLOCKS_def)

declare image_loop.simps [simp del]

definition write_image ::
  "('s, 'd) preservation \<Rightarrow> ('s, 'd) writer_state \<Rightarrow> unit res \<times> ('s, 'd) writer_state" where
  "write_image pv st =
     (let sectors = output_sector_count (pv_ops pv) (pv_input pv) (ws_source st)
      in case on_host px_allocate st of
           (False, st) \<Rightarrow> (fail ERROR_INTERNAL ''could not allocate preservation read buffer'', st)
         | (True, st) \<Rightarrow>
             (case image_loop pv sectors 0 st of
                (Inl e, st) \<Rightarrow> (Inl e, st)
              | (Inr _, st) \<Rightarrow>
                  (case gdox_hash_stream_finish (pv_digests pv) (the (ws_hashes st)) of
                     (Inl e, stream) \<Rightarrow> (Inl e, st\<lparr>ws_hashes := Some stream\<rparr>)
                   | (Inr h, stream) \<Rightarrow>
                       (Inr (), st\<lparr>ws_hashes := Some stream, ws_result := (ws_result st)\<lparr>hashes := h\<rparr>\<rparr>))))"

section \<open>Reading the image back\<close>

text \<open>The loop reads to the end of the file; \<open>completed\<close> bytes are hashed.\<close>

function verify_loop ::
  "('s, 'd) preservation \<Rightarrow> u64 \<Rightarrow> descriptor \<Rightarrow> u64 \<Rightarrow> 'd gdox_hash_stream \<Rightarrow> ('s, 'd) writer_state
   \<Rightarrow> (u64 \<times> 'd gdox_hash_stream) res \<times> ('s, 'd) writer_state" where
  "verify_loop pv expected_bytes fd completed stream st =
     (case is_cancelled st of
        (True, st) \<Rightarrow> (fail ERROR_CANCELLED ''preservation verification was cancelled'', st)
      | (False, st) \<Rightarrow>
          (case gdox_preservation_file_read fd PRESERVATION_VERIFY_BUFFER (ws_host st) of
             (Inl e, fd', px) \<Rightarrow> (Inl e, st\<lparr>ws_host := px\<rparr>)
           | (Inr bytes, fd', px) \<Rightarrow>
               if bytes = [] then (Inr (completed, stream), st\<lparr>ws_host := px\<rparr>)
               else (case gdox_hash_stream_update (pv_digests pv) stream bytes of
                       (Inl e, _) \<Rightarrow> (Inl e, st\<lparr>ws_host := px\<rparr>)
                     | (Inr _, stream') \<Rightarrow>
                         verify_loop pv expected_bytes fd' (completed + length bytes) stream'
                           (report_progress pv PRESERVATION_VERIFYING (completed + length bytes) expected_bytes False
                              (st\<lparr>ws_host := px\<rparr>)))))"
  by pat_completeness auto

lemma report_progress_frame:
  "\<exists>px t rs. report_progress pv ph completed n force st =
     st\<lparr>ws_host := px, ws_last_progress := t, ws_reports := rs\<rparr> \<and> px_same (ws_host st) px
     \<and> px_answers px = px_answers (ws_host st)"
proof -
  obtain now px where c: "gdox_preservation_monotonic_seconds (ws_host st) = (now, px)" by fastforce
  have same: "px_same (ws_host st) px \<and> px_answers px = px_answers (ws_host st)"
    using c px_clock_same[OF c] by (auto simp: gdox_preservation_monotonic_seconds_def split: list.splits)
  show ?thesis
    by (rule exI[of _ px], rule exI[of _ "ws_last_progress (report_progress pv ph completed n force st)"],
        rule exI[of _ "ws_reports (report_progress pv ph completed n force st)"])
      (simp add: same report_progress_def on_host_def c Let_def)
qed

lemma report_progress_data [simp]:
  "px_data (ws_host (report_progress pv ph completed n force st)) = px_data (ws_host st)"
  using report_progress_frame[of pv ph completed n force st] by (auto simp: px_same_def px_same_files_def)

lemma is_cancelled_frame:
  "is_cancelled st = (c, st') \<Longrightarrow> \<exists>rest. st' = st\<lparr>ws_cancel := rest\<rparr>"
  by (auto simp: is_cancelled_def intro: exI[of _ "ws_cancel st"] split: list.splits)

lemma verify_turn_less:
  assumes "is_cancelled st = (c, st1)"
    and "gdox_preservation_file_read fd PRESERVATION_VERIFY_BUFFER (ws_host st1) = (Inr bytes, fd', px)"
    and "bytes \<noteq> []"
  shows "length (px_data px (fd_inode fd')) - fd_offset fd'
       < length (px_data (ws_host st) (fd_inode fd)) - fd_offset fd"
proof -
  have host: "ws_host st1 = ws_host st" using is_cancelled_frame[OF assms(1)] by auto
  have data: "px_data px = px_data (ws_host st)"
    using px_read_same[OF assms(2)] host by (simp add: px_same_def px_same_files_def)
  have "fd' = fd\<lparr>fd_offset := fd_offset fd + length bytes\<rparr>"
      "\<not> length (px_data (ws_host st) (fd_inode fd)) \<le> fd_offset fd"
    using px_read_bytes[OF assms(2)] assms(3) host by (auto simp: PRESERVATION_VERIFY_BUFFER_def)
  then show ?thesis using data assms(3) by (cases bytes) auto
qed

termination verify_loop
  by (relation "measure (\<lambda>(pv, e, fd, completed, stream, st).
      length (px_data (ws_host st) (fd_inode fd)) - fd_offset fd)")
    (auto dest: verify_turn_less[OF sym sym])

declare verify_loop.simps [simp del]

text \<open>\<open>hash_file\<close> between opening and closing the file.\<close>

definition hash_opened ::
  "('s, 'd) preservation \<Rightarrow> descriptor \<Rightarrow> u64 \<Rightarrow> u64 \<Rightarrow> ('s, 'd) writer_state \<Rightarrow> gdox_hashes res \<times> ('s, 'd) writer_state" where
  "hash_opened pv fd file_length expected_bytes st =
     (if file_length \<noteq> expected_bytes
      then (fail ERROR_INVALID_SOURCE ''preservation output length changed before verification'', st)
      else (case on_host px_allocate st of
              (allocated, st) \<Rightarrow>
                (case gdox_hash_stream_create allocated (pv_digests pv) of
                   Inl e \<Rightarrow> (Inl e, st)
                 | Inr stream \<Rightarrow>
                     (case on_host px_allocate st of
                        (False, st) \<Rightarrow> (fail ERROR_INTERNAL ''could not allocate verification buffer'', st)
                      | (True, st) \<Rightarrow>
                          (case verify_loop pv expected_bytes fd 0 stream st of
                             (Inl e, st) \<Rightarrow> (Inl e, st)
                           | (Inr (completed, stream), st) \<Rightarrow>
                               if completed \<noteq> expected_bytes
                               then (fail ERROR_INVALID_SOURCE
                                       ''preservation verification ended at the wrong length'', st)
                               else (fst (gdox_hash_stream_finish (pv_digests pv) stream), st))))))"

definition hash_file ::
  "('s, 'd) preservation \<Rightarrow> string \<Rightarrow> u64 \<Rightarrow> ('s, 'd) writer_state \<Rightarrow> gdox_hashes res \<times> ('s, 'd) writer_state" where
  "hash_file pv path expected_bytes st =
     (case on_host (gdox_preservation_file_open_read path) st of
        (Inl e, st) \<Rightarrow> (Inl e, st)
      | (Inr (fd, file_length), st) \<Rightarrow>
          (case hash_opened pv fd file_length expected_bytes st of
             (Inl e, st) \<Rightarrow> (Inl e, snd (on_host gdox_preservation_file_close st))
           | (Inr h, st) \<Rightarrow>
               (case on_host gdox_preservation_file_close st of
                  (Inl e, st) \<Rightarrow> (Inl e, st)
                | (Inr _, st) \<Rightarrow> (Inr h, st))))"

section \<open>The request\<close>

text \<open>The security map that applies, from the evidence, the caller or the catalog.\<close>

definition resolve_map ::
  "gdox_preservation_request \<Rightarrow> disc_evidence \<Rightarrow> u64 \<Rightarrow> gdox_preservation_map option res" where
  "resolve_map request ev sectors =
     (if req_format request \<noteq> PRESERVATION_REDUMP
      then (if security_map request \<noteq> None
            then fail ERROR_INVALID_ARGUMENT ''security maps apply only to full-disc preservation''
            else Inr None)
      else (let authenticated =
                  (if security_sector_present ev
                   then (case gdox_security_sector_inspect (security_sector ev) of
                           Inl _ \<Rightarrow> None
                         | Inr report \<Rightarrow>
                             Some (empty_map\<lparr>map_source := SECURITY_MAP_AUTHENTICATED_SS,
                                             map_ranges := ranges report\<rparr>))
                   else None)
            in case security_map request of
                 Some external \<Rightarrow>
                   (case gdox_security_ranges_validate (map_ranges external) of
                      Inl e \<Rightarrow> Inl e
                    | Inr _ \<Rightarrow>
                        (case authenticated of
                           Some m \<Rightarrow>
                             if map_ranges m \<noteq> map_ranges external
                             then fail ERROR_INVALID_SOURCE
                                    ''external security ranges disagree with authenticated SS evidence''
                             else Inr (Some (m\<lparr>expected_hashes := expected_hashes external,
                                    expected_hash_mask := expected_hash_mask external,
                                    map_title := take (GDOX_PRESERVATION_TITLE_CAPACITY - 1) (map_title external),
                                    map_mastering_id :=
                                      take (GDOX_PRESERVATION_ID_CAPACITY - 1) (map_mastering_id external)\<rparr>))
                         | None \<Rightarrow> Inr (Some external)))
               | None \<Rightarrow>
                   (case authenticated of
                      Some m \<Rightarrow> Inr (Some m)
                    | None \<Rightarrow> gdox_preservation_catalog_match ev sectors)))"

definition validate_request ::
  "('s, 'd) preservation \<Rightarrow> disc_evidence \<Rightarrow> ('s, 'd) writer_state \<Rightarrow> unit res \<times> ('s, 'd) writer_state" where
  "validate_request pv ev st =
     (let request = pv_request pv;
          source_sectors = gdox_source_sector_count (pv_ops pv) (ws_source st);
          sectors = output_sector_count (pv_ops pv) (pv_input pv) (ws_source st)
      in if output_path request = [] \<or> \<not> gdox_source_is_valid (ws_source st)
         then (fail ERROR_INVALID_ARGUMENT ''output path and source are required'', st)
         else if sectors = 0 \<or> sectors > source_sectors \<or> sectors > UINT64_MAX div GDOX_LOGICAL_SECTOR_BYTES
         then (fail ERROR_INVALID_SOURCE ''preservation source has an invalid length'', st)
         else if req_format request = PRESERVATION_REDUMP \<and> sectors \<noteq> GDOX_XGD1_REDUMP_SECTORS
         then (fail ERROR_INVALID_SOURCE ''full-disc preservation requires exactly 3820880 sectors'', st)
         else if req_format request \<noteq> PRESERVATION_REDUMP \<and> req_format request \<noteq> PRESERVATION_XISO_COMPACT
         then (fail ERROR_INVALID_ARGUMENT ''unknown preservation format'', st)
         else (case on_host (gdox_preservation_path_exists (output_path request)) st of
                 (True, st) \<Rightarrow> (fail ERROR_INVALID_SOURCE ''preservation output already exists'', st)
               | (False, st) \<Rightarrow>
                   (case on_host (gdox_preservation_sidecars_available request ev (pv_map pv \<noteq> None)) st of
                      (Inl e, st) \<Rightarrow> (Inl e, st)
                    | (Inr _, st) \<Rightarrow>
                        (case on_host (gdox_preservation_available_space (output_path request)) st of
                           (Inl e, st) \<Rightarrow> (Inl e, st)
                         | (Inr available, st) \<Rightarrow>
                             if available < u64_mul sectors GDOX_LOGICAL_SECTOR_BYTES
                             then (fail ERROR_INVALID_SOURCE
                                     ''the output filesystem does not have enough free space'', st)
                             else (Inr (), st)))))"

section \<open>The run\<close>

definition write_and_verify_preservation ::
  "('s, 'd) preservation \<Rightarrow> string \<Rightarrow> u64 \<Rightarrow> ('s, 'd) writer_state \<Rightarrow> unit res \<times> ('s, 'd) writer_state" where
  "write_and_verify_preservation pv part_path total_size st =
     (case on_host (gdox_preservation_file_create part_path) st of
        (Inl e, st) \<Rightarrow> (Inl e, st)
      | (Inr fd, st) \<Rightarrow>
          (let st = st\<lparr>ws_file := Some fd, ws_discard_partial := True\<rparr>
           in case on_host px_allocate st of
                (allocated, st) \<Rightarrow>
                  (case gdox_hash_stream_create allocated (pv_digests pv) of
                     Inl e \<Rightarrow> (Inl e, st)
                   | Inr stream \<Rightarrow>
                       (case write_image pv (st\<lparr>ws_hashes := Some stream\<rparr>) of
                          (Inl e, st) \<Rightarrow> (Inl e, st)
                        | (Inr _, st) \<Rightarrow>
                            (let st = st\<lparr>ws_hashes := None\<rparr>
                             in case on_host gdox_preservation_file_sync_close st of
                                  (Inl e, st) \<Rightarrow> (Inl e, st\<lparr>ws_file := None\<rparr>)
                                | (Inr _, st) \<Rightarrow>
                                    (let st = st\<lparr>ws_file := None\<rparr>
                                     in if \<not> verify (pv_request pv) then (Inr (), st)
                                        else (case on_host gdox_preservation_monotonic_seconds st of
                                                (now, st) \<Rightarrow>
                                                  (case hash_file pv part_path total_size
                                                          (st\<lparr>ws_started := now, ws_last_progress := 0\<rparr>) of
                                                     (Inl e, st) \<Rightarrow> (Inl e, st)
                                                   | (Inr verified, st) \<Rightarrow>
                                                       if hashes_equal verified (hashes (ws_result st))
                                                       then (Inr (), st\<lparr>ws_result := (ws_result st)\<lparr>readback_verified := True\<rparr>\<rparr>)
                                                       else (fail ERROR_INVALID_SOURCE
                                                               ''read-back hashes do not match the image just written'', st)))))))))"

definition evidence_is_complete ::
  "gdox_preservation_request \<Rightarrow> disc_evidence \<Rightarrow> gdox_preservation_map option \<Rightarrow> gdox_preservation_result \<Rightarrow> bool" where
  "evidence_is_complete request ev pmap result =
     (verify request \<and> unreadable_sectors result = 0 \<and> pfi_present ev \<and> dmi_present ev
      \<and> security_sector_present ev
      \<and> (case pmap of None \<Rightarrow> False | Some m \<Rightarrow> map_source m = SECURITY_MAP_AUTHENTICATED_SS))"

definition classify_preservation ::
  "gdox_preservation_request \<Rightarrow> disc_evidence \<Rightarrow> gdox_preservation_map option \<Rightarrow> gdox_preservation_result
   \<Rightarrow> gdox_preservation_result" where
  "classify_preservation request ev pmap result =
     (let result = (case pmap of
                      None \<Rightarrow> result
                    | Some m \<Rightarrow>
                        if expected_hash_mask m \<noteq> 0
                        then result\<lparr>expected_hashes_match := (if hashes_expected m (hashes result) then 1 else 0)\<rparr>
                        else result)
      in result\<lparr>status :=
           (if req_format request = PRESERVATION_XISO_COMPACT then PRESERVATION_PLAYABLE_XISO
            else if evidence_is_complete request ev pmap result then PRESERVATION_REDUMP_EVIDENCE_COMPLETE
            else PRESERVATION_REDUMP_CANDIDATE)\<rparr>)"

definition cleanup_preservation ::
  "('s, 'd) preservation \<Rightarrow> string \<Rightarrow> bool \<Rightarrow> ('s, 'd) writer_state \<Rightarrow> ('s, 'd) writer_state" where
  "cleanup_preservation pv part_path success st =
     (let st = (case ws_file st of None \<Rightarrow> st | Some _ \<Rightarrow> snd (on_host gdox_preservation_file_close st))
      in if success then st
         else (let st = (if ws_discard_partial st \<and> \<not> keep_partial (pv_request pv)
                         then snd (on_host (gdox_preservation_path_remove part_path) st) else st)
               in st\<lparr>ws_result := (ws_result st)\<lparr>unreadable_ranges := []\<rparr>\<rparr>))"

definition empty_result :: gdox_preservation_result where
  "empty_result =
     \<lparr>res_format = PRESERVATION_XISO_COMPACT, status = PRESERVATION_PLAYABLE_XISO, res_bytes = 0, hashes = no_hashes,
      readback_verified = False, expected_hashes_match = -1, normalized_security_sectors = 0,
      unreadable_sectors = 0, unreadable_ranges = [], evidence = gdox_disc_evidence_clear, manifest_path = []\<rparr>"

text \<open>The state before the image is written, and when it has been.\<close>

definition begin_preservation ::
  "('s, 'd) preservation \<Rightarrow> disc_evidence \<Rightarrow> u64 \<Rightarrow> ('s, 'd) writer_state \<Rightarrow> ('s, 'd) writer_state" where
  "begin_preservation pv ev total_size st =
     (case on_host gdox_preservation_monotonic_seconds st of
        (now, st) \<Rightarrow>
          report_progress pv PRESERVATION_PREPARING 0 total_size True
            (st\<lparr>ws_started := now, ws_last_progress := 0,
                ws_result := (ws_result st)\<lparr>res_format := req_format (pv_request pv), res_bytes := total_size,
                  evidence := ev, normalized_security_sectors :=
                    (if pv_map pv \<noteq> None then GDOX_XGD1_NORMALIZED_SECTORS else 0)\<rparr>\<rparr>))"

definition end_preservation ::
  "('s, 'd) preservation \<Rightarrow> disc_evidence \<Rightarrow> u64 \<Rightarrow> ('s, 'd) writer_state \<Rightarrow> ('s, 'd) writer_state" where
  "end_preservation pv ev total_size st =
     report_progress pv PRESERVATION_FINALIZING total_size total_size True
       (st\<lparr>ws_discard_partial := False,
           ws_result := classify_preservation (pv_request pv) ev (pv_map pv) (ws_result st)\<rparr>)"

text \<open>From the open partial file to the bundle: the part of the run whose failures are cleaned up.\<close>

definition preserve_stages ::
  "('s, 'd) preservation \<Rightarrow> string \<Rightarrow> disc_evidence \<Rightarrow> ('s, 'd) writer_state \<Rightarrow> unit res \<times> ('s, 'd) writer_state" where
  "preserve_stages pv part_path ev st =
     (let request = pv_request pv;
          total_size = u64_mul (output_sector_count (pv_ops pv) (pv_input pv) (ws_source st)) GDOX_LOGICAL_SECTOR_BYTES
      in case on_host (gdox_preservation_path_exists part_path) st of
           (True, st) \<Rightarrow> (fail ERROR_INVALID_SOURCE ''partial preservation output already exists'', st)
         | (False, st) \<Rightarrow>
             (case write_and_verify_preservation pv part_path total_size (begin_preservation pv ev total_size st) of
                (Inl e, st) \<Rightarrow> (Inl e, st)
              | (Inr _, st) \<Rightarrow>
                  (case on_host (gdox_preservation_path_commit part_path (output_path request))
                          (end_preservation pv ev total_size st) of
                     (Inl e, st) \<Rightarrow> (Inl e, st)
                   | (Inr _, st) \<Rightarrow>
                       (case gdox_preservation_write_bundle request (pv_input pv) (pv_map pv) (ws_result st)
                               (ws_host st) of
                          (r, result, px) \<Rightarrow> (r, st\<lparr>ws_result := result, ws_host := px\<rparr>)))))"

definition gdox_preservation_run ::
  "'s source_ops \<Rightarrow> 'd digest_ops \<Rightarrow> gdox_preservation_request \<Rightarrow> gdox_preservation_input \<Rightarrow> bool
   \<Rightarrow> bool list \<Rightarrow> 's sector_source \<Rightarrow> posix \<Rightarrow> unit res \<times> ('s, 'd) writer_state" where
  "gdox_preservation_run ops digest_ops request input reporting cancel source px =
     (let st = \<lparr>ws_source = source, ws_host = px, ws_result = empty_result, ws_hashes = None, ws_file = None,
                ws_discard_partial = False, ws_started = 0, ws_last_progress = 0, ws_cancel = cancel,
                ws_reports = []\<rparr>;
          ev = snd (gdox_source_evidence ops source)
      in case resolve_map request ev (gdox_source_sector_count ops source) of
           Inl e \<Rightarrow> (Inl e, st)
         | Inr pmap \<Rightarrow>
             (let pv = \<lparr>pv_ops = ops, pv_digests = digest_ops, pv_request = request, pv_input = input,
                       pv_map = pmap, pv_reporting = reporting\<rparr>
              in case validate_request pv ev st of
                   (Inl e, st) \<Rightarrow> (Inl e, st)
                 | (Inr _, st) \<Rightarrow>
                     (case on_host (appended_path (output_path request) ''.part'') st of
                        (None, st) \<Rightarrow> (fail ERROR_INTERNAL ''could not allocate partial output path'', st)
                      | (Some part_path, st) \<Rightarrow>
                          (case preserve_stages pv part_path ev st of
                             (Inl e, st) \<Rightarrow> (Inl e, cleanup_preservation pv part_path False st)
                           | (Inr u, st) \<Rightarrow> (Inr u, cleanup_preservation pv part_path True st)))))"

definition gdox_preservation_result_destroy :: "gdox_preservation_result \<Rightarrow> gdox_preservation_result" where
  "gdox_preservation_result_destroy result = empty_result\<lparr>expected_hashes_match := 0\<rparr>"

end
