(* ===== verification/PreservedImage.thy ===== *)
theory PreservedImage
  imports Preserve
begin

text \<open>
  What a preservation run leaves behind: the image with zeros for the security ranges and the sectors that
  could not be read, the list of those sectors, the hashes of the image, and the sidecars.
\<close>

section \<open>Unreadable sectors\<close>

definition bad_lbas :: "gdox_preservation_result \<Rightarrow> nat set" where
  "bad_lbas result = (\<Union>r \<in> set (unreadable_ranges result). {bad_start r..bad_end r})"

text \<open>Only the unreadable sectors differ.\<close>

definition marks_only :: "gdox_preservation_result \<Rightarrow> gdox_preservation_result \<Rightarrow> bool" where
  "marks_only r r' \<longleftrightarrow>
     r' = r\<lparr>unreadable_ranges := unreadable_ranges r', unreadable_sectors := unreadable_sectors r'\<rparr>"

lemma marks_only_simps [simp]:
  "marks_only r r" "marks_only r (r\<lparr>unreadable_ranges := rs, unreadable_sectors := n\<rparr>)"
  by (simp_all add: marks_only_def)

lemma marks_only_trans: "marks_only r r1 \<Longrightarrow> marks_only r1 r2 \<Longrightarrow> marks_only r r2"
  by (cases r, cases r1, cases r2) (simp add: marks_only_def)

text \<open>The ranges ascend, lie in the sectors \<open>[first, bound)\<close> and are counted.\<close>

definition bad_inv :: "gdox_preservation_result \<Rightarrow> nat \<Rightarrow> nat \<Rightarrow> bool" where
  "bad_inv result first bound \<longleftrightarrow>
     sorted_wrt (\<lambda>a b. bad_end a < bad_start b) (unreadable_ranges result)
     \<and> (\<forall>r \<in> set (unreadable_ranges result). first \<le> bad_start r \<and> bad_start r \<le> bad_end r \<and> bad_end r < bound)
     \<and> unreadable_sectors result = card (bad_lbas result)"

lemma bad_lbas_below: "bad_inv result first bound \<Longrightarrow> bad_lbas result \<subseteq> {first..<bound}"
  by (force simp: bad_inv_def bad_lbas_def)

lemma bad_inv_mono: "bad_inv result first bound \<Longrightarrow> bound \<le> bound' \<Longrightarrow> bad_inv result first bound'"
  by (force simp: bad_inv_def)

lemma bad_lbas_append:
  "bad_lbas (result\<lparr>unreadable_ranges := rs @ [r]\<rparr>) =
     bad_lbas (result\<lparr>unreadable_ranges := rs\<rparr>) \<union> {bad_start r..bad_end r}"
  by (auto simp: bad_lbas_def)

lemma append_bad_sector_inv:
  assumes "append_bad_sector result lba px = (Inr result', px')" and inv: "bad_inv result first lba"
    and "first \<le> lba" and "lba + 1 < two64"
  shows "bad_inv result' first (lba + 1) \<and> bad_lbas result' = insert lba (bad_lbas result) \<and> px_same px px'
     \<and> marks_only result result'"
proof -
  let ?rs = "unreadable_ranges result"
  note d = inv[unfolded bad_inv_def]
  have sub: "bad_lbas result \<subseteq> {first..<lba}" using bad_lbas_below[OF inv] .
  then have fin: "finite (bad_lbas result)" "lba \<notin> bad_lbas result" by (auto dest: finite_subset)
  have "card (bad_lbas result) \<le> card {first..<lba}" using sub by (intro card_mono) auto
  then have count: "u64_add (unreadable_sectors result) 1 = card (insert lba (bad_lbas result))"
    using d assms(4) fin by simp
  show ?thesis
  proof (cases "?rs \<noteq> [] \<and> bad_end (last ?rs) \<noteq> UINT64_MAX \<and> bad_end (last ?rs) + 1 = lba")
    case True
    define l where "l = last ?rs"
    have rs: "?rs = butlast ?rs @ [l]" using True by (simp add: l_def)
    have l: "bad_start l \<le> bad_end l" "bad_end l + 1 = lba" "first \<le> bad_start l"
      using True d by (auto simp: l_def)
    have result': "result' = result\<lparr>unreadable_ranges := butlast ?rs @ [l\<lparr>bad_end := lba\<rparr>],
        unreadable_sectors := u64_add (unreadable_sectors result) 1\<rparr>" "px' = px"
      using assms(1) True by (auto simp: append_bad_sector_def Let_def l_def)
    have "bad_lbas result = bad_lbas (result\<lparr>unreadable_ranges := butlast ?rs\<rparr>) \<union> {bad_start l..bad_end l}"
      using bad_lbas_append[where result = result and rs = "butlast ?rs" and r = l] rs by (simp add: bad_lbas_def)
    moreover have "bad_lbas result' = bad_lbas (result\<lparr>unreadable_ranges := butlast ?rs\<rparr>) \<union> {bad_start l..lba}"
      using result' by (auto simp: bad_lbas_def)
    moreover have "{bad_start l..lba} = insert lba {bad_start l..bad_end l}" using l by auto
    ultimately have lbas: "bad_lbas result' = insert lba (bad_lbas result)" by simp
    have old: "sorted_wrt (\<lambda>a b. bad_end a < bad_start b) (butlast ?rs @ [l])"
        "\<forall>r \<in> set (butlast ?rs). first \<le> bad_start r \<and> bad_start r \<le> bad_end r \<and> bad_end r < lba"
      using d rs by (metis, metis UnCI set_append)
    have "bad_inv result' first (lba + 1)"
      unfolding bad_inv_def lbas using result'(1) old l count
      by (auto simp: sorted_wrt_append less_Suc_eq)
    with lbas result' show ?thesis by auto
  next
    case False
    have alloc: "px_allocate px = (True, px')"
        "result' = result\<lparr>unreadable_ranges := ?rs @ [\<lparr>bad_start = lba, bad_end = lba\<rparr>],
           unreadable_sectors := u64_add (unreadable_sectors result) 1\<rparr>"
      using assms(1) False
      by (auto simp: append_bad_sector_def Let_def split: if_splits prod.splits bool.splits)
    have lbas: "bad_lbas result' = insert lba (bad_lbas result)" using alloc(2) by (auto simp: bad_lbas_def)
    have "bad_inv result' first (lba + 1)"
      unfolding bad_inv_def lbas using alloc(2) d count assms(3)
      by (auto simp: sorted_wrt_append less_Suc_eq)
    with lbas alloc(2) px_allocate_same[OF alloc(1)] show ?thesis by auto
  qed
qed

section \<open>The image\<close>

definition preserved_sector ::
  "gdox_preservation_map option \<Rightarrow> nat \<Rightarrow> nat set \<Rightarrow> (nat \<Rightarrow> byte) \<Rightarrow> nat \<Rightarrow> byte list" where
  "preserved_sector pmap offset bad f i =
     (if lba_is_normalized pmap (offset + i) \<or> offset + i \<in> bad then zero_sector
      else span f (i * GDOX_LOGICAL_SECTOR_BYTES) GDOX_LOGICAL_SECTOR_BYTES)"

definition preserved_span ::
  "gdox_preservation_map option \<Rightarrow> nat \<Rightarrow> nat set \<Rightarrow> (nat \<Rightarrow> byte) \<Rightarrow> nat \<Rightarrow> nat \<Rightarrow> byte list" where
  "preserved_span pmap offset bad f a b = concat (map (preserved_sector pmap offset bad f) [a..<b])"

lemma length_preserved_sector [simp]: "length (preserved_sector pmap offset bad f i) = GDOX_LOGICAL_SECTOR_BYTES"
  by (simp add: preserved_sector_def zero_sector_def)

lemma preserved_span_empty [simp]: "preserved_span pmap offset bad f a a = []"
  by (simp add: preserved_span_def)

lemma preserved_span_append:
  "a \<le> b \<Longrightarrow> b \<le> c \<Longrightarrow>
   preserved_span pmap offset bad f a b @ preserved_span pmap offset bad f b c = preserved_span pmap offset bad f a c"
  using upt_add_eq_append[of a b "c - b"] by (simp add: preserved_span_def)

lemma preserved_span_Suc:
  "a < b \<Longrightarrow> preserved_span pmap offset bad f a b =
     preserved_sector pmap offset bad f a @ preserved_span pmap offset bad f (a + 1) b"
  by (simp add: preserved_span_def upt_conv_Cons)

lemma length_preserved_span [simp]:
  "length (preserved_span pmap offset bad f a b) = (b - a) * GDOX_LOGICAL_SECTOR_BYTES"
  by (simp add: preserved_span_def length_concat comp_def sum_list_triv)

text \<open>Sectors found unreadable later do not change what was written before.\<close>

lemma preserved_span_cong:
  assumes "\<And>i. a \<le> i \<Longrightarrow> i < b \<Longrightarrow> offset + i \<in> bad \<longleftrightarrow> offset + i \<in> bad'"
  shows "preserved_span pmap offset bad f a b = preserved_span pmap offset bad' f a b"
  unfolding preserved_span_def
  by (intro arg_cong[where f = concat] map_cong refl) (auto simp: preserved_sector_def assms)

lemma preserved_span_clean:
  assumes "\<And>i. a \<le> i \<Longrightarrow> i < b \<Longrightarrow> offset + i \<notin> bad \<and> \<not> lba_is_normalized pmap (offset + i)" and "a \<le> b"
  shows "preserved_span pmap offset bad f a b = span f (a * GDOX_LOGICAL_SECTOR_BYTES) ((b - a) * GDOX_LOGICAL_SECTOR_BYTES)"
  using assms
proof (induction "b - a" arbitrary: a)
  case 0
  then show ?case by simp
next
  case (Suc k)
  then have "a < b" by simp
  have "preserved_span pmap offset bad f (a + 1) b =
      span f ((a + 1) * GDOX_LOGICAL_SECTOR_BYTES) ((b - (a + 1)) * GDOX_LOGICAL_SECTOR_BYTES)"
    using Suc by (intro Suc.hyps(1)) auto
  moreover have "preserved_sector pmap offset bad f a = span f (a * GDOX_LOGICAL_SECTOR_BYTES) GDOX_LOGICAL_SECTOR_BYTES"
    using Suc.prems(1)[of a] \<open>a < b\<close> by (simp add: preserved_sector_def)
  moreover have "(b - a) * GDOX_LOGICAL_SECTOR_BYTES = GDOX_LOGICAL_SECTOR_BYTES + (b - (a + 1)) * GDOX_LOGICAL_SECTOR_BYTES"
    using \<open>a < b\<close> by (simp add: diff_mult_distrib)
  ultimately show ?case
    using \<open>a < b\<close> by (simp add: preserved_span_Suc span_add add.commute)
qed

section \<open>Reading a block\<close>

text \<open>What reading leaves alone.\<close>

definition read_kept :: "('s, 'd) writer_state \<Rightarrow> ('s, 'd) writer_state \<Rightarrow> bool" where
  "read_kept st st' \<longleftrightarrow>
     ws_file st' = ws_file st \<and> ws_hashes st' = ws_hashes st \<and> ws_discard_partial st' = ws_discard_partial st
     \<and> px_same (ws_host st) (ws_host st')
     \<and> marks_only (ws_result st) (ws_result st')"

lemma read_kept_refl: "read_kept st st"
  by (simp add: read_kept_def)

lemma read_kept_trans: "read_kept st st1 \<Longrightarrow> read_kept st1 st2 \<Longrightarrow> read_kept st st2"
  by (auto simp: read_kept_def intro: px_same_trans marks_only_trans)

lemma read_kept_cancel: "is_cancelled st = (c, st') \<Longrightarrow> read_kept st st'"
  using read_kept_refl[of st] by (auto dest!: is_cancelled_frame simp: read_kept_def)

context sector_source
begin

text \<open>The source still shows the disc, and the sectors before \<open>offset + bound\<close> are accounted for.\<close>

definition reading :: "nat \<Rightarrow> nat \<Rightarrow> 's \<Rightarrow> ('s, 'd) writer_state \<Rightarrow> bool" where
  "reading offset bound s0 st \<longleftrightarrow>
     (\<exists>s. ws_source st = Some s \<and> view_kept ops valid contents s0 s) \<and> bad_inv (ws_result st) offset (offset + bound)"

lemma recover_sector_reads:
  assumes "recover_sector pv k st = (Inr bytes, st')" and "pv_ops pv = ops"
    and r: "reading offset k s0 st" and "valid s0"
    and off: "offset = source_lba_offset (pv_input pv)" and "offset + k + 1 < two64"
  shows "reading offset (k + 1) s0 st' \<and> read_kept st st'
     \<and> bytes = preserved_sector (pv_map pv) offset (bad_lbas (ws_result st')) (contents s0) k
     \<and> bad_lbas (ws_result st) \<subseteq> bad_lbas (ws_result st')
     \<and> bad_lbas (ws_result st') \<subseteq> insert (offset + k) (bad_lbas (ws_result st))"
proof -
  obtain s where s: "ws_source st = Some s" "view_kept ops valid contents s0 s"
    and bad: "bad_inv (ws_result st) offset (offset + k)" using r by (auto simp: reading_def)
  have valid: "valid s" "contents s = contents s0" using s(2) by (simp_all add: view_kept_def)
  have lba: "u64_add offset k = offset + k" using assms(6) by simp
  have notin: "offset + k \<notin> bad_lbas (ws_result st)" using bad_lbas_below[OF bad] by auto
  obtain st1 where c: "is_cancelled st = (False, st1)"
    using assms(1) by (auto simp: recover_sector_def Let_def split: prod.splits bool.splits)
  have st1: "read_kept st st1" "ws_source st1 = Some s" "ws_result st1 = ws_result st" "ws_host st1 = ws_host st"
    using read_kept_cancel[OF c] is_cancelled_frame[OF c] s by auto
  show ?thesis
  proof (cases "lba_is_normalized (pv_map pv) (offset + k)")
    case True
    then have "bytes = zero_sector" "st' = st1"
      using assms(1) c lba off by (auto simp: recover_sector_def Let_def)
    then show ?thesis
      using True s st1 bad_inv_mono[OF bad] by (auto simp: reading_def preserved_sector_def)
  next
    case False
    obtain x h where rd: "gdox_source_read ops (Some s) k 1 GDOX_LOGICAL_SECTOR_BYTES = (x, h)" by fastforce
    obtain s' where s': "h = Some s'" "view_kept ops valid contents s s'"
        "\<And>bs. x = Inr bs \<Longrightarrow> bs = span (contents s) (k * GDOX_LOGICAL_SECTOR_BYTES) (1 * GDOX_LOGICAL_SECTOR_BYTES)"
      using source_read_view[OF valid(1) rd] by blast
    have view: "view_kept ops valid contents s0 s'" using s(2) s'(2) by (rule view_kept_trans)
    show ?thesis
    proof (cases x)
      case (Inr bs)
      then have "bytes = bs" "st' = st1\<lparr>ws_source := h\<rparr>"
        using assms(1,2) c lba off False rd st1 by (auto simp: recover_sector_def Let_def)
      then show ?thesis
        using Inr False s' view st1 bad_inv_mono[OF bad] valid notin
        by (auto simp: reading_def preserved_sector_def read_kept_def)
    next
      case (Inl e)
      obtain result px where ap: "append_bad_sector (ws_result st) (offset + k) (ws_host st) = (Inr result, px)"
        and out: "bytes = zero_sector" "st' = st1\<lparr>ws_source := h, ws_host := px, ws_result := result\<rparr>"
        using assms(1,2) c lba off False rd st1 Inl
        by (auto simp: recover_sector_def Let_def split: if_splits prod.splits sum.splits)
      from append_bad_sector_inv[OF ap bad] assms(6)
      have new: "bad_inv result offset (offset + k + 1)" "bad_lbas result = insert (offset + k) (bad_lbas (ws_result st))"
          "px_same (ws_host st) px"
          "marks_only (ws_result st) result"
        by auto
      with out st1 view s'(1) show ?thesis
        by (auto simp: reading_def preserved_sector_def read_kept_def)
    qed
  qed
qed

lemma recover_block_reads:
  assumes "recover_block pv base [a..<b] st = (Inr bytes, st')" and "pv_ops pv = ops"
    and "reading offset (base + a) s0 st" and "valid s0" and "a \<le> b"
    and off: "offset = source_lba_offset (pv_input pv)" and "offset + base + b < two64"
  shows "reading offset (base + b) s0 st' \<and> read_kept st st'
     \<and> bytes = preserved_span (pv_map pv) offset (bad_lbas (ws_result st')) (contents s0) (base + a) (base + b)
     \<and> bad_lbas (ws_result st) \<subseteq> bad_lbas (ws_result st')
     \<and> bad_lbas (ws_result st') \<subseteq> bad_lbas (ws_result st) \<union> {offset + base + a..<offset + base + b}"
  using assms(1,3,5)
proof (induction "b - a" arbitrary: a st bytes)
  case 0
  then show ?case by (simp add: read_kept_refl)
next
  case (Suc m)
  then have ab: "a < b" by simp
  have k: "u64_add base a = base + a" using assms(7) ab by simp
  obtain sector st1 where one: "recover_sector pv (base + a) st = (Inr sector, st1)"
    using Suc.prems(1) ab k by (auto simp: upt_conv_Cons split: prod.splits sum.splits)
  obtain others where rest: "recover_block pv base [Suc a..<b] st1 = (Inr others, st')" and bytes: "bytes = sector @ others"
    using Suc.prems(1) ab k one by (auto simp: upt_conv_Cons split: prod.splits sum.splits)
  have first: "reading offset (base + a + 1) s0 st1" "read_kept st st1"
      "sector = preserved_sector (pv_map pv) offset (bad_lbas (ws_result st1)) (contents s0) (base + a)"
      "bad_lbas (ws_result st) \<subseteq> bad_lbas (ws_result st1)"
      "bad_lbas (ws_result st1) \<subseteq> insert (offset + (base + a)) (bad_lbas (ws_result st))"
    using recover_sector_reads[OF one assms(2) Suc.prems(2) assms(4) off] assms(7) ab by auto
  have IH: "reading offset (base + b) s0 st'" "read_kept st1 st'"
      "others = preserved_span (pv_map pv) offset (bad_lbas (ws_result st')) (contents s0) (base + Suc a) (base + b)"
      "bad_lbas (ws_result st1) \<subseteq> bad_lbas (ws_result st')"
      "bad_lbas (ws_result st') \<subseteq> bad_lbas (ws_result st1) \<union> {offset + base + Suc a..<offset + base + b}"
    using Suc.hyps(1)[of "Suc a", OF _ rest] Suc.hyps(2) first(1) ab by auto
  have "offset + (base + a) \<in> bad_lbas (ws_result st1) \<longleftrightarrow> offset + (base + a) \<in> bad_lbas (ws_result st')"
    using IH(4,5) by auto
  then have "sector = preserved_sector (pv_map pv) offset (bad_lbas (ws_result st')) (contents s0) (base + a)"
    using first(3) by (simp add: preserved_sector_def)
  then have "bytes = preserved_span (pv_map pv) offset (bad_lbas (ws_result st')) (contents s0) (base + a) (base + b)"
    using bytes IH(3) ab by (simp add: preserved_span_Suc[of "base + a"])
  moreover have "bad_lbas (ws_result st') \<subseteq> bad_lbas (ws_result st) \<union> {offset + base + a..<offset + base + b}"
    using first(5) IH(5) ab by fastforce
  ultimately show ?case using IH(1,2,4) first(2,4) by (blast intro: read_kept_trans)
qed

lemma read_sectors_reads:
  assumes "read_sectors pv completed blocks st = (Inr bytes, st')" and "pv_ops pv = ops"
    and r: "reading offset completed s0 st" and "valid s0"
    and off: "offset = source_lba_offset (pv_input pv)" and "offset + completed + blocks < two64"
  shows "reading offset (completed + blocks) s0 st' \<and> read_kept st st'
     \<and> bytes = preserved_span (pv_map pv) offset (bad_lbas (ws_result st')) (contents s0) completed (completed + blocks)
     \<and> bad_lbas (ws_result st) \<subseteq> bad_lbas (ws_result st')
     \<and> bad_lbas (ws_result st') \<subseteq> bad_lbas (ws_result st) \<union> {offset + completed..<offset + completed + blocks}"
proof -
  have lba: "u64_add offset completed = offset + completed" using assms(6) by simp
  have recover: ?thesis if "recover_block pv completed [0..<blocks] st1 = (Inr bytes, st')"
      "reading offset completed s0 st1" "read_kept st st1" "ws_result st1 = ws_result st" for st1
    using recover_block_reads[OF that(1) assms(2) _ assms(4) _ off] that(2-4) assms(6)
    by (auto intro: read_kept_trans)
  show ?thesis
  proof (cases "range_intersects_map (pv_map pv) (offset + completed) blocks")
    case True
    then show ?thesis using assms(1) lba off r by (intro recover[of st]) (auto simp: read_sectors_def Let_def read_kept_refl)
  next
    case False
    obtain s where s: "ws_source st = Some s" "view_kept ops valid contents s0 s"
      and bad: "bad_inv (ws_result st) offset (offset + completed)" using r by (auto simp: reading_def)
    have valid: "valid s" "contents s = contents s0" using s(2) by (simp_all add: view_kept_def)
    obtain x h where rd: "gdox_source_read ops (Some s) completed blocks (blocks * GDOX_LOGICAL_SECTOR_BYTES) = (x, h)"
      by fastforce
    obtain s' where s': "h = Some s'" "view_kept ops valid contents s s'"
        "\<And>bs. x = Inr bs \<Longrightarrow>
           bs = span (contents s) (completed * GDOX_LOGICAL_SECTOR_BYTES) (blocks * GDOX_LOGICAL_SECTOR_BYTES)"
      using source_read_view[OF valid(1) rd] by blast
    have view: "view_kept ops valid contents s0 s'" using s(2) s'(2) by (rule view_kept_trans)
    have kept: "read_kept st (st\<lparr>ws_source := h\<rparr>)" using read_kept_refl[of st] by (simp add: read_kept_def)
    show ?thesis
    proof (cases x)
      case (Inl e)
      have "reading offset completed s0 (st\<lparr>ws_source := h\<rparr>)" using s'(1) view bad by (simp add: reading_def)
      then show ?thesis
        using assms(1,2) lba off False s rd Inl kept
        by (intro recover[of "st\<lparr>ws_source := h\<rparr>"]) (auto simp: read_sectors_def Let_def)
    next
      case (Inr bs)
      have clean: "offset + i \<notin> bad_lbas (ws_result st) \<and> \<not> lba_is_normalized (pv_map pv) (offset + i)"
        if "completed \<le> i" "i < completed + blocks" for i
      proof -
        have "\<not> lba_is_normalized (pv_map pv) (u64_add (offset + completed) (i - completed))"
          using False that by (auto simp: range_intersects_map_def list_ex_iff)
        then show ?thesis using that assms(6) bad_lbas_below[OF bad] by auto
      qed
      have "bytes = bs" "st' = st\<lparr>ws_source := h\<rparr>"
        using assms(1,2) lba off False s rd Inr by (auto simp: read_sectors_def Let_def)
      moreover have "bs = preserved_span (pv_map pv) offset (bad_lbas (ws_result st)) (contents s0) completed (completed + blocks)"
        using s'(3)[OF Inr] valid preserved_span_clean[OF clean] by simp
      ultimately show ?thesis
        using kept s'(1) view bad_inv_mono[OF bad, of "offset + completed + blocks"]
        by (simp add: reading_def add.assoc)
    qed
  qed
qed

end

section \<open>Hashing what is written\<close>

definition hashed :: "'d digest_ops \<Rightarrow> 'd gdox_hash_stream \<Rightarrow> byte list \<Rightarrow> 'd gdox_hash_stream \<Rightarrow> bool" where
  "hashed digest_ops stream0 bytes stream \<longleftrightarrow>
     stream_crc32 stream = crc32_update (stream_crc32 stream0) bytes
     \<and> (incremental digest_ops \<longrightarrow>
          bytes = [] \<and> stream = stream0 \<or> gdox_hash_stream_update digest_ops stream0 bytes = (Inr (), stream))"

lemma hashed_start: "hashed digest_ops stream0 [] stream0"
  by (simp add: hashed_def)

lemma hashed_append:
  assumes "hashed digest_ops stream0 xs stream" and "gdox_hash_stream_update digest_ops stream ys = (Inr (), stream')"
  shows "hashed digest_ops stream0 (xs @ ys) stream'"
proof -
  have "stream_crc32 stream' = crc32_update (stream_crc32 stream) ys"
    using assms(2) by (auto simp: gdox_hash_stream_update_def split: if_splits prod.splits)
  moreover have "gdox_hash_stream_update digest_ops stream0 (xs @ ys) = (Inr (), stream')"
    if "incremental digest_ops"
    using assms that gdox_hash_stream_update_append[of digest_ops stream0 xs stream ys] by (auto simp: hashed_def)
  ultimately show ?thesis using assms(1) by (simp add: hashed_def crc32_update_append)
qed

text \<open>The hashes of a file's bytes: the CRC always, all of them for incremental digests.\<close>

definition hashes_of :: "'d digest_ops \<Rightarrow> byte list \<Rightarrow> gdox_hashes \<Rightarrow> bool" where
  "hashes_of digest_ops bytes h \<longleftrightarrow>
     crc32_value h = gdox_crc32_buffer bytes
     \<and> (incremental digest_ops \<longrightarrow> gdox_hash_buffer True digest_ops bytes = Inr h)"

lemma hashed_finish:
  assumes "gdox_hash_stream_create allocated digest_ops = Inr stream0" and "hashed digest_ops stream0 bytes stream"
    and "gdox_hash_stream_finish digest_ops stream = (Inr h, stream')" and "bytes \<noteq> []"
  shows "hashes_of digest_ops bytes h"
proof -
  have start: "gdox_hash_stream_create True digest_ops = Inr stream0" "stream_crc32 stream0 = 0xffffffff"
    using assms(1) by (auto simp: gdox_hash_stream_create_def split: if_splits sum.splits)
  have "crc32_value h = NOT (stream_crc32 stream)"
    using assms(3) by (auto simp: gdox_hash_stream_finish_def split: if_splits prod.splits sum.splits)
  moreover have "gdox_hash_buffer True digest_ops bytes = Inr h" if "incremental digest_ops"
    using assms(2,3,4) that start(1) by (auto simp: hashed_def gdox_hash_buffer_def)
  ultimately show ?thesis using assms(2) start(2) by (simp add: hashes_of_def hashed_def gdox_crc32_buffer_def)
qed

section \<open>Writing the image\<close>

lemma report_progress_host:
  "px_same (ws_host st) (ws_host (report_progress pv ph completed n force st))"
  using report_progress_frame[of pv ph completed n force st] by auto

lemma report_progress_simps [simp]:
  "ws_source (report_progress pv ph completed n force st) = ws_source st"
  "ws_result (report_progress pv ph completed n force st) = ws_result st"
  "ws_file (report_progress pv ph completed n force st) = ws_file st"
  "ws_hashes (report_progress pv ph completed n force st) = ws_hashes st"
  "ws_cancel (report_progress pv ph completed n force st) = ws_cancel st"
  "ws_discard_partial (report_progress pv ph completed n force st) = ws_discard_partial st"
  using report_progress_frame[of pv ph completed n force st] by auto

lemma px_written_same: "px_written i bytes px py \<Longrightarrow> px_same py pz \<Longrightarrow> px_written i bytes px pz"
  by (simp add: px_written_def px_same_def px_same_files_def)

context sector_source
begin

definition writing ::
  "('s, 'd) preservation \<Rightarrow> nat \<Rightarrow> 's \<Rightarrow> nat \<Rightarrow> posix \<Rightarrow> 'd gdox_hash_stream \<Rightarrow> nat \<Rightarrow> ('s, 'd) writer_state \<Rightarrow> bool" where
  "writing pv offset s0 ino px1 stream0 completed st \<longleftrightarrow>
     reading offset completed s0 st
     \<and> (let bytes = preserved_span (pv_map pv) offset (bad_lbas (ws_result st)) (contents s0) 0 completed
        in (\<exists>fd stream. ws_file st = Some fd \<and> fd_inode fd = ino \<and> fd_offset fd = length bytes
              \<and> ws_hashes st = Some stream \<and> hashed (pv_digests pv) stream0 bytes stream)
           \<and> px_written ino bytes px1 (ws_host st))"

lemma writing_turn:
  assumes "image_turn pv sectors completed blocks st = (Inr (), st')" and "pv_ops pv = ops" and "valid s0"
    and w: "writing pv offset s0 ino px1 stream0 completed st"
    and off: "offset = source_lba_offset (pv_input pv)" and "offset + completed + blocks < two64"
  shows "writing pv offset s0 ino px1 stream0 (completed + blocks) st' \<and> marks_only (ws_result st) (ws_result st')"
proof -
  let ?bytes = "\<lambda>st k. preserved_span (pv_map pv) offset (bad_lbas (ws_result st)) (contents s0) 0 k"
  obtain st1 where c: "is_cancelled st = (False, st1)"
    using assms(1) by (auto simp: image_turn_def split: prod.splits bool.splits)
  obtain bytes st2 where rd: "read_sectors pv completed blocks st1 = (Inr bytes, st2)"
    using assms(1) c by (auto simp: image_turn_def split: prod.splits sum.splits)
  obtain st3 where put: "put_sectors pv bytes st2 = (Inr (), st3)"
    using assms(1) c rd by (auto simp: image_turn_def split: prod.splits sum.splits)
  have st': "\<exists>n. st' = report_progress pv PRESERVATION_READING n (u64_mul sectors GDOX_LOGICAL_SECTOR_BYTES) False st3"
    using assms(1) c rd put by (auto simp: image_turn_def)
  have eq1: "ws_result st1 = ws_result st" "ws_source st1 = ws_source st" "ws_file st1 = ws_file st"
      "ws_hashes st1 = ws_hashes st" "ws_host st1 = ws_host st"
    using is_cancelled_frame[OF c] by auto
  obtain fd stream where fd: "ws_file st = Some fd" "fd_inode fd = ino" "fd_offset fd = length (?bytes st completed)"
      "ws_hashes st = Some stream" "hashed (pv_digests pv) stream0 (?bytes st completed) stream"
      "px_written ino (?bytes st completed) px1 (ws_host st)" and r: "reading offset completed s0 st"
    using w by (auto simp: writing_def Let_def)
  have "reading offset completed s0 st1" using r eq1 by (simp add: reading_def)
  note R = read_sectors_reads[OF rd assms(2) this assms(3) off assms(6)]
  have old: "?bytes st completed = ?bytes st2 completed"
    using R bad_lbas_below[of "ws_result st"] eq1 by (intro preserved_span_cong) fastforce
  have kept: "ws_file st2 = Some fd" "ws_hashes st2 = Some stream" "px_same (ws_host st) (ws_host st2)"
      "marks_only (ws_result st) (ws_result st2)"
    using R eq1 fd by (auto simp: read_kept_def)
  have data: "px_data (ws_host st2) ino = ?bytes st2 completed"
    using fd(6) kept(3) old by (simp add: px_written_def px_same_def px_same_files_def)
  obtain fd3 px3 where wr: "gdox_preservation_file_write fd bytes (ws_host st2) = (Inr (), fd3, px3)"
    using put kept by (auto simp: put_sectors_def split: prod.splits sum.splits)
  obtain stream3 where up: "gdox_hash_stream_update (pv_digests pv) stream bytes = (Inr (), stream3)"
      "st3 = st2\<lparr>ws_file := Some fd3, ws_host := px3, ws_hashes := Some stream3\<rparr>"
    using put kept wr by (auto simp: put_sectors_def split: prod.splits)
  have whole: "?bytes st2 completed @ bytes = ?bytes st2 (completed + blocks)"
    using R by (simp add: preserved_span_append)
  have wrote: "px_written ino (?bytes st2 (completed + blocks)) (ws_host st2) px3"
      "fd3 = fd\<lparr>fd_offset := fd_offset fd + length bytes\<rparr>"
    using px_file_write[OF wr] data fd(2,3) old whole by auto
  have "hashed (pv_digests pv) stream0 (?bytes st2 (completed + blocks)) stream3"
    using hashed_append[OF fd(5)[unfolded old] up(1)] whole by simp
  moreover have "px_written ino (?bytes st2 (completed + blocks)) px1 px3"
    using fd(6) kept(3) wrote(1) by (auto simp: px_written_def px_same_def px_same_files_def)
  moreover have "fd_offset fd3 = length (?bytes st2 (completed + blocks))"
    using arg_cong[OF whole, of length] wrote(2) fd(3) old by simp
  ultimately have "writing pv offset s0 ino px1 stream0 (completed + blocks) st3"
    using R up(2) fd(2) wrote(2) by (auto simp: writing_def reading_def Let_def)
  then have "writing pv offset s0 ino px1 stream0 (completed + blocks) st'"
    using st' px_written_same[OF _ report_progress_host] by (auto simp: writing_def reading_def Let_def)
  moreover have "ws_result st' = ws_result st2" using st' up(2) by auto
  ultimately show ?thesis using kept(4) by simp
qed

lemma writing_loop:
  assumes "image_loop pv sectors completed st = (Inr (), st')" and "pv_ops pv = ops" and "valid s0"
    and "writing pv offset s0 ino px1 stream0 completed st"
    and off: "offset = source_lba_offset (pv_input pv)" and "offset + sectors < two64" and "completed \<le> sectors"
  shows "writing pv offset s0 ino px1 stream0 sectors st' \<and> marks_only (ws_result st) (ws_result st')"
  using assms(1,4,7)
proof (induction "sectors - completed" arbitrary: completed st rule: less_induct)
  case less
  show ?case
  proof (cases "completed < sectors")
    case False
    then show ?thesis using less.prems by (simp add: image_loop.simps)
  next
    case True
    define blocks where "blocks = min (sectors - completed) PRESERVATION_READ_BLOCKS"
    have b: "0 < blocks" "completed + blocks \<le> sectors"
      using True by (auto simp: blocks_def PRESERVATION_READ_BLOCKS_def)
    obtain st1 where turn: "image_turn pv sectors completed blocks st = (Inr (), st1)"
        and rest: "image_loop pv sectors (completed + blocks) st1 = (Inr (), st')"
      using less.prems(1) True
      by (subst (asm) image_loop.simps) (auto simp: Let_def blocks_def split: prod.splits sum.splits)
    have step: "writing pv offset s0 ino px1 stream0 (completed + blocks) st1" "marks_only (ws_result st) (ws_result st1)"
      using writing_turn[OF turn assms(2,3) less.prems(2) off] assms(6) b by auto
    from less.hyps[OF _ rest step(1) b(2)] step(2) True b show ?thesis
      by (auto intro: marks_only_trans)
  qed
qed

end

section \<open>Reading it back\<close>

lemma verify_loop_frame:
  "verify_loop pv expected_bytes fd completed stream st = (r, st') \<Longrightarrow>
   px_same (ws_host st) (ws_host st') \<and> ws_result st' = ws_result st \<and> ws_source st' = ws_source st
   \<and> ws_file st' = ws_file st"
proof (induction pv expected_bytes fd completed stream st rule: verify_loop.induct)
  case (1 pv expected_bytes fd completed stream st)
  obtain c st1 where c: "is_cancelled st = (c, st1)" by fastforce
  have st1: "ws_host st1 = ws_host st" "ws_result st1 = ws_result st" "ws_source st1 = ws_source st"
      "ws_file st1 = ws_file st" using is_cancelled_frame[OF c] by auto
  obtain x fd' px where rd: "gdox_preservation_file_read fd PRESERVATION_VERIFY_BUFFER (ws_host st1) = (x, fd', px)"
    by (metis prod_cases3)
  have same: "px_same (ws_host st) px" using px_read_same[OF rd] st1 by simp
  show ?case
  proof (cases "\<not> c \<and> (\<exists>bytes stream'. x = Inr bytes \<and> bytes \<noteq> []
      \<and> gdox_hash_stream_update (pv_digests pv) stream bytes = (Inr (), stream'))")
    case True
    then obtain bytes stream' where x: "\<not> c" "x = Inr bytes" "bytes \<noteq> []"
        "gdox_hash_stream_update (pv_digests pv) stream bytes = (Inr (), stream')" by blast
    let ?st = "report_progress pv PRESERVATION_VERIFYING (completed + length bytes) expected_bytes False (st1\<lparr>ws_host := px\<rparr>)"
    have rest: "verify_loop pv expected_bytes fd' (completed + length bytes) stream' ?st = (r, st')"
      using "1.prems" c rd x by (subst (asm) verify_loop.simps) simp
    have "px_same (ws_host ?st) (ws_host st') \<and> ws_result st' = ws_result ?st \<and> ws_source st' = ws_source ?st
        \<and> ws_file st' = ws_file ?st"
      using "1.IH"[of c st1 x "(fd', px)" bytes fd' px "Inr ()" stream' "()"] rest c rd x by simp
    moreover have "px_same (ws_host st) (ws_host ?st)"
      using same report_progress_host[of "st1\<lparr>ws_host := px\<rparr>"] by (auto intro: px_same_trans)
    ultimately show ?thesis using st1 by (auto intro: px_same_trans)
  next
    case False
    then show ?thesis
      using "1.prems" c rd st1 same
      by (subst (asm) verify_loop.simps) (auto split: bool.splits sum.splits if_splits prod.splits)
  qed
qed

text \<open>Steps that leave files, result, source and file handle alone.\<close>

definition side_step :: "('s, 'd) writer_state \<Rightarrow> ('s, 'd) writer_state \<Rightarrow> bool" where
  "side_step st st' \<longleftrightarrow>
     px_same_files (ws_host st) (ws_host st') \<and> ws_result st' = ws_result st \<and> ws_source st' = ws_source st
     \<and> ws_file st' = ws_file st"

lemma side_step_refl [simp]: "side_step st st"
  by (simp add: side_step_def)

lemma side_step_trans: "side_step st st1 \<Longrightarrow> side_step st1 st2 \<Longrightarrow> side_step st st2"
  by (auto simp: side_step_def intro: px_same_files_trans)

lemma side_step_host:
  assumes "on_host f st = (a, st')" and "\<And>px b px'. f px = (b, px') \<Longrightarrow> px_same_files px px'"
  shows "side_step st st' \<and> f (ws_host st) = (a, ws_host st') \<and> st' = st\<lparr>ws_host := ws_host st'\<rparr>"
  using assms by (auto simp: on_host_def side_step_def split: prod.splits)

lemma on_host_frame:
  assumes "on_host f st = (a, st')"
  shows "f (ws_host st) = (a, ws_host st')" "ws_source st' = ws_source st" "ws_result st' = ws_result st"
    "ws_file st' = ws_file st" "ws_hashes st' = ws_hashes st" "ws_discard_partial st' = ws_discard_partial st"
  using assms by (auto simp: on_host_def split: prod.splits)

lemmas px_quiet = px_allocate_same[THEN px_same_imp_files] px_clock_same[THEN px_same_imp_files]
  px_exists_same[THEN px_same_imp_files] px_space_same[THEN px_same_imp_files] px_open_read_same
  px_file_close_same px_sync_close_same appended_path_same[THEN conjunct1, THEN px_same_imp_files]

lemma hash_opened_side: "hash_opened pv fd n m st = (r, st') \<Longrightarrow> side_step st st'"
proof -
  assume h: "hash_opened pv fd n m st = (r, st')"
  obtain a st1 where a: "on_host px_allocate st = (a, st1)" by fastforce
  obtain b st2 where b: "on_host px_allocate st1 = (b, st2)" by fastforce
  have s1: "side_step st st1" using side_step_host[OF a] px_quiet(1) by blast
  moreover have "side_step st1 st2" using side_step_host[OF b] px_quiet(1) by blast
  ultimately have s2: "side_step st st2" by (rule side_step_trans)
  have "side_step st st3" if "verify_loop pv m fd 0 stream st2 = (x, st3)" for stream x st3
    using s2 verify_loop_frame[OF that] by (auto simp: side_step_def px_same_def intro: px_same_files_trans)
  with h a b s1 s2 show ?thesis
    by (auto simp: hash_opened_def split: if_splits sum.splits bool.splits prod.splits)
qed

lemma hash_file_side: "hash_file pv path n st = (r, st') \<Longrightarrow> side_step st st'"
proof -
  assume h: "hash_file pv path n st = (r, st')"
  obtain a st1 where a: "on_host (gdox_preservation_file_open_read path) st = (a, st1)" by fastforce
  have s1: "side_step st st1" using side_step_host[OF a] px_quiet(5) by blast
  have close: "side_step st st3" if "side_step st st2" "on_host gdox_preservation_file_close st2 = (x, st3)" for st2 st3 x
    using that side_step_host[OF that(2)] px_quiet(6) by (blast intro: side_step_trans)
  have close': "side_step st (snd (on_host gdox_preservation_file_close st2))" if "side_step st st2" for st2
    using close[OF that, of "fst (on_host gdox_preservation_file_close st2)"] by simp
  have opened: "side_step st st2" if "hash_opened pv fd m n st1 = (x, st2)" for fd m x st2
    using s1 hash_opened_side[OF that] by (rule side_step_trans)
  show ?thesis
    using h a s1
    by (auto simp: hash_file_def intro!: close' dest: opened close split: sum.splits prod.splits)
qed

section \<open>From the partial file to the image\<close>

definition header :: "gdox_preservation_result \<Rightarrow> gdox_preservation_format \<times> u64 \<times> u64 \<times> disc_evidence" where
  "header r = (res_format r, res_bytes r, normalized_security_sectors r, evidence r)"

lemma header_simps [simp]:
  "header (r\<lparr>hashes := h\<rparr>) = header r" "header (r\<lparr>readback_verified := v\<rparr>) = header r"
  "header (r\<lparr>status := t\<rparr>) = header r" "header (r\<lparr>expected_hashes_match := m\<rparr>) = header r"
  "header (r\<lparr>manifest_path := path\<rparr>) = header r"
  by (simp_all add: header_def)

lemma marks_only_header: "marks_only r r' \<Longrightarrow> header r' = header r \<and> readback_verified r' = readback_verified r"
  by (cases r, cases r') (simp add: marks_only_def header_def)

lemma bad_simps [simp]:
  "bad_lbas (r\<lparr>hashes := h\<rparr>) = bad_lbas r" "bad_lbas (r\<lparr>readback_verified := v\<rparr>) = bad_lbas r"
  "bad_lbas (r\<lparr>status := t\<rparr>) = bad_lbas r" "bad_lbas (r\<lparr>expected_hashes_match := m\<rparr>) = bad_lbas r"
  "bad_lbas (r\<lparr>manifest_path := path\<rparr>) = bad_lbas r"
  "bad_inv (r\<lparr>hashes := h\<rparr>) = bad_inv r" "bad_inv (r\<lparr>readback_verified := v\<rparr>) = bad_inv r"
  "bad_inv (r\<lparr>status := t\<rparr>) = bad_inv r" "bad_inv (r\<lparr>expected_hashes_match := m\<rparr>) = bad_inv r"
  "bad_inv (r\<lparr>manifest_path := path\<rparr>) = bad_inv r"
  by (simp_all add: bad_lbas_def bad_inv_def fun_eq_iff)

lemma begin_preservation_frame:
  "px_same_files (ws_host st) (ws_host (begin_preservation pv ev n st))
   \<and> ws_source (begin_preservation pv ev n st) = ws_source st
   \<and> unreadable_ranges (ws_result (begin_preservation pv ev n st)) = unreadable_ranges (ws_result st)
   \<and> unreadable_sectors (ws_result (begin_preservation pv ev n st)) = unreadable_sectors (ws_result st)
   \<and> readback_verified (ws_result (begin_preservation pv ev n st)) = readback_verified (ws_result st)
   \<and> res_bytes (ws_result (begin_preservation pv ev n st)) = n"
proof -
  obtain now st1 where t: "on_host gdox_preservation_monotonic_seconds st = (now, st1)" by fastforce
  note s1 = on_host_frame[OF t]
  let ?st = "st1\<lparr>ws_started := now, ws_last_progress := 0,
      ws_result := (ws_result st1)\<lparr>res_format := req_format (pv_request pv), res_bytes := n, evidence := ev,
        normalized_security_sectors := (if pv_map pv \<noteq> None then GDOX_XGD1_NORMALIZED_SECTORS else 0)\<rparr>\<rparr>"
  have "begin_preservation pv ev n st = report_progress pv PRESERVATION_PREPARING 0 n True ?st"
    by (simp add: begin_preservation_def t)
  moreover have "px_same_files (ws_host st1) (ws_host (report_progress pv PRESERVATION_PREPARING 0 n True ?st))"
    using report_progress_host[of ?st, THEN px_same_imp_files] by simp
  ultimately show ?thesis
    using s1 px_clock_same[OF s1(1), THEN px_same_imp_files] by (auto intro: px_same_files_trans)
qed

lemma end_preservation_frame:
  "px_same_files (ws_host st) (ws_host (end_preservation pv ev n st))
   \<and> ws_source (end_preservation pv ev n st) = ws_source st \<and> ws_file (end_preservation pv ev n st) = ws_file st
   \<and> ws_result (end_preservation pv ev n st) = classify_preservation (pv_request pv) ev (pv_map pv) (ws_result st)"
  using report_progress_host[of "st\<lparr>ws_discard_partial := False,
      ws_result := classify_preservation (pv_request pv) ev (pv_map pv) (ws_result st)\<rparr>", THEN px_same_imp_files]
  by (simp add: end_preservation_def)

lemma classify_result:
  "header (classify_preservation request ev pmap r) = header r"
  "bad_lbas (classify_preservation request ev pmap r) = bad_lbas r"
  "bad_inv (classify_preservation request ev pmap r) = bad_inv r"
  "hashes (classify_preservation request ev pmap r) = hashes r"
  "readback_verified (classify_preservation request ev pmap r) = readback_verified r"
  by (simp_all add: classify_preservation_def Let_def split: option.split)

text \<open>The kernel has one file more than before, with these bytes.\<close>

definition file_added :: "string \<Rightarrow> byte list \<Rightarrow> posix \<Rightarrow> posix \<Rightarrow> bool" where
  "file_added path bytes px px' \<longleftrightarrow>
     px_names px path = None \<and> px_names px' = (px_names px)(path \<mapsto> px_fresh px)
     \<and> px_kind px' = (px_kind px)(px_fresh px := REGULAR)
     \<and> px_data px' = (px_data px)(px_fresh px := bytes) \<and> px_fresh px' = px_fresh px + 1"

lemma file_added_same_left: "px_same_files px py \<Longrightarrow> file_added path bytes py pz \<Longrightarrow> file_added path bytes px pz"
  by (simp add: file_added_def px_same_files_def)

lemma file_added_same_right: "file_added path bytes px py \<Longrightarrow> px_same_files py pz \<Longrightarrow> file_added path bytes px pz"
  by (simp add: file_added_def px_same_files_def)

lemma file_added_commit:
  assumes "file_added old bytes px py" and "gdox_preservation_path_commit old new py = (Inr (), pz)" and "px_valid px"
    and "old \<noteq> new"
  shows "has_file pz new bytes \<and> px_names pz old = None \<and> px_grown (\<lambda>p. p = new) px pz \<and> px_valid pz"
proof -
  obtain i where i: "px_names py old = Some i" "px_names py new = None"
      "px_names pz = (px_names py)(new \<mapsto> i, old := None)" "px_data pz = px_data py" "px_kind pz = px_kind py"
      "px_fresh pz = px_fresh py"
    using px_commit_ok[OF assms(2)] by auto
  have ino: "i = px_fresh px" using i(1) assms(1) by (simp add: file_added_def)
  have "px_names pz = (px_names px)(new \<mapsto> px_fresh px)"
    using i assms(1,4) ino by (auto simp: file_added_def fun_eq_iff)
  then show ?thesis
    using i assms ino by (auto simp: file_added_def has_file_def px_grown_def px_valid_def less_Suc_eq)
qed

context sector_source
begin

definition image_of :: "('s, 'd) preservation \<Rightarrow> nat \<Rightarrow> 's \<Rightarrow> nat \<Rightarrow> gdox_preservation_result \<Rightarrow> byte list" where
  "image_of pv offset s0 n r = preserved_span (pv_map pv) offset (bad_lbas r) (contents s0) 0 n"

lemma write_image_ok:
  assumes "write_image pv st = (Inr (), st')" and "pv_ops pv = ops" and "valid s0"
    and w: "writing pv offset s0 ino px1 stream0 0 st" and "gdox_hash_stream_create allocated (pv_digests pv) = Inr stream0"
    and off: "offset = source_lba_offset (pv_input pv)"
    and n: "n = output_sector_count ops (pv_input pv) (ws_source st)" "0 < n" "offset + n < two64"
  shows "reading offset n s0 st' \<and> px_written ino (image_of pv offset s0 n (ws_result st')) px1 (ws_host st')
     \<and> hashes_of (pv_digests pv) (image_of pv offset s0 n (ws_result st')) (hashes (ws_result st'))
     \<and> header (ws_result st') = header (ws_result st) \<and> readback_verified (ws_result st') = readback_verified (ws_result st)"
proof -
  obtain st1 where a: "on_host px_allocate st = (True, st1)"
    using assms(1) by (auto simp: write_image_def Let_def split: prod.splits bool.splits)
  note eq = on_host_frame[OF a]
  have same: "px_same (ws_host st) (ws_host st1)" using eq(1) by (rule px_allocate_same)
  have "writing pv offset s0 ino px1 stream0 0 st1"
    using w same px_written_same[of ino "[]" px1 "ws_host st" "ws_host st1"]
    by (auto simp: writing_def reading_def Let_def eq)
  moreover obtain st2 where loop: "image_loop pv n 0 st1 = (Inr (), st2)"
    using assms(1,2) a n(1) by (auto simp: write_image_def Let_def split: prod.splits sum.splits)
  ultimately have W: "writing pv offset s0 ino px1 stream0 n st2" "marks_only (ws_result st1) (ws_result st2)"
    using writing_loop[OF loop assms(2,3) _ off n(3)] by auto
  let ?img = "image_of pv offset s0 n (ws_result st2)"
  obtain stream where stream: "ws_hashes st2 = Some stream" "hashed (pv_digests pv) stream0 ?img stream"
    using W(1) by (auto simp: writing_def Let_def image_of_def)
  obtain h stream' where fin: "gdox_hash_stream_finish (pv_digests pv) stream = (Inr h, stream')"
      "st' = st2\<lparr>ws_hashes := Some stream', ws_result := (ws_result st2)\<lparr>hashes := h\<rparr>\<rparr>"
    using assms(1,2) a loop n(1) stream(1) by (auto simp: write_image_def Let_def split: prod.splits sum.splits)
  have "length ?img = n * GDOX_LOGICAL_SECTOR_BYTES" by (simp add: image_of_def)
  then have "?img \<noteq> []" using n(2) by force
  from hashed_finish[OF assms(5) stream(2) fin(1) this]
  have "hashes_of (pv_digests pv) ?img h" .
  then show ?thesis
    using eq(3) W marks_only_header[OF W(2)] fin(2) by (simp add: writing_def reading_def Let_def image_of_def)
qed

lemma write_and_verify_ok:
  assumes "write_and_verify_preservation pv part total_size st = (Inr (), st')" and "pv_ops pv = ops" and "valid s0"
    and start: "ws_source st = Some s0" "unreadable_ranges (ws_result st) = []" "unreadable_sectors (ws_result st) = 0"
      "\<not> readback_verified (ws_result st)"
    and off: "offset = source_lba_offset (pv_input pv)"
    and n: "n = output_sector_count ops (pv_input pv) (ws_source st)" "0 < n" "offset + n < two64"
  shows "reading offset n s0 st' \<and> file_added part (image_of pv offset s0 n (ws_result st')) (ws_host st) (ws_host st')
     \<and> hashes_of (pv_digests pv) (image_of pv offset s0 n (ws_result st')) (hashes (ws_result st'))
     \<and> header (ws_result st') = header (ws_result st)
     \<and> readback_verified (ws_result st') = verify (pv_request pv) \<and> ws_file st' = None"
proof -
  obtain fd st1 where c: "on_host (gdox_preservation_file_create part) st = (Inr fd, st1)"
    using assms(1) by (auto simp: write_and_verify_preservation_def split: prod.splits sum.splits)
  note fd = on_host_frame[OF c]
  note created = px_file_create[OF fd(1)]
  define st2 where "st2 = st1\<lparr>ws_file := Some fd, ws_discard_partial := True\<rparr>"
  obtain allocated st3 where a: "on_host px_allocate st2 = (allocated, st3)" by fastforce
  note eq = on_host_frame[OF a]
  have same: "px_same (ws_host st2) (ws_host st3)" using eq(1) by (rule px_allocate_same)
  obtain stream0 where cr: "gdox_hash_stream_create allocated (pv_digests pv) = Inr stream0"
    using assms(1) c a by (auto simp: write_and_verify_preservation_def Let_def st2_def split: prod.splits sum.splits)
  let ?st = "st3\<lparr>ws_hashes := Some stream0\<rparr>"
  obtain st4 where wi: "write_image pv ?st = (Inr (), st4)"
    using assms(1) c a cr by (auto simp: write_and_verify_preservation_def Let_def st2_def split: prod.splits sum.splits)
  have st3: "ws_source st3 = Some s0" "ws_result st3 = ws_result st" "ws_file st3 = Some fd"
    using eq fd start(1) by (simp_all add: st2_def)
  have "bad_inv (ws_result st) offset offset" "bad_lbas (ws_result st) = {}"
    using start by (auto simp: bad_inv_def bad_lbas_def)
  moreover have "px_written (px_fresh (ws_host st)) [] (ws_host st1) (ws_host st3)"
    using created same by (auto simp: px_written_def px_same_def px_same_files_def st2_def)
  ultimately have "writing pv offset s0 (px_fresh (ws_host st)) (ws_host st1) stream0 0 ?st"
    using st3 created assms(3) by (auto simp: writing_def reading_def view_kept_refl hashed_start)
  from write_image_ok[OF wi assms(2,3) this cr off _ n(2,3)]
  have W: "reading offset n s0 st4"
      "px_written (px_fresh (ws_host st)) (image_of pv offset s0 n (ws_result st4)) (ws_host st1) (ws_host st4)"
      "hashes_of (pv_digests pv) (image_of pv offset s0 n (ws_result st4)) (hashes (ws_result st4))"
      "header (ws_result st4) = header (ws_result st)" "\<not> readback_verified (ws_result st4)"
    using n(1) st3 start by auto
  have added: "file_added part (image_of pv offset s0 n (ws_result st4)) (ws_host st) (ws_host st4)"
    using W(2) created by (auto simp: file_added_def px_written_def)
  define st5 where "st5 = st4\<lparr>ws_hashes := None\<rparr>"
  obtain st6 where sy: "on_host gdox_preservation_file_sync_close st5 = (Inr (), st6)"
    using assms(1) c a cr wi
    by (auto simp: write_and_verify_preservation_def Let_def st2_def st5_def split: prod.splits sum.splits)
  have s6: "side_step st5 st6" using side_step_host[OF sy] px_quiet(7) by blast
  define st7 where "st7 = st6\<lparr>ws_file := None\<rparr>"
  have s7: "ws_result st7 = ws_result st4" "ws_source st7 = ws_source st4"
      "px_same_files (ws_host st4) (ws_host st7)" "ws_file st7 = None"
    using s6 by (auto simp: side_step_def st5_def st7_def)
  have finish: ?thesis if "side_step st7 st8" "st' = st8 \<or> (\<exists>v. st' = st8\<lparr>ws_result := (ws_result st8)\<lparr>readback_verified := v\<rparr>\<rparr>)"
      "readback_verified (ws_result st') = verify (pv_request pv)" for st8
  proof -
    have "px_same_files (ws_host st4) (ws_host st8)"
      using that(1) s7(3) by (auto simp: side_step_def intro: px_same_files_trans)
    with added have "file_added part (image_of pv offset s0 n (ws_result st4)) (ws_host st) (ws_host st8)"
      by (rule file_added_same_right)
    then show ?thesis
      using that s7 W by (auto simp: side_step_def reading_def image_of_def)
  qed
  show ?thesis
  proof (cases "verify (pv_request pv)")
    case False
    then have "st' = st7"
      using assms(1) c a cr wi sy
      by (simp add: write_and_verify_preservation_def Let_def st2_def[symmetric] st5_def[symmetric] st7_def)
    then show ?thesis using finish[of st7] False W(5) s7 by simp
  next
    case True
    obtain now st8 where cl: "on_host gdox_preservation_monotonic_seconds st7 = (now, st8)" by fastforce
    have s8: "side_step st7 st8" using side_step_host[OF cl] px_quiet(2) by blast
    obtain h st9 where hf: "hash_file pv part total_size (st8\<lparr>ws_started := now, ws_last_progress := 0\<rparr>) = (Inr h, st9)"
        and st': "st' = st9\<lparr>ws_result := (ws_result st9)\<lparr>readback_verified := True\<rparr>\<rparr>"
      using assms(1) c a cr wi sy True cl
      by (auto simp: write_and_verify_preservation_def Let_def st2_def[symmetric] st5_def[symmetric] st7_def[symmetric]
          split: prod.splits sum.splits if_splits)
    have "side_step st7 st9"
      using s8 hash_file_side[OF hf] by (auto simp: side_step_def intro: px_same_files_trans)
    then show ?thesis
    proof (rule finish)
      show "st' = st9 \<or> (\<exists>v. st' = st9\<lparr>ws_result := (ws_result st9)\<lparr>readback_verified := v\<rparr>\<rparr>)" using st' by blast
      show "readback_verified (ws_result st') = verify (pv_request pv)" using st' True by simp
    qed
  qed
qed

lemma preserve_stages_ok:
  assumes "preserve_stages pv part ev st = (Inr (), st')" and "pv_ops pv = ops" and "valid s0"
    and start: "ws_source st = Some s0" "ws_result st = empty_result" "px_valid (ws_host st)"
    and part: "part = output_path (pv_request pv) @ ''.part''"
    and off: "offset = source_lba_offset (pv_input pv)"
    and n: "n = output_sector_count ops (pv_input pv) (ws_source st)" "0 < n" "offset + n < two64"
  shows "reading offset n s0 st' \<and> hashes_of (pv_digests pv) (image_of pv offset s0 n (ws_result st')) (hashes (ws_result st'))
     \<and> has_file (ws_host st') (output_path (pv_request pv)) (image_of pv offset s0 n (ws_result st'))
     \<and> px_names (ws_host st') part = None
     \<and> px_grown (\<lambda>p. \<exists>x. x \<noteq> ''.part'' \<and> p = output_path (pv_request pv) @ x) (ws_host st) (ws_host st')
     \<and> res_bytes (ws_result st') = u64_mul n GDOX_LOGICAL_SECTOR_BYTES
     \<and> readback_verified (ws_result st') = verify (pv_request pv) \<and> ws_file st' = None
     \<and> (\<exists>created. \<forall>(suffix, bytes) \<in> set (bundle_files (pv_request pv) (pv_input pv) (pv_map pv) (ws_result st') created).
          has_file (ws_host st') (output_path (pv_request pv) @ suffix) bytes)"
proof -
  let ?request = "pv_request pv" and ?out = "output_path (pv_request pv)"
  define total where "total = u64_mul n GDOX_LOGICAL_SECTOR_BYTES"
  have total: "u64_mul (output_sector_count (pv_ops pv) (pv_input pv) (ws_source st)) GDOX_LOGICAL_SECTOR_BYTES = total"
    using assms(2) n(1) by (simp add: total_def)
  obtain st1 where e: "on_host (gdox_preservation_path_exists part) st = (False, st1)"
    using assms(1) by (auto simp: preserve_stages_def Let_def split: prod.splits bool.splits)
  note s1 = on_host_frame[OF e]
  define st3 where "st3 = begin_preservation pv ev total st1"
  have B: "px_same_files (ws_host st1) (ws_host st3)" "ws_source st3 = ws_source st1"
      "unreadable_ranges (ws_result st3) = unreadable_ranges (ws_result st1)"
      "unreadable_sectors (ws_result st3) = unreadable_sectors (ws_result st1)"
      "readback_verified (ws_result st3) = readback_verified (ws_result st1)" "res_bytes (ws_result st3) = total"
    using begin_preservation_frame[of st1 pv ev total] by (simp_all add: st3_def)
  have same: "px_same_files (ws_host st) (ws_host st3)"
    using px_exists_same[OF s1(1), THEN px_same_imp_files] B(1) by (rule px_same_files_trans)
  have st3: "ws_source st3 = Some s0" "unreadable_ranges (ws_result st3) = []" "unreadable_sectors (ws_result st3) = 0"
      "\<not> readback_verified (ws_result st3)"
    using s1 B start by (simp_all add: empty_result_def)
  obtain st4 where wv: "write_and_verify_preservation pv part total st3 = (Inr (), st4)"
    using assms(1) e unfolding preserve_stages_def Let_def total st3_def
    by (auto split: prod.splits sum.splits)
  have W: "reading offset n s0 st4" "file_added part (image_of pv offset s0 n (ws_result st4)) (ws_host st3) (ws_host st4)"
      "hashes_of (pv_digests pv) (image_of pv offset s0 n (ws_result st4)) (hashes (ws_result st4))"
      "header (ws_result st4) = header (ws_result st3)" "readback_verified (ws_result st4) = verify ?request"
      "ws_file st4 = None"
    using write_and_verify_ok[OF wv assms(2,3) st3(1-4) off _ n(2,3)] n(1) st3(1) start(1) by auto
  define st5 where "st5 = end_preservation pv ev total st4"
  obtain st6 where co: "on_host (gdox_preservation_path_commit part ?out) st5 = (Inr (), st6)"
    using assms(1) e wv unfolding preserve_stages_def Let_def total st3_def st5_def
    by (auto split: prod.splits sum.splits)
  note s6 = on_host_frame[OF co]
  obtain result px where b: "gdox_preservation_write_bundle ?request (pv_input pv) (pv_map pv) (ws_result st6) (ws_host st6)
        = (Inr (), result, px)" and st': "st' = st6\<lparr>ws_result := result, ws_host := px\<rparr>"
    using assms(1) e wv co unfolding preserve_stages_def Let_def total st3_def st5_def
    by (auto split: prod.splits)
  let ?img = "image_of pv offset s0 n (ws_result st4)"
  have E: "px_same_files (ws_host st4) (ws_host st5)" "ws_source st5 = ws_source st4" "ws_file st5 = ws_file st4"
      "ws_result st5 = classify_preservation ?request ev (pv_map pv) (ws_result st4)"
    using end_preservation_frame[of st4 pv ev total] by (simp_all add: st5_def)
  have "file_added part ?img (ws_host st) (ws_host st5)"
    using E(1) W(2) same by (blast intro: file_added_same_left file_added_same_right)
  from file_added_commit[OF this s6(1) start(3)] part
  have C: "has_file (ws_host st6) ?out ?img" "px_names (ws_host st6) part = None"
      "px_grown (\<lambda>p. p = ?out) (ws_host st) (ws_host st6)" "px_valid (ws_host st6)"
    by auto
  from write_bundle_grown[OF b C(4)] obtain path
    where G: "px_grown (\<lambda>p. \<exists>x. x \<noteq> [] \<and> x \<noteq> ''.part'' \<and> p = ?out @ x) (ws_host st6) px"
      and result: "result = (ws_result st6)\<lparr>manifest_path := path\<rparr>" by blast
  have sides: "px_names px part = None"
    using conjunct2[OF conjunct2[OF G[unfolded px_grown_def]], rule_format, of part] C(2) part by auto
  have grown: "px_grown (\<lambda>p. \<exists>x. x \<noteq> ''.part'' \<and> p = ?out @ x) (ws_host st) px"
  proof (rule px_grown_trans[OF _ _ start(3)])
    show "px_grown (\<lambda>p. \<exists>x. x \<noteq> ''.part'' \<and> p = ?out @ x) (ws_host st) (ws_host st6)"
      using C(3) by (rule px_grown_mono) (simp add: exI[of _ "[]"])
    show "px_grown (\<lambda>p. \<exists>x. x \<noteq> ''.part'' \<and> p = ?out @ x) (ws_host st6) px"
      using G by (rule px_grown_mono) blast
  qed
  have res: "ws_result st6 = classify_preservation ?request ev (pv_map pv) (ws_result st4)"
      "ws_source st6 = ws_source st4" "ws_file st6 = None"
    using s6 W(6) E by simp_all
  have files: "bundle_files ?request (pv_input pv) (pv_map pv) result = bundle_files ?request (pv_input pv) (pv_map pv) (ws_result st6)"
    by (simp add: result fun_eq_iff bundle_files_def manifest_pieces_def log_pieces_def)
  have "\<forall>(suffix, bytes) \<in> set (bundle_files ?request (pv_input pv) (pv_map pv) result (px_unix_time (ws_host st6))).
      has_file px (?out @ suffix) bytes"
    using write_bundle_ok[OF b C(4)] files by auto
  then have listed: "\<exists>created. \<forall>(suffix, bytes) \<in> set (bundle_files ?request (pv_input pv) (pv_map pv) result created).
      has_file px (?out @ suffix) bytes" by blast
  have "res_bytes (ws_result st6) = total"
    using classify_result(1)[of ?request ev "pv_map pv" "ws_result st4"] W(4) B(6) res(1) by (simp add: header_def)
  then show ?thesis
    using W sides grown C(1) has_file_grown[OF G C(1)] res result st' listed
    by (auto simp: reading_def image_of_def classify_result total_def)
qed

end

text \<open>A request that is accepted.\<close>

lemma sidecars_available_same:
  "suffixes_available out suffixes px = (r, px') \<Longrightarrow> px_same_files px px'"
proof (induction suffixes arbitrary: px)
  case (Cons suffix suffixes)
  obtain q p1 where q: "suffix_available out suffix px = (q, p1)" by fastforce
  obtain x p0 where x: "appended_path out suffix px = (x, p0)" by fastforce
  have "px_same_files px p1"
    using q x px_quiet(8)[OF x]
    by (auto simp: suffix_available_def dest!: px_exists_same px_same_imp_files intro: px_same_files_trans
        split: option.splits prod.splits if_splits)
  then show ?case
    using Cons q by (auto split: sum.splits intro: px_same_files_trans)
qed simp

lemma validate_request_ok:
  assumes "validate_request pv ev st = (Inr (), st')"
  shows "output_path (pv_request pv) \<noteq> []" "side_step st st'"
    and "0 < output_sector_count (pv_ops pv) (pv_input pv) (ws_source st)"
    and "output_sector_count (pv_ops pv) (pv_input pv) (ws_source st) \<le> gdox_source_sector_count (pv_ops pv) (ws_source st)"
    and "output_sector_count (pv_ops pv) (pv_input pv) (ws_source st) \<le> UINT64_MAX div GDOX_LOGICAL_SECTOR_BYTES"
proof -
  let ?out = "output_path (pv_request pv)"
  obtain st1 where e: "on_host (gdox_preservation_path_exists ?out) st = (False, st1)"
    using assms by (auto simp: validate_request_def Let_def split: if_splits prod.splits bool.splits)
  obtain st2 where a: "on_host (gdox_preservation_sidecars_available (pv_request pv) ev (pv_map pv \<noteq> None)) st1 = (Inr (), st2)"
    using assms e by (auto simp: validate_request_def Let_def split: if_splits prod.splits sum.splits)
  obtain free where s: "on_host (gdox_preservation_available_space ?out) st2 = (Inr free, st')"
    using assms e a by (auto simp: validate_request_def Let_def split: if_splits prod.splits sum.splits)
  have "side_step st st1" using side_step_host[OF e] px_quiet(3) by blast
  moreover have "side_step st1 st2"
    using side_step_host[OF a] sidecars_available_same by (auto simp: gdox_preservation_sidecars_available_def)
  moreover have "side_step st2 st'" using side_step_host[OF s] px_quiet(4) by blast
  ultimately show "side_step st st'" by (blast intro: side_step_trans)
  show "?out \<noteq> []" "0 < output_sector_count (pv_ops pv) (pv_input pv) (ws_source st)"
      "output_sector_count (pv_ops pv) (pv_input pv) (ws_source st) \<le> gdox_source_sector_count (pv_ops pv) (ws_source st)"
      "output_sector_count (pv_ops pv) (pv_input pv) (ws_source st) \<le> UINT64_MAX div GDOX_LOGICAL_SECTOR_BYTES"
    using assms by (auto simp: validate_request_def Let_def split: if_splits)
qed

section \<open>Properties\<close>


text \<open>A disc of four sectors preserved on a kernel without failures.\<close>

definition sample_digests :: "unit digest_ops" where
  "sample_digests =
     \<lparr>digest_create = Inr (), digest_update = (\<lambda>d bytes. (Inr (), d)),
      digest_finish = (\<lambda>d. (Inr \<lparr>md5 = replicate 16 0, sha1 = replicate 20 0, sha256 = replicate 32 0\<rparr>, d))\<rparr>"

definition sample_posix :: posix where
  "sample_posix =
     \<lparr>px_names = Map.empty, px_kind = (\<lambda>_. REGULAR), px_data = (\<lambda>_. []), px_fresh = 0, px_descriptors = 0,
      px_errno = [], px_space = (\<lambda>_. (1000000, 4096)), px_answers = [], px_allocations = [], px_clock = [],
      px_unix_time = 0\<rparr>"

definition sample_request :: gdox_preservation_request where
  "sample_request =
     \<lparr>req_format = PRESERVATION_XISO_COMPACT, output_path = ''disc.xiso'', verify = False, keep_partial = False,
      security_map = None\<rparr>"

definition sample_input :: gdox_preservation_input where
  "sample_input =
     \<lparr>source_lba_offset = 0, in_title = Some ''Disc'', in_title_id = None, source_description = None,
      media_patches = 0, output_sectors = 0, filesystem_inventory_verified = True\<rparr>"

definition sample_preservation :: "(file_context, unit) preservation" where
  "sample_preservation =
     \<lparr>pv_ops = file_ops, pv_digests = sample_digests, pv_request = sample_request, pv_input = sample_input,
      pv_map = None, pv_reporting = False\<rparr>"

text \<open>Operations of a kernel whose script is empty.\<close>

definition easy :: "posix \<Rightarrow> bool" where
  "easy px \<longleftrightarrow> px_answers px = [] \<and> px_allocations px = [] \<and> px_clock px = []"

lemma easy_calls:
  "easy px \<Longrightarrow> px_sys px = (SYS_OK, px)" "easy px \<Longrightarrow> px_call px = (True, px)" "easy px \<Longrightarrow> px_allocate px = (True, px)"
  "easy px \<Longrightarrow> gdox_preservation_monotonic_seconds px = (0, px)"
  by (simp_all add: easy_def px_sys_def px_call_def px_allocate_def gdox_preservation_monotonic_seconds_def)

lemma range_intersects_none: "range_intersects_map None lba blocks = False"
  by (induction blocks) (simp_all add: range_intersects_map_def lba_is_normalized_def)

lemma easy_write:
  "easy px \<Longrightarrow> gdox_preservation_file_write fd bytes px =
     (if bytes = [] then (Inr (), fd, px) else case px_put fd bytes px of (fd', px') \<Rightarrow> (Inr (), fd', px'))"
  by (simp add: gdox_preservation_file_write.simps easy_calls)

lemma easy_updates [simp]:
  "easy (px\<lparr>px_names := f\<rparr>) = easy px" "easy (px\<lparr>px_data := g\<rparr>) = easy px" "easy (px\<lparr>px_kind := k\<rparr>) = easy px"
  "easy (px\<lparr>px_fresh := n\<rparr>) = easy px" "easy (px\<lparr>px_descriptors := m\<rparr>) = easy px" "easy (px\<lparr>px_errno := e\<rparr>) = easy px"
  by (simp_all add: easy_def)

lemma text_appends_easy:
  assumes "easy px" and "length (tb_text tb) + length (concat pieces) < SIZE_MAX"
  shows "\<exists>tb'. text_appends tb pieces px = (True, tb', px) \<and> tb_text tb' = tb_text tb @ concat pieces"
  using assms(2)
proof (induction pieces arbitrary: tb)
  case (Cons piece pieces)
  have room: "\<not> length piece > u64_sub (u64_sub SIZE_MAX (length (tb_text tb))) 1"
    using Cons.prems by (simp add: SIZE_MAX_def)
  then obtain tb1 where r: "text_reserve tb (length piece) px = (True, tb1, px)" "tb_text tb1 = tb_text tb"
    using assms(1)
    by (cases "Suc (length (tb_text tb) + length piece) \<le> tb_capacity tb") (auto simp: text_reserve_def Let_def easy_calls)
  then have "text_append tb piece px = (True, tb1\<lparr>tb_text := tb_text tb @ piece\<rparr>, px)"
    by (simp add: text_append_def)
  moreover obtain tb' where "text_appends (tb1\<lparr>tb_text := tb_text tb @ piece\<rparr>) pieces px = (True, tb', px)"
      "tb_text tb' = (tb_text tb @ piece) @ concat pieces"
    using Cons.IH[of "tb1\<lparr>tb_text := tb_text tb @ piece\<rparr>"] Cons.prems by auto
  ultimately show ?case by simp
qed simp

lemma write_new_easy:
  assumes "easy px" and "px_names px path = None" and "path \<noteq> []"
  shows "\<exists>px'. write_new path bytes px = (Inr (), px') \<and> easy px'
     \<and> (\<forall>p. p \<noteq> path \<longrightarrow> px_names px' p = px_names px p)"
  using assms
  by (auto simp: write_new_def gdox_preservation_file_create_def px_open_new_def easy_calls allocate_file_def
      Let_def easy_write px_put_def gdox_preservation_file_sync_close_def px_close_def)

lemma write_suffix_easy:
  assumes "easy px" and "px_names px (out @ suffix) = None" and "suffix \<noteq> []" and "length out + length suffix < SIZE_MAX"
  shows "\<exists>px'. write_suffix out suffix bytes px = (Inr (), px') \<and> easy px'
     \<and> (\<forall>p. p \<noteq> out @ suffix \<longrightarrow> px_names px' p = px_names px p)"
proof -
  have "appended_path out suffix px = (Some (out @ suffix), px)"
    using assms(1,4) by (simp add: appended_path_def easy_calls SIZE_MAX_def)
  then show ?thesis using write_new_easy[of px "out @ suffix" bytes] assms by (simp add: write_suffix_def)
qed

lemma write_text_easy:
  assumes "easy px" and "px_names px (out @ suffix) = None" and "suffix \<noteq> []" and "length out + length suffix < SIZE_MAX"
    and "length (concat pieces) < SIZE_MAX"
  shows "\<exists>px'. write_text failure pieces out suffix px = (Inr (), px') \<and> easy px'
     \<and> (\<forall>p. p \<noteq> out @ suffix \<longrightarrow> px_names px' p = px_names px p)"
proof -
  obtain tb where "text_appends empty_text pieces px = (True, tb, px)"
    using text_appends_easy[of px empty_text pieces] assms(1,5) by (auto simp: empty_text_def)
  then show ?thesis using write_suffix_easy[OF assms(1-4)] by (simp add: write_text_def)
qed

lemma length_decimal: "length (decimal n) \<le> n + 1"
proof (induction n rule: decimal.induct)
  case (1 n)
  show ?case
  proof (cases "n < 10")
    case True
    then show ?thesis by (simp add: decimal.simps)
  next
    case False
    then have "length (decimal (n div 10)) \<le> n div 10 + 1" using 1 by simp
    moreover have "n div 10 + 2 \<le> n + 1" using False by linarith
    moreover have "length (decimal n) = length (decimal (n div 10)) + 1" using False by (subst decimal.simps) simp
    ultimately show ?thesis by linarith
  qed
qed

lemma length_text_json_byte: "length (text_json_byte c) \<le> 6"
  by (simp add: text_json_byte_def hex16_def)

lemma length_hex32 [simp]: "length (hex32 v) = 8"
  by (simp add: hex32_def)

lemma sample_write:
  assumes "ws_source st = Some sample_file" and "easy (ws_host st)" and "px_names (ws_host st) part = None"
    and "part \<noteq> []" and "ws_cancel st = []"
  shows "\<exists>st'. write_and_verify_preservation sample_preservation part total_size st = (Inr (), st')
     \<and> easy (ws_host st') \<and> px_names (ws_host st') = (px_names (ws_host st))(part \<mapsto> px_fresh (ws_host st))
     \<and> px_kind (ws_host st') (px_fresh (ws_host st)) = REGULAR
     \<and> (\<exists>h. ws_result st' = (ws_result st)\<lparr>hashes := h\<rparr> \<and> length (md5 h) = 16 \<and> length (sha1 h) = 20
           \<and> length (sha256 h) = 32)
     \<and> ws_file st' = None \<and> px_unix_time (ws_host st') = px_unix_time (ws_host st)"
proof -
  obtain bytes s' where rd: "gdox_source_read file_ops (Some sample_file) 0 4 8192 = (Inr bytes, Some s')"
      "length bytes = 8192"
    using file_source.source_read_ready[of sample_file 4 0] by auto
  have bytes: "bytes \<noteq> []" using rd(2) by auto
  show ?thesis
    using assms bytes
    by (simp add: write_and_verify_preservation_def on_host_def gdox_preservation_file_create_def px_open_new_def
        easy_calls Let_def allocate_file_def gdox_hash_stream_create_def sample_preservation_def sample_digests_def
        write_image_def output_sector_count_def sample_input_def gdox_source_sector_count_def image_loop.simps
        PRESERVATION_READ_BLOCKS_def image_turn_def is_cancelled_def read_sectors_def range_intersects_none
        rd put_sectors_def easy_write px_put_def gdox_hash_stream_update_def
        report_progress_def gdox_hash_stream_finish_def
        gdox_preservation_file_sync_close_def px_close_def sample_request_def)
      (rule exI, rule conjI, rule refl, simp)
qed

definition sample_result :: "gdox_hashes \<Rightarrow> gdox_preservation_result" where
  "sample_result h = empty_result\<lparr>res_bytes := 8192, hashes := h\<rparr>"

lemma sample_texts:
  assumes "length (md5 h) = 16" and "length (sha1 h) = 20" and "length (sha256 h) = 32"
  shows "length (concat (manifest_pieces sample_request sample_input None (sample_result h) 0)) < SIZE_MAX"
    and "length (concat (log_pieces sample_request None (sample_result h))) < SIZE_MAX"
  using assms length_decimal[of 8192] length_decimal[of 2048] length_decimal[of 4] length_decimal[of 0]
  by (simp_all add: manifest_pieces_def log_pieces_def Let_def sample_request_def sample_input_def sample_result_def
      empty_result_def gdox_disc_evidence_clear_def text_json_string_def text_json_byte_def signed_decimal_def
      append_optional_title_id_def append_optional_hash_match_def json_boolean_def append_ranges_def base_name_def
      last_index_def format_slug_def status_slug_def status_label_def GDOX_VERSION_def SIZE_MAX_def)

lemma sample_bundle:
  assumes "easy px" and names: "\<And>x. x \<noteq> [] \<Longrightarrow> px_names px (''disc.xiso'' @ x) = None" and "px_unix_time px = 0"
    and h: "length (md5 h) = 16" "length (sha1 h) = 20" "length (sha256 h) = 32"
  shows "\<exists>r px'. gdox_preservation_write_bundle sample_request sample_input None (sample_result h) px = (Inr (), r, px')"
proof -
  let ?out = "''disc.xiso''"
  have out: "output_path sample_request = ?out" by (simp add: sample_request_def)
  have path: "appended_path ?out ''.gdox.json'' px = (Some (?out @ ''.gdox.json''), px)"
    using assms(1) by (simp add: appended_path_def easy_calls SIZE_MAX_def)
  obtain tb where manifest: "build_manifest sample_request sample_input None (sample_result h) px = (True, tb, px)"
    using text_appends_easy[of px empty_text] assms(1,3) sample_texts(1)[OF h]
    by (auto simp: build_manifest_def empty_text_def)
  obtain p1 where p1: "write_new (?out @ ''.gdox.json'') (ascii (tb_text tb)) px = (Inr (), p1)" "easy p1"
      "\<And>p. p \<noteq> ?out @ ''.gdox.json'' \<Longrightarrow> px_names p1 p = px_names px p"
    using write_new_easy[OF assms(1), of "?out @ ''.gdox.json''"] names[of "''.gdox.json''"] by auto
  let ?r = "sample_result h\<lparr>manifest_path := take (GDOX_PRESERVATION_PATH_CAPACITY - 1) (?out @ ''.gdox.json'')\<rparr>"
  have short: "length (concat (checksum_pieces ?out (gdox_hash_hex bs False))) < SIZE_MAX"
      "length (concat (checksum_pieces ?out (hex32 v))) < SIZE_MAX" if "length bs \<le> 32" for bs v
    using that by (simp_all add: checksum_pieces_def base_name_def last_index_def SIZE_MAX_def)
  note easy_text = write_text_easy[where out = ?out, unfolded append.simps]
  obtain p2 where p2: "write_checksum ?out ''.crc32'' (hex32 (crc32_value h)) p1 = (Inr (), p2)" "easy p2"
      "\<And>p. p \<noteq> ''disc.xiso.crc32'' \<Longrightarrow> px_names p2 p = px_names p1 p"
    using easy_text[of p1 "''.crc32''" "checksum_pieces ?out (hex32 (crc32_value h))" "''could not build checksum sidecar''"] p1(2,3) names[of "''.crc32''"] short(2)[of "[]"]
    by (auto simp: text_writers SIZE_MAX_def)
  obtain p3 where p3: "write_checksum ?out ''.md5'' (gdox_hash_hex (md5 h) False) p2 = (Inr (), p3)" "easy p3"
      "\<And>p. p \<noteq> ''disc.xiso.md5'' \<Longrightarrow> px_names p3 p = px_names p2 p"
    using easy_text[of p2 "''.md5''" "checksum_pieces ?out (gdox_hash_hex (md5 h) False)" "''could not build checksum sidecar''"] p1(3) p2(2,3) names[of "''.md5''"]
      short(1)[of "md5 h"] h
    by (auto simp: text_writers SIZE_MAX_def)
  obtain p4 where p4: "write_checksum ?out ''.sha1'' (gdox_hash_hex (sha1 h) False) p3 = (Inr (), p4)" "easy p4"
      "\<And>p. p \<noteq> ''disc.xiso.sha1'' \<Longrightarrow> px_names p4 p = px_names p3 p"
    using easy_text[of p3 "''.sha1''" "checksum_pieces ?out (gdox_hash_hex (sha1 h) False)" "''could not build checksum sidecar''"] p1(3) p2(3) p3(2,3)
      names[of "''.sha1''"] short(1)[of "sha1 h"] h
    by (auto simp: text_writers SIZE_MAX_def)
  obtain p5 where p5: "write_checksum ?out ''.sha256'' (gdox_hash_hex (sha256 h) False) p4 = (Inr (), p5)" "easy p5"
      "\<And>p. p \<noteq> ''disc.xiso.sha256'' \<Longrightarrow> px_names p5 p = px_names p4 p"
    using easy_text[of p4 "''.sha256''" "checksum_pieces ?out (gdox_hash_hex (sha256 h) False)" "''could not build checksum sidecar''"] p1(3) p2(3) p3(3) p4(2,3)
      names[of "''.sha256''"] short(1)[of "sha256 h"] h
    by (auto simp: text_writers SIZE_MAX_def)
  have pieces: "log_pieces sample_request None (sample_result h\<lparr>manifest_path := name\<rparr>)
      = log_pieces sample_request None (sample_result h)" for name
    by (simp add: log_pieces_def)
  obtain p6 where p6: "write_log sample_request None ?r p5 = (Inr (), p6)"
    using easy_text[of p5 "''.log''" "log_pieces sample_request None (sample_result h)" "''could not build preservation log''"] p1(3) p2(3) p3(3) p4(3) p5(2,3)
      names[of "''.log''"] sample_texts(2)[OF h]
    by (auto simp: text_writers pieces SIZE_MAX_def out)
  have writes: "sidecar_writes sample_request None ?r =
      [write_checksum ?out ''.crc32'' (hex32 (crc32_value h)), write_checksum ?out ''.md5'' (gdox_hash_hex (md5 h) False),
       write_checksum ?out ''.sha1'' (gdox_hash_hex (sha1 h) False),
       write_checksum ?out ''.sha256'' (gdox_hash_hex (sha256 h) False), write_log sample_request None ?r]"
    by (simp add: sidecar_writes_def Let_def sample_request_def sample_result_def empty_result_def gdox_disc_evidence_clear_def)
  have "write_each (sidecar_writes sample_request None ?r) p1 = (Inr (), p6)"
    unfolding writes using p2(1) p3(1) p4(1) p5(1) p6 by simp
  then show ?thesis
    using path manifest p1(1) by (simp add: gdox_preservation_write_bundle_def out Let_def)
qed

lemma sample_preservation_simps [simp]:
  "pv_ops sample_preservation = file_ops" "pv_digests sample_preservation = sample_digests"
  "pv_request sample_preservation = sample_request" "pv_input sample_preservation = sample_input"
  "pv_map sample_preservation = None" "output_path sample_request = ''disc.xiso''"
  "req_format sample_request = PRESERVATION_XISO_COMPACT"
  "output_sector_count file_ops sample_input (Some sample_file) = 4"
  by (simp_all add: sample_preservation_def sample_request_def sample_input_def output_sector_count_def
      gdox_source_sector_count_def)

lemma on_host_at: "ws_host st = px \<Longrightarrow> f px = (a, px) \<Longrightarrow> on_host f st = (a, st)"
  by (simp add: on_host_def)

lemma sample_run:
  "\<exists>st. gdox_preservation_run file_ops sample_digests sample_request sample_input False [] (Some sample_file) sample_posix
     = (Inr (), st)"
proof -
  let ?ev = "gdox_disc_evidence_clear" and ?part = "''disc.xiso.part''"
  define st0 where "st0 = \<lparr>ws_source = Some sample_file, ws_host = sample_posix, ws_result = empty_result,
      ws_hashes = (None :: unit gdox_hash_stream option), ws_file = None, ws_discard_partial = False, ws_started = 0,
      ws_last_progress = 0, ws_cancel = [], ws_reports = []\<rparr>"
  have source0: "ws_source st0 = Some sample_file" by (simp add: st0_def)
  have easy: "easy sample_posix" by (simp add: easy_def sample_posix_def)
  have host0: "ws_host st0 = sample_posix" by (simp add: st0_def)
  note host = on_host_at[OF host0]
  have free: "gdox_preservation_path_exists path sample_posix = (False, sample_posix)" for path
    using easy by (simp add: gdox_preservation_path_exists_def easy_calls, simp add: sample_posix_def)
  have part: "appended_path ''disc.xiso'' suffix sample_posix = (Some (''disc.xiso'' @ suffix), sample_posix)"
    if "length suffix < 100" for suffix
    using easy that by (simp add: appended_path_def easy_calls SIZE_MAX_def)
  have suffixes: "suffixes_available ''disc.xiso'' ss sample_posix = (Inr (), sample_posix)"
    if "\<forall>x \<in> set ss. length x < 100" for ss
    using that by (induction ss) (auto simp: suffix_available_def part free)
  have space: "gdox_preservation_available_space ''disc.xiso'' sample_posix = (Inr 4096000000, sample_posix)"
    using easy
    by (simp add: gdox_preservation_available_space_def easy_calls Let_def, simp add: sample_posix_def UINT64_MAX_def)
  have sides: "gdox_preservation_sidecars_available sample_request ?ev False sample_posix = (Inr (), sample_posix)"
    by (simp add: gdox_preservation_sidecars_available_def sample_request_def suffixes sidecar_suffixes_def
        gdox_disc_evidence_clear_def del: suffixes_available.simps)
  have valid: "validate_request sample_preservation ?ev st0 = (Inr (), st0)"
    using host[of "gdox_preservation_path_exists ''disc.xiso''", OF free]
      host[of "gdox_preservation_sidecars_available sample_request ?ev False", OF sides]
      host[of "gdox_preservation_available_space ''disc.xiso''", OF space]
    by (simp add: validate_request_def Let_def source0 gdox_source_sector_count_def UINT64_MAX_def)
  let ?begun = "begin_preservation sample_preservation ?ev 8192 st0"
  have begun: "?begun = st0\<lparr>ws_result := (empty_result\<lparr>res_bytes := 8192\<rparr>)\<rparr>"
    using easy
    by (simp add: begin_preservation_def report_progress_def on_host_def st0_def easy_calls sample_preservation_def
        sample_request_def empty_result_def)
  obtain st1 h where st1: "write_and_verify_preservation sample_preservation ?part 8192 ?begun = (Inr (), st1)"
      "easy (ws_host st1)" "px_names (ws_host st1) = [?part \<mapsto> 0]" "px_kind (ws_host st1) 0 = REGULAR"
      "ws_result st1 = sample_result h" "length (md5 h) = 16" "length (sha1 h) = 20" "length (sha256 h) = 32"
      "ws_file st1 = None" "px_unix_time (ws_host st1) = 0"
    using sample_write[of ?begun ?part 8192] easy
    by (auto simp: begun) (auto simp: st0_def sample_posix_def sample_result_def)
  let ?ended = "end_preservation sample_preservation ?ev 8192 st1"
  have ended: "ws_host ?ended = ws_host st1" "ws_result ?ended = sample_result h" "ws_file ?ended = None"
    using st1
    by (simp_all add: end_preservation_def report_progress_def on_host_def easy_calls sample_preservation_def
        classify_preservation_def sample_request_def sample_result_def empty_result_def)
  define px where "px = (ws_host st1)\<lparr>px_names := [''disc.xiso'' \<mapsto> 0]\<rparr>"
  have commit: "gdox_preservation_path_commit ?part ''disc.xiso'' (ws_host st1) = (Inr (), px)"
    using st1
    by (simp add: gdox_preservation_path_commit_def px_link_def px_unlink_def easy_calls px_def fun_upd_twist fun_eq_iff)
  have "easy px" "px_unix_time px = 0" "\<And>x. x \<noteq> [] \<Longrightarrow> px_names px (''disc.xiso'' @ x) = None"
    using st1 by (simp_all add: px_def)
  from sample_bundle[OF this(1,3,2) st1(6-8)] obtain r px'
    where bundled: "gdox_preservation_write_bundle sample_request sample_input None (sample_result h) px = (Inr (), r, px')"
    by blast
  have "\<exists>st. preserve_stages sample_preservation ?part ?ev st0 = (Inr (), st)"
    using host[of "gdox_preservation_path_exists ?part", OF free] st1(1) ended commit bundled
    by (simp add: preserve_stages_def Let_def on_host_def source0)
  then obtain st where stages: "preserve_stages sample_preservation ?part ?ev st0 = (Inr (), st)" by blast
  have path: "on_host (appended_path ''disc.xiso'' ''.part'') st0 = (Some ?part, st0)"
    using host[of "appended_path ''disc.xiso'' ''.part''", OF part] by simp
  have pv: "\<lparr>pv_ops = file_ops, pv_digests = sample_digests, pv_request = sample_request, pv_input = sample_input,
      pv_map = None, pv_reporting = False\<rparr> = sample_preservation"
    by (simp add: sample_preservation_def)
  have none: "resolve_map sample_request ?ev n = Inr None" for n by (simp add: resolve_map_def sample_request_def)
  have ev: "snd (gdox_source_evidence file_ops (Some sample_file)) = ?ev" by (simp add: gdox_source_evidence_def)
  show ?thesis
    unfolding gdox_preservation_run_def Let_def ev none st0_def[symmetric]
    by (simp add: pv valid path stages)
qed


end
