(* ===== verification/Actions.thy ===== *)
theory Actions
  imports Prelude
begin

text \<open>
  State-passing actions that may fail. A drive command changes the transport and its result is an
  error or a value; the C drivers chain such calls with \<open>&&\<close> and early returns. An action is a
  function from the state to the result and the new state; \<open>seq\<close> stops at the first error, with the
  state reached there. Two predicates carry the proofs about actions: \<open>keeps I m\<close> (an invariant of
  the state) and \<open>leads P m Q\<close> (a postcondition on result and state).
\<close>

type_synonym ('s, 'a) act = "'s \<Rightarrow> 'a res \<times> 's"

definition ret :: "'a \<Rightarrow> ('s, 'a) act" where
  "ret x s = (Inr x, s)"

definition raise :: "gdox_error \<Rightarrow> ('s, 'a) act" where
  "raise e s = (Inl e, s)"

definition seq :: "('s, 'a) act \<Rightarrow> ('a \<Rightarrow> ('s, 'b) act) \<Rightarrow> ('s, 'b) act" where
  "seq m f s = (case m s of (Inl e, s') \<Rightarrow> (Inl e, s') | (Inr x, s') \<Rightarrow> f x s')"

definition gets :: "('s \<Rightarrow> 'a) \<Rightarrow> ('s, 'a) act" where
  "gets f s = (Inr (f s), s)"

definition modify :: "('s \<Rightarrow> 's) \<Rightarrow> ('s, unit) act" where
  "modify f s = (Inr (), f s)"

text \<open>\<open>condition || set_error(...)\<close>.\<close>

definition require :: "bool \<Rightarrow> gdox_error \<Rightarrow> ('s, unit) act" where
  "require b e = (if b then ret () else raise e)"

text \<open>The result of an action whatever it is, for a caller that goes on after an error.\<close>

definition attempt :: "('s, 'a) act \<Rightarrow> ('s, 'a res) act" where
  "attempt m s = (case m s of (r, s') \<Rightarrow> (Inr r, s'))"

text \<open>An action on a part of the state.\<close>

definition zoom :: "('s \<Rightarrow> 't) \<Rightarrow> (('t \<Rightarrow> 't) \<Rightarrow> 's \<Rightarrow> 's) \<Rightarrow> ('t, 'a) act \<Rightarrow> ('s, 'a) act" where
  "zoom part update m s = (case m (part s) of (r, t) \<Rightarrow> (r, update (\<lambda>_. t) s))"

fun each :: "('x \<Rightarrow> ('s, unit) act) \<Rightarrow> 'x list \<Rightarrow> ('s, unit) act" where
  "each f [] = ret ()"
| "each f (x # xs) = seq (f x) (\<lambda>_. each f xs)"

lemmas act_defs = ret_def raise_def seq_def gets_def modify_def require_def attempt_def zoom_def

section \<open>Invariants and postconditions\<close>

definition keeps :: "('s \<Rightarrow> bool) \<Rightarrow> ('s, 'a) act \<Rightarrow> bool" where
  "keeps I m = (\<forall>s. I s \<longrightarrow> I (snd (m s)))"

definition leads :: "('s \<Rightarrow> bool) \<Rightarrow> ('s, 'a) act \<Rightarrow> ('a res \<Rightarrow> 's \<Rightarrow> bool) \<Rightarrow> bool" where
  "leads P m Q = (\<forall>s. P s \<longrightarrow> Q (fst (m s)) (snd (m s)))"

named_theorems keeps_rules \<open>actions that keep an invariant\<close>

lemma keepsI: "(\<And>s r s'. I s \<Longrightarrow> m s = (r, s') \<Longrightarrow> I s') \<Longrightarrow> keeps I m"
  by (simp add: keeps_def prod_eq_iff)

lemma keepsD: "keeps I m \<Longrightarrow> I s \<Longrightarrow> m s = (r, s') \<Longrightarrow> I s'"
  by (metis keeps_def snd_conv)

lemma leadsI: "(\<And>s r s'. P s \<Longrightarrow> m s = (r, s') \<Longrightarrow> Q r s') \<Longrightarrow> leads P m Q"
  by (simp add: leads_def prod_eq_iff)

lemma leadsD: "leads P m Q \<Longrightarrow> P s \<Longrightarrow> m s = (r, s') \<Longrightarrow> Q r s'"
  by (metis fst_conv leads_def snd_conv)

lemma leads_keeps: "keeps I m \<longleftrightarrow> leads I m (\<lambda>_. I)"
  by (simp add: keeps_def leads_def)

lemma leads_weaken:
  "leads P' m Q' \<Longrightarrow> (\<And>s. P s \<Longrightarrow> P' s) \<Longrightarrow> (\<And>r s. Q' r s \<Longrightarrow> Q r s) \<Longrightarrow> leads P m Q"
  by (simp add: leads_def)

lemma leads_conj: "leads P m Q \<Longrightarrow> leads P m R \<Longrightarrow> leads P m (\<lambda>r s. Q r s \<and> R r s)"
  by (simp add: leads_def)

lemma leads_seq:
  assumes "leads P m (\<lambda>r s. case r of Inl e \<Rightarrow> Q (Inl e) s | Inr x \<Rightarrow> R x s)"
    and "\<And>x. leads (R x) (f x) Q"
  shows "leads P (seq m f) Q"
  using assms by (fastforce simp: leads_def seq_def split: sum.splits prod.splits)

lemma leads_ret: "(\<And>s. P s \<Longrightarrow> Q (Inr x) s) \<Longrightarrow> leads P (ret x) Q"
  by (simp add: leads_def ret_def)

lemma leads_raise: "(\<And>s. P s \<Longrightarrow> Q (Inl e) s) \<Longrightarrow> leads P (raise e) Q"
  by (simp add: leads_def raise_def)

lemma leads_require:
  "(\<And>s. P s \<Longrightarrow> b \<Longrightarrow> Q (Inr ()) s) \<Longrightarrow> (\<And>s. P s \<Longrightarrow> \<not> b \<Longrightarrow> Q (Inl e) s) \<Longrightarrow> leads P (require b e) Q"
  by (simp add: leads_def require_def ret_def raise_def)

lemma leads_modify: "(\<And>s. P s \<Longrightarrow> Q (Inr ()) (f s)) \<Longrightarrow> leads P (modify f) Q"
  by (simp add: leads_def modify_def)

lemma leads_gets: "(\<And>s. P s \<Longrightarrow> Q (Inr (f s)) s) \<Longrightarrow> leads P (gets f) Q"
  by (simp add: leads_def gets_def)

lemma keeps_ret [keeps_rules]: "keeps I (ret x)"
  by (simp add: keeps_def ret_def)

lemma keeps_raise [keeps_rules]: "keeps I (raise e)"
  by (simp add: keeps_def raise_def)

lemma keeps_gets [keeps_rules]: "keeps I (gets f)"
  by (simp add: keeps_def gets_def)

lemma keeps_require [keeps_rules]: "keeps I (require b e)"
  by (simp add: require_def keeps_rules)

lemma keeps_seq [keeps_rules]: "keeps I m \<Longrightarrow> (\<And>x. keeps I (f x)) \<Longrightarrow> keeps I (seq m f)"
  by (fastforce simp: keeps_def seq_def split: sum.splits prod.splits)

lemma keeps_attempt [keeps_rules]: "keeps I m \<Longrightarrow> keeps I (attempt m)"
  by (fastforce simp: keeps_def attempt_def split: prod.splits)

lemma keeps_if [keeps_rules]: "(b \<Longrightarrow> keeps I m) \<Longrightarrow> (\<not> b \<Longrightarrow> keeps I n) \<Longrightarrow> keeps I (if b then m else n)"
  by simp

lemma keeps_case_sum [keeps_rules]:
  "(\<And>e. r = Inl e \<Longrightarrow> keeps I (f e)) \<Longrightarrow> (\<And>x. r = Inr x \<Longrightarrow> keeps I (g x)) \<Longrightarrow> keeps I (case r of Inl e \<Rightarrow> f e | Inr x \<Rightarrow> g x)"
  by (cases r) simp_all

lemma keeps_let [keeps_rules]: "keeps I (f x) \<Longrightarrow> keeps I (Let x f)"
  by (simp add: Let_def)

lemma keeps_case_prod [keeps_rules]:
  "(\<And>a b. x = (a, b) \<Longrightarrow> keeps I (f a b)) \<Longrightarrow> keeps I (case x of (a, b) \<Rightarrow> f a b)"
  by (cases x) simp

lemma keeps_modify: "(\<And>s. I s \<Longrightarrow> I (f s)) \<Longrightarrow> keeps I (modify f)"
  by (simp add: keeps_def modify_def)

lemma keeps_each [keeps_rules]: "(\<And>x. x \<in> set xs \<Longrightarrow> keeps I (f x)) \<Longrightarrow> keeps I (each f xs)"
  by (induction xs) (auto intro!: keeps_rules)

lemma keeps_zoom:
  "(\<And>s r t. I s \<Longrightarrow> m (part s) = (r, t) \<Longrightarrow> I (update (\<lambda>_. t) s)) \<Longrightarrow> keeps I (zoom part update m)"
  by (fastforce simp: keeps_def zoom_def split: prod.splits)

lemma seq_ok:
  "seq m f s = (Inr y, s') \<longleftrightarrow> (\<exists>x t. m s = (Inr x, t) \<and> f x t = (Inr y, s'))"
  by (auto simp: seq_def split: sum.splits prod.splits)

lemma seq_error:
  "seq m f s = (Inl e, s') \<longleftrightarrow>
     m s = (Inl e, s') \<or> (\<exists>x t. m s = (Inr x, t) \<and> f x t = (Inl e, s'))"
  by (auto simp: seq_def split: sum.splits prod.splits)

section \<open>Outcomes\<close>

text \<open>\<open>E\<close> holds after an error and \<open>R\<close> of the value otherwise.\<close>

definition outcome :: "('s \<Rightarrow> bool) \<Rightarrow> ('a \<Rightarrow> 's \<Rightarrow> bool) \<Rightarrow> 'a res \<Rightarrow> 's \<Rightarrow> bool" where
  "outcome E R r s = (case r of Inl _ \<Rightarrow> E s | Inr x \<Rightarrow> R x s)"

lemma outcome_simps [simp]: "outcome E R (Inl e) s = E s" "outcome E R (Inr x) s = R x s"
  by (simp_all add: outcome_def)

named_theorems outcome_rules \<open>outcomes of composed actions\<close>

lemma outcome_seq [outcome_rules]:
  "leads P m (outcome E R) \<Longrightarrow> (\<And>x. leads (R x) (f x) (outcome E Q)) \<Longrightarrow> leads P (seq m f) (outcome E Q)"
  by (fastforce simp: leads_def seq_def split: sum.splits prod.splits)

lemma outcome_ret: "(\<And>s. P s \<Longrightarrow> Q x s) \<Longrightarrow> leads P (ret x) (outcome E Q)"
  by (simp add: leads_ret)

lemma outcome_raise: "(\<And>s. P s \<Longrightarrow> E s) \<Longrightarrow> leads P (raise e) (outcome E Q)"
  by (simp add: leads_raise)

lemma outcome_if [outcome_rules]:
  "(b \<Longrightarrow> leads P m Q) \<Longrightarrow> (\<not> b \<Longrightarrow> leads P n Q) \<Longrightarrow> leads P (if b then m else n) Q"
  by simp

lemma outcome_case_prod [outcome_rules]:
  "(\<And>a b. x = (a, b) \<Longrightarrow> leads P (f a b) Q) \<Longrightarrow> leads P (case x of (a, b) \<Rightarrow> f a b) Q"
  by (cases x) simp

text \<open>After an attempt, the outcome is known of the result it delivered.\<close>

lemma outcome_attempt: "leads P m (outcome E R) \<Longrightarrow> leads P (attempt m) (outcome F (outcome E R))"
  by (auto simp: leads_def attempt_def split: prod.splits)

lemma outcome_case_sum:
  "(\<And>e. leads E (f e) Q) \<Longrightarrow> (\<And>x. leads (R x) (g x) Q) \<Longrightarrow>
   leads (outcome E R r) (case r of Inl e \<Rightarrow> f e | Inr x \<Rightarrow> g x) Q"
  by (cases r) (simp_all add: leads_def)

lemma outcome_keeps: "keeps I m \<Longrightarrow> leads I m (outcome I (\<lambda>_. I))"
  by (simp add: keeps_def leads_def outcome_def split: sum.splits)

lemma keeps_outcome: "leads I m (outcome I (\<lambda>_. I)) \<Longrightarrow> keeps I m"
  by (auto simp: keeps_def leads_def outcome_def split: sum.splits)

lemma outcome_gets: "(\<And>s. P s \<Longrightarrow> Q (f s) s) \<Longrightarrow> leads P (gets f) (outcome E Q)"
  by (simp add: leads_gets)

lemma outcome_modify: "(\<And>s. P s \<Longrightarrow> Q () (f s)) \<Longrightarrow> leads P (modify f) (outcome E Q)"
  by (simp add: leads_modify)

lemma outcome_pre: "leads P' m Q \<Longrightarrow> (\<And>s. P s \<Longrightarrow> P' s) \<Longrightarrow> leads P m Q"
  by (simp add: leads_def)

lemma outcome_post:
  "leads P m (outcome E' R') \<Longrightarrow> (\<And>s. E' s \<Longrightarrow> E s) \<Longrightarrow> (\<And>x s. R' x s \<Longrightarrow> R x s) \<Longrightarrow> leads P m (outcome E R)"
  by (auto simp: leads_def outcome_def split: sum.splits)

end
