(* ===== verification/ScsiTransport.thy ===== *)
theory ScsiTransport
  imports Actions
begin

text \<open>
  The SCSI transport interface (src/src/platform/scsi_transport.h, scsi_transport.c). A transport is
  an optional context (\<open>None\<close> is the closed handle with NULL context and operations) together with
  the operation table of its kind: USB bulk-only, the kernel's pass-through of each system, a test
  double. The table is a record of functions, so the drivers are verified for any transport.

  A data-in command delivers the bytes it counts as transferred; the output buffer beyond them is
  never read by the callers. \<open>None\<close> entries of the table are the optional operations a transport
  leaves NULL.
\<close>

record 't transport_ops =
  top_command_in :: "'t \<Rightarrow> string \<Rightarrow> byte list \<Rightarrow> nat \<Rightarrow> u32 \<Rightarrow> byte list res \<times> 't"
  top_command_out :: "'t \<Rightarrow> string \<Rightarrow> byte list \<Rightarrow> byte list \<Rightarrow> u32 \<Rightarrow> nat res \<times> 't"
  top_command_none :: "'t \<Rightarrow> string \<Rightarrow> byte list \<Rightarrow> u32 \<Rightarrow> unit res \<times> 't"
  top_reset :: "'t \<Rightarrow> unit res \<times> 't"
  top_close :: "'t \<Rightarrow> unit res"
  top_prepare_close :: "('t \<Rightarrow> unit res \<times> 't) option"
  top_last_sense :: "('t \<Rightarrow> nat \<Rightarrow> byte list option) option"
  top_device_present :: "('t \<Rightarrow> bool res \<times> 't) option"

type_synonym 't scsi_transport = "'t option"

definition gdox_scsi_transport_is_valid :: "'t scsi_transport \<Rightarrow> bool" where
  "gdox_scsi_transport_is_valid transport = (transport \<noteq> None)"

text \<open>A call of the table on an open handle.\<close>

definition on_open :: "('t, 'a) act \<Rightarrow> ('t scsi_transport, 'a) act" where
  "on_open m transport =
     (case transport of
        None \<Rightarrow> (fail ERROR_INVALID_ARGUMENT ''transport is not open'', None)
      | Some t \<Rightarrow> (case m t of (r, t') \<Rightarrow> (r, Some t')))"

definition validate_cdb :: "'t scsi_transport \<Rightarrow> byte list \<Rightarrow> unit res" where
  "validate_cdb transport cdb =
     (if \<not> gdox_scsi_transport_is_valid transport
      then fail ERROR_INVALID_ARGUMENT ''transport, command name, and CDB are required''
      else if length cdb = 0 \<or> length cdb > 16
      then fail ERROR_PROTOCOL ''SCSI CDB must contain 1 to 16 bytes''
      else Inr ())"

definition gdox_scsi_command_in ::
  "'t transport_ops \<Rightarrow> string \<Rightarrow> byte list \<Rightarrow> nat \<Rightarrow> u32 \<Rightarrow> ('t scsi_transport, byte list) act" where
  "gdox_scsi_command_in tops name cdb output_bytes timeout_ms transport =
     (case validate_cdb transport cdb of
        Inl e \<Rightarrow> (Inl e, transport)
      | Inr _ \<Rightarrow>
          if output_bytes = 0
          then (fail ERROR_INVALID_ARGUMENT ''data-in output and transfer count are required'', transport)
          else on_open (\<lambda>t. top_command_in tops t name cdb output_bytes timeout_ms) transport)"

definition gdox_scsi_command_out ::
  "'t transport_ops \<Rightarrow> string \<Rightarrow> byte list \<Rightarrow> byte list \<Rightarrow> u32 \<Rightarrow> ('t scsi_transport, nat) act" where
  "gdox_scsi_command_out tops name cdb input timeout_ms transport =
     (case validate_cdb transport cdb of
        Inl e \<Rightarrow> (Inl e, transport)
      | Inr _ \<Rightarrow>
          if input = []
          then (fail ERROR_INVALID_ARGUMENT ''data-out input and transfer count are required'', transport)
          else on_open (\<lambda>t. top_command_out tops t name cdb input timeout_ms) transport)"

definition gdox_scsi_command_none ::
  "'t transport_ops \<Rightarrow> string \<Rightarrow> byte list \<Rightarrow> u32 \<Rightarrow> ('t scsi_transport, unit) act" where
  "gdox_scsi_command_none tops name cdb timeout_ms transport =
     (case validate_cdb transport cdb of
        Inl e \<Rightarrow> (Inl e, transport)
      | Inr _ \<Rightarrow> on_open (\<lambda>t. top_command_none tops t name cdb timeout_ms) transport)"

definition gdox_scsi_transport_reset :: "'t transport_ops \<Rightarrow> ('t scsi_transport, unit) act" where
  "gdox_scsi_transport_reset tops = on_open (top_reset tops)"

definition gdox_scsi_transport_last_sense ::
  "'t transport_ops \<Rightarrow> 't scsi_transport \<Rightarrow> nat \<Rightarrow> byte list option" where
  "gdox_scsi_transport_last_sense tops transport output_bytes =
     (case transport of
        None \<Rightarrow> None
      | Some t \<Rightarrow>
          if output_bytes = 0 then None
          else (case top_last_sense tops of None \<Rightarrow> None | Some f \<Rightarrow> f t output_bytes))"

definition gdox_scsi_transport_device_present ::
  "'t transport_ops \<Rightarrow> ('t scsi_transport, bool) act" where
  "gdox_scsi_transport_device_present tops transport =
     (if \<not> gdox_scsi_transport_is_valid transport
      then (fail ERROR_INVALID_ARGUMENT ''open transport and presence output are required'', transport)
      else (case top_device_present tops of
              None \<Rightarrow> (fail ERROR_UNSUPPORTED ''transport cannot confirm device presence'', transport)
            | Some f \<Rightarrow> on_open f transport))"

definition gdox_scsi_transport_prepare_close ::
  "'t transport_ops \<Rightarrow> ('t scsi_transport, unit) act" where
  "gdox_scsi_transport_prepare_close tops =
     on_open (case top_prepare_close tops of None \<Rightarrow> ret () | Some f \<Rightarrow> f)"

text \<open>The handle is emptied before the table's close runs; a failed preparation leaves it open.\<close>

definition gdox_scsi_transport_close :: "'t transport_ops \<Rightarrow> ('t scsi_transport, unit) act" where
  "gdox_scsi_transport_close tops transport =
     (case gdox_scsi_transport_prepare_close tops transport of
        (Inl e, transport') \<Rightarrow> (Inl e, transport')
      | (Inr _, transport') \<Rightarrow>
          (case transport' of
             None \<Rightarrow> (Inr (), None)
           | Some t \<Rightarrow> (top_close tops t, None)))"

section \<open>Facts\<close>

lemma on_open_simps [simp]:
  "on_open m (Some t) = (fst (m t), Some (snd (m t)))"
  "on_open m None = (fail ERROR_INVALID_ARGUMENT ''transport is not open'', None)"
  by (simp_all add: on_open_def split: prod.splits)

text \<open>An invariant of the context, read on the handle.\<close>

definition open_holds :: "('t \<Rightarrow> bool) \<Rightarrow> 't scsi_transport \<Rightarrow> bool" where
  "open_holds I transport = (\<forall>t. transport = Some t \<longrightarrow> I t)"

lemma open_holds_simps [simp]: "open_holds I (Some t) = I t" "open_holds I None"
  by (auto simp: open_holds_def)

lemma keeps_on_open: "keeps I m \<Longrightarrow> keeps (open_holds I) (on_open m)"
  by (auto simp: keeps_def open_holds_def on_open_def split: option.splits prod.splits)

lemma keeps_command_in:
  "keeps I (\<lambda>t. top_command_in tops t name cdb n timeout_ms) \<Longrightarrow>
   keeps (open_holds I) (gdox_scsi_command_in tops name cdb n timeout_ms)"
  using keeps_on_open[of I "\<lambda>t. top_command_in tops t name cdb n timeout_ms"]
  by (auto simp: keeps_def gdox_scsi_command_in_def split: sum.splits)

lemma keeps_command_out:
  "keeps I (\<lambda>t. top_command_out tops t name cdb input timeout_ms) \<Longrightarrow>
   keeps (open_holds I) (gdox_scsi_command_out tops name cdb input timeout_ms)"
  using keeps_on_open[of I "\<lambda>t. top_command_out tops t name cdb input timeout_ms"]
  by (auto simp: keeps_def gdox_scsi_command_out_def split: sum.splits)

lemma keeps_command_none:
  "keeps I (\<lambda>t. top_command_none tops t name cdb timeout_ms) \<Longrightarrow>
   keeps (open_holds I) (gdox_scsi_command_none tops name cdb timeout_ms)"
  using keeps_on_open[of I "\<lambda>t. top_command_none tops t name cdb timeout_ms"]
  by (auto simp: keeps_def gdox_scsi_command_none_def split: sum.splits)

lemma keeps_prepare_close:
  "(\<And>f. top_prepare_close tops = Some f \<Longrightarrow> keeps I f) \<Longrightarrow>
   keeps (open_holds I) (gdox_scsi_transport_prepare_close tops)"
  unfolding gdox_scsi_transport_prepare_close_def
  by (rule keeps_on_open) (auto split: option.splits intro: keeps_ret)

text \<open>A command that succeeded went to the transport and delivered what it delivered.\<close>

lemma command_in_ok:
  "gdox_scsi_command_in tops name cdb n timeout_ms transport = (Inr bs, transport') \<Longrightarrow>
   \<exists>t t'. transport = Some t \<and> transport' = Some t'
     \<and> top_command_in tops t name cdb n timeout_ms = (Inr bs, t')
     \<and> 0 < n \<and> 0 < length cdb \<and> length cdb \<le> 16"
  by (auto simp: gdox_scsi_command_in_def validate_cdb_def gdox_scsi_transport_is_valid_def on_open_def
      split: sum.splits if_splits option.splits prod.splits)

lemma command_in_open:
  "validate_cdb (Some t) cdb = Inr () \<Longrightarrow> 0 < n \<Longrightarrow>
   gdox_scsi_command_in tops name cdb n timeout_ms (Some t) =
     (case top_command_in tops t name cdb n timeout_ms of (r, t') \<Rightarrow> (r, Some t'))"
  by (simp add: gdox_scsi_command_in_def split: prod.splits)

lemma command_none_open:
  "validate_cdb (Some t) cdb = Inr () \<Longrightarrow>
   gdox_scsi_command_none tops name cdb timeout_ms (Some t) =
     (case top_command_none tops t name cdb timeout_ms of (r, t') \<Rightarrow> (r, Some t'))"
  by (simp add: gdox_scsi_command_none_def split: prod.splits)

lemma transport_close_keeps:
  "gdox_scsi_transport_close tops transport = (r, Some t) \<Longrightarrow>
   \<exists>e. r = Inl e \<and> gdox_scsi_transport_prepare_close tops transport = (Inl e, Some t)"
  by (auto simp: gdox_scsi_transport_close_def split: prod.splits sum.splits option.splits)

section \<open>A recording transport\<close>

datatype sent = SentIn "byte list" nat | SentOut "byte list" "byte list" | SentNone "byte list" | SentReset

text \<open>The transport with a log of the commands it was given.\<close>

definition logged :: "sent \<Rightarrow> ('t \<Rightarrow> 'a \<times> 't) \<Rightarrow> 't \<times> sent list \<Rightarrow> 'a \<times> 't \<times> sent list" where
  "logged entry f w = (case f (fst w) of (r, t) \<Rightarrow> (r, t, snd w @ [entry]))"

definition unlogged :: "('t \<Rightarrow> 'a \<times> 't) \<Rightarrow> 't \<times> sent list \<Rightarrow> 'a \<times> 't \<times> sent list" where
  "unlogged f w = (case f (fst w) of (r, t) \<Rightarrow> (r, t, snd w))"

definition logged_ops :: "'t transport_ops \<Rightarrow> ('t \<times> sent list) transport_ops" where
  "logged_ops tops =
     \<lparr>top_command_in = (\<lambda>w name cdb n timeout_ms.
        logged (SentIn cdb n) (\<lambda>t. top_command_in tops t name cdb n timeout_ms) w),
      top_command_out = (\<lambda>w name cdb input timeout_ms.
        logged (SentOut cdb input) (\<lambda>t. top_command_out tops t name cdb input timeout_ms) w),
      top_command_none = (\<lambda>w name cdb timeout_ms.
        logged (SentNone cdb) (\<lambda>t. top_command_none tops t name cdb timeout_ms) w),
      top_reset = logged SentReset (top_reset tops),
      top_close = (\<lambda>w. top_close tops (fst w)),
      top_prepare_close = map_option unlogged (top_prepare_close tops),
      top_last_sense = map_option (\<lambda>f w. f (fst w)) (top_last_sense tops),
      top_device_present = map_option unlogged (top_device_present tops)\<rparr>"

end
