(* ===== verification/MmcCommands.thy ===== *)
theory MmcCommands
  imports ScsiTransport Source Bytes
begin

text \<open>
  The MMC commands the drivers share (src/src/platform/mmc_commands.h, mmc_commands.c): inquiry,
  sense data, media event notification, capacity, disc structures and bounded reads, and the media
  tracker that turns events and sense data into a generation number. Output pointers are results;
  the tracker and the transport are threaded through.
\<close>

unbundle bit_operations_syntax

section \<open>Inquiry\<close>

text \<open>The fields hold the bytes before the terminator the code stores.\<close>

record gdox_mmc_identity =
  id_vendor :: "byte list"
  id_model :: "byte list"
  id_revision :: "byte list"

definition blank_byte :: "byte \<Rightarrow> bool" where
  "blank_byte b = (b = 0x20 \<or> b = 0)"

definition copy_ascii_field :: "nat \<Rightarrow> byte list \<Rightarrow> byte list" where
  "copy_ascii_field output_bytes input =
     (let trimmed = rev (dropWhile blank_byte (rev (dropWhile blank_byte input)))
      in if length trimmed \<ge> output_bytes then take (output_bytes - 1) trimmed else trimmed)"

definition inquiry_cdb :: "byte list" where
  "inquiry_cdb = [0x12, 0, 0, 0, 96, 0]"

definition gdox_mmc_inquiry ::
  "'t transport_ops \<Rightarrow> u32 \<Rightarrow> ('t scsi_transport, gdox_mmc_identity) act" where
  "gdox_mmc_inquiry tops timeout_ms =
     seq (gdox_scsi_command_in tops ''INQUIRY'' inquiry_cdb 96 timeout_ms) (\<lambda>response.
       if length response < 36
       then raise (err ERROR_PROTOCOL ''INQUIRY returned fewer than 36 bytes'')
       else ret \<lparr>id_vendor = copy_ascii_field 9 (take 8 (drop 8 response)),
                 id_model = copy_ascii_field 17 (take 16 (drop 16 response)),
                 id_revision = copy_ascii_field 5 (take 4 (drop 32 response))\<rparr>)"

definition test_unit_ready_cdb :: "byte list" where
  "test_unit_ready_cdb = replicate 6 0"

definition gdox_mmc_test_unit_ready :: "'t transport_ops \<Rightarrow> u32 \<Rightarrow> ('t scsi_transport, unit) act" where
  "gdox_mmc_test_unit_ready tops timeout_ms =
     gdox_scsi_command_none tops ''TEST UNIT READY'' test_unit_ready_cdb timeout_ms"

definition request_sense_cdb :: "byte list" where
  "request_sense_cdb = [0x03, 0, 0, 0, 18, 0]"

definition gdox_mmc_request_sense :: "'t transport_ops \<Rightarrow> u32 \<Rightarrow> ('t scsi_transport, byte list) act" where
  "gdox_mmc_request_sense tops timeout_ms =
     gdox_scsi_command_in tops ''REQUEST SENSE'' request_sense_cdb 18 timeout_ms"

section \<open>Events and sense data\<close>

definition gdox_mmc_parse_media_event :: "byte list \<Rightarrow> media_event option" where
  "gdox_mmc_parse_media_event response =
     (if length response < 4 then None
      else (let payload_bytes = read_be_u16 response 0
            in if response ! 2 AND 0x80 \<noteq> 0 then Some MEDIA_EVENT_NONE
               else if response ! 2 AND 0x07 \<noteq> 0x04 \<or> payload_bytes < 6 \<or> length response < 8 then None
               else (let event_code = response ! 4 AND 0x0f
                     in Some (if event_code = 1 then MEDIA_EVENT_EJECT_REQUEST
                              else if event_code = 2 then MEDIA_EVENT_NEW_MEDIA
                              else if event_code = 3 then MEDIA_EVENT_REMOVAL
                              else if event_code = 4 then MEDIA_EVENT_CHANGED
                              else MEDIA_EVENT_NONE))))"

text \<open>Sense key and additional sense code.\<close>

definition decode_sense :: "byte list \<Rightarrow> (byte \<times> byte) option" where
  "decode_sense sense =
     (let response_code = (if sense \<noteq> [] then sense ! 0 AND 0x7f else 0)
      in if (response_code = 0x70 \<or> response_code = 0x71) \<and> length sense \<ge> 14
         then Some (sense ! 2 AND 0x0f, sense ! 12)
         else if (response_code = 0x72 \<or> response_code = 0x73) \<and> length sense \<ge> 4
         then Some (sense ! 1 AND 0x0f, sense ! 2)
         else None)"

record gdox_mmc_media_tracker =
  mt_generation :: u64
  mt_pending_event :: media_event
  mt_absence_latched :: bool
  mt_change_latched :: bool

definition fresh_tracker :: gdox_mmc_media_tracker where
  "fresh_tracker = \<lparr>mt_generation = 0, mt_pending_event = MEDIA_EVENT_NONE, mt_absence_latched = False, mt_change_latched = False\<rparr>"

definition next_generation :: "u64 \<Rightarrow> u64" where
  "next_generation g = (let g = u64_add g 1 in if g = 0 then u64_add g 1 else g)"

definition advance_media_generation :: "gdox_mmc_media_tracker \<Rightarrow> gdox_mmc_media_tracker" where
  "advance_media_generation tracker = tracker\<lparr>mt_generation := next_generation (mt_generation tracker)\<rparr>"

definition note_media_absent :: "gdox_mmc_media_tracker \<Rightarrow> gdox_mmc_media_tracker" where
  "note_media_absent tracker =
     (let tracker = (if \<not> mt_absence_latched tracker \<and> \<not> mt_change_latched tracker
                     then advance_media_generation tracker else tracker)
      in tracker\<lparr>mt_absence_latched := True, mt_pending_event := MEDIA_EVENT_NONE\<rparr>)"

definition note_media_changed :: "gdox_mmc_media_tracker \<Rightarrow> gdox_mmc_media_tracker" where
  "note_media_changed tracker =
     (let tracker = (if \<not> mt_change_latched tracker \<and> \<not> mt_absence_latched tracker
                     then advance_media_generation tracker else tracker)
      in tracker\<lparr>mt_change_latched := True, mt_pending_event := MEDIA_EVENT_NONE\<rparr>)"

definition note_media_event :: "gdox_mmc_media_tracker \<Rightarrow> media_event \<Rightarrow> gdox_mmc_media_tracker" where
  "note_media_event tracker ev =
     (if ev = MEDIA_EVENT_EJECT_REQUEST
      then (if mt_pending_event tracker = MEDIA_EVENT_NONE then tracker\<lparr>mt_pending_event := ev\<rparr> else tracker)
      else if ev = MEDIA_EVENT_NEW_MEDIA \<or> ev = MEDIA_EVENT_REMOVAL \<or> ev = MEDIA_EVENT_CHANGED
      then note_media_changed tracker
      else tracker)"

definition gdox_mmc_media_tracker_transitioned :: "gdox_mmc_media_tracker \<Rightarrow> u64 \<Rightarrow> bool" where
  "gdox_mmc_media_tracker_transitioned tracker expected_generation =
     (mt_generation tracker \<noteq> expected_generation \<or> mt_pending_event tracker \<noteq> MEDIA_EVENT_NONE)"

definition gdox_mmc_media_tracker_note_sense ::
  "gdox_mmc_media_tracker \<Rightarrow> byte list \<Rightarrow> gdox_mmc_media_tracker" where
  "gdox_mmc_media_tracker_note_sense tracker sense =
     (case decode_sense sense of
        None \<Rightarrow> tracker
      | Some (sense_key, additional_code) \<Rightarrow>
          if sense_key = 0x02 \<and> additional_code = 0x3a then note_media_absent tracker
          else if sense_key = 0x06 \<and> additional_code = 0x28 then note_media_changed tracker
          else tracker)"

definition gdox_mmc_media_tracker_capture_transport_sense ::
  "'t transport_ops \<Rightarrow> u32 \<Rightarrow> 't scsi_transport \<times> gdox_mmc_media_tracker
   \<Rightarrow> bool \<times> 't scsi_transport \<times> gdox_mmc_media_tracker" where
  "gdox_mmc_media_tracker_capture_transport_sense tops timeout_ms st =
     (case st of (transport, tracker) \<Rightarrow>
        if \<not> gdox_scsi_transport_is_valid transport then (False, transport, tracker)
        else (case gdox_scsi_transport_last_sense tops transport 32 of
                Some sense \<Rightarrow> (True, transport, gdox_mmc_media_tracker_note_sense tracker sense)
              | None \<Rightarrow>
                  (case gdox_mmc_request_sense tops timeout_ms transport of
                     (Inl _, transport) \<Rightarrow> (False, transport, tracker)
                   | (Inr sense, transport) \<Rightarrow>
                       (True, transport, gdox_mmc_media_tracker_note_sense tracker sense))))"

section \<open>Polling and observing\<close>

definition media_event_cdb :: "byte list" where
  "media_event_cdb = [0x4a, 0x01, 0, 0, 0x10, 0, 0, 0, 8, 0]"

text \<open>Whether an event was decoded, and the event.\<close>

definition poll_media_event ::
  "'t transport_ops \<Rightarrow> u32 \<Rightarrow> 't scsi_transport \<times> gdox_mmc_media_tracker
   \<Rightarrow> (bool \<times> media_event) \<times> 't scsi_transport \<times> gdox_mmc_media_tracker" where
  "poll_media_event tops timeout_ms st =
     (case st of (transport, tracker) \<Rightarrow>
        if \<not> gdox_scsi_transport_is_valid transport then ((False, MEDIA_EVENT_NONE), transport, tracker)
        else (case gdox_scsi_command_in tops ''GET EVENT STATUS NOTIFICATION (media)'' media_event_cdb 8
                     timeout_ms transport of
                (Inl _, transport) \<Rightarrow>
                  (case gdox_mmc_media_tracker_capture_transport_sense tops timeout_ms (transport, tracker) of
                     (_, st) \<Rightarrow> ((False, MEDIA_EVENT_NONE), st))
              | (Inr response, transport) \<Rightarrow>
                  (case gdox_mmc_parse_media_event response of
                     None \<Rightarrow> ((False, MEDIA_EVENT_NONE), transport, tracker)
                   | Some ev \<Rightarrow> ((True, ev), transport, note_media_event tracker ev))))"

definition gdox_mmc_poll_media_event ::
  "'t transport_ops \<Rightarrow> u32 \<Rightarrow> 't scsi_transport \<times> gdox_mmc_media_tracker
   \<Rightarrow> bool \<times> 't scsi_transport \<times> gdox_mmc_media_tracker" where
  "gdox_mmc_poll_media_event tops timeout_ms st =
     (case poll_media_event tops timeout_ms st of ((ok, _), st) \<Rightarrow> (ok, st))"

fun poll_baseline ::
  "'t transport_ops \<Rightarrow> u32 \<Rightarrow> nat \<Rightarrow> 't scsi_transport \<times> gdox_mmc_media_tracker
   \<Rightarrow> 't scsi_transport \<times> gdox_mmc_media_tracker" where
  "poll_baseline tops timeout_ms 0 st = st"
| "poll_baseline tops timeout_ms (Suc k) st =
     (case poll_media_event tops timeout_ms st of
        ((ok, ev), st) \<Rightarrow>
          if \<not> ok \<or> ev = MEDIA_EVENT_NONE then st else poll_baseline tops timeout_ms k st)"

definition baseline_event_limit :: nat where
  "baseline_event_limit = 16"

definition gdox_mmc_media_tracker_begin_session ::
  "'t transport_ops \<Rightarrow> u32 \<Rightarrow> 't scsi_transport \<times> gdox_mmc_media_tracker
   \<Rightarrow> 't scsi_transport \<times> gdox_mmc_media_tracker" where
  "gdox_mmc_media_tracker_begin_session tops timeout_ms st =
     (case poll_baseline tops timeout_ms baseline_event_limit st of
        (transport, tracker) \<Rightarrow> (transport, tracker\<lparr>mt_pending_event := MEDIA_EVENT_NONE\<rparr>))"

text \<open>The sense data an observation finds after a failed TEST UNIT READY; \<open>[]\<close> when there are none.\<close>

definition observed_sense ::
  "'t transport_ops \<Rightarrow> u32 \<Rightarrow> 't scsi_transport \<times> gdox_mmc_media_tracker
   \<Rightarrow> (byte \<times> byte) option \<times> 't scsi_transport \<times> gdox_mmc_media_tracker" where
  "observed_sense tops timeout_ms st =
     (case st of (transport, tracker) \<Rightarrow>
        let (known, sense, tracker) =
              (case gdox_scsi_transport_last_sense tops transport 18 of
                 Some sense \<Rightarrow> (decode_sense sense, sense, gdox_mmc_media_tracker_note_sense tracker sense)
               | None \<Rightarrow> (None, [], tracker))
        in if sense = []
           then (case gdox_mmc_request_sense tops timeout_ms transport of
                   (Inl _, transport) \<Rightarrow> (known, transport, tracker)
                 | (Inr sense, transport) \<Rightarrow>
                     (decode_sense sense, transport, gdox_mmc_media_tracker_note_sense tracker sense))
           else (known, transport, tracker))"

definition gdox_mmc_observe_media ::
  "'t transport_ops \<Rightarrow> u32 \<Rightarrow> 't scsi_transport \<times> gdox_mmc_media_tracker
   \<Rightarrow> media_observation \<times> 't scsi_transport \<times> gdox_mmc_media_tracker" where
  "gdox_mmc_observe_media tops timeout_ms st =
     (let seen = (\<lambda>readiness tracker.
            \<lparr>readiness = readiness, generation = mt_generation tracker, event = mt_pending_event tracker\<rparr>)
      in if \<not> gdox_scsi_transport_is_valid (fst st) then (seen MEDIA_READINESS_UNKNOWN (snd st), st)
         else (case gdox_mmc_poll_media_event tops timeout_ms st of
                 (_, transport, tracker) \<Rightarrow>
                   (case gdox_mmc_test_unit_ready tops timeout_ms transport of
                      (Inr _, transport) \<Rightarrow>
                        (let tracker = tracker\<lparr>mt_absence_latched := False, mt_change_latched := False\<rparr>
                         in (seen MEDIA_READINESS_PRESENT tracker, transport, tracker))
                    | (Inl _, transport) \<Rightarrow>
                        (case observed_sense tops timeout_ms (transport, tracker) of
                           (known, transport, tracker) \<Rightarrow>
                             (seen (if known = Some (0x02, 0x3a) then MEDIA_READINESS_ABSENT
                                    else MEDIA_READINESS_UNKNOWN) tracker,
                              transport, tracker)))))"

section \<open>Capacity, structures, reads\<close>

definition read_capacity_cdb :: "byte list" where
  "read_capacity_cdb = 0x25 # replicate 9 0"

definition gdox_mmc_read_capacity_10 ::
  "'t transport_ops \<Rightarrow> u32 \<Rightarrow> ('t scsi_transport, u32 \<times> u32) act" where
  "gdox_mmc_read_capacity_10 tops timeout_ms =
     seq (gdox_scsi_command_in tops ''READ CAPACITY(10)'' read_capacity_cdb 8 timeout_ms) (\<lambda>response.
       if length response \<noteq> 8
       then raise (err ERROR_PROTOCOL ''READ CAPACITY(10) returned a short response'')
       else ret (read_be_u32 response 0, read_be_u32 response 4))"

definition read_dvd_structure_cdb :: "byte \<Rightarrow> nat \<Rightarrow> byte list" where
  "read_dvd_structure_cdb format output_bytes =
     put_be_u16 ((replicate 12 0)[0 := 0xad, 7 := format]) 8 output_bytes"

definition gdox_mmc_read_dvd_structure ::
  "'t transport_ops \<Rightarrow> byte \<Rightarrow> nat \<Rightarrow> u32 \<Rightarrow> ('t scsi_transport, byte list) act" where
  "gdox_mmc_read_dvd_structure tops format output_bytes timeout_ms =
     (if output_bytes > 65535
      then raise (err ERROR_INVALID_ARGUMENT ''invalid READ DVD STRUCTURE output'')
      else gdox_scsi_command_in tops ''READ DVD STRUCTURE'' (read_dvd_structure_cdb format output_bytes)
             output_bytes timeout_ms)"

definition read_blocks_cdb :: "byte \<Rightarrow> u32 \<Rightarrow> u32 \<Rightarrow> byte list" where
  "read_blocks_cdb opcode lba blocks =
     (let cdb = put_be_u32 ((replicate 12 0)[0 := opcode]) 2 lba
      in if opcode = 0x28 then take 10 (put_be_u16 cdb 7 blocks) else put_be_u32 cdb 6 blocks)"

definition read_blocks ::
  "'t transport_ops \<Rightarrow> byte \<Rightarrow> u32 \<Rightarrow> u32 \<Rightarrow> u32 \<Rightarrow> u32 \<Rightarrow> nat \<Rightarrow> u32 \<Rightarrow> ('t scsi_transport, byte list) act" where
  "read_blocks tops opcode lba blocks maximum_blocks block_bytes output_bytes timeout_ms =
     (if blocks = 0 \<or> blocks > maximum_blocks \<or> block_bytes = 0
         \<or> blocks * block_bytes \<noteq> output_bytes \<or> (opcode = 0x28 \<and> blocks > 65535)
      then raise (err ERROR_INVALID_ARGUMENT ''invalid bounded MMC read request'')
      else seq (gdox_scsi_command_in tops (if opcode = 0x28 then ''READ(10)'' else ''READ(12)'')
                  (read_blocks_cdb opcode lba blocks) output_bytes timeout_ms) (\<lambda>data.
             if length data \<noteq> output_bytes
             then raise (err ERROR_TRANSPORT
                    (if opcode = 0x28 then ''READ(10) returned a short transfer''
                     else ''READ(12) returned a short transfer''))
             else ret data))"

definition gdox_mmc_read_10 ::
  "'t transport_ops \<Rightarrow> u32 \<Rightarrow> u32 \<Rightarrow> u32 \<Rightarrow> u32 \<Rightarrow> nat \<Rightarrow> u32 \<Rightarrow> ('t scsi_transport, byte list) act" where
  "gdox_mmc_read_10 tops = read_blocks tops 0x28"

definition gdox_mmc_read_12 ::
  "'t transport_ops \<Rightarrow> u32 \<Rightarrow> u32 \<Rightarrow> u32 \<Rightarrow> u32 \<Rightarrow> nat \<Rightarrow> u32 \<Rightarrow> ('t scsi_transport, byte list) act" where
  "gdox_mmc_read_12 tops = read_blocks tops 0xa8"

end
