(* ===== verification/Ad7701h.thy ===== *)
theory Ad7701h
  imports MmcCommands Hash
begin

text \<open>
  The HP AD-7701H reader (src/src/platform/ad7701h_source.c): a sector source over a SCSI transport.
  The drive shows an original Xbox game partition after two volatile bytes of its geometry are
  changed; the source changes them when it opens and restores them when it closes.

  The context is the C structure. What other threads do to it during a call is a script read by the
  calls: \<open>ad_mutex\<close> holds the answers of \<open>gdox_mutex_lock\<close> (true beyond its end) and \<open>ad_aborts\<close>
  whether \<open>abort_reads\<close> ran before the next test of the flag.
\<close>

unbundle bit_operations_syntax

definition ad_COMMAND_TIMEOUT :: u32 where "ad_COMMAND_TIMEOUT = 10000"
definition ad_GEOMETRY_ADDRESS :: u32 where "ad_GEOMETRY_ADDRESS = 0x03ff8688"
definition ad_MODE_ADDRESS :: u32 where "ad_MODE_ADDRESS = 0x03ff9790"
definition ad_MAX_BLOCKS :: u32 where "ad_MAX_BLOCKS = 32"
definition GDOX_XGD1_TOTAL_SECTORS :: u64 where "GDOX_XGD1_TOTAL_SECTORS = 3820880"

definition ad_stock_geometry :: "byte list" where "ad_stock_geometry = [0xaf, 0x1a, 0x03, 0]"
definition ad_game_geometry :: "byte list" where "ad_game_geometry = [0xaf, 0x33, 0x20, 0]"

definition ad_stock_pfi :: "byte list" where
  "ad_stock_pfi =
     [0x08, 0x02, 0, 0, 0x01, 0x02, 0x31, 0x10, 0, 0x03, 0, 0, 0, 0xfc, 0xe5, 0xef, 0, 0x03, 0x1a, 0xaf]"

definition ad_firmware_sha256 :: "byte list" where
  "ad_firmware_sha256 =
     [0xc3, 0x63, 0x7c, 0xfb, 0xdc, 0x5f, 0x2f, 0x69, 0xf8, 0x9a, 0x35, 0xdc, 0xdd, 0xae, 0x67, 0x99,
      0x96, 0xe8, 0xf4, 0xfb, 0x80, 0xab, 0x0c, 0x36, 0x1c, 0xb3, 0xc6, 0x42, 0x88, 0x23, 0x07, 0x69]"

definition ad_vendor :: "byte list" where "ad_vendor = map of_char ''hp''"
definition ad_model :: "byte list" where "ad_model = map of_char ''DVD RW AD-7701H''"
definition ad_revision :: "byte list" where "ad_revision = map of_char ''2.85''"

definition xdvdfs_magic :: "byte list" where "xdvdfs_magic = map of_char ''MICROSOFT*XBOX*MEDIA''"

record 't ad7701h =
  ad_transport :: "'t scsi_transport"
  ad_mutex :: "bool list"
  ad_media :: gdox_mmc_media_tracker
  ad_generation :: u64
  ad_evidence :: disc_evidence
  ad_video :: "byte list"
  ad_aborted :: bool
  ad_aborts :: "bool list"
  ad_commands :: u64
  ad_sectors :: u64
  ad_last_lba :: u64
  ad_dirty :: bool
  ad_faulted :: bool
  ad_prepared :: bool

section \<open>Commands\<close>

definition ad_reject :: "string \<Rightarrow> ('s, 'a) act" where
  "ad_reject m = raise (err ERROR_INVALID_SOURCE m)"

fun ad_put_be :: "byte list \<Rightarrow> nat \<Rightarrow> nat \<Rightarrow> nat \<Rightarrow> byte list" where
  "ad_put_be output p v 0 = output"
| "ad_put_be output p v (Suc k) = ad_put_be (output[p + k := of_nat v]) p (v div 256) k"

abbreviation ad_on_transport :: "('t scsi_transport, 'a) act \<Rightarrow> ('t ad7701h, 'a) act" where
  "ad_on_transport \<equiv> zoom ad_transport ad_transport_update"

definition ad_command_in :: "'t transport_ops \<Rightarrow> byte list \<Rightarrow> nat \<Rightarrow> ('t ad7701h, byte list) act" where
  "ad_command_in tops cdb bytes =
     seq (ad_on_transport (gdox_scsi_command_in tops ''AD-7701H read'' cdb bytes ad_COMMAND_TIMEOUT)) (\<lambda>data.
       if length data \<noteq> bytes
       then raise (err ERROR_TRANSPORT ''AD-7701H returned a short transfer'')
       else ret data)"

definition ad_read_ram_cdb :: "u32 \<Rightarrow> byte list" where
  "ad_read_ram_cdb address = ad_put_be [0xcf, 7, 0, 0, 0, 0, 0, 0, 4, 1, 0, 0] 2 address 4"

definition ad_read_ram :: "'t transport_ops \<Rightarrow> u32 \<Rightarrow> ('t ad7701h, byte list) act" where
  "ad_read_ram tops address = ad_command_in tops (ad_read_ram_cdb address) 4"

definition ad_write_geometry_cdb :: "nat \<Rightarrow> byte \<Rightarrow> byte list" where
  "ad_write_geometry_cdb offset v =
     (ad_put_be ([0xce, 0, 5] @ replicate 9 0) 3 (u32_cast (ad_GEOMETRY_ADDRESS + offset)) 2)[6 := v]"

definition ad_write_geometry_byte :: "'t transport_ops \<Rightarrow> nat \<Rightarrow> byte \<Rightarrow> ('t ad7701h, unit) act" where
  "ad_write_geometry_byte tops offset v =
     (if (offset \<noteq> 1 \<and> offset \<noteq> 2) \<or> (v \<noteq> ad_stock_geometry ! offset \<and> v \<noteq> ad_game_geometry ! offset)
      then ad_reject ''invalid AD-7701H geometry byte''
      else ad_on_transport (gdox_scsi_command_none tops ''AD-7701H geometry byte''
             (ad_write_geometry_cdb offset v) ad_COMMAND_TIMEOUT))"

definition ad_known_geometry :: "byte list \<Rightarrow> bool" where
  "ad_known_geometry v = list_all (\<lambda>i. v ! i = ad_stock_geometry ! i \<or> v ! i = ad_game_geometry ! i) [0..<4]"

definition ad_normal_mode :: "'t transport_ops \<Rightarrow> ('t ad7701h, unit) act" where
  "ad_normal_mode tops =
     seq (ad_read_ram tops ad_MODE_ADDRESS) (\<lambda>mode.
       if mode = replicate 4 0 then ret () else ad_reject ''AD-7701H is not in normal mode'')"

definition ad_baseline :: "'t transport_ops \<Rightarrow> ('t ad7701h, byte list) act" where
  "ad_baseline tops =
     seq (ad_normal_mode tops) (\<lambda>_.
     seq (ad_on_transport (gdox_mmc_read_capacity_10 tops ad_COMMAND_TIMEOUT)) (\<lambda>(last_lba, bytes).
     if \<not> (last_lba = 6991 \<and> bytes = GDOX_LOGICAL_SECTOR_BYTES)
     then ad_reject ''AD-7701H media capacity is not the validated XGD1 layout''
     else ad_on_transport (gdox_mmc_read_10 tops 16 1 1 GDOX_LOGICAL_SECTOR_BYTES GDOX_LOGICAL_SECTOR_BYTES
            ad_COMMAND_TIMEOUT)))"

section \<open>Restoring and activating\<close>

definition ad_restore_offset :: "'t transport_ops \<Rightarrow> byte list \<Rightarrow> nat \<Rightarrow> ('t ad7701h, byte list) act" where
  "ad_restore_offset tops state offset =
     (if state ! offset = ad_stock_geometry ! offset then ret state
      else seq (ad_write_geometry_byte tops offset (ad_stock_geometry ! offset)) (\<lambda>_.
           seq (ad_read_ram tops ad_GEOMETRY_ADDRESS) (\<lambda>state.
             if \<not> ad_known_geometry state \<or> state ! offset \<noteq> ad_stock_geometry ! offset
             then ad_reject ''AD-7701H restoration did not verify''
             else ret state)))"

text \<open>
  The memory comparison after the two bytes fails without an error being set; the error object is
  then as the last command left it, cleared.
\<close>

definition ad_no_error :: gdox_error where
  "ad_no_error = err ERROR_NONE ''''"

definition ad_restore :: "'t transport_ops \<Rightarrow> ('t ad7701h, unit) act" where
  "ad_restore tops c =
     (if \<not> ad_dirty c then (Inr (), c)
      else seq (ad_normal_mode tops) (\<lambda>_.
           seq (ad_read_ram tops ad_GEOMETRY_ADDRESS) (\<lambda>state.
           if \<not> ad_known_geometry state
           then ad_reject ''AD-7701H geometry changed; restoration requires reconnecting the drive''
           else seq (ad_restore_offset tops state 2) (\<lambda>state.
                seq (ad_restore_offset tops state 1) (\<lambda>state.
                if state \<noteq> ad_stock_geometry then raise ad_no_error
                else seq (ad_baseline tops) (\<lambda>video.
                     seq (gets ad_video) (\<lambda>original.
                     if video \<noteq> original
                     then ad_reject ''AD-7701H ordinary read changed after restoration''
                     else modify (\<lambda>c. c\<lparr>ad_dirty := False\<rparr>))))))) c)"

definition ad_activate_offset :: "'t transport_ops \<Rightarrow> byte list \<Rightarrow> nat \<Rightarrow> ('t ad7701h, byte list) act" where
  "ad_activate_offset tops expected offset =
     (let expected = expected[offset := ad_game_geometry ! offset]
      in seq (ad_write_geometry_byte tops offset (expected ! offset)) (\<lambda>_.
         seq (ad_read_ram tops ad_GEOMETRY_ADDRESS) (\<lambda>state.
           if state \<noteq> expected then ad_reject ''AD-7701H activation did not verify'' else ret expected)))"

definition ad_activate :: "'t transport_ops \<Rightarrow> ('t ad7701h, unit) act" where
  "ad_activate tops =
     seq (ad_read_ram tops ad_GEOMETRY_ADDRESS) (\<lambda>state.
     if state \<noteq> ad_stock_geometry then ad_reject ''AD-7701H geometry is not original''
     else seq (modify (\<lambda>c. c\<lparr>ad_dirty := True\<rparr>)) (\<lambda>_.
          seq (ad_activate_offset tops ad_stock_geometry 1) (\<lambda>expected.
          seq (ad_activate_offset tops expected 2) (\<lambda>_. ret ()))))"

section \<open>Firmware\<close>

record ad7701h_host =
  host_context_allocated :: bool
  host_mutex_ready :: bool
  host_buffer_allocated :: bool
  host_stream_allocated :: bool

definition ad_firmware_cdb :: "u32 \<Rightarrow> byte list" where
  "ad_firmware_cdb address = ad_put_be (ad_put_be ([0x3c, 1, 1] @ replicate 7 0) 3 address 3) 6 65536 3"

definition ad_firmware_addresses :: "u32 list" where
  "ad_firmware_addresses = map (\<lambda>i. 0x30000 + i * 65536) [0..<27]"

fun ad_hash_firmware ::
  "'t transport_ops \<Rightarrow> 'd digest_ops \<Rightarrow> u32 list \<Rightarrow> 'd gdox_hash_stream
   \<Rightarrow> ('t ad7701h, 'd gdox_hash_stream) act" where
  "ad_hash_firmware tops digests [] stream = ret stream"
| "ad_hash_firmware tops digests (address # rest) stream =
     seq (ad_command_in tops (ad_firmware_cdb address) 65536) (\<lambda>buffer.
       case gdox_hash_stream_update digests stream buffer of
         (Inl e, stream) \<Rightarrow> raise e
       | (Inr _, stream) \<Rightarrow> ad_hash_firmware tops digests rest stream)"

definition ad_validate_firmware ::
  "'t transport_ops \<Rightarrow> 'd digest_ops \<Rightarrow> ad7701h_host \<Rightarrow> ('t ad7701h, unit) act" where
  "ad_validate_firmware tops digests host =
     (if \<not> host_buffer_allocated host
      then raise (err ERROR_INTERNAL ''could not allocate firmware verification buffer'')
      else (case gdox_hash_stream_create (host_stream_allocated host) digests of
              Inl e \<Rightarrow> raise e
            | Inr stream \<Rightarrow>
                seq (ad_hash_firmware tops digests ad_firmware_addresses stream) (\<lambda>stream.
                  case gdox_hash_stream_finish digests stream of
                    (Inl e, _) \<Rightarrow> raise e
                  | (Inr hashes, _) \<Rightarrow>
                      if sha256 hashes = ad_firmware_sha256 then ret ()
                      else ad_reject ''AD-7701H firmware does not match the validated image'')))"

section \<open>Reading\<close>

definition ad_read_game_cdb :: "u32 \<Rightarrow> u32 \<Rightarrow> byte list" where
  "ad_read_game_cdb lba blocks =
     ad_put_be (ad_put_be ([0xcf, 5, 1, 0x28] @ replicate 8 0) 4 (u32_cast (lba + 0x30000)) 4) 8 blocks 2"

definition ad_read_game :: "'t transport_ops \<Rightarrow> u32 \<Rightarrow> u32 \<Rightarrow> ('t ad7701h, byte list) act" where
  "ad_read_game tops lba blocks =
     seq (ad_command_in tops (ad_read_game_cdb lba blocks) (blocks * GDOX_LOGICAL_SECTOR_BYTES)) (\<lambda>data.
     seq (modify (\<lambda>c. c\<lparr>ad_commands := u64_add (ad_commands c) 1,
                        ad_sectors := u64_add (ad_sectors c) blocks,
                        ad_last_lba := u64_sub (u64_add lba blocks) 1\<rparr>)) (\<lambda>_.
       ret data))"

definition ad_sector_count :: "'t ad7701h \<Rightarrow> u64" where
  "ad_sector_count c = GDOX_XGD1_TOTAL_SECTORS"

text \<open>The test of the abort flag; it fails with \<open>CANCELLED\<close> when the flag is set.\<close>

definition ad_cancelled :: "('t ad7701h, unit) act" where
  "ad_cancelled c =
     (let c = (case ad_aborts c of [] \<Rightarrow> c
               | a # rest \<Rightarrow> c\<lparr>ad_aborts := rest, ad_aborted := (ad_aborted c \<or> a)\<rparr>)
      in if ad_aborted c then (fail ERROR_CANCELLED ''AD-7701H read cancelled'', c) else (Inr (), c))"

function ad_read_chunks :: "'t transport_ops \<Rightarrow> u64 \<Rightarrow> u32 \<Rightarrow> ('t ad7701h, byte list) act" where
  "ad_read_chunks tops lba blocks =
     (if blocks = 0 then ret []
      else (let count = (if blocks < ad_MAX_BLOCKS then blocks else ad_MAX_BLOCKS)
            in seq ad_cancelled (\<lambda>_.
               seq (attempt (ad_read_game tops (u32_cast lba) count)) (\<lambda>result.
               seq ad_cancelled (\<lambda>_.
               case result of
                 Inl e \<Rightarrow> raise e
               | Inr data \<Rightarrow>
                   seq (ad_read_chunks tops (u64_add lba count) (blocks - count)) (\<lambda>rest.
                     ret (data @ rest)))))))"
  by pat_completeness auto
termination
  by (relation "measure (\<lambda>(tops, lba, blocks). blocks)") (auto simp: ad_MAX_BLOCKS_def)

declare ad_read_chunks.simps [simp del]

definition ad_locked :: "string \<Rightarrow> ('t ad7701h, 'a) act \<Rightarrow> ('t ad7701h, 'a) act" where
  "ad_locked m body c =
     (case ad_mutex c of
        [] \<Rightarrow> body c
      | a # rest \<Rightarrow>
          if a then body (c\<lparr>ad_mutex := rest\<rparr>) else (fail ERROR_INTERNAL m, c\<lparr>ad_mutex := rest\<rparr>))"

text \<open>\<open>if (!success) context->faulted = true\<close>.\<close>

definition ad_faulting :: "('t ad7701h, 'a) act \<Rightarrow> ('t ad7701h, 'a) act" where
  "ad_faulting m c =
     (case m c of (Inl e, c) \<Rightarrow> (Inl e, c\<lparr>ad_faulted := True\<rparr>) | (Inr x, c) \<Rightarrow> (Inr x, c))"

definition ad_read_ready :: "'t ad7701h \<Rightarrow> bool" where
  "ad_read_ready c =
     (\<not> (ad_faulted c \<or> ad_prepared c \<or> \<not> ad_dirty c
         \<or> gdox_mmc_media_tracker_transitioned (ad_media c) (ad_generation c)))"

definition ad_read_sectors ::
  "'t transport_ops \<Rightarrow> u64 \<Rightarrow> u32 \<Rightarrow> nat \<Rightarrow> ('t ad7701h, byte list) act" where
  "ad_read_sectors tops lba blocks bytes =
     (case gdox_source_validate_read GDOX_XGD1_TOTAL_SECTORS lba blocks bytes of
        Inl e \<Rightarrow> raise e
      | Inr _ \<Rightarrow>
          ad_locked ''could not lock AD-7701H transport''
            (ad_faulting
              (seq ad_cancelled (\<lambda>_.
               seq (gets ad_read_ready) (\<lambda>ready.
               if \<not> ready then ad_reject ''AD-7701H source must be closed before further reads''
               else seq (ad_read_ram tops ad_GEOMETRY_ADDRESS) (\<lambda>state.
                    if state \<noteq> ad_game_geometry then ad_reject ''AD-7701H media geometry changed''
                    else ad_read_chunks tops lba blocks))))))"

section \<open>Queries and closing\<close>

definition ad_with_media ::
  "('t scsi_transport \<times> gdox_mmc_media_tracker \<Rightarrow> 'a \<times> 't scsi_transport \<times> gdox_mmc_media_tracker)
   \<Rightarrow> 't ad7701h \<Rightarrow> 'a \<times> 't ad7701h" where
  "ad_with_media f c =
     (case f (ad_transport c, ad_media c) of
        (x, transport, tracker) \<Rightarrow> (x, c\<lparr>ad_transport := transport, ad_media := tracker\<rparr>))"

definition ad_unknown_observation :: "u64 \<Rightarrow> media_observation" where
  "ad_unknown_observation g = \<lparr>readiness = MEDIA_READINESS_UNKNOWN, generation = g, event = MEDIA_EVENT_NONE\<rparr>"

definition ad_observe_media :: "'t transport_ops \<Rightarrow> 't ad7701h \<Rightarrow> media_observation \<times> 't ad7701h" where
  "ad_observe_media tops c =
     (case ad_locked ''''
             (\<lambda>c. if \<not> ad_prepared c \<and> \<not> ad_faulted c
                  then (case ad_with_media (gdox_mmc_observe_media tops 1000) c of (ob, c) \<Rightarrow> (Inr ob, c))
                  else (Inr (ad_unknown_observation (mt_generation (ad_media c))), c)) c of
        (Inl _, c) \<Rightarrow> (ad_unknown_observation 0, c)
      | (Inr ob, c) \<Rightarrow> (ob, c))"

definition ad_media_present :: "'t transport_ops \<Rightarrow> 't ad7701h \<Rightarrow> bool \<times> 't ad7701h" where
  "ad_media_present tops c =
     (case ad_observe_media tops c of (ob, c) \<Rightarrow> (readiness ob = MEDIA_READINESS_PRESENT, c))"

definition ad_read_evidence :: "'t ad7701h \<Rightarrow> bool \<times> disc_evidence" where
  "ad_read_evidence c = (pfi_present (ad_evidence c) \<and> dmi_present (ad_evidence c), ad_evidence c)"

definition ad_read_stats :: "'t ad7701h \<Rightarrow> bool \<times> physical_read_stats" where
  "ad_read_stats c =
     (True, \<lparr>stat_commands = ad_commands c, stat_sectors = ad_sectors c,
             stat_bytes = u64_mul (ad_sectors c) GDOX_LOGICAL_SECTOR_BYTES, stat_last_lba = ad_last_lba c\<rparr>)"

definition ad_abort_reads :: "'t ad7701h \<Rightarrow> 't ad7701h" where
  "ad_abort_reads c = c\<lparr>ad_aborted := True\<rparr>"

definition ad_prepare_close :: "'t transport_ops \<Rightarrow> ('t ad7701h, unit) act" where
  "ad_prepare_close tops c =
     (if ad_prepared c then (Inr (), c)
      else ad_locked ''could not lock AD-7701H for restoration''
             (\<lambda>c. case seq (ad_restore tops)
                        (\<lambda>_. ad_on_transport (gdox_scsi_transport_prepare_close tops))
                        (c\<lparr>ad_faulted := True\<rparr>) of
                    (Inl e, c) \<Rightarrow> (Inl e, c\<lparr>ad_prepared := False\<rparr>)
                  | (Inr _, c) \<Rightarrow> (Inr (), c\<lparr>ad_prepared := True\<rparr>)) c)"

text \<open>The context is freed whatever the transport answers; a handle still open is then lost.\<close>

definition ad_close_source :: "'t transport_ops \<Rightarrow> 't ad7701h \<Rightarrow> unit res \<times> bool" where
  "ad_close_source tops c =
     (case gdox_scsi_transport_close tops (ad_transport c) of
        (r, transport) \<Rightarrow> (r, gdox_scsi_transport_is_valid transport))"

definition ad7701h_ops :: "'t transport_ops \<Rightarrow> 't ad7701h source_ops" where
  "ad7701h_ops tops =
     \<lparr>op_sector_count = ad_sector_count,
      op_read = (\<lambda>c lba blocks bytes. ad_read_sectors tops lba blocks bytes c),
      op_media_present = Some (ad_media_present tops),
      op_close = ad_close_source tops,
      op_evidence = Some ad_read_evidence,
      op_physical_read_stats = Some ad_read_stats,
      op_abort = Some ad_abort_reads,
      op_prepare_close = Some (ad_prepare_close tops),
      op_observe_media = Some (ad_observe_media tops)\<rparr>"

section \<open>Opening\<close>

definition ad_strcmp :: "byte list \<Rightarrow> byte list \<Rightarrow> bool" where
  "ad_strcmp field expected = (takeWhile (\<lambda>b. b \<noteq> 0) field = expected)"

definition ad_check_identity :: "'t transport_ops \<Rightarrow> ('t ad7701h, unit) act" where
  "ad_check_identity tops =
     seq (ad_on_transport (gdox_mmc_inquiry tops ad_COMMAND_TIMEOUT)) (\<lambda>identity.
       if \<not> ad_strcmp (id_vendor identity) ad_vendor \<or> \<not> ad_strcmp (id_model identity) ad_model
          \<or> \<not> ad_strcmp (id_revision identity) ad_revision
       then ad_reject ''AD-7701H identity does not match the validated drive''
       else ret ())"

definition ad_read_structure :: "'t transport_ops \<Rightarrow> byte \<Rightarrow> ('t ad7701h, byte list) act" where
  "ad_read_structure tops format =
     seq (ad_on_transport (gdox_mmc_read_dvd_structure tops format 2052 ad_COMMAND_TIMEOUT)) (\<lambda>data.
       if length data \<noteq> 2052 then ad_reject ''AD-7701H disc metadata is incomplete'' else ret data)"

definition ad_disc_metadata :: "'t transport_ops \<Rightarrow> ('t ad7701h, unit) act" where
  "ad_disc_metadata tops =
     seq (ad_read_structure tops 0) (\<lambda>data.
     if take 20 data \<noteq> ad_stock_pfi
     then ad_reject ''AD-7701H disc geometry is not the validated XGD1 layout''
     else seq (modify (\<lambda>c. c\<lparr>ad_evidence := (ad_evidence c)\<lparr>pfi := drop 4 data, pfi_present := True\<rparr>\<rparr>)) (\<lambda>_.
          seq (ad_read_structure tops 4) (\<lambda>data.
            modify (\<lambda>c. c\<lparr>ad_evidence := (ad_evidence c)
              \<lparr>dmi := drop 4 data, dmi_present := True,
               evidence_note := ''Security-sector evidence is unavailable.''\<rparr>\<rparr>))))"

definition ad_check_descriptor :: "'t transport_ops \<Rightarrow> ('t ad7701h, unit) act" where
  "ad_check_descriptor tops =
     seq (ad_read_game tops 0x30620 1) (\<lambda>data.
       if take 20 data \<noteq> xdvdfs_magic \<or> take 20 (drop (2048 - 20) data) \<noteq> xdvdfs_magic
       then ad_reject ''AD-7701H did not return an XDVDFS descriptor''
       else ret ())"

definition ad_begin_session :: "'t transport_ops \<Rightarrow> ('t ad7701h, unit) act" where
  "ad_begin_session tops c =
     (case ad_with_media (\<lambda>st. ((), gdox_mmc_media_tracker_begin_session tops ad_COMMAND_TIMEOUT st)) c of
        (_, c) \<Rightarrow> (Inr (), c\<lparr>ad_generation := mt_generation (ad_media c)\<rparr>))"

definition ad_initialize ::
  "'t transport_ops \<Rightarrow> 'd digest_ops \<Rightarrow> ad7701h_host \<Rightarrow> u32 \<Rightarrow> ('t ad7701h, unit) act" where
  "ad_initialize tops digests host ready_timeout =
     seq (ad_check_identity tops) (\<lambda>_.
     seq (ad_on_transport (gdox_mmc_test_unit_ready tops
            (if ready_timeout \<noteq> 0 then ready_timeout else ad_COMMAND_TIMEOUT))) (\<lambda>_.
     seq (ad_validate_firmware tops digests host) (\<lambda>_.
     seq (ad_read_ram tops ad_GEOMETRY_ADDRESS) (\<lambda>state.
     if state \<noteq> ad_stock_geometry then ad_reject ''AD-7701H geometry is not original''
     else seq (ad_baseline tops) (\<lambda>video.
          seq (modify (\<lambda>c. c\<lparr>ad_video := video\<rparr>)) (\<lambda>_.
          seq (ad_disc_metadata tops) (\<lambda>_.
          seq (ad_activate tops) (\<lambda>_.
          seq (ad_check_descriptor tops) (\<lambda>_.
            ad_begin_session tops)))))))))"

definition new_ad7701h :: "bool list \<Rightarrow> bool list \<Rightarrow> 't scsi_transport \<Rightarrow> 't ad7701h" where
  "new_ad7701h locks aborts transport =
     \<lparr>ad_transport = transport, ad_mutex = locks, ad_media = fresh_tracker, ad_generation = 0,
      ad_evidence = gdox_disc_evidence_clear, ad_video = replicate GDOX_LOGICAL_SECTOR_BYTES 0,
      ad_aborted = False, ad_aborts = aborts, ad_commands = 0, ad_sectors = 0, ad_last_lba = 0,
      ad_dirty = False, ad_faulted = False, ad_prepared = False\<rparr>"

text \<open>
  Opening: the result, the source handle of the caller, and the context as a failed opening released
  it (none when it never had a transport or the caller keeps it). \<open>source\<close> is the caller's handle
  before the call; \<open>locks\<close> and \<open>aborts\<close> are the scripts of the new context.
\<close>

definition ad_release_failed ::
  "'t transport_ops \<Rightarrow> gdox_error \<Rightarrow> 't ad7701h \<Rightarrow> unit res \<times> 't ad7701h sector_source \<times> 't ad7701h option" where
  "ad_release_failed tops original c =
     (if gdox_scsi_transport_is_valid (ad_transport c)
      then (case gdox_source_close (ad7701h_ops tops) (Some c) of
              (r, lost, source) \<Rightarrow>
                (case r of Inl cleanup \<Rightarrow> Inl cleanup | Inr _ \<Rightarrow> Inl original, source,
                 if source = None then snd (gdox_source_prepare_close (ad7701h_ops tops) (Some c)) else None))
      else (Inl original, None, None))"

definition gdox_ad7701h_source_open ::
  "'t transport_ops \<Rightarrow> 'd digest_ops \<Rightarrow> unit res \<times> 't scsi_transport \<Rightarrow> ad7701h_host
   \<Rightarrow> bool list \<Rightarrow> bool list \<Rightarrow> u32 \<Rightarrow> 't ad7701h sector_source
   \<Rightarrow> unit res \<times> 't ad7701h sector_source \<times> 't ad7701h option" where
  "gdox_ad7701h_source_open tops digests opener host locks aborts ready_timeout_ms source =
     (if gdox_source_is_valid source
      then (fail ERROR_INVALID_ARGUMENT ''an opener and empty AD-7701H source are required'', source, None)
      else if \<not> host_context_allocated host
      then (fail ERROR_INTERNAL ''could not allocate AD-7701H source'', source, None)
      else if \<not> host_mutex_ready host
      then (fail ERROR_INTERNAL ''could not initialize AD-7701H lock'', source, None)
      else (case opener of
              (Inl original, transport) \<Rightarrow> ad_release_failed tops original (new_ad7701h locks aborts transport)
            | (Inr _, transport) \<Rightarrow>
                (case ad_initialize tops digests host ready_timeout_ms (new_ad7701h locks aborts transport) of
                   (Inl original, c) \<Rightarrow> ad_release_failed tops original c
                 | (Inr _, c) \<Rightarrow> (Inr (), Some c, None))))"

section \<open>Sample data\<close>

definition zero_block :: "nat \<Rightarrow> byte list" where
  "zero_block n = replicate n 0"

lemma length_zero_block [simp]: "length (zero_block n) = n"
  by (simp add: zero_block_def)

definition sample_descriptor :: "byte list" where
  "sample_descriptor = xdvdfs_magic @ zero_block 2008 @ xdvdfs_magic"

end
