(* ===== verification/Ad7701hDrive.thy ===== *)
theory Ad7701hDrive
  imports Ad7701h
begin

text \<open>
  What the AD-7701H source does to its drive, for any transport. The source is shown to send only
  the commands listed by \<open>ad_query\<close> and \<open>ad_poke\<close>; an invariant of the drive that those commands
  keep is then kept by every operation. Two invariants are followed: the log of a recording transport
  (no other command is ever sent), and the geometry bytes of a drive with a volatile RAM (no closed
  source leaves them changed).
\<close>

section \<open>The commands of the driver\<close>

text \<open>Data-in commands with the bytes they ask for.\<close>

definition ad_query :: "byte list \<Rightarrow> nat \<Rightarrow> bool" where
  "ad_query cdb n \<longleftrightarrow>
     cdb = inquiry_cdb \<and> n = 96
     \<or> cdb = request_sense_cdb \<and> n = 18
     \<or> cdb = media_event_cdb \<and> n = 8
     \<or> cdb = read_capacity_cdb \<and> n = 8
     \<or> (cdb = read_dvd_structure_cdb 0 2052 \<or> cdb = read_dvd_structure_cdb 4 2052) \<and> n = 2052
     \<or> cdb = read_blocks_cdb 0x28 16 1 \<and> n = GDOX_LOGICAL_SECTOR_BYTES
     \<or> (\<exists>address \<in> set ad_firmware_addresses. cdb = ad_firmware_cdb address) \<and> n = 65536
     \<or> (cdb = ad_read_ram_cdb ad_GEOMETRY_ADDRESS \<or> cdb = ad_read_ram_cdb ad_MODE_ADDRESS) \<and> n = 4
     \<or> (\<exists>lba blocks. 0 < blocks \<and> blocks \<le> ad_MAX_BLOCKS \<and> lba + blocks \<le> GDOX_XGD1_TOTAL_SECTORS
          \<and> cdb = ad_read_game_cdb lba blocks \<and> n = blocks * GDOX_LOGICAL_SECTOR_BYTES)"

text \<open>Writes of a geometry byte: the two volatile bytes, with their original or game values.\<close>

definition ad_poke :: "byte list \<Rightarrow> bool" where
  "ad_poke cdb \<longleftrightarrow>
     (\<exists>offset \<in> {1, 2}. cdb = ad_write_geometry_cdb offset (ad_stock_geometry ! offset)
        \<or> cdb = ad_write_geometry_cdb offset (ad_game_geometry ! offset))"

text \<open>The drive's predicate together with the flags that say what the source owes the drive.\<close>

definition ad_holds :: "('t \<Rightarrow> bool) \<Rightarrow> bool \<Rightarrow> bool \<Rightarrow> 't ad7701h \<Rightarrow> bool" where
  "ad_holds K dirty prepared c \<longleftrightarrow>
     ad_dirty c = dirty \<and> ad_prepared c = prepared \<and> open_holds K (ad_transport c)"

lemma keeps_on_transport:
  "keeps (open_holds K) m \<Longrightarrow> keeps (ad_holds K d p) (ad_on_transport m)"
  by (auto simp: keeps_def ad_holds_def zoom_def split: prod.splits)

lemma keeps_locally [keeps_rules]:
  "(\<And>c. ad_transport (f c) = ad_transport c \<and> ad_dirty (f c) = ad_dirty c \<and> ad_prepared (f c) = ad_prepared c) \<Longrightarrow>
   keeps (ad_holds K d p) (modify f)"
  by (rule keeps_modify) (simp add: ad_holds_def)

lemma keeps_reject [keeps_rules]: "keeps I (ad_reject m)"
  by (simp add: ad_reject_def keeps_rules)

section \<open>Queries keep the drive's predicate\<close>

text \<open>The contract of a predicate that the queries of the driver keep.\<close>

locale quiet_drive =
  fixes tops :: "'t transport_ops" and K :: "'t \<Rightarrow> bool"
  assumes query: "ad_query cdb n \<Longrightarrow> K t \<Longrightarrow> top_command_in tops t name cdb n timeout_ms = (r, t') \<Longrightarrow> K t'"
    and ready: "K t \<Longrightarrow> top_command_none tops t name test_unit_ready_cdb timeout_ms = (q, t') \<Longrightarrow> K t'"
begin

lemma quiet_query:
  "ad_query cdb n \<Longrightarrow> keeps (open_holds K) (gdox_scsi_command_in tops name cdb n timeout_ms)"
  using query by (intro keeps_command_in keepsI) blast

lemma quiet_ready: "keeps (open_holds K) (gdox_mmc_test_unit_ready tops timeout_ms)"
  unfolding gdox_mmc_test_unit_ready_def using ready by (intro keeps_command_none keepsI) blast

lemma quiet_command_in: "ad_query cdb n \<Longrightarrow> keeps (ad_holds K d p) (ad_command_in tops cdb n)"
  unfolding ad_command_in_def by (intro keeps_rules keeps_on_transport quiet_query)

lemma quiet_read_ram:
  "address = ad_GEOMETRY_ADDRESS \<or> address = ad_MODE_ADDRESS \<Longrightarrow> keeps (ad_holds K d p) (ad_read_ram tops address)"
  unfolding ad_read_ram_def by (rule quiet_command_in) (auto simp: ad_query_def)

lemma quiet_normal_mode: "keeps (ad_holds K d p) (ad_normal_mode tops)"
  unfolding ad_normal_mode_def by (intro keeps_rules quiet_read_ram) simp

lemma quiet_baseline: "keeps (ad_holds K d p) (ad_baseline tops)"
  unfolding ad_baseline_def gdox_mmc_read_capacity_10_def gdox_mmc_read_10_def read_blocks_def
  by (intro keeps_rules keeps_on_transport quiet_normal_mode quiet_query) (auto simp: ad_query_def)

lemma quiet_hash_firmware:
  "set addresses \<subseteq> set ad_firmware_addresses \<Longrightarrow>
   keeps (ad_holds K d p) (ad_hash_firmware tops digests addresses stream)"
proof (induction addresses arbitrary: stream)
  case (Cons a as)
  then have "ad_query (ad_firmware_cdb a) 65536" by (auto simp: ad_query_def)
  with Cons show ?case by (auto intro!: keeps_rules quiet_command_in)
qed (simp add: keeps_rules)

lemma quiet_validate_firmware: "keeps (ad_holds K d p) (ad_validate_firmware tops digests host)"
  unfolding ad_validate_firmware_def by (intro keeps_rules quiet_hash_firmware) simp

lemma quiet_check_identity: "keeps (ad_holds K d p) (ad_check_identity tops)"
  unfolding ad_check_identity_def gdox_mmc_inquiry_def
  by (intro keeps_rules keeps_on_transport quiet_query) (simp add: ad_query_def)

lemma quiet_disc_metadata: "keeps (ad_holds K d p) (ad_disc_metadata tops)"
  unfolding ad_disc_metadata_def ad_read_structure_def gdox_mmc_read_dvd_structure_def
  by (intro keeps_rules keeps_on_transport quiet_query) (auto simp: ad_query_def)

lemma quiet_read_game:
  assumes "0 < blocks" "blocks \<le> ad_MAX_BLOCKS" "lba + blocks \<le> GDOX_XGD1_TOTAL_SECTORS"
  shows "keeps (ad_holds K d p) (ad_read_game tops lba blocks)"
proof -
  have "ad_query (ad_read_game_cdb lba blocks) (blocks * GDOX_LOGICAL_SECTOR_BYTES)"
    using assms unfolding ad_query_def by blast
  then show ?thesis
    unfolding ad_read_game_def by (intro keeps_rules quiet_command_in) auto
qed

lemma quiet_cancelled: "keeps (ad_holds K d p) ad_cancelled"
  by (auto simp: keeps_def ad_cancelled_def ad_holds_def Let_def split: list.splits)

lemma quiet_read_chunks:
  "lba + blocks \<le> GDOX_XGD1_TOTAL_SECTORS \<Longrightarrow> keeps (ad_holds K d p) (ad_read_chunks tops lba blocks)"
proof (induction blocks arbitrary: lba rule: less_induct)
  case (less blocks)
  show ?case
  proof (cases "blocks = 0")
    case False
    define n where "n = (if blocks < ad_MAX_BLOCKS then blocks else ad_MAX_BLOCKS)"
    have n: "0 < n" "n \<le> ad_MAX_BLOCKS" "n \<le> blocks"
      using False by (auto simp: n_def ad_MAX_BLOCKS_def)
    have lba: "u32_cast lba = lba" "u64_add lba n = lba + n" "lba + n \<le> GDOX_XGD1_TOTAL_SECTORS"
      using less.prems n by (auto simp: GDOX_XGD1_TOTAL_SECTORS_def)
    have rest: "keeps (ad_holds K d p) (ad_read_chunks tops (lba + n) (blocks - n))"
      using n less.prems False by (intro less.IH) auto
    have eq: "ad_read_chunks tops lba blocks =
        seq ad_cancelled (\<lambda>_. seq (attempt (ad_read_game tops lba n)) (\<lambda>result. seq ad_cancelled (\<lambda>_.
          case result of Inl e \<Rightarrow> raise e
          | Inr data \<Rightarrow> seq (ad_read_chunks tops (lba + n) (blocks - n)) (\<lambda>rest. ret (data @ rest)))))"
      using False by (subst ad_read_chunks.simps) (simp only: Let_def n_def[symmetric] lba if_False)
    show ?thesis
      unfolding eq using n lba by (intro keeps_rules quiet_cancelled quiet_read_game rest) auto
  qed (simp add: ad_read_chunks.simps keeps_rules)
qed

lemma quiet_locked: "keeps (ad_holds K d p) body \<Longrightarrow> keeps (ad_holds K d p) (ad_locked m body)"
  by (auto simp: keeps_def ad_locked_def ad_holds_def split: list.splits)

lemma quiet_faulting: "keeps (ad_holds K d p) m \<Longrightarrow> keeps (ad_holds K d p) (ad_faulting m)"
  by (fastforce simp: keeps_def ad_faulting_def ad_holds_def split: prod.splits sum.splits)

lemma quiet_read_sectors: "keeps (ad_holds K d p) (ad_read_sectors tops lba blocks bytes)"
proof (cases "gdox_source_validate_read GDOX_XGD1_TOTAL_SECTORS lba blocks bytes")
  case (Inr u)
  then have "lba + blocks \<le> GDOX_XGD1_TOTAL_SECTORS"
    using validate_read_ok_iff[of GDOX_XGD1_TOTAL_SECTORS lba blocks bytes]
    by (simp add: GDOX_XGD1_TOTAL_SECTORS_def)
  then show ?thesis
    unfolding ad_read_sectors_def
    by (simp add: Inr) (intro keeps_rules quiet_locked quiet_faulting quiet_cancelled quiet_read_ram quiet_read_chunks; simp)
qed (simp add: ad_read_sectors_def keeps_rules)

text \<open>The tracker's operations, which thread the transport beside the tracker.\<close>

lemma quiet_request_sense: "keeps (open_holds K) (gdox_mmc_request_sense tops timeout_ms)"
  unfolding gdox_mmc_request_sense_def by (rule quiet_query) (simp add: ad_query_def)

lemma quiet_capture:
  "open_holds K transport \<Longrightarrow>
   gdox_mmc_media_tracker_capture_transport_sense tops timeout_ms (transport, tracker) = (b, transport', tracker') \<Longrightarrow>
   open_holds K transport'"
  using keepsD[OF quiet_request_sense]
  by (fastforce simp: gdox_mmc_media_tracker_capture_transport_sense_def
      split: if_splits option.splits prod.splits sum.splits)

lemma quiet_poll:
  assumes "open_holds K transport"
    and "poll_media_event tops timeout_ms (transport, tracker) = (x, transport', tracker')"
  shows "open_holds K transport'"
proof -
  obtain r t where cmd: "gdox_scsi_command_in tops ''GET EVENT STATUS NOTIFICATION (media)'' media_event_cdb 8
      timeout_ms transport = (r, t)" by fastforce
  have "ad_query media_event_cdb 8" by (simp add: ad_query_def)
  then have t: "open_holds K t" by (rule keepsD[OF quiet_query assms(1) cmd])
  show ?thesis
    using assms(2) cmd t assms(1) quiet_capture[OF t]
    by (cases r) (auto simp: poll_media_event_def split: if_splits prod.splits option.splits)
qed

lemma quiet_poll_baseline:
  "open_holds K (fst st) \<Longrightarrow> open_holds K (fst (poll_baseline tops timeout_ms k st))"
proof (induction k arbitrary: st)
  case (Suc k)
  obtain ok ev transport tracker where p: "poll_media_event tops timeout_ms st = ((ok, ev), transport, tracker)"
    by (metis prod.exhaust)
  then have "open_holds K transport"
    using quiet_poll[of "fst st" timeout_ms "snd st"] Suc.prems by simp
  with p show ?case using Suc.IH[of "(transport, tracker)"] by simp
qed simp

lemma quiet_observed_sense:
  "open_holds K transport \<Longrightarrow>
   observed_sense tops timeout_ms (transport, tracker) = (known, transport', tracker') \<Longrightarrow> open_holds K transport'"
  using keepsD[OF quiet_request_sense]
  by (fastforce simp: observed_sense_def split: if_splits option.splits prod.splits sum.splits)

lemma quiet_observe:
  assumes "open_holds K transport"
    and "gdox_mmc_observe_media tops timeout_ms (transport, tracker) = (ob, transport', tracker')"
  shows "open_holds K transport'"
proof (cases "gdox_scsi_transport_is_valid transport")
  case True
  obtain ok t1 m1 where p: "gdox_mmc_poll_media_event tops timeout_ms (transport, tracker) = (ok, t1, m1)"
    by (metis prod.exhaust)
  then have t1: "open_holds K t1"
    using assms(1) by (auto simp: gdox_mmc_poll_media_event_def split: prod.splits intro: quiet_poll)
  obtain r t2 where u: "gdox_mmc_test_unit_ready tops timeout_ms t1 = (r, t2)" by fastforce
  have t2: "open_holds K t2" by (rule keepsD[OF quiet_ready t1 u])
  show ?thesis
    using assms(2) True p u t2 quiet_observed_sense[OF t2]
    by (cases r) (auto simp: gdox_mmc_observe_media_def Let_def split: prod.splits)
qed (use assms in \<open>simp add: gdox_mmc_observe_media_def Let_def\<close>)

lemma quiet_ad_observe: "ad_holds K d p c \<Longrightarrow> ad_holds K d p (snd (ad_observe_media tops c))"
proof -
  have "keeps (ad_holds K d p)
      (\<lambda>c. if \<not> ad_prepared c \<and> \<not> ad_faulted c
           then (case ad_with_media (gdox_mmc_observe_media tops 1000) c of (ob, c) \<Rightarrow> (Inr ob, c))
           else (Inr (ad_unknown_observation (mt_generation (ad_media c))), c))"
    by (rule keepsI) (auto simp: ad_with_media_def ad_holds_def split: if_splits prod.splits intro: quiet_observe)
  from quiet_locked[OF this, of "''''"] show "ad_holds K d p c \<Longrightarrow> ad_holds K d p (snd (ad_observe_media tops c))"
    by (auto simp: keeps_def ad_observe_media_def split: prod.splits sum.splits)
qed

lemma quiet_begin_session: "keeps (ad_holds K d p) (ad_begin_session tops)"
proof (rule keepsI)
  fix c r c'
  assume c: "ad_holds K d p c" and b: "ad_begin_session tops c = (r, c')"
  obtain t m where st: "gdox_mmc_media_tracker_begin_session tops ad_COMMAND_TIMEOUT (ad_transport c, ad_media c) = (t, m)"
    by fastforce
  then have "open_holds K t"
    using quiet_poll_baseline[of "(ad_transport c, ad_media c)" ad_COMMAND_TIMEOUT baseline_event_limit] c
    by (auto simp: gdox_mmc_media_tracker_begin_session_def ad_holds_def split: prod.splits)
  with c b st show "ad_holds K d p c'"
    by (auto simp: ad_begin_session_def ad_with_media_def ad_holds_def)
qed

end

section \<open>The contract of the drive\<close>

text \<open>
  \<open>I dirty t\<close> is what is known of a drive whose geometry the source owes a restoration when \<open>dirty\<close>;
  \<open>V t\<close> is what a read of the original geometry shows. Between the laws, the driver has to prove
  that it clears \<open>dirty\<close> only after such a read, and pokes only while \<open>dirty\<close>.
\<close>

definition ad_shown :: "(bool \<Rightarrow> 't \<Rightarrow> bool) \<Rightarrow> ('t \<Rightarrow> bool) \<Rightarrow> byte list \<Rightarrow> 't \<Rightarrow> bool" where
  "ad_shown I V state t \<longleftrightarrow> I True t \<and> (state = ad_stock_geometry \<longrightarrow> V t)"

definition ad_owed :: "(bool \<Rightarrow> 't \<Rightarrow> bool) \<Rightarrow> 't ad7701h \<Rightarrow> bool" where
  "ad_owed I c \<longleftrightarrow>
     ad_holds (I (ad_dirty c)) (ad_dirty c) (ad_prepared c) c \<and> (ad_prepared c \<longrightarrow> \<not> ad_dirty c)"

locale ad_drive =
  fixes tops :: "'t transport_ops" and I :: "bool \<Rightarrow> 't \<Rightarrow> bool" and V :: "'t \<Rightarrow> bool"
  assumes queries: "ad_query cdb n \<Longrightarrow> I d t \<Longrightarrow> top_command_in tops t name cdb n timeout_ms = (r, t') \<Longrightarrow>
      I d t' \<and> (V t \<longrightarrow> V t')"
    and readies: "I d t \<Longrightarrow> top_command_none tops t name test_unit_ready_cdb timeout_ms = (q, t') \<Longrightarrow>
      I d t' \<and> (V t \<longrightarrow> V t')"
    and seen: "I True t \<Longrightarrow>
      top_command_in tops t name (ad_read_ram_cdb ad_GEOMETRY_ADDRESS) 4 timeout_ms = (Inr ad_stock_geometry, t') \<Longrightarrow> V t'"
    and poke: "ad_poke cdb \<Longrightarrow> I True t \<Longrightarrow> top_command_none tops t name cdb timeout_ms = (q, t') \<Longrightarrow> I True t'"
    and arm: "I False t \<Longrightarrow> I True t"
    and disarm: "I True t \<Longrightarrow> V t \<Longrightarrow> I False t"
    and prepare: "top_prepare_close tops = Some f \<Longrightarrow> I d t \<Longrightarrow> f t = (q, t') \<Longrightarrow> I d t'"
begin

sublocale owed: quiet_drive tops "I d" for d
  by unfold_locales (use queries readies in blast)+

sublocale verified: quiet_drive tops "\<lambda>t. I True t \<and> V t"
  by unfold_locales (use queries readies in blast)+

lemma holds_shown: "ad_holds (ad_shown I V state) d p c \<Longrightarrow> ad_holds (I True) d p c"
  by (auto simp: ad_holds_def ad_shown_def open_holds_def)

lemma poke_step:
  "keeps (ad_holds (I True) True p) (ad_write_geometry_byte tops offset v)"
proof (cases "(offset \<noteq> 1 \<and> offset \<noteq> 2) \<or> (v \<noteq> ad_stock_geometry ! offset \<and> v \<noteq> ad_game_geometry ! offset)")
  case False
  then have "ad_poke (ad_write_geometry_cdb offset v)" by (auto simp: ad_poke_def)
  then have "keeps (open_holds (I True))
      (gdox_scsi_command_none tops ''AD-7701H geometry byte'' (ad_write_geometry_cdb offset v) ad_COMMAND_TIMEOUT)"
    using poke by (intro keeps_command_none keepsI) blast
  with False show ?thesis
    unfolding ad_write_geometry_byte_def by (simp only: if_False keeps_on_transport)
qed (simp add: ad_write_geometry_byte_def keeps_rules)

lemma read_shows:
  "leads (ad_holds (I True) True p) (ad_read_ram tops ad_GEOMETRY_ADDRESS)
     (outcome (ad_holds (I True) True p) (\<lambda>state. ad_holds (ad_shown I V state) True p))"
proof (rule leadsI)
  fix c r c'
  assume c: "ad_holds (I True) True p c" and m: "ad_read_ram tops ad_GEOMETRY_ADDRESS c = (r, c')"
  have k: "ad_holds (I True) True p c'"
    by (rule keepsD[OF owed.quiet_read_ram c m]) simp
  show "outcome (ad_holds (I True) True p) (\<lambda>state. ad_holds (ad_shown I V state) True p) r c'"
  proof (cases r)
    case (Inr state)
    obtain t where t: "gdox_scsi_command_in tops ''AD-7701H read'' (ad_read_ram_cdb ad_GEOMETRY_ADDRESS) 4
        ad_COMMAND_TIMEOUT (ad_transport c) = (Inr state, t)" and c': "ad_transport c' = t"
      using m Inr
      by (auto simp: ad_read_ram_def ad_command_in_def seq_ok zoom_def ret_def raise_def split: prod.splits if_splits)
    obtain u u' where u: "ad_transport c = Some u" "t = Some u'"
        "top_command_in tops u ''AD-7701H read'' (ad_read_ram_cdb ad_GEOMETRY_ADDRESS) 4 ad_COMMAND_TIMEOUT = (Inr state, u')"
      using command_in_ok[OF t] by blast
    have "I True u" using c u(1) by (simp add: ad_holds_def)
    with seen u(3) have "state = ad_stock_geometry \<longrightarrow> V u'" by blast
    with k c' u(2) Inr show ?thesis by (simp add: ad_holds_def ad_shown_def)
  qed (use k in simp)
qed

lemma restore_offset_shows:
  "leads (ad_holds (ad_shown I V state) True p) (ad_restore_offset tops state offset)
     (outcome (ad_holds (I True) True p) (\<lambda>state. ad_holds (ad_shown I V state) True p))"
  unfolding ad_restore_offset_def ad_reject_def
  by (intro outcome_if outcome_ret outcome_raise outcome_seq[OF read_shows]
        outcome_seq[OF outcome_pre[OF outcome_keeps[OF poke_step]]])
     (auto intro: holds_shown)

lemma baseline_shows:
  "leads (ad_holds (\<lambda>t. I True t \<and> V t) True p) (ad_baseline tops)
     (outcome (ad_holds (I True) True p) (\<lambda>_. ad_holds (\<lambda>t. I True t \<and> V t) True p))"
  by (rule outcome_post[OF outcome_keeps[OF verified.quiet_baseline]]) (auto simp: ad_holds_def open_holds_def)

lemma restore_settles:
  "leads (ad_holds (I d) d p) (ad_restore tops)
     (outcome (ad_holds (I d) d p) (\<lambda>_. ad_holds (I False) False p))"
proof (cases d)
  case True
  let ?E = "ad_holds (I True) True p"
  let ?R = "\<lambda>_. ad_holds (I False) False p"
  have finish: "leads (ad_holds (\<lambda>t. I True t \<and> V t) True p)
      (seq (gets ad_video) (\<lambda>original. if video \<noteq> original
         then ad_reject ''AD-7701H ordinary read changed after restoration''
         else modify (\<lambda>c. c\<lparr>ad_dirty := False\<rparr>))) (outcome ?E ?R)" for video
    unfolding ad_reject_def
    by (rule outcome_seq[where R = "\<lambda>_. ad_holds (\<lambda>t. I True t \<and> V t) True p"])
       (auto intro!: outcome_gets outcome_if outcome_raise outcome_modify simp: ad_holds_def open_holds_def disarm)
  have compare: "leads (ad_holds (ad_shown I V state) True p)
      (if state \<noteq> ad_stock_geometry then raise ad_no_error
       else seq (ad_baseline tops) (\<lambda>video. seq (gets ad_video) (\<lambda>original. if video \<noteq> original
         then ad_reject ''AD-7701H ordinary read changed after restoration''
         else modify (\<lambda>c. c\<lparr>ad_dirty := False\<rparr>)))) (outcome ?E ?R)" for state
    by (intro outcome_if outcome_raise outcome_seq[OF outcome_pre[OF baseline_shows] finish])
       (auto intro: holds_shown simp: ad_holds_def ad_shown_def open_holds_def)
  have body: "leads ?E (seq (ad_normal_mode tops) (\<lambda>_. seq (ad_read_ram tops ad_GEOMETRY_ADDRESS) (\<lambda>state.
      if \<not> ad_known_geometry state
      then ad_reject ''AD-7701H geometry changed; restoration requires reconnecting the drive''
      else seq (ad_restore_offset tops state 2) (\<lambda>state. seq (ad_restore_offset tops state 1) (\<lambda>state.
           if state \<noteq> ad_stock_geometry then raise ad_no_error
           else seq (ad_baseline tops) (\<lambda>video. seq (gets ad_video) (\<lambda>original. if video \<noteq> original
             then ad_reject ''AD-7701H ordinary read changed after restoration''
             else modify (\<lambda>c. c\<lparr>ad_dirty := False\<rparr>)))))))) (outcome ?E ?R)"
    by (rule outcome_seq[OF outcome_keeps[OF owed.quiet_normal_mode]], rule outcome_seq[OF read_shows],
        rule outcome_if, simp add: ad_reject_def outcome_raise holds_shown,
        rule outcome_seq[OF restore_offset_shows], rule outcome_seq[OF restore_offset_shows], rule compare)
  show ?thesis
  proof (rule leadsI)
    fix c r c'
    assume c: "ad_holds (I d) d p c" and m: "ad_restore tops c = (r, c')"
    have dirty: "ad_dirty c" using c True by (simp add: ad_holds_def)
    show "outcome (ad_holds (I d) d p) ?R r c'"
      using leadsD[OF body, of c r c'] c m True by (simp add: ad_restore_def dirty)
  qed
next
  case False
  then show ?thesis
    by (auto intro!: leadsI simp: ad_restore_def ad_holds_def split: if_splits)
qed

lemma activate_arms:
  "leads (ad_holds (I False) False False) (ad_activate tops) (outcome (ad_owed I) (\<lambda>_. ad_holds (I True) True False))"
proof -
  have owed: "ad_holds (I d) d False c \<Longrightarrow> ad_owed I c" for d c
    by (auto simp: ad_owed_def ad_holds_def)
  have each: "leads (ad_holds (I True) True False) (ad_activate_offset tops expected offset)
      (outcome (ad_owed I) (\<lambda>_. ad_holds (I True) True False))" for expected offset
    unfolding ad_activate_offset_def Let_def
  proof (rule outcome_post[OF outcome_keeps])
    show "keeps (ad_holds (I True) True False)
        (seq (ad_write_geometry_byte tops offset (expected[offset := ad_game_geometry ! offset] ! offset)) (\<lambda>_.
         seq (ad_read_ram tops ad_GEOMETRY_ADDRESS) (\<lambda>state.
           if state \<noteq> expected[offset := ad_game_geometry ! offset]
           then ad_reject ''AD-7701H activation did not verify''
           else ret (expected[offset := ad_game_geometry ! offset]))))"
      by (intro keeps_rules poke_step owed.quiet_read_ram) simp
  qed (auto intro: owed)
  have geometry: "leads (ad_holds (I False) False False) (ad_read_ram tops ad_GEOMETRY_ADDRESS)
      (outcome (ad_owed I) (\<lambda>_. ad_holds (I False) False False))"
    by (rule outcome_post[OF outcome_keeps[OF owed.quiet_read_ram]]) (auto intro: owed)
  show ?thesis
    unfolding ad_activate_def ad_reject_def
    by (intro outcome_if outcome_raise outcome_seq[OF geometry]
          outcome_seq[where R = "\<lambda>_. ad_holds (I True) True False", OF outcome_modify] outcome_seq[OF each] outcome_ret)
       (auto intro: owed arm simp: ad_holds_def open_holds_def)
qed

lemma initialize_arms:
  "leads (ad_holds (I False) False False) (ad_initialize tops digests host ready_timeout)
     (outcome (ad_owed I) (\<lambda>_. ad_holds (I True) True False))"
proof -
  have owed: "ad_holds (I d) d False c \<Longrightarrow> ad_owed I c" for d c
    by (auto simp: ad_owed_def ad_holds_def)
  have step: "leads (ad_holds (I d) d False) m (outcome (ad_owed I) (\<lambda>_. ad_holds (I d) d False))"
    if "keeps (ad_holds (I d) d False) m" for d and m :: "('t ad7701h, 'b) act"
    by (rule outcome_post[OF outcome_keeps[OF that]]) (auto intro: owed)
  have video: "keeps (ad_holds (I False) False False) (modify (\<lambda>c. c\<lparr>ad_video := video\<rparr>))" for video
    by (rule keeps_locally) simp
  have descriptor: "keeps (ad_holds (I True) True False) (ad_check_descriptor tops)"
    unfolding ad_check_descriptor_def
    by (intro keeps_rules owed.quiet_read_game) (auto simp: ad_MAX_BLOCKS_def GDOX_XGD1_TOTAL_SECTORS_def)
  have geometry: "keeps (ad_holds (I False) False False) (ad_read_ram tops ad_GEOMETRY_ADDRESS)"
    by (rule owed.quiet_read_ram) simp
  have ready: "keeps (ad_holds (I False) False False) (ad_on_transport (gdox_mmc_test_unit_ready tops timeout_ms))"
    for timeout_ms by (rule keeps_on_transport[OF owed.quiet_ready])
  show ?thesis
    unfolding ad_initialize_def ad_reject_def
    by (rule outcome_seq[OF step[OF owed.quiet_check_identity]], rule outcome_seq[OF step[OF ready]],
        rule outcome_seq[OF step[OF owed.quiet_validate_firmware]], rule outcome_seq[OF step[OF geometry]],
        rule outcome_if, rule outcome_raise, erule owed,
        rule outcome_seq[OF step[OF owed.quiet_baseline]], rule outcome_seq[OF step[OF video]],
        rule outcome_seq[OF step[OF owed.quiet_disc_metadata]], rule outcome_seq[OF activate_arms],
        rule outcome_seq[OF step[OF descriptor]], rule step[OF owed.quiet_begin_session])
qed

lemma prepare_settles:
  "leads (ad_owed I) (ad_prepare_close tops)
     (outcome (ad_owed I) (\<lambda>_. ad_holds (I False) False True))"
proof (rule leadsI)
  fix c r c'
  assume c: "ad_owed I c" and m: "ad_prepare_close tops c = (r, c')"
  show "outcome (ad_owed I) (\<lambda>_. ad_holds (I False) False True) r c'"
  proof (cases "ad_prepared c")
    case True
    with c m show ?thesis by (auto simp: ad_prepare_close_def ad_owed_def ad_holds_def)
  next
    case False
    define d where "d = ad_dirty c"
    have h: "ad_holds (I d) d False c" using c False by (simp add: ad_owed_def d_def)
    have owed: "ad_holds (I e) e False x \<Longrightarrow> ad_owed I x" for e x by (auto simp: ad_owed_def ad_holds_def)
    have tp: "keeps (ad_holds (I False) False False) (ad_on_transport (gdox_scsi_transport_prepare_close tops))"
      using prepare by (intro keeps_on_transport keeps_prepare_close keepsI) blast
    have run: "leads (ad_holds (I d) d False)
        (seq (ad_restore tops) (\<lambda>_. ad_on_transport (gdox_scsi_transport_prepare_close tops)))
        (outcome (\<lambda>x. \<exists>e. ad_holds (I e) e False x) (\<lambda>_. ad_holds (I False) False False))"
      by (rule outcome_seq[OF outcome_post[OF restore_settles] outcome_post[OF outcome_keeps[OF tp]]]) auto
    have body: "outcome (ad_owed I) (\<lambda>_. ad_holds (I False) False True) q y"
      if "ad_holds (I d) d False x" and "(case seq (ad_restore tops)
            (\<lambda>_. ad_on_transport (gdox_scsi_transport_prepare_close tops)) (x\<lparr>ad_faulted := True\<rparr>) of
          (Inl e, c) \<Rightarrow> (Inl e, c\<lparr>ad_prepared := False\<rparr>) | (Inr _, c) \<Rightarrow> (Inr (), c\<lparr>ad_prepared := True\<rparr>)) = (q, y)"
      for x q y
    proof -
      obtain q' z where z: "seq (ad_restore tops) (\<lambda>_. ad_on_transport (gdox_scsi_transport_prepare_close tops))
          (x\<lparr>ad_faulted := True\<rparr>) = (q', z)" by fastforce
      have "ad_holds (I d) d False (x\<lparr>ad_faulted := True\<rparr>)" using that(1) by (simp add: ad_holds_def)
      from leadsD[OF run this z] that(2) z show ?thesis
        by (cases q') (auto simp: ad_holds_def ad_owed_def)
    qed
    have keep: "ad_holds (I d) d False (c\<lparr>ad_mutex := l\<rparr>)" for l using h by (simp add: ad_holds_def)
    show ?thesis
      using m False body[OF h] body[OF keep] owed[OF keep]
      by (auto simp: ad_prepare_close_def ad_locked_def split: list.splits if_splits)
  qed
qed

end

section \<open>Sessions\<close>

text \<open>What a client can make of an open source: any calls of the source interface that leave it open.\<close>

inductive ad_session :: "'t transport_ops \<Rightarrow> 't ad7701h \<Rightarrow> 't ad7701h \<Rightarrow> bool" for tops where
  start: "ad_session tops c c"
| read: "ad_session tops c c' \<Longrightarrow>
    gdox_source_read (ad7701h_ops tops) (Some c') lba blocks n = (r, Some c'') \<Longrightarrow> ad_session tops c c''"
| observe: "ad_session tops c c' \<Longrightarrow>
    gdox_source_observe_media (ad7701h_ops tops) (Some c') = (ok, ob, Some c'') \<Longrightarrow> ad_session tops c c''"
| media: "ad_session tops c c' \<Longrightarrow>
    gdox_source_media_present (ad7701h_ops tops) (Some c') = (present, Some c'') \<Longrightarrow> ad_session tops c c''"
| abort: "ad_session tops c c' \<Longrightarrow>
    gdox_source_abort (ad7701h_ops tops) (Some c') = Some c'' \<Longrightarrow> ad_session tops c c''"
| prepare: "ad_session tops c c' \<Longrightarrow>
    gdox_source_prepare_close (ad7701h_ops tops) (Some c') = (q, Some c'') \<Longrightarrow> ad_session tops c c''"
| retry: "ad_session tops c c' \<Longrightarrow>
    gdox_source_close (ad7701h_ops tops) (Some c') = (q, lost, Some c'') \<Longrightarrow> ad_session tops c c''"

lemma ad_ops_simps [simp]:
  "op_read (ad7701h_ops tops) = (\<lambda>c lba blocks bytes. ad_read_sectors tops lba blocks bytes c)"
  "op_observe_media (ad7701h_ops tops) = Some (ad_observe_media tops)"
  "op_abort (ad7701h_ops tops) = Some ad_abort_reads"
  "op_prepare_close (ad7701h_ops tops) = Some (ad_prepare_close tops)"
  "op_close (ad7701h_ops tops) = ad_close_source tops"
  by (simp_all add: ad7701h_ops_def)

context ad_drive
begin

lemma read_owed: "ad_owed I c \<Longrightarrow> ad_owed I (snd (ad_read_sectors tops lba blocks bytes c))"
  using owed.quiet_read_sectors[of "ad_dirty c" "ad_dirty c" "ad_prepared c" lba blocks bytes]
  unfolding keeps_def ad_owed_def by (auto simp: ad_holds_def)

lemma observe_owed: "ad_owed I c \<Longrightarrow> ad_owed I (snd (ad_observe_media tops c))"
  using owed.quiet_ad_observe[of "ad_dirty c" "ad_dirty c" "ad_prepared c" c]
  unfolding ad_owed_def by (auto simp: ad_holds_def)

lemma prepare_owed: "ad_owed I c \<Longrightarrow> ad_prepare_close tops c = (r, c') \<Longrightarrow> ad_owed I c'"
  using leadsD[OF prepare_settles, of c r c'] by (cases r) (auto simp: ad_owed_def ad_holds_def)

lemma source_observe_owed:
  "ad_owed I c \<Longrightarrow> gdox_source_observe_media (ad7701h_ops tops) (Some c) = (ok, ob, Some c') \<Longrightarrow> ad_owed I c'"
  using observe_owed[of c] by (auto simp: gdox_source_observe_media_def split: prod.splits)

lemma source_prepare_owed:
  "ad_owed I c \<Longrightarrow> gdox_source_prepare_close (ad7701h_ops tops) (Some c) = (q, Some c') \<Longrightarrow> ad_owed I c'"
  by (auto simp: gdox_source_prepare_close_def split: prod.splits intro: prepare_owed)

text \<open>A close that fails keeps the source, and one that consumes it has prepared it first.\<close>

lemma source_close_cases:
  assumes "ad_owed I c" and "gdox_source_close (ad7701h_ops tops) (Some c) = (r, lost, source')"
  shows "(source' = None \<longrightarrow> (\<exists>c'. gdox_source_prepare_close (ad7701h_ops tops) (Some c) = (Inr (), Some c')
            \<and> ad_holds (I False) False True c' \<and> ad_close_source tops c' = (r, lost)))
    \<and> (\<forall>c'. source' = Some c' \<longrightarrow> ad_owed I c' \<and> \<not> lost)"
proof -
  obtain q c' where p: "ad_prepare_close tops c = (q, c')" by fastforce
  have q: "outcome (ad_owed I) (\<lambda>_. ad_holds (I False) False True) q c'"
    by (rule leadsD[OF prepare_settles assms(1) p])
  show ?thesis
    using assms(2) p q
    by (cases q) (auto simp: gdox_source_close_def gdox_source_prepare_close_def split: prod.splits)
qed

lemma session_owed: "ad_session tops c c' \<Longrightarrow> ad_owed I c \<Longrightarrow> ad_owed I c'"
proof (induction rule: ad_session.induct)
  case (read c c' lba blocks n r c'')
  then show ?case
    using read_owed[of c' lba blocks n]
    by (auto simp: gdox_source_read_def split: sum.splits prod.splits)
next
  case (media c c' present c'')
  then show ?case
    using source_observe_owed[of c'] by (auto simp: gdox_source_media_present_def split: prod.splits)
next
  case (abort c c' c'')
  then show ?case by (auto simp: gdox_source_abort_def ad_abort_reads_def ad_owed_def ad_holds_def)
next
  case (retry c c' q lost c'')
  then show ?case using source_close_cases[of c'] by blast
qed (use source_observe_owed source_prepare_owed in blast)+

lemma release_settles:
  assumes "ad_owed I c" and "ad_release_failed tops e c = (r, source, released)"
  shows "(\<forall>c'. source = Some c' \<longrightarrow> ad_owed I c') \<and> (\<forall>c'. released = Some c' \<longrightarrow> ad_holds (I False) False True c')
    \<and> r \<noteq> Inr ()"
proof (cases "gdox_scsi_transport_is_valid (ad_transport c)")
  case True
  obtain q lost s where cl: "gdox_source_close (ad7701h_ops tops) (Some c) = (q, lost, s)"
    by (metis prod.exhaust)
  from source_close_cases[OF assms(1) cl] assms(2) True cl show ?thesis
    by (auto simp: ad_release_failed_def split: sum.splits if_splits)
qed (use assms in \<open>auto simp: ad_release_failed_def\<close>)

lemma open_settles:
  assumes "open_holds (I False) (snd opener)"
    and "gdox_ad7701h_source_open tops digests opener host locks aborts ready_timeout None = (r, source, released)"
  shows "(\<forall>c. source = Some c \<longrightarrow> ad_owed I c \<and> (r = Inr () \<longrightarrow> ad_dirty c))
    \<and> (\<forall>c. released = Some c \<longrightarrow> ad_holds (I False) False True c)"
proof -
  obtain q transport where opener: "opener = (q, transport)" by fastforce
  let ?c = "new_ad7701h locks aborts transport"
  have new: "ad_holds (I False) False False ?c"
    using assms(1) opener by (simp add: ad_holds_def new_ad7701h_def)
  then have "ad_owed I ?c" by (auto simp: ad_owed_def ad_holds_def)
  note failed = release_settles[OF this]
  obtain q' c where init: "ad_initialize tops digests host ready_timeout ?c = (q', c)" by fastforce
  note armed = leadsD[OF initialize_arms new init]
  show ?thesis
  proof (cases q)
    case (Inl e)
    with assms(2) opener failed show ?thesis
      by (auto simp: gdox_ad7701h_source_open_def split: if_splits)
  next
    case (Inr u)
    then show ?thesis
    proof (cases q')
      case (Inl e)
      with Inr armed assms(2) opener init release_settles[of c e r source released] show ?thesis
        by (auto simp: gdox_ad7701h_source_open_def split: if_splits)
    next
      case (Inr v)
      with \<open>q = Inr u\<close> armed assms(2) opener init show ?thesis
        by (auto simp: gdox_ad7701h_source_open_def ad_owed_def ad_holds_def split: if_splits)
    qed
  qed
qed

end

section \<open>The recorded commands\<close>

fun ad_permitted :: "sent \<Rightarrow> bool" where
  "ad_permitted (SentIn cdb n) = ad_query cdb n"
| "ad_permitted (SentNone cdb) = (cdb = test_unit_ready_cdb \<or> ad_poke cdb)"
| "ad_permitted (SentOut cdb input) = False"
| "ad_permitted SentReset = False"

interpretation recorded: ad_drive "logged_ops tops" "\<lambda>_ w. list_all ad_permitted (snd w)" "\<lambda>_. True" for tops
  by unfold_locales (auto simp: logged_ops_def logged_def unlogged_def split: prod.splits)

section \<open>A drive with a volatile geometry\<close>

text \<open>
  \<open>geom\<close> is the four bytes of the drive's RAM at \<open>GEOMETRY_ADDRESS\<close>. A query leaves them as they are,
  or finds the original ones because the drive lost its power; reading them shows them. Nothing is
  asked of the writes.
\<close>

definition ad_volatile :: "'t transport_ops \<Rightarrow> ('t \<Rightarrow> byte list) \<Rightarrow> bool" where
  "ad_volatile tops geom \<longleftrightarrow>
     (\<forall>t name cdb n timeout_ms r t'. ad_query cdb n \<longrightarrow> top_command_in tops t name cdb n timeout_ms = (r, t') \<longrightarrow>
        (geom t' = geom t \<or> geom t' = ad_stock_geometry)
        \<and> (cdb = ad_read_ram_cdb ad_GEOMETRY_ADDRESS \<longrightarrow> (\<forall>bs. r = Inr bs \<longrightarrow> bs = geom t')))
     \<and> (\<forall>t name timeout_ms q t'. top_command_none tops t name test_unit_ready_cdb timeout_ms = (q, t') \<longrightarrow>
        geom t' = geom t \<or> geom t' = ad_stock_geometry)
     \<and> (\<forall>f t q t'. top_prepare_close tops = Some f \<longrightarrow> f t = (q, t') \<longrightarrow>
        geom t' = geom t \<or> geom t' = ad_stock_geometry)"

lemma volatile_drive:
  assumes "ad_volatile tops geom"
  shows "ad_drive tops (\<lambda>d t. d \<or> geom t = g \<or> geom t = ad_stock_geometry) (\<lambda>t. geom t = ad_stock_geometry)"
proof -
  have geometry: "ad_query (ad_read_ram_cdb ad_GEOMETRY_ADDRESS) 4" by (simp add: ad_query_def)
  show ?thesis
    using assms geometry by unfold_locales (auto simp: ad_volatile_def; metis)+
qed

section \<open>A sample drive\<close>

text \<open>A drive of the validated kind; its state is its geometry.\<close>

definition sample_inquiry :: "byte list" where
  "sample_inquiry = replicate 8 0 @ ad_vendor @ replicate 6 0x20 @ ad_model @ [0x20] @ ad_revision @ zero_block 60"

definition sample_answer :: "byte list \<Rightarrow> byte list \<Rightarrow> nat \<Rightarrow> byte list" where
  "sample_answer geometry cdb n =
     (if cdb ! 0 = 0xcf \<and> cdb ! 1 = 7 then (if cdb ! 4 = 0x86 then geometry else replicate 4 0)
      else if cdb ! 0 = 0x12 then sample_inquiry
      else if cdb ! 0 = 0x25 then [0, 0, 0x1b, 0x4f, 0, 0, 8, 0]
      else if cdb ! 0 = 0xad then ad_stock_pfi @ zero_block 2032
      else if cdb ! 0 = 0x4a then [0, 6, 0x80, 0]
      else if cdb ! 0 = 0xcf then sample_descriptor
      else zero_block n)"

definition sample_drive :: "byte list transport_ops" where
  "sample_drive =
     \<lparr>top_command_in = (\<lambda>g name cdb n timeout_ms. (Inr (sample_answer g cdb n), g)),
      top_command_out = (\<lambda>g name cdb input timeout_ms. (Inr 0, g)),
      top_command_none = (\<lambda>g name cdb timeout_ms.
        (Inr (), if cdb = test_unit_ready_cdb then g else g[(if cdb ! 4 = 0x89 then 1 else 2) := cdb ! 6])),
      top_reset = (\<lambda>g. (Inr (), g)),
      top_close = (\<lambda>g. Inr ()),
      top_prepare_close = None, top_last_sense = None, top_device_present = None\<rparr>"

definition sample_digests :: "unit digest_ops" where
  "sample_digests =
     \<lparr>digest_create = Inr (), digest_update = (\<lambda>d bs. (Inr (), d)),
      digest_finish = (\<lambda>d. (Inr \<lparr>md5 = [], sha1 = [], sha256 = ad_firmware_sha256\<rparr>, d))\<rparr>"

definition ready_host :: ad7701h_host where
  "ready_host = \<lparr>host_context_allocated = True, host_mutex_ready = True, host_buffer_allocated = True,
     host_stream_allocated = True\<rparr>"

lemma put_be_bytes:
  "ad_put_be xs p v (Suc (Suc 0)) = xs[Suc p := of_nat v, p := of_nat (v div 256)]"
  "ad_put_be xs p v (Suc (Suc (Suc 0))) =
     xs[Suc (Suc p) := of_nat v, Suc p := of_nat (v div 256), p := of_nat (v div 256 div 256)]"
  "ad_put_be xs p v (Suc (Suc (Suc (Suc 0)))) = xs[Suc (Suc (Suc p)) := of_nat v, Suc (Suc p) := of_nat (v div 256),
     Suc p := of_nat (v div 256 div 256), p := of_nat (v div 256 div 256 div 256)]"
  by simp_all

lemma small_counts: "2 = Suc (Suc 0)" "3 = Suc (Suc (Suc 0))" "4 = Suc (Suc (Suc (Suc 0)))"
  by simp_all

lemma ram_cdbs:
  "ad_read_ram_cdb ad_GEOMETRY_ADDRESS = [0xcf, 7, 0x03, 0xff, 0x86, 0x88, 0, 0, 4, 1, 0, 0]"
  "ad_read_ram_cdb ad_MODE_ADDRESS = [0xcf, 7, 0x03, 0xff, 0x97, 0x90, 0, 0, 4, 1, 0, 0]"
proof -
  have "ad_put_be xs 2 v 4 = xs[5 := of_nat v, 4 := of_nat (v div 256),
     3 := of_nat (v div 256 div 256), 2 := of_nat (v div 256 div 256 div 256)]" for xs v
    by (subst small_counts(3), subst put_be_bytes(3)) simp
  then show "ad_read_ram_cdb ad_GEOMETRY_ADDRESS = [0xcf, 7, 0x03, 0xff, 0x86, 0x88, 0, 0, 4, 1, 0, 0]"
    "ad_read_ram_cdb ad_MODE_ADDRESS = [0xcf, 7, 0x03, 0xff, 0x97, 0x90, 0, 0, 4, 1, 0, 0]"
    by (simp_all add: ad_read_ram_cdb_def ad_GEOMETRY_ADDRESS_def ad_MODE_ADDRESS_def)
qed

lemma write_cdbs:
  "ad_write_geometry_cdb 1 v = [0xce, 0, 5, 0x86, 0x89, 0, v, 0, 0, 0, 0, 0]"
  "ad_write_geometry_cdb 2 v = [0xce, 0, 5, 0x86, 0x8a, 0, v, 0, 0, 0, 0, 0]"
proof -
  have "ad_put_be xs 3 v 2 = xs[4 := of_nat v, 3 := of_nat (v div 256)]" for xs v
    by (subst small_counts(1), subst put_be_bytes(1)) simp
  moreover have "replicate 9 (0 :: byte) = [0, 0, 0, 0, 0, 0, 0, 0, 0]" by (simp add: numeral_eq_Suc)
  ultimately show "ad_write_geometry_cdb 1 v = [0xce, 0, 5, 0x86, 0x89, 0, v, 0, 0, 0, 0, 0]"
    "ad_write_geometry_cdb 2 v = [0xce, 0, 5, 0x86, 0x8a, 0, v, 0, 0, 0, 0, 0]"
    by (simp_all add: ad_write_geometry_cdb_def ad_GEOMETRY_ADDRESS_def)
qed

lemma length_put_be [simp]: "length (ad_put_be xs p v k) = length xs"
  by (induction k arbitrary: xs v) auto

lemma put_be_below: "i < p \<Longrightarrow> ad_put_be xs p v k ! i = xs ! i"
  by (induction k arbitrary: xs v) auto

lemma other_cdbs:
  "ad_firmware_cdb address ! 0 = 0x3c" "length (ad_firmware_cdb address) = 10"
  "ad_read_game_cdb lba blocks ! 0 = 0xcf" "ad_read_game_cdb lba blocks ! 1 = 5"
  "length (ad_read_game_cdb lba blocks) = 12"
  "read_dvd_structure_cdb f n ! 0 = 0xad" "length (read_dvd_structure_cdb f n) = 12"
  by (simp_all add: ad_firmware_cdb_def ad_read_game_cdb_def read_dvd_structure_cdb_def put_be_below
      put_be_u16_def Let_def)

lemma sample_volatile: "ad_volatile sample_drive id"
  by (simp add: ad_volatile_def sample_drive_def sample_answer_def ram_cdbs)

lemma sample_command_in:
  assumes "ad_transport c = Some g" "0 < length cdb" "length cdb \<le> 16" "0 < n" "length (sample_answer g cdb n) = n"
  shows "ad_command_in sample_drive cdb n c = (Inr (sample_answer g cdb n), c)"
  using assms
  by (simp add: ad_command_in_def seq_def zoom_def gdox_scsi_command_in_def validate_cdb_def
      gdox_scsi_transport_is_valid_def sample_drive_def ret_def)

lemma sample_read_ram:
  "ad_transport c = Some g \<Longrightarrow> length g = 4 \<Longrightarrow> ad_read_ram sample_drive ad_GEOMETRY_ADDRESS c = (Inr g, c)"
  "ad_transport c = Some g \<Longrightarrow> ad_read_ram sample_drive ad_MODE_ADDRESS c = (Inr (replicate 4 0), c)"
  unfolding ad_read_ram_def by (subst sample_command_in; simp add: ram_cdbs sample_answer_def)+

lemma sample_on_transport:
  "ad_transport c = Some g \<Longrightarrow> gdox_scsi_command_in sample_drive name cdb n timeout_ms (Some g) = (r, Some g) \<Longrightarrow>
   ad_on_transport (gdox_scsi_command_in sample_drive name cdb n timeout_ms) c = (r, c)"
  by (simp add: zoom_def)

lemma sample_in:
  "0 < length cdb \<Longrightarrow> length cdb \<le> 16 \<Longrightarrow> 0 < n \<Longrightarrow>
   gdox_scsi_command_in sample_drive name cdb n timeout_ms (Some g) = (Inr (sample_answer g cdb n), Some g)"
  by (simp add: gdox_scsi_command_in_def validate_cdb_def gdox_scsi_transport_is_valid_def sample_drive_def)

lemma sample_capacity:
  "gdox_mmc_read_capacity_10 sample_drive timeout_ms (Some g) = (Inr (6991, 2048), Some g)"
  by (simp add: gdox_mmc_read_capacity_10_def seq_def sample_in read_capacity_cdb_def sample_answer_def
      ret_def read_be_u32_def join32_def)

lemma sample_read_10:
  "gdox_mmc_read_10 sample_drive 16 1 1 2048 2048 timeout_ms (Some g) = (Inr (zero_block 2048), Some g)"
proof -
  have "length (read_blocks_cdb 0x28 16 1) = 10" "read_blocks_cdb 0x28 16 1 ! 0 = 0x28"
    by (simp_all add: read_blocks_cdb_def put_be_u32_def put_be_u16_def Let_def)
  then show ?thesis
    by (simp add: gdox_mmc_read_10_def read_blocks_def seq_def sample_in sample_answer_def ret_def)
qed

lemma sample_baseline:
  "ad_transport c = Some g \<Longrightarrow> ad_baseline sample_drive c = (Inr (zero_block 2048), c)"
  by (simp add: ad_baseline_def ad_normal_mode_def seq_def sample_read_ram ret_def zoom_def sample_capacity sample_read_10[unfolded One_nat_def])

lemma sample_firmware_hash:
  "ad_transport c = Some g \<Longrightarrow> \<not> finished stream \<Longrightarrow>
   \<exists>s. ad_hash_firmware sample_drive sample_digests as stream c = (Inr s, c) \<and> \<not> finished s"
proof (induction as arbitrary: stream)
  case (Cons a as)
  obtain s where "gdox_hash_stream_update sample_digests stream (zero_block 65536) = (Inr (), s)" "\<not> finished s"
    using Cons.prems(2) by (auto simp: gdox_hash_stream_update_def sample_digests_def)
  moreover have "ad_command_in sample_drive (ad_firmware_cdb a) 65536 c = (Inr (zero_block 65536), c)"
    using Cons.prems(1) by (subst sample_command_in) (simp_all add: other_cdbs sample_answer_def)
  ultimately show ?case using Cons.IH[OF Cons.prems(1)] by (simp add: seq_def)
qed (simp add: ret_def)

lemma sample_firmware:
  assumes "ad_transport c = Some g"
  shows "ad_validate_firmware sample_drive sample_digests ready_host c = (Inr (), c)"
proof -
  let ?s = "\<lparr>backend = (), stream_crc32 = 0xffffffff, finished = False\<rparr>"
  obtain s where "ad_hash_firmware sample_drive sample_digests ad_firmware_addresses ?s c = (Inr s, c)" "\<not> finished s"
    using sample_firmware_hash[OF assms, of ?s ad_firmware_addresses] by auto
  then show ?thesis
    by (simp add: ad_validate_firmware_def ready_host_def gdox_hash_stream_create_def sample_digests_def seq_def
        gdox_hash_stream_finish_def ret_def)
qed

lemma sample_identity:
  "ad_transport c = Some g \<Longrightarrow> ad_check_identity sample_drive c = (Inr (), c)"
proof -
  have "length sample_inquiry = 96" by (simp add: sample_inquiry_def ad_vendor_def ad_model_def ad_revision_def)
  moreover have "ad_strcmp (copy_ascii_field 9 (take 8 (drop 8 sample_inquiry))) ad_vendor"
    "ad_strcmp (copy_ascii_field 17 (take 16 (drop 16 sample_inquiry))) ad_model"
    "ad_strcmp (copy_ascii_field 5 (take 4 (drop 32 sample_inquiry))) ad_revision"
    by code_simp+
  moreover assume "ad_transport c = Some g"
  ultimately show ?thesis
    by (simp add: ad_check_identity_def gdox_mmc_inquiry_def seq_def zoom_def sample_in inquiry_cdb_def
        sample_answer_def ret_def)
qed

lemma sample_structures:
  assumes "ad_transport c = Some g"
  shows "\<exists>c'. ad_disc_metadata sample_drive c = (Inr (), c') \<and> ad_transport c' = Some g
    \<and> ad_video c' = ad_video c \<and> ad_dirty c' = ad_dirty c \<and> ad_prepared c' = ad_prepared c
    \<and> ad_mutex c' = ad_mutex c"
proof -
  have pfi: "length ad_stock_pfi = 20" by (simp add: ad_stock_pfi_def)
  then have "ad_read_structure sample_drive f c' = (Inr (ad_stock_pfi @ zero_block 2032), c')"
    if "ad_transport c' = Some g" for f c'
    using that by (simp add: ad_read_structure_def gdox_mmc_read_dvd_structure_def seq_def zoom_def sample_in
        other_cdbs sample_answer_def ret_def)
  with assms pfi show ?thesis
    by (simp add: ad_disc_metadata_def seq_def modify_def)
qed

lemma write_not_ready: "0xce # bs \<noteq> test_unit_ready_cdb"
proof
  assume "0xce # bs = test_unit_ready_cdb"
  then have "(0xce # bs) ! 0 = test_unit_ready_cdb ! 0" by simp
  then show False by (simp add: test_unit_ready_cdb_def)
qed

lemma sample_ram_write:
  assumes "ad_transport c = Some g" "offset = 1 \<or> offset = 2"
    "v = ad_stock_geometry ! offset \<or> v = ad_game_geometry ! offset"
  shows "ad_write_geometry_byte sample_drive offset v c = (Inr (), c\<lparr>ad_transport := Some (g[offset := v])\<rparr>)"
  using assms
  by (auto simp: ad_write_geometry_byte_def zoom_def gdox_scsi_command_none_def validate_cdb_def
      gdox_scsi_transport_is_valid_def sample_drive_def write_cdbs[unfolded One_nat_def] write_not_ready)

lemma geometry_values:
  "ad_stock_geometry = [0xaf, 0x1a, 0x03, 0]" "ad_game_geometry = [0xaf, 0x33, 0x20, 0]"
  by (simp_all add: ad_stock_geometry_def ad_game_geometry_def)

lemma sample_activate:
  assumes "ad_transport c = Some ad_stock_geometry"
  shows "ad_activate sample_drive c = (Inr (), c\<lparr>ad_dirty := True, ad_transport := Some ad_game_geometry\<rparr>)"
proof -
  have wr: "ad_write_geometry_byte sample_drive offset (ad_game_geometry ! offset) c' =
      (Inr (), c'\<lparr>ad_transport := Some (g[offset := ad_game_geometry ! offset])\<rparr>)"
    if "ad_transport c' = Some g" "offset = 1 \<or> offset = 2" for c' g offset
    using sample_ram_write[OF that] by blast
  have step: "ad_activate_offset sample_drive expected offset c' =
      (Inr (expected[offset := ad_game_geometry ! offset]),
       c'\<lparr>ad_transport := Some (expected[offset := ad_game_geometry ! offset])\<rparr>)"
    if "ad_transport c' = Some expected" "offset = 1 \<or> offset = 2" "length expected = 4" for c' expected offset
  proof -
    have "expected[offset := ad_game_geometry ! offset] ! offset = ad_game_geometry ! offset"
      using that(2,3) by auto
    then show ?thesis
      using that wr[OF that(1,2)]
      by (simp add: ad_activate_offset_def Let_def seq_def sample_read_ram(1) ret_def)
  qed
  have len: "length ad_stock_geometry = 4" by (simp add: geometry_values)
  have final: "ad_stock_geometry[1 := ad_game_geometry ! 1, 2 := ad_game_geometry ! 2] = ad_game_geometry"
    by (simp add: geometry_values)
  show ?thesis
    using assms len final[unfolded One_nat_def] step[where offset = 1, unfolded One_nat_def] step[where offset = 2]
    by (simp add: ad_activate_def seq_def sample_read_ram(1) modify_def ret_def)
qed

lemma sample_opens:
  "\<exists>c. gdox_ad7701h_source_open sample_drive sample_digests (Inr (), Some ad_stock_geometry) ready_host [] [] 0 None =
       (Inr (), Some c, None)
     \<and> ad_transport c = Some ad_game_geometry \<and> ad_dirty c \<and> \<not> ad_prepared c \<and> ad_mutex c = []
     \<and> ad_video c = zero_block 2048"
proof -
  obtain c0 :: "byte list ad7701h" where c0: "c0 = new_ad7701h [] [] (Some ad_stock_geometry)" by blast
  let ?c1 = "c0\<lparr>ad_video := zero_block 2048\<rparr>"
  have t0: "ad_transport c0 = Some ad_stock_geometry" "ad_transport ?c1 = Some ad_stock_geometry"
    by (simp_all add: c0 new_ad7701h_def)
  obtain c2 where c2: "ad_disc_metadata sample_drive ?c1 = (Inr (), c2)" "ad_transport c2 = Some ad_stock_geometry"
      "ad_video c2 = zero_block 2048" "\<not> ad_prepared c2" "ad_mutex c2 = []"
    using sample_structures[OF t0(2)] by (auto simp: c0 new_ad7701h_def)
  let ?c3 = "c2\<lparr>ad_dirty := True, ad_transport := Some ad_game_geometry\<rparr>"
  have len: "length ad_stock_geometry = 4" by (simp add: geometry_values)
  have tur: "gdox_mmc_test_unit_ready sample_drive timeout_ms (Some g) = (Inr (), Some g)" for timeout_ms g
    by (simp add: gdox_mmc_test_unit_ready_def gdox_scsi_command_none_def validate_cdb_def
        gdox_scsi_transport_is_valid_def sample_drive_def test_unit_ready_cdb_def)
  have magic: "length xdvdfs_magic = 20" by (simp add: xdvdfs_magic_def)
  have desc: "length sample_descriptor = 2048" "take 20 sample_descriptor = xdvdfs_magic"
    "take 20 (drop (2048 - 20) sample_descriptor) = xdvdfs_magic"
    by (simp_all add: sample_descriptor_def magic)
  have "ad_command_in sample_drive (ad_read_game_cdb 0x30620 1) 2048 ?c3 = (Inr sample_descriptor, ?c3)"
    by (subst sample_command_in) (simp_all add: other_cdbs[unfolded One_nat_def] sample_answer_def desc)
  then obtain c4 where c4: "ad_check_descriptor sample_drive ?c3 = (Inr (), c4)" "ad_transport c4 = Some ad_game_geometry"
      "ad_video c4 = zero_block 2048" "\<not> ad_prepared c4" "ad_mutex c4 = []" "ad_dirty c4"
    using c2 desc magic by (simp add: ad_check_descriptor_def ad_read_game_def seq_def modify_def ret_def)
  have poll: "poll_media_event sample_drive timeout_ms (Some g, tracker) = ((True, MEDIA_EVENT_NONE), Some g, tracker)"
    for timeout_ms g tracker
    by (simp add: poll_media_event_def gdox_scsi_transport_is_valid_def sample_in media_event_cdb_def sample_answer_def
        gdox_mmc_parse_media_event_def Let_def note_media_event_def)
  have baseline: "poll_baseline sample_drive timeout_ms k (Some g, tracker) = (Some g, tracker)"
    for timeout_ms k g tracker by (cases k) (simp_all add: poll)
  obtain c5 where c5: "ad_begin_session sample_drive c4 = (Inr (), c5)" "ad_transport c5 = Some ad_game_geometry"
      "ad_video c5 = zero_block 2048" "\<not> ad_prepared c5" "ad_mutex c5 = []" "ad_dirty c5"
    using c4 by (simp add: ad_begin_session_def ad_with_media_def gdox_mmc_media_tracker_begin_session_def baseline)
  have same: "c0\<lparr>ad_transport := Some ad_stock_geometry\<rparr> = c0" using t0(1) by simp
  have "ad_initialize sample_drive sample_digests ready_host 0 c0 = (Inr (), c5)"
    using c2(1) sample_activate[OF c2(2)] c4(1) c5(1)
    by (simp add: ad_initialize_def seq_def same sample_identity[OF t0(1)] zoom_def t0 tur sample_firmware[OF t0(1)]
        sample_read_ram(1)[OF t0(1) len] sample_baseline[OF t0(1)] modify_def)
  with c5 show ?thesis
    by (simp add: gdox_ad7701h_source_open_def ready_host_def c0)
qed

text \<open>A drive that fails its commands and its shutdown: the opening fails and the source stays open.\<close>

definition stuck_drive :: "unit transport_ops" where
  "stuck_drive =
     \<lparr>top_command_in = (\<lambda>g name cdb n timeout_ms. (fail ERROR_TRANSPORT ''no answer'', g)),
      top_command_out = (\<lambda>g name cdb input timeout_ms. (fail ERROR_TRANSPORT ''no answer'', g)),
      top_command_none = (\<lambda>g name cdb timeout_ms. (fail ERROR_TRANSPORT ''no answer'', g)),
      top_reset = (\<lambda>g. (Inr (), g)), top_close = (\<lambda>g. Inr ()),
      top_prepare_close = Some (\<lambda>g. (fail ERROR_TRANSPORT ''no answer'', g)),
      top_last_sense = None, top_device_present = None\<rparr>"

lemma stuck_opening:
  "\<exists>c e. gdox_ad7701h_source_open (logged_ops stuck_drive) sample_digests (Inr (), Some ((), [])) ready_host [] [] 0 None =
      (Inl e, Some c, None) \<and> ad_transport c = Some ((), [SentIn inquiry_cdb 96])"
  by (simp add: gdox_ad7701h_source_open_def ready_host_def ad_initialize_def ad_check_identity_def gdox_mmc_inquiry_def
      seq_def zoom_def gdox_scsi_command_in_def validate_cdb_def gdox_scsi_transport_is_valid_def inquiry_cdb_def
      logged_ops_def logged_def unlogged_def stuck_drive_def new_ad7701h_def ad_release_failed_def gdox_source_close_def
      gdox_source_prepare_close_def ad_prepare_close_def ad_locked_def ad_restore_def gdox_scsi_transport_prepare_close_def)

section \<open>Properties\<close>

text \<open>
  C2: The AD-7701H reader restores the drive. Take a drive whose geometry RAM changes only by the
  source's own writes (whatever those writes do) or by losing its power, which brings the original
  geometry back, and whose RAM reads show it. A source that opened, after any calls of the source
  interface, is consumed by a close only once its preparation succeeded with the original geometry
  in the drive; a close that fails keeps the source, and with it the duty to restore. An opening that fails either
  leaves the source open for another close, or releases a drive with the geometry it found or the
  original one.
\<close>

theorem ad7701h_restores_the_drive:
  assumes "ad_volatile tops geom"
    and "gdox_ad7701h_source_open tops digests (q, Some t) host locks aborts ready_timeout None = (r, source, released)"
  shows "(\<forall>c u. released = Some c \<longrightarrow> ad_transport c = Some u \<longrightarrow> geom u = geom t \<or> geom u = ad_stock_geometry)
    \<and> (\<forall>c c' s lost. r = Inr () \<longrightarrow> source = Some c \<longrightarrow> ad_session tops c c' \<longrightarrow>
         gdox_source_close (ad7701h_ops tops) (Some c') = (s, lost, None) \<longrightarrow>
         (\<exists>c''. gdox_source_prepare_close (ad7701h_ops tops) (Some c') = (Inr (), Some c'')
            \<and> (\<forall>u. ad_transport c'' = Some u \<longrightarrow> geom u = ad_stock_geometry)))"
proof (intro conjI allI impI)
  note drive = volatile_drive[OF assms(1), of "geom t"]
  note opened = ad_drive.open_settles[OF drive _ assms(2)]
  show "geom u = geom t \<or> geom u = ad_stock_geometry" if "released = Some c" "ad_transport c = Some u" for c u
    using opened that by (auto simp: ad_holds_def)
  fix c c' s lost
  assume ok: "r = Inr ()" "source = Some c" and ses: "ad_session tops c c'"
    and cl: "gdox_source_close (ad7701h_ops tops) (Some c') = (s, lost, None)"
  let ?I = "\<lambda>d t. d \<or> geom t = ad_stock_geometry \<or> geom t = ad_stock_geometry"
  note stock = volatile_drive[OF assms(1), of ad_stock_geometry]
  have "ad_dirty c" "\<not> ad_prepared c" using opened ok by (auto simp: ad_owed_def)
  then have "ad_owed ?I c" by (simp add: ad_owed_def ad_holds_def open_holds_def)
  then have "ad_owed ?I c'" by (rule ad_drive.session_owed[OF stock ses])
  from ad_drive.source_close_cases[OF stock this cl]
  show "\<exists>c''. gdox_source_prepare_close (ad7701h_ops tops) (Some c') = (Inr (), Some c'')
      \<and> (\<forall>u. ad_transport c'' = Some u \<longrightarrow> geom u = ad_stock_geometry)"
    by (auto simp: ad_holds_def open_holds_def)
qed

theorem ad7701h_restores_the_drive_witness:
  "\<exists>c. gdox_ad7701h_source_open sample_drive sample_digests (Inr (), Some ad_stock_geometry) ready_host [] [] 0 None =
      (Inr (), Some c, None) \<and> ad_transport c = Some ad_game_geometry
    \<and> (\<forall>s lost. gdox_source_close (ad7701h_ops sample_drive) (Some c) = (s, lost, None) \<longrightarrow>
         (\<exists>c''. gdox_source_prepare_close (ad7701h_ops sample_drive) (Some c) = (Inr (), Some c'')
            \<and> (\<forall>u. ad_transport c'' = Some u \<longrightarrow> u = ad_stock_geometry)))"
proof -
  obtain c where c: "gdox_ad7701h_source_open sample_drive sample_digests (Inr (), Some ad_stock_geometry) ready_host
      [] [] 0 None = (Inr (), Some c, None)" "ad_transport c = Some ad_game_geometry"
    using sample_opens by blast
  from ad7701h_restores_the_drive[OF sample_volatile c(1)] c ad_session.start[of sample_drive c]
  show ?thesis by auto
qed

text \<open>
  C3: The AD-7701H reader sends its drive no other command than those it was validated with. On a
  recording transport, from the opening to any point of the session, every command is a listed query
  (identity, sense, media events, capacity, disc structures, one ordinary sector, the firmware image,
  two RAM words, and game sectors inside the XGD1 partition, at most 32 at a time), a readiness test, or a
  write of one of the two volatile geometry bytes with its original or game value. No data is sent to
  the drive and the transport is never reset.
\<close>

theorem ad7701h_sends_only_validated_commands:
  assumes "gdox_ad7701h_source_open (logged_ops tops) digests (q, Some (t, [])) host locks aborts ready_timeout None =
      (r, Some c, released)"
    and "ad_session (logged_ops tops) c c'" and "ad_transport c' = Some (u, log)"
  shows "list_all ad_permitted log"
proof -
  have "ad_owed (\<lambda>_ w. list_all ad_permitted (snd w)) c"
    using recorded.open_settles[OF _ assms(1)] by simp
  then have "ad_owed (\<lambda>_ w. list_all ad_permitted (snd w)) c'"
    by (rule recorded.session_owed[OF assms(2)])
  with assms(3) show ?thesis by (simp add: ad_owed_def ad_holds_def)
qed

theorem ad7701h_sends_only_validated_commands_witness:
  "\<exists>c e. gdox_ad7701h_source_open (logged_ops stuck_drive) sample_digests (Inr (), Some ((), [])) ready_host [] [] 0 None =
      (Inl e, Some c, None) \<and> ad_transport c = Some ((), [SentIn inquiry_cdb 96])
    \<and> list_all ad_permitted [SentIn inquiry_cdb 96]"
proof -
  obtain c e where c: "gdox_ad7701h_source_open (logged_ops stuck_drive) sample_digests (Inr (), Some ((), [])) ready_host
      [] [] 0 None = (Inl e, Some c, None)" "ad_transport c = Some ((), [SentIn inquiry_cdb 96])"
    using stuck_opening by blast
  with ad7701h_sends_only_validated_commands[OF c(1) ad_session.start c(2)] show ?thesis by blast
qed

end
