(* ===== verification/Monitors.thy ===== *)
theory Monitors
  imports Source
begin

text \<open>
  The state machines the application keeps about a drive and its window: when a disc that appears is
  tried (src/src/app/optical_monitor.c), what ends a session on a disc
  (src/src/app/physical_media_monitor.c), and whether the window is shown
  (src/src/app/background_lifecycle.c). Each operation is a function on the C structure; histories of
  calls are the relations and functions of the last sections.
\<close>

section \<open>The optical monitor\<close>

definition GDOX_MEDIA_STABLE_OBSERVATIONS :: u32 where "GDOX_MEDIA_STABLE_OBSERVATIONS = 4"
definition GDOX_MEDIA_REARM_OBSERVATIONS :: u32 where "GDOX_MEDIA_REARM_OBSERVATIONS = 10"
definition GDOX_MEDIA_TRANSIENT_RETRY_LIMIT :: u32 where "GDOX_MEDIA_TRANSIENT_RETRY_LIMIT = 2"

lemmas optical_limits = GDOX_MEDIA_STABLE_OBSERVATIONS_def GDOX_MEDIA_REARM_OBSERVATIONS_def
  GDOX_MEDIA_TRANSIENT_RETRY_LIMIT_def

datatype gdox_optical_drive =
    OPTICAL_DRIVE_NONE | OPTICAL_DRIVE_GP63 | OPTICAL_DRIVE_GP08 | OPTICAL_DRIVE_GP65
  | OPTICAL_DRIVE_ASUS_NR09 | OPTICAL_DRIVE_SP80 | OPTICAL_DRIVE_ASUS_MT1862 | OPTICAL_DRIVE_GP57
  | OPTICAL_DRIVE_AD7701H

record gdox_optical_presence =
  drive_present :: bool
  media_status_known :: bool
  media_is_present :: bool
  presence_drive :: gdox_optical_drive

datatype gdox_optical_eject_completion =
  EJECT_COMPLETION_NONE | EJECT_COMPLETION_TRAY_EJECTED | EJECT_COMPLETION_RELEASED_FOR_MANUAL_EJECT

datatype gdox_optical_monitor_failure = FAILURE_TRANSIENT | FAILURE_TERMINAL

record gdox_optical_monitor =
  stable_observations :: u32
  rearm_observations :: u32
  transient_failures :: u32
  attempt_permitted :: bool
  command_required :: bool

definition gdox_optical_monitor_initialize :: gdox_optical_monitor where
  "gdox_optical_monitor_initialize =
     \<lparr>stable_observations = 0, rearm_observations = 0, transient_failures = 0,
      attempt_permitted = True, command_required = False\<rparr>"

definition gdox_optical_monitor_block :: "gdox_optical_monitor \<Rightarrow> gdox_optical_monitor" where
  "gdox_optical_monitor_block monitor =
     \<lparr>stable_observations = 0, rearm_observations = 0, transient_failures = 0,
      attempt_permitted = False, command_required = False\<rparr>"

definition gdox_optical_monitor_session_ended :: "gdox_optical_monitor \<Rightarrow> gdox_optical_monitor" where
  "gdox_optical_monitor_session_ended monitor = gdox_optical_monitor_initialize"

definition gdox_optical_monitor_eject_completed ::
  "gdox_optical_monitor \<Rightarrow> gdox_optical_eject_completion \<Rightarrow> gdox_optical_monitor" where
  "gdox_optical_monitor_eject_completed monitor completion =
     (if completion = EJECT_COMPLETION_TRAY_EJECTED then gdox_optical_monitor_session_ended monitor
      else gdox_optical_monitor_block monitor)"

definition gdox_optical_monitor_fail ::
  "gdox_optical_monitor \<Rightarrow> gdox_optical_monitor_failure \<Rightarrow> gdox_optical_monitor" where
  "gdox_optical_monitor_fail monitor failure =
     (let m = monitor\<lparr>stable_observations := 0, rearm_observations := 0, attempt_permitted := False\<rparr>
      in if failure = FAILURE_TRANSIENT \<and> transient_failures m < GDOX_MEDIA_TRANSIENT_RETRY_LIMIT
         then m\<lparr>transient_failures := transient_failures m + 1, attempt_permitted := True,
                command_required := False\<rparr>
         else m\<lparr>command_required := True\<rparr>)"

definition gdox_optical_monitor_retry :: "gdox_optical_monitor \<Rightarrow> gdox_optical_monitor" where
  "gdox_optical_monitor_retry monitor =
     \<lparr>stable_observations = GDOX_MEDIA_STABLE_OBSERVATIONS, rearm_observations = 0, transient_failures = 0,
      attempt_permitted = True, command_required = False\<rparr>"

definition gdox_optical_monitor_observation_failed :: "gdox_optical_monitor \<Rightarrow> gdox_optical_monitor" where
  "gdox_optical_monitor_observation_failed monitor = monitor\<lparr>stable_observations := 0\<rparr>"

definition presence_lost :: "gdox_optical_presence \<Rightarrow> bool" where
  "presence_lost p = (\<not> drive_present p \<or> (media_status_known p \<and> \<not> media_is_present p))"

definition gdox_optical_monitor_observe ::
  "gdox_optical_monitor \<Rightarrow> gdox_optical_presence \<Rightarrow> bool \<times> gdox_optical_monitor" where
  "gdox_optical_monitor_observe monitor p =
     (if presence_lost p
      then (let m = monitor\<lparr>stable_observations := 0,
                  rearm_observations :=
                    (if rearm_observations monitor < GDOX_MEDIA_REARM_OBSERVATIONS
                     then rearm_observations monitor + 1 else rearm_observations monitor)\<rparr>
            in (False,
                if rearm_observations m \<ge> GDOX_MEDIA_REARM_OBSERVATIONS
                then m\<lparr>transient_failures := 0, attempt_permitted := True, command_required := False\<rparr>
                else m))
      else (let m = monitor\<lparr>rearm_observations := 0,
                  stable_observations :=
                    (if stable_observations monitor < GDOX_MEDIA_STABLE_OBSERVATIONS
                     then stable_observations monitor + 1 else stable_observations monitor)\<rparr>
            in if \<not> attempt_permitted m \<or> stable_observations m < GDOX_MEDIA_STABLE_OBSERVATIONS
               then (False, m)
               else (True, m\<lparr>attempt_permitted := False\<rparr>)))"

definition gdox_optical_monitor_is_armed :: "gdox_optical_monitor \<Rightarrow> bool" where
  "gdox_optical_monitor_is_armed monitor = attempt_permitted monitor"

definition gdox_optical_monitor_has_pending_failure :: "gdox_optical_monitor \<Rightarrow> bool" where
  "gdox_optical_monitor_has_pending_failure monitor =
     (command_required monitor \<or> transient_failures monitor \<noteq> 0)"

section \<open>The physical media monitor\<close>

definition GDOX_PHYSICAL_MEDIA_ABSENT_CONFIRMATIONS :: u32 where "GDOX_PHYSICAL_MEDIA_ABSENT_CONFIRMATIONS = 2"
definition GDOX_PHYSICAL_MEDIA_DISCONNECT_CONFIRMATIONS :: u32 where "GDOX_PHYSICAL_MEDIA_DISCONNECT_CONFIRMATIONS = 3"
definition GDOX_PHYSICAL_MEDIA_FAULT_CONFIRMATIONS :: u32 where "GDOX_PHYSICAL_MEDIA_FAULT_CONFIRMATIONS = 3"

lemmas physical_limits = GDOX_PHYSICAL_MEDIA_ABSENT_CONFIRMATIONS_def
  GDOX_PHYSICAL_MEDIA_DISCONNECT_CONFIRMATIONS_def GDOX_PHYSICAL_MEDIA_FAULT_CONFIRMATIONS_def

datatype gdox_physical_media_event =
    PHYSICAL_EVENT_NONE | PHYSICAL_EVENT_EJECT_REQUEST | PHYSICAL_EVENT_CHANGED
  | PHYSICAL_EVENT_DISCONNECTED | PHYSICAL_EVENT_SESSION_FAULT

record gdox_physical_media_monitor =
  pm_event :: gdox_physical_media_event
  pm_generation :: u64
  absent_observations :: u32
  disconnected_observations :: u32
  fault_observations :: u32
  generation_known :: bool
  session_fault :: bool

definition gdox_physical_media_eject_request_matches :: "media_observation option \<Rightarrow> u64 \<Rightarrow> bool" where
  "gdox_physical_media_eject_request_matches observation expected_generation =
     (case observation of
        None \<Rightarrow> False
      | Some ob \<Rightarrow> event ob = MEDIA_EVENT_EJECT_REQUEST \<and> generation ob = expected_generation
                  \<and> readiness ob = MEDIA_READINESS_PRESENT)"

definition latch_event ::
  "gdox_physical_media_monitor \<Rightarrow> gdox_physical_media_event \<Rightarrow> gdox_physical_media_monitor" where
  "latch_event monitor ev =
     (if pm_event monitor = PHYSICAL_EVENT_NONE then monitor\<lparr>pm_event := ev\<rparr> else monitor)"

definition gdox_physical_media_monitor_initialize :: gdox_physical_media_monitor where
  "gdox_physical_media_monitor_initialize =
     \<lparr>pm_event = PHYSICAL_EVENT_NONE, pm_generation = 0, absent_observations = 0,
      disconnected_observations = 0, fault_observations = 0, generation_known = False,
      session_fault = False\<rparr>"

text \<open>\<open>if (count < limit) ++count\<close>.\<close>

definition confirm :: "u32 \<Rightarrow> u32 \<Rightarrow> u32" where
  "confirm limit k = (if k < limit then k + 1 else k)"

text \<open>The function returns the event of the monitor it leaves.\<close>

definition observe_readiness ::
  "gdox_physical_media_monitor \<Rightarrow> media_readiness \<Rightarrow> gdox_physical_media_monitor" where
  "observe_readiness monitor ready =
     (case ready of
        MEDIA_READINESS_PRESENT \<Rightarrow> monitor\<lparr>absent_observations := 0\<rparr>
      | MEDIA_READINESS_ABSENT \<Rightarrow>
          (let m = monitor\<lparr>absent_observations :=
                  confirm GDOX_PHYSICAL_MEDIA_ABSENT_CONFIRMATIONS (absent_observations monitor)\<rparr>
           in if absent_observations m \<ge> GDOX_PHYSICAL_MEDIA_ABSENT_CONFIRMATIONS
              then latch_event m PHYSICAL_EVENT_CHANGED else m)
      | _ \<Rightarrow> monitor)"

definition gdox_physical_media_monitor_observe ::
  "gdox_physical_media_monitor \<Rightarrow> media_observation \<Rightarrow> gdox_physical_media_monitor" where
  "gdox_physical_media_monitor_observe monitor ob =
     (if pm_event monitor \<noteq> PHYSICAL_EVENT_NONE then monitor
      else if event ob = MEDIA_EVENT_EJECT_REQUEST then latch_event monitor PHYSICAL_EVENT_EJECT_REQUEST
      else if generation_known monitor
              \<and> (generation ob \<noteq> pm_generation monitor \<or> event ob = MEDIA_EVENT_NEW_MEDIA
                 \<or> event ob = MEDIA_EVENT_REMOVAL \<or> event ob = MEDIA_EVENT_CHANGED)
      then latch_event monitor PHYSICAL_EVENT_CHANGED
      else (let m = (if \<not> generation_known monitor
                     then monitor\<lparr>pm_generation := generation ob, generation_known := True\<rparr> else monitor)
            in if session_fault m
               then (if readiness ob = MEDIA_READINESS_PRESENT then latch_event m PHYSICAL_EVENT_SESSION_FAULT
                     else (let m = m\<lparr>fault_observations :=
                                 confirm GDOX_PHYSICAL_MEDIA_FAULT_CONFIRMATIONS (fault_observations m)\<rparr>
                           in if fault_observations m \<ge> GDOX_PHYSICAL_MEDIA_FAULT_CONFIRMATIONS
                              then latch_event m PHYSICAL_EVENT_SESSION_FAULT
                              else observe_readiness m (readiness ob)))
               else observe_readiness (m\<lparr>fault_observations := 0\<rparr>) (readiness ob)))"

definition gdox_physical_media_monitor_connection ::
  "gdox_physical_media_monitor \<Rightarrow> bool \<Rightarrow> bool \<Rightarrow> gdox_physical_media_monitor" where
  "gdox_physical_media_monitor_connection monitor status_known connected =
     (if pm_event monitor \<noteq> PHYSICAL_EVENT_NONE then monitor
      else if \<not> status_known then monitor
      else if connected then monitor\<lparr>disconnected_observations := 0\<rparr>
      else (let m = monitor\<lparr>disconnected_observations :=
                  confirm GDOX_PHYSICAL_MEDIA_DISCONNECT_CONFIRMATIONS (disconnected_observations monitor)\<rparr>
            in if disconnected_observations m \<ge> GDOX_PHYSICAL_MEDIA_DISCONNECT_CONFIRMATIONS
               then latch_event m PHYSICAL_EVENT_DISCONNECTED else m))"

definition gdox_physical_media_monitor_session_fault ::
  "gdox_physical_media_monitor \<Rightarrow> gdox_physical_media_monitor" where
  "gdox_physical_media_monitor_session_fault monitor =
     (if pm_event monitor = PHYSICAL_EVENT_NONE then monitor\<lparr>session_fault := True\<rparr> else monitor)"

definition gdox_physical_media_monitor_event :: "gdox_physical_media_monitor \<Rightarrow> gdox_physical_media_event" where
  "gdox_physical_media_monitor_event monitor = pm_event monitor"

section \<open>The background lifecycle\<close>

datatype gdox_background_state = BACKGROUND_VISIBLE | BACKGROUND_HIDDEN | BACKGROUND_STOPPING

datatype gdox_background_action =
    BACKGROUND_NO_ACTION | BACKGROUND_WINDOW_CLOSED | BACKGROUND_OPEN_REQUESTED
  | BACKGROUND_QUIT_REQUESTED | BACKGROUND_FACILITY_AVAILABLE | BACKGROUND_FACILITY_UNAVAILABLE

record gdox_background_lifecycle =
  lifecycle_state :: gdox_background_state
  background_available :: bool
  window_activation_pending :: bool

definition gdox_background_lifecycle_initialize :: "bool \<Rightarrow> bool \<Rightarrow> gdox_background_lifecycle" where
  "gdox_background_lifecycle_initialize start_hidden available =
     \<lparr>lifecycle_state = (if start_hidden \<and> available then BACKGROUND_HIDDEN else BACKGROUND_VISIBLE),
      background_available = available, window_activation_pending = False\<rparr>"

definition gdox_background_lifecycle_apply ::
  "gdox_background_lifecycle \<Rightarrow> gdox_background_action \<Rightarrow> gdox_background_lifecycle" where
  "gdox_background_lifecycle_apply lifecycle action =
     (if lifecycle_state lifecycle = BACKGROUND_STOPPING then lifecycle
      else (case action of
              BACKGROUND_NO_ACTION \<Rightarrow> lifecycle
            | BACKGROUND_WINDOW_CLOSED \<Rightarrow>
                lifecycle\<lparr>lifecycle_state :=
                  (if background_available lifecycle then BACKGROUND_HIDDEN else BACKGROUND_STOPPING)\<rparr>
            | BACKGROUND_OPEN_REQUESTED \<Rightarrow>
                lifecycle\<lparr>lifecycle_state := BACKGROUND_VISIBLE, window_activation_pending := True\<rparr>
            | BACKGROUND_QUIT_REQUESTED \<Rightarrow>
                lifecycle\<lparr>lifecycle_state := BACKGROUND_STOPPING, window_activation_pending := False\<rparr>
            | BACKGROUND_FACILITY_AVAILABLE \<Rightarrow> lifecycle\<lparr>background_available := True\<rparr>
            | BACKGROUND_FACILITY_UNAVAILABLE \<Rightarrow>
                (let l = lifecycle\<lparr>background_available := False\<rparr>
                 in if lifecycle_state l = BACKGROUND_HIDDEN then l\<lparr>lifecycle_state := BACKGROUND_VISIBLE\<rparr>
                    else l)))"

definition gdox_background_lifecycle_take_window_activation ::
  "gdox_background_lifecycle \<Rightarrow> bool \<times> gdox_background_lifecycle" where
  "gdox_background_lifecycle_take_window_activation lifecycle =
     (window_activation_pending lifecycle, lifecycle\<lparr>window_activation_pending := False\<rparr>)"

definition background_argument :: string where
  "background_argument = ''--background''"

text \<open>Arguments that are NULL pointers are \<open>None\<close>; the first is the program.\<close>

definition gdox_background_arguments_request_hidden :: "string option list \<Rightarrow> bool" where
  "gdox_background_arguments_request_hidden arguments =
     (length arguments > 1 \<and> Some background_argument \<in> set (tl arguments))"

definition c_isspace :: "char \<Rightarrow> bool" where
  "c_isspace c = (c = CHR '' '' \<or> c = CHR 0x09 \<or> c = CHR 0x0a \<or> c = CHR 0x0b \<or> c = CHR 0x0c \<or> c = CHR 0x0d)"

text \<open>
  One argument of the command line: what lies between the quotes or up to the next space, and the
  rest. A quoted argument with more text glued to it is skipped as a whole (\<open>None\<close>).
\<close>

definition next_argument :: "string \<Rightarrow> string option \<times> string" where
  "next_argument cursor =
     (case cursor of
        [] \<Rightarrow> (Some [], [])
      | c # rest \<Rightarrow>
          if c = CHR 0x22 \<or> c = CHR 0x27
          then (let arg = takeWhile (\<lambda>x. x \<noteq> c) rest; after = dropWhile (\<lambda>x. x \<noteq> c) rest;
                    after = (if after \<noteq> [] then tl after else [])
                in if after \<noteq> [] \<and> \<not> c_isspace (hd after)
                   then (None, dropWhile (\<lambda>x. \<not> c_isspace x) after)
                   else (Some arg, after))
          else (Some (takeWhile (\<lambda>x. \<not> c_isspace x) cursor), dropWhile (\<lambda>x. \<not> c_isspace x) cursor))"

lemma next_argument_shorter:
  assumes "cursor \<noteq> []" and "\<not> c_isspace (hd cursor)"
  shows "length (snd (next_argument cursor)) < length cursor"
proof -
  obtain c rest where c: "cursor = c # rest" using assms(1) by (cases cursor) auto
  show ?thesis
  proof (cases "c = CHR 0x22 \<or> c = CHR 0x27")
    case True
    define after where "after = (let a = dropWhile (\<lambda>x. x \<noteq> c) rest in if a \<noteq> [] then tl a else [])"
    have "length after \<le> length rest"
      using length_dropWhile_le[of "\<lambda>x. x \<noteq> c" rest] by (auto simp: after_def Let_def)
    moreover have "length (dropWhile (\<lambda>x. \<not> c_isspace x) after) \<le> length after"
      by (rule length_dropWhile_le)
    ultimately show ?thesis
      using True by (auto simp: c next_argument_def Let_def after_def)
  next
    case False
    then show ?thesis
      using assms(2) length_dropWhile_le[of "\<lambda>x. \<not> c_isspace x" rest] by (simp add: c next_argument_def)
  qed
qed

function command_line_requests :: "string \<Rightarrow> bool" where
  "command_line_requests cursor =
     (let cursor = dropWhile c_isspace cursor
      in if cursor = [] then False
         else (case next_argument cursor of
                 (argument, rest) \<Rightarrow>
                   if argument = Some background_argument then True else command_line_requests rest))"
  by pat_completeness auto
termination
proof (relation "measure length", simp)
  fix cursor x argument rest
  assume x: "x = dropWhile c_isspace cursor" "x \<noteq> []" and n: "(argument, rest) = next_argument x"
  have "\<not> c_isspace (hd x)" using x hd_dropWhile[of c_isspace cursor] by blast
  from next_argument_shorter[OF x(2) this] n[symmetric] length_dropWhile_le[of c_isspace cursor] x(1)
  show "(rest, cursor) \<in> measure length" by simp
qed

declare command_line_requests.simps [simp del]

definition gdox_background_command_line_requests_hidden :: "string option \<Rightarrow> bool" where
  "gdox_background_command_line_requests_hidden command_line =
     (case command_line of None \<Rightarrow> False | Some cursor \<Rightarrow> command_line_requests cursor)"

section \<open>Histories of the optical monitor\<close>

datatype optical_step =
    ObserveStep gdox_optical_presence | ObservationFailedStep | FailStep gdox_optical_monitor_failure

text \<open>
  The calls that are no command for another attempt. \<open>optical_attempts\<close> counts the observations that
  start one.
\<close>

fun optical_attempts :: "gdox_optical_monitor \<Rightarrow> optical_step list \<Rightarrow> nat" where
  "optical_attempts m [] = 0"
| "optical_attempts m (ObserveStep p # steps) =
     (case gdox_optical_monitor_observe m p of
        (attempt, m') \<Rightarrow> (if attempt then 1 else 0) + optical_attempts m' steps)"
| "optical_attempts m (ObservationFailedStep # steps) =
     optical_attempts (gdox_optical_monitor_observation_failed m) steps"
| "optical_attempts m (FailStep f # steps) = optical_attempts (gdox_optical_monitor_fail m f) steps"

text \<open>
  The disc was seen gone ten times in a row, counted from \<open>k\<close> earlier sightings: no observation of
  it and no failure between them.
\<close>

fun disc_removed :: "nat \<Rightarrow> optical_step list \<Rightarrow> bool" where
  "disc_removed k [] = False"
| "disc_removed k (ObserveStep p # steps) =
     (if presence_lost p then k + 1 \<ge> 10 \<or> disc_removed (k + 1) steps else disc_removed 0 steps)"
| "disc_removed k (ObservationFailedStep # steps) = disc_removed k steps"
| "disc_removed k (FailStep f # steps) = disc_removed 0 steps"

definition attempts_left :: "gdox_optical_monitor \<Rightarrow> nat" where
  "attempts_left m = (if attempt_permitted m then 1 else 0) + (2 - transient_failures m)"

lemma attempts_left_bounds:
  "attempts_left (gdox_optical_monitor_fail m f) \<le> attempts_left m"
  "attempts_left (gdox_optical_monitor_observation_failed m) = attempts_left m"
  "gdox_optical_monitor_observe m p = (True, m') \<Longrightarrow> attempts_left m' + 1 = attempts_left m"
  "gdox_optical_monitor_observe m p = (False, m') \<Longrightarrow> \<not> (presence_lost p \<and> rearm_observations m + 1 \<ge> 10) \<Longrightarrow>
     attempts_left m' = attempts_left m"
  by (auto simp: attempts_left_def gdox_optical_monitor_fail_def gdox_optical_monitor_observation_failed_def
      gdox_optical_monitor_observe_def optical_limits Let_def split: if_splits)

lemma rearm_counts:
  "gdox_optical_monitor_observe m p = (a, m') \<Longrightarrow>
   rearm_observations m' = (if presence_lost p then min 10 (rearm_observations m + 1) else 0) \<or> rearm_observations m > 10"
  by (auto simp: gdox_optical_monitor_observe_def optical_limits Let_def split: if_splits)

lemma rearm_others:
  "rearm_observations (gdox_optical_monitor_fail m f) = 0"
  "rearm_observations (gdox_optical_monitor_observation_failed m) = rearm_observations m"
  by (auto simp: gdox_optical_monitor_fail_def gdox_optical_monitor_observation_failed_def Let_def)

lemma attempts_bounded:
  "rearm_observations m \<le> 10 \<Longrightarrow> \<not> disc_removed (rearm_observations m) steps \<Longrightarrow>
   optical_attempts m steps \<le> attempts_left m"
proof (induction steps arbitrary: m)
  case (Cons s steps)
  show ?case
  proof (cases s)
    case (ObserveStep p)
    obtain a m' where o: "gdox_optical_monitor_observe m p = (a, m')" by fastforce
    have few: "\<not> (presence_lost p \<and> rearm_observations m + 1 \<ge> 10)"
      using Cons.prems(2) ObserveStep by auto
    then have r: "rearm_observations m' = (if presence_lost p then rearm_observations m + 1 else 0)"
      using rearm_counts[OF o] Cons.prems(1) by auto
    then have "rearm_observations m' \<le> 10" "\<not> disc_removed (rearm_observations m') steps"
      using Cons.prems(2) ObserveStep few by (auto split: if_splits)
    from Cons.IH[OF this] show ?thesis
      using o ObserveStep attempts_left_bounds(3)[of m p m'] attempts_left_bounds(4)[of m p m', OF _ few]
      by (cases a) auto
  next
    case ObservationFailedStep
    with Cons.IH[of "gdox_optical_monitor_observation_failed m"] Cons.prems show ?thesis
      by (simp add: rearm_others attempts_left_bounds)
  next
    case (FailStep f)
    with Cons.IH[of "gdox_optical_monitor_fail m f"] Cons.prems attempts_left_bounds(1)[of m f] show ?thesis
      by (simp add: rearm_others)
  qed
qed simp

lemma settled_attempts:
  assumes "\<not> presence_lost p"
  shows "optical_attempts m (replicate n (ObserveStep p)) =
    (if attempt_permitted m \<and> 0 < n \<and> 4 \<le> stable_observations m + n then 1 else 0)"
proof (induction n arbitrary: m)
  case (Suc n)
  obtain a m' where o: "gdox_optical_monitor_observe m p = (a, m')" by fastforce
  show ?case
    using o assms Suc.IH[of m']
    by (auto simp: gdox_optical_monitor_observe_def optical_limits Let_def split: if_splits)
qed simp

text \<open>A monitor that permits no attempt stays so until a transient failure is reported or the disc is removed.\<close>

lemma blocked_observe:
  assumes "gdox_optical_monitor_observe m p = (a, m')" and "\<not> attempt_permitted m"
    and "\<not> (presence_lost p \<and> rearm_observations m + 1 \<ge> 10)"
  shows "\<not> a \<and> \<not> attempt_permitted m' \<and> rearm_observations m' = (if presence_lost p then rearm_observations m + 1 else 0)"
  using assms by (auto simp: gdox_optical_monitor_observe_def optical_limits Let_def split: if_splits)

lemma terminal_blocks:
  "\<not> attempt_permitted (gdox_optical_monitor_fail m FAILURE_TERMINAL)"
  by (simp add: gdox_optical_monitor_fail_def Let_def)

lemma blocked_attempts:
  "\<not> attempt_permitted m \<Longrightarrow> FailStep FAILURE_TRANSIENT \<notin> set steps \<Longrightarrow>
   \<not> disc_removed (rearm_observations m) steps \<Longrightarrow> optical_attempts m steps = 0"
proof (induction steps arbitrary: m)
  case (Cons s steps)
  show ?case
  proof (cases s)
    case (ObserveStep p)
    obtain a m' where o: "gdox_optical_monitor_observe m p = (a, m')" by fastforce
    have "\<not> (presence_lost p \<and> rearm_observations m + 1 \<ge> 10)" using Cons.prems(3) ObserveStep by auto
    from blocked_observe[OF o Cons.prems(1) this] Cons.IH[of m'] Cons.prems show ?thesis
      using o ObserveStep by (auto split: if_splits)
  next
    case ObservationFailedStep
    with Cons.IH[of "gdox_optical_monitor_observation_failed m"] Cons.prems show ?thesis
      by (simp add: gdox_optical_monitor_observation_failed_def)
  next
    case (FailStep f)
    then have "f = FAILURE_TERMINAL" using Cons.prems(2) by (cases f) auto
    with FailStep Cons.IH[OF terminal_blocks[of m]] Cons.prems show ?thesis by (simp add: rearm_others)
  qed
qed simp

text \<open>A disc that is gone for ten observations arms the monitor again, whatever it was before.\<close>

lemma removal_arms:
  assumes "presence_lost q" and "rearm_observations m < 10" and "10 \<le> rearm_observations m + k"
  shows "\<exists>m'. attempt_permitted m' \<and> stable_observations m' = 0
    \<and> (\<forall>steps. optical_attempts m (replicate k (ObserveStep q) @ steps) = optical_attempts m' steps)"
  using assms(2,3)
proof (induction k arbitrary: m)
  case (Suc k)
  let ?m = "snd (gdox_optical_monitor_observe m q)"
  have quiet: "optical_attempts m (replicate (Suc k) (ObserveStep q) @ steps)
      = optical_attempts ?m (replicate k (ObserveStep q) @ steps)" for steps
    using assms(1) by (simp add: gdox_optical_monitor_observe_def Let_def)
  show ?case
  proof (cases "rearm_observations m = 9")
    case False
    then have "rearm_observations ?m < 10" "10 \<le> rearm_observations ?m + k"
      using Suc.prems assms(1) by (simp_all add: gdox_optical_monitor_observe_def optical_limits Let_def)
    from Suc.IH[OF this] show ?thesis unfolding quiet .
  next
    case True
    have armed: "\<exists>m'. attempt_permitted m' \<and> stable_observations m' = 0
        \<and> (\<forall>steps. optical_attempts x (replicate j (ObserveStep q) @ steps) = optical_attempts m' steps)"
      if "attempt_permitted x" "stable_observations x = 0" for x j
      using that
    proof (induction j arbitrary: x)
      case (Suc j)
      let ?x = "snd (gdox_optical_monitor_observe x q)"
      have "attempt_permitted ?x" "stable_observations ?x = 0"
        using Suc.prems assms(1) by (simp_all add: gdox_optical_monitor_observe_def Let_def)
      from Suc.IH[OF this] show ?case
        using assms(1) by (simp add: gdox_optical_monitor_observe_def Let_def)
    qed auto
    have "attempt_permitted ?m" "stable_observations ?m = 0"
      using True assms(1) by (simp_all add: gdox_optical_monitor_observe_def optical_limits Let_def)
    from armed[OF this] show ?thesis unfolding quiet .
  qed
qed simp

text \<open>A disc that stays while each attempt fails in a transient way: one attempt a round, three rounds.\<close>

definition failing_rounds :: "gdox_optical_presence \<Rightarrow> nat \<Rightarrow> optical_step list" where
  "failing_rounds p k = concat (replicate k (replicate 4 (ObserveStep p) @ [FailStep FAILURE_TRANSIENT]))"

lemma failing_round:
  assumes "\<not> presence_lost p" and "stable_observations m = 0"
  shows "optical_attempts m (replicate 4 (ObserveStep p) @ FailStep FAILURE_TRANSIENT # steps) =
     (if attempt_permitted m then 1 else 0)
     + optical_attempts (gdox_optical_monitor_fail m FAILURE_TRANSIENT) steps"
proof -
  have "gdox_optical_monitor_fail (m\<lparr>rearm_observations := r, stable_observations := n, attempt_permitted := b\<rparr>) f
      = gdox_optical_monitor_fail m f"
    "gdox_optical_monitor_fail (m\<lparr>rearm_observations := r, stable_observations := n\<rparr>) f
      = gdox_optical_monitor_fail m f" for r n b f
    by (simp_all add: gdox_optical_monitor_fail_def Let_def)
  with assms show ?thesis
    by (simp add: numeral_eq_Suc gdox_optical_monitor_observe_def optical_limits Let_def)
qed

lemma failing_rounds_attempts:
  assumes "\<not> presence_lost p"
  shows "stable_observations m = 0 \<Longrightarrow> (attempt_permitted m \<longrightarrow> transient_failures m \<le> 2) \<Longrightarrow>
     (\<not> attempt_permitted m \<longrightarrow> transient_failures m \<ge> 2) \<Longrightarrow>
     optical_attempts m (failing_rounds p k) = (if attempt_permitted m then min k (3 - transient_failures m) else 0)"
proof (induction k arbitrary: m)
  case (Suc k)
  have "failing_rounds p (Suc k) = replicate 4 (ObserveStep p) @ FailStep FAILURE_TRANSIENT # failing_rounds p k"
    by (simp add: failing_rounds_def)
  with Suc.IH[of "gdox_optical_monitor_fail m FAILURE_TRANSIENT"] failing_round[OF assms Suc.prems(1)] Suc.prems
  show ?case by (auto simp: gdox_optical_monitor_fail_def optical_limits Let_def)
qed (simp add: failing_rounds_def)

section \<open>Histories of the physical media monitor\<close>

datatype physical_step =
    MediaStep media_observation | ConnectionStep bool bool | SessionFaultStep

fun physical_run :: "gdox_physical_media_monitor \<Rightarrow> physical_step list \<Rightarrow> gdox_physical_media_monitor" where
  "physical_run m [] = m"
| "physical_run m (MediaStep ob # steps) = physical_run (gdox_physical_media_monitor_observe m ob) steps"
| "physical_run m (ConnectionStep known connected # steps) =
     physical_run (gdox_physical_media_monitor_connection m known connected) steps"
| "physical_run m (SessionFaultStep # steps) = physical_run (gdox_physical_media_monitor_session_fault m) steps"

lemma latched_stays:
  "pm_event m \<noteq> PHYSICAL_EVENT_NONE \<Longrightarrow> physical_run m steps = m"
proof (induction steps arbitrary: m)
  case (Cons s steps)
  then show ?case
    by (cases s) (simp_all add: gdox_physical_media_monitor_observe_def gdox_physical_media_monitor_connection_def
        gdox_physical_media_monitor_session_fault_def)
qed simp

lemma no_event_before: "pm_event (physical_run m steps) = PHYSICAL_EVENT_NONE \<Longrightarrow> pm_event m = PHYSICAL_EVENT_NONE"
  by (metis latched_stays)

lemma physical_run_append: "physical_run m (xs @ ys) = physical_run (physical_run m xs) ys"
proof (induction xs arbitrary: m)
  case (Cons s steps)
  then show ?case by (cases s) simp_all
qed simp

text \<open>A step that shows nothing: the medium of generation \<open>g\<close> readable or being looked for, the drive connected.\<close>

fun calm_step :: "u64 \<Rightarrow> physical_step \<Rightarrow> bool" where
  "calm_step g (MediaStep ob) =
     (event ob = MEDIA_EVENT_NONE \<and> generation ob = g \<and> readiness ob \<noteq> MEDIA_READINESS_ABSENT)"
| "calm_step g (ConnectionStep known connected) = (known \<longrightarrow> connected)"
| "calm_step g SessionFaultStep = False"

lemma calm_run:
  "list_all (calm_step g) steps \<Longrightarrow> pm_event m = PHYSICAL_EVENT_NONE \<Longrightarrow> \<not> session_fault m \<Longrightarrow>
   (generation_known m \<Longrightarrow> pm_generation m = g) \<Longrightarrow>
   pm_event (physical_run m steps) = PHYSICAL_EVENT_NONE"
proof (induction steps arbitrary: m)
  case (Cons s steps)
  show ?case
  proof (cases s)
    case (MediaStep ob)
    let ?m = "gdox_physical_media_monitor_observe m ob"
    have "pm_event ?m = PHYSICAL_EVENT_NONE" "\<not> session_fault ?m" "generation_known ?m" "pm_generation ?m = g"
      using Cons.prems MediaStep
      by (auto simp: gdox_physical_media_monitor_observe_def observe_readiness_def Let_def latch_event_def
          split: media_readiness.splits if_splits)
    with Cons.IH[of ?m] Cons.prems MediaStep show ?thesis by simp
  next
    case (ConnectionStep known connected)
    let ?m = "gdox_physical_media_monitor_connection m known connected"
    have "pm_event ?m = PHYSICAL_EVENT_NONE" "\<not> session_fault ?m" "generation_known ?m = generation_known m"
        "pm_generation ?m = pm_generation m"
      using Cons.prems ConnectionStep by (auto simp: gdox_physical_media_monitor_connection_def)
    with Cons.IH[of ?m] Cons.prems ConnectionStep show ?thesis by simp
  qed (use Cons.prems in simp)
qed simp

definition one_generation :: "u64 \<Rightarrow> physical_step list \<Rightarrow> bool" where
  "one_generation g steps = (\<forall>ob. MediaStep ob \<in> set steps \<longrightarrow> generation ob = g)"

lemma quiet_generation:
  "pm_event (physical_run m steps) = PHYSICAL_EVENT_NONE \<Longrightarrow> generation_known m \<Longrightarrow>
   one_generation (pm_generation m) steps
   \<and> generation_known (physical_run m steps) \<and> pm_generation (physical_run m steps) = pm_generation m"
proof (induction steps arbitrary: m)
  case (Cons s steps)
  have none: "pm_event m = PHYSICAL_EVENT_NONE"
    using no_event_before[of m "s # steps"] Cons.prems(1) by simp
  show ?case
  proof (cases s)
    case (MediaStep ob)
    let ?m = "gdox_physical_media_monitor_observe m ob"
    have e: "pm_event ?m = PHYSICAL_EVENT_NONE"
      using no_event_before[of ?m steps] Cons.prems(1) MediaStep by simp
    then have "generation ob = pm_generation m" "generation_known ?m" "pm_generation ?m = pm_generation m"
      using none Cons.prems(2)
      by (auto simp: gdox_physical_media_monitor_observe_def observe_readiness_def Let_def latch_event_def
          split: media_readiness.splits if_splits)
    with Cons.IH[of ?m] Cons.prems MediaStep show ?thesis by (simp add: one_generation_def)
  next
    case (ConnectionStep known connected)
    let ?m = "gdox_physical_media_monitor_connection m known connected"
    have "generation_known ?m = generation_known m" "pm_generation ?m = pm_generation m"
      by (auto simp: gdox_physical_media_monitor_connection_def Let_def latch_event_def)
    with Cons.IH[of ?m] Cons.prems ConnectionStep show ?thesis by (simp add: one_generation_def)
  next
    case SessionFaultStep
    let ?m = "gdox_physical_media_monitor_session_fault m"
    have "generation_known ?m = generation_known m" "pm_generation ?m = pm_generation m"
      by (auto simp: gdox_physical_media_monitor_session_fault_def)
    with Cons.IH[of ?m] Cons.prems SessionFaultStep show ?thesis by (simp add: one_generation_def)
  qed
qed (simp add: one_generation_def)

lemma quiet_history:
  "pm_event (physical_run m steps) = PHYSICAL_EVENT_NONE \<Longrightarrow> \<not> generation_known m \<Longrightarrow>
   MediaStep ob \<in> set steps \<Longrightarrow>
   generation_known (physical_run m steps) \<and> pm_generation (physical_run m steps) = generation ob"
proof (induction steps arbitrary: m)
  case (Cons s steps)
  have none: "pm_event m = PHYSICAL_EVENT_NONE"
    using no_event_before[of m "s # steps"] Cons.prems(1) by simp
  show ?case
  proof (cases s)
    case (MediaStep o1)
    let ?m = "gdox_physical_media_monitor_observe m o1"
    have e: "pm_event ?m = PHYSICAL_EVENT_NONE"
      using no_event_before[of ?m steps] Cons.prems(1) MediaStep by simp
    then have g: "generation_known ?m" "pm_generation ?m = generation o1"
      using none Cons.prems(2)
      by (auto simp: gdox_physical_media_monitor_observe_def observe_readiness_def Let_def latch_event_def
          split: media_readiness.splits if_splits)
    from quiet_generation[of ?m steps] g Cons.prems MediaStep show ?thesis
      by (auto simp: one_generation_def)
  next
    case (ConnectionStep known connected)
    let ?m = "gdox_physical_media_monitor_connection m known connected"
    have "generation_known ?m = generation_known m"
      by (auto simp: gdox_physical_media_monitor_connection_def Let_def latch_event_def)
    with Cons.IH[of ?m] Cons.prems ConnectionStep show ?thesis by simp
  next
    case SessionFaultStep
    let ?m = "gdox_physical_media_monitor_session_fault m"
    have "generation_known ?m = generation_known m"
      by (auto simp: gdox_physical_media_monitor_session_fault_def)
    with Cons.IH[of ?m] Cons.prems SessionFaultStep show ?thesis by simp
  qed
qed simp

section \<open>The window\<close>

text \<open>The window is hidden only while something can bring it back, and stopping is final.\<close>

definition lifecycle_ok :: "gdox_background_lifecycle \<Rightarrow> bool" where
  "lifecycle_ok l \<longleftrightarrow> (lifecycle_state l = BACKGROUND_HIDDEN \<longrightarrow> background_available l)"

lemma lifecycle_ok_kept:
  "lifecycle_ok (gdox_background_lifecycle_initialize start_hidden available)"
  "lifecycle_ok l \<Longrightarrow> lifecycle_ok (gdox_background_lifecycle_apply l action)"
  "lifecycle_ok l \<Longrightarrow> lifecycle_ok (snd (gdox_background_lifecycle_take_window_activation l))"
  by (auto simp: lifecycle_ok_def gdox_background_lifecycle_initialize_def gdox_background_lifecycle_apply_def
      gdox_background_lifecycle_take_window_activation_def Let_def split: gdox_background_action.splits if_splits)

lemma lifecycle_stopping:
  "lifecycle_state l = BACKGROUND_STOPPING \<Longrightarrow> gdox_background_lifecycle_apply l action = l"
  by (simp add: gdox_background_lifecycle_apply_def)

section \<open>Properties\<close>

text \<open>
  C36: A disc that cannot be used is not tried for ever. From a fresh monitor, whatever is observed and
  however the attempts fail, at most three attempts are made unless the disc was seen gone ten times
  in a row; a disc that stays is tried exactly once, at its fourth observation, and when each attempt
  fails in a transient way exactly three times. After a terminal failure no attempt is made at all,
  whatever the monitor's state before and whatever is observed, until the disc was seen gone ten times
  in a row (or a transient failure is reported); gone that long it is tried again, at the fourth
  observation after it came back.
\<close>

theorem optical_monitor_limits_attempts:
  "(\<not> disc_removed 0 steps \<longrightarrow> optical_attempts gdox_optical_monitor_initialize steps \<le> 3)
   \<and> (\<not> presence_lost p \<longrightarrow>
        optical_attempts gdox_optical_monitor_initialize (replicate n (ObserveStep p)) = (if n \<ge> 4 then 1 else 0)
        \<and> optical_attempts gdox_optical_monitor_initialize (failing_rounds p n) = min n 3)
   \<and> (\<not> disc_removed 0 steps \<longrightarrow> FailStep FAILURE_TRANSIENT \<notin> set steps \<longrightarrow>
        optical_attempts m (FailStep FAILURE_TERMINAL # steps) = 0)
   \<and> (\<not> presence_lost p \<longrightarrow> presence_lost q \<longrightarrow> 10 \<le> k \<longrightarrow>
        optical_attempts m (FailStep FAILURE_TERMINAL # replicate k (ObserveStep q) @ replicate n (ObserveStep p))
          = (if n \<ge> 4 then 1 else 0))"
proof (intro conjI impI)
  let ?i = gdox_optical_monitor_initialize and ?failed = "gdox_optical_monitor_fail m FAILURE_TERMINAL"
  have i: "attempts_left ?i = 3" "rearm_observations ?i = 0" "stable_observations ?i = 0" "attempt_permitted ?i"
      "transient_failures ?i = 0"
    by (simp_all add: attempts_left_def gdox_optical_monitor_initialize_def)
  show "optical_attempts ?i steps \<le> 3" if "\<not> disc_removed 0 steps"
    using attempts_bounded[of ?i steps] i that by simp
  show "optical_attempts ?i (replicate n (ObserveStep p)) = (if n \<ge> 4 then 1 else 0)" if "\<not> presence_lost p"
    using settled_attempts[OF that, of ?i n] i by simp
  show "optical_attempts ?i (failing_rounds p n) = min n 3" if "\<not> presence_lost p"
    using failing_rounds_attempts[OF that, of ?i n] i by simp
  show "optical_attempts m (FailStep FAILURE_TERMINAL # steps) = 0"
    if "\<not> disc_removed 0 steps" "FailStep FAILURE_TRANSIENT \<notin> set steps"
    using blocked_attempts[OF terminal_blocks that(2)] that(1) by (simp add: rearm_others)
  assume "\<not> presence_lost p" "presence_lost q" "10 \<le> k"
  then obtain m' where "attempt_permitted m'" "stable_observations m' = 0"
    "\<forall>steps. optical_attempts ?failed (replicate k (ObserveStep q) @ steps) = optical_attempts m' steps"
    using removal_arms[of q ?failed k] by (auto simp: rearm_others)
  then show "optical_attempts m (FailStep FAILURE_TERMINAL # replicate k (ObserveStep q) @ replicate n (ObserveStep p))
      = (if n \<ge> 4 then 1 else 0)"
    using settled_attempts[OF \<open>\<not> presence_lost p\<close>, of m' n] by simp
qed

theorem optical_monitor_limits_attempts_witness:
  "\<exists>p q. \<not> presence_lost p \<and> presence_lost q
     \<and> optical_attempts gdox_optical_monitor_initialize (replicate 7 (ObserveStep p)) = 1
     \<and> optical_attempts gdox_optical_monitor_initialize (failing_rounds p 5) = 3
     \<and> optical_attempts gdox_optical_monitor_initialize (FailStep FAILURE_TERMINAL # replicate 30 (ObserveStep p)) = 0
     \<and> optical_attempts gdox_optical_monitor_initialize
         (FailStep FAILURE_TERMINAL # replicate 10 (ObserveStep q) @ replicate 7 (ObserveStep p)) = 1
     \<and> \<not> disc_removed 0 (failing_rounds p 5)
     \<and> optical_attempts gdox_optical_monitor_initialize (failing_rounds p 5) \<le> 3"
proof -
  let ?p = "\<lparr>drive_present = True, media_status_known = True, media_is_present = True,
    presence_drive = OPTICAL_DRIVE_AD7701H\<rparr>"
  let ?q = "?p\<lparr>media_is_present := False\<rparr>" and ?i = gdox_optical_monitor_initialize
  have p: "\<not> presence_lost ?p" "presence_lost ?q" by (simp_all add: presence_lost_def)
  have kept: "\<not> disc_removed 0 (failing_rounds ?p 5)" "\<not> disc_removed 0 (replicate 30 (ObserveStep ?p))"
    by (simp_all add: numeral_eq_Suc p failing_rounds_def)
  have quiet: "FailStep FAILURE_TRANSIENT \<notin> set (replicate 30 (ObserveStep ?p))" by simp
  note limits = optical_monitor_limits_attempts[of _ ?p _ ?i ?q 10]
  have "optical_attempts ?i (replicate 7 (ObserveStep ?p)) = 1" "optical_attempts ?i (failing_rounds ?p 5) = 3"
    using limits[of _ 7] limits[of _ 5] p by simp_all
  moreover have "optical_attempts ?i (FailStep FAILURE_TERMINAL # replicate 30 (ObserveStep ?p)) = 0"
    using limits[of "replicate 30 (ObserveStep ?p)"] kept(2) quiet by blast
  moreover have "optical_attempts ?i (FailStep FAILURE_TERMINAL # replicate 10 (ObserveStep ?q) @ replicate 7 (ObserveStep ?p)) = 1"
    using limits[of _ 7] p by simp
  moreover have "optical_attempts ?i (failing_rounds ?p 5) \<le> 3"
    using limits[of "failing_rounds ?p 5"] kept(1) by blast
  ultimately show ?thesis using p kept(1) by blast
qed



end
