(* ===== verification/RuntimeCommands.thy ===== *)
theory RuntimeCommands
  imports PreservationCatalog
begin

text \<open>
  The requests the interface sends to the runtime thread (src/src/app/runtime_commands.h,
  runtime_commands.c): a ring of sixteen entries in which a request of the same kind as the last one
  replaces it, and the plan that turns a request into an action. The ring is proved to be a bounded
  first-in first-out queue with that replacement; the contract is the locale \<open>request_fifo\<close>.
\<close>

section \<open>Data\<close>

text \<open>\<open>REQUEST_OUT_OF_RANGE\<close> stands for an integer outside the C enumeration.\<close>

datatype gdox_runtime_request_kind =
    REQUEST_NONE | REQUEST_START | REQUEST_RESTART | REQUEST_CLOSE | REQUEST_EJECT | REQUEST_PRESERVE
  | REQUEST_APPLY_DISPLAY | REQUEST_OPEN_IMAGE | REQUEST_USE_PHYSICAL | REQUEST_SET_XEMU
  | REQUEST_IMPORT_FIRMWARE | REQUEST_IMPORT_MCPX | REQUEST_IMPORT_BIOS | REQUEST_OUT_OF_RANGE

record gdox_runtime_request_entry =
  request_kind :: gdox_runtime_request_kind
  request_preservation_format :: gdox_preservation_format
  request_preservation_verify :: bool
  request_path :: string

definition GDOX_RUNTIME_REQUEST_CAPACITY :: nat where "GDOX_RUNTIME_REQUEST_CAPACITY = 16"

record gdox_runtime_request_queue =
  queue_entries :: "gdox_runtime_request_entry list"
  queue_head :: nat
  queue_count :: nat

datatype gdox_media_source = MEDIA_PHYSICAL_DISC | MEDIA_DISC_IMAGE

record gdox_runtime_command_state =
  cs_media_source :: gdox_media_source
  cs_has_session :: bool
  cs_emulator_running :: bool
  cs_has_saved_image :: bool

datatype gdox_runtime_action =
    ACTION_NONE | ACTION_START_EMULATOR | ACTION_RESTART_EMULATOR | ACTION_STOP_EMULATOR
  | ACTION_EJECT_PHYSICAL | ACTION_PRESERVE_PHYSICAL | ACTION_APPLY_DISPLAY | ACTION_OPEN_IMAGE
  | ACTION_REOPEN_IMAGE | ACTION_DISCOVER_PHYSICAL | ACTION_USE_PHYSICAL

section \<open>The ring\<close>

definition request_known :: "gdox_runtime_request_entry \<Rightarrow> bool" where
  "request_known r = (request_kind r \<noteq> REQUEST_NONE \<and> request_kind r \<noteq> REQUEST_OUT_OF_RANGE)"

definition request_replaces :: "gdox_runtime_request_entry \<Rightarrow> gdox_runtime_request_entry \<Rightarrow> bool" where
  "request_replaces old new =
     (request_kind old = request_kind new
      \<and> request_kind new \<notin> {REQUEST_IMPORT_FIRMWARE, REQUEST_IMPORT_MCPX, REQUEST_IMPORT_BIOS})"

definition gdox_runtime_request_enqueue ::
  "gdox_runtime_request_queue \<Rightarrow> gdox_runtime_request_entry \<Rightarrow> bool \<times> gdox_runtime_request_queue" where
  "gdox_runtime_request_enqueue queue request =
     (if \<not> request_known request then (False, queue)
      else (let insertion = (queue_head queue + queue_count queue) mod GDOX_RUNTIME_REQUEST_CAPACITY;
                tail = (if insertion = 0 then GDOX_RUNTIME_REQUEST_CAPACITY - 1 else insertion - 1)
            in if queue_count queue > 0 \<and> request_replaces (queue_entries queue ! tail) request
               then (True, queue\<lparr>queue_entries := (queue_entries queue)[tail := request]\<rparr>)
               else if queue_count queue \<ge> GDOX_RUNTIME_REQUEST_CAPACITY then (False, queue)
               else (True, queue\<lparr>queue_entries := (queue_entries queue)[insertion := request],
                                 queue_count := queue_count queue + 1\<rparr>)))"

definition gdox_runtime_request_dequeue ::
  "gdox_runtime_request_queue \<Rightarrow> gdox_runtime_request_entry option \<times> gdox_runtime_request_queue" where
  "gdox_runtime_request_dequeue queue =
     (if queue_count queue = 0 then (None, queue)
      else (let count = queue_count queue - 1;
                head = (queue_head queue + 1) mod GDOX_RUNTIME_REQUEST_CAPACITY
            in (Some (queue_entries queue ! queue_head queue),
                queue\<lparr>queue_head := (if count = 0 then 0 else head), queue_count := count\<rparr>)))"

definition gdox_runtime_plan_request ::
  "gdox_runtime_request_entry \<Rightarrow> gdox_runtime_command_state \<Rightarrow> gdox_runtime_action" where
  "gdox_runtime_plan_request request state =
     (case request_kind request of
        REQUEST_START \<Rightarrow>
          if cs_has_session state
          then (if cs_emulator_running state then ACTION_NONE else ACTION_START_EMULATOR)
          else if cs_media_source state = MEDIA_DISC_IMAGE
          then (if cs_has_saved_image state then ACTION_REOPEN_IMAGE else ACTION_NONE)
          else ACTION_DISCOVER_PHYSICAL
      | REQUEST_RESTART \<Rightarrow> if cs_has_session state then ACTION_RESTART_EMULATOR else ACTION_NONE
      | REQUEST_CLOSE \<Rightarrow> if cs_emulator_running state then ACTION_STOP_EMULATOR else ACTION_NONE
      | REQUEST_EJECT \<Rightarrow>
          if cs_media_source state = MEDIA_PHYSICAL_DISC then ACTION_EJECT_PHYSICAL else ACTION_NONE
      | REQUEST_PRESERVE \<Rightarrow>
          if cs_media_source state = MEDIA_PHYSICAL_DISC \<and> cs_has_session state
          then ACTION_PRESERVE_PHYSICAL else ACTION_NONE
      | REQUEST_APPLY_DISPLAY \<Rightarrow>
          if cs_has_session state \<and> cs_emulator_running state then ACTION_APPLY_DISPLAY else ACTION_NONE
      | REQUEST_OPEN_IMAGE \<Rightarrow> ACTION_OPEN_IMAGE
      | REQUEST_USE_PHYSICAL \<Rightarrow> ACTION_USE_PHYSICAL
      | _ \<Rightarrow> ACTION_NONE)"

section \<open>The queue it stands for\<close>

text \<open>The specification: a list of at most \<open>capacity\<close> requests, oldest first.\<close>

definition fifo_put ::
  "('r \<Rightarrow> bool) \<Rightarrow> ('r \<Rightarrow> 'r \<Rightarrow> bool) \<Rightarrow> nat \<Rightarrow> 'r list \<Rightarrow> 'r \<Rightarrow> bool \<times> 'r list" where
  "fifo_put known replaces capacity rs r =
     (if \<not> known r then (False, rs)
      else if rs \<noteq> [] \<and> replaces (last rs) r then (True, butlast rs @ [r])
      else if length rs \<ge> capacity then (False, rs)
      else (True, rs @ [r]))"

definition fifo_take :: "'r list \<Rightarrow> 'r option \<times> 'r list" where
  "fifo_take rs = (case rs of [] \<Rightarrow> (None, []) | r # rest \<Rightarrow> (Some r, rest))"

datatype 'r queue_call = Put 'r | Take

datatype 'r queue_answer = PutAnswer bool | TakeAnswer "'r option"

fun fifo_calls ::
  "('r \<Rightarrow> bool) \<Rightarrow> ('r \<Rightarrow> 'r \<Rightarrow> bool) \<Rightarrow> nat \<Rightarrow> 'r list \<Rightarrow> 'r queue_call list \<Rightarrow> 'r queue_answer list" where
  "fifo_calls known replaces capacity rs [] = []"
| "fifo_calls known replaces capacity rs (Put r # calls) =
     (case fifo_put known replaces capacity rs r of
        (ok, rs) \<Rightarrow> PutAnswer ok # fifo_calls known replaces capacity rs calls)"
| "fifo_calls known replaces capacity rs (Take # calls) =
     (case fifo_take rs of (x, rs) \<Rightarrow> TakeAnswer x # fifo_calls known replaces capacity rs calls)"

text \<open>A queue that keeps the contract: its items follow the specification, call by call.\<close>

locale request_fifo =
  fixes put :: "'q \<Rightarrow> 'r \<Rightarrow> bool \<times> 'q" and take_first :: "'q \<Rightarrow> 'r option \<times> 'q"
    and items :: "'q \<Rightarrow> 'r list" and valid :: "'q \<Rightarrow> bool"
    and known :: "'r \<Rightarrow> bool" and replaces :: "'r \<Rightarrow> 'r \<Rightarrow> bool" and capacity :: nat
  assumes put_items: "valid q \<Longrightarrow> put q r = (ok, q') \<Longrightarrow>
      valid q' \<and> fifo_put known replaces capacity (items q) r = (ok, items q')"
    and take_items: "valid q \<Longrightarrow> take_first q = (x, q') \<Longrightarrow> valid q' \<and> fifo_take (items q) = (x, items q')"
    and items_fit: "valid q \<Longrightarrow> length (items q) \<le> capacity"

fun queue_calls ::
  "('q \<Rightarrow> 'r \<Rightarrow> bool \<times> 'q) \<Rightarrow> ('q \<Rightarrow> 'r option \<times> 'q) \<Rightarrow> 'q \<Rightarrow> 'r queue_call list \<Rightarrow> 'r queue_answer list" where
  "queue_calls put take_first q [] = []"
| "queue_calls put take_first q (Put r # calls) =
     (case put q r of (ok, q) \<Rightarrow> PutAnswer ok # queue_calls put take_first q calls)"
| "queue_calls put take_first q (Take # calls) =
     (case take_first q of (x, q) \<Rightarrow> TakeAnswer x # queue_calls put take_first q calls)"

context request_fifo
begin

lemma calls_follow:
  "valid q \<Longrightarrow> queue_calls put take_first q calls = fifo_calls known replaces capacity (items q) calls"
proof (induction calls arbitrary: q)
  case (Cons call calls)
  show ?case
  proof (cases call)
    case (Put r)
    obtain ok q' where p: "put q r = (ok, q')" by fastforce
    from put_items[OF Cons.prems p] Cons.IH[of q'] show ?thesis by (simp add: Put p)
  next
    case Take
    obtain x q' where t: "take_first q = (x, q')" by fastforce
    from take_items[OF Cons.prems t] Cons.IH[of q'] show ?thesis by (simp add: Take t)
  qed
qed simp

text \<open>Requests of which none replaces the one before it come out in the order they went in.\<close>

lemma puts_come_out:
  assumes "valid q" and "length (items q) + length rs \<le> capacity"
    and "successively (\<lambda>a b. \<not> replaces a b) (items q @ rs)" and "list_all known rs"
  shows "queue_calls put take_first q (map Put rs @ replicate (length (items q) + length rs) Take) =
      replicate (length rs) (PutAnswer True) @ map (\<lambda>r. TakeAnswer (Some r)) (items q @ rs)"
proof -
  have drain: "fifo_calls known replaces capacity xs (replicate (length xs) Take) = map (\<lambda>r. TakeAnswer (Some r)) xs"
    for xs by (induction xs) (simp_all add: fifo_take_def)
  have "length xs + length ys \<le> capacity \<Longrightarrow> successively (\<lambda>a b. \<not> replaces a b) (xs @ ys) \<Longrightarrow> list_all known ys \<Longrightarrow>
      fifo_calls known replaces capacity xs (map Put ys @ replicate (length xs + length ys) Take) =
        replicate (length ys) (PutAnswer True) @ map (\<lambda>r. TakeAnswer (Some r)) (xs @ ys)" for xs ys
  proof (induction ys arbitrary: xs)
    case (Cons y ys)
    have "\<not> (xs \<noteq> [] \<and> replaces (last xs) y)"
      using Cons.prems(2) by (auto simp: successively_append_iff)
    then have "fifo_put known replaces capacity xs y = (True, xs @ [y])"
      using Cons.prems by (auto simp: fifo_put_def)
    with Cons.IH[of "xs @ [y]"] Cons.prems show ?case by simp
  qed (simp add: drain)
  with assms calls_follow[OF assms(1)] show ?thesis by simp
qed

end

section \<open>The ring is the queue\<close>

definition queue_items :: "gdox_runtime_request_queue \<Rightarrow> gdox_runtime_request_entry list" where
  "queue_items q =
     map (\<lambda>i. queue_entries q ! ((queue_head q + i) mod GDOX_RUNTIME_REQUEST_CAPACITY)) [0..<queue_count q]"

definition queue_valid :: "gdox_runtime_request_queue \<Rightarrow> bool" where
  "queue_valid q \<longleftrightarrow>
     length (queue_entries q) = GDOX_RUNTIME_REQUEST_CAPACITY
     \<and> queue_head q < GDOX_RUNTIME_REQUEST_CAPACITY \<and> queue_count q \<le> GDOX_RUNTIME_REQUEST_CAPACITY"

lemma ring_index_inj:
  "h < (n :: nat) \<Longrightarrow> i < n \<Longrightarrow> j < n \<Longrightarrow> (h + i) mod n = (h + j) mod n \<longleftrightarrow> i = j"
  by (auto simp: mod_if split: if_splits)

lemma length_queue_items [simp]: "length (queue_items q) = queue_count q"
  by (simp add: queue_items_def)

lemma ring_tail:
  assumes "queue_valid q" "0 < queue_count q"
  shows "(let insertion = (queue_head q + queue_count q) mod GDOX_RUNTIME_REQUEST_CAPACITY
          in if insertion = 0 then GDOX_RUNTIME_REQUEST_CAPACITY - 1 else insertion - 1)
       = (queue_head q + (queue_count q - 1)) mod GDOX_RUNTIME_REQUEST_CAPACITY"
  using assms by (auto simp: queue_valid_def GDOX_RUNTIME_REQUEST_CAPACITY_def Let_def mod_if)

lemma put_follows:
  assumes "queue_valid q" and "gdox_runtime_request_enqueue q r = (ok, q')"
  shows "queue_valid q' \<and>
    fifo_put request_known request_replaces GDOX_RUNTIME_REQUEST_CAPACITY (queue_items q) r = (ok, queue_items q')"
proof -
  let ?n = GDOX_RUNTIME_REQUEST_CAPACITY
  let ?ins = "(queue_head q + queue_count q) mod ?n"
  let ?tail = "if ?ins = 0 then ?n - 1 else ?ins - 1"
  have v: "length (queue_entries q) = ?n" "queue_head q < ?n" "queue_count q \<le> ?n"
    using assms(1) by (simp_all add: queue_valid_def)
  have empty: "queue_items q = [] \<longleftrightarrow> queue_count q = 0"
    using length_queue_items[of q] by (metis length_0_conv)
  show ?thesis
  proof (cases "request_known r")
    case known: True
    show ?thesis
    proof (cases "queue_count q > 0 \<and> request_replaces (queue_entries q ! ?tail) r")
      case True
      have tail: "?tail = (queue_head q + (queue_count q - 1)) mod ?n"
        using ring_tail[OF assms(1)] True by (simp add: Let_def)
      obtain k where k: "k = (queue_head q + (queue_count q - 1)) mod ?n" by blast
      have q': "ok" "q' = q\<lparr>queue_entries := (queue_entries q)[k := r]\<rparr>"
        using assms(2) known True unfolding k tail[symmetric]
        by (auto simp: gdox_runtime_request_enqueue_def Let_def)
      have last: "last (queue_items q) = queue_entries q ! k"
        using True by (simp add: last_conv_nth empty k) (simp add: queue_items_def)
      have "queue_items q' = (queue_items q)[queue_count q - 1 := r]"
      proof (rule nth_equalityI)
        fix i assume i: "i < length (queue_items q')"
        then have i: "i < queue_count q" by (simp add: q')
        then have same: "(queue_head q + i) mod ?n = k \<longleftrightarrow> i = queue_count q - 1"
          unfolding k using v ring_index_inj[of "queue_head q" ?n i "queue_count q - 1"] by simp
        have "k < ?n" by (simp add: k GDOX_RUNTIME_REQUEST_CAPACITY_def)
        show "queue_items q' ! i = (queue_items q)[queue_count q - 1 := r] ! i"
        proof (cases "i = queue_count q - 1")
          case True
          with i v same \<open>k < ?n\<close> show ?thesis by (simp add: queue_items_def q')
        next
          case False
          with same have "(queue_head q + i) mod ?n \<noteq> k" by blast
          with False i v show ?thesis by (simp add: queue_items_def q')
        qed
      qed (simp add: q')
      also have "\<dots> = butlast (queue_items q) @ [r]"
        using True empty by (simp add: butlast_conv_take upd_conv_take_nth_drop)
      finally have items: "queue_items q' = butlast (queue_items q) @ [r]" .
      have rep: "request_replaces (last (queue_items q)) r" "queue_items q \<noteq> []"
        using True empty unfolding last k tail[symmetric] by simp_all
      have "queue_valid q'" using v by (simp add: queue_valid_def q'(2))
      with rep items q'(1) known show ?thesis by (simp add: fifo_put_def)
    next
      case other: False
      have last: "queue_items q \<noteq> [] \<Longrightarrow> last (queue_items q) = queue_entries q ! ?tail"
        using ring_tail[OF assms(1)] by (simp add: last_conv_nth empty Let_def) (simp add: queue_items_def)
      show ?thesis
      proof (cases "queue_count q \<ge> ?n")
        case True
        then show ?thesis
          using assms known other last empty
          by (auto simp: gdox_runtime_request_enqueue_def Let_def fifo_put_def)
      next
        case False
        then have q': "ok" "q' = q\<lparr>queue_entries := (queue_entries q)[?ins := r], queue_count := queue_count q + 1\<rparr>"
          using assms(2) known other by (auto simp: gdox_runtime_request_enqueue_def Let_def)
        have "queue_items q' = queue_items q @ [r]"
        proof (rule nth_equalityI)
          fix i assume i: "i < length (queue_items q')"
          then have i: "i \<le> queue_count q" by (simp add: q')
          then have "(queue_head q + i) mod ?n = ?ins \<longleftrightarrow> i = queue_count q"
            using v False ring_index_inj[of "queue_head q" ?n i "queue_count q"] by simp
          moreover have "(queue_head q + i) mod ?n < ?n" by (simp add: GDOX_RUNTIME_REQUEST_CAPACITY_def)
          ultimately show "queue_items q' ! i = (queue_items q @ [r]) ! i"
            using i v by (auto simp: queue_items_def q' nth_list_update nth_append)
        qed (simp add: q')
        then show ?thesis
          using False other last empty known q' v by (auto simp: fifo_put_def queue_valid_def)
      qed
    qed
  next
    case False
    with assms show ?thesis by (simp add: gdox_runtime_request_enqueue_def fifo_put_def)
  qed
qed

lemma take_follows:
  assumes "queue_valid q" and "gdox_runtime_request_dequeue q = (x, q')"
  shows "queue_valid q' \<and> fifo_take (queue_items q) = (x, queue_items q')"
proof (cases "queue_count q = 0")
  case True
  then have "queue_items q = []" by (simp add: queue_items_def)
  with True assms show ?thesis by (simp add: gdox_runtime_request_dequeue_def fifo_take_def)
next
  case False
  let ?n = GDOX_RUNTIME_REQUEST_CAPACITY
  have v: "length (queue_entries q) = ?n" "queue_head q < ?n" "queue_count q \<le> ?n"
    using assms(1) by (simp_all add: queue_valid_def)
  have n: "0 < ?n" by (simp add: GDOX_RUNTIME_REQUEST_CAPACITY_def)
  have x: "x = Some (queue_entries q ! queue_head q)"
    and q': "q' = q\<lparr>queue_head := (if queue_count q - 1 = 0 then 0 else (queue_head q + 1) mod ?n),
                    queue_count := queue_count q - 1\<rparr>"
    using assms(2) False by (auto simp: gdox_runtime_request_dequeue_def Let_def)
  have "[0..<queue_count q] = 0 # map Suc [0..<queue_count q - 1]"
    using False by (simp add: upt_conv_Cons map_Suc_upt)
  then have "queue_items q = queue_entries q ! queue_head q
      # map (\<lambda>i. queue_entries q ! ((queue_head q + Suc i) mod ?n)) [0..<queue_count q - 1]"
    using v by (simp add: queue_items_def)
  also have "map (\<lambda>i. queue_entries q ! ((queue_head q + Suc i) mod ?n)) [0..<queue_count q - 1] = queue_items q'"
    by (auto simp: queue_items_def q' mod_add_left_eq)
  finally show ?thesis
    using x v n by (auto simp: fifo_take_def queue_valid_def q')
qed

interpretation request_ring: request_fifo gdox_runtime_request_enqueue gdox_runtime_request_dequeue queue_items
  queue_valid request_known request_replaces GDOX_RUNTIME_REQUEST_CAPACITY
  by unfold_locales (simp add: put_follows, simp add: take_follows, simp add: queue_valid_def)

section \<open>Properties\<close>

text \<open>
  C34: The ring of requests is a queue. Whatever calls are made on a valid ring, wherever its head
  stands, every answer of \<open>enqueue\<close> and \<open>dequeue\<close> is that of a list of at most sixteen requests,
  oldest first, in which a request of the same kind as the newest replaces it (imports excepted) and
  anything else is refused when it is full; and when it is drained, requests of which none replaces
  the one before it come out in the order they went in.
\<close>

theorem request_ring_is_a_queue:
  assumes "queue_valid q"
  shows "queue_calls gdox_runtime_request_enqueue gdox_runtime_request_dequeue q calls =
      fifo_calls request_known request_replaces GDOX_RUNTIME_REQUEST_CAPACITY (queue_items q) calls
    \<and> (queue_items q = [] \<longrightarrow> length rs \<le> GDOX_RUNTIME_REQUEST_CAPACITY \<longrightarrow>
      successively (\<lambda>a b. \<not> request_replaces a b) rs \<longrightarrow> list_all request_known rs \<longrightarrow>
      queue_calls gdox_runtime_request_enqueue gdox_runtime_request_dequeue q (map Put rs @ replicate (length rs) Take) =
        replicate (length rs) (PutAnswer True) @ map (\<lambda>r. TakeAnswer (Some r)) rs)"
proof (intro conjI impI)
  assume rs: "queue_items q = []" "length rs \<le> GDOX_RUNTIME_REQUEST_CAPACITY"
    "successively (\<lambda>a b. \<not> request_replaces a b) rs" "list_all request_known rs"
  then have "length (queue_items q) + length rs = length rs" by simp
  with request_ring.puts_come_out[OF assms, of rs] rs
  show "queue_calls gdox_runtime_request_enqueue gdox_runtime_request_dequeue q (map Put rs @ replicate (length rs) Take) =
      replicate (length rs) (PutAnswer True) @ map (\<lambda>r. TakeAnswer (Some r)) rs"
    by (simp only: append_Nil)
qed (rule request_ring.calls_follow[OF assms])

text \<open>A ring whose head stands at the last entry.\<close>

definition sample_request :: "gdox_runtime_request_kind \<Rightarrow> gdox_runtime_request_entry" where
  "sample_request k =
     \<lparr>request_kind = k, request_preservation_format = PRESERVATION_REDUMP,
      request_preservation_verify = True, request_path = []\<rparr>"

definition sample_ring :: gdox_runtime_request_queue where
  "sample_ring = \<lparr>queue_entries = replicate 16 (sample_request REQUEST_NONE), queue_head = 15, queue_count = 0\<rparr>"

theorem request_ring_is_a_queue_witness:
  "queue_calls gdox_runtime_request_enqueue gdox_runtime_request_dequeue sample_ring
      [Put (sample_request REQUEST_START), Put (sample_request REQUEST_EJECT), Put (sample_request REQUEST_EJECT), Take, Take, Take]
    = [PutAnswer True, PutAnswer True, PutAnswer True, TakeAnswer (Some (sample_request REQUEST_START)),
       TakeAnswer (Some (sample_request REQUEST_EJECT)), TakeAnswer None]"
proof -
  have "queue_valid sample_ring" by (simp add: queue_valid_def sample_ring_def GDOX_RUNTIME_REQUEST_CAPACITY_def)
  then have "queue_calls gdox_runtime_request_enqueue gdox_runtime_request_dequeue sample_ring calls =
      fifo_calls request_known request_replaces GDOX_RUNTIME_REQUEST_CAPACITY [] calls" for calls
    using request_ring_is_a_queue[of sample_ring calls] by (simp add: queue_items_def sample_ring_def)
  then show ?thesis
    by (simp only: fifo_calls.simps)
       (simp add: fifo_put_def fifo_take_def request_known_def request_replaces_def sample_request_def
         GDOX_RUNTIME_REQUEST_CAPACITY_def)
qed

end
