(* ===== verification/X360.thy ===== *)
theory X360
  imports Disc Actions Xdvdfs
begin

text \<open>
  Xbox 360 discs (src/include/gdox/x360.h, src/src/core/x360.c): the search for a GDFX descriptor at the known
  layouts, the walk over the root directory for an executable, the check of its XEX header and the
  disc built over a source. A random-access disc is read through its operation table; the walk keeps
  a bitmap of visited nodes and a stack of pending ones.
\<close>

unbundle bit_operations_syntax

section \<open>Data\<close>

datatype gdox_x360_image_layout =
    X360_LAYOUT_NONE | X360_LAYOUT_PARTITION | X360_LAYOUT_FB20 | X360_LAYOUT_20600
  | X360_LAYOUT_02080000 | X360_LAYOUT_0FD90000

datatype gdox_x360_executable_kind = X360_EXECUTABLE_NONE | X360_EXECUTABLE_XEX1 | X360_EXECUTABLE_XEX2

record gdox_x360_execution_info =
  xi_valid :: bool
  xi_media_id :: u32
  xi_title_id :: u32
  xi_platform :: byte
  xi_executable_type :: byte
  xi_disc_number :: byte
  xi_disc_count :: byte

record gdox_x360_disc_info =
  xd_layout :: gdox_x360_image_layout
  xd_executable :: gdox_x360_executable_kind
  xd_source_bytes :: u64
  xd_game_offset_bytes :: u64
  xd_root_directory_sector :: u32
  xd_root_directory_size :: u32
  xd_launch_executable :: cstring
  xd_execution :: gdox_x360_execution_info

definition GDOX_X360_DESCRIPTOR_SECTOR :: u64 where "GDOX_X360_DESCRIPTOR_SECTOR = 32"
definition GDOX_X360_DIRECTORY_ATTRIBUTE :: byte where "GDOX_X360_DIRECTORY_ATTRIBUTE = 0x10"
definition GDOX_X360_DIRECTORY_HEADER_BYTES :: nat where "GDOX_X360_DIRECTORY_HEADER_BYTES = 14"
definition GDOX_X360_MAX_ROOT_BYTES :: nat where "GDOX_X360_MAX_ROOT_BYTES = 33554432"
definition GDOX_X360_MAX_ROOT_NODES :: nat where "GDOX_X360_MAX_ROOT_NODES = 4096"
definition GDOX_X360_MAX_OPTIONAL_HEADERS :: nat where "GDOX_X360_MAX_OPTIONAL_HEADERS = 4096"
definition GDOX_X360_XEX_HEADER_BYTES :: nat where "GDOX_X360_XEX_HEADER_BYTES = 24"
definition GDOX_X360_EXECUTION_INFO_BYTES :: nat where "GDOX_X360_EXECUTION_INFO_BYTES = 24"
definition GDOX_X360_EXECUTABLE_NAME_CAPACITY :: nat where "GDOX_X360_EXECUTABLE_NAME_CAPACITY = 256"

lemmas x360_sizes = GDOX_X360_DESCRIPTOR_SECTOR_def GDOX_X360_DIRECTORY_HEADER_BYTES_def GDOX_X360_MAX_ROOT_BYTES_def
  GDOX_X360_MAX_ROOT_NODES_def GDOX_X360_MAX_OPTIONAL_HEADERS_def GDOX_X360_XEX_HEADER_BYTES_def
  GDOX_X360_EXECUTION_INFO_BYTES_def GDOX_X360_EXECUTABLE_NAME_CAPACITY_def

definition no_execution :: gdox_x360_execution_info where
  "no_execution =
     \<lparr>xi_valid = False, xi_media_id = 0, xi_title_id = 0, xi_platform = 0, xi_executable_type = 0,
      xi_disc_number = 0, xi_disc_count = 0\<rparr>"

definition layout_candidates :: "(u64 \<times> gdox_x360_image_layout) list" where
  "layout_candidates =
     [(0x00000000, X360_LAYOUT_PARTITION), (0x0000fb20, X360_LAYOUT_FB20), (0x00020600, X360_LAYOUT_20600),
      (0x02080000, X360_LAYOUT_02080000), (0x0fd90000, X360_LAYOUT_0FD90000)]"

definition gdfx_magic :: "byte list" where
  "gdfx_magic = ascii ''MICROSOFT*XBOX*MEDIA''"

definition gdox_x360_execution_info_equal ::
  "gdox_x360_execution_info \<Rightarrow> gdox_x360_execution_info \<Rightarrow> bool" where
  "gdox_x360_execution_info_equal left right \<longleftrightarrow>
     xi_valid left = xi_valid right \<and> xi_media_id left = xi_media_id right
     \<and> xi_title_id left = xi_title_id right \<and> xi_platform left = xi_platform right
     \<and> xi_executable_type left = xi_executable_type right \<and> xi_disc_number left = xi_disc_number right
     \<and> xi_disc_count left = xi_disc_count right"

definition gdox_x360_disc_info_equal :: "gdox_x360_disc_info \<Rightarrow> gdox_x360_disc_info \<Rightarrow> bool" where
  "gdox_x360_disc_info_equal left right \<longleftrightarrow>
     xd_layout left = xd_layout right \<and> xd_executable left = xd_executable right
     \<and> xd_source_bytes left = xd_source_bytes right \<and> xd_game_offset_bytes left = xd_game_offset_bytes right
     \<and> xd_root_directory_sector left = xd_root_directory_sector right
     \<and> xd_root_directory_size left = xd_root_directory_size right
     \<and> take GDOX_X360_EXECUTABLE_NAME_CAPACITY (xd_launch_executable left)
         = take GDOX_X360_EXECUTABLE_NAME_CAPACITY (xd_launch_executable right)
     \<and> gdox_x360_execution_info_equal (xd_execution left) (xd_execution right)"

section \<open>Arithmetic, reads and names\<close>

definition x360_add_u64 :: "u64 \<Rightarrow> u64 \<Rightarrow> u64 option" where
  "x360_add_u64 left right = (if right > UINT64_MAX - left then None else Some (u64_add left right))"

definition x360_multiply_u64 :: "u64 \<Rightarrow> u64 \<Rightarrow> u64 option" where
  "x360_multiply_u64 left right =
     (if left \<noteq> 0 \<and> right > UINT64_MAX div left then None else Some (u64_mul left right))"

definition x360_read_exact :: "'d disc_ops \<Rightarrow> u64 \<Rightarrow> nat \<Rightarrow> ('d random_disc, byte list) act" where
  "x360_read_exact dops offset bytes disc =
     (let len = gdox_disc_length dops disc
      in if offset > len \<or> bytes > len - offset
         then (fail ERROR_INVALID_VOLUME ''Xbox 360 volume structure exceeds the source'', disc)
         else (case gdox_disc_read_at dops disc offset bytes of
                 (Inl e, disc) \<Rightarrow>
                   (Inl (if code e = ERROR_NONE
                         then err ERROR_IO ''could not read Xbox 360 volume structure'' else e), disc)
               | (Inr output, disc) \<Rightarrow>
                   if length output \<noteq> bytes
                   then (fail ERROR_INVALID_VOLUME ''Xbox 360 volume structure is truncated'', disc)
                   else (Inr output, disc)))"

definition x360_ascii_fold :: "byte \<Rightarrow> byte" where
  "x360_ascii_fold v = (if 0x41 \<le> v \<and> v \<le> 0x5a then v + 0x20 else v)"

definition x360_ascii_equal :: "byte list \<Rightarrow> byte list \<Rightarrow> bool" where
  "x360_ascii_equal left right =
     (length left = length right \<and> list_all2 (\<lambda>a b. x360_ascii_fold a = x360_ascii_fold b) left right)"

definition bounded_name_length :: "cstring \<Rightarrow> nat option" where
  "bounded_name_length name =
     (if length name < GDOX_X360_EXECUTABLE_NAME_CAPACITY \<and> length name \<noteq> 0 then Some (length name) else None)"

definition x360_descriptor_magic_valid :: "byte list \<Rightarrow> bool" where
  "x360_descriptor_magic_valid descriptor =
     (take 20 descriptor = gdfx_magic
      \<and> take 20 (drop (GDOX_LOGICAL_SECTOR_BYTES - 20) descriptor) = gdfx_magic)"

section \<open>The descriptor\<close>

fun find_descriptor ::
  "'d disc_ops \<Rightarrow> (u64 \<times> gdox_x360_image_layout) list
     \<Rightarrow> ('d random_disc, (u64 \<times> gdox_x360_image_layout) \<times> byte list) act" where
  "find_descriptor dops [] disc =
     (fail ERROR_NOT_FOUND ''Xenia-compatible GDFX volume was not found'', disc)"
| "find_descriptor dops (candidate # candidates) disc =
     (let source_bytes = gdox_disc_length dops disc;
          relative = u64_mul GDOX_X360_DESCRIPTOR_SECTOR GDOX_LOGICAL_SECTOR_BYTES
      in case x360_add_u64 (fst candidate) relative of
           None \<Rightarrow> find_descriptor dops candidates disc
         | Some offset \<Rightarrow>
             if offset > source_bytes \<or> GDOX_LOGICAL_SECTOR_BYTES > source_bytes - offset
             then find_descriptor dops candidates disc
             else (case x360_read_exact dops offset GDOX_LOGICAL_SECTOR_BYTES disc of
                     (Inl e, disc) \<Rightarrow> (Inl e, disc)
                   | (Inr descriptor, disc) \<Rightarrow>
                       if x360_descriptor_magic_valid descriptor then (Inr (candidate, descriptor), disc)
                       else find_descriptor dops candidates disc))"

section \<open>The executable\<close>

text \<open>The read leaves an error whenever it fails, so the second chance of the C code to set one is not taken.\<close>

definition read_executable_kind ::
  "'d disc_ops \<Rightarrow> u64 \<Rightarrow> u32 \<Rightarrow> ('d random_disc, gdox_x360_executable_kind) act" where
  "read_executable_kind dops file_offset file_size =
     (if file_size < 4 then raise (err ERROR_INVALID_VOLUME ''Xbox 360 executable header is truncated'')
      else seq (x360_read_exact dops file_offset 4) (\<lambda>magic.
        if magic = ascii ''XEX1'' \<or> magic = ascii ''XEX2''
        then (if file_size < GDOX_X360_XEX_HEADER_BYTES
              then raise (err ERROR_INVALID_VOLUME ''XEX header is truncated'')
              else ret (if magic ! 3 = 0x31 then X360_EXECUTABLE_XEX1 else X360_EXECUTABLE_XEX2))
        else raise (err ERROR_INVALID_VOLUME ''requested executable is not an XEX1 or XEX2 image'')))"

definition execution_of :: "byte list \<Rightarrow> gdox_x360_execution_info" where
  "execution_of v =
     \<lparr>xi_valid = (read_be_u32 v 12 \<noteq> 0), xi_media_id = read_be_u32 v 0, xi_title_id = read_be_u32 v 12,
      xi_platform = v ! 16, xi_executable_type = v ! 17, xi_disc_number = v ! 18, xi_disc_count = v ! 19\<rparr>"

text \<open>What a function that returns \<open>false\<close> leaves when it sets no error.\<close>

definition x360_no_error :: gdox_error where
  "x360_no_error = err ERROR_NONE ''''"

fun optional_headers ::
  "'d disc_ops \<Rightarrow> u64 \<Rightarrow> u32 \<Rightarrow> nat list \<Rightarrow> ('d random_disc, gdox_x360_execution_info) act" where
  "optional_headers dops file_offset file_size [] = ret no_execution"
| "optional_headers dops file_offset file_size (i # rest) =
     (case Option.bind (x360_add_u64 file_offset GDOX_X360_XEX_HEADER_BYTES) (\<lambda>table.
             x360_add_u64 table (u64_mul i 8)) of
        None \<Rightarrow> raise x360_no_error
      | Some offset \<Rightarrow>
          seq (x360_read_exact dops offset 8) (\<lambda>optional.
            if read_be_u32 optional 0 \<noteq> 0x00040006 then optional_headers dops file_offset file_size rest
            else (let value_offset = read_be_u32 optional 4
                  in if value_offset > file_size \<or> GDOX_X360_EXECUTION_INFO_BYTES > file_size - value_offset
                     then raise (err ERROR_INVALID_VOLUME ''XEX2 execution information is outside the executable'')
                     else (case x360_add_u64 file_offset value_offset of
                             None \<Rightarrow> raise (err ERROR_INVALID_VOLUME
                                             ''XEX2 execution information is outside the executable'')
                           | Some offset \<Rightarrow>
                               seq (x360_read_exact dops offset GDOX_X360_EXECUTION_INFO_BYTES) (\<lambda>value.
                                 ret (execution_of value))))))"

definition read_execution_info ::
  "'d disc_ops \<Rightarrow> u64 \<Rightarrow> u32 \<Rightarrow> gdox_x360_executable_kind \<Rightarrow> ('d random_disc, gdox_x360_execution_info) act" where
  "read_execution_info dops file_offset file_size kind =
     (if kind \<noteq> X360_EXECUTABLE_XEX1 \<and> kind \<noteq> X360_EXECUTABLE_XEX2 then ret no_execution
      else seq (x360_read_exact dops file_offset GDOX_X360_XEX_HEADER_BYTES) (\<lambda>header.
        let header_count = read_be_u32 header 20
        in if header_count > GDOX_X360_MAX_OPTIONAL_HEADERS
              \<or> u64_mul header_count 8 > u64_sub file_size GDOX_X360_XEX_HEADER_BYTES
           then raise (err ERROR_INVALID_VOLUME ''XEX2 optional-header table is invalid'')
           else optional_headers dops file_offset file_size [0..<header_count]))"


section \<open>The root directory\<close>

record x360_directory_walk =
  xw_visited :: "byte list"
  xw_pending :: "u32 list"
  xw_visited_nodes :: nat

text \<open>
  The stack is a list whose head is the entry pushed last. \<open>mem\<close> answers the two allocations; the
  bitmap has one bit for every four bytes of the directory.
\<close>

definition directory_walk_create :: "(nat \<Rightarrow> bool) \<Rightarrow> u32 \<Rightarrow> x360_directory_walk res" where
  "directory_walk_create mem root_size =
     (let visited_bytes = (root_size + 31) div 32
      in if \<not> mem visited_bytes \<or> \<not> mem (GDOX_X360_MAX_ROOT_NODES * 4)
         then fail ERROR_INTERNAL ''could not allocate Xbox 360 directory probe''
         else Inr \<lparr>xw_visited = replicate visited_bytes 0, xw_pending = [0], xw_visited_nodes = 0\<rparr>)"

definition directory_walk_visit :: "x360_directory_walk \<Rightarrow> u32 \<Rightarrow> u32 \<Rightarrow> x360_directory_walk res" where
  "directory_walk_visit walk node_offset root_size =
     (let slot = node_offset div 4;
          mask = push_bit (slot mod 8) (1 :: byte)
      in if node_offset mod 4 \<noteq> 0 \<or> node_offset > root_size
            \<or> GDOX_X360_DIRECTORY_HEADER_BYTES > root_size - node_offset
         then fail ERROR_INVALID_VOLUME ''GDFX root directory entry is truncated''
         else if xw_visited walk ! (slot div 8) AND mask \<noteq> 0
         then fail ERROR_INVALID_VOLUME ''GDFX root directory contains a cycle or repeated node''
         else (let walk = walk\<lparr>xw_visited := (xw_visited walk)[slot div 8 := xw_visited walk ! (slot div 8) OR mask],
                               xw_visited_nodes := xw_visited_nodes walk + 1\<rparr>
               in if xw_visited_nodes walk > GDOX_X360_MAX_ROOT_NODES
                  then fail ERROR_INVALID_VOLUME ''GDFX root directory probe limit exceeded''
                  else Inr walk))"

definition directory_walk_push :: "x360_directory_walk \<Rightarrow> nat \<Rightarrow> x360_directory_walk res" where
  "directory_walk_push walk encoded_offset =
     (if encoded_offset = 0 then Inr walk
      else if length (xw_pending walk) \<ge> GDOX_X360_MAX_ROOT_NODES
      then fail ERROR_INVALID_VOLUME ''GDFX root directory probe limit exceeded''
      else Inr (walk\<lparr>xw_pending := encoded_offset * 4 # xw_pending walk\<rparr>))"

text \<open>
  One node: the executable when its name is the target and it is a file, the two links otherwise. The
  disc is the game partition at \<open>game_offset\<close>, of the source of \<open>source_bytes\<close> bytes.
\<close>

definition found_executable ::
  "'d disc_ops \<Rightarrow> u64 \<Rightarrow> u64 \<Rightarrow> u32 \<Rightarrow> u32
     \<Rightarrow> ('d random_disc, gdox_x360_executable_kind \<times> gdox_x360_execution_info) act" where
  "found_executable dops source_bytes game_offset file_sector file_size =
     (case Option.bind (x360_multiply_u64 file_sector GDOX_LOGICAL_SECTOR_BYTES) (x360_add_u64 game_offset) of
        None \<Rightarrow> raise (err ERROR_INVALID_VOLUME ''Xbox 360 executable extent is outside the source'')
      | Some file_offset \<Rightarrow>
          if file_offset > source_bytes \<or> file_size > source_bytes - file_offset
          then raise (err ERROR_INVALID_VOLUME ''Xbox 360 executable extent is outside the source'')
          else seq (read_executable_kind dops file_offset file_size) (\<lambda>kind.
               seq (read_execution_info dops file_offset file_size kind) (\<lambda>execution.
                 ret (kind, execution))))"

definition examine_node ::
  "'d disc_ops \<Rightarrow> u64 \<Rightarrow> u64 \<Rightarrow> u64 \<Rightarrow> u32 \<Rightarrow> cstring \<Rightarrow> u32
     \<Rightarrow> ('d random_disc, (gdox_x360_executable_kind \<times> gdox_x360_execution_info) + (nat \<times> nat)) act" where
  "examine_node dops source_bytes game_offset root_offset root_size target node_offset =
     (case x360_add_u64 root_offset node_offset of
        None \<Rightarrow> raise x360_no_error
      | Some node \<Rightarrow>
          seq (x360_read_exact dops node GDOX_X360_DIRECTORY_HEADER_BYTES) (\<lambda>header.
            let name_bytes = unat (header ! 13)
            in if name_bytes = 0 \<or> name_bytes > u64_sub (root_size - node_offset) GDOX_X360_DIRECTORY_HEADER_BYTES
               then raise (err ERROR_INVALID_VOLUME ''GDFX root directory name is invalid'')
               else seq (x360_read_exact dops (u64_add node GDOX_X360_DIRECTORY_HEADER_BYTES) name_bytes) (\<lambda>name.
                 if header ! 12 AND GDOX_X360_DIRECTORY_ATTRIBUTE = 0 \<and> x360_ascii_equal name target
                 then seq (found_executable dops source_bytes game_offset (le_u32 header 4) (le_u32 header 8))
                          (\<lambda>found. ret (Inl found))
                 else ret (Inr (le_u16 header 0, le_u16 header 2)))))"

lemma visit_counts:
  "directory_walk_visit walk n root_size = Inr walk' \<Longrightarrow>
     xw_visited_nodes walk' = xw_visited_nodes walk + 1 \<and> xw_visited_nodes walk' \<le> GDOX_X360_MAX_ROOT_NODES
     \<and> xw_pending walk' = xw_pending walk"
  by (auto simp: directory_walk_visit_def Let_def split: if_splits)

lemma push_counts:
  "directory_walk_push walk n = Inr walk' \<Longrightarrow>
     xw_visited_nodes walk' = xw_visited_nodes walk \<and> xw_visited walk' = xw_visited walk
     \<and> xw_pending walk' = (if n = 0 then [] else [n * 4]) @ xw_pending walk"
  by (auto simp: directory_walk_push_def split: if_splits)

function walk_root ::
  "'d disc_ops \<Rightarrow> u64 \<Rightarrow> u64 \<Rightarrow> u64 \<Rightarrow> u32 \<Rightarrow> cstring \<Rightarrow> x360_directory_walk
     \<Rightarrow> ('d random_disc, gdox_x360_executable_kind \<times> gdox_x360_execution_info) act" where
  "walk_root dops source_bytes game_offset root_offset root_size target walk disc =
     (case xw_pending walk of
        [] \<Rightarrow> (fail ERROR_UNSUPPORTED ''GDFX volume does not contain the requested executable'', disc)
      | n # pending \<Rightarrow>
          (case directory_walk_visit (walk\<lparr>xw_pending := pending\<rparr>) n root_size of
             Inl e \<Rightarrow> (Inl e, disc)
           | Inr walk \<Rightarrow>
               (case examine_node dops source_bytes game_offset root_offset root_size target n disc of
                  (Inl e, disc) \<Rightarrow> (Inl e, disc)
                | (Inr (Inl found), disc) \<Rightarrow> (Inr found, disc)
                | (Inr (Inr (left, right)), disc) \<Rightarrow>
                    (case directory_walk_push walk left of
                       Inl e \<Rightarrow> (Inl e, disc)
                     | Inr walk \<Rightarrow>
                         (case directory_walk_push walk right of
                            Inl e \<Rightarrow> (Inl e, disc)
                          | Inr walk \<Rightarrow>
                              walk_root dops source_bytes game_offset root_offset root_size target walk disc)))))"
  by pat_completeness auto
termination
  by (relation "measure (\<lambda>(dops, sb, g, ro, rs, t, walk, disc). GDOX_X360_MAX_ROOT_NODES - xw_visited_nodes walk)")
    (auto dest!: visit_counts push_counts)

declare walk_root.simps [simp del]

definition find_root_executable ::
  "(nat \<Rightarrow> bool) \<Rightarrow> 'd disc_ops \<Rightarrow> u64 \<Rightarrow> u32 \<Rightarrow> u32 \<Rightarrow> cstring
     \<Rightarrow> ('d random_disc, gdox_x360_executable_kind \<times> gdox_x360_execution_info) act" where
  "find_root_executable mem dops game_offset root_sector root_size target disc =
     (let source_bytes = gdox_disc_length dops disc;
          outside = (fail ERROR_INVALID_VOLUME ''GDFX root directory is outside the source'', disc)
      in if root_size < GDOX_X360_DIRECTORY_HEADER_BYTES \<or> root_size > GDOX_X360_MAX_ROOT_BYTES then outside
         else (case Option.bind (x360_multiply_u64 root_sector GDOX_LOGICAL_SECTOR_BYTES) (x360_add_u64 game_offset) of
                 None \<Rightarrow> outside
               | Some root_offset \<Rightarrow>
                   if root_offset > source_bytes \<or> root_size > source_bytes - root_offset then outside
                   else (case directory_walk_create mem root_size of
                           Inl e \<Rightarrow> (Inl e, disc)
                         | Inr walk \<Rightarrow>
                             walk_root dops source_bytes game_offset root_offset root_size target walk disc)))"

section \<open>Probing\<close>

definition layout_matches_info :: "gdox_x360_disc_info \<Rightarrow> bool" where
  "layout_matches_info info = list_ex (\<lambda>(offset, layout).
     layout = xd_layout info \<and> offset = xd_game_offset_bytes info) layout_candidates"

definition default_executable :: cstring where
  "default_executable = ascii ''default.xex''"

text \<open>\<open>wanted\<close> says that the caller gave an \<open>info\<close> to fill.\<close>

definition gdox_x360_disc_probe ::
  "(nat \<Rightarrow> bool) \<Rightarrow> 'd disc_ops \<Rightarrow> bool \<Rightarrow> ('d random_disc, gdox_x360_disc_info) act" where
  "gdox_x360_disc_probe mem dops wanted disc =
     (if \<not> gdox_disc_is_valid disc \<or> \<not> wanted
      then (fail ERROR_INVALID_ARGUMENT ''an open disc and Xbox 360 disc information are required'', disc)
      else seq (find_descriptor dops layout_candidates) (\<lambda>((offset, layout), descriptor).
           seq (gets (gdox_disc_length dops)) (\<lambda>source_bytes.
           seq (find_root_executable mem dops offset (le_u32 descriptor 20) (le_u32 descriptor 24)
                  default_executable) (\<lambda>(kind, execution).
             ret \<lparr>xd_layout = layout, xd_executable = kind, xd_source_bytes = source_bytes,
                  xd_game_offset_bytes = offset, xd_root_directory_sector = le_u32 descriptor 20,
                  xd_root_directory_size = le_u32 descriptor 24, xd_launch_executable = default_executable,
                  xd_execution = execution\<rparr>))) disc)"

definition gdox_x360_disc_find_executable ::
  "(nat \<Rightarrow> bool) \<Rightarrow> 'd disc_ops \<Rightarrow> gdox_x360_disc_info option \<Rightarrow> cstring option \<Rightarrow> bool
     \<Rightarrow> ('d random_disc, gdox_x360_executable_kind \<times> gdox_x360_execution_info) act" where
  "gdox_x360_disc_find_executable mem dops info name wanted disc =
     (case (info, name) of
        (Some info, Some name) \<Rightarrow>
          if \<not> gdox_disc_is_valid disc \<or> \<not> wanted
          then (fail ERROR_INVALID_ARGUMENT
                  ''an open disc, disc information, and executable name are required'', disc)
          else if bounded_name_length name = None \<or> 0x2f \<in> set name \<or> 0x5c \<in> set name
          then (fail ERROR_INVALID_ARGUMENT ''Xbox 360 executable name is invalid'', disc)
          else if xd_source_bytes info \<noteq> gdox_disc_length dops disc \<or> \<not> layout_matches_info info
          then (fail ERROR_INVALID_ARGUMENT ''Xbox 360 disc information does not match the open disc'', disc)
          else find_root_executable mem dops (xd_game_offset_bytes info) (xd_root_directory_sector info)
                 (xd_root_directory_size info) name disc
      | _ \<Rightarrow> (fail ERROR_INVALID_ARGUMENT
                ''an open disc, disc information, and executable name are required'', disc))"

text \<open>
  The result, the source the caller keeps, whether an open source was lost, and the disc of the
  caller. A disc that cannot be closed after a failed probe goes to the caller.
\<close>

definition gdox_x360_live_disc_build ::
  "(nat \<Rightarrow> bool) \<Rightarrow> 's source_ops \<Rightarrow> 's sector_source \<Rightarrow> 's direct_disc_context random_disc
     \<Rightarrow> gdox_x360_disc_info res \<times> 's sector_source \<times> bool \<times> 's direct_disc_context random_disc" where
  "gdox_x360_live_disc_build mem ops source output =
     (if \<not> gdox_source_is_valid source \<or> gdox_disc_is_valid output
      then (fail ERROR_INVALID_ARGUMENT ''an open source and empty Xbox 360 disc output are required'',
            source, False, output)
      else (case gdox_disc_from_source mem ops source of
              (Inl e, source, _) \<Rightarrow> (Inl e, source, False, output)
            | (Inr _, source, disc) \<Rightarrow>
                (case gdox_x360_disc_probe mem (direct_ops mem ops) True disc of
                   (Inr found, disc) \<Rightarrow> (Inr found, source, False, disc)
                 | (Inl e, disc) \<Rightarrow>
                     (case gdox_disc_close (direct_ops mem ops) disc of
                        (Inr _, lost, _) \<Rightarrow> (Inl e, source, lost, output)
                      | (Inl cleanup_error, lost, disc) \<Rightarrow>
                          (Inl cleanup_error, source, lost, if gdox_disc_is_valid disc then disc else output)))))"

definition gdox_x360_image_layout_name :: "gdox_x360_image_layout \<Rightarrow> string" where
  "gdox_x360_image_layout_name layout =
     (case layout of
        X360_LAYOUT_PARTITION \<Rightarrow> ''GDFX partition''
      | X360_LAYOUT_FB20 \<Rightarrow> ''GDFX at 0x0000fb20''
      | X360_LAYOUT_20600 \<Rightarrow> ''GDFX at 0x00020600''
      | X360_LAYOUT_02080000 \<Rightarrow> ''GDFX at 0x02080000''
      | X360_LAYOUT_0FD90000 \<Rightarrow> ''GDFX at 0x0fd90000''
      | X360_LAYOUT_NONE \<Rightarrow> ''Unknown Xbox 360 layout'')"

section \<open>What a volume holds\<close>

text \<open>
  The same search as a function of the bytes \<open>f\<close> of a medium of \<open>len\<close> bytes. A volume is the game
  partition's offset with the place and size of its root directory.
\<close>

record gdfx_volume =
  gv_game :: nat
  gv_root :: nat
  gv_size :: nat

definition gdfx_at :: "(nat \<Rightarrow> byte) \<Rightarrow> nat \<Rightarrow> nat \<Rightarrow> bool" where
  "gdfx_at f len offset \<longleftrightarrow>
     offset + 65536 + GDOX_LOGICAL_SECTOR_BYTES \<le> len
     \<and> x360_descriptor_magic_valid (span f (offset + 65536) GDOX_LOGICAL_SECTOR_BYTES)"

definition gdfx_layout :: "(nat \<Rightarrow> byte) \<Rightarrow> nat \<Rightarrow> (u64 \<times> gdox_x360_image_layout) option" where
  "gdfx_layout f len = find (\<lambda>(offset, _). gdfx_at f len offset) layout_candidates"

definition gdfx_volume_at :: "(nat \<Rightarrow> byte) \<Rightarrow> nat \<Rightarrow> gdfx_volume" where
  "gdfx_volume_at f offset =
     (let descriptor = span f (offset + 65536) GDOX_LOGICAL_SECTOR_BYTES
      in \<lparr>gv_game = offset, gv_root = offset + le_u32 descriptor 20 * GDOX_LOGICAL_SECTOR_BYTES,
          gv_size = le_u32 descriptor 24\<rparr>)"

definition gdfx_root_inside :: "nat \<Rightarrow> gdfx_volume \<Rightarrow> bool" where
  "gdfx_root_inside len v \<longleftrightarrow>
     GDOX_X360_DIRECTORY_HEADER_BYTES \<le> gv_size v \<and> gv_size v \<le> GDOX_X360_MAX_ROOT_BYTES
     \<and> gv_root v + gv_size v \<le> len"

definition gdfx_header :: "(nat \<Rightarrow> byte) \<Rightarrow> gdfx_volume \<Rightarrow> nat \<Rightarrow> byte list" where
  "gdfx_header f v n = span f (gv_root v + n) GDOX_X360_DIRECTORY_HEADER_BYTES"

definition gdfx_name :: "(nat \<Rightarrow> byte) \<Rightarrow> gdfx_volume \<Rightarrow> nat \<Rightarrow> byte list" where
  "gdfx_name f v n = span f (gv_root v + n + GDOX_X360_DIRECTORY_HEADER_BYTES) (unat (gdfx_header f v n ! 13))"

definition gdfx_in_root :: "gdfx_volume \<Rightarrow> nat \<Rightarrow> bool" where
  "gdfx_in_root v n \<longleftrightarrow> n mod 4 = 0 \<and> n + GDOX_X360_DIRECTORY_HEADER_BYTES \<le> gv_size v"

definition gdfx_node_ok :: "(nat \<Rightarrow> byte) \<Rightarrow> gdfx_volume \<Rightarrow> nat \<Rightarrow> bool" where
  "gdfx_node_ok f v n \<longleftrightarrow>
     gdfx_in_root v n \<and> gdfx_name f v n \<noteq> []
     \<and> n + GDOX_X360_DIRECTORY_HEADER_BYTES + length (gdfx_name f v n) \<le> gv_size v"

definition gdfx_links :: "(nat \<Rightarrow> byte) \<Rightarrow> gdfx_volume \<Rightarrow> nat \<Rightarrow> nat \<times> nat" where
  "gdfx_links f v n = (le_u16 (gdfx_header f v n) 0, le_u16 (gdfx_header f v n) 2)"

definition gdfx_matches :: "(nat \<Rightarrow> byte) \<Rightarrow> gdfx_volume \<Rightarrow> cstring \<Rightarrow> nat \<Rightarrow> bool" where
  "gdfx_matches f v target n \<longleftrightarrow>
     gdfx_header f v n ! 12 AND GDOX_X360_DIRECTORY_ATTRIBUTE = 0 \<and> x360_ascii_equal (gdfx_name f v n) target"

definition xex_execution :: "(nat \<Rightarrow> byte) \<Rightarrow> nat \<Rightarrow> nat \<Rightarrow> nat list \<Rightarrow> gdox_x360_execution_info option" where
  "xex_execution f offset fsize headers =
     (case find (\<lambda>i. read_be_u32 (span f (offset + 24 + 8 * i) 8) 0 = 0x00040006) headers of
        None \<Rightarrow> Some no_execution
      | Some i \<Rightarrow>
          (let v = read_be_u32 (span f (offset + 24 + 8 * i) 8) 4
           in if v + 24 \<le> fsize then Some (execution_of (span f (offset + v) 24)) else None))"

definition xex_at ::
  "(nat \<Rightarrow> byte) \<Rightarrow> nat \<Rightarrow> nat \<Rightarrow> (gdox_x360_executable_kind \<times> gdox_x360_execution_info) option" where
  "xex_at f offset fsize =
     (let number = read_be_u32 (span f offset 24) 20
      in if fsize < 24 \<or> number > GDOX_X360_MAX_OPTIONAL_HEADERS \<or> 24 + number * 8 > fsize then None
         else if span f offset 4 = ascii ''XEX1''
         then map_option (Pair X360_EXECUTABLE_XEX1) (xex_execution f offset fsize [0..<number])
         else if span f offset 4 = ascii ''XEX2''
         then map_option (Pair X360_EXECUTABLE_XEX2) (xex_execution f offset fsize [0..<number])
         else None)"

definition gdfx_executable ::
  "(nat \<Rightarrow> byte) \<Rightarrow> nat \<Rightarrow> gdfx_volume \<Rightarrow> nat
     \<Rightarrow> (gdox_x360_executable_kind \<times> gdox_x360_execution_info) option" where
  "gdfx_executable f len v n =
     (let offset = gv_game v + le_u32 (gdfx_header f v n) 4 * GDOX_LOGICAL_SECTOR_BYTES;
          fsize = le_u32 (gdfx_header f v n) 8
      in if offset + fsize \<le> len then xex_at f offset fsize else None)"

text \<open>The nodes linked from the root, and a directory that is a tree, with the order it is searched in.\<close>

inductive gdfx_linked :: "(nat \<Rightarrow> byte) \<Rightarrow> gdfx_volume \<Rightarrow> nat \<Rightarrow> bool" for f v where
  linked_root: "gdfx_linked f v 0"
| linked_left: "gdfx_linked f v n \<Longrightarrow> fst (gdfx_links f v n) \<noteq> 0 \<Longrightarrow> gdfx_linked f v (fst (gdfx_links f v n) * 4)"
| linked_right: "gdfx_linked f v n \<Longrightarrow> snd (gdfx_links f v n) \<noteq> 0 \<Longrightarrow> gdfx_linked f v (snd (gdfx_links f v n) * 4)"

datatype directory_tree = NoNode | DirectoryNode directory_tree nat directory_tree

definition link_to :: "nat \<Rightarrow> directory_tree \<Rightarrow> bool" where
  "link_to w t = (case t of NoNode \<Rightarrow> w = 0 | DirectoryNode _ n _ \<Rightarrow> w \<noteq> 0 \<and> n = w * 4)"

fun node_value :: "directory_tree \<Rightarrow> nat" where
  "node_value NoNode = 0"
| "node_value (DirectoryNode l n r) = n"

fun gdfx_tree :: "(nat \<Rightarrow> byte) \<Rightarrow> gdfx_volume \<Rightarrow> directory_tree \<Rightarrow> bool" where
  "gdfx_tree f v NoNode = True"
| "gdfx_tree f v (DirectoryNode l n r) =
     (gdfx_node_ok f v n \<and> link_to (fst (gdfx_links f v n)) l \<and> link_to (snd (gdfx_links f v n)) r
      \<and> gdfx_tree f v l \<and> gdfx_tree f v r)"

fun search_order :: "directory_tree \<Rightarrow> nat list" where
  "search_order NoNode = []"
| "search_order (DirectoryNode l n r) = n # search_order r @ search_order l"

section \<open>Reading a ready disc\<close>

text \<open>
  \<open>reads_spec I m x\<close>: on a disc in a state of \<open>I\<close> the action \<open>m\<close> returns \<open>x\<close>, or an error of an invalid
  volume when there is no \<open>x\<close>, and leaves a state of \<open>I\<close>.
\<close>

definition reads_spec :: "('d \<Rightarrow> bool) \<Rightarrow> ('d random_disc, 'a) act \<Rightarrow> 'a option \<Rightarrow> bool" where
  "reads_spec I m x \<longleftrightarrow>
     (\<forall>d. I d \<longrightarrow> (\<exists>r d'. m (Some d) = (r, Some d') \<and> I d'
        \<and> (case x of None \<Rightarrow> \<exists>e. r = Inl e \<and> code e = ERROR_INVALID_VOLUME | Some y \<Rightarrow> r = Inr y)))"

lemma reads_ret: "x = Some y \<Longrightarrow> reads_spec I (ret y) x"
  by (auto simp: reads_spec_def ret_def)

lemma reads_raise: "x = None \<Longrightarrow> code e = ERROR_INVALID_VOLUME \<Longrightarrow> reads_spec I (raise e) x"
  by (auto simp: reads_spec_def raise_def)

lemma reads_seq:
  assumes m: "reads_spec I m x" and f: "\<And>y. x = Some y \<Longrightarrow> reads_spec I (f y) (z y)" and z: "z' = Option.bind x z"
  shows "reads_spec I (seq m f) z'"
  unfolding reads_spec_def
proof (intro allI impI)
  fix d assume "I d"
  then obtain r d1 where 1: "m (Some d) = (r, Some d1)" "I d1"
    "case x of None \<Rightarrow> \<exists>e. r = Inl e \<and> code e = ERROR_INVALID_VOLUME | Some y \<Rightarrow> r = Inr y"
    using m unfolding reads_spec_def by blast
  show "\<exists>r d'. seq m f (Some d) = (r, Some d') \<and> I d'
      \<and> (case z' of None \<Rightarrow> \<exists>e. r = Inl e \<and> code e = ERROR_INVALID_VOLUME | Some y \<Rightarrow> r = Inr y)"
  proof (cases x)
    case None
    then show ?thesis using 1 z by (auto simp: seq_def)
  next
    case (Some y)
    from f[OF this] 1(2) obtain r2 d2 where "f y (Some d1) = (r2, Some d2)" "I d2"
      "case z y of None \<Rightarrow> \<exists>e. r2 = Inl e \<and> code e = ERROR_INVALID_VOLUME | Some y \<Rightarrow> r2 = Inr y"
      unfolding reads_spec_def by blast
    then show ?thesis using 1(1,3) z Some by (simp add: seq_def)
  qed
qed

lemma reads_if: "(b \<Longrightarrow> reads_spec I m x) \<Longrightarrow> (\<not> b \<Longrightarrow> reads_spec I n x) \<Longrightarrow> reads_spec I (if b then m else n) x"
  by simp

definition disc_shows ::
  "'d disc_ops \<Rightarrow> ('d \<Rightarrow> bool) \<Rightarrow> ('d \<Rightarrow> nat \<Rightarrow> byte) \<Rightarrow> ('d \<Rightarrow> bool) \<Rightarrow> (nat \<Rightarrow> byte) \<Rightarrow> nat \<Rightarrow> 'd \<Rightarrow> bool" where
  "disc_shows dops valid contents ready f len d \<longleftrightarrow>
     valid d \<and> ready d \<and> contents d = f \<and> dop_length dops d = len"


context ready_disc
begin

lemma read_exact_shown:
  assumes "n \<le> limit"
  shows "reads_spec (disc_shows dops valid contents ready f len) (x360_read_exact dops offset n)
    (if offset + n \<le> len then Some (span f offset n) else None)"
  unfolding reads_spec_def
proof (intro allI impI)
  fix d assume d: "disc_shows dops valid contents ready f len d"
  then have "valid d" "ready d" by (simp_all add: disc_shows_def)
  from disc_read_at_ready[OF this assms, of offset] d obtain d' where
    "gdox_disc_read_at dops (Some d) offset n = (Inr (span f offset (min n (len - offset))), Some d')"
    "disc_shows dops valid contents ready f len d'"
    by (auto simp: disc_shows_def disc_kept_def)
  then show "\<exists>r d'. x360_read_exact dops offset n (Some d) = (r, Some d')
      \<and> disc_shows dops valid contents ready f len d'
      \<and> (case if offset + n \<le> len then Some (span f offset n) else None of
           None \<Rightarrow> \<exists>e. r = Inl e \<and> code e = ERROR_INVALID_VOLUME | Some y \<Rightarrow> r = Inr y)"
    using d by (auto simp: x360_read_exact_def gdox_disc_length_def disc_shows_def Let_def min_absorb1)
qed

lemma optional_headers_shown:
  assumes "2048 \<le> limit" and "len < two64" and "offset + fsize \<le> len" and "\<forall>i\<in>set headers. 24 + i * 8 + 8 \<le> fsize"
  shows "reads_spec (disc_shows dops valid contents ready f len) (optional_headers dops offset fsize headers)
    (xex_execution f offset fsize headers)"
  using assms(4)
proof (induction headers)
  case Nil
  show ?case by (simp add: reads_ret xex_execution_def)
next
  case (Cons i headers)
  have i: "24 + i * 8 + 8 \<le> fsize" using Cons.prems by simp
  then have place: "Option.bind (x360_add_u64 offset GDOX_X360_XEX_HEADER_BYTES) (\<lambda>table. x360_add_u64 table (u64_mul i 8))
      = Some (offset + 24 + 8 * i)"
    using assms(2,3) by (auto simp: x360_add_u64_def UINT64_MAX_def x360_sizes)
  let ?o = "span f (offset + 24 + 8 * i) 8"
  have rd: "reads_spec (disc_shows dops valid contents ready f len) (x360_read_exact dops (offset + 24 + 8 * i) 8) (Some ?o)"
    using read_exact_shown[of 8 f len "offset + 24 + 8 * i"] assms(1,3) i by simp
  have unfold: "xex_execution f offset fsize (i # headers) =
      (if read_be_u32 ?o 0 \<noteq> 0x00040006 then xex_execution f offset fsize headers
       else (let v = read_be_u32 ?o 4 in if v + 24 \<le> fsize then Some (execution_of (span f (offset + v) 24)) else None))"
    by (simp add: xex_execution_def)
  show ?case
    unfolding optional_headers.simps place option.case(2) unfold
  proof (rule reads_seq[OF rd])
    fix q assume "Some ?o = Some q"
    then have q: "q = ?o" by simp
    show "reads_spec (disc_shows dops valid contents ready f len)
       (if read_be_u32 q 0 \<noteq> 0x00040006 then optional_headers dops offset fsize headers
            else (let value_offset = read_be_u32 q 4
                  in if value_offset > fsize \<or> GDOX_X360_EXECUTION_INFO_BYTES > fsize - value_offset
                     then raise (err ERROR_INVALID_VOLUME ''XEX2 execution information is outside the executable'')
                     else (case x360_add_u64 offset value_offset of
                             None \<Rightarrow> raise (err ERROR_INVALID_VOLUME
                                             ''XEX2 execution information is outside the executable'')
                           | Some offset \<Rightarrow>
                               seq (x360_read_exact dops offset GDOX_X360_EXECUTION_INFO_BYTES) (\<lambda>value.
                                 ret (execution_of value)))))
       (if read_be_u32 ?o 0 \<noteq> 0x00040006 then xex_execution f offset fsize headers
       else (let v = read_be_u32 ?o 4 in if v + 24 \<le> fsize then Some (execution_of (span f (offset + v) 24)) else None))"
      (is "reads_spec ?I _ _")
    proof (cases "read_be_u32 ?o 0 \<noteq> 0x00040006")
      case True
      then show ?thesis using Cons by (simp add: q)
    next
      case False
      define v where "v = read_be_u32 ?o 4"
      show ?thesis
      proof (cases "v + 24 \<le> fsize")
        case True
        have at: "x360_add_u64 offset v = Some (offset + v)"
          using True assms(2,3) by (simp add: x360_add_u64_def UINT64_MAX_def)
        have info: "reads_spec ?I (x360_read_exact dops (offset + v) 24) (Some (span f (offset + v) 24))"
          using read_exact_shown[of 24 f len "offset + v"] True assms(1,3) by simp
        have whole: "reads_spec ?I (seq (x360_read_exact dops (offset + v) 24) (\<lambda>value. ret (execution_of value)))
            (Some (execution_of (span f (offset + v) 24)))"
          by (rule reads_seq[OF info, where z = "\<lambda>value. Some (execution_of value)"]) (simp_all add: reads_ret)
        have "\<not> (v > fsize \<or> 24 > fsize - v)" using True by auto
        then show ?thesis using whole False True at by (simp add: q Let_def v_def[symmetric] x360_sizes)
      next
        case big: False
        then have "v > fsize \<or> 24 > fsize - v" by auto
        then show ?thesis using False big by (auto simp: q Let_def v_def[symmetric] x360_sizes intro: reads_raise)
      qed
    qed
  qed simp
qed

lemma executable_kind_shown:
  assumes "2048 \<le> limit" and "offset + fsize \<le> len"
  shows "reads_spec (disc_shows dops valid contents ready f len) (read_executable_kind dops offset fsize)
    (if fsize < 24 then None
     else if span f offset 4 = ascii ''XEX1'' then Some X360_EXECUTABLE_XEX1
     else if span f offset 4 = ascii ''XEX2'' then Some X360_EXECUTABLE_XEX2 else None)"
proof (cases "fsize < 4")
  case True
  then show ?thesis by (simp add: read_executable_kind_def reads_raise)
next
  case False
  have rd: "reads_spec (disc_shows dops valid contents ready f len) (x360_read_exact dops offset 4) (Some (span f offset 4))"
    using read_exact_shown[of 4 f len offset] False assms by simp
  have x: "ascii ''XEX1'' ! 3 = (0x31 :: byte)" "ascii ''XEX2'' ! 3 = (0x32 :: byte)" "ascii ''XEX1'' \<noteq> ascii ''XEX2''"
    by (simp_all add: ascii_def)
  show ?thesis
    unfolding read_executable_kind_def if_not_P[OF False]
    by (rule reads_seq[OF rd, where z = "\<lambda>magic. if fsize < 24 then None
       else if magic = ascii ''XEX1'' then Some X360_EXECUTABLE_XEX1
       else if magic = ascii ''XEX2'' then Some X360_EXECUTABLE_XEX2 else None"])
      (use x in \<open>auto simp: x360_sizes intro: reads_ret reads_raise\<close>)
qed

lemma execution_info_shown:
  assumes "2048 \<le> limit" and "len < two64" and "offset + fsize \<le> len" and "24 \<le> fsize"
    and "kind = X360_EXECUTABLE_XEX1 \<or> kind = X360_EXECUTABLE_XEX2"
  shows "reads_spec (disc_shows dops valid contents ready f len) (read_execution_info dops offset fsize kind)
    (let number = read_be_u32 (span f offset 24) 20
     in if number > GDOX_X360_MAX_OPTIONAL_HEADERS \<or> 24 + number * 8 > fsize then None
        else xex_execution f offset fsize [0..<number])"
proof -
  have rd: "reads_spec (disc_shows dops valid contents ready f len)
      (x360_read_exact dops offset GDOX_X360_XEX_HEADER_BYTES) (Some (span f offset 24))"
    using read_exact_shown[of 24 f len offset] assms by (simp add: x360_sizes)
  have kind: "\<not> (kind \<noteq> X360_EXECUTABLE_XEX1 \<and> kind \<noteq> X360_EXECUTABLE_XEX2)" using assms(5) by blast
  let ?z = "\<lambda>header. let number = read_be_u32 header 20
     in if number > GDOX_X360_MAX_OPTIONAL_HEADERS \<or> 24 + number * 8 > fsize then None
        else xex_execution f offset fsize [0..<number]"
  show ?thesis
    unfolding read_execution_info_def if_not_P[OF kind]
  proof (rule reads_seq[OF rd, where z = ?z])
    fix header
    define number where "number = read_be_u32 header 20"
    show "reads_spec (disc_shows dops valid contents ready f len)
      (let header_count = read_be_u32 header 20
        in if header_count > GDOX_X360_MAX_OPTIONAL_HEADERS
              \<or> u64_mul header_count 8 > u64_sub fsize GDOX_X360_XEX_HEADER_BYTES
           then raise (err ERROR_INVALID_VOLUME ''XEX2 optional-header table is invalid'')
           else optional_headers dops offset fsize [0..<header_count]) (?z header)"
    proof (cases "number > GDOX_X360_MAX_OPTIONAL_HEADERS \<or> 24 + number * 8 > fsize")
      case True
      then have "number > GDOX_X360_MAX_OPTIONAL_HEADERS
          \<or> u64_mul number 8 > u64_sub fsize GDOX_X360_XEX_HEADER_BYTES"
        using assms(2-4) by (cases "number > 4096") (simp_all add: x360_sizes)
      then show ?thesis using True by (simp add: Let_def number_def[symmetric] reads_raise)
    next
      case False
      then have small: "\<not> (number > GDOX_X360_MAX_OPTIONAL_HEADERS
          \<or> u64_mul number 8 > u64_sub fsize GDOX_X360_XEX_HEADER_BYTES)"
        using assms(2-4) by (auto simp: x360_sizes)
      have "reads_spec (disc_shows dops valid contents ready f len) (optional_headers dops offset fsize [0..<number])
          (xex_execution f offset fsize [0..<number])"
        by (rule optional_headers_shown[OF assms(1-3)]) (use False in auto)
      then show ?thesis using False small by (simp add: Let_def number_def[symmetric])
    qed
  qed simp
qed

lemma found_executable_shown:
  assumes "2048 \<le> limit" and "len < two64" and "gv_game v + fsector * GDOX_LOGICAL_SECTOR_BYTES < two64"
    and "fsector < two32"
  shows "reads_spec (disc_shows dops valid contents ready f len)
    (found_executable dops len (gv_game v) fsector fsize)
    (if gv_game v + fsector * GDOX_LOGICAL_SECTOR_BYTES + fsize \<le> len
     then xex_at f (gv_game v + fsector * GDOX_LOGICAL_SECTOR_BYTES) fsize else None)"
proof -
  let ?offset = "gv_game v + fsector * GDOX_LOGICAL_SECTOR_BYTES"
  have place: "Option.bind (x360_multiply_u64 fsector GDOX_LOGICAL_SECTOR_BYTES) (x360_add_u64 (gv_game v)) = Some ?offset"
  proof -
    have "fsector = 0 \<or> GDOX_LOGICAL_SECTOR_BYTES \<le> UINT64_MAX div fsector"
      using assms(3,4) less_eq_div_iff_mult_less_eq[of fsector GDOX_LOGICAL_SECTOR_BYTES UINT64_MAX]
      by (auto simp: UINT64_MAX_def mult.commute)
    then have "x360_multiply_u64 fsector GDOX_LOGICAL_SECTOR_BYTES = Some (fsector * GDOX_LOGICAL_SECTOR_BYTES)"
      using assms(3) by (auto simp: x360_multiply_u64_def)
    then show ?thesis using assms(3) by (auto simp: x360_add_u64_def UINT64_MAX_def)
  qed
  show ?thesis
  proof (cases "?offset + fsize \<le> len")
    case False
    then have "?offset > len \<or> fsize > len - ?offset" by auto
    then show ?thesis using False by (auto simp: found_executable_def place intro: reads_raise)
  next
    case True
    then have inside: "\<not> (?offset > len \<or> fsize > len - ?offset)" by auto
    let ?kind = "if fsize < 24 then None
     else if span f ?offset 4 = ascii ''XEX1'' then Some X360_EXECUTABLE_XEX1
     else if span f ?offset 4 = ascii ''XEX2'' then Some X360_EXECUTABLE_XEX2 else None"
    let ?info = "let number = read_be_u32 (span f ?offset 24) 20
     in if number > GDOX_X360_MAX_OPTIONAL_HEADERS \<or> 24 + number * 8 > fsize then None
        else xex_execution f ?offset fsize [0..<number]"
    have "xex_at f ?offset fsize = Option.bind ?kind (\<lambda>kind. Option.bind ?info (\<lambda>execution. Some (kind, execution)))"
      by (simp add: xex_at_def Let_def Option.bind_map_option map_option_case split: option.splits)
    moreover have "reads_spec (disc_shows dops valid contents ready f len)
        (seq (read_executable_kind dops ?offset fsize) (\<lambda>kind.
           seq (read_execution_info dops ?offset fsize kind) (\<lambda>execution. ret (kind, execution))))
        (Option.bind ?kind (\<lambda>kind. Option.bind ?info (\<lambda>execution. Some (kind, execution))))"
    proof (rule reads_seq[OF executable_kind_shown[OF assms(1) True] _ refl])
      fix kind assume kind: "?kind = Some kind"
      then have k: "24 \<le> fsize" "kind = X360_EXECUTABLE_XEX1 \<or> kind = X360_EXECUTABLE_XEX2" by (auto split: if_splits)
      show "reads_spec (disc_shows dops valid contents ready f len)
          (seq (read_execution_info dops ?offset fsize kind) (\<lambda>execution. ret (kind, execution)))
          (Option.bind ?info (\<lambda>execution. Some (kind, execution)))"
        by (rule reads_seq[OF execution_info_shown[OF assms(1,2) True k] _ refl]) (simp add: reads_ret)
    qed
    ultimately show ?thesis using True inside by (simp add: found_executable_def place)
  qed
qed

lemma examine_node_shown:
  assumes "2048 \<le> limit" and "len < two64" and "gdfx_root_inside len v" and "gdfx_in_root v n"
    and "gv_game v < two32"
  shows "reads_spec (disc_shows dops valid contents ready f len)
    (examine_node dops len (gv_game v) (gv_root v) (gv_size v) target n)
    (if \<not> gdfx_node_ok f v n then None
     else if gdfx_matches f v target n then map_option Inl (gdfx_executable f len v n)
     else Some (Inr (gdfx_links f v n)))"
proof -
  let ?I = "disc_shows dops valid contents ready f len"
  let ?h = "gdfx_header f v n"
  have bounds: "gv_root v + n + 14 \<le> len" "n + 14 \<le> gv_size v" "gv_root v + gv_size v \<le> len"
    using assms(3,4) by (auto simp: gdfx_root_inside_def gdfx_in_root_def x360_sizes)
  have at: "x360_add_u64 (gv_root v) n = Some (gv_root v + n)"
    using bounds assms(2) by (auto simp: x360_add_u64_def UINT64_MAX_def)
  have header: "reads_spec ?I (x360_read_exact dops (gv_root v + n) GDOX_X360_DIRECTORY_HEADER_BYTES) (Some ?h)"
    using read_exact_shown[of 14 f len "gv_root v + n"] bounds assms(1) by (simp add: x360_sizes gdfx_header_def)
  show ?thesis
    unfolding examine_node_def at option.case(2)
  proof (rule reads_seq[OF header, where z = "\<lambda>_. if \<not> gdfx_node_ok f v n then None
     else if gdfx_matches f v target n then map_option Inl (gdfx_executable f len v n)
     else Some (Inr (gdfx_links f v n))"])
    fix header assume "Some ?h = Some header"
    then have hd: "header = ?h" by simp
    define nb where "nb = unat (?h ! 13)"
    have nb: "nb < 256" using unat_lt2p[of "?h ! 13"] by (simp add: nb_def)
    have name: "gdfx_name f v n = span f (gv_root v + n + 14) nb" by (simp add: gdfx_name_def nb_def x360_sizes)
    have ok: "gdfx_node_ok f v n \<longleftrightarrow> nb \<noteq> 0 \<and> n + 14 + nb \<le> gv_size v"
      using assms(4) by (auto simp: gdfx_node_ok_def name x360_sizes simp flip: length_0_conv)
    show "reads_spec ?I (let name_bytes = unat (header ! 13)
            in if name_bytes = 0 \<or> name_bytes > u64_sub (gv_size v - n) GDOX_X360_DIRECTORY_HEADER_BYTES
               then raise (err ERROR_INVALID_VOLUME ''GDFX root directory name is invalid'')
               else seq (x360_read_exact dops (u64_add (gv_root v + n) GDOX_X360_DIRECTORY_HEADER_BYTES) name_bytes) (\<lambda>name.
                 if header ! 12 AND GDOX_X360_DIRECTORY_ATTRIBUTE = 0 \<and> x360_ascii_equal name target
                 then seq (found_executable dops len (gv_game v) (le_u32 header 4) (le_u32 header 8))
                          (\<lambda>found. ret (Inl found))
                 else ret (Inr (le_u16 header 0, le_u16 header 2))))
       (if \<not> gdfx_node_ok f v n then None
        else if gdfx_matches f v target n then map_option Inl (gdfx_executable f len v n)
        else Some (Inr (gdfx_links f v n)))"
    proof (cases "gdfx_node_ok f v n")
      case False
      then have "nb = 0 \<or> nb > u64_sub (gv_size v - n) 14" using ok bounds assms(2) by auto
      then show ?thesis using False by (auto simp: hd nb_def[symmetric] Let_def x360_sizes intro: reads_raise)
    next
      case True
      then have nok: "\<not> (nb = 0 \<or> nb > u64_sub (gv_size v - n) 14)" using ok bounds assms(2) by auto
      have rd: "reads_spec ?I (x360_read_exact dops (u64_add (gv_root v + n) 14) nb) (Some (gdfx_name f v n))"
        using read_exact_shown[of nb f len "gv_root v + n + 14"] nb True[unfolded ok] bounds assms(1,2) by (simp add: name)
      have fs: "le_u32 ?h 4 < two32" by (simp add: reads_less)
      have ex: "reads_spec ?I (found_executable dops len (gv_game v) (le_u32 ?h 4) (le_u32 ?h 8)) (gdfx_executable f len v n)"
        using found_executable_shown[OF assms(1), of len v "le_u32 ?h 4" f "le_u32 ?h 8"] fs assms(2,5)
        by (simp add: gdfx_executable_def Let_def)
      have "reads_spec ?I (seq (found_executable dops len (gv_game v) (le_u32 ?h 4) (le_u32 ?h 8)) (\<lambda>found. ret (Inl found)))
          (map_option Inl (gdfx_executable f len v n))"
        by (rule reads_seq[OF ex, where z = "\<lambda>found. Some (Inl found)"]) (auto simp: reads_ret map_option_case split: option.splits)
      then have "reads_spec ?I (seq (x360_read_exact dops (u64_add (gv_root v + n) 14) nb) (\<lambda>name.
                 if ?h ! 12 AND GDOX_X360_DIRECTORY_ATTRIBUTE = 0 \<and> x360_ascii_equal name target
                 then seq (found_executable dops len (gv_game v) (le_u32 ?h 4) (le_u32 ?h 8)) (\<lambda>found. ret (Inl found))
                 else ret (Inr (le_u16 ?h 0, le_u16 ?h 2))))
          (if gdfx_matches f v target n then map_option Inl (gdfx_executable f len v n)
           else Some (Inr (gdfx_links f v n)))"
        by (intro reads_seq[OF rd, where z = "\<lambda>_. if gdfx_matches f v target n
              then map_option Inl (gdfx_executable f len v n) else Some (Inr (gdfx_links f v n))"])
          (auto simp: gdfx_matches_def gdfx_links_def intro: reads_ret)
      then show ?thesis using True nok unfolding hd by (simp add: nb_def[symmetric] Let_def x360_sizes)
    qed
  qed simp
qed

end

section \<open>The walk\<close>

definition marked_node :: "byte list \<Rightarrow> nat \<Rightarrow> bool" where
  "marked_node visited n \<longleftrightarrow> bit (visited ! (n div 4 div 8)) (n div 4 mod 8)"

definition walk_marks :: "x360_directory_walk \<Rightarrow> gdfx_volume \<Rightarrow> nat set \<Rightarrow> bool" where
  "walk_marks walk v S \<longleftrightarrow>
     length (xw_visited walk) = (gv_size v + 31) div 32 \<and> finite S \<and> xw_visited_nodes walk = card S
     \<and> (\<forall>n\<in>S. gdfx_in_root v n) \<and> (\<forall>n. gdfx_in_root v n \<longrightarrow> (marked_node (xw_visited walk) n \<longleftrightarrow> n \<in> S))"

lemma marked_node_set:
  assumes "4 dvd n" and "4 dvd m" and "n div 4 div 8 < length visited"
  shows "marked_node (visited[n div 4 div 8 := visited ! (n div 4 div 8) OR 2 ^ (n div 4 mod 8)]) m
    \<longleftrightarrow> m = n \<or> marked_node visited m"
proof (cases "m div 4 div 8 = n div 4 div 8")
  case True
  have "m = n \<longleftrightarrow> m div 4 mod 8 = n div 4 mod 8"
  proof
    assume "m div 4 mod 8 = n div 4 mod 8"
    then have "m div 4 = n div 4" using True by (metis div_mult_mod_eq)
    then show "m = n" using assms(1,2) by (metis dvd_div_eq_iff)
  qed simp
  moreover have "bit (2 ^ (n div 4 mod 8) :: byte) (m div 4 mod 8) \<longleftrightarrow> m div 4 mod 8 = n div 4 mod 8"
    by (auto simp: bit_simps)
  ultimately show ?thesis using True assms(3) by (auto simp: marked_node_def bit_or_iff)
next
  case False
  then show ?thesis using assms(3) by (auto simp: marked_node_def)
qed

lemma in_root_slot:
  assumes "gdfx_in_root v n"
  shows "n div 4 div 8 < (gv_size v + 31) div 32"
proof -
  have "n div 4 div 8 = n div 32" by (simp add: div_mult2_eq[symmetric])
  moreover have "n div 32 < (gv_size v + 31) div 32"
    using assms by (auto simp: gdfx_in_root_def x360_sizes less_eq_div_iff_mult_less_eq Suc_le_eq[symmetric])
  ultimately show ?thesis by simp
qed

lemma visit_marks:
  assumes "walk_marks walk v S" and "directory_walk_visit walk n (gv_size v) = Inr walk'"
  shows "gdfx_in_root v n \<and> n \<notin> S \<and> walk_marks walk' v (insert n S) \<and> xw_pending walk' = xw_pending walk"
proof -
  have root: "gdfx_in_root v n"
    using assms(2) by (auto simp: directory_walk_visit_def gdfx_in_root_def Let_def split: if_splits)
  then have slot: "n div 4 div 8 < length (xw_visited walk)" "n mod 4 = 0"
    using in_root_slot assms(1) by (simp_all add: walk_marks_def gdfx_in_root_def)
  have new: "n \<notin> S"
    using assms root
    by (auto simp: directory_walk_visit_def walk_marks_def marked_node_def and_exp_eq_0_iff_not_bit Let_def split: if_splits)
  have w: "walk' = walk\<lparr>xw_visited := (xw_visited walk)
        [n div 4 div 8 := xw_visited walk ! (n div 4 div 8) OR push_bit (n div 4 mod 8) 1],
      xw_visited_nodes := xw_visited_nodes walk + 1\<rparr>"
    using assms(2) by (auto simp: directory_walk_visit_def Let_def split: if_splits)
  have "walk_marks walk' v (insert n S)"
    using assms(1) root new slot unfolding walk_marks_def w
    by (auto simp: marked_node_set gdfx_in_root_def)
  then show ?thesis using root new w by simp
qed

lemma visit_new:
  assumes "walk_marks walk v S" and "gdfx_in_root v n" and "n \<notin> S" and "card S < GDOX_X360_MAX_ROOT_NODES"
  shows "\<exists>walk'. directory_walk_visit walk n (gv_size v) = Inr walk'"
  using assms
  by (auto simp: directory_walk_visit_def walk_marks_def marked_node_def gdfx_in_root_def and_exp_eq_0_iff_not_bit Let_def)

lemma visit_error:
  "directory_walk_visit walk n size_of_root = Inl e \<Longrightarrow> code e = ERROR_INVALID_VOLUME"
  by (auto simp: directory_walk_visit_def Let_def split: if_splits)

lemma push_fits: "length (xw_pending walk) < GDOX_X360_MAX_ROOT_NODES \<Longrightarrow> \<exists>walk'. directory_walk_push walk n = Inr walk'"
  by (simp add: directory_walk_push_def)

lemma push_error: "directory_walk_push walk n = Inl e \<Longrightarrow> code e = ERROR_INVALID_VOLUME"
  by (auto simp: directory_walk_push_def split: if_splits)

lemma create_marks:
  "directory_walk_create mem (gv_size v) = Inr walk \<Longrightarrow> walk_marks walk v {} \<and> xw_pending walk = [0]"
  using in_root_slot by (auto simp: directory_walk_create_def walk_marks_def marked_node_def Let_def split: if_splits)

lemma links_nonzero:
  "(if a = 0 then [] else [a * 4]) @ xs = (if a \<noteq> 0 then a * 4 # xs else xs)" for a :: nat
  by simp

text \<open>What is known before each turn: the visited nodes are good, linked and not the target.\<close>

definition walk_knows ::
  "(nat \<Rightarrow> byte) \<Rightarrow> gdfx_volume \<Rightarrow> cstring \<Rightarrow> nat set \<Rightarrow> nat list \<Rightarrow> bool" where
  "walk_knows f v target S pending \<longleftrightarrow>
     (\<forall>n \<in> S \<union> set pending. gdfx_linked f v n) \<and> 0 \<in> S \<union> set pending
     \<and> (\<forall>n\<in>S. gdfx_node_ok f v n \<and> \<not> gdfx_matches f v target n
          \<and> (fst (gdfx_links f v n) \<noteq> 0 \<longrightarrow> fst (gdfx_links f v n) * 4 \<in> S \<union> set pending)
          \<and> (snd (gdfx_links f v n) \<noteq> 0 \<longrightarrow> snd (gdfx_links f v n) * 4 \<in> S \<union> set pending))"

lemma walk_knows_step:
  assumes "walk_knows f v target S (n # pending)" and "gdfx_node_ok f v n" and "\<not> gdfx_matches f v target n"
    and "gdfx_links f v n = (left, right)"
  shows "walk_knows f v target (insert n S)
    ((if right = 0 then [] else [right * 4]) @ (if left = 0 then [] else [left * 4]) @ pending)"
proof -
  have linked: "gdfx_linked f v n" using assms(1) by (simp add: walk_knows_def)
  from linked_left[OF this] linked_right[OF this] assms show ?thesis
    by (auto simp: walk_knows_def)
qed

lemma walk_knows_all:
  assumes "walk_knows f v target S []" and "gdfx_linked f v n"
  shows "gdfx_node_ok f v n \<and> \<not> gdfx_matches f v target n"
proof -
  from assms(2) have "n \<in> S" by induction (use assms(1) in \<open>auto simp: walk_knows_def\<close>)
  then show ?thesis using assms(1) by (simp add: walk_knows_def)
qed

context ready_disc
begin

text \<open>One turn of the walk on a ready disc.\<close>

lemma examine_turn:
  assumes "2048 \<le> limit" and "len < two64" and "gdfx_root_inside len v" and "gdfx_in_root v n"
    and "gv_game v < two32" and "disc_shows dops valid contents ready f len d"
  obtains (bad) e d' where "disc_shows dops valid contents ready f len d'" "code e = ERROR_INVALID_VOLUME"
      "examine_node dops len (gv_game v) (gv_root v) (gv_size v) target n (Some d) = (Inl e, Some d')"
      "gdfx_node_ok f v n \<Longrightarrow> gdfx_matches f v target n \<and> gdfx_executable f len v n = None"
  | (found) x d' where "disc_shows dops valid contents ready f len d'"
      "examine_node dops len (gv_game v) (gv_root v) (gv_size v) target n (Some d) = (Inr (Inl x), Some d')"
      "gdfx_node_ok f v n" "gdfx_matches f v target n" "gdfx_executable f len v n = Some x"
  | (other) left right d' where "disc_shows dops valid contents ready f len d'"
      "examine_node dops len (gv_game v) (gv_root v) (gv_size v) target n (Some d) = (Inr (Inr (left, right)), Some d')"
      "gdfx_node_ok f v n" "\<not> gdfx_matches f v target n" "gdfx_links f v n = (left, right)"
proof -
  from examine_node_shown[OF assms(1-5), of f target, unfolded reads_spec_def, rule_format, OF assms(6)]
  obtain r d' where d': "disc_shows dops valid contents ready f len d'"
    and r: "examine_node dops len (gv_game v) (gv_root v) (gv_size v) target n (Some d) = (r, Some d')"
    and c: "case (if \<not> gdfx_node_ok f v n then None
        else if gdfx_matches f v target n then map_option Inl (gdfx_executable f len v n)
        else Some (Inr (gdfx_links f v n))) of
      None \<Rightarrow> \<exists>e. r = Inl e \<and> code e = ERROR_INVALID_VOLUME | Some y \<Rightarrow> r = Inr y"
    by blast
  show ?thesis
  proof (cases "gdfx_node_ok f v n \<and> \<not> gdfx_matches f v target n")
    case True
    then show ?thesis using other[OF d', of "fst (gdfx_links f v n)" "snd (gdfx_links f v n)"] c r by simp
  next
    case False
    then show ?thesis
      using c r bad[OF d'] found[OF d'] by (cases "gdfx_executable f len v n") (auto split: if_splits)
  qed
qed

lemma walk_root_sound:
  assumes "2048 \<le> limit" and "len < two64" and "gdfx_root_inside len v" and "gv_game v < two32"
    and "disc_shows dops valid contents ready f len d" and "walk_marks walk v S"
    and "walk_knows f v target S (xw_pending walk)"
    and "walk_root dops len (gv_game v) (gv_root v) (gv_size v) target walk (Some d) = (r, h)"
  shows "(\<exists>d'. h = Some d' \<and> disc_shows dops valid contents ready f len d')
    \<and> (case r of
         Inr x \<Rightarrow> \<exists>n. gdfx_linked f v n \<and> gdfx_node_ok f v n \<and> gdfx_matches f v target n
                    \<and> gdfx_executable f len v n = Some x
       | Inl e \<Rightarrow> code e = ERROR_INVALID_VOLUME
           \<or> code e = ERROR_UNSUPPORTED \<and> (\<forall>n. gdfx_linked f v n \<longrightarrow> gdfx_node_ok f v n \<and> \<not> gdfx_matches f v target n))"
  using assms(5-8)
proof (induction "GDOX_X360_MAX_ROOT_NODES - xw_visited_nodes walk" arbitrary: walk S d r h rule: less_induct)
  case less
  note inv = less.prems(1-3) and code = less.prems(4)[unfolded walk_root.simps[of dops len _ _ _ _ walk]]
  show ?case
  proof (cases "xw_pending walk")
    case Nil
    then show ?thesis using code inv walk_knows_all[of f v target S] by auto
  next
    case (Cons n pending)
    show ?thesis
    proof (cases "directory_walk_visit (walk\<lparr>xw_pending := pending\<rparr>) n (gv_size v)")
      case (Inl e)
      then show ?thesis using code inv visit_error[OF Inl] by (auto simp: Cons)
    next
      case (Inr w1)
      have "walk_marks (walk\<lparr>xw_pending := pending\<rparr>) v S" using inv(2) by (simp add: walk_marks_def)
      from visit_marks[OF this Inr]
      have n: "gdfx_in_root v n" "n \<notin> S" "walk_marks w1 v (insert n S)" "xw_pending w1 = pending" by simp_all
      have fewer: "GDOX_X360_MAX_ROOT_NODES - xw_visited_nodes w1 < GDOX_X360_MAX_ROOT_NODES - xw_visited_nodes walk"
        using visit_counts[OF Inr] by auto
      have linked: "gdfx_linked f v n" using inv(3) Cons by (simp add: walk_knows_def)
      show ?thesis
      proof (rule examine_turn[OF assms(1-3) n(1) assms(4) inv(1), of target])
        fix e d' assume d': "disc_shows dops valid contents ready f len d'" "code e = ERROR_INVALID_VOLUME"
          "examine_node dops len (gv_game v) (gv_root v) (gv_size v) target n (Some d) = (Inl e, Some d')"
        then show ?thesis using code by (auto simp: Cons Inr)
      next
        fix x d' assume d': "disc_shows dops valid contents ready f len d'"
          "examine_node dops len (gv_game v) (gv_root v) (gv_size v) target n (Some d) = (Inr (Inl x), Some d')"
          "gdfx_node_ok f v n" "gdfx_matches f v target n" "gdfx_executable f len v n = Some x"
        then show ?thesis using code linked by (auto simp: Cons Inr)
      next
        fix left right d' assume d': "disc_shows dops valid contents ready f len d'"
          "examine_node dops len (gv_game v) (gv_root v) (gv_size v) target n (Some d) = (Inr (Inr (left, right)), Some d')"
          "gdfx_node_ok f v n" "\<not> gdfx_matches f v target n" "gdfx_links f v n = (left, right)"
        note code = code[unfolded Cons list.case Inr sum.case d'(2) prod.case]
        show ?thesis
        proof (cases "directory_walk_push w1 left")
          case (Inl e)
          then show ?thesis using code d'(1) push_error[OF Inl] by auto
        next
          case w2: (Inr w2)
          show ?thesis
          proof (cases "directory_walk_push w2 right")
            case (Inl e)
            then show ?thesis using code d'(1) push_error[OF Inl] by (auto simp: w2)
          next
            case w3: (Inr w3)
            have marks: "walk_marks w3 v (insert n S)"
              using n(3) push_counts[OF w2] push_counts[OF w3] by (simp add: walk_marks_def)
            have pend: "xw_pending w3 = (if right = 0 then [] else [right * 4]) @ (if left = 0 then [] else [left * 4]) @ pending"
              using push_counts[OF w2] push_counts[OF w3] n(4) by simp
            have knows: "walk_knows f v target (insert n S) (xw_pending w3)"
              unfolding pend by (rule walk_knows_step[OF inv(3)[unfolded Cons] d'(3-5)])
            have "GDOX_X360_MAX_ROOT_NODES - xw_visited_nodes w3 < GDOX_X360_MAX_ROOT_NODES - xw_visited_nodes walk"
              using fewer push_counts[OF w2] push_counts[OF w3] by simp
            from less.hyps[OF this d'(1) marks knows] code show ?thesis by (simp add: w2 w3)
          qed
        qed
      qed
    qed
  qed
qed

text \<open>A directory that is a tree of at most 4096 nodes is searched in its order.\<close>

lemma walk_root_tree:
  assumes "2048 \<le> limit" and "len < two64" and "gdfx_root_inside len v" and "gv_game v < two32"
    and "disc_shows dops valid contents ready f len d" and "walk_marks walk v S"
    and "xw_pending walk = map node_value ts" and "\<forall>t\<in>set ts. t \<noteq> NoNode \<and> gdfx_tree f v t"
    and "distinct (concat (map search_order ts))" and "S \<inter> set (concat (map search_order ts)) = {}"
    and "card S + length (concat (map search_order ts)) \<le> GDOX_X360_MAX_ROOT_NODES"
  shows "\<exists>r d'. walk_root dops len (gv_game v) (gv_root v) (gv_size v) target walk (Some d) = (r, Some d')
    \<and> (case find (gdfx_matches f v target) (concat (map search_order ts)) of
         None \<Rightarrow> \<exists>e. r = Inl e \<and> code e = ERROR_UNSUPPORTED
       | Some n \<Rightarrow> (case gdfx_executable f len v n of
                      None \<Rightarrow> \<exists>e. r = Inl e \<and> code e = ERROR_INVALID_VOLUME
                    | Some x \<Rightarrow> r = Inr x))"
  using assms(5-)
proof (induction "length (concat (map search_order ts))" arbitrary: walk S d ts rule: less_induct)
  case less
  note inv = less.prems and code = walk_root.simps[of dops len _ _ _ _ walk]
  show ?case
  proof (cases "xw_pending walk")
    case Nil
    then show ?thesis using inv(3) by (auto simp: code)
  next
    case (Cons n pending)
    then obtain t ts' where t: "ts = t # ts'" "node_value t = n" "pending = map node_value ts'"
      using inv(3) by (cases ts) auto
    then obtain l r where ts: "ts = DirectoryNode l n r # ts'" using inv(4) by (cases t) auto
    define rest where "rest = concat (map search_order ts')"
    have order: "concat (map search_order ts) = n # search_order r @ search_order l @ rest" by (simp add: ts rest_def)
    have tree: "gdfx_node_ok f v n" "link_to (fst (gdfx_links f v n)) l" "link_to (snd (gdfx_links f v n)) r"
      "gdfx_tree f v l" "gdfx_tree f v r" "\<forall>t\<in>set ts'. t \<noteq> NoNode \<and> gdfx_tree f v t"
      using inv(4) ts by auto
    have root: "gdfx_in_root v n" using tree(1) by (simp add: gdfx_node_ok_def)
    have new: "n \<notin> S" using inv(6) order by auto
    have m0: "walk_marks (walk\<lparr>xw_pending := pending\<rparr>) v S" using inv(2) by (simp add: walk_marks_def)
    have "card S < GDOX_X360_MAX_ROOT_NODES" using inv(7) order by simp
    from visit_new[OF m0 root new this] obtain w1 where
      w1: "directory_walk_visit (walk\<lparr>xw_pending := pending\<rparr>) n (gv_size v) = Inr w1" by blast
    from visit_marks[OF m0 w1] have n: "walk_marks w1 v (insert n S)" "xw_pending w1 = pending" by simp_all
    show ?thesis
    proof (rule examine_turn[OF assms(1-3) root assms(4) inv(1), of target])
      fix e d' assume d': "disc_shows dops valid contents ready f len d'" "code e = ERROR_INVALID_VOLUME"
        "examine_node dops len (gv_game v) (gv_root v) (gv_size v) target n (Some d) = (Inl e, Some d')"
        "gdfx_node_ok f v n \<Longrightarrow> gdfx_matches f v target n \<and> gdfx_executable f len v n = None"
      then show ?thesis using tree(1) by (simp add: code Cons w1 order)
    next
      fix x d' assume d': "disc_shows dops valid contents ready f len d'"
        "examine_node dops len (gv_game v) (gv_root v) (gv_size v) target n (Some d) = (Inr (Inl x), Some d')"
        "gdfx_node_ok f v n" "gdfx_matches f v target n" "gdfx_executable f len v n = Some x"
      then show ?thesis by (simp add: code Cons w1 order)
    next
      fix left right d' assume d': "disc_shows dops valid contents ready f len d'"
        "examine_node dops len (gv_game v) (gv_root v) (gv_size v) target n (Some d) = (Inr (Inr (left, right)), Some d')"
        "gdfx_node_ok f v n" "\<not> gdfx_matches f v target n" "gdfx_links f v n = (left, right)"
      define us where "us = (if right = 0 then [] else [r]) @ (if left = 0 then [] else [l]) @ ts'"
      have links: "link_to left l" "link_to right r" using tree(2,3) d'(5) by simp_all
      have us_order: "concat (map search_order us) = search_order r @ search_order l @ rest"
        using links by (auto simp: us_def rest_def link_to_def split: directory_tree.splits)
      have "length (concat (map search_order us)) < GDOX_X360_MAX_ROOT_NODES" using inv(7) us_order order by simp
      moreover have trees: "\<forall>t\<in>set us. t \<noteq> NoNode \<and> gdfx_tree f v t"
        using tree(4-6) links by (auto simp: us_def link_to_def)
      moreover have "length us \<le> length (concat (map search_order us))"
      proof -
        from trees have "\<forall>t\<in>set us. t \<noteq> NoNode" by blast
        then show ?thesis
        proof (induction us)
          case (Cons t us)
          then show ?case by (cases t) auto
        qed simp
      qed
      moreover have "length pending = length ts'" using t(3) by simp
      ultimately have short: "length pending + (if left = 0 then 0 else 1) + (if right = 0 then 0 else 1) < GDOX_X360_MAX_ROOT_NODES"
        by (auto simp: us_def)
      obtain w2 where w2: "directory_walk_push w1 left = Inr w2"
        using push_fits[of w1 left] short n(2) by auto
      obtain w3 where w3: "directory_walk_push w2 right = Inr w3"
        using push_fits[of w2 right] short n(2) push_counts[OF w2] by (auto split: if_splits)
      have marks: "walk_marks w3 v (insert n S)"
        using n(1) push_counts[OF w2] push_counts[OF w3] by (simp add: walk_marks_def)
      have pend: "xw_pending w3 = (if right = 0 then [] else [right * 4]) @ (if left = 0 then [] else [left * 4]) @ pending"
        using push_counts[OF w2] push_counts[OF w3] n(2) by simp
      have stack: "xw_pending w3 = map node_value us"
        using links t(3) unfolding pend us_def by (auto simp: link_to_def split: directory_tree.splits)
      have fin: "finite S" using inv(2) by (simp add: walk_marks_def)
      have "length (concat (map search_order us)) < length (concat (map search_order ts))" using us_order order by simp
      from less.hyps[OF this d'(1) marks stack trees] us_order order inv(5-7) new fin
      have "\<exists>q d''. walk_root dops len (gv_game v) (gv_root v) (gv_size v) target w3 (Some d') = (q, Some d'')
        \<and> (case find (gdfx_matches f v target) (search_order r @ search_order l @ rest) of
             None \<Rightarrow> \<exists>e. q = Inl e \<and> code e = ERROR_UNSUPPORTED
           | Some n \<Rightarrow> (case gdfx_executable f len v n of
                          None \<Rightarrow> \<exists>e. q = Inl e \<and> code e = ERROR_INVALID_VOLUME
                        | Some x \<Rightarrow> q = Inr x))"
        by simp
      then show ?thesis using d' by (simp add: code Cons w1 w2 w3 order)
    qed
  qed
qed

lemma find_descriptor_shown:
  assumes "2048 \<le> limit" and "disc_shows dops valid contents ready f len d" and "\<forall>(offset, l) \<in> set candidates. offset < two32"
  shows "\<exists>q d'. find_descriptor dops candidates (Some d) = (q, Some d') \<and> disc_shows dops valid contents ready f len d'
    \<and> (case find (\<lambda>(offset, _). gdfx_at f len offset) candidates of
         None \<Rightarrow> \<exists>e. q = Inl e \<and> code e = ERROR_NOT_FOUND
       | Some (offset, l) \<Rightarrow> q = Inr ((offset, l), span f (offset + 65536) GDOX_LOGICAL_SECTOR_BYTES))"
  using assms(2,3)
proof (induction candidates arbitrary: d)
  case Nil
  then show ?case by simp
next
  case (Cons c candidates)
  obtain offset l where c: "c = (offset, l)" by fastforce
  have len: "gdox_disc_length dops (Some d) = len" using Cons.prems(1) by (simp add: disc_shows_def gdox_disc_length_def)
  have at: "x360_add_u64 offset 65536 = Some (offset + 65536)"
    using Cons.prems(2) by (auto simp: c x360_add_u64_def UINT64_MAX_def)
  note step = find_descriptor.simps(2)[of dops c candidates "Some d", unfolded Let_def len]
  show ?case
  proof (cases "offset + 65536 + 2048 \<le> len")
    case False
    then have "offset + 65536 > len \<or> 2048 > len - (offset + 65536)" by auto
    then have "find_descriptor dops (c # candidates) (Some d) = find_descriptor dops candidates (Some d)"
      unfolding step by (simp add: c at x360_sizes)
    moreover have "\<not> gdfx_at f len offset" using False by (simp add: gdfx_at_def)
    ultimately show ?thesis using Cons.IH[OF Cons.prems(1)] Cons.prems(2) by (simp add: c)
  next
    case True
    then have inside: "\<not> (offset + 65536 > len \<or> 2048 > len - (offset + 65536))" by auto
    let ?s = "span f (offset + 65536) 2048"
    from read_exact_shown[OF assms(1), of f len "offset + 65536", unfolded reads_spec_def, rule_format, OF Cons.prems(1)]
    obtain d1 where d1: "x360_read_exact dops (offset + 65536) 2048 (Some d) = (Inr ?s, Some d1)"
      "disc_shows dops valid contents ready f len d1" using True by auto
    have "find_descriptor dops (c # candidates) (Some d) =
        (if x360_descriptor_magic_valid ?s then (Inr (c, ?s), Some d1) else find_descriptor dops candidates (Some d1))"
      unfolding step using inside d1(1) by (simp add: c at x360_sizes)
    moreover have "gdfx_at f len offset \<longleftrightarrow> x360_descriptor_magic_valid ?s" using True by (simp add: gdfx_at_def)
    ultimately show ?thesis using Cons.IH[OF d1(2)] Cons.prems(2) d1(2) by (simp add: c)
  qed
qed

lemma find_root_shown:
  assumes "2048 \<le> limit" and "len < two64" and "offset < two32" and "disc_shows dops valid contents ready f len d"
    and v: "v = gdfx_volume_at f offset" and "\<And>k. mem k"
    and "descriptor = span f (offset + 65536) GDOX_LOGICAL_SECTOR_BYTES"
    and run: "find_root_executable mem dops offset (le_u32 descriptor 20) (le_u32 descriptor 24) target (Some d) = (q, h)"
  shows "(\<exists>d'. h = Some d' \<and> disc_shows dops valid contents ready f len d')
    \<and> (case q of
         Inr x \<Rightarrow> gdfx_root_inside len v \<and> (\<exists>n. gdfx_linked f v n \<and> gdfx_node_ok f v n \<and> gdfx_matches f v target n
                    \<and> gdfx_executable f len v n = Some x)
       | Inl e \<Rightarrow> code e = ERROR_INVALID_VOLUME
           \<or> code e = ERROR_UNSUPPORTED \<and> gdfx_root_inside len v
             \<and> (\<forall>n. gdfx_linked f v n \<longrightarrow> gdfx_node_ok f v n \<and> \<not> gdfx_matches f v target n))
    \<and> (gdfx_root_inside len v \<longrightarrow> t \<noteq> NoNode \<longrightarrow> node_value t = 0 \<longrightarrow> gdfx_tree f v t \<longrightarrow> distinct (search_order t)
       \<longrightarrow> length (search_order t) \<le> GDOX_X360_MAX_ROOT_NODES \<longrightarrow>
       (case find (gdfx_matches f v target) (search_order t) of
          None \<Rightarrow> \<exists>e. q = Inl e \<and> code e = ERROR_UNSUPPORTED
        | Some n \<Rightarrow> (case gdfx_executable f len v n of
                       None \<Rightarrow> \<exists>e. q = Inl e \<and> code e = ERROR_INVALID_VOLUME
                     | Some x \<Rightarrow> q = Inr x)))"
proof -
  have len: "gdox_disc_length dops (Some d) = len" using assms(4) by (simp add: disc_shows_def gdox_disc_length_def)
  have sector: "le_u32 descriptor 20 < two32" by (simp add: reads_less)
  have vs: "gv_game v = offset" "gv_root v = offset + le_u32 descriptor 20 * 2048" "gv_size v = le_u32 descriptor 24"
    using assms(7) by (simp_all add: v gdfx_volume_at_def Let_def)
  have place: "Option.bind (x360_multiply_u64 (le_u32 descriptor 20) GDOX_LOGICAL_SECTOR_BYTES) (x360_add_u64 offset)
      = Some (gv_root v)"
  proof -
    have "le_u32 descriptor 20 = 0 \<or> 2048 \<le> UINT64_MAX div le_u32 descriptor 20"
      using sector less_eq_div_iff_mult_less_eq[of "le_u32 descriptor 20" 2048 UINT64_MAX]
      by (auto simp: UINT64_MAX_def mult.commute)
    then show ?thesis
      using sector assms(3) by (auto simp: vs x360_multiply_u64_def x360_add_u64_def UINT64_MAX_def)
  qed
  note code = run[unfolded find_root_executable_def Let_def len place option.case]
  show ?thesis
  proof (cases "gdfx_root_inside len v")
    case False
    then have "gv_size v < 14 \<or> gv_size v > 33554432 \<or> gv_root v > len \<or> gv_size v > len - gv_root v"
      by (auto simp: gdfx_root_inside_def x360_sizes)
    then have "q = fail ERROR_INVALID_VOLUME ''GDFX root directory is outside the source''" "h = Some d"
      using code by (auto simp: vs x360_sizes split: if_splits)
    then show ?thesis using False assms(4) by simp
  next
    case True
    then have inside: "\<not> (gv_size v < 14 \<or> gv_size v > 33554432)" "\<not> (gv_root v > len \<or> gv_size v > len - gv_root v)"
      by (auto simp: gdfx_root_inside_def x360_sizes)
    obtain walk where w: "directory_walk_create mem (gv_size v) = Inr walk"
      using assms(6) by (simp add: directory_walk_create_def Let_def)
    note marks = create_marks[OF w]
    have walked: "walk_root dops len (gv_game v) (gv_root v) (gv_size v) target walk (Some d) = (q, h)"
      using code inside w by (simp add: vs x360_sizes)
    have game: "gv_game v < two32" using assms(3) vs(1) by simp
    have knows: "walk_knows f v target {} (xw_pending walk)" using marks by (simp add: walk_knows_def linked_root)
    note sound = walk_root_sound[OF assms(1,2) True game assms(4) conjunct1[OF marks] knows walked]
    have tree: "case find (gdfx_matches f v target) (search_order t) of
          None \<Rightarrow> \<exists>e. q = Inl e \<and> code e = ERROR_UNSUPPORTED
        | Some n \<Rightarrow> (case gdfx_executable f len v n of
                       None \<Rightarrow> \<exists>e. q = Inl e \<and> code e = ERROR_INVALID_VOLUME
                     | Some x \<Rightarrow> q = Inr x)"
      if "t \<noteq> NoNode" "node_value t = 0" "gdfx_tree f v t" "distinct (search_order t)"
        "length (search_order t) \<le> GDOX_X360_MAX_ROOT_NODES"
      using walk_root_tree[OF assms(1,2) True game assms(4) conjunct1[OF marks], of "[t]" target] that marks walked by simp
    show ?thesis using sound tree True by (cases q) auto
  qed
qed

end

text \<open>Building a disc never frees an open source.\<close>

lemma x360_live_disc_build_keeps:
  assumes "closable_source ops prepared" and "gdox_x360_live_disc_build mem ops source None = (q, source', lost, output)"
  shows "\<not> lost"
  using assms(2)
  by (auto simp: gdox_x360_live_disc_build_def split: if_splits prod.splits sum.splits
      dest: closable_disc.disc_close_keeps[OF closable_source.direct_closable_disc[OF assms(1)]])

section \<open>Properties\<close>

definition gdfx_info ::
  "(nat \<Rightarrow> byte) \<Rightarrow> nat \<Rightarrow> nat \<Rightarrow> gdox_x360_image_layout
     \<Rightarrow> gdox_x360_executable_kind \<times> gdox_x360_execution_info \<Rightarrow> gdox_x360_disc_info" where
  "gdfx_info f len offset layout x =
     (let descriptor = span f (offset + 65536) GDOX_LOGICAL_SECTOR_BYTES
      in \<lparr>xd_layout = layout, xd_executable = fst x, xd_source_bytes = len, xd_game_offset_bytes = offset,
          xd_root_directory_sector = le_u32 descriptor 20, xd_root_directory_size = le_u32 descriptor 24,
          xd_launch_executable = default_executable, xd_execution = snd x\<rparr>)"

text \<open>
  C37: An Xbox 360 disc is recognised by what it holds. On a disc that can be read, probing answers
  \<open>ERROR_NOT_FOUND\<close> exactly when no known layout has a descriptor, and otherwise speaks of the first layout that
  has one: a success reports a file named \<open>default.xex\<close>, letter case ignored, that is linked from the
  root directory, lies inside the disc and has the reported header; \<open>ERROR_UNSUPPORTED\<close> means that every
  linked node is well formed and none is that file; and in a root directory that is a tree of at most
  4096 nodes the first such node in the order of the search decides.
\<close>

theorem x360_probe_exact:
  assumes "ready_disc dops valid contents ready limit" and "2048 \<le> limit" and "valid d" and "ready d"
    and "dop_length dops d < two64" and "\<And>k. mem k"
    and "gdox_x360_disc_probe mem dops True (Some d) = (q, h)"
  shows "case gdfx_layout (contents d) (dop_length dops d) of
      None \<Rightarrow> \<exists>e. q = Inl e \<and> code e = ERROR_NOT_FOUND
    | Some (offset, layout) \<Rightarrow>
        (let f = contents d; len = dop_length dops d; v = gdfx_volume_at f offset;
             hit = gdfx_matches f v default_executable
         in (case q of
               Inr info \<Rightarrow> gdfx_root_inside len v \<and>
                 (\<exists>n x. gdfx_linked f v n \<and> gdfx_node_ok f v n \<and> hit n \<and> gdfx_executable f len v n = Some x
                    \<and> info = gdfx_info f len offset layout x)
             | Inl e \<Rightarrow> code e = ERROR_INVALID_VOLUME
                 \<or> code e = ERROR_UNSUPPORTED \<and> gdfx_root_inside len v
                   \<and> (\<forall>n. gdfx_linked f v n \<longrightarrow> gdfx_node_ok f v n \<and> \<not> hit n))
            \<and> (\<forall>t. gdfx_root_inside len v \<and> t \<noteq> NoNode \<and> node_value t = 0 \<and> gdfx_tree f v t \<and> distinct (search_order t)
                 \<and> length (search_order t) \<le> GDOX_X360_MAX_ROOT_NODES \<longrightarrow>
                 (case find hit (search_order t) of
                    None \<Rightarrow> \<exists>e. q = Inl e \<and> code e = ERROR_UNSUPPORTED
                  | Some n \<Rightarrow> (case gdfx_executable f len v n of
                                 None \<Rightarrow> \<exists>e. q = Inl e \<and> code e = ERROR_INVALID_VOLUME
                               | Some x \<Rightarrow> q = Inr (gdfx_info f len offset layout x)))))"
proof -
  let ?f = "contents d" and ?len = "dop_length dops d"
  have view: "disc_shows dops valid contents ready ?f ?len d" using assms(3,4) by (simp add: disc_shows_def)
  have small: "\<forall>(offset, l) \<in> set layout_candidates. offset < two32" by (simp add: layout_candidates_def)
  obtain p d1 where p: "find_descriptor dops layout_candidates (Some d) = (p, Some d1)"
      "disc_shows dops valid contents ready ?f ?len d1"
      "case gdfx_layout ?f ?len of None \<Rightarrow> \<exists>e. p = Inl e \<and> code e = ERROR_NOT_FOUND
       | Some (offset, l) \<Rightarrow> p = Inr ((offset, l), span ?f (offset + 65536) GDOX_LOGICAL_SECTOR_BYTES)"
    using ready_disc.find_descriptor_shown[OF assms(1,2) view small] unfolding gdfx_layout_def by blast
  note code = assms(7)[unfolded gdox_x360_disc_probe_def gdox_disc_is_valid_def, simplified, unfolded seq_def[of "find_descriptor _ _"] p(1)]
  show ?thesis
  proof (cases "gdfx_layout ?f ?len")
    case None
    then show ?thesis using p(3) code by auto
  next
    case (Some ol)
    obtain offset layout where ol: "ol = (offset, layout)" by fastforce
    have off: "offset < two32"
      using find_mem[OF Some[unfolded gdfx_layout_def]] small by (auto simp: ol)
    define descriptor where "descriptor = span ?f (offset + 65536) GDOX_LOGICAL_SECTOR_BYTES"
    obtain r d2 where r: "find_root_executable mem dops offset (le_u32 descriptor 20) (le_u32 descriptor 24)
        default_executable (Some d1) = (r, d2)" by fastforce
    have len: "gdox_disc_length dops (Some d1) = ?len" using p(2) by (simp add: disc_shows_def gdox_disc_length_def)
    have q: "q = map_sum id (gdfx_info ?f ?len offset layout) r"
      using code p(3) r len
      by (cases r) (auto simp: Some ol descriptor_def seq_def gets_def ret_def gdfx_info_def Let_def)
    note found = ready_disc.find_root_shown[OF assms(1,2,5) off p(2) refl assms(6) descriptor_def r]
    show ?thesis
      unfolding Some ol option.case(2) prod.case Let_def
    proof (intro conjI allI impI, goal_cases)
      case 1
      show ?case using found[THEN conjunct2, THEN conjunct1] by (cases r) (auto simp: q)
    next
      case (2 t)
      then show ?case
        using found[of t, THEN conjunct2, THEN conjunct2] by (auto simp: q split: option.splits)
    qed
  qed
qed

text \<open>A disc of 64 sectors whose root directory holds one executable with execution information.\<close>

definition sample_root :: "byte list" where
  "sample_root = [0, 0, 0, 0, 34, 0, 0, 0, 0, 8, 0, 0, 0, 11] @ ascii ''Default.XEX'' @ replicate 2023 255"

definition sample_xex :: "byte list" where
  "sample_xex = ascii ''XEX2'' @ [0, 0, 0, 0, 0, 0, 0, 0, 0, 0, 0, 0, 0, 0, 0, 0, 0, 0, 0, 1, 0, 4, 0, 6, 0, 0, 0, 32]
     @ [1, 2, 3, 4, 0, 0, 0, 0, 0, 0, 0, 0, 0x4d, 0x53, 7, 0xd1, 2, 0, 1, 2, 0, 0, 0, 0] @ replicate 1992 0"

definition sample_x360 :: file_context where
  "sample_x360 =
     \<lparr>fc_data = replicate 65536 0 @ sample_descriptor @ sample_root @ sample_xex @ replicate 59392 0,
      fc_sectors = 64, fc_script = [PREAD_EINTR, PREAD_BYTES 100], fc_close_error = None\<rparr>"

definition sample_execution :: gdox_x360_execution_info where
  "sample_execution = \<lparr>xi_valid = True, xi_media_id = 0x01020304, xi_title_id = 0x4d5307d1, xi_platform = 2,
     xi_executable_type = 0, xi_disc_number = 1, xi_disc_count = 2\<rparr>"

lemma length_sample_x360 [simp]:
  "length sample_root = 2048" "length sample_xex = 2048" "length (fc_data sample_x360) = 131072"
  by (simp_all add: sample_root_def sample_xex_def sample_x360_def ascii_def)

lemma sample_x360_simps [simp]:
  "file_valid sample_x360" "file_ready sample_x360" "file_sector_count sample_x360 = 64"
  by (simp_all add: sample_x360_def file_valid_def file_ready_def INT64_MAX_def file_sector_count_def
      length_sample_x360(3)[unfolded sample_x360_def, simplified])

lemma sample_x360_span:
  "span (file_contents sample_x360) 65536 2048 = sample_descriptor"
  "a + n \<le> 2048 \<Longrightarrow> span (file_contents sample_x360) (67584 + a) n = take n (drop a sample_root)"
  "a + n \<le> 2048 \<Longrightarrow> span (file_contents sample_x360) (69632 + a) n = take n (drop a sample_xex)"
  by (simp_all add: file_contents_def span_bytes_at) (simp_all add: sample_x360_def)

lemma sample_x360_fields:
  "read_be_u32 (take 24 sample_xex) 20 = 1" "take 4 sample_xex = ascii ''XEX2''"
  "read_be_u32 (take 8 (drop 24 sample_xex)) 0 = 0x00040006" "read_be_u32 (take 8 (drop 24 sample_xex)) 4 = 32"
  "execution_of (take 24 (drop 32 sample_xex)) = sample_execution"
  "le_u16 (take 14 sample_root) 0 = 0" "le_u16 (take 14 sample_root) 2 = 0" "le_u32 (take 14 sample_root) 4 = 34"
  "le_u32 (take 14 sample_root) 8 = 2048" "take 14 sample_root ! 12 = 0" "take 14 sample_root ! 13 = 11"
  "take 11 (drop 14 sample_root) = ascii ''Default.XEX''"
  "le_u32 sample_descriptor 20 = 33" "le_u32 sample_descriptor 24 = 25"
  by (simp_all add: sample_xex_def sample_root_def sample_descriptor_def xdvdfs_magic_def ascii_def read_be_u32_def le_u32_def
      le_u16_def join32_def join16_def execution_of_def sample_execution_def)

definition sample_gdfx :: gdfx_volume where
  "sample_gdfx = \<lparr>gv_game = 0, gv_root = 67584, gv_size = 25\<rparr>"

lemma sample_gdfx_root: "gv_root sample_gdfx = 67584"
  by (simp add: sample_gdfx_def)

lemma sample_gdfx_game: "gv_game sample_gdfx = 0"
  by (simp add: sample_gdfx_def)

lemma sample_gdfx_facts:
  "gdfx_layout (file_contents sample_x360) 131072 = Some (0, X360_LAYOUT_PARTITION)"
  "gdfx_volume_at (file_contents sample_x360) 0 = sample_gdfx" "gdfx_root_inside 131072 sample_gdfx"
  "gdfx_tree (file_contents sample_x360) sample_gdfx (DirectoryNode NoNode 0 NoNode)"
  "gdfx_matches (file_contents sample_x360) sample_gdfx default_executable 0"
  "gdfx_executable (file_contents sample_x360) 131072 sample_gdfx 0 = Some (X360_EXECUTABLE_XEX2, sample_execution)"
proof -
  let ?f = "file_contents sample_x360"
  have h: "gdfx_header ?f sample_gdfx 0 = take 14 sample_root"
    using sample_x360_span(2)[of 0 14] by (simp add: gdfx_header_def sample_gdfx_def x360_sizes)
  have n: "gdfx_name ?f sample_gdfx 0 = ascii ''Default.XEX''"
    using sample_x360_span(2)[of 14 11] by (simp add: gdfx_name_def h sample_x360_fields sample_gdfx_root x360_sizes)
  have magic: "x360_descriptor_magic_valid sample_descriptor"
    by (simp add: x360_descriptor_magic_valid_def sample_descriptor_def gdfx_magic_def xdvdfs_magic_def ascii_def)
  show "gdfx_layout ?f 131072 = Some (0, X360_LAYOUT_PARTITION)"
    by (simp add: gdfx_layout_def layout_candidates_def gdfx_at_def sample_x360_span magic)
  show "gdfx_volume_at ?f 0 = sample_gdfx"
    by (simp add: gdfx_volume_at_def sample_gdfx_def sample_x360_span sample_x360_fields)
  show "gdfx_root_inside 131072 sample_gdfx" by (simp add: gdfx_root_inside_def sample_gdfx_def x360_sizes)
  show "gdfx_tree ?f sample_gdfx (DirectoryNode NoNode 0 NoNode)"
    by (simp add: gdfx_node_ok_def gdfx_in_root_def n gdfx_links_def h sample_x360_fields link_to_def)
      (simp add: sample_gdfx_def x360_sizes ascii_def)
  show "gdfx_matches ?f sample_gdfx default_executable 0"
    by (simp add: gdfx_matches_def h n sample_x360_fields default_executable_def x360_ascii_equal_def x360_ascii_fold_def
        ascii_def)
  show "gdfx_executable ?f 131072 sample_gdfx 0 = Some (X360_EXECUTABLE_XEX2, sample_execution)"
    using sample_x360_span(3)[of 0 24] sample_x360_span(3)[of 0 4] sample_x360_span(3)[of 24 8] sample_x360_span(3)[of 32 24]
    by (simp add: gdfx_executable_def h sample_x360_fields xex_at_def xex_execution_def x360_sizes sample_gdfx_game
        ascii_def[of "''XEX1''"] ascii_def[of "''XEX2''"])
qed

theorem x360_probe_exact_witness:
  "\<exists>info h. gdox_x360_disc_probe (\<lambda>_. True) (direct_ops (\<lambda>_. True) file_ops) True
       (Some \<lparr>dd_source = Some sample_x360, dd_length = 131072\<rparr>) = (Inr info, h)
     \<and> xd_executable info = X360_EXECUTABLE_XEX2 \<and> xi_title_id (xd_execution info) = 0x4d5307d1"
proof -
  let ?d = "\<lparr>dd_source = Some sample_x360, dd_length = 131072\<rparr>"
  have rd: "ready_disc (direct_ops (\<lambda>_. True) file_ops) (direct_valid file_ops file_valid) (direct_contents file_contents)
      (direct_ready file_ready) UINT32_MAX"
    by (rule reliable_source.direct_ready_disc[OF file_source.reliable_source_axioms]) simp
  obtain q h where run: "gdox_x360_disc_probe (\<lambda>_. True) (direct_ops (\<lambda>_. True) file_ops) True (Some ?d) = (q, h)" by fastforce
  have d: "direct_valid file_ops file_valid ?d" "direct_ready file_ready ?d" "direct_contents file_contents ?d = file_contents sample_x360"
    "dop_length (direct_ops (\<lambda>_. True) file_ops) ?d = 131072"
    by (simp_all add: direct_valid_def direct_ready_def direct_contents_def direct_length_def)
  have limits: "2048 \<le> UINT32_MAX" "dop_length (direct_ops (\<lambda>_. True) file_ops) ?d < two64" by (simp_all add: UINT32_MAX_def direct_length_def)
  note report = x360_probe_exact[OF rd limits(1) d(1,2) limits(2) TrueI run,
      unfolded d(3,4) sample_gdfx_facts(1) option.case(2) prod.case Let_def sample_gdfx_facts(2)]
  let ?t = "DirectoryNode NoNode 0 NoNode"
  have "(case find (gdfx_matches (file_contents sample_x360) sample_gdfx default_executable) (search_order ?t) of
      None \<Rightarrow> \<exists>e. q = Inl e \<and> code e = ERROR_UNSUPPORTED
    | Some n \<Rightarrow> (case gdfx_executable (file_contents sample_x360) 131072 sample_gdfx n of
                   None \<Rightarrow> \<exists>e. q = Inl e \<and> code e = ERROR_INVALID_VOLUME
                 | Some x \<Rightarrow> q = Inr (gdfx_info (file_contents sample_x360) 131072 0 X360_LAYOUT_PARTITION x)))"
    by (rule report[THEN conjunct2, rule_format]) (use sample_gdfx_facts in \<open>auto simp: x360_sizes\<close>)
  then have "q = Inr (gdfx_info (file_contents sample_x360) 131072 0 X360_LAYOUT_PARTITION (X360_EXECUTABLE_XEX2, sample_execution))"
    using sample_gdfx_facts(5,6) by simp
  then show ?thesis using run by (simp add: gdfx_info_def Let_def sample_execution_def)
qed

end
