(* ===== verification/OpticalReader.thy ===== *)
theory OpticalReader
  imports Ad7701h
begin

text \<open>
  What the drivers of the patched drives have in common. The drivers for the ASUS NR09 and the GP08
  (src/src/platform/asus_nr09_source.c, gp08_source.c) repeat the same functions around their own
  volatile memory: bounded reads with recovery, the media tracker, restoring before the close, and
  the ways an opening can fail. They are written here once, over a context that a driver extends
  with its own field, and over a record of what the driver plugs in. The helpers of
  src/src/platform/optical_restore.h follow.

  The scripts of the context answer for other threads and the clock: \<open>oc_mutex\<close> holds the answers of
  \<open>gdox_mutex_lock\<close>, \<open>oc_aborts\<close> whether the session was aborted before the next test of the flag,
  \<open>oc_elapsed\<close> the milliseconds that pass before the next reading of the clock. Beyond their ends
  locks succeed, nobody aborts and the clock stands still. Sleeping changes nothing.
\<close>

unbundle bit_operations_syntax

record 't optical_context =
  oc_transport :: "'t scsi_transport"
  oc_mutex :: "bool list"
  oc_evidence :: disc_evidence
  oc_media :: gdox_mmc_media_tracker
  oc_read_commands :: u64
  oc_read_sectors :: u64
  oc_read_bytes :: u64
  oc_last_read_lba :: u64
  oc_aborted :: bool
  oc_aborts :: "bool list"
  oc_retries :: nat
  oc_active :: bool
  oc_now :: u64
  oc_elapsed :: "u64 list"

text \<open>
  What differs between the drivers: their name in messages, the restoration that checks the memory
  first, the recovery of the live view, whether recovery starts the unit again, whether a close
  accepts a drive that is gone.
\<close>

record 'c optical_driver =
  dr_name :: string
  dr_guarded_restore :: "('c, unit) act"
  dr_ensure_live :: "('c, unit) act"
  dr_loads :: bool
  dr_accepts_absence :: bool

abbreviation opt_on_transport ::
  "('t scsi_transport, 'a) act \<Rightarrow> (('t, 'x) optical_context_scheme, 'a) act" where
  "opt_on_transport \<equiv> zoom oc_transport oc_transport_update"

definition opt_DEFAULT_TIMEOUT_MS :: u32 where "opt_DEFAULT_TIMEOUT_MS = 5000"
definition opt_PRESENCE_TIMEOUT_MS :: u32 where "opt_PRESENCE_TIMEOUT_MS = 1000"
definition opt_READ_TIMEOUT_MS :: u32 where "opt_READ_TIMEOUT_MS = 30000"
definition opt_MAX_READ_BLOCKS :: u32 where "opt_MAX_READ_BLOCKS = 32"
definition opt_READY_ATTEMPTS :: nat where "opt_READY_ATTEMPTS = 20"
definition opt_INQUIRY_ATTEMPTS :: nat where "opt_INQUIRY_ATTEMPTS = 2"
definition opt_RECOVERY_BUDGET_MS :: u64 where "opt_RECOVERY_BUDGET_MS = 20000"

section \<open>Shared helpers\<close>

text \<open>Whether the last command failed with the sense data NOT READY, MEDIUM NOT PRESENT.\<close>

definition gdox_optical_restore_no_medium :: "'t transport_ops \<Rightarrow> 't scsi_transport \<Rightarrow> bool" where
  "gdox_optical_restore_no_medium tops transport =
     (case gdox_scsi_transport_last_sense tops transport 32 of
        None \<Rightarrow> False
      | Some sense \<Rightarrow>
          let kind = (if sense = [] then 0 else sense ! 0 AND 0x7f)
          in if kind = 0x70 \<or> kind = 0x71
             then length sense \<ge> 13 \<and> sense ! 2 AND 0x0f = 0x02 \<and> sense ! 12 = 0x3a
             else if kind = 0x72 \<or> kind = 0x73
             then length sense \<ge> 3 \<and> sense ! 1 AND 0x0f = 0x02 \<and> sense ! 2 = 0x3a
             else False)"

text \<open>Last sector, block size, and whether they stand for a drive without a medium.\<close>

definition gdox_optical_restore_read_capacity ::
  "'t transport_ops \<Rightarrow> u32 \<Rightarrow> u32 \<Rightarrow> ('t scsi_transport, u32 \<times> u32 \<times> bool) act" where
  "gdox_optical_restore_read_capacity tops timeout_ms stock_last_lba =
     seq (attempt (gdox_mmc_read_capacity_10 tops timeout_ms)) (\<lambda>capacity.
     case capacity of
       Inl e \<Rightarrow>
         seq (gets (gdox_optical_restore_no_medium tops)) (\<lambda>no_medium.
           if no_medium then ret (stock_last_lba, GDOX_LOGICAL_SECTOR_BYTES, True) else raise e)
     | Inr (last_lba, block_size) \<Rightarrow>
         if block_size \<noteq> GDOX_LOGICAL_SECTOR_BYTES
         then raise (err ERROR_INVALID_SOURCE ''refusing optical restoration with an unknown logical block size'')
         else ret (last_lba, block_size, False))"

definition opt_ladder_aborted :: "bool \<Rightarrow> (('t, 'x) optical_context_scheme, unit) act" where
  "opt_ladder_aborted checked c =
     (if \<not> checked then (Inr (), c)
      else (let c = (case oc_aborts c of [] \<Rightarrow> c
                     | a # rest \<Rightarrow> c\<lparr>oc_aborts := rest, oc_aborted := (oc_aborted c \<or> a)\<rparr>)
            in if oc_aborted c then (fail ERROR_CANCELLED ''optical session was cancelled'', c) else (Inr (), c)))"

definition opt_monotonic_ms :: "(('t, 'x) optical_context_scheme, u64) act" where
  "opt_monotonic_ms c =
     (case oc_elapsed c of
        [] \<Rightarrow> (Inr (oc_now c), c)
      | ms # rest \<Rightarrow>
          (let now = u64_add (oc_now c) ms in (Inr now, c\<lparr>oc_now := now, oc_elapsed := rest\<rparr>)))"

definition opt_locked ::
  "string \<Rightarrow> (('t, 'x) optical_context_scheme, 'a) act \<Rightarrow> (('t, 'x) optical_context_scheme, 'a) act" where
  "opt_locked m body c =
     (case oc_mutex c of
        [] \<Rightarrow> body c
      | a # rest \<Rightarrow>
          if a then body (c\<lparr>oc_mutex := rest\<rparr>) else (fail ERROR_INTERNAL m, c\<lparr>oc_mutex := rest\<rparr>))"

definition opt_with_media ::
  "('t scsi_transport \<times> gdox_mmc_media_tracker \<Rightarrow> 'a \<times> 't scsi_transport \<times> gdox_mmc_media_tracker)
   \<Rightarrow> ('t, 'x) optical_context_scheme \<Rightarrow> 'a \<times> ('t, 'x) optical_context_scheme" where
  "opt_with_media f c =
     (case f (oc_transport c, oc_media c) of
        (x, transport, tracker) \<Rightarrow> (x, c\<lparr>oc_transport := transport, oc_media := tracker\<rparr>))"

text \<open>
  Restoring runs every write whatever the others answer; the error of the first one that failed is
  kept.
\<close>

fun opt_first_error :: "('s, unit) act list \<Rightarrow> ('s, gdox_error option) act" where
  "opt_first_error [] = ret None"
| "opt_first_error (m # rest) =
     seq (attempt m) (\<lambda>result.
     seq (opt_first_error rest) (\<lambda>later.
       ret (case result of Inl e \<Rightarrow> Some e | Inr _ \<Rightarrow> later)))"

section \<open>Restoring\<close>

fun opt_restore_retries ::
  "('t, 'x) optical_context_scheme optical_driver \<Rightarrow> 't transport_ops \<Rightarrow> nat \<Rightarrow> gdox_error
   \<Rightarrow> (('t, 'x) optical_context_scheme, unit) act" where
  "opt_restore_retries drv tops 0 last_error = raise last_error"
| "opt_restore_retries drv tops (Suc k) last_error =
     seq (attempt (opt_on_transport (gdox_scsi_transport_reset tops))) (\<lambda>_.
     seq (attempt (dr_guarded_restore drv)) (\<lambda>result.
     case result of Inr _ \<Rightarrow> ret () | Inl e \<Rightarrow> opt_restore_retries drv tops k e))"

definition opt_restore_after_streaming ::
  "('t, 'x) optical_context_scheme optical_driver \<Rightarrow> 't transport_ops
   \<Rightarrow> (('t, 'x) optical_context_scheme, unit) act" where
  "opt_restore_after_streaming drv tops =
     seq (attempt (dr_guarded_restore drv)) (\<lambda>result.
     case result of Inr _ \<Rightarrow> ret () | Inl e \<Rightarrow> opt_restore_retries drv tops 2 e)"

text \<open>A restoration that lets the source stop owing one.\<close>

definition opt_settle ::
  "(('t, 'x) optical_context_scheme, unit) act \<Rightarrow> (('t, 'x) optical_context_scheme, unit) act" where
  "opt_settle restoring =
     seq (gets oc_active) (\<lambda>active.
     if active then seq restoring (\<lambda>_. modify (\<lambda>c. c\<lparr>oc_active := False\<rparr>)) else ret ())"

definition opt_confirmed_absent :: "'t transport_ops \<Rightarrow> (('t, 'x) optical_context_scheme, bool) act" where
  "opt_confirmed_absent tops =
     seq (attempt (opt_on_transport (gdox_scsi_transport_device_present tops))) (\<lambda>present.
       ret (present = Inr False))"

definition opt_restore_for_close ::
  "('t, 'x) optical_context_scheme optical_driver \<Rightarrow> 't transport_ops
   \<Rightarrow> (('t, 'x) optical_context_scheme, unit) act" where
  "opt_restore_for_close drv tops =
     (if \<not> dr_accepts_absence drv then opt_restore_after_streaming drv tops
      else seq (opt_confirmed_absent tops) (\<lambda>absent.
           if absent then ret ()
           else seq (attempt (opt_restore_after_streaming drv tops)) (\<lambda>result.
                case result of
                  Inr _ \<Rightarrow> ret ()
                | Inl e \<Rightarrow>
                    seq (opt_confirmed_absent tops) (\<lambda>absent. if absent then ret () else raise e))))"

definition opt_prepare_close ::
  "('t, 'x) optical_context_scheme optical_driver \<Rightarrow> 't transport_ops
   \<Rightarrow> (('t, 'x) optical_context_scheme, unit) act" where
  "opt_prepare_close drv tops =
     seq (opt_locked (''could not lock '' @ dr_name drv @ '' transport during close'')
            (opt_settle (opt_restore_for_close drv tops))) (\<lambda>_.
       opt_on_transport (gdox_scsi_transport_prepare_close tops))"

text \<open>The context is freed whatever the transport answers; a handle still open is then lost.\<close>

definition opt_close :: "'t transport_ops \<Rightarrow> ('t, 'x) optical_context_scheme \<Rightarrow> unit res \<times> bool" where
  "opt_close tops c =
     (case gdox_scsi_transport_close tops (oc_transport c) of
        (r, transport) \<Rightarrow> (r, gdox_scsi_transport_is_valid transport))"

section \<open>Recovering\<close>

definition opt_media_unchanged ::
  "'t transport_ops \<Rightarrow> u64 \<Rightarrow> (('t, 'x) optical_context_scheme, unit) act" where
  "opt_media_unchanged tops expected_generation c =
     (case opt_with_media (gdox_mmc_media_tracker_capture_transport_sense tops opt_DEFAULT_TIMEOUT_MS) c of
        (_, c) \<Rightarrow>
          (case opt_with_media (gdox_mmc_poll_media_event tops opt_DEFAULT_TIMEOUT_MS) c of
             (_, c) \<Rightarrow>
               if \<not> gdox_mmc_media_tracker_transitioned (oc_media c) expected_generation then (Inr (), c)
               else (fail ERROR_NOT_FOUND
                       (if mt_pending_event (oc_media c) = MEDIA_EVENT_EJECT_REQUEST
                        then ''physical eject requested''
                        else ''physical media changed during optical read''), c)))"

fun opt_await_ready ::
  "('t, 'x) optical_context_scheme optical_driver \<Rightarrow> 't transport_ops \<Rightarrow> u64 \<Rightarrow> nat \<Rightarrow> gdox_error
   \<Rightarrow> (('t, 'x) optical_context_scheme, unit) act" where
  "opt_await_ready drv tops expected 0 last_error = raise last_error"
| "opt_await_ready drv tops expected (Suc k) last_error =
     seq (opt_ladder_aborted True) (\<lambda>_.
     seq (attempt (opt_on_transport (gdox_mmc_test_unit_ready tops opt_DEFAULT_TIMEOUT_MS))) (\<lambda>result.
     seq (opt_media_unchanged tops expected) (\<lambda>_.
     case result of
       Inr _ \<Rightarrow> dr_ensure_live drv
     | Inl e \<Rightarrow> if code e = ERROR_NOT_FOUND then raise e else opt_await_ready drv tops expected k e)))"

definition start_unit_cdb :: "byte list" where
  "start_unit_cdb = [0x1b, 0, 0, 0, 0x03, 0]"

definition opt_recover ::
  "('t, 'x) optical_context_scheme optical_driver \<Rightarrow> 't transport_ops \<Rightarrow> u64
   \<Rightarrow> (('t, 'x) optical_context_scheme, unit) act" where
  "opt_recover drv tops expected =
     seq (opt_ladder_aborted True) (\<lambda>_.
     seq (opt_media_unchanged tops expected) (\<lambda>_.
     seq (attempt (opt_on_transport (gdox_scsi_transport_reset tops))) (\<lambda>_.
     seq (opt_media_unchanged tops expected) (\<lambda>_.
     seq (if dr_loads drv
          then seq (attempt (opt_on_transport (gdox_scsi_command_none tops ''START STOP UNIT (load/start)''
                      start_unit_cdb opt_DEFAULT_TIMEOUT_MS))) (\<lambda>_.
               opt_media_unchanged tops expected)
          else ret ()) (\<lambda>_.
       opt_await_ready drv tops expected opt_READY_ATTEMPTS ad_no_error)))))"

section \<open>Reading\<close>

text \<open>\<open>retries\<close> is the number of attempts left after this one.\<close>

fun opt_read_attempts ::
  "('t, 'x) optical_context_scheme optical_driver \<Rightarrow> 't transport_ops \<Rightarrow> u64 \<Rightarrow> u64 \<Rightarrow> u32 \<Rightarrow> u32 \<Rightarrow> nat
   \<Rightarrow> (('t, 'x) optical_context_scheme, byte list) act" where
  "opt_read_attempts drv tops expected deadline lba blocks retries =
     seq (opt_ladder_aborted True) (\<lambda>_.
     seq (attempt (opt_on_transport (gdox_mmc_read_10 tops lba blocks opt_MAX_READ_BLOCKS GDOX_LOGICAL_SECTOR_BYTES
            (blocks * GDOX_LOGICAL_SECTOR_BYTES) opt_READ_TIMEOUT_MS))) (\<lambda>result.
     case result of
       Inr data \<Rightarrow>
         seq (modify (\<lambda>c. c\<lparr>oc_read_commands := u64_add (oc_read_commands c) 1,
                            oc_read_sectors := u64_add (oc_read_sectors c) blocks,
                            oc_read_bytes := u64_add (oc_read_bytes c) (u64_mul blocks GDOX_LOGICAL_SECTOR_BYTES),
                            oc_last_read_lba := u64_sub (u64_add lba blocks) 1\<rparr>)) (\<lambda>_. ret data)
     | Inl e \<Rightarrow>
         if code e = ERROR_NOT_FOUND \<or> code e = ERROR_CANCELLED then raise e
         else seq opt_monotonic_ms (\<lambda>now.
              if now \<ge> deadline then raise e
              else (case retries of
                      0 \<Rightarrow> raise e
                    | Suc k \<Rightarrow>
                        seq (attempt (opt_recover drv tops expected)) (\<lambda>recovered.
                        case recovered of
                          Inl e \<Rightarrow> if code e = ERROR_NOT_FOUND \<or> code e = ERROR_CANCELLED then raise e
                                   else opt_read_attempts drv tops expected deadline lba blocks k
                        | Inr _ \<Rightarrow> opt_read_attempts drv tops expected deadline lba blocks k)))))"

declare opt_read_attempts.simps [simp del]

definition opt_read_range ::
  "('t, 'x) optical_context_scheme optical_driver \<Rightarrow> 't transport_ops \<Rightarrow> u64 \<Rightarrow> u32 \<Rightarrow> u32
   \<Rightarrow> (('t, 'x) optical_context_scheme, byte list) act" where
  "opt_read_range drv tops deadline lba blocks c =
     opt_read_attempts drv tops (mt_generation (oc_media c)) deadline lba blocks (oc_retries c) c"

definition opt_sector_error :: "gdox_error \<Rightarrow> u32 \<Rightarrow> gdox_error" where
  "opt_sector_error cause lba =
     err (code cause) (''could not read Xbox disc sector '' @ decimal lba @ '': '' @ take 280 (message cause))"

fun opt_read_singles ::
  "('t, 'x) optical_context_scheme optical_driver \<Rightarrow> 't transport_ops \<Rightarrow> u64 \<Rightarrow> u32 \<Rightarrow> u32
   \<Rightarrow> (('t, 'x) optical_context_scheme, byte list) act" where
  "opt_read_singles drv tops deadline lba 0 = ret []"
| "opt_read_singles drv tops deadline lba (Suc k) =
     seq (attempt (opt_read_range drv tops deadline lba 1)) (\<lambda>result.
     case result of
       Inl e \<Rightarrow> raise (opt_sector_error e lba)
     | Inr data \<Rightarrow>
         seq (opt_read_singles drv tops deadline (u32_cast (lba + 1)) k) (\<lambda>rest. ret (data @ rest)))"

definition opt_read_chunk ::
  "('t, 'x) optical_context_scheme optical_driver \<Rightarrow> 't transport_ops \<Rightarrow> u64 \<Rightarrow> u32 \<Rightarrow> u32
   \<Rightarrow> (('t, 'x) optical_context_scheme, byte list) act" where
  "opt_read_chunk drv tops deadline lba blocks =
     seq (attempt (opt_read_range drv tops deadline lba blocks)) (\<lambda>result.
     case result of
       Inr data \<Rightarrow> ret data
     | Inl e \<Rightarrow>
         if blocks = 1 \<or> code e = ERROR_NOT_FOUND \<or> code e = ERROR_CANCELLED
         then raise (opt_sector_error e lba)
         else opt_read_singles drv tops deadline lba blocks)"

function opt_read_chunks ::
  "('t, 'x) optical_context_scheme optical_driver \<Rightarrow> 't transport_ops \<Rightarrow> u64 \<Rightarrow> u32 \<Rightarrow> u32
   \<Rightarrow> (('t, 'x) optical_context_scheme, byte list) act" where
  "opt_read_chunks drv tops deadline lba remaining =
     (if remaining = 0 then ret []
      else (let chunk = (if remaining < opt_MAX_READ_BLOCKS then remaining else opt_MAX_READ_BLOCKS)
            in seq (opt_read_chunk drv tops deadline lba chunk) (\<lambda>data.
               seq (opt_read_chunks drv tops deadline (u32_cast (lba + chunk)) (remaining - chunk)) (\<lambda>rest.
                 ret (data @ rest)))))"
  by pat_completeness auto
termination
  by (relation "measure (\<lambda>(drv, tops, deadline, lba, remaining). remaining)") (auto simp: opt_MAX_READ_BLOCKS_def)

declare opt_read_chunks.simps [simp del]

definition opt_read ::
  "('t, 'x) optical_context_scheme optical_driver \<Rightarrow> 't transport_ops \<Rightarrow> u64 \<Rightarrow> u32
   \<Rightarrow> (('t, 'x) optical_context_scheme, byte list) act" where
  "opt_read drv tops lba blocks =
     opt_locked (''could not lock '' @ dr_name drv @ '' optical transport'')
       (seq opt_monotonic_ms (\<lambda>now.
          opt_read_chunks drv tops (u64_add now opt_RECOVERY_BUDGET_MS) (u32_cast lba) blocks))"

section \<open>Queries\<close>

definition opt_observe_media ::
  "'t transport_ops \<Rightarrow> ('t, 'x) optical_context_scheme \<Rightarrow> media_observation \<times> ('t, 'x) optical_context_scheme" where
  "opt_observe_media tops c =
     (case opt_locked ''''
             (\<lambda>c. case opt_with_media (gdox_mmc_observe_media tops opt_PRESENCE_TIMEOUT_MS) c of
                    (ob, c) \<Rightarrow> (Inr ob, c)) c of
        (Inl _, c) \<Rightarrow> (ad_unknown_observation 0, c)
      | (Inr ob, c) \<Rightarrow> (ob, c))"

definition opt_media_present ::
  "'t transport_ops \<Rightarrow> ('t, 'x) optical_context_scheme \<Rightarrow> bool \<times> ('t, 'x) optical_context_scheme" where
  "opt_media_present tops c =
     (case opt_observe_media tops c of (ob, c) \<Rightarrow> (readiness ob = MEDIA_READINESS_PRESENT, c))"

definition opt_evidence :: "('t, 'x) optical_context_scheme \<Rightarrow> bool \<times> disc_evidence" where
  "opt_evidence c =
     (pfi_present (oc_evidence c) \<or> dmi_present (oc_evidence c) \<or> security_sector_present (oc_evidence c),
      oc_evidence c)"

definition opt_physical_read_stats :: "('t, 'x) optical_context_scheme \<Rightarrow> bool \<times> physical_read_stats" where
  "opt_physical_read_stats c =
     (True, \<lparr>stat_commands = oc_read_commands c, stat_sectors = oc_read_sectors c,
             stat_bytes = oc_read_bytes c, stat_last_lba = oc_last_read_lba c\<rparr>)"

definition opt_abort :: "('t, 'x) optical_context_scheme \<Rightarrow> ('t, 'x) optical_context_scheme" where
  "opt_abort c = c\<lparr>oc_aborted := True\<rparr>"

definition opt_source_ops ::
  "('t, 'x) optical_context_scheme optical_driver \<Rightarrow> 't transport_ops
   \<Rightarrow> (('t, 'x) optical_context_scheme \<Rightarrow> u64) \<Rightarrow> ('t, 'x) optical_context_scheme source_ops" where
  "opt_source_ops drv tops sectors =
     \<lparr>op_sector_count = sectors,
      op_read = (\<lambda>c lba blocks bytes. opt_read drv tops lba blocks c),
      op_media_present = Some (opt_media_present tops),
      op_close = opt_close tops,
      op_evidence = Some opt_evidence,
      op_physical_read_stats = Some opt_physical_read_stats,
      op_abort = Some opt_abort,
      op_prepare_close = Some (opt_prepare_close drv tops),
      op_observe_media = Some (opt_observe_media tops)\<rparr>"

section \<open>Opening\<close>

text \<open>
  \<open>opener k\<close> is the answer of the \<open>k\<close>-th call of the opener and the handle it leaves. The result is
  the transport handle afterwards, beside the error.
\<close>

fun opt_open_inquired ::
  "'t transport_ops \<Rightarrow> (nat \<Rightarrow> unit res \<times> 't scsi_transport) \<Rightarrow> nat \<Rightarrow> nat
   \<Rightarrow> gdox_mmc_identity res \<times> 't scsi_transport" where
  "opt_open_inquired tops opener k 0 = (Inl ad_no_error, None)"
| "opt_open_inquired tops opener k (Suc attempts) =
     (case opener k of
        (Inl e, transport) \<Rightarrow> (Inl e, transport)
      | (Inr _, transport) \<Rightarrow>
          (case gdox_mmc_inquiry tops opt_DEFAULT_TIMEOUT_MS transport of
             (Inr identity, transport) \<Rightarrow> (Inr identity, transport)
           | (Inl operation_error, transport) \<Rightarrow>
               (case gdox_scsi_transport_close tops transport of
                  (Inl close_error, transport) \<Rightarrow> (Inl close_error, transport)
                | (Inr _, transport) \<Rightarrow>
                    if code operation_error \<noteq> ERROR_TRANSPORT \<or> attempts = 0
                    then (Inl operation_error, transport)
                    else opt_open_inquired tops opener (k + 1) attempts)))"

definition opt_open_validated ::
  "'t transport_ops \<Rightarrow> (gdox_mmc_identity \<Rightarrow> bool) \<Rightarrow> string \<Rightarrow> (nat \<Rightarrow> unit res \<times> 't scsi_transport)
   \<Rightarrow> unit res \<times> 't scsi_transport" where
  "opt_open_validated tops validated refusal opener =
     (case opt_open_inquired tops opener 0 opt_INQUIRY_ATTEMPTS of
        (Inl e, transport) \<Rightarrow> (Inl e, transport)
      | (Inr identity, transport) \<Rightarrow>
          if validated identity then (Inr (), transport)
          else (case gdox_scsi_transport_close tops transport of
                  (Inl close_error, transport) \<Rightarrow> (Inl close_error, transport)
                | (Inr _, transport) \<Rightarrow> (fail ERROR_UNSUPPORTED refusal, transport)))"

fun opt_wait_ready :: "'t transport_ops \<Rightarrow> nat \<Rightarrow> gdox_error \<Rightarrow> (('t, 'x) optical_context_scheme, unit) act" where
  "opt_wait_ready tops 0 last_error = raise last_error"
| "opt_wait_ready tops (Suc k) last_error =
     seq (attempt (opt_on_transport (gdox_mmc_test_unit_ready tops opt_DEFAULT_TIMEOUT_MS))) (\<lambda>result.
     case result of Inr _ \<Rightarrow> ret () | Inl e \<Rightarrow> opt_wait_ready tops k e)"

definition opt_wait_for_ready :: "'t transport_ops \<Rightarrow> u32 \<Rightarrow> (('t, 'x) optical_context_scheme, unit) act" where
  "opt_wait_for_ready tops ready_timeout_ms = opt_wait_ready tops (u32_cast (ready_timeout_ms div 500 + 1)) ad_no_error"

text \<open>An operation that failed with the error object not set gets the error the caller chooses.\<close>

definition opt_or_error :: "gdox_error \<Rightarrow> gdox_error \<Rightarrow> gdox_error" where
  "opt_or_error e chosen = (if gdox_error_is_set (Some e) then e else chosen)"

definition opt_note_dmi :: "byte list res \<Rightarrow> disc_evidence \<Rightarrow> disc_evidence" where
  "opt_note_dmi result evidence =
     (let evidence = (case result of
            Inl _ \<Rightarrow> evidence\<lparr>evidence_note :=
              ''DMI evidence was unavailable; full-disc output cannot claim complete evidence.''\<rparr>
          | Inr data \<Rightarrow>
              if length data = 2052 then evidence\<lparr>dmi_present := True, dmi := drop 4 data\<rparr>
              else evidence\<lparr>evidence_note :=
                ''DMI evidence was unavailable; full-disc output cannot claim complete evidence.''\<rparr>)
      in if evidence_note evidence = []
         then evidence\<lparr>evidence_note := ''This drive does not expose decrypted security-sector evidence.''\<rparr>
         else evidence)"

text \<open>
  The physical format and the manufacturing information of the disc, each 2,048 bytes behind a
  4-byte header. Only the first is required, with the layout the driver knows.
\<close>

definition opt_collect_evidence ::
  "'t transport_ops \<Rightarrow> (('t, 'x) optical_context_scheme \<Rightarrow> byte list) \<Rightarrow> string
   \<Rightarrow> (('t, 'x) optical_context_scheme, unit) act" where
  "opt_collect_evidence tops expected mismatch =
     seq (attempt (opt_on_transport (gdox_mmc_read_dvd_structure tops 0 2052 10000))) (\<lambda>result.
     seq (gets expected) (\<lambda>prefix.
     case result of
       Inl e \<Rightarrow> raise (opt_or_error e (err ERROR_INVALID_SOURCE mismatch))
     | Inr data \<Rightarrow>
         if length data \<noteq> 2052 \<or> take 3 (drop 17 data) \<noteq> prefix then raise (err ERROR_INVALID_SOURCE mismatch)
         else seq (modify (\<lambda>c. c\<lparr>oc_evidence := (oc_evidence c)\<lparr>pfi_present := True, pfi := drop 4 data\<rparr>\<rparr>)) (\<lambda>_.
              seq (attempt (opt_on_transport (gdox_mmc_read_dvd_structure tops 4 2052 10000))) (\<lambda>result.
                modify (\<lambda>c. c\<lparr>oc_evidence := opt_note_dmi result (oc_evidence c)\<rparr>)))))"

text \<open>A step of the opening that puts the drive back when it fails.\<close>

definition opt_or_restore ::
  "('t, 'x) optical_context_scheme optical_driver \<Rightarrow> 't transport_ops \<Rightarrow> gdox_error \<Rightarrow> gdox_error
   \<Rightarrow> (('t, 'x) optical_context_scheme, unit) act" where
  "opt_or_restore drv tops operation_error restoration_failed =
     seq (attempt (opt_restore_after_streaming drv tops)) (\<lambda>restored.
     case restored of
       Inl _ \<Rightarrow> raise restoration_failed
     | Inr _ \<Rightarrow> seq (modify (\<lambda>c. c\<lparr>oc_active := False\<rparr>)) (\<lambda>_. raise operation_error))"

definition opt_restoration_failed :: "('t, 'x) optical_context_scheme optical_driver \<Rightarrow> string \<Rightarrow> gdox_error" where
  "opt_restoration_failed drv what =
     err ERROR_TRANSPORT (dr_name drv @ what @ '' failed and volatile-state restoration also failed; power-cycle the drive'')"

definition opt_apply_with_rollback ::
  "('t, 'x) optical_context_scheme optical_driver \<Rightarrow> 't transport_ops \<Rightarrow> (('t, 'x) optical_context_scheme, unit) act
   \<Rightarrow> (('t, 'x) optical_context_scheme, unit) act" where
  "opt_apply_with_rollback drv tops apply_live =
     seq (modify (\<lambda>c. c\<lparr>oc_active := True\<rparr>)) (\<lambda>_.
     seq (attempt apply_live) (\<lambda>applied.
     case applied of
       Inr _ \<Rightarrow> ret ()
     | Inl e \<Rightarrow> opt_or_restore drv tops e (opt_restoration_failed drv '' initialization'')))"

definition opt_validate_descriptor ::
  "('t, 'x) optical_context_scheme optical_driver \<Rightarrow> 't transport_ops \<Rightarrow> (('t, 'x) optical_context_scheme \<Rightarrow> u32)
   \<Rightarrow> (('t, 'x) optical_context_scheme, unit) act" where
  "opt_validate_descriptor drv tops descriptor_lba =
     seq (gets descriptor_lba) (\<lambda>lba.
     seq (attempt (opt_on_transport (gdox_mmc_read_10 tops lba 1 opt_MAX_READ_BLOCKS GDOX_LOGICAL_SECTOR_BYTES
            GDOX_LOGICAL_SECTOR_BYTES opt_READ_TIMEOUT_MS))) (\<lambda>descriptor.
     let missing = err ERROR_NOT_FOUND
           (''live '' @ dr_name drv @ '' view did not contain a complete XDVDFS descriptor'');
         failed = opt_restoration_failed drv '' disc validation''
     in case descriptor of
          Inl e \<Rightarrow> opt_or_restore drv tops (opt_or_error e missing) failed
        | Inr descriptor \<Rightarrow>
            if take 20 descriptor = xdvdfs_magic \<and> drop (length descriptor - 20) descriptor = xdvdfs_magic
            then ret ()
            else opt_or_restore drv tops missing failed))"

definition opt_begin_session :: "'t transport_ops \<Rightarrow> ('t, 'x) optical_context_scheme \<Rightarrow> ('t, 'x) optical_context_scheme" where
  "opt_begin_session tops c =
     snd (opt_with_media (\<lambda>st. ((), gdox_mmc_media_tracker_begin_session tops opt_DEFAULT_TIMEOUT_MS st)) c)"

text \<open>
  A failed opening: the error, the source handle the caller gets, and the context as it was released
  when the caller gets none.
\<close>

definition opt_cleanup_failed_open ::
  "('t, 'x) optical_context_scheme optical_driver \<Rightarrow> 't transport_ops \<Rightarrow> gdox_error
   \<Rightarrow> ('t, 'x) optical_context_scheme
   \<Rightarrow> gdox_error \<times> ('t, 'x) optical_context_scheme sector_source \<times> ('t, 'x) optical_context_scheme option" where
  "opt_cleanup_failed_open drv tops operation_error c =
     (case opt_settle (opt_restore_after_streaming drv tops) c of
        (Inl _, c) \<Rightarrow> (opt_restoration_failed drv '' initialization'', Some c, None)
      | (Inr _, c) \<Rightarrow>
          (case gdox_scsi_transport_close tops (oc_transport c) of
             (Inl close_error, transport) \<Rightarrow> (close_error, Some (c\<lparr>oc_transport := transport\<rparr>), None)
           | (Inr _, _) \<Rightarrow> (operation_error, None, Some c)))"

end
