(* ===== verification/AsusNr09.thy ===== *)
theory AsusNr09
  imports OpticalReader
begin

text \<open>
  The reader of the ASUS NR09 drive (src/src/platform/asus_nr09_source.c). Ten words of the drive's
  volatile memory describe the disc; eight of them are changed so that the drive shows the whole
  disc instead of its video partition. The driver knows the words of two kinds of disc, recognises
  the one in the drive from a snapshot of the memory, also when an earlier session left the memory
  half changed, and refuses to write to a memory it does not know.
\<close>

unbundle bit_operations_syntax

datatype asus_media_kind = ASUS_MEDIA_UNKNOWN | ASUS_MEDIA_XGD1 | ASUS_MEDIA_XGD2

definition GDOX_XGD2_TOTAL_SECTORS :: u64 where "GDOX_XGD2_TOTAL_SECTORS = 0x3a6104"

record asus_field =
  af_address :: u32
  af_subcommand :: byte
  af_stock :: "byte list"
  af_live :: "byte list"

text \<open>
  The fields in the order of \<open>gdox_asus_field_id\<close>: the end of the disc in DRAM, the servo's copy of
  it, the end of the zone and its complement, the end of the layer and its mirror, the boundary of
  reads and the reported capacity.
\<close>

record asus_profile =
  ap_kind :: asus_media_kind
  ap_descriptor_lba :: u32
  ap_stock_last_lba :: u32
  ap_live_last_lba :: u32
  ap_live_sectors :: u64
  ap_stock_pfi_prefix :: "byte list"
  ap_start_psn :: "byte list"
  ap_complemented_start :: "byte list"
  ap_fields :: "asus_field list"

definition asus_field_of :: "u32 \<Rightarrow> byte \<Rightarrow> byte list \<Rightarrow> byte list \<Rightarrow> asus_field" where
  "asus_field_of address subcommand stock live =
     \<lparr>af_address = address, af_subcommand = subcommand, af_stock = stock, af_live = live\<rparr>"

definition xgd1_profile :: asus_profile where
  "xgd1_profile =
     \<lparr>ap_kind = ASUS_MEDIA_XGD1, ap_descriptor_lba = 0x30620, ap_stock_last_lba = 0x1b4f,
      ap_live_last_lba = 0x3a4d4f, ap_live_sectors = GDOX_XGD1_TOTAL_SECTORS,
      ap_stock_pfi_prefix = [0x03, 0x1a, 0xaf], ap_start_psn = [0, 0, 0x03, 0],
      ap_complemented_start = [0x10, 0x1a, 0x03, 0],
      ap_fields =
        [asus_field_of 0x888da044 0x02 [0xaf, 0x1a, 0x03, 0] [0xaf, 0x33, 0x20, 0],
         asus_field_of 0x1750 0x01 [0xaf, 0x1a, 0x03, 0] [0xaf, 0x33, 0x20, 0],
         asus_field_of 0x18f4 0x01 [0xb0, 0x1a, 0x03, 0] [0xb0, 0x33, 0x20, 0],
         asus_field_of 0x18f8 0x01 [0x50, 0xe5, 0xfc, 0] [0x50, 0xcc, 0xdf, 0],
         asus_field_of 0x1900 0x01 [0xaf, 0x1a, 0x03, 0] [0xaf, 0x33, 0x20, 0],
         asus_field_of 0x1908 0x01 [0xaf, 0x1a, 0x03, 0] [0xaf, 0x33, 0x20, 0],
         asus_field_of 0x19cc 0x01 [0x50, 0x1b, 0x03, 0] [0x50, 0x4d, 0x3d, 0],
         asus_field_of 0x1600 0x01 [0xaf, 0x1a, 0x03, 0] [0xaf, 0x33, 0x20, 0]]\<rparr>"

definition xgd2_profile :: asus_profile where
  "xgd2_profile =
     \<lparr>ap_kind = ASUS_MEDIA_XGD2, ap_descriptor_lba = 0x1fb40, ap_stock_last_lba = 0x0aa3,
      ap_live_last_lba = 0x3a6103, ap_live_sectors = GDOX_XGD2_TOTAL_SECTORS,
      ap_stock_pfi_prefix = [0x03, 0x08, 0x6f], ap_start_psn = [0, 0, 0x03, 0],
      ap_complemented_start = [0x3c, 0x06, 0x03, 0],
      ap_fields =
        [asus_field_of 0x888da044 0x02 [0x6f, 0x08, 0x03, 0] [0x9f, 0x33, 0x20, 0],
         asus_field_of 0x1750 0x01 [0x6f, 0x08, 0x03, 0] [0x9f, 0x33, 0x20, 0],
         asus_field_of 0x18f4 0x01 [0x70, 0x08, 0x03, 0] [0xa0, 0x33, 0x20, 0],
         asus_field_of 0x18f8 0x01 [0x90, 0xf7, 0xfc, 0] [0x60, 0xcc, 0xdf, 0],
         asus_field_of 0x1900 0x01 [0x6f, 0x08, 0x03, 0] [0x9f, 0x33, 0x20, 0],
         asus_field_of 0x1908 0x01 [0x6f, 0x08, 0x03, 0] [0x9f, 0x33, 0x20, 0],
         asus_field_of 0x19cc 0x01 [0xa4, 0x0a, 0x03, 0] [0x04, 0x61, 0x3d, 0],
         asus_field_of 0x1600 0x01 [0x6f, 0x08, 0x03, 0] [0x9f, 0x33, 0x20, 0]]\<rparr>"

definition media_profiles :: "asus_profile list" where
  "media_profiles = [xgd1_profile, xgd2_profile]"

record asus_state =
  at_values :: "byte list list"
  at_start_psn :: "byte list"
  at_complemented_start :: "byte list"
  at_last_lba :: u32
  at_block_size :: u32

text \<open>The profile is NULL until one is selected or given.\<close>

record 't asus_context = "'t optical_context" +
  as_profile :: "asus_profile option"

abbreviation as_layout :: "('t, 'x) asus_context_scheme \<Rightarrow> asus_profile" where
  "as_layout c \<equiv> the (as_profile c)"

definition asus_vendor :: "byte list" where "asus_vendor = map of_char ''ASUS''"
definition asus_model :: "byte list" where "asus_model = map of_char ''SDRW-08D1S-U''"
definition asus_revision :: "byte list" where "asus_revision = map of_char ''A202''"

definition asus_identity_is_validated :: "gdox_mmc_identity \<Rightarrow> bool" where
  "asus_identity_is_validated identity =
     (ad_strcmp (id_vendor identity) asus_vendor \<and> ad_strcmp (id_model identity) asus_model
      \<and> ad_strcmp (id_revision identity) asus_revision)"

section \<open>Volatile memory\<close>

definition asus_memory_cdb :: "byte \<Rightarrow> u32 \<Rightarrow> byte \<Rightarrow> byte list" where
  "asus_memory_cdb direction address subcommand =
     (put_be_u16 (put_be_u32 ([0xf1, direction] @ replicate 10 0) 2 address) 7 4)[9 := subcommand]"

definition asus_memory_read ::
  "'t transport_ops \<Rightarrow> asus_field \<Rightarrow> (('t, 'x) optical_context_scheme, byte list) act" where
  "asus_memory_read tops field =
     seq (opt_on_transport (gdox_scsi_command_in tops ''ASUS NR09 volatile memory read''
            (asus_memory_cdb 0 (af_address field) (af_subcommand field)) 4 opt_DEFAULT_TIMEOUT_MS)) (\<lambda>output.
       if length output \<noteq> 4
       then raise (err ERROR_TRANSPORT ''ASUS NR09 volatile-memory read returned a short transfer'')
       else ret output)"

definition asus_memory_write ::
  "'t transport_ops \<Rightarrow> asus_field \<Rightarrow> byte list \<Rightarrow> (('t, 'x) optical_context_scheme, unit) act" where
  "asus_memory_write tops field input =
     seq (opt_on_transport (gdox_scsi_command_out tops ''ASUS NR09 volatile memory write''
            (asus_memory_cdb 1 (af_address field) (af_subcommand field)) input opt_DEFAULT_TIMEOUT_MS)) (\<lambda>transferred.
       if transferred \<noteq> 4
       then raise (err ERROR_TRANSPORT ''ASUS NR09 volatile-memory write returned a short transfer'')
       else ret ())"

definition asus_read_fixed_memory ::
  "'t transport_ops \<Rightarrow> u32 \<Rightarrow> (('t, 'x) optical_context_scheme, byte list) act" where
  "asus_read_fixed_memory tops address = asus_memory_read tops (asus_field_of address 0x01 [0, 0, 0, 0] [0, 0, 0, 0])"

fun asus_read_fields ::
  "'t transport_ops \<Rightarrow> asus_field list \<Rightarrow> (('t, 'x) optical_context_scheme, byte list list) act" where
  "asus_read_fields tops [] = ret []"
| "asus_read_fields tops (field # rest) =
     seq (asus_memory_read tops field) (\<lambda>v.
     seq (asus_read_fields tops rest) (\<lambda>vs. ret (v # vs)))"

definition asus_START_PSN_ADDRESS :: u32 where "asus_START_PSN_ADDRESS = 0x18fc"
definition asus_COMPLEMENTED_START_ADDRESS :: u32 where "asus_COMPLEMENTED_START_ADDRESS = 0x1904"

definition asus_read_memory_state ::
  "'t transport_ops \<Rightarrow> asus_profile \<Rightarrow> bool \<Rightarrow> (('t, 'x) optical_context_scheme, asus_state) act" where
  "asus_read_memory_state tops layout checked =
     seq (opt_ladder_aborted checked) (\<lambda>_.
     seq (asus_read_fields tops (ap_fields layout)) (\<lambda>vs.
     seq (asus_read_fixed_memory tops asus_START_PSN_ADDRESS) (\<lambda>start_psn.
     seq (asus_read_fixed_memory tops asus_COMPLEMENTED_START_ADDRESS) (\<lambda>complemented_start.
       ret \<lparr>at_values = vs, at_start_psn = start_psn, at_complemented_start = complemented_start,
            at_last_lba = 0, at_block_size = 0\<rparr>))))"

definition asus_read_state ::
  "'t transport_ops \<Rightarrow> asus_profile \<Rightarrow> (('t, 'x) optical_context_scheme, asus_state) act" where
  "asus_read_state tops layout =
     seq (asus_read_memory_state tops layout True) (\<lambda>state.
     seq (opt_on_transport (gdox_mmc_read_capacity_10 tops 10000)) (\<lambda>(last_lba, block_size).
       ret (state\<lparr>at_last_lba := last_lba, at_block_size := block_size\<rparr>)))"

definition asus_read_restore_state ::
  "'t transport_ops \<Rightarrow> asus_profile \<Rightarrow> (('t, 'x) optical_context_scheme, asus_state) act" where
  "asus_read_restore_state tops layout =
     seq (asus_read_memory_state tops layout False) (\<lambda>state.
     seq (opt_on_transport (gdox_optical_restore_read_capacity tops 10000 (ap_stock_last_lba layout)))
       (\<lambda>(last_lba, block_size, no_medium).
          ret (state\<lparr>at_last_lba := last_lba, at_block_size := block_size\<rparr>)))"

definition asus_expected :: "asus_profile \<Rightarrow> bool \<Rightarrow> byte list list" where
  "asus_expected profile live = map (if live then af_live else af_stock) (ap_fields profile)"

definition asus_state_memory_matches :: "asus_profile \<Rightarrow> asus_state \<Rightarrow> bool \<Rightarrow> bool" where
  "asus_state_memory_matches profile state live =
     (list_all2 (=) (at_values state) (asus_expected profile live)
      \<and> at_start_psn state = ap_start_psn profile
      \<and> at_complemented_start state = ap_complemented_start profile)"

definition asus_state_matches :: "asus_profile \<Rightarrow> asus_state \<Rightarrow> bool \<Rightarrow> bool" where
  "asus_state_matches profile state live =
     (asus_state_memory_matches profile state live
      \<and> at_last_lba state = (if live then ap_live_last_lba profile else ap_stock_last_lba profile)
      \<and> at_block_size state = GDOX_LOGICAL_SECTOR_BYTES)"

definition asus_state_is_known_partial :: "asus_profile \<Rightarrow> asus_state \<Rightarrow> bool" where
  "asus_state_is_known_partial profile state =
     (list_all2 (\<lambda>v field. v = af_stock field \<or> v = af_live field) (at_values state) (ap_fields profile)
      \<and> at_start_psn state = ap_start_psn profile
      \<and> at_complemented_start state = ap_complemented_start profile
      \<and> (at_last_lba state = ap_stock_last_lba profile \<or> at_last_lba state = ap_live_last_lba profile)
      \<and> at_block_size state = GDOX_LOGICAL_SECTOR_BYTES)"

text \<open>The loop over the candidates: a second match is ambiguous.\<close>

fun asus_select_from :: "asus_state \<Rightarrow> asus_profile list \<Rightarrow> asus_profile option \<Rightarrow> asus_profile option" where
  "asus_select_from state [] selected = selected"
| "asus_select_from state (candidate # rest) selected =
     (if \<not> asus_state_is_known_partial candidate state then asus_select_from state rest selected
      else if selected \<noteq> None then None
      else asus_select_from state rest (Some candidate))"

definition asus_select_known_profile :: "asus_state \<Rightarrow> asus_profile option" where
  "asus_select_known_profile state = asus_select_from state media_profiles None"

section \<open>Changing and restoring the memory\<close>

definition asus_apply_live :: "'t transport_ops \<Rightarrow> ('t asus_context, unit) act" where
  "asus_apply_live tops =
     seq (gets as_layout) (\<lambda>profile.
     seq (each (\<lambda>field. asus_memory_write tops field (af_live field)) (ap_fields profile)) (\<lambda>_.
     seq (asus_read_state tops profile) (\<lambda>observed.
       if asus_state_matches profile observed True then ret ()
       else raise (err ERROR_TRANSPORT ''live ASUS NR09 volatile state did not verify''))))"

text \<open>The reported capacity first, then the others in their order.\<close>

definition asus_restore_order :: "nat list" where
  "asus_restore_order = [7, 0, 1, 2, 3, 4, 5, 6]"

definition asus_restore_stock :: "'t transport_ops \<Rightarrow> ('t asus_context, unit) act" where
  "asus_restore_stock tops =
     seq (gets as_layout) (\<lambda>profile.
     seq (opt_first_error (map (\<lambda>index. asus_memory_write tops (ap_fields profile ! index)
            (af_stock (ap_fields profile ! index))) asus_restore_order)) (\<lambda>first_error.
     seq (attempt (asus_read_restore_state tops profile)) (\<lambda>observed.
     let mismatch = err ERROR_TRANSPORT ''stock ASUS NR09 volatile state did not verify''
     in case observed of
          Inr state \<Rightarrow>
            if asus_state_matches profile state False then ret ()
            else raise (case first_error of Some e \<Rightarrow> e | None \<Rightarrow> mismatch)
        | Inl e \<Rightarrow> raise (case first_error of Some e \<Rightarrow> e | None \<Rightarrow> opt_or_error e mismatch))))"

definition asus_guarded_restore_stock :: "'t transport_ops \<Rightarrow> ('t asus_context, unit) act" where
  "asus_guarded_restore_stock tops =
     seq (gets as_layout) (\<lambda>profile.
     seq (asus_read_restore_state tops profile) (\<lambda>observed.
       if \<not> asus_state_is_known_partial profile observed
       then raise (err ERROR_UNSUPPORTED ''refusing ASUS restoration because retained media state is unknown'')
       else if asus_state_matches profile observed False then ret ()
       else asus_restore_stock tops))"

definition asus_ensure_live :: "'t transport_ops \<Rightarrow> ('t asus_context, unit) act" where
  "asus_ensure_live tops =
     seq (gets as_layout) (\<lambda>profile.
     seq (asus_read_state tops profile) (\<lambda>observed.
       if asus_state_matches profile observed True then ret ()
       else if \<not> asus_state_is_known_partial profile observed
       then raise (err ERROR_TRANSPORT ''refusing ASUS recovery because volatile memory has an unknown state'')
       else seq (if \<not> asus_state_matches profile observed False then asus_restore_stock tops else ret ()) (\<lambda>_.
              asus_apply_live tops)))"

definition asus_driver :: "'t transport_ops \<Rightarrow> 't asus_context optical_driver" where
  "asus_driver tops =
     \<lparr>dr_name = ''ASUS'', dr_guarded_restore = asus_guarded_restore_stock tops,
      dr_ensure_live = asus_ensure_live tops, dr_loads = False, dr_accepts_absence = True\<rparr>"

definition asus_select_and_normalize ::
  "'t transport_ops \<Rightarrow> asus_profile option \<Rightarrow> ('t asus_context, unit) act" where
  "asus_select_and_normalize tops required_profile =
     seq (asus_read_state tops xgd1_profile) (\<lambda>observed.
     case asus_select_known_profile observed of
       None \<Rightarrow> raise (err ERROR_UNSUPPORTED
         ''refusing ASUS session because no unique validated XGD profile matches volatile state'')
     | Some selected \<Rightarrow>
         if required_profile \<noteq> None \<and> Some selected \<noteq> required_profile
         then raise (err ERROR_INVALID_SOURCE
                ''ASUS volatile state belongs to a different validated XGD profile'')
         else seq (modify (\<lambda>c. c\<lparr>as_profile := Some selected\<rparr>)) (\<lambda>_.
              if asus_state_matches selected observed False then ret ()
              else seq (modify (\<lambda>c. c\<lparr>oc_active := True\<rparr>)) (\<lambda>_.
                   seq (attempt (opt_restore_after_streaming (asus_driver tops) tops)) (\<lambda>restored.
                   case restored of
                     Inl _ \<Rightarrow> raise (err ERROR_TRANSPORT
                       ''could not restore ASUS volatile state; power-cycle the drive'')
                   | Inr _ \<Rightarrow> modify (\<lambda>c. c\<lparr>oc_active := False\<rparr>)))))"

section \<open>The source\<close>

definition asus_sector_count :: "'t asus_context \<Rightarrow> u64" where
  "asus_sector_count c = ap_live_sectors (as_layout c)"

definition asus_source_ops :: "'t transport_ops \<Rightarrow> 't asus_context source_ops" where
  "asus_source_ops tops = opt_source_ops (asus_driver tops) tops asus_sector_count"

text \<open>What the host gives the opening, and the scripts of the new context.\<close>

record optical_host =
  oh_context_allocated :: bool
  oh_mutex_ready :: bool
  oh_locks :: "bool list"
  oh_aborts :: "bool list"
  oh_elapsed :: "u64 list"

definition new_asus :: "optical_host \<Rightarrow> asus_profile option \<Rightarrow> 't scsi_transport \<Rightarrow> 't asus_context" where
  "new_asus host profile transport =
     \<lparr>oc_transport = transport, oc_mutex = oh_locks host, oc_evidence = gdox_disc_evidence_clear,
      oc_media = fresh_tracker, oc_read_commands = 0, oc_read_sectors = 0, oc_read_bytes = 0,
      oc_last_read_lba = 0, oc_aborted = False, oc_aborts = oh_aborts host, oc_retries = 0,
      oc_active = False, oc_now = 0, oc_elapsed = oh_elapsed host, as_profile = profile\<rparr>"

definition asus_initialize ::
  "'t transport_ops \<Rightarrow> asus_profile option \<Rightarrow> u32 \<Rightarrow> ('t asus_context, unit) act" where
  "asus_initialize tops profile ready_timeout_ms =
     seq (opt_wait_for_ready tops ready_timeout_ms) (\<lambda>_.
     seq (asus_select_and_normalize tops profile) (\<lambda>_.
     seq (opt_collect_evidence tops (\<lambda>c. ap_stock_pfi_prefix (as_layout c))
            ''disc does not match the selected ASUS media profile'') (\<lambda>_.
     seq (opt_apply_with_rollback (asus_driver tops) tops (asus_apply_live tops)) (\<lambda>_.
       opt_validate_descriptor (asus_driver tops) tops (\<lambda>c. ap_descriptor_lba (as_layout c))))))"

text \<open>
  The result, the caller's source handle, and the context as a failed opening released it. A
  successful opening tells the kind of the disc.
\<close>

definition asus_source_open_profile ::
  "'t transport_ops \<Rightarrow> asus_profile option \<Rightarrow> (nat \<Rightarrow> unit res \<times> 't scsi_transport) \<Rightarrow> optical_host \<Rightarrow> nat \<Rightarrow> u32
   \<Rightarrow> 't asus_context sector_source
   \<Rightarrow> asus_media_kind res \<times> 't asus_context sector_source \<times> 't asus_context option" where
  "asus_source_open_profile tops profile opener host read_retries ready_timeout_ms source =
     (if gdox_source_is_valid source
      then (fail ERROR_INVALID_ARGUMENT ''an ASUS transport opener and empty source output are required'', source, None)
      else if \<not> oh_context_allocated host
      then (fail ERROR_INTERNAL ''could not allocate ASUS source'', source, None)
      else if \<not> oh_mutex_ready host
      then (fail ERROR_INTERNAL ''could not initialize ASUS source lock'', source, None)
      else (case opt_open_validated tops asus_identity_is_validated
                   ''USB device is not the validated ASUS SDRW-08D1S-U A202 mechanism'' opener of
              (Inl e, transport) \<Rightarrow>
                if gdox_scsi_transport_is_valid transport
                then (Inl e, Some (new_asus host profile transport), None) else (Inl e, None, None)
            | (Inr _, transport) \<Rightarrow>
                (case asus_initialize tops profile ready_timeout_ms (new_asus host profile transport) of
                   (Inl operation_error, c) \<Rightarrow>
                     (case opt_cleanup_failed_open (asus_driver tops) tops operation_error c of
                        (e, source, released) \<Rightarrow> (Inl e, source, released))
                 | (Inr _, c) \<Rightarrow>
                     (Inr (ap_kind (as_layout c)),
                      Some (opt_begin_session tops (c\<lparr>oc_retries := read_retries\<rparr>)), None))))"

definition gdox_asus_nr09_source_open ::
  "'t transport_ops \<Rightarrow> (nat \<Rightarrow> unit res \<times> 't scsi_transport) \<Rightarrow> optical_host \<Rightarrow> nat \<Rightarrow> u32
   \<Rightarrow> 't asus_context sector_source
   \<Rightarrow> asus_media_kind res \<times> 't asus_context sector_source \<times> 't asus_context option" where
  "gdox_asus_nr09_source_open tops = asus_source_open_profile tops (Some xgd1_profile)"

definition gdox_asus_nr09_detected_source_open ::
  "'t transport_ops \<Rightarrow> (nat \<Rightarrow> unit res \<times> 't scsi_transport) \<Rightarrow> optical_host \<Rightarrow> nat \<Rightarrow> u32
   \<Rightarrow> 't asus_context sector_source
   \<Rightarrow> asus_media_kind res \<times> 't asus_context sector_source \<times> 't asus_context option" where
  "gdox_asus_nr09_detected_source_open tops = asus_source_open_profile tops None"

datatype optical_media_profile =
  OPTICAL_MEDIA_UNKNOWN | OPTICAL_MEDIA_XGD1 | OPTICAL_MEDIA_XGD2 | OPTICAL_MEDIA_XGD3
| OPTICAL_MEDIA_GAMECUBE | OPTICAL_MEDIA_WII

definition GDOX_XGD2_GAME_PARTITION_LBA :: u64 where "GDOX_XGD2_GAME_PARTITION_LBA = 0x1fb20"

text \<open>The profile and the start of the game partition of the opened disc.\<close>

definition gdox_optical_open_asus_nr09_media ::
  "'t transport_ops \<Rightarrow> (nat \<Rightarrow> unit res \<times> 't scsi_transport) \<Rightarrow> optical_host \<Rightarrow> nat \<Rightarrow> u32
   \<Rightarrow> 't asus_context sector_source
   \<Rightarrow> (optical_media_profile \<times> u64) res \<times> 't asus_context sector_source" where
  "gdox_optical_open_asus_nr09_media tops opener host read_retries ready_timeout_ms source =
     (case gdox_asus_nr09_detected_source_open tops opener host read_retries ready_timeout_ms source of
        (Inl e, source, _) \<Rightarrow> (Inl e, source)
      | (Inr ASUS_MEDIA_XGD1, source, _) \<Rightarrow> (Inr (OPTICAL_MEDIA_XGD1, 0), source)
      | (Inr ASUS_MEDIA_XGD2, source, _) \<Rightarrow> (Inr (OPTICAL_MEDIA_XGD2, GDOX_XGD2_GAME_PARTITION_LBA), source)
      | (Inr ASUS_MEDIA_UNKNOWN, source, _) \<Rightarrow>
          (case gdox_source_close (asus_source_ops tops) source of
             (Inl close_error, _, source) \<Rightarrow> (Inl close_error, source)
           | (Inr _, _, source) \<Rightarrow>
               (fail ERROR_INTERNAL ''selected ASUS media profile has no optical mapping'', source)))"

end
