(* ===== verification/OpticalDrive.thy ===== *)
theory OpticalDrive
  imports OpticalReader
begin

text \<open>
  What a patched drive goes through, for any transport and any driver of the shared form. The
  commands of the shared code are listed (\<open>mmc_query\<close>); an invariant of the transport that they keep
  is kept by every query of the source, and one that the driver's writes keep as well is kept by its
  reads. The contract of a driver is \<open>patched_driver\<close>: after its restoration the drive needs none.
\<close>

section \<open>Commands and sessions\<close>

definition mmc_query :: "byte list \<Rightarrow> nat \<Rightarrow> bool" where
  "mmc_query cdb n \<longleftrightarrow>
     cdb = inquiry_cdb \<and> n = 96
     \<or> cdb = request_sense_cdb \<and> n = 18
     \<or> cdb = media_event_cdb \<and> n = 8
     \<or> cdb = read_capacity_cdb \<and> n = 8
     \<or> (cdb = read_dvd_structure_cdb 0 2052 \<or> cdb = read_dvd_structure_cdb 4 2052) \<and> n = 2052
     \<or> (\<exists>lba blocks. 0 < blocks \<and> blocks \<le> opt_MAX_READ_BLOCKS
          \<and> cdb = read_blocks_cdb 0x28 lba blocks \<and> n = blocks * GDOX_LOGICAL_SECTOR_BYTES)"

text \<open>
  The calls a client makes of an open source that leave it open. The flag tells whether a
  preparation to close was tried; a read after one is part of the session when \<open>late\<close> allows it.
\<close>

inductive opt_session :: "'c source_ops \<Rightarrow> bool \<Rightarrow> 'c \<Rightarrow> bool \<Rightarrow> 'c \<Rightarrow> bool" for ops late where
  start: "opt_session ops late c False c"
| read: "opt_session ops late c tried c' \<Longrightarrow> tried \<longrightarrow> late \<Longrightarrow>
    gdox_source_read ops (Some c') lba blocks n = (r, Some c'') \<Longrightarrow> opt_session ops late c tried c''"
| observe: "opt_session ops late c tried c' \<Longrightarrow>
    gdox_source_observe_media ops (Some c') = (ok, ob, Some c'') \<Longrightarrow> opt_session ops late c tried c''"
| media: "opt_session ops late c tried c' \<Longrightarrow>
    gdox_source_media_present ops (Some c') = (present, Some c'') \<Longrightarrow> opt_session ops late c tried c''"
| abort: "opt_session ops late c tried c' \<Longrightarrow>
    gdox_source_abort ops (Some c') = Some c'' \<Longrightarrow> opt_session ops late c tried c''"
| prepare: "opt_session ops late c tried c' \<Longrightarrow>
    gdox_source_prepare_close ops (Some c') = (q, Some c'') \<Longrightarrow> opt_session ops late c True c''"
| retry: "opt_session ops late c tried c' \<Longrightarrow>
    gdox_source_close ops (Some c') = (q, lost, Some c'') \<Longrightarrow> opt_session ops late c True c''"

lemma opt_ops_simps [simp]:
  "op_read (opt_source_ops drv tops n) = (\<lambda>c lba blocks bytes. opt_read drv tops lba blocks c)"
  "op_observe_media (opt_source_ops drv tops n) = Some (opt_observe_media tops)"
  "op_media_present (opt_source_ops drv tops n) = Some (opt_media_present tops)"
  "op_abort (opt_source_ops drv tops n) = Some opt_abort"
  "op_prepare_close (opt_source_ops drv tops n) = Some (opt_prepare_close drv tops)"
  "op_close (opt_source_ops drv tops n) = opt_close tops"
  "op_sector_count (opt_source_ops drv tops n) = n"
  by (simp_all add: opt_source_ops_def)

text \<open>The transport's predicate with the debt of the source and the part of its driver.\<close>

definition oc_holds :: "('t \<Rightarrow> bool) \<Rightarrow> bool \<Rightarrow> 'x \<Rightarrow> ('t, 'x) optical_context_scheme \<Rightarrow> bool" where
  "oc_holds K active x c \<longleftrightarrow>
     oc_active c = active \<and> optical_context.more c = x \<and> open_holds K (oc_transport c)"

lemma oc_holds_mono:
  "(\<And>t. K t \<Longrightarrow> L t) \<Longrightarrow> oc_holds K a x c \<Longrightarrow> oc_holds L a x c"
  by (auto simp: oc_holds_def open_holds_def)

lemma keeps_opt_transport:
  "keeps (open_holds K) m \<Longrightarrow> keeps (oc_holds K a x) (opt_on_transport m)"
  by (auto simp: keeps_def oc_holds_def zoom_def split: prod.splits)

lemma keeps_opt_modify:
  "(\<And>c. oc_transport (f c) = oc_transport c \<and> oc_active (f c) = oc_active c
      \<and> optical_context.more (f c) = optical_context.more c) \<Longrightarrow>
   keeps (oc_holds K a x) (modify f)"
  by (rule keeps_modify) (simp add: oc_holds_def)

lemma keeps_ladder [keeps_rules]: "keeps (oc_holds K a x) (opt_ladder_aborted checked)"
  by (auto simp: keeps_def opt_ladder_aborted_def oc_holds_def Let_def split: list.splits)

lemma keeps_monotonic [keeps_rules]: "keeps (oc_holds K a x) opt_monotonic_ms"
  by (auto simp: keeps_def opt_monotonic_ms_def oc_holds_def Let_def split: list.splits)

lemma keeps_opt_locked [keeps_rules]:
  "keeps (oc_holds K a x) body \<Longrightarrow> keeps (oc_holds K a x) (opt_locked m body)"
  by (auto simp: keeps_def opt_locked_def oc_holds_def split: list.splits)

lemma leads_opt_locked:
  assumes "leads (oc_holds K a x) body (outcome E R)" and "\<And>c. oc_holds K a x c \<Longrightarrow> E c"
  shows "leads (oc_holds K a x) (opt_locked m body) (outcome E R)"
proof (rule leadsI)
  fix c r c'
  assume c: "oc_holds K a x c" and m: "opt_locked m body c = (r, c')"
  have keep: "oc_holds K a x (c\<lparr>oc_mutex := l\<rparr>)" for l using c by (simp add: oc_holds_def)
  show "outcome E R r c'"
    using m leadsD[OF assms(1) c] leadsD[OF assms(1) keep] assms(2)[OF keep]
    by (auto simp: opt_locked_def split: list.splits if_splits)
qed

lemma keeps_first_error [keeps_rules]:
  "(\<And>m. m \<in> set ms \<Longrightarrow> keeps I m) \<Longrightarrow> keeps I (opt_first_error ms)"
  by (induction ms) (auto intro!: keeps_rules)

section \<open>Queries\<close>

locale quiet_optical =
  fixes tops :: "'t transport_ops" and memory :: "byte list \<Rightarrow> nat \<Rightarrow> bool" and loads :: bool and K :: "'t \<Rightarrow> bool"
  assumes asks: "mmc_query cdb n \<or> memory cdb n \<Longrightarrow> K t \<Longrightarrow>
      top_command_in tops t name cdb n timeout_ms = (r, t') \<Longrightarrow> K t'"
    and nods: "cdb = test_unit_ready_cdb \<or> loads \<and> cdb = start_unit_cdb \<Longrightarrow> K t \<Longrightarrow>
      top_command_none tops t name cdb timeout_ms = (q, t') \<Longrightarrow> K t'"
    and resets: "K t \<Longrightarrow> top_reset tops t = (q, t') \<Longrightarrow> K t'"
    and prepares: "top_prepare_close tops = Some f \<Longrightarrow> K t \<Longrightarrow> f t = (q, t') \<Longrightarrow> K t'"
    and presents: "top_device_present tops = Some g \<Longrightarrow> K t \<Longrightarrow> g t = (b, t') \<Longrightarrow> K t'"
begin

lemma quiet_asks:
  "mmc_query cdb n \<or> memory cdb n \<Longrightarrow> keeps (open_holds K) (gdox_scsi_command_in tops name cdb n timeout_ms)"
  using asks by (intro keeps_command_in keepsI) blast

lemma quiet_ready: "keeps (open_holds K) (gdox_mmc_test_unit_ready tops timeout_ms)"
  unfolding gdox_mmc_test_unit_ready_def using nods by (intro keeps_command_none keepsI) blast

lemma quiet_load: "loads \<Longrightarrow> keeps (open_holds K) (gdox_scsi_command_none tops name start_unit_cdb timeout_ms)"
  using nods by (intro keeps_command_none keepsI) blast

lemma quiet_reset: "keeps (open_holds K) (gdox_scsi_transport_reset tops)"
  unfolding gdox_scsi_transport_reset_def using resets by (intro keeps_on_open keepsI) blast

lemma quiet_prepare: "keeps (open_holds K) (gdox_scsi_transport_prepare_close tops)"
  using prepares by (intro keeps_prepare_close keepsI) blast

lemma quiet_present: "keeps (open_holds K) (gdox_scsi_transport_device_present tops)"
proof (rule keepsI)
  fix s r s'
  assume s: "open_holds K s" and m: "gdox_scsi_transport_device_present tops s = (r, s')"
  show "open_holds K s'"
  proof (cases "top_device_present tops")
    case None
    with s m show ?thesis
      by (auto simp: gdox_scsi_transport_device_present_def split: if_splits)
  next
    case (Some f)
    have "keeps K f" using presents[OF Some] by (intro keepsI) blast
    from keepsD[OF keeps_on_open[OF this] s] s m Some show ?thesis
      by (auto simp: gdox_scsi_transport_device_present_def split: if_splits)
  qed
qed

lemma quiet_inquiry: "keeps (open_holds K) (gdox_mmc_inquiry tops timeout_ms)"
  unfolding gdox_mmc_inquiry_def by (intro keeps_rules quiet_asks) (simp add: mmc_query_def)

lemma quiet_capacity: "keeps (open_holds K) (gdox_mmc_read_capacity_10 tops timeout_ms)"
  unfolding gdox_mmc_read_capacity_10_def by (intro keeps_rules quiet_asks) (simp add: mmc_query_def)

lemma quiet_structure: "f = 0 \<or> f = 4 \<Longrightarrow> keeps (open_holds K) (gdox_mmc_read_dvd_structure tops f 2052 timeout_ms)"
  unfolding gdox_mmc_read_dvd_structure_def by (intro keeps_rules quiet_asks) (auto simp: mmc_query_def)

lemma quiet_read_10:
  "keeps (open_holds K) (gdox_mmc_read_10 tops lba blocks opt_MAX_READ_BLOCKS GDOX_LOGICAL_SECTOR_BYTES n timeout_ms)"
  unfolding gdox_mmc_read_10_def read_blocks_def
  by (intro keeps_rules quiet_asks) (auto simp: mmc_query_def)

lemma quiet_restore_capacity: "keeps (open_holds K) (gdox_optical_restore_read_capacity tops timeout_ms lba)"
  unfolding gdox_optical_restore_read_capacity_def by (intro keeps_rules quiet_capacity)

lemma quiet_request_sense: "keeps (open_holds K) (gdox_mmc_request_sense tops timeout_ms)"
  unfolding gdox_mmc_request_sense_def by (rule quiet_asks) (simp add: mmc_query_def)

lemma quiet_capture:
  "open_holds K transport \<Longrightarrow>
   gdox_mmc_media_tracker_capture_transport_sense tops timeout_ms (transport, tracker) = (b, transport', tracker') \<Longrightarrow>
   open_holds K transport'"
  using keepsD[OF quiet_request_sense]
  by (fastforce simp: gdox_mmc_media_tracker_capture_transport_sense_def
      split: if_splits option.splits prod.splits sum.splits)

lemma quiet_poll:
  assumes "open_holds K transport"
    and "poll_media_event tops timeout_ms (transport, tracker) = (x, transport', tracker')"
  shows "open_holds K transport'"
proof -
  obtain r t where cmd: "gdox_scsi_command_in tops ''GET EVENT STATUS NOTIFICATION (media)'' media_event_cdb 8
      timeout_ms transport = (r, t)" by fastforce
  have t: "open_holds K t"
    by (rule keepsD[OF quiet_asks assms(1) cmd]) (simp add: mmc_query_def)
  show ?thesis
    using assms(2) cmd t assms(1) quiet_capture[OF t]
    by (cases r) (auto simp: poll_media_event_def split: if_splits prod.splits option.splits)
qed

lemma quiet_poll_event:
  "open_holds K transport \<Longrightarrow> gdox_mmc_poll_media_event tops timeout_ms (transport, tracker) = (b, transport', tracker') \<Longrightarrow>
   open_holds K transport'"
  by (auto simp: gdox_mmc_poll_media_event_def split: prod.splits intro: quiet_poll)

lemma quiet_poll_baseline:
  "open_holds K (fst st) \<Longrightarrow> open_holds K (fst (poll_baseline tops timeout_ms k st))"
proof (induction k arbitrary: st)
  case (Suc k)
  obtain ok ev transport tracker where p: "poll_media_event tops timeout_ms st = ((ok, ev), transport, tracker)"
    by (metis prod.exhaust)
  then have "open_holds K transport"
    using quiet_poll[of "fst st" timeout_ms "snd st"] Suc.prems by simp
  with p show ?case using Suc.IH[of "(transport, tracker)"] by simp
qed simp

lemma quiet_observed_sense:
  "open_holds K transport \<Longrightarrow>
   observed_sense tops timeout_ms (transport, tracker) = (known, transport', tracker') \<Longrightarrow> open_holds K transport'"
  using keepsD[OF quiet_request_sense]
  by (fastforce simp: observed_sense_def split: if_splits option.splits prod.splits sum.splits)

lemma quiet_observe:
  assumes "open_holds K transport"
    and "gdox_mmc_observe_media tops timeout_ms (transport, tracker) = (ob, transport', tracker')"
  shows "open_holds K transport'"
proof (cases "gdox_scsi_transport_is_valid transport")
  case True
  obtain ok t1 m1 where p: "gdox_mmc_poll_media_event tops timeout_ms (transport, tracker) = (ok, t1, m1)"
    by (metis prod.exhaust)
  note t1 = quiet_poll_event[OF assms(1) p]
  obtain r t2 where u: "gdox_mmc_test_unit_ready tops timeout_ms t1 = (r, t2)" by fastforce
  have t2: "open_holds K t2" by (rule keepsD[OF quiet_ready t1 u])
  show ?thesis
    using assms(2) True p u t2 quiet_observed_sense[OF t2]
    by (cases r) (auto simp: gdox_mmc_observe_media_def Let_def split: prod.splits)
qed (use assms in \<open>simp add: gdox_mmc_observe_media_def Let_def\<close>)

lemma quiet_with_media:
  "(\<And>transport tracker y transport' tracker'. open_holds K transport \<Longrightarrow> f (transport, tracker) = (y, transport', tracker') \<Longrightarrow>
      open_holds K transport') \<Longrightarrow>
   oc_holds K a x c \<Longrightarrow> opt_with_media f c = (y, c') \<Longrightarrow> oc_holds K a x c'"
  by (fastforce simp: opt_with_media_def oc_holds_def split: prod.splits)

lemma quiet_media_unchanged: "keeps (oc_holds K a x) (opt_media_unchanged tops expected)"
proof (rule keepsI)
  fix c r c'
  assume c: "oc_holds K a x c" and m: "opt_media_unchanged tops expected c = (r, c')"
  obtain b c1 where c1: "opt_with_media (gdox_mmc_media_tracker_capture_transport_sense tops opt_DEFAULT_TIMEOUT_MS) c = (b, c1)"
    by fastforce
  obtain b' c2 where c2: "opt_with_media (gdox_mmc_poll_media_event tops opt_DEFAULT_TIMEOUT_MS) c1 = (b', c2)"
    by fastforce
  have held: "oc_holds K a x c1" by (rule quiet_with_media[OF quiet_capture c c1])
  have "oc_holds K a x c2" by (rule quiet_with_media[OF quiet_poll_event held c2])
  with m c1 c2 show "oc_holds K a x c'" by (auto simp: opt_media_unchanged_def split: if_splits)
qed

lemma quiet_opt_observe: "oc_holds K a x c \<Longrightarrow> oc_holds K a x (snd (opt_observe_media tops c))"
proof -
  have "keeps (oc_holds K a x)
      (\<lambda>c. case opt_with_media (gdox_mmc_observe_media tops opt_PRESENCE_TIMEOUT_MS) c of (ob, c) \<Rightarrow> (Inr ob, c))"
    by (rule keepsI) (auto split: prod.splits intro: quiet_with_media[OF quiet_observe])
  from keeps_opt_locked[OF this, of "''''"] show "oc_holds K a x c \<Longrightarrow> oc_holds K a x (snd (opt_observe_media tops c))"
    by (auto simp: keeps_def opt_observe_media_def split: prod.splits sum.splits)
qed

lemma quiet_begin_session: "oc_holds K a x c \<Longrightarrow> oc_holds K a x (opt_begin_session tops c)"
proof -
  have begin_keeps: "open_holds K transport'"
    if "open_holds K transport" "gdox_mmc_media_tracker_begin_session tops timeout_ms (transport, tracker) = (transport', tracker')"
    for transport tracker transport' tracker' timeout_ms
    using that quiet_poll_baseline[of "(transport, tracker)" timeout_ms baseline_event_limit]
    by (auto simp: gdox_mmc_media_tracker_begin_session_def split: prod.splits)
  assume c: "oc_holds K a x c"
  obtain y c' where c': "opt_with_media (\<lambda>st. ((), gdox_mmc_media_tracker_begin_session tops opt_DEFAULT_TIMEOUT_MS st)) c = (y, c')"
    by (meson surj_pair)
  have "oc_holds K a x c'"
    by (rule quiet_with_media[OF _ c c']) (auto intro: begin_keeps)
  with c' show "oc_holds K a x (opt_begin_session tops c)" by (simp add: opt_begin_session_def)
qed

lemma quiet_wait_for_ready: "keeps (oc_holds K a x) (opt_wait_for_ready tops ready_timeout_ms)"
proof -
  have "keeps (oc_holds K a x) (opt_wait_ready tops k e)" for k e
    by (induction k arbitrary: e) (auto intro!: keeps_rules keeps_opt_transport quiet_ready)
  then show ?thesis by (simp add: opt_wait_for_ready_def)
qed

lemma quiet_evidence: "keeps (oc_holds K a x) (opt_collect_evidence tops expected mismatch)"
  unfolding opt_collect_evidence_def
  by (intro keeps_rules keeps_opt_transport quiet_structure keeps_opt_modify) simp_all

text \<open>An opening that never patches hands over a transport that keeps the predicate.\<close>

lemma quiet_open_inquired:
  assumes "\<And>k. open_holds K (snd (opener k))"
  shows "opt_open_inquired tops opener k attempts = (r, transport) \<Longrightarrow> open_holds K transport"
proof (induction attempts arbitrary: k)
  case (Suc attempts)
  obtain q t where o: "opener k = (q, t)" by fastforce
  have t: "open_holds K t" using assms[of k] o by simp
  obtain i t1 where i: "gdox_mmc_inquiry tops opt_DEFAULT_TIMEOUT_MS t = (i, t1)" by fastforce
  have t1: "open_holds K t1" by (rule keepsD[OF quiet_inquiry t i])
  obtain z t2 where z: "gdox_scsi_transport_close tops t1 = (z, t2)" by fastforce
  have t2: "open_holds K t2"
  proof (cases t2)
    case (Some u)
    then have "gdox_scsi_transport_prepare_close tops t1 = (z, Some u)"
      using transport_close_keeps[of tops t1 z u] z by auto
    then show ?thesis using keepsD[OF quiet_prepare t1] Some by blast
  qed simp
  show ?case
    using Suc o i z t t1 t2 by (auto split: sum.splits if_splits)
qed simp

lemma quiet_open_validated:
  assumes "\<And>k. open_holds K (snd (opener k))" and "opt_open_validated tops validated refusal opener = (r, transport)"
  shows "open_holds K transport"
proof -
  obtain i t where i: "opt_open_inquired tops opener 0 opt_INQUIRY_ATTEMPTS = (i, t)" by fastforce
  have t: "open_holds K t" by (rule quiet_open_inquired[OF assms(1) i])
  obtain z t2 where z: "gdox_scsi_transport_close tops t = (z, t2)" by fastforce
  have "open_holds K t2"
  proof (cases t2)
    case (Some u)
    then have "gdox_scsi_transport_prepare_close tops t = (z, Some u)"
      using transport_close_keeps[of tops t z u] z by auto
    then show ?thesis using keepsD[OF quiet_prepare t] Some by blast
  qed simp
  with assms(2) i t z show ?thesis
    by (auto simp: opt_open_validated_def split: sum.splits if_splits)
qed

end

section \<open>The contract of a patched drive\<close>

text \<open>
  \<open>I x d t\<close> is what is known of a drive of profile \<open>x\<close> that is owed a restoration when \<open>d\<close>; \<open>W ws t\<close>
  that it showed the values \<open>ws\<close> to the memory reads beside them and has not been written to since.
\<close>

locale patched_drive =
  fixes tops :: "'t transport_ops" and memory :: "byte list \<Rightarrow> nat \<Rightarrow> bool" and loads :: bool
    and poke :: "'x \<Rightarrow> byte list \<Rightarrow> byte list \<Rightarrow> bool"
    and I :: "'x \<Rightarrow> bool \<Rightarrow> 't \<Rightarrow> bool" and W :: "(byte list \<times> byte list) list \<Rightarrow> 't \<Rightarrow> bool"
  assumes drive_asks: "mmc_query cdb n \<or> memory cdb n \<Longrightarrow> top_command_in tops t name cdb n timeout_ms = (r, t') \<Longrightarrow>
      (I x d t \<longrightarrow> I x d t') \<and> (W ws t \<longrightarrow> W ws t')"
    and drive_nods: "cdb = test_unit_ready_cdb \<or> loads \<and> cdb = start_unit_cdb \<Longrightarrow>
      top_command_none tops t name cdb timeout_ms = (q, t') \<Longrightarrow> (I x d t \<longrightarrow> I x d t') \<and> (W ws t \<longrightarrow> W ws t')"
    and drive_resets: "top_reset tops t = (q, t') \<Longrightarrow> (I x d t \<longrightarrow> I x d t') \<and> (W ws t \<longrightarrow> W ws t')"
    and drive_prepares: "top_prepare_close tops = Some f \<Longrightarrow> f t = (q, t') \<Longrightarrow>
      (I x d t \<longrightarrow> I x d t') \<and> (W ws t \<longrightarrow> W ws t')"
    and drive_presents: "top_device_present tops = Some g \<Longrightarrow> g t = (b, t') \<Longrightarrow>
      (I x d t \<longrightarrow> I x d t') \<and> (W ws t \<longrightarrow> W ws t')"
    and seen: "memory cdb n \<Longrightarrow> W ws t \<Longrightarrow> top_command_in tops t name cdb n timeout_ms = (Inr bs, t') \<Longrightarrow>
      W ((cdb, bs) # ws) t'"
    and blank: "W [] t"
    and pokes: "poke x cdb input \<Longrightarrow> I x True t \<Longrightarrow> top_command_out tops t name cdb input timeout_ms = (k, t') \<Longrightarrow> I x True t'"
    and arm: "I x False t \<Longrightarrow> I x True t"
begin

sublocale owed: quiet_optical tops memory loads "I x d" for x d
  by unfold_locales
     ((drule (1) drive_asks[where x = x and d = d] drive_nods[where x = x and d = d]
         drive_prepares[where x = x and d = d] drive_presents[where x = x and d = d]
       | drule drive_resets[where x = x and d = d]), blast)+

sublocale shown: quiet_optical tops memory loads "\<lambda>t. I x d t \<and> W ws t" for x d ws
  by unfold_locales
     ((drule (1) drive_asks[where x = x and d = d and ws = ws] drive_nods[where x = x and d = d and ws = ws]
         drive_prepares[where x = x and d = d and ws = ws] drive_presents[where x = x and d = d and ws = ws]
       | drule drive_resets[where x = x and d = d and ws = ws]), blast)+

lemma memory_shows:
  assumes "memory cdb n"
  shows "leads (oc_holds (\<lambda>t. I x d t \<and> W ws t) a y) (opt_on_transport (gdox_scsi_command_in tops name cdb n timeout_ms))
     (outcome (oc_holds (I x d) a y) (\<lambda>bs. oc_holds (\<lambda>t. I x d t \<and> W ((cdb, bs) # ws) t) a y))"
proof (rule leadsI)
  fix c r c'
  assume c: "oc_holds (\<lambda>t. I x d t \<and> W ws t) a y c"
    and m: "opt_on_transport (gdox_scsi_command_in tops name cdb n timeout_ms) c = (r, c')"
  have k: "oc_holds (\<lambda>t. I x d t \<and> W ws t) a y c'"
    by (rule keepsD[OF keeps_opt_transport[OF shown.quiet_asks] c m]) (use assms in blast)
  show "outcome (oc_holds (I x d) a y) (\<lambda>bs. oc_holds (\<lambda>t. I x d t \<and> W ((cdb, bs) # ws) t) a y) r c'"
  proof (cases r)
    case (Inl e)
    then show ?thesis using k by (auto simp: oc_holds_def open_holds_def)
  next
    case (Inr bs)
    obtain t where t: "gdox_scsi_command_in tops name cdb n timeout_ms (oc_transport c) = (Inr bs, t)"
        and c': "oc_transport c' = t"
      using m Inr by (auto simp: zoom_def split: prod.splits)
    obtain u u' where u: "oc_transport c = Some u" "t = Some u'"
        "top_command_in tops u name cdb n timeout_ms = (Inr bs, u')"
      using command_in_ok[OF t] by blast
    have "W ws u" using c u(1) by (simp add: oc_holds_def)
    then have "W ((cdb, bs) # ws) u'" using seen assms u(3) by blast
    with k c' u(2) Inr show ?thesis by (simp add: oc_holds_def)
  qed
qed

lemma poke_keeps:
  "poke x cdb input \<Longrightarrow> keeps (oc_holds (I x True) a y) (opt_on_transport (gdox_scsi_command_out tops name cdb input timeout_ms))"
  using pokes by (intro keeps_opt_transport keeps_command_out keepsI) blast

lemma start_shows: "oc_holds (I x d) a y c \<Longrightarrow> oc_holds (\<lambda>t. I x d t \<and> W [] t) a y c"
  using blank by (auto simp: oc_holds_def open_holds_def)

lemma forget_shown: "oc_holds (\<lambda>t. I x d t \<and> W ws t) a y c \<Longrightarrow> oc_holds (I x d) a y c"
  by (auto simp: oc_holds_def open_holds_def)

lemma hold_armed: "oc_holds (I x False) a y c \<Longrightarrow> oc_holds (I x True) a y c"
  using arm by (auto simp: oc_holds_def open_holds_def)

end

text \<open>What the context owes the drive.\<close>

definition opt_owed :: "('x \<Rightarrow> bool \<Rightarrow> 't \<Rightarrow> bool) \<Rightarrow> 'x \<Rightarrow> ('t, 'x) optical_context_scheme \<Rightarrow> bool" where
  "opt_owed I x c \<longleftrightarrow> oc_holds (I x (oc_active c)) (oc_active c) x c"

lemma opt_owed_cases: "opt_owed I x c \<longleftrightarrow> (\<exists>a. oc_holds (I x a) a x c)"
  by (auto simp: opt_owed_def oc_holds_def)

text \<open>A driver whose restoration ends the debt and whose recovery stays within it.\<close>

locale patched_driver = patched_drive tops memory loads poke I W
  for tops :: "'t transport_ops" and memory loads and poke :: "'x \<Rightarrow> byte list \<Rightarrow> byte list \<Rightarrow> bool" and I :: "'x \<Rightarrow> bool \<Rightarrow> 't \<Rightarrow> bool" and W +
  fixes drv :: "('t, 'x) optical_context_scheme optical_driver" and x :: 'x
  assumes restores: "leads (oc_holds (I x True) a x) (dr_guarded_restore drv)
      (outcome (oc_holds (I x True) a x) (\<lambda>_. oc_holds (I x False) a x))"
    and recovers: "keeps (oc_holds (I x True) a x) (dr_ensure_live drv)"
    and loading: "dr_loads drv \<Longrightarrow> loads"
    and gone: "dr_accepts_absence drv \<Longrightarrow> top_device_present tops = Some g \<Longrightarrow> I x True t \<Longrightarrow> g t = (Inr False, t') \<Longrightarrow>
      I x False t'"
begin

lemma restoring_settles:
  "leads (oc_holds (I x True) a x) (opt_restore_after_streaming drv tops)
     (outcome (oc_holds (I x True) a x) (\<lambda>_. oc_holds (I x False) a x))"
proof -
  have retries: "leads (oc_holds (I x True) a x) (opt_restore_retries drv tops k e)
     (outcome (oc_holds (I x True) a x) (\<lambda>_. oc_holds (I x False) a x))" for k e
  proof (induction k arbitrary: e)
    case (Suc k)
    show ?case
      unfolding opt_restore_retries.simps
      by (rule outcome_seq[OF outcome_keeps[OF keeps_attempt[OF keeps_opt_transport[OF owed.quiet_reset]]]])
         (rule outcome_seq[OF outcome_attempt[OF restores]],
          rule outcome_case_sum, rule Suc.IH, rule outcome_ret, assumption)
  qed (simp add: outcome_raise)
  show ?thesis
    unfolding opt_restore_after_streaming_def
    by (rule outcome_seq[OF outcome_attempt[OF restores]], rule outcome_case_sum, rule retries, rule outcome_ret, assumption)
qed

lemma absent_settles:
  assumes "dr_accepts_absence drv"
  shows "leads (oc_holds (I x True) a x) (opt_confirmed_absent tops)
     (outcome (oc_holds (I x True) a x) (\<lambda>absent. oc_holds (I x (\<not> absent)) a x))"
proof (rule leadsI)
  fix c r c'
  assume c: "oc_holds (I x True) a x c" and m: "opt_confirmed_absent tops c = (r, c')"
  obtain q t where p: "gdox_scsi_transport_device_present tops (oc_transport c) = (q, t)" by fastforce
  have r: "r = Inr (q = Inr False)" and c': "c' = c\<lparr>oc_transport := t\<rparr>"
    using m p by (auto simp: opt_confirmed_absent_def seq_def attempt_def zoom_def ret_def)
  have k: "oc_holds (I x True) a x c'"
    using c c' keepsD[OF owed.quiet_present _ p] by (auto simp: oc_holds_def)
  have "oc_holds (I x False) a x c'" if "q = Inr False"
  proof (cases t)
    case (Some u')
    from p that Some obtain g u where "top_device_present tops = Some g" "oc_transport c = Some u" "g u = (Inr False, u')"
      by (auto simp: gdox_scsi_transport_device_present_def gdox_scsi_transport_is_valid_def on_open_def
          split: if_splits option.splits prod.splits)
    with gone[OF assms, of g u u'] c have "I x False u'" by (simp add: oc_holds_def)
    with c c' Some show ?thesis by (simp add: oc_holds_def)
  qed (use c c' in \<open>simp add: oc_holds_def\<close>)
  with k r show "outcome (oc_holds (I x True) a x) (\<lambda>absent. oc_holds (I x (\<not> absent)) a x) r c'"
    by (cases "q = Inr False") auto
qed

lemma close_restoring_settles:
  "leads (oc_holds (I x True) a x) (opt_restore_for_close drv tops)
     (outcome (oc_holds (I x True) a x) (\<lambda>_. oc_holds (I x False) a x))"
proof (cases "dr_accepts_absence drv")
  case True
  note absent = absent_settles[OF True]
  have again: "leads (oc_holds (I x True) a x) (seq (opt_confirmed_absent tops) (\<lambda>absent. if absent then ret () else raise e))
      (outcome (oc_holds (I x True) a x) (\<lambda>_. oc_holds (I x False) a x))" for e
    by (rule outcome_seq[OF absent], rule outcome_if) (simp_all add: outcome_ret outcome_raise)
  have attempted: "leads (oc_holds (I x True) a x)
      (seq (attempt (opt_restore_after_streaming drv tops)) (\<lambda>result. case result of Inr _ \<Rightarrow> ret ()
        | Inl e \<Rightarrow> seq (opt_confirmed_absent tops) (\<lambda>absent. if absent then ret () else raise e)))
      (outcome (oc_holds (I x True) a x) (\<lambda>_. oc_holds (I x False) a x))"
    by (rule outcome_seq[OF outcome_attempt[OF restoring_settles]], rule outcome_case_sum, rule again, rule outcome_ret, assumption)
  have taken: "(if \<not> dr_accepts_absence drv then m else n) = n" for m n :: "(('t, 'x) optical_context_scheme, unit) act"
    using True by simp
  show ?thesis
    unfolding opt_restore_for_close_def taken
    by (rule outcome_seq[OF absent], rule outcome_if, simp add: outcome_ret, rule outcome_pre[OF attempted], simp)
qed (simp add: opt_restore_for_close_def restoring_settles)

lemma settling:
  assumes "leads (oc_holds (I x True) True x) restoring
     (outcome (oc_holds (I x True) True x) (\<lambda>_. oc_holds (I x False) True x))"
  shows "leads (oc_holds (I x a) a x) (opt_settle restoring)
     (outcome (oc_holds (I x a) a x) (\<lambda>_. oc_holds (I x False) False x))"
proof (rule leadsI)
  fix c r c'
  assume c: "oc_holds (I x a) a x c" and m: "opt_settle restoring c = (r, c')"
  show "outcome (oc_holds (I x a) a x) (\<lambda>_. oc_holds (I x False) False x) r c'"
  proof (cases a)
    case True
    obtain q d where d: "restoring c = (q, d)" by fastforce
    have "outcome (oc_holds (I x True) True x) (\<lambda>_. oc_holds (I x False) True x) q d"
      using leadsD[OF assms _ d] c True by simp
    moreover have "oc_active c" using c True by (simp add: oc_holds_def)
    ultimately show ?thesis
      using m d True by (cases q) (auto simp: opt_settle_def seq_def gets_def modify_def oc_holds_def)
  next
    case False
    then show ?thesis
      using c m by (auto simp: opt_settle_def seq_def gets_def ret_def oc_holds_def)
  qed
qed

lemma preparing_settles:
  "leads (opt_owed I x) (opt_prepare_close drv tops) (outcome (opt_owed I x) (\<lambda>_. oc_holds (I x False) False x))"
proof -
  have "leads (oc_holds (I x a) a x) (opt_prepare_close drv tops) (outcome (opt_owed I x) (\<lambda>_. oc_holds (I x False) False x))" for a
    unfolding opt_prepare_close_def
  proof (rule outcome_seq)
    show "leads (oc_holds (I x a) a x)
        (opt_locked (''could not lock '' @ dr_name drv @ '' transport during close'') (opt_settle (opt_restore_for_close drv tops)))
        (outcome (opt_owed I x) (\<lambda>_. oc_holds (I x False) False x))"
      by (rule outcome_post[OF leads_opt_locked[OF settling[OF close_restoring_settles]]])
         (auto simp: opt_owed_cases)
    show "leads (oc_holds (I x False) False x) (opt_on_transport (gdox_scsi_transport_prepare_close tops))
        (outcome (opt_owed I x) (\<lambda>_. oc_holds (I x False) False x))"
      by (rule outcome_post[OF outcome_keeps[OF keeps_opt_transport[OF owed.quiet_prepare]]]) (auto simp: opt_owed_cases)
  qed
  then show ?thesis unfolding leads_def opt_owed_cases by blast
qed

lemma rollback_settles:
  "leads (oc_holds (I x True) True x) (opt_or_restore drv tops e f) (outcome (opt_owed I x) (\<lambda>_. oc_holds (I x True) True x))"
proof -
  have clear: "leads (oc_holds (I x False) True x) (seq (modify (\<lambda>c. c\<lparr>oc_active := False\<rparr>)) (\<lambda>_. raise e))
      (outcome (opt_owed I x) (\<lambda>_. oc_holds (I x True) True x))"
    by (auto simp: leads_def seq_def modify_def raise_def oc_holds_def opt_owed_def)
  have stuck: "leads (oc_holds (I x True) True x) (raise f) (outcome (opt_owed I x) (\<lambda>_. oc_holds (I x True) True x))"
    by (rule outcome_raise) (auto simp: opt_owed_cases)
  show ?thesis
    unfolding opt_or_restore_def
    by (rule outcome_seq[OF outcome_attempt[OF restoring_settles]], rule outcome_case_sum, rule stuck, rule clear)
qed

lemma applying_arms:
  assumes "keeps (oc_holds (I x True) True x) apply_live"
  shows "leads (oc_holds (I x False) False x) (opt_apply_with_rollback drv tops apply_live)
     (outcome (opt_owed I x) (\<lambda>_. oc_holds (I x True) True x))"
proof -
  have "leads (oc_holds (I x False) False x) (modify (\<lambda>c. c\<lparr>oc_active := True\<rparr>))
      (outcome (opt_owed I x) (\<lambda>_. oc_holds (I x True) True x))"
    by (rule outcome_modify) (auto simp: oc_holds_def open_holds_def arm)
  then show ?thesis
    unfolding opt_apply_with_rollback_def
    by (rule outcome_seq) (rule outcome_seq[OF outcome_attempt[OF outcome_keeps[OF assms]]],
       rule outcome_case_sum, rule rollback_settles, rule outcome_ret, assumption)
qed

lemma validating_stays:
  "leads (oc_holds (I x True) True x) (opt_validate_descriptor drv tops descriptor_lba)
     (outcome (opt_owed I x) (\<lambda>_. oc_holds (I x True) True x))"
  unfolding opt_validate_descriptor_def Let_def
  by (rule outcome_seq[where R = "\<lambda>_. oc_holds (I x True) True x", OF outcome_gets], assumption,
      rule outcome_seq[OF outcome_attempt[OF outcome_keeps[OF keeps_opt_transport[OF owed.quiet_read_10]]]],
      rule outcome_case_sum, rule rollback_settles, rule outcome_if, rule outcome_ret, assumption, rule rollback_settles)

lemma recovering_stays: "keeps (oc_holds (I x True) a x) (opt_recover drv tops expected)"
proof -
  have await: "keeps (oc_holds (I x True) a x) (opt_await_ready drv tops expected k e)" for k e
    by (induction k arbitrary: e)
       (auto intro!: keeps_rules keeps_opt_transport owed.quiet_ready owed.quiet_media_unchanged recovers)
  show ?thesis
    unfolding opt_recover_def
    by (intro keeps_rules keeps_opt_transport owed.quiet_reset owed.quiet_media_unchanged owed.quiet_load await)
       (rule loading)
qed

lemma attempts_stay: "keeps (oc_holds (I x True) a x) (opt_read_attempts drv tops expected deadline lba blocks k)"
proof (induction k)
  case 0
  show ?case
    by (subst opt_read_attempts.simps)
       (auto intro!: keeps_rules keeps_opt_transport owed.quiet_read_10 keeps_opt_modify)
next
  case (Suc k)
  show ?case
    by (subst opt_read_attempts.simps)
       (auto intro!: keeps_rules keeps_opt_transport owed.quiet_read_10 keeps_opt_modify recovering_stays Suc.IH)
qed

lemma range_stays: "keeps (oc_holds (I x True) a x) (opt_read_range drv tops deadline lba blocks)"
  using attempts_stay by (simp add: keeps_def opt_read_range_def)

lemma chunk_stays: "keeps (oc_holds (I x True) a x) (opt_read_chunk drv tops deadline lba blocks)"
proof -
  have singles: "keeps (oc_holds (I x True) a x) (opt_read_singles drv tops deadline lba k)" for lba k
    by (induction k arbitrary: lba) (auto intro!: keeps_rules range_stays)
  show ?thesis
    unfolding opt_read_chunk_def by (intro keeps_rules range_stays singles)
qed

lemma chunks_stay: "keeps (oc_holds (I x True) a x) (opt_read_chunks drv tops deadline lba remaining)"
proof (induction remaining arbitrary: lba rule: less_induct)
  case (less remaining)
  show ?case
  proof (cases "remaining = 0")
    case False
    define n where "n = (if remaining < opt_MAX_READ_BLOCKS then remaining else opt_MAX_READ_BLOCKS)"
    have "remaining - n < remaining" using False by (auto simp: n_def opt_MAX_READ_BLOCKS_def)
    note rest = less.IH[OF this, of "u32_cast (lba + n)"]
    have eq: "opt_read_chunks drv tops deadline lba remaining =
        seq (opt_read_chunk drv tops deadline lba n) (\<lambda>data.
        seq (opt_read_chunks drv tops deadline (u32_cast (lba + n)) (remaining - n)) (\<lambda>rest. ret (data @ rest)))"
      using False by (subst opt_read_chunks.simps) (simp only: Let_def n_def[symmetric] if_False)
    show ?thesis unfolding eq by (intro keeps_rules chunk_stays rest)
  qed (simp add: opt_read_chunks.simps keeps_rules)
qed

lemma reading_stays: "keeps (oc_holds (I x True) a x) (opt_read drv tops lba blocks)"
  unfolding opt_read_def by (intro keeps_rules chunks_stay)

text \<open>The calls of the source interface.\<close>

lemma source_reading:
  "oc_holds (I x True) a x c \<Longrightarrow> gdox_source_read (opt_source_ops drv tops sectors) (Some c) lba blocks n = (r, Some c') \<Longrightarrow>
   oc_holds (I x True) a x c'"
  using reading_stays[of a lba blocks] by (auto simp: gdox_source_read_def keeps_def split: sum.splits prod.splits)

lemma source_observing:
  "oc_holds (I x d) a x c \<Longrightarrow> gdox_source_observe_media (opt_source_ops drv tops sectors) (Some c) = (ok, ob, Some c') \<Longrightarrow>
   oc_holds (I x d) a x c'"
  using owed.quiet_opt_observe[of x d a x c] by (auto simp: gdox_source_observe_media_def split: prod.splits)

lemma source_presence:
  "oc_holds (I x d) a x c \<Longrightarrow> gdox_source_media_present (opt_source_ops drv tops sectors) (Some c) = (present, Some c') \<Longrightarrow>
   oc_holds (I x d) a x c'"
  by (auto simp: gdox_source_media_present_def split: prod.splits intro: source_observing)

lemma source_aborting:
  "oc_holds (I x d) a x c \<Longrightarrow> gdox_source_abort (opt_source_ops drv tops sectors) (Some c) = Some c' \<Longrightarrow>
   oc_holds (I x d) a x c'"
  by (auto simp: gdox_source_abort_def opt_abort_def oc_holds_def)

lemma source_preparing:
  assumes "opt_owed I x c" and "gdox_source_prepare_close (opt_source_ops drv tops sectors) (Some c) = (q, Some c')"
  shows "outcome (opt_owed I x) (\<lambda>_. oc_holds (I x False) False x) q c'"
proof -
  have "opt_prepare_close drv tops c = (q, c')"
    using assms(2) by (auto simp: gdox_source_prepare_close_def split: prod.splits)
  then show ?thesis by (rule leadsD[OF preparing_settles assms(1)])
qed

lemma settled_owed: "oc_holds (I x False) False x c \<Longrightarrow> opt_owed I x c"
  by (auto simp: opt_owed_cases)

text \<open>A close that fails keeps the source, and one that consumes it has prepared it first.\<close>

lemma source_closing:
  assumes "opt_owed I x c" and "gdox_source_close (opt_source_ops drv tops sectors) (Some c) = (r, lost, source')"
  shows "(source' = None \<longrightarrow> (\<exists>c'. gdox_source_prepare_close (opt_source_ops drv tops sectors) (Some c) = (Inr (), Some c')
            \<and> oc_holds (I x False) False x c' \<and> opt_close tops c' = (r, lost)))
    \<and> (\<forall>c'. source' = Some c' \<longrightarrow> opt_owed I x c' \<and> \<not> lost)"
proof -
  obtain q c' where p: "opt_prepare_close drv tops c = (q, c')" by fastforce
  have q: "outcome (opt_owed I x) (\<lambda>_. oc_holds (I x False) False x) q c'"
    by (rule leadsD[OF preparing_settles assms(1) p])
  show ?thesis
    using assms(2) p q settled_owed
    by (cases q) (auto simp: gdox_source_close_def gdox_source_prepare_close_def split: prod.splits)
qed

text \<open>
  A session without late reads keeps the account, and the debt stands until a preparation was tried.
\<close>

lemma session_owed:
  "opt_session (opt_source_ops drv tops sectors) False c tried c' \<Longrightarrow> opt_owed I x c \<Longrightarrow> oc_active c \<Longrightarrow>
   opt_owed I x c' \<and> (\<not> tried \<longrightarrow> oc_active c')"
proof (induction rule: opt_session.induct)
  case (read c tried c' lba blocks n r c'')
  then have "oc_holds (I x True) True x c'" by (fastforce simp: opt_owed_def)
  from source_reading[OF this read.hyps(3)] show ?case by (simp add: opt_owed_def oc_holds_def)
next
  case (observe c tried c' ok ob c'')
  then have "oc_holds (I x (oc_active c')) (oc_active c') x c'" by (simp add: opt_owed_def)
  from source_observing[OF this observe.hyps(2)] observe show ?case by (auto simp: opt_owed_def oc_holds_def)
next
  case (media c tried c' present c'')
  then have "oc_holds (I x (oc_active c')) (oc_active c') x c'" by (simp add: opt_owed_def)
  from source_presence[OF this media.hyps(2)] media show ?case by (auto simp: opt_owed_def oc_holds_def)
next
  case (abort c tried c' c'')
  then have "oc_holds (I x (oc_active c')) (oc_active c') x c'" by (simp add: opt_owed_def)
  from source_aborting[OF this abort.hyps(2)] abort show ?case by (auto simp: opt_owed_def oc_holds_def)
next
  case (prepare c tried c' q c'')
  then show ?case using source_preparing[of c' sectors q c''] settled_owed by (cases q) auto
next
  case (retry c tried c' q lost c'')
  then show ?case using source_closing[of c'] by blast
qed simp

text \<open>Where restoring owes nothing, any session keeps the predicate.\<close>

lemma session_holds:
  assumes "\<And>t. I x True t \<Longrightarrow> I x False t"
  shows "opt_session (opt_source_ops drv tops sectors) late c tried c' \<Longrightarrow> opt_owed I x c \<Longrightarrow> opt_owed I x c'"
proof (induction rule: opt_session.induct)
  case (read c tried c' lba blocks n r c'')
  then obtain a where a: "oc_holds (I x a) a x c'" by (auto simp: opt_owed_cases)
  then have "oc_holds (I x True) a x c'" using arm by (cases a) (auto simp: oc_holds_def open_holds_def)
  from source_reading[OF this read.hyps(3)] have "oc_holds (I x a) a x c''"
    using assms by (cases a) (auto simp: oc_holds_def open_holds_def)
  then show ?case by (auto simp: opt_owed_cases)
next
  case (observe c tried c' ok ob c'')
  then show ?case using source_observing by (fastforce simp: opt_owed_cases)
next
  case (media c tried c' present c'')
  then show ?case using source_presence by (fastforce simp: opt_owed_cases)
next
  case (abort c tried c' c'')
  then show ?case using source_aborting by (fastforce simp: opt_owed_cases)
next
  case (prepare c tried c' q c'')
  then show ?case using source_preparing[of c' sectors q c''] settled_owed by (cases q) auto
next
  case (retry c tried c' q lost c'')
  then show ?case using source_closing[of c'] by blast
qed simp

lemma cleanup_settles:
  assumes "opt_owed I x c" and "opt_cleanup_failed_open drv tops e c = (e', source, released)"
  shows "(\<forall>c'. source = Some c' \<longrightarrow> opt_owed I x c') \<and> (\<forall>c'. released = Some c' \<longrightarrow> oc_holds (I x False) False x c')"
proof -
  obtain a where a: "oc_holds (I x a) a x c" using assms(1) by (auto simp: opt_owed_cases)
  obtain q d where q: "opt_settle (opt_restore_after_streaming drv tops) c = (q, d)" by fastforce
  note settled = leadsD[OF settling[OF restoring_settles] a q]
  show ?thesis
  proof (cases q)
    case (Inl z)
    with assms(2) q settled show ?thesis by (auto simp: opt_cleanup_failed_open_def opt_owed_cases)
  next
    case (Inr u)
    then have d: "oc_holds (I x False) False x d" using settled by simp
    obtain z t where z: "gdox_scsi_transport_close tops (oc_transport d) = (z, t)" by fastforce
    have "opt_owed I x (d\<lparr>oc_transport := t\<rparr>)"
    proof (cases t)
      case (Some v)
      then have "gdox_scsi_transport_prepare_close tops (oc_transport d) = (z, Some v)"
        using transport_close_keeps[of tops "oc_transport d" z v] z by auto
      from keepsD[OF owed.quiet_prepare _ this] d Some show ?thesis
        by (auto simp: opt_owed_def oc_holds_def)
    qed (use d in \<open>simp add: opt_owed_def oc_holds_def\<close>)
    with assms(2) q Inr z d show ?thesis
      by (auto simp: opt_cleanup_failed_open_def split: sum.splits)
  qed
qed

end

end
