(* ===== verification/AsusNr09Drive.thy ===== *)
theory AsusNr09Drive
  imports AsusNr09 OpticalDrive Ad7701hDrive
begin

text \<open>
  What the ASUS NR09 reader does to its drive, for any transport: it sends only the listed commands,
  writes only the words of the disc it recognised, and lets go of the drive only after the memory
  shows the words it started from. The exception is stated too: a recovery after a preparation to
  close patches the drive again and notes no debt.
\<close>

section \<open>The profiles\<close>

definition asus_read_cdb :: "asus_field \<Rightarrow> byte list" where
  "asus_read_cdb field = asus_memory_cdb 0 (af_address field) (af_subcommand field)"

definition asus_write_cdb :: "asus_field \<Rightarrow> byte list" where
  "asus_write_cdb field = asus_memory_cdb 1 (af_address field) (af_subcommand field)"

text \<open>All profiles describe the same words of the memory.\<close>

lemma profile_words:
  "p \<in> set media_profiles \<Longrightarrow> map asus_read_cdb (ap_fields p) = map asus_read_cdb (ap_fields xgd1_profile)"
  by (auto simp: media_profiles_def xgd1_profile_def xgd2_profile_def asus_read_cdb_def asus_field_of_def)

lemma profile_length: "p \<in> set media_profiles \<Longrightarrow> length (ap_fields p) = 8"
  by (auto simp: media_profiles_def xgd1_profile_def xgd2_profile_def)

text \<open>The fixed words tell the discs apart.\<close>

lemma profiles_exclusive:
  assumes "p \<in> set media_profiles" "q \<in> set media_profiles"
    and "asus_state_is_known_partial p state" "asus_state_is_known_partial q state"
  shows "p = q"
proof -
  have "ap_complemented_start p = ap_complemented_start q" using assms(3,4) by (simp add: asus_state_is_known_partial_def)
  then show ?thesis using assms(1,2) by (auto simp: media_profiles_def xgd1_profile_def xgd2_profile_def)
qed

lemma profiles_distinct: "xgd1_profile \<noteq> xgd2_profile"
  by (simp add: xgd1_profile_def xgd2_profile_def)

lemma select_known:
  "asus_select_known_profile state = Some p \<longleftrightarrow> p \<in> set media_profiles \<and> asus_state_is_known_partial p state"
proof -
  have "\<not> (asus_state_is_known_partial xgd1_profile state \<and> asus_state_is_known_partial xgd2_profile state)"
    using profiles_exclusive[of xgd1_profile xgd2_profile state] profiles_distinct by (auto simp: media_profiles_def)
  then show ?thesis by (auto simp: asus_select_known_profile_def media_profiles_def)
qed

lemma stock_is_known:
  assumes "asus_state_matches p state live"
  shows "asus_state_is_known_partial p state"
proof -
  have "list_all2 (=) (at_values state) (map (if live then af_live else af_stock) (ap_fields p))"
    using assms by (simp add: asus_state_matches_def asus_state_memory_matches_def asus_expected_def)
  then have "list_all2 (\<lambda>v field. v = (if live then af_live else af_stock) field) (at_values state) (ap_fields p)"
    by (simp add: list_all2_map2)
  then have "list_all2 (\<lambda>v field. v = af_stock field \<or> v = af_live field) (at_values state) (ap_fields p)"
    by (rule list_all2_mono) (auto split: if_splits)
  with assms show ?thesis
    by (auto simp: asus_state_is_known_partial_def asus_state_matches_def asus_state_memory_matches_def split: if_splits)
qed

section \<open>The commands of the driver\<close>

definition asus_memory :: "byte list \<Rightarrow> nat \<Rightarrow> bool" where
  "asus_memory cdb n \<longleftrightarrow> n = 4
     \<and> (cdb \<in> asus_read_cdb ` set (ap_fields xgd1_profile)
        \<or> cdb = asus_memory_cdb 0 asus_START_PSN_ADDRESS 1 \<or> cdb = asus_memory_cdb 0 asus_COMPLEMENTED_START_ADDRESS 1)"

text \<open>The driver's part of the context.\<close>

abbreviation asus_part :: "asus_profile option \<Rightarrow> \<lparr>as_profile :: asus_profile option\<rparr>" where
  "asus_part p \<equiv> \<lparr>as_profile = p\<rparr>"

definition asus_poke :: "\<lparr>as_profile :: asus_profile option\<rparr> \<Rightarrow> byte list \<Rightarrow> byte list \<Rightarrow> bool" where
  "asus_poke x cdb input \<longleftrightarrow>
     (\<exists>p \<in> set media_profiles. x = asus_part (Some p)
        \<and> (\<exists>field \<in> set (ap_fields p). cdb = asus_write_cdb field \<and> (input = af_stock field \<or> input = af_live field)))"

lemma asus_part_simps: "optical_context.more c = asus_part p \<longleftrightarrow> as_profile c = p"
  for c :: "'t asus_context"
  by (cases c) simp

text \<open>What a snapshot of the memory showed, word by word.\<close>

definition asus_shown :: "asus_profile \<Rightarrow> asus_state \<Rightarrow> (byte list \<times> byte list) list" where
  "asus_shown layout state =
     (asus_memory_cdb 0 asus_COMPLEMENTED_START_ADDRESS 1, at_complemented_start state)
     # (asus_memory_cdb 0 asus_START_PSN_ADDRESS 1, at_start_psn state)
     # rev (zip (map asus_read_cdb (ap_fields layout)) (at_values state))"

definition asus_stock_shown :: "asus_profile \<Rightarrow> (byte list \<times> byte list) list \<Rightarrow> bool" where
  "asus_stock_shown p ws \<longleftrightarrow> (\<forall>field \<in> set (ap_fields p). (asus_read_cdb field, af_stock field) \<in> set ws)"

lemma stock_shown:
  assumes "p \<in> set media_profiles" "layout \<in> set media_profiles" "asus_state_matches p state False"
  shows "asus_stock_shown p (asus_shown layout state)"
proof -
  have vs: "at_values state = map af_stock (ap_fields p)"
    using assms(3) by (simp add: asus_state_matches_def asus_state_memory_matches_def asus_expected_def list.rel_eq)
  have "map asus_read_cdb (ap_fields layout) = map asus_read_cdb (ap_fields p)"
    using profile_words[OF assms(1)] profile_words[OF assms(2)] by simp
  then have "zip (map asus_read_cdb (ap_fields layout)) (at_values state) =
      map (\<lambda>field. (asus_read_cdb field, af_stock field)) (ap_fields p)"
    using vs by (simp add: zip_map_map zip_same_conv_map)
  then show ?thesis by (auto simp: asus_stock_shown_def asus_shown_def)
qed

definition asus_live_shown :: "asus_profile \<Rightarrow> (byte list \<times> byte list) list \<Rightarrow> bool" where
  "asus_live_shown p ws \<longleftrightarrow> (\<forall>field \<in> set (ap_fields p). (asus_read_cdb field, af_live field) \<in> set ws)"

lemma live_shown:
  assumes "asus_state_matches p state True"
  shows "asus_live_shown p (asus_shown p state)"
proof -
  have "at_values state = map af_live (ap_fields p)"
    using assms by (simp add: asus_state_matches_def asus_state_memory_matches_def asus_expected_def list.rel_eq)
  then have "zip (map asus_read_cdb (ap_fields p)) (at_values state) =
      map (\<lambda>field. (asus_read_cdb field, af_live field)) (ap_fields p)"
    by (simp add: zip_map_map zip_same_conv_map)
  then show ?thesis by (auto simp: asus_live_shown_def asus_shown_def)
qed

section \<open>The contract of the drive\<close>

text \<open>A drive that showed the stock words owes nothing more.\<close>

locale asus_drive = patched_drive tops asus_memory False asus_poke I W
  for tops :: "'t transport_ops" and I :: "\<lparr>as_profile :: asus_profile option\<rparr> \<Rightarrow> bool \<Rightarrow> 't \<Rightarrow> bool" and W +
  assumes settle: "p \<in> set media_profiles \<Longrightarrow> asus_stock_shown p ws \<Longrightarrow> I (asus_part (Some p)) True t \<Longrightarrow> W ws t \<Longrightarrow>
      I (asus_part (Some p)) False t"
    and lost_power: "top_device_present tops = Some g \<Longrightarrow> I x True t \<Longrightarrow> g t = (Inr False, t') \<Longrightarrow> I x False t'"
begin

lemma memory_read_shows:
  assumes "asus_memory (asus_read_cdb field) 4"
  shows "leads (oc_holds (\<lambda>t. I x d t \<and> W ws t) a y) (asus_memory_read tops field)
     (outcome (oc_holds (I x d) a y) (\<lambda>v. oc_holds (\<lambda>t. I x d t \<and> W ((asus_read_cdb field, v) # ws) t) a y))"
  unfolding asus_memory_read_def asus_read_cdb_def[symmetric]
  by (rule outcome_seq[OF memory_shows[OF assms]])
     (auto intro!: outcome_if outcome_raise outcome_ret intro: forget_shown)

lemma read_fields_show:
  "\<forall>field \<in> set fs. asus_memory (asus_read_cdb field) 4 \<Longrightarrow>
   leads (oc_holds (\<lambda>t. I x d t \<and> W ws t) a y) (asus_read_fields tops fs)
     (outcome (oc_holds (I x d) a y)
        (\<lambda>vs. oc_holds (\<lambda>t. I x d t \<and> W (rev (zip (map asus_read_cdb fs) vs) @ ws) t) a y))"
proof (induction fs arbitrary: ws)
  case (Cons f fs)
  have one: "asus_memory (asus_read_cdb f) 4" using Cons.prems by simp
  show ?case
    unfolding asus_read_fields.simps
  proof (rule outcome_seq[OF memory_read_shows[OF one]])
    fix v
    show "leads (oc_holds (\<lambda>t. I x d t \<and> W ((asus_read_cdb f, v) # ws) t) a y)
        (seq (asus_read_fields tops fs) (\<lambda>vs. ret (v # vs)))
        (outcome (oc_holds (I x d) a y)
           (\<lambda>vs. oc_holds (\<lambda>t. I x d t \<and> W (rev (zip (map asus_read_cdb (f # fs)) vs) @ ws) t) a y))"
      by (rule outcome_seq[OF Cons.IH]) (use Cons.prems in \<open>auto intro: outcome_ret\<close>)
  qed
qed (auto intro!: outcome_ret)

lemma memory_state_shows:
  assumes "layout \<in> set media_profiles"
  shows "leads (oc_holds (I x d) a y) (asus_read_memory_state tops layout checked)
     (outcome (oc_holds (I x d) a y) (\<lambda>state. oc_holds (\<lambda>t. I x d t \<and> W (asus_shown layout state) t) a y))"
proof -
  have words: "\<forall>field \<in> set (ap_fields layout). asus_memory (asus_read_cdb field) 4"
    using profile_words[OF assms] by (auto simp: asus_memory_def) (metis imageI list.set_map)
  let ?s = "asus_field_of asus_START_PSN_ADDRESS 1 [0, 0, 0, 0] [0, 0, 0, 0]"
  let ?c = "asus_field_of asus_COMPLEMENTED_START_ADDRESS 1 [0, 0, 0, 0] [0, 0, 0, 0]"
  have fixed: "asus_read_cdb ?s = asus_memory_cdb 0 asus_START_PSN_ADDRESS 1"
    "asus_read_cdb ?c = asus_memory_cdb 0 asus_COMPLEMENTED_START_ADDRESS 1"
    by (simp_all add: asus_read_cdb_def asus_field_of_def)
  have known: "asus_memory (asus_read_cdb ?s) 4" "asus_memory (asus_read_cdb ?c) 4"
    by (simp_all add: fixed) (simp_all add: asus_memory_def)
  have ladder: "leads (oc_holds (I x d) a y) (opt_ladder_aborted checked)
      (outcome (oc_holds (I x d) a y) (\<lambda>_. oc_holds (\<lambda>t. I x d t \<and> W [] t) a y))"
    by (rule outcome_post[OF outcome_keeps[OF keeps_ladder]]) (auto intro: start_shows)
  show ?thesis
    unfolding asus_read_memory_state_def asus_read_fixed_memory_def
    by (rule outcome_seq[OF ladder], rule outcome_seq[OF read_fields_show[OF words]],
        rule outcome_seq[OF memory_read_shows[OF known(1)]], rule outcome_seq[OF memory_read_shows[OF known(2)]],
        rule outcome_ret) (simp add: asus_shown_def fixed)
qed

lemma shown_update: "asus_shown layout (state\<lparr>at_last_lba := l, at_block_size := b\<rparr>) = asus_shown layout state"
  by (simp add: asus_shown_def)

lemma state_shows:
  assumes "layout \<in> set media_profiles"
  shows "leads (oc_holds (I x d) a y) (asus_read_state tops layout)
     (outcome (oc_holds (I x d) a y) (\<lambda>state. oc_holds (\<lambda>t. I x d t \<and> W (asus_shown layout state) t) a y))"
proof -
  have capacity: "leads (oc_holds (\<lambda>t. I x d t \<and> W ws t) a y) (opt_on_transport (gdox_mmc_read_capacity_10 tops 10000))
      (outcome (oc_holds (I x d) a y) (\<lambda>_. oc_holds (\<lambda>t. I x d t \<and> W ws t) a y))" for ws
    by (rule outcome_post[OF outcome_keeps[OF keeps_opt_transport[OF shown.quiet_capacity]]]) (auto intro: forget_shown)
  show ?thesis
    unfolding asus_read_state_def
    by (rule outcome_seq[OF memory_state_shows[OF assms]], rule outcome_seq[OF capacity], rule outcome_case_prod, rule outcome_ret)
       (simp add: shown_update)
qed

lemma restore_state_shows:
  assumes "layout \<in> set media_profiles"
  shows "leads (oc_holds (I x d) a y) (asus_read_restore_state tops layout)
     (outcome (oc_holds (I x d) a y) (\<lambda>state. oc_holds (\<lambda>t. I x d t \<and> W (asus_shown layout state) t) a y))"
proof -
  have capacity: "leads (oc_holds (\<lambda>t. I x d t \<and> W ws t) a y)
      (opt_on_transport (gdox_optical_restore_read_capacity tops 10000 l))
      (outcome (oc_holds (I x d) a y) (\<lambda>_. oc_holds (\<lambda>t. I x d t \<and> W ws t) a y))" for ws l
    by (rule outcome_post[OF outcome_keeps[OF keeps_opt_transport[OF shown.quiet_restore_capacity]]]) (auto intro: forget_shown)
  show ?thesis
    unfolding asus_read_restore_state_def
    by (rule outcome_seq[OF memory_state_shows[OF assms]], rule outcome_seq[OF capacity],
        rule outcome_case_prod, rule outcome_case_prod, rule outcome_ret)
       (simp add: shown_update)
qed

text \<open>The driver knows its profile.\<close>

lemma with_profile:
  assumes "leads (oc_holds K a (asus_part (Some p))) (f p) Q"
  shows "leads (oc_holds K a (asus_part (Some p))) (seq (gets as_layout) f) Q"
  using assms by (auto simp: leads_def seq_def gets_def oc_holds_def asus_part_simps)

lemma matched_settles:
  assumes "p \<in> set media_profiles" "asus_state_matches p state False"
    "oc_holds (\<lambda>t. I (asus_part (Some p)) True t \<and> W (asus_shown p state) t) a y c"
  shows "oc_holds (I (asus_part (Some p)) False) a y c"
  using assms(3) settle[OF assms(1) stock_shown[OF assms(1,1,2)]] by (auto simp: oc_holds_def open_holds_def)

lemma writes_keep:
  assumes "p \<in> set media_profiles" "field \<in> set (ap_fields p)" "v = af_stock field \<or> v = af_live field"
  shows "keeps (oc_holds (I (asus_part (Some p)) True) a y) (asus_memory_write tops field v)"
  unfolding asus_memory_write_def asus_write_cdb_def[symmetric]
  by (intro keeps_rules poke_keeps) (use assms in \<open>auto simp: asus_poke_def\<close>)

lemma restore_stock_settles:
  assumes "p \<in> set media_profiles"
  shows "leads (oc_holds (I (asus_part (Some p)) True) a (asus_part (Some p))) (asus_restore_stock tops)
     (outcome (oc_holds (I (asus_part (Some p)) True) a (asus_part (Some p)))
        (\<lambda>_. oc_holds (I (asus_part (Some p)) False) a (asus_part (Some p))))"
proof -
  let ?x = "asus_part (Some p)"
  have inside: "ap_fields p ! i \<in> set (ap_fields p)" if "i \<in> set asus_restore_order" for i
    using that profile_length[OF assms] by (auto simp: asus_restore_order_def)
  have writes: "keeps (oc_holds (I ?x True) a ?x) (opt_first_error (map (\<lambda>i. asus_memory_write tops (ap_fields p ! i)
      (af_stock (ap_fields p ! i))) asus_restore_order))"
    by (rule keeps_first_error) (auto intro!: writes_keep[OF assms] inside)
  show ?thesis
    unfolding asus_restore_stock_def Let_def
    by (rule with_profile, rule outcome_seq[OF outcome_keeps[OF writes]],
        rule outcome_seq[OF outcome_attempt[OF restore_state_shows[OF assms]]],
        rule outcome_case_sum, rule outcome_raise, assumption, rule outcome_if,
        rule outcome_ret, erule matched_settles[OF assms, rotated], assumption,
        rule outcome_raise, erule forget_shown)
qed

lemma guarded_restore_settles:
  assumes "p \<in> set media_profiles"
  shows "leads (oc_holds (I (asus_part (Some p)) True) a (asus_part (Some p))) (asus_guarded_restore_stock tops)
     (outcome (oc_holds (I (asus_part (Some p)) True) a (asus_part (Some p)))
        (\<lambda>_. oc_holds (I (asus_part (Some p)) False) a (asus_part (Some p))))"
  unfolding asus_guarded_restore_stock_def
  by (rule with_profile, rule outcome_seq[OF restore_state_shows[OF assms]], rule outcome_if, rule outcome_raise,
      erule forget_shown, rule outcome_if, rule outcome_ret, erule matched_settles[OF assms, rotated], assumption,
      rule outcome_pre[OF restore_stock_settles[OF assms]], erule forget_shown)

lemma apply_live_keeps:
  assumes "p \<in> set media_profiles"
  shows "keeps (oc_holds (I (asus_part (Some p)) True) a (asus_part (Some p))) (asus_apply_live tops)"
proof (rule keeps_outcome)
  let ?x = "asus_part (Some p)"
  have writes: "keeps (oc_holds (I ?x True) a ?x) (each (\<lambda>field. asus_memory_write tops field (af_live field)) (ap_fields p))"
    by (intro keeps_rules writes_keep[OF assms]) auto
  show "leads (oc_holds (I ?x True) a ?x) (asus_apply_live tops)
      (outcome (oc_holds (I ?x True) a ?x) (\<lambda>_. oc_holds (I ?x True) a ?x))"
    unfolding asus_apply_live_def
    by (rule with_profile, rule outcome_seq[OF outcome_keeps[OF writes]], rule outcome_seq[OF state_shows[OF assms]],
        rule outcome_if, rule outcome_ret, erule forget_shown, rule outcome_raise, erule forget_shown)
qed

lemma ensure_live_keeps:
  assumes "p \<in> set media_profiles"
  shows "keeps (oc_holds (I (asus_part (Some p)) True) a (asus_part (Some p))) (asus_ensure_live tops)"
proof (rule keeps_outcome)
  let ?x = "asus_part (Some p)"
  let ?P = "oc_holds (I ?x True) a ?x"
  have stock: "leads ?P (asus_restore_stock tops) (outcome ?P (\<lambda>_. ?P))"
    by (rule outcome_post[OF restore_stock_settles[OF assms]]) (auto intro: hold_armed)
  have live: "leads ?P (asus_apply_live tops) (outcome ?P (\<lambda>_. ?P))"
    by (rule outcome_keeps[OF apply_live_keeps[OF assms]])
  have again: "leads ?P (seq (if b then asus_restore_stock tops else ret ()) (\<lambda>_. asus_apply_live tops)) (outcome ?P (\<lambda>_. ?P))" for b
    by (rule outcome_seq[OF outcome_if[OF stock outcome_ret] live]) simp
  show "leads ?P (asus_ensure_live tops) (outcome ?P (\<lambda>_. ?P))"
    unfolding asus_ensure_live_def
    by (rule with_profile, rule outcome_seq[OF state_shows[OF assms]], rule outcome_if, rule outcome_ret, erule forget_shown,
        rule outcome_if, rule outcome_raise, erule forget_shown, rule outcome_pre[OF again], erule forget_shown)
qed

text \<open>
  A recovery that succeeds has seen the live words, and nothing was written after that. It leaves the
  account of the debt alone.
\<close>

definition asus_lives :: "asus_profile \<Rightarrow> 't \<Rightarrow> bool" where
  "asus_lives p t \<longleftrightarrow> I (asus_part (Some p)) True t \<and> (\<exists>ws. asus_live_shown p ws \<and> W ws t)"

lemma lives_quiet: "quiet_optical tops asus_memory False (asus_lives p)"
proof -
  have step: "asus_lives p t'" if "asus_lives p t" "\<And>x d. I x d t \<longrightarrow> I x d t'" "\<And>ws. W ws t \<longrightarrow> W ws t'" for t t'
    using that by (auto simp: asus_lives_def)
  show ?thesis
    by unfold_locales
       ((erule step; drule (1) drive_asks drive_nods drive_prepares drive_presents; blast)
         | (erule step; drule drive_resets; blast))+
qed

lemma matched_lives:
  "asus_state_matches p state True \<Longrightarrow>
   oc_holds (\<lambda>t. I (asus_part (Some p)) True t \<and> W (asus_shown p state) t) a y c \<Longrightarrow> oc_holds (asus_lives p) a y c"
  by (erule oc_holds_mono[rotated]) (auto simp: asus_lives_def dest: live_shown)

lemma ensured_lives:
  assumes "p \<in> set media_profiles"
  shows "leads (oc_holds (I (asus_part (Some p)) True) a (asus_part (Some p))) (asus_ensure_live tops)
     (outcome (oc_holds (I (asus_part (Some p)) True) a (asus_part (Some p)))
        (\<lambda>_. oc_holds (asus_lives p) a (asus_part (Some p))))"
proof -
  let ?x = "asus_part (Some p)"
  let ?P = "oc_holds (I ?x True) a ?x" and ?Q = "oc_holds (asus_lives p) a ?x"
  have writes: "keeps ?P (each (\<lambda>field. asus_memory_write tops field (af_live field)) (ap_fields p))"
    by (intro keeps_rules writes_keep[OF assms]) auto
  have applied: "leads ?P (asus_apply_live tops) (outcome ?P (\<lambda>_. ?Q))"
    unfolding asus_apply_live_def
    by (rule with_profile, rule outcome_seq[OF outcome_keeps[OF writes]], rule outcome_seq[OF state_shows[OF assms]],
        rule outcome_if, rule outcome_ret, erule (1) matched_lives, rule outcome_raise, erule forget_shown)
  have stock: "leads ?P (asus_restore_stock tops) (outcome ?P (\<lambda>_. ?P))"
    by (rule outcome_post[OF restore_stock_settles[OF assms]]) (auto intro: hold_armed)
  have again: "leads ?P (seq (if b then asus_restore_stock tops else ret ()) (\<lambda>_. asus_apply_live tops)) (outcome ?P (\<lambda>_. ?Q))" for b
    by (rule outcome_seq[OF outcome_if[OF stock outcome_ret] applied]) simp
  show ?thesis
    unfolding asus_ensure_live_def
    by (rule with_profile, rule outcome_seq[OF state_shows[OF assms]], rule outcome_if, rule outcome_ret,
        erule (1) matched_lives, rule outcome_if, rule outcome_raise, erule forget_shown,
        rule outcome_pre[OF again], erule forget_shown)
qed

lemma recovered_lives:
  assumes "p \<in> set media_profiles"
  shows "leads (oc_holds (I (asus_part (Some p)) True) a (asus_part (Some p))) (opt_recover (asus_driver tops) tops expected)
     (outcome (oc_holds (I (asus_part (Some p)) True) a (asus_part (Some p)))
        (\<lambda>_. oc_holds (asus_lives p) a (asus_part (Some p))))"
proof -
  let ?x = "asus_part (Some p)"
  let ?P = "oc_holds (I ?x True) a ?x" and ?Q = "oc_holds (asus_lives p) a ?x"
  have live: "leads ?P (dr_ensure_live (asus_driver tops)) (outcome ?P (\<lambda>_. ?Q))"
    using ensured_lives[OF assms] by (simp add: asus_driver_def)
  note quiet = outcome_keeps[OF keeps_ladder] outcome_keeps[OF owed.quiet_media_unchanged]
    outcome_keeps[OF keeps_attempt[OF keeps_opt_transport[OF owed.quiet_ready]]]
    outcome_keeps[OF keeps_attempt[OF keeps_opt_transport[OF owed.quiet_reset]]]
  have await: "leads ?P (opt_await_ready (asus_driver tops) tops expected k e) (outcome ?P (\<lambda>_. ?Q))" for k e
  proof (induction k arbitrary: e)
    case (Suc k)
    have ready: "leads ?P (case r of Inr _ \<Rightarrow> dr_ensure_live (asus_driver tops)
        | Inl e \<Rightarrow> if code e = ERROR_NOT_FOUND then raise e else opt_await_ready (asus_driver tops) tops expected k e)
        (outcome ?P (\<lambda>_. ?Q))" for r :: "unit res"
      using Suc live by (cases r) (auto intro: outcome_raise)
    show ?case
      unfolding opt_await_ready.simps
      by (rule outcome_seq[OF quiet(1)], rule outcome_seq[OF quiet(3)], rule outcome_seq[OF quiet(2)], rule ready)
  qed (simp add: outcome_raise)
  have unloaded: "dr_loads (asus_driver tops) = False" by (simp add: asus_driver_def)
  show ?thesis
    unfolding opt_recover_def unloaded if_False
    by (rule outcome_seq[OF quiet(1)], rule outcome_seq[OF quiet(2)], rule outcome_seq[OF quiet(4)],
        rule outcome_seq[OF quiet(2)], rule outcome_seq[OF outcome_ret[of ?P]], assumption, rule await)
qed

text \<open>A preparation to close where no debt is noted only prepares the transport.\<close>

lemma unnoted_prepares: "keeps (oc_holds (asus_lives p) False x) (opt_prepare_close (asus_driver tops) tops)"
proof -
  have settle: "keeps (oc_holds (asus_lives p) False x) (opt_settle m)" for m
    by (auto simp: keeps_def opt_settle_def seq_def gets_def ret_def oc_holds_def)
  show ?thesis
    unfolding opt_prepare_close_def
    by (intro keeps_rules settle keeps_opt_transport quiet_optical.quiet_prepare[OF lives_quiet])
qed

lemma asus_driver_patched:
  assumes "p \<in> set media_profiles"
  shows "patched_driver tops asus_memory False asus_poke I W (asus_driver tops) (asus_part (Some p))"
  by unfold_locales
     (simp_all add: asus_driver_def guarded_restore_settles[OF assms] ensure_live_keeps[OF assms] lost_power)

section \<open>Opening\<close>

text \<open>What a context that is being opened owes, before and after its profile is known.\<close>

definition asus_untouched :: "'t asus_context \<Rightarrow> bool" where
  "asus_untouched c \<longleftrightarrow> \<not> oc_active c \<and> open_holds (\<lambda>t. \<forall>x. I x False t) (oc_transport c)"

definition asus_account :: "'t asus_context \<Rightarrow> bool" where
  "asus_account c \<longleftrightarrow> asus_untouched c \<or> (\<exists>p \<in> set media_profiles. opt_owed I (asus_part (Some p)) c)"

definition asus_selected :: "bool \<Rightarrow> 't asus_context \<Rightarrow> bool" where
  "asus_selected d c \<longleftrightarrow> (\<exists>p \<in> set media_profiles. oc_holds (I (asus_part (Some p)) d) d (asus_part (Some p)) c)"

lemma selected_account: "asus_selected d c \<Longrightarrow> asus_account c"
  by (auto simp: asus_selected_def asus_account_def opt_owed_cases)

sublocale fresh: quiet_optical tops asus_memory False "\<lambda>t. \<forall>x. I x False t"
  by unfold_locales
     (meson drive_asks drive_nods drive_resets drive_prepares drive_presents)+

lemma untouched_holds:
  "asus_untouched c \<longleftrightarrow> oc_holds (\<lambda>t. \<forall>x. I x False t) False (optical_context.more c) c"
  by (simp add: asus_untouched_def oc_holds_def)

lemma normalizing_settles:
  assumes p: "p \<in> set media_profiles" and c: "oc_holds (I (asus_part (Some p)) False) False (asus_part (Some p)) c"
    and m: "seq (modify (\<lambda>c. c\<lparr>oc_active := True\<rparr>)) (\<lambda>_.
      seq (attempt (opt_restore_after_streaming (asus_driver tops) tops)) (\<lambda>restored. case restored of
        Inl _ \<Rightarrow> raise e | Inr _ \<Rightarrow> modify (\<lambda>c. c\<lparr>oc_active := False\<rparr>))) c = (r, c')"
  shows "outcome asus_account (\<lambda>_. asus_selected False) r c'"
proof -
  let ?x = "asus_part (Some p)"
  note settles = patched_driver.restoring_settles[OF asus_driver_patched[OF p], of True]
  let ?c = "c\<lparr>oc_active := True\<rparr>"
  obtain q d where q: "opt_restore_after_streaming (asus_driver tops) tops ?c = (q, d)" by fastforce
  have "oc_holds (I ?x True) True ?x ?c" using hold_armed[OF c] by (simp add: oc_holds_def)
  note d = leadsD[OF settles this q]
  show ?thesis
  proof (cases q)
    case (Inl z)
    then have "asus_account d" using d p by (auto simp: asus_account_def opt_owed_cases)
    with m q Inl show ?thesis by (auto simp: seq_def modify_def attempt_def raise_def)
  next
    case (Inr u)
    have "asus_selected False (d\<lparr>oc_active := False\<rparr>)"
      using d p Inr unfolding asus_selected_def by (intro bexI[OF _ p]) (simp add: oc_holds_def)
    with m q Inr show ?thesis by (auto simp: seq_def modify_def attempt_def)
  qed
qed

lemma selecting_settles:
  "leads asus_untouched (asus_select_and_normalize tops required)
     (outcome asus_account (\<lambda>_. asus_selected False))"
proof (rule leadsI)
  fix c r c'
  assume c: "asus_untouched c" and m: "asus_select_and_normalize tops required c = (r, c')"
  obtain q d where q: "asus_read_state tops xgd1_profile c = (q, d)" by fastforce
  have xgd1: "xgd1_profile \<in> set media_profiles" by (simp add: media_profiles_def)
  have "keeps (oc_holds (\<lambda>t. \<forall>x. I x False t) False (optical_context.more c)) (asus_read_state tops xgd1_profile)"
  proof (rule keepsI)
    fix s r s'
    assume s: "oc_holds (\<lambda>t. \<forall>x. I x False t) False (optical_context.more c) s" and m: "asus_read_state tops xgd1_profile s = (r, s')"
    have "oc_holds (I x False) False (optical_context.more c) s'" for x
    proof -
      have "oc_holds (I x False) False (optical_context.more c) s" using s by (auto simp: oc_holds_def open_holds_def)
      from leadsD[OF state_shows[OF xgd1] this m] show ?thesis
        by (cases r) (auto intro: forget_shown)
    qed
    then show "oc_holds (\<lambda>t. \<forall>x. I x False t) False (optical_context.more c) s'"
      by (auto simp: oc_holds_def open_holds_def)
  qed
  from keepsD[OF this _ q] c have d: "asus_untouched d"
    by (simp add: untouched_holds) (simp add: oc_holds_def)
  then have account: "asus_account d" by (simp add: asus_account_def)
  show "outcome asus_account (\<lambda>_. asus_selected False) r c'"
  proof (cases q)
    case (Inl e)
    with m q account show ?thesis by (auto simp: asus_select_and_normalize_def seq_def)
  next
    case (Inr state)
    show ?thesis
    proof (cases "asus_select_known_profile state")
      case None
      with m q Inr account show ?thesis by (auto simp: asus_select_and_normalize_def seq_def raise_def)
    next
      case (Some p)
      then have p: "p \<in> set media_profiles" by (simp add: select_known)
      let ?d = "d\<lparr>as_profile := Some p\<rparr>"
      have held: "oc_holds (I (asus_part (Some p)) False) False (asus_part (Some p)) ?d"
        using d by (auto simp: asus_untouched_def oc_holds_def open_holds_def asus_part_simps)
      then have selected: "asus_selected False ?d" using p by (auto simp: asus_selected_def)
      show ?thesis
        using m q Inr Some account selected normalizing_settles[OF p held]
        by (auto simp: asus_select_and_normalize_def seq_def raise_def modify_def ret_def split: if_splits)
    qed
  qed
qed

lemma selected_cases:
  assumes "\<And>p. p \<in> set media_profiles \<Longrightarrow>
     leads (oc_holds (I (asus_part (Some p)) d) d (asus_part (Some p))) m Q"
  shows "leads (asus_selected d) m Q"
  using assms by (auto simp: leads_def asus_selected_def)

lemma initializing_arms:
  "leads asus_untouched (asus_initialize tops required ready_timeout_ms)
     (outcome asus_account (\<lambda>_. asus_selected True))"
proof -
  have wait: "leads asus_untouched (opt_wait_for_ready tops ready_timeout_ms) (outcome asus_account (\<lambda>_. asus_untouched))"
  proof (rule leadsI)
    fix c r c'
    assume c: "asus_untouched c" and m: "opt_wait_for_ready tops ready_timeout_ms c = (r, c')"
    have "asus_untouched c'"
      using keepsD[OF fresh.quiet_wait_for_ready _ m] c by (simp add: untouched_holds) (simp add: oc_holds_def)
    then show "outcome asus_account (\<lambda>_. asus_untouched) r c'"
      by (cases r) (simp_all add: asus_account_def)
  qed
  have evidence: "leads (asus_selected False) (opt_collect_evidence tops prefix mismatch)
      (outcome asus_account (\<lambda>_. asus_selected False))" for prefix mismatch
    by (rule selected_cases, rule outcome_post[OF outcome_keeps[OF owed.quiet_evidence]])
       (auto intro: selected_account[unfolded asus_selected_def] simp: asus_selected_def)
  have owed: "opt_owed I (asus_part (Some p)) c \<Longrightarrow> asus_account c" if "p \<in> set media_profiles" for p c
    using that by (auto simp: asus_account_def)
  have applying: "leads (asus_selected False) (opt_apply_with_rollback (asus_driver tops) tops (asus_apply_live tops))
      (outcome asus_account (\<lambda>_. asus_selected True))"
    by (rule selected_cases,
        rule outcome_post[OF patched_driver.applying_arms[OF asus_driver_patched apply_live_keeps]])
       (auto intro: owed simp: asus_selected_def)
  have validate: "leads (asus_selected True) (opt_validate_descriptor (asus_driver tops) tops lba)
      (outcome asus_account (\<lambda>_. asus_selected True))" for lba
    by (rule selected_cases, rule outcome_post[OF patched_driver.validating_stays[OF asus_driver_patched]])
       (auto intro: owed simp: asus_selected_def)
  show ?thesis
    unfolding asus_initialize_def
    by (rule outcome_seq[OF wait], rule outcome_seq[OF selecting_settles], rule outcome_seq[OF evidence],
        rule outcome_seq[OF applying], rule validate)
qed

text \<open>A context without a debt, released by a failed opening.\<close>

definition asus_settled :: "'t asus_context \<Rightarrow> bool" where
  "asus_settled c \<longleftrightarrow> asus_untouched c
     \<or> (\<exists>p \<in> set media_profiles. oc_holds (I (asus_part (Some p)) False) False (asus_part (Some p)) c)"

lemma untouched_closes:
  assumes "asus_untouched c" "gdox_scsi_transport_close tops (oc_transport c) = (z, t)"
  shows "asus_untouched (c\<lparr>oc_transport := t\<rparr>)"
proof (cases t)
  case (Some v)
  then have "gdox_scsi_transport_prepare_close tops (oc_transport c) = (z, Some v)"
    using transport_close_keeps[of tops "oc_transport c" z v] assms(2) by auto
  from keepsD[OF fresh.quiet_prepare _ this] assms(1) Some show ?thesis
    by (simp add: asus_untouched_def)
qed (use assms in \<open>simp add: asus_untouched_def\<close>)

lemma cleanup_accounts:
  assumes "asus_account c" and "opt_cleanup_failed_open (asus_driver tops) tops e c = (e', source, released)"
  shows "(\<forall>c'. source = Some c' \<longrightarrow> asus_account c') \<and> (\<forall>c'. released = Some c' \<longrightarrow> asus_settled c')"
proof (cases "asus_untouched c")
  case True
  obtain z t where z: "gdox_scsi_transport_close tops (oc_transport c) = (z, t)" by fastforce
  have "opt_settle (opt_restore_after_streaming (asus_driver tops) tops) c = (Inr (), c)"
    using True by (simp add: opt_settle_def seq_def gets_def ret_def asus_untouched_def)
  with assms(2) z untouched_closes[OF True z] True show ?thesis
    by (auto simp: opt_cleanup_failed_open_def asus_account_def asus_settled_def split: sum.splits)
next
  case False
  then obtain p where p: "p \<in> set media_profiles" "opt_owed I (asus_part (Some p)) c"
    using assms(1) by (auto simp: asus_account_def)
  from patched_driver.cleanup_settles[OF asus_driver_patched[OF p(1)] p(2) assms(2)] p(1)
  show ?thesis by (auto simp: asus_account_def asus_settled_def)
qed

lemma opening_accounts:
  assumes "\<And>k. open_holds (\<lambda>t. \<forall>x. I x False t) (snd (opener k))"
    and "asus_source_open_profile tops required opener host retries ready_timeout None = (r, source, released)"
  shows "(\<forall>c. source = Some c \<longrightarrow> asus_account c \<and> (\<forall>kind. r = Inr kind \<longrightarrow> asus_selected True c))
    \<and> (\<forall>c. released = Some c \<longrightarrow> asus_settled c)"
proof -
  obtain q t where q: "opt_open_validated tops asus_identity_is_validated
      ''USB device is not the validated ASUS SDRW-08D1S-U A202 mechanism'' opener = (q, t)" by fastforce
  have t: "open_holds (\<lambda>t. \<forall>x. I x False t) t" by (rule fresh.quiet_open_validated[OF assms(1) q])
  let ?c = "new_asus host required t"
  have new: "asus_untouched ?c" using t by (simp add: asus_untouched_def new_asus_def)
  obtain z d where z: "asus_initialize tops required ready_timeout ?c = (z, d)" by fastforce
  note armed = leadsD[OF initializing_arms new z]
  show ?thesis
  proof (cases q)
    case (Inl e)
    with assms(2) q new show ?thesis
      by (auto simp: asus_source_open_profile_def asus_account_def split: if_splits)
  next
    case (Inr u)
    show ?thesis
    proof (cases z)
      case (Inl e)
      with assms(2) q \<open>q = Inr u\<close> z armed cleanup_accounts[of d e] show ?thesis
        by (auto simp: asus_source_open_profile_def split: if_splits prod.splits)
    next
      case (Inr v)
      have "asus_selected True (opt_begin_session tops (d\<lparr>oc_retries := n\<rparr>))" for n
      proof -
        obtain p where p: "p \<in> set media_profiles" "oc_holds (I (asus_part (Some p)) True) True (asus_part (Some p)) d"
          using armed Inr by (auto simp: asus_selected_def)
        then have "oc_holds (I (asus_part (Some p)) True) True (asus_part (Some p)) (d\<lparr>oc_retries := n\<rparr>)"
          by (simp add: oc_holds_def)
        from owed.quiet_begin_session[OF this] p(1) show ?thesis by (auto simp: asus_selected_def)
      qed
      with assms(2) q \<open>q = Inr u\<close> z Inr selected_account show ?thesis
        by (auto simp: asus_source_open_profile_def split: if_splits)
    qed
  qed
qed

text \<open>A context of which nothing is owed closes as one whose profile is known.\<close>

lemma untouched_prepares:
  assumes "asus_untouched c"
  shows "opt_prepare_close (asus_driver tops) tops c = (q, c') \<Longrightarrow> asus_untouched c'"
proof -
  have settle: "opt_settle m d = (Inr (), d)" if "asus_untouched d" for m d
    using that by (simp add: opt_settle_def seq_def gets_def ret_def asus_untouched_def)
  have locked: "asus_untouched (c\<lparr>oc_mutex := l\<rparr>)" for l using assms by (simp add: asus_untouched_def)
  have prepare: "asus_untouched d'"
    if "asus_untouched d" "opt_on_transport (gdox_scsi_transport_prepare_close tops) d = (q, d')" for d q d'
    using keepsD[OF keeps_opt_transport[OF fresh.quiet_prepare] _ that(2)] that(1)
    by (simp add: untouched_holds) (simp add: oc_holds_def)
  show "opt_prepare_close (asus_driver tops) tops c = (q, c') \<Longrightarrow> asus_untouched c'"
    using assms locked settle
    by (auto simp: opt_prepare_close_def seq_def opt_locked_def split: list.splits if_splits dest: prepare[OF locked] prepare[OF assms])
qed

lemma account_prepares:
  assumes "asus_account c" "gdox_source_prepare_close (opt_source_ops (asus_driver tops) tops sectors) (Some c) = (q, Some c')"
  shows "asus_account c' \<and> (q = Inr () \<longrightarrow> asus_settled c')"
proof -
  have prep: "opt_prepare_close (asus_driver tops) tops c = (q, c')"
    using assms(2) by (auto simp: gdox_source_prepare_close_def split: prod.splits)
  show ?thesis
  proof (cases "asus_untouched c")
    case True
    with untouched_prepares[OF True prep] show ?thesis by (simp add: asus_account_def asus_settled_def)
  next
    case False
    then obtain p where p: "p \<in> set media_profiles" "opt_owed I (asus_part (Some p)) c"
      using assms(1) by (auto simp: asus_account_def)
    note owes = asus_driver_patched[OF p(1)]
    have "outcome (opt_owed I (asus_part (Some p))) (\<lambda>_. oc_holds (I (asus_part (Some p)) False) False (asus_part (Some p))) q c'"
      by (rule patched_driver.source_preparing[OF owes p(2) assms(2)])
    with p(1) patched_driver.settled_owed[OF owes] show ?thesis
      by (cases q) (auto simp: asus_account_def asus_settled_def)
  qed
qed

lemma account_closes:
  assumes "asus_account c" "gdox_source_close (opt_source_ops (asus_driver tops) tops sectors) (Some c) = (s, lost, source')"
  shows "(source' = None \<longrightarrow>
      (\<exists>c'. gdox_source_prepare_close (opt_source_ops (asus_driver tops) tops sectors) (Some c) = (Inr (), Some c')
        \<and> asus_settled c'))
    \<and> (\<forall>c'. source' = Some c' \<longrightarrow> asus_account c')"
proof -
  obtain q c' where p: "gdox_source_prepare_close (opt_source_ops (asus_driver tops) tops sectors) (Some c) = (q, Some c')"
    by (cases "opt_prepare_close (asus_driver tops) tops c") (simp add: gdox_source_prepare_close_def)
  from account_prepares[OF assms(1) p] p assms(2) show ?thesis
    by (cases q) (auto simp: gdox_source_close_def split: prod.splits)
qed

end

section \<open>The recorded commands\<close>

fun asus_permitted :: "\<lparr>as_profile :: asus_profile option\<rparr> \<Rightarrow> sent \<Rightarrow> bool" where
  "asus_permitted x (SentIn cdb n) = (mmc_query cdb n \<or> asus_memory cdb n)"
| "asus_permitted x (SentNone cdb) = (cdb = test_unit_ready_cdb)"
| "asus_permitted x (SentOut cdb input) = asus_poke x cdb input"
| "asus_permitted x SentReset = True"

interpretation recorded_asus: asus_drive "logged_ops tops" "\<lambda>x _ w. list_all (asus_permitted x) (snd w)" "\<lambda>_ _. True" for tops
  by unfold_locales (auto simp: logged_ops_def logged_def unlogged_def split: prod.splits)

section \<open>A drive with volatile words\<close>

text \<open>
  \<open>mem t\<close> is what the memory shows to a memory read. A query leaves it as it is, or finds the memory
  of a drive that lost its power meanwhile; a transport that reports the drive absent has seen it
  lose its power. Nothing is asked of the writes.
\<close>

definition asus_volatile :: "'t transport_ops \<Rightarrow> ('t \<Rightarrow> byte list \<Rightarrow> byte list) \<Rightarrow> (byte list \<Rightarrow> byte list) \<Rightarrow> bool" where
  "asus_volatile tops mem power_on \<longleftrightarrow>
     (\<forall>t name cdb n timeout_ms r t'. mmc_query cdb n \<or> asus_memory cdb n \<longrightarrow>
        top_command_in tops t name cdb n timeout_ms = (r, t') \<longrightarrow>
        (mem t' = mem t \<or> mem t' = power_on) \<and> (asus_memory cdb n \<longrightarrow> (\<forall>bs. r = Inr bs \<longrightarrow> bs = mem t' cdb)))
     \<and> (\<forall>t name timeout_ms q t'. top_command_none tops t name test_unit_ready_cdb timeout_ms = (q, t') \<longrightarrow>
          mem t' = mem t \<or> mem t' = power_on)
     \<and> (\<forall>t q t'. top_reset tops t = (q, t') \<longrightarrow> mem t' = mem t \<or> mem t' = power_on)
     \<and> (\<forall>f t q t'. top_prepare_close tops = Some f \<longrightarrow> f t = (q, t') \<longrightarrow> mem t' = mem t \<or> mem t' = power_on)
     \<and> (\<forall>g t b t'. top_device_present tops = Some g \<longrightarrow> g t = (b, t') \<longrightarrow>
          (mem t' = mem t \<or> mem t' = power_on) \<and> (b = Inr False \<longrightarrow> mem t' = power_on))"

definition asus_stock_memory :: "asus_profile \<Rightarrow> (byte list \<Rightarrow> byte list) \<Rightarrow> bool" where
  "asus_stock_memory p m \<longleftrightarrow> (\<forall>field \<in> set (ap_fields p). m (asus_read_cdb field) = af_stock field)"

definition asus_live_memory :: "asus_profile \<Rightarrow> (byte list \<Rightarrow> byte list) \<Rightarrow> bool" where
  "asus_live_memory p m \<longleftrightarrow> (\<forall>field \<in> set (ap_fields p). m (asus_read_cdb field) = af_live field)"

text \<open>The memory as it was found, as a power loss leaves it, or with the stock words of the profile.\<close>

definition asus_left ::
  "(byte list \<Rightarrow> byte list) \<Rightarrow> (byte list \<Rightarrow> byte list) \<Rightarrow> \<lparr>as_profile :: asus_profile option\<rparr>
   \<Rightarrow> (byte list \<Rightarrow> byte list) \<Rightarrow> bool" where
  "asus_left found power_on x m \<longleftrightarrow>
     m = found \<or> m = power_on \<or> (\<exists>p. x = asus_part (Some p) \<and> asus_stock_memory p m)"

lemma asus_volatile_drive:
  assumes "asus_volatile tops mem power_on"
  shows "asus_drive tops (\<lambda>x d t. d \<or> asus_left found power_on x (mem t))
     (\<lambda>ws t. mem t = power_on \<or> (\<forall>(cdb, v) \<in> set ws. mem t cdb = v))"
proof -
  have asks: "(mem t' = mem t \<or> mem t' = power_on) \<and> (asus_memory cdb n \<longrightarrow> (\<forall>bs. r = Inr bs \<longrightarrow> bs = mem t' cdb))"
    if "mmc_query cdb n \<or> asus_memory cdb n" "top_command_in tops t name cdb n timeout_ms = (r, t')"
    for t name cdb n timeout_ms r t' using assms that unfolding asus_volatile_def by metis
  have nods: "mem t' = mem t \<or> mem t' = power_on"
    if "top_command_none tops t name test_unit_ready_cdb timeout_ms = (q, t')"
    for t name timeout_ms and q :: "unit res" and t' using assms that unfolding asus_volatile_def by metis
  have resets: "mem t' = mem t \<or> mem t' = power_on" if "top_reset tops t = (q, t')"
    for t and q :: "unit res" and t' using assms that unfolding asus_volatile_def by metis
  have prepares: "mem t' = mem t \<or> mem t' = power_on" if "top_prepare_close tops = Some f" "f t = (q, t')"
    for f t and q :: "unit res" and t' using assms that unfolding asus_volatile_def by metis
  have presents: "(mem t' = mem t \<or> mem t' = power_on) \<and> (b = Inr False \<longrightarrow> mem t' = power_on)"
    if "top_device_present tops = Some g" "g t = (b, t')"
    for g t and b :: "bool res" and t' using assms that unfolding asus_volatile_def by metis
  have step: "(d \<or> asus_left found power_on x (mem t) \<longrightarrow> d \<or> asus_left found power_on x (mem t'))
      \<and> ((mem t = power_on \<or> (\<forall>(cdb, v) \<in> set ws. mem t cdb = v)) \<longrightarrow>
         (mem t' = power_on \<or> (\<forall>(cdb, v) \<in> set ws. mem t' cdb = v)))"
    if "mem t' = mem t \<or> mem t' = power_on" for t t' d x ws
    using that by (auto simp: asus_left_def)
  show ?thesis
  proof unfold_locales
    fix cdb n ws t name timeout_ms bs t'
    assume a: "asus_memory cdb n" "mem t = power_on \<or> (\<forall>(cdb, v) \<in> set ws. mem t cdb = v)"
      "top_command_in tops t name cdb n timeout_ms = (Inr bs, t')"
    show "mem t' = power_on \<or> (\<forall>(cdb', v) \<in> set ((cdb, bs) # ws). mem t' cdb' = v)"
      using asks[OF disjI2[OF a(1)] a(3)] a(1,2) by auto
  next
    fix p ws t
    assume "asus_stock_shown p ws" "mem t = power_on \<or> (\<forall>(cdb, v) \<in> set ws. mem t cdb = v)"
    then show "False \<or> asus_left found power_on (asus_part (Some p)) (mem t)"
      by (fastforce simp: asus_stock_shown_def asus_left_def asus_stock_memory_def)
  next
    fix g x t t'
    assume "top_device_present tops = Some g" "g t = (Inr False, t')"
    from presents[OF this] show "False \<or> asus_left found power_on x (mem t')" by (simp add: asus_left_def)
  qed ((rule step, drule (1) asks, erule conjunct1) | (rule step, rule nods, force)
    | (rule step, rule resets, assumption) | (rule step, erule (1) prepares)
    | (rule step, drule (1) presents, erule conjunct1) | simp)+
qed

section \<open>A sample drive\<close>

text \<open>
  The memory of the sample drive, how many of its next preparations to close fail, and how many of
  its next reads of a sector whose number ends in a zero byte.
\<close>

type_synonym asus_drive_state = "(byte list \<Rightarrow> byte list) \<times> nat \<times> nat"

lemma asus_cdb_bytes:
  "asus_memory_cdb d address s =
     [0xf1, d, byte_of32 24 (word_of_nat address), byte_of32 16 (word_of_nat address), byte_of32 8 (word_of_nat address),
      byte_of32 0 (word_of_nat address), 0, 0, 4, s, 0, 0]"
proof -
  have zeros: "replicate 10 (0 :: byte) = [0, 0, 0, 0, 0, 0, 0, 0, 0, 0]" by (simp add: numeral_eq_Suc)
  have four: "byte_of16 8 (4 :: 16 word) = 0" "byte_of16 0 (4 :: 16 word) = 4" by code_simp+
  show ?thesis
    by (simp add: asus_memory_cdb_def put_be_u16_def put_be_u32_def Let_def zeros four)
qed

lemma asus_cdb_facts:
  "0 < length (asus_memory_cdb d a s)" "length (asus_memory_cdb d a s) \<le> 16" "asus_memory_cdb d a s ! 0 = 0xf1"
  "(asus_memory_cdb 1 a s)[1 := 0] = asus_memory_cdb 0 a s"
  by (simp_all add: asus_cdb_bytes)

definition asus_words :: "byte list list" where
  "asus_words = map asus_read_cdb (ap_fields xgd1_profile)
     @ [asus_memory_cdb 0 asus_START_PSN_ADDRESS 1, asus_memory_cdb 0 asus_COMPLEMENTED_START_ADDRESS 1]"

lemma asus_words_distinct: "distinct asus_words"
  by (simp add: asus_words_def xgd1_profile_def asus_read_cdb_def asus_field_of_def asus_cdb_bytes byte_of32_def
      asus_START_PSN_ADDRESS_def asus_COMPLEMENTED_START_ADDRESS_def)

fun asus_store :: "(byte list \<Rightarrow> byte list) \<Rightarrow> asus_field list \<Rightarrow> bool \<Rightarrow> byte list \<Rightarrow> byte list" where
  "asus_store m [] live = m"
| "asus_store m (field # rest) live =
     asus_store (m(asus_read_cdb field := (if live then af_live field else af_stock field))) rest live"

definition sample_memory :: "bool \<Rightarrow> byte list \<Rightarrow> byte list" where
  "sample_memory live =
     asus_store ((\<lambda>_. [0, 0, 0, 0])(asus_memory_cdb 0 asus_START_PSN_ADDRESS 1 := ap_start_psn xgd1_profile,
        asus_memory_cdb 0 asus_COMPLEMENTED_START_ADDRESS 1 := ap_complemented_start xgd1_profile))
       (ap_fields xgd1_profile) live"

definition asus_inquiry :: "byte list" where
  "asus_inquiry = zero_block 8 @ asus_vendor @ replicate 4 0x20 @ asus_model @ replicate 4 0x20 @ asus_revision @ zero_block 60"

definition sample_asus_answer :: "(byte list \<Rightarrow> byte list) \<Rightarrow> byte list \<Rightarrow> nat \<Rightarrow> byte list" where
  "sample_asus_answer m cdb n =
     (if cdb ! 0 = 0xf1 then m cdb
      else if cdb ! 0 = 0x12 then asus_inquiry
      else if cdb ! 0 = 0x25
      then (if m (asus_read_cdb (ap_fields xgd1_profile ! 7)) = af_live (ap_fields xgd1_profile ! 7)
            then [0, 0x3a, 0x4d, 0x4f, 0, 0, 8, 0] else [0, 0, 0x1b, 0x4f, 0, 0, 8, 0])
      else if cdb ! 0 = 0xad then zero_block 17 @ ap_stock_pfi_prefix xgd1_profile @ zero_block 2032
      else if cdb ! 0 = 0x4a then [0, 6, 0x80, 0]
      else if cdb ! 0 = 0x28 then sample_descriptor
      else zero_block n)"

definition sample_asus :: "asus_drive_state transport_ops" where
  "sample_asus =
     \<lparr>top_command_in = (\<lambda>(m, stuck, faults) name cdb n timeout_ms.
        if cdb ! 0 = 0x28 \<and> cdb ! 5 = 0 \<and> 0 < faults
        then (fail ERROR_TRANSPORT ''unrecovered read error'', m, stuck, faults - 1)
        else (Inr (sample_asus_answer m cdb n), m, stuck, faults)),
      top_command_out = (\<lambda>(m, stuck, faults) name cdb input timeout_ms.
        (Inr (length input), m(cdb[1 := 0] := input), stuck, faults)),
      top_command_none = (\<lambda>t name cdb timeout_ms. (Inr (), t)),
      top_reset = (\<lambda>t. (Inr (), t)), top_close = (\<lambda>t. Inr ()),
      top_prepare_close = Some (\<lambda>(m, stuck, faults).
        if 0 < stuck then (fail ERROR_TRANSPORT ''interface is busy'', m, stuck - 1, faults) else (Inr (), m, stuck, faults)),
      top_last_sense = None, top_device_present = None\<rparr>"

lemma sample_asus_table:
  "top_prepare_close sample_asus = Some (\<lambda>(m, stuck, faults).
     if 0 < stuck then (fail ERROR_TRANSPORT ''interface is busy'', m, stuck - 1, faults) else (Inr (), m, stuck, faults))"
  "top_reset sample_asus t = (Inr (), t)" "top_close sample_asus t = Inr ()" "top_last_sense sample_asus = None"
  "top_device_present sample_asus = None" "top_command_none sample_asus t name cdb timeout_ms = (Inr (), t)"
  by (simp_all add: sample_asus_def)

lemma sample_asus_volatile: "asus_volatile sample_asus fst power_on"
  by (auto simp: asus_volatile_def sample_asus_def asus_memory_def sample_asus_answer_def asus_cdb_facts asus_read_cdb_def
      split: if_splits)

lemma asus_store_other: "cdb \<notin> asus_read_cdb ` set fs \<Longrightarrow> asus_store m fs live cdb = m cdb"
  by (induction fs arbitrary: m) auto

lemma asus_store_word:
  "distinct (map asus_read_cdb fs) \<Longrightarrow> field \<in> set fs \<Longrightarrow>
   asus_store m fs live (asus_read_cdb field) = (if live then af_live field else af_stock field)"
proof (induction fs arbitrary: m)
  case (Cons f fs)
  show ?case
  proof (cases "field = f")
    case True
    with Cons.prems(1) show ?thesis by (simp add: asus_store_other)
  next
    case False
    with Cons show ?thesis by simp
  qed
qed simp

lemma asus_store_again:
  "asus_read_cdb ` set fs = asus_read_cdb ` set gs \<Longrightarrow> distinct (map asus_read_cdb fs) \<Longrightarrow> set fs = set gs \<Longrightarrow>
   distinct (map asus_read_cdb gs) \<Longrightarrow>
   asus_store (asus_store m fs live) gs live' = asus_store m fs live'"
proof (rule ext)
  fix cdb
  assume s: "asus_read_cdb ` set fs = asus_read_cdb ` set gs" "distinct (map asus_read_cdb fs)" "set fs = set gs"
    "distinct (map asus_read_cdb gs)"
  show "asus_store (asus_store m fs live) gs live' cdb = asus_store m fs live' cdb"
  proof (cases "cdb \<in> asus_read_cdb ` set gs")
    case True
    then obtain field where "field \<in> set gs" "cdb = asus_read_cdb field" by auto
    then show ?thesis using s by (simp add: asus_store_word)
  next
    case False
    then show ?thesis using s by (simp add: asus_store_other)
  qed
qed

lemma word_cdbs:
  "distinct (map asus_read_cdb (ap_fields xgd1_profile))"
  "asus_memory_cdb 0 asus_START_PSN_ADDRESS 1 \<notin> asus_read_cdb ` set (ap_fields xgd1_profile)"
  "asus_memory_cdb 0 asus_COMPLEMENTED_START_ADDRESS 1 \<notin> asus_read_cdb ` set (ap_fields xgd1_profile)"
  "asus_memory_cdb 0 asus_START_PSN_ADDRESS 1 \<noteq> asus_memory_cdb 0 asus_COMPLEMENTED_START_ADDRESS 1"
  using asus_words_distinct by (auto simp: asus_words_def)

lemma sample_memory_words:
  "field \<in> set (ap_fields xgd1_profile) \<Longrightarrow> sample_memory live (asus_read_cdb field) = (if live then af_live field else af_stock field)"
  "sample_memory live (asus_memory_cdb 0 asus_START_PSN_ADDRESS 1) = ap_start_psn xgd1_profile"
  "sample_memory live (asus_memory_cdb 0 asus_COMPLEMENTED_START_ADDRESS 1) = ap_complemented_start xgd1_profile"
  using word_cdbs by (simp_all add: sample_memory_def asus_store_word asus_store_other)

lemma sample_memory_again:
  "asus_store (sample_memory live) (ap_fields xgd1_profile) live' = sample_memory live'"
  "asus_store (sample_memory live) (map ((!) (ap_fields xgd1_profile)) asus_restore_order) live' = sample_memory live'"
proof -
  have order: "set (map ((!) (ap_fields xgd1_profile)) asus_restore_order) = set (ap_fields xgd1_profile)"
    "distinct (map asus_read_cdb (map ((!) (ap_fields xgd1_profile)) asus_restore_order))"
  proof -
    have "ap_fields xgd1_profile = map ((!) (ap_fields xgd1_profile)) [0..<8]"
      by (rule nth_equalityI) (simp_all add: xgd1_profile_def)
    moreover have "set asus_restore_order = set [0..<8]" by (auto simp: asus_restore_order_def)
    ultimately show "set (map ((!) (ap_fields xgd1_profile)) asus_restore_order) = set (ap_fields xgd1_profile)"
      by (metis list.set_map)
    have "distinct asus_restore_order" "set asus_restore_order \<subseteq> {0..<8}" by (auto simp: asus_restore_order_def)
    moreover have "inj_on (\<lambda>i. asus_read_cdb (ap_fields xgd1_profile ! i)) {0..<8}"
    proof (rule inj_onI)
      fix i j
      assume "i \<in> {0..<8::nat}" "j \<in> {0..<8}" "asus_read_cdb (ap_fields xgd1_profile ! i) = asus_read_cdb (ap_fields xgd1_profile ! j)"
      moreover have "length (ap_fields xgd1_profile) = 8" by (simp add: xgd1_profile_def)
      ultimately show "i = j" using word_cdbs(1) by (metis atLeastLessThan_iff length_map nth_eq_iff_index_eq nth_map)
    qed
    ultimately show "distinct (map asus_read_cdb (map ((!) (ap_fields xgd1_profile)) asus_restore_order))"
      by (simp add: distinct_map comp_def inj_on_subset)
  qed
  show "asus_store (sample_memory live) (ap_fields xgd1_profile) live' = sample_memory live'"
    unfolding sample_memory_def by (rule asus_store_again) (use word_cdbs(1) in auto)
  show "asus_store (sample_memory live) (map ((!) (ap_fields xgd1_profile)) asus_restore_order) live' = sample_memory live'"
    unfolding sample_memory_def by (rule asus_store_again) (use word_cdbs(1) order in auto)
qed

lemma sample_asus_in:
  "0 < length cdb \<Longrightarrow> length cdb \<le> 16 \<Longrightarrow> 0 < n \<Longrightarrow> cdb ! 0 \<noteq> 0x28 \<or> cdb ! 5 \<noteq> 0 \<or> faults = 0 \<Longrightarrow>
   gdox_scsi_command_in sample_asus name cdb n timeout_ms (Some (m, stuck, faults)) =
     (Inr (sample_asus_answer m cdb n), Some (m, stuck, faults))"
  by (auto simp: gdox_scsi_command_in_def validate_cdb_def gdox_scsi_transport_is_valid_def sample_asus_def)

lemma sample_word_read:
  "oc_transport c = Some (m, stuck, faults) \<Longrightarrow> length (m (asus_read_cdb field)) = 4 \<Longrightarrow>
   asus_memory_read sample_asus field c = (Inr (m (asus_read_cdb field)), c)"
  by (simp add: asus_memory_read_def asus_read_cdb_def seq_def zoom_def asus_cdb_bytes sample_asus_in
      sample_asus_answer_def ret_def)

lemma sample_fields_read:
  "oc_transport c = Some (m, stuck, faults) \<Longrightarrow> \<forall>field \<in> set fs. length (m (asus_read_cdb field)) = 4 \<Longrightarrow>
   asus_read_fields sample_asus fs c = (Inr (map (\<lambda>field. m (asus_read_cdb field)) fs), c)"
  by (induction fs) (simp_all add: seq_def ret_def sample_word_read)

lemma sample_word_write:
  "oc_transport c = Some (m, stuck, faults) \<Longrightarrow> length v = 4 \<Longrightarrow>
   asus_memory_write sample_asus field v c =
     (Inr (), c\<lparr>oc_transport := Some (m(asus_read_cdb field := v), stuck, faults)\<rparr>)"
  by (auto simp: asus_memory_write_def asus_read_cdb_def asus_cdb_bytes seq_def zoom_def gdox_scsi_command_out_def
      validate_cdb_def gdox_scsi_transport_is_valid_def sample_asus_def ret_def)

lemma sample_live_writes:
  "oc_transport c = Some (m, stuck, faults) \<Longrightarrow> \<forall>field \<in> set fs. length (af_live field) = 4 \<Longrightarrow>
   each (\<lambda>field. asus_memory_write sample_asus field (af_live field)) fs c =
     (Inr (), c\<lparr>oc_transport := Some (asus_store m fs True, stuck, faults)\<rparr>)"
  by (induction fs arbitrary: c m) (simp_all add: seq_def ret_def sample_word_write)

lemma sample_stock_writes:
  "oc_transport c = Some (m, stuck, faults) \<Longrightarrow> \<forall>i \<in> set is. length (af_stock (F i)) = 4 \<Longrightarrow>
   opt_first_error (map (\<lambda>i. asus_memory_write sample_asus (F i) (af_stock (F i))) is) c =
     (Inr None, c\<lparr>oc_transport := Some (asus_store m (map F is) False, stuck, faults)\<rparr>)"
  by (induction "is" arbitrary: c m) (simp_all add: seq_def ret_def attempt_def sample_word_write)

text \<open>A snapshot of the sample drive.\<close>

definition asus_sample_state :: "bool \<Rightarrow> asus_state" where
  "asus_sample_state live =
     \<lparr>at_values = asus_expected xgd1_profile live, at_start_psn = ap_start_psn xgd1_profile,
      at_complemented_start = ap_complemented_start xgd1_profile,
      at_last_lba = (if live then ap_live_last_lba xgd1_profile else ap_stock_last_lba xgd1_profile),
      at_block_size = GDOX_LOGICAL_SECTOR_BYTES\<rparr>"

lemma word_lengths:
  "field \<in> set (ap_fields xgd1_profile) \<Longrightarrow> length (af_live field) = 4 \<and> length (af_stock field) = 4 \<and> af_live field \<noteq> af_stock field"
  "length (ap_start_psn xgd1_profile) = 4" "length (ap_complemented_start xgd1_profile) = 4"
  by (auto simp: xgd1_profile_def asus_field_of_def)

lemma sample_matches:
  "asus_state_matches xgd1_profile (asus_sample_state live) live' \<longleftrightarrow> live = live'"
  "asus_state_is_known_partial xgd1_profile (asus_sample_state live)"
proof -
  have differs: "asus_expected xgd1_profile True \<noteq> asus_expected xgd1_profile False"
    by (simp add: asus_expected_def xgd1_profile_def asus_field_of_def)
  show matches: "asus_state_matches xgd1_profile (asus_sample_state live) live' \<longleftrightarrow> live = live'" for live live'
    using differs differs[symmetric]
    by (cases live; cases live')
       (simp_all add: asus_state_matches_def asus_state_memory_matches_def asus_sample_state_def list.rel_eq)
  show "asus_state_is_known_partial xgd1_profile (asus_sample_state live)"
    by (rule stock_is_known[of _ _ live]) (simp add: matches)
qed

lemma sample_snapshot:
  assumes "oc_transport c = Some (sample_memory live, stuck, faults)" "\<not> oc_aborted c" "oc_aborts c = []"
  shows "asus_read_state sample_asus xgd1_profile c = (Inr (asus_sample_state live), c)"
    "asus_read_restore_state sample_asus xgd1_profile c = (Inr (asus_sample_state live), c)"
proof -
  have ladder: "opt_ladder_aborted b c = (Inr (), c)" for b using assms by (simp add: opt_ladder_aborted_def Let_def)
  have capacity: "gdox_mmc_read_capacity_10 sample_asus timeout_ms (Some (sample_memory live, stuck, faults)) =
      (Inr (if live then ap_live_last_lba xgd1_profile else ap_stock_last_lba xgd1_profile, 2048),
       Some (sample_memory live, stuck, faults))" for timeout_ms
  proof -
    have seven: "ap_fields xgd1_profile ! 7 \<in> set (ap_fields xgd1_profile)" by (rule nth_mem) (simp add: xgd1_profile_def)
    then have "sample_memory live (asus_read_cdb (ap_fields xgd1_profile ! 7)) = af_live (ap_fields xgd1_profile ! 7) \<longleftrightarrow> live"
      using word_lengths(1)[OF seven] by (auto simp: sample_memory_words)
    then have "sample_asus_answer (sample_memory live) read_capacity_cdb 8 =
        (if live then [0, 0x3a, 0x4d, 0x4f, 0, 0, 8, 0] else [0, 0, 0x1b, 0x4f, 0, 0, 8, 0])"
      by (simp add: sample_asus_answer_def read_capacity_cdb_def)
    then show ?thesis
      by (simp add: gdox_mmc_read_capacity_10_def seq_def sample_asus_in read_capacity_cdb_def ret_def
          read_be_u32_def join32_def xgd1_profile_def)
  qed
  have vs: "map (\<lambda>field. sample_memory live (asus_read_cdb field)) (ap_fields xgd1_profile) = asus_expected xgd1_profile live"
    by (simp add: asus_expected_def sample_memory_words)
  have lens: "\<forall>field \<in> set (ap_fields xgd1_profile). length (sample_memory live (asus_read_cdb field)) = 4"
    using word_lengths(1) by (simp add: sample_memory_words)
  have fixed: "asus_read_fixed_memory sample_asus a c = (Inr (sample_memory live (asus_memory_cdb 0 a 1)), c)"
    if "length (sample_memory live (asus_memory_cdb 0 a 1)) = 4" for a
    using that assms(1) sample_word_read[of c "sample_memory live" stuck faults "asus_field_of a 1 [0, 0, 0, 0] [0, 0, 0, 0]"]
    by (simp add: asus_read_fixed_memory_def asus_read_cdb_def asus_field_of_def)
  have memory: "asus_read_memory_state sample_asus xgd1_profile b c =
      (Inr \<lparr>at_values = asus_expected xgd1_profile live, at_start_psn = ap_start_psn xgd1_profile,
        at_complemented_start = ap_complemented_start xgd1_profile, at_last_lba = 0, at_block_size = 0\<rparr>, c)" for b
    using word_lengths(2,3)
    by (simp add: asus_read_memory_state_def seq_def ladder sample_fields_read[OF assms(1) lens] vs ret_def fixed sample_memory_words)
  show "asus_read_state sample_asus xgd1_profile c = (Inr (asus_sample_state live), c)"
    by (simp add: asus_read_state_def seq_def memory zoom_def assms(1) capacity ret_def asus_sample_state_def)
  have restoring: "gdox_optical_restore_read_capacity sample_asus 10000 l (Some (sample_memory live, stuck, faults)) =
      (Inr (if live then ap_live_last_lba xgd1_profile else ap_stock_last_lba xgd1_profile, 2048, False),
       Some (sample_memory live, stuck, faults))" for l
    by (simp add: gdox_optical_restore_read_capacity_def seq_def attempt_def capacity ret_def)
  show "asus_read_restore_state sample_asus xgd1_profile c = (Inr (asus_sample_state live), c)"
    by (simp add: asus_read_restore_state_def seq_def memory zoom_def assms(1) restoring ret_def asus_sample_state_def)
qed

text \<open>A context of the sample drive at rest.\<close>

definition sample_context :: "bool \<Rightarrow> bool \<Rightarrow> nat \<Rightarrow> nat \<Rightarrow> nat \<Rightarrow> asus_drive_state asus_context \<Rightarrow> bool" where
  "sample_context active live stuck faults retries c \<longleftrightarrow>
     oc_transport c = Some (sample_memory live, stuck, faults) \<and> as_profile c = Some xgd1_profile
     \<and> oc_active c = active \<and> oc_retries c = retries \<and> oc_mutex c = [] \<and> \<not> oc_aborted c \<and> oc_aborts c = []
     \<and> oc_media c = fresh_tracker \<and> oc_now c = 0 \<and> oc_elapsed c = []"

lemma sample_context_moves [simp]:
  "sample_context a live stuck faults k c \<Longrightarrow>
   sample_context a live' stuck' faults' k (c\<lparr>oc_transport := Some (sample_memory live', stuck', faults')\<rparr>)"
  "sample_context a live stuck faults k c \<Longrightarrow> sample_context b live stuck faults k (c\<lparr>oc_active := b\<rparr>)"
  by (simp_all add: sample_context_def)

lemma sample_context_state:
  "sample_context a live stuck faults k c \<Longrightarrow> asus_read_state sample_asus xgd1_profile c = (Inr (asus_sample_state live), c)"
  "sample_context a live stuck faults k c \<Longrightarrow> asus_read_restore_state sample_asus xgd1_profile c = (Inr (asus_sample_state live), c)"
  by (rule sample_snapshot; simp add: sample_context_def)+

lemma sample_apply_live:
  assumes "sample_context a live stuck faults k c"
  shows "asus_apply_live sample_asus c = (Inr (), c\<lparr>oc_transport := Some (sample_memory True, stuck, faults)\<rparr>)"
proof -
  have t: "oc_transport c = Some (sample_memory live, stuck, faults)" "as_profile c = Some xgd1_profile"
    using assms by (simp_all add: sample_context_def)
  have "\<forall>field \<in> set (ap_fields xgd1_profile). length (af_live field) = 4" using word_lengths(1) by blast
  note writes = sample_live_writes[OF t(1) this, unfolded sample_memory_again]
  note state = sample_context_state(1)[OF sample_context_moves(1)[OF assms], of True stuck faults]
  show ?thesis
    by (simp add: asus_apply_live_def seq_def gets_def t writes state sample_matches ret_def)
qed

lemma sample_restore_stock:
  assumes "sample_context a live stuck faults k c"
  shows "asus_restore_stock sample_asus c = (Inr (), c\<lparr>oc_transport := Some (sample_memory False, stuck, faults)\<rparr>)"
proof -
  have t: "oc_transport c = Some (sample_memory live, stuck, faults)" "as_profile c = Some xgd1_profile"
    using assms by (simp_all add: sample_context_def)
  have "length (ap_fields xgd1_profile) = 8" by (simp add: xgd1_profile_def)
  then have "\<forall>i \<in> set asus_restore_order. length (af_stock (ap_fields xgd1_profile ! i)) = 4"
    using word_lengths(1) by (auto simp: asus_restore_order_def)
  note writes = sample_stock_writes[OF t(1) this, unfolded sample_memory_again]
  note state = sample_context_state(2)[OF sample_context_moves(1)[OF assms], of False stuck faults]
  show ?thesis
    by (simp add: asus_restore_stock_def seq_def gets_def t writes attempt_def state sample_matches ret_def Let_def)
qed

lemma sample_guarded_restore:
  "sample_context a live stuck faults k c \<Longrightarrow>
   asus_guarded_restore_stock sample_asus c = (Inr (), c\<lparr>oc_transport := Some (sample_memory False, stuck, faults)\<rparr>)"
  using sample_context_state(2)[of a live stuck faults k c] sample_restore_stock[of a live stuck faults k c]
  by (cases live) (simp_all add: asus_guarded_restore_stock_def seq_def gets_def sample_context_def sample_matches ret_def)

lemma sample_restoring:
  "sample_context a live stuck faults k c \<Longrightarrow>
   opt_restore_after_streaming (asus_driver sample_asus) sample_asus c =
     (Inr (), c\<lparr>oc_transport := Some (sample_memory False, stuck, faults)\<rparr>)"
  by (simp add: opt_restore_after_streaming_def asus_driver_def seq_def attempt_def sample_guarded_restore ret_def)

text \<open>A preparation restores the memory; the transport's own preparation may then fail.\<close>

lemma sample_prepare:
  assumes "sample_context True live stuck faults k c"
  shows "\<exists>c'. gdox_source_prepare_close (asus_source_ops sample_asus) (Some c) =
      (if 0 < stuck then fail ERROR_TRANSPORT ''interface is busy'' else Inr (), Some c')
    \<and> sample_context False False (stuck - 1) faults k c'"
proof -
  let ?c = "c\<lparr>oc_transport := Some (sample_memory False, stuck, faults)\<rparr>"
  have t: "oc_transport c = Some (sample_memory live, stuck, faults)" "oc_mutex c = []" "oc_active c"
    using assms by (simp_all add: sample_context_def)
  have absent: "opt_confirmed_absent sample_asus c = (Inr False, c)"
    by (simp add: opt_confirmed_absent_def seq_def attempt_def zoom_def t(1) gdox_scsi_transport_device_present_def
        gdox_scsi_transport_is_valid_def sample_asus_table ret_def)
  have "opt_restore_for_close (asus_driver sample_asus) sample_asus c = (Inr (), ?c)"
    using sample_restoring[OF assms]
    by (simp add: opt_restore_for_close_def seq_def absent attempt_def ret_def asus_driver_def)
  then have settled: "opt_settle (opt_restore_for_close (asus_driver sample_asus) sample_asus) c = (Inr (), ?c\<lparr>oc_active := False\<rparr>)"
    by (simp add: opt_settle_def seq_def gets_def t modify_def)
  have "opt_prepare_close (asus_driver sample_asus) sample_asus c =
      (if 0 < stuck then fail ERROR_TRANSPORT ''interface is busy'' else Inr (),
       ?c\<lparr>oc_active := False, oc_transport := Some (sample_memory False, stuck - 1, faults)\<rparr>)"
    by (simp add: opt_prepare_close_def seq_def opt_locked_def t settled zoom_def gdox_scsi_transport_prepare_close_def
        sample_asus_table)
  moreover have "sample_context False False (stuck - 1) faults k
      (?c\<lparr>oc_active := False, oc_transport := Some (sample_memory False, stuck - 1, faults)\<rparr>)"
    using assms by (simp add: sample_context_def)
  ultimately show ?thesis
    by (simp add: gdox_source_prepare_close_def asus_source_ops_def)
qed

text \<open>A preparation of a source that owes nothing leaves the memory alone.\<close>

lemma sample_prepare_settled:
  assumes "sample_context False live 0 faults k c"
  shows "gdox_source_prepare_close (asus_source_ops sample_asus) (Some c) = (Inr (), Some c)"
    "gdox_source_close (asus_source_ops sample_asus) (Some c) = (Inr (), False, None)"
proof -
  have t: "oc_transport c = Some (sample_memory live, 0, faults)" "oc_mutex c = []" "\<not> oc_active c"
    using assms by (simp_all add: sample_context_def)
  have tp: "gdox_scsi_transport_prepare_close sample_asus (Some (sample_memory live, 0, faults)) =
      (Inr (), Some (sample_memory live, 0, faults))"
    by (simp add: gdox_scsi_transport_prepare_close_def sample_asus_table)
  show prep: "gdox_source_prepare_close (asus_source_ops sample_asus) (Some c) = (Inr (), Some c)"
    by (simp add: gdox_source_prepare_close_def asus_source_ops_def opt_prepare_close_def seq_def opt_locked_def t
        opt_settle_def gets_def ret_def zoom_def tp)
  have "opt_close sample_asus c = (Inr (), False)"
    by (simp add: opt_close_def t(1) gdox_scsi_transport_close_def tp gdox_scsi_transport_is_valid_def)
       (simp add: sample_asus_table)
  then show "gdox_source_close (asus_source_ops sample_asus) (Some c) = (Inr (), False, None)"
    using prep by (simp add: gdox_source_close_def asus_source_ops_def)
qed

lemma sample_ensure_live:
  "sample_context a live stuck faults k c \<Longrightarrow>
   asus_ensure_live sample_asus c = (Inr (), c\<lparr>oc_transport := Some (sample_memory True, stuck, faults)\<rparr>)"
  using sample_context_state(1)[of a live stuck faults k c] sample_apply_live[of a live stuck faults k c]
  by (cases live) (simp_all add: asus_ensure_live_def seq_def gets_def sample_context_def sample_matches ret_def)

lemma sample_ladder: "sample_context a live stuck faults k c \<Longrightarrow> opt_ladder_aborted b c = (Inr (), c)"
  by (simp add: sample_context_def opt_ladder_aborted_def Let_def)

lemma sample_poll:
  "poll_media_event sample_asus timeout_ms (Some (m, stuck, faults), tracker) =
     ((True, MEDIA_EVENT_NONE), Some (m, stuck, faults), tracker)"
  by (simp add: poll_media_event_def gdox_scsi_transport_is_valid_def sample_asus_in media_event_cdb_def
      sample_asus_answer_def gdox_mmc_parse_media_event_def Let_def note_media_event_def)

lemma sample_no_sense: "decode_sense (zero_block 18) = None"
  by code_simp

lemma sample_unchanged:
  assumes "sample_context a live stuck faults k c"
  shows "opt_media_unchanged sample_asus 0 c = (Inr (), c)"
proof -
  have t: "oc_transport c = Some (sample_memory live, stuck, faults)" "oc_media c = fresh_tracker"
    using assms by (simp_all add: sample_context_def)
  have "gdox_mmc_media_tracker_capture_transport_sense sample_asus timeout_ms
      (Some (sample_memory live, stuck, faults), fresh_tracker) = (True, Some (sample_memory live, stuck, faults), fresh_tracker)"
    for timeout_ms
    by (simp add: gdox_mmc_media_tracker_capture_transport_sense_def gdox_scsi_transport_is_valid_def
        gdox_scsi_transport_last_sense_def sample_asus_table gdox_mmc_request_sense_def sample_asus_in request_sense_cdb_def
        sample_asus_answer_def gdox_mmc_media_tracker_note_sense_def sample_no_sense)
  moreover have "c\<lparr>oc_transport := Some (sample_memory live, stuck, faults), oc_media := fresh_tracker\<rparr> = c"
    using t by simp
  moreover have "\<not> gdox_mmc_media_tracker_transitioned fresh_tracker 0"
    by (simp add: gdox_mmc_media_tracker_transitioned_def fresh_tracker_def)
  ultimately show ?thesis
    by (simp add: opt_media_unchanged_def opt_with_media_def gdox_mmc_poll_media_event_def sample_poll t)
qed

lemma sample_recover:
  assumes "sample_context a live stuck faults k c"
  shows "opt_recover (asus_driver sample_asus) sample_asus 0 c =
      (Inr (), c\<lparr>oc_transport := Some (sample_memory True, stuck, faults)\<rparr>)"
proof -
  have t: "oc_transport c = Some (sample_memory live, stuck, faults)" using assms by (simp add: sample_context_def)
  have reset: "gdox_scsi_transport_reset sample_asus (Some t) = (Inr (), Some t)" for t
    by (simp add: gdox_scsi_transport_reset_def sample_asus_table)
  have ready: "gdox_mmc_test_unit_ready sample_asus timeout_ms (Some t) = (Inr (), Some t)" for timeout_ms t
    by (simp add: gdox_mmc_test_unit_ready_def gdox_scsi_command_none_def validate_cdb_def
        gdox_scsi_transport_is_valid_def sample_asus_table test_unit_ready_cdb_def)
  have same: "c\<lparr>oc_transport := Some (sample_memory live, stuck, faults)\<rparr> = c" using t by simp
  have live: "dr_ensure_live (asus_driver sample_asus) c = (Inr (), c\<lparr>oc_transport := Some (sample_memory True, stuck, faults)\<rparr>)"
    using sample_ensure_live[OF assms] by (simp add: asus_driver_def)
  have "opt_await_ready (asus_driver sample_asus) sample_asus 0 (Suc n) e c =
      (Inr (), c\<lparr>oc_transport := Some (sample_memory True, stuck, faults)\<rparr>)" for n e
    by (simp add: seq_def sample_ladder[OF assms] attempt_def zoom_def t ready same sample_unchanged[OF assms] live)
  then have "opt_await_ready (asus_driver sample_asus) sample_asus 0 opt_READY_ATTEMPTS e c =
      (Inr (), c\<lparr>oc_transport := Some (sample_memory True, stuck, faults)\<rparr>)" for e
    by (metis numeral_eq_Suc opt_READY_ATTEMPTS_def)
  then show ?thesis
    by (simp add: opt_recover_def seq_def sample_ladder[OF assms] sample_unchanged[OF assms] attempt_def zoom_def t reset same
        asus_driver_def ret_def)
qed

text \<open>A read whose first attempt fails goes through the recovery.\<close>

lemma sample_read_cdb: "read_blocks_cdb 0x28 0 1 = [0x28, 0, 0, 0, 0, 0, 0, 0, 1, 0]"
proof -
  have zeros: "replicate 12 (0 :: byte) = [0, 0, 0, 0, 0, 0, 0, 0, 0, 0, 0, 0]" by (simp add: numeral_eq_Suc)
  show ?thesis
    by (simp add: read_blocks_cdb_def zeros put_be_u32_def put_be_u16_def byte_of32_def byte_of16_def Let_def)
qed

lemma length_sample_descriptor: "length sample_descriptor = 2048"
  by (simp add: sample_descriptor_def xdvdfs_magic_def)

lemma asus_sample_read_10:
  "gdox_mmc_read_10 sample_asus 0 1 opt_MAX_READ_BLOCKS 2048 2048 timeout_ms (Some (m, stuck, Suc faults)) =
     (fail ERROR_TRANSPORT ''unrecovered read error'', Some (m, stuck, faults))"
  "gdox_mmc_read_10 sample_asus 0 1 opt_MAX_READ_BLOCKS 2048 2048 timeout_ms (Some (m, stuck, 0)) =
     (Inr sample_descriptor, Some (m, stuck, 0))"
  by (simp_all add: gdox_mmc_read_10_def read_blocks_def seq_def sample_read_cdb[unfolded One_nat_def] opt_MAX_READ_BLOCKS_def
      gdox_scsi_command_in_def validate_cdb_def gdox_scsi_transport_is_valid_def sample_asus_def sample_asus_answer_def
      length_sample_descriptor ret_def)

lemma no_chunks: "opt_read_chunks drv tops deadline lba 0 = ret []"
  by (simp add: opt_read_chunks.simps)

lemma sample_late_read:
  assumes "sample_context False False stuck (Suc 0) (Suc k) c"
  shows "\<exists>c'. gdox_source_read (asus_source_ops sample_asus) (Some c) 0 1 2048 = (Inr sample_descriptor, Some c')
    \<and> sample_context False True stuck 0 (Suc k) c'"
proof -
  let ?at = "\<lambda>live n. c\<lparr>oc_transport := Some (sample_memory live, stuck, n)\<rparr>"
  let ?drv = "asus_driver sample_asus"
  have t: "oc_transport c = Some (sample_memory False, stuck, Suc 0)" "oc_media c = fresh_tracker" "oc_mutex c = []"
      "oc_retries c = Suc k" "as_profile c = Some xgd1_profile" "oc_elapsed c = []" "oc_now c = 0"
    using assms by (simp_all add: sample_context_def)
  have one: "sample_context False False stuck 0 (Suc k) (?at False 0)" and two: "sample_context False True stuck 0 (Suc k) (?at True 0)"
    using assms by (simp_all add: sample_context_def)
  note first = asus_sample_read_10(1)[where faults = 0, unfolded One_nat_def] and second = asus_sample_read_10(2)[unfolded One_nat_def]
  have again: "\<exists>c'. opt_read_attempts ?drv sample_asus 0 20000 0 1 k (?at True 0) = (Inr sample_descriptor, c')
      \<and> sample_context False True stuck 0 (Suc k) c'"
    using two
    by (subst opt_read_attempts.simps)
       (simp add: seq_def sample_ladder[OF two] attempt_def zoom_def second ret_def modify_def, simp add: sample_context_def)
  have clock: "opt_monotonic_ms x = (Inr 0, x)" if "oc_elapsed x = []" "oc_now x = 0" for x :: "asus_drive_state asus_context"
    using that by (simp add: opt_monotonic_ms_def)
  have recovered: "opt_recover ?drv sample_asus 0 (?at False 0) = (Inr (), ?at True 0)"
    using sample_recover[OF one] by simp
  have "opt_read_attempts ?drv sample_asus 0 20000 0 1 (Suc k) c = opt_read_attempts ?drv sample_asus 0 20000 0 1 k (?at True 0)"
    by (subst opt_read_attempts.simps)
       (simp add: seq_def sample_ladder[OF assms] attempt_def zoom_def t first clock recovered)
  then have range: "opt_read_range ?drv sample_asus 20000 0 1 c = opt_read_attempts ?drv sample_asus 0 20000 0 1 k (?at True 0)"
    by (simp add: opt_read_range_def t fresh_tracker_def)
  obtain c' where c': "opt_read_range ?drv sample_asus 20000 0 1 c = (Inr sample_descriptor, c')" "sample_context False True stuck 0 (Suc k) c'"
    using again range by auto
  have "opt_read_chunks ?drv sample_asus 20000 0 1 c = (Inr sample_descriptor, c')"
    using c'(1)
    by (subst opt_read_chunks.simps)
       (simp add: opt_MAX_READ_BLOCKS_def seq_def opt_read_chunk_def attempt_def ret_def no_chunks)
  then have "opt_read ?drv sample_asus 0 1 c = (Inr sample_descriptor, c')"
    by (simp add: opt_read_def opt_locked_def t seq_def clock opt_RECOVERY_BUDGET_MS_def u32_cast_def)
  then show ?thesis
    using c'(2) t(5)
    by (simp add: gdox_source_read_def asus_source_ops_def gdox_source_validate_read_def asus_sector_count_def
        xgd1_profile_def GDOX_XGD1_TOTAL_SECTORS_def SIZE_MAX_def)
qed

lemma sample_words_kinds:
  "asus_stock_memory xgd1_profile (sample_memory False)" "asus_live_memory xgd1_profile (sample_memory True)"
  "\<not> asus_stock_memory xgd1_profile (sample_memory True)"
proof -
  have "ap_fields xgd1_profile \<noteq> []" by (simp add: xgd1_profile_def)
  then show "asus_stock_memory xgd1_profile (sample_memory False)" "asus_live_memory xgd1_profile (sample_memory True)"
    "\<not> asus_stock_memory xgd1_profile (sample_memory True)"
    using word_lengths(1)
    by (auto simp: asus_stock_memory_def asus_live_memory_def sample_memory_words neq_Nil_conv)
qed

text \<open>The sample drive opens, with its memory changed and the debt noted.\<close>

definition ready_optical :: optical_host where
  "ready_optical = \<lparr>oh_context_allocated = True, oh_mutex_ready = True, oh_locks = [], oh_aborts = [], oh_elapsed = []\<rparr>"

lemma sample_validated:
  "opt_open_validated sample_asus asus_identity_is_validated m (\<lambda>_. (Inr (), Some (sample_memory live, stuck, faults))) =
     (Inr (), Some (sample_memory live, stuck, faults))"
proof -
  have inquiry: "length asus_inquiry = 96" by (simp add: asus_inquiry_def asus_vendor_def asus_model_def asus_revision_def)
  have names: "ad_strcmp (copy_ascii_field 9 (take 8 (drop 8 asus_inquiry))) asus_vendor"
    "ad_strcmp (copy_ascii_field 17 (take 16 (drop 16 asus_inquiry))) asus_model"
    "ad_strcmp (copy_ascii_field 5 (take 4 (drop 32 asus_inquiry))) asus_revision"
    by code_simp+
  have two: "opt_INQUIRY_ATTEMPTS = Suc 1" by (simp add: opt_INQUIRY_ATTEMPTS_def)
  show ?thesis
    unfolding opt_open_validated_def two opt_open_inquired.simps
    by (simp add: gdox_mmc_inquiry_def seq_def sample_asus_in inquiry_cdb_def sample_asus_answer_def inquiry ret_def
        asus_identity_is_validated_def names)
qed

lemma sample_select:
  assumes "oc_transport c = Some (sample_memory False, stuck, faults)" "\<not> oc_aborted c" "oc_aborts c = []"
    "as_profile c = Some xgd1_profile"
  shows "asus_select_and_normalize sample_asus (Some xgd1_profile) c = (Inr (), c)"
proof -
  have "asus_select_known_profile (asus_sample_state False) = Some xgd1_profile"
    by (simp add: select_known sample_matches media_profiles_def)
  moreover have "c\<lparr>as_profile := Some xgd1_profile\<rparr> = c" using assms(4) by simp
  ultimately show ?thesis
    by (simp add: asus_select_and_normalize_def seq_def sample_snapshot(1)[OF assms(1-3)] modify_def ret_def sample_matches)
qed

lemma sample_evidence:
  assumes "sample_context a live stuck faults k c"
  shows "\<exists>c'. opt_collect_evidence sample_asus (\<lambda>c. ap_stock_pfi_prefix (as_layout c)) m c = (Inr (), c')
    \<and> sample_context a live stuck faults k c'"
proof -
  have t: "oc_transport c = Some (sample_memory live, stuck, faults)" "as_profile c = Some xgd1_profile"
    using assms by (simp_all add: sample_context_def)
  have prefix: "length (ap_stock_pfi_prefix xgd1_profile) = 3" by (simp add: xgd1_profile_def)
  have cdb: "0 < length (read_dvd_structure_cdb f 2052)" "length (read_dvd_structure_cdb f 2052) \<le> 16"
    "read_dvd_structure_cdb f 2052 ! 0 = 0xad" for f
    by (simp_all add: read_dvd_structure_cdb_def put_be_u16_def Let_def)
  have answered: "gdox_mmc_read_dvd_structure sample_asus f 2052 timeout_ms (Some (sample_memory live, stuck, faults)) =
      (Inr (zero_block 17 @ ap_stock_pfi_prefix xgd1_profile @ zero_block 2032), Some (sample_memory live, stuck, faults))"
    for f timeout_ms
    unfolding gdox_mmc_read_dvd_structure_def
    by (simp add: sample_asus_in[OF cdb(1,2)] cdb(3) sample_asus_answer_def)
  show ?thesis
    using assms
    by (simp add: opt_collect_evidence_def seq_def attempt_def zoom_def t answered gets_def prefix modify_def)
       (simp add: sample_context_def)
qed

lemma sample_descriptor_check:
  assumes "sample_context a live stuck faults k c"
  shows "opt_validate_descriptor (asus_driver sample_asus) sample_asus (\<lambda>c. ap_descriptor_lba (as_layout c)) c = (Inr (), c)"
proof -
  have t: "oc_transport c = Some (sample_memory live, stuck, faults)" "as_profile c = Some xgd1_profile"
    using assms by (simp_all add: sample_context_def)
  have zeros: "replicate 12 (0 :: byte) = [0, 0, 0, 0, 0, 0, 0, 0, 0, 0, 0, 0]" by (simp add: numeral_eq_Suc)
  have cdb: "read_blocks_cdb 0x28 0x30620 1 = [0x28, 0, 0, 0x03, 0x06, 0x20, 0, 0, 1, 0]"
    by (simp add: read_blocks_cdb_def zeros put_be_u32_def put_be_u16_def byte_of32_def byte_of16_def Let_def)
  have read: "gdox_mmc_read_10 sample_asus 0x30620 1 opt_MAX_READ_BLOCKS 2048 2048 timeout_ms
      (Some (sample_memory live, stuck, faults)) = (Inr sample_descriptor, Some (sample_memory live, stuck, faults))" for timeout_ms
    by (simp add: gdox_mmc_read_10_def read_blocks_def seq_def cdb[unfolded One_nat_def] opt_MAX_READ_BLOCKS_def
        sample_asus_in sample_asus_answer_def length_sample_descriptor ret_def)
  have magic: "length xdvdfs_magic = 20" by (simp add: xdvdfs_magic_def)
  have ends: "take 20 sample_descriptor = xdvdfs_magic" "drop (2048 - 20) sample_descriptor = xdvdfs_magic"
    by (simp_all add: sample_descriptor_def magic)
  have lba: "ap_descriptor_lba xgd1_profile = 0x30620" by (simp add: xgd1_profile_def)
  have same: "c\<lparr>oc_transport := Some (sample_memory live, stuck, faults)\<rparr> = c" using t by simp
  show ?thesis
    using ends
    by (simp add: opt_validate_descriptor_def Let_def seq_def gets_def t lba attempt_def zoom_def
        read[unfolded One_nat_def] length_sample_descriptor ret_def same)
qed

lemma asus_sample_opens:
  "\<exists>c. gdox_asus_nr09_source_open sample_asus (\<lambda>_. (Inr (), Some (sample_memory False, stuck, faults))) ready_optical retries 0 None =
       (Inr ASUS_MEDIA_XGD1, Some c, None)
     \<and> sample_context True True stuck faults retries c"
proof -
  obtain c0 :: "asus_drive_state asus_context"
    where c0: "c0 = new_asus ready_optical (Some xgd1_profile) (Some (sample_memory False, stuck, faults))" by blast
  have ctx: "sample_context False False stuck faults 0 c0"
    by (simp add: c0 new_asus_def sample_context_def ready_optical_def)
  have t: "oc_transport c0 = Some (sample_memory False, stuck, faults)" "\<not> oc_aborted c0" "oc_aborts c0 = []"
      "as_profile c0 = Some xgd1_profile"
    using ctx by (simp_all add: sample_context_def)
  have ready: "gdox_mmc_test_unit_ready sample_asus timeout_ms (Some t) = (Inr (), Some t)" for timeout_ms t
    by (simp add: gdox_mmc_test_unit_ready_def gdox_scsi_command_none_def validate_cdb_def
        gdox_scsi_transport_is_valid_def sample_asus_table test_unit_ready_cdb_def)
  have same: "c0\<lparr>oc_transport := Some (sample_memory False, stuck, faults)\<rparr> = c0" using t by simp
  have wait: "opt_wait_for_ready sample_asus 0 c0 = (Inr (), c0)"
    by (simp add: opt_wait_for_ready_def seq_def attempt_def zoom_def t ready same ret_def)
  obtain c1 where c1: "opt_collect_evidence sample_asus (\<lambda>c. ap_stock_pfi_prefix (as_layout c))
      ''disc does not match the selected ASUS media profile'' c0 = (Inr (), c1)" "sample_context False False stuck faults 0 c1"
    using sample_evidence[OF ctx] by blast
  let ?c2 = "c1\<lparr>oc_active := True\<rparr>"
  let ?c3 = "?c2\<lparr>oc_transport := Some (sample_memory True, stuck, faults)\<rparr>"
  have c2: "sample_context True False stuck faults 0 ?c2" by (rule sample_context_moves(2)[OF c1(2)])
  have c3: "sample_context True True stuck faults 0 ?c3" by (rule sample_context_moves(1)[OF c2])
  have "opt_apply_with_rollback (asus_driver sample_asus) sample_asus (asus_apply_live sample_asus) c1 = (Inr (), ?c3)"
    using sample_apply_live[OF c2] by (simp add: opt_apply_with_rollback_def seq_def modify_def attempt_def ret_def)
  then have init: "asus_initialize sample_asus (Some xgd1_profile) 0 c0 = (Inr (), ?c3)"
    using sample_descriptor_check[OF c3]
    by (simp add: asus_initialize_def seq_def wait sample_select[OF t] c1(1))
  let ?c4 = "?c3\<lparr>oc_retries := retries\<rparr>"
  have c4: "oc_transport ?c4 = Some (sample_memory True, stuck, faults)" "oc_media ?c4 = fresh_tracker"
      "sample_context True True stuck faults retries ?c4" "as_profile ?c4 = Some xgd1_profile"
    using c3 by (simp_all add: sample_context_def)
  have baseline: "poll_baseline sample_asus timeout_ms n (Some u, tracker) = (Some u, tracker)" for timeout_ms n u tracker
    by (cases n; cases u) (simp_all add: sample_poll)
  have "opt_begin_session sample_asus ?c4 = ?c4\<lparr>oc_media := fresh_tracker\<rparr>"
    using c4(1,2)
    by (simp add: opt_begin_session_def opt_with_media_def gdox_mmc_media_tracker_begin_session_def baseline)
       (simp add: fresh_tracker_def)
  then have session: "sample_context True True stuck faults retries (opt_begin_session sample_asus ?c4)"
    using c4(3) by (simp add: sample_context_def)
  have "ap_kind (as_layout ?c3) = ASUS_MEDIA_XGD1" using c4(4) by (simp add: xgd1_profile_def)
  then show ?thesis
    using session init
    by (simp add: gdox_asus_nr09_source_open_def asus_source_open_profile_def sample_validated c0[symmetric])
       (simp add: ready_optical_def)
qed

text \<open>A drive that fails its commands and its shutdown: the opening fails and the source stays open.\<close>

lemma stuck_asus_opening:
  "\<exists>c e. gdox_asus_nr09_source_open (logged_ops stuck_drive) (\<lambda>_. (Inr (), Some ((), []))) ready_optical 0 0 None =
      (Inl e, Some c, None) \<and> oc_transport c = Some ((), [SentIn inquiry_cdb 96])"
proof -
  have two: "opt_INQUIRY_ATTEMPTS = Suc 1" by (simp add: opt_INQUIRY_ATTEMPTS_def)
  show ?thesis
    unfolding gdox_asus_nr09_source_open_def asus_source_open_profile_def opt_open_validated_def two opt_open_inquired.simps
    by (simp add: ready_optical_def gdox_mmc_inquiry_def seq_def gdox_scsi_command_in_def validate_cdb_def
        gdox_scsi_transport_is_valid_def inquiry_cdb_def logged_ops_def logged_def unlogged_def stuck_drive_def
        gdox_scsi_transport_close_def gdox_scsi_transport_prepare_close_def new_asus_def)
qed

text \<open>
  A transport whose close fails has been given up already. A failed opening then leaves the caller a
  source over an empty handle, and every later close of that source fails.
\<close>

theorem asus_failed_close_is_stuck:
  assumes "\<not> oc_active c" "oc_mutex c = []" "gdox_scsi_transport_close tops (oc_transport c) = (Inl e, None)"
  shows "\<exists>c'. opt_cleanup_failed_open (asus_driver tops) tops operation_error c = (e, Some c', None)
    \<and> gdox_source_close (asus_source_ops tops) (Some c') =
        (fail ERROR_INVALID_ARGUMENT ''transport is not open'', False, Some c')"
proof -
  have "opt_settle m c = (Inr (), c)" for m using assms(1) by (simp add: opt_settle_def seq_def gets_def ret_def)
  then have "opt_cleanup_failed_open (asus_driver tops) tops operation_error c = (e, Some (c\<lparr>oc_transport := None\<rparr>), None)"
    using assms(3) by (simp add: opt_cleanup_failed_open_def)
  moreover have "opt_settle m (c\<lparr>oc_transport := None\<rparr>) = (Inr (), c\<lparr>oc_transport := None\<rparr>)" for m
    using assms(1) by (simp add: opt_settle_def seq_def gets_def ret_def)
  ultimately show ?thesis
    using assms(2)
    by (simp add: gdox_source_close_def gdox_source_prepare_close_def asus_source_ops_def opt_prepare_close_def seq_def
        opt_locked_def zoom_def gdox_scsi_transport_prepare_close_def)
qed

section \<open>Properties\<close>

text \<open>
  C38: The ASUS NR09 reader restores the drive. Take a drive whose memory changes only by writes or
  by losing its power. A source that opened is consumed by a close only when the memory has the stock
  words of the disc that was recognised, or the drive lost its power, provided no read was tried after
  a preparation to close; an opening that fails releases the drive with the memory it found, or the
  stock words, or without power, and so does closing a source that a failed opening left to the
  caller.
\<close>

theorem asus_restores_the_drive:
  assumes "asus_volatile tops mem power_on" and "\<forall>k t. snd (opener k) = Some t \<longrightarrow> mem t = found \<or> mem t = power_on"
    and "asus_source_open_profile tops required opener host retries ready_timeout None = (r, source, released)"
  shows "(\<forall>c u. released = Some c \<longrightarrow> oc_transport c = Some u \<longrightarrow>
           asus_left found power_on (asus_part (as_profile c)) (mem u))
    \<and> (\<forall>e c s lost. r = Inl e \<longrightarrow> source = Some c \<longrightarrow>
         gdox_source_close (asus_source_ops tops) (Some c) = (s, lost, None) \<longrightarrow>
         (\<exists>c'. gdox_source_prepare_close (asus_source_ops tops) (Some c) = (Inr (), Some c')
            \<and> (\<forall>u. oc_transport c' = Some u \<longrightarrow> asus_left found power_on (asus_part (as_profile c')) (mem u))))
    \<and> (\<forall>kind c tried c' s lost. r = Inr kind \<longrightarrow> source = Some c \<longrightarrow>
         opt_session (asus_source_ops tops) False c tried c' \<longrightarrow>
         gdox_source_close (asus_source_ops tops) (Some c') = (s, lost, None) \<longrightarrow>
         (\<exists>p c''. as_profile c = Some p
            \<and> gdox_source_prepare_close (asus_source_ops tops) (Some c') = (Inr (), Some c'')
            \<and> (\<forall>u. oc_transport c'' = Some u \<longrightarrow> mem u = power_on \<or> asus_stock_memory p (mem u))))"
proof (intro conjI allI impI)
  let ?I = "\<lambda>g x d t. d \<or> asus_left g power_on x (mem t)"
  note drive = asus_volatile_drive[OF assms(1)]
  have "open_holds (\<lambda>t. \<forall>x. ?I found x False t) (snd (opener k))" for k
    using assms(2) by (auto simp: open_holds_def asus_left_def)
  note opened = asus_drive.opening_accounts[OF drive this assms(3)]
  note defs = asus_drive.asus_settled_def[OF drive] asus_drive.asus_account_def[OF drive]
    asus_drive.asus_selected_def[OF drive] asus_drive.asus_untouched_def[OF drive]
  show "asus_left found power_on (asus_part (as_profile c)) (mem u)"
    if "released = Some c" "oc_transport c = Some u" for c u
    using opened that by (auto simp: defs oc_holds_def asus_part_simps)
  show "\<exists>c'. gdox_source_prepare_close (asus_source_ops tops) (Some c) = (Inr (), Some c')
      \<and> (\<forall>u. oc_transport c' = Some u \<longrightarrow> asus_left found power_on (asus_part (as_profile c')) (mem u))"
    if "r = Inl e" "source = Some c" "gdox_source_close (asus_source_ops tops) (Some c) = (s, lost, None)" for e c s lost
  proof -
    have "asus_drive.asus_account (?I found) c" using opened that(2) by blast
    from asus_drive.account_closes[OF drive this that(3)[unfolded asus_source_ops_def]]
    obtain c' where c': "gdox_source_prepare_close (opt_source_ops (asus_driver tops) tops asus_sector_count) (Some c) =
        (Inr (), Some c')" "asus_drive.asus_settled (?I found) c'" by blast
    then show ?thesis
      unfolding asus_source_ops_def by (auto simp: defs oc_holds_def open_holds_def asus_part_simps)
  qed
  fix kind c tried c' s lost
  assume ok: "r = Inr kind" "source = Some c" and ses: "opt_session (asus_source_ops tops) False c tried c'"
    and cl: "gdox_source_close (asus_source_ops tops) (Some c') = (s, lost, None)"
  obtain p where p: "p \<in> set media_profiles" "oc_active c" "as_profile c = Some p"
    using opened ok by (auto simp: defs oc_holds_def asus_part_simps)
  note owes = asus_drive.asus_driver_patched[OF drive p(1), of power_on]
  have "opt_owed (?I power_on) (asus_part (Some p)) c"
    using p by (simp add: opt_owed_def oc_holds_def open_holds_def asus_part_simps)
  then have "opt_owed (?I power_on) (asus_part (Some p)) c'"
    using patched_driver.session_owed[OF owes ses[unfolded asus_source_ops_def]] p(2) by blast
  from patched_driver.source_closing[OF owes this cl[unfolded asus_source_ops_def]] p(3)
  show "\<exists>p c''. as_profile c = Some p
      \<and> gdox_source_prepare_close (asus_source_ops tops) (Some c') = (Inr (), Some c'')
      \<and> (\<forall>u. oc_transport c'' = Some u \<longrightarrow> mem u = power_on \<or> asus_stock_memory p (mem u))"
    unfolding asus_source_ops_def by (auto simp: oc_holds_def open_holds_def asus_left_def)
qed

theorem asus_restores_the_drive_witness:
  "\<exists>c. gdox_asus_nr09_source_open sample_asus (\<lambda>_. (Inr (), Some (sample_memory False, 0, 0))) ready_optical 0 0 None =
       (Inr ASUS_MEDIA_XGD1, Some c, None) \<and> oc_transport c = Some (sample_memory True, 0, 0)
     \<and> (\<forall>s lost. gdox_source_close (asus_source_ops sample_asus) (Some c) = (s, lost, None) \<longrightarrow>
          (\<exists>c''. gdox_source_prepare_close (asus_source_ops sample_asus) (Some c) = (Inr (), Some c'')
             \<and> (\<forall>u. oc_transport c'' = Some u \<longrightarrow> fst u = (\<lambda>_. []) \<or> asus_stock_memory xgd1_profile (fst u))))"
proof -
  obtain c where c: "gdox_asus_nr09_source_open sample_asus (\<lambda>_. (Inr (), Some (sample_memory False, 0, 0))) ready_optical 0 0
      None = (Inr ASUS_MEDIA_XGD1, Some c, None)" "sample_context True True 0 0 0 c"
    using asus_sample_opens by blast
  note restored = asus_restores_the_drive[OF sample_asus_volatile _ c(1)[unfolded gdox_asus_nr09_source_open_def],
      of "sample_memory False" "\<lambda>_. []"]
  have "oc_transport c = Some (sample_memory True, 0, 0)" "as_profile c = Some xgd1_profile"
    using c(2) by (simp_all add: sample_context_def)
  with restored c(1) opt_session.start[of "asus_source_ops sample_asus" False c] show ?thesis by auto
qed

text \<open>
  C39: The ASUS NR09 reader sends its drive only the commands it was validated with, and writes only
  the words of the disc it recognised. On a recording transport, at any point after an opening and
  any calls, every command is a listed query or a bus reset, and every write stores the stock or the
  live value of one of the eight words of the selected profile; before a profile is selected nothing
  is written.
\<close>

theorem asus_writes_only_its_profile:
  assumes "asus_source_open_profile (logged_ops tops) required opener host retries ready_timeout None =
      (r, Some c, released)"
    and "\<forall>k w log. snd (opener k) = Some (w, log) \<longrightarrow> log = []"
  shows "(\<forall>u log. oc_transport c = Some (u, log) \<longrightarrow> list_all (asus_permitted (asus_part (as_profile c))) log)
    \<and> (\<forall>kind late tried c' u log. r = Inr kind \<longrightarrow>
         opt_session (asus_source_ops (logged_ops tops)) late c tried c' \<longrightarrow> oc_transport c' = Some (u, log) \<longrightarrow>
         as_profile c' = as_profile c \<and> list_all (asus_permitted (asus_part (as_profile c))) log)"
proof (intro conjI allI impI)
  have empty: "\<And>k w log. snd (opener k) = Some (w, log) \<Longrightarrow> log = []" using assms(2) by blast
  have "open_holds (\<lambda>w. \<forall>x. list_all (asus_permitted x) (snd w)) (snd (opener k))" for k
    by (auto simp: open_holds_def dest: empty)
  note opened = recorded_asus.opening_accounts[OF this assms(1)]
  note defs = recorded_asus.asus_account_def recorded_asus.asus_untouched_def recorded_asus.asus_selected_def
  show "list_all (asus_permitted (asus_part (as_profile c))) log" if "oc_transport c = Some (u, log)" for u log
    using opened that by (auto simp: defs opt_owed_def oc_holds_def asus_part_simps)
  fix kind late tried c' u log
  assume ok: "r = Inr kind" and ses: "opt_session (asus_source_ops (logged_ops tops)) late c tried c'"
    and log: "oc_transport c' = Some (u, log)"
  obtain p where p: "p \<in> set media_profiles" "as_profile c = Some p"
      "opt_owed (\<lambda>x _ w. list_all (asus_permitted x) (snd w)) (asus_part (Some p)) c"
    using opened ok by (auto simp: defs opt_owed_def oc_holds_def asus_part_simps)
  from patched_driver.session_holds[OF recorded_asus.asus_driver_patched[OF p(1)] _ ses[unfolded asus_source_ops_def] p(3)] log p(2)
  show "as_profile c' = as_profile c" "list_all (asus_permitted (asus_part (as_profile c))) log"
    by (auto simp: opt_owed_def oc_holds_def asus_part_simps)
qed

theorem asus_writes_only_its_profile_witness:
  "\<exists>c e. gdox_asus_nr09_source_open (logged_ops stuck_drive) (\<lambda>_. (Inr (), Some ((), []))) ready_optical 0 0 None =
      (Inl e, Some c, None) \<and> oc_transport c = Some ((), [SentIn inquiry_cdb 96])
    \<and> list_all (asus_permitted (asus_part (as_profile c))) [SentIn inquiry_cdb 96]"
proof -
  obtain c e where c: "gdox_asus_nr09_source_open (logged_ops stuck_drive) (\<lambda>_. (Inr (), Some ((), []))) ready_optical 0 0 None =
      (Inl e, Some c, None)" "oc_transport c = Some ((), [SentIn inquiry_cdb 96])"
    using stuck_asus_opening by blast
  from asus_writes_only_its_profile[OF c(1)[unfolded gdox_asus_nr09_source_open_def]] c show ?thesis by auto
qed

text \<open>
  C40: The debt can be lost. A preparation to close that clears the debt has the stock words of the
  disc back in the drive (or the drive lost its power), also when the preparation of the transport
  then fails and the source stays open. Every recovery that succeeds after it, for any drive with
  volatile words, has put the live words into the drive again (or the drive lost its power) and has
  not noted a debt, and every later preparation to close leaves them there. It happens in a run of a
  drive from its opening on, for every number of read retries: the preparation restores and fails,
  the next read needs one recovery, and the source closes with success and the live words in the drive.
\<close>

theorem asus_late_read_leaves_live:
  "(asus_volatile tops mem power_on \<longrightarrow> p \<in> set media_profiles \<longrightarrow> as_profile c0 = Some p \<longrightarrow> oc_active c0 \<longrightarrow>
      gdox_source_prepare_close (asus_source_ops tops) (Some c0) = (q, Some c1) \<longrightarrow> \<not> oc_active c1 \<longrightarrow>
      (\<forall>u. oc_transport c1 = Some u \<longrightarrow> mem u = power_on \<or> asus_stock_memory p (mem u))
      \<and> (\<forall>expected c2. opt_recover (asus_driver tops) tops expected c1 = (Inr (), c2) \<longrightarrow>
           \<not> oc_active c2 \<and> (\<forall>u. oc_transport c2 = Some u \<longrightarrow> mem u = power_on \<or> asus_live_memory p (mem u))
           \<and> (\<forall>z c3. gdox_source_prepare_close (asus_source_ops tops) (Some c2) = (z, Some c3) \<longrightarrow>
                \<not> oc_active c3 \<and> (\<forall>u. oc_transport c3 = Some u \<longrightarrow> mem u = power_on \<or> asus_live_memory p (mem u)))))
   \<and> (\<exists>c c1 c2 e. gdox_asus_nr09_source_open sample_asus (\<lambda>_. (Inr (), Some (sample_memory False, 1, 1))) ready_optical
          (Suc retries) 0 None = (Inr ASUS_MEDIA_XGD1, Some c, None)
        \<and> oc_active c \<and> oc_transport c = Some (sample_memory True, 1, 1)
        \<and> gdox_source_prepare_close (asus_source_ops sample_asus) (Some c) = (Inl e, Some c1)
        \<and> \<not> oc_active c1 \<and> oc_transport c1 = Some (sample_memory False, 0, 1)
        \<and> gdox_source_read (asus_source_ops sample_asus) (Some c1) 0 1 2048 = (Inr sample_descriptor, Some c2)
        \<and> \<not> oc_active c2 \<and> oc_transport c2 = Some (sample_memory True, 0, 0)
        \<and> gdox_source_prepare_close (asus_source_ops sample_asus) (Some c2) = (Inr (), Some c2)
        \<and> gdox_source_close (asus_source_ops sample_asus) (Some c2) = (Inr (), False, None)
        \<and> asus_stock_memory xgd1_profile (sample_memory False)
        \<and> asus_live_memory xgd1_profile (sample_memory True) \<and> \<not> asus_stock_memory xgd1_profile (sample_memory True))"
proof (rule conjI)
  let ?x = "asus_part (Some p)" and ?I = "\<lambda>x d t. d \<or> asus_left power_on power_on x (mem t)"
  let ?lives = "\<lambda>c. \<forall>u. oc_transport c = Some u \<longrightarrow> mem u = power_on \<or> asus_live_memory p (mem u)"
  show "asus_volatile tops mem power_on \<longrightarrow> p \<in> set media_profiles \<longrightarrow> as_profile c0 = Some p \<longrightarrow> oc_active c0 \<longrightarrow>
      gdox_source_prepare_close (asus_source_ops tops) (Some c0) = (q, Some c1) \<longrightarrow> \<not> oc_active c1 \<longrightarrow>
      (\<forall>u. oc_transport c1 = Some u \<longrightarrow> mem u = power_on \<or> asus_stock_memory p (mem u))
      \<and> (\<forall>expected c2. opt_recover (asus_driver tops) tops expected c1 = (Inr (), c2) \<longrightarrow>
           \<not> oc_active c2 \<and> ?lives c2
           \<and> (\<forall>z c3. gdox_source_prepare_close (asus_source_ops tops) (Some c2) = (z, Some c3) \<longrightarrow>
                \<not> oc_active c3 \<and> ?lives c3))" (is "_ \<longrightarrow> _ \<longrightarrow> _ \<longrightarrow> _ \<longrightarrow> _ \<longrightarrow> _ \<longrightarrow> ?restored \<and> ?patched")
  proof (intro impI)
    assume v: "asus_volatile tops mem power_on" and p: "p \<in> set media_profiles" and c0: "as_profile c0 = Some p" "oc_active c0"
      and prep: "gdox_source_prepare_close (asus_source_ops tops) (Some c0) = (q, Some c1)" and c1: "\<not> oc_active c1"
    note drive = asus_volatile_drive[OF v, of power_on]
    note owes = asus_drive.asus_driver_patched[OF drive p]
    have "opt_owed ?I ?x c0" using c0 by (simp add: opt_owed_def oc_holds_def open_holds_def asus_part_simps)
    from patched_driver.source_preparing[OF owes this prep[unfolded asus_source_ops_def]] c1
    have held: "oc_holds (?I ?x False) False ?x c1" by (cases q) (auto simp: opt_owed_def)
    have lives: "\<not> oc_active c \<and> ?lives c" if "oc_holds (asus_drive.asus_lives ?I
        (\<lambda>ws t. mem t = power_on \<or> (\<forall>(cdb, v) \<in> set ws. mem t cdb = v)) p) False ?x c" for c
      using that
      by (fastforce simp: oc_holds_def asus_drive.asus_lives_def[OF drive] asus_live_shown_def asus_live_memory_def)
    have armed: "oc_holds (?I ?x True) False ?x c1" using held by (simp add: oc_holds_def open_holds_def)
    have "?restored" using held by (auto simp: oc_holds_def asus_left_def)
    moreover have "?patched"
    proof (intro allI impI)
      fix expected c2
      assume rec: "opt_recover (asus_driver tops) tops expected c1 = (Inr (), c2)"
      note c2 = leadsD[OF asus_drive.recovered_lives[OF drive p] armed rec, simplified]
      have "\<not> oc_active c3 \<and> ?lives c3"
        if "gdox_source_prepare_close (asus_source_ops tops) (Some c2) = (z, Some c3)" for z c3
      proof -
        have "opt_prepare_close (asus_driver tops) tops c2 = (z, c3)"
          using that by (auto simp: gdox_source_prepare_close_def asus_source_ops_def split: prod.splits)
        then show ?thesis by (rule lives[OF keepsD[OF asus_drive.unnoted_prepares[OF drive] c2]])
      qed
      with lives[OF c2] show "\<not> oc_active c2 \<and> ?lives c2
          \<and> (\<forall>z c3. gdox_source_prepare_close (asus_source_ops tops) (Some c2) = (z, Some c3) \<longrightarrow>
                \<not> oc_active c3 \<and> ?lives c3)" by blast
    qed
    ultimately show "?restored \<and> ?patched" by blast
  qed
  obtain c where c: "gdox_asus_nr09_source_open sample_asus (\<lambda>_. (Inr (), Some (sample_memory False, 1, 1))) ready_optical
      (Suc retries) 0 None = (Inr ASUS_MEDIA_XGD1, Some c, None)" "sample_context True True 1 1 (Suc retries) c"
    using asus_sample_opens by blast
  obtain c1 where c1: "gdox_source_prepare_close (asus_source_ops sample_asus) (Some c) =
      (fail ERROR_TRANSPORT ''interface is busy'', Some c1)" "sample_context False False 0 (Suc 0) (Suc retries) c1"
    using sample_prepare[OF c(2)] by auto
  obtain c2 where c2: "gdox_source_read (asus_source_ops sample_asus) (Some c1) 0 1 2048 = (Inr sample_descriptor, Some c2)"
      "sample_context False True 0 0 (Suc retries) c2"
    using sample_late_read[OF c1(2)] by blast
  have states: "oc_active c \<and> oc_transport c = Some (sample_memory True, 1, 1)"
      "\<not> oc_active c1 \<and> oc_transport c1 = Some (sample_memory False, 0, 1)"
      "\<not> oc_active c2 \<and> oc_transport c2 = Some (sample_memory True, 0, 0)"
    using c(2) c1(2) c2(2) by (simp_all add: sample_context_def)
  show "\<exists>c c1 c2 e. gdox_asus_nr09_source_open sample_asus (\<lambda>_. (Inr (), Some (sample_memory False, 1, 1))) ready_optical
          (Suc retries) 0 None = (Inr ASUS_MEDIA_XGD1, Some c, None)
        \<and> oc_active c \<and> oc_transport c = Some (sample_memory True, 1, 1)
        \<and> gdox_source_prepare_close (asus_source_ops sample_asus) (Some c) = (Inl e, Some c1)
        \<and> \<not> oc_active c1 \<and> oc_transport c1 = Some (sample_memory False, 0, 1)
        \<and> gdox_source_read (asus_source_ops sample_asus) (Some c1) 0 1 2048 = (Inr sample_descriptor, Some c2)
        \<and> \<not> oc_active c2 \<and> oc_transport c2 = Some (sample_memory True, 0, 0)
        \<and> gdox_source_prepare_close (asus_source_ops sample_asus) (Some c2) = (Inr (), Some c2)
        \<and> gdox_source_close (asus_source_ops sample_asus) (Some c2) = (Inr (), False, None)
        \<and> asus_stock_memory xgd1_profile (sample_memory False)
        \<and> asus_live_memory xgd1_profile (sample_memory True) \<and> \<not> asus_stock_memory xgd1_profile (sample_memory True)"
    using c(1) c1(1) c2(1) states sample_prepare_settled[OF c2(2)] sample_words_kinds by blast
qed

theorem asus_late_read_leaves_live_witness:
  "\<exists>c0 c1 c2. oc_active c0 \<and> as_profile c0 = Some xgd1_profile
     \<and> gdox_source_prepare_close (asus_source_ops sample_asus) (Some c0) = (fail ERROR_TRANSPORT ''interface is busy'', Some c1)
     \<and> (\<forall>u. oc_transport c1 = Some u \<longrightarrow> fst u = (\<lambda>_. []) \<or> asus_stock_memory xgd1_profile (fst u))
     \<and> opt_recover (asus_driver sample_asus) sample_asus 0 c1 = (Inr (), c2)
     \<and> \<not> oc_active c2 \<and> (\<forall>u. oc_transport c2 = Some u \<longrightarrow> fst u = (\<lambda>_. []) \<or> asus_live_memory xgd1_profile (fst u))"
proof -
  obtain c0 where c0: "sample_context True True 1 1 1 c0" using asus_sample_opens by blast
  obtain c1 where c1: "gdox_source_prepare_close (asus_source_ops sample_asus) (Some c0) =
      (fail ERROR_TRANSPORT ''interface is busy'', Some c1)" "sample_context False False 0 (Suc 0) (Suc 0) c1"
    using sample_prepare[OF c0] by auto
  have known: "xgd1_profile \<in> set media_profiles" by (simp add: media_profiles_def)
  have start: "as_profile c0 = Some xgd1_profile" "oc_active c0" "\<not> oc_active c1"
    using c0 c1(2) by (simp_all add: sample_context_def)
  note late = asus_late_read_leaves_live[THEN conjunct1, rule_format, OF sample_asus_volatile known start(1,2) c1(1) start(3)]
  show ?thesis
    using late c1(1) start sample_recover[OF c1(2)] by blast
qed

end
