(* ===== verification/Spec2Isabelle.thy ===== *)
theory Spec2Isabelle
  imports PartitionSource PatchedSource DirectoryCache XdvdfsPatches XbePatchSource DefaultXbeCache FileReadaheadSource Disc LiveDisc NbdServer CompactTree PreservedImage
    Ad7701hDrive Monitors RuntimeCommands X360 AsusNr09Drive
begin

text \<open>
  A verification library of gdox, a program that plays Xbox discs directly from an optical drive: it
  reads sectors through a chain of sector sources, finds the game partition and its executables,
  patches the media checks of the executables while they are read, and serves the result to an
  emulator over the network block device protocol, compacts it to an image or preserves it to a file.

  \<^bold>\<open>The parts and where they are modelled.\<close>

  \<^item> \<open>Prelude\<close>, \<open>Bytes\<close>, \<open>Containers\<close>: error objects (src/src/core/error.c), machine integers with their
    wrap-around, byte order, byte spans of a medium, the two binary-search loops, growing arrays and
    \<open>qsort\<close>.
  \<^item> \<open>Source\<close>, \<open>Adapter\<close>: the operation table of src/include/gdox/source.h and its checked entry points
    in src/src/core/source.c. A handle is an optional context; an adapter is a table built from the
    table of the source beneath. The contracts are the locales \<open>sector_source\<close> (what a read may
    deliver), \<open>reliable_source\<close> (when it delivers), \<open>closable_source\<close> (closing loses nothing) and
    \<open>steady_source\<close>; every source of the program interprets those it keeps.
  \<^item> \<open>FileSource\<close> (src/src/platform/file_source_posix.c), \<open>PartitionSource\<close> and \<open>PatchedSource\<close>
    (source.c), \<open>DirectoryCache\<close> (xdvdfs_directory_cache.c), \<open>XbePatch\<close> and \<open>XbePatchSource\<close>
    (xbe_patch_source.c), \<open>DefaultXbeCache\<close> (default_xbe_cache_source.c), \<open>FileReadahead\<close> and
    \<open>FileReadaheadSource\<close> (file_readahead_source.c), \<open>CompactSource\<close>, \<open>CompactBuild\<close>, \<open>CompactLayout\<close>
    and \<open>CompactTree\<close> (compact.c): the sources. The main lemma of each gives the bytes it shows as a
    function of the bytes beneath, for every request, cache state and answer of the layer below.
  \<^item> \<open>Xdvdfs\<close>, \<open>XdvdfsDirectory\<close>, \<open>XdvdfsTitle\<close>, \<open>XdvdfsInspect\<close>, \<open>XdvdfsPatches\<close>: the file system of
    xdvdfs.c, from the volume descriptor over directory trees and certificates to the traversal of the
    volume and the list of media patches.
  \<^item> \<open>Disc\<close> (disc.c) and \<open>LiveSource\<close>, \<open>LiveDisc\<close> (live.c): byte-addressed discs, and the composition
    of partition, directory cache, executable cache, read-ahead and patching into one playable disc.
  \<^item> \<open>NbdWire\<close>, \<open>NbdTelemetry\<close>, \<open>NbdSocket\<close>, \<open>NbdProtocol\<close>, \<open>NbdServer\<close> (src/src/platform/nbd_*.c): the
    server an emulator reads the disc from, over a model of the host's sockets and clock.
  \<^item> \<open>Hash\<close> (hash.c), \<open>Security\<close> (security.c), \<open>PreservationIo\<close> (preservation_io_posix.c and
    \<open>gdox_hash_file\<close>), \<open>PreservationCatalog\<close> (preservation_catalog.c), \<open>PreservationManifest\<close>
    (preservation_manifest.c), \<open>Preserve\<close> and \<open>PreservedImage\<close> (preserve.c): preserving a disc to a
    file with checksums and a manifest, over a
    model of the file system with inodes and names.
  \<^item> \<open>Actions\<close>: the small state-passing language the drive code is written in, with its rules for
    invariants (\<open>keeps\<close>), Hoare triples (\<open>leads\<close>) and results (\<open>outcome\<close>). \<open>ScsiTransport\<close>
    (scsi_transport.c): the checked entry points of a transport, which is a parameter. \<open>MmcCommands\<close>
    (mmc_commands.c): the standard commands, the events of a drive and the media tracker.
  \<^item> \<open>Ad7701h\<close> and \<open>Ad7701hDrive\<close> (ad7701h_source.c): the reader of the AD-7701H drive, which changes the
    drive's view of the disc and has to put it back. The drive is the locale \<open>ad_drive\<close>: a transport
    whose geometry bytes change by the driver's write command only. The commands are recorded by wrapping
    any transport.
  \<^item> \<open>OpticalReader\<close> (what asus_nr09_source.c and gp08_source.c share, and optical_restore.h) over a record of
    what a driver plugs in, and \<open>OpticalDrive\<close>, the contract of a drive whose memory is patched and
    of its driver: the locales \<open>quiet_optical\<close>, \<open>patched_drive\<close> and \<open>patched_driver\<close>. \<open>AsusNr09\<close> and
    \<open>AsusNr09Drive\<close> (asus_nr09_source.c): the reader of the ASUS NR09, which recognises the disc by the
    drive's memory, changes it and puts it back.
  \<^item> \<open>Monitors\<close> (optical_monitor.c, physical_media_monitor.c, background_lifecycle.c) and \<open>RuntimeCommands\<close>
    (runtime_commands.c): the state machines and the request ring of the application, with histories of
    their calls.
  \<^item> \<open>X360\<close> (x360.c): the search of a disc for a volume of the second console and its executable, over the
    trees its directories really form, and the facts the launcher records of it.

  \<^bold>\<open>How state and effects appear.\<close> A C structure is a record, an enumeration a datatype. A function
  that returns \<open>bool\<close> and fills an error object returns \<open>Inl\<close> of that error or \<open>Inr\<close> of its outputs, with
  the changed state beside it. Allocations are answered by a function or a list the operation takes,
  so every failure path is a branch of the model. Kernels, sockets, clocks, locks and the calls of other
  threads are scripts: finite lists of answers, after which the calls work.

  \<^bold>\<open>Loops.\<close> Structural loops are \<open>fun\<close>; the others are \<open>function\<close> with a measure (remaining bytes, answers
  left in the script, unvisited offsets). The socket loops and the session of the server may wait for
  a peer that never answers: they are \<open>partial_function (option)\<close>, where \<open>None\<close> is not returning, and
  \<open>nbd_session_ends\<close> proves that a session over a finite stream returns. No fuel is used.

  \<^bold>\<open>What is not modelled.\<close> The drivers of the other drives and the USB transports (vendor commands against hardware whose
  answers are not documented in the repository; the contract their reads have to keep is the locale
  \<open>reliable_source\<close>), the Windows twins of the POSIX files, the desktop integration, the emulator
  processes and the application runtime, which call the operating system and each other with
  little logic of their own, the digests of the operating system (the parameter \<open>digest_ops\<close>), the C++ user
  interface and the Android port. Floating-point rounding of the progress rates is not modelled.
\<close>

end
